(* ===== verification/Prelude.thy ===== *)
theory Prelude
  imports Main "HOL-Library.Char_ord" "HOL-Library.List_Lexorder"
begin

text \<open>
  Shared vocabulary of the development: the result shape of fallible operations, the
  saturating and checked machine arithmetic of the Rust standard library that the validator
  uses, and the generic lemmas on lists, options and sums that the components share.

  A Rust \<open>Result<A, E>\<close> is \<open>'e + 'a\<close> with \<open>Inl\<close> for the error.  A method on
  \<open>&mut self\<close> that may fail returns its result together with the state it leaves behind,
  so that "an error leaves the state untouched" is a statement and not a convention.
  A Rust \<open>String\<close> is its UTF-8 byte sequence, a \<open>char list\<close> (an Isabelle
  \<open>char\<close> is one byte); \<open>Char_ord\<close> and \<open>List_Lexorder\<close> give it the byte-wise
  lexicographic order of Rust's \<open>Ord for str\<close>.
\<close>

named_theorems arith_defs "definitions of the fixed-width arithmetic"
named_theorems inv_intros "introduction rules of the component invariants"

type_synonym ('e, 'a, 's) outcome_of = "('e + 'a) \<times> 's"

section \<open>Fixed-width arithmetic\<close>

definition i64_max :: int where
  "i64_max = 9223372036854775807"

definition i64_min :: int where
  "i64_min = - 9223372036854775808"

definition in_i64 :: "int \<Rightarrow> bool" where
  "in_i64 x \<longleftrightarrow> i64_min \<le> x \<and> x \<le> i64_max"

definition u32_max :: nat where
  "u32_max = 4294967295"

definition u64_max :: nat where
  "u64_max = 18446744073709551615"

definition usize_max :: nat where
  "usize_max = 18446744073709551615"

text \<open>\<open>i64::saturating_sub\<close> and friends: the exact result clamped into the type.\<close>

definition clamp_i64 :: "int \<Rightarrow> int" where
  "clamp_i64 x = (if x < i64_min then i64_min else if i64_max < x then i64_max else x)"

definition sat_sub :: "int \<Rightarrow> int \<Rightarrow> int" where
  "sat_sub a b = clamp_i64 (a - b)"

definition checked_add_i64 :: "int \<Rightarrow> int \<Rightarrow> int option" where
  "checked_add_i64 a b = (if in_i64 (a + b) then Some (a + b) else None)"

definition checked_mul_i64 :: "int \<Rightarrow> int \<Rightarrow> int option" where
  "checked_mul_i64 a b = (if in_i64 (a * b) then Some (a * b) else None)"

definition checked_mul_u64 :: "nat \<Rightarrow> nat \<Rightarrow> nat option" where
  "checked_mul_u64 a b = (if a * b \<le> u64_max then Some (a * b) else None)"

definition sat_add_u32 :: "nat \<Rightarrow> nat \<Rightarrow> nat" where
  "sat_add_u32 a b = min u32_max (a + b)"

definition sat_mul_u32 :: "nat \<Rightarrow> nat \<Rightarrow> nat" where
  "sat_mul_u32 a b = min u32_max (a * b)"

text \<open>\<open>u32::try_from(n).unwrap_or(u32::MAX)\<close> for a \<open>usize\<close> n.\<close>

definition u32_of_usize :: "nat \<Rightarrow> nat" where
  "u32_of_usize n = (if n \<le> u32_max then n else u32_max)"

lemmas width_consts [arith_defs] =
  i64_max_def i64_min_def u32_max_def u64_max_def usize_max_def

lemma in_i64_sat_sub [simp, intro]: "in_i64 (sat_sub a b)"
  by (auto simp: in_i64_def sat_sub_def clamp_i64_def arith_defs)

lemma sat_sub_exact: "in_i64 (a - b) \<Longrightarrow> sat_sub a b = a - b"
  by (auto simp: sat_sub_def clamp_i64_def in_i64_def)

lemma sat_sub_self [simp]: "sat_sub a a = 0"
  by (simp add: sat_sub_def clamp_i64_def arith_defs)

text \<open>
  Saturation never disturbs a comparison against a value of the type: clamping is monotone
  and fixes every in-range value.
\<close>

lemma sat_sub_less_iff: "in_i64 k \<Longrightarrow> i64_min < k \<Longrightarrow> k < i64_max \<or> a - b < i64_max \<Longrightarrow> sat_sub a b < k \<longleftrightarrow> a - b < k"
  by (auto simp: sat_sub_def clamp_i64_def in_i64_def)

lemma sat_sub_le_self: "in_i64 a \<Longrightarrow> 0 \<le> b \<Longrightarrow> sat_sub a b \<le> a"
  by (auto simp: sat_sub_def clamp_i64_def in_i64_def)

lemma less_sat_sub_iff: "in_i64 t \<Longrightarrow> in_i64 a \<Longrightarrow> 0 \<le> b \<Longrightarrow> t < sat_sub a b \<longleftrightarrow> t < a - b"
  by (auto simp: sat_sub_def clamp_i64_def in_i64_def)

lemma u32_of_usize_id [simp]: "n \<le> u32_max \<Longrightarrow> u32_of_usize n = n"
  by (simp add: u32_of_usize_def)

lemma u32_of_usize_le: "u32_of_usize n \<le> n"
  by (simp add: u32_of_usize_def)

text \<open>\<open>u64::ilog2\<close>.\<close>

fun ilog2 :: "nat \<Rightarrow> nat" where
  "ilog2 n = (if n < 2 then 0 else Suc (ilog2 (n div 2)))"

declare ilog2.simps [simp del]

lemma ilog2_bounds: "0 < n \<Longrightarrow> 2 ^ ilog2 n \<le> n \<and> n < 2 ^ Suc (ilog2 n)"
proof (induction n rule: ilog2.induct)
  case (1 n)
  show ?case
  proof (cases "n < 2")
    case True
    with 1 show ?thesis by (simp add: ilog2.simps [of n])
  next
    case False
    with 1 have "2 ^ ilog2 (n div 2) \<le> n div 2 \<and> n div 2 < 2 ^ Suc (ilog2 (n div 2))" by simp
    with False show ?thesis by (simp add: ilog2.simps [of n]) linarith
  qed
qed

section \<open>Lists, options and sums\<close>

lemma dropWhile_eq_filter:
  "sorted_wrt (\<lambda>x y. P y \<longrightarrow> P x) xs \<Longrightarrow> dropWhile P xs = filter (\<lambda>x. \<not> P x) xs"
proof (induction xs)
  case Nil
  then show ?case by simp
next
  case (Cons x xs)
  show ?case
  proof (cases "P x")
    case True
    with Cons show ?thesis by simp
  next
    case False
    with Cons.prems have "\<forall>y \<in> set xs. \<not> P y" by auto
    with False show ?thesis by simp
  qed
qed

lemma set_dropWhile_subset: "set (dropWhile P xs) \<subseteq> set xs"
  by (auto dest: set_dropWhileD)

lemma sorted_wrt_dropWhile: "sorted_wrt R xs \<Longrightarrow> sorted_wrt R (dropWhile P xs)"
  by (induction xs) auto

lemma sorted_wrt_drop: "sorted_wrt R xs \<Longrightarrow> sorted_wrt R (drop n xs)"
  by (induction xs arbitrary: n) (auto simp: drop_Cons split: nat.splits)

lemma last_filter: "xs \<noteq> [] \<Longrightarrow> P (last xs) \<Longrightarrow> last (filter P xs) = last xs"
  by (induction xs) (auto simp: filter_empty_conv)

section \<open>Decimal rendering\<close>

text \<open>\<open>u64::to_string\<close> and \<open>i64::to_string\<close>, as \<open>format!\<close> uses them.\<close>

definition digit_char :: "nat \<Rightarrow> char" where
  "digit_char d = char_of (48 + d)"

fun show_nat :: "nat \<Rightarrow> string" where
  "show_nat n = (if n < 10 then [digit_char n] else show_nat (n div 10) @ [digit_char (n mod 10)])"

declare show_nat.simps [simp del]

definition show_int :: "int \<Rightarrow> string" where
  "show_int x = (if x < 0 then CHR ''-'' # show_nat (nat (- x)) else show_nat (nat x))"

definition digit_val :: "char \<Rightarrow> nat" where
  "digit_val c = of_char c - 48"

definition read_nat :: "string \<Rightarrow> nat" where
  "read_nat s = foldl (\<lambda>a c. 10 * a + digit_val c) 0 s"

lemma digit_val_digit_char [simp]: "d < 10 \<Longrightarrow> digit_val (digit_char d) = d"
  by (simp add: digit_val_def digit_char_def take_bit_nat_def)

lemma read_nat_show_nat [simp]: "read_nat (show_nat n) = n"
proof (induction n rule: show_nat.induct)
  case (1 n)
  show ?case
  proof (cases "n < 10")
    case True
    then show ?thesis by (simp add: show_nat.simps [of n] read_nat_def)
  next
    case False
    then have "read_nat (show_nat n) = 10 * read_nat (show_nat (n div 10)) + n mod 10"
      by (simp add: show_nat.simps [of n] read_nat_def)
    with False 1 show ?thesis by simp
  qed
qed

lemma show_nat_inj [simp]: "show_nat m = show_nat n \<longleftrightarrow> m = n"
  by (metis read_nat_show_nat)

text \<open>\<open>join\<close> of the standard library.\<close>

fun join_strings :: "string \<Rightarrow> string list \<Rightarrow> string" where
  "join_strings sep [] = []"
| "join_strings sep [x] = x"
| "join_strings sep (x # y # xs) = x @ sep @ join_strings sep (y # xs)"

end
