(* ===== verification/Errors.thy ===== *)
theory Errors
  imports Prelude
begin

text \<open>
  \<open>ephemeral-anomaly/src/errors.rs\<close> (and \<open>DedupLedgerError\<close> of \<open>dedup_ledger.rs\<close>):
  the error surfaces of library verification and of the event stream, the log sanitiser
  every attacker-controlled string passes through, and the collapse of a ledger failure into
  one stream error.
\<close>

section \<open>Log sanitiser\<close>

definition MAX_LOG_STRING_BYTES :: nat where
  "MAX_LOG_STRING_BYTES = 256"

definition printable_byte :: "char \<Rightarrow> bool" where
  "printable_byte c \<longleftrightarrow> 32 \<le> (of_char c :: nat) \<and> (of_char c :: nat) \<le> 126"

definition sanitize_log_string :: "string \<Rightarrow> string" where
  "sanitize_log_string input =
     (let truncated = (if length input > MAX_LOG_STRING_BYTES
                       then take MAX_LOG_STRING_BYTES input else input)
      in map (\<lambda>b. if printable_byte b then b else CHR ''?'') truncated)"

lemma sanitize_log_string_alt:
  "sanitize_log_string s =
     map (\<lambda>b. if printable_byte b then b else CHR ''?'') (take MAX_LOG_STRING_BYTES s)"
  by (simp add: sanitize_log_string_def)

lemma printable_question_mark [simp]: "printable_byte (CHR ''?'')"
  by (simp add: printable_byte_def)

lemma length_sanitize: "length (sanitize_log_string s) = min MAX_LOG_STRING_BYTES (length s)"
  by (simp add: sanitize_log_string_alt min.commute)

lemma printable_sanitize: "c \<in> set (sanitize_log_string s) \<Longrightarrow> printable_byte c"
  by (auto simp: sanitize_log_string_alt split: if_splits)

lemma sanitize_clean:
  "length s \<le> MAX_LOG_STRING_BYTES \<Longrightarrow> (\<And>c. c \<in> set s \<Longrightarrow> printable_byte c) \<Longrightarrow>
   sanitize_log_string s = s"
  by (simp add: sanitize_log_string_alt map_idI)

lemma sanitize_idem: "sanitize_log_string (sanitize_log_string s) = sanitize_log_string s"
  by (rule sanitize_clean) (auto simp: length_sanitize printable_sanitize)

text \<open>Whatever bytes an attacker supplies, the sanitised string is at most 256 bytes of
  printable ASCII (no newline, escape or high byte survives); a string that is already printable and
  short enough is unchanged, so sanitising twice is sanitising once.\<close>

theorem sanitize_log_safe:
  "length (sanitize_log_string s) = min 256 (length s) \<and>
   (\<forall>c \<in> set (sanitize_log_string s). 32 \<le> (of_char c :: nat) \<and> (of_char c :: nat) \<le> 126) \<and>
   ((\<forall>c \<in> set s. printable_byte c) \<and> length s \<le> 256 \<longrightarrow> sanitize_log_string s = s) \<and>
   sanitize_log_string (sanitize_log_string s) = sanitize_log_string s"
proof (intro conjI ballI impI)
  show "length (sanitize_log_string s) = min 256 (length s)"
    by (simp add: length_sanitize MAX_LOG_STRING_BYTES_def)
  fix c assume "c \<in> set (sanitize_log_string s)"
  then have "printable_byte c" by (rule printable_sanitize)
  then show "32 \<le> (of_char c :: nat)" "(of_char c :: nat) \<le> 126" by (simp_all add: printable_byte_def)
next
  assume "(\<forall>c \<in> set s. printable_byte c) \<and> length s \<le> 256"
  then show "sanitize_log_string s = s" by (intro sanitize_clean) (simp_all add: MAX_LOG_STRING_BYTES_def)
qed (rule sanitize_idem)

lemma sanitize_log_safe_witness: "sanitize_log_string ''ok'' = ''ok''"
  using sanitize_log_safe [of "''ok''"] by (simp add: printable_byte_def)

section \<open>Error types\<close>

datatype dedup_ledger_error =
    CapacityExhausted nat
  | BackendFailure string

definition backend_failure :: "string \<Rightarrow> dedup_ledger_error" where
  "backend_failure reason = BackendFailure (sanitize_log_string reason)"

text \<open>The \<open>Display\<close> text that \<open>thiserror\<close> derives from the \<open>#[error]\<close> attributes.\<close>

definition dedup_error_text :: "dedup_ledger_error \<Rightarrow> string" where
  "dedup_error_text e =
     (case e of
        CapacityExhausted cap \<Rightarrow>
          ''dedup ledger capacity exhausted at '' @ show_nat cap @
          '' entries; rotate library or swap to a higher-cap backend''
      | BackendFailure reason \<Rightarrow> ''dedup ledger backend failure: '' @ reason)"

datatype firing_companion_failure =
    NoCompanionsDeclared
  | CompanionNotFound string
  | CompanionNotCumulative string
  | CompanionWindowTooShort string nat nat

text \<open>\<open>Panicked\<close> is not a variant of the Rust enum: it is the value the model gives a failed
  \<open>expect\<close>, so that "never panics" can be stated.\<close>

datatype anomaly_lib_error =
    CoseVerifyFailed
  | PayloadDecodeFailed
  | AbiVersionMismatch nat nat
  | SignerKidMismatch string string
  | NotYetValid int int
  | Expired int int
  | PatternIdDuplicate string
  | SeverityActionInconsistent string string string
  | UnknownVerbFamily string string
  | FiringRuleCompanionMissing string nat firing_companion_failure
  | LibraryVersionTooOld string nat nat
  | LedgerFailure string
  | Panicked string

datatype stream_error =
    ExpansionExceeded nat nat
  | ClockSkewRejected string int
  | TimestampParseFailed string
  | PatternMissingIndexPlaceholder
  | ZeroIntervalWithMultipleEvents
  | PatternDescriptionCountZero
  | PerMandateCapReached string nat
  | ClockRegression int int
  | PastDatedEventRejected string int int
  | DedupLedgerFailure string

text \<open>\<open>impl From<DedupLedgerError> for StreamError\<close>: both variants collapse into one.\<close>

definition stream_error_of_dedup :: "dedup_ledger_error \<Rightarrow> stream_error" where
  "stream_error_of_dedup err = DedupLedgerFailure (sanitize_log_string (dedup_error_text err))"

section \<open>Texts of the errors\<close>

text \<open>Three characters of the messages are not ASCII: the section sign, less-or-equal and times, in UTF-8.\<close>

definition U_SECTION :: string where "U_SECTION = [CHR 0xC2, CHR 0xA7]"

definition U_LEQ :: string where "U_LEQ = [CHR 0xE2, CHR 0x89, CHR 0xA4]"

definition U_TIMES :: string where "U_TIMES = [CHR 0xC3, CHR 0x97]"

text \<open>The multiplier is \<open>ANTI_WALK_UNDER_COMPANION_MULTIPLIER\<close>.\<close>

fun companion_failure_text :: "firing_companion_failure \<Rightarrow> string" where
  "companion_failure_text NoCompanionsDeclared = ''no firing_rule_companions are declared''"
| "companion_failure_text (CompanionNotFound c) = ''companion `'' @ c @ ''` is not a known pattern_id in this library''"
| "companion_failure_text (CompanionNotCumulative c) =
     ''companion `'' @ c @ ''` exists but its firing_rule is not CumulativeOverBaseline''"
| "companion_failure_text (CompanionWindowTooShort c w req) =
     ''companion `'' @ c @ ''` window '' @ show_nat w @ ''s is shorter than required minimum '' @ show_nat req @
     ''s (10'' @ U_TIMES @ '' the first-match window)''"

fun anomaly_lib_error_text :: "anomaly_lib_error \<Rightarrow> string" where
  "anomaly_lib_error_text CoseVerifyFailed = ''anomaly-library COSE envelope verification failed''"
| "anomaly_lib_error_text PayloadDecodeFailed =
     ''anomaly-library signature payload is not a valid CBOR-encoded AnomalyLibraryPayload''"
| "anomaly_lib_error_text (AbiVersionMismatch expected signed) =
     ''anomaly-library ABI version mismatch: validator expects '' @ show_nat expected @
     '', signed payload declares '' @ show_nat signed"
| "anomaly_lib_error_text (SignerKidMismatch outer signed) =
     ''anomaly-library signer kid mismatch: outer COSE kid `'' @ outer @ ''`, signed payload claims `'' @ signed @ ''`''"
| "anomaly_lib_error_text (NotYetValid issued_at now) =
     ''anomaly-library is not yet valid: issued_at='' @ show_int issued_at @ '', now='' @ show_int now @ '' (unix seconds)''"
| "anomaly_lib_error_text (Expired expires_at now) =
     ''anomaly-library has expired: expires_at='' @ show_int expires_at @ '', now='' @ show_int now @ '' (unix seconds)''"
| "anomaly_lib_error_text (PatternIdDuplicate pid) = ''anomaly library contains duplicate pattern_id `'' @ pid @ ''`''"
| "anomaly_lib_error_text (SeverityActionInconsistent pid sev act) =
     ''pattern `'' @ pid @ ''` declares severity `'' @ sev @ ''` but action `'' @ act @
     ''` (severity high/critical MUST imply action auto-revoke per '' @ U_SECTION @ ''3.5.2)''"
| "anomaly_lib_error_text (UnknownVerbFamily pid family) =
     ''pattern `'' @ pid @ ''` references unknown verb family `'' @ family @ ''`''"
| "anomaly_lib_error_text (FiringRuleCompanionMissing pid w reason) =
     ''pattern `'' @ pid @ ''` has firing_rule=first-match with window '' @ show_nat w @ ''s ('' @ U_LEQ @
     '' anti-walk-under threshold) but '' @ companion_failure_text reason"
| "anomaly_lib_error_text (LibraryVersionTooOld lid hwm attempted) =
     ''anomaly library `'' @ lid @ ''` declares library_version '' @ show_nat attempted @ '' but ledger HWM is '' @
     show_nat hwm @ '' (pattern-library-version-too-old per '' @ U_SECTION @ ''3.5.1)''"
| "anomaly_lib_error_text (LedgerFailure reason) = ''anomaly library replay ledger failed: '' @ reason"
| "anomaly_lib_error_text (Panicked reason) = reason"

fun stream_error_text :: "stream_error \<Rightarrow> string" where
  "stream_error_text (ExpansionExceeded requested cap) =
     ''pattern-description expansion would produce '' @ show_nat requested @ '' events but cap is '' @ show_nat cap @
     '' (MAX_EXPANDED_EVENTS)''"
| "stream_error_text (ClockSkewRejected eid skew) =
     ''event `'' @ eid @ ''` timestamp is '' @ show_int skew @ ''s ahead of current_time (cap: MAX_CLOCK_SKEW_SECONDS)''"
| "stream_error_text (TimestampParseFailed reason) = ''pattern-description timestamp parse failed: '' @ reason"
| "stream_error_text PatternMissingIndexPlaceholder =
     ''pattern-description with count > 1 requires `{i}` placeholder in resource_ref_pattern''"
| "stream_error_text ZeroIntervalWithMultipleEvents =
     ''pattern-description with count > 1 requires interval_seconds > 0 '' @
     ''(zero interval collides all expanded events onto start_time)''"
| "stream_error_text PatternDescriptionCountZero =
     ''pattern-description requires count > 0 (use literal `events: []` for an empty stream)''"
| "stream_error_text (PerMandateCapReached m cap) =
     ''mandate `'' @ m @ ''` already holds '' @ show_nat cap @
     '' live events (cap: MAX_EVENTS_PER_MANDATE); new event rejected''"
| "stream_error_text (ClockRegression t t') =
     ''advance_clock rejected: from='' @ show_int t @ ''s to='' @ show_int t' @ ''s (time must move forward monotonically)''"
| "stream_error_text (PastDatedEventRejected eid age bound) =
     ''event `'' @ eid @ ''` timestamp is '' @ show_int age @ ''s older than past-dated floor '' @ show_int bound @
     ''s (floor = current_time - (max_library_window + PAST_DATED_GRACE_SECONDS))''"
| "stream_error_text (DedupLedgerFailure reason) = ''dedup ledger backend failed during evaluation: '' @ reason"

end
