(* ===== verification/Patterns.thy ===== *)
theory Patterns
  imports Prelude
begin

text \<open>
  The data a verified anomaly library carries and the events it is matched against:
  \<open>patterns.rs\<close>, \<open>scope.rs\<close>, \<open>families.rs\<close>, the event type of \<open>event.rs\<close>, and the
  stateless membership test of \<open>scope_match.rs\<close>.
\<close>

section \<open>Verb families (families.rs)\<close>

definition IAM_ATTACH_VERBS :: "string list" where
  "IAM_ATTACH_VERBS = [''attachrolepolicy'', ''attachuserpolicy'', ''attachgrouppolicy'']"

definition DESTRUCTIVE_VERBS :: "string list" where
  "DESTRUCTIVE_VERBS =
     [''delete'', ''destroy'', ''drop'', ''truncate'', ''purge'', ''rotate'', ''revoke'',
      ''forceremove'']"

definition READ_ONLY_VERBS :: "string list" where
  "READ_ONLY_VERBS = [''get'', ''list'', ''describe'', ''read'', ''head'', ''peek'', ''exists'']"

definition lookup_family :: "string \<Rightarrow> string list option" where
  "lookup_family name =
     (if name = ''iam-attach'' then Some IAM_ATTACH_VERBS
      else if name = ''destructive'' then Some DESTRUCTIVE_VERBS
      else if name = ''read-only'' then Some READ_ONLY_VERBS
      else None)"

section \<open>Pattern data (patterns.rs, scope.rs)\<close>

record mandate_scope =
  ms_mandate_id :: "string option"
  ms_operator_id :: "string option"
  ms_integration_ref :: "string option"

datatype verb_predicate = Exact string | Family string | AnyDestructive

datatype scope_predicate =
    VerbResourceMandate verb_predicate "string option" mandate_scope
  | IamAttachFamily string mandate_scope
  | ProtectedBranches mandate_scope "string list"
  | CrossTierSequence mandate_scope "nat list"
  | MandatePace nat "string option"
  | SilenceThenBurst nat nat nat
  | CanaryWindow string nat
  | DelegationDepth nat
  | VerbFanout verb_predicate mandate_scope

datatype threshold = Count nat | DistinctCount nat | Sequence nat | ChainDepth nat

datatype action = Alert | AutoRevoke

datatype severity = Low | Medium | High | Critical

datatype firing_rule = FirstMatch | SequenceMatch | CumulativeOverBaseline

record pattern_entry =
  pattern_id :: string
  window_seconds :: "nat option"
  threshold_of :: threshold
  scope :: scope_predicate
  action_of :: action
  severity_of :: severity
  firing_rule_of :: firing_rule
  firing_rule_companions :: "string list"

fun action_str :: "action \<Rightarrow> string" where
  "action_str Alert = ''alert''"
| "action_str AutoRevoke = ''auto-revoke''"

fun severity_str :: "severity \<Rightarrow> string" where
  "severity_str Low = ''low''"
| "severity_str Medium = ''medium''"
| "severity_str High = ''high''"
| "severity_str Critical = ''critical''"

definition requires_auto_revoke :: "severity \<Rightarrow> bool" where
  "requires_auto_revoke sev \<longleftrightarrow> (case sev of High \<Rightarrow> True | Critical \<Rightarrow> True | _ \<Rightarrow> False)"

section \<open>Canonical events (event.rs)\<close>

datatype event_outcome = Executed | Rejected | Queued

record canonicalized_event =
  event_id :: string
  timestamp :: int
  ev_mandate_id :: string
  ev_tier :: nat
  ev_integration :: string
  ev_verb :: string
  ev_resource_kind :: string
  ev_resource_ref :: string
  ev_outcome :: event_outcome

section \<open>The library payload and its verified form (schema.rs, signature.rs)\<close>

record anomaly_library_payload =
  pl_abi_version :: nat
  pl_signer_kid :: string
  pl_library_id :: string
  pl_library_version :: nat
  pl_issued_at :: int
  pl_expires_at :: int
  pl_patterns :: "pattern_entry list"

record verified_anomaly_library =
  vl_signer_kid :: string
  vl_abi_version :: nat
  vl_library_id :: string
  vl_library_version :: nat
  vl_issued_at :: int
  vl_expires_at :: int
  vl_patterns :: "pattern_entry list"

section \<open>Bucket membership (scope\_match.rs)\<close>

definition family_contains :: "string \<Rightarrow> string \<Rightarrow> bool" where
  "family_contains family_name v =
     (case lookup_family family_name of
        Some members \<Rightarrow> v \<in> set members
      | None \<Rightarrow> False)"

fun verb_matches :: "verb_predicate \<Rightarrow> string \<Rightarrow> bool" where
  "verb_matches (Exact expected) v = (expected = v)"
| "verb_matches (Family name) v = family_contains name v"
| "verb_matches AnyDestructive v = family_contains ''destructive'' v"

definition matches_event :: "mandate_scope \<Rightarrow> canonicalized_event \<Rightarrow> bool" where
  "matches_event ms ev =
     (case ms_mandate_id ms of
        Some m \<Rightarrow>
          if m \<noteq> ev_mandate_id ev then False
          else (case ms_integration_ref ms of
                  Some r \<Rightarrow> r = ev_integration ev
                | None \<Rightarrow> True)
      | None \<Rightarrow>
          (case ms_integration_ref ms of
             Some r \<Rightarrow> r = ev_integration ev
           | None \<Rightarrow> True))"

fun scope_matches :: "scope_predicate \<Rightarrow> canonicalized_event \<Rightarrow> bool" where
  "scope_matches (VerbResourceMandate vp rk ms) ev =
     (if \<not> verb_matches vp (ev_verb ev) then False
      else (case rk of
              Some k \<Rightarrow> if k \<noteq> ev_resource_kind ev then False else matches_event ms ev
            | None \<Rightarrow> matches_event ms ev))"
| "scope_matches (IamAttachFamily fam ms) ev =
     (if \<not> family_contains fam (ev_verb ev) then False else matches_event ms ev)"
| "scope_matches (ProtectedBranches ms pats) ev = matches_event ms ev"
| "scope_matches (CrossTierSequence ms tiers) ev = matches_event ms ev"
| "scope_matches (MandatePace tier_floor excl) ev =
     (if ev_tier ev < tier_floor then False
      else (case excl of
              Some category \<Rightarrow> \<not> family_contains category (ev_verb ev)
            | None \<Rightarrow> True))"
| "scope_matches (SilenceThenBurst s b t) ev = True"
| "scope_matches (CanaryWindow pcrs thr) ev = False"
| "scope_matches (DelegationDepth lim) ev = False"
| "scope_matches (VerbFanout vp ms) ev =
     (if \<not> verb_matches vp (ev_verb ev) then False else matches_event ms ev)"

lemma family_contains_unknown: "lookup_family n = None \<Longrightarrow> \<not> family_contains n v"
  by (simp add: family_contains_def)

lemma lookup_family_destructive [simp]: "lookup_family ''destructive'' = Some DESTRUCTIVE_VERBS"
  by (simp add: lookup_family_def)

lemma verb_matches_sugar: "verb_matches AnyDestructive v = verb_matches (Family ''destructive'') v"
  by simp

lemma matches_event_iff:
  "matches_event ms ev \<longleftrightarrow>
     (\<forall>m. ms_mandate_id ms = Some m \<longrightarrow> m = ev_mandate_id ev) \<and>
     (\<forall>r. ms_integration_ref ms = Some r \<longrightarrow> r = ev_integration ev)"
  by (auto simp: matches_event_def split: option.splits)

lemma matches_event_operator_ignored:
  "matches_event (ms\<lparr>ms_operator_id := x\<rparr>) ev = matches_event ms ev"
  by (simp add: matches_event_iff)

end
