(* ===== verification/Event.thy ===== *)
theory Event
  imports Errors Patterns
begin

text \<open>
  \<open>ephemeral-anomaly/src/event.rs\<close>: normalisation of an audit stream.  A literal stream is
  passed through; a condensed pattern description is expanded under a memory and time-span
  cap.  The RFC-3339 parser of the \<open>time\<close> crate is the parameter \<open>parse\<close>
  (\<open>OffsetDateTime::parse\<close> followed by \<open>unix_timestamp\<close>).
\<close>

definition MAX_EXPANDED_EVENTS :: nat where
  "MAX_EXPANDED_EVENTS = 100000"

definition RFC3339_PARSE_REASON :: string where
  "RFC3339_PARSE_REASON =
     ''not a valid RFC-3339 timestamp (expected YYYY-MM-DDTHH:MM:SS[.ffff]Z or with offset)''"

record template_event =
  te_mandate_id :: string
  te_tier :: nat
  te_integration :: string
  te_verb :: string
  te_resource_kind :: string
  te_outcome :: event_outcome

record pattern_description =
  start_time :: string
  end_time :: string
  pd_count :: nat
  interval_seconds :: nat
  template_of :: template_event
  resource_ref_pattern :: string

datatype audit_stream_input =
    Literal "canonicalized_event list"
  | PatternDescription pattern_description

section \<open>str::contains and str::replace\<close>

fun str_contains :: "string \<Rightarrow> string \<Rightarrow> bool" where
  "str_contains pat [] \<longleftrightarrow> pat = []"
| "str_contains pat (c # cs) \<longleftrightarrow> take (length pat) (c # cs) = pat \<or> str_contains pat cs"

text \<open>Left-to-right, non-overlapping replacement of a non-empty pattern.\<close>

function str_replace :: "string \<Rightarrow> string \<Rightarrow> string \<Rightarrow> string" where
  "str_replace pat rep s =
     (case s of
        [] \<Rightarrow> []
      | c # cs \<Rightarrow>
          if pat \<noteq> [] \<and> take (length pat) s = pat
          then rep @ str_replace pat rep (drop (length pat) s)
          else c # str_replace pat rep cs)"
  by pat_completeness auto
termination
  by (relation "measure (\<lambda>(pat, rep, s). length s)") auto

declare str_replace.simps [simp del]

definition index_placeholder :: string where
  "index_placeholder = ''{i}''"

section \<open>Expansion\<close>

definition expand_event :: "pattern_description \<Rightarrow> int \<Rightarrow> nat \<Rightarrow> int \<Rightarrow> canonicalized_event" where
  "expand_event pd start i offset =
     (let te = template_of pd in
      \<lparr>event_id = ''pd-'' @ show_int start @ ''-'' @ show_nat i,
       timestamp = offset,
       ev_mandate_id = te_mandate_id te,
       ev_tier = te_tier te,
       ev_integration = te_integration te,
       ev_verb = te_verb te,
       ev_resource_kind = te_resource_kind te,
       ev_resource_ref = str_replace index_placeholder (show_nat i) (resource_ref_pattern pd),
       ev_outcome = te_outcome te\<rparr>)"

fun expand_loop ::
  "pattern_description \<Rightarrow> int \<Rightarrow> nat list \<Rightarrow> stream_error + canonicalized_event list" where
  "expand_loop pd start [] = Inr []"
| "expand_loop pd start (i # is) =
     (case Option.bind (checked_mul_i64 (int i) (int (interval_seconds pd)))
             (\<lambda>p. checked_add_i64 start p) of
        None \<Rightarrow> Inl (ExpansionExceeded u64_max MAX_EXPANDED_EVENTS)
      | Some offset \<Rightarrow>
          (case expand_loop pd start is of
             Inl e \<Rightarrow> Inl e
           | Inr out \<Rightarrow> Inr (expand_event pd start i offset # out)))"

definition expand ::
  "(string \<Rightarrow> int option) \<Rightarrow> pattern_description \<Rightarrow> stream_error + canonicalized_event list" where
  "expand parse pd =
     (if pd_count pd = 0 then Inl PatternDescriptionCountZero
      else if pd_count pd > 1 \<and> interval_seconds pd = 0 then Inl ZeroIntervalWithMultipleEvents
      else if pd_count pd > 1 \<and> \<not> str_contains index_placeholder (resource_ref_pattern pd)
        then Inl PatternMissingIndexPlaceholder
      else
        let interval_for_bound = max (interval_seconds pd) 1 in
        (case checked_mul_u64 (pd_count pd) interval_for_bound of
           None \<Rightarrow> Inl (ExpansionExceeded u64_max MAX_EXPANDED_EVENTS)
         | Some projected \<Rightarrow>
             if projected > MAX_EXPANDED_EVENTS
             then Inl (ExpansionExceeded projected MAX_EXPANDED_EVENTS)
             else
               (case parse (start_time pd) of
                  None \<Rightarrow> Inl (TimestampParseFailed RFC3339_PARSE_REASON)
                | Some start \<Rightarrow> expand_loop pd start [0..<pd_count pd])))"

fun normalize ::
  "(string \<Rightarrow> int option) \<Rightarrow> audit_stream_input \<Rightarrow> stream_error + canonicalized_event list" where
  "normalize parse (Literal events) = Inr events"
| "normalize parse (PatternDescription pd) = expand parse pd"

section \<open>Replacement is injective in the replacement text\<close>

function str_occ :: "string \<Rightarrow> string \<Rightarrow> nat" where
  "str_occ pat s =
     (case s of
        [] \<Rightarrow> 0
      | c # cs \<Rightarrow>
          if pat \<noteq> [] \<and> take (length pat) s = pat
          then Suc (str_occ pat (drop (length pat) s))
          else str_occ pat cs)"
  by pat_completeness auto
termination
  by (relation "measure (\<lambda>(pat, s). length s)") auto

declare str_occ.simps [simp del]

text \<open>The two functions follow one scan; its cases as rewrite rules.\<close>

definition at_pattern :: "string \<Rightarrow> string \<Rightarrow> bool" where
  "at_pattern pat s \<longleftrightarrow> pat \<noteq> [] \<and> take (length pat) s = pat"

lemma scan_Nil [simp]: "str_replace pat r [] = []" "str_occ pat [] = 0"
  by (simp_all add: str_replace.simps [of pat r] str_occ.simps [of pat])

lemma scan_hit:
  assumes "at_pattern pat s"
  shows "str_replace pat r s = r @ str_replace pat r (drop (length pat) s)"
    and "str_occ pat s = Suc (str_occ pat (drop (length pat) s))"
proof -
  obtain c cs where s: "s = c # cs" using assms by (cases s) (auto simp: at_pattern_def)
  show "str_replace pat r s = r @ str_replace pat r (drop (length pat) s)"
    using assms unfolding at_pattern_def s by (subst str_replace.simps) simp
  show "str_occ pat s = Suc (str_occ pat (drop (length pat) s))"
    using assms unfolding at_pattern_def s by (subst str_occ.simps) simp
qed

lemma scan_miss:
  assumes "\<not> at_pattern pat (c # cs)"
  shows "str_replace pat r (c # cs) = c # str_replace pat r cs"
    and "str_occ pat (c # cs) = str_occ pat cs"
proof -
  show "str_replace pat r (c # cs) = c # str_replace pat r cs"
    using assms unfolding at_pattern_def by (subst str_replace.simps) auto
  show "str_occ pat (c # cs) = str_occ pat cs"
    using assms unfolding at_pattern_def by (subst str_occ.simps) auto
qed

lemma at_pattern_length: "at_pattern pat s \<Longrightarrow> 0 < length pat \<and> length pat \<le> length s"
  unfolding at_pattern_def by (metis length_greater_0_conv length_take min.cobounded1)

lemma scan_induct [case_names Nil hit miss]:
  assumes "P []"
    and "\<And>s. at_pattern pat s \<Longrightarrow> P (drop (length pat) s) \<Longrightarrow> P s"
    and "\<And>c cs. \<not> at_pattern pat (c # cs) \<Longrightarrow> P cs \<Longrightarrow> P (c # cs)"
  shows "P s"
proof (induction s rule: length_induct)
  case (1 s)
  show ?case
  proof (cases s)
    case Nil
    with assms(1) show ?thesis by simp
  next
    case (Cons c cs)
    show ?thesis
    proof (cases "at_pattern pat s")
      case True
      then have "length (drop (length pat) s) < length s"
        unfolding length_drop using at_pattern_length [OF True] by linarith
      with 1 assms(2) [OF True] show ?thesis by blast
    next
      case False
      with 1 Cons assms(3) show ?thesis by simp
    qed
  qed
qed

lemma length_str_replace:
  "length (str_replace pat rep s) + str_occ pat s * length pat = length s + str_occ pat s * length rep"
proof (induction s rule: scan_induct [where pat = pat])
  case (hit s)
  have "length pat \<le> length s" using at_pattern_length [OF hit(1)] by blast
  with hit(2) show ?case
    unfolding scan_hit [OF hit(1)] length_append length_drop mult_Suc by linarith
qed (simp_all add: scan_miss)

lemma str_occ_pos: "pat \<noteq> [] \<Longrightarrow> str_contains pat s \<Longrightarrow> 0 < str_occ pat s"
proof (induction s)
  case (Cons c cs)
  then show ?case
    by (cases "at_pattern pat (c # cs)") (auto simp: scan_hit scan_miss at_pattern_def)
qed simp

lemma str_replace_same_length:
  "length r = length r' \<Longrightarrow> 0 < str_occ pat s \<Longrightarrow> str_replace pat r s = str_replace pat r' s \<Longrightarrow> r = r'"
proof (induction s rule: scan_induct [where pat = pat])
  case (hit s)
  then show ?case by (simp add: scan_hit)
qed (simp_all add: scan_miss)

lemma str_replace_inj:
  assumes "pat \<noteq> []" and "str_contains pat s" and eq: "str_replace pat r s = str_replace pat r' s"
  shows "r = r'"
proof -
  have occ: "0 < str_occ pat s" using assms(1,2) by (rule str_occ_pos)
  have "str_occ pat s * length r = str_occ pat s * length r'"
    using length_str_replace [of pat r s] length_str_replace [of pat r' s] unfolding eq by linarith
  with occ have "length r = length r'" by simp
  then show ?thesis using occ eq by (rule str_replace_same_length)
qed

section \<open>What expansion produces\<close>

definition expansion_gates :: "pattern_description \<Rightarrow> bool" where
  "expansion_gates pd \<longleftrightarrow> 0 < pd_count pd \<and>
     (1 < pd_count pd \<longrightarrow> 0 < interval_seconds pd \<and>
        str_contains index_placeholder (resource_ref_pattern pd)) \<and>
     pd_count pd * max (interval_seconds pd) 1 \<le> MAX_EXPANDED_EVENTS"

definition expansion_of :: "pattern_description \<Rightarrow> int \<Rightarrow> canonicalized_event list" where
  "expansion_of pd start =
     map (\<lambda>i. expand_event pd start i (start + int i * int (interval_seconds pd))) [0..<pd_count pd]"

text \<open>The years the \<open>time\<close> crate accepts (-9999 to 9999) stay far inside \<open>i64\<close>.\<close>

definition plausible_start :: "int \<Rightarrow> bool" where
  "plausible_start t \<longleftrightarrow> - 400000000000 \<le> t \<and> t \<le> 400000000000"

lemma expand_loop_ok:
  assumes "plausible_start start" and "\<forall>i \<in> set is. i * interval_seconds pd \<le> MAX_EXPANDED_EVENTS"
  shows "expand_loop pd start is =
    Inr (map (\<lambda>i. expand_event pd start i (start + int i * int (interval_seconds pd))) is)"
  using assms(2)
proof (induction "is")
  case Nil
  then show ?case by simp
next
  case (Cons i "is")
  have "i * interval_seconds pd \<le> 100000" using Cons.prems by (simp add: MAX_EXPANDED_EVENTS_def)
  moreover define x where "x = int i * int (interval_seconds pd)"
  ultimately have "0 \<le> x" "x \<le> 100000" by (simp_all flip: of_nat_mult)
  then have "checked_mul_i64 (int i) (int (interval_seconds pd)) = Some x"
    and "checked_add_i64 start x = Some (start + x)"
    using assms(1)
    by (auto simp: checked_mul_i64_def checked_add_i64_def in_i64_def plausible_start_def arith_defs
        simp flip: x_def)
  with Cons x_def show ?case by simp
qed

lemma expand_gate_fail: "\<not> expansion_gates pd \<Longrightarrow> \<exists>e. expand parse pd = Inl e"
  by (auto simp: expand_def expansion_gates_def checked_mul_u64_def Let_def)

lemma expand_gates_ok:
  assumes gates: "expansion_gates pd" and start: "parse (start_time pd) = Some start"
    and plausible: "plausible_start start"
  shows "expand parse pd = Inr (expansion_of pd start)"
proof -
  have cap: "pd_count pd * max (interval_seconds pd) 1 \<le> 100000"
    using gates by (simp add: expansion_gates_def MAX_EXPANDED_EVENTS_def)
  have "i * interval_seconds pd \<le> MAX_EXPANDED_EVENTS" if "i < pd_count pd" for i
  proof -
    have "i * interval_seconds pd \<le> pd_count pd * max (interval_seconds pd) 1"
      using that by (intro mult_le_mono) auto
    with cap show ?thesis by (simp add: MAX_EXPANDED_EVENTS_def)
  qed
  then have "expand_loop pd start [0..<pd_count pd] = Inr (expansion_of pd start)"
    unfolding expansion_of_def by (intro expand_loop_ok plausible) simp
  then show ?thesis
    using gates start cap
    by (auto simp: expand_def expansion_gates_def checked_mul_u64_def u64_max_def Let_def)
qed

lemma expand_Inr_gates: "expand parse pd = Inr out \<Longrightarrow> expansion_gates pd"
  using expand_gate_fail by (metis sum.distinct(1))

lemma expand_Inr_parse: "expand parse pd = Inr out \<Longrightarrow> \<exists>start. parse (start_time pd) = Some start"
  by (auto simp: expand_def Let_def split: if_splits option.splits)

lemma expansion_of_facts:
  assumes "expansion_gates pd"
  shows "length (expansion_of pd start) = pd_count pd"
    and "distinct (map ev_resource_ref (expansion_of pd start))"
    and "sorted (map timestamp (expansion_of pd start))"
proof -
  show "length (expansion_of pd start) = pd_count pd" by (simp add: expansion_of_def)
  have "ev_resource_ref (expand_event pd start i o1) \<noteq> ev_resource_ref (expand_event pd start j o2)"
    if "i < pd_count pd" "j < pd_count pd" "i \<noteq> j" for i j o1 o2
  proof -
    have "str_contains index_placeholder (resource_ref_pattern pd)"
      using assms that by (auto simp: expansion_gates_def)
    then show ?thesis
      using that str_replace_inj [of index_placeholder "resource_ref_pattern pd" "show_nat i" "show_nat j"]
      by (auto simp: expand_event_def Let_def index_placeholder_def)
  qed
  then have "inj_on (\<lambda>i. ev_resource_ref (expand_event pd start i (start + int i * int (interval_seconds pd))))
      {0..<pd_count pd}"
    by (intro inj_onI) auto
  then show "distinct (map ev_resource_ref (expansion_of pd start))"
    by (simp add: expansion_of_def distinct_map comp_def)
  show "sorted (map timestamp (expansion_of pd start))"
    by (auto simp: expansion_of_def sorted_iff_nth_mono expand_event_def Let_def intro: mult_right_mono)
qed

text \<open>Expansion of a pattern description succeeds exactly when the description is non-empty,
  steps its clock and carries the index placeholder if it has more than one event, stays under
  the cap of 100,000 (events times interval), and its start time parses.  It then yields precisely
  \<open>count\<close> events, the i-th at \<open>start + i * interval\<close>, in time order and with pairwise
  distinct resource references; no arithmetic overflow occurs on the way.  The parser is the
  \<open>time\<close> crate's, of which only the range of accepted years is assumed.\<close>

theorem expand_spec:
  assumes parser: "\<forall>s t. parse s = Some t \<longrightarrow> plausible_start t"
  shows "(expand parse pd = Inr out \<longleftrightarrow>
      expansion_gates pd \<and> (\<exists>start. parse (start_time pd) = Some start \<and> out = expansion_of pd start)) \<and>
    (expand parse pd = Inr out \<longrightarrow> length out = pd_count pd \<and> pd_count pd \<le> 100000 \<and>
      distinct (map ev_resource_ref out) \<and> sorted (map timestamp out))"
proof (intro conjI impI)
  have fwd: "\<exists>start. parse (start_time pd) = Some start \<and> out = expansion_of pd start"
    and gates: "expansion_gates pd" if "expand parse pd = Inr out"
    using that expand_Inr_parse [OF that] expand_Inr_gates [OF that] expand_gates_ok [of pd parse] parser
    by auto
  then show "expand parse pd = Inr out \<longleftrightarrow>
      expansion_gates pd \<and> (\<exists>start. parse (start_time pd) = Some start \<and> out = expansion_of pd start)"
    using expand_gates_ok parser by blast
  assume ok: "expand parse pd = Inr out"
  from gates [OF ok] have "pd_count pd * max (interval_seconds pd) 1 \<le> 100000"
    by (simp add: expansion_gates_def MAX_EXPANDED_EVENTS_def)
  moreover have "pd_count pd * 1 \<le> pd_count pd * max (interval_seconds pd) 1"
    by (intro mult_le_mono) auto
  ultimately show "pd_count pd \<le> 100000" by linarith
  from fwd [OF ok] expansion_of_facts [OF gates [OF ok]]
  show "length out = pd_count pd" "distinct (map ev_resource_ref out)" "sorted (map timestamp out)"
    by auto
qed

definition sample_description :: pattern_description where
  "sample_description =
     \<lparr>start_time = ''t'', end_time = [], pd_count = 2, interval_seconds = 30,
      template_of = \<lparr>te_mandate_id = ''m'', te_tier = 1, te_integration = ''i'', te_verb = ''get'',
        te_resource_kind = ''k'', te_outcome = Executed\<rparr>,
      resource_ref_pattern = ''r/{i}''\<rparr>"

lemma expand_spec_witness:
  "\<exists>out. expand (\<lambda>s. if s = ''t'' then Some 1000 else None) sample_description = Inr out \<and>
     length out = 2 \<and> map timestamp out = [1000, 1030] \<and> distinct (map ev_resource_ref out)"
proof -
  define parse :: "string \<Rightarrow> int option" where "parse = (\<lambda>s. if s = ''t'' then Some 1000 else None)"
  have parser: "\<forall>s t. parse s = Some t \<longrightarrow> plausible_start t"
    by (simp add: parse_def plausible_start_def)
  note spec = expand_spec [OF parser, of sample_description "expansion_of sample_description 1000"]
  have "expansion_gates sample_description" "parse (start_time sample_description) = Some 1000"
    by (simp_all add: expansion_gates_def sample_description_def index_placeholder_def
        MAX_EXPANDED_EVENTS_def parse_def)
  then have ok: "expand parse sample_description = Inr (expansion_of sample_description 1000)"
    using spec by blast
  then have "length (expansion_of sample_description 1000) = pd_count sample_description"
    and "distinct (map ev_resource_ref (expansion_of sample_description 1000))"
    using spec by blast+
  moreover have "map timestamp (expansion_of sample_description 1000) = [1000, 1030]"
    by (simp add: expansion_of_def sample_description_def expand_event_def Let_def upt_rec)
  moreover have "pd_count sample_description = 2" by (simp add: sample_description_def)
  ultimately show ?thesis using ok unfolding parse_def by metis
qed

end
