(* ===== verification/BTree.thy ===== *)
theory BTree
  imports Prelude
begin

text \<open>
  \<open>std::collections::BTreeMap\<close> as the components use it: a finite map that is iterated in
  strictly ascending key order.  The representation is the ascending association list; the
  locale \<open>ordered_map\<close> is the contract the clients rely on, and its interpretation
  \<open>bm\<close> on the concrete operations discharges it once for every client.
\<close>

type_synonym ('k, 'v) btree_map = "('k \<times> 'v) list"

section \<open>The contract\<close>

locale ordered_map =
  fixes empty :: "'m"
    and lookup :: "'m \<Rightarrow> 'k::linorder \<Rightarrow> 'v option"
    and update :: "'k \<Rightarrow> 'v \<Rightarrow> 'm \<Rightarrow> 'm"
    and keys :: "'m \<Rightarrow> 'k list"
    and invar :: "'m \<Rightarrow> bool"
  assumes lookup_empty: "lookup empty k = None"
    and lookup_update: "invar m \<Longrightarrow> lookup (update k v m) j = (if j = k then Some v else lookup m j)"
    and set_keys: "invar m \<Longrightarrow> set (keys m) = {k. lookup m k \<noteq> None}"
    and sorted_keys: "invar m \<Longrightarrow> sorted_wrt (<) (keys m)"
    and invar_empty: "invar empty"
    and invar_update: "invar m \<Longrightarrow> invar (update k v m)"
begin

lemma lookup_update_same: "invar m \<Longrightarrow> lookup (update k v m) k = Some v"
  by (simp add: lookup_update)

lemma lookup_update_other: "invar m \<Longrightarrow> j \<noteq> k \<Longrightarrow> lookup (update k v m) j = lookup m j"
  by (simp add: lookup_update)

lemma distinct_keys: "invar m \<Longrightarrow> distinct (keys m)"
  using sorted_keys strict_sorted_iff by auto

lemma keys_update_present: "invar m \<Longrightarrow> lookup m k \<noteq> None \<Longrightarrow> keys (update k v m) = keys m"
proof -
  assume m: "invar m" and k: "lookup m k \<noteq> None"
  from m have m': "invar (update k v m)" by (rule invar_update)
  have "set (keys (update k v m)) = set (keys m)"
    using k by (auto simp: set_keys [OF m] set_keys [OF m'] lookup_update [OF m])
  with sorted_keys [OF m] sorted_keys [OF m'] show ?thesis
    by (metis sorted_list_of_set.idem_if_sorted_distinct strict_sorted_iff)
qed

lemma length_keys_update:
  assumes m: "invar m"
  shows "length (keys (update k v m)) =
    (if lookup m k = None then Suc (length (keys m)) else length (keys m))"
proof -
  have m': "invar (update k v m)" using m by (rule invar_update)
  have set_eq: "set (keys (update k v m)) = insert k (set (keys m))"
    by (auto simp: set_keys [OF m] set_keys [OF m'] lookup_update [OF m])
  have k_in: "k \<in> set (keys m) \<longleftrightarrow> lookup m k \<noteq> None"
    by (simp add: set_keys [OF m])
  have "length (keys (update k v m)) = card (set (keys (update k v m)))"
    using distinct_keys [OF m'] by (simp add: distinct_card)
  also have "\<dots> = (if lookup m k = None then Suc (card (set (keys m))) else card (set (keys m)))"
    unfolding set_eq using k_in by (simp add: card_insert_if)
  also have "card (set (keys m)) = length (keys m)"
    using distinct_keys [OF m] by (simp add: distinct_card)
  finally show ?thesis by simp
qed

end

section \<open>The ascending association list\<close>

fun bm_get :: "('k::linorder, 'v) btree_map \<Rightarrow> 'k \<Rightarrow> 'v option" where
  "bm_get [] k = None"
| "bm_get ((k', v) # m) k = (if k = k' then Some v else bm_get m k)"

fun bm_insert :: "'k::linorder \<Rightarrow> 'v \<Rightarrow> ('k, 'v) btree_map \<Rightarrow> ('k, 'v) btree_map" where
  "bm_insert k v [] = [(k, v)]"
| "bm_insert k v ((k', v') # m) =
     (if k < k' then (k, v) # (k', v') # m
      else if k = k' then (k, v) # m
      else (k', v') # bm_insert k v m)"

definition bm_keys :: "('k::linorder, 'v) btree_map \<Rightarrow> 'k list" where
  "bm_keys m = map fst m"

definition bm_len :: "('k::linorder, 'v) btree_map \<Rightarrow> nat" where
  "bm_len m = length m"

definition bm_inv :: "('k::linorder, 'v) btree_map \<Rightarrow> bool" where
  "bm_inv m \<longleftrightarrow> sorted_wrt (<) (bm_keys m)"

text \<open>\<open>iter.collect::<BTreeMap<_, _>>()\<close>: later pairs overwrite earlier ones.\<close>

definition bm_collect :: "('k::linorder \<times> 'v) list \<Rightarrow> ('k, 'v) btree_map" where
  "bm_collect kvs = foldl (\<lambda>m (k, v). bm_insert k v m) [] kvs"

lemma bm_get_not_key: "k \<notin> fst ` set m \<Longrightarrow> bm_get m k = None"
  by (induction m) auto

lemma bm_get_insert: "bm_get (bm_insert k v m) j = (if j = k then Some v else bm_get m j)"
  by (induction k v m rule: bm_insert.induct) auto

lemma fst_set_bm_insert: "fst ` set (bm_insert k v m) = insert k (fst ` set m)"
  by (induction k v m rule: bm_insert.induct) auto

lemma bm_inv_Nil [simp]: "bm_inv []"
  by (simp add: bm_inv_def bm_keys_def)

lemma bm_inv_Cons: "bm_inv ((k, v) # m) \<longleftrightarrow> (\<forall>j \<in> fst ` set m. k < j) \<and> bm_inv m"
  by (auto simp: bm_inv_def bm_keys_def)

lemma bm_inv_insert: "bm_inv m \<Longrightarrow> bm_inv (bm_insert k v m)"
proof (induction k v m rule: bm_insert.induct)
  case (2 k v k' v' m)
  then show ?case by (auto simp: bm_inv_Cons fst_set_bm_insert)
qed (simp add: bm_inv_Cons)

lemma set_bm_keys: "set (bm_keys m) = {k. bm_get m k \<noteq> None}"
  by (induction m) (auto simp: bm_keys_def)

interpretation bm: ordered_map "[]" bm_get bm_insert bm_keys bm_inv
  by unfold_locales
    (auto simp: bm_get_insert set_bm_keys bm_inv_insert, auto simp: bm_inv_def)

lemma bm_len_insert:
  "bm_inv m \<Longrightarrow> bm_len (bm_insert k v m) = (if bm_get m k = None then Suc (bm_len m) else bm_len m)"
  using bm.length_keys_update [of m k v] by (simp add: bm_len_def bm_keys_def)

lemma bm_get_collect_snoc:
  "bm_get (bm_collect (kvs @ [(k, v)])) j = (if j = k then Some v else bm_get (bm_collect kvs) j)"
  by (simp add: bm_collect_def bm_get_insert)

lemma bm_get_collect: "bm_get (bm_collect kvs) k = map_of (rev kvs) k"
proof (induction kvs rule: rev_induct)
  case Nil
  then show ?case by (simp add: bm_collect_def)
next
  case (snoc kv kvs)
  then show ?case by (cases kv) (simp add: bm_get_collect_snoc)
qed

lemma map_of_eqI_rev: "distinct (map fst kvs) \<Longrightarrow> map_of (rev kvs) = map_of kvs"
  by (rule map_of_eqI) (auto simp: rev_map [symmetric])

lemma bm_get_collect_distinct:
  "distinct (map fst kvs) \<Longrightarrow> bm_get (bm_collect kvs) k = map_of kvs k"
  by (simp add: bm_get_collect map_of_eqI_rev)

lemmas bm_simps =
  bm.lookup_update bm.set_keys bm.invar_empty bm.invar_update bm_get_insert

end
