(* ===== verification/Buffers.thy ===== *)
theory Buffers
  imports BTree Patterns "HOL-Library.Product_Lexorder" "HOL-Library.Option_ord"
begin

text \<open>
  The per-bucket storage of \<open>ephemeral-anomaly/src/state.rs\<close>: bucket keys with their derived
  lexicographic order, the ring buffer of a bucket, and the sliding-window eviction.
\<close>

section \<open>Constants\<close>

definition MAX_EVENTS_PER_MANDATE :: nat where "MAX_EVENTS_PER_MANDATE = 10000"

definition MAX_EVENTS_PER_BUFFER :: nat where "MAX_EVENTS_PER_BUFFER = 1000"

definition MAX_CLOCK_SKEW_SECONDS :: int where "MAX_CLOCK_SKEW_SECONDS = 30"

definition PAST_DATED_GRACE_SECONDS :: int where "PAST_DATED_GRACE_SECONDS = 24 * 3600"

definition FALLBACK_PAST_WINDOW_SECONDS :: nat where
  "FALLBACK_PAST_WINDOW_SECONDS = 7 * 24 * 3600"

definition FALLBACK_FIRE_ONCE_WINDOW_SECONDS :: nat where
  "FALLBACK_FIRE_ONCE_WINDOW_SECONDS = 3600"

section \<open>Bucket keys\<close>

datatype scope_bucket_key = ScopeBucketKey
  (key_pattern_id: string)
  (key_mandate_id: string)
  (key_operator_id: "string option")
  (key_integration_ref: "string option")
  (key_resource_kind: "string option")

definition key_tuple ::
  "scope_bucket_key \<Rightarrow> string \<times> string \<times> string option \<times> string option \<times> string option" where
  "key_tuple k = (key_pattern_id k, key_mandate_id k, key_operator_id k, key_integration_ref k,
                  key_resource_kind k)"

lemma key_tuple_inj: "key_tuple k = key_tuple k' \<longleftrightarrow> k = k'"
  by (cases k; cases k') (simp add: key_tuple_def)

text \<open>\<open>derive(PartialOrd, Ord)\<close>: field by field, in declaration order.\<close>

instantiation scope_bucket_key :: linorder
begin

definition less_eq_scope_bucket_key :: "scope_bucket_key \<Rightarrow> scope_bucket_key \<Rightarrow> bool" where
  "less_eq_scope_bucket_key k k' \<longleftrightarrow> key_tuple k \<le> key_tuple k'"

definition less_scope_bucket_key :: "scope_bucket_key \<Rightarrow> scope_bucket_key \<Rightarrow> bool" where
  "less_scope_bucket_key k k' \<longleftrightarrow> key_tuple k < key_tuple k'"

instance
  by standard
    (auto simp: less_eq_scope_bucket_key_def less_scope_bucket_key_def key_tuple_inj
      intro: order_trans)

end

definition for_pattern_match ::
  "string \<Rightarrow> scope_predicate \<Rightarrow> canonicalized_event \<Rightarrow> scope_bucket_key" where
  "for_pattern_match pid predicate ev = ScopeBucketKey pid (ev_mandate_id ev) None None None"

section \<open>Pattern buffers\<close>

record sequence_tracker =
  current_step :: nat
  last_event_at :: int

record pattern_buffer =
  pb_pattern_id :: string
  pb_events :: "canonicalized_event list"
  pb_sequence_tracker :: "sequence_tracker option"

definition pattern_buffer_new :: "string \<Rightarrow> pattern_buffer" where
  "pattern_buffer_new pid = \<lparr>pb_pattern_id = pid, pb_events = [], pb_sequence_tracker = None\<rparr>"

text \<open>The eviction loop, with its running count, and the method around it.\<close>

fun evict_loop ::
  "int \<Rightarrow> canonicalized_event list \<Rightarrow> nat \<Rightarrow> nat \<times> canonicalized_event list" where
  "evict_loop window_start [] evicted = (evicted, [])"
| "evict_loop window_start (front # rest) evicted =
     (if timestamp front < window_start then evict_loop window_start rest (evicted + 1)
      else (evicted, front # rest))"

definition evict_aged_events :: "pattern_buffer \<Rightarrow> nat \<Rightarrow> int \<Rightarrow> nat \<times> pattern_buffer" where
  "evict_aged_events b w current_time =
     (let window_start = sat_sub current_time (int w);
          (evicted, events) = evict_loop window_start (pb_events b) 0
      in (evicted, b\<lparr>pb_events := events\<rparr>))"

text \<open>Appending with ring eviction: the \<open>while len > MAX { pop_front }\<close> of ingestion.\<close>

function ring_trim :: "canonicalized_event list \<Rightarrow> canonicalized_event list" where
  "ring_trim es = (if length es > MAX_EVENTS_PER_BUFFER then ring_trim (tl es) else es)"
  by pat_completeness auto
termination
  by (relation "measure length") (auto simp: MAX_EVENTS_PER_BUFFER_def)

declare ring_trim.simps [simp del]

lemma evict_loop_eq:
  "evict_loop ws es n =
     (n + (length es - length (dropWhile (\<lambda>e. timestamp e < ws) es)),
      dropWhile (\<lambda>e. timestamp e < ws) es)"
proof (induction ws es n rule: evict_loop.induct)
  case (2 ws e es n)
  have "length (dropWhile (\<lambda>e. timestamp e < ws) es) \<le> length es" by (rule length_dropWhile_le)
  with 2 show ?case by auto
qed simp

lemma evict_aged_events_eq:
  "evict_aged_events b w t =
     (let live = dropWhile (\<lambda>e. timestamp e < sat_sub t (int w)) (pb_events b)
      in (length (pb_events b) - length live, b\<lparr>pb_events := live\<rparr>))"
  by (simp add: evict_aged_events_def evict_loop_eq Let_def)

lemma ring_trim_eq: "ring_trim es = drop (length es - MAX_EVENTS_PER_BUFFER) es"
proof (induction es rule: ring_trim.induct)
  case (1 es)
  show ?case
  proof (cases "length es > MAX_EVENTS_PER_BUFFER")
    case True
    then obtain e es' where "es = e # es'" by (cases es) auto
    with True 1 show ?thesis by (simp add: ring_trim.simps [of "e # es'"] Suc_diff_le)
  next
    case False
    then show ?thesis by (simp add: ring_trim.simps [of es])
  qed
qed

lemma ring_trim_id: "length es \<le> MAX_EVENTS_PER_BUFFER \<Longrightarrow> ring_trim es = es"
  by (simp add: ring_trim_eq)

lemma length_ring_trim: "length (ring_trim es) = min MAX_EVENTS_PER_BUFFER (length es)"
  by (simp add: ring_trim_eq)

lemma set_ring_trim: "set (ring_trim es) \<subseteq> set es"
  by (simp add: ring_trim_eq set_drop_subset)

lemma ring_trim_last: "es \<noteq> [] \<Longrightarrow> ring_trim es \<noteq> [] \<and> last (ring_trim es) = last es"
  by (cases es) (auto simp: ring_trim_eq MAX_EVENTS_PER_BUFFER_def)

lemma for_pattern_match_simps [simp]:
  "key_pattern_id (for_pattern_match pid sp ev) = pid"
  "key_mandate_id (for_pattern_match pid sp ev) = ev_mandate_id ev"
  by (simp_all add: for_pattern_match_def)

lemma for_pattern_match_inj:
  "for_pattern_match p sp ev = for_pattern_match p' sp' ev' \<longleftrightarrow>
     p = p' \<and> ev_mandate_id ev = ev_mandate_id ev'"
  by (simp add: for_pattern_match_def)

end
