(* ===== verification/Dedup.thy ===== *)
theory Dedup
  imports BTree Errors "HOL-Library.Product_Lexorder"
begin

text \<open>
  \<open>ephemeral-anomaly/src/dedup_ledger.rs\<close>: the fire-once ledger.  The Rust trait object
  \<open>dyn DedupLedger\<close> is the record \<open>dedup_ops\<close> of its methods over a backend state \<open>'d\<close>;
  the contract its documentation states is the locale \<open>dedup_ledger\<close>, and the in-memory
  backend is shown to meet it.
\<close>

section \<open>The trait\<close>

record 'd dedup_ops =
  dl_is_suppressed :: "'d \<Rightarrow> string \<Rightarrow> string \<Rightarrow> int \<Rightarrow> nat \<Rightarrow> dedup_ledger_error + bool"
  dl_observe :: "'d \<Rightarrow> string \<Rightarrow> string \<Rightarrow> int \<Rightarrow> (dedup_ledger_error, unit, 'd) outcome_of"
  dl_clear :: "'d \<Rightarrow> (dedup_ledger_error, unit, 'd) outcome_of"
  dl_len :: "'d \<Rightarrow> nat"

record dedup_ledger_stats =
  entry_count :: nat

definition with_entry_count :: "nat \<Rightarrow> dedup_ledger_stats" where
  "with_entry_count n = \<lparr>entry_count = n\<rparr>"

text \<open>The trait's default methods.\<close>

definition dl_is_empty :: "'d dedup_ops \<Rightarrow> 'd \<Rightarrow> bool" where
  "dl_is_empty ops d \<longleftrightarrow> dl_len ops d = 0"

definition dl_flush :: "'d \<Rightarrow> (dedup_ledger_error, unit, 'd) outcome_of" where
  "dl_flush d = (Inr (), d)"

definition dl_stats :: "'d dedup_ops \<Rightarrow> 'd \<Rightarrow> dedup_ledger_stats" where
  "dl_stats ops d = with_entry_count (dl_len ops d)"

text \<open>
  The contract: \<open>fired d p m\<close> is the time of the last recorded fire of the pair.  A query
  is suppressed exactly while that fire is younger than the window; \<open>observe\<close> overwrites
  one pair and nothing else; a failed \<open>observe\<close> records nothing; \<open>clear\<close> forgets all.
\<close>

locale dedup_ledger =
  fixes ops :: "'d dedup_ops"
    and fired :: "'d \<Rightarrow> string \<Rightarrow> string \<Rightarrow> int option"
    and invar :: "'d \<Rightarrow> bool"
  assumes suppressed_iff: "invar d \<Longrightarrow> dl_is_suppressed ops d p m t w = Inr b \<Longrightarrow>
      b \<longleftrightarrow> (\<exists>f. fired d p m = Some f \<and> sat_sub t f < int w)"
    and observe_ok: "invar d \<Longrightarrow> dl_observe ops d p m t = (Inr u, d') \<Longrightarrow>
      invar d' \<and> fired d' p' m' = (if p' = p \<and> m' = m then Some t else fired d p' m')"
    and observe_err: "invar d \<Longrightarrow> dl_observe ops d p m t = (Inl e, d') \<Longrightarrow>
      invar d' \<and> fired d' p' m' = fired d p' m'"
    and clear_ok: "invar d \<Longrightarrow> dl_clear ops d = (Inr u, d') \<Longrightarrow>
      invar d' \<and> fired d' p' m' = None"
begin

lemma observe_invar: "invar d \<Longrightarrow> dl_observe ops d p m t = (r, d') \<Longrightarrow> invar d'"
  using observe_ok [of d p m t "()" d'] observe_err [of d p m t _ d'] by (cases r) auto

lemma observe_fired:
  "invar d \<Longrightarrow> dl_observe ops d p m t = (r, d') \<Longrightarrow>
   fired d' p' m' = (if p' = p \<and> m' = m \<and> (\<exists>u. r = Inr u) then Some t else fired d p' m')"
  using observe_ok [of d p m t "()" d' p' m'] observe_err [of d p m t _ d' p' m']
  by (cases r) auto

lemma not_suppressed_age:
  "invar d \<Longrightarrow> dl_is_suppressed ops d p m t w = Inr False \<Longrightarrow> fired d p m = Some f \<Longrightarrow>
   int w \<le> sat_sub t f"
  using suppressed_iff by fastforce

end

section \<open>The in-memory backend\<close>

definition MAX_DEDUP_ENTRIES_PER_TENANT :: nat where
  "MAX_DEDUP_ENTRIES_PER_TENANT = 100000"

record in_memory_dedup =
  dd_state :: "(string \<times> string, int) btree_map"
  dd_cap :: nat

definition dedup_with_cap :: "nat \<Rightarrow> in_memory_dedup" where
  "dedup_with_cap cap = \<lparr>dd_state = [], dd_cap = cap\<rparr>"

definition dedup_new :: in_memory_dedup where
  "dedup_new = dedup_with_cap MAX_DEDUP_ENTRIES_PER_TENANT"

definition last_fired_at :: "in_memory_dedup \<Rightarrow> string \<Rightarrow> string \<Rightarrow> int option" where
  "last_fired_at d p m = bm_get (dd_state d) (p, m)"

definition dd_is_suppressed ::
  "in_memory_dedup \<Rightarrow> string \<Rightarrow> string \<Rightarrow> int \<Rightarrow> nat \<Rightarrow> dedup_ledger_error + bool" where
  "dd_is_suppressed d p m current_time w =
     (case bm_get (dd_state d) (p, m) of
        None \<Rightarrow> Inr False
      | Some fired_at \<Rightarrow> Inr (sat_sub current_time fired_at < int w))"

definition dd_observe ::
  "in_memory_dedup \<Rightarrow> string \<Rightarrow> string \<Rightarrow> int \<Rightarrow> (dedup_ledger_error, unit, in_memory_dedup) outcome_of"
where
  "dd_observe d p m fired_at =
     (case bm_get (dd_state d) (p, m) of
        Some slot \<Rightarrow> (Inr (), d\<lparr>dd_state := bm_insert (p, m) fired_at (dd_state d)\<rparr>)
      | None \<Rightarrow>
          if dd_cap d \<le> bm_len (dd_state d) then (Inl (CapacityExhausted (dd_cap d)), d)
          else (Inr (), d\<lparr>dd_state := bm_insert (p, m) fired_at (dd_state d)\<rparr>))"

definition dd_clear :: "in_memory_dedup \<Rightarrow> (dedup_ledger_error, unit, in_memory_dedup) outcome_of"
where
  "dd_clear d = (Inr (), d\<lparr>dd_state := []\<rparr>)"

definition dd_len :: "in_memory_dedup \<Rightarrow> nat" where
  "dd_len d = bm_len (dd_state d)"

definition dd_ops :: "in_memory_dedup dedup_ops" where
  "dd_ops = \<lparr>dl_is_suppressed = dd_is_suppressed, dl_observe = dd_observe,
             dl_clear = dd_clear, dl_len = dd_len\<rparr>"

definition dd_inv :: "in_memory_dedup \<Rightarrow> bool" where
  "dd_inv d \<longleftrightarrow> bm_inv (dd_state d) \<and> bm_len (dd_state d) \<le> dd_cap d"

lemma dd_ops_simps [simp]:
  "dl_is_suppressed dd_ops = dd_is_suppressed" "dl_observe dd_ops = dd_observe"
  "dl_clear dd_ops = dd_clear" "dl_len dd_ops = dd_len"
  by (simp_all add: dd_ops_def)

lemma dd_is_suppressed_total:
  "dd_is_suppressed d p m t w =
     Inr (case last_fired_at d p m of None \<Rightarrow> False | Some f \<Rightarrow> sat_sub t f < int w)"
  by (simp add: dd_is_suppressed_def last_fired_at_def split: option.split)

lemma dd_observe_inv: "dd_inv d \<Longrightarrow> dd_observe d p m t = (r, d') \<Longrightarrow> dd_inv d'"
  by (auto simp: dd_observe_def dd_inv_def bm.invar_update bm_len_insert
      split: option.splits if_splits)

lemma dd_observe_err: "dd_observe d p m t = (Inl e, d') \<Longrightarrow> d' = d \<and> e = CapacityExhausted (dd_cap d)"
  by (auto simp: dd_observe_def split: option.splits if_splits)

lemma dd_observe_fired:
  "dd_observe d p m t = (Inr u, d') \<Longrightarrow>
   last_fired_at d' p' m' = (if p' = p \<and> m' = m then Some t else last_fired_at d p' m')"
  by (auto simp: dd_observe_def last_fired_at_def bm_get_insert split: option.splits if_splits)

lemma dd_observe_known: "last_fired_at d p m \<noteq> None \<Longrightarrow> \<exists>d'. dd_observe d p m t = (Inr (), d')"
  by (auto simp: dd_observe_def last_fired_at_def)

lemma dd_inv_new [simp]: "dd_inv dedup_new"
  by (simp add: dd_inv_def dedup_new_def dedup_with_cap_def bm_len_def)

interpretation dd: dedup_ledger dd_ops last_fired_at dd_inv
proof unfold_locales
  fix d p m t w b
  assume "dl_is_suppressed dd_ops d p m t w = Inr b"
  then show "b \<longleftrightarrow> (\<exists>f. last_fired_at d p m = Some f \<and> sat_sub t f < int w)"
    by (auto simp: dd_is_suppressed_total split: option.splits)
next
  fix d p m t u d' p' m'
  assume "dd_inv d" and "dl_observe dd_ops d p m t = (Inr u, d')"
  then show "dd_inv d' \<and>
      last_fired_at d' p' m' = (if p' = p \<and> m' = m then Some t else last_fired_at d p' m')"
    by (simp add: dd_observe_inv dd_observe_fired)
next
  fix d p m t e d' p' m'
  assume "dd_inv d" and "dl_observe dd_ops d p m t = (Inl e, d')"
  then show "dd_inv d' \<and> last_fired_at d' p' m' = last_fired_at d p' m'"
    using dd_observe_err [of d p m t e d'] by auto
next
  fix d u d' p' m'
  assume "dd_inv d" and "dl_clear dd_ops d = (Inr u, d')"
  then show "dd_inv d' \<and> last_fired_at d' p' m' = None"
    by (auto simp: dd_clear_def dd_inv_def last_fired_at_def bm_len_def)
qed

text \<open>The in-memory ledger honours the trait's contract at its bound.  In any valid ledger a
  query is suppressed exactly while the pair's last fire is younger than the window; recording a pair
  that is known, or any pair while there is room, succeeds and changes that pair alone; recording a
  new pair at capacity is refused, naming the capacity, and changes nothing; the bound is kept.\<close>

theorem dedup_contract:
  assumes "dd_inv d"
  shows "dd_is_suppressed d p m t w =
      Inr (\<exists>f. last_fired_at d p m = Some f \<and> sat_sub t f < int w) \<and>
    (let (r, d') = dd_observe d p m t in
       dd_inv d' \<and> dd_cap d' = dd_cap d \<and>
       (if last_fired_at d p m \<noteq> None \<or> dd_len d < dd_cap d
        then r = Inr () \<and>
          (\<forall>p' m'. last_fired_at d' p' m' = (if p' = p \<and> m' = m then Some t else last_fired_at d p' m'))
        else r = Inl (CapacityExhausted (dd_cap d)) \<and> d' = d))"
proof
  show "dd_is_suppressed d p m t w = Inr (\<exists>f. last_fired_at d p m = Some f \<and> sat_sub t f < int w)"
    by (simp add: dd_is_suppressed_total split: option.split)
  obtain r d' where obs: "dd_observe d p m t = (r, d')" by fastforce
  have "if last_fired_at d p m \<noteq> None \<or> dd_len d < dd_cap d then r = Inr ()
      else r = Inl (CapacityExhausted (dd_cap d)) \<and> d' = d"
    using obs by (auto simp: dd_observe_def last_fired_at_def dd_len_def split: option.splits if_splits)
  moreover have "dd_cap d' = dd_cap d"
    using obs by (auto simp: dd_observe_def split: option.splits if_splits)
  ultimately show "let (r, d') = dd_observe d p m t in
       dd_inv d' \<and> dd_cap d' = dd_cap d \<and>
       (if last_fired_at d p m \<noteq> None \<or> dd_len d < dd_cap d
        then r = Inr () \<and>
          (\<forall>p' m'. last_fired_at d' p' m' = (if p' = p \<and> m' = m then Some t else last_fired_at d p' m'))
        else r = Inl (CapacityExhausted (dd_cap d)) \<and> d' = d)"
    using obs dd_observe_inv [OF assms obs] dd_observe_fired [of d p m t _ d'] by (auto split: if_splits)
qed

lemma dedup_contract_witness:
  "fst (dd_observe \<lparr>dd_state = [((''a'', ''m''), 5)], dd_cap = 1\<rparr> ''b'' ''m'' 9) = Inl (CapacityExhausted 1) \<and>
   fst (dd_observe \<lparr>dd_state = [((''a'', ''m''), 5)], dd_cap = 1\<rparr> ''a'' ''m'' 9) = Inr ()"
proof -
  let ?d = "\<lparr>dd_state = [((''a'', ''m''), 5)], dd_cap = 1\<rparr> :: in_memory_dedup"
  have inv: "dd_inv ?d" by (simp add: dd_inv_def bm_inv_def bm_keys_def bm_len_def)
  from dedup_contract [OF inv, of "''b''" "''m''" 9 0] dedup_contract [OF inv, of "''a''" "''m''" 9 0]
  show ?thesis by (simp add: last_fired_at_def dd_len_def bm_len_def split: prod.splits)
qed

end
