(* ===== verification/Evaluators.thy ===== *)
theory Evaluators
  imports Buffers Dedup "HOL-Library.Sublist"
begin

text \<open>
  \<open>ephemeral-anomaly/src/evaluators.rs\<close> and the output types of \<open>fire.rs\<close>: one evaluator
  per firing rule, each reading an already evicted buffer and the ledger, and the counting
  loops they rest on.
\<close>

section \<open>Output types (fire.rs)\<close>

record match_scope =
  mts_mandate_id :: "string option"
  mts_operator_id :: "string option"
  mts_integration_ref :: "string option"
  mts_resource_kind :: "string option"
  mts_verb :: "string option"
  mts_tier :: "nat option"

record anomaly_fire =
  af_pattern_id :: string
  af_library_version :: nat
  af_severity :: severity
  af_firing_rule :: firing_rule
  af_match_scope :: match_scope

definition match_scope_default :: match_scope where
  "match_scope_default =
     \<lparr>mts_mandate_id = None, mts_operator_id = None, mts_integration_ref = None,
      mts_resource_kind = None, mts_verb = None, mts_tier = None\<rparr>"

section \<open>Suppression and construction of a fire\<close>

definition is_fire_suppressed ::
  "'d dedup_ops \<Rightarrow> pattern_entry \<Rightarrow> scope_bucket_key \<Rightarrow> int \<Rightarrow> 'd \<Rightarrow> dedup_ledger_error + bool"
where
  "is_fire_suppressed ops p key current_time d =
     (let w = (case window_seconds p of Some w \<Rightarrow> w | None \<Rightarrow> FALLBACK_FIRE_ONCE_WINDOW_SECONDS)
      in dl_is_suppressed ops d (pattern_id p) (key_mandate_id key) current_time w)"

definition bind_integration ::
  "mandate_scope \<Rightarrow> canonicalized_event \<Rightarrow> match_scope \<Rightarrow> match_scope" where
  "bind_integration ms ev sc =
     (if ms_integration_ref ms \<noteq> None then sc\<lparr>mts_integration_ref := Some (ev_integration ev)\<rparr>
      else sc)"

definition bind_verb :: "verb_predicate \<Rightarrow> canonicalized_event \<Rightarrow> match_scope \<Rightarrow> match_scope" where
  "bind_verb vp ev sc =
     (case vp of
        Exact _ \<Rightarrow> sc\<lparr>mts_verb := Some (ev_verb ev)\<rparr>
      | Family _ \<Rightarrow> sc
      | AnyDestructive \<Rightarrow> sc)"

definition build_match_scope ::
  "pattern_entry \<Rightarrow> scope_bucket_key \<Rightarrow> canonicalized_event \<Rightarrow> match_scope" where
  "build_match_scope p key ev =
     (let sc = match_scope_default\<lparr>mts_mandate_id := Some (key_mandate_id key)\<rparr> in
      case scope p of
        VerbResourceMandate vp rk ms \<Rightarrow>
          (let sc = bind_verb vp ev sc;
               sc = (if rk \<noteq> None then sc\<lparr>mts_resource_kind := Some (ev_resource_kind ev)\<rparr> else sc)
           in bind_integration ms ev sc)
      | IamAttachFamily _ ms \<Rightarrow> bind_integration ms ev sc
      | ProtectedBranches ms _ \<Rightarrow> bind_integration ms ev sc
      | CrossTierSequence ms _ \<Rightarrow> bind_integration ms ev sc
      | MandatePace _ _ \<Rightarrow> sc\<lparr>mts_tier := Some (ev_tier ev)\<rparr>
      | VerbFanout vp ms \<Rightarrow> bind_integration ms ev (bind_verb vp ev sc)
      | SilenceThenBurst _ _ _ \<Rightarrow> sc
      | CanaryWindow _ _ \<Rightarrow> sc
      | DelegationDepth _ \<Rightarrow> sc)"

definition build_anomaly_fire ::
  "pattern_entry \<Rightarrow> scope_bucket_key \<Rightarrow> nat \<Rightarrow> canonicalized_event \<Rightarrow> anomaly_fire" where
  "build_anomaly_fire p key library_version sample_event =
     \<lparr>af_pattern_id = pattern_id p, af_library_version = library_version,
      af_severity = severity_of p, af_firing_rule = firing_rule_of p,
      af_match_scope = build_match_scope p key sample_event\<rparr>"

text \<open>The common tail of the evaluators: \<open>buffer.events.back()\<close>, then the fire.\<close>

definition fire_on_last ::
  "pattern_entry \<Rightarrow> pattern_buffer \<Rightarrow> scope_bucket_key \<Rightarrow> nat \<Rightarrow> anomaly_fire option" where
  "fire_on_last p b key library_version =
     (if pb_events b = [] then None
      else Some (build_anomaly_fire p key library_version (last (pb_events b))))"

section \<open>Counting loops\<close>

definition count_distinct_resource_refs :: "pattern_buffer \<Rightarrow> nat" where
  "count_distinct_resource_refs b =
     u32_of_usize (length (remdups (map ev_resource_ref (pb_events b))))"

fun cross_tier_loop :: "nat list \<Rightarrow> canonicalized_event list \<Rightarrow> nat \<Rightarrow> nat \<Rightarrow> nat" where
  "cross_tier_loop prog [] completions step = completions"
| "cross_tier_loop prog (ev # evs) completions step =
     (if prog ! step \<le> ev_tier ev then
        (if Suc step = length prog then cross_tier_loop prog evs (sat_add_u32 completions 1) 0
         else cross_tier_loop prog evs completions (Suc step))
      else cross_tier_loop prog evs completions step)"

definition count_cross_tier_sequences :: "pattern_buffer \<Rightarrow> nat list \<Rightarrow> nat" where
  "count_cross_tier_sequences b tier_progression =
     (if tier_progression = [] then 0 else cross_tier_loop tier_progression (pb_events b) 0 0)"

definition silence_before :: "canonicalized_event list \<Rightarrow> int \<Rightarrow> nat \<Rightarrow> bool" where
  "silence_before evs silence i \<longleftrightarrow>
     i = 0 \<or> silence \<le> sat_sub (timestamp (evs ! i)) (timestamp (evs ! (i - 1)))"

definition burst_span :: "canonicalized_event list \<Rightarrow> nat \<Rightarrow> nat \<Rightarrow> int" where
  "burst_span evs needed i = sat_sub (timestamp (evs ! (i + needed - 1))) (timestamp (evs ! i))"

function silence_burst_loop ::
  "canonicalized_event list \<Rightarrow> nat \<Rightarrow> int \<Rightarrow> int \<Rightarrow> nat \<Rightarrow> nat \<Rightarrow> nat" where
  "silence_burst_loop evs needed silence burst i completions =
     (if 0 < needed \<and> i + needed \<le> length evs then
        (if \<not> silence_before evs silence i
         then silence_burst_loop evs needed silence burst (i + 1) completions
         else if burst_span evs needed i \<le> burst
         then silence_burst_loop evs needed silence burst (i + needed) (sat_add_u32 completions 1)
         else silence_burst_loop evs needed silence burst (i + 1) completions)
      else completions)"
  by pat_completeness auto
termination
  by (relation "measure (\<lambda>(evs, needed, silence, burst, i, c). Suc (length evs) - i)") auto

declare silence_burst_loop.simps [simp del]

definition count_silence_then_burst :: "pattern_buffer \<Rightarrow> nat \<Rightarrow> nat \<Rightarrow> nat \<Rightarrow> nat" where
  "count_silence_then_burst b silence_seconds burst_seconds burst_threshold =
     (if burst_threshold = 0 then 0
      else if length (pb_events b) < burst_threshold then 0
      else silence_burst_loop (pb_events b) burst_threshold (int silence_seconds)
             (int burst_seconds) 0 0)"

section \<open>The evaluators\<close>

definition evaluate_first_match ::
  "'d dedup_ops \<Rightarrow> pattern_entry \<Rightarrow> pattern_buffer \<Rightarrow> scope_bucket_key \<Rightarrow> nat \<Rightarrow> int \<Rightarrow> 'd \<Rightarrow>
   dedup_ledger_error + anomaly_fire option" where
  "evaluate_first_match ops p b key library_version current_time d =
     (if firing_rule_of p \<noteq> FirstMatch then Inr None
      else
        case is_fire_suppressed ops p key current_time d of
          Inl e \<Rightarrow> Inl e
        | Inr True \<Rightarrow> Inr None
        | Inr False \<Rightarrow>
            (case threshold_of p of
               Count n \<Rightarrow>
                 if u32_of_usize (length (pb_events b)) < n then Inr None
                 else Inr (fire_on_last p b key library_version)
             | DistinctCount n \<Rightarrow>
                 if count_distinct_resource_refs b < n then Inr None
                 else Inr (fire_on_last p b key library_version)
             | _ \<Rightarrow> Inr None))"

definition evaluate_sequence_match ::
  "'d dedup_ops \<Rightarrow> pattern_entry \<Rightarrow> pattern_buffer \<Rightarrow> scope_bucket_key \<Rightarrow> nat \<Rightarrow> int \<Rightarrow> 'd \<Rightarrow>
   dedup_ledger_error + anomaly_fire option" where
  "evaluate_sequence_match ops p b key library_version current_time d =
     (if firing_rule_of p \<noteq> SequenceMatch then Inr None
      else
        case threshold_of p of
          Sequence n \<Rightarrow>
            (case is_fire_suppressed ops p key current_time d of
               Inl e \<Rightarrow> Inl e
             | Inr True \<Rightarrow> Inr None
             | Inr False \<Rightarrow>
                 (case scope p of
                    CrossTierSequence _ tier_progression \<Rightarrow>
                      if count_cross_tier_sequences b tier_progression < n then Inr None
                      else Inr (fire_on_last p b key library_version)
                  | SilenceThenBurst sil bur thr \<Rightarrow>
                      if count_silence_then_burst b sil bur thr < n then Inr None
                      else Inr (fire_on_last p b key library_version)
                  | _ \<Rightarrow> Inr None))
        | _ \<Rightarrow> Inr None)"

definition evaluate_cumulative_over_baseline ::
  "'d dedup_ops \<Rightarrow> pattern_entry \<Rightarrow> pattern_buffer \<Rightarrow> scope_bucket_key \<Rightarrow> nat \<Rightarrow> int \<Rightarrow> 'd \<Rightarrow>
   dedup_ledger_error + anomaly_fire option" where
  "evaluate_cumulative_over_baseline ops p b key library_version current_time d =
     (if firing_rule_of p \<noteq> CumulativeOverBaseline then Inr None
      else
        case is_fire_suppressed ops p key current_time d of
          Inl e \<Rightarrow> Inl e
        | Inr True \<Rightarrow> Inr None
        | Inr False \<Rightarrow>
            (case threshold_of p of
               Count n \<Rightarrow>
                 if u32_of_usize (length (pb_events b)) < n then Inr None
                 else Inr (fire_on_last p b key library_version)
             | DistinctCount n \<Rightarrow>
                 if count_distinct_resource_refs b < n then Inr None
                 else Inr (fire_on_last p b key library_version)
             | _ \<Rightarrow> Inr None))"

section \<open>The tier walk is an optimal greedy matching\<close>

text \<open>
  A walk over a target stream \<open>f 0, f 1, \<dots>\<close>: each element that reaches the current target
  advances it.  A prefix of the targets embeds in the elements exactly when the walk gets past it.
\<close>

fun walk :: "(nat \<Rightarrow> nat) \<Rightarrow> nat \<Rightarrow> nat list \<Rightarrow> nat" where
  "walk f t [] = t"
| "walk f t (x # xs) = walk f (if f t \<le> x then Suc t else t) xs"

lemma walk_ge: "t \<le> walk f t xs"
proof (induction xs arbitrary: t)
  case (Cons x xs)
  from Cons [of "Suc t"] Cons [of t] show ?case by simp
qed simp

lemma walk_le: "walk f t xs \<le> t + length xs"
proof (induction xs arbitrary: t)
  case (Cons x xs)
  from Cons [of "Suc t"] Cons [of t] show ?case by simp
qed simp

lemma list_emb_Cons_greedy:
  "list_emb P (y # ys) (x # xs) \<longleftrightarrow> (if P y x then list_emb P ys xs else list_emb P (y # ys) xs)"
proof -
  have "list_emb P (y # ys) (x # xs) \<longleftrightarrow> (P y x \<and> list_emb P ys xs) \<or> list_emb P (y # ys) xs"
    by (auto elim: list_emb.cases intro: list_emb.intros)
  moreover have "list_emb P (y # ys) xs \<Longrightarrow> list_emb P ys xs"
    by (drule list_emb_ConsD) (auto intro: list_emb_append2)
  ultimately show ?thesis by auto
qed

lemma list_emb_walk: "t \<le> n \<Longrightarrow> list_emb (\<le>) (map f [t..<n]) xs \<longleftrightarrow> n \<le> walk f t xs"
proof (induction xs arbitrary: t)
  case Nil
  then show ?case by (auto dest: list_emb_Nil2)
next
  case (Cons x xs)
  show ?case
  proof (cases "t = n")
    case True
    then show ?thesis using walk_ge [of t f "x # xs"] by simp
  next
    case False
    with Cons.prems have "t < n" by simp
    then have split: "map f [t..<n] = f t # map f [Suc t..<n]" by (simp add: upt_conv_Cons)
    show ?thesis
      unfolding split list_emb_Cons_greedy
      using \<open>t < n\<close> Cons.IH [of "Suc t"] Cons.IH [of t, unfolded split] by simp
  qed
qed

lemma concat_replicate_snoc: "concat (replicate (Suc k) xs) = concat (replicate k xs) @ xs"
  by (induction k) simp_all

lemma periodic_block:
  "prog \<noteq> [] \<Longrightarrow> map (\<lambda>t. prog ! (t mod length prog)) [k * length prog..<k * length prog + length prog] = prog"
  by (rule nth_equalityI) simp_all

lemma concat_replicate_upt:
  assumes "prog \<noteq> []"
  shows "concat (replicate k prog) = map (\<lambda>t. prog ! (t mod length prog)) [0..<k * length prog]"
proof (induction k)
  case (Suc k)
  let ?f = "\<lambda>t. prog ! (t mod length prog)" and ?n = "k * length prog"
  have "[0..<?n + length prog] = [0..<?n] @ [?n..<?n + length prog]"
    by (rule upt_add_eq_append) simp
  then have "map ?f [0..<?n + length prog] = map ?f [0..<?n] @ prog"
    using periodic_block [OF assms, of k] by (metis map_append)
  moreover have "Suc k * length prog = ?n + length prog" by simp
  ultimately show ?case unfolding concat_replicate_snoc Suc by metis
qed simp

lemma cross_tier_loop_walk:
  assumes "prog \<noteq> []" and "step < length prog" and "c + length evs \<le> u32_max"
  shows "cross_tier_loop prog evs c step =
    walk (\<lambda>t. prog ! (t mod length prog)) (c * length prog + step) (map ev_tier evs) div length prog"
  using assms
proof (induction prog evs c step rule: cross_tier_loop.induct)
  case (2 prog ev evs c step)
  have sat: "sat_add_u32 c 1 = Suc c" using 2 by (simp add: sat_add_u32_def)
  show ?case
  proof (cases "prog ! step \<le> ev_tier ev")
    case True
    show ?thesis
    proof (cases "Suc step = length prog")
      case last: True
      have shift: "Suc (c * length prog + step) = Suc c * length prog + 0" using last by simp
      have "cross_tier_loop prog (ev # evs) c step = cross_tier_loop prog evs (Suc c) 0"
        using True last sat by simp
      also have "\<dots> = walk (\<lambda>t. prog ! (t mod length prog)) (Suc (c * length prog + step))
          (map ev_tier evs) div length prog"
        unfolding shift using 2 True last sat by simp
      finally show ?thesis using True 2 by simp
    next
      case False
      then show ?thesis using 2 True by simp
    qed
  next
    case False
    then show ?thesis using 2 by simp
  qed
qed simp

text \<open>The single-pass tier walk is optimal.  It reports at least \<open>k\<close> completed
  progressions exactly when \<open>k\<close> copies of the progression, one after another, embed as a
  subsequence in the tiers of the events (each step met by an event of at least its tier), so
  the greedy reset-and-continue scan misses no completion.\<close>

theorem count_cross_tier_embeds:
  assumes "prog \<noteq> []" and "length (pb_events b) \<le> u32_max"
  shows "k \<le> count_cross_tier_sequences b prog \<longleftrightarrow>
    list_emb (\<le>) (concat (replicate k prog)) (map ev_tier (pb_events b))"
proof -
  let ?f = "\<lambda>t. prog ! (t mod length prog)"
  have "count_cross_tier_sequences b prog = walk ?f 0 (map ev_tier (pb_events b)) div length prog"
    using assms cross_tier_loop_walk [of prog 0 0 "pb_events b"]
    by (simp add: count_cross_tier_sequences_def)
  then have "k \<le> count_cross_tier_sequences b prog \<longleftrightarrow>
      k * length prog \<le> walk ?f 0 (map ev_tier (pb_events b))"
    using assms(1) by (simp add: less_eq_div_iff_mult_less_eq)
  also have "\<dots> \<longleftrightarrow> list_emb (\<le>) (concat (replicate k prog)) (map ev_tier (pb_events b))"
    using assms(1) by (simp add: concat_replicate_upt list_emb_walk)
  finally show ?thesis .
qed

definition tier_event :: "nat \<Rightarrow> canonicalized_event" where
  "tier_event tier =
     \<lparr>event_id = [], timestamp = int tier, ev_mandate_id = [], ev_tier = tier, ev_integration = [],
      ev_verb = [], ev_resource_kind = [], ev_resource_ref = [], ev_outcome = Executed\<rparr>"

definition tier_buffer :: "nat list \<Rightarrow> pattern_buffer" where
  "tier_buffer tiers = (pattern_buffer_new [])\<lparr>pb_events := map tier_event tiers\<rparr>"

lemma count_cross_tier_embeds_witness:
  "count_cross_tier_sequences (tier_buffer [1, 0, 2, 3, 3]) [1, 2] = 2 \<and>
   list_emb (\<le>) (concat (replicate 2 [1, 2])) [1, 0, 2, 3, 3 :: nat] \<and>
   \<not> list_emb (\<le>) (concat (replicate 3 [1, 2])) [1, 0, 2, 3, 3 :: nat]"
proof -
  have count: "count_cross_tier_sequences (tier_buffer [1, 0, 2, 3, 3]) [1, 2] = 2"
    by (simp add: count_cross_tier_sequences_def tier_buffer_def pattern_buffer_new_def tier_event_def
        sat_add_u32_def u32_max_def numeral_2_eq_2)
  have "map ev_tier (pb_events (tier_buffer [1, 0, 2, 3, 3])) = [1, 0, 2, 3, 3]"
    by (simp add: tier_buffer_def tier_event_def)
  moreover have "length (pb_events (tier_buffer [1, 0, 2, 3, 3])) \<le> u32_max"
    by (simp add: tier_buffer_def u32_max_def)
  ultimately have "k \<le> 2 \<longleftrightarrow> list_emb (\<le>) (concat (replicate k [1, 2])) [1, 0, 2, 3, 3 :: nat]" for k
    using count_cross_tier_embeds [of "[1, 2]" "tier_buffer [1, 0, 2, 3, 3]" k] unfolding count by simp
  from this [of 2] this [of 3] count show ?thesis by simp
qed

section \<open>The burst scan packs as many bursts as possible\<close>

definition qualifying_burst :: "canonicalized_event list \<Rightarrow> nat \<Rightarrow> int \<Rightarrow> int \<Rightarrow> nat \<Rightarrow> bool" where
  "qualifying_burst evs needed silence burst i \<longleftrightarrow>
     i + needed \<le> length evs \<and> silence_before evs silence i \<and> burst_span evs needed i \<le> burst"

text \<open>A list of starting indices from \<open>i\<close> on, each a qualifying burst, none overlapping.\<close>

fun burst_chain :: "canonicalized_event list \<Rightarrow> nat \<Rightarrow> int \<Rightarrow> int \<Rightarrow> nat \<Rightarrow> nat list \<Rightarrow> bool" where
  "burst_chain evs needed silence burst i [] \<longleftrightarrow> True"
| "burst_chain evs needed silence burst i (j # js) \<longleftrightarrow>
     i \<le> j \<and> qualifying_burst evs needed silence burst j \<and>
     burst_chain evs needed silence burst (j + needed) js"

lemma burst_chain_mono: "burst_chain evs n s b i js \<Longrightarrow> i' \<le> i \<Longrightarrow> burst_chain evs n s b i' js"
  by (cases js) auto

lemma burst_chain_skip:
  "\<not> qualifying_burst evs n s b i \<Longrightarrow> burst_chain evs n s b i js \<longleftrightarrow> burst_chain evs n s b (Suc i) js"
  by (cases js) (auto simp: Suc_le_eq order.strict_iff_order)

lemma silence_burst_loop_step:
  assumes "0 < needed"
  shows "silence_burst_loop evs needed silence burst i c =
    (if \<not> i + needed \<le> length evs then c
     else if qualifying_burst evs needed silence burst i
     then silence_burst_loop evs needed silence burst (i + needed) (sat_add_u32 c 1)
     else silence_burst_loop evs needed silence burst (Suc i) c)"
  using assms by (subst silence_burst_loop.simps) (simp add: qualifying_burst_def)

lemma silence_burst_loop_chain:
  assumes "0 < needed" and "c + (length evs - i) \<le> u32_max"
  shows "c + k \<le> silence_burst_loop evs needed silence burst i c \<longleftrightarrow>
    (\<exists>js. length js = k \<and> burst_chain evs needed silence burst i js)"
  using assms(2)
proof (induction "Suc (length evs) - i" arbitrary: i c k rule: less_induct)
  case less
  note step = silence_burst_loop_step [OF assms(1), of evs silence burst i c]
  show ?case
  proof (cases "i + needed \<le> length evs")
    case False
    then have "burst_chain evs needed silence burst i js \<longleftrightarrow> js = []" for js
      by (cases js) (auto simp: qualifying_burst_def)
    with False step show ?thesis by auto
  next
    case fits: True
    show ?thesis
    proof (cases "qualifying_burst evs needed silence burst i")
      case False
      with fits step less.hyps [of "Suc i" c k] less.prems show ?thesis
        by (simp add: burst_chain_skip)
    next
      case True
      have sat: "sat_add_u32 c 1 = Suc c"
        using less.prems fits assms(1) by (simp add: sat_add_u32_def)
      have IH: "Suc c + m \<le> silence_burst_loop evs needed silence burst i c \<longleftrightarrow>
          (\<exists>js. length js = m \<and> burst_chain evs needed silence burst (i + needed) js)" for m
        using less.hyps [of "i + needed" "Suc c" m] less.prems fits assms(1) True step sat by simp
      show ?thesis
      proof (cases k)
        case 0
        then show ?thesis using IH [of 0] by auto
      next
        case (Suc m)
        have "(\<exists>js. length js = m \<and> burst_chain evs needed silence burst (i + needed) js) \<longleftrightarrow>
            (\<exists>js. length js = Suc m \<and> burst_chain evs needed silence burst i js)" (is "?l \<longleftrightarrow> ?r")
        proof
          assume ?l
          then obtain js where "length js = m" "burst_chain evs needed silence burst (i + needed) js"
            by blast
          with True show ?r by (intro exI [of _ "i # js"]) simp
        next
          assume ?r
          then obtain j js where "length js = m" "i \<le> j" "burst_chain evs needed silence burst (j + needed) js"
            by (auto simp: length_Suc_conv)
          then show ?l using burst_chain_mono [of evs needed silence burst "j + needed" js "i + needed"]
            by auto
        qed
        with IH [of m] Suc show ?thesis by simp
      qed
    qed
  qed
qed

text \<open>The burst scan is optimal.  It reports at least \<open>k\<close> bursts exactly when there are
  \<open>k\<close> non-overlapping runs of \<open>burst_threshold\<close> consecutive events, each preceded by
  the required silence (or the start of the buffer) and each fitting the burst length; skipping a
  counted burst never costs one.\<close>

theorem count_silence_then_burst_chain:
  assumes "0 < thr" and "length (pb_events b) \<le> u32_max"
  shows "k \<le> count_silence_then_burst b sil bur thr \<longleftrightarrow>
    (\<exists>js. length js = k \<and> burst_chain (pb_events b) thr (int sil) (int bur) 0 js)"
proof (cases "length (pb_events b) < thr")
  case True
  then have "burst_chain (pb_events b) thr (int sil) (int bur) 0 js \<longleftrightarrow> js = []" for js
    by (cases js) (auto simp: qualifying_burst_def)
  with True show ?thesis by (auto simp: count_silence_then_burst_def)
next
  case False
  then show ?thesis
    using assms silence_burst_loop_chain [of thr 0 "pb_events b" 0 k]
    by (simp add: count_silence_then_burst_def)
qed

lemma count_silence_then_burst_chain_witness:
  "count_silence_then_burst (tier_buffer [0, 1, 50, 51]) 30 5 2 = 2 \<and>
   (\<exists>js. length js = 2 \<and> burst_chain (pb_events (tier_buffer [0, 1, 50, 51])) 2 30 5 0 js)"
proof -
  have "2 \<le> count_silence_then_burst (tier_buffer [0, 1, 50, 51]) 30 5 2"
    and count: "count_silence_then_burst (tier_buffer [0, 1, 50, 51]) 30 5 2 = 2"
    by (simp_all add: count_silence_then_burst_def tier_buffer_def tier_event_def silence_burst_loop.simps
        silence_before_def burst_span_def sat_sub_def clamp_i64_def sat_add_u32_def arith_defs numeral_2_eq_2)
  with count_silence_then_burst_chain [of 2 "tier_buffer [0, 1, 50, 51]" 2 30 5] show ?thesis
    by (simp add: tier_buffer_def u32_max_def)
qed

section \<open>Dispatch and its reference condition\<close>

text \<open>The \<open>match pattern.firing_rule\<close> of \<open>evaluate_all\<close>.\<close>

definition evaluate_pattern ::
  "'d dedup_ops \<Rightarrow> pattern_entry \<Rightarrow> pattern_buffer \<Rightarrow> scope_bucket_key \<Rightarrow> nat \<Rightarrow> int \<Rightarrow> 'd \<Rightarrow>
   dedup_ledger_error + anomaly_fire option" where
  "evaluate_pattern ops p b key library_version current_time d =
     (case firing_rule_of p of
        FirstMatch \<Rightarrow> evaluate_first_match ops p b key library_version current_time d
      | SequenceMatch \<Rightarrow> evaluate_sequence_match ops p b key library_version current_time d
      | CumulativeOverBaseline \<Rightarrow>
          evaluate_cumulative_over_baseline ops p b key library_version current_time d)"

text \<open>When the live events of a bucket meet the pattern's threshold, as one condition.\<close>

definition threshold_met :: "pattern_entry \<Rightarrow> pattern_buffer \<Rightarrow> bool" where
  "threshold_met p b \<longleftrightarrow>
     (case threshold_of p of
        Count n \<Rightarrow> firing_rule_of p \<noteq> SequenceMatch \<and> n \<le> u32_of_usize (length (pb_events b))
      | DistinctCount n \<Rightarrow>
          firing_rule_of p \<noteq> SequenceMatch \<and> n \<le> count_distinct_resource_refs b
      | Sequence n \<Rightarrow> firing_rule_of p = SequenceMatch \<and>
          (case scope p of
             CrossTierSequence _ prog \<Rightarrow> n \<le> count_cross_tier_sequences b prog
           | SilenceThenBurst sil bur thr \<Rightarrow> n \<le> count_silence_then_burst b sil bur thr
           | _ \<Rightarrow> False)
      | ChainDepth _ \<Rightarrow> False)"

lemma evaluate_pattern_iff:
  "evaluate_pattern ops p b key ver t d = Inr (Some f) \<longleftrightarrow>
     is_fire_suppressed ops p key t d = Inr False \<and> threshold_met p b \<and> pb_events b \<noteq> [] \<and>
     f = build_anomaly_fire p key ver (last (pb_events b))"
  by (auto simp: evaluate_pattern_def evaluate_first_match_def evaluate_sequence_match_def
      evaluate_cumulative_over_baseline_def threshold_met_def fire_on_last_def
      split: firing_rule.splits threshold.splits scope_predicate.splits sum.splits bool.splits
        if_splits)

lemma bind_keeps_mandate [simp]:
  "mts_mandate_id (bind_integration ms ev sc) = mts_mandate_id sc"
  "mts_mandate_id (bind_verb vp ev sc) = mts_mandate_id sc"
  by (simp_all add: bind_integration_def bind_verb_def split: verb_predicate.split)

lemma build_match_scope_mandate [simp]:
  "mts_mandate_id (build_match_scope p key ev) = Some (key_mandate_id key)"
  by (simp add: build_match_scope_def Let_def match_scope_default_def split: scope_predicate.split)

lemma build_anomaly_fire_simps [simp]:
  "af_pattern_id (build_anomaly_fire p key ver ev) = pattern_id p"
  "af_library_version (build_anomaly_fire p key ver ev) = ver"
  "af_severity (build_anomaly_fire p key ver ev) = severity_of p"
  "af_firing_rule (build_anomaly_fire p key ver ev) = firing_rule_of p"
  "af_match_scope (build_anomaly_fire p key ver ev) = build_match_scope p key ev"
  by (simp_all add: build_anomaly_fire_def)

end
