(* ===== verification/Detector.thy ===== *)
theory Detector
  imports Evaluators
begin

text \<open>
  \<open>ephemeral-anomaly/src/state.rs\<close>: the detector.  Its state pins a verified library and
  holds the buckets, the per-mandate counters, the clock and the fire-once ledger; its three
  mutating operations are \<open>advance_clock\<close>, \<open>ingest_event\<close> and \<open>evaluate_all\<close>.
\<close>

section \<open>State and operations\<close>

type_synonym buffer_map = "(scope_bucket_key, pattern_buffer) btree_map"

record 'd detector_state =
  pinned_library :: verified_anomaly_library
  buffers :: buffer_map
  per_mandate_counters :: "(string, nat) btree_map"
  current_time :: int
  dedup :: 'd

definition with_ledger :: "verified_anomaly_library \<Rightarrow> int \<Rightarrow> 'd \<Rightarrow> 'd detector_state" where
  "with_ledger lib initial_time d =
     \<lparr>pinned_library = lib, buffers = [], per_mandate_counters = [],
      current_time = initial_time, dedup = d\<rparr>"

definition detector_new :: "verified_anomaly_library \<Rightarrow> int \<Rightarrow> in_memory_dedup detector_state" where
  "detector_new lib initial_time = with_ledger lib initial_time dedup_new"

definition max_library_window_seconds :: "'d detector_state \<Rightarrow> nat option" where
  "max_library_window_seconds s =
     (case List.map_filter window_seconds (vl_patterns (pinned_library s)) of
        [] \<Rightarrow> None
      | w # ws \<Rightarrow> Some (fold max ws w))"

definition past_dated_floor :: "'d detector_state \<Rightarrow> int" where
  "past_dated_floor s =
     (let w = (case max_library_window_seconds s of
                 Some w \<Rightarrow> w | None \<Rightarrow> FALLBACK_PAST_WINDOW_SECONDS)
      in sat_sub (sat_sub (current_time s) (int w)) PAST_DATED_GRACE_SECONDS)"

definition advance_clock ::
  "'d detector_state \<Rightarrow> int \<Rightarrow> (stream_error, unit, 'd detector_state) outcome_of" where
  "advance_clock s new_time =
     (if new_time < current_time s then (Inl (ClockRegression (current_time s) new_time), s)
      else (Inr (), s\<lparr>current_time := new_time\<rparr>))"

text \<open>Scope routing of one event: the \<open>for pattern in &library.patterns\<close> loop.\<close>

definition route_pattern :: "canonicalized_event \<Rightarrow> pattern_entry \<Rightarrow> buffer_map \<Rightarrow> buffer_map" where
  "route_pattern ev p bufs =
     (if scope_matches (scope p) ev then
        let key = for_pattern_match (pattern_id p) (scope p) ev;
            b = (case bm_get bufs key of Some b \<Rightarrow> b | None \<Rightarrow> pattern_buffer_new (pattern_id p))
        in bm_insert key (b\<lparr>pb_events := ring_trim (pb_events b @ [ev])\<rparr>) bufs
      else bufs)"

fun route_event :: "canonicalized_event \<Rightarrow> pattern_entry list \<Rightarrow> buffer_map \<Rightarrow> buffer_map" where
  "route_event ev [] bufs = bufs"
| "route_event ev (p # ps) bufs = route_event ev ps (route_pattern ev p bufs)"

definition bump_counter :: "string \<Rightarrow> (string, nat) btree_map \<Rightarrow> (string, nat) btree_map" where
  "bump_counter m counters =
     (case bm_get counters m of
        Some c \<Rightarrow> bm_insert m (c + 1) counters
      | None \<Rightarrow> bm_insert m 1 counters)"

definition ingest_event ::
  "'d detector_state \<Rightarrow> canonicalized_event \<Rightarrow> (stream_error, unit, 'd detector_state) outcome_of"
where
  "ingest_event s ev =
     (let skew = sat_sub (timestamp ev) (current_time s) in
      if skew > MAX_CLOCK_SKEW_SECONDS
      then (Inl (ClockSkewRejected (sanitize_log_string (event_id ev)) skew), s)
      else
        let bound = past_dated_floor s in
        if timestamp ev < bound
        then (Inl (PastDatedEventRejected (sanitize_log_string (event_id ev))
                     (sat_sub bound (timestamp ev)) bound), s)
        else
          let observed_count = (case bm_get (per_mandate_counters s) (ev_mandate_id ev) of
                                  Some c \<Rightarrow> c | None \<Rightarrow> 0) in
          if observed_count \<ge> MAX_EVENTS_PER_MANDATE
          then (Inl (PerMandateCapReached (sanitize_log_string (ev_mandate_id ev))
                       MAX_EVENTS_PER_MANDATE), s)
          else
            (Inr (),
             s\<lparr>buffers := route_event ev (vl_patterns (pinned_library s)) (buffers s),
               per_mandate_counters := bump_counter (ev_mandate_id ev) (per_mandate_counters s)\<rparr>))"

definition pattern_index :: "verified_anomaly_library \<Rightarrow> (string, pattern_entry) btree_map" where
  "pattern_index lib = bm_collect (map (\<lambda>p. (pattern_id p, p)) (vl_patterns lib))"

text \<open>The eviction step of one bucket inside \<open>evaluate_all\<close>.\<close>

definition evict_bucket :: "pattern_entry \<Rightarrow> scope_bucket_key \<Rightarrow> int \<Rightarrow> buffer_map \<Rightarrow> buffer_map" where
  "evict_bucket p key now bufs =
     (case window_seconds p of
        Some w \<Rightarrow>
          (case bm_get bufs key of
             Some b \<Rightarrow> bm_insert key (snd (evict_aged_events b w now)) bufs
           | None \<Rightarrow> bufs)
      | None \<Rightarrow> bufs)"

fun evaluate_keys ::
  "'d dedup_ops \<Rightarrow> (string, pattern_entry) btree_map \<Rightarrow> scope_bucket_key list \<Rightarrow> anomaly_fire list \<Rightarrow>
   'd detector_state \<Rightarrow> (dedup_ledger_error, anomaly_fire list, 'd detector_state) outcome_of" where
  "evaluate_keys ops idx [] fires s = (Inr fires, s)"
| "evaluate_keys ops idx (key # keys) fires s =
     (case bm_get idx (key_pattern_id key) of
        None \<Rightarrow> evaluate_keys ops idx keys fires s
      | Some p \<Rightarrow>
          let s = s\<lparr>buffers := evict_bucket p key (current_time s) (buffers s)\<rparr> in
          (case bm_get (buffers s) key of
             None \<Rightarrow> evaluate_keys ops idx keys fires s
           | Some b \<Rightarrow>
               (case evaluate_pattern ops p b key (vl_library_version (pinned_library s))
                       (current_time s) (dedup s) of
                  Inl e \<Rightarrow> (Inl e, s)
                | Inr None \<Rightarrow> evaluate_keys ops idx keys fires s
                | Inr (Some fire) \<Rightarrow>
                    (case dl_observe ops (dedup s) (pattern_id p) (key_mandate_id key)
                            (current_time s) of
                       (Inl e, d) \<Rightarrow> (Inl e, s\<lparr>dedup := d\<rparr>)
                     | (Inr u, d) \<Rightarrow>
                         evaluate_keys ops idx keys (fires @ [fire]) (s\<lparr>dedup := d\<rparr>)))))"

definition evaluate_all ::
  "'d dedup_ops \<Rightarrow> 'd detector_state \<Rightarrow>
   (dedup_ledger_error, anomaly_fire list, 'd detector_state) outcome_of" where
  "evaluate_all ops s =
     evaluate_keys ops (pattern_index (pinned_library s)) (bm_keys (buffers s)) [] s"

section \<open>The detector invariant\<close>

text \<open>
  A bucket holds at most the cap of events, all of its own mandate and all admitted by a
  library pattern of its own id; a counter never passes the quota.
\<close>

definition bucket_ok :: "verified_anomaly_library \<Rightarrow> scope_bucket_key \<Rightarrow> pattern_buffer \<Rightarrow> bool" where
  "bucket_ok lib key b \<longleftrightarrow>
     length (pb_events b) \<le> MAX_EVENTS_PER_BUFFER \<and>
     pb_pattern_id b = key_pattern_id key \<and>
     key = ScopeBucketKey (key_pattern_id key) (key_mandate_id key) None None None \<and>
     (\<forall>ev \<in> set (pb_events b). ev_mandate_id ev = key_mandate_id key \<and>
        (\<exists>p \<in> set (vl_patterns lib). pattern_id p = key_pattern_id key \<and> scope_matches (scope p) ev))"

definition buffers_ok :: "verified_anomaly_library \<Rightarrow> buffer_map \<Rightarrow> bool" where
  "buffers_ok lib bufs \<longleftrightarrow>
     bm_inv bufs \<and> (\<forall>key b. bm_get bufs key = Some b \<longrightarrow> bucket_ok lib key b)"

definition counters_ok :: "(string, nat) btree_map \<Rightarrow> bool" where
  "counters_ok cs \<longleftrightarrow> bm_inv cs \<and> (\<forall>m c. bm_get cs m = Some c \<longrightarrow> c \<le> MAX_EVENTS_PER_MANDATE)"

definition detector_inv :: "verified_anomaly_library \<Rightarrow> 'd detector_state \<Rightarrow> bool" where
  "detector_inv lib s \<longleftrightarrow>
     pinned_library s = lib \<and> buffers_ok lib (buffers s) \<and> counters_ok (per_mandate_counters s)"

lemma buffers_ok_Nil [inv_intros]: "buffers_ok lib []"
  by (simp add: buffers_ok_def)

lemma buffers_ok_insert [inv_intros]:
  "buffers_ok lib bufs \<Longrightarrow> bucket_ok lib key b \<Longrightarrow> buffers_ok lib (bm_insert key b bufs)"
  by (auto simp: buffers_ok_def bm.invar_update bm_get_insert)

lemma buffers_okD: "buffers_ok lib bufs \<Longrightarrow> bm_get bufs key = Some b \<Longrightarrow> bucket_ok lib key b"
  by (simp add: buffers_ok_def)

lemma route_pattern_ok:
  assumes "buffers_ok lib bufs" and "p \<in> set (vl_patterns lib)"
  shows "buffers_ok lib (route_pattern ev p bufs)"
proof (cases "scope_matches (scope p) ev")
  case False
  with assms show ?thesis by (simp add: route_pattern_def)
next
  case True
  let ?key = "for_pattern_match (pattern_id p) (scope p) ev"
  define b where "b = (case bm_get bufs ?key of Some b \<Rightarrow> b | None \<Rightarrow> pattern_buffer_new (pattern_id p))"
  have b: "bucket_ok lib ?key b"
  proof (cases "bm_get bufs ?key")
    case None
    then show ?thesis
      by (simp add: b_def bucket_ok_def pattern_buffer_new_def for_pattern_match_def)
  next
    case (Some b')
    then show ?thesis using buffers_okD [OF assms(1) Some] by (simp add: b_def)
  qed
  have "bucket_ok lib ?key (b\<lparr>pb_events := ring_trim (pb_events b @ [ev])\<rparr>)"
    unfolding bucket_ok_def
  proof (intro conjI ballI)
    fix ev' assume "ev' \<in> set (pb_events (b\<lparr>pb_events := ring_trim (pb_events b @ [ev])\<rparr>))"
    then have "ev' \<in> set (pb_events b) \<or> ev' = ev"
      using set_ring_trim [of "pb_events b @ [ev]"] by auto
    then show "ev_mandate_id ev' = key_mandate_id ?key"
      and "\<exists>p \<in> set (vl_patterns lib). pattern_id p = key_pattern_id ?key \<and> scope_matches (scope p) ev'"
      using b True assms(2) unfolding bucket_ok_def by auto
  qed (use b in \<open>simp_all add: bucket_ok_def length_ring_trim\<close>)
  with assms(1) True show ?thesis
    by (simp add: route_pattern_def Let_def b_def buffers_ok_insert)
qed

lemma route_event_ok:
  "buffers_ok lib bufs \<Longrightarrow> set ps \<subseteq> set (vl_patterns lib) \<Longrightarrow> buffers_ok lib (route_event ev ps bufs)"
  by (induction ps arbitrary: bufs) (auto intro: route_pattern_ok)

lemma bucket_ok_subset:
  "bucket_ok lib key b \<Longrightarrow> set es \<subseteq> set (pb_events b) \<Longrightarrow> length es \<le> length (pb_events b) \<Longrightarrow>
   bucket_ok lib key (b\<lparr>pb_events := es\<rparr>)"
  by (auto simp: bucket_ok_def)

lemma evict_bucket_ok: "buffers_ok lib bufs \<Longrightarrow> buffers_ok lib (evict_bucket p key now bufs)"
  by (auto simp: evict_bucket_def evict_aged_events_eq Let_def
      intro!: buffers_ok_insert bucket_ok_subset set_dropWhile_subset length_dropWhile_le
      dest: buffers_okD split: option.split)

text \<open>The six ways one iteration of the loop can go.\<close>

abbreviation evicted_state :: "pattern_entry \<Rightarrow> scope_bucket_key \<Rightarrow> 'd detector_state \<Rightarrow> 'd detector_state" where
  "evicted_state p key s \<equiv> s\<lparr>buffers := evict_bucket p key (current_time s) (buffers s)\<rparr>"

lemma evaluate_keys_ConsE:
  assumes "evaluate_keys ops idx (key # keys) fires s = (r, s')"
  obtains
    (orphan) "bm_get idx (key_pattern_id key) = None" "evaluate_keys ops idx keys fires s = (r, s')"
  | (gone) p where "bm_get idx (key_pattern_id key) = Some p"
      "bm_get (evict_bucket p key (current_time s) (buffers s)) key = None"
      "evaluate_keys ops idx keys fires (evicted_state p key s) = (r, s')"
  | (failed) p b e where "bm_get idx (key_pattern_id key) = Some p"
      "bm_get (evict_bucket p key (current_time s) (buffers s)) key = Some b"
      "evaluate_pattern ops p b key (vl_library_version (pinned_library s)) (current_time s) (dedup s) = Inl e"
      "r = Inl e" "s' = evicted_state p key s"
  | (quiet) p b where "bm_get idx (key_pattern_id key) = Some p"
      "bm_get (evict_bucket p key (current_time s) (buffers s)) key = Some b"
      "evaluate_pattern ops p b key (vl_library_version (pinned_library s)) (current_time s) (dedup s) = Inr None"
      "evaluate_keys ops idx keys fires (evicted_state p key s) = (r, s')"
  | (unrecorded) p b f e d where "bm_get idx (key_pattern_id key) = Some p"
      "bm_get (evict_bucket p key (current_time s) (buffers s)) key = Some b"
      "evaluate_pattern ops p b key (vl_library_version (pinned_library s)) (current_time s) (dedup s) = Inr (Some f)"
      "dl_observe ops (dedup s) (pattern_id p) (key_mandate_id key) (current_time s) = (Inl e, d)"
      "r = Inl e" "s' = (evicted_state p key s)\<lparr>dedup := d\<rparr>"
  | (fired) p b f d where "bm_get idx (key_pattern_id key) = Some p"
      "bm_get (evict_bucket p key (current_time s) (buffers s)) key = Some b"
      "evaluate_pattern ops p b key (vl_library_version (pinned_library s)) (current_time s) (dedup s) = Inr (Some f)"
      "dl_observe ops (dedup s) (pattern_id p) (key_mandate_id key) (current_time s) = (Inr (), d)"
      "evaluate_keys ops idx keys (fires @ [f]) ((evicted_state p key s)\<lparr>dedup := d\<rparr>) = (r, s')"
  using assms by (auto simp: Let_def split: option.splits sum.splits prod.splits)

lemma evaluate_keys_frame:
  "evaluate_keys ops idx keys fires s = (r, s') \<Longrightarrow>
   pinned_library s' = pinned_library s \<and> current_time s' = current_time s \<and>
   per_mandate_counters s' = per_mandate_counters s \<and>
   (buffers_ok lib (buffers s) \<longrightarrow> buffers_ok lib (buffers s'))"
proof (induction keys arbitrary: fires s)
  case (Cons key keys)
  from Cons.prems show ?case
    by (cases rule: evaluate_keys_ConsE)
      (use Cons.IH in \<open>fastforce intro: evict_bucket_ok\<close>)+
qed simp

lemma advance_clock_inv: "detector_inv lib s \<Longrightarrow> advance_clock s t = (r, s') \<Longrightarrow> detector_inv lib s'"
  by (auto simp: advance_clock_def detector_inv_def split: if_splits)

lemma counters_ok_bump:
  assumes "counters_ok cs" and "(case bm_get cs m of Some c \<Rightarrow> c | None \<Rightarrow> 0) < MAX_EVENTS_PER_MANDATE"
  shows "counters_ok (bump_counter m cs)"
  using assms
  by (auto simp: counters_ok_def bump_counter_def bm.invar_update bm_get_insert split: option.splits if_splits)

lemma ingest_event_Inr:
  "ingest_event s ev = (Inr u, s') \<longleftrightarrow>
     sat_sub (timestamp ev) (current_time s) \<le> MAX_CLOCK_SKEW_SECONDS \<and>
     past_dated_floor s \<le> timestamp ev \<and>
     (case bm_get (per_mandate_counters s) (ev_mandate_id ev) of Some c \<Rightarrow> c | None \<Rightarrow> 0)
       < MAX_EVENTS_PER_MANDATE \<and>
     s' = s\<lparr>buffers := route_event ev (vl_patterns (pinned_library s)) (buffers s),
            per_mandate_counters := bump_counter (ev_mandate_id ev) (per_mandate_counters s)\<rparr>"
  by (auto simp: ingest_event_def Let_def not_less not_le)

lemma ingest_event_Inl: "ingest_event s ev = (Inl e, s') \<Longrightarrow> s' = s"
  by (auto simp: ingest_event_def Let_def split: if_splits)

lemma ingest_event_inv: "detector_inv lib s \<Longrightarrow> ingest_event s ev = (r, s') \<Longrightarrow> detector_inv lib s'"
  by (cases r)
    (auto simp: ingest_event_Inr detector_inv_def counters_ok_bump route_event_ok dest: ingest_event_Inl)

lemma evaluate_all_inv: "detector_inv lib s \<Longrightarrow> evaluate_all ops s = (r, s') \<Longrightarrow> detector_inv lib s'"
  unfolding evaluate_all_def detector_inv_def by (drule evaluate_keys_frame [where lib = lib]) simp

lemma with_ledger_inv: "detector_inv lib (with_ledger lib t d)"
  by (simp add: detector_inv_def with_ledger_def buffers_ok_Nil counters_ok_def)

end
