(* ===== verification/Firing.thy ===== *)
theory Firing
  imports Detector
begin

text \<open>
  What \<open>evaluate_all\<close> computes: a reference description of the fires that are due in a
  detector state, the refinement of the loop to it over any ledger that meets the trait's
  contract, and the fire-once guarantee over whole runs of the detector.
\<close>

section \<open>Reference description\<close>

definition key_pair :: "scope_bucket_key \<Rightarrow> string \<times> string" where
  "key_pair key = (key_pattern_id key, key_mandate_id key)"

definition fire_pair :: "anomaly_fire \<Rightarrow> string \<times> string option" where
  "fire_pair f = (af_pattern_id f, mts_mandate_id (af_match_scope f))"

definition dedup_window :: "pattern_entry \<Rightarrow> nat" where
  "dedup_window p = (case window_seconds p of Some w \<Rightarrow> w | None \<Rightarrow> FALLBACK_FIRE_ONCE_WINDOW_SECONDS)"

definition recently_fired ::
  "(string \<Rightarrow> string \<Rightarrow> int option) \<Rightarrow> pattern_entry \<Rightarrow> scope_bucket_key \<Rightarrow> int \<Rightarrow> bool" where
  "recently_fired fired p key now \<longleftrightarrow>
     (case fired (pattern_id p) (key_mandate_id key) of
        None \<Rightarrow> False
      | Some f \<Rightarrow> sat_sub now f < int (dedup_window p))"

definition live_buffer :: "pattern_entry \<Rightarrow> int \<Rightarrow> pattern_buffer \<Rightarrow> pattern_buffer" where
  "live_buffer p now b =
     (case window_seconds p of Some w \<Rightarrow> snd (evict_aged_events b w now) | None \<Rightarrow> b)"

definition due_fire ::
  "(string \<Rightarrow> string \<Rightarrow> int option) \<Rightarrow> verified_anomaly_library \<Rightarrow> int \<Rightarrow> buffer_map \<Rightarrow>
   scope_bucket_key \<Rightarrow> anomaly_fire option" where
  "due_fire fired lib now bufs key =
     (case bm_get (pattern_index lib) (key_pattern_id key) of
        None \<Rightarrow> None
      | Some p \<Rightarrow>
          (case bm_get bufs key of
             None \<Rightarrow> None
           | Some b \<Rightarrow>
               let live = live_buffer p now b in
               if threshold_met p live \<and> pb_events live \<noteq> [] \<and> \<not> recently_fired fired p key now
               then Some (build_anomaly_fire p key (vl_library_version lib) (last (pb_events live)))
               else None))"

lemma pattern_index_id: "bm_get (pattern_index lib) pid = Some p \<Longrightarrow> pattern_id p = pid \<and> p \<in> set (vl_patterns lib)"
  by (auto simp: pattern_index_def bm_get_collect dest!: map_of_SomeD)

lemma bm_get_evict_bucket:
  "bm_get (evict_bucket p key now bufs) k =
     (if k = key then map_option (live_buffer p now) (bm_get bufs k) else bm_get bufs k)"
  by (cases "window_seconds p"; cases "bm_get bufs key")
    (auto simp: evict_bucket_def live_buffer_def bm_get_insert)

lemma is_fire_suppressed_window:
  "is_fire_suppressed ops p key now d =
     dl_is_suppressed ops d (pattern_id p) (key_mandate_id key) now (dedup_window p)"
  by (simp add: is_fire_suppressed_def dedup_window_def)

lemma evaluate_pattern_None:
  "evaluate_pattern ops p b key ver t d = Inr None \<Longrightarrow>
     is_fire_suppressed ops p key t d = Inr True \<or> \<not> threshold_met p b \<or> pb_events b = []"
  by (auto simp: evaluate_pattern_def evaluate_first_match_def evaluate_sequence_match_def
      evaluate_cumulative_over_baseline_def threshold_met_def fire_on_last_def
      split: firing_rule.splits threshold.splits scope_predicate.splits sum.splits bool.splits
        if_splits)

lemma due_fire_cong:
  assumes "fired (key_pattern_id key) (key_mandate_id key) = fired' (key_pattern_id key) (key_mandate_id key)"
    and "bm_get bufs key = bm_get bufs' key"
  shows "due_fire fired lib now bufs key = due_fire fired' lib now bufs' key"
proof (cases "bm_get (pattern_index lib) (key_pattern_id key)")
  case None
  then show ?thesis by (simp add: due_fire_def)
next
  case (Some p)
  with pattern_index_id [OF Some] assms have "recently_fired fired p key now = recently_fired fired' p key now"
    by (simp add: recently_fired_def)
  with Some assms(2) show ?thesis by (simp add: due_fire_def Let_def split: option.split)
qed

lemma due_fire_later:
  assumes "key_pair k \<noteq> key_pair key"
    and "\<And>p' m'. (p', m') \<noteq> key_pair key \<Longrightarrow> fired' p' m' = fired p' m'"
  shows "due_fire fired' lib now (evict_bucket p key now bufs) k = due_fire fired lib now bufs k"
  using assms by (intro due_fire_cong) (auto simp: key_pair_def bm_get_evict_bucket)

lemma due_fire_pair:
  "due_fire fired lib now bufs key = Some f \<Longrightarrow>
     fire_pair f = (key_pattern_id key, Some (key_mandate_id key))"
  by (auto simp: due_fire_def fire_pair_def Let_def dest: pattern_index_id split: option.splits if_splits)

lemma live_buffer_idem_get:
  "bm_get (evict_bucket p key now bufs) key = Some b \<longleftrightarrow>
     (\<exists>b0. bm_get bufs key = Some b0 \<and> b = live_buffer p now b0)"
  by (auto simp: bm_get_evict_bucket)

section \<open>The loop refines the description\<close>

context dedup_ledger
begin

lemma suppressed_recent:
  "invar d \<Longrightarrow> is_fire_suppressed ops p key now d = Inr b \<Longrightarrow> b \<longleftrightarrow> recently_fired (fired d) p key now"
  using suppressed_iff [of d "pattern_id p" "key_mandate_id key" now "dedup_window p" b]
  by (auto simp: is_fire_suppressed_window recently_fired_def split: option.splits)

lemma evaluate_pattern_due:
  assumes "invar d" and "bm_get (pattern_index lib) (key_pattern_id key) = Some p"
    and "bm_get (evict_bucket p key now bufs) key = Some b"
    and "evaluate_pattern ops p b key (vl_library_version lib) now d = Inr r"
  shows "due_fire (fired d) lib now bufs key = r"
proof -
  obtain b0 where b0: "bm_get bufs key = Some b0" "b = live_buffer p now b0"
    using assms(3) by (auto simp: live_buffer_idem_get)
  show ?thesis
  proof (cases r)
    case None
    then have "is_fire_suppressed ops p key now d = Inr True \<or> \<not> threshold_met p b \<or> pb_events b = []"
      using evaluate_pattern_None assms(4) by fastforce
    then show ?thesis
      using assms(2) b0 None suppressed_recent [OF assms(1), of p key now True]
      by (auto simp: due_fire_def Let_def)
  next
    case (Some f)
    then show ?thesis
      using assms(2,4) b0 suppressed_recent [OF assms(1), of p key now False]
      by (auto simp: due_fire_def Let_def evaluate_pattern_iff)
  qed
qed

lemma evaluate_keys_refines:
  assumes "evaluate_keys ops (pattern_index lib) keys fires s = (Inr fs, s')"
    and "invar (dedup s)" and "pinned_library s = lib" and "distinct (map key_pair keys)"
  shows "fs = fires @ List.map_filter (due_fire (fired (dedup s)) lib (current_time s) (buffers s)) keys"
  using assms
proof (induction keys arbitrary: fires s)
  case Nil
  then show ?case by simp
next
  case (Cons key keys)
  let ?now = "current_time s"
  let ?due = "due_fire (fired (dedup s)) lib ?now (buffers s)"
  have later: "List.map_filter (due_fire (fired d) lib ?now (evict_bucket p key ?now (buffers s))) keys =
      List.map_filter ?due keys"
    if "\<And>p' m'. (p', m') \<noteq> key_pair key \<Longrightarrow> fired d p' m' = fired (dedup s) p' m'" for d p
  proof -
    have "due_fire (fired d) lib ?now (evict_bucket p key ?now (buffers s)) k = ?due k"
      if "k \<in> set keys" for k
    proof -
      have "key_pair k \<noteq> key_pair key" using Cons.prems(4) that by (auto simp: image_iff)
      then show ?thesis
        using \<open>\<And>p' m'. (p', m') \<noteq> key_pair key \<Longrightarrow> fired d p' m' = fired (dedup s) p' m'\<close>
        by (rule due_fire_later)
    qed
    then show ?thesis by (simp add: List.map_filter_def cong: filter_cong map_cong)
  qed
  from Cons.prems(1) show ?case
  proof (cases rule: evaluate_keys_ConsE)
    case orphan
    with Cons show ?thesis by (simp add: due_fire_def)
  next
    case (gone p)
    then have "?due key = None" by (simp add: due_fire_def bm_get_evict_bucket)
    with Cons.IH [OF gone(3)] Cons.prems later [of "dedup s" p] show ?thesis by simp
  next
    case (quiet p b)
    then have "?due key = None"
      using evaluate_pattern_due [of "dedup s" lib key p] Cons.prems by simp
    with Cons.IH [OF quiet(4)] Cons.prems later [of "dedup s" p] show ?thesis by simp
  next
    case (fired p b f d)
    have due: "?due key = Some f"
      using evaluate_pattern_due [of "dedup s" lib key p] Cons.prems fired by simp
    have pid: "pattern_id p = key_pattern_id key" using pattern_index_id fired(1) by blast
    have d: "invar d" using Cons.prems(2) fired(4) by (rule observe_invar)
    have "fired d p' m' = fired (dedup s) p' m'" if "(p', m') \<noteq> key_pair key" for p' m'
      using observe_fired [OF Cons.prems(2) fired(4)] that pid by (auto simp: key_pair_def)
    from later [OF this, of p] Cons.IH [OF fired(5)] d Cons.prems due
    show ?thesis by simp
  qed auto
qed

end

lemma distinct_key_pairs: "buffers_ok lib bufs \<Longrightarrow> distinct (map key_pair (bm_keys bufs))"
proof -
  assume ok: "buffers_ok lib bufs"
  have "k = k'" if k: "k \<in> set (bm_keys bufs)" "k' \<in> set (bm_keys bufs)" "key_pair k = key_pair k'" for k k' :: scope_bucket_key
  proof -
    obtain b b' where "bm_get bufs k = Some b" "bm_get bufs k' = Some b'"
      using k(1,2) by (auto simp: set_bm_keys)
    from ok this have "bucket_ok lib k b" "bucket_ok lib k' b'" by (auto dest: buffers_okD)
    with k(3) show ?thesis
      unfolding bucket_ok_def key_pair_def by (metis prod.inject)
  qed
  then have "inj_on key_pair (set (bm_keys bufs))" by (auto intro: inj_onI)
  moreover have "distinct (bm_keys bufs)" using ok by (simp add: buffers_ok_def bm.distinct_keys)
  ultimately show ?thesis by (simp add: distinct_map)
qed

lemma distinct_due_pairs:
  "distinct (map key_pair keys) \<Longrightarrow> distinct (map fire_pair (List.map_filter (due_fire fired lib now bufs) keys))"
proof (induction keys)
  case (Cons key keys)
  have "fire_pair f \<noteq> (key_pattern_id key, Some (key_mandate_id key))"
    if "f \<in> set (List.map_filter (due_fire fired lib now bufs) keys)" for f
  proof -
    from that obtain k where "k \<in> set keys" "due_fire fired lib now bufs k = Some f"
      by (auto simp: List.map_filter_def)
    with Cons.prems show ?thesis by (auto dest!: due_fire_pair simp: key_pair_def image_iff)
  qed
  with Cons show ?case
    by (auto simp: image_iff dest!: due_fire_pair split: option.split)
qed simp

section \<open>What a batch leaves in the ledger\<close>

definition recorded_pairs :: "anomaly_fire list \<Rightarrow> (string \<times> string option) set" where
  "recorded_pairs fs = set (map fire_pair fs)"

context dedup_ledger
begin

lemma evicted_simps:
  "dedup (evicted_state p key s) = dedup s" "current_time (evicted_state p key s) = current_time s"
  by simp_all

lemma evaluate_keys_fired:
  assumes "evaluate_keys ops (pattern_index lib) keys fires s = (Inr fs, s')" and "invar (dedup s)"
  shows "\<exists>new. fs = fires @ new \<and> invar (dedup s') \<and>
    (\<forall>p m. fired (dedup s') p m =
      (if (p, Some m) \<in> recorded_pairs new then Some (current_time s) else fired (dedup s) p m))"
  using assms
proof (induction keys arbitrary: fires s)
  case (Cons key keys)
  from Cons.prems(1) show ?case
  proof (cases rule: evaluate_keys_ConsE)
    case (fired p b f d)
    have d: "invar d" using Cons.prems(2) fired(4) by (rule observe_invar)
    obtain new where new: "fs = (fires @ [f]) @ new" "invar (dedup s')"
      "\<And>p' m'. fired (dedup s') p' m' =
        (if (p', Some m') \<in> recorded_pairs new then Some (current_time s) else fired d p' m')"
      using Cons.IH [OF fired(5)] d by auto
    have "fire_pair f = (pattern_id p, Some (key_mandate_id key))"
      using fired(3) by (auto simp: evaluate_pattern_iff fire_pair_def)
    with new observe_fired [OF Cons.prems(2) fired(4)] show ?thesis
      by (intro exI [of _ "f # new"]) (auto simp: recorded_pairs_def)
  next
    case orphan
    with Cons show ?thesis by blast
  next
    case (gone p)
    from Cons.IH [OF gone(3)] Cons.prems(2) show ?thesis
      unfolding evicted_simps by blast
  next
    case (quiet p b)
    from Cons.IH [OF quiet(4)] Cons.prems(2) show ?thesis
      unfolding evicted_simps by blast
  qed auto
qed (simp add: recorded_pairs_def)

lemma evaluate_keys_invar:
  "evaluate_keys ops idx keys fires s = (r, s') \<Longrightarrow> invar (dedup s) \<Longrightarrow>
   invar (dedup s') \<and> (\<forall>p m. fired (dedup s') p m = fired (dedup s) p m \<or>
     fired (dedup s') p m = Some (current_time s))"
proof (induction keys arbitrary: fires s)
  case (Cons key keys)
  from Cons.prems(1) show ?case
  proof (cases rule: evaluate_keys_ConsE)
    case (unrecorded p b f e d)
    with Cons.prems(2) observe_invar observe_fired show ?thesis by fastforce
  next
    case (fired p b f d)
    have "invar d" using Cons.prems(2) fired(4) by (rule observe_invar)
    then show ?thesis
      using Cons.IH [OF fired(5)] observe_fired [OF Cons.prems(2) fired(4)] by (auto split: if_splits)
  next
    case (gone p)
    from Cons.IH [OF gone(3)] Cons.prems(2) show ?thesis unfolding evicted_simps by blast
  next
    case (quiet p b)
    from Cons.IH [OF quiet(4)] Cons.prems(2) show ?thesis unfolding evicted_simps by blast
  qed (use Cons in auto)
qed simp

lemma evaluate_all_fires:
  assumes "evaluate_all ops s = (Inr fs, s')" and "detector_inv lib s" and "invar (dedup s)"
  shows "fs = List.map_filter (due_fire (fired (dedup s)) lib (current_time s) (buffers s)) (bm_keys (buffers s))"
proof -
  have "pinned_library s = lib" "distinct (map key_pair (bm_keys (buffers s)))"
    using assms(2) distinct_key_pairs by (auto simp: detector_inv_def)
  with evaluate_keys_refines assms(1,3) show ?thesis unfolding evaluate_all_def by fastforce
qed

end

end
