(* ===== verification/Runs.thy ===== *)
theory Runs
  imports Firing
begin

text \<open>
  Whole lives of a detector: any interleaving of \<open>advance_clock\<close>, \<open>ingest_event\<close> and
  \<open>evaluate_all\<close> on a fresh state, over any ledger that meets the trait's contract, with
  the log of the fires it has returned and the time of each.
\<close>

section \<open>Runs\<close>

inductive detector_run ::
  "'d dedup_ops \<Rightarrow> verified_anomaly_library \<Rightarrow> 'd \<Rightarrow> (int \<times> anomaly_fire) list \<Rightarrow> 'd detector_state \<Rightarrow> bool"
  for ops lib d0
where
  start: "detector_run ops lib d0 [] (with_ledger lib t0 d0)"
| clock: "detector_run ops lib d0 log s \<Longrightarrow> advance_clock s t = (r, s') \<Longrightarrow> detector_run ops lib d0 log s'"
| ingest: "detector_run ops lib d0 log s \<Longrightarrow> ingest_event s ev = (r, s') \<Longrightarrow> detector_run ops lib d0 log s'"
| tick: "detector_run ops lib d0 log s \<Longrightarrow> evaluate_all ops s = (Inr fs, s') \<Longrightarrow>
    detector_run ops lib d0 (log @ map (Pair (current_time s)) fs) s'"
| tick_failed: "detector_run ops lib d0 log s \<Longrightarrow> evaluate_all ops s = (Inl e, s') \<Longrightarrow>
    detector_run ops lib d0 log s'"

lemma detector_run_inv: "detector_run ops lib d0 log s \<Longrightarrow> detector_inv lib s"
  by (induction rule: detector_run.induct)
    (auto intro: with_ledger_inv advance_clock_inv ingest_event_inv evaluate_all_inv)

lemma advance_clock_frame:
  "advance_clock s t = (r, s') \<Longrightarrow> dedup s' = dedup s \<and> current_time s \<le> current_time s'"
  by (auto simp: advance_clock_def split: if_splits)

lemma ingest_event_frame:
  "ingest_event s ev = (r, s') \<Longrightarrow>
     dedup s' = dedup s \<and> current_time s' = current_time s \<and> pinned_library s' = pinned_library s"
  by (cases r) (auto simp: ingest_event_Inr dest: ingest_event_Inl)

lemma evaluate_all_time: "evaluate_all ops s = (r, s') \<Longrightarrow> current_time s' = current_time s"
  unfolding evaluate_all_def by (blast dest: evaluate_keys_frame)

section \<open>Fire-once\<close>

text \<open>Two log entries of one pair are at least the pattern's window apart.\<close>

definition window_apart :: "verified_anomaly_library \<Rightarrow> int \<times> anomaly_fire \<Rightarrow> int \<times> anomaly_fire \<Rightarrow> bool" where
  "window_apart lib e e' \<longleftrightarrow>
     (fire_pair (snd e) = fire_pair (snd e') \<longrightarrow>
        (case bm_get (pattern_index lib) (af_pattern_id (snd e')) of
           None \<Rightarrow> False
         | Some p \<Rightarrow> int (dedup_window p) \<le> fst e' - fst e))"

lemma sat_sub_ge: "0 \<le> w \<Longrightarrow> w \<le> sat_sub a b \<Longrightarrow> w \<le> a - b"
  by (auto simp: sat_sub_def clamp_i64_def arith_defs split: if_splits)

lemma due_fireD:
  assumes "due_fire fired lib now bufs key = Some f"
  obtains p b where "bm_get (pattern_index lib) (af_pattern_id f) = Some p"
    and "fire_pair f = (pattern_id p, Some (key_mandate_id key))"
    and "\<not> recently_fired fired p key now" and "bm_get bufs key = Some b"
    and "threshold_met p (live_buffer p now b)" and "pb_events (live_buffer p now b) \<noteq> []"
    and "f = build_anomaly_fire p key (vl_library_version lib) (last (pb_events (live_buffer p now b)))"
  using assms
proof -
  from assms obtain p b where pb: "bm_get (pattern_index lib) (key_pattern_id key) = Some p"
    "bm_get bufs key = Some b" "threshold_met p (live_buffer p now b)"
    "pb_events (live_buffer p now b) \<noteq> []" "\<not> recently_fired fired p key now"
    "f = build_anomaly_fire p key (vl_library_version lib) (last (pb_events (live_buffer p now b)))"
    by (auto simp: due_fire_def Let_def split: option.splits if_splits)
  with pattern_index_id [OF pb(1)] show thesis by (intro that [of p b]) (simp_all add: fire_pair_def)
qed

definition log_recorded ::
  "(string \<Rightarrow> string \<Rightarrow> int option) \<Rightarrow> int \<Rightarrow> (int \<times> anomaly_fire) list \<Rightarrow> bool" where
  "log_recorded fired now log \<longleftrightarrow>
     (\<forall>(t, f) \<in> set log. t \<le> now \<and>
        (\<forall>p m. fire_pair f = (p, Some m) \<longrightarrow> (\<exists>t'. fired p m = Some t' \<and> t \<le> t')))"

lemma log_recorded_update:
  assumes "log_recorded fired now log" and "now \<le> now'"
    and "\<And>p m. fired' p m = fired p m \<or> fired' p m = Some now"
  shows "log_recorded fired' now' log"
proof -
  have "\<exists>t'. fired' p m = Some t' \<and> t \<le> t'"
    if "(t, f) \<in> set log" "fire_pair f = (p, Some m)" for t f p m
  proof -
    have "t \<le> now" "\<exists>t'. fired p m = Some t' \<and> t \<le> t'"
      using assms(1) that by (fastforce simp: log_recorded_def)+
    with assms(3) [of p m] show ?thesis by auto
  qed
  moreover have "t \<le> now'" if "(t, f) \<in> set log" for t f
    using assms(1,2) that by (fastforce simp: log_recorded_def)
  ultimately show ?thesis unfolding log_recorded_def by blast
qed

lemma log_recorded_append:
  assumes "log_recorded fired now log"
    and "\<And>f p m. f \<in> set fs \<Longrightarrow> fire_pair f = (p, Some m) \<Longrightarrow> fired p m = Some now"
  shows "log_recorded fired now (log @ map (Pair now) fs)"
  using assms unfolding log_recorded_def by fastforce

lemma window_apart_due:
  assumes log: "log_recorded fired now log" and e: "(t, f') \<in> set log"
    and due: "due_fire fired lib now bufs key = Some f"
  shows "window_apart lib (t, f') (now, f)"
proof -
  obtain p b where p: "bm_get (pattern_index lib) (af_pattern_id f) = Some p"
    "fire_pair f = (pattern_id p, Some (key_mandate_id key))" "\<not> recently_fired fired p key now"
    using due by (rule due_fireD)
  show ?thesis
  proof (cases "fire_pair f' = fire_pair f")
    case True
    then obtain t' where "fired (pattern_id p) (key_mandate_id key) = Some t'" "t \<le> t'"
      using log e p(2) by (fastforce simp: log_recorded_def)
    moreover from this p(3) have "int (dedup_window p) \<le> sat_sub now t'"
      by (simp add: recently_fired_def)
    then have "int (dedup_window p) \<le> now - t'" by (simp add: sat_sub_ge)
    ultimately show ?thesis using p(1) by (simp add: window_apart_def)
  qed (simp add: window_apart_def)
qed

lemma distinct_pairs_apart:
  "distinct (map fire_pair fs) \<Longrightarrow> sorted_wrt (window_apart lib) (map (Pair t) fs)"
  by (induction fs) (auto simp: window_apart_def image_iff)

context dedup_ledger
begin

lemma evaluate_all_fired:
  assumes "evaluate_all ops s = (Inr fs, s')" and "invar (dedup s)"
  shows "invar (dedup s') \<and> (\<forall>p m. fired (dedup s') p m =
    (if (p, Some m) \<in> recorded_pairs fs then Some (current_time s) else fired (dedup s) p m))"
proof -
  obtain new where "fs = [] @ new" "invar (dedup s')" "\<forall>p m. fired (dedup s') p m =
    (if (p, Some m) \<in> recorded_pairs new then Some (current_time s) else fired (dedup s) p m)"
    using evaluate_keys_fired [of "pinned_library s"] assms unfolding evaluate_all_def by blast
  then show ?thesis by simp
qed

lemma detector_run_fire_once:
  assumes "detector_run ops lib d0 log s" and "invar d0"
  shows "invar (dedup s) \<and> log_recorded (fired (dedup s)) (current_time s) log \<and>
    sorted_wrt (window_apart lib) log"
  using assms(1)
proof (induction rule: detector_run.induct)
  case (start t0)
  then show ?case using assms(2) by (simp add: with_ledger_def log_recorded_def)
next
  case (clock log s t r s')
  then show ?case using advance_clock_frame [of s t r s'] by (auto intro: log_recorded_update)
next
  case (ingest log s ev r s')
  then show ?case using ingest_event_frame [of s ev r s'] by auto
next
  case (tick log s fs s')
  let ?now = "current_time s"
  have fs: "fs = List.map_filter (due_fire (fired (dedup s)) lib ?now (buffers s)) (bm_keys (buffers s))"
    using evaluate_all_fires [OF tick(2)] detector_run_inv [OF tick(1)] tick.IH by blast
  have inv: "invar (dedup s)" and rec: "log_recorded (fired (dedup s)) ?now log"
    and sorted: "sorted_wrt (window_apart lib) log"
    using tick.IH by blast+
  have inv': "invar (dedup s')" and after: "fired (dedup s') p m =
      (if (p, Some m) \<in> recorded_pairs fs then Some ?now else fired (dedup s) p m)" for p m
    using evaluate_all_fired [OF tick(2) inv] by blast+
  have distinct: "distinct (map fire_pair fs)"
    unfolding fs using detector_run_inv [OF tick(1)]
    by (intro distinct_due_pairs distinct_key_pairs [of lib]) (simp add: detector_inv_def)
  have apart: "window_apart lib e (?now, f)" if ef: "e \<in> set log" "f \<in> set fs" for e f
  proof -
    obtain key where "due_fire (fired (dedup s)) lib ?now (buffers s) key = Some f"
      using ef(2) by (auto simp: fs List.map_filter_def)
    then show ?thesis
      using ef(1) rec window_apart_due [of "fired (dedup s)" ?now log "fst e" "snd e"] by simp
  qed
  have "sorted_wrt (window_apart lib) (log @ map (Pair ?now) fs)"
    unfolding sorted_wrt_append
    using sorted apart distinct_pairs_apart [OF distinct, of lib ?now] by simp
  moreover have "log_recorded (fired (dedup s')) ?now log"
    by (rule log_recorded_update [OF rec order_refl]) (simp add: after)
  then have "log_recorded (fired (dedup s')) ?now (log @ map (Pair ?now) fs)"
    by (rule log_recorded_append) (metis after image_eqI list.set_map recorded_pairs_def)
  ultimately show ?case using inv' evaluate_all_time [OF tick(2)] by simp
next
  case (tick_failed log s e s')
  then have inv: "invar (dedup s)" and rec: "log_recorded (fired (dedup s)) (current_time s) log"
    and sorted: "sorted_wrt (window_apart lib) log"
    by blast+
  have inv': "invar (dedup s')" and frame: "fired (dedup s') p m = fired (dedup s) p m \<or>
      fired (dedup s') p m = Some (current_time s)" for p m
    using evaluate_keys_invar [OF tick_failed(2) [unfolded evaluate_all_def] inv] by blast+
  have "log_recorded (fired (dedup s')) (current_time s) log"
    by (rule log_recorded_update [OF rec order_refl frame])
  then show ?case using inv' sorted evaluate_all_time [OF tick_failed(2)] by simp
qed

end

end
