(* ===== verification/Samples.thy ===== *)
theory Samples
  imports Runs
begin

text \<open>
  A small library and two events, used as the concrete inputs of the witnesses of the detector
  properties.
\<close>

definition any_mandate :: mandate_scope where
  "any_mandate = \<lparr>ms_mandate_id = None, ms_operator_id = None, ms_integration_ref = None\<rparr>"

definition sample_pattern :: pattern_entry where
  "sample_pattern =
     \<lparr>pattern_id = ''p'', window_seconds = Some 60, threshold_of = Count 1,
      scope = VerbFanout AnyDestructive any_mandate, action_of = AutoRevoke, severity_of = High,
      firing_rule_of = FirstMatch, firing_rule_companions = []\<rparr>"

definition sample_library :: verified_anomaly_library where
  "sample_library =
     \<lparr>vl_signer_kid = ''k'', vl_abi_version = 1, vl_library_id = ''lib'', vl_library_version = 1,
      vl_issued_at = 0, vl_expires_at = 1000, vl_patterns = [sample_pattern]\<rparr>"

definition sample_event :: "string \<Rightarrow> int \<Rightarrow> canonicalized_event" where
  "sample_event m t =
     \<lparr>event_id = ''e'', timestamp = t, ev_mandate_id = m, ev_tier = 0, ev_integration = ''i'',
      ev_verb = ''delete'', ev_resource_kind = ''k'', ev_resource_ref = ''r'', ev_outcome = Executed\<rparr>"

definition sample_state :: "'d \<Rightarrow> 'd detector_state" where
  "sample_state d = with_ledger sample_library 100 d"

definition sample_fire :: "string \<Rightarrow> anomaly_fire" where
  "sample_fire m = build_anomaly_fire sample_pattern (ScopeBucketKey ''p'' m None None None) 1 (sample_event m 100)"

definition sample_bucket :: "string \<Rightarrow> int \<Rightarrow> scope_bucket_key \<times> pattern_buffer" where
  "sample_bucket m t =
     (ScopeBucketKey ''p'' m None None None,
      \<lparr>pb_pattern_id = ''p'', pb_events = [sample_event m t], pb_sequence_tracker = None\<rparr>)"

definition sample_fed :: "'d \<Rightarrow> 'd detector_state" where
  "sample_fed d = (sample_state d)\<lparr>buffers := [sample_bucket ''m'' 100], per_mandate_counters := [(''m'', 1)]\<rparr>"

lemma sample_ingest: "ingest_event (sample_state d) (sample_event ''m'' 100) = (Inr (), sample_fed d)"
  by (simp add: ingest_event_def sample_state_def with_ledger_def sample_event_def sample_library_def
      sample_pattern_def past_dated_floor_def max_library_window_seconds_def List.map_filter_def
      MAX_CLOCK_SKEW_SECONDS_def PAST_DATED_GRACE_SECONDS_def MAX_EVENTS_PER_MANDATE_def
      route_pattern_def bump_counter_def family_contains_def DESTRUCTIVE_VERBS_def matches_event_iff
      any_mandate_def sample_fed_def sample_bucket_def for_pattern_match_def pattern_buffer_new_def
      ring_trim_id MAX_EVENTS_PER_BUFFER_def sat_sub_def clamp_i64_def arith_defs)

lemmas sample_defs = sample_fed_def sample_state_def with_ledger_def sample_bucket_def sample_library_def
  sample_pattern_def sample_event_def pattern_index_def bm_collect_def bm_keys_def

definition sample_key :: "string \<Rightarrow> scope_bucket_key" where
  "sample_key m = ScopeBucketKey ''p'' m None None None"

lemma sample_keys: "bm_keys (buffers (sample_fed d)) = [sample_key ''m'']"
  by (simp add: sample_defs sample_key_def)

lemma sample_index: "bm_get (pattern_index sample_library) ''p'' = Some sample_pattern"
  by (simp add: pattern_index_def sample_library_def bm_collect_def) (simp add: sample_pattern_def)

lemma sample_evict:
  "evict_bucket sample_pattern (sample_key ''m'') 100 (buffers (sample_fed d)) = buffers (sample_fed d)"
  by (simp add: evict_bucket_def sample_key_def sample_defs evict_aged_events_def sat_sub_def
      clamp_i64_def arith_defs)

lemma sample_get: "bm_get (buffers (sample_fed d)) (sample_key ''m'') = Some (snd (sample_bucket ''m'' 100))"
  by (simp add: sample_fed_def sample_bucket_def sample_key_def)

lemma sample_pattern_fires:
  "evaluate_pattern dd_ops sample_pattern (snd (sample_bucket ''m'' 100)) (sample_key ''m'') 1 100 dedup_new
     = Inr (Some (sample_fire ''m''))"
  by (simp add: evaluate_pattern_def sample_pattern_def evaluate_first_match_def is_fire_suppressed_def
      dd_is_suppressed_def dedup_new_def dedup_with_cap_def u32_of_usize_def u32_max_def
      fire_on_last_def sample_fire_def sample_bucket_def sample_key_def)

lemma sample_observe:
  "dd_observe dedup_new ''p'' ''m'' 100 = (Inr (), dedup_new\<lparr>dd_state := [((''p'', ''m''), 100)]\<rparr>)"
  by (simp add: dd_observe_def dedup_new_def dedup_with_cap_def bm_len_def MAX_DEDUP_ENTRIES_PER_TENANT_def)

lemma sample_fields:
  "pinned_library (sample_fed d) = sample_library" "current_time (sample_fed d) = 100"
  "dedup (sample_fed d) = d" "vl_library_version sample_library = 1" "pattern_id sample_pattern = ''p''"
  "key_pattern_id (sample_key m) = ''p''" "key_mandate_id (sample_key m) = m"
  by (simp_all add: sample_defs sample_key_def)

definition sample_fired :: "in_memory_dedup detector_state" where
  "sample_fired = (sample_fed dedup_new)\<lparr>dedup := dedup_new\<lparr>dd_state := [((''p'', ''m''), 100)]\<rparr>\<rparr>"

lemma sample_evaluate: "evaluate_all dd_ops (sample_fed dedup_new) = (Inr [sample_fire ''m''], sample_fired)"
  by (simp add: evaluate_all_def sample_keys sample_index sample_evict sample_get sample_fields
      sample_pattern_fires [unfolded One_nat_def] sample_observe sample_fired_def)

lemma sample_run: "detector_run ops sample_library d [] (sample_fed d)"
  by (rule detector_run.ingest [OF detector_run.start sample_ingest [unfolded sample_state_def]])

lemma sample_fed_inv: "detector_inv sample_library (sample_fed d)"
  by (rule detector_run_inv [OF sample_run])

lemma sample_tick: "detector_run dd_ops sample_library dedup_new [(100, sample_fire ''m'')] sample_fired"
  by (rule detector_run.tick [OF sample_run sample_evaluate, simplified sample_fields list.map append_Nil])

end
