(* ===== verification/Detector_Correct.thy ===== *)
theory Detector_Correct
  imports Samples
begin

text \<open>The correctness properties of the detector's operations and of its runs.\<close>

section \<open>Ingestion\<close>

text \<open>The admission rule without machine arithmetic.\<close>

definition events_ingested :: "'d detector_state \<Rightarrow> string \<Rightarrow> nat" where
  "events_ingested s m = (case bm_get (per_mandate_counters s) m of Some c \<Rightarrow> c | None \<Rightarrow> 0)"

definition widest_window :: "'d detector_state \<Rightarrow> nat" where
  "widest_window s =
     (case max_library_window_seconds s of Some w \<Rightarrow> w | None \<Rightarrow> FALLBACK_PAST_WINDOW_SECONDS)"

definition admissible :: "'d detector_state \<Rightarrow> canonicalized_event \<Rightarrow> bool" where
  "admissible s ev \<longleftrightarrow>
     timestamp ev - current_time s \<le> 30 \<and>
     current_time s - int (widest_window s) - 86400 \<le> timestamp ev \<and>
     events_ingested s (ev_mandate_id ev) < 10000"

text \<open>The bucket that one event extends, and what it then holds.\<close>

definition extended_bucket :: "canonicalized_event \<Rightarrow> scope_bucket_key \<Rightarrow> buffer_map \<Rightarrow> pattern_buffer" where
  "extended_bucket ev key bufs =
     (let b = (case bm_get bufs key of Some b \<Rightarrow> b | None \<Rightarrow> pattern_buffer_new (key_pattern_id key))
      in b\<lparr>pb_events := ring_trim (pb_events b @ [ev])\<rparr>)"

definition routed_to :: "canonicalized_event \<Rightarrow> pattern_entry list \<Rightarrow> scope_bucket_key \<Rightarrow> bool" where
  "routed_to ev ps key \<longleftrightarrow>
     key = ScopeBucketKey (key_pattern_id key) (ev_mandate_id ev) None None None \<and>
     (\<exists>p \<in> set ps. pattern_id p = key_pattern_id key \<and> scope_matches (scope p) ev)"

lemma skew_exact: "MAX_CLOCK_SKEW_SECONDS < sat_sub a b \<longleftrightarrow> 30 < a - b"
  by (auto simp: MAX_CLOCK_SKEW_SECONDS_def sat_sub_def clamp_i64_def arith_defs)

lemma past_dated_floor_eq:
  "past_dated_floor s = sat_sub (sat_sub (current_time s) (int (widest_window s))) 86400"
  by (simp add: past_dated_floor_def widest_window_def PAST_DATED_GRACE_SECONDS_def Let_def)

lemma floor_exact: "in_i64 (timestamp ev) \<Longrightarrow> in_i64 (current_time s) \<Longrightarrow>
    timestamp ev < past_dated_floor s \<longleftrightarrow> timestamp ev < current_time s - int (widest_window s) - 86400"
  unfolding past_dated_floor_eq by (simp add: sat_sub_def clamp_i64_def in_i64_def arith_defs)

lemma bm_get_route_pattern:
  "bm_get (route_pattern ev p bufs) key =
     (if routed_to ev [p] key then Some (extended_bucket ev key bufs) else bm_get bufs key)"
  by (cases key) (auto simp: route_pattern_def routed_to_def extended_bucket_def bm_get_insert
      for_pattern_match_def Let_def split: option.split)

lemma bm_get_route_event:
  "distinct (map pattern_id ps) \<Longrightarrow>
     bm_get (route_event ev ps bufs) key =
       (if routed_to ev ps key then Some (extended_bucket ev key bufs) else bm_get bufs key)"
proof (induction ps arbitrary: bufs)
  case Nil
  then show ?case by (simp add: routed_to_def)
next
  case (Cons p ps)
  have split: "routed_to ev (p # ps) key \<longleftrightarrow> routed_to ev [p] key \<or> routed_to ev ps key"
    and excl: "routed_to ev [p] key \<Longrightarrow> \<not> routed_to ev ps key"
    using Cons.prems unfolding routed_to_def by (auto, metis image_eqI)
  have "extended_bucket ev key (route_pattern ev p bufs) = extended_bucket ev key bufs"
    if "\<not> routed_to ev [p] key"
    using that by (simp add: extended_bucket_def bm_get_route_pattern)
  then show ?case
    using Cons split excl by (auto simp: bm_get_route_pattern)
qed

lemma ingest_event_ok_iff:
  assumes "in_i64 (timestamp ev)" and "in_i64 (current_time s)"
  shows "ingest_event s ev = (Inr u, s') \<longleftrightarrow> admissible s ev \<and>
     s' = s\<lparr>buffers := route_event ev (vl_patterns (pinned_library s)) (buffers s),
            per_mandate_counters := bump_counter (ev_mandate_id ev) (per_mandate_counters s)\<rparr>"
  unfolding ingest_event_Inr admissible_def events_ingested_def
  using skew_exact [of "timestamp ev" "current_time s"] floor_exact [OF assms]
  by (auto simp: MAX_EVENTS_PER_MANDATE_def not_less not_le)

text \<open>C34: \<open>ingest_event\<close> accepts an event exactly when it is at most 30 s ahead of the clock, not
  older than the widest library window plus a day, and its mandate has used fewer than 10,000
  events (no saturation artefact shifts these bounds).  An accepted event is appended, with ring
  eviction at 1,000, to exactly the buckets of its own mandate whose pattern's scope admits it, and
  counts once against its mandate; clock, ledger and library do not change.  A rejected event
  leaves the whole state as it was.\<close>

theorem ingest_event_spec:
  assumes "in_i64 (timestamp ev)" and "in_i64 (current_time s)"
    and "distinct (map pattern_id (vl_patterns (pinned_library s)))"
    and "ingest_event s ev = (r, s')"
  shows "(r = Inr () \<longleftrightarrow> admissible s ev) \<and>
    (if r = Inr ()
     then (\<forall>key. bm_get (buffers s') key =
             (if routed_to ev (vl_patterns (pinned_library s)) key
              then Some (extended_bucket ev key (buffers s)) else bm_get (buffers s) key)) \<and>
          (\<forall>m. events_ingested s' m = events_ingested s m + (if m = ev_mandate_id ev then 1 else 0)) \<and>
          current_time s' = current_time s \<and> dedup s' = dedup s \<and> pinned_library s' = pinned_library s
     else s' = s)"
proof (cases r)
  case (Inl e)
  with assms(4) ingest_event_ok_iff [OF assms(1,2), of "()"] ingest_event_Inl [of s ev e s']
  show ?thesis by auto
next
  case (Inr u)
  with assms(4) have ok: "admissible s ev"
    "s' = s\<lparr>buffers := route_event ev (vl_patterns (pinned_library s)) (buffers s),
            per_mandate_counters := bump_counter (ev_mandate_id ev) (per_mandate_counters s)\<rparr>"
    using ingest_event_ok_iff [OF assms(1,2), of u s'] by simp_all
  have "bm_get (bump_counter m cs) m' = (if m' = m then Some (case bm_get cs m of Some c \<Rightarrow> c + 1 | None \<Rightarrow> 1)
      else bm_get cs m')" for m m' and cs :: "(string, nat) btree_map"
    by (simp add: bump_counter_def bm_get_insert split: option.split)
  then have "events_ingested s' m = events_ingested s m + (if m = ev_mandate_id ev then 1 else 0)" for m
    using ok(2) by (simp add: events_ingested_def split: option.split)
  with ok Inr show ?thesis by (simp add: bm_get_route_event [OF assms(3)])
qed

lemma ingest_event_spec_witness:
  "admissible (sample_state dedup_new) (sample_event ''m'' 100) \<and>
   bm_get (buffers (sample_fed dedup_new)) (sample_key ''m'') =
     Some (extended_bucket (sample_event ''m'' 100) (sample_key ''m'') (buffers (sample_state dedup_new)))"
proof -
  have facts: "in_i64 (timestamp (sample_event ''m'' 100))" "in_i64 (current_time (sample_state dedup_new))"
    "distinct (map pattern_id (vl_patterns (pinned_library (sample_state dedup_new))))"
    by (simp_all add: sample_defs in_i64_def arith_defs)
  have "routed_to (sample_event ''m'' 100) (vl_patterns (pinned_library (sample_state dedup_new))) (sample_key ''m'')"
    by (simp add: sample_defs sample_key_def routed_to_def family_contains_def DESTRUCTIVE_VERBS_def
        matches_event_iff any_mandate_def)
  then show ?thesis using ingest_event_spec [OF facts sample_ingest] by simp
qed

section \<open>Evaluation\<close>

definition bucket_after :: "verified_anomaly_library \<Rightarrow> int \<Rightarrow> buffer_map \<Rightarrow> scope_bucket_key \<Rightarrow> pattern_buffer option" where
  "bucket_after lib now bufs key =
     (case bm_get (pattern_index lib) (key_pattern_id key) of
        Some p \<Rightarrow> map_option (live_buffer p now) (bm_get bufs key)
      | None \<Rightarrow> bm_get bufs key)"

lemma evaluate_keys_buffers:
  "evaluate_keys ops (pattern_index lib) keys fires s = (Inr fs, s') \<Longrightarrow> distinct keys \<Longrightarrow>
     bm_get (buffers s') key =
       (if key \<in> set keys then bucket_after lib (current_time s) (buffers s) key else bm_get (buffers s) key)"
proof (induction keys arbitrary: fires s)
  case (Cons k keys)
  have step: "bucket_after lib (current_time s) (evict_bucket p k (current_time s) (buffers s)) key =
      bucket_after lib (current_time s) (buffers s) key" if "key \<noteq> k" for p
    using that by (simp add: bucket_after_def bm_get_evict_bucket split: option.split)
  from Cons.prems(1) show ?case
  proof (cases rule: evaluate_keys_ConsE)
    case orphan
    with Cons show ?thesis by (auto simp: bucket_after_def)
  next
    case (gone p)
    with Cons.IH [OF gone(3)] Cons.prems(2) step [of p] show ?thesis
      by (cases "key = k") (simp_all add: bucket_after_def bm_get_evict_bucket)
  next
    case (quiet p b)
    with Cons.IH [OF quiet(4)] Cons.prems(2) step [of p] show ?thesis
      by (cases "key = k") (simp_all add: bucket_after_def bm_get_evict_bucket)
  next
    case (fired p b f d)
    with Cons.IH [OF fired(5)] Cons.prems(2) step [of p] show ?thesis
      by (cases "key = k") (simp_all add: bucket_after_def bm_get_evict_bucket)
  qed auto
qed simp

lemma evaluate_all_buffers:
  assumes "evaluate_all ops s = (Inr fs, s')" and "detector_inv lib s"
  shows "bm_get (buffers s') key = bucket_after lib (current_time s) (buffers s) key"
proof -
  have "pinned_library s = lib" "distinct (bm_keys (buffers s))"
    using assms(2) by (auto simp: detector_inv_def buffers_ok_def bm.distinct_keys)
  with assms(1) have "bm_get (buffers s') key =
      (if key \<in> set (bm_keys (buffers s)) then bucket_after lib (current_time s) (buffers s) key
       else bm_get (buffers s) key)"
    by (simp add: evaluate_all_def evaluate_keys_buffers)
  then show ?thesis
    by (auto simp: set_bm_keys bucket_after_def split: option.split)
qed

lemma is_fire_suppressed_dd: "is_fire_suppressed dd_ops p key t d \<noteq> Inl e"
  by (simp add: is_fire_suppressed_def dd_is_suppressed_total)

lemma evaluate_pattern_dd: "evaluate_pattern dd_ops p b key ver t d \<noteq> Inl e"
  using is_fire_suppressed_dd [of p key t d e]
  by (auto simp: evaluate_pattern_def evaluate_first_match_def evaluate_sequence_match_def
      evaluate_cumulative_over_baseline_def
      split: firing_rule.splits threshold.splits scope_predicate.splits sum.splits bool.splits
        if_splits)

lemma dd_observe_cap: "dd_observe d p m t = (r, d') \<Longrightarrow> dd_cap d' = dd_cap d"
  by (auto simp: dd_observe_def split: option.splits if_splits)

lemma evaluate_keys_dd_error:
  "evaluate_keys dd_ops idx keys fires s = (Inl e, s') \<Longrightarrow> e = CapacityExhausted (dd_cap (dedup s))"
proof (induction keys arbitrary: fires s)
  case (Cons k keys)
  from Cons.prems show ?case
  proof (cases rule: evaluate_keys_ConsE)
    case orphan
    with Cons.IH show ?thesis by blast
  next
    case (gone p)
    with Cons.IH [OF gone(3)] show ?thesis by simp
  next
    case (quiet p b)
    with Cons.IH [OF quiet(4)] show ?thesis by simp
  next
    case (unrecorded p b f e' d)
    then show ?thesis by (auto dest: dd_observe_err)
  next
    case (fired p b f d)
    with Cons.IH [OF fired(5)] dd_observe_cap show ?thesis by fastforce
  qed (use evaluate_pattern_dd in auto)
qed simp

lemma dd_observe_room:
  assumes "dd_inv d" and "bm_len (dd_state d) < dd_cap d"
  shows "\<exists>d'. dd_observe d p m t = (Inr (), d') \<and> bm_len (dd_state d') \<le> Suc (bm_len (dd_state d))"
  using assms by (auto simp: dd_observe_def dd_inv_def bm_len_insert split: option.split)

lemma evaluate_keys_dd_total:
  "dd_inv (dedup s) \<Longrightarrow> bm_len (dd_state (dedup s)) + length keys \<le> dd_cap (dedup s) \<Longrightarrow>
   \<exists>fs s'. evaluate_keys dd_ops idx keys fires s = (Inr fs, s')"
proof (induction keys arbitrary: fires s)
  case (Cons k keys)
  show ?case
  proof (cases "evaluate_keys dd_ops idx (k # keys) fires s")
    case (Pair r s')
    then show ?thesis
    proof (cases rule: evaluate_keys_ConsE)
      case orphan
      with Pair Cons.IH [of s fires] Cons.prems show ?thesis by simp
    next
      case (gone p)
      with Pair Cons.IH [of "evicted_state p k s" fires] Cons.prems show ?thesis by simp
    next
      case (quiet p b)
      with Pair Cons.IH [of "evicted_state p k s" fires] Cons.prems show ?thesis by simp
    next
      case (failed p b e)
      with evaluate_pattern_dd show ?thesis by blast
    next
      case (unrecorded p b f e d)
      have "bm_len (dd_state (dedup s)) < dd_cap (dedup s)" using Cons.prems by simp
      with Cons.prems(1) obtain d' where "dd_observe (dedup s) (pattern_id p) (key_mandate_id k) (current_time s) = (Inr (), d')"
        using dd_observe_room by blast
      with unrecorded(4) show ?thesis by simp
    next
      case (fired p b f d)
      have "dd_inv d" "dd_cap d = dd_cap (dedup s)" "bm_len (dd_state d) \<le> Suc (bm_len (dd_state (dedup s)))"
        using fired(4) Cons.prems dd_observe_inv dd_observe_cap
          dd_observe_room [of "dedup s" "pattern_id p" "key_mandate_id k" "current_time s"]
        by fastforce+
      with Pair fired Cons.IH [of "(evicted_state p k s)\<lparr>dedup := d\<rparr>" "fires @ [f]"] Cons.prems
      show ?thesis by simp
    qed
  qed
qed simp

text \<open>The loop computes the due fires; the bounds of the machine types are not needed for this.\<close>

lemma evaluate_all_refines:
  assumes "detector_inv lib s" and "dd_inv (dedup s)" and "evaluate_all dd_ops s = (r, s')"
  shows "case r of
      Inr fs \<Rightarrow>
        fs = List.map_filter (due_fire (last_fired_at (dedup s)) lib (current_time s) (buffers s))
               (bm_keys (buffers s)) \<and>
        (\<forall>key. bm_get (buffers s') key = bucket_after lib (current_time s) (buffers s) key) \<and>
        (\<forall>p m. last_fired_at (dedup s') p m =
           (if (p, Some m) \<in> recorded_pairs fs then Some (current_time s)
            else last_fired_at (dedup s) p m))
    | Inl e \<Rightarrow> e = CapacityExhausted (dd_cap (dedup s))"
proof (cases r)
  case (Inl e)
  with assms(3) evaluate_keys_dd_error show ?thesis by (auto simp: evaluate_all_def)
next
  case (Inr fs)
  then show ?thesis
    using assms dd.evaluate_all_fires [of s fs s' lib] dd.evaluate_all_fired [of s fs s']
      evaluate_all_buffers [of dd_ops s fs s' lib] by simp
qed

text \<open>C38: evaluation over the in-memory ledger succeeds whenever the ledger has a free entry for
  every bucket, in particular always below 100,000 pairs.\<close>

theorem evaluate_all_succeeds:
  assumes "dd_inv (dedup s)"
    and "dd_len (dedup s) + length (buffers s) \<le> dd_cap (dedup s)"
  shows "\<exists>fs s'. evaluate_all dd_ops s = (Inr fs, s')"
  unfolding evaluate_all_def
  by (rule evaluate_keys_dd_total) (use assms in \<open>simp_all add: dd_len_def bm_keys_def\<close>)

lemma evaluate_all_succeeds_witness: "\<exists>fs s'. evaluate_all dd_ops (sample_fed dedup_new) = (Inr fs, s')"
  by (rule evaluate_all_succeeds)
    (simp_all add: sample_fields sample_defs dd_len_def dedup_new_def dedup_with_cap_def bm_len_def
      MAX_DEDUP_ENTRIES_PER_TENANT_def dd_inv_def)

section \<open>The invariant of every run\<close>

text \<open>C35: whatever ledger backs the detector and in whatever order clock moves, events and
  evaluations come, every reachable state satisfies the detector invariant: the library stays
  pinned, the maps stay ordered, every bucket holds at most 1,000 events, all of the bucket's
  mandate and all admitted by a pattern of the bucket's id, and no mandate has used more than
  10,000 events.\<close>

theorem detector_reachable_inv:
  assumes "detector_run ops lib d0 log s"
  shows "pinned_library s = lib \<and> bm_inv (buffers s) \<and> bm_inv (per_mandate_counters s) \<and>
    (\<forall>m. events_ingested s m \<le> 10000) \<and>
    (\<forall>key b. bm_get (buffers s) key = Some b \<longrightarrow>
       length (pb_events b) \<le> 1000 \<and> pb_pattern_id b = key_pattern_id key \<and>
       (\<forall>ev \<in> set (pb_events b). ev_mandate_id ev = key_mandate_id key \<and>
          (\<exists>p \<in> set (vl_patterns lib). pattern_id p = key_pattern_id key \<and> scope_matches (scope p) ev)))"
proof -
  have inv: "detector_inv lib s" using assms by (rule detector_run_inv)
  then have "events_ingested s m \<le> 10000" for m
    by (auto simp: detector_inv_def counters_ok_def events_ingested_def MAX_EVENTS_PER_MANDATE_def
        split: option.split)
  with inv show ?thesis
    by (auto simp: detector_inv_def counters_ok_def buffers_ok_def bucket_ok_def MAX_EVENTS_PER_BUFFER_def)
qed

lemma detector_reachable_inv_witness:
  "detector_run dd_ops sample_library dedup_new [(100, sample_fire ''m'')] sample_fired \<and>
   pinned_library sample_fired = sample_library \<and> events_ingested sample_fired ''m'' \<le> 10000"
  using sample_tick detector_reachable_inv [OF sample_tick] by blast

section \<open>Fire-once and its boundary\<close>

text \<open>C30: fire-once over whole runs with the in-memory ledger: two fires of the same pattern and
  mandate in the log are at least the pattern's window (one hour for an unwindowed pattern) apart,
  whatever events, clock moves, failed and successful evaluations come between, and although the
  code compares with saturating arithmetic.\<close>

theorem fire_once:
  assumes "detector_run dd_ops lib d0 log s" and "dd_inv d0"
    and "i < j" and "j < length log" and "fire_pair (snd (log ! i)) = fire_pair (snd (log ! j))"
  shows "\<exists>p. bm_get (pattern_index lib) (af_pattern_id (snd (log ! j))) = Some p \<and>
    int (dedup_window p) \<le> fst (log ! j) - fst (log ! i)"
proof -
  have "sorted_wrt (window_apart lib) log"
    using dd.detector_run_fire_once assms(1,2) by blast
  then have "window_apart lib (log ! i) (log ! j)"
    using assms(3,4) by (rule sorted_wrt_nth_less)
  with assms(5) show ?thesis by (auto simp: window_apart_def split: option.splits)
qed

definition sample_refired :: "in_memory_dedup detector_state" where
  "sample_refired = sample_fired\<lparr>current_time := 160, dedup := dedup_new\<lparr>dd_state := [((''p'', ''m''), 160)]\<rparr>\<rparr>"

lemma sample_evict_60:
  "evict_bucket sample_pattern (sample_key ''m'') 160 (buffers (sample_fed d)) = buffers (sample_fed d)"
  by (simp add: evict_bucket_def sample_key_def sample_defs evict_aged_events_def sat_sub_def
      clamp_i64_def arith_defs)

lemma sample_pattern_fires_60:
  "evaluate_pattern dd_ops sample_pattern (snd (sample_bucket ''m'' 100)) (sample_key ''m'') 1 160
     (dedup_new\<lparr>dd_state := [((''p'', ''m''), 100)]\<rparr>) = Inr (Some (sample_fire ''m''))"
  by (simp add: evaluate_pattern_def sample_pattern_def evaluate_first_match_def is_fire_suppressed_def
      dd_is_suppressed_def dedup_new_def dedup_with_cap_def u32_of_usize_def u32_max_def
      fire_on_last_def sample_fire_def sample_bucket_def sample_key_def sat_sub_def clamp_i64_def arith_defs)

lemma sample_advance: "advance_clock sample_fired 160 = (Inr (), sample_fired\<lparr>current_time := 160\<rparr>)"
  by (simp add: advance_clock_def sample_fired_def sample_fields)

lemma sample_evaluate_60:
  "evaluate_all dd_ops (sample_fired\<lparr>current_time := 160\<rparr>) = (Inr [sample_fire ''m''], sample_refired)"
  by (simp add: evaluate_all_def sample_fired_def sample_keys sample_index sample_evict_60 sample_get
      sample_fields sample_pattern_fires_60 [unfolded One_nat_def] dd_observe_def sample_refired_def)

lemma sample_run_60:
  "detector_run dd_ops sample_library dedup_new [(100, sample_fire ''m''), (160, sample_fire ''m'')] sample_refired"
  using detector_run.tick [OF detector_run.clock [OF sample_tick sample_advance] sample_evaluate_60] by simp

lemma fire_once_witness: "\<exists>p. bm_get (pattern_index sample_library) ''p'' = Some p \<and> int (dedup_window p) \<le> 160 - 100"
  using fire_once [OF sample_run_60 dd_inv_new, of 0 1] by (simp add: sample_fire_def sample_fields)

lemma live_buffer_keep:
  "\<forall>w. window_seconds p = Some w \<longrightarrow> (\<forall>ev \<in> set (pb_events b). sat_sub now (int w) \<le> timestamp ev) \<Longrightarrow>
     live_buffer p now b = b"
proof -
  assume young: "\<forall>w. window_seconds p = Some w \<longrightarrow> (\<forall>ev \<in> set (pb_events b). sat_sub now (int w) \<le> timestamp ev)"
  have "dropWhile (\<lambda>e. timestamp e < sat_sub now (int w)) (pb_events b) = pb_events b"
    if "window_seconds p = Some w" for w
    using young that by (cases "pb_events b") (auto simp: not_less)
  then show ?thesis by (auto simp: live_buffer_def evict_aged_events_eq Let_def split: option.split)
qed

text \<open>The window is closed at the far end for events but open for the ledger.  If a windowed
  pattern fires on a bucket none of whose events is older than the clock, then one window later,
  with no event in between, the same bucket fires again, identically.\<close>

theorem boundary_refire:
  assumes inv: "detector_inv lib s" "dd_inv (dedup s)"
    and now: "in_i64 (current_time s)" and w: "window_seconds p = Some w" "w \<le> u32_max"
    and p: "bm_get (pattern_index lib) (key_pattern_id key) = Some p"
    and b: "bm_get (buffers s) key = Some b" "\<forall>ev \<in> set (pb_events b). current_time s \<le> timestamp ev"
    and first: "evaluate_all dd_ops s = (Inr fs, s1)" "f \<in> set fs"
      "due_fire (last_fired_at (dedup s)) lib (current_time s) (buffers s) key = Some f"
    and later: "advance_clock s1 (current_time s + int w) = (Inr (), s2)"
    and second: "evaluate_all dd_ops s2 = (Inr fs', s3)"
  shows "f \<in> set fs'"
proof -
  let ?now = "current_time s" and ?then = "current_time s + int w"
  have s2: "buffers s2 = buffers s1" "dedup s2 = dedup s1" "current_time s2 = ?then"
    using later by (auto simp: advance_clock_def split: if_splits)
  have inv2: "detector_inv lib s2" "dd_inv (dedup s2)"
    using evaluate_all_inv [OF inv(1) first(1)] advance_clock_inv [OF _ later]
      dd.evaluate_all_fired [OF first(1) inv(2)] s2(2) by simp_all
  have "live_buffer p ?now b = b"
  proof (rule live_buffer_keep, intro allI impI ballI)
    fix w' ev assume "ev \<in> set (pb_events b)"
    with b(2) have "?now \<le> timestamp ev" by blast
    with sat_sub_le_self [OF now, of "int w'"] show "sat_sub ?now (int w') \<le> timestamp ev" by simp
  qed
  then have b2: "bm_get (buffers s2) key = Some b"
    using evaluate_all_buffers [OF first(1) inv(1), of key] s2(1) p b(1) by (simp add: bucket_after_def)
  have w_small: "sat_sub ?then ?now = int w" "sat_sub ?then (int w) = ?now"
    using w(2) now by (auto simp: sat_sub_def clamp_i64_def in_i64_def arith_defs)
  have live: "live_buffer p ?then b = b"
    by (rule live_buffer_keep) (use b(2) w w_small in auto)
  have "last_fired_at (dedup s2) (key_pattern_id key) (key_mandate_id key) = Some ?now"
  proof -
    have "(key_pattern_id key, Some (key_mandate_id key)) \<in> recorded_pairs fs"
      using due_fire_pair [OF first(3)] first(2) by (metis image_eqI list.set_map recorded_pairs_def)
    then show ?thesis using dd.evaluate_all_fired [OF first(1) inv(2)] s2(2) by simp
  qed
  then have "\<not> recently_fired (last_fired_at (dedup s2)) p key ?then"
    using pattern_index_id [OF p] w w_small by (simp add: recently_fired_def dedup_window_def)
  then have due: "due_fire (last_fired_at (dedup s2)) lib (current_time s2) (buffers s2) key = Some f"
    using first(3) p b b2 live \<open>live_buffer p ?now b = b\<close> s2(3)
    by (simp add: due_fire_def Let_def split: if_splits)
  have "key \<in> set (bm_keys (buffers s2))" using b2 by (simp add: set_bm_keys)
  then show ?thesis
    using evaluate_all_refines [OF inv2 second] due by (auto simp: List.map_filter_def intro!: image_eqI [of _ _ key])
qed

lemma sample_due:
  "due_fire (last_fired_at dedup_new) sample_library 100 (buffers (sample_fed d)) (sample_key ''m'') = Some (sample_fire ''m'')"
  by (simp add: due_fire_def sample_index sample_get sample_fields)
    (simp add: live_buffer_def sample_pattern_def sample_bucket_def evict_aged_events_def sample_event_def
      threshold_met_def u32_of_usize_def u32_max_def recently_fired_def last_fired_at_def dedup_new_def
      dedup_with_cap_def sample_fire_def sample_key_def sample_library_def sat_sub_def clamp_i64_def arith_defs)

lemma boundary_refire_witness:
  "\<exists>fs'. fst (evaluate_all dd_ops (sample_fired\<lparr>current_time := 160\<rparr>)) = Inr fs' \<and> sample_fire ''m'' \<in> set fs'"
proof -
  have "sample_fire ''m'' \<in> set [sample_fire ''m'']"
  proof (rule boundary_refire [where s = "sample_fed dedup_new" and ?s1.0 = sample_fired
        and ?s2.0 = "sample_fired\<lparr>current_time := 160\<rparr>" and p = sample_pattern and w = 60
        and key = "sample_key ''m''" and b = "snd (sample_bucket ''m'' 100)" and lib = sample_library,
        OF sample_fed_inv _ _ _ _ _ sample_get _ sample_evaluate _ _ _ sample_evaluate_60])
    show "advance_clock sample_fired (current_time (sample_fed dedup_new) + int 60) =
        (Inr (), sample_fired\<lparr>current_time := 160\<rparr>)"
      using sample_advance by (simp add: sample_fields)
  qed (simp_all add: sample_fields sample_index sample_due in_i64_def arith_defs,
      simp_all add: sample_pattern_def sample_bucket_def sample_event_def)
  then show ?thesis by (simp add: sample_evaluate_60)
qed

section \<open>A failed batch\<close>

definition lost_prefix ::
  "(string \<Rightarrow> string \<Rightarrow> int option) \<Rightarrow> (string \<Rightarrow> string \<Rightarrow> int option) \<Rightarrow> verified_anomaly_library \<Rightarrow> int \<Rightarrow>
   buffer_map \<Rightarrow> scope_bucket_key list \<Rightarrow> bool" where
  "lost_prefix before after lib now bufs ks \<longleftrightarrow>
     (\<forall>k \<in> set ks. due_fire before lib now bufs k \<noteq> None \<longrightarrow>
        after (key_pattern_id k) (key_mandate_id k) = Some now)"

lemma lost_prefix_Cons:
  assumes "lost_prefix before' after lib now (evict_bucket p key now bufs) ks"
    and "distinct (map key_pair (key # ks))"
    and "\<And>p' m'. (p', m') \<noteq> key_pair key \<Longrightarrow> before' p' m' = before p' m'"
    and "due_fire before lib now bufs key \<noteq> None \<Longrightarrow>
      after (key_pattern_id key) (key_mandate_id key) = Some now"
  shows "lost_prefix before after lib now bufs (key # ks)"
proof -
  have "due_fire before' lib now (evict_bucket p key now bufs) k = due_fire before lib now bufs k"
    if "k \<in> set ks" for k
    using assms(2,3) that by (intro due_fire_later) (auto simp: image_iff)
  with assms(1,4) show ?thesis by (simp add: lost_prefix_def)
qed

lemma dd_evaluate_keys_lost:
  "evaluate_keys dd_ops (pattern_index lib) keys fires s = (Inl e, s') \<Longrightarrow> dd_inv (dedup s) \<Longrightarrow>
   pinned_library s = lib \<Longrightarrow> distinct (map key_pair keys) \<Longrightarrow>
   \<exists>done k rest. keys = done @ k # rest \<and>
     due_fire (last_fired_at (dedup s)) lib (current_time s) (buffers s) k \<noteq> None \<and>
     lost_prefix (last_fired_at (dedup s)) (last_fired_at (dedup s')) lib (current_time s) (buffers s) done"
proof (induction keys arbitrary: fires s)
  case (Cons key keys)
  let ?now = "current_time s"
  let ?due = "due_fire (last_fired_at (dedup s)) lib ?now (buffers s)"
  have grow: ?case
    if rest: "keys = done @ k # rest"
      "due_fire before' lib ?now (evict_bucket p key ?now (buffers s)) k \<noteq> None"
      "lost_prefix before' (last_fired_at (dedup s')) lib ?now (evict_bucket p key ?now (buffers s)) done"
      and agree: "\<And>p' m'. (p', m') \<noteq> key_pair key \<Longrightarrow> before' p' m' = last_fired_at (dedup s) p' m'"
      and this_key: "?due key \<noteq> None \<Longrightarrow>
        last_fired_at (dedup s') (key_pattern_id key) (key_mandate_id key) = Some ?now"
    for "done" k rest before' p
  proof (intro exI conjI)
    show "key # keys = (key # done) @ k # rest" using rest(1) by simp
    have distinct: "distinct (map key_pair (key # done))" "key_pair k \<noteq> key_pair key"
      using Cons.prems(4) rest(1) by auto
    show "?due k \<noteq> None"
      using due_fire_later [OF distinct(2) agree] rest(2) by simp
    show "lost_prefix (last_fired_at (dedup s)) (last_fired_at (dedup s')) lib ?now (buffers s) (key # done)"
      by (rule lost_prefix_Cons [OF rest(3) distinct(1) agree this_key])
  qed
  from Cons.prems(1) show ?case
  proof (cases rule: evaluate_keys_ConsE)
    case orphan
    then have none: "?due key = None" by (simp add: due_fire_def)
    obtain "done" k rest where "keys = done @ k # rest" "?due k \<noteq> None"
      "lost_prefix (last_fired_at (dedup s)) (last_fired_at (dedup s')) lib ?now (buffers s) done"
      using Cons.IH [OF orphan(2)] Cons.prems by auto
    with none show ?thesis
      by (intro exI [of _ "key # done"] exI [of _ k] exI [of _ rest]) (simp add: lost_prefix_def)
  next
    case (gone p)
    then have "?due key = None" by (simp add: due_fire_def bm_get_evict_bucket)
    then show ?thesis
      using Cons.IH [OF gone(3)] Cons.prems grow [of _ _ _ "last_fired_at (dedup s)" p] by auto
  next
    case (quiet p b)
    then have "?due key = None"
      using dd.evaluate_pattern_due [of "dedup s" lib key p] Cons.prems by simp
    then show ?thesis
      using Cons.IH [OF quiet(4)] Cons.prems grow [of _ _ _ "last_fired_at (dedup s)" p] by auto
  next
    case (failed p b e')
    with evaluate_pattern_dd show ?thesis by blast
  next
    case (unrecorded p b f e' d)
    then have "?due key = Some f"
      using dd.evaluate_pattern_due [of "dedup s" lib key p] Cons.prems by simp
    then show ?thesis by (intro exI [of _ "[]"] exI [of _ key] exI [of _ keys]) (simp add: lost_prefix_def)
  next
    case (fired p b f d)
    have pid: "pattern_id p = key_pattern_id key" using pattern_index_id fired(1) by blast
    have obs: "last_fired_at d p' m' =
        (if p' = key_pattern_id key \<and> m' = key_mandate_id key then Some ?now else last_fired_at (dedup s) p' m')"
      for p' m' using dd_observe_fired [of "dedup s" _ _ _ "()" d] fired(4) pid by simp
    have d: "dd_inv d" using fired(4) Cons.prems(2) dd_observe_inv by fastforce
    have "last_fired_at (dedup s') (key_pattern_id key) (key_mandate_id key) = Some ?now"
      using dd.evaluate_keys_invar [OF fired(5)] d obs by (simp, metis)
    note this_key = this
    obtain "done" k rest where rest: "keys = done @ k # rest"
      "due_fire (last_fired_at d) lib ?now (evict_bucket p key ?now (buffers s)) k \<noteq> None"
      "lost_prefix (last_fired_at d) (last_fired_at (dedup s')) lib ?now (evict_bucket p key ?now (buffers s)) done"
      using Cons.IH [OF fired(5)] d Cons.prems(3,4) by auto
    show ?thesis
    proof (rule grow [OF rest])
      show "last_fired_at d p' m' = last_fired_at (dedup s) p' m'" if "(p', m') \<noteq> key_pair key" for p' m'
        using that obs [of p' m'] by (auto simp: key_pair_def)
    qed (rule this_key)
  qed
qed simp

text \<open>A failed batch loses fires.  When \<open>evaluate_all\<close> over the in-memory ledger reports an
  error, it stopped at a bucket that was due; every fire that was due at an earlier bucket is
  already recorded in the ledger at the current time, although the caller receives none of them,
  so the ledger suppresses them from then on.\<close>

theorem failed_batch_loses_fires:
  assumes "evaluate_all dd_ops s = (Inl e, s')" and "detector_inv lib s" and "dd_inv (dedup s)"
  shows "\<exists>done k rest. bm_keys (buffers s) = done @ k # rest \<and>
    due_fire (last_fired_at (dedup s)) lib (current_time s) (buffers s) k \<noteq> None \<and>
    (\<forall>k' \<in> set done. due_fire (last_fired_at (dedup s)) lib (current_time s) (buffers s) k' \<noteq> None \<longrightarrow>
       last_fired_at (dedup s') (key_pattern_id k') (key_mandate_id k') = Some (current_time s))"
proof -
  have "pinned_library s = lib" "distinct (map key_pair (bm_keys (buffers s)))"
    using assms(2) distinct_key_pairs by (auto simp: detector_inv_def)
  then show ?thesis
    using dd_evaluate_keys_lost assms(1,3) unfolding evaluate_all_def lost_prefix_def by fastforce
qed

definition crowded :: "in_memory_dedup detector_state" where
  "crowded =
     (with_ledger sample_library 100 (dedup_with_cap 1))
       \<lparr>buffers := [sample_bucket ''m'' 100, sample_bucket ''n'' 100]\<rparr>"

lemma crowded_inv: "detector_inv sample_library crowded" "dd_inv (dedup crowded)"
  by (auto simp: detector_inv_def crowded_def with_ledger_def sample_bucket_def buffers_ok_def bm_inv_def
      bm_keys_def bucket_ok_def counters_ok_def sample_event_def sample_library_def sample_pattern_def
      family_contains_def DESTRUCTIVE_VERBS_def matches_event_iff any_mandate_def
      less_scope_bucket_key_def key_tuple_def MAX_EVENTS_PER_BUFFER_def dd_inv_def dedup_with_cap_def
      bm_len_def split: if_splits)

lemma crowded_get:
  "bm_keys (buffers crowded) = [sample_key ''m'', sample_key ''n'']"
  "bm_get (buffers crowded) (sample_key ''m'') = Some (snd (sample_bucket ''m'' 100))"
  "bm_get (buffers crowded) (sample_key ''n'') = Some (snd (sample_bucket ''n'' 100))"
  "evict_bucket sample_pattern (sample_key ''m'') 100 (buffers crowded) = buffers crowded"
  "evict_bucket sample_pattern (sample_key ''n'') 100 (buffers crowded) = buffers crowded"
  "pinned_library crowded = sample_library" "current_time crowded = 100" "dedup crowded = dedup_with_cap 1"
  by (simp_all add: crowded_def with_ledger_def sample_bucket_def bm_keys_def sample_key_def
      evict_bucket_def evict_aged_events_def sample_pattern_def sample_event_def sat_sub_def
      clamp_i64_def less_scope_bucket_key_def key_tuple_def arith_defs)

definition crowded_after :: "in_memory_dedup detector_state" where
  "crowded_after = crowded\<lparr>dedup := \<lparr>dd_state = [((''p'', ''m''), 100)], dd_cap = 1\<rparr>\<rparr>"

lemma crowded_pattern_fires:
  "bm_get d (''p'', m) = None \<Longrightarrow>
   evaluate_pattern dd_ops sample_pattern (snd (sample_bucket m 100)) (sample_key m) 1 100 \<lparr>dd_state = d, dd_cap = 1\<rparr>
     = Inr (Some (sample_fire m))"
  by (simp add: evaluate_pattern_def sample_pattern_def evaluate_first_match_def is_fire_suppressed_def
      dd_is_suppressed_def u32_of_usize_def u32_max_def fire_on_last_def sample_fire_def
      sample_bucket_def sample_key_def)

lemma crowded_evaluate: "evaluate_all dd_ops crowded = (Inl (CapacityExhausted 1), crowded_after)"
  by (simp add: evaluate_all_def crowded_get sample_fields sample_index dedup_with_cap_def
      crowded_pattern_fires [unfolded One_nat_def] dd_observe_def bm_len_def crowded_after_def)

lemma failed_batch_loses_fires_witness:
  "\<exists>done k rest. [sample_key ''m'', sample_key ''n''] = done @ k # rest \<and>
     (\<forall>k' \<in> set done. last_fired_at (dedup crowded_after) (key_pattern_id k') (key_mandate_id k') = Some 100) \<and>
     due_fire (last_fired_at (dedup crowded)) sample_library 100 (buffers crowded) k \<noteq> None"
proof -
  have due: "due_fire (last_fired_at (dedup crowded)) sample_library 100 (buffers crowded) (sample_key ''m'') \<noteq> None"
    by (simp add: due_fire_def sample_index crowded_get sample_fields)
      (simp add: live_buffer_def sample_pattern_def sample_bucket_def evict_aged_events_def
        sample_event_def threshold_met_def u32_of_usize_def u32_max_def recently_fired_def
        last_fired_at_def dedup_with_cap_def sat_sub_def clamp_i64_def arith_defs)
  obtain "done" k rest where split: "[sample_key ''m'', sample_key ''n''] = done @ k # rest"
    and k: "due_fire (last_fired_at (dedup crowded)) sample_library 100 (buffers crowded) k \<noteq> None"
    and rec: "\<forall>k' \<in> set done. due_fire (last_fired_at (dedup crowded)) sample_library 100 (buffers crowded) k' \<noteq> None \<longrightarrow>
       last_fired_at (dedup crowded_after) (key_pattern_id k') (key_mandate_id k') = Some 100"
    using failed_batch_loses_fires [OF crowded_evaluate crowded_inv] unfolding crowded_get by blast
  have "set done \<subseteq> {sample_key ''m''}" using split by (auto simp: Cons_eq_append_conv)
  with due rec have "\<forall>k' \<in> set done. last_fired_at (dedup crowded_after) (key_pattern_id k') (key_mandate_id k') = Some 100"
    by blast
  with split k show ?thesis by blast
qed

end
