(* ===== verification/Orchestrator.thy ===== *)
theory Orchestrator
  imports Detector_Correct
begin

text \<open>
  \<open>ephemeral-anomaly/src/orchestrator.rs\<close>: one detector per tenant behind a shared library.
  \<open>observe_event\<close> advances the tenant's clock to the event, ingests it and evaluates.
\<close>

section \<open>State and operations\<close>

record anomaly_detected_record =
  adr_tenant_id :: string
  adr_record_timestamp :: int
  adr_payload :: anomaly_fire

record orchestrator =
  orc_library :: verified_anomaly_library
  orc_initial_time :: int
  orc_tenants :: "(string, in_memory_dedup detector_state) btree_map"

definition orchestrator_new :: "verified_anomaly_library \<Rightarrow> int \<Rightarrow> orchestrator" where
  "orchestrator_new lib initial_time =
     \<lparr>orc_library = lib, orc_initial_time = initial_time, orc_tenants = []\<rparr>"

definition tenant_current_time :: "orchestrator \<Rightarrow> string \<Rightarrow> int option" where
  "tenant_current_time orc tid = map_option current_time (bm_get (orc_tenants orc) tid)"

definition tenant_count :: "orchestrator \<Rightarrow> nat" where
  "tenant_count orc = bm_len (orc_tenants orc)"

definition orc_tenant_ids :: "orchestrator \<Rightarrow> string list" where
  "orc_tenant_ids orc = bm_keys (orc_tenants orc)"

text \<open>The entry of \<open>tenant_state_mut\<close>: the tenant's state, or the fresh one it inserts.\<close>

definition tenant_state :: "orchestrator \<Rightarrow> string \<Rightarrow> in_memory_dedup detector_state" where
  "tenant_state orc tid =
     (case bm_get (orc_tenants orc) tid of
        Some s \<Rightarrow> s
      | None \<Rightarrow> detector_new (orc_library orc) (orc_initial_time orc))"

definition put_tenant :: "orchestrator \<Rightarrow> string \<Rightarrow> in_memory_dedup detector_state \<Rightarrow> orchestrator" where
  "put_tenant orc tid s = orc\<lparr>orc_tenants := bm_insert tid s (orc_tenants orc)\<rparr>"

definition wrap_fires :: "string \<Rightarrow> int \<Rightarrow> anomaly_fire list \<Rightarrow> anomaly_detected_record list" where
  "wrap_fires tid t fires =
     map (\<lambda>f. \<lparr>adr_tenant_id = tid, adr_record_timestamp = t, adr_payload = f\<rparr>) fires"

text \<open>The tenant-local part of the three operations, as a transformer of one detector.\<close>

definition drain_detector ::
  "string \<Rightarrow> in_memory_dedup detector_state \<Rightarrow>
   (stream_error, anomaly_detected_record list, in_memory_dedup detector_state) outcome_of" where
  "drain_detector tid s =
     (case evaluate_all dd_ops s of
        (Inl e, s) \<Rightarrow> (Inl (stream_error_of_dedup e), s)
      | (Inr fires, s) \<Rightarrow> (Inr (wrap_fires tid (current_time s) fires), s))"

definition observe_detector ::
  "string \<Rightarrow> canonicalized_event \<Rightarrow> in_memory_dedup detector_state \<Rightarrow>
   (stream_error, anomaly_detected_record list, in_memory_dedup detector_state) outcome_of" where
  "observe_detector tid ev s =
     (case advance_clock s (timestamp ev) of
        (Inl e, s) \<Rightarrow> (Inl e, s)
      | (Inr _, s) \<Rightarrow>
          (case ingest_event s ev of
             (Inl e, s) \<Rightarrow> (Inl e, s)
           | (Inr _, s) \<Rightarrow> drain_detector tid s))"

definition observe_event ::
  "orchestrator \<Rightarrow> string \<Rightarrow> canonicalized_event \<Rightarrow>
   (stream_error, anomaly_detected_record list, orchestrator) outcome_of" where
  "observe_event orc tid ev =
     (let (r, s) = observe_detector tid ev (tenant_state orc tid) in (r, put_tenant orc tid s))"

definition advance_clock_for ::
  "orchestrator \<Rightarrow> string \<Rightarrow> int \<Rightarrow> (stream_error, unit, orchestrator) outcome_of" where
  "advance_clock_for orc tid new_time =
     (let (r, s) = advance_clock (tenant_state orc tid) new_time in (r, put_tenant orc tid s))"

definition drain_fires_for ::
  "orchestrator \<Rightarrow> string \<Rightarrow> (stream_error, anomaly_detected_record list, orchestrator) outcome_of" where
  "drain_fires_for orc tid =
     (case bm_get (orc_tenants orc) tid of
        None \<Rightarrow> (Inr [], orc)
      | Some s \<Rightarrow> (let (r, s) = drain_detector tid s in (r, put_tenant orc tid s)))"

definition rotate_library :: "orchestrator \<Rightarrow> verified_anomaly_library \<Rightarrow> int \<Rightarrow> orchestrator" where
  "rotate_library orc new_library new_initial_time =
     orc\<lparr>orc_library := new_library, orc_initial_time := new_initial_time, orc_tenants := []\<rparr>"

section \<open>Traces of calls\<close>

datatype orc_call =
    Observe string canonicalized_event
  | Advance string int
  | Drain string
  | Rotate verified_anomaly_library int

datatype orc_answer =
    Fires "stream_error + anomaly_detected_record list"
  | Clocked "stream_error + unit"
  | Rotated

fun call_tenant :: "orc_call \<Rightarrow> string option" where
  "call_tenant (Observe tid _) = Some tid"
| "call_tenant (Advance tid _) = Some tid"
| "call_tenant (Drain tid) = Some tid"
| "call_tenant (Rotate _ _) = None"

fun orc_step :: "orchestrator \<Rightarrow> orc_call \<Rightarrow> orc_answer \<times> orchestrator" where
  "orc_step orc (Observe tid ev) = (let (r, orc) = observe_event orc tid ev in (Fires r, orc))"
| "orc_step orc (Advance tid t) = (let (r, orc) = advance_clock_for orc tid t in (Clocked r, orc))"
| "orc_step orc (Drain tid) = (let (r, orc) = drain_fires_for orc tid in (Fires r, orc))"
| "orc_step orc (Rotate lib t) = (Rotated, rotate_library orc lib t)"

fun orc_run :: "orchestrator \<Rightarrow> orc_call list \<Rightarrow> (orc_call \<times> orc_answer) list" where
  "orc_run orc [] = []"
| "orc_run orc (c # cs) = (let (a, orc') = orc_step orc c in (c, a) # orc_run orc' cs)"

fun orc_exec :: "orchestrator \<Rightarrow> orc_call list \<Rightarrow> orchestrator" where
  "orc_exec orc [] = orc"
| "orc_exec orc (c # cs) = orc_exec (snd (orc_step orc c)) cs"

section \<open>Tenant isolation\<close>

text \<open>A call is visible to a tenant if it is its own or a rotation.\<close>

definition visible :: "string \<Rightarrow> orc_call \<Rightarrow> bool" where
  "visible tid c \<longleftrightarrow> (case call_tenant c of Some t \<Rightarrow> t = tid | None \<Rightarrow> True)"

definition same_view :: "string \<Rightarrow> orchestrator \<Rightarrow> orchestrator \<Rightarrow> bool" where
  "same_view tid o1 o2 \<longleftrightarrow>
     orc_library o1 = orc_library o2 \<and> orc_initial_time o1 = orc_initial_time o2 \<and>
     bm_get (orc_tenants o1) tid = bm_get (orc_tenants o2) tid"

lemma put_tenant_simps [simp]:
  "orc_library (put_tenant orc tid s) = orc_library orc"
  "orc_initial_time (put_tenant orc tid s) = orc_initial_time orc"
  "bm_get (orc_tenants (put_tenant orc tid s)) t = (if t = tid then Some s else bm_get (orc_tenants orc) t)"
  by (simp_all add: put_tenant_def bm_get_insert)

lemmas orc_ops_defs = observe_event_def advance_clock_for_def drain_fires_for_def

lemma step_hidden:
  "\<not> visible tid c \<Longrightarrow> same_view tid (snd (orc_step orc c)) orc"
  by (cases c) (auto simp: visible_def same_view_def orc_ops_defs Let_def split: prod.splits option.splits)

lemma step_visible:
  "visible tid c \<Longrightarrow> same_view tid o1 o2 \<Longrightarrow>
     fst (orc_step o1 c) = fst (orc_step o2 c) \<and> same_view tid (snd (orc_step o1 c)) (snd (orc_step o2 c))"
  by (cases c)
    (auto simp: visible_def same_view_def orc_ops_defs tenant_state_def rotate_library_def Let_def
      split: prod.splits option.splits)

lemma same_view_trans: "same_view t a b \<Longrightarrow> same_view t b c \<Longrightarrow> same_view t a c"
  by (simp add: same_view_def)

lemma isolation_views:
  "same_view tid o1 o2 \<Longrightarrow>
   filter (visible tid \<circ> fst) (orc_run o1 cs) = orc_run o2 (filter (visible tid) cs) \<and>
   same_view tid (orc_exec o1 cs) (orc_exec o2 (filter (visible tid) cs))"
proof (induction cs arbitrary: o1 o2)
  case (Cons c cs)
  show ?case
  proof (cases "visible tid c")
    case True
    then show ?thesis
      using Cons.IH step_visible [OF True Cons.prems] by (auto simp: Let_def split: prod.splits)
  next
    case False
    then have "same_view tid (snd (orc_step o1 c)) o2"
      using step_hidden Cons.prems same_view_trans by blast
    with False Cons.IH show ?thesis by (auto simp: Let_def split: prod.splits)
  qed
qed simp

text \<open>C33: tenants do not interfere.  In any sequence of calls (observations, clock moves, drains
  and library rotations, of any tenants in any order), the answers one tenant gets are exactly the
  answers it gets when every call of every other tenant is deleted from the sequence, and it ends in
  the same state.\<close>

theorem tenant_isolation:
  "filter (visible tid \<circ> fst) (orc_run orc cs) = orc_run orc (filter (visible tid) cs) \<and>
   same_view tid (orc_exec orc cs) (orc_exec orc (filter (visible tid) cs))"
  by (rule isolation_views) (simp add: same_view_def)

section \<open>The gates an observation can reach\<close>

lemma drain_detector_frame:
  "drain_detector tid s = (r, s') \<Longrightarrow> current_time s' = current_time s \<and>
   (case r of Inl e \<Rightarrow> (\<exists>x. e = DedupLedgerFailure x)
            | Inr recs \<Rightarrow> \<forall>rec \<in> set recs. adr_tenant_id rec = tid \<and> adr_record_timestamp rec = current_time s)"
  using evaluate_all_time [of dd_ops s _ s']
  by (auto simp: drain_detector_def wrap_fires_def stream_error_of_dedup_def split: prod.splits sum.splits)

lemma ingest_now:
  assumes "in_i64 (timestamp ev)" and "current_time s = timestamp ev" and "ingest_event s ev = (r, s')"
  shows "current_time s' = timestamp ev \<and>
    r = (if events_ingested s (ev_mandate_id ev) < 10000 then Inr ()
         else Inl (PerMandateCapReached (sanitize_log_string (ev_mandate_id ev)) MAX_EVENTS_PER_MANDATE))"
proof -
  have "\<not> timestamp ev < past_dated_floor s" using floor_exact [of ev s] assms(1,2) by simp
  then show ?thesis
    using assms(2,3)
    by (auto simp: ingest_event_def events_ingested_def MAX_CLOCK_SKEW_SECONDS_def MAX_EVENTS_PER_MANDATE_def
        Let_def split: if_splits)
qed

text \<open>The whole outcome of \<open>observe_event\<close>.  An event older than the tenant's clock is a
  clock regression and changes nothing but registering the tenant.  Any other event, however far in
  the future, moves the tenant's clock to its own timestamp, and stays there even when the call then
  fails; the only failures left are the mandate quota and the dedup ledger.  So the clock-skew gate
  and the past-dated gate of ingestion are never reached through the orchestrator.  Every record
  returned carries the tenant and the event's timestamp.\<close>

theorem observe_event_outcome:
  assumes "in_i64 (timestamp ev)" and "observe_event orc tid ev = (r, orc')"
  shows "if timestamp ev < current_time (tenant_state orc tid)
    then r = Inl (ClockRegression (current_time (tenant_state orc tid)) (timestamp ev)) \<and>
         orc' = put_tenant orc tid (tenant_state orc tid)
    else tenant_current_time orc' tid = Some (timestamp ev) \<and>
      (case r of
         Inl e \<Rightarrow>
           (10000 \<le> events_ingested (tenant_state orc tid) (ev_mandate_id ev) \<and>
            e = PerMandateCapReached (sanitize_log_string (ev_mandate_id ev)) MAX_EVENTS_PER_MANDATE) \<or>
           (\<exists>x. e = DedupLedgerFailure x)
       | Inr recs \<Rightarrow> \<forall>rec \<in> set recs. adr_tenant_id rec = tid \<and> adr_record_timestamp rec = timestamp ev)"
proof (cases "timestamp ev < current_time (tenant_state orc tid)")
  case True
  then show ?thesis
    using assms(2) by (auto simp: observe_event_def observe_detector_def advance_clock_def)
next
  case False
  define s where "s = (tenant_state orc tid)\<lparr>current_time := timestamp ev\<rparr>"
  obtain r1 s1 where ingest: "ingest_event s ev = (r1, s1)" by fastforce
  have s1: "current_time s1 = timestamp ev" "r1 = (if events_ingested s (ev_mandate_id ev) < 10000 then Inr ()
      else Inl (PerMandateCapReached (sanitize_log_string (ev_mandate_id ev)) MAX_EVENTS_PER_MANDATE))"
    using ingest_now [OF assms(1) _ ingest] by (auto simp: s_def)
  have same: "events_ingested s m = events_ingested (tenant_state orc tid) m" for m
    by (simp add: s_def events_ingested_def)
  show ?thesis
  proof (cases "events_ingested s (ev_mandate_id ev) < 10000")
    case over: False
    then show ?thesis
      using False assms(2) ingest s1 same
      by (auto simp: observe_event_def observe_detector_def advance_clock_def tenant_current_time_def
          simp flip: s_def)
  next
    case True
    obtain r2 s2 where "drain_detector tid s1 = (r2, s2)" by fastforce
    with drain_detector_frame [OF this] True False assms(2) ingest s1 same show ?thesis
      by (auto simp: observe_event_def observe_detector_def advance_clock_def tenant_current_time_def
          simp flip: s_def split: sum.splits)
  qed
qed

lemma observe_event_outcome_witness:
  "tenant_current_time (snd (observe_event (orchestrator_new sample_library 100) ''t'' (sample_event ''m'' 1000000))) ''t''
     = Some 1000000"
proof -
  obtain r orc' where obs: "observe_event (orchestrator_new sample_library 100) ''t'' (sample_event ''m'' 1000000) = (r, orc')"
    by fastforce
  have "timestamp (sample_event ''m'' 1000000) = 1000000" by (simp add: sample_event_def)
  moreover have "current_time (tenant_state (orchestrator_new sample_library 100) ''t'') = 100"
    by (simp add: tenant_state_def orchestrator_new_def detector_new_def with_ledger_def)
  moreover have "in_i64 (timestamp (sample_event ''m'' 1000000))"
    by (simp add: sample_event_def in_i64_def arith_defs)
  ultimately have "tenant_current_time orc' ''t'' = Some 1000000"
    using observe_event_outcome [OF _ obs] by simp
  with obs show ?thesis by simp
qed

section \<open>Buckets stay in time order\<close>

definition orderly :: "int \<Rightarrow> pattern_buffer \<Rightarrow> bool" where
  "orderly now b \<longleftrightarrow>
     sorted (map timestamp (pb_events b)) \<and> (\<forall>ev \<in> set (pb_events b). timestamp ev \<le> now)"

definition all_orderly :: "int \<Rightarrow> buffer_map \<Rightarrow> bool" where
  "all_orderly now bufs \<longleftrightarrow> (\<forall>key b. bm_get bufs key = Some b \<longrightarrow> orderly now b)"

definition tenant_ok :: "verified_anomaly_library \<Rightarrow> in_memory_dedup detector_state \<Rightarrow> bool" where
  "tenant_ok lib s \<longleftrightarrow> detector_inv lib s \<and> dd_inv (dedup s) \<and> all_orderly (current_time s) (buffers s)"

definition orc_inv :: "orchestrator \<Rightarrow> bool" where
  "orc_inv orc \<longleftrightarrow> (\<forall>tid s. bm_get (orc_tenants orc) tid = Some s \<longrightarrow> tenant_ok (orc_library orc) s)"

lemma orderly_live: "orderly now b \<Longrightarrow> orderly now (live_buffer p t b)"
proof -
  assume b: "orderly now b"
  have "orderly now (b\<lparr>pb_events := dropWhile P (pb_events b)\<rparr>)" for P
    using b sorted_wrt_dropWhile [of "(\<lambda>x y. timestamp x \<le> timestamp y)" "pb_events b" P]
    by (auto simp: orderly_def sorted_map dest: set_dropWhileD)
  with b show ?thesis by (auto simp: live_buffer_def evict_aged_events_eq Let_def split: option.split)
qed

lemma evict_bucket_orderly: "all_orderly now bufs \<Longrightarrow> all_orderly now (evict_bucket p key t bufs)"
  by (auto simp: all_orderly_def bm_get_evict_bucket orderly_live)

lemma evaluate_keys_orderly:
  "evaluate_keys ops idx keys fires s = (r, s') \<Longrightarrow> all_orderly now (buffers s) \<Longrightarrow> all_orderly now (buffers s')"
proof (induction keys arbitrary: fires s)
  case (Cons key keys)
  from Cons.prems(1) show ?case
    by (cases rule: evaluate_keys_ConsE)
      (use Cons.IH Cons.prems(2) in \<open>fastforce intro: evict_bucket_orderly\<close>)+
qed simp

lemma route_event_orderly:
  "all_orderly (timestamp ev) bufs \<Longrightarrow> all_orderly (timestamp ev) (route_event ev ps bufs)"
proof (induction ps arbitrary: bufs)
  case (Cons p ps)
  have "orderly (timestamp ev) (extended_bucket ev key bufs)" for key
  proof (cases "bm_get bufs key")
    case None
    then show ?thesis
      by (simp add: extended_bucket_def orderly_def pattern_buffer_new_def ring_trim_id MAX_EVENTS_PER_BUFFER_def)
  next
    case (Some b)
    with Cons.prems have "orderly (timestamp ev) b" by (auto simp: all_orderly_def)
    then have "sorted_wrt (\<lambda>x y. timestamp x \<le> timestamp y) (pb_events b @ [ev])"
      by (auto simp: orderly_def sorted_map sorted_wrt_append)
    then have "sorted_wrt (\<lambda>x y. timestamp x \<le> timestamp y) (ring_trim (pb_events b @ [ev]))"
      unfolding ring_trim_eq by (rule sorted_wrt_drop)
    moreover have "timestamp e \<le> timestamp ev" if "e \<in> set (ring_trim (pb_events b @ [ev]))" for e
      using that set_ring_trim [of "pb_events b @ [ev]"] \<open>orderly (timestamp ev) b\<close>
      by (auto simp: orderly_def)
    ultimately show ?thesis using Some by (simp add: extended_bucket_def orderly_def sorted_map)
  qed
  then have "all_orderly (timestamp ev) (route_pattern ev p bufs)"
    using Cons.prems by (simp add: all_orderly_def bm_get_route_pattern)
  with Cons.IH show ?case by simp
qed simp

lemma tenant_ok_advance: "tenant_ok lib s \<Longrightarrow> advance_clock s t = (r, s') \<Longrightarrow> tenant_ok lib s'"
  using advance_clock_inv [of lib s t r s']
  by (force simp: tenant_ok_def advance_clock_def all_orderly_def orderly_def split: if_splits)

lemma tenant_ok_drain: "tenant_ok lib s \<Longrightarrow> drain_detector tid s = (r, s') \<Longrightarrow> tenant_ok lib s'"
proof -
  assume ok: "tenant_ok lib s" and drain: "drain_detector tid s = (r, s')"
  then obtain r1 where ev: "evaluate_all dd_ops s = (r1, s')"
    by (auto simp: drain_detector_def split: prod.splits sum.splits)
  show "tenant_ok lib s'"
    using ok evaluate_all_inv [OF _ ev] evaluate_all_time [OF ev]
      dd.evaluate_keys_invar [OF ev [unfolded evaluate_all_def]]
      evaluate_keys_orderly [OF ev [unfolded evaluate_all_def]]
    by (simp add: tenant_ok_def)
qed

lemma tenant_ok_observe: "tenant_ok lib s \<Longrightarrow> observe_detector tid ev s = (r, s') \<Longrightarrow> tenant_ok lib s'"
proof -
  assume ok: "tenant_ok lib s" and obs: "observe_detector tid ev s = (r, s')"
  show "tenant_ok lib s'"
  proof (cases "timestamp ev < current_time s")
    case True
    with ok obs show ?thesis by (auto simp: observe_detector_def advance_clock_def)
  next
    case False
    define s1 where "s1 = s\<lparr>current_time := timestamp ev\<rparr>"
    have adv: "advance_clock s (timestamp ev) = (Inr (), s1)"
      using False by (simp add: advance_clock_def s1_def)
    obtain r2 s2 where ing: "ingest_event s1 ev = (r2, s2)" by fastforce
    have s1: "tenant_ok lib s1" "current_time s1 = timestamp ev"
      using tenant_ok_advance [OF ok adv] by (auto simp: s1_def)
    have "tenant_ok lib s2"
    proof (cases r2)
      case (Inl e)
      with ing s1 ingest_event_Inl show ?thesis by blast
    next
      case (Inr u)
      then have "buffers s2 = route_event ev (vl_patterns (pinned_library s1)) (buffers s1)"
        using ing by (simp add: ingest_event_Inr)
      with s1 ingest_event_inv [OF _ ing] ingest_event_frame [OF ing] show ?thesis
        by (simp add: tenant_ok_def route_event_orderly)
    qed
    with adv ing obs tenant_ok_drain show ?thesis
      by (auto simp: observe_detector_def split: sum.splits)
  qed
qed

lemma tenant_ok_new: "tenant_ok lib (detector_new lib t)"
  using with_ledger_inv [of lib t dedup_new]
  by (simp add: tenant_ok_def detector_new_def all_orderly_def with_ledger_def)

lemma orc_inv_tenant: "orc_inv orc \<Longrightarrow> tenant_ok (orc_library orc) (tenant_state orc tid)"
  by (auto simp: orc_inv_def tenant_state_def tenant_ok_new split: option.split)

lemma orc_inv_put: "orc_inv orc \<Longrightarrow> tenant_ok (orc_library orc) s \<Longrightarrow> orc_inv (put_tenant orc tid s)"
  by (simp add: orc_inv_def)

lemma orc_inv_step: "orc_inv orc \<Longrightarrow> orc_inv (snd (orc_step orc c))"
proof (cases c)
  case (Drain tid)
  assume inv: "orc_inv orc"
  show ?thesis
  proof (cases "bm_get (orc_tenants orc) tid")
    case (Some s)
    then have "tenant_ok (orc_library orc) s" using inv by (simp add: orc_inv_def)
    with inv Drain Some show ?thesis
      by (auto simp: drain_fires_for_def intro: orc_inv_put tenant_ok_drain split: prod.split)
  qed (use inv Drain in \<open>simp add: drain_fires_for_def\<close>)
next
  case (Rotate lib t)
  then show ?thesis by (simp add: rotate_library_def orc_inv_def)
qed (auto simp: observe_event_def advance_clock_for_def
    intro: orc_inv_put tenant_ok_observe tenant_ok_advance dest: orc_inv_tenant split: prod.split)

lemma orc_inv_exec: "orc_inv orc \<Longrightarrow> orc_inv (orc_exec orc cs)"
  by (induction cs arbitrary: orc) (simp_all add: orc_inv_step)

lemma orc_inv_new: "orc_inv (orchestrator_new lib t)"
  by (simp add: orc_inv_def orchestrator_new_def)

text \<open>Behind the orchestrator the sliding window is exact.  In every state reachable by any
  sequence of calls, each tenant's buckets are in time order and not ahead of its clock, so the
  front-only eviction of \<open>evaluate_all\<close> leaves precisely the events not older than the window.\<close>

theorem orchestrated_window_exact:
  assumes "bm_get (orc_tenants (orc_exec (orchestrator_new lib t0) cs)) tid = Some s"
    and "bm_get (buffers s) key = Some b" and "window_seconds p = Some w"
  shows "pb_events (live_buffer p now b) =
      filter (\<lambda>ev. sat_sub now (int w) \<le> timestamp ev) (pb_events b) \<and>
    sorted (map timestamp (pb_events b)) \<and> (\<forall>ev \<in> set (pb_events b). timestamp ev \<le> current_time s)"
proof -
  have "orc_inv (orc_exec (orchestrator_new lib t0) cs)" by (intro orc_inv_exec orc_inv_new)
  with assms(1,2) have ok: "orderly (current_time s) b"
    by (auto simp: orc_inv_def tenant_ok_def all_orderly_def)
  then have "sorted_wrt (\<lambda>x y. timestamp y < sat_sub now (int w) \<longrightarrow> timestamp x < sat_sub now (int w)) (pb_events b)"
    by (auto simp: orderly_def sorted_map elim!: sorted_wrt_mono_rel [rotated])
  from dropWhile_eq_filter [OF this] ok assms(3) show ?thesis
    by (simp add: live_buffer_def evict_aged_events_eq Let_def orderly_def not_less)
qed

lemma sample_orc_exec:
  "orc_exec (orchestrator_new sample_library 100) [Observe ''t'' (sample_event ''m'' 100)] =
     put_tenant (orchestrator_new sample_library 100) ''t'' sample_fired"
proof -
  have fresh: "tenant_state (orchestrator_new sample_library 100) ''t'' = sample_state dedup_new"
    by (simp add: tenant_state_def orchestrator_new_def detector_new_def sample_state_def)
  have adv: "advance_clock (sample_state dedup_new) (timestamp (sample_event ''m'' 100)) = (Inr (), sample_state dedup_new)"
    by (simp add: advance_clock_def sample_state_def with_ledger_def sample_event_def)
  show ?thesis
    by (simp add: observe_event_def observe_detector_def drain_detector_def fresh adv sample_ingest sample_evaluate)
qed

lemma orchestrated_window_exact_witness:
  "pb_events (live_buffer sample_pattern 120 (snd (sample_bucket ''m'' 100))) =
     filter (\<lambda>ev. sat_sub 120 (int 60) \<le> timestamp ev) (pb_events (snd (sample_bucket ''m'' 100)))"
proof -
  have "bm_get (orc_tenants (orc_exec (orchestrator_new sample_library 100)
      [Observe ''t'' (sample_event ''m'' 100)])) ''t'' = Some sample_fired"
    unfolding sample_orc_exec by simp
  moreover have "bm_get (buffers sample_fired) (sample_key ''m'') = Some (snd (sample_bucket ''m'' 100))"
    by (simp add: sample_fired_def sample_get)
  moreover have "window_seconds sample_pattern = Some 60" by (simp add: sample_pattern_def)
  ultimately show ?thesis by (rule orchestrated_window_exact [THEN conjunct1])
qed

end
