(* ===== verification/Invariants.thy ===== *)
theory Invariants
  imports Errors Patterns
begin

text \<open>
  \<open>ephemeral-anomaly/src/invariants.rs\<close>: the four pattern-table checks of Stage 7, and the
  coherence condition they are shown to decide.
\<close>

section \<open>The checks\<close>

definition ANTI_WALK_UNDER_WINDOW_SECONDS :: nat where
  "ANTI_WALK_UNDER_WINDOW_SECONDS = 3600"

definition ANTI_WALK_UNDER_COMPANION_MULTIPLIER :: nat where
  "ANTI_WALK_UNDER_COMPANION_MULTIPLIER = 10"

fun check_pattern_id_uniqueness :: "pattern_entry list \<Rightarrow> anomaly_lib_error + unit" where
  "check_pattern_id_uniqueness [] = Inr ()"
| "check_pattern_id_uniqueness (p # qs) =
     (if list_ex (\<lambda>q. pattern_id p = pattern_id q) qs
      then Inl (PatternIdDuplicate (sanitize_log_string (pattern_id p)))
      else check_pattern_id_uniqueness qs)"

fun check_severity_action_consistency :: "pattern_entry list \<Rightarrow> anomaly_lib_error + unit" where
  "check_severity_action_consistency [] = Inr ()"
| "check_severity_action_consistency (p # ps) =
     (if requires_auto_revoke (severity_of p) \<and> action_of p \<noteq> AutoRevoke
      then Inl (SeverityActionInconsistent (sanitize_log_string (pattern_id p))
                  (severity_str (severity_of p)) (action_str (action_of p)))
      else check_severity_action_consistency ps)"

definition check_verb_predicate_family :: "string \<Rightarrow> verb_predicate \<Rightarrow> anomaly_lib_error + unit" where
  "check_verb_predicate_family pid verb =
     (case verb of
        Family name \<Rightarrow>
          if lookup_family name = None
          then Inl (UnknownVerbFamily (sanitize_log_string pid) (sanitize_log_string name))
          else Inr ()
      | Exact _ \<Rightarrow> Inr ()
      | AnyDestructive \<Rightarrow> Inr ())"

definition check_scope_verb_families :: "string \<Rightarrow> scope_predicate \<Rightarrow> anomaly_lib_error + unit" where
  "check_scope_verb_families pid sc =
     (case sc of
        VerbResourceMandate verb _ _ \<Rightarrow> check_verb_predicate_family pid verb
      | VerbFanout verb _ \<Rightarrow> check_verb_predicate_family pid verb
      | IamAttachFamily verb_family _ \<Rightarrow>
          (case lookup_family verb_family of
             None \<Rightarrow> Inl (UnknownVerbFamily (sanitize_log_string pid) (sanitize_log_string verb_family))
           | Some _ \<Rightarrow> Inr ())
      | _ \<Rightarrow> Inr ())"

fun check_verb_families_known :: "pattern_entry list \<Rightarrow> anomaly_lib_error + unit" where
  "check_verb_families_known [] = Inr ()"
| "check_verb_families_known (p # ps) =
     (case check_scope_verb_families (pattern_id p) (scope p) of
        Inl e \<Rightarrow> Inl e
      | Inr _ \<Rightarrow> check_verb_families_known ps)"

definition classify_companion ::
  "string \<Rightarrow> nat \<Rightarrow> pattern_entry list \<Rightarrow> string \<Rightarrow> firing_companion_failure + unit" where
  "classify_companion name primary_window patterns primary_id =
     (if name = primary_id then Inl (CompanionNotFound (sanitize_log_string name))
      else
        (case List.find (\<lambda>p. pattern_id p = name) patterns of
           None \<Rightarrow> Inl (CompanionNotFound (sanitize_log_string name))
         | Some companion \<Rightarrow>
             if firing_rule_of companion \<noteq> CumulativeOverBaseline
             then Inl (CompanionNotCumulative (sanitize_log_string name))
             else
               (let required_minimum = sat_mul_u32 primary_window ANTI_WALK_UNDER_COMPANION_MULTIPLIER in
                case window_seconds companion of
                  Some cw \<Rightarrow>
                    if required_minimum \<le> cw then Inr ()
                    else Inl (CompanionWindowTooShort (sanitize_log_string name) cw required_minimum)
                | None \<Rightarrow> Inl (CompanionWindowTooShort (sanitize_log_string name) 0 required_minimum))))"

text \<open>The loop over the named companions: whether one is valid, and the first failure before it.\<close>

fun companion_scan ::
  "string list \<Rightarrow> nat \<Rightarrow> pattern_entry list \<Rightarrow> string \<Rightarrow> firing_companion_failure option \<Rightarrow>
   bool \<times> firing_companion_failure option" where
  "companion_scan [] w patterns pid first_failure = (False, first_failure)"
| "companion_scan (name # names) w patterns pid first_failure =
     (case classify_companion name w patterns pid of
        Inr _ \<Rightarrow> (True, first_failure)
      | Inl reason \<Rightarrow>
          companion_scan names w patterns pid
            (if first_failure = None then Some reason else first_failure))"

fun companions_loop :: "pattern_entry list \<Rightarrow> pattern_entry list \<Rightarrow> anomaly_lib_error + unit" where
  "companions_loop patterns [] = Inr ()"
| "companions_loop patterns (p # ps) =
     (case window_seconds p of
        None \<Rightarrow> companions_loop patterns ps
      | Some w \<Rightarrow>
          if firing_rule_of p \<noteq> FirstMatch then companions_loop patterns ps
          else if w > ANTI_WALK_UNDER_WINDOW_SECONDS then companions_loop patterns ps
          else if firing_rule_companions p = []
          then Inl (FiringRuleCompanionMissing (sanitize_log_string (pattern_id p)) w NoCompanionsDeclared)
          else
            (let (any_valid, first_failure) =
                   companion_scan (firing_rule_companions p) w patterns (pattern_id p) None
             in if \<not> any_valid
                then (case first_failure of
                        Some reason \<Rightarrow>
                          Inl (FiringRuleCompanionMissing (sanitize_log_string (pattern_id p)) w reason)
                      | None \<Rightarrow> Inl (Panicked ''companions were non-empty but no failure reason captured''))
                else companions_loop patterns ps))"

definition check_firing_rule_companions :: "pattern_entry list \<Rightarrow> anomaly_lib_error + unit" where
  "check_firing_rule_companions patterns = companions_loop patterns patterns"

text \<open>Stage 7 in the order \<open>signature.rs\<close> runs it.\<close>

definition stage7 :: "pattern_entry list \<Rightarrow> anomaly_lib_error + unit" where
  "stage7 patterns =
     (case check_pattern_id_uniqueness patterns of
        Inl e \<Rightarrow> Inl e
      | Inr _ \<Rightarrow>
     (case check_severity_action_consistency patterns of
        Inl e \<Rightarrow> Inl e
      | Inr _ \<Rightarrow>
     (case check_verb_families_known patterns of
        Inl e \<Rightarrow> Inl e
      | Inr _ \<Rightarrow> check_firing_rule_companions patterns)))"

section \<open>What they decide\<close>

definition families_of :: "scope_predicate \<Rightarrow> string set" where
  "families_of sc =
     (case sc of
        VerbResourceMandate (Family n) _ _ \<Rightarrow> {n}
      | VerbFanout (Family n) _ \<Rightarrow> {n}
      | IamAttachFamily n _ \<Rightarrow> {n}
      | _ \<Rightarrow> {})"

text \<open>A long-window cumulative pattern, other than itself, that a pattern names as companion.\<close>

definition backstop :: "pattern_entry list \<Rightarrow> pattern_entry \<Rightarrow> nat \<Rightarrow> pattern_entry \<Rightarrow> bool" where
  "backstop patterns p w c \<longleftrightarrow>
     c \<in> set patterns \<and> pattern_id c \<in> set (firing_rule_companions p) \<and> pattern_id c \<noteq> pattern_id p \<and>
     firing_rule_of c = CumulativeOverBaseline \<and>
     (\<exists>cw. window_seconds c = Some cw \<and> 10 * w \<le> cw)"

definition coherent :: "pattern_entry list \<Rightarrow> bool" where
  "coherent patterns \<longleftrightarrow>
     distinct (map pattern_id patterns) \<and>
     (\<forall>p \<in> set patterns. severity_of p = High \<or> severity_of p = Critical \<longrightarrow> action_of p = AutoRevoke) \<and>
     (\<forall>p \<in> set patterns. \<forall>n \<in> families_of (scope p). lookup_family n \<noteq> None) \<and>
     (\<forall>p \<in> set patterns. \<forall>w. firing_rule_of p = FirstMatch \<longrightarrow> window_seconds p = Some w \<longrightarrow> w \<le> 3600 \<longrightarrow>
        (\<exists>c. backstop patterns p w c))"

lemma uniqueness_iff: "check_pattern_id_uniqueness ps = Inr () \<longleftrightarrow> distinct (map pattern_id ps)"
  by (induction ps) (auto simp: list_ex_iff image_iff)

lemma severity_iff:
  "check_severity_action_consistency ps = Inr () \<longleftrightarrow>
     (\<forall>p \<in> set ps. severity_of p = High \<or> severity_of p = Critical \<longrightarrow> action_of p = AutoRevoke)"
  by (induction ps) (auto simp: requires_auto_revoke_def split: severity.splits)

lemma scope_families_iff:
  "check_scope_verb_families pid sc = Inr () \<longleftrightarrow> (\<forall>n \<in> families_of sc. lookup_family n \<noteq> None)"
  by (auto simp: check_scope_verb_families_def check_verb_predicate_family_def families_of_def
      split: scope_predicate.split verb_predicate.split option.split)

lemma families_iff:
  "check_verb_families_known ps = Inr () \<longleftrightarrow>
     (\<forall>p \<in> set ps. \<forall>n \<in> families_of (scope p). lookup_family n \<noteq> None)"
proof (induction ps)
  case (Cons p ps)
  then show ?case
    using scope_families_iff [of "pattern_id p" "scope p"]
    by (cases "check_scope_verb_families (pattern_id p) (scope p)") auto
qed simp

lemma classify_companion_iff:
  assumes "distinct (map pattern_id ps)" and "w \<le> 3600"
  shows "classify_companion name w ps pid = Inr () \<longleftrightarrow>
    name \<noteq> pid \<and> (\<exists>c \<in> set ps. pattern_id c = name \<and> firing_rule_of c = CumulativeOverBaseline \<and>
      (\<exists>cw. window_seconds c = Some cw \<and> 10 * w \<le> cw))"
proof (cases "List.find (\<lambda>p. pattern_id p = name) ps")
  case None
  then have "\<forall>c \<in> set ps. pattern_id c \<noteq> name" by (auto simp: find_None_iff)
  with None show ?thesis by (auto simp: classify_companion_def)
next
  case (Some c)
  then have c: "c \<in> set ps" "pattern_id c = name" by (auto simp: find_Some_iff)
  have unique: "c' = c" if "c' \<in> set ps" "pattern_id c' = name" for c'
    using assms(1) c that by (auto simp: distinct_map dest: inj_onD)
  have min: "sat_mul_u32 w ANTI_WALK_UNDER_COMPANION_MULTIPLIER = 10 * w"
    using assms(2) by (simp add: sat_mul_u32_def ANTI_WALK_UNDER_COMPANION_MULTIPLIER_def u32_max_def)
  have only: "(\<exists>c' \<in> set ps. pattern_id c' = name \<and> Q c') \<longleftrightarrow> Q c" for Q
    using c unique by blast
  have "classify_companion name w ps pid = Inr () \<longleftrightarrow> name \<noteq> pid \<and>
      firing_rule_of c = CumulativeOverBaseline \<and> (\<exists>cw. window_seconds c = Some cw \<and> 10 * w \<le> cw)"
    using Some by (simp add: classify_companion_def min Let_def split: option.split)
  then show ?thesis unfolding only .
qed

lemma companion_scan_valid:
  "fst (companion_scan names w ps pid ff) \<longleftrightarrow> (\<exists>n \<in> set names. classify_companion n w ps pid = Inr ())"
  by (induction names arbitrary: ff) (auto split: sum.split)

lemma companion_scan_failure:
  "companion_scan names w ps pid ff = (False, None) \<Longrightarrow> names = [] \<and> ff = None"
  by (induction names arbitrary: ff) (force split: sum.splits if_splits)+

lemma companions_loop_iff:
  assumes "distinct (map pattern_id ps)"
  shows "companions_loop ps qs = Inr () \<longleftrightarrow>
    (\<forall>p \<in> set qs. \<forall>w. firing_rule_of p = FirstMatch \<longrightarrow> window_seconds p = Some w \<longrightarrow> w \<le> 3600 \<longrightarrow>
       (\<exists>c. backstop ps p w c))"
proof (induction qs)
  case (Cons p qs)
  have scan: "fst (companion_scan (firing_rule_companions p) w ps (pattern_id p) None) \<longleftrightarrow> (\<exists>c. backstop ps p w c)"
    if "w \<le> 3600" for w
    unfolding companion_scan_valid backstop_def classify_companion_iff [OF assms that] by auto
  show ?case
  proof (cases "window_seconds p")
    case (Some w)
    obtain valid ff where vf: "companion_scan (firing_rule_companions p) w ps (pattern_id p) None = (valid, ff)"
      by fastforce
    have "companions_loop ps (p # qs) = Inr () \<longleftrightarrow>
        (firing_rule_of p = FirstMatch \<and> w \<le> 3600 \<longrightarrow> (\<exists>c. backstop ps p w c)) \<and> companions_loop ps qs = Inr ()"
    proof (cases "firing_rule_of p = FirstMatch \<and> w \<le> 3600")
      case True
      then have "valid \<longleftrightarrow> (\<exists>c. backstop ps p w c)" using scan [of w] vf by simp
      moreover have "firing_rule_companions p = [] \<Longrightarrow> \<not> backstop ps p w c" for c
        by (simp add: backstop_def)
      ultimately show ?thesis
        using Some vf True by (auto simp: ANTI_WALK_UNDER_WINDOW_SECONDS_def split: option.split)
    next
      case False
      with Some show ?thesis by (auto simp: ANTI_WALK_UNDER_WINDOW_SECONDS_def)
    qed
    with Some Cons.IH show ?thesis by auto
  qed (use Cons in simp)
qed simp

lemma companions_loop_no_panic: "companions_loop ps qs \<noteq> Inl (Panicked x)"
proof (induction qs)
  case (Cons p qs)
  then show ?case
    by (auto simp: Let_def split: option.splits prod.splits dest: companion_scan_failure)
qed simp

lemma earlier_no_panic:
  "check_pattern_id_uniqueness ps \<noteq> Inl (Panicked x)"
  "check_severity_action_consistency ps \<noteq> Inl (Panicked x)"
  "check_verb_families_known ps \<noteq> Inl (Panicked x)"
proof -
  show "check_pattern_id_uniqueness ps \<noteq> Inl (Panicked x)" by (induction ps) auto
  show "check_severity_action_consistency ps \<noteq> Inl (Panicked x)" by (induction ps) auto
  have "check_scope_verb_families pid sc \<noteq> Inl (Panicked x)" for pid sc
    by (auto simp: check_scope_verb_families_def check_verb_predicate_family_def
        split: scope_predicate.split verb_predicate.split option.split)
  then show "check_verb_families_known ps \<noteq> Inl (Panicked x)"
    by (induction ps) (auto split: sum.splits)
qed

lemma stage7_Inr:
  "stage7 ps = Inr () \<longleftrightarrow> check_pattern_id_uniqueness ps = Inr () \<and>
     check_severity_action_consistency ps = Inr () \<and> check_verb_families_known ps = Inr () \<and>
     check_firing_rule_companions ps = Inr ()"
  by (auto simp: stage7_def split: sum.split)

lemma stage7_iff: "stage7 ps = Inr () \<longleftrightarrow> coherent ps"
  unfolding stage7_Inr uniqueness_iff severity_iff families_iff coherent_def check_firing_rule_companions_def
  using companions_loop_iff [of ps ps] by blast

text \<open>C29: the four checks of Stage 7 accept a pattern table exactly when it is coherent: pattern ids
  pairwise distinct; high and critical severity only with auto-revoke; every verb family named by a
  scope known; and every first-match pattern with a window of at most an hour names a different
  pattern of the table that is cumulative-over-baseline and has at least ten times its window.
  The \<open>expect\<close> in the companion check never panics.  Nothing else is looked at: a sequence rule over a scope
  that has no sequence, an empty progression, a threshold or burst of zero and a rule with a threshold of the
  wrong shape all pass, although comments of \<open>evaluators.rs\<close> say that Stage 7 refuses them.\<close>

theorem stage7_decides_coherence:
  "(stage7 patterns = Inr () \<longleftrightarrow> coherent patterns) \<and> stage7 patterns \<noteq> Inl (Panicked msg)"
proof
  show "stage7 patterns = Inr () \<longleftrightarrow> coherent patterns" by (rule stage7_iff)
  show "stage7 patterns \<noteq> Inl (Panicked msg)"
    using earlier_no_panic [of patterns msg] companions_loop_no_panic [of patterns patterns msg]
    by (auto simp: stage7_def check_firing_rule_companions_def split: sum.splits)
qed

section \<open>What they do not look at\<close>

lemma coherent_map:
  assumes "\<And>p. pattern_id (f p) = pattern_id p" "\<And>p. severity_of (f p) = severity_of p" "\<And>p. action_of (f p) = action_of p"
    and "\<And>p. families_of (scope (f p)) = families_of (scope p)" "\<And>p. firing_rule_of (f p) = firing_rule_of p"
    and "\<And>p. window_seconds (f p) = window_seconds p" "\<And>p. firing_rule_companions (f p) = firing_rule_companions p"
  shows "coherent (map f ps) \<longleftrightarrow> coherent ps"
proof -
  have "(\<exists>c. backstop (map f ps) (f p) w c) \<longleftrightarrow> (\<exists>c. backstop ps p w c)" for p w
    by (auto simp: backstop_def assms)
  moreover have "pattern_id \<circ> f = pattern_id" by (simp add: fun_eq_iff assms)
  ultimately show ?thesis unfolding coherent_def by (simp add: assms)
qed

text \<open>No threshold changes whether a table passes.\<close>

lemma thresholds_ignored:
  "stage7 (map (\<lambda>p. p\<lparr>threshold_of := t p\<rparr>) ps) = Inr () \<longleftrightarrow> stage7 ps = Inr ()"
  unfolding stage7_iff by (rule coherent_map) simp_all

definition degenerate_pattern :: "string \<Rightarrow> scope_predicate \<Rightarrow> firing_rule \<Rightarrow> threshold \<Rightarrow> pattern_entry" where
  "degenerate_pattern name sc rule t =
     \<lparr>pattern_id = name, window_seconds = None, threshold_of = t, scope = sc, action_of = Alert, severity_of = Low,
      firing_rule_of = rule, firing_rule_companions = []\<rparr>"

lemma degenerate_tables_pass:
  "stage7
     [degenerate_pattern ''a'' (MandatePace 0 None) SequenceMatch (Sequence 1),
      degenerate_pattern ''b'' (CrossTierSequence ms []) SequenceMatch (Sequence 1),
      degenerate_pattern ''c'' (SilenceThenBurst 60 60 0) SequenceMatch (Sequence 1),
      degenerate_pattern ''d'' (MandatePace 0 None) FirstMatch (Count 0),
      degenerate_pattern ''e'' (MandatePace 0 None) FirstMatch (Sequence 1),
      degenerate_pattern ''f'' (MandatePace 0 None) CumulativeOverBaseline (Sequence 1)] = Inr ()"
  unfolding stage7_iff by (auto simp: coherent_def degenerate_pattern_def families_of_def)

end
