(* ===== verification/Ledger.thy ===== *)
theory Ledger
  imports Prelude
begin

text \<open>
  \<open>ephemeral-anomaly/src/ledger.rs\<close>: the replay-protection ledger.  The trait
  \<open>AnomalyLedger\<close> is its one method over a backend state; its documented contract is the
  locale \<open>anomaly_ledger\<close>, which the in-memory backend is shown to meet.
\<close>

datatype ledger_observation = FirstObservation | AdvancedFrom nat

datatype ledger_error = VersionNotStrictlyGreater string nat nat

fun ledger_error_text :: "ledger_error \<Rightarrow> string" where
  "ledger_error_text (VersionNotStrictlyGreater library_id current_hwm attempted) =
     ''library_version for `'' @ library_id @ ''` must be strictly greater than current HWM '' @ show_nat current_hwm @
     '', got '' @ show_nat attempted"

type_synonym 'l ledger_observe = "'l \<Rightarrow> string \<Rightarrow> nat \<Rightarrow> (ledger_error, ledger_observation, 'l) outcome_of"

locale anomaly_ledger =
  fixes observe :: "'l ledger_observe"
    and hwm :: "'l \<Rightarrow> string \<Rightarrow> nat option"
  assumes advance: "hwm l lib = None \<or> (\<exists>v. hwm l lib = Some v \<and> v < n) \<Longrightarrow>
      \<exists>obs l'. observe l lib n = (Inr obs, l') \<and>
        (\<forall>i. hwm l' i = (if i = lib then Some n else hwm l i))"
    and refuse: "hwm l lib = Some v \<Longrightarrow> n \<le> v \<Longrightarrow>
      observe l lib n = (Inl (VersionNotStrictlyGreater lib v n), l)"
begin

lemma accepted_iff:
  "(\<exists>obs l'. observe l lib n = (Inr obs, l')) \<longleftrightarrow> (\<forall>v. hwm l lib = Some v \<longrightarrow> v < n)"
proof (cases "hwm l lib")
  case None
  then show ?thesis using advance [of l lib n] by auto
next
  case (Some v)
  then show ?thesis using advance [of l lib n] refuse [of l lib v n] by (cases "v < n") auto
qed

lemma observe_hwm:
  assumes "observe l lib n = (r, l')"
  shows "hwm l' i = (if i = lib \<and> (\<forall>v. hwm l lib = Some v \<longrightarrow> v < n) then Some n else hwm l i)"
proof (cases "\<forall>v. hwm l lib = Some v \<longrightarrow> v < n")
  case True
  then have "hwm l lib = None \<or> (\<exists>v. hwm l lib = Some v \<and> v < n)" by (cases "hwm l lib") auto
  from advance [OF this] assms True show ?thesis by auto
next
  case False
  then obtain v where "hwm l lib = Some v" "n \<le> v" by (auto simp: not_less)
  from refuse [OF this] assms False show ?thesis by auto
qed

text \<open>Any sequence of observations: those accepted for one library strictly increase.\<close>

fun accepted :: "'l \<Rightarrow> (string \<times> nat) list \<Rightarrow> (string \<times> nat) list" where
  "accepted l [] = []"
| "accepted l ((lib, n) # os) =
     (case observe l lib n of
        (Inr _, l') \<Rightarrow> (lib, n) # accepted l' os
      | (Inl _, l') \<Rightarrow> accepted l' os)"

lemma accepted_above: "(lib, n) \<in> set (accepted l os) \<Longrightarrow> hwm l lib = Some v \<Longrightarrow> v < n"
proof (induction l os arbitrary: v rule: accepted.induct)
  case (2 l lib' n' os)
  obtain r l' where obs: "observe l lib' n' = (r, l')" by fastforce
  note hwm' = observe_hwm [OF obs, of lib]
  show ?case
  proof (cases "\<forall>v. hwm l lib' = Some v \<longrightarrow> v < n'")
    case True
    then obtain x where r: "r = Inr x" using accepted_iff [of l lib' n'] obs by auto
    show ?thesis
    proof (cases "(lib, n) = (lib', n')")
      case same: True
      with True 2(4) show ?thesis by simp
    next
      case False
      with 2(3) obs r have later: "(lib, n) \<in> set (accepted l' os)" by auto
      have "\<exists>w. hwm l' lib = Some w \<and> v \<le> w" using hwm' 2(4) True by (auto intro: less_imp_le)
      then obtain w where "hwm l' lib = Some w" "v \<le> w" by blast
      with 2(2) [OF obs [symmetric] r later] show ?thesis by force
    qed
  next
    case False
    then obtain x where r: "r = Inl x" using accepted_iff [of l lib' n'] obs by (cases r) auto
    with 2 obs hwm' False show ?thesis by auto
  qed
qed simp

lemma accepted_increasing:
  "sorted_wrt (\<lambda>(i, m) (j, n). i = j \<longrightarrow> m < n) (accepted l os)"
proof (induction l os rule: accepted.induct)
  case (2 l lib n os)
  obtain r l' where obs: "observe l lib n = (r, l')" by fastforce
  show ?case
  proof (cases r)
    case (Inl e)
    with 2 obs show ?thesis by simp
  next
    case (Inr x)
    then have "\<forall>v. hwm l lib = Some v \<longrightarrow> v < n" using accepted_iff [of l lib n] obs by blast
    then have "hwm l' lib = Some n" using observe_hwm [OF obs, of lib] by simp
    with 2 obs Inr accepted_above [of lib _ l' os n] show ?thesis by auto
  qed
qed simp

end

section \<open>The in-memory backend\<close>

type_synonym in_memory_anomaly_ledger = "string \<Rightarrow> nat option"

definition ledger_new :: in_memory_anomaly_ledger where
  "ledger_new = (\<lambda>_. None)"

definition ledger_observe :: "in_memory_anomaly_ledger ledger_observe" where
  "ledger_observe state library_id library_version =
     (case state library_id of
        Some hwm \<Rightarrow>
          if library_version > hwm
          then (Inr (AdvancedFrom hwm), state(library_id \<mapsto> library_version))
          else (Inl (VersionNotStrictlyGreater library_id hwm library_version), state)
      | None \<Rightarrow> (Inr FirstObservation, state(library_id \<mapsto> library_version)))"

interpretation ml: anomaly_ledger ledger_observe "\<lambda>l. l"
  by unfold_locales (auto simp: ledger_observe_def)

end
