(* ===== verification/Bytes.thy ===== *)
theory Bytes
  imports Prelude
begin

text \<open>
  Byte strings as the standard library handles them: the numeric value of a byte, UTF-8 validity
  (\<open>core::str::from_utf8\<close>), big-endian integers (\<open>to_be_bytes\<close>, \<open>from_be_bytes\<close>), and the
  \<open>?\<close> operator on results that the codecs thread their state through.
\<close>

section \<open>UTF-8 (core::str)\<close>

definition byte :: "char \<Rightarrow> nat" where
  "byte c = of_char c"

definition utf8_cont :: "char \<Rightarrow> bool" where
  "utf8_cont c \<longleftrightarrow> 128 \<le> byte c \<and> byte c \<le> 191"

text \<open>The second byte of a three- or four-byte form is narrowed to exclude overlong forms,
  surrogates and code points above U+10FFFF.\<close>

definition utf8_second :: "nat \<Rightarrow> char \<Rightarrow> bool" where
  "utf8_second lead c \<longleftrightarrow>
     (if lead = 224 then 160 else if lead = 240 then 144 else 128) \<le> byte c \<and>
     byte c \<le> (if lead = 237 then 159 else if lead = 244 then 143 else 191)"

fun utf8_valid :: "string \<Rightarrow> bool" where
  "utf8_valid [] = True"
| "utf8_valid (b # bs) =
     (if byte b < 128 then utf8_valid bs
      else if 194 \<le> byte b \<and> byte b \<le> 223 then
        (case bs of c1 # r \<Rightarrow> utf8_cont c1 \<and> utf8_valid r | _ \<Rightarrow> False)
      else if 224 \<le> byte b \<and> byte b \<le> 239 then
        (case bs of c1 # c2 # r \<Rightarrow> utf8_second (byte b) c1 \<and> utf8_cont c2 \<and> utf8_valid r | _ \<Rightarrow> False)
      else if 240 \<le> byte b \<and> byte b \<le> 244 then
        (case bs of c1 # c2 # c3 # r \<Rightarrow>
           utf8_second (byte b) c1 \<and> utf8_cont c2 \<and> utf8_cont c3 \<and> utf8_valid r | _ \<Rightarrow> False)
      else False)"

definition utf8_width :: "char \<Rightarrow> nat" where
  "utf8_width b = (if byte b < 128 then 1 else if byte b < 224 then 2 else if byte b < 240 then 3 else 4)"

text \<open>The push loop over \<open>s.chars()\<close> that keeps at most \<open>cap\<close> bytes of whole characters.\<close>

function trim_chars :: "nat \<Rightarrow> string \<Rightarrow> string \<Rightarrow> string" where
  "trim_chars cap acc s =
     (case s of
        [] \<Rightarrow> acc
      | b # _ \<Rightarrow>
          if length acc + utf8_width b > cap then acc
          else trim_chars cap (acc @ take (utf8_width b) s) (drop (utf8_width b) s))"
  by pat_completeness auto
termination
  by (relation "measure (\<lambda>(cap, acc, s). length s)") (auto simp: utf8_width_def)

declare trim_chars.simps [simp del]

lemma length_trim_chars: "length acc \<le> cap \<Longrightarrow> length (trim_chars cap acc s) \<le> cap"
proof (induction cap acc s rule: trim_chars.induct)
  case (1 cap acc s)
  then show ?case by (subst trim_chars.simps) (auto split: list.split)
qed

text \<open>\<open>is_ascii_digit\<close>.\<close>

definition is_digit :: "char \<Rightarrow> bool" where
  "is_digit c \<longleftrightarrow> 48 \<le> byte c \<and> byte c \<le> 57"

section \<open>Big-endian integers\<close>

fun be_bytes :: "nat \<Rightarrow> nat \<Rightarrow> string" where
  "be_bytes 0 n = []"
| "be_bytes (Suc k) n = char_of (n div 256 ^ k mod 256) # be_bytes k n"

definition be_val :: "string \<Rightarrow> nat" where
  "be_val bs = foldl (\<lambda>a c. a * 256 + byte c) 0 bs"

lemma byte_char_of [simp]: "byte (char_of n) = n mod 256"
  by (simp add: byte_def take_bit_eq_mod)

lemma char_of_byte [simp]: "char_of (byte c) = c"
  by (simp add: byte_def)

lemma byte_less [simp]: "byte c < 256"
  by (metis byte_char_of char_of_byte mod_less_divisor zero_less_numeral)

lemma char_less_iff: "(char_of m :: char) < char_of n \<longleftrightarrow> m mod 256 < n mod 256" for m n :: nat
  by (simp add: less_char_def)

lemma length_be_bytes [simp]: "length (be_bytes k n) = k"
  by (induction k) simp_all

lemma be_val_be_bytes_mod: "foldl (\<lambda>a c. a * 256 + byte c) a (be_bytes k n) = a * 256 ^ k + n mod 256 ^ k"
proof (induction k arbitrary: a)
  case 0
  then show ?case by simp
next
  case (Suc k)
  have "foldl (\<lambda>a c. a * 256 + byte c) a (be_bytes (Suc k) n) =
      (a * 256 + n div 256 ^ k mod 256) * 256 ^ k + n mod 256 ^ k" by (simp add: Suc)
  moreover have "n mod 256 ^ Suc k = n div 256 ^ k mod 256 * 256 ^ k + n mod 256 ^ k"
    using mod_mult2_eq [of n "256 ^ k" 256] by (simp add: mult.commute)
  then have "(a * 256 + n div 256 ^ k mod 256) * 256 ^ k + n mod 256 ^ k = a * 256 ^ Suc k + n mod 256 ^ Suc k"
    by (simp add: algebra_simps)
  ultimately show ?case by (simp only:)
qed

lemma be_val_be_bytes: "n < 256 ^ k \<Longrightarrow> be_val (be_bytes k n) = n"
  by (simp add: be_val_def be_val_be_bytes_mod)

lemma be_val_less: "be_val bs < 256 ^ length bs"
proof -
  have "foldl (\<lambda>a c. a * 256 + byte c) a bs < Suc a * 256 ^ length bs" for a
  proof (induction bs arbitrary: a)
    case (Cons c bs)
    have "a * 256 + byte c < Suc a * 256" unfolding mult_Suc using byte_less [of c] by linarith
    then have "Suc (a * 256 + byte c) \<le> Suc a * 256" by (rule Suc_leI)
    then have "Suc (a * 256 + byte c) * 256 ^ length bs \<le> Suc a * 256 * 256 ^ length bs" by (rule mult_le_mono1)
    with Cons [of "a * 256 + byte c"] have "foldl (\<lambda>a c. a * 256 + byte c) a (c # bs) < Suc a * 256 * 256 ^ length bs"
      unfolding foldl_Cons by (rule less_le_trans)
    then show ?case by (simp only: length_Cons power_Suc mult.assoc)
  qed simp
  from this [of 0] show ?thesis by (simp add: be_val_def)
qed

section \<open>The ? operator\<close>

definition res_bind :: "'e + 'a \<Rightarrow> ('a \<Rightarrow> 'e + 'b) \<Rightarrow> 'e + 'b" where
  "res_bind r f = (case r of Inl e \<Rightarrow> Inl e | Inr x \<Rightarrow> f x)"

lemma res_bind_simps [simp]: "res_bind (Inl e) f = Inl e" "res_bind (Inr x) f = f x"
  by (simp_all add: res_bind_def)

lemma res_bind_eq_Inr: "res_bind r f = Inr y \<longleftrightarrow> (\<exists>x. r = Inr x \<and> f x = Inr y)"
  by (cases r) simp_all

lemma res_bind_eq_Inl: "res_bind r f = Inl e \<longleftrightarrow> r = Inl e \<or> (\<exists>x. r = Inr x \<and> f x = Inl e)"
  by (cases r) simp_all

lemma res_bind_cong [fundef_cong]: "r = r' \<Longrightarrow> (\<And>x. r' = Inr x \<Longrightarrow> f x = g x) \<Longrightarrow> res_bind r f = res_bind r' g"
  by (cases r') simp_all

text \<open>An early return of an error, and a \<open>for\<close> loop whose body may return one.\<close>

definition fail_if :: "bool \<Rightarrow> 'e \<Rightarrow> 'e + unit" where
  "fail_if b e = (if b then Inl e else Inr ())"

fun check_each :: "('a \<Rightarrow> 'e + unit) \<Rightarrow> 'a list \<Rightarrow> 'e + unit" where
  "check_each f [] = Inr ()"
| "check_each f (x # xs) = res_bind (f x) (\<lambda>_. check_each f xs)"

lemma fail_if_simps [simp]:
  "fail_if b e = Inr () \<longleftrightarrow> \<not> b" "fail_if b e = Inl e' \<longleftrightarrow> b \<and> e = e'"
  "fail_if True e = Inl e" "fail_if False e = Inr ()"
  by (simp_all add: fail_if_def)

lemma res_bind_fail_if: "res_bind (fail_if b e) f = (if b then Inl e else f ())"
  by (simp add: fail_if_def)

lemma check_each_ok: "check_each f xs = Inr () \<longleftrightarrow> (\<forall>x \<in> set xs. f x = Inr ())"
  by (induction xs) (auto simp: res_bind_eq_Inr)

lemma check_each_find:
  "check_each f xs = (case List.find (\<lambda>x. f x \<noteq> Inr ()) xs of None \<Rightarrow> Inr () | Some x \<Rightarrow> f x)"
proof (induction xs)
  case (Cons a xs)
  then show ?case by (cases "f a") simp_all
qed simp

lemma check_each_cong [fundef_cong]:
  "xs = ys \<Longrightarrow> (\<And>x. x \<in> set ys \<Longrightarrow> f x = g x) \<Longrightarrow> check_each f xs = check_each g ys"
  by (induction ys arbitrary: xs) (auto cong: res_bind_cong)

text \<open>A loop whose body can only fail with one error is a test of all elements.\<close>

lemma check_each_fail_if: "check_each (\<lambda>x. fail_if (P x) e) xs = fail_if (list_ex P xs) e"
  by (induction xs) (auto simp: fail_if_def)

text \<open>A loop that pushes the results of a fallible function.\<close>

fun res_map :: "('a \<Rightarrow> 'e + 'b) \<Rightarrow> 'a list \<Rightarrow> 'e + 'b list" where
  "res_map f [] = Inr []"
| "res_map f (x # xs) = res_bind (f x) (\<lambda>y. res_bind (res_map f xs) (\<lambda>ys. Inr (y # ys)))"

lemma res_map_cong [fundef_cong]:
  "xs = ys \<Longrightarrow> (\<And>x. x \<in> set ys \<Longrightarrow> f x = g x) \<Longrightarrow> res_map f xs = res_map g ys"
  by (induction ys arbitrary: xs) (auto cong: res_bind_cong)

lemma res_map_Inr: "res_map f xs = Inr ys \<longleftrightarrow> list_all2 (\<lambda>x y. f x = Inr y) xs ys"
  by (induction xs arbitrary: ys) (auto simp: res_bind_eq_Inr list_all2_Cons1)

lemma res_map_if:
  "(\<And>x. x \<in> set xs \<Longrightarrow> f x = (if P x then Inr (g x) else Inl e)) \<Longrightarrow>
   res_map f xs = (if list_all P xs then Inr (map g xs) else Inl e)"
  by (induction xs) auto

text \<open>Checks that fire when a field is present, and the success of a guarded pipeline.\<close>

lemma opt_fail: "(case x of Some a \<Rightarrow> fail_if (P a) e | None \<Rightarrow> Inr ()) = fail_if (\<exists>a. x = Some a \<and> P a) e"
  by (cases x) simp_all

lemma opt2_fail:
  "(case (x, y) of (Some a, Some b) \<Rightarrow> fail_if (P a b) e | _ \<Rightarrow> Inr ()) =
   fail_if (\<exists>a b. x = Some a \<and> y = Some b \<and> P a b) e"
  by (cases x; cases y) simp_all

lemma if_Inl_Inr: "(if b then Inl e else r) = Inr x \<longleftrightarrow> \<not> b \<and> r = Inr x"
  by simp

lemma res_bind_unit: "res_bind r (\<lambda>_. s) = Inr y \<longleftrightarrow> r = Inr () \<and> s = Inr y" for r :: "'e + unit"
  by (cases r) simp_all

text \<open>\<open>Result::map_err\<close>, and \<open>ok_or\<close>.\<close>

definition map_err :: "('e \<Rightarrow> 'f) \<Rightarrow> 'e + 'a \<Rightarrow> 'f + 'a" where
  "map_err f r = (case r of Inl e \<Rightarrow> Inl (f e) | Inr x \<Rightarrow> Inr x)"

definition ok_or :: "'e \<Rightarrow> 'a option \<Rightarrow> 'e + 'a" where
  "ok_or e x = (case x of None \<Rightarrow> Inl e | Some a \<Rightarrow> Inr a)"

lemma ok_or_Inr [simp]: "ok_or e x = Inr a \<longleftrightarrow> x = Some a"
  by (simp add: ok_or_def split: option.split)

lemma map_err_Inr [simp]: "map_err f r = Inr a \<longleftrightarrow> r = Inr a"
  by (simp add: map_err_def split: sum.split)

end
