(* ===== verification/Crypto.thy ===== *)
theory Crypto
  imports Bytes
begin

text \<open>
  The crate \<open>ephemeral-crypto\<close>: the COSE\_Sign1 verification pipeline.  The libraries it
  calls are the fields of the record \<open>crypto_env\<close>: the \<open>ciborium\<close> and \<open>coset\<close> parsers, the
  \<open>Sig_structure_1\<close> bytes \<open>coset\<close> assembles, the point and signature decoders and the strict
  verification of \<open>ed25519_dalek\<close>, and \<open>hex::decode\<close>.
\<close>

section \<open>Error surface (error.rs)\<close>

datatype cose_error =
    MalformedHeader
  | UnsupportedAlg int
  | UnknownAlgString string
  | AlgMismatch int string
  | UnknownKid string
  | SignatureInvalid
  | PayloadTooLarge nat nat
  | CborDepthExceeded nat
  | CborParse
  | ChainDepthExceeded nat nat
  | ChainLinkageBroken nat string
  | WeakPublicKey
  | InvalidPublicKeyEncoding
  | HexDecode
  | DuplicateKid string
  | InvalidAnchorRole string

fun cose_error_text :: "cose_error \<Rightarrow> string" where
  "cose_error_text MalformedHeader = ''malformed COSE_Sign1 header''"
| "cose_error_text (UnsupportedAlg label) = ''unsupported alg label: '' @ show_int label"
| "cose_error_text (UnknownAlgString label) = ''unknown alg string: '' @ label"
| "cose_error_text (AlgMismatch label key_type) =
     ''alg/key-type mismatch: alg='' @ show_int label @ '', anchor_key_type='' @ key_type"
| "cose_error_text (UnknownKid kid) = ''unknown kid: '' @ kid"
| "cose_error_text SignatureInvalid = ''signature verification failed''"
| "cose_error_text (PayloadTooLarge observed cap) =
     ''payload exceeds size cap: '' @ show_nat observed @ '' > '' @ show_nat cap"
| "cose_error_text (CborDepthExceeded mx) = ''CBOR nesting too deep (> '' @ show_nat mx @ '')''"
| "cose_error_text CborParse = ''CBOR parse failure''"
| "cose_error_text (ChainDepthExceeded depth mx) =
     ''delegation chain depth '' @ show_nat depth @ '' exceeds max '' @ show_nat mx"
| "cose_error_text (ChainLinkageBroken index reason) =
     ''chain linkage broken at link '' @ show_nat index @ '': '' @ reason"
| "cose_error_text WeakPublicKey = ''weak public key rejected''"
| "cose_error_text InvalidPublicKeyEncoding = ''public key encoding invalid (expected 32 bytes, canonical point)''"
| "cose_error_text HexDecode = ''hex decode error''"
| "cose_error_text (DuplicateKid kid) = ''duplicate trust-anchor kid: '' @ kid"
| "cose_error_text (InvalidAnchorRole role) = ''invalid anchor role label: '' @ role"

section \<open>Algorithms (alg.rs)\<close>

datatype alg = Ed25519

definition COSE_ALG_EDDSA :: int where
  "COSE_ALG_EDDSA = - 8"

definition alg_from_cose_label :: "int \<Rightarrow> cose_error + alg" where
  "alg_from_cose_label label = (if label = COSE_ALG_EDDSA then Inr Ed25519 else Inl (UnsupportedAlg label))"

fun alg_as_cose_label :: "alg \<Rightarrow> int" where
  "alg_as_cose_label Ed25519 = COSE_ALG_EDDSA"

fun alg_as_wire_str :: "alg \<Rightarrow> string" where
  "alg_as_wire_str Ed25519 = ''ed25519''"

definition alg_from_wire_str :: "string \<Rightarrow> cose_error + alg" where
  "alg_from_wire_str s =
     (if s = ''ed25519'' \<or> s = ''Ed25519'' then Inr Ed25519
      else Inl (UnknownAlgString (trim_chars 64 [] s)))"

section \<open>Trust anchors (anchors.rs)\<close>

datatype anchor_role = TariffSigner | DelegationSigner | ClassifierSigner | AnomalyLibrarySigner

fun role_as_wire_str :: "anchor_role \<Rightarrow> string" where
  "role_as_wire_str TariffSigner = ''tariff-signer''"
| "role_as_wire_str DelegationSigner = ''delegation-signer''"
| "role_as_wire_str ClassifierSigner = ''classifier-signer''"
| "role_as_wire_str AnomalyLibrarySigner = ''anomaly-library-signer''"

definition ascii_lower :: "char \<Rightarrow> char" where
  "ascii_lower c = (if 65 \<le> byte c \<and> byte c \<le> 90 then char_of (byte c + 32) else c)"

definition eq_ignore_ascii_case :: "string \<Rightarrow> string \<Rightarrow> bool" where
  "eq_ignore_ascii_case s t \<longleftrightarrow> map ascii_lower s = map ascii_lower t"

definition role_from_wire_str :: "string \<Rightarrow> cose_error + anchor_role" where
  "role_from_wire_str s =
     (if eq_ignore_ascii_case s ''tariff-signer'' then Inr TariffSigner
      else if eq_ignore_ascii_case s ''delegation-signer'' then Inr DelegationSigner
      else if eq_ignore_ascii_case s ''classifier-signer'' then Inr ClassifierSigner
      else if eq_ignore_ascii_case s ''anomaly-library-signer'' then Inr AnomalyLibrarySigner
      else Inl (InvalidAnchorRole (trim_chars 64 [] s)))"

record 'pk trust_anchor =
  ta_kid :: string
  ta_alg :: alg
  ta_pk :: 'pk
  ta_role :: anchor_role

type_synonym 'pk trust_anchor_set = "'pk trust_anchor list"

definition anchor_set_insert ::
  "'pk trust_anchor_set \<Rightarrow> 'pk trust_anchor \<Rightarrow> (cose_error, unit, 'pk trust_anchor_set) outcome_of" where
  "anchor_set_insert anchors anchor =
     (if list_ex (\<lambda>a. ta_kid a = ta_kid anchor) anchors then (Inl (DuplicateKid (ta_kid anchor)), anchors)
      else (Inr (), anchors @ [anchor]))"

definition lookup_with_role ::
  "'pk trust_anchor_set \<Rightarrow> string \<Rightarrow> anchor_role \<Rightarrow> 'pk trust_anchor option" where
  "lookup_with_role anchors kid role = List.find (\<lambda>a. ta_kid a = kid \<and> ta_role a = role) anchors"

section \<open>The libraries the pipeline calls\<close>

text \<open>\<open>ciborium::value::Value\<close>; a float is its 64-bit pattern.\<close>

datatype cbor_value =
    CInteger int
  | CBytes string
  | CFloat nat
  | CText string
  | CBool bool
  | CNull
  | CTag nat cbor_value
  | CArray "cbor_value list"
  | CMap "(cbor_value \<times> cbor_value) list"

datatype registered_label = PrivateUse int | Assigned int | TextLabel string

text \<open>The fields of \<open>coset::CoseSign1\<close> the crate reads.\<close>

record cose_sign1 =
  hdr_protected_raw :: string
  hdr_alg :: "registered_label option"
  hdr_key_id :: string
  sign1_payload :: "string option"
  sign1_signature :: string

record ('pk, 'sig) crypto_env =
  ciborium_parse :: "string \<Rightarrow> cbor_value option"
  coset_parse :: "string \<Rightarrow> cose_sign1 option"
  coset_tbs :: "cose_sign1 \<Rightarrow> string \<Rightarrow> string"
  ed_signature :: "string \<Rightarrow> 'sig option"
  ed_verify_strict :: "'pk \<Rightarrow> string \<Rightarrow> 'sig \<Rightarrow> bool"
  ed_point :: "string \<Rightarrow> 'pk option"
  ed_is_weak :: "'pk \<Rightarrow> bool"
  hex_decode :: "string \<Rightarrow> string option"

definition new_ed25519 ::
  "('pk, 'sig) crypto_env \<Rightarrow> string \<Rightarrow> string \<Rightarrow> anchor_role \<Rightarrow> cose_error + 'pk trust_anchor" where
  "new_ed25519 env kid pk_bytes role =
     (if length pk_bytes \<noteq> 32 then Inl InvalidPublicKeyEncoding
      else
        (case ed_point env pk_bytes of
           None \<Rightarrow> Inl InvalidPublicKeyEncoding
         | Some pk \<Rightarrow>
             if ed_is_weak env pk then Inl WeakPublicKey
             else Inr \<lparr>ta_kid = kid, ta_alg = Ed25519, ta_pk = pk, ta_role = role\<rparr>))"

definition anchor_from_hex ::
  "('pk, 'sig) crypto_env \<Rightarrow> string \<Rightarrow> alg \<Rightarrow> string \<Rightarrow> anchor_role \<Rightarrow> cose_error + 'pk trust_anchor" where
  "anchor_from_hex env kid alg pk_hex role =
     (case hex_decode env pk_hex of
        None \<Rightarrow> Inl HexDecode
      | Some bytes \<Rightarrow> (case alg of Ed25519 \<Rightarrow> new_ed25519 env kid bytes role))"

section \<open>Size and depth guard (size\_guard.rs)\<close>

definition MAX_COSE_BYTES :: nat where "MAX_COSE_BYTES = 65536"

definition MAX_CBOR_DEPTH :: nat where "MAX_CBOR_DEPTH = 16"

text \<open>\<open>iter.max().unwrap_or(d)\<close>.\<close>

definition max_or :: "nat \<Rightarrow> nat list \<Rightarrow> nat" where
  "max_or d xs = (case xs of [] \<Rightarrow> d | x # xs \<Rightarrow> fold max xs x)"

fun cbor_depth :: "cbor_value \<Rightarrow> nat \<Rightarrow> nat" where
  "cbor_depth (CArray items) current = max_or current (map (\<lambda>i. cbor_depth i (current + 1)) items)"
| "cbor_depth (CMap pairs) current =
     max_or current
       (concat (map (\<lambda>kv. [cbor_depth (fst kv) (current + 1), cbor_depth (snd kv) (current + 1)]) pairs))"
| "cbor_depth (CTag _ inner) current = cbor_depth inner (current + 1)"
| "cbor_depth (CInteger _) current = current"
| "cbor_depth (CBytes _) current = current"
| "cbor_depth (CFloat _) current = current"
| "cbor_depth (CText _) current = current"
| "cbor_depth (CBool _) current = current"
| "cbor_depth CNull current = current"

definition size_depth_check_with_cap ::
  "('pk, 'sig) crypto_env \<Rightarrow> string \<Rightarrow> nat \<Rightarrow> cose_error + unit" where
  "size_depth_check_with_cap env bytes max_bytes =
     (if length bytes > max_bytes then Inl (PayloadTooLarge (length bytes) max_bytes)
      else
        (case ciborium_parse env bytes of
           None \<Rightarrow> Inl CborParse
         | Some value \<Rightarrow>
             if cbor_depth value 1 > MAX_CBOR_DEPTH then Inl (CborDepthExceeded MAX_CBOR_DEPTH)
             else Inr ()))"

definition size_depth_check :: "('pk, 'sig) crypto_env \<Rightarrow> string \<Rightarrow> cose_error + unit" where
  "size_depth_check env bytes = size_depth_check_with_cap env bytes MAX_COSE_BYTES"

section \<open>Header extraction (cose.rs)\<close>

definition parse_cose_sign1 :: "('pk, 'sig) crypto_env \<Rightarrow> string \<Rightarrow> cose_error + cose_sign1" where
  "parse_cose_sign1 env bytes =
     (case coset_parse env bytes of None \<Rightarrow> Inl MalformedHeader | Some s \<Rightarrow> Inr s)"

definition extract_alg_label :: "cose_sign1 \<Rightarrow> cose_error + int" where
  "extract_alg_label sign1 =
     (case hdr_alg sign1 of
        Some (PrivateUse n) \<Rightarrow> Inr n
      | Some (Assigned a) \<Rightarrow> Inr a
      | Some (TextLabel _) \<Rightarrow> Inl MalformedHeader
      | None \<Rightarrow> Inl MalformedHeader)"

definition extract_kid :: "cose_sign1 \<Rightarrow> cose_error + string" where
  "extract_kid sign1 =
     (let kid_bytes = hdr_key_id sign1 in
      if kid_bytes = [] then Inl MalformedHeader
      else if utf8_valid kid_bytes then Inr kid_bytes else Inl MalformedHeader)"

section \<open>The pipeline (verify.rs, chain.rs)\<close>

record verified_payload =
  vp_kid :: string
  vp_alg :: alg
  vp_payload :: string

definition verify_cose_sign1_with_cap ::
  "('pk, 'sig) crypto_env \<Rightarrow> string \<Rightarrow> 'pk trust_anchor_set \<Rightarrow> string \<Rightarrow> anchor_role \<Rightarrow> nat \<Rightarrow>
   cose_error + verified_payload" where
  "verify_cose_sign1_with_cap env cose_bytes anchors aad expected_role max_bytes =
     (case size_depth_check_with_cap env cose_bytes max_bytes of
        Inl e \<Rightarrow> Inl e
      | Inr _ \<Rightarrow>
     (case parse_cose_sign1 env cose_bytes of
        Inl e \<Rightarrow> Inl e
      | Inr sign1 \<Rightarrow>
     (case extract_alg_label sign1 of
        Inl e \<Rightarrow> Inl e
      | Inr alg_label \<Rightarrow>
     (case alg_from_cose_label alg_label of
        Inl e \<Rightarrow> Inl e
      | Inr alg \<Rightarrow>
     (case extract_kid sign1 of
        Inl e \<Rightarrow> Inl e
      | Inr kid \<Rightarrow>
     (case lookup_with_role anchors kid expected_role of
        None \<Rightarrow> Inl (UnknownKid kid)
      | Some anchor \<Rightarrow>
          if ta_alg anchor \<noteq> alg
          then Inl (AlgMismatch (alg_as_cose_label alg) (alg_as_wire_str (ta_alg anchor)))
          else
            (case sign1_payload sign1 of
               None \<Rightarrow> Inl MalformedHeader
             | Some payload \<Rightarrow>
                 (case ed_signature env (sign1_signature sign1) of
                    None \<Rightarrow> Inl SignatureInvalid
                  | Some sig \<Rightarrow>
                      if ed_verify_strict env (ta_pk anchor) (coset_tbs env sign1 aad) sig
                      then Inr \<lparr>vp_kid = kid, vp_alg = alg, vp_payload = payload\<rparr>
                      else Inl SignatureInvalid))))))))"

definition verify_cose_sign1 ::
  "('pk, 'sig) crypto_env \<Rightarrow> string \<Rightarrow> 'pk trust_anchor_set \<Rightarrow> string \<Rightarrow> anchor_role \<Rightarrow>
   cose_error + verified_payload" where
  "verify_cose_sign1 env cose_bytes anchors aad expected_role =
     verify_cose_sign1_with_cap env cose_bytes anchors aad expected_role MAX_COSE_BYTES"

definition MAX_CHAIN_DEPTH :: nat where "MAX_CHAIN_DEPTH = 3"

definition verify_chain_link ::
  "('pk, 'sig) crypto_env \<Rightarrow> string \<Rightarrow> 'pk trust_anchor \<Rightarrow> string \<Rightarrow> anchor_role \<Rightarrow>
   cose_error + verified_payload" where
  "verify_chain_link env cose_bytes parent_anchor aad expected_role =
     (case anchor_set_insert [] parent_anchor of
        (Inl e, _) \<Rightarrow> Inl e
      | (Inr _, anchors) \<Rightarrow> verify_cose_sign1 env cose_bytes anchors aad expected_role)"

section \<open>The anchor set\<close>

text \<open>A set as the API builds it: insertions into the empty set, refused ones included.\<close>

fun insert_all :: "'pk trust_anchor list \<Rightarrow> 'pk trust_anchor_set \<Rightarrow> 'pk trust_anchor_set" where
  "insert_all [] anchors = anchors"
| "insert_all (a # as) anchors = insert_all as (snd (anchor_set_insert anchors a))"

lemma insert_distinct_kids:
  "distinct (map ta_kid anchors) \<Longrightarrow> distinct (map ta_kid (snd (anchor_set_insert anchors a)))"
  by (auto simp: anchor_set_insert_def list_ex_iff)

lemma insert_all_distinct: "distinct (map ta_kid anchors) \<Longrightarrow> distinct (map ta_kid (insert_all as anchors))"
  by (induction as arbitrary: anchors) (simp_all add: insert_distinct_kids)

lemma lookup_SomeD:
  "lookup_with_role anchors kid role = Some a \<Longrightarrow> a \<in> set anchors \<and> ta_kid a = kid \<and> ta_role a = role"
  by (auto simp: lookup_with_role_def find_Some_iff)

lemma lookup_unique:
  assumes "distinct (map ta_kid anchors)"
  shows "lookup_with_role anchors kid role = Some a \<longleftrightarrow> a \<in> set anchors \<and> ta_kid a = kid \<and> ta_role a = role"
proof
  assume a: "a \<in> set anchors \<and> ta_kid a = kid \<and> ta_role a = role"
  then obtain b where b: "lookup_with_role anchors kid role = Some b"
    by (cases "lookup_with_role anchors kid role") (auto simp: lookup_with_role_def find_None_iff)
  with lookup_SomeD [OF b] a assms have "b = a" by (auto simp: distinct_map dest: inj_onD)
  with b show "lookup_with_role anchors kid role = Some a" by simp
qed (rule lookup_SomeD)

lemma lookup_filter:
  "lookup_with_role (filter (\<lambda>a. ta_role a = role) anchors) kid role = lookup_with_role anchors kid role"
  by (induction anchors) (auto simp: lookup_with_role_def)

lemma lookup_as_find:
  "distinct (map ta_kid anchors) \<Longrightarrow>
     lookup_with_role anchors kid role =
       (case List.find (\<lambda>a. ta_kid a = kid) anchors of
          Some a \<Rightarrow> if ta_role a = role then Some a else None
        | None \<Rightarrow> None)"
proof (induction anchors)
  case (Cons a anchors)
  show ?case
  proof (cases "ta_kid a = kid")
    case True
    with Cons.prems have "List.find (\<lambda>a. ta_kid a = kid) anchors = None"
      by (simp add: find_None_iff) (metis image_eqI)
    with Cons True show ?thesis by (simp add: lookup_with_role_def)
  next
    case False
    with Cons show ?thesis by (simp add: lookup_with_role_def)
  qed
qed (simp add: lookup_with_role_def)

text \<open>An anchor set built by \<open>insert\<close> has one anchor per key identifier, whatever is offered:
  the first anchor offered under a kid stays, later ones under the same kid (of any role) are
  refused, so the role-aware lookup finds the anchor of a kid exactly when its role is the one asked
  for, and nothing inserted later can shadow it.\<close>

theorem anchor_set_first_wins:
  "lookup_with_role (insert_all as []) kid role =
     (case List.find (\<lambda>a. ta_kid a = kid) as of
        Some a \<Rightarrow> if ta_role a = role then Some a else None
      | None \<Rightarrow> None)"
proof -
  have "lookup_with_role (insert_all as anchors) kid role =
      (case List.find (\<lambda>a. ta_kid a = kid) (anchors @ as) of
         Some a \<Rightarrow> if ta_role a = role then Some a else None
       | None \<Rightarrow> None)" if "distinct (map ta_kid anchors)" for anchors :: "'a trust_anchor list"
    using that
  proof (induction as arbitrary: anchors)
    case Nil
    then show ?case by (simp add: lookup_as_find)
  next
    case (Cons a as)
    have drop_dup: "list_ex (\<lambda>b. ta_kid b = ta_kid a) anchors \<Longrightarrow>
        List.find (\<lambda>a. ta_kid a = kid) (anchors @ a # as) = List.find (\<lambda>a. ta_kid a = kid) (anchors @ as)"
    proof (induction anchors)
      case (Cons x xs)
      show ?case
      proof (cases "ta_kid a = kid \<and> ta_kid x = ta_kid a")
        case False
        have "List.find (\<lambda>a. ta_kid a = kid) (xs @ a # as) = List.find (\<lambda>a. ta_kid a = kid) (xs @ as)"
          if "ta_kid a \<noteq> kid"
          using that by (induction xs) auto
        with False Cons show ?thesis by auto
      qed simp
    qed simp
    show ?case
      using Cons.IH [of "snd (anchor_set_insert anchors a)"] insert_distinct_kids [OF Cons.prems] drop_dup
      by (auto simp: anchor_set_insert_def)
  qed
  from this [of "[]"] show ?thesis by simp
qed

section \<open>The depth walker measures nesting\<close>

text \<open>\<open>node_at v n\<close>: the tree of \<open>v\<close> has a node \<open>n\<close> levels below its root.\<close>

inductive node_at :: "cbor_value \<Rightarrow> nat \<Rightarrow> bool" where
  root: "node_at v 0"
| item: "x \<in> set items \<Longrightarrow> node_at x n \<Longrightarrow> node_at (CArray items) (Suc n)"
| key: "kv \<in> set pairs \<Longrightarrow> node_at (fst kv) n \<Longrightarrow> node_at (CMap pairs) (Suc n)"
| val: "kv \<in> set pairs \<Longrightarrow> node_at (snd kv) n \<Longrightarrow> node_at (CMap pairs) (Suc n)"
| tagged: "node_at v n \<Longrightarrow> node_at (CTag t v) (Suc n)"

inductive_simps node_at_simps:
  "node_at (CArray items) n" "node_at (CMap pairs) n" "node_at (CTag t v) n" "node_at (CInteger i) n"
  "node_at (CBytes b) n" "node_at (CFloat f) n" "node_at (CText s) n" "node_at (CBool c) n" "node_at CNull n"

lemma fold_max_le: "fold max xs (x::nat) \<le> m \<longleftrightarrow> x \<le> m \<and> (\<forall>y \<in> set xs. y \<le> m)"
  by (induction xs arbitrary: x) auto

lemma max_or_le: "max_or d xs \<le> m \<longleftrightarrow> (if xs = [] then d \<le> m else \<forall>y \<in> set xs. y \<le> m)"
  by (cases xs) (auto simp: max_or_def fold_max_le)

lemma cbor_depth_le: "cbor_depth v c \<le> m \<longleftrightarrow> (\<forall>n. node_at v n \<longrightarrow> c + n \<le> m)"
proof (induction v c rule: cbor_depth.induct)
  case (1 items c)
  have step: "(\<forall>n. node_at (CArray items) n \<longrightarrow> c + n \<le> m) \<longleftrightarrow>
      c \<le> m \<and> (\<forall>i \<in> set items. \<forall>n. node_at i n \<longrightarrow> c + 1 + n \<le> m)"
    by (auto simp: node_at_simps) (metis add_Suc_right)
  show ?case
  proof (cases items)
    case (Cons i rest)
    have "(\<forall>i \<in> set items. \<forall>n. node_at i n \<longrightarrow> c + 1 + n \<le> m) \<Longrightarrow> c \<le> m"
      using Cons node_at.root [of i] by force
    with Cons 1 step show ?thesis by (auto simp: max_or_le)
  qed (simp add: max_or_le node_at_simps)
next
  case (2 pairs c)
  have step: "(\<forall>n. node_at (CMap pairs) n \<longrightarrow> c + n \<le> m) \<longleftrightarrow>
      c \<le> m \<and> (\<forall>kv \<in> set pairs. \<forall>n. (node_at (fst kv) n \<or> node_at (snd kv) n) \<longrightarrow> c + 1 + n \<le> m)"
    by (auto simp: node_at_simps) (metis add_Suc_right)+
  show ?case
  proof (cases pairs)
    case (Cons kv kvs)
    have "(\<forall>kv \<in> set pairs. \<forall>n. (node_at (fst kv) n \<or> node_at (snd kv) n) \<longrightarrow> c + 1 + n \<le> m) \<Longrightarrow> c \<le> m"
      using Cons node_at.root [of "fst kv"] by force
    moreover have "max_or c (concat (map (\<lambda>kv. [cbor_depth (fst kv) (c + 1), cbor_depth (snd kv) (c + 1)]) pairs)) \<le> m \<longleftrightarrow>
        (\<forall>kv \<in> set pairs. cbor_depth (fst kv) (c + 1) \<le> m \<and> cbor_depth (snd kv) (c + 1) \<le> m)"
      using Cons by (subst max_or_le) auto
    ultimately show ?thesis using 2 step by auto
  qed (simp add: max_or_le node_at_simps)
next
  case (3 t inner c)
  have "(\<forall>n. node_at inner n \<longrightarrow> c + 1 + n \<le> m) \<Longrightarrow> c \<le> m" using node_at.root [of inner] by force
  with 3 show ?case by (auto simp: node_at_simps)
qed (auto simp: node_at_simps)

text \<open>C37: the guard in front of the COSE parser accepts a byte string exactly when it is no longer
  than the cap, parses as CBOR, and no node of the decoded tree (array element, map key or value,
  or tag content) lies deeper than the sixteenth level, the root being the first.\<close>

theorem size_depth_guard_iff:
  "size_depth_check_with_cap env bytes cap = Inr () \<longleftrightarrow>
     length bytes \<le> cap \<and>
     (\<exists>v. ciborium_parse env bytes = Some v \<and> \<not> (\<exists>n. node_at v n \<and> 16 \<le> n))"
proof -
  have "(\<not> (\<exists>n. node_at v n \<and> 16 \<le> n)) \<longleftrightarrow> cbor_depth v 1 \<le> 16" for v
    unfolding cbor_depth_le by (auto simp: not_le)
  then show ?thesis
    by (auto simp: size_depth_check_with_cap_def MAX_CBOR_DEPTH_def not_less split: option.split)
qed

section \<open>What a verified envelope means\<close>

text \<open>Every check of the pipeline, as one condition on the anchor that vouches for the payload.\<close>

definition vouches ::
  "('pk, 'sig) crypto_env \<Rightarrow> cose_sign1 \<Rightarrow> string \<Rightarrow> anchor_role \<Rightarrow> 'pk trust_anchor \<Rightarrow> bool" where
  "vouches env sign1 aad role a \<longleftrightarrow>
     ta_kid a = hdr_key_id sign1 \<and> ta_role a = role \<and> ta_alg a = Ed25519 \<and>
     (\<exists>sig. ed_signature env (sign1_signature sign1) = Some sig \<and>
        ed_verify_strict env (ta_pk a) (coset_tbs env sign1 aad) sig)"

definition well_formed_sign1 :: "cose_sign1 \<Rightarrow> bool" where
  "well_formed_sign1 sign1 \<longleftrightarrow>
     (hdr_alg sign1 = Some (PrivateUse (- 8)) \<or> hdr_alg sign1 = Some (Assigned (- 8))) \<and>
     hdr_key_id sign1 \<noteq> [] \<and> utf8_valid (hdr_key_id sign1)"

lemma alg_gate:
  "(\<exists>n. extract_alg_label sign1 = Inr n \<and> alg_from_cose_label n = Inr alg) \<longleftrightarrow>
     hdr_alg sign1 = Some (PrivateUse (- 8)) \<or> hdr_alg sign1 = Some (Assigned (- 8))"
  by (cases alg)
    (auto simp: extract_alg_label_def alg_from_cose_label_def COSE_ALG_EDDSA_def
      split: option.split registered_label.split)

lemma verify_with_cap_iff:
  assumes "distinct (map ta_kid anchors)"
  shows "verify_cose_sign1_with_cap env bytes anchors aad role cap = Inr vp \<longleftrightarrow>
    size_depth_check_with_cap env bytes cap = Inr () \<and>
    (\<exists>sign1 a. coset_parse env bytes = Some sign1 \<and> well_formed_sign1 sign1 \<and> a \<in> set anchors \<and>
       vouches env sign1 aad role a \<and> sign1_payload sign1 = Some (vp_payload vp) \<and>
       vp_kid vp = ta_kid a \<and> vp_alg vp = Ed25519)"
  (is "?l \<longleftrightarrow> ?r")
proof
  assume ?l
  then obtain sign1 n alg kid a payload sig where steps:
    "size_depth_check_with_cap env bytes cap = Inr ()" "coset_parse env bytes = Some sign1"
    "extract_alg_label sign1 = Inr n" "alg_from_cose_label n = Inr alg" "extract_kid sign1 = Inr kid"
    "lookup_with_role anchors kid role = Some a" "ta_alg a = alg" "sign1_payload sign1 = Some payload"
    "ed_signature env (sign1_signature sign1) = Some sig"
    "ed_verify_strict env (ta_pk a) (coset_tbs env sign1 aad) sig"
    "vp = \<lparr>vp_kid = kid, vp_alg = alg, vp_payload = payload\<rparr>"
    by (auto simp: verify_cose_sign1_with_cap_def parse_cose_sign1_def split: sum.splits option.splits if_splits)
  then have "a \<in> set anchors" "ta_kid a = kid" "ta_role a = role" by (auto dest: lookup_SomeD)
  moreover have "kid = hdr_key_id sign1" "kid \<noteq> []" "utf8_valid kid"
    using steps(5) by (auto simp: extract_kid_def Let_def split: if_splits)
  moreover have "alg = Ed25519" by (cases alg) simp
  moreover have "hdr_alg sign1 = Some (PrivateUse (- 8)) \<or> hdr_alg sign1 = Some (Assigned (- 8))"
    using steps(3,4) alg_gate by blast
  ultimately show ?r
    using steps unfolding vouches_def well_formed_sign1_def by auto
next
  assume ?r
  then obtain sign1 a sig where steps: "size_depth_check_with_cap env bytes cap = Inr ()"
    "coset_parse env bytes = Some sign1" "well_formed_sign1 sign1" "a \<in> set anchors"
    "ta_kid a = hdr_key_id sign1" "ta_role a = role" "ta_alg a = Ed25519"
    "ed_signature env (sign1_signature sign1) = Some sig"
    "ed_verify_strict env (ta_pk a) (coset_tbs env sign1 aad) sig"
    "sign1_payload sign1 = Some (vp_payload vp)" "vp_kid vp = ta_kid a" "vp_alg vp = Ed25519"
    by (auto simp: vouches_def)
  obtain n where "extract_alg_label sign1 = Inr n" "alg_from_cose_label n = Inr Ed25519"
    using steps(3) alg_gate [of sign1 Ed25519] by (auto simp: well_formed_sign1_def)
  moreover have "extract_kid sign1 = Inr (hdr_key_id sign1)"
    using steps(3) by (simp add: extract_kid_def well_formed_sign1_def)
  moreover have "lookup_with_role anchors (hdr_key_id sign1) role = Some a"
    using lookup_unique [OF assms] steps(4,5,6) by simp
  ultimately show ?l
    using steps by (cases vp) (simp add: verify_cose_sign1_with_cap_def parse_cose_sign1_def)
qed

text \<open>C1: the verification pipeline is sound and complete.  It returns a payload exactly when the
  envelope passes the size and depth guard, parses, declares EdDSA (-8) and a non-empty UTF-8 key
  identifier in its protected header, and some anchor of the set carries that identifier, the
  requested role and a key under which the strict Ed25519 check accepts the signature over the
  envelope's \<open>Sig_structure_1\<close> with the caller's AAD; the payload is the envelope's own, the kid
  the anchor's.  The set is one built by \<open>insert\<close>.\<close>

theorem verify_sound_complete:
  "verify_cose_sign1_with_cap env bytes (insert_all as []) aad role cap = Inr vp \<longleftrightarrow>
    size_depth_check_with_cap env bytes cap = Inr () \<and>
    (\<exists>sign1 a. coset_parse env bytes = Some sign1 \<and> well_formed_sign1 sign1 \<and> a \<in> set (insert_all as []) \<and>
       vouches env sign1 aad role a \<and> sign1_payload sign1 = Some (vp_payload vp) \<and>
       vp_kid vp = ta_kid a \<and> vp_alg vp = Ed25519)"
  by (rule verify_with_cap_iff) (rule insert_all_distinct, simp)

text \<open>C2: roles do not leak and do not cross.  The answer of the pipeline, errors included, is the
  answer it would give if every anchor of another role were not in the set at all; so an envelope
  whose key identifier is registered under another role is indistinguishable from one whose key
  identifier is unknown.\<close>

theorem roles_indistinguishable:
  "verify_cose_sign1_with_cap env bytes anchors aad role cap =
   verify_cose_sign1_with_cap env bytes (filter (\<lambda>a. ta_role a = role) anchors) aad role cap"
  by (simp add: verify_cose_sign1_with_cap_def lookup_filter cong: sum.case_cong)

end
