(* ===== verification/Signature.thy ===== *)
theory Signature
  imports Invariants Ledger Crypto
begin

text \<open>
  \<open>ephemeral-anomaly/src/signature.rs\<close>: from a signed envelope to a verified library, in the
  eight stages the code runs.  The serde/ciborium decoding of the payload is the parameter
  \<open>decode\<close>.
\<close>

section \<open>The pipeline\<close>

definition ANOMALY_LIBRARY_AAD :: string where
  "ANOMALY_LIBRARY_AAD = ''ephemeral/anomaly-library/v1''"

definition MAX_ANOMALY_LIBRARY_BYTES :: nat where
  "MAX_ANOMALY_LIBRARY_BYTES = 131072"

definition MAX_INNER_KID_BYTES :: nat where "MAX_INNER_KID_BYTES = 256"

definition MAX_LIBRARY_ID_BYTES :: nat where "MAX_LIBRARY_ID_BYTES = 256"

type_synonym payload_decoder = "string \<Rightarrow> anomaly_library_payload option"

definition verify_internal ::
  "('pk, 'sig) crypto_env \<Rightarrow> payload_decoder \<Rightarrow> string \<Rightarrow> 'pk trust_anchor_set \<Rightarrow> nat \<Rightarrow> int \<Rightarrow>
   anomaly_lib_error + anomaly_library_payload \<times> string" where
  "verify_internal env decode bytes anchors expected_abi now =
     (case verify_cose_sign1_with_cap env bytes anchors ANOMALY_LIBRARY_AAD AnomalyLibrarySigner
             MAX_ANOMALY_LIBRARY_BYTES of
        Inl _ \<Rightarrow> Inl CoseVerifyFailed
      | Inr verified \<Rightarrow>
     (case decode (vp_payload verified) of
        None \<Rightarrow> Inl PayloadDecodeFailed
      | Some payload \<Rightarrow>
          if length (pl_signer_kid payload) > MAX_INNER_KID_BYTES then Inl PayloadDecodeFailed
          else if length (pl_library_id payload) > MAX_LIBRARY_ID_BYTES then Inl PayloadDecodeFailed
          else if pl_abi_version payload \<noteq> expected_abi
          then Inl (AbiVersionMismatch expected_abi (pl_abi_version payload))
          else if pl_signer_kid payload \<noteq> vp_kid verified
          then Inl (SignerKidMismatch (sanitize_log_string (vp_kid verified))
                      (sanitize_log_string (pl_signer_kid payload)))
          else if now < pl_issued_at payload then Inl (NotYetValid (pl_issued_at payload) now)
          else if now > pl_expires_at payload then Inl (Expired (pl_expires_at payload) now)
          else
            (case stage7 (pl_patterns payload) of
               Inl e \<Rightarrow> Inl e
             | Inr _ \<Rightarrow> Inr (payload, vp_kid verified))))"

definition build_verified :: "anomaly_library_payload \<Rightarrow> string \<Rightarrow> verified_anomaly_library" where
  "build_verified payload raw_outer_kid =
     \<lparr>vl_signer_kid = sanitize_log_string raw_outer_kid,
      vl_abi_version = pl_abi_version payload,
      vl_library_id = sanitize_log_string (pl_library_id payload),
      vl_library_version = pl_library_version payload,
      vl_issued_at = pl_issued_at payload,
      vl_expires_at = pl_expires_at payload,
      vl_patterns = pl_patterns payload\<rparr>"

definition verify_anomaly_library_signature ::
  "('pk, 'sig) crypto_env \<Rightarrow> payload_decoder \<Rightarrow> string \<Rightarrow> 'pk trust_anchor_set \<Rightarrow> nat \<Rightarrow> int \<Rightarrow>
   anomaly_lib_error + verified_anomaly_library" where
  "verify_anomaly_library_signature env decode bytes anchors expected_abi now =
     (case verify_internal env decode bytes anchors expected_abi now of
        Inl e \<Rightarrow> Inl e
      | Inr (payload, raw_outer_kid) \<Rightarrow> Inr (build_verified payload raw_outer_kid))"

fun lib_error_of_ledger :: "ledger_error \<Rightarrow> anomaly_lib_error" where
  "lib_error_of_ledger (VersionNotStrictlyGreater library_id current_hwm attempted) =
     LibraryVersionTooOld (sanitize_log_string library_id) current_hwm attempted"

definition verify_anomaly_library_signature_with_ledger ::
  "('pk, 'sig) crypto_env \<Rightarrow> payload_decoder \<Rightarrow> 'l ledger_observe \<Rightarrow> string \<Rightarrow> 'pk trust_anchor_set \<Rightarrow>
   nat \<Rightarrow> int \<Rightarrow> 'l \<Rightarrow> (anomaly_lib_error, verified_anomaly_library, 'l) outcome_of" where
  "verify_anomaly_library_signature_with_ledger env decode observe bytes anchors expected_abi now ledger =
     (case verify_internal env decode bytes anchors expected_abi now of
        Inl e \<Rightarrow> (Inl e, ledger)
      | Inr (payload, raw_outer_kid) \<Rightarrow>
          (case observe ledger (pl_library_id payload) (pl_library_version payload) of
             (Inl e, ledger) \<Rightarrow> (Inl (lib_error_of_ledger e), ledger)
           | (Inr _, ledger) \<Rightarrow> (Inr (build_verified payload raw_outer_kid), ledger)))"

section \<open>What acceptance means\<close>

definition acceptable :: "anomaly_library_payload \<Rightarrow> string \<Rightarrow> nat \<Rightarrow> int \<Rightarrow> bool" where
  "acceptable payload kid expected_abi now \<longleftrightarrow>
     length (pl_signer_kid payload) \<le> 256 \<and> length (pl_library_id payload) \<le> 256 \<and>
     pl_abi_version payload = expected_abi \<and> pl_signer_kid payload = kid \<and>
     pl_issued_at payload \<le> now \<and> now \<le> pl_expires_at payload \<and> coherent (pl_patterns payload)"

lemma verify_internal_iff:
  "verify_internal env decode bytes anchors abi now = Inr (payload, kid) \<longleftrightarrow>
     (\<exists>vp. verify_cose_sign1_with_cap env bytes anchors ANOMALY_LIBRARY_AAD AnomalyLibrarySigner
             MAX_ANOMALY_LIBRARY_BYTES = Inr vp \<and> decode (vp_payload vp) = Some payload \<and>
           kid = vp_kid vp \<and> acceptable payload kid abi now)"
  unfolding acceptable_def stage7_iff [symmetric]
  by (auto simp: verify_internal_def MAX_INNER_KID_BYTES_def MAX_LIBRARY_ID_BYTES_def
      split: sum.splits option.splits if_splits)

lemma sanitize_untruncated: "length s \<le> 256 \<Longrightarrow> length (sanitize_log_string s) = length s"
  by (simp add: length_sanitize MAX_LOG_STRING_BYTES_def)

text \<open>C28: the stateless verifier returns a library exactly when the envelope verifies under the
  anomaly-library AAD, role and 128 KiB cap, its payload decodes, both identifiers are at most 256
  bytes, the ABI version is the expected one, the inner signer is the authenticated outer kid, the
  clock lies in the closed validity window, and the pattern table is coherent.  The library is the
  payload, with both identifiers sanitised but never truncated.  In particular an inverted validity
  window is never accepted.\<close>

theorem verified_library_iff:
  "verify_anomaly_library_signature env decode bytes anchors abi now = Inr v \<longleftrightarrow>
     (\<exists>vp payload.
        verify_cose_sign1_with_cap env bytes anchors ''ephemeral/anomaly-library/v1'' AnomalyLibrarySigner
          131072 = Inr vp \<and> decode (vp_payload vp) = Some payload \<and>
        acceptable payload (vp_kid vp) abi now \<and> v = build_verified payload (vp_kid vp) \<and>
        length (vl_signer_kid v) = length (vp_kid vp) \<and>
        length (vl_library_id v) = length (pl_library_id payload))"
proof -
  have "verify_anomaly_library_signature env decode bytes anchors abi now = Inr v \<longleftrightarrow>
      (\<exists>payload kid. verify_internal env decode bytes anchors abi now = Inr (payload, kid) \<and>
        v = build_verified payload kid)"
    by (auto simp: verify_anomaly_library_signature_def split: sum.splits prod.splits)
  also have "\<dots> \<longleftrightarrow> (\<exists>vp payload.
        verify_cose_sign1_with_cap env bytes anchors ''ephemeral/anomaly-library/v1'' AnomalyLibrarySigner
          131072 = Inr vp \<and> decode (vp_payload vp) = Some payload \<and>
        acceptable payload (vp_kid vp) abi now \<and> v = build_verified payload (vp_kid vp))"
    by (auto simp: verify_internal_iff ANOMALY_LIBRARY_AAD_def MAX_ANOMALY_LIBRARY_BYTES_def)
  finally have base: "verify_anomaly_library_signature env decode bytes anchors abi now = Inr v \<longleftrightarrow> \<dots>" .
  have "length (vl_signer_kid (build_verified payload kid)) = length kid \<and>
      length (vl_library_id (build_verified payload kid)) = length (pl_library_id payload)"
    if "acceptable payload kid abi now" for payload kid
    using that by (auto simp: build_verified_def acceptable_def sanitize_untruncated)
  then show ?thesis unfolding base by blast
qed

section \<open>The ledger stage\<close>

context anomaly_ledger
begin

lemma with_ledger_iff:
  assumes "verify_anomaly_library_signature_with_ledger env decode observe bytes anchors abi now l = (r, l')"
  shows "case verify_internal env decode bytes anchors abi now of
      Inl e \<Rightarrow> r = Inl e \<and> l' = l
    | Inr (payload, kid) \<Rightarrow>
        (case hwm l (pl_library_id payload) of
           Some v \<Rightarrow>
             if v < pl_library_version payload
             then r = Inr (build_verified payload kid) \<and>
               hwm l' = (hwm l)(pl_library_id payload \<mapsto> pl_library_version payload)
             else r = Inl (LibraryVersionTooOld (sanitize_log_string (pl_library_id payload)) v
                       (pl_library_version payload)) \<and> l' = l
         | None \<Rightarrow> r = Inr (build_verified payload kid) \<and>
             hwm l' = (hwm l)(pl_library_id payload \<mapsto> pl_library_version payload))"
proof (cases "verify_internal env decode bytes anchors abi now")
  case (Inl e)
  with assms show ?thesis by (simp add: verify_anomaly_library_signature_with_ledger_def)
next
  case (Inr pk)
  obtain payload kid where pk: "pk = (payload, kid)" by fastforce
  let ?i = "pl_library_id payload" and ?n = "pl_library_version payload"
  have advanced: "r = Inr (build_verified payload kid) \<and> hwm l' = (hwm l)(?i \<mapsto> ?n)"
    if fresh: "hwm l ?i = None \<or> (\<exists>v. hwm l ?i = Some v \<and> v < ?n)"
  proof -
    obtain obs l1 where "observe l ?i ?n = (Inr obs, l1)" "\<forall>i. hwm l1 i = (if i = ?i then Some ?n else hwm l i)"
      using advance [OF fresh] by blast
    with assms Inr pk show ?thesis
      by (auto simp: verify_anomaly_library_signature_with_ledger_def fun_eq_iff)
  qed
  have refused: "r = Inl (LibraryVersionTooOld (sanitize_log_string ?i) v ?n) \<and> l' = l"
    if "hwm l ?i = Some v" "\<not> v < ?n" for v
    using refuse [of l ?i v ?n] that assms Inr pk
    by (simp add: verify_anomaly_library_signature_with_ledger_def not_less)
  from advanced refused Inr pk show ?thesis by (auto split: option.split)
qed

end

text \<open>Stage 8 with the in-memory ledger.  An envelope that fails any of stages 1 to 7 gives that
  stage's error and leaves the ledger exactly as it was.  One that passes is accepted exactly when
  its library (by its raw, unsanitised id) is new to the ledger or its version is strictly above the
  recorded one; acceptance records the version for that id and touches no other, refusal changes
  nothing.\<close>

theorem ledger_stage:
  assumes "verify_anomaly_library_signature_with_ledger env decode ledger_observe bytes anchors abi now l = (r, l')"
  shows "case verify_internal env decode bytes anchors abi now of
      Inl e \<Rightarrow> r = Inl e \<and> l' = l
    | Inr (payload, kid) \<Rightarrow>
        (case l (pl_library_id payload) of
           Some v \<Rightarrow>
             if v < pl_library_version payload
             then r = Inr (build_verified payload kid) \<and>
               l' = l(pl_library_id payload \<mapsto> pl_library_version payload)
             else r = Inl (LibraryVersionTooOld (sanitize_log_string (pl_library_id payload)) v
                       (pl_library_version payload)) \<and> l' = l
         | None \<Rightarrow> r = Inr (build_verified payload kid) \<and>
             l' = l(pl_library_id payload \<mapsto> pl_library_version payload))"
  using assms by (rule ml.with_ledger_iff)

section \<open>No replay\<close>

text \<open>A validator's life: envelopes offered at various times, and those it accepts.\<close>

fun accepted_loads ::
  "('pk, 'sig) crypto_env \<Rightarrow> payload_decoder \<Rightarrow> 'l ledger_observe \<Rightarrow> 'pk trust_anchor_set \<Rightarrow> nat \<Rightarrow>
   'l \<Rightarrow> (string \<times> int) list \<Rightarrow> (string \<times> anomaly_library_payload) list" where
  "accepted_loads env decode observe anchors abi l [] = []"
| "accepted_loads env decode observe anchors abi l ((bytes, now) # loads) =
     (let (r, l') = verify_anomaly_library_signature_with_ledger env decode observe bytes anchors abi now l in
      case (r, verify_internal env decode bytes anchors abi now) of
        (Inr _, Inr (payload, _)) \<Rightarrow>
          (bytes, payload) # accepted_loads env decode observe anchors abi l' loads
      | _ \<Rightarrow> accepted_loads env decode observe anchors abi l' loads)"

definition offered ::
  "('pk, 'sig) crypto_env \<Rightarrow> payload_decoder \<Rightarrow> 'pk trust_anchor_set \<Rightarrow> nat \<Rightarrow> string \<times> int \<Rightarrow> (string \<times> nat) option" where
  "offered env decode anchors abi load =
     (case verify_internal env decode (fst load) anchors abi (snd load) of
        Inr (payload, _) \<Rightarrow> Some (pl_library_id payload, pl_library_version payload)
      | Inl _ \<Rightarrow> None)"

lemma accepted_loads_payload:
  "(bytes, payload) \<in> set (accepted_loads env decode observe anchors abi l loads) \<Longrightarrow>
     \<exists>now kid. verify_internal env decode bytes anchors abi now = Inr (payload, kid)"
proof (induction loads arbitrary: l)
  case (Cons load loads)
  obtain bytes' now where load: "load = (bytes', now)" by fastforce
  obtain r l' where "verify_anomaly_library_signature_with_ledger env decode observe bytes' anchors abi now l = (r, l')"
    by fastforce
  with Cons load show ?case by (auto split: sum.splits prod.splits)
qed simp

lemma same_bytes_same_payload:
  "verify_internal env decode bytes anchors abi now = Inr (p, kid) \<Longrightarrow>
   verify_internal env decode bytes anchors abi now' = Inr (p', kid') \<Longrightarrow> p = p'"
  by (auto simp: verify_internal_iff)

context anomaly_ledger
begin

lemma accepted_loads_accepted:
  "map (\<lambda>bp. (pl_library_id (snd bp), pl_library_version (snd bp)))
     (accepted_loads env decode observe anchors abi l loads) =
   accepted l (List.map_filter (offered env decode anchors abi) loads)"
proof (induction loads arbitrary: l)
  case (Cons load loads)
  obtain bytes now where load: "load = (bytes, now)" by fastforce
  show ?case
  proof (cases "verify_internal env decode bytes anchors abi now")
    case (Inl e)
    with Cons load show ?thesis
      by (simp add: verify_anomaly_library_signature_with_ledger_def offered_def)
  next
    case (Inr pk)
    obtain payload kid where "pk = (payload, kid)" by fastforce
    with Cons load Inr show ?thesis
      by (cases "observe l (pl_library_id payload) (pl_library_version payload)")
        (auto simp: verify_anomaly_library_signature_with_ledger_def offered_def split: sum.split)
  qed
qed simp

lemma accepted_loads_increasing:
  "sorted_wrt (\<lambda>(b, p) (b', p'). (pl_library_id p = pl_library_id p' \<longrightarrow>
       pl_library_version p < pl_library_version p') \<and> b \<noteq> b')
     (accepted_loads env decode observe anchors abi l loads)"
proof -
  let ?acc = "accepted_loads env decode observe anchors abi l loads"
  have "sorted_wrt (\<lambda>(i, m) (j, n). i = j \<longrightarrow> m < n)
      (map (\<lambda>bp. (pl_library_id (snd bp), pl_library_version (snd bp))) ?acc)"
    unfolding accepted_loads_accepted by (rule accepted_increasing)
  then have "sorted_wrt (\<lambda>bp bp'. pl_library_id (snd bp) = pl_library_id (snd bp') \<longrightarrow>
      pl_library_version (snd bp) < pl_library_version (snd bp')) ?acc"
    by (simp add: sorted_wrt_map)
  moreover have "b \<noteq> b'" if bb: "(b, p) \<in> set ?acc" "(b', p') \<in> set ?acc"
      "pl_library_id p = pl_library_id p' \<longrightarrow> pl_library_version p < pl_library_version p'" for b p b' p'
  proof
    assume "b = b'"
    with bb(1,2) have "p = p'"
      using accepted_loads_payload [of b p] accepted_loads_payload [of b' p'] same_bytes_same_payload
      by metis
    with bb(3) show False by simp
  qed
  ultimately show ?thesis
    by (elim sorted_wrt_mono_rel [rotated]) (force split: prod.splits)
qed

end

text \<open>C27: no replay and no rollback.  Whatever envelopes are offered to a validator that keeps an
  in-memory ledger, in any order and at any times, the accepted ones of one library id have strictly
  increasing versions, and the same bytes are never accepted twice.\<close>

theorem no_replay:
  "sorted_wrt (\<lambda>(b, p) (b', p'). (pl_library_id p = pl_library_id p' \<longrightarrow>
       pl_library_version p < pl_library_version p') \<and> b \<noteq> b')
     (accepted_loads env decode ledger_observe anchors abi ledger_new loads)"
  by (rule ml.accepted_loads_increasing)

section \<open>A concrete envelope\<close>

definition sample_payload :: anomaly_library_payload where
  "sample_payload =
     \<lparr>pl_abi_version = 1, pl_signer_kid = ''k'', pl_library_id = ''lib'', pl_library_version = 7,
      pl_issued_at = 0, pl_expires_at = 100, pl_patterns = []\<rparr>"

definition sample_sign1 :: cose_sign1 where
  "sample_sign1 =
     \<lparr>hdr_protected_raw = [], hdr_alg = Some (Assigned (- 8)), hdr_key_id = ''k'',
      sign1_payload = Some ''P'', sign1_signature = ''S''\<rparr>"

definition sample_env :: "(nat, string) crypto_env" where
  "sample_env =
     \<lparr>ciborium_parse = (\<lambda>b. Some (CArray [])), coset_parse = (\<lambda>b. Some sample_sign1),
      coset_tbs = (\<lambda>s aad. aad), ed_signature = Some, ed_verify_strict = (\<lambda>pk tbs sig. pk = 1 \<and> sig = ''S''),
      ed_point = (\<lambda>b. Some 1), ed_is_weak = (\<lambda>pk. pk = 0), hex_decode = Some\<rparr>"

definition sample_anchors :: "nat trust_anchor_set" where
  "sample_anchors = [\<lparr>ta_kid = ''k'', ta_alg = Ed25519, ta_pk = 1, ta_role = AnomalyLibrarySigner\<rparr>]"

lemma sample_verify_internal:
  "verify_internal sample_env (\<lambda>b. Some sample_payload) ''E'' sample_anchors 1 50 = Inr (sample_payload, ''k'')"
  by (simp add: verify_internal_def verify_cose_sign1_with_cap_def size_depth_check_with_cap_def
      MAX_ANOMALY_LIBRARY_BYTES_def MAX_CBOR_DEPTH_def max_or_def parse_cose_sign1_def extract_alg_label_def
      alg_from_cose_label_def COSE_ALG_EDDSA_def extract_kid_def lookup_with_role_def byte_def
      MAX_INNER_KID_BYTES_def MAX_LIBRARY_ID_BYTES_def stage7_iff coherent_def sample_env_def sample_sign1_def
      sample_anchors_def sample_payload_def split: sum.split)
    (simp add: stage7_def check_firing_rule_companions_def)

lemma ledger_stage_witness:
  "snd (verify_anomaly_library_signature_with_ledger sample_env (\<lambda>b. Some sample_payload) ledger_observe
      ''E'' sample_anchors 1 50 ledger_new) = ledger_new(''lib'' \<mapsto> 7)"
proof -
  obtain r l' where load: "verify_anomaly_library_signature_with_ledger sample_env (\<lambda>b. Some sample_payload)
      ledger_observe ''E'' sample_anchors 1 50 ledger_new = (r, l')" by fastforce
  have "pl_library_id sample_payload = ''lib''" "pl_library_version sample_payload = 7"
    by (simp_all add: sample_payload_def)
  with ledger_stage [OF load] have "l' = ledger_new(''lib'' \<mapsto> 7)"
    unfolding sample_verify_internal by (simp add: ledger_new_def)
  with load show ?thesis by simp
qed

lemma no_replay_witness:
  "sorted_wrt (\<lambda>(b, p) (b', p'). (pl_library_id p = pl_library_id p' \<longrightarrow>
       pl_library_version p < pl_library_version p') \<and> b \<noteq> b') [(''E'', sample_payload)] \<and>
   accepted_loads sample_env (\<lambda>b. Some sample_payload) ledger_observe sample_anchors 1 ledger_new
     [(''E'', 50), (''E'', 50)] = [(''E'', sample_payload)]"
proof -
  have fields: "pl_library_id sample_payload = ''lib''" "pl_library_version sample_payload = 7"
    by (simp_all add: sample_payload_def)
  have "accepted_loads sample_env (\<lambda>b. Some sample_payload) ledger_observe sample_anchors 1 ledger_new
      [(''E'', 50), (''E'', 50)] = [(''E'', sample_payload)]"
    by (simp add: verify_anomaly_library_signature_with_ledger_def sample_verify_internal [unfolded One_nat_def]
        ledger_observe_def ledger_new_def fields)
  with no_replay [of sample_env "\<lambda>b. Some sample_payload" sample_anchors 1 "[(''E'', 50), (''E'', 50)]"]
  show ?thesis by simp
qed

end
