(* ===== verification/Merkle.thy ===== *)
theory Merkle
  imports Crypto
begin

text \<open>
  \<open>ephemeral-attestation/src/rekor.rs\<close>, Block A: the RFC 9162 inclusion-proof verifier.  The
  SHA-256 of the \<open>sha2\<close> crate is the parameter \<open>sha\<close>; hashes are byte strings.  The reference
  side is the recursive Merkle tree hash and audit path of RFC 9162, section 2.1.
\<close>

section \<open>The verifier\<close>

definition MAX_INCLUSION_DEPTH :: nat where "MAX_INCLUSION_DEPTH = 40"

record rekor_entry =
  leaf_hash :: string
  proof_path :: "string list"
  re_index :: nat
  re_tree_size :: nat

datatype rekor_error = RekorProofInvalid string | RekorLogUntrusted string | RekorSthStale nat nat

definition inner_hash :: "(string \<Rightarrow> string) \<Rightarrow> string \<Rightarrow> string \<Rightarrow> string" where
  "inner_hash sha left right = sha (char_of (1 :: nat) # left @ right)"

text \<open>The largest power of two strictly below \<open>n\<close>.\<close>

definition split_point :: "nat \<Rightarrow> nat" where
  "split_point n = 2 ^ ilog2 (n - 1)"

lemma split_point_bounds: "1 < n \<Longrightarrow> 0 < split_point n \<and> split_point n < n \<and> n \<le> 2 * split_point n"
  using ilog2_bounds [of "n - 1"] by (simp add: split_point_def) linarith

lemma split_point_less: "1 < n \<Longrightarrow> split_point n < n" "1 < n \<Longrightarrow> n - split_point n < n"
  using split_point_bounds [of n] by linarith+

function depth_loop :: "nat \<Rightarrow> nat \<Rightarrow> nat \<Rightarrow> nat" where
  "depth_loop m n depth =
     (if n > 1 then
        (if m < split_point n then depth_loop m (split_point n) (depth + 1)
         else depth_loop (m - split_point n) (n - split_point n) (depth + 1))
      else depth)"
  by pat_completeness auto
termination
  by (relation "measure (\<lambda>(m, n, d). n)") (use split_point_bounds in auto)

declare depth_loop.simps [simp del]

definition expected_proof_depth :: "nat \<Rightarrow> nat \<Rightarrow> nat" where
  "expected_proof_depth index tree_size = depth_loop index tree_size 0"

text \<open>The inner \<open>while fn & 1 == 0 && fn != 0\<close> loop, then the walk over the proof.\<close>

function orphan_skip :: "nat \<Rightarrow> nat \<Rightarrow> nat \<times> nat" where
  "orphan_skip f s = (if even f \<and> f \<noteq> 0 then orphan_skip (f div 2) (s div 2) else (f, s))"
  by pat_completeness auto
termination by (relation "measure fst") auto

declare orphan_skip.simps [simp del]

fun walk_path :: "(string \<Rightarrow> string) \<Rightarrow> string list \<Rightarrow> string \<Rightarrow> nat \<Rightarrow> nat \<Rightarrow> string" where
  "walk_path sha [] current f s = current"
| "walk_path sha (sibling # path) current f s =
     (if odd f \<or> f = s then
        (let current = inner_hash sha sibling current; (f, s) = orphan_skip f s
         in walk_path sha path current (f div 2) (s div 2))
      else walk_path sha path (inner_hash sha current sibling) (f div 2) (s div 2))"

definition verify_rekor_inclusion ::
  "(string \<Rightarrow> string) \<Rightarrow> rekor_entry \<Rightarrow> string \<Rightarrow> string \<Rightarrow> rekor_error + unit" where
  "verify_rekor_inclusion sha entry payload_hash tree_root =
     (if re_tree_size entry = 0 then Inl (RekorProofInvalid ''tree_size is zero'')
      else if re_tree_size entry \<le> re_index entry
      then Inl (RekorProofInvalid ''index out of bounds for tree_size'')
      else if MAX_INCLUSION_DEPTH < length (proof_path entry)
      then Inl (RekorProofInvalid ''proof_path exceeds MAX_INCLUSION_DEPTH'')
      else if length (proof_path entry) \<noteq> expected_proof_depth (re_index entry) (re_tree_size entry)
      then Inl (RekorProofInvalid ''proof_path length inconsistent with tree shape'')
      else if leaf_hash entry \<noteq> payload_hash
      then Inl (RekorProofInvalid ''leaf hash does not match payload hash'')
      else
        let current = walk_path sha (proof_path entry) (leaf_hash entry) (re_index entry) (re_tree_size entry - 1)
        in if current \<noteq> tree_root
           then Inl (RekorProofInvalid ''reconstructed root does not match expected tree root'')
           else Inr ())"

section \<open>The producer\<close>

text \<open>\<open>tools/vector-signer/src/merkle.rs\<close>.  Its \<open>inner_hash\<close> and the split point are the same
  expressions as the verifier's and share their definitions.  A panic is \<open>None\<close>; the tree
  functions are reached with a nonempty slice only.\<close>

definition signer_leaf_hash :: "(string \<Rightarrow> string) \<Rightarrow> string \<Rightarrow> string" where
  "signer_leaf_hash sha data = sha (char_of (0 :: nat) # data)"

function subtree_root :: "(string \<Rightarrow> string) \<Rightarrow> string list \<Rightarrow> string" where
  "subtree_root sha leaves =
     (if length leaves \<le> 1 then (case leaves of [] \<Rightarrow> [] | l # _ \<Rightarrow> l)
      else
        (let k = split_point (length leaves) in
         inner_hash sha (subtree_root sha (take k leaves)) (subtree_root sha (drop k leaves))))"
  by pat_completeness auto
termination
  by (relation "measure (\<lambda>(sha, D). length D)") (use split_point_less in \<open>auto simp: not_le\<close>)

declare subtree_root.simps [simp del]

function build_path :: "(string \<Rightarrow> string) \<Rightarrow> string list \<Rightarrow> nat \<Rightarrow> string list \<Rightarrow> string list" where
  "build_path sha leaves m out =
     (if length leaves \<le> 1 then out
      else
        (let k = split_point (length leaves) in
         if m < k then build_path sha (take k leaves) m out @ [subtree_root sha (drop k leaves)]
         else build_path sha (drop k leaves) (m - k) out @ [subtree_root sha (take k leaves)]))"
  by pat_completeness auto
termination
  by (relation "measure (\<lambda>(sha, D, m, out). length D)") (use split_point_less in \<open>auto simp: not_le\<close>)

declare build_path.simps [simp del]

definition generate_proof ::
  "(string \<Rightarrow> string) \<Rightarrow> string list \<Rightarrow> nat \<Rightarrow> (string list \<times> string) option" where
  "generate_proof sha leaves index =
     (if leaves = [] then None
      else if length leaves \<le> index then None
      else
        let hashed = map (signer_leaf_hash sha) leaves
        in Some (build_path sha hashed index [], subtree_root sha hashed))"

section \<open>The directions of the walk\<close>

text \<open>\<open>True\<close>: the sibling goes to the left.  First as the walk takes them from leaf to root,
  then as the recursive tree shape gives them.\<close>

function walk_dirs :: "nat \<Rightarrow> nat \<Rightarrow> bool list" where
  "walk_dirs f s =
     (if s = 0 then []
      else if odd f \<or> f = s
      then True # walk_dirs (fst (orphan_skip f s) div 2) (snd (orphan_skip f s) div 2)
      else False # walk_dirs (f div 2) (s div 2))"
  by pat_completeness auto

lemma orphan_skip_le: "snd (orphan_skip f s) \<le> s"
proof (induction f s rule: orphan_skip.induct)
  case (1 f s)
  then show ?case by (subst orphan_skip.simps) (auto intro: order_trans)
qed

termination walk_dirs
proof (relation "measure snd")
  fix f s :: nat assume "s \<noteq> 0"
  then show "((fst (orphan_skip f s) div 2, snd (orphan_skip f s) div 2), f, s) \<in> measure snd"
    using orphan_skip_le [of f s] by simp
qed auto

declare walk_dirs.simps [simp del]

function tree_dirs :: "nat \<Rightarrow> nat \<Rightarrow> bool list" where
  "tree_dirs m n =
     (if n > 1 then
        (if m < split_point n then tree_dirs m (split_point n) @ [False]
         else tree_dirs (m - split_point n) (n - split_point n) @ [True])
      else [])"
  by pat_completeness auto
termination
  by (relation "measure snd") (use split_point_bounds in auto)

declare tree_dirs.simps [simp del]

lemma orphan_skip_odd [simp]: "odd f \<Longrightarrow> orphan_skip f s = (f, s)"
  by (subst orphan_skip.simps) simp

lemma walk_dirs_0 [simp]: "walk_dirs f 0 = []"
  by (subst walk_dirs.simps) simp

lemma walk_dirs_odd: "odd f \<Longrightarrow> 0 < s \<Longrightarrow> walk_dirs f s = True # walk_dirs (f div 2) (s div 2)"
  by (subst walk_dirs.simps) simp

lemma walk_dirs_even: "even f \<Longrightarrow> f \<noteq> s \<Longrightarrow> 0 < s \<Longrightarrow> walk_dirs f s = False # walk_dirs (f div 2) (s div 2)"
  by (subst walk_dirs.simps) simp

lemma walk_dirs_double: "0 < x \<Longrightarrow> walk_dirs (2 * x) (2 * x) = walk_dirs x x"
proof -
  assume "0 < x"
  then have "orphan_skip (2 * x) (2 * x) = orphan_skip x x" by (subst orphan_skip.simps) simp
  with \<open>0 < x\<close> show ?thesis by (simp add: walk_dirs.simps [of "2 * x" "2 * x"] walk_dirs.simps [of x x])
qed

lemma walk_dirs_left:
  "m < 2 ^ j \<Longrightarrow> 2 ^ j \<le> s \<Longrightarrow> s < 2 ^ Suc j \<Longrightarrow> walk_dirs m s = walk_dirs m (2 ^ j - 1) @ [False]"
proof (induction j arbitrary: m s)
  case 0
  then have "m = 0" "s = 1" by auto
  then show ?case by (simp add: walk_dirs_even)
next
  case (Suc j)
  have half: "(2 ^ Suc j - 1) div 2 = (2 ^ j - 1 :: nat)" by simp
  have IH: "walk_dirs (m div 2) (s div 2) = walk_dirs (m div 2) (2 ^ j - 1) @ [False]"
    using Suc.prems by (intro Suc.IH) auto
  have pos: "0 < s" "0 < (2 ^ Suc j - 1 :: nat)" using Suc.prems by (auto intro: Suc_lessI)
  show ?case
  proof (cases "odd m")
    case True
    then show ?thesis using pos IH half by (simp add: walk_dirs_odd)
  next
    case False
    have "odd (2 ^ Suc j - 1 :: nat)" by simp
    with False have "m \<noteq> 2 ^ Suc j - 1" "m \<noteq> s" using Suc.prems by auto
    with False show ?thesis using pos IH half by (simp add: walk_dirs_even)
  qed
qed

lemma walk_dirs_power: "walk_dirs (2 ^ j) (2 ^ j) = [True]"
proof (induction j)
  case 0
  then show ?case by (simp add: walk_dirs_odd)
next
  case (Suc j)
  then show ?case using walk_dirs_double [of "2 ^ j"] by simp
qed

lemma walk_dirs_right:
  "m \<le> s \<Longrightarrow> s < 2 ^ j \<Longrightarrow> walk_dirs (m + 2 ^ j) (s + 2 ^ j) = walk_dirs m s @ [True]"
proof (induction j arbitrary: m s)
  case 0
  then show ?case by (simp add: walk_dirs_odd)
next
  case (Suc j)
  show ?case
  proof (cases "s = 0")
    case True
    with Suc.prems walk_dirs_power [of "Suc j"] show ?thesis by simp
  next
    case False
    have halves: "(m + 2 ^ Suc j) div 2 = m div 2 + 2 ^ j" "(s + 2 ^ Suc j) div 2 = s div 2 + 2 ^ j" by simp_all
    have IH: "walk_dirs (m div 2 + 2 ^ j) (s div 2 + 2 ^ j) = walk_dirs (m div 2) (s div 2) @ [True]"
      using Suc.prems by (intro Suc.IH) (auto simp: div_le_mono)
    consider "odd m" | "even m" "m \<noteq> s" | "even m" "m = s" by blast
    then show ?thesis
    proof cases
      case 1
      with IH halves False show ?thesis by (simp add: walk_dirs_odd add.commute)
    next
      case 2
      with IH halves False show ?thesis by (simp add: walk_dirs_even add.commute)
    next
      case 3
      then obtain x where x: "m = 2 * x" "s = 2 * x" by blast
      with False have "0 < x" by simp
      then have "walk_dirs (m + 2 ^ Suc j) (s + 2 ^ Suc j) = walk_dirs (x + 2 ^ j) (x + 2 ^ j)"
        using walk_dirs_double [of "x + 2 ^ j"] x by simp
      with IH x walk_dirs_double [OF \<open>0 < x\<close>] show ?thesis by simp
    qed
  qed
qed

lemma walk_dirs_tree: "m < n \<Longrightarrow> walk_dirs m (n - 1) = tree_dirs m n"
proof (induction m n rule: tree_dirs.induct)
  case (1 m n)
  show ?case
  proof (cases "n > 1")
    case False
    with 1 have "n = 1" by simp
    then show ?thesis by (simp add: tree_dirs.simps)
  next
    case True
    let ?j = "ilog2 (n - 1)"
    have bounds: "2 ^ ?j \<le> n - 1" "n - 1 < 2 ^ Suc ?j" using ilog2_bounds [of "n - 1"] True by simp_all
    show ?thesis
    proof (cases "m < split_point n")
      case left: True
      then have "walk_dirs m (n - 1) = walk_dirs m (split_point n - 1) @ [False]"
        unfolding split_point_def using bounds by (intro walk_dirs_left) simp_all
      with 1(1) [OF True left left] True left show ?thesis by (simp add: tree_dirs.simps [of m n])
    next
      case False
      define m' s' where "m' = m - split_point n" and "s' = n - split_point n - 1"
      have "m' \<le> s'" "s' < 2 ^ ?j" "m = m' + 2 ^ ?j" "n - 1 = s' + 2 ^ ?j"
        using False 1(3) bounds by (auto simp: m'_def s'_def split_point_def)
      then have "walk_dirs m (n - 1) = walk_dirs m' s' @ [True]" using walk_dirs_right by metis
      moreover have "m' < n - split_point n"
        using \<open>m' \<le> s'\<close> split_point_less(1) [OF True] unfolding s'_def by linarith
      ultimately show ?thesis
        using 1(2) [OF True False] True False by (simp add: tree_dirs.simps [of m n] m'_def s'_def)
    qed
  qed
qed

section \<open>Depth\<close>

lemma depth_loop_tree: "depth_loop m n d = d + length (tree_dirs m n)"
proof (induction m n d rule: depth_loop.induct)
  case (1 m n d)
  then show ?case by (subst depth_loop.simps, subst tree_dirs.simps) simp
qed

lemma expected_depth_tree: "expected_proof_depth m n = length (tree_dirs m n)"
  by (simp add: expected_proof_depth_def depth_loop_tree)

lemma split_point_le_power: "1 < n \<Longrightarrow> n \<le> 2 ^ Suc j \<Longrightarrow> split_point n \<le> 2 ^ j"
proof -
  assume "1 < n" "n \<le> 2 ^ Suc j"
  then have "2 ^ ilog2 (n - 1) \<le> n - 1" using ilog2_bounds [of "n - 1"] by simp
  with \<open>1 < n\<close> \<open>n \<le> 2 ^ Suc j\<close> have "(2 :: nat) ^ ilog2 (n - 1) < 2 ^ Suc j" by linarith
  then have "ilog2 (n - 1) \<le> j" using power_less_imp_less_exp [of "2 :: nat"] by (metis One_nat_def lessI less_Suc_eq_le numeral_2_eq_2)
  then show ?thesis by (simp add: split_point_def power_increasing)
qed

lemma length_tree_dirs_le: "n \<le> 2 ^ j \<Longrightarrow> length (tree_dirs m n) \<le> j"
proof (induction j arbitrary: m n)
  case 0
  then show ?case by (simp add: tree_dirs.simps)
next
  case (Suc j)
  show ?case
  proof (cases "n > 1")
    case True
    then have "split_point n \<le> 2 ^ j" "n - split_point n \<le> 2 ^ j"
      using split_point_le_power Suc.prems split_point_bounds [of n] by fastforce+
    with Suc.IH True show ?thesis by (subst tree_dirs.simps) simp
  next
    case False
    then show ?thesis by (simp add: tree_dirs.simps)
  qed
qed

section \<open>The walk climbs the tree\<close>

definition climb :: "(string \<Rightarrow> string) \<Rightarrow> string \<Rightarrow> bool list \<Rightarrow> string list \<Rightarrow> string" where
  "climb sha current dirs path =
     foldl (\<lambda>c (left, s). if left then inner_hash sha s c else inner_hash sha c s) current (zip dirs path)"

lemma climb_Nil [simp]: "climb sha c [] path = c" "climb sha c dirs [] = c"
  by (simp_all add: climb_def)

lemma climb_Cons [simp]:
  "climb sha c (d # ds) (s # ps) = climb sha (if d then inner_hash sha s c else inner_hash sha c s) ds ps"
  by (simp add: climb_def)

lemma climb_snoc:
  "length ds = length ps \<Longrightarrow>
   climb sha c (ds @ [d]) (ps @ [s]) =
     (if d then inner_hash sha s (climb sha c ds ps) else inner_hash sha (climb sha c ds ps) s)"
  by (simp add: climb_def)

lemma walk_path_climb:
  "length path = length (walk_dirs f s) \<Longrightarrow> walk_path sha path c f s = climb sha c (walk_dirs f s) path"
proof (induction sha path c f s rule: walk_path.induct)
  case (2 sha sib path c f s)
  then have "s \<noteq> 0" by (cases "s = 0") simp_all
  with 2 show ?case
    by (cases "odd f \<or> f = s") (simp_all add: walk_dirs.simps [of f s] Let_def split_def)
qed simp

lemma walk_path_tree:
  "m < n \<Longrightarrow> length path = expected_proof_depth m n \<Longrightarrow>
   walk_path sha path c m (n - 1) = climb sha c (tree_dirs m n) path"
  by (metis walk_path_climb walk_dirs_tree expected_depth_tree)

lemma length_build_path: "m < length D \<Longrightarrow> length (build_path sha D m []) = length (tree_dirs m (length D))"
proof (induction "length D" arbitrary: D m rule: less_induct)
  case less
  show ?case
  proof (cases "length D \<le> 1")
    case True
    then show ?thesis by (simp add: build_path.simps tree_dirs.simps)
  next
    case False
    then have k: "split_point (length D) < length D" "0 < split_point (length D)"
      using split_point_bounds [of "length D"] by simp_all
    show ?thesis
    proof (cases "m < split_point (length D)")
      case True
      with less(1) [of "take (split_point (length D)) D" m] k False show ?thesis
        by (simp add: build_path.simps [of sha D] tree_dirs.simps [of m "length D"] Let_def)
    next
      case right: False
      with less(1) [of "drop (split_point (length D)) D" "m - split_point (length D)"] k False less(2)
      show ?thesis
        by (simp add: build_path.simps [of sha D] tree_dirs.simps [of m "length D"] Let_def)
    qed
  qed
qed

lemma climb_build_path:
  "m < length D \<Longrightarrow> climb sha (D ! m) (tree_dirs m (length D)) (build_path sha D m []) = subtree_root sha D"
proof (induction "length D" arbitrary: D m rule: less_induct)
  case less
  show ?case
  proof (cases "length D \<le> 1")
    case True
    with less(2) obtain d where "D = [d]" by (cases D) auto
    with less(2) show ?thesis by (simp add: build_path.simps subtree_root.simps)
  next
    case False
    let ?k = "split_point (length D)"
    have k: "?k < length D" "0 < ?k" using False split_point_bounds [of "length D"] by simp_all
    have root: "subtree_root sha D = inner_hash sha (subtree_root sha (take ?k D)) (subtree_root sha (drop ?k D))"
      using False by (simp add: subtree_root.simps [of sha D] Let_def)
    show ?thesis
    proof (cases "m < ?k")
      case True
      with less(1) [of "take ?k D" m] length_build_path [of m "take ?k D" sha] k False root show ?thesis
        by (simp add: build_path.simps [of sha D] tree_dirs.simps [of m "length D"] Let_def climb_snoc)
    next
      case right: False
      with less(1) [of "drop ?k D" "m - ?k"] length_build_path [of "m - ?k" "drop ?k D" sha] k False root less(2)
      show ?thesis
        by (simp add: build_path.simps [of sha D] tree_dirs.simps [of m "length D"] Let_def climb_snoc)
    qed
  qed
qed

section \<open>Two different proofs give a collision\<close>

text \<open>The pair of hashed strings at the node where an accepted proof first leaves the tree.\<close>

definition node_input :: "string \<Rightarrow> string \<Rightarrow> string" where
  "node_input left right = char_of (1 :: nat) # left @ right"

lemma inner_hash_input: "inner_hash sha l r = sha (node_input l r)"
  by (simp add: inner_hash_def node_input_def)

lemma node_input_eq: "length a = length c \<Longrightarrow> node_input a b = node_input c d \<longleftrightarrow> a = c \<and> b = d"
  by (simp add: node_input_def)

function find_collision ::
  "(string \<Rightarrow> string) \<Rightarrow> string list \<Rightarrow> nat \<Rightarrow> string \<Rightarrow> string list \<Rightarrow> (string \<times> string) option" where
  "find_collision sha D m leaf path =
     (if length D \<le> 1 then None
      else
        (let k = split_point (length D); l = take k D; r = drop k D; ps = butlast path; s = last path in
         if m < k then
           (let x = node_input (climb sha leaf (tree_dirs m k) ps) s;
                y = node_input (subtree_root sha l) (subtree_root sha r)
            in if x \<noteq> y then Some (x, y) else find_collision sha l m leaf ps)
         else
           (let x = node_input s (climb sha leaf (tree_dirs (m - k) (length D - k)) ps);
                y = node_input (subtree_root sha l) (subtree_root sha r)
            in if x \<noteq> y then Some (x, y) else find_collision sha r (m - k) leaf ps)))"
  by pat_completeness auto
termination
  by (relation "measure (\<lambda>(sha, D, m, leaf, path). length D)") (use split_point_less in \<open>auto simp: not_le\<close>)

declare find_collision.simps [simp del]

definition is_hash :: "string \<Rightarrow> bool" where
  "is_hash h \<longleftrightarrow> length h = 32"

lemma is_hash_climb:
  "(\<And>x. is_hash (sha x)) \<Longrightarrow> is_hash c \<Longrightarrow> is_hash (climb sha c ds ps)"
proof (induction ds arbitrary: ps c)
  case (Cons d ds)
  then show ?case by (cases ps) (simp_all add: inner_hash_input)
qed simp

lemma is_hash_subtree_root:
  "(\<And>x. is_hash (sha x)) \<Longrightarrow> D \<noteq> [] \<Longrightarrow> list_all is_hash D \<Longrightarrow> is_hash (subtree_root sha D)"
  by (cases "length D \<le> 1") (auto simp: subtree_root.simps [of sha D] inner_hash_input Let_def split: list.splits)

lemma binding:
  assumes sha: "\<And>x. is_hash (sha x)"
  shows "m < length D \<Longrightarrow> list_all is_hash D \<Longrightarrow> is_hash leaf \<Longrightarrow> list_all is_hash path \<Longrightarrow>
    length path = length (tree_dirs m (length D)) \<Longrightarrow>
    climb sha leaf (tree_dirs m (length D)) path = subtree_root sha D \<Longrightarrow>
    (case find_collision sha D m leaf path of
       None \<Rightarrow> leaf = D ! m \<and> path = build_path sha D m []
     | Some (x, y) \<Rightarrow> x \<noteq> y \<and> sha x = sha y)"
proof (induction "length D" arbitrary: D m path rule: less_induct)
  case less
  show ?case
  proof (cases "length D \<le> 1")
    case True
    with less(2) obtain d where "D = [d]" by (cases D) auto
    with less show ?thesis
      by (simp add: find_collision.simps build_path.simps subtree_root.simps tree_dirs.simps)
  next
    case False
    let ?k = "split_point (length D)"
    let ?l = "take ?k D" and ?r = "drop ?k D"
    have k: "?k < length D" "0 < ?k" using False split_point_bounds [of "length D"] by simp_all
    have root: "subtree_root sha D = inner_hash sha (subtree_root sha ?l) (subtree_root sha ?r)"
      using False by (simp add: subtree_root.simps [of sha D] Let_def)
    have "path \<noteq> []" using less(6) False by (auto simp: tree_dirs.simps [of m "length D"] split: if_splits)
    then obtain ps s where path: "path = ps @ [s]" by (metis append_butlast_last_id)
    have ps: "list_all is_hash ps" "is_hash s" using less(5) path by simp_all
    have "list_all is_hash (?l @ ?r)" using less(3) by simp
    then have D: "list_all is_hash ?l" "list_all is_hash ?r" by (simp_all only: list_all_append)
    have ne: "?l \<noteq> []" "?r \<noteq> []" using k by auto
    note sub = is_hash_subtree_root [OF sha ne(1) D(1)]
    show ?thesis
    proof (cases "m < ?k")
      case left: True
      let ?c = "climb sha leaf (tree_dirs m ?k) ps"
      have dirs: "tree_dirs m (length D) = tree_dirs m ?k @ [False]" "length ps = length (tree_dirs m ?k)"
        using False left less(6) path by (simp_all add: tree_dirs.simps [of m "length D"])
      then have eq: "sha (node_input ?c s) = sha (node_input (subtree_root sha ?l) (subtree_root sha ?r))"
        using less(7) path root by (simp add: climb_snoc inner_hash_input)
      show ?thesis
      proof (cases "node_input ?c s = node_input (subtree_root sha ?l) (subtree_root sha ?r)")
        case True
        then have "?c = subtree_root sha ?l" "s = subtree_root sha ?r"
          using is_hash_climb [OF sha less(4), where ds = "tree_dirs m ?k" and ps = ps] sub
          by (simp_all add: node_input_eq is_hash_def)
        note sub_eq = this
        have n: "length ?l = ?k" using k by simp
        have IH: "case find_collision sha ?l m leaf ps of None \<Rightarrow> leaf = ?l ! m \<and> ps = build_path sha ?l m []
            | Some (x, y) \<Rightarrow> x \<noteq> y \<and> sha x = sha y"
          using less(1) [of ?l m ps] k left D(1) less(4) ps(1) dirs(2) sub_eq(1) n by simp
        have "find_collision sha D m leaf path = find_collision sha ?l m leaf ps"
          using True False left path by (simp add: find_collision.simps [of sha D] Let_def)
        moreover have "build_path sha D m [] = build_path sha ?l m [] @ [subtree_root sha ?r]"
          using False left by (simp add: build_path.simps [of sha D] Let_def)
        ultimately show ?thesis using IH left path sub_eq(2) by (simp split: option.splits prod.splits)
      next
        case ne: False
        with eq left path False show ?thesis by (simp add: find_collision.simps [of sha D] Let_def)
      qed
    next
      case right: False
      let ?c = "climb sha leaf (tree_dirs (m - ?k) (length D - ?k)) ps"
      have dirs: "tree_dirs m (length D) = tree_dirs (m - ?k) (length D - ?k) @ [True]"
          "length ps = length (tree_dirs (m - ?k) (length D - ?k))"
        using False right less(6) path by (simp_all add: tree_dirs.simps [of m "length D"])
      then have eq: "sha (node_input s ?c) = sha (node_input (subtree_root sha ?l) (subtree_root sha ?r))"
        using less(7) path root by (simp add: climb_snoc inner_hash_input)
      show ?thesis
      proof (cases "node_input s ?c = node_input (subtree_root sha ?l) (subtree_root sha ?r)")
        case True
        then have "?c = subtree_root sha ?r" "s = subtree_root sha ?l"
          using ps sub by (simp_all add: node_input_eq is_hash_def)
        note sub_eq = this
        have n: "length ?r = length D - ?k" "m - ?k < length ?r" "?r ! (m - ?k) = D ! m"
          using k right less(2) by simp_all
        have IH: "case find_collision sha ?r (m - ?k) leaf ps of
              None \<Rightarrow> leaf = ?r ! (m - ?k) \<and> ps = build_path sha ?r (m - ?k) []
            | Some (x, y) \<Rightarrow> x \<noteq> y \<and> sha x = sha y"
          using less(1) [of ?r "m - ?k" ps] k D(2) less(4) ps(1) dirs(2) sub_eq(1) n(1,2) by simp
        have "find_collision sha D m leaf path = find_collision sha ?r (m - ?k) leaf ps"
          using True False right path by (simp add: find_collision.simps [of sha D] Let_def)
        moreover have "build_path sha D m [] = build_path sha ?r (m - ?k) [] @ [subtree_root sha ?l]"
          using False right by (simp add: build_path.simps [of sha D] Let_def)
        ultimately show ?thesis using IH n(3) path sub_eq(2) by (simp split: option.splits prod.splits)
      next
        case ne: False
        with eq right path False show ?thesis by (simp add: find_collision.simps [of sha D] Let_def)
      qed
    qed
  qed
qed

section \<open>The properties of the verifier\<close>

text \<open>C26: every proof that \<open>generate_proof\<close> of the vector signer produces is accepted by
  \<open>verify_rekor_inclusion\<close>, for any tree of at most 2^40 leaves and any index in range, whatever the hash.\<close>

theorem inclusion_complete:
  assumes "i < length leaves" "length leaves \<le> 2 ^ 40"
  shows "\<exists>path root. generate_proof sha leaves i = Some (path, root) \<and>
    verify_rekor_inclusion sha
      \<lparr>leaf_hash = signer_leaf_hash sha (leaves ! i), proof_path = path, re_index = i, re_tree_size = length leaves\<rparr>
      (signer_leaf_hash sha (leaves ! i)) root = Inr ()"
proof -
  let ?D = "map (signer_leaf_hash sha) leaves"
  have len: "length (build_path sha ?D i []) = length (tree_dirs i (length leaves))"
    using length_build_path [of i ?D sha] assms by simp
  moreover have "walk_path sha (build_path sha ?D i []) (signer_leaf_hash sha (leaves ! i)) i (length leaves - 1)
      = subtree_root sha ?D"
    using climb_build_path [of i ?D sha] walk_path_tree [of i "length leaves" "build_path sha ?D i []"] assms len
    by (simp add: expected_depth_tree)
  ultimately show ?thesis
    using assms length_tree_dirs_le [OF assms(2), of i]
    by (auto simp: generate_proof_def verify_rekor_inclusion_def expected_depth_tree MAX_INCLUSION_DEPTH_def Let_def)
qed

definition toy_sha :: "string \<Rightarrow> string" where
  "toy_sha x = take 32 (rev x @ replicate 32 CHR ''-'')"

lemma is_hash_toy: "is_hash (toy_sha x)"
  by (simp add: is_hash_def toy_sha_def)

lemma inclusion_complete_witness:
  "\<exists>path root. generate_proof toy_sha [''a'', ''b'', ''c''] 2 = Some (path, root) \<and>
    verify_rekor_inclusion toy_sha
      \<lparr>leaf_hash = signer_leaf_hash toy_sha ([''a'', ''b'', ''c''] ! 2), proof_path = path, re_index = 2,
       re_tree_size = length [''a'', ''b'', ''c'']\<rparr>
      (signer_leaf_hash toy_sha ([''a'', ''b'', ''c''] ! 2)) root = Inr ()"
  by (rule inclusion_complete) simp_all

text \<open>C25: an accepted proof binds its leaf: against the root of the tree with leaf hashes \<open>D\<close>, either
  the payload hash is the leaf hash at the claimed index and the proof is the one \<open>build_path\<close> gives, or
  \<open>find_collision\<close> computes from it two different strings with the same hash.\<close>

theorem inclusion_binding:
  assumes "\<And>x. is_hash (sha x)" "list_all is_hash D" "is_hash payload" "list_all is_hash (proof_path entry)"
    and "re_tree_size entry = length D"
    and "verify_rekor_inclusion sha entry payload (subtree_root sha D) = Inr ()"
  shows "case find_collision sha D (re_index entry) payload (proof_path entry) of
      None \<Rightarrow> payload = D ! re_index entry \<and> proof_path entry = build_path sha D (re_index entry) []
    | Some (x, y) \<Rightarrow> x \<noteq> y \<and> sha x = sha y"
proof -
  have m: "re_index entry < length D"
    and len: "length (proof_path entry) = expected_proof_depth (re_index entry) (length D)"
    and leaf: "leaf_hash entry = payload"
    and root: "walk_path sha (proof_path entry) payload (re_index entry) (length D - 1) = subtree_root sha D"
    using assms(5,6) by (auto simp: verify_rekor_inclusion_def Let_def split: if_splits)
  then show ?thesis
    using binding [OF assms(1) m assms(2,3,4)] walk_path_tree [OF m len] by (simp add: expected_depth_tree)
qed

text \<open>Four leaf hashes and a forged entry: the toy hash is weak, and the extractor finds the collision.\<close>

definition demo_tree :: "string list" where
  "demo_tree = map toy_sha [''a'', ''b'', ''c'', ''d'']"

definition demo_entry :: "rekor_entry" where
  "demo_entry = \<lparr>leaf_hash = demo_tree ! 2, proof_path = build_path toy_sha demo_tree 2 [], re_index = 2, re_tree_size = 4\<rparr>"

lemma inclusion_binding_witness:
  "verify_rekor_inclusion toy_sha demo_entry (demo_tree ! 2) (subtree_root toy_sha demo_tree) = Inr () \<and>
   (case find_collision toy_sha demo_tree (re_index demo_entry) (demo_tree ! 2) (proof_path demo_entry) of
      None \<Rightarrow> demo_tree ! 2 = demo_tree ! re_index demo_entry \<and>
              proof_path demo_entry = build_path toy_sha demo_tree (re_index demo_entry) []
    | Some (x, y) \<Rightarrow> x \<noteq> y \<and> toy_sha x = toy_sha y)"
proof -
  have ok: "verify_rekor_inclusion toy_sha demo_entry (demo_tree ! 2) (subtree_root toy_sha demo_tree) = Inr ()"
    by code_simp
  have hashes: "list_all is_hash demo_tree" "is_hash (demo_tree ! 2)" "list_all is_hash (proof_path demo_entry)"
    by code_simp+
  have "re_tree_size demo_entry = length demo_tree" by (simp add: demo_entry_def demo_tree_def)
  from ok inclusion_binding [OF is_hash_toy hashes this ok] show ?thesis by simp
qed

end
