(* ===== verification/Sth.thy ===== *)
theory Sth
  imports Merkle
begin

text \<open>
  \<open>ephemeral-attestation/src/rekor.rs\<close>, Block B: signed tree heads and the registry of log keys.
  \<open>ed25519_dalek\<close> is the record \<open>crypto_env\<close> of \<open>Crypto\<close>, extended by \<open>ciborium::into_writer\<close> and
  \<open>VerifyingKey::to_bytes\<close>.  An \<open>i64\<close> is an \<open>int\<close>; the one subtraction saturates.
\<close>

section \<open>Signed tree heads and the key registry\<close>

record ('pk, 'sig) rekor_env = "('pk, 'sig) crypto_env" +
  ciborium_write :: "cbor_value \<Rightarrow> string"
  vk_to_bytes :: "'pk \<Rightarrow> string"

definition STH_DOMAIN_PREFIX :: char where "STH_DOMAIN_PREFIX = char_of (2 :: nat)"

definition STH_CONTEXT :: string where "STH_CONTEXT = ''ephemeral-rekor-sth-v1''"

record rekor_sth =
  sth_tree_root :: string
  sth_tree_size :: nat
  sth_timestamp :: int
  sth_log_id :: string
  sth_signature :: string

definition canonical_bytes :: "('pk, 'sig) rekor_env \<Rightarrow> rekor_sth \<Rightarrow> string" where
  "canonical_bytes env sth =
     STH_DOMAIN_PREFIX #
     ciborium_write env
       (CMap [(CText ''v'', CInteger 1), (CText ''ctx'', CText STH_CONTEXT),
              (CText ''log_id'', CBytes (sth_log_id sth)),
              (CText ''tree_size'', CInteger (int (sth_tree_size sth))),
              (CText ''tree_root'', CBytes (sth_tree_root sth)),
              (CText ''ts'', CInteger (sth_timestamp sth))])"

record 'pk rekor_key_entry =
  rk_log_id :: string
  rk_key_bytes :: string
  rk_verifying_key :: 'pk
  rk_valid_from :: int
  rk_valid_until :: int

type_synonym 'pk rekor_key_set = "'pk rekor_key_entry list"

definition ALLOWED_LOG_IDS :: "string list" where "ALLOWED_LOG_IDS = []"

definition insert_checked ::
  "('pk, 'sig) rekor_env \<Rightarrow> 'pk rekor_key_set \<Rightarrow> string \<Rightarrow> 'pk \<Rightarrow> int \<Rightarrow> int \<Rightarrow>
   (rekor_error + unit) \<times> 'pk rekor_key_set" where
  "insert_checked env entries log_id key valid_from valid_until =
     (if valid_until < valid_from then (Inl (RekorProofInvalid ''key validity window inverted''), entries)
      else
        (let key_bytes = vk_to_bytes env key in
         if list_ex (\<lambda>e. rk_log_id e = log_id \<and> rk_key_bytes e = key_bytes) entries then (Inr (), entries)
         else (Inr (), entries @ [\<lparr>rk_log_id = log_id, rk_key_bytes = key_bytes, rk_verifying_key = key,
                                   rk_valid_from = valid_from, rk_valid_until = valid_until\<rparr>])))"

definition insert_trusted_key ::
  "('pk, 'sig) rekor_env \<Rightarrow> 'pk rekor_key_set \<Rightarrow> string \<Rightarrow> 'pk \<Rightarrow> int \<Rightarrow> int \<Rightarrow>
   (rekor_error + unit) \<times> 'pk rekor_key_set" where
  "insert_trusted_key env entries log_id key valid_from valid_until =
     (if log_id \<notin> set ALLOWED_LOG_IDS then (Inl (RekorLogUntrusted log_id), entries)
      else insert_checked env entries log_id key valid_from valid_until)"

text \<open>\<open>Iterator::max_by_key\<close>: of several maxima, the last.\<close>

definition max_by_key :: "('a \<Rightarrow> int) \<Rightarrow> 'a list \<Rightarrow> 'a option" where
  "max_by_key key xs =
     (case xs of [] \<Rightarrow> None | x # xs \<Rightarrow> Some (foldl (\<lambda>a b. if key a \<le> key b then b else a) x xs))"

definition covers :: "string \<Rightarrow> int \<Rightarrow> 'pk rekor_key_entry \<Rightarrow> bool" where
  "covers log_id ts e \<longleftrightarrow> rk_log_id e = log_id \<and> rk_valid_from e \<le> ts \<and> ts \<le> rk_valid_until e"

definition find_for_timestamp :: "'pk rekor_key_set \<Rightarrow> string \<Rightarrow> int \<Rightarrow> 'pk option" where
  "find_for_timestamp entries log_id ts =
     map_option rk_verifying_key (max_by_key rk_valid_from (filter (covers log_id ts) entries))"

definition verify_rekor_sth ::
  "('pk, 'sig) rekor_env \<Rightarrow> rekor_sth \<Rightarrow> 'pk rekor_key_set \<Rightarrow> int \<Rightarrow> nat \<Rightarrow> rekor_error + unit" where
  "verify_rekor_sth env sth keys current_time max_age =
     (if current_time < sth_timestamp sth then Inl (RekorProofInvalid ''STH timestamp is in the future'')
      else
        (case find_for_timestamp keys (sth_log_id sth) (sth_timestamp sth) of
           None \<Rightarrow> Inl (RekorLogUntrusted (sth_log_id sth))
         | Some vk \<Rightarrow>
             (case ed_signature env (sth_signature sth) of
                None \<Rightarrow> Inl (RekorProofInvalid ''STH signature malformed'')
              | Some sig \<Rightarrow>
                  if \<not> ed_verify_strict env vk (canonical_bytes env sth) sig
                  then Inl (RekorProofInvalid ''STH signature verification failed'')
                  else
                    (let age_secs = sat_sub current_time (sth_timestamp sth);
                         age_u = (if age_secs < 0 then 2 ^ 64 - 1 else nat age_secs)
                     in if max_age < age_u then Inl (RekorSthStale age_u max_age) else Inr ()))))"

section \<open>The newest covering key\<close>

lemma max_by_key_foldl:
  "\<exists>pre post. x # xs = pre @ foldl (\<lambda>a b. if key a \<le> key b then b else a) x xs # post \<and>
     (\<forall>y\<in>set pre. (key y :: int) \<le> key (foldl (\<lambda>a b. if key a \<le> key b then b else a) x xs)) \<and>
     (\<forall>y\<in>set post. key y < key (foldl (\<lambda>a b. if key a \<le> key b then b else a) x xs))"
proof (induction xs rule: rev_induct)
  case Nil
  show ?case by (rule exI [of _ "[]"]) simp
next
  case (snoc y ys)
  let ?m = "foldl (\<lambda>a b. if key a \<le> key b then b else a) x ys"
  from snoc.IH obtain pre post where IH: "x # ys = pre @ ?m # post" "\<forall>z\<in>set pre. key z \<le> key ?m"
      "\<forall>z\<in>set post. key z < key ?m" by blast
  show ?case
  proof (cases "key ?m \<le> key y")
    case True
    have "\<forall>z\<in>set (x # ys). key z \<le> key y" using IH True by fastforce
    then show ?thesis using True by (intro exI [of _ "x # ys"] exI [of _ "[]"]) simp
  next
    case False
    then show ?thesis using IH by (intro exI [of _ pre] exI [of _ "post @ [y]"]) auto
  qed
qed

definition last_max :: "('a \<Rightarrow> int) \<Rightarrow> 'a list \<Rightarrow> 'a \<Rightarrow> 'a list \<Rightarrow> bool" where
  "last_max key pre x post \<longleftrightarrow> (\<forall>y\<in>set pre. key y \<le> key x) \<and> (\<forall>y\<in>set post. key y < key x)"

lemma last_max_unique:
  assumes eq: "pre @ x # post = pre' @ x' # post'" and m: "last_max key pre x post" "last_max key pre' x' post'"
  shows "x = x'"
proof -
  from eq obtain us where "pre = pre' @ us \<and> us @ x # post = x' # post' \<or> pre @ us = pre' \<and> x # post = us @ x' # post'"
    by (auto simp: append_eq_append_conv2)
  then show ?thesis
  proof (elim disjE conjE)
    assume "pre = pre' @ us" "us @ x # post = x' # post'"
    then have "us = [] \<Longrightarrow> x = x'" "us \<noteq> [] \<Longrightarrow> x' \<in> set pre \<and> x \<in> set post'"
      by (auto simp: append_eq_Cons_conv)
    then show ?thesis using m unfolding last_max_def by (cases "us = []") fastforce+
  next
    assume "pre @ us = pre'" "x # post = us @ x' # post'"
    then have "us = [] \<Longrightarrow> x = x'" "us \<noteq> [] \<Longrightarrow> x \<in> set pre' \<and> x' \<in> set post"
      by (auto simp: Cons_eq_append_conv)
    then show ?thesis using m unfolding last_max_def by (cases "us = []") fastforce+
  qed
qed

lemma filter_eq_append:
  "filter P xs = ys @ e # zs \<Longrightarrow> \<exists>pre post. xs = pre @ e # post \<and> P e \<and> filter P pre = ys \<and> filter P post = zs"
proof (induction ys arbitrary: xs)
  case Nil
  then show ?case by (auto simp: filter_eq_Cons_iff filter_empty_conv)
next
  case (Cons y ys)
  then obtain us vs where xs: "xs = us @ y # vs" "\<forall>u\<in>set us. \<not> P u" "P y" "ys @ e # zs = filter P vs"
    by (auto simp: filter_eq_Cons_iff)
  with Cons.IH [of vs] obtain pre post where "vs = pre @ e # post" "P e" "filter P pre = ys" "filter P post = zs" by auto
  with xs show ?case by (intro exI [of _ "us @ y # pre"] exI [of _ post]) simp
qed

lemma max_by_key_last_max: "xs \<noteq> [] \<Longrightarrow> \<exists>m pre post. max_by_key key xs = Some m \<and> xs = pre @ m # post \<and> last_max key pre m post"
proof (cases xs)
  case (Cons x ys)
  from max_by_key_foldl [of x ys key] show ?thesis
    unfolding Cons max_by_key_def last_max_def by (simp only: list.case) blast
qed simp

lemma max_by_key_iff: "max_by_key key xs = Some m \<longleftrightarrow> (\<exists>pre post. xs = pre @ m # post \<and> last_max key pre m post)"
proof
  show "max_by_key key xs = Some m \<Longrightarrow> \<exists>pre post. xs = pre @ m # post \<and> last_max key pre m post"
    using max_by_key_last_max [of xs key] by (cases "xs = []") (auto simp: max_by_key_def)
next
  assume "\<exists>pre post. xs = pre @ m # post \<and> last_max key pre m post"
  then obtain pre post where xs: "xs = pre @ m # post" "last_max key pre m post" by blast
  then obtain m' pre' post' where "max_by_key key xs = Some m'" "xs = pre' @ m' # post'" "last_max key pre' m' post'"
    using max_by_key_last_max [of xs key] by blast
  with xs show "max_by_key key xs = Some m" using last_max_unique [of pre m post pre' m' post' key] by metis
qed

text \<open>The entry that decides: it covers the time, no covering entry before it is newer and every
  covering entry after it is strictly older.\<close>

definition newest_covering :: "'pk rekor_key_set \<Rightarrow> string \<Rightarrow> int \<Rightarrow> 'pk rekor_key_entry \<Rightarrow> bool" where
  "newest_covering keys log_id ts e \<longleftrightarrow>
     (\<exists>pre post. keys = pre @ e # post \<and> covers log_id ts e \<and>
        last_max rk_valid_from (filter (covers log_id ts) pre) e (filter (covers log_id ts) post))"

lemma find_for_timestamp_iff:
  "find_for_timestamp keys log_id ts = Some vk \<longleftrightarrow>
   (\<exists>e. newest_covering keys log_id ts e \<and> vk = rk_verifying_key e)"
proof -
  have "max_by_key rk_valid_from (filter (covers log_id ts) keys) = Some e \<longleftrightarrow> newest_covering keys log_id ts e" for e
    unfolding max_by_key_iff newest_covering_def
    using filter_eq_append [of "covers log_id ts" keys _ e] by fastforce
  then show ?thesis by (auto simp: find_for_timestamp_def)
qed

section \<open>Registration\<close>

text \<open>A registry as a caller builds it: requests into the empty set, refused ones included.\<close>

type_synonym 'pk key_request = "string \<times> 'pk \<times> int \<times> int"

definition register ::
  "('pk rekor_key_set \<Rightarrow> string \<Rightarrow> 'pk \<Rightarrow> int \<Rightarrow> int \<Rightarrow> (rekor_error + unit) \<times> 'pk rekor_key_set) \<Rightarrow>
   'pk key_request list \<Rightarrow> 'pk rekor_key_set" where
  "register ins reqs = foldl (\<lambda>ks (lid, k, a, b). snd (ins ks lid k a b)) [] reqs"

definition request_entry :: "('pk, 'sig) rekor_env \<Rightarrow> 'pk key_request \<Rightarrow> 'pk rekor_key_entry" where
  "request_entry env = (\<lambda>(lid, k, a, b).
     \<lparr>rk_log_id = lid, rk_key_bytes = vk_to_bytes env k, rk_verifying_key = k, rk_valid_from = a, rk_valid_until = b\<rparr>)"

definition same_key :: "string \<Rightarrow> string \<Rightarrow> 'pk rekor_key_entry \<Rightarrow> bool" where
  "same_key lid bytes e \<longleftrightarrow> rk_log_id e = lid \<and> rk_key_bytes e = bytes"

definition window_ok :: "'pk rekor_key_entry \<Rightarrow> bool" where
  "window_ok e \<longleftrightarrow> rk_valid_from e \<le> rk_valid_until e"

lemma insert_checked_cases:
  "snd (insert_checked env ks lid k a b) =
     (let e = request_entry env (lid, k, a, b) in
      if window_ok e \<and> \<not> list_ex (same_key lid (vk_to_bytes env k)) ks then ks @ [e] else ks)"
  by (simp add: insert_checked_def request_entry_def window_ok_def same_key_def Let_def cong: list_ex_cong)

lemma register_snoc:
  "register (insert_checked env) (reqs @ [(lid, k, a, b)]) =
     (let ks = register (insert_checked env) reqs; e = request_entry env (lid, k, a, b) in
      if window_ok e \<and> \<not> list_ex (same_key lid (vk_to_bytes env k)) ks then ks @ [e] else ks)"
  by (simp add: register_def insert_checked_cases Let_def)

lemma find_list_ex: "\<not> list_ex P xs \<Longrightarrow> List.find P (xs @ ys) = List.find P ys"
  by (induction xs) auto

lemma find_append_hit: "List.find P xs = Some x \<Longrightarrow> List.find P (xs @ ys) = Some x"
  by (induction xs) (auto split: if_splits)

lemma find_None_list_ex: "List.find P xs = None \<longleftrightarrow> \<not> list_ex P xs"
  by (auto simp: find_None_iff list_ex_iff)

text \<open>The registry that a series of \<open>insert_checked\<close> calls builds holds each pair of log and key
  bytes at most once, only windows that are not inverted, and for every pair the first valid request
  for it: a later registration can neither replace a key nor move its window.\<close>

theorem key_set_first_wins:
  "distinct (map (\<lambda>e. (rk_log_id e, rk_key_bytes e)) (register (insert_checked env) reqs)) \<and>
   list_all window_ok (register (insert_checked env) reqs) \<and>
   (\<forall>lid bytes. List.find (same_key lid bytes) (register (insert_checked env) reqs) =
      List.find (same_key lid bytes) (filter window_ok (map (request_entry env) reqs)))"
proof (induction reqs rule: rev_induct)
  case Nil
  show ?case by (simp add: register_def)
next
  case (snoc r reqs)
  obtain lid k a b where r: "r = (lid, k, a, b)" by (cases r)
  let ?ks = "register (insert_checked env) reqs" and ?e = "request_entry env (lid, k, a, b)"
  have e: "rk_log_id ?e = lid" "rk_key_bytes ?e = vk_to_bytes env k" by (simp_all add: request_entry_def)
  have find: "List.find (same_key i c) ?ks = List.find (same_key i c) (filter window_ok (map (request_entry env) reqs))" for i c
    using snoc.IH by blast
  have step: "List.find (same_key i c) (register (insert_checked env) (reqs @ [r])) =
      List.find (same_key i c) (filter window_ok (map (request_entry env) (reqs @ [r])))" for i c
  proof (cases "List.find (same_key i c) ?ks")
    case None
    have ex: "\<not> list_ex (same_key i c) ?ks"
        "\<not> list_ex (same_key i c) (filter window_ok (map (request_entry env) reqs))"
      using find [of i c] None by (simp_all add: find_None_list_ex [symmetric])
    have hit: "same_key i c ?e \<longleftrightarrow> i = lid \<and> c = vk_to_bytes env k" by (auto simp: same_key_def e)
    show ?thesis
      using ex None hit by (cases "i = lid \<and> c = vk_to_bytes env k") (simp_all add: r register_snoc Let_def find_list_ex)
  next
    case (Some x)
    then show ?thesis using find [of i c] by (simp add: r register_snoc Let_def find_append_hit)
  qed
  have "distinct (map (\<lambda>e. (rk_log_id e, rk_key_bytes e)) (register (insert_checked env) (reqs @ [r])))"
    using snoc.IH by (auto simp: r register_snoc Let_def e same_key_def list_ex_iff)
  moreover have "list_all window_ok (register (insert_checked env) (reqs @ [r]))"
    using snoc.IH by (simp add: r register_snoc Let_def)
  ultimately show ?case using step by blast
qed

section \<open>The properties of tree-head verification\<close>

text \<open>The key of the registry that speaks for a log at the time of a tree head: of the entries of this log whose window
  holds that time, ends included, the one that is valid from the latest, and of several such the one registered last.\<close>

definition entitled :: "'pk rekor_key_entry \<Rightarrow> rekor_sth \<Rightarrow> bool" where
  "entitled e sth \<longleftrightarrow>
     rk_log_id e = sth_log_id sth \<and> rk_valid_from e \<le> sth_timestamp sth \<and> sth_timestamp sth \<le> rk_valid_until e"

definition speaks_for :: "'pk rekor_key_set \<Rightarrow> rekor_sth \<Rightarrow> 'pk \<Rightarrow> bool" where
  "speaks_for keys sth key \<longleftrightarrow>
     (\<exists>i < length keys. rk_verifying_key (keys ! i) = key \<and> entitled (keys ! i) sth \<and>
        (\<forall>j < length keys. entitled (keys ! j) sth \<longrightarrow>
           rk_valid_from (keys ! j) < rk_valid_from (keys ! i) \<or>
           rk_valid_from (keys ! j) = rk_valid_from (keys ! i) \<and> j \<le> i))"

text \<open>The bytes a tree head is signed over: a byte 2 and the six fields in this order.\<close>

definition signed_text :: "('pk, 'sig) rekor_env \<Rightarrow> rekor_sth \<Rightarrow> string" where
  "signed_text env sth =
     CHR 0x02 # ciborium_write env
       (CMap [(CText ''v'', CInteger 1), (CText ''ctx'', CText ''ephemeral-rekor-sth-v1''),
              (CText ''log_id'', CBytes (sth_log_id sth)), (CText ''tree_size'', CInteger (int (sth_tree_size sth))),
              (CText ''tree_root'', CBytes (sth_tree_root sth)), (CText ''ts'', CInteger (sth_timestamp sth))])"

lemma signed_text_eq: "canonical_bytes env sth = signed_text env sth"
  by (simp add: canonical_bytes_def signed_text_def STH_DOMAIN_PREFIX_def STH_CONTEXT_def char_of_def bit_iff_odd)

lemma last_max_nth:
  "(\<exists>pre post. xs = pre @ e # post \<and> P e \<and> last_max key (filter P pre) e (filter P post)) \<longleftrightarrow>
   (\<exists>i < length xs. xs ! i = e \<and> P e \<and>
      (\<forall>j < length xs. P (xs ! j) \<longrightarrow> key (xs ! j) < key e \<or> key (xs ! j) = key e \<and> j \<le> i))"
proof
  assume "\<exists>pre post. xs = pre @ e # post \<and> P e \<and> last_max key (filter P pre) e (filter P post)"
  then obtain pre post where xs: "xs = pre @ e # post" "P e" "last_max key (filter P pre) e (filter P post)" by blast
  have "key (xs ! j) < key e \<or> key (xs ! j) = key e \<and> j \<le> length pre" if j: "j < length xs" "P (xs ! j)" for j
  proof (cases j "length pre" rule: linorder_cases)
    case less
    then have "xs ! j \<in> set (filter P pre)" using j by (simp add: xs(1) nth_append)
    with less xs(3) show ?thesis by (auto simp: last_max_def)
  next
    case greater
    then have "xs ! j = post ! (j - length pre - 1)" by (simp add: xs(1) nth_append nth_Cons')
    moreover have "j - length pre - 1 < length post" using greater j(1) by (simp add: xs(1))
    ultimately have "xs ! j \<in> set (filter P post)" using j(2) by simp
    with xs(3) show ?thesis by (auto simp: last_max_def)
  qed (simp add: xs(1))
  with xs show "\<exists>i < length xs. xs ! i = e \<and> P e \<and>
      (\<forall>j < length xs. P (xs ! j) \<longrightarrow> key (xs ! j) < key e \<or> key (xs ! j) = key e \<and> j \<le> i)"
    by (intro exI [of _ "length pre"]) simp
next
  assume "\<exists>i < length xs. xs ! i = e \<and> P e \<and>
      (\<forall>j < length xs. P (xs ! j) \<longrightarrow> key (xs ! j) < key e \<or> key (xs ! j) = key e \<and> j \<le> i)"
  then obtain i where i: "i < length xs" "xs ! i = e" "P e"
      "\<And>j. j < length xs \<Longrightarrow> P (xs ! j) \<Longrightarrow> key (xs ! j) < key e \<or> key (xs ! j) = key e \<and> j \<le> i"
    by blast
  have "xs = take i xs @ e # drop (Suc i) xs" using i(1,2) by (metis id_take_nth_drop)
  moreover have "key y \<le> key e" if y: "y \<in> set (filter P (take i xs))" for y
  proof -
    from y obtain j where "j < i" "y = xs ! j" "P y" using i(1) by (auto simp: in_set_conv_nth)
    with i(1) i(4) [of j] show ?thesis by auto
  qed
  moreover have "key y < key e" if y: "y \<in> set (filter P (drop (Suc i) xs))" for y
  proof -
    from y obtain k where "k < length xs - Suc i" "y = xs ! (Suc i + k)" "P y" by (auto simp: in_set_conv_nth)
    with i(4) [of "Suc i + k"] show ?thesis by auto
  qed
  ultimately show "\<exists>pre post. xs = pre @ e # post \<and> P e \<and> last_max key (filter P pre) e (filter P post)"
    using i(3) unfolding last_max_def by blast
qed

lemma speaks_for_iff: "find_for_timestamp keys (sth_log_id sth) (sth_timestamp sth) = Some key \<longleftrightarrow> speaks_for keys sth key"
proof -
  have covers: "covers (sth_log_id sth) (sth_timestamp sth) = (\<lambda>e. entitled e sth)" by (simp add: fun_eq_iff covers_def entitled_def)
  have "newest_covering keys (sth_log_id sth) (sth_timestamp sth) e \<longleftrightarrow>
      (\<exists>i < length keys. keys ! i = e \<and> entitled e sth \<and>
         (\<forall>j < length keys. entitled (keys ! j) sth \<longrightarrow>
            rk_valid_from (keys ! j) < rk_valid_from e \<or> rk_valid_from (keys ! j) = rk_valid_from e \<and> j \<le> i))" for e
    using last_max_nth [of keys e "\<lambda>e. entitled e sth" rk_valid_from] unfolding newest_covering_def covers .
  moreover have "(\<exists>e. (\<exists>i < n. keys ! i = e \<and> Q e i) \<and> key = f e) \<longleftrightarrow> (\<exists>i < n. f (keys ! i) = key \<and> Q (keys ! i) i)" for n Q f
    by auto
  ultimately show ?thesis unfolding find_for_timestamp_iff speaks_for_def by simp
qed

text \<open>C40: \<open>verify_rekor_sth\<close> accepts exactly the tree heads that are not from the future, are no older than the caller
  allows (the age saturating at \<open>i64::MAX\<close>), and carry a signature that verifies strictly, over the byte 2 and the six
  signed fields, under the one key of the registry that speaks for the log at that time.  While an old and a new key of a
  log overlap, only the new one does: a head signed with the old key inside the overlap is refused.\<close>

theorem sth_accepted_iff:
  "verify_rekor_sth env sth keys now max_age = Inr () \<longleftrightarrow>
     sth_timestamp sth \<le> now \<and> min (now - sth_timestamp sth) i64_max \<le> int max_age \<and>
     (\<exists>key sig. speaks_for keys sth key \<and> ed_signature env (sth_signature sth) = Some sig \<and>
        ed_verify_strict env key (signed_text env sth) sig)"
proof (cases "sth_timestamp sth \<le> now")
  case False
  then show ?thesis by (simp add: verify_rekor_sth_def)
next
  case True
  then have age: "sat_sub now (sth_timestamp sth) = min (now - sth_timestamp sth) i64_max"
    and nonneg: "0 \<le> min (now - sth_timestamp sth) i64_max"
    by (auto simp: sat_sub_def clamp_i64_def i64_max_def i64_min_def)
  show ?thesis
    unfolding speaks_for_iff [symmetric] signed_text_eq [symmetric]
    using True nonneg by (auto simp: verify_rekor_sth_def age Let_def not_less split: option.splits if_splits)
qed

text \<open>On the production path the registry stays empty whatever is offered, since no log id is
  allowed yet, so \<open>verify_rekor_sth\<close> fails closed: it refuses every tree head, the future ones first.\<close>

theorem production_fail_closed:
  "register (insert_trusted_key env) reqs = [] \<and>
   verify_rekor_sth env sth (register (insert_trusted_key env) reqs) now max_age =
     Inl (if now < sth_timestamp sth then RekorProofInvalid ''STH timestamp is in the future''
          else RekorLogUntrusted (sth_log_id sth))"
proof -
  have "register (insert_trusted_key env) reqs = []"
    by (induction reqs rule: rev_induct)
      (auto simp: register_def insert_trusted_key_def ALLOWED_LOG_IDS_def split: prod.splits)
  then show ?thesis by (simp add: verify_rekor_sth_def find_for_timestamp_def max_by_key_def)
qed

end
