(* ===== verification/Core_Float.thy ===== *)
theory Core_Float
  imports Prelude
begin

text \<open>
  The floating-point part of \<open>ephemeral-core/src/cbor/mod.rs\<close>.  An \<open>f64\<close>, \<open>f32\<close> or \<open>f16\<close> is its
  IEEE 754 bit pattern, a natural number below \<open>2 ^ 64\<close>, \<open>2 ^ 32\<close>, \<open>2 ^ 16\<close>; shifts and masks are
  quotients and remainders, and an OR of disjoint fields is their sum.  The casts between \<open>f64\<close> and
  \<open>f32\<close> are those of the language: exact widening and rounding to nearest, ties to even.
\<close>

section \<open>Fields of a binary64\<close>

definition f64_sign :: "nat \<Rightarrow> nat" where "f64_sign f = f div 2 ^ 63 mod 2"
definition f64_exp :: "nat \<Rightarrow> nat" where "f64_exp f = f div 2 ^ 52 mod 2048"
definition f64_mant :: "nat \<Rightarrow> nat" where "f64_mant f = f mod 2 ^ 52"

definition is_nan :: "nat \<Rightarrow> bool" where
  "is_nan f \<longleftrightarrow> f64_exp f = 2047 \<and> f64_mant f \<noteq> 0"

definition is_infinite :: "nat \<Rightarrow> bool" where
  "is_infinite f \<longleftrightarrow> f64_exp f = 2047 \<and> f64_mant f = 0"

definition pack64 :: "nat \<Rightarrow> nat \<Rightarrow> nat \<Rightarrow> nat" where
  "pack64 s e m = s * 2 ^ 63 + e * 2 ^ 52 + m"

section \<open>Half precision (f64\_to\_f16\_exact, f16\_bits\_to\_f64)\<close>

definition f64_to_f16_exact :: "nat \<Rightarrow> nat option" where
  "f64_to_f16_exact f =
     (let sign = f64_sign f; exp_f64 = f64_exp f; mantissa = f64_mant f in
      if exp_f64 = 0 \<and> mantissa = 0 then Some (sign * 2 ^ 15)
      else if exp_f64 = 0 then None
      else
        let unbiased = int exp_f64 - 1023 in
        if - 14 \<le> unbiased \<and> unbiased \<le> 15 then
          (if mantissa mod 2 ^ 42 \<noteq> 0 then None
           else Some (sign * 2 ^ 15 + nat (unbiased + 15) * 2 ^ 10 + mantissa div 2 ^ 42 mod 1024))
        else if - 24 \<le> unbiased \<and> unbiased \<le> - 15 then
          (let combined = 2 ^ 52 + mantissa; k = nat (- 14 - unbiased); shift = 42 + k in
           if combined mod 2 ^ shift \<noteq> 0 then None
           else Some (sign * 2 ^ 15 + combined div 2 ^ shift))
        else None)"

text \<open>The double \<open>m * 2 ^ -24\<close> for \<open>0 < m < 1024\<close>: the product \<open>2.0.powi(-14) * (m / 1024.0)\<close>,
  each factor and the result being exact.\<close>

definition f64_of_scaled :: "nat \<Rightarrow> nat" where
  "f64_of_scaled m = (let p = ilog2 m in pack64 0 (999 + p) ((m - 2 ^ p) * 2 ^ (52 - p)))"

definition f64_neg :: "nat \<Rightarrow> nat" where
  "f64_neg f = (if f < 2 ^ 63 then f + 2 ^ 63 else f - 2 ^ 63)"

definition F64_INFINITY :: nat where "F64_INFINITY = pack64 0 2047 0"
definition F64_NEG_INFINITY :: nat where "F64_NEG_INFINITY = pack64 1 2047 0"
definition F64_NAN :: nat where "F64_NAN = pack64 0 2047 (2 ^ 51)"

definition f16_bits_to_f64 :: "nat \<Rightarrow> nat" where
  "f16_bits_to_f64 bits =
     (let sign = bits div 2 ^ 15 mod 2; e = bits div 2 ^ 10 mod 32; mantissa = bits mod 1024 in
      if e = 0 then
        (if mantissa = 0 then sign * 2 ^ 63
         else let abs = f64_of_scaled mantissa in if sign = 1 then f64_neg abs else abs)
      else if e = 31 then
        (if mantissa = 0 then (if sign = 1 then F64_NEG_INFINITY else F64_INFINITY) else F64_NAN)
      else pack64 sign (e + 1008) (mantissa * 2 ^ 42))"

section \<open>Single precision (the casts of the language)\<close>

text \<open>\<open>s div 2 ^ k\<close>, rounded to nearest with ties to even.\<close>

definition round_even :: "nat \<Rightarrow> nat \<Rightarrow> nat" where
  "round_even s k =
     (let q = s div 2 ^ k; r = s mod 2 ^ k in
      if 2 ^ k < 2 * r \<or> 2 ^ k = 2 * r \<and> odd q then q + 1 else q)"

text \<open>\<open>f as f32\<close>: a carry out of the rounded significand moves into the exponent field; from
  \<open>255 * 2 ^ 23\<close> on the result is an infinity.  A NaN keeps the top of its payload and is quieted.\<close>

definition f64_as_f32 :: "nat \<Rightarrow> nat" where
  "f64_as_f32 f =
     (let sign = f64_sign f; e = f64_exp f; m = f64_mant f in
      sign * 2 ^ 31 +
      (if e = 2047 then
         (if m = 0 then 255 * 2 ^ 23 else 255 * 2 ^ 23 + 2 ^ 22 + m div 2 ^ 29 mod 2 ^ 22)
       else if e = 0 then 0
       else if 897 \<le> e then min (255 * 2 ^ 23) ((e - 897) * 2 ^ 23 + round_even (2 ^ 52 + m) 29)
       else round_even (2 ^ 52 + m) (29 + (897 - e))))"

text \<open>\<open>f64::from(x: f32)\<close>.\<close>

definition f32_to_f64 :: "nat \<Rightarrow> nat" where
  "f32_to_f64 bits =
     (let sign = bits div 2 ^ 31 mod 2; e = bits div 2 ^ 23 mod 256; m = bits mod 2 ^ 23 in
      if e = 0 then
        (if m = 0 then pack64 sign 0 0
         else let p = ilog2 m in pack64 sign (874 + p) ((m - 2 ^ p) * 2 ^ (52 - p)))
      else if e = 255 then
        (if m = 0 then pack64 sign 2047 0 else pack64 sign 2047 (2 ^ 51 + m mod 2 ^ 22 * 2 ^ 29))
      else pack64 sign (e + 896) (m * 2 ^ 29))"

definition f64_to_f32_exact :: "nat \<Rightarrow> nat option" where
  "f64_to_f32_exact f = (let as_f32 = f64_as_f32 f in if f32_to_f64 as_f32 = f then Some as_f32 else None)"

section \<open>Packing and unpacking\<close>

text \<open>Three fields of sizes \<open>2\<close>, \<open>A\<close> and \<open>B\<close>, once for all widths.\<close>

lemma three_fields:
  fixes s e m A B :: nat
  assumes "s < 2" "e < A" "m < B"
  shows "(s * (A * B) + e * B + m) div (A * B) mod 2 = s" "(s * (A * B) + e * B + m) div B mod A = e"
    "(s * (A * B) + e * B + m) mod B = m" "s * (A * B) + e * B + m < 2 * (A * B)"
proof -
  have x: "s * (A * B) + e * B + m = m + B * (e + A * s)" by (simp add: algebra_simps)
  have dd: "y div (A * B) = y div B div A" for y by (simp add: mult.commute [of A B] div_mult2_eq)
  have d: "(m + B * (e + A * s)) div B = e + A * s" using assms(3) by simp
  show "(s * (A * B) + e * B + m) div (A * B) mod 2 = s"
    unfolding dd unfolding x d using assms by simp
  show "(s * (A * B) + e * B + m) div B mod A = e" unfolding x d using assms by simp
  show "(s * (A * B) + e * B + m) mod B = m" unfolding x mod_mult_self2 using assms by simp
  have "e + A * s < A * 2" using assms by (auto simp: less_2_cases_iff)
  then have "B * Suc (e + A * s) \<le> B * (A * 2)" by (intro mult_le_mono) simp_all
  then show "s * (A * B) + e * B + m < 2 * (A * B)" unfolding x using assms(3) by (simp add: algebra_simps)
qed

lemma three_unpack:
  fixes x A B :: nat
  assumes "x < 2 * (A * B)"
  shows "x div (A * B) mod 2 * (A * B) + x div B mod A * B + x mod B = x"
proof -
  have "x div (A * B) < 2" using assms by (simp add: less_mult_imp_div_less)
  then have q: "x div (A * B) mod 2 = x div B div A" by (simp add: mult.commute [of A B] div_mult2_eq)
  define d where "d = x div B"
  have "x = d * B + x mod B" "d = d div A * A + d mod A" by (simp_all add: d_def)
  then show ?thesis unfolding q d_def [symmetric] by (metis add_mult_distrib mult.assoc)
qed

lemma pack64_fields:
  assumes "s < 2" "e < 2048" "m < 2 ^ 52"
  shows "f64_sign (pack64 s e m) = s" "f64_exp (pack64 s e m) = e" "f64_mant (pack64 s e m) = m"
    "pack64 s e m < 2 ^ 64"
  using three_fields [OF assms] by (simp_all add: pack64_def f64_sign_def f64_exp_def f64_mant_def)

lemma f64_bounds: "f64_sign f < 2" "f64_exp f < 2048" "f64_mant f < 2 ^ 52"
  by (simp_all add: f64_sign_def f64_exp_def f64_mant_def)

lemma pack64_unpack: "f < 2 ^ 64 \<Longrightarrow> pack64 (f64_sign f) (f64_exp f) (f64_mant f) = f"
  using three_unpack [of f 2048 "2 ^ 52"] by (simp add: pack64_def f64_sign_def f64_exp_def f64_mant_def)

lemma f64_eqI: "f < 2 ^ 64 \<Longrightarrow> f64_sign f = s \<Longrightarrow> f64_exp f = e \<Longrightarrow> f64_mant f = m \<Longrightarrow> pack64 s e m = f"
  using pack64_unpack by blast

text \<open>The top of a significand of \<open>p + 1\<close> bits.\<close>

lemma ilog2_unique: "2 ^ p \<le> n \<Longrightarrow> n < 2 ^ Suc p \<Longrightarrow> ilog2 n = p"
proof -
  assume n: "2 ^ p \<le> n" "n < 2 ^ Suc p"
  then have "0 < n" using less_le_trans [of 0 "2 ^ p" n] by simp
  note b = ilog2_bounds [OF this]
  have "2 ^ p < (2 :: nat) ^ Suc (ilog2 n)" "(2 :: nat) ^ ilog2 n < 2 ^ Suc p" using n b by linarith+
  then have "p < Suc (ilog2 n)" "ilog2 n < Suc p"
    by (simp_all only: power_strict_increasing_iff one_less_numeral_iff Num.num.simps semiring_norm)
  then show ?thesis by simp
qed

lemma pack64_neg: "s < 2 \<Longrightarrow> e < 2048 \<Longrightarrow> m < 2 ^ 52 \<Longrightarrow>
  (if s = 1 then f64_neg (pack64 0 e m) else pack64 0 e m) = pack64 s e m"
  by (auto simp: f64_neg_def pack64_def less_2_cases_iff)

section \<open>Half precision is exact in both directions\<close>

definition pack16 :: "nat \<Rightarrow> nat \<Rightarrow> nat \<Rightarrow> nat" where
  "pack16 s e m = s * 2 ^ 15 + e * 2 ^ 10 + m"

lemma pack16_fields:
  assumes "s < 2" "e < 32" "m < 1024"
  shows "pack16 s e m div 2 ^ 15 mod 2 = s" "pack16 s e m div 2 ^ 10 mod 32 = e" "pack16 s e m mod 1024 = m"
    "pack16 s e m < 2 ^ 16"
  using three_fields [OF assms] by (simp_all add: pack16_def)

lemma pack16_unpack: "h < 2 ^ 16 \<Longrightarrow> pack16 (h div 2 ^ 15 mod 2) (h div 2 ^ 10 mod 32) (h mod 1024) = h"
  using three_unpack [of h 32 1024] by (simp add: pack16_def)

definition scaled_mant :: "nat \<Rightarrow> nat" where
  "scaled_mant m = (m - 2 ^ ilog2 m) * 2 ^ (52 - ilog2 m)"

lemma scaled_mant_bound: "0 < m \<Longrightarrow> m < 2 ^ 52 \<Longrightarrow> ilog2 m < 52 \<and> scaled_mant m < 2 ^ 52"
proof -
  assume m: "0 < m" "m < 2 ^ 52"
  note b = ilog2_bounds [OF m(1)]
  then have "2 ^ ilog2 m < (2 :: nat) ^ 52" using m by linarith
  then have p: "ilog2 m < 52" by (simp only: power_strict_increasing_iff one_less_numeral_iff Num.num.simps semiring_norm)
  have "m - 2 ^ ilog2 m < 2 ^ ilog2 m" using b by auto
  then have "scaled_mant m < 2 ^ ilog2 m * 2 ^ (52 - ilog2 m)" by (simp add: scaled_mant_def)
  also have "\<dots> = 2 ^ 52" using p by (simp flip: power_add)
  finally show ?thesis using p by simp
qed

lemma f16_widen:
  assumes "s < 2" "e < 31" "m < 1024"
  shows "f16_bits_to_f64 (pack16 s e m) =
    (if e = 0 then if m = 0 then pack64 s 0 0 else pack64 s (999 + ilog2 m) (scaled_mant m)
     else pack64 s (e + 1008) (m * 2 ^ 42))"
proof -
  have "e < 32" using assms by simp
  note fields = pack16_fields [OF assms(1) this assms(3)]
  have "m \<noteq> 0 \<Longrightarrow> (if s = 1 then f64_neg (f64_of_scaled m) else f64_of_scaled m) = pack64 s (999 + ilog2 m) (scaled_mant m)"
    using scaled_mant_bound [of m] assms pack64_neg [of s "999 + ilog2 m" "scaled_mant m"]
    by (simp add: f64_of_scaled_def scaled_mant_def [symmetric] Let_def split: if_splits)
  then show ?thesis
    unfolding f16_bits_to_f64_def fields Let_def using assms by (simp add: pack64_def)
qed

lemma f16_narrow:
  assumes "s < 2" "e < 2048" "m < 2 ^ 52"
  shows "f64_to_f16_exact (pack64 s e m) =
    (if e = 0 then (if m = 0 then Some (pack16 s 0 0) else None)
     else if 1009 \<le> e \<and> e \<le> 1038 then (if m mod 2 ^ 42 \<noteq> 0 then None else Some (pack16 s (e - 1008) (m div 2 ^ 42)))
     else if 999 \<le> e \<and> e \<le> 1008 then
       (if (2 ^ 52 + m) mod 2 ^ (1051 - e) \<noteq> 0 then None else Some (pack16 s 0 ((2 ^ 52 + m) div 2 ^ (1051 - e))))
     else None)"
proof -
  have k: "42 + nat (- 14 - (int e - 1023)) = 1051 - e" if "999 \<le> e" "e \<le> 1008" using that by simp
  have n: "nat (int e - 1023 + 15) = e - 1008" if "1009 \<le> e" using that by simp
  have m: "m div 2 ^ 42 mod 1024 = m div 2 ^ 42" using assms(3) by (simp add: less_mult_imp_div_less)
  show ?thesis
    unfolding f64_to_f16_exact_def pack64_fields [OF assms] Let_def pack16_def m
    using k n by (auto simp del: nat_diff_distrib)
qed

text \<open>A significand \<open>c\<close> of 53 bits whose low bits vanish is recovered from its top.\<close>

lemma scaled_of_combined:
  assumes "2 ^ 52 \<le> c" "c < 2 ^ 53" "sh \<le> 52" "c mod 2 ^ sh = 0"
  shows "ilog2 (c div 2 ^ sh) = 52 - sh" "scaled_mant (c div 2 ^ sh) = c - 2 ^ 52" "0 < c div 2 ^ sh"
    "c div 2 ^ sh < 2 ^ (53 - sh)"
proof -
  obtain q where c: "c = q * 2 ^ sh" using assms(4) by (metis mod_0_imp_dvd dvd_div_mult_self)
  have P: "2 ^ 52 = (2 :: nat) ^ (52 - sh) * 2 ^ sh" "2 ^ 53 = (2 :: nat) ^ (53 - sh) * 2 ^ sh"
    using assms(3) by (simp_all flip: power_add)
  have q: "c div 2 ^ sh = q" using c by simp
  have b: "2 ^ (52 - sh) \<le> q" "q < 2 ^ (53 - sh)"
    using assms(1,2) unfolding c P by (simp_all only: mult_le_cancel2 mult_less_cancel2)
  show log: "ilog2 (c div 2 ^ sh) = 52 - sh"
    unfolding q using b assms(3) by (intro ilog2_unique) (simp_all add: Suc_diff_le [symmetric])
  show "scaled_mant (c div 2 ^ sh) = c - 2 ^ 52"
    unfolding scaled_mant_def log unfolding q unfolding c P(1) diff_mult_distrib using assms(3) by simp
  show "0 < c div 2 ^ sh" "c div 2 ^ sh < 2 ^ (53 - sh)"
    unfolding q using b less_le_trans [of 0 "2 ^ (52 - sh)" q] by simp_all
qed

text \<open>Conversely, the significand built from a short mantissa divides back into it.\<close>

lemma combined_of_scaled:
  assumes "0 < m" "m < 2 ^ 52"
  shows "2 ^ 52 + scaled_mant m = m * 2 ^ (52 - ilog2 m)"
proof -
  have p: "ilog2 m < 52" "2 ^ ilog2 m \<le> m" using scaled_mant_bound [OF assms] ilog2_bounds [OF assms(1)] by simp_all
  have "2 ^ 52 = (2 :: nat) ^ ilog2 m * 2 ^ (52 - ilog2 m)" using p(1) by (simp flip: power_add)
  moreover have "2 ^ ilog2 m * 2 ^ (52 - ilog2 m) \<le> m * 2 ^ (52 - ilog2 m)" using p(2) by (rule mult_le_mono1)
  ultimately show ?thesis unfolding scaled_mant_def diff_mult_distrib by simp
qed

lemma f16_sound: "f < 2 ^ 64 \<Longrightarrow> f64_to_f16_exact f = Some h \<Longrightarrow> h < 2 ^ 16 \<and> f16_bits_to_f64 h = f"
proof -
  assume f: "f < 2 ^ 64" "f64_to_f16_exact f = Some h"
  define s e m where "s = f64_sign f" and "e = f64_exp f" and "m = f64_mant f"
  have fp: "f = pack64 s e m" using pack64_unpack [OF f(1)] by (simp add: s_def e_def m_def)
  have b: "s < 2" "e < 2048" "m < 2 ^ 52" using f64_bounds [of f] by (simp_all add: s_def e_def m_def)
  from f(2) [unfolded fp f16_narrow [OF b]] consider
      "e = 0" "m = 0" "h = pack16 s 0 0"
    | "1009 \<le> e" "e \<le> 1038" "m mod 2 ^ 42 = 0" "h = pack16 s (e - 1008) (m div 2 ^ 42)"
    | "999 \<le> e" "e \<le> 1008" "(2 ^ 52 + m) mod 2 ^ (1051 - e) = 0" "h = pack16 s 0 ((2 ^ 52 + m) div 2 ^ (1051 - e))"
    by (auto split: if_splits)
  then show ?thesis
  proof cases
    case 1
    then show ?thesis using b f16_widen [of s 0 0] pack16_fields(4) [of s 0 0] fp by simp
  next
    case 2
    have "m div 2 ^ 42 < 1024" using b(3) by (simp add: less_mult_imp_div_less)
    moreover have "e - 1008 < 31" "e - 1008 \<noteq> 0" using 2 by auto
    moreover have "m div 2 ^ 42 * 2 ^ 42 = m" using 2(3) by (simp add: mod_eq_0_iff_dvd)
    ultimately show ?thesis
      using b f16_widen [of s "e - 1008" "m div 2 ^ 42"] pack16_fields(4) [of s "e - 1008" "m div 2 ^ 42"] fp 2 by simp
  next
    case 3
    let ?c = "2 ^ 52 + m" and ?sh = "1051 - e"
    have sh: "?sh \<le> 52" "43 \<le> ?sh" using 3 by auto
    have c: "2 ^ 52 \<le> ?c" "?c < 2 ^ 53" using b(3) by simp_all
    note S = scaled_of_combined [OF c sh(1) 3(3)]
    have "(2 :: nat) ^ (53 - ?sh) \<le> 2 ^ 10" using sh(2) by (intro power_increasing) simp_all
    with S(4) have m16: "?c div 2 ^ ?sh < 1024" by simp
    have e: "999 + ilog2 (?c div 2 ^ ?sh) = e" unfolding S(1) using 3 by simp
    show ?thesis
      using b f16_widen [of s 0, OF b(1) _ m16] pack16_fields(4) [of s 0, OF b(1) _ m16] fp 3(4) e S(2,3) by simp
  qed
qed

lemma f16_complete:
  "h < 2 ^ 16 \<Longrightarrow> h div 2 ^ 10 mod 32 \<noteq> 31 \<Longrightarrow>
   f16_bits_to_f64 h < 2 ^ 64 \<and> f64_to_f16_exact (f16_bits_to_f64 h) = Some h"
proof -
  assume h: "h < 2 ^ 16" "h div 2 ^ 10 mod 32 \<noteq> 31"
  define s e m where "s = h div 2 ^ 15 mod 2" and "e = h div 2 ^ 10 mod 32" and "m = h mod 1024"
  have hp: "h = pack16 s e m" using pack16_unpack [OF h(1)] by (simp add: s_def e_def m_def)
  have "e < 32" by (simp add: e_def)
  with h(2) have b: "s < 2" "e < 31" "m < 1024" by (simp_all add: s_def e_def m_def)
  consider "e = 0" "m = 0" | "e = 0" "0 < m" | "0 < e" by blast
  then show ?thesis
  proof cases
    case 1
    then show ?thesis
      using b hp f16_widen [OF b] f16_narrow [of s 0 0] pack64_fields(4) [of s 0 0] by simp
  next
    case 2
    have p: "ilog2 m < 10" "ilog2 m < 52" "scaled_mant m < 2 ^ 52"
    proof -
      have "2 ^ ilog2 m < (2 :: nat) ^ 10" using ilog2_bounds [OF 2(2)] b(3) by simp
      then show "ilog2 m < 10" by (simp only: power_strict_increasing_iff one_less_numeral_iff Num.num.simps semiring_norm)
      then show "ilog2 m < 52" by simp
      show "scaled_mant m < 2 ^ 52" using scaled_mant_bound [of m] 2(2) b(3) by simp
    qed
    have sh: "1051 - (999 + ilog2 m) = 52 - ilog2 m" by simp
    have c: "2 ^ 52 + scaled_mant m = m * 2 ^ (52 - ilog2 m)" using combined_of_scaled [of m] 2 b(3) by simp
    have "(m * 2 ^ (52 - ilog2 m)) mod 2 ^ (52 - ilog2 m) = 0" "m * 2 ^ (52 - ilog2 m) div 2 ^ (52 - ilog2 m) = m" by simp_all
    then have "f64_to_f16_exact (pack64 s (999 + ilog2 m) (scaled_mant m)) = Some (pack16 s 0 m)"
      using f16_narrow [of s "999 + ilog2 m" "scaled_mant m"] b p unfolding sh c by simp
    then show ?thesis
      using 2 hp f16_widen [OF b] b p pack64_fields(4) [of s "999 + ilog2 m" "scaled_mant m"] by simp
  next
    case 3
    have m: "m * 2 ^ 42 < 2 ^ 52" using b(3) by simp
    have "f64_to_f16_exact (pack64 s (e + 1008) (m * 2 ^ 42)) = Some (pack16 s e m)"
      using f16_narrow [OF b(1) _ m, of "e + 1008"] b 3 by simp
    then show ?thesis
      using 3 hp f16_widen [OF b] b m pack64_fields(4) [OF b(1) _ m, of "e + 1008"] by simp
  qed
qed

section \<open>Single precision\<close>

definition pack32 :: "nat \<Rightarrow> nat \<Rightarrow> nat \<Rightarrow> nat" where
  "pack32 s e m = s * 2 ^ 31 + e * 2 ^ 23 + m"

lemma pack32_fields:
  assumes "s < 2" "e < 256" "m < 2 ^ 23"
  shows "pack32 s e m div 2 ^ 31 mod 2 = s" "pack32 s e m div 2 ^ 23 mod 256 = e" "pack32 s e m mod 2 ^ 23 = m"
    "pack32 s e m < 2 ^ 32"
  using three_fields [OF assms] by (simp_all add: pack32_def)

lemma pack32_unpack: "b < 2 ^ 32 \<Longrightarrow> pack32 (b div 2 ^ 31 mod 2) (b div 2 ^ 23 mod 256) (b mod 2 ^ 23) = b"
  using three_unpack [of b 256 "2 ^ 23"] by (simp add: pack32_def)

lemma round_even_exact: "round_even (q * 2 ^ k) k = q"
  by (simp add: round_even_def Let_def)

lemma round_even_le: "s < q * 2 ^ k \<Longrightarrow> round_even s k \<le> q"
  using less_mult_imp_div_less [of s q "2 ^ k"] by (simp add: round_even_def Let_def)

lemma f32_widen:
  assumes "s < 2" "e < 255" "m < 2 ^ 23"
  shows "f32_to_f64 (pack32 s e m) =
    (if e = 0 then if m = 0 then pack64 s 0 0 else pack64 s (874 + ilog2 m) (scaled_mant m)
     else pack64 s (e + 896) (m * 2 ^ 29))"
proof -
  have "e < 256" using assms by simp
  note fields = pack32_fields [OF assms(1) this assms(3)]
  show ?thesis unfolding f32_to_f64_def fields Let_def scaled_mant_def using assms by simp
qed

lemma f32_narrow:
  assumes "s < 2" "e < 2047" "m < 2 ^ 52"
  shows "f64_as_f32 (pack64 s e m) = s * 2 ^ 31 +
      (if e = 0 then 0
       else if 897 \<le> e then min (255 * 2 ^ 23) ((e - 897) * 2 ^ 23 + round_even (2 ^ 52 + m) 29)
       else round_even (2 ^ 52 + m) (29 + (897 - e)))"
proof -
  have "e < 2048" using assms by simp
  note fields = pack64_fields [OF assms(1) this assms(3)]
  show ?thesis unfolding f64_as_f32_def fields Let_def using assms by simp
qed

lemma f64_as_f32_bound: "f < 2 ^ 64 \<Longrightarrow> f64_exp f \<noteq> 2047 \<Longrightarrow> f64_as_f32 f < 2 ^ 32"
proof -
  assume f: "f < 2 ^ 64" "f64_exp f \<noteq> 2047"
  let ?m = "f64_mant f" and ?e = "f64_exp f"
  have e: "?e < 2047" using f64_bounds(2) [of f] f(2) by simp
  have r: "round_even (2 ^ 52 + ?m) (29 + j) \<le> 2 ^ 24" for j
  proof (rule round_even_le)
    have "2 ^ 52 + ?m < 2 ^ 53" using f64_bounds(3) [of f] by simp
    also have "(2 :: nat) ^ 53 \<le> 2 ^ (24 + (29 + j))" by (rule power_increasing) simp_all
    finally show "2 ^ 52 + ?m < 2 ^ 24 * 2 ^ (29 + j)" by (simp only: power_add)
  qed
  have "f64_as_f32 (pack64 (f64_sign f) ?e ?m) < f64_sign f * 2 ^ 31 + 2 ^ 31"
    unfolding f32_narrow [OF f64_bounds(1) e f64_bounds(3)] using r [of "897 - ?e"] by auto
  then have "f64_as_f32 f < f64_sign f * 2 ^ 31 + 2 ^ 31" unfolding pack64_unpack [OF f(1)] .
  then show ?thesis using f64_bounds(1) [of f] by simp
qed

lemma f32_complete:
  "b < 2 ^ 32 \<Longrightarrow> b div 2 ^ 23 mod 256 \<noteq> 255 \<Longrightarrow>
   f32_to_f64 b < 2 ^ 64 \<and> f64_to_f32_exact (f32_to_f64 b) = Some b"
proof -
  assume h: "b < 2 ^ 32" "b div 2 ^ 23 mod 256 \<noteq> 255"
  define s e m where "s = b div 2 ^ 31 mod 2" and "e = b div 2 ^ 23 mod 256" and "m = b mod 2 ^ 23"
  have hp: "b = pack32 s e m" using pack32_unpack [OF h(1)] by (simp add: s_def e_def m_def)
  have "e < 256" by (simp add: e_def)
  with h(2) have b: "s < 2" "e < 255" "m < 2 ^ 23" by (simp_all add: s_def e_def m_def)
  have "f64_as_f32 (f32_to_f64 b) = b \<and> f32_to_f64 b < 2 ^ 64"
  proof (cases "e = 0")
    case False
    have m: "m * 2 ^ 29 < 2 ^ 52" "e + 896 < 2047" "897 \<le> e + 896" "e + 896 < 2048" using b False by simp_all
    have r: "round_even (2 ^ 52 + m * 2 ^ 29) 29 = 2 ^ 23 + m"
      using round_even_exact [of "2 ^ 23 + m" 29] by (simp add: algebra_simps)
    have "f64_as_f32 (pack64 s (e + 896) (m * 2 ^ 29)) = pack32 s e m"
      unfolding f32_narrow [OF b(1) m(2,1)] r pack32_def using b False by (cases e) simp_all
    then show ?thesis
      using False hp f32_widen [OF b] pack64_fields(4) [OF b(1) m(4,1)] by simp
  next
    case e0: True
    show ?thesis
    proof (cases "m = 0")
      case True
      then show ?thesis
        using e0 hp f32_widen [OF b] b(1) f32_narrow [of s 0 0] pack64_fields(4) [of s 0 0] by (simp add: pack32_def)
    next
      case False
      have "2 ^ ilog2 m < (2 :: nat) ^ 23" using ilog2_bounds [of m] False b(3) by simp
      then have p: "ilog2 m < 23" by (simp only: power_strict_increasing_iff one_less_numeral_iff Num.num.simps semiring_norm)
      have m: "0 < m" "m < 2 ^ 52" "scaled_mant m < 2 ^ 52" using False b(3) scaled_mant_bound [of m] by simp_all
      have q: "874 + ilog2 m < 2047" "874 + ilog2 m < 2048" "\<not> 897 \<le> 874 + ilog2 m" "874 + ilog2 m \<noteq> 0"
          "29 + (897 - (874 + ilog2 m)) = 52 - ilog2 m" using p by simp_all
      have "f64_as_f32 (pack64 s (874 + ilog2 m) (scaled_mant m)) = pack32 s 0 m"
        unfolding f32_narrow [OF b(1) q(1) m(3)] combined_of_scaled [OF m(1,2)] q(5) round_even_exact
        using q(3,4) by (simp add: pack32_def)
      then show ?thesis
        using e0 False hp f32_widen [OF b] pack64_fields(4) [OF b(1) q(2) m(3)] by simp
    qed
  qed
  then show ?thesis by (simp add: f64_to_f32_exact_def Let_def)
qed

lemma f16_bits_bound: "h < 2 ^ 16 \<Longrightarrow> f16_bits_to_f64 h < 2 ^ 64"
proof (cases "h div 2 ^ 10 mod 32 = 31")
  case True
  then show ?thesis
    by (simp add: f16_bits_to_f64_def Let_def F64_INFINITY_def F64_NEG_INFINITY_def F64_NAN_def pack64_def)
qed (use f16_complete in blast)

lemma f32_to_f64_bound: "b < 2 ^ 32 \<Longrightarrow> f32_to_f64 b < 2 ^ 64"
proof (cases "b div 2 ^ 23 mod 256 = 255")
  case True
  have s: "b div 2 ^ 31 mod 2 < 2" by simp
  have "b mod 2 ^ 23 mod 2 ^ 22 < 2 ^ 22" by simp
  then have m: "2 ^ 51 + b mod 2 ^ 23 mod 2 ^ 22 * 2 ^ 29 < (2 :: nat) ^ 52" by simp
  show ?thesis
    unfolding f32_to_f64_def Let_def True
    using pack64_fields(4) [OF s _ m, of 2047] pack64_fields(4) [OF s, of 2047 0] by simp
qed (use f32_complete in blast)

end
