(* ===== verification/Cbor.thy ===== *)
theory Cbor
  imports Bytes Core_Float
begin

text \<open>
  \<open>ephemeral-core/src/cbor/mod.rs\<close>: the canonical CBOR encoder and decoder over the value type of
  \<open>codec/mod.rs\<close>.  The output buffer is the string written so far, the read cursor is the rest of
  the input.  A Rust \<open>String\<close> is its UTF-8 bytes; \<open>usize\<close> has 64 bits, so the conversions between
  \<open>u64\<close> and \<open>usize\<close> do not fail.
\<close>

section \<open>Values and errors\<close>

datatype core_value =
    CvNull
  | CvBool bool
  | CvInt int
  | CvFloat nat
  | CvText string
  | CvBytes string
  | CvArray "core_value list"
  | CvMap "(core_value \<times> core_value) list"

datatype cbor_error =
    CbLimit
  | CbDepthExceeded
  | CbDuplicateMapKey
  | CbIntOutOfCborRange int
  | CbUnexpectedEof
  | CbIndefiniteLength
  | CbUnsupported nat
  | CbTrailingBytes
  | CbInvalidUtf8
  | CbTagsNotSupported
  | CbReservedAdditional

definition MAX_CBOR_BYTES :: nat where "MAX_CBOR_BYTES = 32 * 1024 * 1024"

definition MAX_CBOR_NESTING :: nat where "MAX_CBOR_NESTING = 64"

section \<open>The encoder\<close>

definition put :: "string \<Rightarrow> string \<Rightarrow> cbor_error + string" where
  "put out bytes = (if length out + length bytes > MAX_CBOR_BYTES then Inl CbLimit else Inr (out @ bytes))"

definition write_head :: "string \<Rightarrow> nat \<Rightarrow> nat \<Rightarrow> cbor_error + string" where
  "write_head out major arg =
     (let mt = major * 32 in
      if arg \<le> 23 then put out [char_of (mt + arg)]
      else if arg < 2 ^ 8 then put out (char_of (mt + 24) # be_bytes 1 arg)
      else if arg < 2 ^ 16 then put out (char_of (mt + 25) # be_bytes 2 arg)
      else if arg < 2 ^ 32 then put out (char_of (mt + 26) # be_bytes 4 arg)
      else put out (char_of (mt + 27) # be_bytes 8 arg))"

definition write_int :: "string \<Rightarrow> int \<Rightarrow> cbor_error + string" where
  "write_int out i =
     (if 0 \<le> i then (if i < 2 ^ 64 then write_head out 0 (nat i) else Inl (CbIntOutOfCborRange i))
      else (if - 1 - i < 2 ^ 64 then write_head out 1 (nat (- 1 - i)) else Inl (CbIntOutOfCborRange i)))"

abbreviation bytes_of :: "nat list \<Rightarrow> string" where
  "bytes_of \<equiv> map char_of"

definition write_float :: "string \<Rightarrow> nat \<Rightarrow> cbor_error + string" where
  "write_float out f =
     (if is_nan f then put out (bytes_of [0xf9, 0x7e, 0x00])
      else if is_infinite f then put out (bytes_of [0xf9, if f64_sign f = 1 then 0xfc else 0x7c, 0x00])
      else
        (case f64_to_f16_exact f of
           Some bits \<Rightarrow> put out (char_of (0xf9 :: nat) # be_bytes 2 bits)
         | None \<Rightarrow>
             (case f64_to_f32_exact f of
                Some bits \<Rightarrow> put out (char_of (0xfa :: nat) # be_bytes 4 bits)
              | None \<Rightarrow> put out (char_of (0xfb :: nat) # be_bytes 8 f))))"

text \<open>\<open>windows(2).any(|w| w[0].0 == w[1].0)\<close>.\<close>

fun adjacent_dup :: "(string \<times> 'a) list \<Rightarrow> bool" where
  "adjacent_dup (x # y # xs) \<longleftrightarrow> fst x = fst y \<or> adjacent_dup (y # xs)"
| "adjacent_dup _ \<longleftrightarrow> False"

fun write_pairs :: "string \<Rightarrow> (string \<times> string) list \<Rightarrow> cbor_error + string" where
  "write_pairs out [] = Inr out"
| "write_pairs out ((kb, vb) # ps) = res_bind (put out kb) (\<lambda>out. res_bind (put out vb) (\<lambda>out. write_pairs out ps))"

function (sequential)
  write_value :: "string \<Rightarrow> core_value \<Rightarrow> nat \<Rightarrow> cbor_error + string"
  and write_items :: "string \<Rightarrow> core_value list \<Rightarrow> nat \<Rightarrow> cbor_error + string"
  and write_map :: "string \<Rightarrow> (core_value \<times> core_value) list \<Rightarrow> nat \<Rightarrow> cbor_error + string"
  and encode_entries :: "(core_value \<times> core_value) list \<Rightarrow> nat \<Rightarrow> cbor_error + (string \<times> string) list"
  where
  "write_value out v depth =
     (if depth > MAX_CBOR_NESTING then Inl CbDepthExceeded
      else
        (case v of
           CvNull \<Rightarrow> put out (bytes_of [0xf6])
         | CvBool b \<Rightarrow> put out (bytes_of [if b then 0xf5 else 0xf4])
         | CvInt i \<Rightarrow> write_int out i
         | CvFloat f \<Rightarrow> write_float out f
         | CvText s \<Rightarrow> res_bind (write_head out 3 (length s)) (\<lambda>out. put out s)
         | CvBytes b \<Rightarrow> res_bind (write_head out 2 (length b)) (\<lambda>out. put out b)
         | CvArray items \<Rightarrow> res_bind (write_head out 4 (length items)) (\<lambda>out. write_items out items (depth + 1))
         | CvMap entries \<Rightarrow> write_map out entries depth))"
| "write_items out [] depth = Inr out"
| "write_items out (it # items) depth = res_bind (write_value out it depth) (\<lambda>out. write_items out items depth)"
| "write_map out entries depth =
     (if depth > MAX_CBOR_NESTING then Inl CbDepthExceeded
      else
        res_bind (encode_entries entries depth) (\<lambda>encoded.
          let encoded = sort_key fst encoded in
          if adjacent_dup encoded then Inl CbDuplicateMapKey
          else res_bind (write_head out 5 (length encoded)) (\<lambda>out. write_pairs out encoded)))"
| "encode_entries [] depth = Inr []"
| "encode_entries ((k, v) # entries) depth =
     res_bind (write_value [] k (depth + 1)) (\<lambda>kb.
     res_bind (write_value [] v (depth + 1)) (\<lambda>vb.
     res_bind (encode_entries entries depth) (\<lambda>encoded. Inr ((kb, vb) # encoded))))"
  by pat_completeness auto
termination
  by (relation "measure (\<lambda>x. case x of
        Inl (Inl (out, v, d)) \<Rightarrow> 2 * size v
      | Inl (Inr (out, its, d)) \<Rightarrow> 2 * size_list size its + 1
      | Inr (Inl (out, es, d)) \<Rightarrow> 2 * size_list (size_prod size size) es + 1
      | Inr (Inr (es, d)) \<Rightarrow> 2 * size_list (size_prod size size) es)") auto

definition encode :: "core_value \<Rightarrow> cbor_error + string" where
  "encode v = write_value [] v 0"

section \<open>The decoder\<close>

definition read_u8 :: "string \<Rightarrow> cbor_error + (nat \<times> string)" where
  "read_u8 cur = (case cur of [] \<Rightarrow> Inl CbUnexpectedEof | b # cur \<Rightarrow> Inr (byte b, cur))"

definition read_bytes :: "string \<Rightarrow> nat \<Rightarrow> cbor_error + (string \<times> string)" where
  "read_bytes cur n = (if n > length cur then Inl CbUnexpectedEof else Inr (take n cur, drop n cur))"

definition read_be :: "string \<Rightarrow> nat \<Rightarrow> cbor_error + (nat \<times> string)" where
  "read_be cur n = res_bind (read_bytes cur n) (\<lambda>(b, cur). Inr (be_val b, cur))"

definition read_head :: "string \<Rightarrow> cbor_error + ((nat \<times> nat) \<times> string)" where
  "read_head cur =
     res_bind (read_u8 cur) (\<lambda>(ib, cur).
       let major = ib div 32; ai = ib mod 32;
           with_major = (\<lambda>r. res_bind r (\<lambda>(arg, cur). Inr ((major, arg), cur)))
       in if ai \<le> 23 then Inr ((major, ai), cur)
          else if ai = 24 then with_major (read_u8 cur)
          else if ai = 25 then with_major (read_be cur 2)
          else if ai = 26 then with_major (read_be cur 4)
          else if ai = 27 then with_major (read_be cur 8)
          else if ai \<le> 30 then Inl CbReservedAdditional
          else Inl CbIndefiniteLength)"

definition read_simple :: "nat \<Rightarrow> string \<Rightarrow> cbor_error + (core_value \<times> string)" where
  "read_simple ib cur =
     (let ai = ib mod 32; float = (\<lambda>widen r. res_bind r (\<lambda>(bits, cur). Inr (CvFloat (widen bits), cur)))
      in if ai = 20 then Inr (CvBool False, cur)
         else if ai = 21 then Inr (CvBool True, cur)
         else if ai = 22 then Inr (CvNull, cur)
         else if ai = 25 then float f16_bits_to_f64 (read_be cur 2)
         else if ai = 26 then float f32_to_f64 (read_be cur 4)
         else if ai = 27 then float (\<lambda>bits. bits) (read_be cur 8)
         else if 28 \<le> ai \<and> ai \<le> 30 then Inl CbReservedAdditional
         else if ai = 31 then Inl CbIndefiniteLength
         else Inl (CbUnsupported ib))"

function (sequential)
  read_value :: "string \<Rightarrow> nat \<Rightarrow> cbor_error + (core_value \<times> string)"
  and read_items :: "nat \<Rightarrow> string \<Rightarrow> nat \<Rightarrow> cbor_error + (core_value list \<times> string)"
  and read_entries :: "nat \<Rightarrow> string \<Rightarrow> nat \<Rightarrow> cbor_error + ((core_value \<times> core_value) list \<times> string)"
  where
  "read_value cur depth =
     (if depth > MAX_CBOR_NESTING then Inl CbDepthExceeded
      else
        (case cur of
           [] \<Rightarrow> Inl CbUnexpectedEof
         | ib # cur' \<Rightarrow>
             let major = byte ib div 32 in
             if major = 7 then read_simple (byte ib) cur'
             else
               res_bind (read_head cur) (\<lambda>((_, arg), cur).
                 if major = 0 then Inr (CvInt (int arg), cur)
                 else if major = 1 then Inr (CvInt (- 1 - int arg), cur)
                 else if major = 2 then res_bind (read_bytes cur arg) (\<lambda>(b, cur). Inr (CvBytes b, cur))
                 else if major = 3 then
                   res_bind (read_bytes cur arg) (\<lambda>(b, cur).
                     if utf8_valid b then Inr (CvText b, cur) else Inl CbInvalidUtf8)
                 else if major = 4 then
                   res_bind (read_items arg cur (depth + 1)) (\<lambda>(out, cur). Inr (CvArray out, cur))
                 else if major = 5 then
                   res_bind (read_entries arg cur (depth + 1)) (\<lambda>(out, cur). Inr (CvMap out, cur))
                 else if major = 6 then Inl CbTagsNotSupported
                 else Inl (CbUnsupported (byte ib)))))"
| "read_items n cur depth =
     (if n = 0 then Inr ([], cur)
      else
        res_bind (read_value cur depth) (\<lambda>(v, cur).
        res_bind (read_items (n - 1) cur depth) (\<lambda>(vs, cur). Inr (v # vs, cur))))"
| "read_entries n cur depth =
     (if n = 0 then Inr ([], cur)
      else
        res_bind (read_value cur depth) (\<lambda>(k, cur).
        res_bind (read_value cur depth) (\<lambda>(v, cur).
        res_bind (read_entries (n - 1) cur depth) (\<lambda>(es, cur). Inr ((k, v) # es, cur)))))"
  by pat_completeness auto
termination
  by (relation "inv_image (less_than <*lex*> less_than) (\<lambda>x. case x of
        Inl (cur, d) \<Rightarrow> (Suc MAX_CBOR_NESTING - d, 0)
      | Inr (Inl (n, cur, d)) \<Rightarrow> (Suc MAX_CBOR_NESTING - d, Suc n)
      | Inr (Inr (n, cur, d)) \<Rightarrow> (Suc MAX_CBOR_NESTING - d, Suc n))") auto

definition decode :: "string \<Rightarrow> cbor_error + core_value" where
  "decode bytes = res_bind (read_value bytes 0) (\<lambda>(v, cur). if cur \<noteq> [] then Inl CbTrailingBytes else Inr v)"

section \<open>Round trip and sets\<close>

definition first_diff :: "string \<Rightarrow> string \<Rightarrow> nat" where
  "first_diff a b =
     (case List.find (\<lambda>(i, x, y). x \<noteq> y) (enumerate 0 (zip a b)) of
        Some (i, _) \<Rightarrow> i
      | None \<Rightarrow> min (length a) (length b))"

definition assert_roundtrip :: "core_value \<Rightarrow> cbor_error + unit" where
  "assert_roundtrip v =
     res_bind (encode v) (\<lambda>bytes1.
     res_bind (decode bytes1) (\<lambda>decoded.
     res_bind (encode decoded) (\<lambda>bytes2.
       if bytes1 = bytes2 then Inr () else Inl (CbUnsupported (first_diff bytes1 bytes2 mod 256)))))"

text \<open>\<open>drain(..)\<close> removes all elements from the array when it is dropped, on the error path too.  The
  loop keeps the encodings; \<open>dedup_by\<close> keeps the first of each run.\<close>

fun encode_all :: "core_value list \<Rightarrow> cbor_error + (string \<times> core_value) list" where
  "encode_all [] = Inr []"
| "encode_all (v # vs) = res_bind (encode v) (\<lambda>bytes. res_bind (encode_all vs) (\<lambda>ixs. Inr ((bytes, v) # ixs)))"

fun dedup_runs :: "(string \<times> 'a) list \<Rightarrow> (string \<times> 'a) list" where
  "dedup_runs (x # y # xs) = (if fst x = fst y then dedup_runs (x # xs) else x # dedup_runs (y # xs))"
| "dedup_runs xs = xs"

definition canonicalize_set_elements :: "core_value list \<Rightarrow> (cbor_error + unit) \<times> core_value list" where
  "canonicalize_set_elements arr =
     (case encode_all arr of
        Inl e \<Rightarrow> (Inl e, [])
      | Inr ixs \<Rightarrow> (Inr (), map snd (dedup_runs (sort_key fst ixs))))"

end
