(* ===== verification/Cbor_Correct.thy ===== *)
theory Cbor_Correct
  imports Cbor "HOL-Library.Multiset"
begin

text \<open>
  What the CBOR codec promises.  \<open>enc\<close> is the encoder without buffer, caps and errors, \<open>encodable\<close>
  the condition under which the code succeeds, \<open>canon\<close> the value the decoder returns for an encoding
  (map entries in key order, every NaN the canonical one).
\<close>

declare write_value.simps [simp del] write_map.simps [simp del] read_value.simps [simp del]
  read_items.simps [simp del] read_entries.simps [simp del]

section \<open>The encoding as a pure function\<close>

definition head :: "nat \<Rightarrow> nat \<Rightarrow> string" where
  "head major arg =
     (if arg \<le> 23 then [char_of (major * 32 + arg)]
      else if arg < 2 ^ 8 then char_of (major * 32 + 24) # be_bytes 1 arg
      else if arg < 2 ^ 16 then char_of (major * 32 + 25) # be_bytes 2 arg
      else if arg < 2 ^ 32 then char_of (major * 32 + 26) # be_bytes 4 arg
      else char_of (major * 32 + 27) # be_bytes 8 arg)"

definition enc_float :: "nat \<Rightarrow> string" where
  "enc_float f =
     (if is_nan f then bytes_of [0xf9, 0x7e, 0x00]
      else if is_infinite f then bytes_of [0xf9, if f64_sign f = 1 then 0xfc else 0x7c, 0x00]
      else
        (case f64_to_f16_exact f of
           Some bits \<Rightarrow> char_of (0xf9 :: nat) # be_bytes 2 bits
         | None \<Rightarrow>
             (case f64_to_f32_exact f of
                Some bits \<Rightarrow> char_of (0xfa :: nat) # be_bytes 4 bits
              | None \<Rightarrow> char_of (0xfb :: nat) # be_bytes 8 f)))"

fun enc :: "core_value \<Rightarrow> string" where
  "enc CvNull = bytes_of [0xf6]"
| "enc (CvBool b) = bytes_of [if b then 0xf5 else 0xf4]"
| "enc (CvInt i) = (if 0 \<le> i then head 0 (nat i) else head 1 (nat (- 1 - i)))"
| "enc (CvFloat f) = enc_float f"
| "enc (CvText s) = head 3 (length s) @ s"
| "enc (CvBytes b) = head 2 (length b) @ b"
| "enc (CvArray items) = head 4 (length items) @ concat (map enc items)"
| "enc (CvMap es) = head 5 (length es) @
     concat (map (\<lambda>p. fst p @ snd p) (sort_key fst (map (\<lambda>e. (enc (fst e), enc (snd e))) es)))"

fun encodable :: "nat \<Rightarrow> core_value \<Rightarrow> bool" where
  "encodable d (CvInt i) \<longleftrightarrow> d \<le> MAX_CBOR_NESTING \<and> - (2 ^ 64) \<le> i \<and> i < 2 ^ 64"
| "encodable d (CvArray items) \<longleftrightarrow> d \<le> MAX_CBOR_NESTING \<and> list_all (encodable (d + 1)) items"
| "encodable d (CvMap es) \<longleftrightarrow> d \<le> MAX_CBOR_NESTING \<and>
     list_all (\<lambda>e. encodable (d + 1) (fst e) \<and> encodable (d + 1) (snd e)) es \<and> distinct (map (\<lambda>e. enc (fst e)) es)"
| "encodable d CvNull \<longleftrightarrow> d \<le> MAX_CBOR_NESTING"
| "encodable d (CvBool _) \<longleftrightarrow> d \<le> MAX_CBOR_NESTING"
| "encodable d (CvFloat _) \<longleftrightarrow> d \<le> MAX_CBOR_NESTING"
| "encodable d (CvText _) \<longleftrightarrow> d \<le> MAX_CBOR_NESTING"
| "encodable d (CvBytes _) \<longleftrightarrow> d \<le> MAX_CBOR_NESTING"

lemma write_head_put: "write_head out major arg = put out (head major arg)"
  by (simp add: write_head_def head_def Let_def)

lemma write_float_put: "write_float out f = put out (enc_float f)"
  by (simp add: write_float_def enc_float_def split: option.splits)

lemma head_nonempty [simp]: "head major arg \<noteq> []"
  by (simp add: head_def)

lemma length_head_pos [simp]: "0 < length (head major arg)"
  by simp

lemma enc_nonempty [simp]: "enc v \<noteq> []"
  by (cases v) (auto simp: enc_float_def split: option.splits)

lemma length_enc_float: "length (enc_float f) \<le> 9"
  by (auto simp: enc_float_def split: option.splits)

lemma put_iff: "put out bs = Inr out' \<longleftrightarrow> length out + length bs \<le> MAX_CBOR_BYTES \<and> out' = out @ bs"
  by (auto simp: put_def)

lemma adjacent_dup_sorted: "sorted (map fst ps) \<Longrightarrow> adjacent_dup ps \<longleftrightarrow> \<not> distinct (map fst ps)"
  by (induction ps rule: adjacent_dup.induct) force+

lemma distinct_sort_key [simp]: "distinct (map f (sort_key g xs)) \<longleftrightarrow> distinct (map f xs)"
  by (simp add: distinct_map)

lemma write_pairs_iff:
  "length out \<le> MAX_CBOR_BYTES \<Longrightarrow>
   write_pairs out ps = Inr out' \<longleftrightarrow>
     length out + length (concat (map (\<lambda>p. fst p @ snd p) ps)) \<le> MAX_CBOR_BYTES \<and>
     out' = out @ concat (map (\<lambda>p. fst p @ snd p) ps)"
  by (induction out ps rule: write_pairs.induct) (auto simp: res_bind_eq_Inr put_iff)

lemma length_concat_sort_key: "length (concat (map g (sort_key f xs))) = length (concat (map g xs))"
proof -
  have "length (concat (map g (insort_key f x xs))) = length (g x) + length (concat (map g xs))" for x xs
    by (induction xs) auto
  then show ?thesis by (induction xs) auto
qed

lemma length_concat_member: "x \<in> set xs \<Longrightarrow> length (g x) \<le> length (concat (map g xs))"
  by (induction xs) auto

lemma write_iff:
  "length out \<le> MAX_CBOR_BYTES \<Longrightarrow> write_value out v d = Inr out' \<longleftrightarrow>
     encodable d v \<and> length out + length (enc v) \<le> MAX_CBOR_BYTES \<and> out' = out @ enc v"
  "length out \<le> MAX_CBOR_BYTES \<Longrightarrow> write_items out its d = Inr out' \<longleftrightarrow>
     list_all (encodable d) its \<and> length out + length (concat (map enc its)) \<le> MAX_CBOR_BYTES \<and>
     out' = out @ concat (map enc its)"
  "length out \<le> MAX_CBOR_BYTES \<Longrightarrow> write_map out es d = Inr out' \<longleftrightarrow>
     encodable d (CvMap es) \<and> length out + length (enc (CvMap es)) \<le> MAX_CBOR_BYTES \<and> out' = out @ enc (CvMap es)"
  "encode_entries es d = Inr ps \<longleftrightarrow>
     list_all (\<lambda>e. encodable (d + 1) (fst e) \<and> encodable (d + 1) (snd e) \<and>
       length (enc (fst e)) \<le> MAX_CBOR_BYTES \<and> length (enc (snd e)) \<le> MAX_CBOR_BYTES) es \<and>
     ps = map (\<lambda>e. (enc (fst e), enc (snd e))) es"
proof (induction out v d and out its d and out es d and es d arbitrary: out' and out' and out' and ps
    rule: write_value_write_items_write_map_encode_entries.induct)
  case (1 out v depth)
  show ?case
  proof (cases "depth > MAX_CBOR_NESTING")
    case True
    then have "\<not> encodable depth v" by (cases v) simp_all
    with True show ?thesis by (simp add: write_value.simps)
  next
    case False
    show ?thesis
    proof (cases v)
      case (CvArray items)
      have put: "res_bind (put out (head 4 (length items))) (\<lambda>out. write_items out items (depth + 1)) = Inr out' \<longleftrightarrow>
          length out + length (head 4 (length items)) \<le> MAX_CBOR_BYTES \<and>
          write_items (out @ head 4 (length items)) items (depth + 1) = Inr out'"
        by (auto simp: put_def)
      show ?thesis
        using False 1(1) [OF False CvArray, of "out @ head 4 (length items)"]
        by (auto simp: CvArray write_value.simps write_head_put put put_def)
    next
      case (CvMap es)
      then show ?thesis using False 1(2) [OF False CvMap 1(3)] by (simp add: write_value.simps)
    qed (use False in \<open>auto simp: write_value.simps put_iff write_int_def write_head_put write_float_put res_bind_eq_Inr\<close>)
  qed
next
  case (4 out es depth)
  let ?ps = "map (\<lambda>e. (enc (fst e), enc (snd e))) es"
  show ?case
  proof (cases "depth > MAX_CBOR_NESTING")
    case True
    then show ?thesis by (simp add: write_map.simps)
  next
    case False
    have sum: "length (concat (map (\<lambda>p. fst p @ snd p) (sort_key fst ?ps))) = length (concat (map (\<lambda>e. enc (fst e) @ enc (snd e)) es))"
      by (simp add: length_concat_sort_key comp_def)
    have dup: "adjacent_dup (sort_key fst ?ps) \<longleftrightarrow> \<not> distinct (map (\<lambda>e. enc (fst e)) es)"
      using adjacent_dup_sorted [of "sort_key fst ?ps"] by (simp add: comp_def)
    have caps: "length out + length (enc (CvMap es)) \<le> MAX_CBOR_BYTES \<Longrightarrow> e \<in> set es \<Longrightarrow>
        length (enc (fst e)) \<le> MAX_CBOR_BYTES \<and> length (enc (snd e)) \<le> MAX_CBOR_BYTES" for e
      using length_concat_member [of e es "\<lambda>e. enc (fst e) @ enc (snd e)"] sum by simp
    show ?thesis
    proof (cases "encode_entries es depth")
      case (Inl e)
      then have "\<not> list_all (\<lambda>e. encodable (depth + 1) (fst e) \<and> encodable (depth + 1) (snd e) \<and>
          length (enc (fst e)) \<le> MAX_CBOR_BYTES \<and> length (enc (snd e)) \<le> MAX_CBOR_BYTES) es"
        using 4(1) [OF False, of ?ps] by simp
      then have "\<not> (encodable depth (CvMap es) \<and> length out + length (enc (CvMap es)) \<le> MAX_CBOR_BYTES)"
        using caps unfolding list_all_iff encodable.simps by blast
      with Inl False show ?thesis by (auto simp: write_map.simps)
    next
      case (Inr ps)
      then have ps: "ps = ?ps" "list_all (\<lambda>e. encodable (depth + 1) (fst e) \<and> encodable (depth + 1) (snd e)) es"
        using 4(1) [OF False, of ps] by (simp_all add: list_all_iff)
      show ?thesis
        using False Inr ps dup 4(2)
        by (auto simp: write_map.simps Let_def write_head_put res_bind_eq_Inr put_iff write_pairs_iff)
    qed
  qed
next
  case (3 out it items depth)
  have "write_items (out @ enc it) items depth = Inr out' \<longleftrightarrow>
      list_all (encodable depth) items \<and> length out + length (concat (map enc (it # items))) \<le> MAX_CBOR_BYTES \<and>
      out' = out @ concat (map enc (it # items))" if "encodable depth it" "length out + length (enc it) \<le> MAX_CBOR_BYTES"
    using 3(1) [OF 3(3)] 3(2) [of "out @ enc it"] that by (simp add: add.assoc)
  then show ?case using 3(1) [OF 3(3)] by (auto simp: res_bind_eq_Inr)
next
  case (6 k v entries depth)
  have "length [] \<le> MAX_CBOR_BYTES" by simp
  note v = 6(1) [OF this] 6(2) [OF _ this]
  then show ?case using 6(3) by (fastforce simp: res_bind_eq_Inr)
qed auto

section \<open>Canonical values\<close>

lemma sort_key_map: "sort_key f (map g xs) = map g (sort_key (\<lambda>x. f (g x)) xs)"
proof -
  have "insort_key f (g x) (map g ys) = map g (insort_key (\<lambda>x. f (g x)) x ys)" for x ys by (induction ys) simp_all
  then show ?thesis by (induction xs) simp_all
qed

abbreviation by_key :: "(core_value \<times> core_value) list \<Rightarrow> (core_value \<times> core_value) list" where
  "by_key \<equiv> sort_key (\<lambda>e. enc (fst e))"

lemma enc_CvMap: "enc (CvMap es) = head 5 (length es) @ concat (map (\<lambda>e. enc (fst e) @ enc (snd e)) (by_key es))"
  by (simp add: sort_key_map comp_def)

definition canon_float :: "nat \<Rightarrow> nat" where
  "canon_float f = (if is_nan f then F64_NAN else f)"

fun canon :: "core_value \<Rightarrow> core_value" where
  "canon (CvFloat f) = CvFloat (canon_float f)"
| "canon (CvArray items) = CvArray (map canon items)"
| "canon (CvMap es) = CvMap (map (\<lambda>e. (canon (fst e), canon (snd e))) (by_key es))"
| "canon v = v"

text \<open>The values of the Rust type: texts are UTF-8, floats have 64 bits.\<close>

fun wf_value :: "core_value \<Rightarrow> bool" where
  "wf_value (CvFloat f) \<longleftrightarrow> f < 2 ^ 64"
| "wf_value (CvText s) \<longleftrightarrow> utf8_valid s"
| "wf_value (CvArray items) \<longleftrightarrow> list_all wf_value items"
| "wf_value (CvMap es) \<longleftrightarrow> list_all (\<lambda>e. wf_value (fst e) \<and> wf_value (snd e)) es"
| "wf_value _ \<longleftrightarrow> True"

section \<open>Reading back what was written\<close>

lemma read_be_bytes: "n < 256 ^ k \<Longrightarrow> read_be (be_bytes k n @ rest) k = Inr (n, rest)"
  by (simp add: read_be_def read_bytes_def be_val_be_bytes)

lemma read_be_1: "n < 256 \<Longrightarrow> read_u8 (be_bytes 1 n @ rest) = Inr (n, rest)"
  by (simp add: read_u8_def)

lemma read_bytes_append [simp]: "read_bytes (b @ rest) (length b) = Inr (b, rest)"
  by (simp add: read_bytes_def)

lemma read_head_head: "major < 8 \<Longrightarrow> arg < 2 ^ 64 \<Longrightarrow> read_head (head major arg @ rest) = Inr ((major, arg), rest)"
proof -
  assume m: "major < 8" and arg: "arg < 2 ^ 64"
  have ib: "(major * 32 + x) mod 256 = major * 32 + x" "(major * 32 + x) div 32 = major" "(major * 32 + x) mod 32 = x"
    if "x < 32" for x using m that by simp_all
  have u8: "read_u8 (char_of (major * 32 + x) # r) = Inr (major * 32 + x, r)" if "x < 32" for x r
    using ib(1) [OF that] by (simp add: read_u8_def)
  note head = ib(2,3) u8 Let_def
  consider "arg \<le> 23" | "23 < arg" "arg < 2 ^ 8" | "2 ^ 8 \<le> arg" "arg < 2 ^ 16" | "2 ^ 16 \<le> arg" "arg < 2 ^ 32"
    | "2 ^ 32 \<le> arg" by linarith
  then show ?thesis
  proof cases
    case 1
    then show ?thesis by (simp add: read_head_def head_def head)
  next
    case 2
    then show ?thesis using read_be_1 [of arg rest] by (simp add: read_head_def head_def head del: be_bytes.simps)
  next
    case 3
    then show ?thesis using read_be_bytes [of arg 2 rest] by (simp add: read_head_def head_def head del: be_bytes.simps)
  next
    case 4
    then show ?thesis using read_be_bytes [of arg 4 rest] by (simp add: read_head_def head_def head del: be_bytes.simps)
  next
    case 5
    then show ?thesis using arg read_be_bytes [of arg 8 rest] by (simp add: read_head_def head_def head del: be_bytes.simps)
  qed
qed

lemma hd_head: "major < 8 \<Longrightarrow> \<exists>b bs. head major arg = b # bs \<and> byte b div 32 = major"
proof -
  assume "major < 8"
  then have "(major * 32 + x) mod 256 div 32 = major" if "x < 32" for x using that by simp
  then show ?thesis by (simp add: head_def)
qed

lemma read_value_head:
  assumes "major < 7" "arg < 2 ^ 64" "d \<le> MAX_CBOR_NESTING"
  shows "read_value (head major arg @ rest) d =
    (if major = 0 then Inr (CvInt (int arg), rest)
     else if major = 1 then Inr (CvInt (- 1 - int arg), rest)
     else if major = 2 then res_bind (read_bytes rest arg) (\<lambda>(b, cur). Inr (CvBytes b, cur))
     else if major = 3 then
       res_bind (read_bytes rest arg) (\<lambda>(b, cur). if utf8_valid b then Inr (CvText b, cur) else Inl CbInvalidUtf8)
     else if major = 4 then res_bind (read_items arg rest (d + 1)) (\<lambda>(out, cur). Inr (CvArray out, cur))
     else if major = 5 then res_bind (read_entries arg rest (d + 1)) (\<lambda>(out, cur). Inr (CvMap out, cur))
     else Inl CbTagsNotSupported)"
proof -
  obtain b bs where h: "head major arg = b # bs" "byte b div 32 = major" using hd_head [of major arg] assms(1) by auto
  have "read_head (b # bs @ rest) = Inr ((major, arg), rest)" using read_head_head [of major arg rest] assms h by simp
  then show ?thesis using assms h by (simp add: read_value.simps Let_def not_less)
qed

lemma read_items_enc:
  "(\<And>v rest. v \<in> set vs \<Longrightarrow> read_value (enc v @ rest) d = Inr (canon v, rest)) \<Longrightarrow>
   read_items (length vs) (concat (map enc vs) @ rest) d = Inr (map canon vs, rest)"
  by (induction vs) (simp_all add: read_items.simps)

lemma read_entries_enc:
  "(\<And>e rest. e \<in> set es \<Longrightarrow> read_value (enc (fst e) @ rest) d = Inr (canon (fst e), rest)) \<Longrightarrow>
   (\<And>e rest. e \<in> set es \<Longrightarrow> read_value (enc (snd e) @ rest) d = Inr (canon (snd e), rest)) \<Longrightarrow>
   read_entries (length es) (concat (map (\<lambda>e. enc (fst e) @ enc (snd e)) es) @ rest) d =
     Inr (map (\<lambda>e. (canon (fst e), canon (snd e))) es, rest)"
  by (induction es) (simp_all add: read_entries.simps)

lemma read_simple_lead:
  "d \<le> MAX_CBOR_NESTING \<Longrightarrow> ib < 256 \<Longrightarrow> ib div 32 = 7 \<Longrightarrow> read_value (char_of ib # cur) d = read_simple ib cur"
  by (simp add: read_value.simps Let_def)

lemma f16_specials:
  "f16_bits_to_f64 0x7e00 = F64_NAN" "f16_bits_to_f64 0x7c00 = F64_INFINITY" "f16_bits_to_f64 0xfc00 = F64_NEG_INFINITY"
  by (simp_all add: f16_bits_to_f64_def Let_def)

lemma infinite_eq: "f < 2 ^ 64 \<Longrightarrow> is_infinite f \<Longrightarrow> f = (if f64_sign f = 1 then F64_NEG_INFINITY else F64_INFINITY)"
  using pack64_unpack [of f] f64_bounds(1) [of f]
  by (auto simp: is_infinite_def F64_NEG_INFINITY_def F64_INFINITY_def less_2_cases_iff)

lemma read_f16:
  "d \<le> MAX_CBOR_NESTING \<Longrightarrow> h < 2 ^ 16 \<Longrightarrow>
   read_value (char_of (0xf9 :: nat) # be_bytes 2 h @ rest) d = Inr (CvFloat (f16_bits_to_f64 h), rest)"
  using read_be_bytes [of h 2 rest] by (simp add: read_simple_lead read_simple_def Let_def del: be_bytes.simps)

lemma be_bytes_2: "be_bytes 2 n = [char_of (n div 256), char_of n]"
  by (simp add: numeral_2_eq_2)

lemma char_of_low: "char_of (32256 :: nat) = char_of (0 :: nat)" "char_of (31744 :: nat) = char_of (0 :: nat)"
    "char_of (64512 :: nat) = char_of (0 :: nat)"
  by (rule of_char_eqI [where ?'a = nat], simp)+

lemmas read_f16_special = read_f16 [unfolded be_bytes_2]

lemma read_float:
  assumes "f < 2 ^ 64" "d \<le> MAX_CBOR_NESTING"
  shows "read_value (enc_float f @ rest) d = Inr (CvFloat (canon_float f), rest)"
proof -
  consider (nan) "is_nan f" | (inf) "\<not> is_nan f" "is_infinite f"
    | (h) h where "\<not> is_nan f" "\<not> is_infinite f" "f64_to_f16_exact f = Some h"
    | (s) b where "\<not> is_nan f" "\<not> is_infinite f" "f64_to_f16_exact f = None" "f64_to_f32_exact f = Some b"
    | (d) "\<not> is_nan f" "\<not> is_infinite f" "f64_to_f16_exact f = None" "f64_to_f32_exact f = None"
    by (metis option.exhaust)
  then show ?thesis
  proof cases
    case nan
    then show ?thesis using read_f16_special [OF assms(2), of "0x7e00" rest] f16_specials
      by (simp add: enc_float_def canon_float_def char_of_low)
  next
    case inf
    show ?thesis
    proof (cases "f64_sign f = 1")
      case True
      with inf infinite_eq [OF assms(1)] show ?thesis using read_f16_special [OF assms(2), of "0xfc00" rest] f16_specials
        by (simp add: enc_float_def canon_float_def char_of_low)
    next
      case False
      with inf infinite_eq [OF assms(1)] show ?thesis using read_f16_special [OF assms(2), of "0x7c00" rest] f16_specials
        by (simp add: enc_float_def canon_float_def char_of_low)
    qed
  next
    case h
    then show ?thesis using f16_sound [OF assms(1) h(3)] read_f16 [OF assms(2), of h rest]
      by (simp add: enc_float_def canon_float_def del: be_bytes.simps)
  next
    case s
    then have "f64_exp f \<noteq> 2047" by (auto simp: is_nan_def is_infinite_def)
    then have b: "b < 2 ^ 32" "f32_to_f64 b = f"
      using s(4) f64_as_f32_bound [OF assms(1)] by (auto simp: f64_to_f32_exact_def Let_def split: if_splits)
    then show ?thesis using s assms read_be_bytes [of b 4 rest]
      by (simp add: enc_float_def canon_float_def read_simple_lead read_simple_def Let_def del: be_bytes.simps)
  next
    case d
    then show ?thesis using assms read_be_bytes [of f 8 rest]
      by (simp add: enc_float_def canon_float_def read_simple_lead read_simple_def Let_def del: be_bytes.simps)
  qed
qed

lemma length_concat_ge: "(\<And>x. x \<in> set xs \<Longrightarrow> g x \<noteq> []) \<Longrightarrow> length xs \<le> length (concat (map g xs))"
proof (induction xs)
  case (Cons x xs)
  have "1 \<le> length (g x)" using Cons.prems [of x] by (cases "g x") simp_all
  moreover have "length xs \<le> length (concat (map g xs))" using Cons by simp
  ultimately show ?case by simp
qed simp

lemma read_enc:
  "encodable d v \<Longrightarrow> wf_value v \<Longrightarrow> length (enc v) < 2 ^ 64 \<Longrightarrow> read_value (enc v @ rest) d = Inr (canon v, rest)"
proof (induction v arbitrary: d rest rule: enc.induct)
  case 1
  then show ?case by (simp add: read_simple_lead read_simple_def)
next
  case (2 b)
  then show ?case by (cases b) (simp_all add: read_simple_lead read_simple_def)
next
  case (3 i)
  then show ?case by (auto simp: read_value_head)
next
  case (4 f)
  then show ?case by (simp add: read_float)
next
  case (5 s)
  then show ?case by (simp add: read_value_head)
next
  case (6 b)
  then show ?case by (simp add: read_value_head)
next
  case (7 items)
  have "length items \<le> length (concat (map enc items))" by (rule length_concat_ge) simp
  then have n: "length items < 2 ^ 64" using 7(4) by simp
  have "length (enc v) < 2 ^ 64" if "v \<in> set items" for v using length_concat_member [OF that, of enc] 7(4) by simp
  then have "read_value (enc v @ r) (d + 1) = Inr (canon v, r)" if "v \<in> set items" for v r
    using 7(1) [OF that] 7(2,3) that by (simp add: list_all_iff)
  then have "read_items (length items) (concat (map enc items) @ rest) (d + 1) = Inr (map canon items, rest)"
    by (rule read_items_enc)
  then show ?case using n 7(2) by (simp add: read_value_head)
next
  case (8 es)
  let ?g = "\<lambda>e. enc (fst e) @ enc (snd e)"
  have "length es \<le> length (concat (map ?g es))" by (rule length_concat_ge) simp
  moreover have total: "length (enc (CvMap es)) = length (head 5 (length es)) + length (concat (map ?g es))"
    unfolding enc_CvMap by (simp only: length_append length_concat_sort_key)
  ultimately have n: "length es < 2 ^ 64" using 8(5) by linarith
  have len: "length (enc (fst e)) < 2 ^ 64" "length (enc (snd e)) < 2 ^ 64" if "e \<in> set es" for e
    using length_concat_member [OF that, of ?g] total 8(5) by simp_all
  have "read_entries (length (by_key es)) (concat (map ?g (by_key es)) @ rest) (d + 1) =
      Inr (map (\<lambda>e. (canon (fst e), canon (snd e))) (by_key es), rest)"
    using 8(1,2) 8(3,4) len by (intro read_entries_enc) (auto simp: list_all_iff)
  then show ?case using n 8(3) unfolding enc_CvMap by (simp add: read_value_head)
qed

section \<open>Canonical values encode to the same bytes\<close>

lemma enc_canon_float: "enc_float (canon_float f) = enc_float f"
proof -
  have "is_nan F64_NAN" using pack64_fields [of 0 2047 "2 ^ 51"] by (simp add: is_nan_def F64_NAN_def)
  then show ?thesis by (simp add: canon_float_def enc_float_def)
qed

lemma enc_canon: "enc (canon v) = enc v"
proof (induction v rule: enc.induct)
  case (7 items)
  then have "concat (map (\<lambda>x. enc (canon x)) items) = concat (map enc items)"
    by (intro arg_cong [where f = concat] map_cong refl) simp
  then show ?case by (simp add: comp_def)
next
  case (8 es)
  let ?c = "\<lambda>e. (canon (fst e), canon (snd e))"
  have keys: "map (\<lambda>e. enc (fst (?c e))) (by_key es) = map (\<lambda>e. enc (fst e)) (by_key es)"
    using 8 by simp
  have bytes: "concat (map (\<lambda>e. enc (fst (?c e)) @ enc (snd (?c e))) (by_key es)) =
      concat (map (\<lambda>e. enc (fst e) @ enc (snd e)) (by_key es))"
    using 8 by (intro arg_cong [where f = concat] map_cong refl) simp
  have "sorted (map (\<lambda>e. enc (fst e)) (map ?c (by_key es)))" unfolding map_map comp_def keys by simp
  then have "by_key (map ?c (by_key es)) = map ?c (by_key es)" by (rule sort_key_id_if_sorted)
  then show ?case using bytes unfolding canon.simps enc_CvMap by (simp add: comp_def)
qed (simp_all add: enc_canon_float)

lemma canon_wf: "wf_value v \<Longrightarrow> wf_value (canon v)"
proof (induction v rule: enc.induct)
  case (4 f)
  then show ?case using pack64_fields(4) [of 0 2047 "2 ^ 51"] by (simp add: canon_float_def F64_NAN_def)
qed (auto simp: list_all_iff)

lemma encodable_canon: "encodable d (canon v) \<longleftrightarrow> encodable d v"
proof (induction v arbitrary: d rule: enc.induct)
  case (8 es)
  have "map (\<lambda>e. enc (fst e)) (map (\<lambda>e. (canon (fst e), canon (snd e))) (by_key es)) = map (\<lambda>e. enc (fst e)) (by_key es)"
    by (simp add: enc_canon)
  then show ?case using 8 by (simp add: list_all_iff comp_def enc_canon)
qed (auto simp: list_all_iff)

section \<open>The properties of the codec\<close>

text \<open>C24: \<open>encode\<close> computes the canonical encoding \<open>enc\<close>, and it succeeds exactly when the nesting is at
  most 64, every integer fits the CBOR range, no map has two keys with the same encoding, and the
  output is at most 32 MiB; the intermediate buffers for map keys and values refuse nothing more.\<close>

theorem encode_iff: "encode v = Inr bytes \<longleftrightarrow> encodable 0 v \<and> length (enc v) \<le> MAX_CBOR_BYTES \<and> bytes = enc v"
  using write_iff(1) [of "[]" v 0 bytes] by (simp add: encode_def)

text \<open>The same fact for the proofs below.\<close>

lemma encode_Inr: "encode v = Inr bytes \<longleftrightarrow> encodable 0 v \<and> length (enc v) \<le> MAX_CBOR_BYTES \<and> bytes = enc v"
  using write_iff(1) [of "[]" v 0 bytes] by (simp add: encode_def)

lemma decode_enc: "encodable 0 v \<Longrightarrow> wf_value v \<Longrightarrow> length (enc v) \<le> MAX_CBOR_BYTES \<Longrightarrow> decode (enc v) = Inr (canon v)"
  using read_enc [of 0 v "[]"] by (simp add: decode_def MAX_CBOR_BYTES_def)

text \<open>C23: decoding an encoding gives the value back, with map entries in the order of their encoded
  keys and every NaN the canonical one, and nothing else changed: the sign of zero, subnormals and
  the width of integers survive.\<close>

theorem decode_encode:
  assumes "wf_value v" "encode v = Inr bytes"
  shows "decode bytes = Inr (canon v)"
  using assms decode_enc by (simp add: encode_Inr)

definition sample_value :: core_value where
  "sample_value = CvMap [(CvText ''b'', CvArray [CvInt (- 300), CvFloat (2 ^ 63), CvNull]), (CvText ''a'', CvFloat F64_NAN)]"

lemma sample_wf: "wf_value sample_value"
  by (simp add: sample_value_def F64_NAN_def pack64_def byte_def)

lemma sample_encodable: "encodable 0 sample_value" "length (enc sample_value) \<le> MAX_CBOR_BYTES"
  using length_enc_float [of F64_NAN] length_enc_float [of 9223372036854775808]
  by (simp_all add: sample_value_def MAX_CBOR_NESTING_def MAX_CBOR_BYTES_def enc_CvMap head_def)

lemma decode_encode_witness:
  "encode sample_value = Inr (enc sample_value) \<and> decode (enc sample_value) = Inr (canon sample_value)"
proof -
  have "encode sample_value = Inr (enc sample_value)" by (simp add: encode_Inr sample_encodable)
  then show ?thesis using decode_encode [OF sample_wf] by simp
qed

text \<open>\<open>assert_roundtrip\<close> fails on no value of the type that \<open>encode\<close> accepts, and reports exactly the
  error of \<open>encode\<close> otherwise: re-encoding a decoded encoding gives the same bytes.\<close>

theorem roundtrip_holds:
  assumes "wf_value v"
  shows "assert_roundtrip v = res_bind (encode v) (\<lambda>_. Inr ())"
proof (cases "encode v")
  case (Inr bytes)
  then have "encode (canon v) = Inr bytes" "decode bytes = Inr (canon v)"
    using assms by (simp_all add: encode_Inr encodable_canon enc_canon decode_enc)
  with Inr show ?thesis by (simp add: assert_roundtrip_def)
qed (simp add: assert_roundtrip_def)

lemma roundtrip_holds_witness: "assert_roundtrip sample_value = res_bind (encode sample_value) (\<lambda>_. Inr ())"
  by (rule roundtrip_holds [OF sample_wf])

text \<open>Two values have the same encoding exactly when they are the same up to the order of map entries
  and NaN payloads, so a signature over the bytes fixes the value.\<close>

theorem encode_injective:
  assumes "wf_value v" "wf_value w" "encode v = Inr bytes"
  shows "encode w = Inr bytes \<longleftrightarrow> canon w = canon v"
proof
  assume "encode w = Inr bytes"
  then show "canon w = canon v" using assms decode_enc [of v] decode_enc [of w] by (simp add: encode_Inr)
next
  assume eq: "canon w = canon v"
  have "enc w = enc v" using enc_canon [of v] enc_canon [of w] unfolding eq by simp
  moreover have "encodable 0 w = encodable 0 v" using encodable_canon [of 0 v] encodable_canon [of 0 w] unfolding eq by simp
  ultimately show "encode w = Inr bytes" using assms(3) by (simp add: encode_Inr)
qed

lemma encode_injective_witness:
  "encode (CvMap [(CvInt 2, CvNull), (CvInt 1, CvNull)]) = Inr (bytes_of [0xa2, 1, 0xf6, 2, 0xf6]) \<longleftrightarrow>
   canon (CvMap [(CvInt 2, CvNull), (CvInt 1, CvNull)]) = canon (CvMap [(CvInt 1, CvNull), (CvInt 2, CvNull)])"
proof (rule encode_injective)
  show "encode (CvMap [(CvInt 1, CvNull), (CvInt 2, CvNull)]) = Inr (bytes_of [0xa2, 1, 0xf6, 2, 0xf6])"
    unfolding encode_Inr by (simp add: head_def char_less_iff MAX_CBOR_BYTES_def MAX_CBOR_NESTING_def)
qed simp_all

text \<open>The encoder does not depend on the order in which the entries of a map are given.\<close>

theorem encode_order_independent:
  assumes "mset es = mset es'"
  shows "encode (CvMap es) = Inr bytes \<longleftrightarrow> encode (CvMap es') = Inr bytes"
proof -
  have sets: "set es = set es'" "length es = length es'" using assms by (auto dest: mset_eq_setD mset_eq_length)
  have d: "distinct (map (\<lambda>e. enc (fst e)) es) = distinct (map (\<lambda>e. enc (fst e)) es')"
    using mset_eq_imp_distinct_iff [of "map (\<lambda>e. enc (fst e)) es" "map (\<lambda>e. enc (fst e)) es'"] assms by simp
  have "enc (CvMap es) = enc (CvMap es')" if "distinct (map (\<lambda>e. enc (fst e)) es')"
  proof -
    have "by_key es' = by_key es"
      by (rule sort_key_inj_key_eq) (use assms that in \<open>simp_all add: distinct_map\<close>)
    then show ?thesis unfolding enc_CvMap sets by simp
  qed
  then show ?thesis using sets d by (auto simp: encode_Inr list_all_iff)
qed

lemma encode_order_independent_witness:
  "encode (CvMap [(CvInt 2, CvNull), (CvInt 1, CvNull)]) = Inr (bytes_of [0xa2, 1, 0xf6, 2, 0xf6]) \<longleftrightarrow>
   encode (CvMap [(CvInt 1, CvNull), (CvInt 2, CvNull)]) = Inr (bytes_of [0xa2, 1, 0xf6, 2, 0xf6])"
  by (rule encode_order_independent) simp

section \<open>What the decoder produces\<close>

fun nodes :: "core_value \<Rightarrow> nat" where
  "nodes (CvArray items) = 1 + sum_list (map nodes items)"
| "nodes (CvMap es) = 1 + sum_list (map (\<lambda>e. nodes (fst e) + nodes (snd e)) es)"
| "nodes _ = 1"

fun within_depth :: "nat \<Rightarrow> core_value \<Rightarrow> bool" where
  "within_depth d (CvArray items) \<longleftrightarrow> d \<le> MAX_CBOR_NESTING \<and> list_all (within_depth (d + 1)) items"
| "within_depth d (CvMap es) \<longleftrightarrow> d \<le> MAX_CBOR_NESTING \<and>
     list_all (\<lambda>e. within_depth (d + 1) (fst e) \<and> within_depth (d + 1) (snd e)) es"
| "within_depth d _ \<longleftrightarrow> d \<le> MAX_CBOR_NESTING"

lemma read_u8_rest: "read_u8 cur = Inr (n, cur') \<Longrightarrow> length cur = Suc (length cur') \<and> n < 2 ^ 8"
  by (auto simp: read_u8_def split: list.splits)

lemma read_bytes_rest: "read_bytes cur n = Inr (b, cur') \<Longrightarrow> length cur = n + length cur' \<and> length b = n"
  by (auto simp: read_bytes_def split: if_splits)

lemma read_be_rest: "read_be cur n = Inr (x, cur') \<Longrightarrow> length cur = n + length cur' \<and> x < 256 ^ n"
  using be_val_less by (auto simp: read_be_def res_bind_eq_Inr dest!: read_bytes_rest)

lemma read_head_rest: "read_head cur = Inr ((major, arg), cur') \<Longrightarrow> length cur' < length cur"
  by (auto simp: read_head_def Let_def res_bind_eq_Inr split: if_splits dest!: read_u8_rest read_be_rest)

lemma read_simple_result:
  "read_simple ib cur = Inr (v, cur') \<Longrightarrow>
   wf_value v \<and> nodes v = 1 \<and> length cur' \<le> length cur \<and> (within_depth d v \<longleftrightarrow> d \<le> MAX_CBOR_NESTING)"
  using f16_bits_bound f32_to_f64_bound
  by (auto simp: read_simple_def Let_def res_bind_eq_Inr split: if_splits dest!: read_be_rest)

lemma read_result:
  "read_value cur d = Inr (v, cur') \<Longrightarrow> wf_value v \<and> nodes v + length cur' \<le> length cur \<and> within_depth d v"
  "read_items n cur d = Inr (vs, cur') \<Longrightarrow>
     list_all wf_value vs \<and> sum_list (map nodes vs) + length cur' \<le> length cur \<and> list_all (within_depth d) vs"
  "read_entries n cur d = Inr (es, cur') \<Longrightarrow>
     list_all (\<lambda>e. wf_value (fst e) \<and> wf_value (snd e)) es \<and>
     sum_list (map (\<lambda>e. nodes (fst e) + nodes (snd e)) es) + length cur' \<le> length cur \<and>
     list_all (\<lambda>e. within_depth d (fst e) \<and> within_depth d (snd e)) es"
proof (induction cur d and n cur d and n cur d arbitrary: v cur' and vs cur' and es cur'
    rule: read_value_read_items_read_entries.induct)
  case (1 cur depth)
  then have d: "\<not> MAX_CBOR_NESTING < depth" by (auto simp: read_value.simps split: if_splits)
  with 1(3) obtain ib r where cur: "cur = ib # r" by (cases cur) (auto simp: read_value.simps)
  show ?case
  proof (cases "byte ib div 32 = 7")
    case True
    with 1(3) d cur have "read_simple (byte ib) r = Inr (v, cur')" by (simp add: read_value.simps)
    then show ?thesis using read_simple_result [of "byte ib" r v cur' depth] d cur by simp
  next
    case False
    with 1(3) d cur obtain m arg c where h: "read_head cur = Inr ((m, arg), c)"
      by (auto simp: read_value.simps Let_def res_bind_eq_Inr)
    note short = read_head_rest [OF h]
    let ?major = "byte ib div 32"
    have body: "(if ?major = 0 then Inr (CvInt (int arg), c)
        else if ?major = 1 then Inr (CvInt (- 1 - int arg), c)
        else if ?major = 2 then res_bind (read_bytes c arg) (\<lambda>(b, cur). Inr (CvBytes b, cur))
        else if ?major = 3 then
          res_bind (read_bytes c arg) (\<lambda>(b, cur). if utf8_valid b then Inr (CvText b, cur) else Inl CbInvalidUtf8)
        else if ?major = 4 then res_bind (read_items arg c (depth + 1)) (\<lambda>(out, cur). Inr (CvArray out, cur))
        else if ?major = 5 then res_bind (read_entries arg c (depth + 1)) (\<lambda>(out, cur). Inr (CvMap out, cur))
        else if ?major = 6 then Inl CbTagsNotSupported else Inl (CbUnsupported (byte ib))) = Inr (v, cur')"
      using 1(3) d h False unfolding cur by (simp add: read_value.simps Let_def)
    consider (leaf) "?major < 4" | (array) "?major = 4" | (entries) "?major = 5"
      using body by (auto split: if_splits)
    then show ?thesis
    proof cases
      case leaf
      with body short d show ?thesis by (auto simp: res_bind_eq_Inr split: if_splits dest!: read_bytes_rest)
    next
      case array
      with body obtain out where "read_items arg c (depth + 1) = Inr (out, cur')" "v = CvArray out"
        by (auto simp: res_bind_eq_Inr)
      then show ?thesis using 1(1) [OF d cur refl False h refl refl] array short d by fastforce
    next
      case entries
      with body obtain out where "read_entries arg c (depth + 1) = Inr (out, cur')" "v = CvMap out"
        by (auto simp: res_bind_eq_Inr)
      then show ?thesis using 1(2) [OF d cur refl False h refl refl] entries short d by fastforce
    qed
  qed
next
  case (2 n cur depth)
  show ?case
  proof (cases "n = 0")
    case False
    with 2(3) obtain v c vs' where "read_value cur depth = Inr (v, c)" "read_items (n - 1) c depth = Inr (vs', cur')" "vs = v # vs'"
      by (subst (asm) read_items.simps) (auto simp: res_bind_eq_Inr)
    with 2(1,2) False show ?thesis by fastforce
  qed (use 2 in \<open>simp add: read_items.simps\<close>)
next
  case (3 n cur depth)
  show ?case
  proof (cases "n = 0")
    case False
    with 3(4) obtain k c v c' es' where "read_value cur depth = Inr (k, c)" "read_value c depth = Inr (v, c')"
        "read_entries (n - 1) c' depth = Inr (es', cur')" "es = (k, v) # es'"
      by (subst (asm) read_entries.simps) (auto simp: res_bind_eq_Inr)
    with 3(1,2,3) False show ?thesis by fastforce
  qed (use 3 in \<open>simp add: read_entries.simps\<close>)
qed

text \<open>Whatever the input, a decoded value is one of the Rust type (valid UTF-8, 64-bit floats), has at
  most one node per input byte however large the announced counts are, and nests at most 64 deep.\<close>

theorem decode_bounds:
  assumes "decode bytes = Inr v"
  shows "wf_value v \<and> nodes v \<le> length bytes \<and> within_depth 0 v"
  using assms read_result(1) [of bytes 0 v "[]"] by (auto simp: decode_def res_bind_eq_Inr split: if_splits)

lemma decode_bounds_witness:
  "decode (enc sample_value) = Inr (canon sample_value) \<and>
   wf_value (canon sample_value) \<and> nodes (canon sample_value) \<le> length (enc sample_value) \<and>
   within_depth 0 (canon sample_value)"
proof -
  have "decode (enc sample_value) = Inr (canon sample_value)" by (intro decode_enc sample_encodable sample_wf)
  with decode_bounds [OF this] show ?thesis by simp
qed

section \<open>The shortest float\<close>

lemma f16_infinite: "h < 2 ^ 16 \<Longrightarrow> h div 2 ^ 10 mod 32 = 31 \<Longrightarrow> \<not> is_nan (f16_bits_to_f64 h) \<Longrightarrow> is_infinite (f16_bits_to_f64 h)"
  using pack64_fields [of 0 2047 0] pack64_fields [of 1 2047 0] pack64_fields [of 0 2047 "2 ^ 51"]
  by (auto simp: f16_bits_to_f64_def Let_def F64_INFINITY_def F64_NEG_INFINITY_def F64_NAN_def is_nan_def is_infinite_def
      split: if_splits)

lemma infinite_is_f16: "f < 2 ^ 64 \<Longrightarrow> is_infinite f \<Longrightarrow> \<exists>h<2 ^ 16. f16_bits_to_f64 h = f"
  using infinite_eq [of f] f16_specials(2,3)
  by (cases "f64_sign f = 1") (auto intro: exI [of _ "0xfc00"] exI [of _ "0x7c00"])

lemma f32_special: "b div 2 ^ 23 mod 256 = 255 \<Longrightarrow> is_nan (f32_to_f64 b) \<or> is_infinite (f32_to_f64 b)"
proof -
  assume e: "b div 2 ^ 23 mod 256 = 255"
  have s: "b div 2 ^ 31 mod 2 < 2" by simp
  have "b mod 2 ^ 23 mod 2 ^ 22 < 2 ^ 22" by simp
  then have m: "2 ^ 51 + b mod 2 ^ 23 mod 2 ^ 22 * 2 ^ 29 < (2 :: nat) ^ 52" by simp
  show ?thesis
    unfolding f32_to_f64_def Let_def e
    using pack64_fields [OF s _ m, of 2047] pack64_fields [OF s, of 2047 0] by (simp add: is_nan_def is_infinite_def)
qed

text \<open>\<open>write_float\<close> takes the shortest lossless width: half precision exactly when some half widens to
  the value, otherwise single precision exactly when some single does, otherwise double.\<close>

theorem float_shortest:
  assumes "f < 2 ^ 64" "\<not> is_nan f"
  shows "\<exists>bytes. write_float [] f = Inr bytes \<and>
    length bytes = (if \<exists>h<2 ^ 16. f16_bits_to_f64 h = f then 3 else if \<exists>b<2 ^ 32. f32_to_f64 b = f then 5 else 9)"
proof -
  have "write_float [] f = Inr (enc_float f)"
    using length_enc_float [of f] by (simp add: write_float_put put_def MAX_CBOR_BYTES_def)
  moreover have "length (enc_float f) =
      (if \<exists>h<2 ^ 16. f16_bits_to_f64 h = f then 3 else if \<exists>b<2 ^ 32. f32_to_f64 b = f then 5 else 9)"
  proof (cases "\<exists>h<2 ^ 16. f16_bits_to_f64 h = f")
    case True
    then obtain h where h: "h < 2 ^ 16" "f16_bits_to_f64 h = f" by blast
    then have "is_infinite f \<or> f64_to_f16_exact f = Some h" using f16_infinite [of h] f16_complete [of h] assms(2) by metis
    with True assms(2) show ?thesis by (auto simp: enc_float_def)
  next
    case no16: False
    then have "\<not> is_infinite f" "f64_to_f16_exact f = None"
      using infinite_is_f16 [OF assms(1)] f16_sound [OF assms(1)] by (blast, metis not_None_eq)
    moreover have "(\<exists>b<2 ^ 32. f32_to_f64 b = f) \<longleftrightarrow> f64_to_f32_exact f \<noteq> None"
    proof
      assume "\<exists>b<2 ^ 32. f32_to_f64 b = f"
      then obtain b where "b < 2 ^ 32" "f32_to_f64 b = f" by blast
      then show "f64_to_f32_exact f \<noteq> None"
        using f32_complete [of b] f32_special [of b] assms(2) \<open>\<not> is_infinite f\<close> by force
    next
      assume "f64_to_f32_exact f \<noteq> None"
      moreover have "f64_exp f \<noteq> 2047" using assms(2) \<open>\<not> is_infinite f\<close> by (auto simp: is_nan_def is_infinite_def)
      ultimately show "\<exists>b<2 ^ 32. f32_to_f64 b = f"
        using f64_as_f32_bound [OF assms(1)] by (auto simp: f64_to_f32_exact_def Let_def split: if_splits)
    qed
    ultimately show ?thesis using no16 assms(2) by (auto simp: enc_float_def)
  qed
  ultimately show ?thesis by blast
qed

lemma float_shortest_witness:
  "\<exists>bytes. write_float [] (pack64 0 1022 (2 ^ 51)) = Inr bytes \<and>
    length bytes = (if \<exists>h<2 ^ 16. f16_bits_to_f64 h = pack64 0 1022 (2 ^ 51) then 3
      else if \<exists>b<2 ^ 32. f32_to_f64 b = pack64 0 1022 (2 ^ 51) then 5 else 9)"
  using float_shortest [of "pack64 0 1022 (2 ^ 51)"] pack64_fields [of 0 1022 "2 ^ 51"] by (simp add: is_nan_def)

section \<open>Sets\<close>

lemma encode_all_Inr: "encode_all arr = Inr ixs \<Longrightarrow> ixs = map (\<lambda>v. (enc v, v)) arr"
  by (induction arr arbitrary: ixs) (auto simp: res_bind_eq_Inr encode_Inr)

lemma dedup_runs_spec:
  "sorted (map fst ps) \<Longrightarrow>
   sorted_wrt (<) (map fst (dedup_runs ps)) \<and> set (map fst (dedup_runs ps)) = set (map fst ps) \<and> set (dedup_runs ps) \<subseteq> set ps"
proof (induction ps rule: dedup_runs.induct)
  case (1 x y xs)
  then show ?case
  proof (cases "fst x = fst y")
    case False
    with 1 have "fst x < fst z" if "z \<in> set (y # xs)" for z using that by fastforce
    with False 1 show ?thesis by fastforce
  qed fastforce
qed simp_all

text \<open>A canonicalised set lists its elements in strictly ascending order of their encodings, once each:
  the result depends only on the set of encodings, not on order or repetition in the input.\<close>

theorem set_canonical:
  assumes "canonicalize_set_elements arr = (Inr (), arr')"
  shows "map enc arr' = sorted_list_of_set (enc ` set arr) \<and> set arr' \<subseteq> set arr"
proof -
  let ?ps = "sort_key fst (map (\<lambda>v. (enc v, v)) arr)"
  have arr': "arr' = map snd (dedup_runs ?ps)"
    using assms encode_all_Inr [of arr] by (auto simp: canonicalize_set_elements_def split: sum.splits)
  have D: "sorted_wrt (<) (map fst (dedup_runs ?ps))" "set (map fst (dedup_runs ?ps)) = set (map fst ?ps)"
      "set (dedup_runs ?ps) \<subseteq> set ?ps"
    using dedup_runs_spec [of ?ps] by simp_all
  have "fst p = enc (snd p)" if "p \<in> set (dedup_runs ?ps)" for p using D(3) that by auto
  then have keys: "map enc arr' = map fst (dedup_runs ?ps)" by (simp add: arr')
  have "set (map enc arr') = enc ` set arr" unfolding keys D(2) by (simp add: image_image)
  then have "map enc arr' = sorted_list_of_set (enc ` set arr)"
    using D(1) sorted_list_of_set.idem_if_sorted_distinct [of "map enc arr'"] unfolding keys by (simp add: strict_sorted_iff)
  moreover have "set arr' \<subseteq> set arr" using D(3) by (auto simp: arr')
  ultimately show ?thesis by simp
qed

lemma set_canonical_witness:
  "canonicalize_set_elements [CvInt 2, CvInt 1, CvInt 2] = (Inr (), [CvInt 1, CvInt 2]) \<and>
   map enc [CvInt 1, CvInt 2] = sorted_list_of_set (enc ` set [CvInt 2, CvInt 1, CvInt 2])"
proof -
  have "encode (CvInt i) = Inr (head 0 (nat i))" if "0 \<le> i" "i \<le> 23" for i
    using that by (simp add: encode_Inr MAX_CBOR_BYTES_def MAX_CBOR_NESTING_def head_def)
  then have "canonicalize_set_elements [CvInt 2, CvInt 1, CvInt 2] = (Inr (), [CvInt 1, CvInt 2])"
    by (simp add: canonicalize_set_elements_def head_def char_less_iff)
  with set_canonical [OF this] show ?thesis by simp
qed

end
