(* ===== verification/Classifier.thy ===== *)
theory Classifier
  imports Errors Crypto
begin

text \<open>
  The crate \<open>ephemeral-classifier\<close>: hash pinning, module validation, the memory limiter, the execution
  pipeline and the signature envelope.  The \<open>wasmi\<close> interpreter is the record \<open>wasm_env\<close>: a call into
  the guest yields the \<open>memory.grow\<close> requests it makes (in bytes, as the limiter sees them) and its
  result, \<open>None\<close> for a trap.  SHA-256 and the CBOR decoders of \<open>serde\<close> are parameters too.  The log
  sanitiser of this crate is the same code as the one of \<open>ephemeral-anomaly\<close> and shares its definition.
\<close>

section \<open>Errors and configuration (errors.rs, config.rs, output.rs)\<close>

datatype classifier_load_error =
    InvalidHashHex
  | HashMismatch string string
  | ForbiddenImport string string string
  | ForbiddenStartFunction
  | MissingExport string
  | InvalidExportSignature string string string

datatype classifier_exec_error =
    WasmParseError
  | InstantiationFailed
  | AllocCallTrap
  | ClassifyCallTrap
  | MemoryAccessError
  | OutputTooLarge nat nat
  | InputTooLarge nat
  | MemoryGrowthDenied nat nat nat
  | OutputDecodeFailed

datatype classifier_sig_error =
    CoseVerifyFailed
  | PayloadDecodeFailed
  | AbiVersionMismatch nat nat
  | WasmHashMismatch string string
  | SignerKidMismatch string string

datatype classifier_error = ClfLoad classifier_load_error | ClfExec classifier_exec_error

record classifier_config =
  fuel_budget :: nat
  max_output_bytes :: nat
  max_memory_pages :: nat

definition classifier_config_default :: classifier_config where
  "classifier_config_default = \<lparr>fuel_budget = 100000000, max_output_bytes = 2 ^ 20, max_memory_pages = 64\<rparr>"

definition WASM_PAGE_SIZE :: nat where "WASM_PAGE_SIZE = 65536"

record classifier_output =
  co_tier :: nat
  co_reason_code :: string
  co_reason_text :: string
  co_escalations :: "string list"
  co_justification_tag :: string

section \<open>Hash pinning (hash.rs)\<close>

definition lower_hex_byte :: "char \<Rightarrow> bool" where
  "lower_hex_byte b \<longleftrightarrow> (48 \<le> byte b \<and> byte b \<le> 57) \<or> (97 \<le> byte b \<and> byte b \<le> 102)"

definition verify_classifier_hash ::
  "(string \<Rightarrow> string) \<Rightarrow> (string \<Rightarrow> string option) \<Rightarrow> string \<Rightarrow> string \<Rightarrow> classifier_load_error + unit" where
  "verify_classifier_hash sha hex_decode_32 wasm_bytes expected_hash_hex =
     (if length expected_hash_hex \<noteq> 64 \<or> \<not> list_all lower_hex_byte expected_hash_hex then Inl InvalidHashHex
      else
        (case hex_decode_32 expected_hash_hex of
           None \<Rightarrow> Inl InvalidHashHex
         | Some expected \<Rightarrow>
             let actual = sha wasm_bytes in
             if actual = expected then Inr () else Inl (HashMismatch expected actual)))"

section \<open>Memory limiter (limiter.rs)\<close>

definition MAX_TABLE_ELEMENTS :: nat where "MAX_TABLE_ELEMENTS = 4096"

record denial =
  current_pages :: nat
  requested_pages :: nat
  denial_cap_pages :: nat

record memory_limiter =
  cap_pages :: nat
  lim_denial :: "denial option"

definition limiter_new :: "nat \<Rightarrow> memory_limiter" where
  "limiter_new cap = \<lparr>cap_pages = cap, lim_denial = None\<rparr>"

definition pages_from_bytes :: "nat \<Rightarrow> nat" where
  "pages_from_bytes bytes = (let pages = bytes div WASM_PAGE_SIZE in if pages > u32_max then u32_max else pages)"

definition memory_growing :: "memory_limiter \<Rightarrow> nat \<Rightarrow> nat \<Rightarrow> bool \<times> memory_limiter" where
  "memory_growing self current desired =
     (let cp = pages_from_bytes current; dp = pages_from_bytes desired in
      if dp > cap_pages self then
        (False,
         if lim_denial self = None
         then self\<lparr>lim_denial := Some \<lparr>current_pages = cp, requested_pages = dp, denial_cap_pages = cap_pages self\<rparr>\<rparr>
         else self)
      else (True, self))"

definition table_growing :: "memory_limiter \<Rightarrow> nat \<Rightarrow> nat \<Rightarrow> bool" where
  "table_growing self current desired = (\<not> desired > MAX_TABLE_ELEMENTS)"

section \<open>Module validation (validate.rs)\<close>

datatype val_type = I32 | I64 | F32 | F64 | V128 | FuncRef | ExternRef

datatype extern_type = ExternFunc "val_type list" "val_type list" | ExternTable | ExternMemory | ExternGlobal

datatype 'i start_result = StartOk 'i | UnexpectedStartFn | StartFailed

type_synonym grow_requests = "(nat \<times> nat) list"

record ('m, 'i) wasm_env =
  w_parse :: "string \<Rightarrow> 'm option"
  w_imports :: "'m \<Rightarrow> (string \<times> string \<times> extern_type) list"
  w_export :: "'m \<Rightarrow> string \<Rightarrow> extern_type option"
  w_instantiate :: "nat \<Rightarrow> nat \<Rightarrow> 'm \<Rightarrow> grow_requests \<times> 'i option"
  w_ensure_no_start :: "'i \<Rightarrow> 'i start_result"
  w_alloc :: "'i \<Rightarrow> int \<Rightarrow> grow_requests \<times> (int \<times> 'i) option"
  w_write :: "'i \<Rightarrow> nat \<Rightarrow> string \<Rightarrow> 'i option"
  w_classify :: "'i \<Rightarrow> int \<Rightarrow> int \<Rightarrow> grow_requests \<times> (int \<times> 'i) option"
  w_read :: "'i \<Rightarrow> nat \<Rightarrow> nat \<Rightarrow> string option"
  w_decode_output :: "string \<Rightarrow> classifier_output option"

fun extern_kind_label :: "extern_type \<Rightarrow> string" where
  "extern_kind_label (ExternFunc _ _) = ''function''"
| "extern_kind_label ExternTable = ''table''"
| "extern_kind_label ExternMemory = ''memory''"
| "extern_kind_label ExternGlobal = ''global''"

fun val_type_label :: "val_type \<Rightarrow> string" where
  "val_type_label I32 = ''i32''"
| "val_type_label I64 = ''i64''"
| "val_type_label F32 = ''f32''"
| "val_type_label F64 = ''f64''"
| "val_type_label V128 = ''v128''"
| "val_type_label FuncRef = ''funcref''"
| "val_type_label ExternRef = ''externref''"

definition signature_label :: "val_type list \<Rightarrow> val_type list \<Rightarrow> string" where
  "signature_label params results =
     (if params = [I32] \<and> results = [I32] then ''(i32) -> i32''
      else if params = [I32, I32] \<and> results = [I64] then ''(i32, i32) -> i64''
      else ''(unspecified)'')"

fun join_with :: "string \<Rightarrow> string list \<Rightarrow> string" where
  "join_with sep [] = []"
| "join_with sep [x] = x"
| "join_with sep (x # y # xs) = x @ sep @ join_with sep (y # xs)"

definition format_func_type :: "val_type list \<Rightarrow> val_type list \<Rightarrow> string" where
  "format_func_type params results =
     ''('' @ join_with '', '' (map val_type_label params) @ '') -> ('' @ join_with '', '' (map val_type_label results) @ '')''"

definition validate_no_imports :: "('m, 'i) wasm_env \<Rightarrow> 'm \<Rightarrow> classifier_load_error + unit" where
  "validate_no_imports env m =
     (case w_imports env m of
        (module, name, ty) # _ \<Rightarrow>
          Inl (ForbiddenImport (sanitize_log_string module) (sanitize_log_string name) (extern_kind_label ty))
      | [] \<Rightarrow> Inr ())"

definition validate_memory_export :: "('m, 'i) wasm_env \<Rightarrow> 'm \<Rightarrow> classifier_load_error + unit" where
  "validate_memory_export env m =
     (case w_export env m ''memory'' of
        None \<Rightarrow> Inl (MissingExport ''memory'')
      | Some ExternMemory \<Rightarrow> Inr ()
      | Some other \<Rightarrow> Inl (InvalidExportSignature ''memory'' ''memory'' (sanitize_log_string (extern_kind_label other))))"

definition check_func_signature ::
  "string \<Rightarrow> val_type list \<Rightarrow> val_type list \<Rightarrow> val_type list \<Rightarrow> val_type list \<Rightarrow> classifier_load_error + unit" where
  "check_func_signature name ps rs expected_params expected_results =
     (if ps = expected_params \<and> rs = expected_results then Inr ()
      else Inl (InvalidExportSignature name (signature_label expected_params expected_results)
                  (sanitize_log_string (format_func_type ps rs))))"

definition validate_func_export ::
  "('m, 'i) wasm_env \<Rightarrow> 'm \<Rightarrow> string \<Rightarrow> val_type list \<Rightarrow> val_type list \<Rightarrow> classifier_load_error + unit" where
  "validate_func_export env m name expected_params expected_results =
     (case w_export env m name of
        None \<Rightarrow> Inl (MissingExport name)
      | Some (ExternFunc ps rs) \<Rightarrow> check_func_signature name ps rs expected_params expected_results
      | Some other \<Rightarrow> Inl (InvalidExportSignature name (signature_label expected_params expected_results)
                             (sanitize_log_string (extern_kind_label other))))"

definition validate_abi_exports :: "('m, 'i) wasm_env \<Rightarrow> 'm \<Rightarrow> classifier_load_error + unit" where
  "validate_abi_exports env m =
     res_bind (validate_memory_export env m) (\<lambda>_.
     res_bind (validate_func_export env m ''alloc'' [I32] [I32]) (\<lambda>_.
     validate_func_export env m ''classify'' [I32, I32] [I64]))"

section \<open>Execution (runtime.rs)\<close>

definition unpack_locator :: "int \<Rightarrow> nat \<times> nat" where
  "unpack_locator packed =
     (let packed_u64 = nat (packed mod 2 ^ 64) in (packed_u64 div 2 ^ 32 mod 2 ^ 32, packed_u64 mod 2 ^ 32))"

text \<open>The limiter after a guest call, and the translation of a trap.\<close>

definition run_requests :: "memory_limiter \<Rightarrow> grow_requests \<Rightarrow> memory_limiter" where
  "run_requests lim reqs = foldl (\<lambda>l (current, desired). snd (memory_growing l current desired)) lim reqs"

definition map_guest_trap :: "memory_limiter \<Rightarrow> classifier_exec_error \<Rightarrow> classifier_error" where
  "map_guest_trap lim fallback =
     (case lim_denial lim of
        Some d \<Rightarrow> ClfExec (MemoryGrowthDenied (current_pages d) (requested_pages d) (denial_cap_pages d))
      | None \<Rightarrow> ClfExec fallback)"

definition lift_load :: "classifier_load_error + 'a \<Rightarrow> classifier_error + 'a" where
  "lift_load r = (case r of Inl e \<Rightarrow> Inl (ClfLoad e) | Inr x \<Rightarrow> Inr x)"

definition guest_call ::
  "memory_limiter \<Rightarrow> classifier_exec_error \<Rightarrow> grow_requests \<times> 'a option \<Rightarrow> classifier_error + (memory_limiter \<times> 'a)" where
  "guest_call lim fallback call =
     (let lim = run_requests lim (fst call) in
      case snd call of None \<Rightarrow> Inl (map_guest_trap lim fallback) | Some x \<Rightarrow> Inr (lim, x))"

definition execute_classifier ::
  "('m, 'i) wasm_env \<Rightarrow> string \<Rightarrow> string \<Rightarrow> classifier_config \<Rightarrow> classifier_error + classifier_output" where
  "execute_classifier env wasm_bytes context_cbor config =
     (case w_parse env wasm_bytes of
        None \<Rightarrow> Inl (ClfExec WasmParseError)
      | Some m \<Rightarrow>
     res_bind (lift_load (validate_no_imports env m)) (\<lambda>_.
     res_bind (lift_load (validate_abi_exports env m)) (\<lambda>_.
     let lim = limiter_new (max_memory_pages config) in
     res_bind (guest_call lim InstantiationFailed
                 (w_instantiate env (max_memory_pages config) (fuel_budget config) m)) (\<lambda>(lim, pre).
     case w_ensure_no_start env pre of
       UnexpectedStartFn \<Rightarrow> Inl (ClfLoad ForbiddenStartFunction)
     | StartFailed \<Rightarrow> Inl (ClfExec InstantiationFailed)
     | StartOk inst \<Rightarrow>
         (if length context_cbor > 2 ^ 31 - 1 then Inl (ClfExec (InputTooLarge (length context_cbor)))
          else
            let input_len = int (length context_cbor) in
            res_bind (guest_call lim AllocCallTrap (w_alloc env inst input_len)) (\<lambda>(lim, input_ptr, inst).
            case w_write env inst (nat (input_ptr mod 2 ^ 32)) context_cbor of
              None \<Rightarrow> Inl (ClfExec MemoryAccessError)
            | Some inst \<Rightarrow>
            res_bind (guest_call lim ClassifyCallTrap (w_classify env inst input_ptr input_len)) (\<lambda>(lim, packed, inst).
            let (output_offset, output_size) = unpack_locator packed in
            if output_size > max_output_bytes config
            then Inl (ClfExec (OutputTooLarge output_size (max_output_bytes config)))
            else
              (case w_read env inst output_offset output_size of
                 None \<Rightarrow> Inl (ClfExec MemoryAccessError)
               | Some output_bytes \<Rightarrow>
                   (case w_decode_output env output_bytes of
                      None \<Rightarrow> Inl (ClfExec OutputDecodeFailed)
                    | Some out \<Rightarrow> Inr out)))))))))"

section \<open>Signature envelope (signature.rs)\<close>

definition CLASSIFIER_ABI_VERSION :: nat where "CLASSIFIER_ABI_VERSION = 1"
definition CLASSIFIER_AAD :: string where "CLASSIFIER_AAD = ''ephemeral/classifier/v1''"
definition MAX_CLF_KID_BYTES :: nat where "MAX_CLF_KID_BYTES = 256"
definition SHA256_BYTES :: nat where "SHA256_BYTES = 32"
definition MAX_INNER_PAYLOAD_BYTES :: nat where "MAX_INNER_PAYLOAD_BYTES = 4096"

record classifier_sig_payload =
  csp_sha256 :: string
  csp_abi_version :: nat
  csp_signer_kid :: string

record verified_classifier_signature =
  vcs_signer_kid :: string
  vcs_abi_version :: nat
  vcs_wasm_sha256 :: string

definition verify_classifier_signature ::
  "('pk, 'sig) crypto_env \<Rightarrow> (string \<Rightarrow> classifier_sig_payload option) \<Rightarrow> (string \<Rightarrow> string) \<Rightarrow>
   string \<Rightarrow> string \<Rightarrow> 'pk trust_anchor_set \<Rightarrow> nat \<Rightarrow> classifier_sig_error + verified_classifier_signature" where
  "verify_classifier_signature env decode_payload sha wasm_bytes cose_sign1_bytes anchors expected_abi_version =
     (case verify_cose_sign1 env cose_sign1_bytes anchors CLASSIFIER_AAD ClassifierSigner of
        Inl _ \<Rightarrow> Inl CoseVerifyFailed
      | Inr verified \<Rightarrow>
          if length (vp_payload verified) > MAX_INNER_PAYLOAD_BYTES then Inl PayloadDecodeFailed
          else
            (case decode_payload (vp_payload verified) of
               None \<Rightarrow> Inl PayloadDecodeFailed
             | Some payload \<Rightarrow>
                 if length (csp_sha256 payload) \<noteq> SHA256_BYTES then Inl PayloadDecodeFailed
                 else if length (csp_signer_kid payload) > MAX_CLF_KID_BYTES then Inl PayloadDecodeFailed
                 else if csp_abi_version payload \<noteq> expected_abi_version
                 then Inl (AbiVersionMismatch expected_abi_version (csp_abi_version payload))
                 else if csp_signer_kid payload \<noteq> vp_kid verified
                 then Inl (SignerKidMismatch (sanitize_log_string (vp_kid verified)) (sanitize_log_string (csp_signer_kid payload)))
                 else
                   let actual = sha wasm_bytes; expected = csp_sha256 payload in
                   if actual \<noteq> expected then Inl (WasmHashMismatch expected actual)
                   else Inr \<lparr>vcs_signer_kid = sanitize_log_string (vp_kid verified),
                              vcs_abi_version = csp_abi_version payload, vcs_wasm_sha256 = actual\<rparr>))"

section \<open>The limiter\<close>

definition over_cap :: "nat \<Rightarrow> nat \<times> nat \<Rightarrow> bool" where
  "over_cap cap req \<longleftrightarrow> cap < pages_from_bytes (snd req)"

lemma run_requests_cap [simp]: "cap_pages (run_requests lim reqs) = cap_pages lim"
  by (induction reqs arbitrary: lim) (auto simp: run_requests_def memory_growing_def Let_def split: prod.splits)

lemma run_requests_append: "run_requests lim (r1 @ r2) = run_requests (run_requests lim r1) r2"
  by (simp add: run_requests_def)

lemma run_requests_denial:
  "lim_denial (run_requests lim reqs) =
     (case lim_denial lim of
        Some d \<Rightarrow> Some d
      | None \<Rightarrow>
          map_option (\<lambda>(c, d). \<lparr>current_pages = pages_from_bytes c, requested_pages = pages_from_bytes d, denial_cap_pages = cap_pages lim\<rparr>)
            (List.find (over_cap (cap_pages lim)) reqs))"
proof (induction reqs arbitrary: lim)
  case Nil
  then show ?case by (simp add: run_requests_def split: option.splits)
next
  case (Cons r reqs)
  obtain c d where r: "r = (c, d)" by (cases r)
  have step: "run_requests lim (r # reqs) = run_requests (snd (memory_growing lim c d)) reqs"
    by (simp add: run_requests_def r)
  show ?case
    unfolding step Cons by (auto simp: r memory_growing_def over_cap_def Let_def split: option.splits)
qed

section \<open>The trace of an execution\<close>

text \<open>The requests made up to and including the first guest call that traps; \<open>None\<close> if none does.\<close>

definition trapped_requests :: "('m, 'i) wasm_env \<Rightarrow> string \<Rightarrow> string \<Rightarrow> classifier_config \<Rightarrow> grow_requests option" where
  "trapped_requests env wasm_bytes context_cbor config =
     (case w_parse env wasm_bytes of
        None \<Rightarrow> None
      | Some m \<Rightarrow>
          if validate_no_imports env m \<noteq> Inr () \<or> validate_abi_exports env m \<noteq> Inr () then None
          else
            (case w_instantiate env (max_memory_pages config) (fuel_budget config) m of
               (r1, None) \<Rightarrow> Some r1
             | (r1, Some pre) \<Rightarrow>
                 (case w_ensure_no_start env pre of
                    StartOk inst \<Rightarrow>
                      if length context_cbor > 2 ^ 31 - 1 then None
                      else
                        (case w_alloc env inst (int (length context_cbor)) of
                           (r2, None) \<Rightarrow> Some (r1 @ r2)
                         | (r2, Some (input_ptr, inst)) \<Rightarrow>
                             (case w_write env inst (nat (input_ptr mod 2 ^ 32)) context_cbor of
                                None \<Rightarrow> None
                              | Some inst \<Rightarrow>
                                  (case w_classify env inst input_ptr (int (length context_cbor)) of
                                     (r3, None) \<Rightarrow> Some (r1 @ r2 @ r3)
                                   | (r3, Some _) \<Rightarrow> None)))
                  | _ \<Rightarrow> None)))"

lemma map_guest_trap_denied:
  "map_guest_trap lim fallback = ClfExec (MemoryGrowthDenied c r k) \<longleftrightarrow>
   lim_denial lim = Some \<lparr>current_pages = c, requested_pages = r, denial_cap_pages = k\<rparr>"
  if "\<And>c r k. fallback \<noteq> MemoryGrowthDenied c r k"
  using that by (auto simp: map_guest_trap_def split: option.splits)

lemma limiter_new_simps [simp]: "cap_pages (limiter_new cap) = cap" "lim_denial (limiter_new cap) = None"
  by (simp_all add: limiter_new_def)

lemma lift_load_denied [simp]: "lift_load r \<noteq> Inl (ClfExec e)"
  by (simp add: lift_load_def split: sum.splits)

lemma denied_by_requests:
  "\<forall>c r k. fallback \<noteq> MemoryGrowthDenied c r k \<Longrightarrow>
   map_guest_trap (run_requests (limiter_new cap) reqs) fallback = ClfExec (MemoryGrowthDenied c r k) \<longleftrightarrow>
   (\<exists>req. List.find (over_cap cap) reqs = Some req \<and> c = pages_from_bytes (fst req) \<and> r = pages_from_bytes (snd req) \<and> k = cap)"
  by (subst map_guest_trap_denied) (auto simp: run_requests_denial)

lemma lift_load_Inr [simp]: "lift_load r = Inr () \<longleftrightarrow> r = Inr ()"
  by (cases r) (simp_all add: lift_load_def)

lemma res_bind_lift_load:
  "res_bind (lift_load r) f = Inl (ClfExec e) \<longleftrightarrow> r = Inr () \<and> f () = Inl (ClfExec e)"
  "res_bind (lift_load r) f = Inr x \<longleftrightarrow> r = Inr () \<and> f () = Inr x"
  by (cases r; simp add: lift_load_def)+

text \<open>C36: \<open>MemoryGrowthDenied\<close> is reported exactly when a guest call traps and some growth request made
  so far, in this call or an earlier one, exceeded the cap; it carries the first such request.  A trap
  for another reason, fuel included, is attributed to a denial the guest had survived before.\<close>

theorem trap_attribution:
  "execute_classifier env wasm ctx config = Inl (ClfExec (MemoryGrowthDenied c r k)) \<longleftrightarrow>
   (\<exists>reqs req. trapped_requests env wasm ctx config = Some reqs \<and>
      List.find (over_cap (max_memory_pages config)) reqs = Some req \<and>
      c = pages_from_bytes (fst req) \<and> r = pages_from_bytes (snd req) \<and> k = max_memory_pages config)"
proof (cases "w_parse env wasm")
  case None
  then show ?thesis by (simp add: execute_classifier_def trapped_requests_def)
next
  case m: (Some m)
  show ?thesis
  proof (cases "validate_no_imports env m = Inr () \<and> validate_abi_exports env m = Inr ()")
    case False
    then show ?thesis using m by (auto simp: execute_classifier_def trapped_requests_def res_bind_lift_load)
  next
    case valid: True
    obtain r1 pre where inst: "w_instantiate env (max_memory_pages config) (fuel_budget config) m = (r1, pre)" by fastforce
    note base = execute_classifier_def trapped_requests_def res_bind_lift_load guest_call_def Let_def m valid inst denied_by_requests
    show ?thesis
    proof (cases pre)
      case None
      then show ?thesis by (simp add: base)
    next
      case pre: (Some i)
      show ?thesis
      proof (cases "w_ensure_no_start env i")
        case start: (StartOk inst)
        show ?thesis
        proof (cases "length ctx > 2 ^ 31 - 1")
          case True
          then show ?thesis by (simp add: base pre start)
        next
          case len: False
          obtain r2 a where alloc: "w_alloc env inst (int (length ctx)) = (r2, a)" by fastforce
          note base2 = base pre start len alloc run_requests_append [symmetric]
          show ?thesis
          proof (cases a)
            case None
            then show ?thesis by (simp add: base2)
          next
            case a: (Some p)
            then obtain ptr inst2 where p: "a = Some (ptr, inst2)" by (cases p) simp
            show ?thesis
            proof (cases "w_write env inst2 (nat (ptr mod 2 ^ 32)) ctx")
              case None
              then show ?thesis by (simp add: base2 p)
            next
              case w: (Some inst3)
              obtain r3 c3 where cl: "w_classify env inst3 ptr (int (length ctx)) = (r3, c3)" by fastforce
              show ?thesis
                by (cases c3) (auto simp: base2 p w cl split: prod.split option.split)
            qed
          qed
        qed
      qed (simp_all add: base pre)
    qed
  qed
qed

text \<open>A payload that commits to an ABI version, a key identifier and a digest.\<close>

definition commits_to ::
  "(string \<Rightarrow> classifier_sig_payload option) \<Rightarrow> string \<Rightarrow> nat \<Rightarrow> string \<Rightarrow> string \<Rightarrow> bool" where
  "commits_to decode_payload p abi kid digest \<longleftrightarrow>
     length p \<le> MAX_INNER_PAYLOAD_BYTES \<and> length digest = SHA256_BYTES \<and> length kid \<le> MAX_CLF_KID_BYTES \<and>
     (\<exists>payload. decode_payload p = Some payload \<and> csp_sha256 payload = digest \<and>
        csp_abi_version payload = abi \<and> csp_signer_kid payload = kid)"

lemma classifier_signature_inner:
  "verify_classifier_signature env decode_payload sha wasm cose anchors abi = Inr v \<longleftrightarrow>
   (\<exists>vp. verify_cose_sign1 env cose anchors CLASSIFIER_AAD ClassifierSigner = Inr vp \<and>
      commits_to decode_payload (vp_payload vp) abi (vp_kid vp) (sha wasm) \<and>
      v = \<lparr>vcs_signer_kid = sanitize_log_string (vp_kid vp), vcs_abi_version = abi, vcs_wasm_sha256 = sha wasm\<rparr>)"
  unfolding verify_classifier_signature_def Let_def commits_to_def
  by (auto split: sum.splits option.splits if_splits)

text \<open>A classifier signature is accepted exactly when an anchor registered for classifier signing vouches
  for the envelope under the classifier AAD and the payload commits to the ABI version, to the anchor's own
  key identifier and to the SHA-256 of the very bytes to be run; the identifier it returns is sanitised.\<close>

theorem classifier_signature_iff:
  "verify_classifier_signature env decode_payload sha wasm cose (insert_all as []) abi = Inr v \<longleftrightarrow>
   size_depth_check_with_cap env cose MAX_COSE_BYTES = Inr () \<and>
   (\<exists>sign1 a p. coset_parse env cose = Some sign1 \<and> well_formed_sign1 sign1 \<and> a \<in> set (insert_all as []) \<and>
      vouches env sign1 CLASSIFIER_AAD ClassifierSigner a \<and> sign1_payload sign1 = Some p \<and>
      commits_to decode_payload p abi (ta_kid a) (sha wasm) \<and>
      v = \<lparr>vcs_signer_kid = sanitize_log_string (ta_kid a), vcs_abi_version = abi, vcs_wasm_sha256 = sha wasm\<rparr>)"
  (is "?l \<longleftrightarrow> ?r")
proof -
  have cose: "verify_cose_sign1 env cose (insert_all as []) CLASSIFIER_AAD ClassifierSigner = Inr vp \<longleftrightarrow>
      size_depth_check_with_cap env cose MAX_COSE_BYTES = Inr () \<and>
      (\<exists>sign1 a. coset_parse env cose = Some sign1 \<and> well_formed_sign1 sign1 \<and> a \<in> set (insert_all as []) \<and>
         vouches env sign1 CLASSIFIER_AAD ClassifierSigner a \<and> sign1_payload sign1 = Some (vp_payload vp) \<and>
         vp_kid vp = ta_kid a \<and> vp_alg vp = Ed25519)" for vp
    unfolding verify_cose_sign1_def by (rule verify_with_cap_iff) (rule insert_all_distinct, simp)
  show ?thesis
  proof
    assume ?l
    then show ?r unfolding classifier_signature_inner cose by metis
  next
    assume r: ?r
    then obtain sign1 a p where w: "coset_parse env cose = Some sign1" "well_formed_sign1 sign1"
        "a \<in> set (insert_all as [])" "vouches env sign1 CLASSIFIER_AAD ClassifierSigner a" "sign1_payload sign1 = Some p"
        "commits_to decode_payload p abi (ta_kid a) (sha wasm)"
        "v = \<lparr>vcs_signer_kid = sanitize_log_string (ta_kid a), vcs_abi_version = abi, vcs_wasm_sha256 = sha wasm\<rparr>" by blast
    then show ?l
      unfolding classifier_signature_inner cose
      using r by (intro exI [of _ "\<lparr>vp_kid = ta_kid a, vp_alg = Ed25519, vp_payload = p\<rparr>"]) auto
  qed
qed

end
