(* ===== verification/Vectors.thy ===== *)
theory Vectors
  imports Crypto
begin

text \<open>
  What the suites of \<open>ephemeral-core\<close> share: the vector and verdict types of \<open>types.rs\<close>, the harness
  errors of \<open>error.rs\<close> and the live-verification glue of \<open>suites/crypto_support.rs\<close>.  The type \<open>'j\<close>
  stands for \<open>serde_json::Value\<close>.
\<close>

section \<open>Harness errors (error.rs)\<close>

datatype schema_error = SchRead string | SchParse string | SchCompile string | SchInvalid string string "string list"

datatype validator_error = VIo string | VJson string | VSchema schema_error | VCodec string

fun schema_error_display :: "schema_error \<Rightarrow> string" where
  "schema_error_display (SchRead path) = ''schema file could not be read: '' @ path"
| "schema_error_display (SchParse path) = ''schema JSON parse failure in '' @ path"
| "schema_error_display (SchCompile reason) = ''schema compilation failed: '' @ reason"
| "schema_error_display (SchInvalid path summary errors) =
     ''document at '' @ path @ '' failed schema validation: '' @ summary"

fun validator_error_display :: "validator_error \<Rightarrow> string" where
  "validator_error_display (VIo path) = ''I/O error reading '' @ path"
| "validator_error_display (VJson path) = ''JSON parse failure in '' @ path"
| "validator_error_display (VSchema e) = ''schema error''"
| "validator_error_display (VCodec e) = ''codec error: '' @ e"

section \<open>Vectors and verdicts (types.rs)\<close>

datatype vector_suite =
    DelegationScope | Canonicalization | FuzzBaseline | TariffReject
  | PcrAttestationReject | AuditReplay | AnomalyLibraryReject | AnomalyDetect

fun suite_as_str :: "vector_suite \<Rightarrow> string" where
  "suite_as_str DelegationScope = ''delegation-scope''"
| "suite_as_str Canonicalization = ''canonicalization''"
| "suite_as_str FuzzBaseline = ''fuzz-baseline''"
| "suite_as_str TariffReject = ''tariff-reject''"
| "suite_as_str PcrAttestationReject = ''pcr-attestation-reject''"
| "suite_as_str AuditReplay = ''audit-replay''"
| "suite_as_str AnomalyLibraryReject = ''anomaly-library-reject''"
| "suite_as_str AnomalyDetect = ''anomaly-detect''"

definition suite_ALL :: "vector_suite list" where
  "suite_ALL = [DelegationScope, Canonicalization, FuzzBaseline, TariffReject, PcrAttestationReject,
     AuditReplay, AnomalyLibraryReject, AnomalyDetect]"

datatype outcome = Accept | Reject

datatype severity_level = SevLow | SevMedium | SevHigh | SevCritical

record 'j expected_outcome =
  exp_outcome :: outcome
  exp_reject_code :: "string option"
  exp_output :: "'j option"

record 'j vector =
  v_id :: string
  v_category :: string
  v_description :: string
  v_input :: 'j
  v_expected :: "'j expected_outcome"
  v_rationale :: string
  v_redteam_refs :: "string list"
  v_severity_if_failed :: "severity_level option"

datatype skip_reason = SuiteNotImplementedThisSession | FilteredOut

datatype validation_outcome = Pass | Fail string | ErrorOf validator_error | Skipped skip_reason

section \<open>Live verification (suites/crypto\_support.rs)\<close>

record trust_anchor_key_def =
  tk_kid :: string
  tk_alg :: string
  tk_pk_hex :: string
  tk_role :: "string option"

definition role_of_def :: "anchor_role \<Rightarrow> trust_anchor_key_def \<Rightarrow> cose_error + anchor_role" where
  "role_of_def default_role d =
     (case tk_role d of Some s \<Rightarrow> role_from_wire_str s | None \<Rightarrow> Inr default_role)"

definition anchor_of_def ::
  "('pk, 'sig) crypto_env \<Rightarrow> anchor_role \<Rightarrow> trust_anchor_key_def \<Rightarrow> cose_error + 'pk trust_anchor" where
  "anchor_of_def env default_role d =
     (if \<not> eq_ignore_ascii_case (tk_alg d) ''ed25519'' then Inl (UnknownAlgString (trim_chars 64 [] (tk_alg d)))
      else
        res_bind (role_of_def default_role d) (\<lambda>role.
        case hex_decode env (tk_pk_hex d) of
          None \<Rightarrow> Inl HexDecode
        | Some pk_bytes \<Rightarrow> new_ed25519 env (tk_kid d) pk_bytes role))"

fun build_anchors ::
  "('pk, 'sig) crypto_env \<Rightarrow> anchor_role \<Rightarrow> trust_anchor_key_def list \<Rightarrow> 'pk trust_anchor_set \<Rightarrow>
   cose_error + 'pk trust_anchor_set" where
  "build_anchors env default_role [] anchors = Inr anchors"
| "build_anchors env default_role (d # ds) anchors =
     res_bind (anchor_of_def env default_role d) (\<lambda>anchor.
     case anchor_set_insert anchors anchor of
       (Inl e, _) \<Rightarrow> Inl e
     | (Inr _, anchors) \<Rightarrow> build_anchors env default_role ds anchors)"

definition build_anchor_set ::
  "('pk, 'sig) crypto_env \<Rightarrow> trust_anchor_key_def list \<Rightarrow> anchor_role \<Rightarrow> cose_error + 'pk trust_anchor_set" where
  "build_anchor_set env defs default_role = build_anchors env default_role defs []"

definition verify_with_defs ::
  "('pk, 'sig) crypto_env \<Rightarrow> string \<Rightarrow> trust_anchor_key_def list \<Rightarrow> string \<Rightarrow> anchor_role \<Rightarrow>
   cose_error + verified_payload" where
  "verify_with_defs env cose_hex anchor_defs aad expected_role =
     (case hex_decode env cose_hex of
        None \<Rightarrow> Inl HexDecode
      | Some cose_bytes \<Rightarrow>
          res_bind (build_anchor_set env anchor_defs expected_role) (\<lambda>anchors.
          verify_cose_sign1 env cose_bytes anchors aad expected_role))"

section \<open>The anchor set of a vector\<close>

text \<open>A built set holds exactly the anchors of the definitions, in order, and no kid twice.\<close>

lemma build_anchors_Inr:
  "distinct (map ta_kid anchors) \<Longrightarrow>
   build_anchors env role ds anchors = Inr result \<longleftrightarrow>
     (\<exists>as. list_all2 (\<lambda>d a. anchor_of_def env role d = Inr a) ds as \<and>
       result = anchors @ as \<and> distinct (map ta_kid result))"
proof (induction ds arbitrary: anchors)
  case (Cons d ds)
  show ?case
  proof (cases "anchor_of_def env role d")
    case (Inr a)
    show ?thesis
    proof (cases "list_ex (\<lambda>b. ta_kid b = ta_kid a) anchors")
      case True
      then have "ta_kid a \<in> ta_kid ` set anchors" by (auto simp: list_ex_iff image_iff) metis
      then show ?thesis using Inr True
        by (auto simp: anchor_set_insert_def list_all2_Cons1)
    next
      case False
      then have "distinct (map ta_kid (anchors @ [a]))" using Cons.prems by (auto simp: list_ex_iff)
      from Cons.IH [OF this] Inr False show ?thesis
        by (auto simp: anchor_set_insert_def list_all2_Cons1)
    qed
  qed (auto simp: list_all2_Cons1)
qed auto

lemma build_anchor_set_distinct:
  "build_anchor_set env defs role = Inr anchors \<Longrightarrow> distinct (map ta_kid anchors)"
  by (auto simp: build_anchor_set_def build_anchors_Inr)

text \<open>Some definition of the vector yields an anchor of the wanted role that vouches for the envelope.\<close>

definition live_verified ::
  "('pk, 'sig) crypto_env \<Rightarrow> string \<Rightarrow> trust_anchor_key_def list \<Rightarrow> string \<Rightarrow> anchor_role \<Rightarrow> bool" where
  "live_verified env cose_hex defs aad role \<longleftrightarrow>
     (\<exists>bytes sign1 anchors a.
        hex_decode env cose_hex = Some bytes \<and> build_anchor_set env defs role = Inr anchors \<and>
        size_depth_check_with_cap env bytes MAX_COSE_BYTES = Inr () \<and> coset_parse env bytes = Some sign1 \<and>
        well_formed_sign1 sign1 \<and> sign1_payload sign1 \<noteq> None \<and> a \<in> set anchors \<and> vouches env sign1 aad role a)"

lemma verify_with_defs_ok: "(\<exists>vp. verify_with_defs env cose_hex defs aad role = Inr vp) \<longleftrightarrow> live_verified env cose_hex defs aad role"
proof
  assume "\<exists>vp. verify_with_defs env cose_hex defs aad role = Inr vp"
  then obtain vp bytes anchors where *: "hex_decode env cose_hex = Some bytes"
    "build_anchor_set env defs role = Inr anchors" "verify_cose_sign1 env bytes anchors aad role = Inr vp"
    by (auto simp: verify_with_defs_def res_bind_eq_Inr split: option.splits)
  from *(3) show "live_verified env cose_hex defs aad role"
    unfolding verify_cose_sign1_def verify_with_cap_iff [OF build_anchor_set_distinct [OF *(2)]] live_verified_def
    using *(1,2) by blast
next
  assume "live_verified env cose_hex defs aad role"
  then obtain bytes sign1 anchors a p where *: "hex_decode env cose_hex = Some bytes"
    "build_anchor_set env defs role = Inr anchors" "size_depth_check_with_cap env bytes MAX_COSE_BYTES = Inr ()"
    "coset_parse env bytes = Some sign1" "well_formed_sign1 sign1" "sign1_payload sign1 = Some p"
    "a \<in> set anchors" "vouches env sign1 aad role a"
    unfolding live_verified_def by auto
  have "verify_cose_sign1 env bytes anchors aad role = Inr \<lparr>vp_kid = ta_kid a, vp_alg = Ed25519, vp_payload = p\<rparr>"
    unfolding verify_cose_sign1_def verify_with_cap_iff [OF build_anchor_set_distinct [OF *(2)]] using * by auto
  then show "\<exists>vp. verify_with_defs env cose_hex defs aad role = Inr vp"
    using * by (auto simp: verify_with_defs_def)
qed

end
