(* ===== verification/Delegation.thy ===== *)
theory Delegation
  imports Vectors "HOL-Library.Monad_Syntax"
begin

text \<open>
  The delegation-scope suite (\<open>suites/delegation.rs\<close>): a chain of delegation links from the pinned
  root to the key that signs a mandate, and the ten checks a mandate passes.  Fields the code only
  deserializes (\<open>revocation_channel\<close>, \<open>issuer_constraints\<close>, \<open>sub_resource\<close>, \<open>purpose\<close>, \<open>operator_id\<close>,
  \<open>revocation_channel_ref\<close> and the \<open>signed_by\<close> of a mandate) are left out of the records.
\<close>

section \<open>Constants and reject codes\<close>

definition TRUST_ANCHOR :: string where "TRUST_ANCHOR = ''K_cust_root_pk_TEST''"

definition MAX_CHAIN_LINKS :: nat where "MAX_CHAIN_LINKS = 3"

definition DEFAULT_NARROWNESS_THRESHOLD :: int where "DEFAULT_NARROWNESS_THRESHOLD = 20"

datatype delegation_reject_code =
    DelRoleHierarchyViolation
  | DelChainDepthExceeded
  | DelSignatureInvalid
  | DelSignatureChainBroken
  | DelExpired
  | DelRevoked
  | DelParentDelegationRevoked
  | DelVersionSkew
  | DelScopeIntegrationMismatch
  | DelScopeIntegrationsWildcardForbidden
  | DelScopeTierExceeded
  | DelScopeVerbForbidden
  | DelScopeResourceKindForbidden
  | DelScopeBudgetExceeded
  | DelScopeExpiryTooLong
  | DelMandateEmptyCap
  | DelNarrownessRuleViolation

fun delegation_code_display :: "delegation_reject_code \<Rightarrow> string" where
  "delegation_code_display DelRoleHierarchyViolation = ''role-hierarchy-violation''"
| "delegation_code_display DelChainDepthExceeded = ''chain-depth-exceeded''"
| "delegation_code_display DelSignatureInvalid = ''signature-invalid''"
| "delegation_code_display DelSignatureChainBroken = ''signature-chain-broken''"
| "delegation_code_display DelExpired = ''expired''"
| "delegation_code_display DelRevoked = ''revoked''"
| "delegation_code_display DelParentDelegationRevoked = ''parent-delegation-revoked''"
| "delegation_code_display DelVersionSkew = ''version-skew''"
| "delegation_code_display DelScopeIntegrationMismatch = ''scope-integration-mismatch''"
| "delegation_code_display DelScopeIntegrationsWildcardForbidden = ''scope-integrations-wildcard-forbidden''"
| "delegation_code_display DelScopeTierExceeded = ''scope-tier-exceeded''"
| "delegation_code_display DelScopeVerbForbidden = ''scope-verb-forbidden''"
| "delegation_code_display DelScopeResourceKindForbidden = ''scope-resource-kind-forbidden''"
| "delegation_code_display DelScopeBudgetExceeded = ''scope-budget-exceeded''"
| "delegation_code_display DelScopeExpiryTooLong = ''scope-expiry-too-long''"
| "delegation_code_display DelMandateEmptyCap = ''mandate-empty-cap''"
| "delegation_code_display DelNarrownessRuleViolation = ''narrowness-rule-violation''"

section \<open>Data model\<close>

datatype link_role = Ops | MandateSignerRole | TariffSignerRole | AuditSignerRole | AnomalyLibrarySignerRole

definition is_terminal :: "link_role \<Rightarrow> bool" where
  "is_terminal r \<longleftrightarrow> r \<noteq> Ops"

record budget =
  bud_actions :: int
  bud_tokens :: int

record raw_delegation_scope =
  raw_integrations :: "string list option"
  raw_max_tier_signable :: "nat option"
  raw_max_budget :: "budget option"
  raw_max_exp_seconds :: "nat option"
  raw_allowed_verbs :: "string list option"
  raw_allowed_resource_kinds :: "string list option"

record delegation_scope =
  ds_integrations :: "string list"
  ds_max_tier_signable :: nat
  ds_max_budget :: budget
  ds_max_exp_seconds :: nat
  ds_allowed_verbs :: "string list"
  ds_allowed_resource_kinds :: "string list"

definition from_raw :: "raw_delegation_scope \<Rightarrow> delegation_scope option" where
  "from_raw raw = do {
     integrations \<leftarrow> raw_integrations raw;
     tier \<leftarrow> raw_max_tier_signable raw;
     budget \<leftarrow> raw_max_budget raw;
     secs \<leftarrow> raw_max_exp_seconds raw;
     verbs \<leftarrow> raw_allowed_verbs raw;
     kinds \<leftarrow> raw_allowed_resource_kinds raw;
     Some \<lparr>ds_integrations = integrations, ds_max_tier_signable = tier, ds_max_budget = budget,
       ds_max_exp_seconds = secs, ds_allowed_verbs = verbs, ds_allowed_resource_kinds = kinds\<rparr>
   }"

record delegation_link =
  parent_key :: string
  child_key :: string
  child_role :: link_role
  link_scope :: raw_delegation_scope
  valid_from :: nat
  valid_until :: nat
  signed_by :: "string option"
  link_signature_valid :: bool
  link_cose_sign1_bytes :: "string option"

record cap_entry =
  cap_verb :: string
  cap_resource_kind :: string
  cap_tier :: nat
  cap_resource_ref :: "string option"

record mandate =
  mandate_id :: string
  integration_ref :: string
  cap :: "cap_entry list"
  man_budget :: budget
  man_issued_at :: nat
  man_exp :: nat
  min_tariff_version :: nat
  signer_key_hint :: "string option"
  man_signature_valid :: bool
  man_cose_sign1_bytes :: "string option"

record delegation_context =
  current_tariff_version :: nat
  ctx_current_time :: nat
  revocation_list :: "string list"
  narrowness_threshold :: int

record delegation_input =
  delegation_chain :: "delegation_link list"
  dl_mandate :: mandate
  dl_context :: delegation_context
  trust_anchor_keys :: "trust_anchor_key_def list option"

section \<open>The checks\<close>

definition map_cose_error_to_delegation :: "cose_error \<Rightarrow> delegation_reject_code" where
  "map_cose_error_to_delegation e = DelSignatureInvalid"

definition check_link_signature ::
  "('pk, 'sig) crypto_env \<Rightarrow> delegation_link \<Rightarrow> trust_anchor_key_def list option \<Rightarrow> delegation_reject_code + unit" where
  "check_link_signature env link anchor_defs =
     (case (link_cose_sign1_bytes link, anchor_defs) of
        (Some hex_bytes, Some defs) \<Rightarrow>
          (case verify_with_defs env hex_bytes defs ''delegation-link'' DelegationSigner of
             Inr _ \<Rightarrow> Inr ()
           | Inl e \<Rightarrow> Inl (map_cose_error_to_delegation e))
      | (Some _, None) \<Rightarrow> Inl DelSignatureInvalid
      | (None, Some _) \<Rightarrow> Inl DelSignatureInvalid
      | (None, None) \<Rightarrow> if link_signature_valid link then Inr () else Inl DelSignatureInvalid)"

definition check_mandate_signature ::
  "('pk, 'sig) crypto_env \<Rightarrow> mandate \<Rightarrow> trust_anchor_key_def list option \<Rightarrow> delegation_reject_code + unit" where
  "check_mandate_signature env m anchor_defs =
     (case (man_cose_sign1_bytes m, anchor_defs) of
        (Some hex_bytes, Some defs) \<Rightarrow>
          (case verify_with_defs env hex_bytes defs ''mandate'' DelegationSigner of
             Inr _ \<Rightarrow> Inr ()
           | Inl e \<Rightarrow> Inl (map_cose_error_to_delegation e))
      | (Some _, None) \<Rightarrow> Inl DelSignatureInvalid
      | (None, Some _) \<Rightarrow> Inl DelSignatureInvalid
      | (None, None) \<Rightarrow> if man_signature_valid m then Inr () else Inl DelSignatureInvalid)"

definition same_link :: "delegation_link \<Rightarrow> delegation_link \<Rightarrow> bool" where
  "same_link a b \<longleftrightarrow> parent_key a = parent_key b \<and> child_key a = child_key b \<and> child_role a = child_role b"

definition duplicate_link :: "delegation_link list \<Rightarrow> bool" where
  "duplicate_link chain =
     list_ex (\<lambda>i. list_ex (\<lambda>j. same_link (chain ! i) (chain ! j)) [i + 1 ..< length chain]) [0 ..< length chain]"

definition structural_chain_check :: "delegation_input \<Rightarrow> delegation_reject_code + unit" where
  "structural_chain_check input =
     (let chain = delegation_chain input in
      if chain = [] then Inl DelSignatureChainBroken
      else if parent_key (chain ! 0) \<noteq> TRUST_ANCHOR then Inl DelSignatureChainBroken
      else
        res_bind
          (check_each (\<lambda>link.
             case signed_by link of
               None \<Rightarrow> Inl DelSignatureChainBroken
             | Some signer \<Rightarrow> fail_if (signer \<noteq> parent_key link) DelSignatureChainBroken) chain) (\<lambda>_.
        res_bind
          (case signer_key_hint (dl_mandate input) of
             Some hint \<Rightarrow> fail_if (hint \<noteq> child_key (last chain)) DelSignatureChainBroken
           | None \<Rightarrow> Inr ()) (\<lambda>_.
        res_bind (fail_if (duplicate_link chain) DelSignatureChainBroken) (\<lambda>_.
        check_each (\<lambda>link. fail_if (from_raw (link_scope link) = None) DelSignatureChainBroken) chain))))"

definition role_hierarchy_check :: "delegation_link list \<Rightarrow> delegation_reject_code + unit" where
  "role_hierarchy_check chain =
     (if child_role (chain ! 0) \<noteq> Ops then Inl DelRoleHierarchyViolation
      else if \<not> is_terminal (child_role (chain ! (length chain - 1))) \<and> length chain > 1
      then Inl DelRoleHierarchyViolation
      else
        check_each (\<lambda>link. fail_if (child_role link \<noteq> Ops) DelRoleHierarchyViolation)
          (take (length chain - 1) chain))"

definition revocation_check :: "delegation_input \<Rightarrow> delegation_reject_code + unit" where
  "revocation_check input =
     (let rl = revocation_list (dl_context input) in
      if list_ex (\<lambda>x. x = mandate_id (dl_mandate input)) rl then Inl DelRevoked
      else
        check_each (\<lambda>link.
          if list_ex (\<lambda>x. x = child_key link) rl then Inl DelRevoked
          else fail_if (list_ex (\<lambda>x. x = parent_key link) rl) DelRevoked) (delegation_chain input))"

definition scope_match :: "mandate \<Rightarrow> delegation_scope \<Rightarrow> delegation_reject_code + unit" where
  "scope_match m scope =
     (if \<not> list_ex (\<lambda>s. s = integration_ref m) (ds_integrations scope) then Inl DelScopeIntegrationMismatch
      else
        res_bind
          (case map cap_tier (cap m) of
             [] \<Rightarrow> Inr ()
           | t # ts \<Rightarrow> fail_if (fold max ts t > ds_max_tier_signable scope) DelScopeTierExceeded) (\<lambda>_.
        res_bind
          (if list_ex (\<lambda>v. v = ''*'') (ds_allowed_verbs scope) then Inr ()
           else
             check_each (\<lambda>c.
               fail_if (cap_verb c = ''*'' \<or> \<not> list_ex (\<lambda>v. v = cap_verb c) (ds_allowed_verbs scope))
                 DelScopeVerbForbidden) (cap m)) (\<lambda>_.
        res_bind
          (if list_ex (\<lambda>v. v = ''*'') (ds_allowed_resource_kinds scope) then Inr ()
           else
             check_each (\<lambda>c.
               fail_if (cap_resource_kind c = ''*'' \<or>
                   \<not> list_ex (\<lambda>k. k = cap_resource_kind c) (ds_allowed_resource_kinds scope))
                 DelScopeResourceKindForbidden) (cap m)) (\<lambda>_.
        if bud_actions (man_budget m) < 0 \<or> bud_actions (man_budget m) > bud_actions (ds_max_budget scope)
        then Inl DelScopeBudgetExceeded
        else if bud_tokens (man_budget m) < 0 \<or> bud_tokens (man_budget m) > bud_tokens (ds_max_budget scope)
        then Inl DelScopeBudgetExceeded
        else if man_exp m - man_issued_at m > ds_max_exp_seconds scope then Inl DelScopeExpiryTooLong
        else Inr ()))))"

definition mandate_has_wildcard_cap :: "mandate \<Rightarrow> bool" where
  "mandate_has_wildcard_cap m =
     list_ex (\<lambda>c. cap_verb c = ''*'' \<or> cap_resource_kind c = ''*'' \<or>
       (case cap_resource_ref c of Some r \<Rightarrow> CHR ''*'' \<in> set r | None \<Rightarrow> False)) (cap m)"

section \<open>The pipeline\<close>

definition delegation_verify :: "('pk, 'sig) crypto_env \<Rightarrow> delegation_input \<Rightarrow> delegation_reject_code + unit" where
  "delegation_verify env input =
     (let chain = delegation_chain input; anchor_defs = trust_anchor_keys input;
          m = dl_mandate input; ctx = dl_context input in
      res_bind (check_each (\<lambda>link. check_link_signature env link anchor_defs) chain) (\<lambda>_.
      res_bind (check_mandate_signature env m anchor_defs) (\<lambda>_.
      res_bind (structural_chain_check input) (\<lambda>_.
      if length chain > MAX_CHAIN_LINKS then Inl DelChainDepthExceeded
      else
      res_bind (role_hierarchy_check chain) (\<lambda>_.
      res_bind
        (check_each (\<lambda>link.
           if ctx_current_time ctx \<ge> valid_until link then Inl DelExpired
           else fail_if (ctx_current_time ctx < valid_from link) DelExpired) chain) (\<lambda>_.
      res_bind (revocation_check input) (\<lambda>_.
      if cap m = [] then Inl DelMandateEmptyCap
      else if ctx_current_time ctx \<ge> man_exp m then Inl DelExpired
      else if ctx_current_time ctx < man_issued_at m then Inl DelExpired
      else if min_tariff_version m > current_tariff_version ctx then Inl DelVersionSkew
      else
      res_bind
        (check_each (\<lambda>link.
           case raw_integrations (link_scope link) of
             Some ints \<Rightarrow> fail_if (list_ex (\<lambda>s. s = ''*'') ints) DelScopeIntegrationsWildcardForbidden
           | None \<Rightarrow> Inr ()) chain) (\<lambda>_.
      res_bind
        (check_each (\<lambda>link.
           case from_raw (link_scope link) of
             None \<Rightarrow> Inl DelSignatureChainBroken
           | Some scope \<Rightarrow> scope_match m scope) chain) (\<lambda>_.
      if mandate_has_wildcard_cap m \<and> bud_actions (man_budget m) > narrowness_threshold ctx
      then Inl DelNarrownessRuleViolation
      else Inr ())))))))))"

text \<open>\<open>execute\<close>: the verdict on a vector, with \<open>serde_json::from_value\<close> as the parameter \<open>from_value\<close>.\<close>

definition delegation_execute ::
  "('pk, 'sig) crypto_env \<Rightarrow> ('j \<Rightarrow> string + delegation_input) \<Rightarrow> 'j vector \<Rightarrow> validation_outcome" where
  "delegation_execute env from_value vector =
     (case from_value (v_input vector) of
        Inl e \<Rightarrow> Fail (''delegation vector '' @ v_id vector @ '' deserialize: '' @ e)
      | Inr parsed \<Rightarrow>
          (case (exp_outcome (v_expected vector), delegation_verify env parsed) of
             (Accept, Inr _) \<Rightarrow> Pass
           | (Accept, Inl code) \<Rightarrow> Fail (''expected accept, got reject '' @ delegation_code_display code)
           | (Reject, Inr _) \<Rightarrow>
               let want = case exp_reject_code (v_expected vector) of Some w \<Rightarrow> w | None \<Rightarrow> ''?'' in
               Fail (''expected reject '' @ want @ '', got accept'')
           | (Reject, Inl code) \<Rightarrow>
               let want = case exp_reject_code (v_expected vector) of Some w \<Rightarrow> w | None \<Rightarrow> [] in
               if delegation_code_display code = want then Pass
               else Fail (''expected reject '' @ want @ '', got '' @ delegation_code_display code)))"

end
