(* ===== verification/Delegation_Correct.thy ===== *)
theory Delegation_Correct
  imports Delegation
begin

text \<open>
  What the delegation pipeline decides: the conditions of a valid delegation, the verdict as a table of
  conditions and wire codes, the effective authority of a chain as the meet of its scopes, and what the checks do not bind.
\<close>

section \<open>The conditions\<close>

definition signature_held ::
  "('pk, 'sig) crypto_env \<Rightarrow> trust_anchor_key_def list option \<Rightarrow> string \<Rightarrow> string option \<Rightarrow> bool \<Rightarrow> bool" where
  "signature_held env defs aad bytes flag \<longleftrightarrow>
     (case (bytes, defs) of
        (Some h, Some ds) \<Rightarrow> live_verified env h ds aad DelegationSigner
      | (None, None) \<Rightarrow> flag
      | _ \<Rightarrow> False)"

definition signatures_hold :: "('pk, 'sig) crypto_env \<Rightarrow> delegation_input \<Rightarrow> bool" where
  "signatures_hold env inp \<longleftrightarrow>
     (\<forall>l \<in> set (delegation_chain inp). signature_held env (trust_anchor_keys inp) ''delegation-link''
        (link_cose_sign1_bytes l) (link_signature_valid l)) \<and>
     signature_held env (trust_anchor_keys inp) ''mandate''
       (man_cose_sign1_bytes (dl_mandate inp)) (man_signature_valid (dl_mandate inp))"

definition link_triple :: "delegation_link \<Rightarrow> string \<times> string \<times> link_role" where
  "link_triple l = (parent_key l, child_key l, child_role l)"

definition complete_scope :: "raw_delegation_scope \<Rightarrow> bool" where
  "complete_scope raw \<longleftrightarrow> raw_integrations raw \<noteq> None \<and> raw_max_tier_signable raw \<noteq> None \<and> raw_max_budget raw \<noteq> None \<and>
     raw_max_exp_seconds raw \<noteq> None \<and> raw_allowed_verbs raw \<noteq> None \<and> raw_allowed_resource_kinds raw \<noteq> None"

definition anchored_chain :: "delegation_input \<Rightarrow> bool" where
  "anchored_chain inp \<longleftrightarrow> delegation_chain inp \<noteq> [] \<and> parent_key (hd (delegation_chain inp)) = TRUST_ANCHOR \<and>
     (\<forall>l \<in> set (delegation_chain inp). signed_by l = Some (parent_key l)) \<and>
     signer_key_hint (dl_mandate inp) \<in> {None, Some (child_key (last (delegation_chain inp)))} \<and>
     distinct (map link_triple (delegation_chain inp)) \<and>
     (\<forall>l \<in> set (delegation_chain inp). complete_scope (link_scope l))"

text \<open>Every link but the last is an ops key; the last is terminal, unless it is the only one.\<close>

definition role_shape :: "delegation_link list \<Rightarrow> bool" where
  "role_shape chain \<longleftrightarrow> (\<forall>l \<in> set (butlast chain). child_role l = Ops) \<and>
     (child_role (last chain) = Ops \<longleftrightarrow> length chain = 1)"

definition chain_in_force :: "nat \<Rightarrow> delegation_link list \<Rightarrow> bool" where
  "chain_in_force now chain \<longleftrightarrow> (\<forall>l \<in> set chain. valid_from l \<le> now \<and> now < valid_until l)"

definition identities :: "delegation_input \<Rightarrow> string set" where
  "identities inp = insert (mandate_id (dl_mandate inp))
     (child_key ` set (delegation_chain inp) \<union> parent_key ` set (delegation_chain inp))"

definition wildcard_integrations :: "delegation_link list \<Rightarrow> bool" where
  "wildcard_integrations chain \<longleftrightarrow> (\<exists>l \<in> set chain. \<exists>ints. raw_integrations (link_scope l) = Some ints \<and> ''*'' \<in> set ints)"

section \<open>Each check decides its condition\<close>

lemma check_link_signature_ok:
  "check_link_signature env l defs =
     (if signature_held env defs ''delegation-link'' (link_cose_sign1_bytes l) (link_signature_valid l)
      then Inr () else Inl DelSignatureInvalid)"
proof (cases "verify_with_defs env (the (link_cose_sign1_bytes l)) (the defs) ''delegation-link'' DelegationSigner")
  case (Inl e)
  then have "\<not> live_verified env (the (link_cose_sign1_bytes l)) (the defs) ''delegation-link'' DelegationSigner"
    by (simp add: verify_with_defs_ok [symmetric])
  with Inl show ?thesis
    by (auto simp: check_link_signature_def signature_held_def map_cose_error_to_delegation_def split: option.split)
next
  case (Inr vp)
  then have "live_verified env (the (link_cose_sign1_bytes l)) (the defs) ''delegation-link'' DelegationSigner"
    by (simp add: verify_with_defs_ok [symmetric])
  with Inr show ?thesis
    by (auto simp: check_link_signature_def signature_held_def split: option.split)
qed

lemma check_mandate_signature_ok:
  "check_mandate_signature env m defs =
     (if signature_held env defs ''mandate'' (man_cose_sign1_bytes m) (man_signature_valid m)
      then Inr () else Inl DelSignatureInvalid)"
proof (cases "verify_with_defs env (the (man_cose_sign1_bytes m)) (the defs) ''mandate'' DelegationSigner")
  case (Inl e)
  then have "\<not> live_verified env (the (man_cose_sign1_bytes m)) (the defs) ''mandate'' DelegationSigner"
    by (simp add: verify_with_defs_ok [symmetric])
  with Inl show ?thesis
    by (auto simp: check_mandate_signature_def signature_held_def map_cose_error_to_delegation_def split: option.split)
next
  case (Inr vp)
  then have "live_verified env (the (man_cose_sign1_bytes m)) (the defs) ''mandate'' DelegationSigner"
    by (simp add: verify_with_defs_ok [symmetric])
  with Inr show ?thesis
    by (auto simp: check_mandate_signature_def signature_held_def split: option.split)
qed

lemma fail_if_bool: "(if P then Inr () else Inl e) = fail_if (\<not> P) e"
  by (simp add: fail_if_def)

lemma signatures_stage:
  "res_bind (check_each (\<lambda>l. check_link_signature env l (trust_anchor_keys inp)) (delegation_chain inp))
     (\<lambda>_. res_bind (check_mandate_signature env (dl_mandate inp) (trust_anchor_keys inp)) (\<lambda>_. r)) =
   (if signatures_hold env inp then r else Inl DelSignatureInvalid)"
  unfolding check_link_signature_ok check_mandate_signature_ok fail_if_bool check_each_fail_if res_bind_fail_if
  by (auto simp: signatures_hold_def list_ex_iff)

lemma from_raw_None: "from_raw raw = None \<longleftrightarrow> \<not> complete_scope raw"
  by (auto simp: from_raw_def complete_scope_def split: bind_splits)

lemma duplicate_link_iff: "duplicate_link chain \<longleftrightarrow> \<not> distinct (map link_triple chain)"
proof -
  have "duplicate_link chain \<longleftrightarrow>
      (\<exists>i \<in> {0..<length chain}. \<exists>j \<in> {i + 1..<length chain}. link_triple (chain ! i) = link_triple (chain ! j))"
    by (simp only: duplicate_link_def same_link_def link_triple_def list_ex_iff prod.inject set_upt)
  also have "\<dots> \<longleftrightarrow> (\<exists>i j. i < j \<and> j < length chain \<and> link_triple (chain ! i) = link_triple (chain ! j))"
    by (simp add: Bex_def Suc_le_eq) (meson less_trans)
  also have "\<dots> \<longleftrightarrow> \<not> distinct (map link_triple chain)"
  proof
    assume "\<exists>i j. i < j \<and> j < length chain \<and> link_triple (chain ! i) = link_triple (chain ! j)"
    then obtain i j where "i < j" "j < length chain" "link_triple (chain ! i) = link_triple (chain ! j)" by blast
    then show "\<not> distinct (map link_triple chain)"
      using nth_eq_iff_index_eq [of "map link_triple chain" i j] by auto
  next
    assume "\<not> distinct (map link_triple chain)"
    then obtain i j where "i < length chain" "j < length chain" "i \<noteq> j" "link_triple (chain ! i) = link_triple (chain ! j)"
      unfolding distinct_conv_nth by auto
    then show "\<exists>i j. i < j \<and> j < length chain \<and> link_triple (chain ! i) = link_triple (chain ! j)"
      by (cases i j rule: linorder_cases) metis+
  qed
  finally show ?thesis .
qed

lemma structural_stage:
  "structural_chain_check inp = fail_if (\<not> anchored_chain inp) DelSignatureChainBroken"
proof (cases "delegation_chain inp = []")
  case False
  have signer: "(case signed_by l of None \<Rightarrow> Inl DelSignatureChainBroken
        | Some signer \<Rightarrow> fail_if (signer \<noteq> parent_key l) DelSignatureChainBroken) =
      fail_if (signed_by l \<noteq> Some (parent_key l)) DelSignatureChainBroken" for l
    by (auto simp: fail_if_def split: option.split)
  have hint: "(case h of Some hint \<Rightarrow> fail_if (hint \<noteq> k) DelSignatureChainBroken | None \<Rightarrow> Inr ()) =
      fail_if (h \<notin> {None, Some k}) DelSignatureChainBroken" for h :: "string option" and k
    by (auto simp: fail_if_def split: option.split)
  show ?thesis
    unfolding structural_chain_check_def Let_def signer hint check_each_fail_if res_bind_fail_if from_raw_None
      duplicate_link_iff
    using False by (auto simp: anchored_chain_def list_ex_iff hd_conv_nth fail_if_def)
qed (simp add: structural_chain_check_def anchored_chain_def)

lemma role_stage:
  "chain \<noteq> [] \<Longrightarrow> role_hierarchy_check chain = fail_if (\<not> role_shape chain) DelRoleHierarchyViolation"
proof -
  assume "chain \<noteq> []"
  then obtain ops l where chain: "chain = ops @ [l]" by (cases chain rule: rev_cases) auto
  show ?thesis
  proof (cases ops)
    case Nil
    then show ?thesis by (simp add: chain role_hierarchy_check_def role_shape_def is_terminal_def fail_if_def)
  next
    case (Cons a ops')
    then show ?thesis
      unfolding role_hierarchy_check_def check_each_fail_if
      by (auto simp: chain role_shape_def is_terminal_def list_ex_iff fail_if_def nth_append)
  qed
qed

lemma revocation_stage:
  "revocation_check inp = fail_if (set (revocation_list (dl_context inp)) \<inter> identities inp \<noteq> {}) DelRevoked"
proof -
  have step: "(if list_ex (\<lambda>x. x = child_key l) rl then Inl DelRevoked else fail_if (list_ex (\<lambda>x. x = parent_key l) rl) DelRevoked) =
      fail_if (child_key l \<in> set rl \<or> parent_key l \<in> set rl) DelRevoked" for l rl
    by (auto simp: fail_if_def list_ex_iff)
  show ?thesis
    unfolding revocation_check_def Let_def step check_each_fail_if
    by (auto simp: fail_if_def identities_def list_ex_iff)
qed

lemma window_stage:
  "check_each (\<lambda>l. if now \<ge> valid_until l then Inl DelExpired else fail_if (now < valid_from l) DelExpired) chain =
   fail_if (\<not> chain_in_force now chain) DelExpired"
proof -
  have step: "(if now \<ge> valid_until l then Inl DelExpired else fail_if (now < valid_from l) DelExpired) =
      fail_if (\<not> (valid_from l \<le> now \<and> now < valid_until l)) DelExpired" for l
    by (auto simp: fail_if_def)
  show ?thesis unfolding step check_each_fail_if
    by (auto simp: fail_if_def chain_in_force_def list_ex_iff)
qed

lemma wildcard_stage:
  "check_each (\<lambda>l. case raw_integrations (link_scope l) of
       Some ints \<Rightarrow> fail_if (list_ex (\<lambda>s. s = ''*'') ints) DelScopeIntegrationsWildcardForbidden
     | None \<Rightarrow> Inr ()) chain =
   fail_if (wildcard_integrations chain) DelScopeIntegrationsWildcardForbidden"
proof -
  have step: "(case r of Some ints \<Rightarrow> fail_if (list_ex (\<lambda>s. s = ''*'') ints) DelScopeIntegrationsWildcardForbidden
     | None \<Rightarrow> Inr ()) =
      fail_if (\<exists>ints. r = Some ints \<and> ''*'' \<in> set ints) DelScopeIntegrationsWildcardForbidden" for r
    by (auto simp: fail_if_def list_ex_iff split: option.split)
  show ?thesis unfolding step check_each_fail_if
    by (auto simp: fail_if_def wildcard_integrations_def list_ex_iff)
qed

section \<open>Scopes as authority\<close>

text \<open>A mandate fits a scope: the declarative reading of the seven rows.\<close>

definition listed :: "string \<Rightarrow> string list \<Rightarrow> bool" where
  "listed x xs \<longleftrightarrow> ''*'' \<in> set xs \<or> x \<in> set xs"

definition fits :: "mandate \<Rightarrow> delegation_scope \<Rightarrow> bool" where
  "fits m sc \<longleftrightarrow> integration_ref m \<in> set (ds_integrations sc) \<and>
     (\<forall>c \<in> set (cap m). cap_tier c \<le> ds_max_tier_signable sc \<and> listed (cap_verb c) (ds_allowed_verbs sc) \<and>
        listed (cap_resource_kind c) (ds_allowed_resource_kinds sc)) \<and>
     0 \<le> bud_actions (man_budget m) \<and> bud_actions (man_budget m) \<le> bud_actions (ds_max_budget sc) \<and>
     0 \<le> bud_tokens (man_budget m) \<and> bud_tokens (man_budget m) \<le> bud_tokens (ds_max_budget sc) \<and>
     man_exp m - man_issued_at m \<le> ds_max_exp_seconds sc"

lemma tier_row:
  "(case map cap_tier cs of [] \<Rightarrow> Inr () | t # ts \<Rightarrow> fail_if (fold max ts t > b) DelScopeTierExceeded) =
   fail_if (\<not> (\<forall>c \<in> set cs. cap_tier c \<le> b)) DelScopeTierExceeded"
proof (cases cs)
  case (Cons c cs')
  have "b < fold max (map cap_tier cs') (cap_tier c) \<longleftrightarrow> \<not> (\<forall>c \<in> set cs. cap_tier c \<le> b)"
    using fold_max_le [of "map cap_tier cs'" "cap_tier c" b] by (auto simp: Cons not_le [symmetric])
  then show ?thesis by (simp add: Cons)
qed simp

lemma list_row:
  "(if list_ex (\<lambda>v. v = ''*'') allowed then Inr ()
    else check_each (\<lambda>c. fail_if (f c = ''*'' \<or> \<not> list_ex (\<lambda>v. v = f c) allowed) e) cs) =
   fail_if (\<not> (\<forall>c \<in> set cs. listed (f c) allowed)) e"
  unfolding check_each_fail_if by (auto simp: fail_if_def list_ex_iff listed_def) metis

lemma scope_match_rows:
  "scope_match m sc =
     (if integration_ref m \<notin> set (ds_integrations sc) then Inl DelScopeIntegrationMismatch
      else if \<exists>c \<in> set (cap m). cap_tier c > ds_max_tier_signable sc then Inl DelScopeTierExceeded
      else if \<exists>c \<in> set (cap m). \<not> listed (cap_verb c) (ds_allowed_verbs sc) then Inl DelScopeVerbForbidden
      else if \<exists>c \<in> set (cap m). \<not> listed (cap_resource_kind c) (ds_allowed_resource_kinds sc)
      then Inl DelScopeResourceKindForbidden
      else if \<not> (bud_actions (man_budget m) \<in> {0..bud_actions (ds_max_budget sc)} \<and>
         bud_tokens (man_budget m) \<in> {0..bud_tokens (ds_max_budget sc)}) then Inl DelScopeBudgetExceeded
      else if man_exp m - man_issued_at m > ds_max_exp_seconds sc then Inl DelScopeExpiryTooLong
      else Inr ())"
  unfolding scope_match_def tier_row list_row res_bind_fail_if
  by (simp add: list_ex_iff not_le)

lemma scope_match_ok: "scope_match m sc = Inr () \<longleftrightarrow> fits m sc"
  unfolding scope_match_rows by (auto simp: fits_def not_less not_le)

text \<open>The scope of a link, and whether the mandate fits it.\<close>

definition link_fits :: "mandate \<Rightarrow> delegation_link \<Rightarrow> bool" where
  "link_fits m l \<longleftrightarrow> (\<exists>sc. from_raw (link_scope l) = Some sc \<and> fits m sc)"

definition narrow_enough :: "delegation_input \<Rightarrow> bool" where
  "narrow_enough inp \<longleftrightarrow> \<not> (mandate_has_wildcard_cap (dl_mandate inp) \<and>
     bud_actions (man_budget (dl_mandate inp)) > narrowness_threshold (dl_context inp))"

definition mandate_in_force :: "nat \<Rightarrow> mandate \<Rightarrow> bool" where
  "mandate_in_force now m \<longleftrightarrow> man_issued_at m \<le> now \<and> now < man_exp m"

text \<open>The verdict of the first link the mandate does not fit.\<close>

definition scopes_verdict :: "mandate \<Rightarrow> delegation_link list \<Rightarrow> delegation_reject_code + unit" where
  "scopes_verdict m chain =
     (case List.find (\<lambda>l. \<not> link_fits m l) chain of
        None \<Rightarrow> Inr ()
      | Some l \<Rightarrow> scope_match m (the (from_raw (link_scope l))))"

lemma scopes_stage:
  "(\<forall>l \<in> set chain. complete_scope (link_scope l)) \<Longrightarrow>
   check_each (\<lambda>l. case from_raw (link_scope l) of None \<Rightarrow> Inl DelSignatureChainBroken | Some sc \<Rightarrow> scope_match m sc) chain =
   scopes_verdict m chain"
proof (induction chain)
  case (Cons l chain)
  then obtain sc where sc: "from_raw (link_scope l) = Some sc" using from_raw_None [of "link_scope l"] by auto
  show ?case
  proof (cases "fits m sc")
    case True
    then have "scope_match m sc = Inr ()" by (simp add: scope_match_ok)
    with True Cons sc show ?thesis by (simp add: scopes_verdict_def link_fits_def)
  next
    case False
    then obtain e where "scope_match m sc = Inl e" using scope_match_ok [of m sc] by (cases "scope_match m sc") auto
    with False sc show ?thesis by (simp add: scopes_verdict_def link_fits_def)
  qed
qed (simp add: scopes_verdict_def)

lemma scopes_verdict_ok:
  "(\<forall>l \<in> set chain. complete_scope (link_scope l)) \<Longrightarrow>
   scopes_verdict m chain = Inr () \<longleftrightarrow> (\<forall>l \<in> set chain. link_fits m l)"
proof (induction chain)
  case (Cons l chain)
  then obtain sc where "from_raw (link_scope l) = Some sc" using from_raw_None [of "link_scope l"] by auto
  with Cons show ?case by (auto simp: scopes_verdict_def link_fits_def scope_match_ok)
qed (simp add: scopes_verdict_def)

section \<open>The verdict\<close>

text \<open>The code of the first condition that fails.\<close>

definition verdict_table :: "('pk, 'sig) crypto_env \<Rightarrow> delegation_input \<Rightarrow> delegation_reject_code + unit" where
  "verdict_table env inp =
     (let chain = delegation_chain inp; m = dl_mandate inp; ctx = dl_context inp; now = ctx_current_time ctx in
      if \<not> signatures_hold env inp then Inl DelSignatureInvalid
      else if \<not> anchored_chain inp then Inl DelSignatureChainBroken
      else if length chain > 3 then Inl DelChainDepthExceeded
      else if \<not> role_shape chain then Inl DelRoleHierarchyViolation
      else if \<not> chain_in_force now chain then Inl DelExpired
      else if set (revocation_list ctx) \<inter> identities inp \<noteq> {} then Inl DelRevoked
      else if cap m = [] then Inl DelMandateEmptyCap
      else if \<not> mandate_in_force now m then Inl DelExpired
      else if min_tariff_version m > current_tariff_version ctx then Inl DelVersionSkew
      else if wildcard_integrations chain then Inl DelScopeIntegrationsWildcardForbidden
      else if \<exists>l \<in> set chain. \<not> link_fits m l then scopes_verdict m chain
      else if \<not> narrow_enough inp then Inl DelNarrownessRuleViolation
      else Inr ())"

lemma verify_table: "delegation_verify env inp = verdict_table env inp"
proof (cases "anchored_chain inp")
  case anch: True
  then have ne: "delegation_chain inp \<noteq> []" and complete: "\<forall>l \<in> set (delegation_chain inp). complete_scope (link_scope l)"
    by (simp_all add: anchored_chain_def)
  have fit: "scopes_verdict (dl_mandate inp) (delegation_chain inp) = Inr () \<longleftrightarrow>
      (\<forall>l \<in> set (delegation_chain inp). link_fits (dl_mandate inp) l)"
    using complete by (rule scopes_verdict_ok)
  show ?thesis
    unfolding delegation_verify_def verdict_table_def Let_def signatures_stage structural_stage role_stage [OF ne]
      revocation_stage window_stage wildcard_stage scopes_stage [OF complete] res_bind_fail_if
    using fit anch
    by (auto simp: MAX_CHAIN_LINKS_def mandate_in_force_def narrow_enough_def not_le not_less res_bind_def
        split: sum.split)
next
  case False
  then show ?thesis
    unfolding delegation_verify_def verdict_table_def Let_def signatures_stage structural_stage by simp
qed

section \<open>The wire codes in order\<close>

text \<open>The seven rows a link's scope puts to the mandate, each with the code that reports it; the fields are read as
  they stand in the document.\<close>

definition within :: "'a option \<Rightarrow> ('a \<Rightarrow> bool) \<Rightarrow> bool" where
  "within limit P \<longleftrightarrow> (\<exists>x. limit = Some x \<and> P x)"

definition scope_rows :: "mandate \<Rightarrow> raw_delegation_scope \<Rightarrow> (bool \<times> string) list" where
  "scope_rows m raw =
     [(within (raw_integrations raw) (\<lambda>names. integration_ref m \<in> set names), ''scope-integration-mismatch''),
      (within (raw_max_tier_signable raw) (\<lambda>top. \<forall>c \<in> set (cap m). cap_tier c \<le> top), ''scope-tier-exceeded''),
      (within (raw_allowed_verbs raw) (\<lambda>vs. ''*'' \<in> set vs \<or> (\<forall>c \<in> set (cap m). cap_verb c \<in> set vs)),
       ''scope-verb-forbidden''),
      (within (raw_allowed_resource_kinds raw)
         (\<lambda>ks. ''*'' \<in> set ks \<or> (\<forall>c \<in> set (cap m). cap_resource_kind c \<in> set ks)), ''scope-resource-kind-forbidden''),
      (within (raw_max_budget raw)
         (\<lambda>top. bud_actions (man_budget m) \<in> {0..bud_actions top} \<and> bud_tokens (man_budget m) \<in> {0..bud_tokens top}),
       ''scope-budget-exceeded''),
      (within (raw_max_exp_seconds raw) (\<lambda>top. man_exp m \<le> man_issued_at m + top), ''scope-expiry-too-long'')]"

text \<open>A capability that names a wildcard in one of its three fields.\<close>

definition open_ended :: "mandate \<Rightarrow> bool" where
  "open_ended m \<longleftrightarrow>
     (\<exists>c \<in> set (cap m). cap_verb c = ''*'' \<or> cap_resource_kind c = ''*'' \<or>
        (\<exists>r. cap_resource_ref c = Some r \<and> CHR ''*'' \<in> set r))"

text \<open>All the conditions with their codes, in the order they are reported.\<close>

definition delegation_rows :: "('pk, 'sig) crypto_env \<Rightarrow> delegation_input \<Rightarrow> (bool \<times> string) list" where
  "delegation_rows env inp =
     (let chain = delegation_chain inp; m = dl_mandate inp; ctx = dl_context inp; now = ctx_current_time ctx in
      [(signatures_hold env inp, ''signature-invalid''),
       (anchored_chain inp, ''signature-chain-broken''),
       (length chain \<le> 3, ''chain-depth-exceeded''),
       (role_shape chain, ''role-hierarchy-violation''),
       (chain_in_force now chain, ''expired''),
       (set (revocation_list ctx) \<inter> identities inp = {}, ''revoked''),
       (cap m \<noteq> [], ''mandate-empty-cap''),
       (man_issued_at m \<le> now \<and> now < man_exp m, ''expired''),
       (min_tariff_version m \<le> current_tariff_version ctx, ''version-skew''),
       (\<not> wildcard_integrations chain, ''scope-integrations-wildcard-forbidden'')] @
      concat (map (\<lambda>l. scope_rows m (link_scope l)) chain) @
      [(open_ended m \<longrightarrow> bud_actions (man_budget m) \<le> narrowness_threshold ctx, ''narrowness-rule-violation'')])"

definition first_failing :: "(bool \<times> string) list \<Rightarrow> string option" where
  "first_failing rows = map_option snd (List.find (\<lambda>row. \<not> fst row) rows)"

lemma first_failing_simps [simp]:
  "first_failing [] = None"
  "first_failing (row # rows) = (if fst row then first_failing rows else Some (snd row))"
  by (simp_all add: first_failing_def)

lemma first_failing_append:
  "first_failing (xs @ ys) = (case first_failing xs of None \<Rightarrow> first_failing ys | some \<Rightarrow> some)"
  by (induction xs) auto

definition wire_code :: "delegation_reject_code + unit \<Rightarrow> string option" where
  "wire_code r = (case r of Inl code \<Rightarrow> Some (delegation_code_display code) | Inr _ \<Rightarrow> None)"

lemma wire_code_simps [simp]:
  "wire_code (Inl code) = Some (delegation_code_display code)" "wire_code (Inr u) = None"
  "wire_code (if b then r else r') = (if b then wire_code r else wire_code r')"
  by (simp_all add: wire_code_def)

lemma scope_rows_code:
  assumes "from_raw raw = Some sc"
  shows "first_failing (scope_rows m raw) = wire_code (scope_match m sc)"
proof -
  have raw: "raw_integrations raw = Some (ds_integrations sc)" "raw_max_tier_signable raw = Some (ds_max_tier_signable sc)"
    "raw_max_budget raw = Some (ds_max_budget sc)" "raw_max_exp_seconds raw = Some (ds_max_exp_seconds sc)"
    "raw_allowed_verbs raw = Some (ds_allowed_verbs sc)" "raw_allowed_resource_kinds raw = Some (ds_allowed_resource_kinds sc)"
    using assms by (auto simp: from_raw_def split: bind_splits)
  have lists: "(\<exists>c \<in> set cs. \<not> listed (f c) xs) \<longleftrightarrow> \<not> (''*'' \<in> set xs \<or> (\<forall>c \<in> set cs. f c \<in> set xs))"
    for f xs and cs :: "cap_entry list"
    by (auto simp: listed_def)
  have tier: "(\<exists>c \<in> set (cap m). cap_tier c > top) \<longleftrightarrow> \<not> (\<forall>c \<in> set (cap m). cap_tier c \<le> top)" for top
    by (auto simp: not_le)
  have expiry: "man_exp m - man_issued_at m > top \<longleftrightarrow> \<not> man_exp m \<le> man_issued_at m + top" for top
    by arith
  show ?thesis
    unfolding scope_match_rows lists tier expiry scope_rows_def within_def raw by simp
qed

lemma scopes_code:
  "(\<forall>l \<in> set chain. complete_scope (link_scope l)) \<Longrightarrow>
   first_failing (concat (map (\<lambda>l. scope_rows m (link_scope l)) chain)) = wire_code (scopes_verdict m chain)"
proof (induction chain)
  case (Cons l chain)
  then obtain sc where sc: "from_raw (link_scope l) = Some sc" using from_raw_None [of "link_scope l"] by auto
  with Cons scope_match_ok [of m sc] show ?case
    by (auto simp: first_failing_append scope_rows_code scopes_verdict_def link_fits_def wire_code_def split: sum.split)
qed (simp add: scopes_verdict_def)

lemma open_ended_iff: "mandate_has_wildcard_cap m \<longleftrightarrow> open_ended m"
proof -
  have "(case ref of Some r \<Rightarrow> CHR ''*'' \<in> set r | None \<Rightarrow> False) \<longleftrightarrow> (\<exists>r. ref = Some r \<and> CHR ''*'' \<in> set r)"
    for ref :: "string option"
    by (cases ref) simp_all
  then show ?thesis by (simp add: mandate_has_wildcard_cap_def open_ended_def list_ex_iff)
qed

lemma verify_rows: "wire_code (delegation_verify env inp) = first_failing (delegation_rows env inp)"
proof (cases "anchored_chain inp")
  case True
  then have complete: "\<forall>l \<in> set (delegation_chain inp). complete_scope (link_scope l)" by (simp add: anchored_chain_def)
  show ?thesis
    using scopes_verdict_ok [OF complete, of "dl_mandate inp"]
    by (auto simp: verify_table verdict_table_def delegation_rows_def Let_def first_failing_append scopes_code [OF complete]
        narrow_enough_def open_ended_iff mandate_in_force_def not_le not_less wire_code_def split: sum.split)
qed (simp add: verify_table verdict_table_def delegation_rows_def Let_def)

text \<open>C4: the executor passes a delegation vector exactly when it deserializes and the vector expects the wire code of
  the first row that fails in the table \<open>delegation_rows\<close>, or acceptance when none does.  The rows are, in this order:
  all signatures; a complete chain anchored at the pinned root, each link signed by its own parent key, no link twice,
  ending at the mandate's signer hint; at most three links; the role shape; every link in force; no identity revoked; a
  non-empty mandate, in force, not ahead of the tariff; no wildcard integration; then for one link after another the
  integration, the tier, the verbs, the resource kinds, the budget and the lifetime; last, a budget under the threshold
  for a mandate with a wildcard in a capability.  Conditions and codes are written out in the table, so an exchanged code,
  an exchanged row or a dropped one is told apart.\<close>

theorem delegation_pass_iff:
  "delegation_execute env from_value v = Pass \<longleftrightarrow>
     (\<exists>inp. from_value (v_input v) = Inr inp \<and>
        (case first_failing (delegation_rows env inp) of
           None \<Rightarrow> exp_outcome (v_expected v) = Accept
         | Some code \<Rightarrow> exp_outcome (v_expected v) = Reject \<and> exp_reject_code (v_expected v) = Some code))"
proof -
  have "delegation_code_display c \<noteq> []" for c by (cases c) simp_all
  then show ?thesis
    unfolding delegation_execute_def verify_rows [symmetric]
    by (auto simp: wire_code_def split: sum.splits outcome.splits option.splits)
qed

section \<open>The authority of a chain\<close>

text \<open>What a scope allows, as one point of a meet semilattice; a wildcard list allows every name.\<close>

record authority =
  au_integrations :: "string set"
  au_tier :: nat
  au_verbs :: "string set"
  au_kinds :: "string set"
  au_actions :: int
  au_tokens :: int
  au_seconds :: nat

definition authority_of :: "delegation_scope \<Rightarrow> authority" where
  "authority_of sc = \<lparr>au_integrations = set (ds_integrations sc), au_tier = ds_max_tier_signable sc,
     au_verbs = {v. listed v (ds_allowed_verbs sc)}, au_kinds = {k. listed k (ds_allowed_resource_kinds sc)},
     au_actions = bud_actions (ds_max_budget sc), au_tokens = bud_tokens (ds_max_budget sc),
     au_seconds = ds_max_exp_seconds sc\<rparr>"

definition meet :: "authority \<Rightarrow> authority \<Rightarrow> authority" where
  "meet a b = \<lparr>au_integrations = au_integrations a \<inter> au_integrations b, au_tier = min (au_tier a) (au_tier b),
     au_verbs = au_verbs a \<inter> au_verbs b, au_kinds = au_kinds a \<inter> au_kinds b,
     au_actions = min (au_actions a) (au_actions b), au_tokens = min (au_tokens a) (au_tokens b),
     au_seconds = min (au_seconds a) (au_seconds b)\<rparr>"

definition permits :: "authority \<Rightarrow> mandate \<Rightarrow> bool" where
  "permits a m \<longleftrightarrow> integration_ref m \<in> au_integrations a \<and>
     (\<forall>c \<in> set (cap m). cap_tier c \<le> au_tier a \<and> cap_verb c \<in> au_verbs a \<and> cap_resource_kind c \<in> au_kinds a) \<and>
     bud_actions (man_budget m) \<in> {0..au_actions a} \<and> bud_tokens (man_budget m) \<in> {0..au_tokens a} \<and>
     man_exp m - man_issued_at m \<le> au_seconds a"

definition link_authority :: "delegation_link \<Rightarrow> authority" where
  "link_authority l = authority_of (the (from_raw (link_scope l)))"

fun chain_authority :: "delegation_link list \<Rightarrow> authority option" where
  "chain_authority [] = None"
| "chain_authority (l # ls) =
     Some (case chain_authority ls of None \<Rightarrow> link_authority l | Some a \<Rightarrow> meet (link_authority l) a)"

lemma permits_authority_of: "permits (authority_of sc) m \<longleftrightarrow> fits m sc"
  by (auto simp: permits_def authority_of_def fits_def)

lemma permits_meet: "permits (meet a b) m \<longleftrightarrow> permits a m \<and> permits b m"
  by (auto simp: permits_def meet_def)

lemma chain_authority_Some: "chain \<noteq> [] \<Longrightarrow> \<exists>a. chain_authority chain = Some a"
  by (cases chain) auto

lemma permits_chain:
  "chain_authority chain = Some a \<Longrightarrow> permits a m \<longleftrightarrow> (\<forall>l \<in> set chain. permits (link_authority l) m)"
proof (induction chain arbitrary: a)
  case (Cons l chain)
  then show ?case
    by (cases chain) (auto simp: permits_meet split: option.splits)
qed simp

lemma link_fits_permits: "complete_scope (link_scope l) \<Longrightarrow> link_fits m l \<longleftrightarrow> permits (link_authority l) m"
  using from_raw_None [of "link_scope l"]
  by (auto simp: link_fits_def link_authority_def permits_authority_of)

text \<open>Acceptance, with the scopes of the chain folded into one.\<close>

definition delegated :: "delegation_input \<Rightarrow> bool" where
  "delegated inp \<longleftrightarrow> (\<exists>a. chain_authority (delegation_chain inp) = Some a \<and> permits a (dl_mandate inp))"

lemma delegated_iff:
  "anchored_chain inp \<Longrightarrow> delegated inp \<longleftrightarrow> (\<forall>l \<in> set (delegation_chain inp). link_fits (dl_mandate inp) l)"
  using chain_authority_Some [of "delegation_chain inp"]
  by (auto simp: delegated_def anchored_chain_def permits_chain link_fits_permits)

definition current_chain :: "delegation_input \<Rightarrow> bool" where
  "current_chain inp \<longleftrightarrow> chain_in_force (ctx_current_time (dl_context inp)) (delegation_chain inp) \<and>
     set (revocation_list (dl_context inp)) \<inter> identities inp = {}"

definition current_mandate :: "delegation_input \<Rightarrow> bool" where
  "current_mandate inp \<longleftrightarrow> cap (dl_mandate inp) \<noteq> [] \<and>
     mandate_in_force (ctx_current_time (dl_context inp)) (dl_mandate inp) \<and>
     min_tariff_version (dl_mandate inp) \<le> current_tariff_version (dl_context inp)"

lemma accept_conditions:
  "delegation_verify env inp = Inr () \<longleftrightarrow>
     signatures_hold env inp \<and> anchored_chain inp \<and> length (delegation_chain inp) \<le> 3 \<and>
     role_shape (delegation_chain inp) \<and> current_chain inp \<and> current_mandate inp \<and>
     \<not> wildcard_integrations (delegation_chain inp) \<and> delegated inp \<and> narrow_enough inp"
proof (cases "anchored_chain inp")
  case True
  have fit: "scopes_verdict (dl_mandate inp) (delegation_chain inp) = Inr () \<longleftrightarrow>
      (\<forall>l \<in> set (delegation_chain inp). link_fits (dl_mandate inp) l)"
    using True by (intro scopes_verdict_ok) (simp add: anchored_chain_def)
  show ?thesis
    unfolding verify_table verdict_table_def Let_def delegated_iff [OF True] current_chain_def current_mandate_def
    using True fit by (auto simp: not_less)
qed (simp add: verify_table verdict_table_def Let_def)

text \<open>C3: a mandate is accepted exactly when the signatures hold, the chain is anchored, of at most three
  links, in role order, in force and unrevoked, the mandate is current and narrow enough, and the meet of
  all scopes of the chain - sets intersected, limits minimised, a wildcard list as the neutral element -
  permits it.  So no link can grant more than any link above it.\<close>

theorem delegation_accept_iff:
  "delegation_verify env inp = Inr () \<longleftrightarrow>
     signatures_hold env inp \<and> anchored_chain inp \<and> length (delegation_chain inp) \<le> 3 \<and>
     role_shape (delegation_chain inp) \<and> current_chain inp \<and> current_mandate inp \<and>
     \<not> wildcard_integrations (delegation_chain inp) \<and> delegated inp \<and> narrow_enough inp"
  by (rule accept_conditions)

section \<open>Narrowing\<close>

text \<open>A mandate that asks for no more, of the same integration and key, and names no wildcard the other
  does not name.\<close>

definition narrower :: "mandate \<Rightarrow> mandate \<Rightarrow> bool" where
  "narrower m' m \<longleftrightarrow> mandate_id m' = mandate_id m \<and> integration_ref m' = integration_ref m \<and>
     cap m' \<noteq> [] \<and> set (cap m') \<subseteq> set (cap m) \<and>
     0 \<le> bud_actions (man_budget m') \<and> bud_actions (man_budget m') \<le> bud_actions (man_budget m) \<and>
     0 \<le> bud_tokens (man_budget m') \<and> bud_tokens (man_budget m') \<le> bud_tokens (man_budget m) \<and>
     man_issued_at m \<le> man_issued_at m' \<and> man_exp m' \<le> man_exp m \<and>
     min_tariff_version m' \<le> min_tariff_version m \<and> signer_key_hint m' = signer_key_hint m"

text \<open>The same request under an older revocation list.\<close>

definition narrowed_input :: "delegation_input \<Rightarrow> mandate \<Rightarrow> string list \<Rightarrow> delegation_input" where
  "narrowed_input inp m' rl = inp\<lparr>dl_mandate := m', dl_context := (dl_context inp)\<lparr>revocation_list := rl\<rparr>\<rparr>"

lemma narrower_fits: "narrower m' m \<Longrightarrow> permits a m \<Longrightarrow> permits a m'"
  by (auto simp: narrower_def permits_def)

lemma narrower_wildcard: "narrower m' m \<Longrightarrow> mandate_has_wildcard_cap m' \<Longrightarrow> mandate_has_wildcard_cap m"
  unfolding narrower_def mandate_has_wildcard_cap_def list_ex_iff by blast

text \<open>Acceptance is closed under narrowing: if a mandate is accepted, so is, at the same time and over
  the same chain, every mandate that asks for a part of it, is in force and is signed, whatever is taken off
  the revocation list.\<close>

theorem delegation_narrowing:
  assumes "delegation_verify env inp = Inr ()" and "narrower m' (dl_mandate inp)"
    and "set rl \<subseteq> set (revocation_list (dl_context inp))"
    and "mandate_in_force (ctx_current_time (dl_context inp)) m'"
    and "signature_held env (trust_anchor_keys inp) ''mandate'' (man_cose_sign1_bytes m') (man_signature_valid m')"
  shows "delegation_verify env (narrowed_input inp m' rl) = Inr ()"
proof -
  let ?inp = "narrowed_input inp m' rl"
  from assms(1) have acc: "signatures_hold env inp" "anchored_chain inp" "length (delegation_chain inp) \<le> 3"
      "role_shape (delegation_chain inp)" "current_chain inp" "current_mandate inp"
      "\<not> wildcard_integrations (delegation_chain inp)" "delegated inp" "narrow_enough inp"
    unfolding accept_conditions by simp_all
  have simps: "delegation_chain ?inp = delegation_chain inp" "dl_mandate ?inp = m'"
      "trust_anchor_keys ?inp = trust_anchor_keys inp" "revocation_list (dl_context ?inp) = rl"
      "ctx_current_time (dl_context ?inp) = ctx_current_time (dl_context inp)"
      "current_tariff_version (dl_context ?inp) = current_tariff_version (dl_context inp)"
      "narrowness_threshold (dl_context ?inp) = narrowness_threshold (dl_context inp)"
    by (simp_all add: narrowed_input_def)
  have ids: "identities ?inp = identities inp" using assms(2) by (simp add: identities_def simps narrower_def)
  have "signatures_hold env ?inp" using acc(1) assms(5) by (simp add: signatures_hold_def simps)
  moreover have "anchored_chain ?inp" using acc(2) assms(2) by (simp add: anchored_chain_def simps narrower_def)
  moreover have "current_chain ?inp" using acc(5) assms(3) ids by (auto simp: current_chain_def simps)
  moreover have "current_mandate ?inp"
    using acc(6) assms(2,4) by (auto simp: current_mandate_def simps narrower_def)
  moreover have "delegated ?inp" using acc(8) narrower_fits [OF assms(2)] by (auto simp: delegated_def simps)
  moreover have "narrow_enough ?inp"
    using acc(9) narrower_wildcard [OF assms(2)] assms(2) by (auto simp: narrow_enough_def simps narrower_def)
  ultimately show ?thesis unfolding accept_conditions using acc by (simp add: simps)
qed

section \<open>What the chain check does not bind\<close>

text \<open>A link whose parent key, and the declared signer with it, is replaced.\<close>

definition reparent :: "nat \<Rightarrow> string \<Rightarrow> delegation_input \<Rightarrow> delegation_input" where
  "reparent i k inp =
     (let chain = delegation_chain inp in
      inp\<lparr>delegation_chain := chain[i := (chain ! i)\<lparr>parent_key := k, signed_by := Some k\<rparr>]\<rparr>)"

text \<open>Consecutive links are not connected.  In an accepted chain of two links the parent key of the
  second may be any unrevoked string, and need not be the child key of the first: with mock and with live
  signatures alike the delegation stays accepted.\<close>

theorem links_not_connected:
  assumes "delegation_verify env inp = Inr ()" and "length (delegation_chain inp) = 2"
    and "k \<notin> set (revocation_list (dl_context inp))"
  shows "delegation_verify env (reparent 1 k inp) = Inr ()"
proof -
  obtain a b where chain: "delegation_chain inp = [a, b]"
    using assms(2) by (auto simp: length_Suc_conv numeral_2_eq_2)
  from assms(1) have acc: "signatures_hold env inp" "anchored_chain inp" "length (delegation_chain inp) \<le> 3"
      "role_shape (delegation_chain inp)" "current_chain inp" "current_mandate inp"
      "\<not> wildcard_integrations (delegation_chain inp)" "delegated inp" "narrow_enough inp"
    unfolding accept_conditions by simp_all
  define inp' where "inp' = reparent 1 k inp"
  have simps: "delegation_chain inp' = [a, b\<lparr>parent_key := k, signed_by := Some k\<rparr>]" "dl_mandate inp' = dl_mandate inp"
      "trust_anchor_keys inp' = trust_anchor_keys inp" "dl_context inp' = dl_context inp"
    by (simp_all add: inp'_def reparent_def chain)
  have roles: "child_role a = Ops" "child_role b \<noteq> Ops" using acc(4) by (auto simp: role_shape_def chain)
  have "signatures_hold env inp'" using acc(1) by (simp add: signatures_hold_def simps chain)
  moreover have "anchored_chain inp'" using acc(2) roles by (auto simp: anchored_chain_def simps chain link_triple_def)
  moreover have "role_shape (delegation_chain inp')" using roles by (simp add: role_shape_def simps)
  moreover have "current_chain inp'" using acc(5) assms(3)
    by (auto simp: current_chain_def chain_in_force_def identities_def simps chain)
  moreover have "current_mandate inp'" using acc(6) by (simp add: current_mandate_def simps)
  moreover have "\<not> wildcard_integrations (delegation_chain inp')" using acc(7) by (simp add: wildcard_integrations_def simps chain)
  moreover have "delegated inp'" using acc(8) by (simp add: delegated_def simps chain link_authority_def)
  moreover have "narrow_enough inp'" using acc(9) by (simp add: narrow_enough_def simps)
  ultimately show ?thesis unfolding accept_conditions inp'_def [symmetric] by (simp add: simps)
qed

section \<open>A concrete delegation\<close>

definition mock_env :: "(nat, nat) crypto_env" where
  "mock_env = \<lparr>ciborium_parse = (\<lambda>_. None), coset_parse = (\<lambda>_. None), coset_tbs = (\<lambda>_ aad. aad),
     ed_signature = (\<lambda>_. None), ed_verify_strict = (\<lambda>_ _ _. False), ed_point = (\<lambda>_. None),
     ed_is_weak = (\<lambda>_. False), hex_decode = (\<lambda>_. None)\<rparr>"

definition sample_scope :: raw_delegation_scope where
  "sample_scope = \<lparr>raw_integrations = Some [''github''], raw_max_tier_signable = Some 3,
     raw_max_budget = Some \<lparr>bud_actions = 50, bud_tokens = 1000\<rparr>, raw_max_exp_seconds = Some 3600,
     raw_allowed_verbs = Some [''read'', ''write''], raw_allowed_resource_kinds = Some [''*'']\<rparr>"

definition sample_link :: "string \<Rightarrow> string \<Rightarrow> link_role \<Rightarrow> delegation_link" where
  "sample_link p c r = \<lparr>parent_key = p, child_key = c, child_role = r, link_scope = sample_scope, valid_from = 100,
     valid_until = 900, signed_by = Some p, link_signature_valid = True, link_cose_sign1_bytes = None\<rparr>"

definition sample_mandate :: mandate where
  "sample_mandate = \<lparr>mandate_id = ''m1'', integration_ref = ''github'',
     cap = [\<lparr>cap_verb = ''read'', cap_resource_kind = ''repo'', cap_tier = 1, cap_resource_ref = None\<rparr>,
       \<lparr>cap_verb = ''write'', cap_resource_kind = ''repo'', cap_tier = 2, cap_resource_ref = None\<rparr>],
     man_budget = \<lparr>bud_actions = 10, bud_tokens = 100\<rparr>, man_issued_at = 200, man_exp = 800, min_tariff_version = 1,
     signer_key_hint = Some ''K_sign'', man_signature_valid = True, man_cose_sign1_bytes = None\<rparr>"

definition sample_delegation :: delegation_input where
  "sample_delegation = \<lparr>delegation_chain = [sample_link TRUST_ANCHOR ''K_ops'' Ops, sample_link ''K_ops'' ''K_sign'' MandateSignerRole],
     dl_mandate = sample_mandate,
     dl_context = \<lparr>current_tariff_version = 1, ctx_current_time = 500, revocation_list = [''K_old''], narrowness_threshold = 20\<rparr>,
     trust_anchor_keys = None\<rparr>"

definition narrow_sample :: mandate where
  "narrow_sample = sample_mandate\<lparr>cap := [\<lparr>cap_verb = ''read'', cap_resource_kind = ''repo'', cap_tier = 1, cap_resource_ref = None\<rparr>],
     man_exp := 600\<rparr>"

lemmas sample_delegation_defs = sample_delegation_def sample_link_def sample_mandate_def sample_scope_def TRUST_ANCHOR_def

lemma sample_accepted: "delegation_verify mock_env sample_delegation = Inr ()"
  by (simp add: delegation_verify_def check_link_signature_def check_mandate_signature_def structural_chain_check_def
      role_hierarchy_check_def revocation_check_def scope_match_def mandate_has_wildcard_cap_def from_raw_def
      duplicate_link_def same_link_def is_terminal_def MAX_CHAIN_LINKS_def sample_delegation_defs
      upt_rec numeral_2_eq_2)

lemma delegation_narrowing_witness:
  "delegation_verify mock_env (narrowed_input sample_delegation narrow_sample []) = Inr ()"
  by (rule delegation_narrowing [OF sample_accepted])
    (simp_all add: narrower_def narrow_sample_def mandate_in_force_def signature_held_def sample_delegation_defs)

lemma links_not_connected_witness:
  "delegation_verify mock_env (reparent 1 ''K_unrelated'' sample_delegation) = Inr ()"
  by (rule links_not_connected [OF sample_accepted]) (simp_all add: sample_delegation_defs)

end
