(* ===== verification/Runner.thy ===== *)
theory Runner
  imports Vectors BTree
begin

text \<open>
  The harness of \<open>ephemeral-core\<close>: \<open>suite_file.rs\<close>, \<open>schema/mod.rs\<close> and \<open>runner.rs\<close>.  The file system,
  \<open>serde_json\<close> and the \<open>jsonschema\<close> crate are the record \<open>harness_env\<close>; the eight suite executors are the
  function \<open>execs\<close>, so the counting theorems hold for whatever the suites answer.  Counters are \<open>u32\<close> in the
  code: a file is at most 32 MiB, so a file cannot hold \<open>2 ^ 32\<close> vectors, and they are natural numbers here.
\<close>

section \<open>Loading (suite\_file.rs)\<close>

record 'j suite_file =
  sf_schema_version :: string
  sf_vector_suite :: vector_suite
  sf_spec_reference :: string
  sf_spec_version :: string
  sf_generated_at :: string
  sf_coverage_summary :: "(string, nat) btree_map option"
  sf_notes :: "string option"
  sf_vectors :: "'j vector list"

record 'j harness_env =
  fs_len :: "string \<Rightarrow> nat option"
  fs_read :: "string \<Rightarrow> string option"
  json_from_slice :: "string \<Rightarrow> 'j option"
  suite_from_value :: "'j \<Rightarrow> 'j suite_file option"
  schema_build :: "'j \<Rightarrow> string + ('j \<Rightarrow> string list)"
  file_stem :: "string \<Rightarrow> string option"

record 'j loaded_suite =
  ls_path :: string
  ls_raw :: 'j
  ls_parsed :: "'j suite_file"

definition MAX_SUITE_FILE_BYTES :: nat where "MAX_SUITE_FILE_BYTES = 32 * 1024 * 1024"

definition load_suite_file :: "'j harness_env \<Rightarrow> string \<Rightarrow> validator_error + 'j loaded_suite" where
  "load_suite_file env path =
     (case fs_len env path of
        None \<Rightarrow> Inl (VIo path)
      | Some len \<Rightarrow>
          if len > MAX_SUITE_FILE_BYTES then Inl (VIo path)
          else
            (case fs_read env path of
               None \<Rightarrow> Inl (VIo path)
             | Some bytes \<Rightarrow>
                 (case json_from_slice env bytes of
                    None \<Rightarrow> Inl (VJson path)
                  | Some raw \<Rightarrow>
                      (case suite_from_value env raw of
                         None \<Rightarrow> Inl (VJson path)
                       | Some parsed \<Rightarrow> Inr \<lparr>ls_path = path, ls_raw = raw, ls_parsed = parsed\<rparr>))))"

section \<open>The schema layer (schema/mod.rs)\<close>

record 'j compiled_schema =
  cs_iter_errors :: "'j \<Rightarrow> string list"
  cs_path :: string

definition MAX_SCHEMA_FILE_BYTES :: nat where "MAX_SCHEMA_FILE_BYTES = 4 * 1024 * 1024"

definition schema_from_value :: "'j harness_env \<Rightarrow> 'j \<Rightarrow> string \<Rightarrow> schema_error + 'j compiled_schema" where
  "schema_from_value env doc path =
     (case schema_build env doc of
        Inl reason \<Rightarrow> Inl (SchCompile reason)
      | Inr validator \<Rightarrow> Inr \<lparr>cs_iter_errors = validator, cs_path = path\<rparr>)"

definition schema_load :: "'j harness_env \<Rightarrow> string \<Rightarrow> schema_error + 'j compiled_schema" where
  "schema_load env path =
     (case fs_len env path of
        None \<Rightarrow> Inl (SchRead path)
      | Some len \<Rightarrow>
          if len > MAX_SCHEMA_FILE_BYTES then Inl (SchRead path)
          else
            (case fs_read env path of
               None \<Rightarrow> Inl (SchRead path)
             | Some bytes \<Rightarrow>
                 (case json_from_slice env bytes of
                    None \<Rightarrow> Inl (SchParse path)
                  | Some doc \<Rightarrow> schema_from_value env doc path)))"

definition schema_validate :: "'j compiled_schema \<Rightarrow> 'j \<Rightarrow> string \<Rightarrow> schema_error + unit" where
  "schema_validate self document document_path =
     (let errors = cs_iter_errors self document in
      if errors = [] then Inr ()
      else
        Inl (SchInvalid document_path
          (show_nat (length errors) @ '' validation error'' @ (if length errors = 1 then [] else ''s'') @
           '' against '' @ cs_path self) errors))"

section \<open>Reports (types.rs)\<close>

record vector_failure =
  vf_vector_id :: string
  vf_category :: string
  vf_severity :: "severity_level option"
  vf_reason :: string

record suite_report =
  sr_file :: string
  sr_schema_ok :: "bool option"
  sr_pass :: nat
  sr_fail :: nat
  sr_error :: nat
  sr_skipped :: nat
  sr_failures :: "vector_failure list"

definition suite_report_default :: suite_report where
  "suite_report_default = \<lparr>sr_file = [], sr_schema_ok = None, sr_pass = 0, sr_fail = 0, sr_error = 0,
     sr_skipped = 0, sr_failures = []\<rparr>"

text \<open>The derived order of \<open>VectorSuite\<close> is the declaration order.\<close>

fun suite_index :: "vector_suite \<Rightarrow> nat" where
  "suite_index DelegationScope = 0"
| "suite_index Canonicalization = 1"
| "suite_index FuzzBaseline = 2"
| "suite_index TariffReject = 3"
| "suite_index PcrAttestationReject = 4"
| "suite_index AuditReplay = 5"
| "suite_index AnomalyLibraryReject = 6"
| "suite_index AnomalyDetect = 7"

lemma suite_index_inj: "suite_index s = suite_index t \<longleftrightarrow> s = t"
  by (cases s; cases t) simp_all

instantiation vector_suite :: linorder
begin

definition less_eq_vector_suite :: "vector_suite \<Rightarrow> vector_suite \<Rightarrow> bool" where
  "less_eq_vector_suite s t \<longleftrightarrow> suite_index s \<le> suite_index t"

definition less_vector_suite :: "vector_suite \<Rightarrow> vector_suite \<Rightarrow> bool" where
  "less_vector_suite s t \<longleftrightarrow> suite_index s < suite_index t"

instance
  by standard (auto simp: less_eq_vector_suite_def less_vector_suite_def suite_index_inj [symmetric])

end

type_synonym test_report = "(vector_suite, suite_report) btree_map"

definition total_failing :: "test_report \<Rightarrow> nat" where
  "total_failing report = sum_list (map (\<lambda>(_, s). sr_fail s + sr_error s) report)"

definition total_pass :: "test_report \<Rightarrow> nat" where
  "total_pass report = sum_list (map (\<lambda>(_, s). sr_pass s) report)"

definition total_skipped :: "test_report \<Rightarrow> nat" where
  "total_skipped report = sum_list (map (\<lambda>(_, s). sr_skipped s) report)"

definition is_clean :: "test_report \<Rightarrow> bool" where
  "is_clean report \<longleftrightarrow> total_failing report = 0"

section \<open>Running (runner.rs)\<close>

record 'j run_config =
  rc_schema :: "'j compiled_schema"
  rc_suite_filter :: "vector_suite list"
  rc_verbose :: bool

record file_run_result =
  frr_report :: suite_report
  frr_suite :: "vector_suite option"

definition report_with_harness_error :: "string \<Rightarrow> validator_error \<Rightarrow> suite_report" where
  "report_with_harness_error path err =
     \<lparr>sr_file = path, sr_schema_ok = None, sr_pass = 0, sr_fail = 0, sr_error = 1, sr_skipped = 0,
      sr_failures = [\<lparr>vf_vector_id = ''<file>'', vf_category = ''load-error'', vf_severity = None,
        vf_reason = validator_error_display err\<rparr>]\<rparr>"

definition failure_of :: "'j vector \<Rightarrow> string \<Rightarrow> vector_failure" where
  "failure_of v reason = \<lparr>vf_vector_id = v_id v, vf_category = v_category v,
     vf_severity = v_severity_if_failed v, vf_reason = reason\<rparr>"

fun tally :: "validation_outcome \<Rightarrow> suite_report \<Rightarrow> 'j vector \<Rightarrow> suite_report" where
  "tally Pass report v = report\<lparr>sr_pass := sr_pass report + 1\<rparr>"
| "tally (Fail reason) report v =
     report\<lparr>sr_fail := sr_fail report + 1, sr_failures := sr_failures report @ [failure_of v reason]\<rparr>"
| "tally (ErrorOf source) report v =
     report\<lparr>sr_error := sr_error report + 1,
       sr_failures := sr_failures report @ [failure_of v (validator_error_display source)]\<rparr>"
| "tally (Skipped _) report v = report\<lparr>sr_skipped := sr_skipped report + 1\<rparr>"

type_synonym 'j executors = "vector_suite \<Rightarrow> 'j vector \<Rightarrow> validation_outcome"

definition execute_vector :: "'j executors \<Rightarrow> 'j loaded_suite \<Rightarrow> 'j vector \<Rightarrow> validation_outcome" where
  "execute_vector execs loaded v = execs (sf_vector_suite (ls_parsed loaded)) v"

definition schema_failure :: "bool \<Rightarrow> schema_error \<Rightarrow> vector_failure" where
  "schema_failure verbose e = \<lparr>vf_vector_id = ''<file>'', vf_category = ''schema-validation'', vf_severity = None,
     vf_reason =
       (case e of
          SchInvalid _ summary errors \<Rightarrow>
            if verbose then summary @ '': '' @ join_strings ''; '' errors else summary
        | other \<Rightarrow> schema_error_display other)\<rparr>"

definition run_file :: "'j harness_env \<Rightarrow> 'j executors \<Rightarrow> string \<Rightarrow> 'j run_config \<Rightarrow> file_run_result" where
  "run_file env execs path config =
     (case load_suite_file env path of
        Inl e \<Rightarrow> \<lparr>frr_report = report_with_harness_error path e, frr_suite = None\<rparr>
      | Inr loaded \<Rightarrow>
          let suite = sf_vector_suite (ls_parsed loaded); vectors = sf_vectors (ls_parsed loaded);
              report = suite_report_default\<lparr>sr_file := path\<rparr> in
          if rc_suite_filter config \<noteq> [] \<and> suite \<notin> set (rc_suite_filter config)
          then \<lparr>frr_report = report\<lparr>sr_skipped := min (length vectors) (2 ^ 32 - 1)\<rparr>, frr_suite = Some suite\<rparr>
          else
            (case schema_validate (rc_schema config) (ls_raw loaded) path of
               Inl e \<Rightarrow>
                 \<lparr>frr_report = report\<lparr>sr_schema_ok := Some False, sr_error := sr_error report + 1,
                     sr_failures := sr_failures report @ [schema_failure (rc_verbose config) e]\<rparr>,
                  frr_suite = Some suite\<rparr>
             | Inr _ \<Rightarrow>
                 \<lparr>frr_report = foldl (\<lambda>r v. tally (execute_vector execs loaded v) r v)
                     (report\<lparr>sr_schema_ok := Some True\<rparr>) vectors,
                  frr_suite = Some suite\<rparr>))"

definition stem_suite_hint :: "'j harness_env \<Rightarrow> string \<Rightarrow> vector_suite option" where
  "stem_suite_hint env path =
     (case file_stem env path of
        None \<Rightarrow> None
      | Some stem \<Rightarrow>
          if stem = ''canonicalization'' then Some Canonicalization
          else if stem = ''delegation-scope'' then Some DelegationScope
          else if stem = ''fuzz-baseline'' then Some FuzzBaseline
          else if stem = ''tariff-reject'' then Some TariffReject
          else if stem = ''pcr-attestation-reject'' then Some PcrAttestationReject
          else if stem = ''audit-replay'' then Some AuditReplay
          else if stem = ''anomaly-library-reject'' then Some AnomalyLibraryReject
          else if stem = ''anomaly-detect'' then Some AnomalyDetect
          else None)"

definition merge_schema_ok :: "bool option \<Rightarrow> bool option \<Rightarrow> bool option" where
  "merge_schema_ok a b =
     (case (a, b) of
        (None, x) \<Rightarrow> x
      | (x, None) \<Rightarrow> x
      | (Some a, Some b) \<Rightarrow> Some (a \<and> b))"

definition merge_reports :: "suite_report \<Rightarrow> suite_report \<Rightarrow> suite_report" where
  "merge_reports entry sr =
     \<lparr>sr_file = (if sr_file entry = [] then sr_file sr else sr_file entry),
      sr_schema_ok = merge_schema_ok (sr_schema_ok entry) (sr_schema_ok sr),
      sr_pass = sr_pass entry + sr_pass sr,
      sr_fail = sr_fail entry + sr_fail sr,
      sr_error = sr_error entry + sr_error sr,
      sr_skipped = sr_skipped entry + sr_skipped sr,
      sr_failures = sr_failures entry @ sr_failures sr\<rparr>"

definition merge_into :: "test_report \<Rightarrow> vector_suite \<Rightarrow> suite_report \<Rightarrow> test_report" where
  "merge_into report suite sr =
     bm_insert suite
       (merge_reports (case bm_get report suite of Some e \<Rightarrow> e | None \<Rightarrow> suite_report_default) sr) report"

definition run_step :: "'j harness_env \<Rightarrow> 'j executors \<Rightarrow> 'j run_config \<Rightarrow> test_report \<Rightarrow> string \<Rightarrow> test_report" where
  "run_step env execs config report p =
     (let result = run_file env execs p config in
      case frr_suite result of
        Some suite \<Rightarrow> merge_into report suite (frr_report result)
      | None \<Rightarrow>
          let orphan = (case stem_suite_hint env p of Some s \<Rightarrow> s | None \<Rightarrow> AuditReplay) in
          merge_into report orphan (frr_report result))"

definition run_many :: "'j harness_env \<Rightarrow> 'j executors \<Rightarrow> string list \<Rightarrow> 'j run_config \<Rightarrow> test_report" where
  "run_many env execs paths config = foldl (run_step env execs config) [] paths"

section \<open>What a run counts\<close>

text \<open>The verdicts a file contributes: those of its vectors, one skip for each if the file is filtered out,
  or one error if it does not load or does not meet the schema.\<close>

definition file_items :: "'j harness_env \<Rightarrow> 'j executors \<Rightarrow> 'j run_config \<Rightarrow> string \<Rightarrow> validation_outcome list" where
  "file_items env execs config path =
     (case load_suite_file env path of
        Inl e \<Rightarrow> [ErrorOf e]
      | Inr loaded \<Rightarrow>
          let suite = sf_vector_suite (ls_parsed loaded); vectors = sf_vectors (ls_parsed loaded) in
          if rc_suite_filter config \<noteq> [] \<and> suite \<notin> set (rc_suite_filter config)
          then replicate (min (length vectors) (2 ^ 32 - 1)) (Skipped FilteredOut)
          else if cs_iter_errors (rc_schema config) (ls_raw loaded) \<noteq> []
          then [ErrorOf (VSchema (SchInvalid path [] []))]
          else map (execs suite) vectors)"

text \<open>The suite a file is reported under.\<close>

definition bucket :: "'j harness_env \<Rightarrow> string \<Rightarrow> vector_suite" where
  "bucket env path =
     (case load_suite_file env path of
        Inr loaded \<Rightarrow> sf_vector_suite (ls_parsed loaded)
      | Inl _ \<Rightarrow> (case stem_suite_hint env path of Some s \<Rightarrow> s | None \<Rightarrow> AuditReplay))"

fun is_pass :: "validation_outcome \<Rightarrow> bool" where "is_pass Pass = True" | "is_pass _ = False"
fun is_fail :: "validation_outcome \<Rightarrow> bool" where "is_fail (Fail _) = True" | "is_fail _ = False"
fun is_error :: "validation_outcome \<Rightarrow> bool" where "is_error (ErrorOf _) = True" | "is_error _ = False"
fun is_skipped :: "validation_outcome \<Rightarrow> bool" where "is_skipped (Skipped _) = True" | "is_skipped _ = False"

definition tallies :: "validation_outcome list \<Rightarrow> nat \<times> nat \<times> nat \<times> nat \<times> nat" where
  "tallies xs = (length (filter is_pass xs), length (filter is_fail xs), length (filter is_error xs),
     length (filter is_skipped xs), length (filter is_fail xs) + length (filter is_error xs))"

definition counts_of :: "suite_report \<Rightarrow> nat \<times> nat \<times> nat \<times> nat \<times> nat" where
  "counts_of r = (sr_pass r, sr_fail r, sr_error r, sr_skipped r, length (sr_failures r))"

fun add5 :: "nat \<times> nat \<times> nat \<times> nat \<times> nat \<Rightarrow> nat \<times> nat \<times> nat \<times> nat \<times> nat \<Rightarrow> nat \<times> nat \<times> nat \<times> nat \<times> nat" where
  "add5 (a, b, c, d, e) (a', b', c', d', e') = (a + a', b + b', c + c', d + d', e + e')"

lemma tallies_simps [simp]:
  "tallies [] = (0, 0, 0, 0, 0)" "tallies (xs @ ys) = add5 (tallies xs) (tallies ys)"
  by (simp_all add: tallies_def)

lemma counts_default [simp]: "counts_of suite_report_default = (0, 0, 0, 0, 0)"
  by (simp add: counts_of_def suite_report_default_def)

lemma counts_merge [simp]: "counts_of (merge_reports a b) = add5 (counts_of a) (counts_of b)"
  by (simp add: counts_of_def merge_reports_def)

lemma add5_zero [simp]: "add5 (0, 0, 0, 0, 0) x = x"
  by (cases x) simp

lemma counts_tally: "counts_of (tally o' r v) = add5 (counts_of r) (tallies [o'])"
  by (cases o') (simp_all add: counts_of_def tallies_def)

lemma add5_assoc: "add5 (add5 x y) z = add5 x (add5 y z)"
  by (cases x; cases y; cases z) simp

lemma counts_foldl_tally:
  "counts_of (foldl (\<lambda>r v. tally (f v) r v) r vs) = add5 (counts_of r) (tallies (map f vs))"
proof (induction vs arbitrary: r)
  case Nil
  then show ?case by (cases "counts_of r") simp
next
  case (Cons v vs)
  have "tallies (map f (v # vs)) = add5 (tallies [f v]) (tallies (map f vs))"
    using tallies_simps(2) [of "[f v]" "map f vs"] by simp
  with Cons show ?case by (simp add: counts_tally add5_assoc)
qed

lemma tallies_skips [simp]: "tallies (replicate n (Skipped r)) = (0, 0, 0, n, 0)"
  by (simp add: tallies_def filter_replicate)

lemma counts_run_file: "counts_of (frr_report (run_file env execs p config)) = tallies (file_items env execs config p)"
proof (cases "load_suite_file env p")
  case (Inl e)
  then show ?thesis
    by (simp add: run_file_def file_items_def report_with_harness_error_def counts_of_def tallies_def)
next
  case (Inr loaded)
  have base: "counts_of (suite_report_default\<lparr>sr_file := p, sr_schema_ok := b\<rparr>) = (0, 0, 0, 0, 0)" for b
    by (simp add: counts_of_def suite_report_default_def)
  show ?thesis
    using Inr base [of "Some True"]
    by (auto simp: run_file_def file_items_def Let_def schema_validate_def execute_vector_def
        counts_foldl_tally)
      (simp_all add: counts_of_def tallies_def suite_report_default_def)
qed

lemma run_step_bucket:
  "run_step env execs config report p = merge_into report (bucket env p) (frr_report (run_file env execs p config))"
  by (auto simp: run_step_def bucket_def run_file_def Let_def split: sum.split option.split)

definition suite_items ::
  "'j harness_env \<Rightarrow> 'j executors \<Rightarrow> 'j run_config \<Rightarrow> string list \<Rightarrow> vector_suite \<Rightarrow> validation_outcome list" where
  "suite_items env execs config paths s =
     concat (map (file_items env execs config) (filter (\<lambda>p. bucket env p = s) paths))"

lemma reports_lemma:
  "map_option counts_of (bm_get (run_many env execs paths config) s) =
     (if filter (\<lambda>p. bucket env p = s) paths = [] then None
      else Some (tallies (suite_items env execs config paths s)))"
proof (induction paths rule: rev_induct)
  case Nil
  then show ?case by (simp add: run_many_def)
next
  case (snoc p paths)
  have step: "run_many env execs (paths @ [p]) config =
      merge_into (run_many env execs paths config) (bucket env p) (frr_report (run_file env execs p config))"
    by (simp add: run_many_def run_step_bucket)
  show ?case
  proof (cases "bucket env p = s")
    case True
    have "counts_of (case bm_get (run_many env execs paths config) s of Some e \<Rightarrow> e | None \<Rightarrow> suite_report_default) =
        tallies (suite_items env execs config paths s)"
      using snoc by (auto simp: suite_items_def split: option.splits if_splits)
    with True show ?thesis
      by (simp add: step merge_into_def bm_get_insert counts_run_file suite_items_def)
  next
    case False
    with snoc show ?thesis by (simp add: step merge_into_def bm_get_insert suite_items_def)
  qed
qed

text \<open>The report of a suite counts exactly the verdicts of the files bucketed under it - each vector once,
  with one diagnostic for every failure or error - and a suite has a report exactly when a file is bucketed
  under it.  A file that does not load is bucketed by its name, in the same report as the files that do.\<close>

theorem run_many_reports:
  "map_option counts_of (bm_get (run_many env execs paths config) s) =
     (if filter (\<lambda>p. bucket env p = s) paths = [] then None
      else Some (tallies (suite_items env execs config paths s)))"
  by (rule reports_lemma)

section \<open>A clean run\<close>

definition failing :: "validation_outcome \<Rightarrow> bool" where
  "failing x \<longleftrightarrow> is_fail x \<or> is_error x"

lemma bm_inv_run_many: "bm_inv (run_many env execs paths config)"
  by (induction paths rule: rev_induct) (simp_all add: run_many_def run_step_bucket merge_into_def bm_inv_insert)

lemma total_failing_zero:
  "bm_inv m \<Longrightarrow> total_failing m = 0 \<longleftrightarrow> (\<forall>s r. bm_get m s = Some r \<longrightarrow> sr_fail r = 0 \<and> sr_error r = 0)"
proof -
  assume inv: "bm_inv m"
  have "total_failing m = 0 \<longleftrightarrow> (\<forall>(s, r) \<in> set m. sr_fail r = 0 \<and> sr_error r = 0)"
    by (auto simp: total_failing_def)
  also have "\<dots> \<longleftrightarrow> (\<forall>s r. bm_get m s = Some r \<longrightarrow> sr_fail r = 0 \<and> sr_error r = 0)"
    using inv
  proof (induction m)
    case (Cons kv m)
    obtain k v where kv: "kv = (k, v)" by fastforce
    from Cons.prems have "k \<notin> fst ` set m" "bm_inv m" by (auto simp: kv bm_inv_Cons)
    then show ?case using Cons.IH bm_get_not_key [of k m] by (auto simp: kv split: if_splits)
  qed simp
  finally show ?thesis .
qed

definition file_clean :: "'j harness_env \<Rightarrow> 'j executors \<Rightarrow> 'j run_config \<Rightarrow> string \<Rightarrow> bool" where
  "file_clean env execs config path \<longleftrightarrow>
     (case load_suite_file env path of
        Inl _ \<Rightarrow> False
      | Inr loaded \<Rightarrow>
          let suite = sf_vector_suite (ls_parsed loaded) in
          (rc_suite_filter config \<noteq> [] \<and> suite \<notin> set (rc_suite_filter config)) \<or>
          (cs_iter_errors (rc_schema config) (ls_raw loaded) = [] \<and>
           list_all (\<lambda>v. \<not> failing (execs suite v)) (sf_vectors (ls_parsed loaded))))"

lemma file_clean_items: "file_clean env execs config p \<longleftrightarrow> list_all (\<lambda>x. \<not> failing x) (file_items env execs config p)"
  by (auto simp: file_clean_def file_items_def failing_def Let_def list_all_iff split: sum.split)

lemma no_failing_tallies:
  "list_all (\<lambda>x. \<not> failing x) xs \<longleftrightarrow> fst (snd (tallies xs)) = 0 \<and> fst (snd (snd (tallies xs))) = 0"
  by (auto simp: tallies_def failing_def list_all_iff filter_empty_conv)

lemma clean_run:
  "is_clean (run_many env execs paths config) \<longleftrightarrow> list_all (file_clean env execs config) paths"
proof -
  let ?m = "run_many env execs paths config"
  have counts: "bm_get ?m s = Some r \<Longrightarrow> counts_of r = tallies (suite_items env execs config paths s) \<and>
      filter (\<lambda>p. bucket env p = s) paths \<noteq> []" for s r
    using reports_lemma [of env execs paths config s] by (auto split: if_splits)
  have ex: "\<exists>r. bm_get ?m (bucket env p) = Some r" if "p \<in> set paths" for p
    using reports_lemma [of env execs paths config "bucket env p"] that by (auto simp: filter_empty_conv split: if_splits)
  have eq: "sr_fail r = 0 \<and> sr_error r = 0 \<longleftrightarrow> list_all (\<lambda>x. \<not> failing x) (suite_items env execs config paths s)"
    if "bm_get ?m s = Some r" for s r
  proof -
    from counts [OF that] have "tallies (suite_items env execs config paths s) = counts_of r" by simp
    then show ?thesis by (simp add: no_failing_tallies counts_of_def)
  qed
  have "is_clean ?m \<longleftrightarrow> (\<forall>s r. bm_get ?m s = Some r \<longrightarrow> list_all (\<lambda>x. \<not> failing x) (suite_items env execs config paths s))"
    unfolding is_clean_def total_failing_zero [OF bm_inv_run_many] using eq by blast
  also have "\<dots> \<longleftrightarrow> (\<forall>s r. bm_get ?m s = Some r \<longrightarrow> (\<forall>p \<in> set paths. bucket env p = s \<longrightarrow> file_clean env execs config p))"
    by (auto simp: suite_items_def file_clean_items list_all_iff)
  also have "\<dots> \<longleftrightarrow> list_all (file_clean env execs config) paths"
    using ex by (auto simp: list_all_iff)
  finally show ?thesis .
qed

text \<open>A run is clean, and the command line exits with success, exactly when every given file loads and is
  either filtered out by suite or meets the schema with every vector passing or skipped.\<close>

theorem run_clean_iff:
  "is_clean (run_many env execs paths config) \<longleftrightarrow> list_all (file_clean env execs config) paths"
  by (rule clean_run)

end
