(* ===== verification/Json.thy ===== *)
theory Json
  imports Cbor_Correct
begin

text \<open>
  \<open>ephemeral-core/src/codec/mod.rs\<close>: the conversion between JSON documents and the value type of the
  codec.  \<open>json\<close> is \<open>serde_json::Value\<close> as its documentation describes it with \<open>preserve_order\<close>: a number
  is an integer of the \<open>i64\<close> or \<open>u64\<close> range or a finite float, an object keeps the order of insertion,
  has unique keys, and compares without regard to order.
\<close>

section \<open>serde\_json::Value\<close>

datatype json_number = NInt int | NFloat nat

datatype json =
    JNull
  | JBool bool
  | JNumber json_number
  | JString string
  | JArray "json list"
  | JObject "(string \<times> json) list"

fun as_i64 :: "json_number \<Rightarrow> int option" where
  "as_i64 (NInt i) = (if - (2 ^ 63) \<le> i \<and> i < 2 ^ 63 then Some i else None)"
| "as_i64 (NFloat _) = None"

fun as_u64 :: "json_number \<Rightarrow> int option" where
  "as_u64 (NInt i) = (if 0 \<le> i \<and> i < 2 ^ 64 then Some i else None)"
| "as_u64 (NFloat _) = None"

text \<open>Only asked of numbers that are neither, which are floats.\<close>

fun float_of_number :: "json_number \<Rightarrow> nat option" where
  "float_of_number (NFloat f) = Some f"
| "float_of_number (NInt _) = None"

definition number_from_f64 :: "nat \<Rightarrow> json_number option" where
  "number_from_f64 f = (if is_nan f \<or> is_infinite f then None else Some (NFloat f))"

text \<open>The values \<open>serde_json\<close> can hold; a Rust string has at most \<open>isize::MAX\<close> bytes.\<close>

definition str_ok :: "string \<Rightarrow> bool" where
  "str_ok s \<longleftrightarrow> utf8_valid s \<and> length s < 2 ^ 63"

fun json_wf :: "json \<Rightarrow> bool" where
  "json_wf (JNumber (NInt i)) \<longleftrightarrow> - (2 ^ 63) \<le> i \<and> i < 2 ^ 64"
| "json_wf (JNumber (NFloat f)) \<longleftrightarrow> f < 2 ^ 64 \<and> \<not> is_nan f \<and> \<not> is_infinite f"
| "json_wf (JString s) \<longleftrightarrow> str_ok s"
| "json_wf (JArray items) \<longleftrightarrow> list_all json_wf items"
| "json_wf (JObject kvs) \<longleftrightarrow> distinct (map fst kvs) \<and> list_all (\<lambda>kv. str_ok (fst kv) \<and> json_wf (snd kv)) kvs"
| "json_wf _ \<longleftrightarrow> True"

text \<open>\<open>PartialEq\<close>: floats compare as numbers, objects as maps.\<close>

fun number_eq :: "json_number \<Rightarrow> json_number \<Rightarrow> bool" where
  "number_eq (NInt i) (NInt j) \<longleftrightarrow> i = j"
| "number_eq (NFloat f) (NFloat g) \<longleftrightarrow> f = g \<or> (f \<in> {0, 2 ^ 63} \<and> g \<in> {0, 2 ^ 63})"
| "number_eq _ _ \<longleftrightarrow> False"

fun json_eq :: "json \<Rightarrow> json \<Rightarrow> bool" where
  "json_eq JNull JNull \<longleftrightarrow> True"
| "json_eq (JBool a) (JBool b) \<longleftrightarrow> a = b"
| "json_eq (JNumber m) (JNumber n) \<longleftrightarrow> number_eq m n"
| "json_eq (JString s) (JString t) \<longleftrightarrow> s = t"
| "json_eq (JArray xs) (JArray ys) \<longleftrightarrow> list_all2 json_eq xs ys"
| "json_eq (JObject kvs) (JObject kws) \<longleftrightarrow> length kvs = length kws \<and>
     list_all (\<lambda>kv. case map_of kws (fst kv) of Some w \<Rightarrow> json_eq (snd kv) w | None \<Rightarrow> False) kvs"
| "json_eq _ _ \<longleftrightarrow> False"

text \<open>\<open>Value::get\<close> by key.\<close>

fun json_get :: "json \<Rightarrow> string \<Rightarrow> json option" where
  "json_get (JObject kvs) field = map_of kvs field"
| "json_get _ field = None"

section \<open>The conversions\<close>

definition MAX_JSON_DEPTH :: nat where "MAX_JSON_DEPTH = 64"

datatype core_to_json_error =
    BytesNotExpressible
  | NonStringMapKey
  | NonFiniteFloat
  | IntOutOfJsonRange
  | DuplicateMapKey string
  | RoundtripMismatch
  | JsonDepthExceeded

fun core_contains_bytes :: "core_value \<Rightarrow> bool" where
  "core_contains_bytes (CvBytes _) \<longleftrightarrow> True"
| "core_contains_bytes (CvArray items) \<longleftrightarrow> list_ex core_contains_bytes items"
| "core_contains_bytes (CvMap es) \<longleftrightarrow> list_ex (\<lambda>e. core_contains_bytes (fst e) \<or> core_contains_bytes (snd e)) es"
| "core_contains_bytes _ \<longleftrightarrow> False"

definition number_to_core :: "json_number \<Rightarrow> core_value" where
  "number_to_core n =
     (case as_i64 n of
        Some i \<Rightarrow> CvInt i
      | None \<Rightarrow>
          (case as_u64 n of
             Some u \<Rightarrow> CvInt u
           | None \<Rightarrow> (case float_of_number n of Some f \<Rightarrow> CvFloat f | None \<Rightarrow> CvNull)))"

fun json_to_core_impl :: "json \<Rightarrow> nat \<Rightarrow> core_to_json_error + core_value" where
  "json_to_core_impl (JArray items) depth =
     (if depth > MAX_JSON_DEPTH then Inl JsonDepthExceeded
      else res_bind (res_map (\<lambda>it. json_to_core_impl it (depth + 1)) items) (\<lambda>out. Inr (CvArray out)))"
| "json_to_core_impl (JObject obj) depth =
     (if depth > MAX_JSON_DEPTH then Inl JsonDepthExceeded
      else
        res_bind (res_map (\<lambda>kv. res_bind (json_to_core_impl (snd kv) (depth + 1)) (\<lambda>c. Inr (CvText (fst kv), c))) obj)
          (\<lambda>out. Inr (CvMap out)))"
| "json_to_core_impl JNull depth = (if depth > MAX_JSON_DEPTH then Inl JsonDepthExceeded else Inr CvNull)"
| "json_to_core_impl (JBool b) depth = (if depth > MAX_JSON_DEPTH then Inl JsonDepthExceeded else Inr (CvBool b))"
| "json_to_core_impl (JNumber n) depth = (if depth > MAX_JSON_DEPTH then Inl JsonDepthExceeded else Inr (number_to_core n))"
| "json_to_core_impl (JString s) depth = (if depth > MAX_JSON_DEPTH then Inl JsonDepthExceeded else Inr (CvText s))"

definition json_to_core :: "json \<Rightarrow> core_to_json_error + core_value" where
  "json_to_core v = json_to_core_impl v 0"

definition int_to_json :: "int \<Rightarrow> core_to_json_error + json" where
  "int_to_json i =
     (if - (2 ^ 63) \<le> i \<and> i < 2 ^ 63 then Inr (JNumber (NInt i))
      else if 0 \<le> i \<and> i < 2 ^ 64 then Inr (JNumber (NInt i))
      else Inl IntOutOfJsonRange)"

text \<open>The loop over the entries of a map, which inserts into the object built so far.\<close>

fun object_entries ::
  "(core_value \<Rightarrow> core_to_json_error + json) \<Rightarrow> (core_value \<times> core_value) list \<Rightarrow> (string \<times> json) list \<Rightarrow>
   core_to_json_error + (string \<times> json) list" where
  "object_entries f [] obj = Inr obj"
| "object_entries f (e # es) obj =
     (case fst e of
        CvText key \<Rightarrow>
          if key \<in> fst ` set obj then Inl (DuplicateMapKey key)
          else res_bind (f (snd e)) (\<lambda>j. object_entries f es (obj @ [(key, j)]))
      | _ \<Rightarrow> Inl NonStringMapKey)"

lemma object_entries_cong [fundef_cong]:
  "es = es' \<Longrightarrow> obj = obj' \<Longrightarrow> (\<And>e. e \<in> set es' \<Longrightarrow> f (snd e) = g (snd e)) \<Longrightarrow>
   object_entries f es obj = object_entries g es' obj'"
  by (induction es' arbitrary: es obj obj') (auto cong: res_bind_cong split: core_value.split)

fun core_to_json_impl :: "core_value \<Rightarrow> nat \<Rightarrow> core_to_json_error + json" where
  "core_to_json_impl (CvArray items) depth =
     (if depth > MAX_JSON_DEPTH then Inl JsonDepthExceeded
      else res_bind (res_map (\<lambda>it. core_to_json_impl it (depth + 1)) items) (\<lambda>out. Inr (JArray out)))"
| "core_to_json_impl (CvMap es) depth =
     (if depth > MAX_JSON_DEPTH then Inl JsonDepthExceeded
      else res_bind (object_entries (\<lambda>v. core_to_json_impl v (depth + 1)) es []) (\<lambda>obj. Inr (JObject obj)))"
| "core_to_json_impl CvNull depth = (if depth > MAX_JSON_DEPTH then Inl JsonDepthExceeded else Inr JNull)"
| "core_to_json_impl (CvBool b) depth = (if depth > MAX_JSON_DEPTH then Inl JsonDepthExceeded else Inr (JBool b))"
| "core_to_json_impl (CvInt i) depth = (if depth > MAX_JSON_DEPTH then Inl JsonDepthExceeded else int_to_json i)"
| "core_to_json_impl (CvFloat f) depth =
     (if depth > MAX_JSON_DEPTH then Inl JsonDepthExceeded
      else (case number_from_f64 f of Some n \<Rightarrow> Inr (JNumber n) | None \<Rightarrow> Inl NonFiniteFloat))"
| "core_to_json_impl (CvText s) depth = (if depth > MAX_JSON_DEPTH then Inl JsonDepthExceeded else Inr (JString s))"
| "core_to_json_impl (CvBytes _) depth =
     (if depth > MAX_JSON_DEPTH then Inl JsonDepthExceeded else Inl BytesNotExpressible)"

definition core_to_json :: "core_value \<Rightarrow> core_to_json_error + json" where
  "core_to_json v = core_to_json_impl v 0"

definition assert_json_roundtrip :: "json \<Rightarrow> core_to_json_error + unit" where
  "assert_json_roundtrip v =
     res_bind (json_to_core v) (\<lambda>core.
     res_bind (core_to_json core) (\<lambda>back.
     if json_eq v back then Inr () else Inl RoundtripMismatch))"

section \<open>What the conversions compute\<close>

fun json_fits :: "nat \<Rightarrow> json \<Rightarrow> bool" where
  "json_fits d (JArray items) \<longleftrightarrow> d \<le> 64 \<and> list_all (json_fits (d + 1)) items"
| "json_fits d (JObject kvs) \<longleftrightarrow> d \<le> 64 \<and> list_all (\<lambda>kv. json_fits (d + 1) (snd kv)) kvs"
| "json_fits d _ \<longleftrightarrow> d \<le> 64"

fun core_of :: "json \<Rightarrow> core_value" where
  "core_of JNull = CvNull"
| "core_of (JBool b) = CvBool b"
| "core_of (JNumber (NInt i)) = CvInt i"
| "core_of (JNumber (NFloat f)) = CvFloat f"
| "core_of (JString s) = CvText s"
| "core_of (JArray items) = CvArray (map core_of items)"
| "core_of (JObject kvs) = CvMap (map (\<lambda>kv. (CvText (fst kv), core_of (snd kv))) kvs)"

lemma list_all_cong_set: "(\<And>x. x \<in> set xs \<Longrightarrow> P x \<longleftrightarrow> Q x) \<Longrightarrow> list_all P xs \<longleftrightarrow> list_all Q xs"
  by (induction xs) auto

lemma json_to_core_impl_eq:
  "json_wf v \<Longrightarrow> json_to_core_impl v d = (if json_fits d v then Inr (core_of v) else Inl JsonDepthExceeded)"
proof (induction v d rule: json_to_core_impl.induct)
  case (1 items d)
  show ?case
  proof (cases "d > MAX_JSON_DEPTH")
    case False
    have "res_map (\<lambda>it. json_to_core_impl it (d + 1)) items =
        (if list_all (json_fits (d + 1)) items then Inr (map core_of items) else Inl JsonDepthExceeded)"
      using 1 False by (intro res_map_if) (auto simp: list_all_iff)
    then show ?thesis using False by (simp add: MAX_JSON_DEPTH_def)
  qed (simp add: MAX_JSON_DEPTH_def)
next
  case (2 obj d)
  show ?case
  proof (cases "d > MAX_JSON_DEPTH")
    case False
    have "res_map (\<lambda>kv. res_bind (json_to_core_impl (snd kv) (d + 1)) (\<lambda>c. Inr (CvText (fst kv), c))) obj =
        (if list_all (\<lambda>kv. json_fits (d + 1) (snd kv)) obj
         then Inr (map (\<lambda>kv. (CvText (fst kv), core_of (snd kv))) obj) else Inl JsonDepthExceeded)"
      using 2 False by (intro res_map_if) (auto simp: list_all_iff)
    then show ?thesis using False by (simp add: MAX_JSON_DEPTH_def)
  qed (simp add: MAX_JSON_DEPTH_def)
next
  case (5 n d)
  then show ?case by (cases n) (auto simp: MAX_JSON_DEPTH_def number_to_core_def)
qed (simp_all add: MAX_JSON_DEPTH_def)

lemma object_entries_eq:
  "(\<And>kv. kv \<in> set kvs \<Longrightarrow> f (core_of (snd kv)) = (if P kv then Inr (snd kv) else Inl e)) \<Longrightarrow>
   distinct (map fst obj @ map fst kvs) \<Longrightarrow>
   object_entries f (map (\<lambda>kv. (CvText (fst kv), core_of (snd kv))) kvs) obj =
     (if list_all P kvs then Inr (obj @ kvs) else Inl e)"
proof (induction kvs arbitrary: obj)
  case (Cons kv kvs)
  from Cons.prems(2) have "fst kv \<notin> fst ` set obj" "distinct (map fst (obj @ [kv]) @ map fst kvs)" by auto
  moreover have "f (core_of (snd kv)) = (if P kv then Inr (snd kv) else Inl e)" using Cons.prems(1) by simp
  moreover have "object_entries f (map (\<lambda>kv. (CvText (fst kv), core_of (snd kv))) kvs) (obj @ [kv]) =
      (if list_all P kvs then Inr ((obj @ [kv]) @ kvs) else Inl e)"
    using Cons.prems(1) calculation(2) by (intro Cons.IH) auto
  ultimately show ?case by simp
qed simp

lemma core_to_json_impl_eq:
  "json_wf v \<Longrightarrow> core_to_json_impl (core_of v) d = (if json_fits d v then Inr v else Inl JsonDepthExceeded)"
proof (induction v arbitrary: d rule: core_of.induct)
  case (3 i)
  then show ?case by (auto simp: int_to_json_def MAX_JSON_DEPTH_def)
next
  case (4 f)
  then show ?case by (auto simp: number_from_f64_def MAX_JSON_DEPTH_def)
next
  case (6 items)
  have "res_map (\<lambda>it. core_to_json_impl it (d + 1)) (map core_of items) =
      (if list_all (json_fits (d + 1)) items then Inr items else Inl JsonDepthExceeded)"
  proof -
    have "res_map (\<lambda>it. core_to_json_impl it (d + 1)) (map core_of items) = res_map (\<lambda>it. core_to_json_impl (core_of it) (d + 1)) items"
      by (induction items) simp_all
    also have "\<dots> = (if list_all (json_fits (d + 1)) items then Inr (map (\<lambda>x. x) items) else Inl JsonDepthExceeded)"
      using 6 by (intro res_map_if) (auto simp: list_all_iff)
    finally show ?thesis by simp
  qed
  then show ?case by (simp add: MAX_JSON_DEPTH_def)
next
  case (7 kvs)
  have "object_entries (\<lambda>v. core_to_json_impl v (d + 1)) (map (\<lambda>kv. (CvText (fst kv), core_of (snd kv))) kvs) [] =
      (if list_all (\<lambda>kv. json_fits (d + 1) (snd kv)) kvs then Inr ([] @ kvs) else Inl JsonDepthExceeded)"
    using 7 by (intro object_entries_eq) (auto simp: list_all_iff)
  then show ?case by (simp add: MAX_JSON_DEPTH_def)
qed (auto simp: MAX_JSON_DEPTH_def)

lemma map_of_self: "distinct (map fst kvs) \<Longrightarrow> kv \<in> set kvs \<Longrightarrow> map_of kvs (fst kv) = Some (snd kv)"
  by (cases kv) simp

lemma json_eq_perm:
  assumes "distinct (map fst kvs)" "mset kws = mset (map (\<lambda>kv. (fst kv, f (snd kv))) kvs)"
    and "\<And>kv. kv \<in> set kvs \<Longrightarrow> json_eq (snd kv) (f (snd kv))"
  shows "json_eq (JObject kvs) (JObject kws)"
proof -
  from assms(2) have len: "length kws = length kvs" using mset_eq_length by fastforce
  from assms(2) have "mset (map fst kws) = mset (map fst kvs)"
    by (metis (mono_tags, lifting) map_map mset_map comp_def fst_conv map_eq_conv)
  then have dist: "distinct (map fst kws)" using assms(1) mset_eq_imp_distinct_iff by blast
  have "map_of kws (fst kv) = Some (f (snd kv))" if "kv \<in> set kvs" for kv
  proof -
    have "set kws = set (map (\<lambda>kv. (fst kv, f (snd kv))) kvs)" using assms(2) by (rule mset_eq_setD)
    with that have "(fst kv, f (snd kv)) \<in> set kws" by auto
    with dist show ?thesis by simp
  qed
  with len assms(3) show ?thesis by (simp add: list_all_iff)
qed

lemma number_eq_refl [simp]: "number_eq n n"
  by (cases n) simp_all

lemma json_eq_refl: "json_wf v \<Longrightarrow> json_eq v v"
proof (induction v rule: core_of.induct)
  case (6 items)
  then show ?case by (simp add: list_all_iff list_all2_same)
next
  case (7 kvs)
  show ?case
  proof (rule json_eq_perm [where f = "\<lambda>x. x"])
    show "json_eq (snd kv) (snd kv)" if "kv \<in> set kvs" for kv
      using 7 that by (auto simp: list_all_iff)
  qed (use 7 in simp_all)
qed simp_all

text \<open>Converting a JSON document to a core value and back is the identity, whatever the document: the only
  failure is the depth limit, at exactly the same documents in both directions.\<close>

theorem json_roundtrip:
  assumes "json_wf v"
  shows "res_bind (json_to_core v) core_to_json = (if json_fits 0 v then Inr v else Inl JsonDepthExceeded) \<and>
    assert_json_roundtrip v = (if json_fits 0 v then Inr () else Inl JsonDepthExceeded)"
  using assms
  by (simp_all add: json_to_core_def core_to_json_def json_to_core_impl_eq core_to_json_impl_eq
      assert_json_roundtrip_def json_eq_refl)

definition sample_json :: json where
  "sample_json = JObject [(''b'', JArray [JNumber (NInt (- 300)), JNumber (NFloat (2 ^ 63)), JNull]), (''a'', JBool True)]"

lemma sample_json_wf: "json_wf sample_json"
  by (simp add: sample_json_def str_ok_def byte_def is_nan_def is_infinite_def f64_exp_def)

lemma json_roundtrip_witness:
  "res_bind (json_to_core sample_json) core_to_json = Inr sample_json \<and> assert_json_roundtrip sample_json = Inr ()"
  using json_roundtrip [OF sample_json_wf] by (simp add: sample_json_def)

section \<open>Through canonical CBOR\<close>

text \<open>The document with the entries of every object in the order of their encoded keys.\<close>

fun json_sort :: "json \<Rightarrow> json" where
  "json_sort (JArray items) = JArray (map json_sort items)"
| "json_sort (JObject kvs) =
     JObject (map (\<lambda>kv. (fst kv, json_sort (snd kv))) (sort_key (\<lambda>kv. enc (CvText (fst kv))) kvs))"
| "json_sort v = v"

lemma json_sort_eq: "json_wf v \<Longrightarrow> json_eq v (json_sort v)"
proof (induction v rule: json_sort.induct)
  case (1 items)
  then show ?case by (simp add: list_all_iff list_all2_map2 list_all2_same)
next
  case (2 kvs)
  have "json_eq (JObject kvs) (JObject (map (\<lambda>kv. (fst kv, json_sort (snd kv))) (sort_key (\<lambda>kv. enc (CvText (fst kv))) kvs)))"
  proof (rule json_eq_perm [where f = json_sort])
    show "json_eq (snd kv) (json_sort (snd kv))" if "kv \<in> set kvs" for kv
      using 2 that by (auto simp: list_all_iff)
  qed (use 2 in simp_all)
  then show ?case by simp
qed (simp_all add: json_eq_refl)

lemma json_sort_wf: "json_wf v \<Longrightarrow> json_wf (json_sort v)"
proof (induction v rule: json_sort.induct)
  case (2 kvs)
  have "map fst (map (\<lambda>kv. (fst kv, json_sort (snd kv))) (sort_key (\<lambda>kv. enc (CvText (fst kv))) kvs)) =
      map fst (sort_key (\<lambda>kv. enc (CvText (fst kv))) kvs)" by simp
  with 2 show ?case by (auto simp: list_all_iff comp_def)
qed (auto simp: list_all_iff)

lemma json_sort_fits: "json_fits d (json_sort v) \<longleftrightarrow> json_fits d v"
  by (induction v arbitrary: d rule: json_sort.induct) (auto simp: list_all_iff)

lemma canon_core_of: "json_wf v \<Longrightarrow> canon (core_of v) = core_of (json_sort v)"
proof (induction v rule: core_of.induct)
  case (7 kvs)
  have "sort_key (\<lambda>e. enc (fst e)) (map (\<lambda>kv. (CvText (fst kv), core_of (snd kv))) kvs) =
      map (\<lambda>kv. (CvText (fst kv), core_of (snd kv))) (sort_key (\<lambda>kv. enc (CvText (fst kv))) kvs)"
    by (simp add: sort_key_map del: enc.simps)
  with 7 show ?case by (auto simp: list_all_iff simp del: enc.simps)
qed (auto simp: canon_float_def list_all_iff)

lemma wf_core_of: "json_wf v \<Longrightarrow> wf_value (core_of v)"
  by (induction v rule: core_of.induct) (auto simp: list_all_iff str_ok_def)

lemma enc_text_inj: "str_ok s \<Longrightarrow> str_ok t \<Longrightarrow> enc (CvText s) = enc (CvText t) \<Longrightarrow> s = t"
proof -
  assume ok: "str_ok s" "str_ok t" and eq: "enc (CvText s) = enc (CvText t)"
  have read: "read_value (enc (CvText u) @ []) 0 = Inr (CvText u, [])" if "str_ok u" for u
    using that read_enc [of 0 "CvText u" "[]"] by (auto simp: str_ok_def head_def MAX_CBOR_NESTING_def)
  show "s = t" using read [OF ok(1)] read [OF ok(2)] unfolding eq by simp
qed

lemma encodable_core_of: "json_wf v \<Longrightarrow> encodable d (core_of v) \<longleftrightarrow> json_fits d v"
proof (induction v arbitrary: d rule: core_of.induct)
  case (7 kvs)
  have "inj_on (\<lambda>kv. enc (CvText (fst kv))) (set kvs)"
  proof (rule inj_onI)
    fix a b assume "a \<in> set kvs" "b \<in> set kvs" "enc (CvText (fst a)) = enc (CvText (fst b))"
    with 7 have "fst a = fst b" "a \<in> set kvs" "b \<in> set kvs" by (auto simp: list_all_iff simp del: enc.simps intro!: enc_text_inj)
    with 7 show "a = b" by (auto simp: distinct_map inj_on_def)
  qed
  moreover have "distinct kvs" using 7 by (simp add: distinct_map)
  ultimately have "distinct (map (\<lambda>kv. enc (CvText (fst kv))) kvs)" by (simp add: distinct_map)
  moreover have "encodable (d + 1) (CvText k)" if "kv \<in> set kvs" "json_fits (d + 1) (snd kv)" for k kv
    using that by (cases "snd kv") (simp_all add: MAX_CBOR_NESTING_def)
  ultimately show ?case using 7 by (auto simp: list_all_iff MAX_CBOR_NESTING_def comp_def simp del: enc.simps)
qed (auto simp: list_all_iff MAX_CBOR_NESTING_def)

text \<open>C22: the full path of a document, JSON to core value to canonical CBOR and back, returns an equal
  document: every document within the depth limit whose encoding is within the byte cap encodes, decodes to
  a core value, and that value converts to a JSON document equal to the first - the limits of the two codecs
  agree, and no two keys of an object collide when encoded.\<close>

theorem json_cbor_roundtrip:
  assumes "json_wf v" "json_to_core v = Inr c" "length (enc c) \<le> MAX_CBOR_BYTES"
  shows "\<exists>bytes c' v'. encode c = Inr bytes \<and> decode bytes = Inr c' \<and> core_to_json c' = Inr v' \<and> json_eq v v'"
proof -
  from assms(1,2) have c: "c = core_of v" and fits: "json_fits 0 v"
    by (simp_all add: json_to_core_def json_to_core_impl_eq split: if_splits)
  have "encodable 0 c" using assms(1) fits by (simp add: c encodable_core_of)
  then have enc: "encode c = Inr (enc c)" "decode (enc c) = Inr (canon c)"
    using assms(3) decode_enc [of c] wf_core_of [OF assms(1)] by (simp_all add: encode_Inr c)
  have "core_to_json (canon c) = Inr (json_sort v)"
    using assms(1) fits by (simp add: c canon_core_of core_to_json_def core_to_json_impl_eq json_sort_wf json_sort_fits)
  with enc json_sort_eq [OF assms(1)] show ?thesis by blast
qed

lemma json_cbor_roundtrip_witness:
  "\<exists>bytes c' v'. encode (core_of sample_json) = Inr bytes \<and> decode bytes = Inr c' \<and>
     core_to_json c' = Inr v' \<and> json_eq sample_json v'"
proof (rule json_cbor_roundtrip [OF sample_json_wf])
  show "json_to_core sample_json = Inr (core_of sample_json)"
    unfolding json_to_core_def json_to_core_impl_eq [OF sample_json_wf] by (simp add: sample_json_def)
  have "length (enc_float (2 ^ 63)) \<le> 9" by (rule length_enc_float)
  then show "length (enc (core_of sample_json)) \<le> MAX_CBOR_BYTES"
    by (simp add: sample_json_def head_def MAX_CBOR_BYTES_def)
qed

end
