(* ===== verification/Tariff.thy ===== *)
theory Tariff
  imports Vectors Classifier Json
begin

text \<open>
  The tariff-reject suite (\<open>suites/tariff.rs\<close>): the ordered checks on a Tariff, which compose the COSE
  verification of \<open>ephemeral-crypto\<close> with the classifier signature of \<open>ephemeral-classifier\<close>.  An instant
  is its distance from the epoch in nanoseconds; the RFC 3339 parser of the \<open>time\<close> crate is a parameter.
  Fields the code only deserializes are left out of the records.
\<close>

section \<open>Constants and reject codes\<close>

definition TARIFF_TRUST_ANCHOR :: string where "TARIFF_TRUST_ANCHOR = ''K_cust_root_pk_TEST''"

definition TARIFF_COSE_ALG_EDDSA :: int where "TARIFF_COSE_ALG_EDDSA = - 8"

definition MAX_IAT_TO_NBF_GAP_SECONDS :: int where "MAX_IAT_TO_NBF_GAP_SECONDS = 2592000"

definition MAX_VALIDITY_PERIOD_SECONDS :: int where "MAX_VALIDITY_PERIOD_SECONDS = 2592000"

definition DEFAULT_CLOCK_SKEW_TOLERANCE_SECONDS :: int where "DEFAULT_CLOCK_SKEW_TOLERANCE_SECONDS = 300"

datatype tariff_reject_code =
    TarOversize
  | TarCoseMalformed
  | TarSignatureAlgorithmUnsupported
  | TarSignatureAlgorithmMismatch
  | TarKidUnknown
  | TarSignatureInvalid
  | TarSignatureChainBroken
  | TarRevoked
  | TarPayloadEncodingInvalid
  | TarPayloadNotDeterministicCbor
  | TarDuplicateEntries
  | TarClassifierSignatureInvalid
  | TarClassifierSignaturePayloadMalformed
  | TarClassifierAbiVersionMismatch
  | TarClassifierWasmHashMismatch
  | TarClassifierSignerKidMismatch
  | TarVersionTooOld
  | TarSelfInconsistentVersion
  | TarExpired
  | TarNotYetValid
  | TarClockSkewExceeded
  | TarIatNbfGapExcessive
  | TarValidityPeriodExcessive
  | TarMalformed
  | TarUnknownField
  | TarTierOutOfRange
  | TarRateMatrixIncomplete
  | TarFuzzAttestationMissing
  | TarFuzzAttestationMismatch
  | TarPcrAttestorsEmpty
  | TarPcrQuorumInvalid
  | TarPcrAttestorNotTrusted
  | TarIntegrationUnknown
  | TarVerbInvalid
  | TarResourceKindInvalid
  | TarCircularReference

fun tariff_code_display :: "tariff_reject_code \<Rightarrow> string" where
  "tariff_code_display TarOversize = ''tariff-oversize''"
| "tariff_code_display TarCoseMalformed = ''cose-malformed''"
| "tariff_code_display TarSignatureAlgorithmUnsupported = ''signature-algorithm-unsupported''"
| "tariff_code_display TarSignatureAlgorithmMismatch = ''signature-algorithm-mismatch''"
| "tariff_code_display TarKidUnknown = ''kid-unknown''"
| "tariff_code_display TarSignatureInvalid = ''signature-invalid''"
| "tariff_code_display TarSignatureChainBroken = ''signature-chain-broken''"
| "tariff_code_display TarRevoked = ''revoked''"
| "tariff_code_display TarPayloadEncodingInvalid = ''payload-encoding-invalid''"
| "tariff_code_display TarPayloadNotDeterministicCbor = ''payload-not-deterministic-cbor''"
| "tariff_code_display TarDuplicateEntries = ''tariff-duplicate-entries''"
| "tariff_code_display TarClassifierSignatureInvalid = ''classifier-signature-invalid''"
| "tariff_code_display TarClassifierSignaturePayloadMalformed = ''classifier-signature-payload-malformed''"
| "tariff_code_display TarClassifierAbiVersionMismatch = ''classifier-abi-version-mismatch''"
| "tariff_code_display TarClassifierWasmHashMismatch = ''classifier-wasm-hash-mismatch''"
| "tariff_code_display TarClassifierSignerKidMismatch = ''classifier-signer-kid-mismatch''"
| "tariff_code_display TarVersionTooOld = ''version-too-old''"
| "tariff_code_display TarSelfInconsistentVersion = ''tariff-self-inconsistent-version''"
| "tariff_code_display TarExpired = ''expired''"
| "tariff_code_display TarNotYetValid = ''not-yet-valid''"
| "tariff_code_display TarClockSkewExceeded = ''clock-skew-exceeded''"
| "tariff_code_display TarIatNbfGapExcessive = ''tariff-iat-nbf-gap-excessive''"
| "tariff_code_display TarValidityPeriodExcessive = ''tariff-validity-period-excessive''"
| "tariff_code_display TarMalformed = ''tariff-malformed''"
| "tariff_code_display TarUnknownField = ''tariff-unknown-field''"
| "tariff_code_display TarTierOutOfRange = ''tariff-tier-out-of-range''"
| "tariff_code_display TarRateMatrixIncomplete = ''rate-matrix-incomplete''"
| "tariff_code_display TarFuzzAttestationMissing = ''tariff-fuzz-attestation-missing''"
| "tariff_code_display TarFuzzAttestationMismatch = ''tariff-fuzz-attestation-mismatch''"
| "tariff_code_display TarPcrAttestorsEmpty = ''tariff-pcr-attestors-empty''"
| "tariff_code_display TarPcrQuorumInvalid = ''tariff-pcr-quorum-invalid''"
| "tariff_code_display TarPcrAttestorNotTrusted = ''pcr-attestor-not-trusted''"
| "tariff_code_display TarIntegrationUnknown = ''tariff-integration-unknown''"
| "tariff_code_display TarVerbInvalid = ''tariff-verb-invalid''"
| "tariff_code_display TarResourceKindInvalid = ''tariff-resource-kind-invalid''"
| "tariff_code_display TarCircularReference = ''tariff-circular-reference''"

section \<open>Input\<close>

record sig_context =
  sc_signer_key_id :: "string option"
  sc_trust_anchors :: "string list option"
  sc_signature_valid_under_current_bytes :: "bool option"
  sc_cose_alg_label :: "int option"
  sc_kid_key_type :: "string option"
  sc_protected_header_has_alg :: "bool option"
  sc_crit_labels :: "int list option"
  sc_verifier_understands_crit :: "bool option"
  sc_delegation_chain :: "json list option"
  sc_delegation_chain_root_parent :: "string option"
  sc_delegation_chain_link_signatures_valid :: "bool list option"
  sc_delegation_child_role :: "string option"
  sc_required_role_for_tariff :: "string option"
  sc_revocation_list :: "string list option"
  sc_known_keys_in_store :: "string list option"
  sc_approved_attestor_registry :: "string list option"
  sc_kid_to_key_resolution :: "string option"
  sc_payload_encoding_detected :: "string option"
  sc_cbor_is_deterministic :: "bool option"
  sc_cbor_type_observed :: "string option"
  sc_duplicate_map_keys_present :: "bool option"

record tariff_input =
  ti_context :: sig_context
  ti_current_time :: string
  ti_previously_seen_version :: "int option"
  ti_version_in_payload :: "json option"
  ti_issued_at :: "string option"
  ti_valid_from :: "string option"
  ti_valid_until :: "string option"
  ti_max_gap_seconds :: "nat option"
  ti_max_validity_seconds :: "nat option"
  ti_max_tariff_bytes :: "nat option"
  ti_observed_size_bytes :: "nat option"
  ti_clock_skew_tolerance_seconds :: "int option"
  ti_cose_sign1_bytes :: "string option"
  ti_trust_anchor_keys :: "trust_anchor_key_def list option"
  ti_cose_sign1_bytes_classifier :: "string option"
  ti_wasm_bytes_classifier :: "string option"
  ti_trust_anchor_keys_classifier :: "trust_anchor_key_def list option"
  ti_classifier_abi_version :: "nat option"

record ('pk, 'sig) tariff_env =
  te_crypto :: "('pk, 'sig) crypto_env"
  te_decode_payload :: "string \<Rightarrow> classifier_sig_payload option"
  te_sha256 :: "string \<Rightarrow> string"
  te_parse_rfc3339 :: "string \<Rightarrow> int option"

definition whole_seconds :: "int \<Rightarrow> int" where
  "whole_seconds d = (if d < 0 then - (- d div 10 ^ 9) else d div 10 ^ 9)"

fun json_as_i64 :: "json \<Rightarrow> int option" where
  "json_as_i64 (JNumber n) = as_i64 n"
| "json_as_i64 _ = None"

section \<open>Error mappings\<close>

fun map_cose_error_to_tariff :: "cose_error \<Rightarrow> tariff_reject_code" where
  "map_cose_error_to_tariff (UnknownKid _) = TarKidUnknown"
| "map_cose_error_to_tariff (UnsupportedAlg _) = TarSignatureAlgorithmUnsupported"
| "map_cose_error_to_tariff (AlgMismatch _ _) = TarSignatureAlgorithmMismatch"
| "map_cose_error_to_tariff MalformedHeader = TarCoseMalformed"
| "map_cose_error_to_tariff CborParse = TarCoseMalformed"
| "map_cose_error_to_tariff (CborDepthExceeded _) = TarCoseMalformed"
| "map_cose_error_to_tariff HexDecode = TarCoseMalformed"
| "map_cose_error_to_tariff (PayloadTooLarge _ _) = TarOversize"
| "map_cose_error_to_tariff _ = TarSignatureInvalid"

fun map_classifier_sig_error_to_tariff :: "classifier_sig_error \<Rightarrow> tariff_reject_code" where
  "map_classifier_sig_error_to_tariff PayloadDecodeFailed = TarClassifierSignaturePayloadMalformed"
| "map_classifier_sig_error_to_tariff (AbiVersionMismatch _ _) = TarClassifierAbiVersionMismatch"
| "map_classifier_sig_error_to_tariff (WasmHashMismatch _ _) = TarClassifierWasmHashMismatch"
| "map_classifier_sig_error_to_tariff (SignerKidMismatch _ _) = TarClassifierSignerKidMismatch"
| "map_classifier_sig_error_to_tariff CoseVerifyFailed = TarClassifierSignatureInvalid"

definition parse_iso :: "('pk, 'sig) tariff_env \<Rightarrow> string \<Rightarrow> tariff_reject_code + int" where
  "parse_iso env s = (case te_parse_rfc3339 env s of None \<Rightarrow> Inl TarMalformed | Some t \<Rightarrow> Inr t)"

section \<open>The steps\<close>

text \<open>Steps 1 to 5: size, header structure, algorithm, signer identity, chain signals.\<close>

definition tariff_envelope_checks :: "tariff_input \<Rightarrow> tariff_reject_code + unit" where
  "tariff_envelope_checks input =
     (let ctx = ti_context input in
      res_bind
        (case (ti_max_tariff_bytes input, ti_observed_size_bytes input) of
           (Some mx, Some observed) \<Rightarrow> fail_if (observed > mx) TarOversize
         | _ \<Rightarrow> Inr ()) (\<lambda>_.
      if sc_protected_header_has_alg ctx = Some False then Inl TarCoseMalformed
      else if (case sc_crit_labels ctx of Some c \<Rightarrow> c \<noteq> [] | None \<Rightarrow> False) \<and> sc_verifier_understands_crit ctx = Some False
      then Inl TarCoseMalformed
      else
      res_bind
        (case sc_cose_alg_label ctx of
           None \<Rightarrow> Inr ()
         | Some alg \<Rightarrow>
             if alg \<noteq> TARIFF_COSE_ALG_EDDSA then Inl TarSignatureAlgorithmUnsupported
             else fail_if (case sc_kid_key_type ctx of Some k \<Rightarrow> \<not> eq_ignore_ascii_case k ''OKP'' | None \<Rightarrow> False)
               TarSignatureAlgorithmMismatch) (\<lambda>_.
      res_bind
        (case (sc_signer_key_id ctx, sc_known_keys_in_store ctx) of
           (Some signer, Some known) \<Rightarrow> fail_if (\<not> list_ex (\<lambda>k. k = signer) known) TarKidUnknown
         | _ \<Rightarrow> Inr ()) (\<lambda>_.
      if sc_kid_to_key_resolution ctx = Some ''mismatch'' then Inl TarSignatureChainBroken
      else
      res_bind (case sc_delegation_chain ctx of Some chain \<Rightarrow> fail_if (chain = []) TarSignatureChainBroken | None \<Rightarrow> Inr ()) (\<lambda>_.
      res_bind
        (case sc_delegation_chain_root_parent ctx of
           Some root_parent \<Rightarrow> fail_if (root_parent \<noteq> TARIFF_TRUST_ANCHOR) TarSignatureChainBroken
         | None \<Rightarrow> Inr ()) (\<lambda>_.
      res_bind
        (case sc_delegation_chain_link_signatures_valid ctx of
           Some link_valids \<Rightarrow> fail_if (list_ex Not link_valids) TarSignatureChainBroken
         | None \<Rightarrow> Inr ()) (\<lambda>_.
      case (sc_delegation_child_role ctx, sc_required_role_for_tariff ctx) of
        (Some actual, Some required) \<Rightarrow> fail_if (actual \<noteq> required) TarSignatureChainBroken
      | _ \<Rightarrow> Inr ())))))))"

text \<open>Step 6: the signature.\<close>

definition tariff_signature_check :: "('pk, 'sig) tariff_env \<Rightarrow> tariff_input \<Rightarrow> tariff_reject_code + unit" where
  "tariff_signature_check env input =
     (case (ti_cose_sign1_bytes input, ti_trust_anchor_keys input) of
        (Some hex_bytes, Some defs) \<Rightarrow>
          (case verify_with_defs (te_crypto env) hex_bytes defs ''tariff'' TariffSigner of
             Inl e \<Rightarrow> Inl (map_cose_error_to_tariff e)
           | Inr _ \<Rightarrow> Inr ())
      | (Some _, None) \<Rightarrow> Inl TarSignatureInvalid
      | (None, Some _) \<Rightarrow> Inl TarSignatureInvalid
      | (None, None) \<Rightarrow> fail_if (sc_signature_valid_under_current_bytes (ti_context input) = Some False) TarSignatureInvalid)"

text \<open>Steps 7 to 9: revocation, wrong key, payload encoding.\<close>

definition tariff_key_checks :: "tariff_input \<Rightarrow> string \<Rightarrow> tariff_reject_code + unit" where
  "tariff_key_checks input category =
     (let ctx = ti_context input in
      res_bind
        (case (sc_signer_key_id ctx, sc_revocation_list ctx) of
           (Some signer, Some revoked) \<Rightarrow>
             fail_if (list_ex (\<lambda>k. k = signer) revoked \<and> category \<noteq> ''redteam-OPCE-stale-tariff-replay'') TarRevoked
         | _ \<Rightarrow> Inr ()) (\<lambda>_.
      res_bind
        (if category = ''sig-invalid-wrong-key'' then
           (case (sc_signer_key_id ctx, sc_trust_anchors ctx) of
              (Some signer, Some anchors) \<Rightarrow> fail_if (\<not> list_ex (\<lambda>a. a = signer) anchors) TarSignatureInvalid
            | _ \<Rightarrow> Inr ())
         else Inr ()) (\<lambda>_.
      if sc_payload_encoding_detected ctx = Some ''json'' then Inl TarPayloadEncodingInvalid
      else if sc_cbor_is_deterministic ctx = Some False \<or> sc_cbor_type_observed ctx = Some ''float''
      then Inl TarPayloadNotDeterministicCbor
      else fail_if (sc_duplicate_map_keys_present ctx = Some True) TarDuplicateEntries)))"

text \<open>Step 9.5: the classifier signature.\<close>

definition tariff_classifier_check :: "('pk, 'sig) tariff_env \<Rightarrow> tariff_input \<Rightarrow> tariff_reject_code + unit" where
  "tariff_classifier_check env input =
     (case (ti_cose_sign1_bytes_classifier input, ti_wasm_bytes_classifier input, ti_trust_anchor_keys_classifier input) of
        (Some cose_hex, Some wasm_hex, Some defs) \<Rightarrow>
          let expected_abi = (case ti_classifier_abi_version input of Some v \<Rightarrow> v | None \<Rightarrow> CLASSIFIER_ABI_VERSION) in
          (case hex_decode (te_crypto env) cose_hex of
             None \<Rightarrow> Inl TarClassifierSignatureInvalid
           | Some cose_bytes \<Rightarrow>
          (case hex_decode (te_crypto env) wasm_hex of
             None \<Rightarrow> Inl TarClassifierSignatureInvalid
           | Some wasm_bytes \<Rightarrow>
          (case build_anchor_set (te_crypto env) defs ClassifierSigner of
             Inl _ \<Rightarrow> Inl TarClassifierSignatureInvalid
           | Inr anchors \<Rightarrow>
          (case verify_classifier_signature (te_crypto env) (te_decode_payload env) (te_sha256 env)
                  wasm_bytes cose_bytes anchors expected_abi of
             Inl e \<Rightarrow> Inl (map_classifier_sig_error_to_tariff e)
           | Inr _ \<Rightarrow> Inr ()))))
      | (None, None, None) \<Rightarrow> Inr ()
      | _ \<Rightarrow> Inl TarClassifierSignatureInvalid)"

text \<open>Step 10: version monotonicity.\<close>

definition tariff_version_check :: "tariff_input \<Rightarrow> tariff_reject_code + unit" where
  "tariff_version_check input =
     (case (ti_version_in_payload input, ti_previously_seen_version input) of
        (Some payload_version, Some prev) \<Rightarrow>
          (case json_as_i64 payload_version of Some v \<Rightarrow> fail_if (v \<le> prev) TarVersionTooOld | None \<Rightarrow> Inr ())
      | _ \<Rightarrow> Inr ())"

text \<open>Step 11: the validity window and its gaps.\<close>

definition over_limit :: "int \<Rightarrow> nat option \<Rightarrow> int \<Rightarrow> bool" where
  "over_limit seconds policy dflt \<longleftrightarrow>
     (case policy of Some mx \<Rightarrow> seconds > 0 \<and> seconds > int mx | None \<Rightarrow> seconds > 0 \<and> seconds > dflt)"

definition tariff_window_check :: "('pk, 'sig) tariff_env \<Rightarrow> tariff_input \<Rightarrow> string \<Rightarrow> tariff_reject_code + unit" where
  "tariff_window_check env input category =
     res_bind (parse_iso env (ti_current_time input)) (\<lambda>now.
     let skew = (case ti_clock_skew_tolerance_seconds input of Some s \<Rightarrow> s | None \<Rightarrow> DEFAULT_CLOCK_SKEW_TOLERANCE_SECONDS) in
     res_bind
       (case ti_valid_until input of
          None \<Rightarrow> Inr ()
        | Some valid_until \<Rightarrow>
            res_bind (parse_iso env valid_until) (\<lambda>vu.
            res_bind
              (case ti_issued_at input of
                 None \<Rightarrow> Inr ()
               | Some issued_at \<Rightarrow> res_bind (parse_iso env issued_at) (\<lambda>iat. fail_if (vu \<le> iat) TarMalformed)) (\<lambda>_.
            fail_if (vu \<le> now) TarExpired))) (\<lambda>_.
     case ti_issued_at input of
       None \<Rightarrow> Inr ()
     | Some issued_at \<Rightarrow>
         res_bind (parse_iso env issued_at) (\<lambda>iat.
         if whole_seconds (iat - now) > skew
         then (if category = ''expired-issued-in-future'' then Inl TarClockSkewExceeded else Inl TarNotYetValid)
         else
         res_bind
           (case ti_valid_from input of
              None \<Rightarrow> Inr ()
            | Some valid_from \<Rightarrow>
                res_bind (parse_iso env valid_from) (\<lambda>vf.
                fail_if (over_limit (whole_seconds (vf - iat)) (ti_max_gap_seconds input) MAX_IAT_TO_NBF_GAP_SECONDS)
                  TarIatNbfGapExcessive)) (\<lambda>_.
         case ti_valid_until input of
           None \<Rightarrow> Inr ()
         | Some valid_until \<Rightarrow>
             res_bind (parse_iso env valid_until) (\<lambda>vu.
             fail_if (over_limit (whole_seconds (vu - iat)) (ti_max_validity_seconds input) MAX_VALIDITY_PERIOD_SECONDS)
               TarValidityPeriodExcessive)))))"

text \<open>Step 13: the dispatch by category.\<close>

definition malformed_categories :: "string list" where
  "malformed_categories =
     [''version-not-integer'', ''version-zero-or-negative'', ''version-missing'',
      ''expired-not_before-after-not_after'', ''missing-minimum_tiers'', ''missing-classifier_wasm_hash'',
      ''missing-rate_matrix'', ''missing-pcr_attestors'', ''wrong-type-minimum_tiers-array'',
      ''wrong-type-version-nested'', ''wasm-hash-not-hex'', ''edge-zero-actions'', ''missing-revocation_channel_ha'',
      ''revocation_channel_ha-insufficient-redundancy'', ''revocation_channel_ha-multi-provider-violation-tier4'',
      ''revocation_channel_ha-admin-bypass-missing'']"

definition dispatch_table :: "(string \<times> tariff_reject_code) list" where
  "dispatch_table =
     [(''redteam-OPCE-stale-tariff-replay'', TarVersionTooOld),
      (''version-skew-minimum-tariff-version'', TarSelfInconsistentVersion),
      (''missing-classifier_fuzz_attestation'', TarFuzzAttestationMissing),
      (''redteam-V3-8-fuzz-attestation-missing'', TarFuzzAttestationMissing),
      (''wasm-hash-not-in-attestation'', TarFuzzAttestationMismatch),
      (''extra-unrecognized-field'', TarUnknownField),
      (''tier-out-of-range'', TarTierOutOfRange),
      (''tier-negative'', TarTierOutOfRange),
      (''rate_matrix-missing-tier'', TarRateMatrixIncomplete),
      (''edge-single-action'', TarRateMatrixIncomplete),
      (''pcr-attestor-list-empty'', TarPcrAttestorsEmpty),
      (''pcr-quorum-greater-than-attestors'', TarPcrQuorumInvalid),
      (''integration-unknown'', TarIntegrationUnknown),
      (''action-verb-invalid'', TarVerbInvalid),
      (''resource-kind-invalid'', TarResourceKindInvalid),
      (''edge-circular-reference'', TarCircularReference)]
     @ map (\<lambda>c. (c, TarMalformed)) malformed_categories"

definition dispatch_by_category :: "string \<Rightarrow> tariff_reject_code + unit" where
  "dispatch_by_category category =
     (case map_of dispatch_table category of Some code \<Rightarrow> Inl code | None \<Rightarrow> Inr ())"

section \<open>The pipeline and the executor\<close>

definition tariff_classify :: "('pk, 'sig) tariff_env \<Rightarrow> tariff_input \<Rightarrow> string \<Rightarrow> tariff_reject_code + unit" where
  "tariff_classify env input category =
     res_bind (tariff_envelope_checks input) (\<lambda>_.
     res_bind (tariff_signature_check env input) (\<lambda>_.
     res_bind (tariff_key_checks input category) (\<lambda>_.
     res_bind (tariff_classifier_check env input) (\<lambda>_.
     res_bind (tariff_version_check input) (\<lambda>_.
     res_bind (tariff_window_check env input category) (\<lambda>_.
     if category = ''redteam-V3-3-pcr-attestors-not-trusted-list'' \<and> sc_approved_attestor_registry (ti_context input) \<noteq> None
     then Inl TarPcrAttestorNotTrusted
     else dispatch_by_category category))))))"

definition tariff_render_outcome :: "'j vector \<Rightarrow> tariff_reject_code + unit \<Rightarrow> validation_outcome" where
  "tariff_render_outcome vector got =
     (let expected_code = (case exp_reject_code (v_expected vector) of Some c \<Rightarrow> c | None \<Rightarrow> []) in
      case (exp_outcome (v_expected vector), got) of
        (Accept, Inr _) \<Rightarrow> Pass
      | (Accept, Inl c) \<Rightarrow> Fail (''expected accept, got reject-code='' @ tariff_code_display c)
      | (Reject, Inr _) \<Rightarrow> Fail (''expected reject='' @ expected_code @ '', got accept'')
      | (Reject, Inl c) \<Rightarrow>
          if tariff_code_display c = expected_code then Pass
          else Fail (''reject-code mismatch: expected='' @ expected_code @ '' got='' @ tariff_code_display c))"

definition tariff_execute ::
  "('pk, 'sig) tariff_env \<Rightarrow> ('j \<Rightarrow> string + tariff_input) \<Rightarrow> 'j vector \<Rightarrow> validation_outcome" where
  "tariff_execute env from_value vector =
     (case from_value (v_input vector) of
        Inl e \<Rightarrow> Fail (''input-deserialize: '' @ e)
      | Inr input \<Rightarrow> tariff_render_outcome vector (tariff_classify env input (v_category vector)))"

section \<open>The conditions\<close>

definition envelope_ok :: "tariff_input \<Rightarrow> bool" where
  "envelope_ok inp \<longleftrightarrow>
     (let ctx = ti_context inp in
      (\<forall>mx observed. ti_max_tariff_bytes inp = Some mx \<and> ti_observed_size_bytes inp = Some observed \<longrightarrow> observed \<le> mx) \<and>
      sc_protected_header_has_alg ctx \<noteq> Some False \<and>
      (sc_verifier_understands_crit ctx = Some False \<longrightarrow> sc_crit_labels ctx \<in> {None, Some []}) \<and>
      (\<forall>alg. sc_cose_alg_label ctx = Some alg \<longrightarrow> alg = - 8 \<and>
         (\<forall>k. sc_kid_key_type ctx = Some k \<longrightarrow> eq_ignore_ascii_case k ''OKP'')) \<and>
      (\<forall>signer known. sc_signer_key_id ctx = Some signer \<and> sc_known_keys_in_store ctx = Some known \<longrightarrow> signer \<in> set known) \<and>
      sc_kid_to_key_resolution ctx \<noteq> Some ''mismatch'' \<and> sc_delegation_chain ctx \<noteq> Some [] \<and>
      (\<forall>r. sc_delegation_chain_root_parent ctx = Some r \<longrightarrow> r = TARIFF_TRUST_ANCHOR) \<and>
      (\<forall>vs. sc_delegation_chain_link_signatures_valid ctx = Some vs \<longrightarrow> (\<forall>v \<in> set vs. v)) \<and>
      (\<forall>a r. sc_delegation_child_role ctx = Some a \<and> sc_required_role_for_tariff ctx = Some r \<longrightarrow> a = r))"

definition tariff_signed :: "('pk, 'sig) tariff_env \<Rightarrow> tariff_input \<Rightarrow> bool" where
  "tariff_signed env inp \<longleftrightarrow>
     (case (ti_cose_sign1_bytes inp, ti_trust_anchor_keys inp) of
        (Some h, Some defs) \<Rightarrow> live_verified (te_crypto env) h defs ''tariff'' TariffSigner
      | (None, None) \<Rightarrow> sc_signature_valid_under_current_bytes (ti_context inp) \<noteq> Some False
      | _ \<Rightarrow> False)"

definition signer_revoked :: "sig_context \<Rightarrow> bool" where
  "signer_revoked ctx \<longleftrightarrow>
     (\<exists>signer revoked. sc_signer_key_id ctx = Some signer \<and> sc_revocation_list ctx = Some revoked \<and> signer \<in> set revoked)"

definition signer_foreign :: "sig_context \<Rightarrow> bool" where
  "signer_foreign ctx \<longleftrightarrow>
     (\<exists>signer anchors. sc_signer_key_id ctx = Some signer \<and> sc_trust_anchors ctx = Some anchors \<and> signer \<notin> set anchors)"

definition payload_encoding_ok :: "sig_context \<Rightarrow> bool" where
  "payload_encoding_ok ctx \<longleftrightarrow> sc_payload_encoding_detected ctx \<noteq> Some ''json'' \<and>
     sc_cbor_is_deterministic ctx \<noteq> Some False \<and> sc_cbor_type_observed ctx \<noteq> Some ''float'' \<and>
     sc_duplicate_map_keys_present ctx \<noteq> Some True"

text \<open>A classifier-signing anchor of the vector vouches for a payload that commits to the ABI version, to the
  anchor's kid and to the digest of the module; or the vector carries no classifier fields at all.\<close>

definition classifier_vouched ::
  "('pk, 'sig) tariff_env \<Rightarrow> string \<Rightarrow> string \<Rightarrow> trust_anchor_key_def list \<Rightarrow> nat \<Rightarrow> bool" where
  "classifier_vouched env cose_hex wasm_hex defs abi \<longleftrightarrow>
     (\<exists>cose wasm anchors sign1 a p.
        hex_decode (te_crypto env) cose_hex = Some cose \<and> hex_decode (te_crypto env) wasm_hex = Some wasm \<and>
        build_anchor_set (te_crypto env) defs ClassifierSigner = Inr anchors \<and>
        size_depth_check_with_cap (te_crypto env) cose MAX_COSE_BYTES = Inr () \<and>
        coset_parse (te_crypto env) cose = Some sign1 \<and> well_formed_sign1 sign1 \<and> a \<in> set anchors \<and>
        vouches (te_crypto env) sign1 CLASSIFIER_AAD ClassifierSigner a \<and> sign1_payload sign1 = Some p \<and>
        commits_to (te_decode_payload env) p abi (ta_kid a) (te_sha256 env wasm))"

definition expected_abi :: "tariff_input \<Rightarrow> nat" where
  "expected_abi inp = (case ti_classifier_abi_version inp of Some v \<Rightarrow> v | None \<Rightarrow> CLASSIFIER_ABI_VERSION)"

definition classifier_bound :: "('pk, 'sig) tariff_env \<Rightarrow> tariff_input \<Rightarrow> bool" where
  "classifier_bound env inp \<longleftrightarrow>
     (case (ti_cose_sign1_bytes_classifier inp, ti_wasm_bytes_classifier inp, ti_trust_anchor_keys_classifier inp) of
        (Some c, Some w, Some defs) \<Rightarrow> classifier_vouched env c w defs (expected_abi inp)
      | (None, None, None) \<Rightarrow> True
      | _ \<Rightarrow> False)"

definition version_newer :: "tariff_input \<Rightarrow> bool" where
  "version_newer inp \<longleftrightarrow>
     (\<forall>pv prev v. ti_version_in_payload inp = Some pv \<and> ti_previously_seen_version inp = Some prev \<and>
        json_as_i64 pv = Some v \<longrightarrow> prev < v)"

definition limit_of :: "nat option \<Rightarrow> int \<Rightarrow> int" where
  "limit_of policy dflt = (case policy of Some mx \<Rightarrow> int mx | None \<Rightarrow> dflt)"

definition window_ok :: "('pk, 'sig) tariff_env \<Rightarrow> tariff_input \<Rightarrow> bool" where
  "window_ok env inp \<longleftrightarrow>
     (\<exists>now. te_parse_rfc3339 env (ti_current_time inp) = Some now \<and>
       (\<forall>u. ti_valid_until inp = Some u \<longrightarrow> (\<exists>vu. te_parse_rfc3339 env u = Some vu \<and> now < vu)) \<and>
       (\<forall>i. ti_issued_at inp = Some i \<longrightarrow>
         (\<exists>iat. te_parse_rfc3339 env i = Some iat \<and>
           whole_seconds (iat - now) \<le>
             (case ti_clock_skew_tolerance_seconds inp of Some s \<Rightarrow> s | None \<Rightarrow> DEFAULT_CLOCK_SKEW_TOLERANCE_SECONDS) \<and>
           (\<forall>f. ti_valid_from inp = Some f \<longrightarrow> (\<exists>vf. te_parse_rfc3339 env f = Some vf \<and>
              whole_seconds (vf - iat) \<le> limit_of (ti_max_gap_seconds inp) MAX_IAT_TO_NBF_GAP_SECONDS)) \<and>
           (\<forall>u. ti_valid_until inp = Some u \<longrightarrow> (\<exists>vu. te_parse_rfc3339 env u = Some vu \<and> iat < vu \<and>
              whole_seconds (vu - iat) \<le> limit_of (ti_max_validity_seconds inp) MAX_VALIDITY_PERIOD_SECONDS)))))"

text \<open>What the category label asks for.\<close>

definition label_ok :: "sig_context \<Rightarrow> string \<Rightarrow> bool" where
  "label_ok ctx category \<longleftrightarrow> category \<notin> fst ` set dispatch_table \<and>
     (category = ''sig-invalid-wrong-key'' \<longrightarrow> \<not> signer_foreign ctx) \<and>
     (category = ''redteam-V3-3-pcr-attestors-not-trusted-list'' \<longrightarrow> sc_approved_attestor_registry ctx = None)"

section \<open>Each step decides its condition\<close>

lemma alg_step:
  "(case a of None \<Rightarrow> Inr ()
    | Some alg \<Rightarrow> if alg \<noteq> TARIFF_COSE_ALG_EDDSA then Inl TarSignatureAlgorithmUnsupported
        else fail_if (case k of Some k \<Rightarrow> \<not> eq_ignore_ascii_case k ''OKP'' | None \<Rightarrow> False) TarSignatureAlgorithmMismatch) = Inr () \<longleftrightarrow>
   (\<forall>alg. a = Some alg \<longrightarrow> alg = - 8 \<and> (\<forall>t. k = Some t \<longrightarrow> eq_ignore_ascii_case t ''OKP''))"
  by (cases a; cases k) (simp_all add: TARIFF_COSE_ALG_EDDSA_def)

lemma crit_cond:
  "\<not> ((case c of Some c \<Rightarrow> c \<noteq> [] | None \<Rightarrow> False) \<and> u) \<longleftrightarrow> (u \<longrightarrow> c \<in> {None, Some []})"
  by (cases c) auto

lemma envelope_step: "tariff_envelope_checks inp = Inr () \<longleftrightarrow> envelope_ok inp"
  unfolding tariff_envelope_checks_def envelope_ok_def Let_def opt_fail opt2_fail res_bind_unit if_Inl_Inr alg_step
    fail_if_simps crit_cond list_ex_iff
  by (intro conj_cong) (auto simp: not_less)

lemma signature_step: "tariff_signature_check env inp = Inr () \<longleftrightarrow> tariff_signed env inp"
proof -
  have "(\<exists>vp. verify_with_defs (te_crypto env) h ds ''tariff'' TariffSigner = Inr vp) \<longleftrightarrow>
      live_verified (te_crypto env) h ds ''tariff'' TariffSigner" for h ds
    by (rule verify_with_defs_ok)
  then show ?thesis
    by (auto simp: tariff_signature_check_def tariff_signed_def split: option.splits sum.splits) (metis sum.distinct(1))
qed

lemma keys_step:
  "tariff_key_checks inp category = Inr () \<longleftrightarrow>
     (category \<noteq> ''redteam-OPCE-stale-tariff-replay'' \<longrightarrow> \<not> signer_revoked (ti_context inp)) \<and>
     (category = ''sig-invalid-wrong-key'' \<longrightarrow> \<not> signer_foreign (ti_context inp)) \<and>
     payload_encoding_ok (ti_context inp)"
  unfolding tariff_key_checks_def Let_def
  by (auto simp: res_bind_eq_Inr signer_revoked_def signer_foreign_def payload_encoding_ok_def list_ex_iff
      split: option.splits if_splits)

lemma classifier_step: "tariff_classifier_check env inp = Inr () \<longleftrightarrow> classifier_bound env inp"
proof -
  let ?c = "te_crypto env"
  have inner: "(\<exists>v. verify_classifier_signature ?c (te_decode_payload env) (te_sha256 env) wasm cose anchors abi = Inr v) \<longleftrightarrow>
      size_depth_check_with_cap ?c cose MAX_COSE_BYTES = Inr () \<and>
      (\<exists>sign1 a p. coset_parse ?c cose = Some sign1 \<and> well_formed_sign1 sign1 \<and> a \<in> set anchors \<and>
        vouches ?c sign1 CLASSIFIER_AAD ClassifierSigner a \<and> sign1_payload sign1 = Some p \<and>
        commits_to (te_decode_payload env) p abi (ta_kid a) (te_sha256 env wasm))"
    if "build_anchor_set ?c defs ClassifierSigner = Inr anchors" for cose wasm anchors abi defs
    unfolding classifier_signature_inner verify_cose_sign1_def verify_with_cap_iff [OF build_anchor_set_distinct [OF that]]
    by (safe, metis, rule exI, rule exI [of _ "\<lparr>vp_kid = _, vp_alg = Ed25519, vp_payload = _\<rparr>"], auto)
  have full: "(case hex_decode ?c cose_hex of None \<Rightarrow> Inl TarClassifierSignatureInvalid | Some cose \<Rightarrow>
      (case hex_decode ?c wasm_hex of None \<Rightarrow> Inl TarClassifierSignatureInvalid | Some wasm \<Rightarrow>
      (case build_anchor_set ?c defs ClassifierSigner of Inl _ \<Rightarrow> Inl TarClassifierSignatureInvalid | Inr anchors \<Rightarrow>
      (case verify_classifier_signature ?c (te_decode_payload env) (te_sha256 env) wasm cose anchors abi of
         Inl e \<Rightarrow> Inl (map_classifier_sig_error_to_tariff e) | Inr _ \<Rightarrow> Inr ())))) = Inr () \<longleftrightarrow>
      classifier_vouched env cose_hex wasm_hex defs abi" for cose_hex wasm_hex defs abi
  proof -
    have "?thesis \<longleftrightarrow> ((\<exists>cose wasm anchors v. hex_decode ?c cose_hex = Some cose \<and> hex_decode ?c wasm_hex = Some wasm \<and>
        build_anchor_set ?c defs ClassifierSigner = Inr anchors \<and>
        verify_classifier_signature ?c (te_decode_payload env) (te_sha256 env) wasm cose anchors abi = Inr v) \<longleftrightarrow>
        classifier_vouched env cose_hex wasm_hex defs abi)"
      by (auto split: option.splits sum.splits)
    moreover have "(\<exists>cose wasm anchors v. hex_decode ?c cose_hex = Some cose \<and> hex_decode ?c wasm_hex = Some wasm \<and>
        build_anchor_set ?c defs ClassifierSigner = Inr anchors \<and>
        verify_classifier_signature ?c (te_decode_payload env) (te_sha256 env) wasm cose anchors abi = Inr v) \<longleftrightarrow>
        classifier_vouched env cose_hex wasm_hex defs abi"
      unfolding classifier_vouched_def using inner by blast
    ultimately show ?thesis by blast
  qed
  show ?thesis
    unfolding tariff_classifier_check_def classifier_bound_def Let_def expected_abi_def [symmetric]
    by (simp add: full split: option.split)
qed

lemma version_step: "tariff_version_check inp = Inr () \<longleftrightarrow> version_newer inp"
  by (auto simp: tariff_version_check_def version_newer_def split: option.splits)

lemma over_limit_iff: "0 \<le> dflt \<Longrightarrow> over_limit s policy dflt \<longleftrightarrow> limit_of policy dflt < s"
  by (auto simp: over_limit_def limit_of_def split: option.split)

lemma parse_iso_Inr: "parse_iso env s = Inr t \<longleftrightarrow> te_parse_rfc3339 env s = Some t"
  by (auto simp: parse_iso_def split: option.split)

lemma window_step: "tariff_window_check env inp category = Inr () \<longleftrightarrow> window_ok env inp"
proof -
  have lim: "over_limit s (ti_max_gap_seconds inp) MAX_IAT_TO_NBF_GAP_SECONDS \<longleftrightarrow>
      limit_of (ti_max_gap_seconds inp) MAX_IAT_TO_NBF_GAP_SECONDS < s"
    "over_limit s (ti_max_validity_seconds inp) MAX_VALIDITY_PERIOD_SECONDS \<longleftrightarrow>
      limit_of (ti_max_validity_seconds inp) MAX_VALIDITY_PERIOD_SECONDS < s" for s
    by (simp_all add: over_limit_iff MAX_IAT_TO_NBF_GAP_SECONDS_def MAX_VALIDITY_PERIOD_SECONDS_def)
  show ?thesis
    unfolding tariff_window_check_def window_ok_def Let_def
    by (cases "ti_issued_at inp"; cases "ti_valid_from inp"; cases "ti_valid_until inp")
      (auto simp: res_bind_eq_Inr parse_iso_Inr lim not_less not_le split: if_splits)
qed

lemma classify_conditions:
  "tariff_classify env inp category = Inr () \<longleftrightarrow>
     envelope_ok inp \<and> tariff_signed env inp \<and> \<not> signer_revoked (ti_context inp) \<and>
     payload_encoding_ok (ti_context inp) \<and> classifier_bound env inp \<and> version_newer inp \<and>
     window_ok env inp \<and> label_ok (ti_context inp) category"
proof -
  have disp: "dispatch_by_category category = Inr () \<longleftrightarrow> category \<notin> fst ` set dispatch_table"
    by (simp add: dispatch_by_category_def map_of_eq_None_iff [symmetric] split: option.split)
  have opce: "''redteam-OPCE-stale-tariff-replay'' \<in> fst ` set dispatch_table"
    by (simp add: dispatch_table_def)
  show ?thesis
    unfolding tariff_classify_def res_bind_unit if_Inl_Inr envelope_step signature_step keys_step classifier_step
      version_step window_step disp label_ok_def
    using opce by blast
qed

text \<open>C10: a Tariff is accepted exactly when its envelope is sound, it is signed under the Tariff role (live
  verification when bytes and anchors are given, and never with only one of them), its signer is not revoked,
  its payload is deterministic CBOR without duplicates, the classifier it names is bound to its bytes by a
  classifier-signing anchor, its version is newer than the last seen, its window holds, and the label of the
  vector asks for no rejection.\<close>

theorem tariff_accept_iff:
  "tariff_classify env inp category = Inr () \<longleftrightarrow>
     envelope_ok inp \<and> tariff_signed env inp \<and> \<not> signer_revoked (ti_context inp) \<and>
     payload_encoding_ok (ti_context inp) \<and> classifier_bound env inp \<and> version_newer inp \<and>
     window_ok env inp \<and> label_ok (ti_context inp) category"
  by (rule classify_conditions)

text \<open>The category label of a vector, which the pipeline consults in five places and which exempts one
  category from the revocation check, never rescues a Tariff: if any label lets it pass, the empty label
  does.\<close>

theorem label_never_rescues:
  "(\<exists>category. tariff_classify env inp category = Inr ()) \<longleftrightarrow> tariff_classify env inp [] = Inr ()"
proof -
  have "label_ok ctx []" for ctx
    by (simp add: label_ok_def dispatch_table_def malformed_categories_def)
  then show ?thesis unfolding classify_conditions by blast
qed

text \<open>The start of the validity window is never compared with the clock; without an issue time it is not
  even parsed.\<close>

theorem valid_from_unchecked:
  assumes "ti_issued_at inp = None"
  shows "tariff_classify env (inp\<lparr>ti_valid_from := f\<rparr>) category = tariff_classify env inp category"
  using assms
  by (simp add: tariff_classify_def tariff_envelope_checks_def tariff_signature_check_def tariff_key_checks_def
      tariff_classifier_check_def tariff_version_check_def tariff_window_check_def cong: option.case_cong)

end
