(* ===== verification/Nitro.thy ===== *)
theory Nitro
  imports Merkle
begin

text \<open>
  The crate \<open>ephemeral-attestation\<close>, AWS Nitro part: \<open>error.rs\<close>, \<open>size_guard.rs\<close>, \<open>anchors.rs\<close>,
  \<open>cert.rs\<close>, \<open>cose_bridge.rs\<close>, \<open>pcr.rs\<close> and \<open>nitro.rs\<close>.  The libraries it calls are the fields of
  \<open>nitro_env\<close>: \<open>ciborium\<close> (reader and writer), \<open>x509_parser\<close>, the key and signature decoders and the
  verification of \<open>p384::ecdsa\<close>, and SHA-256.  Writing CBOR to a \<open>Vec\<close> does not fail.
\<close>

section \<open>Error surface (error.rs)\<close>

datatype attest_error =
    AtMalformedDoc
  | AtPayloadTooLarge nat nat
  | AtCborDepthExceeded nat
  | AtUnsupportedAlg int
  | AtCaChainInvalid nat
  | AtCaChainTooLong nat nat
  | AtUntrustedRoot string
  | AtCertExpired int int
  | AtCertNotYetValid int int
  | AtSignatureInvalid
  | AtNonceMismatch
  | AtPcrIndexOutOfRange nat
  | AtDuplicatePcrId nat
  | AtPcrMismatch nat string string
  | AtWeakHashAlg string
  | AtRekor rekor_error

section \<open>The libraries\<close>

text \<open>What the crate reads of a certificate parsed by \<open>x509_parser\<close>.\<close>

record x509_view =
  xv_not_before :: int
  xv_not_after :: int
  xv_sig_alg_oid :: string
  xv_spki_der :: string
  xv_tbs_der :: string
  xv_sig_bytes :: string

record ('vk, 'sig) nitro_env =
  ne_parse :: "string \<Rightarrow> cbor_value option"
  ne_write :: "cbor_value \<Rightarrow> string"
  ne_x509 :: "string \<Rightarrow> x509_view option"
  ne_spki_key :: "string \<Rightarrow> 'vk option"
  ne_sec1_key :: "string \<Rightarrow> 'vk option"
  ne_der_sig :: "string \<Rightarrow> 'sig option"
  ne_raw_sig :: "string \<Rightarrow> 'sig option"
  ne_p384_verify :: "'vk \<Rightarrow> string \<Rightarrow> 'sig \<Rightarrow> bool"
  ne_sha256 :: "string \<Rightarrow> string"

section \<open>Size and depth guard (size\_guard.rs)\<close>

definition MAX_NITRO_DOC_BYTES :: nat where "MAX_NITRO_DOC_BYTES = 131072"

definition NITRO_MAX_CBOR_DEPTH :: nat where "NITRO_MAX_CBOR_DEPTH = 8"

definition MAX_CA_CHAIN_DEPTH :: nat where "MAX_CA_CHAIN_DEPTH = 4"

definition MAX_PCR_COUNT :: nat where "MAX_PCR_COUNT = 24"

definition nitro_size_depth_check :: "('vk, 'sig) nitro_env \<Rightarrow> string \<Rightarrow> attest_error + unit" where
  "nitro_size_depth_check env bytes =
     (if length bytes > MAX_NITRO_DOC_BYTES then Inl (AtPayloadTooLarge (length bytes) MAX_NITRO_DOC_BYTES)
      else
        (case ne_parse env bytes of
           None \<Rightarrow> Inl AtMalformedDoc
         | Some value \<Rightarrow>
             if cbor_depth value 1 > NITRO_MAX_CBOR_DEPTH then Inl (AtCborDepthExceeded NITRO_MAX_CBOR_DEPTH)
             else Inr ()))"

section \<open>Pinned roots (anchors.rs)\<close>

definition AWS_NITRO_ROOT_FINGERPRINT :: string where
  "AWS_NITRO_ROOT_FINGERPRINT = map char_of
     [0x64, 0x1A, 0x03, 0x21, 0xA3, 0xE2, 0x44, 0xEF, 0xE4, 0x56, 0x46, 0x31, 0x95, 0xD6, 0x06, 0x31,
      0x7E, 0xD7, 0xCD, 0xCC, 0x3C, 0x17, 0x56, 0xE0, 0x98, 0x93, 0xF3, 0xC6, 0x8F, 0x79, 0xBB, (0x5B::nat)]"

definition ALLOWED_FINGERPRINTS :: "string list" where
  "ALLOWED_FINGERPRINTS = [AWS_NITRO_ROOT_FINGERPRINT]"

record root_entry =
  re_fingerprint :: string
  re_der :: string

type_synonym nitro_root_set = "root_entry list"

definition insert_trusted_der_for_test ::
  "('vk, 'sig) nitro_env \<Rightarrow> nitro_root_set \<Rightarrow> string \<Rightarrow> (attest_error + unit) \<times> nitro_root_set" where
  "insert_trusted_der_for_test env roots root_der =
     (let fingerprint = ne_sha256 env root_der in
      if list_ex (\<lambda>r. re_fingerprint r = fingerprint) roots then (Inr (), roots)
      else (Inr (), roots @ [\<lparr>re_fingerprint = fingerprint, re_der = root_der\<rparr>]))"

definition insert_trusted_der ::
  "('vk, 'sig) nitro_env \<Rightarrow> nitro_root_set \<Rightarrow> string \<Rightarrow> (attest_error + unit) \<times> nitro_root_set" where
  "insert_trusted_der env roots root_der =
     (let fingerprint = ne_sha256 env root_der in
      if fingerprint \<notin> set ALLOWED_FINGERPRINTS then (Inl (AtUntrustedRoot fingerprint), roots)
      else if list_ex (\<lambda>r. re_fingerprint r = fingerprint) roots then (Inr (), roots)
      else (Inr (), roots @ [\<lparr>re_fingerprint = fingerprint, re_der = root_der\<rparr>]))"

definition find_by_fingerprint :: "nitro_root_set \<Rightarrow> string \<Rightarrow> string option" where
  "find_by_fingerprint roots fp = map_option re_der (List.find (\<lambda>r. re_fingerprint r = fp) roots)"

section \<open>Certificates (cert.rs)\<close>

definition WEAK_SIG_ALGS :: "string list" where
  "WEAK_SIG_ALGS = [''1.2.840.113549.1.1.5'', ''1.2.840.113549.1.1.4'', ''1.2.840.10045.4.1'']"

record cert_owned =
  co_der :: string
  co_not_before :: int
  co_not_after :: int
  co_sig_alg_oid :: string
  co_spki_der :: string
  co_tbs_der :: string
  co_sig_bytes :: string

definition decode_cert :: "('vk, 'sig) nitro_env \<Rightarrow> string \<Rightarrow> nat \<Rightarrow> attest_error + cert_owned" where
  "decode_cert env der index =
     (case ne_x509 env der of
        None \<Rightarrow> Inl (AtCaChainInvalid index)
      | Some cert \<Rightarrow>
          Inr \<lparr>co_der = der, co_not_before = xv_not_before cert, co_not_after = xv_not_after cert,
               co_sig_alg_oid = xv_sig_alg_oid cert, co_spki_der = xv_spki_der cert,
               co_tbs_der = xv_tbs_der cert, co_sig_bytes = xv_sig_bytes cert\<rparr>)"

definition check_validity :: "cert_owned \<Rightarrow> int \<Rightarrow> attest_error + unit" where
  "check_validity cert now =
     (if now < co_not_before cert then Inl (AtCertNotYetValid now (co_not_before cert))
      else if now > co_not_after cert then Inl (AtCertExpired now (co_not_after cert))
      else Inr ())"

definition weak_alg_name :: "string \<Rightarrow> string" where
  "weak_alg_name oid =
     (if oid = ''1.2.840.113549.1.1.5'' then ''sha1WithRSAEncryption''
      else if oid = ''1.2.840.113549.1.1.4'' then ''md5WithRSAEncryption''
      else if oid = ''1.2.840.10045.4.1'' then ''ecdsa-with-SHA1''
      else ''weak-hash-alg'')"

definition check_sig_alg :: "cert_owned \<Rightarrow> attest_error + unit" where
  "check_sig_alg cert =
     check_each (\<lambda>weak. fail_if (co_sig_alg_oid cert = weak) (AtWeakHashAlg (weak_alg_name (co_sig_alg_oid cert))))
       WEAK_SIG_ALGS"

definition spki_to_p384_key :: "('vk, 'sig) nitro_env \<Rightarrow> string \<Rightarrow> nat \<Rightarrow> attest_error + 'vk" where
  "spki_to_p384_key env spki_der index =
     (case ne_spki_key env spki_der of
        Some vk \<Rightarrow> Inr vk
      | None \<Rightarrow>
          (case ne_sec1_key env spki_der of Some vk \<Rightarrow> Inr vk | None \<Rightarrow> Inl (AtCaChainInvalid index)))"

definition verify_cert_signature ::
  "('vk, 'sig) nitro_env \<Rightarrow> cert_owned \<Rightarrow> cert_owned \<Rightarrow> nat \<Rightarrow> attest_error + unit" where
  "verify_cert_signature env child parent index =
     res_bind (spki_to_p384_key env (co_spki_der parent) index) (\<lambda>parent_vk.
     case ne_der_sig env (co_sig_bytes child) of
       None \<Rightarrow> Inl (AtCaChainInvalid index)
     | Some sig \<Rightarrow>
         if ne_p384_verify env parent_vk (co_tbs_der child) sig then Inr () else Inl (AtCaChainInvalid index))"

definition verify_leaf_against_roots ::
  "('vk, 'sig) nitro_env \<Rightarrow> cert_owned \<Rightarrow> nitro_root_set \<Rightarrow> attest_error + unit" where
  "verify_leaf_against_roots env cert roots =
     (let fp = ne_sha256 env (co_der cert) in
      if find_by_fingerprint roots fp \<noteq> None then Inr () else Inl (AtUntrustedRoot fp))"

definition extract_leaf_key :: "('vk, 'sig) nitro_env \<Rightarrow> cert_owned \<Rightarrow> attest_error + 'vk" where
  "extract_leaf_key env leaf = spki_to_p384_key env (co_spki_der leaf) 0"

text \<open>The loop over the links, \<open>i\<close> counting from the leaf.\<close>

fun verify_links :: "('vk, 'sig) nitro_env \<Rightarrow> int \<Rightarrow> nat \<Rightarrow> cert_owned list \<Rightarrow> attest_error + unit" where
  "verify_links env now i (child # parent # rest) =
     res_bind (check_validity parent now) (\<lambda>_.
     res_bind (check_sig_alg parent) (\<lambda>_.
     res_bind (verify_cert_signature env child parent i) (\<lambda>_.
     verify_links env now (i + 1) (parent # rest))))"
| "verify_links env now i _ = Inr ()"

definition verify_chain ::
  "('vk, 'sig) nitro_env \<Rightarrow> string list \<Rightarrow> nitro_root_set \<Rightarrow> int \<Rightarrow> attest_error + 'vk" where
  "verify_chain env chain_der roots now =
     (if chain_der = [] then Inl AtMalformedDoc
      else if length chain_der > MAX_CA_CHAIN_DEPTH
      then Inl (AtCaChainTooLong (length chain_der) MAX_CA_CHAIN_DEPTH)
      else
        res_bind (res_map (\<lambda>(i, der). decode_cert env der i) (enumerate 0 chain_der)) (\<lambda>certs.
        let leaf = certs ! 0 in
        res_bind (check_validity leaf now) (\<lambda>_.
        res_bind (check_sig_alg leaf) (\<lambda>_.
        if length certs = 1 then
          res_bind (verify_leaf_against_roots env leaf roots) (\<lambda>_. extract_leaf_key env leaf)
        else
          res_bind (verify_links env now 0 certs) (\<lambda>_.
          res_bind (verify_leaf_against_roots env (certs ! (length certs - 1)) roots) (\<lambda>_.
          extract_leaf_key env leaf))))))"

section \<open>COSE\_Sign1 with ES384 (cose\_bridge.rs)\<close>

definition COSE_ALG_ES384 :: int where "COSE_ALG_ES384 = - 35"

text \<open>The array of an envelope, bare or under tag 18.\<close>

fun cose_array :: "cbor_value \<Rightarrow> attest_error + cbor_value list" where
  "cose_array (CTag t inner) =
     (if t = 18 then (case inner of CArray a \<Rightarrow> Inr a | _ \<Rightarrow> Inl AtMalformedDoc) else Inl AtMalformedDoc)"
| "cose_array (CArray a) = Inr a"
| "cose_array _ = Inl AtMalformedDoc"

fun as_bstr :: "cbor_value \<Rightarrow> attest_error + string" where
  "as_bstr (CBytes b) = Inr b"
| "as_bstr _ = Inl AtMalformedDoc"

fun as_payload :: "cbor_value \<Rightarrow> attest_error + string" where
  "as_payload (CBytes b) = Inr b"
| "as_payload CNull = Inr []"
| "as_payload _ = Inl AtMalformedDoc"

definition parse_cbor :: "('vk, 'sig) nitro_env \<Rightarrow> string \<Rightarrow> attest_error + cbor_value" where
  "parse_cbor env bytes = (case ne_parse env bytes of None \<Rightarrow> Inl AtMalformedDoc | Some v \<Rightarrow> Inr v)"

text \<open>The loop over the header; \<open>i64::try_from(k).unwrap_or(i64::MAX)\<close> is 1 only for the label 1.\<close>

fun alg_of_pairs :: "(cbor_value \<times> cbor_value) list \<Rightarrow> attest_error + int" where
  "alg_of_pairs [] = Inl AtMalformedDoc"
| "alg_of_pairs ((k, v) # pairs) =
     (case k of
        CInteger ki \<Rightarrow>
          if (if in_i64 ki then ki else i64_max) = 1 then
            (case v of
               CInteger alg_val \<Rightarrow> if in_i64 alg_val then Inr alg_val else Inl (AtUnsupportedAlg i64_min)
             | _ \<Rightarrow> Inl AtMalformedDoc)
          else alg_of_pairs pairs
      | _ \<Rightarrow> alg_of_pairs pairs)"

definition extract_alg :: "('vk, 'sig) nitro_env \<Rightarrow> string \<Rightarrow> attest_error + int" where
  "extract_alg env protected_bstr =
     (if protected_bstr = [] then Inl AtMalformedDoc
      else
        res_bind (parse_cbor env protected_bstr) (\<lambda>header.
        case header of CMap pairs \<Rightarrow> alg_of_pairs pairs | _ \<Rightarrow> Inl AtMalformedDoc))"

definition build_sig_structure :: "('vk, 'sig) nitro_env \<Rightarrow> string \<Rightarrow> string \<Rightarrow> string \<Rightarrow> string" where
  "build_sig_structure env protected_bstr aad payload =
     ne_write env (CArray [CText ''Signature1'', CBytes protected_bstr, CBytes aad, CBytes payload])"

definition verify_cose_sign1_es384 ::
  "('vk, 'sig) nitro_env \<Rightarrow> string \<Rightarrow> 'vk \<Rightarrow> string \<Rightarrow> attest_error + string" where
  "verify_cose_sign1_es384 env cose_bytes verifying_key expected_aad =
     res_bind (parse_cbor env cose_bytes) (\<lambda>top.
     res_bind (cose_array top) (\<lambda>array.
     if length array \<noteq> 4 then Inl AtMalformedDoc
     else
       res_bind (as_bstr (array ! 0)) (\<lambda>protected_bstr.
       res_bind (as_payload (array ! 2)) (\<lambda>payload_bytes.
       res_bind (as_bstr (array ! 3)) (\<lambda>sig_bytes.
       res_bind (extract_alg env protected_bstr) (\<lambda>alg.
       if alg \<noteq> COSE_ALG_ES384 then Inl (AtUnsupportedAlg alg)
       else
         (case ne_raw_sig env sig_bytes of
            None \<Rightarrow> Inl AtSignatureInvalid
          | Some sig \<Rightarrow>
              if ne_p384_verify env verifying_key (build_sig_structure env protected_bstr expected_aad payload_bytes) sig
              then Inr payload_bytes
              else Inl AtSignatureInvalid)))))))"

section \<open>The document (nitro.rs)\<close>

record nitro_claims =
  nc_module_id :: string
  nc_digest :: string
  nc_timestamp :: int
  nc_pcrs :: "(nat \<times> string) list"
  nc_certificate :: string
  nc_cabundle :: "string list"
  nc_public_key :: "string option"
  nc_user_data :: "string option"
  nc_nonce :: "string option"

definition extract_cose_payload :: "('vk, 'sig) nitro_env \<Rightarrow> string \<Rightarrow> attest_error + string" where
  "extract_cose_payload env cose_bytes =
     res_bind (parse_cbor env cose_bytes) (\<lambda>top.
     res_bind (cose_array top) (\<lambda>array.
     if length array \<noteq> 4 then Inl AtMalformedDoc else as_payload (array ! 2)))"

text \<open>One pair of the \<open>pcrs\<close> map: a negative index becomes 255, one above 255 is dropped.\<close>

fun push_pcr :: "cbor_value \<times> cbor_value \<Rightarrow> (nat \<times> string) list \<Rightarrow> (nat \<times> string) list" where
  "push_pcr (CInteger id_int, CBytes hash) pcrs =
     (let u = (if 0 \<le> id_int \<and> id_int \<le> int u64_max then nat id_int else 255) in
      if u \<le> 255 then pcrs @ [(u, hash)] else pcrs)"
| "push_pcr _ pcrs = pcrs"

fun push_cert :: "cbor_value \<Rightarrow> string list \<Rightarrow> string list" where
  "push_cert (CBytes b) bundle = bundle @ [b]"
| "push_cert _ bundle = bundle"

definition claim_field :: "string \<Rightarrow> cbor_value \<Rightarrow> nitro_claims \<Rightarrow> attest_error + nitro_claims" where
  "claim_field key v c =
     (if key = ''module_id'' then (case v of CText s \<Rightarrow> Inr (c\<lparr>nc_module_id := s\<rparr>) | _ \<Rightarrow> Inr c)
      else if key = ''digest'' then (case v of CText s \<Rightarrow> Inr (c\<lparr>nc_digest := s\<rparr>) | _ \<Rightarrow> Inr c)
      else if key = ''timestamp'' then
        (case v of
           CInteger i \<Rightarrow>
             if \<not> in_i64 i then Inl AtMalformedDoc
             else if \<not> (0 \<le> i \<and> i < 4102444800) then Inl AtMalformedDoc
             else Inr (c\<lparr>nc_timestamp := i\<rparr>)
         | _ \<Rightarrow> Inr c)
      else if key = ''pcrs'' then
        (case v of CMap pcr_pairs \<Rightarrow> Inr (c\<lparr>nc_pcrs := fold push_pcr pcr_pairs (nc_pcrs c)\<rparr>) | _ \<Rightarrow> Inr c)
      else if key = ''certificate'' then (case v of CBytes b \<Rightarrow> Inr (c\<lparr>nc_certificate := b\<rparr>) | _ \<Rightarrow> Inr c)
      else if key = ''cabundle'' then
        (case v of CArray arr \<Rightarrow> Inr (c\<lparr>nc_cabundle := fold push_cert arr (nc_cabundle c)\<rparr>) | _ \<Rightarrow> Inr c)
      else if key = ''public_key'' then (case v of CBytes b \<Rightarrow> Inr (c\<lparr>nc_public_key := Some b\<rparr>) | _ \<Rightarrow> Inr c)
      else if key = ''user_data'' then (case v of CBytes b \<Rightarrow> Inr (c\<lparr>nc_user_data := Some b\<rparr>) | _ \<Rightarrow> Inr c)
      else if key = ''nonce'' then (case v of CBytes b \<Rightarrow> Inr (c\<lparr>nc_nonce := Some b\<rparr>) | _ \<Rightarrow> Inr c)
      else Inr c)"

fun claim_pairs :: "(cbor_value \<times> cbor_value) list \<Rightarrow> nitro_claims \<Rightarrow> attest_error + nitro_claims" where
  "claim_pairs [] c = Inr c"
| "claim_pairs ((k, v) # pairs) c =
     (case k of CText key \<Rightarrow> res_bind (claim_field key v c) (claim_pairs pairs) | _ \<Rightarrow> claim_pairs pairs c)"

definition empty_claims :: nitro_claims where
  "empty_claims = \<lparr>nc_module_id = [], nc_digest = [], nc_timestamp = 0, nc_pcrs = [], nc_certificate = [],
     nc_cabundle = [], nc_public_key = None, nc_user_data = None, nc_nonce = None\<rparr>"

definition parse_claims_cbor :: "('vk, 'sig) nitro_env \<Rightarrow> string \<Rightarrow> attest_error + nitro_claims" where
  "parse_claims_cbor env payload =
     res_bind (parse_cbor env payload) (\<lambda>value.
     case value of CMap pairs \<Rightarrow> claim_pairs pairs empty_claims | _ \<Rightarrow> Inl AtMalformedDoc)"

definition verify_nitro_attestation ::
  "('vk, 'sig) nitro_env \<Rightarrow> string \<Rightarrow> nitro_root_set \<Rightarrow> string option \<Rightarrow> int \<Rightarrow> attest_error + nitro_claims" where
  "verify_nitro_attestation env doc roots expected_nonce current_time =
     res_bind (nitro_size_depth_check env doc) (\<lambda>_.
     res_bind (extract_cose_payload env doc) (\<lambda>payload_bytes.
     res_bind (parse_claims_cbor env payload_bytes) (\<lambda>proto.
     res_bind (verify_chain env (nc_certificate proto # nc_cabundle proto) roots current_time) (\<lambda>leaf_vk.
     res_bind (verify_cose_sign1_es384 env doc leaf_vk []) (\<lambda>_.
     case expected_nonce of
       None \<Rightarrow> Inr proto
     | Some expected \<Rightarrow>
         (case nc_nonce proto of
            None \<Rightarrow> Inl AtNonceMismatch
          | Some actual \<Rightarrow> if actual \<noteq> expected then Inl AtNonceMismatch else Inr proto))))))"

section \<open>PCR sets (pcr.rs)\<close>

fun check_no_duplicates :: "(nat \<times> string) list \<Rightarrow> attest_error + unit" where
  "check_no_duplicates [] = Inr ()"
| "check_no_duplicates (p # ps) =
     res_bind (check_each (\<lambda>q. fail_if (fst p = fst q) (AtDuplicatePcrId (fst p))) ps) (\<lambda>_. check_no_duplicates ps)"

definition find_pcr :: "(nat \<times> string) list \<Rightarrow> nat \<Rightarrow> string option" where
  "find_pcr pcrs i = map_option snd (List.find (\<lambda>p. fst p = i) pcrs)"

definition hash_to_32 :: "string \<Rightarrow> string" where
  "hash_to_32 bytes = take 32 bytes @ replicate (32 - length bytes) (char_of (0 :: nat))"

definition verify_pcr_set :: "nitro_claims \<Rightarrow> (nat \<times> string) list \<Rightarrow> attest_error + unit" where
  "verify_pcr_set claims expected =
     res_bind (check_no_duplicates (nc_pcrs claims)) (\<lambda>_.
     res_bind (check_each (\<lambda>(i, _). fail_if (i \<ge> MAX_PCR_COUNT) (AtPcrIndexOutOfRange i)) expected) (\<lambda>_.
     check_each
       (\<lambda>(i, expected_hash).
          case find_pcr (nc_pcrs claims) i of
            None \<Rightarrow> Inl (AtPcrMismatch i (hash_to_32 expected_hash) (replicate 32 (char_of (0 :: nat))))
          | Some actual_hash \<Rightarrow>
              fail_if (expected_hash \<noteq> actual_hash)
                (AtPcrMismatch i (hash_to_32 expected_hash) (hash_to_32 actual_hash)))
       expected))"

end
