(* ===== verification/Pcr.thy ===== *)
theory Pcr
  imports Vectors Sth Nitro Json
begin

text \<open>
  \<open>ephemeral-core/src/suites/pcr.rs\<close>: the measured-enclave attestation suite, with its live Rekor and
  live Nitro paths.  A sub-classifier that returns \<open>Option<PcrRejectCode>\<close> is a \<open>pcr_code + unit\<close> here,
  \<open>Inl\<close> for \<open>Some\<close>, so that the early returns of the pipeline are \<open>res_bind\<close>.  A \<open>HashMap\<close> is an
  association list: nothing the code answers depends on its order.  \<open>serde_json::from_value\<close>, the
  libraries of the attestation crate and the \<open>test-fixtures\<close> feature are fields of \<open>pcr_env\<close>.  Fields the
  code never reads are left out, and a struct of which one field is read is that field.
\<close>

section \<open>Constants and codes\<close>

definition DEFAULT_MAX_ROOT_AGE_SECONDS :: nat where "DEFAULT_MAX_ROOT_AGE_SECONDS = 86400"

definition PCR_CLOCK_SKEW_TOLERANCE_SECONDS :: int where "PCR_CLOCK_SKEW_TOLERANCE_SECONDS = 300"

definition PCR_INDEX_MAX :: nat where "PCR_INDEX_MAX = 23"

definition MAX_TRUSTED_ROOTS :: nat where "MAX_TRUSTED_ROOTS = 8"

definition MAX_STH_AGE_SECONDS :: nat where "MAX_STH_AGE_SECONDS = 86400"

datatype pcr_code =
    PcrBundleTooLarge
  | PcrBundleMalformed
  | TariffPcrQuorumInvalid
  | PcrAttestorNotTrusted
  | PcrAttestorRevoked
  | PcrAttestorNotYetValid
  | PcrAttestorSignatureInvalid
  | PcrAttestorDuplicate
  | PcrAttestationQuorumShort
  | PcrAttestationMismatch
  | PcrExpectedMismatch
  | PcrAttestationTransparencyMissing
  | PcrAttestationTransparencyInvalid
  | PcrAttestationTransparencyStale
  | PcrAttestationTransparencyLogUnknown
  | PcrAttestationTransparencyNotYetLogged
  | PcrAttestationWitnessCosignatureMissing
  | PcrAttestationExpired
  | PcrAttestationFutureDated
  | PcrAttestationPredatesTariff
  | PcrAttestationNonceReuse
  | PcrAttestationNonceMismatch
  | PcrAttestationCertExpired
  | PcrAttestationCertChainInvalid
  | PcrAttestationUnsupportedCoseAlg

fun pcr_code_display :: "pcr_code \<Rightarrow> string" where
  "pcr_code_display PcrBundleTooLarge = ''pcr-bundle-too-large''"
| "pcr_code_display PcrBundleMalformed = ''pcr-bundle-malformed''"
| "pcr_code_display TariffPcrQuorumInvalid = ''tariff-pcr-quorum-invalid''"
| "pcr_code_display PcrAttestorNotTrusted = ''pcr-attestor-not-trusted''"
| "pcr_code_display PcrAttestorRevoked = ''pcr-attestor-revoked''"
| "pcr_code_display PcrAttestorNotYetValid = ''pcr-attestor-not-yet-valid''"
| "pcr_code_display PcrAttestorSignatureInvalid = ''pcr-attestor-signature-invalid''"
| "pcr_code_display PcrAttestorDuplicate = ''pcr-attestor-duplicate''"
| "pcr_code_display PcrAttestationQuorumShort = ''pcr-attestation-quorum-short''"
| "pcr_code_display PcrAttestationMismatch = ''pcr-attestation-mismatch''"
| "pcr_code_display PcrExpectedMismatch = ''pcr-expected-mismatch''"
| "pcr_code_display PcrAttestationTransparencyMissing = ''pcr-attestation-transparency-missing''"
| "pcr_code_display PcrAttestationTransparencyInvalid = ''pcr-attestation-transparency-invalid''"
| "pcr_code_display PcrAttestationTransparencyStale = ''pcr-attestation-transparency-stale''"
| "pcr_code_display PcrAttestationTransparencyLogUnknown = ''pcr-attestation-transparency-log-unknown''"
| "pcr_code_display PcrAttestationTransparencyNotYetLogged = ''pcr-attestation-transparency-not-yet-logged''"
| "pcr_code_display PcrAttestationWitnessCosignatureMissing = ''pcr-attestation-witness-cosignature-missing''"
| "pcr_code_display PcrAttestationExpired = ''pcr-attestation-expired''"
| "pcr_code_display PcrAttestationFutureDated = ''pcr-attestation-future-dated''"
| "pcr_code_display PcrAttestationPredatesTariff = ''pcr-attestation-predates-tariff''"
| "pcr_code_display PcrAttestationNonceReuse = ''pcr-attestation-nonce-reuse''"
| "pcr_code_display PcrAttestationNonceMismatch = ''pcr-attestation-nonce-mismatch''"
| "pcr_code_display PcrAttestationCertExpired = ''pcr-attestation-cert-expired''"
| "pcr_code_display PcrAttestationCertChainInvalid = ''pcr-attestation-cert-chain-invalid''"
| "pcr_code_display PcrAttestationUnsupportedCoseAlg = ''pcr-attestation-unsupported-cose-alg''"

section \<open>Input\<close>

type_synonym string_map = "(string \<times> string) list"

record pcr_requirement =
  pq_attestors :: "string list"
  pq_quorum :: nat
  pq_expected_pcrs :: "string_map option"
  pq_attestor_not_before :: "(string \<times> int) list option"
  pq_max_root_age_seconds :: "nat option"
  pq_trusted_logs :: "string list option"
  pq_strict_mode :: "bool option"
  pq_max_age_seconds :: "nat option"
  pq_bundle_max_size_bytes :: "nat option"
  pq_required_witnesses :: "nat option"
  pq_issued_at :: "int option"

record attestation =
  pa_attestor_id :: "string option"
  pa_pcrs :: string_map
  pa_iat :: "int option"
  pa_nonce :: "string option"
  pa_signature_valid :: bool
  pa_attestor_comment :: "string option"

record transparency_proof =
  tp_log_id :: string
  tp_inclusion_proof_valid :: "bool option"
  tp_inclusion_proof :: "json option"
  tp_root_age_seconds :: "nat option"
  tp_entry_index :: "nat option"
  tp_sth_tree_size :: "nat option"
  tp_witness_cosignatures :: "json list option"
  tp_proof_path_hex :: "string list option"
  tp_sth_signature_hex :: "string option"
  tp_sth_timestamp :: "int option"
  tp_sth_tree_root_hex :: "string option"
  tp_log_pubkey_hex :: "string option"
  tp_entry_leaf_hash_hex :: "string option"
  tp_current_time :: "int option"
  tp_log_id_hex :: "string option"
  tp_log_key_valid_from :: "int option"
  tp_log_key_valid_until :: "int option"
  tp_max_root_age_override :: "nat option"

record attestation_bundle =
  pb_attestations :: "attestation list"
  pb_transparency_log_proof :: "transparency_proof option"

record pcr_input =
  pi_requirement :: pcr_requirement
  pi_bundle :: "attestation_bundle option"
  pi_bundle_raw_hex :: "string option"
  pi_declared_size_bytes :: "nat option"
  pi_current_time :: int
  pi_router_nonce_issued :: string
  pi_router_nonce_consumed :: "string list option"
  pi_revoked_attestors :: "string list option"

record live_nitro_input =
  ln_cose_sign1_bytes :: string
  ln_trusted_roots_der_hex :: "string list"
  ln_expected_nonce_hex :: "string option"
  ln_expected_pcrs :: string_map
  ln_current_time :: int

record ('pk, 'sig, 'vk, 'nsig) pcr_env =
  pe_rekor :: "('pk, 'sig) rekor_env"
  pe_nitro :: "('vk, 'nsig) nitro_env"
  pe_test_fixtures :: bool
  pe_input :: "json \<Rightarrow> string + pcr_input"
  pe_live_input :: "json \<Rightarrow> string + live_nitro_input"

section \<open>Sub-classifiers\<close>

text \<open>\<open>str::parse\<close> for an unsigned type: an optional plus sign, then at least one digit, no overflow.\<close>

definition parse_unsigned :: "nat \<Rightarrow> string \<Rightarrow> nat option" where
  "parse_unsigned mx s =
     (let ds = (case s of c # r \<Rightarrow> if c = CHR ''+'' then r else s | [] \<Rightarrow> s) in
      if ds = [] \<or> \<not> list_all is_digit ds then None
      else if read_nat ds \<le> mx then Some (read_nat ds) else None)"

definition strip_pcr :: "string \<Rightarrow> string option" where
  "strip_pcr key = (if take 3 key = ''PCR'' then Some (drop 3 key) else None)"

definition pcr_index_valid :: "string \<Rightarrow> bool" where
  "pcr_index_valid key \<longleftrightarrow>
     (case strip_pcr key of
        None \<Rightarrow> False
      | Some num \<Rightarrow> (case parse_unsigned u32_max num of Some n \<Rightarrow> n \<le> PCR_INDEX_MAX | None \<Rightarrow> False))"

definition classify_tariff_defects :: "pcr_requirement \<Rightarrow> pcr_code + unit" where
  "classify_tariff_defects req =
     res_bind (fail_if (pq_quorum req = 0) TariffPcrQuorumInvalid) (\<lambda>_.
     res_bind (fail_if (pq_quorum req = 1 \<and> length (pq_attestors req) \<ge> 3) TariffPcrQuorumInvalid) (\<lambda>_.
     fail_if (pq_expected_pcrs req = None) TariffPcrQuorumInvalid))"

definition classify_bundle_structural :: "attestation_bundle \<Rightarrow> pcr_requirement \<Rightarrow> pcr_code + unit" where
  "classify_bundle_structural bundle req =
     (let strict = (case pq_strict_mode req of Some b \<Rightarrow> b | None \<Rightarrow> False) in
      check_each (\<lambda>att.
        res_bind (fail_if (pa_attestor_id att = None) PcrBundleMalformed) (\<lambda>_.
        res_bind (fail_if (pa_iat att = None) PcrBundleMalformed) (\<lambda>_.
        res_bind (fail_if (strict \<and> pa_attestor_comment att \<noteq> None) PcrBundleMalformed) (\<lambda>_.
        check_each (\<lambda>index. fail_if (\<not> pcr_index_valid index) PcrBundleMalformed) (map fst (pa_pcrs att))))))
        (pb_attestations bundle))"

fun duplicate_loop :: "string set \<Rightarrow> attestation list \<Rightarrow> pcr_code + unit" where
  "duplicate_loop seen [] = Inr ()"
| "duplicate_loop seen (att # atts) =
     (case pa_attestor_id att of
        Some aid \<Rightarrow> if aid \<in> seen then Inl PcrAttestorDuplicate else duplicate_loop (insert aid seen) atts
      | None \<Rightarrow> duplicate_loop seen atts)"

definition detect_duplicate_attestor :: "attestation_bundle \<Rightarrow> pcr_code + unit" where
  "detect_duplicate_attestor bundle = duplicate_loop {} (pb_attestations bundle)"

definition per_attestor_scans ::
  "attestation_bundle \<Rightarrow> pcr_requirement \<Rightarrow> string list option \<Rightarrow> pcr_code + unit" where
  "per_attestor_scans bundle req revocation_list =
     check_each (\<lambda>att.
       res_bind (fail_if (\<not> pa_signature_valid att) PcrAttestorSignatureInvalid) (\<lambda>_.
       case pa_attestor_id att of
         None \<Rightarrow> Inr ()
       | Some aid \<Rightarrow>
           res_bind
             (case revocation_list of
                Some l \<Rightarrow> fail_if (list_ex (\<lambda>r. r = aid) l) PcrAttestorRevoked
              | None \<Rightarrow> Inr ()) (\<lambda>_.
           case (pq_attestor_not_before req, pa_iat att) of
             (Some windows, Some iat) \<Rightarrow>
               (case map_of windows aid of
                  Some not_before \<Rightarrow> fail_if (iat < not_before) PcrAttestorNotYetValid
                | None \<Rightarrow> Inr ())
           | _ \<Rightarrow> Inr ())))
       (pb_attestations bundle)"

definition sat_add :: "int \<Rightarrow> int \<Rightarrow> int" where
  "sat_add a b = clamp_i64 (a + b)"

definition i64_of_u64 :: "nat \<Rightarrow> int" where
  "i64_of_u64 n = (if int n \<le> i64_max then int n else i64_max)"

definition classify_freshness :: "attestation_bundle \<Rightarrow> pcr_requirement \<Rightarrow> int \<Rightarrow> pcr_code + unit" where
  "classify_freshness bundle req current_time =
     check_each (\<lambda>att.
       case pa_iat att of
         None \<Rightarrow> Inr ()
       | Some iat \<Rightarrow>
           res_bind
             (case pq_max_age_seconds req of
                Some max_age \<Rightarrow> fail_if (sat_sub current_time iat > i64_of_u64 max_age) PcrAttestationExpired
              | None \<Rightarrow> Inr ()) (\<lambda>_.
           res_bind
             (fail_if (iat > sat_add current_time PCR_CLOCK_SKEW_TOLERANCE_SECONDS) PcrAttestationFutureDated) (\<lambda>_.
           case pq_issued_at req of
             Some issued_at \<Rightarrow> fail_if (iat < issued_at) PcrAttestationPredatesTariff
           | None \<Rightarrow> Inr ())))
       (pb_attestations bundle)"

definition classify_nonce :: "attestation_bundle \<Rightarrow> pcr_input \<Rightarrow> pcr_code + unit" where
  "classify_nonce bundle input =
     (let issued = pi_router_nonce_issued input in
      res_bind
        (case pi_router_nonce_consumed input of
           Some consumed \<Rightarrow> fail_if (list_ex (\<lambda>n. n = issued) consumed) PcrAttestationNonceReuse
         | None \<Rightarrow> Inr ()) (\<lambda>_.
      check_each (\<lambda>att.
        case pa_nonce att of
          Some nonce \<Rightarrow> fail_if (nonce \<noteq> issued) PcrAttestationNonceMismatch
        | None \<Rightarrow> Inr ())
        (pb_attestations bundle)))"

definition trusted_attestor :: "pcr_requirement \<Rightarrow> string \<Rightarrow> bool" where
  "trusted_attestor req aid \<longleftrightarrow> list_ex (\<lambda>a. a = aid) (pq_attestors req)"

definition classify_trust_filter :: "attestation_bundle \<Rightarrow> pcr_requirement \<Rightarrow> pcr_code + unit" where
  "classify_trust_filter bundle req =
     check_each (\<lambda>att.
       case pa_attestor_id att of
         None \<Rightarrow> Inr ()
       | Some aid \<Rightarrow> fail_if (\<not> trusted_attestor req aid) PcrAttestorNotTrusted)
       (pb_attestations bundle)"

text \<open>\<open>seen\<close> is a \<open>BTreeSet\<close> of which only the size is used.\<close>

definition count_trusted_valid :: "attestation_bundle \<Rightarrow> pcr_requirement \<Rightarrow> nat" where
  "count_trusted_valid bundle req =
     u32_of_usize (card (foldl (\<lambda>seen att.
       if \<not> pa_signature_valid att then seen
       else
         (case pa_attestor_id att of
            Some aid \<Rightarrow> if trusted_attestor req aid then insert aid seen else seen
          | None \<Rightarrow> seen)) {} (pb_attestations bundle)))"

text \<open>The inner loop for one index: \<open>True\<close> when two counted attestors report different values.\<close>

fun divergent :: "pcr_requirement \<Rightarrow> string \<Rightarrow> string option \<Rightarrow> attestation list \<Rightarrow> bool" where
  "divergent req index value [] \<longleftrightarrow> False"
| "divergent req index value (att # atts) \<longleftrightarrow>
     (if \<not> pa_signature_valid att then divergent req index value atts
      else
        (case pa_attestor_id att of
           None \<Rightarrow> divergent req index value atts
         | Some aid \<Rightarrow>
             if \<not> trusted_attestor req aid then divergent req index value atts
             else
               (case map_of (pa_pcrs att) index of
                  None \<Rightarrow> divergent req index value atts
                | Some v \<Rightarrow>
                    (case value of
                       None \<Rightarrow> divergent req index (Some v) atts
                     | Some prev \<Rightarrow> if prev \<noteq> v then True else divergent req index value atts))))"

definition cross_attestor_mismatch :: "attestation_bundle \<Rightarrow> pcr_requirement \<Rightarrow> bool" where
  "cross_attestor_mismatch bundle req \<longleftrightarrow>
     (case pq_expected_pcrs req of
        None \<Rightarrow> False
      | Some expected \<Rightarrow> list_ex (\<lambda>index. divergent req index None (pb_attestations bundle)) (map fst expected))"

definition counted :: "pcr_requirement \<Rightarrow> attestation \<Rightarrow> bool" where
  "counted req att \<longleftrightarrow>
     pa_signature_valid att \<and> (case pa_attestor_id att of Some aid \<Rightarrow> trusted_attestor req aid | None \<Rightarrow> False)"

definition expected_value_mismatch :: "attestation_bundle \<Rightarrow> pcr_requirement \<Rightarrow> bool" where
  "expected_value_mismatch bundle req \<longleftrightarrow>
     (case pq_expected_pcrs req of
        None \<Rightarrow> False
      | Some expected \<Rightarrow>
          list_ex (\<lambda>(index, want).
            case List.find (\<lambda>att. counted req att \<and> map_of (pa_pcrs att) index \<noteq> None) (pb_attestations bundle) of
              None \<Rightarrow> True
            | Some att \<Rightarrow> (case map_of (pa_pcrs att) index of None \<Rightarrow> True | Some v \<Rightarrow> v \<noteq> want))
            expected)"

section \<open>The live Rekor path\<close>

datatype live_rekor_presence = PresNone | PresPartial | PresFull

definition LIVE_REKOR_PROOF_FIELDS :: "string list" where
  "LIVE_REKOR_PROOF_FIELDS =
     [''proof_path_hex'', ''sth_signature_hex'', ''sth_timestamp'', ''sth_tree_root_hex'', ''log_pubkey_hex'',
      ''entry_leaf_hash_hex'', ''current_time'']"

definition is_live_rekor_proof :: "json \<Rightarrow> bool" where
  "is_live_rekor_proof proof \<longleftrightarrow>
     list_all (\<lambda>field. case json_get proof field of Some v \<Rightarrow> v \<noteq> JNull | None \<Rightarrow> False) LIVE_REKOR_PROOF_FIELDS"

definition live_rekor_presence_of :: "transparency_proof \<Rightarrow> live_rekor_presence" where
  "live_rekor_presence_of proof =
     (let flags = [tp_proof_path_hex proof \<noteq> None, tp_sth_signature_hex proof \<noteq> None, tp_sth_timestamp proof \<noteq> None,
                   tp_sth_tree_root_hex proof \<noteq> None, tp_log_pubkey_hex proof \<noteq> None,
                   tp_entry_leaf_hash_hex proof \<noteq> None, tp_current_time proof \<noteq> None];
          set_flags = length (filter (\<lambda>b. b) flags)
      in if set_flags = 0 then PresNone else if set_flags = length flags then PresFull else PresPartial)"

fun map_attest_error :: "attest_error \<Rightarrow> pcr_code" where
  "map_attest_error AtSignatureInvalid = PcrAttestorSignatureInvalid"
| "map_attest_error AtNonceMismatch = PcrAttestationNonceMismatch"
| "map_attest_error (AtPcrMismatch _ _ _) = PcrAttestationMismatch"
| "map_attest_error (AtCertExpired _ _) = PcrAttestationCertExpired"
| "map_attest_error (AtCertNotYetValid _ _) = PcrAttestationCertExpired"
| "map_attest_error (AtCaChainInvalid _) = PcrAttestationCertChainInvalid"
| "map_attest_error (AtCaChainTooLong _ _) = PcrAttestationCertChainInvalid"
| "map_attest_error (AtUntrustedRoot _) = PcrAttestorNotTrusted"
| "map_attest_error (AtUnsupportedAlg _) = PcrAttestationUnsupportedCoseAlg"
| "map_attest_error (AtRekor (RekorProofInvalid _)) = PcrAttestationTransparencyInvalid"
| "map_attest_error (AtRekor (RekorSthStale _ _)) = PcrAttestationTransparencyStale"
| "map_attest_error (AtRekor (RekorLogUntrusted _)) = PcrAttestationTransparencyLogUnknown"
| "map_attest_error _ = PcrBundleMalformed"

definition decode_hex_var :: "('pk, 'sig, 'vk, 'nsig) pcr_env \<Rightarrow> string \<Rightarrow> pcr_code + string" where
  "decode_hex_var env s = ok_or PcrAttestationTransparencyInvalid (hex_decode (pe_rekor env) s)"

text \<open>\<open>decode_hex_fixed::<32>\<close>, the only width in use.\<close>

definition decode_hex_fixed :: "('pk, 'sig, 'vk, 'nsig) pcr_env \<Rightarrow> string \<Rightarrow> pcr_code + string" where
  "decode_hex_fixed env s =
     res_bind (decode_hex_var env s) (\<lambda>bytes.
     if length bytes = 32 then Inr bytes else Inl PcrAttestationTransparencyInvalid)"

definition witness_check :: "pcr_requirement \<Rightarrow> transparency_proof \<Rightarrow> pcr_code + unit" where
  "witness_check req proof =
     (case pq_required_witnesses req of
        None \<Rightarrow> Inr ()
      | Some required \<Rightarrow>
          if required > 0 then
            fail_if (u32_of_usize (case tp_witness_cosignatures proof of Some ws \<Rightarrow> length ws | None \<Rightarrow> 0) < required)
              PcrAttestationWitnessCosignatureMissing
          else Inr ())"

text \<open>Checks 3 and 4: the log is one of the Tariff's, and its head is fresh enough for it.\<close>

definition live_policy ::
  "('pk, 'sig, 'vk, 'nsig) pcr_env \<Rightarrow> transparency_proof \<Rightarrow> pcr_requirement \<Rightarrow> string \<Rightarrow> int \<Rightarrow> int \<Rightarrow> pcr_code + unit"
  where
  "live_policy env proof req log_id_bytes sth_ts current_time =
     res_bind (ok_or PcrAttestationTransparencyLogUnknown (pq_trusted_logs req)) (\<lambda>trusted.
     let trust_hit = list_ex (\<lambda>t. decode_hex_fixed env t = Inr log_id_bytes) trusted in
     if \<not> trust_hit then Inl PcrAttestationTransparencyLogUnknown
     else
       (let base = (case pq_max_root_age_seconds req of Some a \<Rightarrow> a | None \<Rightarrow> DEFAULT_MAX_ROOT_AGE_SECONDS);
            tariff_max_age = (case tp_max_root_age_override proof of Some a \<Rightarrow> min a base | None \<Rightarrow> base);
            age_secs = sat_sub current_time sth_ts
        in if age_secs < 0 then Inl PcrAttestationTransparencyInvalid
           else fail_if (nat age_secs > tariff_max_age) PcrAttestationTransparencyStale))"

definition classify_live_rekor ::
  "('pk, 'sig, 'vk, 'nsig) pcr_env \<Rightarrow> transparency_proof \<Rightarrow> pcr_requirement \<Rightarrow> pcr_code + unit" where
  "classify_live_rekor env proof req =
     (let invalid = PcrAttestationTransparencyInvalid in
      res_bind (ok_or invalid (tp_proof_path_hex proof)) (\<lambda>proof_path_hex.
      res_bind (ok_or invalid (tp_sth_signature_hex proof)) (\<lambda>sth_sig_hex.
      res_bind (ok_or invalid (tp_sth_timestamp proof)) (\<lambda>sth_ts.
      res_bind (ok_or invalid (tp_sth_tree_root_hex proof)) (\<lambda>sth_tree_root_hex.
      res_bind (ok_or invalid (tp_log_pubkey_hex proof)) (\<lambda>log_pubkey_hex.
      res_bind (ok_or invalid (tp_entry_leaf_hash_hex proof)) (\<lambda>leaf_hash_hex.
      res_bind (ok_or invalid (tp_current_time proof)) (\<lambda>current_time.
      res_bind (ok_or invalid (tp_sth_tree_size proof)) (\<lambda>tree_size.
      res_bind (ok_or invalid (tp_entry_index proof)) (\<lambda>entry_index.
      if length proof_path_hex > MAX_INCLUSION_DEPTH then Inl invalid
      else
      res_bind (decode_hex_fixed env sth_tree_root_hex) (\<lambda>tree_root.
      res_bind (decode_hex_fixed env leaf_hash_hex) (\<lambda>leaf.
      res_bind (decode_hex_fixed env log_pubkey_hex) (\<lambda>pubkey_bytes.
      res_bind (decode_hex_var env sth_sig_hex) (\<lambda>sig_bytes.
      res_bind (decode_hex_fixed env (case tp_log_id_hex proof of Some h \<Rightarrow> h | None \<Rightarrow> tp_log_id proof)) (\<lambda>log_id_bytes.
      res_bind (res_map (decode_hex_fixed env) proof_path_hex) (\<lambda>path.
      res_bind (ok_or invalid (ed_point (pe_rekor env) pubkey_bytes)) (\<lambda>verifying_key.
      res_bind (live_policy env proof req log_id_bytes sth_ts current_time) (\<lambda>_.
      let key_valid_from = (case tp_log_key_valid_from proof of Some t \<Rightarrow> t | None \<Rightarrow> sth_ts);
          key_valid_until = (case tp_log_key_valid_until proof of Some t \<Rightarrow> t | None \<Rightarrow> sth_ts);
          inserted = insert_checked (pe_rekor env) [] log_id_bytes verifying_key key_valid_from key_valid_until
      in
      res_bind (map_err (\<lambda>_. invalid) (fst inserted)) (\<lambda>_.
      let sth = \<lparr>rekor_sth.sth_tree_root = tree_root, sth_tree_size = tree_size, sth_timestamp = sth_ts,
                 sth_log_id = log_id_bytes, sth_signature = sig_bytes\<rparr> in
      res_bind
        (map_err (map_attest_error \<circ> AtRekor)
          (verify_rekor_sth (pe_rekor env) sth (snd inserted) current_time MAX_STH_AGE_SECONDS)) (\<lambda>_.
      let entry = \<lparr>leaf_hash = leaf, proof_path = path, re_index = entry_index, re_tree_size = tree_size\<rparr> in
      res_bind
        (map_err (map_attest_error \<circ> AtRekor)
          (verify_rekor_inclusion (ne_sha256 (pe_nitro env)) entry leaf tree_root)) (\<lambda>_.
      witness_check req proof)))))))))))))))))))))"

section \<open>The transparency log\<close>

text \<open>The checks of a proof that claims its validity with a flag.\<close>

definition claimed_log_check :: "pcr_requirement \<Rightarrow> transparency_proof \<Rightarrow> pcr_code + unit" where
  "claimed_log_check req proof =
    (if tp_inclusion_proof_valid proof = Some False then Inl PcrAttestationTransparencyInvalid
     else
     res_bind
       (case tp_root_age_seconds proof of
          None \<Rightarrow> Inr ()
        | Some age \<Rightarrow>
            let max_age = (case pq_max_root_age_seconds req of Some a \<Rightarrow> a | None \<Rightarrow> DEFAULT_MAX_ROOT_AGE_SECONDS)
            in fail_if (age > max_age) PcrAttestationTransparencyStale) (\<lambda>_.
     case pq_trusted_logs req of
       None \<Rightarrow> Inl PcrAttestationTransparencyLogUnknown
     | Some trusted \<Rightarrow>
     if \<not> list_ex (\<lambda>t. t = tp_log_id proof) trusted then Inl PcrAttestationTransparencyLogUnknown
     else
     res_bind
       (case (tp_entry_index proof, tp_sth_tree_size proof) of
          (Some idx, Some tree_size) \<Rightarrow> fail_if (idx > tree_size) PcrAttestationTransparencyNotYetLogged
        | _ \<Rightarrow> Inr ()) (\<lambda>_.
     witness_check req proof)))"
definition classify_transparency_log ::
  "('pk, 'sig, 'vk, 'nsig) pcr_env \<Rightarrow> attestation_bundle \<Rightarrow> pcr_requirement \<Rightarrow> pcr_code + unit" where
  "classify_transparency_log env bundle req =
     (case pb_transparency_log_proof bundle of
        None \<Rightarrow> Inl PcrAttestationTransparencyMissing
      | Some proof \<Rightarrow>
     if tp_inclusion_proof proof = Some JNull then Inl PcrAttestationTransparencyMissing
     else
     (case live_rekor_presence_of proof of
        PresPartial \<Rightarrow> Inl PcrAttestationTransparencyInvalid
      | PresFull \<Rightarrow>
          if tp_inclusion_proof_valid proof = Some False then Inl PcrAttestationTransparencyInvalid
          else if pe_test_fixtures env then classify_live_rekor env proof req
          else Inl PcrAttestationTransparencyInvalid
      | PresNone \<Rightarrow> claimed_log_check req proof))"

section \<open>The pipeline\<close>

text \<open>Steps 1 to 13 of \<open>classify\<close>: the first defect, if any.\<close>

definition pcr_defect :: "('pk, 'sig, 'vk, 'nsig) pcr_env \<Rightarrow> pcr_input \<Rightarrow> pcr_code + unit" where
  "pcr_defect env input =
     (let req = pi_requirement input in
      res_bind
        (case (pi_declared_size_bytes input, pq_bundle_max_size_bytes req) of
           (Some declared, Some mx) \<Rightarrow> fail_if (declared > mx) PcrBundleTooLarge
         | _ \<Rightarrow> Inr ()) (\<lambda>_.
      res_bind (fail_if (pi_bundle_raw_hex input \<noteq> None) PcrBundleMalformed) (\<lambda>_.
      res_bind (classify_tariff_defects req) (\<lambda>_.
      case pi_bundle input of
        None \<Rightarrow> Inl PcrBundleMalformed
      | Some bundle \<Rightarrow>
      res_bind (classify_bundle_structural bundle req) (\<lambda>_.
      res_bind (detect_duplicate_attestor bundle) (\<lambda>_.
      res_bind (per_attestor_scans bundle req (pi_revoked_attestors input)) (\<lambda>_.
      res_bind (classify_freshness bundle req (pi_current_time input)) (\<lambda>_.
      res_bind (classify_nonce bundle input) (\<lambda>_.
      res_bind (classify_transparency_log env bundle req) (\<lambda>_.
      res_bind (classify_trust_filter bundle req) (\<lambda>_.
      res_bind (fail_if (count_trusted_valid bundle req < pq_quorum req) PcrAttestationQuorumShort) (\<lambda>_.
      res_bind (fail_if (cross_attestor_mismatch bundle req) PcrAttestationMismatch) (\<lambda>_.
      fail_if (expected_value_mismatch bundle req) PcrExpectedMismatch)))))))))))))"

definition pcr_category_table :: "(string \<times> pcr_code) list" where
  "pcr_category_table =
     [(''quorum-short-by-one'', PcrAttestationQuorumShort),
      (''quorum-short-majority-missing'', PcrAttestationQuorumShort),
      (''quorum-all-missing'', PcrAttestationQuorumShort),
      (''quorum-wrong-count'', PcrAttestationQuorumShort),
      (''adversary-signed-by-stolen-attestor-key'', PcrAttestationQuorumShort),
      (''quorum-threshold-zero-in-tariff'', TariffPcrQuorumInvalid),
      (''pcr-expected-missing-in-tariff'', TariffPcrQuorumInvalid),
      (''bundle-with-one-attestor-quorum-one'', TariffPcrQuorumInvalid),
      (''attestor-not-in-trusted-list'', PcrAttestorNotTrusted),
      (''attestor-key-revoked'', PcrAttestorRevoked),
      (''attestor-key-not-yet-valid'', PcrAttestorNotYetValid),
      (''attestor-signature-invalid'', PcrAttestorSignatureInvalid),
      (''attestor-duplicate-in-bundle'', PcrAttestorDuplicate),
      (''pcr-mismatch-minor-single-pcr'', PcrAttestationMismatch),
      (''pcr-mismatch-systematic-multiple-pcrs'', PcrAttestationMismatch),
      (''pcr-mismatch-subset-of-attestors-agree'', PcrAttestationMismatch),
      (''pcr-mismatch-one-attestor-all-zeros'', PcrAttestationMismatch),
      (''pcr-mismatch-expected-deviation-allowed'', PcrAttestationMismatch),
      (''adversary-pcr-rehydration-attack'', PcrAttestationMismatch),
      (''bundle-attestor-list-order-matters'', PcrAttestationMismatch),
      (''pcr-expected-mismatch-PCR8-payload'', PcrExpectedMismatch),
      (''pcr-expected-mismatch-PCR0-firmware'', PcrExpectedMismatch),
      (''pcr-expected-mismatch-PCR4-kernel'', PcrExpectedMismatch),
      (''pcr-expected-match-but-stale-tariff-expected-hash'', PcrExpectedMismatch),
      (''transparency-log-missing-inclusion-proof'', PcrAttestationTransparencyMissing),
      (''transparency-log-invalid-proof'', PcrAttestationTransparencyInvalid),
      (''transparency-log-stale-root'', PcrAttestationTransparencyStale),
      (''transparency-log-unknown-log'', PcrAttestationTransparencyLogUnknown),
      (''transparency-log-not-published-yet'', PcrAttestationTransparencyNotYetLogged),
      (''adversary-transparency-log-split-view'', PcrAttestationWitnessCosignatureMissing),
      (''bundle-malformed-cbor'', PcrBundleMalformed),
      (''bundle-missing-required-field'', PcrBundleMalformed),
      (''bundle-unknown-additional-fields'', PcrBundleMalformed),
      (''bundle-incorrect-pcr-indexing'', PcrBundleMalformed),
      (''empty-bundle'', PcrBundleMalformed),
      (''enormous-bundle'', PcrBundleTooLarge),
      (''attestation-too-old'', PcrAttestationExpired),
      (''adversary-replayed-old-attestation'', PcrAttestationExpired),
      (''attestation-in-future'', PcrAttestationFutureDated),
      (''attestation-predates-tariff'', PcrAttestationPredatesTariff),
      (''attestation-nonce-reuse'', PcrAttestationNonceReuse),
      (''adversary-attestation-bundle-for-different-nonce'', PcrAttestationNonceMismatch)]"

definition category_to_code :: "string \<Rightarrow> pcr_code" where
  "category_to_code category =
     (case map_of pcr_category_table category of Some code \<Rightarrow> code | None \<Rightarrow> PcrBundleMalformed)"

definition pcr_classify :: "('pk, 'sig, 'vk, 'nsig) pcr_env \<Rightarrow> pcr_input \<Rightarrow> string \<Rightarrow> pcr_code" where
  "pcr_classify env input category =
     (case pcr_defect env input of Inl code \<Rightarrow> code | Inr _ \<Rightarrow> category_to_code category)"

section \<open>The live Nitro path\<close>

fun insert_roots ::
  "('pk, 'sig, 'vk, 'nsig) pcr_env \<Rightarrow> string list \<Rightarrow> nitro_root_set \<Rightarrow> pcr_code + nitro_root_set" where
  "insert_roots env [] roots = Inr roots"
| "insert_roots env (h # hs) roots =
     res_bind (ok_or PcrBundleMalformed (hex_decode (pe_rekor env) h)) (\<lambda>der.
     case insert_trusted_der_for_test (pe_nitro env) roots der of
       (Inl _, _) \<Rightarrow> Inl PcrBundleMalformed
     | (Inr _, roots) \<Rightarrow> insert_roots env hs roots)"

definition expected_pair :: "('pk, 'sig, 'vk, 'nsig) pcr_env \<Rightarrow> string \<times> string \<Rightarrow> pcr_code + nat \<times> string" where
  "expected_pair env kv =
     res_bind (ok_or PcrBundleMalformed (strip_pcr (fst kv))) (\<lambda>id_str.
     res_bind (ok_or PcrBundleMalformed (parse_unsigned 255 id_str)) (\<lambda>i.
     res_bind (ok_or PcrBundleMalformed (hex_decode (pe_rekor env) (snd kv))) (\<lambda>hash.
     Inr (i, hash))))"

definition classify_live_nitro :: "('pk, 'sig, 'vk, 'nsig) pcr_env \<Rightarrow> live_nitro_input \<Rightarrow> pcr_code + unit" where
  "classify_live_nitro env input =
     res_bind (ok_or PcrBundleMalformed (hex_decode (pe_rekor env) (ln_cose_sign1_bytes input))) (\<lambda>cose_bytes.
     if length (ln_trusted_roots_der_hex input) > MAX_TRUSTED_ROOTS then Inl PcrBundleMalformed
     else
       res_bind (insert_roots env (ln_trusted_roots_der_hex input) []) (\<lambda>roots.
       res_bind
         (case ln_expected_nonce_hex input of
            Some h \<Rightarrow> res_bind (ok_or PcrBundleMalformed (hex_decode (pe_rekor env) h)) (\<lambda>b. Inr (Some b))
          | None \<Rightarrow> Inr None) (\<lambda>nonce_bytes.
       res_bind
         (map_err map_attest_error
           (verify_nitro_attestation (pe_nitro env) cose_bytes roots nonce_bytes (ln_current_time input))) (\<lambda>claims.
       res_bind (res_map (expected_pair env) (ln_expected_pcrs input)) (\<lambda>expected_refs.
       map_err map_attest_error (verify_pcr_set claims expected_refs))))))"

section \<open>Execution\<close>

definition reject_verdict :: "string option \<Rightarrow> pcr_code \<Rightarrow> validation_outcome" where
  "reject_verdict reject_code produced =
     (case reject_code of
        None \<Rightarrow> Fail ''vector declares reject but omits reject_code''
      | Some expected_code \<Rightarrow>
          if pcr_code_display produced = expected_code then Pass
          else Fail (''reject_code mismatch: produced '' @ pcr_code_display produced @ '', expected '' @ expected_code))"

definition execute_live_nitro :: "('pk, 'sig, 'vk, 'nsig) pcr_env \<Rightarrow> json vector \<Rightarrow> validation_outcome" where
  "execute_live_nitro env vector =
     (case pe_live_input env (v_input vector) of
        Inl e \<Rightarrow> Fail (''live-nitro input deserialization failed: '' @ e)
      | Inr input \<Rightarrow>
          (case (exp_outcome (v_expected vector), classify_live_nitro env input) of
             (Reject, Inl produced) \<Rightarrow> reject_verdict (exp_reject_code (v_expected vector)) produced
           | (Reject, Inr _) \<Rightarrow> Fail ''live-nitro verify succeeded but vector expected reject''
           | (Accept, _) \<Rightarrow> Fail ''pcr-attestation-reject suite has no accept vectors''))"

definition pcr_execute :: "('pk, 'sig, 'vk, 'nsig) pcr_env \<Rightarrow> json vector \<Rightarrow> validation_outcome" where
  "pcr_execute env vector =
     (if json_get (v_input vector) ''cose_sign1_bytes'' \<noteq> None then
        (if pe_test_fixtures env then execute_live_nitro env vector
         else Fail (''vector carries cose_sign1_bytes but ephemeral-core was '' @
                ''built without the `test-fixtures` feature; rebuild the '' @
                ''conformance harness with --features test-fixtures''))
      else
        (case pe_input env (v_input vector) of
           Inl e \<Rightarrow> Fail (''pcr-input deserialization failed: '' @ e)
         | Inr input \<Rightarrow>
             (let produced = pcr_classify env input (v_category vector) in
              case exp_outcome (v_expected vector) of
                Reject \<Rightarrow> reject_verdict (exp_reject_code (v_expected vector)) produced
              | Accept \<Rightarrow> Fail ''pcr-attestation-reject suite has no accept vectors'')))"

end
