(* ===== verification/Nitro_Correct.thy ===== *)
theory Nitro_Correct
  imports Nitro
begin

text \<open>
  What an accepted Nitro document is (\<open>ephemeral-attestation\<close>): the claims as a function of the
  payload's pairs, the chain, the pinned root, the envelope signature and the nonce as one
  condition, and the PCR comparison as set inclusion.
\<close>

section \<open>The claims\<close>

text \<open>The values of a text key in order; a scalar field is the last value of the right type.\<close>

definition field_vals :: "string \<Rightarrow> (cbor_value \<times> cbor_value) list \<Rightarrow> cbor_value list" where
  "field_vals key pairs = map snd (filter (\<lambda>kv. fst kv = CText key) pairs)"

definition texts :: "cbor_value list \<Rightarrow> string list" where
  "texts vs = concat (map (\<lambda>v. case v of CText s \<Rightarrow> [s] | _ \<Rightarrow> []) vs)"

definition bstrs :: "cbor_value list \<Rightarrow> string list" where
  "bstrs vs = concat (map (\<lambda>v. case v of CBytes b \<Rightarrow> [b] | _ \<Rightarrow> []) vs)"

definition ints :: "cbor_value list \<Rightarrow> int list" where
  "ints vs = concat (map (\<lambda>v. case v of CInteger i \<Rightarrow> [i] | _ \<Rightarrow> []) vs)"

definition sub_pairs :: "cbor_value list \<Rightarrow> (cbor_value \<times> cbor_value) list" where
  "sub_pairs vs = concat (map (\<lambda>v. case v of CMap ps \<Rightarrow> ps | _ \<Rightarrow> []) vs)"

definition sub_items :: "cbor_value list \<Rightarrow> cbor_value list" where
  "sub_items vs = concat (map (\<lambda>v. case v of CArray xs \<Rightarrow> xs | _ \<Rightarrow> []) vs)"

definition pcr_entry :: "cbor_value \<times> cbor_value \<Rightarrow> (nat \<times> string) list" where
  "pcr_entry kv =
     (case kv of
        (CInteger i, CBytes h) \<Rightarrow> if i < 0 \<or> int u64_max < i then [(255, h)] else if i \<le> 255 then [(nat i, h)] else []
      | _ \<Rightarrow> [])"

definition claims_from :: "nitro_claims \<Rightarrow> (cbor_value \<times> cbor_value) list \<Rightarrow> nitro_claims" where
  "claims_from c pairs =
     \<lparr>nc_module_id = last (nc_module_id c # texts (field_vals ''module_id'' pairs)),
      nc_digest = last (nc_digest c # texts (field_vals ''digest'' pairs)),
      nc_timestamp = last (nc_timestamp c # ints (field_vals ''timestamp'' pairs)),
      nc_pcrs = nc_pcrs c @ concat (map pcr_entry (sub_pairs (field_vals ''pcrs'' pairs))),
      nc_certificate = last (nc_certificate c # bstrs (field_vals ''certificate'' pairs)),
      nc_cabundle = nc_cabundle c @ bstrs (sub_items (field_vals ''cabundle'' pairs)),
      nc_public_key = last (nc_public_key c # map Some (bstrs (field_vals ''public_key'' pairs))),
      nc_user_data = last (nc_user_data c # map Some (bstrs (field_vals ''user_data'' pairs))),
      nc_nonce = last (nc_nonce c # map Some (bstrs (field_vals ''nonce'' pairs)))\<rparr>"

definition bad_timestamp :: "(cbor_value \<times> cbor_value) list \<Rightarrow> bool" where
  "bad_timestamp pairs \<longleftrightarrow> list_ex (\<lambda>t. t < 0 \<or> 4102444800 \<le> t) (ints (field_vals ''timestamp'' pairs))"

lemmas vals_defs = texts_def bstrs_def ints_def sub_pairs_def sub_items_def

lemma field_vals_simps [simp]:
  "field_vals key [] = []"
  "field_vals key ((CText k, v) # ps) = (if k = key then v # field_vals key ps else field_vals key ps)"
  by (simp_all add: field_vals_def)

lemma field_vals_other: "(\<And>s. k \<noteq> CText s) \<Longrightarrow> field_vals key ((k, v) # ps) = field_vals key ps"
  by (simp add: field_vals_def)

lemma vals_simps [simp]:
  "texts [] = []" "bstrs [] = []" "ints [] = []" "sub_pairs [] = []" "sub_items [] = []"
  "texts (v # vs) = (case v of CText s \<Rightarrow> s # texts vs | _ \<Rightarrow> texts vs)"
  "bstrs (v # vs) = (case v of CBytes b \<Rightarrow> b # bstrs vs | _ \<Rightarrow> bstrs vs)"
  "ints (v # vs) = (case v of CInteger i \<Rightarrow> i # ints vs | _ \<Rightarrow> ints vs)"
  "sub_pairs (v # vs) = (case v of CMap ps \<Rightarrow> ps @ sub_pairs vs | _ \<Rightarrow> sub_pairs vs)"
  "sub_items (v # vs) = (case v of CArray xs \<Rightarrow> xs @ sub_items vs | _ \<Rightarrow> sub_items vs)"
  by (simp_all add: vals_defs split: cbor_value.split)

lemma bstrs_append [simp]: "bstrs (xs @ ys) = bstrs xs @ bstrs ys"
  by (simp add: bstrs_def)

lemma push_pcr_entry: "push_pcr kv pcrs = pcrs @ pcr_entry kv"
  by (cases "(kv, pcrs)" rule: push_pcr.cases) (auto simp: pcr_entry_def Let_def not_le u64_max_def split: cbor_value.split)

lemma fold_push_pcr: "fold push_pcr ps pcrs = pcrs @ concat (map pcr_entry ps)"
  by (induction ps arbitrary: pcrs) (simp_all add: push_pcr_entry)

lemma fold_push_cert: "fold push_cert vs acc = acc @ bstrs vs"
proof (induction vs arbitrary: acc)
  case (Cons v vs)
  then show ?case by (cases v) simp_all
qed simp

lemma claims_from_other:
  "(\<And>key. key \<in> set [''module_id'', ''digest'', ''timestamp'', ''pcrs'', ''certificate'', ''cabundle'',
      ''public_key'', ''user_data'', ''nonce''] \<Longrightarrow> field_vals key pairs = field_vals key pairs') \<Longrightarrow>
   claims_from c pairs = claims_from c pairs' \<and> bad_timestamp pairs = bad_timestamp pairs'"
  by (simp add: claims_from_def bad_timestamp_def)

lemma claims_from_nil [simp]: "claims_from c [] = c" "\<not> bad_timestamp []"
  by (simp_all add: claims_from_def bad_timestamp_def)

lemmas field_unfold = claim_field_def bad_timestamp_def claims_from_def

lemma claim_field_known:
  "list_all (\<lambda>key. claim_field key v c =
     (if bad_timestamp [(CText key, v)] then Inl AtMalformedDoc else Inr (claims_from c [(CText key, v)])))
     [''module_id'', ''digest'', ''timestamp'', ''pcrs'', ''certificate'', ''cabundle'', ''public_key'',
      ''user_data'', ''nonce'']"
  by (simp only: list.pred_inject simp_thms, intro conjI;
    (cases c, simp add: field_unfold, (cases v; simp add: fold_push_pcr fold_push_cert in_i64_def arith_defs)))

lemma claim_field_ref:
  "claim_field key v c =
     (if bad_timestamp [(CText key, v)] then Inl AtMalformedDoc else Inr (claims_from c [(CText key, v)]))"
proof (cases "key \<in> set [''module_id'', ''digest'', ''timestamp'', ''pcrs'', ''certificate'', ''cabundle'',
      ''public_key'', ''user_data'', ''nonce'']")
  case True
  then show ?thesis using claim_field_known [of v c] unfolding list_all_iff by blast
next
  case False
  then have "claims_from c [(CText key, v)] = claims_from c [] \<and> bad_timestamp [(CText key, v)] = bad_timestamp []"
    by (intro claims_from_other) auto
  with False show ?thesis by (simp add: claim_field_def)
qed

lemma bad_timestamp_Cons: "bad_timestamp (kv # pairs) = (bad_timestamp [kv] \<or> bad_timestamp pairs)"
proof -
  have "ints (field_vals key (kv # pairs)) = ints (field_vals key [kv]) @ ints (field_vals key pairs)" for key
    by (simp add: field_vals_def ints_def)
  then show ?thesis by (simp add: bad_timestamp_def)
qed

lemma last_last: "last (last (x # xs) # ys) = last (x # xs @ ys)"
  by (induction xs arbitrary: x) auto

lemma claims_from_Cons: "claims_from (claims_from c [kv]) pairs = claims_from c (kv # pairs)"
proof -
  have "field_vals key (kv # pairs) = field_vals key [kv] @ field_vals key pairs" for key
    by (simp add: field_vals_def)
  moreover have "texts (xs @ ys) = texts xs @ texts ys" "ints (xs @ ys) = ints xs @ ints ys"
    "sub_pairs (xs @ ys) = sub_pairs xs @ sub_pairs ys" "sub_items (xs @ ys) = sub_items xs @ sub_items ys"
    for xs ys by (simp_all add: vals_defs)
  ultimately show ?thesis unfolding claims_from_def nitro_claims.select_convs last_last
    by (simp only: map_append concat_append bstrs_append append_assoc)
qed

lemma claim_pairs_ref:
  "claim_pairs pairs c = (if bad_timestamp pairs then Inl AtMalformedDoc else Inr (claims_from c pairs))"
proof (induction pairs arbitrary: c)
  case (Cons kv pairs)
  obtain k v where kv: "kv = (k, v)" by force
  show ?case
  proof (cases "\<exists>key. k = CText key")
    case False
    then have "claims_from c (kv # pairs) = claims_from c pairs \<and> bad_timestamp (kv # pairs) = bad_timestamp pairs"
      by (intro claims_from_other) (simp add: kv field_vals_def)
    moreover have "claim_pairs (kv # pairs) c = claim_pairs pairs c" using False by (cases k) (simp_all add: kv)
    ultimately show ?thesis using Cons by simp
  next
    case True
    then show ?thesis
      using Cons bad_timestamp_Cons [of kv pairs] claims_from_Cons [of c kv pairs]
      by (auto simp: kv claim_field_ref)
  qed
qed simp

section \<open>The chain\<close>

definition cert_of :: "('vk, 'sig) nitro_env \<Rightarrow> string \<Rightarrow> cert_owned option" where
  "cert_of env der = map_option (\<lambda>x. \<lparr>co_der = der, co_not_before = xv_not_before x, co_not_after = xv_not_after x,
     co_sig_alg_oid = xv_sig_alg_oid x, co_spki_der = xv_spki_der x, co_tbs_der = xv_tbs_der x,
     co_sig_bytes = xv_sig_bytes x\<rparr>) (ne_x509 env der)"

definition key_of :: "('vk, 'sig) nitro_env \<Rightarrow> string \<Rightarrow> 'vk option" where
  "key_of env spki = (case ne_spki_key env spki of Some vk \<Rightarrow> Some vk | None \<Rightarrow> ne_sec1_key env spki)"

definition cert_usable :: "int \<Rightarrow> cert_owned \<Rightarrow> bool" where
  "cert_usable now c \<longleftrightarrow>
     co_not_before c \<le> now \<and> now \<le> co_not_after c \<and> co_sig_alg_oid c \<notin> set WEAK_SIG_ALGS"

definition signed_by :: "('vk, 'sig) nitro_env \<Rightarrow> cert_owned \<Rightarrow> cert_owned \<Rightarrow> bool" where
  "signed_by env child parent \<longleftrightarrow>
     (\<exists>vk sig. key_of env (co_spki_der parent) = Some vk \<and> ne_der_sig env (co_sig_bytes child) = Some sig \<and>
        ne_p384_verify env vk (co_tbs_der child) sig)"

text \<open>\<open>trusted\<close> is the set of pinned fingerprints.\<close>

definition chain_ok :: "('vk, 'sig) nitro_env \<Rightarrow> string set \<Rightarrow> int \<Rightarrow> string list \<Rightarrow> 'vk \<Rightarrow> bool" where
  "chain_ok env trusted now chain vk \<longleftrightarrow>
     chain \<noteq> [] \<and> length chain \<le> 4 \<and>
     (\<exists>certs. list_all2 (\<lambda>der c. cert_of env der = Some c) chain certs \<and> list_all (cert_usable now) certs \<and>
        successively (signed_by env) certs \<and> ne_sha256 env (last chain) \<in> trusted \<and>
        key_of env (co_spki_der (hd certs)) = Some vk)"

lemma decode_cert_iff: "decode_cert env der i = Inr c \<longleftrightarrow> cert_of env der = Some c"
  by (auto simp: decode_cert_def cert_of_def split: option.split)

lemma check_cert_iff:
  "check_validity c now = Inr () \<and> check_sig_alg c = Inr () \<longleftrightarrow> cert_usable now c"
  by (auto simp: check_validity_def check_sig_alg_def check_each_ok cert_usable_def)

lemma spki_key_iff: "spki_to_p384_key env spki i = Inr vk \<longleftrightarrow> key_of env spki = Some vk"
  by (auto simp: spki_to_p384_key_def key_of_def split: option.split)

lemma verify_cert_signature_iff: "verify_cert_signature env child parent i = Inr () \<longleftrightarrow> signed_by env child parent"
  by (auto simp: verify_cert_signature_def signed_by_def res_bind_eq_Inr spki_key_iff split: option.splits if_splits)

lemma verify_links_iff:
  "verify_links env now i certs = Inr () \<longleftrightarrow>
     successively (signed_by env) certs \<and> list_all (cert_usable now) (tl certs)"
proof (induction env now i certs rule: verify_links.induct)
  case (1 env now i child parent rest)
  have step: "verify_links env now i (child # parent # rest) = Inr () \<longleftrightarrow>
      (check_validity parent now = Inr () \<and> check_sig_alg parent = Inr ()) \<and>
      verify_cert_signature env child parent i = Inr () \<and> verify_links env now (i + 1) (parent # rest) = Inr ()"
    by (simp add: res_bind_unit)
  show ?case
  proof (cases "cert_usable now parent \<and> signed_by env child parent")
    case True
    then have "check_validity parent now = Inr ()" "check_sig_alg parent = Inr ()"
      "verify_cert_signature env child parent i = Inr ()"
      using check_cert_iff verify_cert_signature_iff by blast+
    with 1 True show ?thesis unfolding step by simp
  qed (unfold step check_cert_iff verify_cert_signature_iff, auto)
qed simp_all

lemma decode_all:
  "res_map (\<lambda>(i, der). decode_cert env der i) (enumerate n chain) = Inr certs \<longleftrightarrow>
     list_all2 (\<lambda>der c. cert_of env der = Some c) chain certs"
  by (simp add: res_map_Inr decode_cert_iff list_all2_conv_all_nth nth_enumerate_eq)

lemma cert_of_der: "cert_of env der = Some c \<Longrightarrow> co_der c = der"
  by (auto simp: cert_of_def)

lemma verify_chain_iff:
  "verify_chain env chain roots now = Inr vk \<longleftrightarrow>
     chain_ok env {fp. find_by_fingerprint roots fp \<noteq> None} now chain vk"
proof (cases "chain \<noteq> [] \<and> length chain \<le> 4")
  case True
  have body: "(let leaf = certs ! 0 in
        res_bind (check_validity leaf now) (\<lambda>_.
        res_bind (check_sig_alg leaf) (\<lambda>_.
        if length certs = 1 then
          res_bind (verify_leaf_against_roots env leaf roots) (\<lambda>_. extract_leaf_key env leaf)
        else
          res_bind (verify_links env now 0 certs) (\<lambda>_.
          res_bind (verify_leaf_against_roots env (certs ! (length certs - 1)) roots) (\<lambda>_.
          extract_leaf_key env leaf))))) = Inr vk \<longleftrightarrow>
      list_all (cert_usable now) certs \<and> successively (signed_by env) certs \<and>
      find_by_fingerprint roots (ne_sha256 env (last chain)) \<noteq> None \<and> key_of env (co_spki_der (hd certs)) = Some vk"
    (is "?body certs = Inr vk \<longleftrightarrow> _")
    if decoded: "list_all2 (\<lambda>der c. cert_of env der = Some c) chain certs" for certs
  proof -
    have ne: "certs \<noteq> []" "length certs = length chain" using True decoded by (auto dest: list_all2_lengthD)
    then have "cert_of env (last chain) = Some (last certs)"
      using decoded True by (simp add: last_conv_nth list_all2_conv_all_nth)
    then have last_der: "co_der (last certs) = last chain" by (rule cert_of_der)
    have pinned: "verify_leaf_against_roots env (last certs) roots = Inr () \<longleftrightarrow>
        find_by_fingerprint roots (ne_sha256 env (last chain)) \<noteq> None"
      by (simp add: verify_leaf_against_roots_def Let_def last_der)
    obtain leaf rest where certs: "certs = leaf # rest" using ne by (cases certs) auto
    have leaf: "check_validity leaf now = Inr () \<and> check_sig_alg leaf = Inr () \<and> X \<longleftrightarrow> cert_usable now leaf \<and> X" for X
      using check_cert_iff [of leaf now] by blast
    have nth: "certs ! (length certs - 1) = last certs" using ne by (simp add: last_conv_nth)
    show ?thesis
    proof (cases rest)
      case Nil
      then show ?thesis using pinned by (simp add: certs res_bind_unit leaf extract_leaf_key_def spki_key_iff)
    next
      case (Cons c cs)
      then have "length certs \<noteq> 1" "certs ! 0 = leaf" "hd certs = leaf" "tl certs = rest" by (simp_all add: certs)
      then show ?thesis unfolding Let_def nth res_bind_unit pinned
        by (simp add: res_bind_unit leaf extract_leaf_key_def spki_key_iff pinned verify_links_iff) (auto simp: certs)
    qed
  qed
  have "verify_chain env chain roots now =
      res_bind (res_map (\<lambda>(i, der). decode_cert env der i) (enumerate 0 chain)) ?body"
    using True by (simp only: verify_chain_def MAX_CA_CHAIN_DEPTH_def not_less [symmetric] if_False if_True)
  then have "verify_chain env chain roots now = Inr vk \<longleftrightarrow>
      (\<exists>certs. list_all2 (\<lambda>der c. cert_of env der = Some c) chain certs \<and> ?body certs = Inr vk)"
    by (simp only: res_bind_eq_Inr decode_all)
  then show ?thesis using True body unfolding chain_ok_def mem_Collect_eq by blast
qed (auto simp: verify_chain_def chain_ok_def MAX_CA_CHAIN_DEPTH_def)

section \<open>The envelope\<close>

text \<open>\<open>doc_v\<close> is a bare or tag-18 COSE\_Sign1 array with these parts.\<close>

definition envelope :: "cbor_value \<Rightarrow> string \<Rightarrow> string \<Rightarrow> string \<Rightarrow> bool" where
  "envelope doc_v prot payload sig \<longleftrightarrow>
     (\<exists>unprot p. (doc_v = CArray [CBytes prot, unprot, p, CBytes sig] \<or>
                  doc_v = CTag 18 (CArray [CBytes prot, unprot, p, CBytes sig])) \<and>
        (p = CBytes payload \<or> p = CNull \<and> payload = []))"

definition declares_es384 :: "('vk, 'sig) nitro_env \<Rightarrow> string \<Rightarrow> bool" where
  "declares_es384 env prot \<longleftrightarrow>
     prot \<noteq> [] \<and>
     (\<exists>pairs k. ne_parse env prot = Some (CMap pairs) \<and>
        List.find (\<lambda>kv. fst kv = CInteger 1) pairs = Some (k, CInteger (- 35)))"

lemma parse_cbor_Inr: "parse_cbor env b = Inr v \<longleftrightarrow> ne_parse env b = Some v"
  by (simp add: parse_cbor_def split: option.split)

lemma cose_array_Inr: "cose_array doc_v = Inr a \<longleftrightarrow> doc_v = CArray a \<or> doc_v = CTag 18 (CArray a)"
  by (cases doc_v rule: cose_array.cases) (auto split: cbor_value.splits)

lemma as_Inr [simp]:
  "as_bstr v = Inr b \<longleftrightarrow> v = CBytes b"
  "as_payload v = Inr b \<longleftrightarrow> v = CBytes b \<or> v = CNull \<and> b = []"
  by (cases v; auto)+

lemma length_4: "length xs = 4 \<longleftrightarrow> (\<exists>a b c d. xs = [a, b, c, d])"
  by (auto simp: numeral_eq_Suc length_Suc_conv)

lemma alg_of_pairs_es384:
  "alg_of_pairs pairs = Inr (- 35) \<longleftrightarrow>
     (\<exists>k. List.find (\<lambda>kv. fst kv = CInteger 1) pairs = Some (k, CInteger (- 35)))"
proof (induction pairs)
  case (Cons kv pairs)
  obtain k v where "kv = (k, v)" by force
  with Cons show ?case
    by (auto simp: in_i64_def arith_defs split: cbor_value.split)
qed simp

lemma extract_alg_es384: "extract_alg env prot = Inr COSE_ALG_ES384 \<longleftrightarrow> declares_es384 env prot"
proof (cases "ne_parse env prot")
  case (Some v)
  then show ?thesis
    by (cases v) (auto simp: COSE_ALG_ES384_def extract_alg_def declares_es384_def parse_cbor_def alg_of_pairs_es384)
qed (auto simp: extract_alg_def declares_es384_def parse_cbor_def)

lemma verify_es384_iff:
  "(\<exists>p. verify_cose_sign1_es384 env doc vk [] = Inr p) \<longleftrightarrow>
     (\<exists>doc_v prot payload sig s. ne_parse env doc = Some doc_v \<and> envelope doc_v prot payload sig \<and>
        declares_es384 env prot \<and> ne_raw_sig env sig = Some s \<and>
        ne_p384_verify env vk (build_sig_structure env prot [] payload) s)" (is "?l \<longleftrightarrow> ?r")
proof
  assume ?l
  then obtain doc_v a prot payload sig s where *: "ne_parse env doc = Some doc_v" "cose_array doc_v = Inr a" "length a = 4"
    "as_bstr (a ! 0) = Inr prot" "as_payload (a ! 2) = Inr payload" "as_bstr (a ! 3) = Inr sig"
    "extract_alg env prot = Inr COSE_ALG_ES384" "ne_raw_sig env sig = Some s"
    "ne_p384_verify env vk (build_sig_structure env prot [] payload) s"
    by (auto simp: verify_cose_sign1_es384_def res_bind_eq_Inr parse_cbor_Inr split: if_splits option.splits)
  from *(3) obtain u0 u1 u2 u3 where "a = [u0, u1, u2, u3]" unfolding length_4 by blast
  with *(2,4-6) have "envelope doc_v prot payload sig" by (auto simp: envelope_def cose_array_Inr)
  with * show ?r by (auto simp: extract_alg_es384)
next
  assume ?r
  then obtain doc_v prot unprot p payload sig s where *: "parse_cbor env doc = Inr doc_v"
    "cose_array doc_v = Inr [CBytes prot, unprot, p, CBytes sig]" "as_payload p = Inr payload"
    "extract_alg env prot = Inr COSE_ALG_ES384" "ne_raw_sig env sig = Some s"
    "ne_p384_verify env vk (build_sig_structure env prot [] payload) s"
    unfolding envelope_def parse_cbor_Inr extract_alg_es384 cose_array_Inr as_Inr by blast
  then have "verify_cose_sign1_es384 env doc vk [] = Inr payload"
    by (simp add: verify_cose_sign1_es384_def del: as_Inr)
  then show ?l ..
qed

lemma extract_payload_iff:
  "extract_cose_payload env doc = Inr payload \<longleftrightarrow>
     (\<exists>doc_v unprot prot sig p. ne_parse env doc = Some doc_v \<and> cose_array doc_v = Inr [prot, unprot, p, sig] \<and>
        as_payload p = Inr payload)"
proof
  assume "extract_cose_payload env doc = Inr payload"
  then obtain doc_v a where *: "ne_parse env doc = Some doc_v" "cose_array doc_v = Inr a" "length a = 4"
    "as_payload (a ! 2) = Inr payload"
    by (auto simp: extract_cose_payload_def res_bind_eq_Inr parse_cbor_Inr split: if_splits)
  from *(3) obtain u0 u1 u2 u3 where "a = [u0, u1, u2, u3]" unfolding length_4 by blast
  with * show "\<exists>doc_v unprot prot sig p. ne_parse env doc = Some doc_v \<and> cose_array doc_v = Inr [prot, unprot, p, sig] \<and>
      as_payload p = Inr payload" by auto
next
  assume "\<exists>doc_v unprot prot sig p. ne_parse env doc = Some doc_v \<and> cose_array doc_v = Inr [prot, unprot, p, sig] \<and>
      as_payload p = Inr payload"
  then show "extract_cose_payload env doc = Inr payload"
    by (auto simp: extract_cose_payload_def parse_cbor_def simp del: as_Inr)
qed

text \<open>The two passes over the envelope read the same payload.\<close>

lemma payload_and_signature:
  "extract_cose_payload env doc = Inr payload \<and> (\<exists>p. verify_cose_sign1_es384 env doc vk [] = Inr p) \<longleftrightarrow>
     (\<exists>doc_v prot sig s. ne_parse env doc = Some doc_v \<and> envelope doc_v prot payload sig \<and>
        declares_es384 env prot \<and> ne_raw_sig env sig = Some s \<and>
        ne_p384_verify env vk (build_sig_structure env prot [] payload) s)"
  unfolding verify_es384_iff extract_payload_iff
  by (auto simp: envelope_def cose_array_Inr)

section \<open>The whole document\<close>

definition production_roots :: "('vk, 'sig) nitro_env \<Rightarrow> string list \<Rightarrow> nitro_root_set" where
  "production_roots env ders = fold (\<lambda>der roots. snd (insert_trusted_der env roots der)) ders []"

lemma find_insert_root:
  "find_by_fingerprint (snd (insert_trusted_der env roots der)) fp \<noteq> None \<longleftrightarrow>
     find_by_fingerprint roots fp \<noteq> None \<or> fp = AWS_NITRO_ROOT_FINGERPRINT \<and> fp = ne_sha256 env der"
  by (auto simp: find_by_fingerprint_def insert_trusted_der_def ALLOWED_FINGERPRINTS_def Let_def find_None_iff
      find_Some_iff list_ex_iff)

lemma production_roots_trust:
  "{fp. find_by_fingerprint (production_roots env ders) fp \<noteq> None} =
     {AWS_NITRO_ROOT_FINGERPRINT} \<inter> ne_sha256 env ` set ders"
proof -
  have "find_by_fingerprint (fold (\<lambda>der roots. snd (insert_trusted_der env roots der)) ders roots) fp \<noteq> None \<longleftrightarrow>
      find_by_fingerprint roots fp \<noteq> None \<or> fp \<in> {AWS_NITRO_ROOT_FINGERPRINT} \<inter> ne_sha256 env ` set ders" for fp roots
  proof (induction ders arbitrary: roots)
    case (Cons der ders)
    show ?case unfolding fold_simps Cons.IH find_insert_root by auto
  qed simp
  from this [of "[]"] show ?thesis by (auto simp: production_roots_def find_by_fingerprint_def)
qed

lemma parse_claims_Inr:
  "parse_claims_cbor env payload = Inr claims \<longleftrightarrow>
     (\<exists>pairs. ne_parse env payload = Some (CMap pairs) \<and> \<not> bad_timestamp pairs \<and> claims = claims_from empty_claims pairs)"
proof (cases "ne_parse env payload")
  case (Some v)
  then show ?thesis by (cases v) (auto simp: parse_claims_cbor_def parse_cbor_def claim_pairs_ref)
qed (simp add: parse_claims_cbor_def parse_cbor_def)

text \<open>The wire format of AWS dates a document in milliseconds; any such date after 17 February 1970 is out
  of the accepted range.\<close>

lemma millisecond_timestamp_refused:
  "ne_parse env payload = Some (CMap pairs) \<Longrightarrow> (CText ''timestamp'', CInteger t) \<in> set pairs \<Longrightarrow> 4102444800 \<le> t \<Longrightarrow>
   parse_claims_cbor env payload = Inl AtMalformedDoc"
  by (auto simp: parse_claims_cbor_def parse_cbor_def claim_pairs_ref bad_timestamp_def list_ex_iff ints_def field_vals_def
      intro!: bexI [of _ "(CText ''timestamp'', CInteger t)"])

text \<open>No node lies deeper than the eighth level, the root being the first.\<close>

definition shallow :: "cbor_value \<Rightarrow> bool" where
  "shallow v \<longleftrightarrow> \<not> (\<exists>n. node_at v n \<and> 8 \<le> n)"

definition nitro_accepts ::
  "('vk, 'sig) nitro_env \<Rightarrow> string set \<Rightarrow> string option \<Rightarrow> int \<Rightarrow> string \<Rightarrow> nitro_claims \<Rightarrow> bool" where
  "nitro_accepts env trusted nonce now doc claims \<longleftrightarrow>
     length doc \<le> 131072 \<and>
     (\<exists>doc_v prot payload pairs sig s vk.
        ne_parse env doc = Some doc_v \<and> shallow doc_v \<and> envelope doc_v prot payload sig \<and>
        ne_parse env payload = Some (CMap pairs) \<and> \<not> bad_timestamp pairs \<and>
        claims = claims_from empty_claims pairs \<and>
        chain_ok env trusted now (nc_certificate claims # nc_cabundle claims) vk \<and>
        declares_es384 env prot \<and> ne_raw_sig env sig = Some s \<and>
        ne_p384_verify env vk (build_sig_structure env prot [] payload) s \<and>
        (nonce = None \<or> nc_nonce claims = nonce))"

lemma nitro_guard_iff:
  "nitro_size_depth_check env doc = Inr () \<longleftrightarrow>
     length doc \<le> 131072 \<and> (\<exists>v. ne_parse env doc = Some v \<and> shallow v)"
proof -
  have "shallow v \<longleftrightarrow> cbor_depth v 1 \<le> 8" for v
    unfolding cbor_depth_le shallow_def by (auto simp: not_le)
  then show ?thesis
    by (auto simp: nitro_size_depth_check_def NITRO_MAX_CBOR_DEPTH_def MAX_NITRO_DOC_BYTES_def not_less split: option.split)
qed

lemma verify_nitro_iff:
  "verify_nitro_attestation env doc roots nonce now = Inr claims \<longleftrightarrow>
     nitro_accepts env {fp. find_by_fingerprint roots fp \<noteq> None} nonce now doc claims"
proof -
  have nonce: "(case nonce of None \<Rightarrow> Inr proto
      | Some expected \<Rightarrow> (case nc_nonce proto of None \<Rightarrow> Inl AtNonceMismatch
          | Some actual \<Rightarrow> if actual \<noteq> expected then Inl AtNonceMismatch else Inr proto)) = Inr claims \<longleftrightarrow>
      proto = claims \<and> (nonce = None \<or> nc_nonce claims = nonce)" for proto
    by (cases nonce; cases "nc_nonce proto") auto
  have "verify_nitro_attestation env doc roots nonce now = Inr claims \<longleftrightarrow>
      nitro_size_depth_check env doc = Inr () \<and>
      (\<exists>payload vk. parse_claims_cbor env payload = Inr claims \<and>
         verify_chain env (nc_certificate claims # nc_cabundle claims) roots now = Inr vk \<and>
         (extract_cose_payload env doc = Inr payload \<and> (\<exists>p. verify_cose_sign1_es384 env doc vk [] = Inr p)) \<and>
         (nonce = None \<or> nc_nonce claims = nonce))"
    unfolding verify_nitro_attestation_def res_bind_unit res_bind_eq_Inr nonce by blast
  also have "\<dots> \<longleftrightarrow> nitro_accepts env {fp. find_by_fingerprint roots fp \<noteq> None} nonce now doc claims"
    (is "?l \<longleftrightarrow> ?r")
  proof
    assume ?l
    then show ?r
      unfolding payload_and_signature parse_claims_Inr verify_chain_iff nitro_guard_iff nitro_accepts_def
      by (elim exE conjE) (simp, blast)
  next
    assume ?r
    then show ?l
      unfolding payload_and_signature parse_claims_Inr verify_chain_iff nitro_guard_iff nitro_accepts_def by blast
  qed
  finally show ?thesis .
qed

text \<open>C5: what a verified Nitro document is, when every pinned root went through the production insert.
  The document is at most 128 KiB of CBOR nested at most eight levels, a COSE\_Sign1 array, bare or under
  tag 18; its payload is a map whose text keys give the claims and whose timestamps all lie between 0 and
  the year 2100; the chain of the certificate and its bundle has at most four members, each inside its
  validity window at the caller's clock and not signed with SHA-1 or MD5, each signed by the next under
  P-384, the last one hashing to the pinned AWS fingerprint (and actually registered); the protected
  header declares ES384 in its first entry under label 1 and the signature over the
  \<open>Sig_structure\<close> of this header and this very payload verifies under the leaf's key; the nonce is the
  expected one, when one is expected.  Nothing else is needed.\<close>

theorem nitro_accept_iff:
  "verify_nitro_attestation env doc (production_roots env ders) nonce now = Inr claims \<longleftrightarrow>
     nitro_accepts env ({AWS_NITRO_ROOT_FINGERPRINT} \<inter> ne_sha256 env ` set ders) nonce now doc claims"
  unfolding verify_nitro_iff production_roots_trust ..

section \<open>PCR sets\<close>

lemma check_no_duplicates_iff: "check_no_duplicates pcrs = Inr () \<longleftrightarrow> distinct (map fst pcrs)"
  by (induction pcrs) (auto simp: res_bind_unit check_each_ok)

lemma find_pcr_iff: "distinct (map fst pcrs) \<Longrightarrow> find_pcr pcrs i = Some h \<longleftrightarrow> (i, h) \<in> set pcrs"
  by (induction pcrs) (auto simp: find_pcr_def image_iff)

lemma pcr_set_cond:
  "verify_pcr_set claims expected = Inr () \<longleftrightarrow>
     distinct (map fst (nc_pcrs claims)) \<and> set expected \<subseteq> {0..<24} \<times> UNIV \<inter> set (nc_pcrs claims)"
proof (cases "distinct (map fst (nc_pcrs claims))")
  case True
  have "(case find_pcr (nc_pcrs claims) i of
            None \<Rightarrow> Inl (AtPcrMismatch i (hash_to_32 h) (replicate 32 (char_of (0 :: nat))))
          | Some a \<Rightarrow> fail_if (h \<noteq> a) (AtPcrMismatch i (hash_to_32 h) (hash_to_32 a))) = Inr () \<longleftrightarrow>
      (i, h) \<in> set (nc_pcrs claims)" for i h
    using find_pcr_iff [OF True, of i h] by (auto split: option.split)
  with True show ?thesis
    by (auto simp: verify_pcr_set_def check_no_duplicates_iff res_bind_unit check_each_ok MAX_PCR_COUNT_def not_le)
qed (simp add: verify_pcr_set_def check_no_duplicates_iff res_bind_unit)

text \<open>The PCR comparison succeeds exactly when the document reports no index twice and the expected
  pairs, all with an index below 24, are among the reported ones, whatever else is reported.\<close>

theorem verify_pcr_set_iff:
  "verify_pcr_set claims expected = Inr () \<longleftrightarrow>
     distinct (map fst (nc_pcrs claims)) \<and> set expected \<subseteq> {0..<24} \<times> UNIV \<inter> set (nc_pcrs claims)"
  by (rule pcr_set_cond)

end
