(* ===== verification/Pcr_Correct.thy ===== *)
theory Pcr_Correct
  imports Pcr Nitro_Correct
begin

text \<open>
  What the PCR suite accepts (\<open>ephemeral-core/src/suites/pcr.rs\<close>): the thirteen steps as one condition
  on the bundle, the live Rekor path composed with the tree-head and inclusion verifiers, and the live
  Nitro path composed with the document verifier.
\<close>

section \<open>The conditions\<close>

definition strict :: "pcr_requirement \<Rightarrow> bool" where
  "strict req \<longleftrightarrow> pq_strict_mode req = Some True"

text \<open>One attestation, whatever the others say.\<close>

definition attestation_ok :: "pcr_input \<Rightarrow> attestation \<Rightarrow> bool" where
  "attestation_ok inp att \<longleftrightarrow>
     (let req = pi_requirement inp in
      \<exists>aid iat. pa_attestor_id att = Some aid \<and> pa_iat att = Some iat \<and>
        (strict req \<longrightarrow> pa_attestor_comment att = None) \<and> list_all pcr_index_valid (map fst (pa_pcrs att)) \<and>
        pa_signature_valid att \<and> aid \<in> set (pq_attestors req) \<and>
        (\<forall>l. pi_revoked_attestors inp = Some l \<longrightarrow> aid \<notin> set l) \<and>
        (\<forall>ws nb. pq_attestor_not_before req = Some ws \<and> map_of ws aid = Some nb \<longrightarrow> nb \<le> iat) \<and>
        (\<forall>m. pq_max_age_seconds req = Some m \<longrightarrow> pi_current_time inp - iat \<le> int m \<or> i64_max \<le> int m) \<and>
        iat \<le> sat_add (pi_current_time inp) 300 \<and>
        (\<forall>t. pq_issued_at req = Some t \<longrightarrow> t \<le> iat) \<and>
        (\<forall>n. pa_nonce att = Some n \<longrightarrow> n = pi_router_nonce_issued inp))"

definition requirement_ok :: "pcr_requirement \<Rightarrow> bool" where
  "requirement_ok req \<longleftrightarrow> pq_quorum req \<noteq> 0 \<and> (pq_quorum req = 1 \<longrightarrow> length (pq_attestors req) < 3)"

definition input_ok :: "pcr_input \<Rightarrow> bool" where
  "input_ok inp \<longleftrightarrow>
     (\<forall>d m. pi_declared_size_bytes inp = Some d \<and> pq_bundle_max_size_bytes (pi_requirement inp) = Some m \<longrightarrow> d \<le> m) \<and>
     pi_bundle_raw_hex inp = None \<and> requirement_ok (pi_requirement inp) \<and>
     (\<forall>ns. pi_router_nonce_consumed inp = Some ns \<longrightarrow> pi_router_nonce_issued inp \<notin> set ns)"

text \<open>Some attestation reports the expected value, and none reports another.\<close>

definition pcrs_agree :: "string_map \<Rightarrow> attestation list \<Rightarrow> bool" where
  "pcrs_agree expected atts \<longleftrightarrow>
     (\<forall>(index, want) \<in> set expected.
        (\<exists>att \<in> set atts. map_of (pa_pcrs att) index = Some want) \<and>
        (\<forall>att \<in> set atts. map_of (pa_pcrs att) index \<in> {None, Some want}))"

definition witnesses_ok :: "pcr_requirement \<Rightarrow> transparency_proof \<Rightarrow> bool" where
  "witnesses_ok req proof \<longleftrightarrow>
     (\<forall>r. pq_required_witnesses req = Some r \<longrightarrow>
        r \<le> u32_of_usize (length (case tp_witness_cosignatures proof of Some ws \<Rightarrow> ws | None \<Rightarrow> [])))"

definition root_age_limit :: "pcr_requirement \<Rightarrow> nat" where
  "root_age_limit req = (case pq_max_root_age_seconds req of Some a \<Rightarrow> a | None \<Rightarrow> 86400)"

definition claimed_log_ok :: "pcr_requirement \<Rightarrow> transparency_proof \<Rightarrow> bool" where
  "claimed_log_ok req proof \<longleftrightarrow>
     (\<forall>a. tp_root_age_seconds proof = Some a \<longrightarrow> a \<le> root_age_limit req) \<and>
     (\<exists>logs. pq_trusted_logs req = Some logs \<and> tp_log_id proof \<in> set logs) \<and>
     (\<forall>i s. tp_entry_index proof = Some i \<and> tp_sth_tree_size proof = Some s \<longrightarrow> i \<le> s) \<and>
     witnesses_ok req proof"

definition hex32 :: "('pk, 'sig, 'vk, 'nsig) pcr_env \<Rightarrow> string \<Rightarrow> string \<Rightarrow> bool" where
  "hex32 env h b \<longleftrightarrow> hex_decode (pe_rekor env) h = Some b \<and> length b = 32"

text \<open>The evidence of a live proof, with the tree head and entry it decodes to.\<close>

definition live_log_ok :: "('pk, 'sig, 'vk, 'nsig) pcr_env \<Rightarrow> pcr_requirement \<Rightarrow> transparency_proof \<Rightarrow> bool" where
  "live_log_ok env req proof \<longleftrightarrow>
     (\<exists>path_hex sig_hex ts root_hex key_hex leaf_hex now tree_size idx root leaf key lid path vk sigb sig.
        tp_proof_path_hex proof = Some path_hex \<and> tp_sth_signature_hex proof = Some sig_hex \<and>
        tp_sth_timestamp proof = Some ts \<and> tp_sth_tree_root_hex proof = Some root_hex \<and>
        tp_log_pubkey_hex proof = Some key_hex \<and> tp_entry_leaf_hash_hex proof = Some leaf_hex \<and>
        tp_current_time proof = Some now \<and> tp_sth_tree_size proof = Some tree_size \<and>
        tp_entry_index proof = Some idx \<and>
        hex32 env root_hex root \<and> hex32 env leaf_hex leaf \<and> hex32 env key_hex key \<and>
        hex_decode (pe_rekor env) sig_hex = Some sigb \<and>
        hex32 env (case tp_log_id_hex proof of Some h \<Rightarrow> h | None \<Rightarrow> tp_log_id proof) lid \<and>
        length path_hex \<le> 40 \<and> list_all2 (hex32 env) path_hex path \<and>
        ed_point (pe_rekor env) key = Some vk \<and>
        (\<exists>logs. pq_trusted_logs req = Some logs \<and> list_ex (\<lambda>t. hex32 env t lid) logs) \<and>
        ts \<le> now \<and>
        min (now - ts) i64_max \<le>
          int (min 86400 (case tp_max_root_age_override proof of Some a \<Rightarrow> min a (root_age_limit req) | None \<Rightarrow> root_age_limit req)) \<and>
        (\<forall>t. tp_log_key_valid_from proof = Some t \<longrightarrow> t \<le> ts) \<and>
        (\<forall>t. tp_log_key_valid_until proof = Some t \<longrightarrow> ts \<le> t) \<and>
        ed_signature (pe_rekor env) sigb = Some sig \<and>
        ed_verify_strict (pe_rekor env) vk
          (canonical_bytes (pe_rekor env)
            \<lparr>rekor_sth.sth_tree_root = root, sth_tree_size = tree_size, sth_timestamp = ts, sth_log_id = lid, sth_signature = sigb\<rparr>)
          sig \<and>
        verify_rekor_inclusion (ne_sha256 (pe_nitro env))
          \<lparr>leaf_hash = leaf, proof_path = path, re_index = idx, re_tree_size = tree_size\<rparr> leaf root = Inr () \<and>
        witnesses_ok req proof)"

definition live_fields :: "transparency_proof \<Rightarrow> bool list" where
  "live_fields proof =
     [tp_proof_path_hex proof \<noteq> None, tp_sth_signature_hex proof \<noteq> None, tp_sth_timestamp proof \<noteq> None,
      tp_sth_tree_root_hex proof \<noteq> None, tp_log_pubkey_hex proof \<noteq> None,
      tp_entry_leaf_hash_hex proof \<noteq> None, tp_current_time proof \<noteq> None]"

definition log_ok :: "('pk, 'sig, 'vk, 'nsig) pcr_env \<Rightarrow> pcr_requirement \<Rightarrow> transparency_proof \<Rightarrow> bool" where
  "log_ok env req proof \<longleftrightarrow>
     tp_inclusion_proof proof \<noteq> Some JNull \<and> tp_inclusion_proof_valid proof \<noteq> Some False \<and>
     (if list_all Not (live_fields proof) then claimed_log_ok req proof
      else pe_test_fixtures env \<and> live_log_ok env req proof)"

definition pcr_acceptable :: "('pk, 'sig, 'vk, 'nsig) pcr_env \<Rightarrow> pcr_input \<Rightarrow> bool" where
  "pcr_acceptable env inp \<longleftrightarrow>
     input_ok inp \<and>
     (\<exists>expected bundle proof.
        pq_expected_pcrs (pi_requirement inp) = Some expected \<and> pi_bundle inp = Some bundle \<and>
        list_all (attestation_ok inp) (pb_attestations bundle) \<and>
        distinct (map pa_attestor_id (pb_attestations bundle)) \<and>
        pb_transparency_log_proof bundle = Some proof \<and> log_ok env (pi_requirement inp) proof \<and>
        pq_quorum (pi_requirement inp) \<le> u32_of_usize (length (pb_attestations bundle)) \<and>
        pcrs_agree expected (pb_attestations bundle))"

section \<open>Each step decides its condition\<close>

lemma duplicate_loop_iff:
  "duplicate_loop seen atts = Inr () \<longleftrightarrow>
     distinct (filter (\<lambda>a. a \<noteq> None) (map pa_attestor_id atts)) \<and> (\<forall>aid \<in> seen. Some aid \<notin> pa_attestor_id ` set atts)"
proof (induction atts arbitrary: seen)
  case (Cons att atts)
  show ?case by (cases "pa_attestor_id att") (auto simp: Cons)
qed simp

definition att_structural :: "pcr_requirement \<Rightarrow> attestation \<Rightarrow> bool" where
  "att_structural req att \<longleftrightarrow>
     pa_attestor_id att \<noteq> None \<and> pa_iat att \<noteq> None \<and> (strict req \<longrightarrow> pa_attestor_comment att = None) \<and>
     list_all pcr_index_valid (map fst (pa_pcrs att))"

lemma structural_iff:
  "classify_bundle_structural bundle req = Inr () \<longleftrightarrow> list_all (att_structural req) (pb_attestations bundle)"
  by (auto simp: classify_bundle_structural_def Let_def check_each_ok check_each_fail_if res_bind_unit
      att_structural_def strict_def list_all_iff list_ex_iff split: option.splits)

definition att_scanned :: "pcr_input \<Rightarrow> attestation \<Rightarrow> bool" where
  "att_scanned inp att \<longleftrightarrow>
     pa_signature_valid att \<and>
     (\<forall>aid. pa_attestor_id att = Some aid \<longrightarrow>
        (\<forall>l. pi_revoked_attestors inp = Some l \<longrightarrow> aid \<notin> set l) \<and>
        (\<forall>ws iat nb. pq_attestor_not_before (pi_requirement inp) = Some ws \<and> pa_iat att = Some iat \<and> map_of ws aid = Some nb \<longrightarrow> nb \<le> iat))"

lemma scans_iff:
  "per_attestor_scans bundle (pi_requirement inp) (pi_revoked_attestors inp) = Inr () \<longleftrightarrow>
     list_all (att_scanned inp) (pb_attestations bundle)"
proof -
  have step: "(case pa_attestor_id att of
         None \<Rightarrow> Inr ()
       | Some aid \<Rightarrow>
           res_bind
             (case rl of
                Some l \<Rightarrow> fail_if (list_ex (\<lambda>r. r = aid) l) PcrAttestorRevoked
              | None \<Rightarrow> Inr ()) (\<lambda>_.
           case (nb, pa_iat att) of
             (Some windows, Some iat) \<Rightarrow>
               (case map_of windows aid of
                  Some not_before \<Rightarrow> fail_if (iat < not_before) PcrAttestorNotYetValid
                | None \<Rightarrow> Inr ())
           | _ \<Rightarrow> Inr ())) = Inr () \<longleftrightarrow>
      (\<forall>aid. pa_attestor_id att = Some aid \<longrightarrow>
        (\<forall>l. rl = Some l \<longrightarrow> aid \<notin> set l) \<and>
        (\<forall>ws iat n. nb = Some ws \<and> pa_iat att = Some iat \<and> map_of ws aid = Some n \<longrightarrow> n \<le> iat))" for att rl nb
    by (auto simp: res_bind_unit list_ex_iff not_less split: option.splits)
  show ?thesis
    unfolding per_attestor_scans_def check_each_ok list_all_iff att_scanned_def
    by (simp only: step res_bind_unit fail_if_simps not_not)
qed

lemma age_ok: "sat_sub now iat \<le> i64_of_u64 m \<longleftrightarrow> now - iat \<le> int m \<or> i64_max \<le> int m"
  by (auto simp: sat_sub_def clamp_i64_def i64_of_u64_def i64_max_def i64_min_def)

definition att_fresh :: "pcr_input \<Rightarrow> attestation \<Rightarrow> bool" where
  "att_fresh inp att \<longleftrightarrow>
     (\<forall>iat. pa_iat att = Some iat \<longrightarrow>
        (\<forall>m. pq_max_age_seconds (pi_requirement inp) = Some m \<longrightarrow> pi_current_time inp - iat \<le> int m \<or> i64_max \<le> int m) \<and>
        iat \<le> sat_add (pi_current_time inp) 300 \<and>
        (\<forall>t. pq_issued_at (pi_requirement inp) = Some t \<longrightarrow> t \<le> iat))"

lemma fresh_iff:
  "classify_freshness bundle (pi_requirement inp) (pi_current_time inp) = Inr () \<longleftrightarrow>
     list_all (att_fresh inp) (pb_attestations bundle)"
  unfolding classify_freshness_def check_each_ok list_all_iff
  by (intro ball_cong refl)
    (auto simp: res_bind_unit att_fresh_def not_less age_ok PCR_CLOCK_SKEW_TOLERANCE_SECONDS_def split: option.split)

lemma nonce_iff:
  "classify_nonce bundle inp = Inr () \<longleftrightarrow>
     (\<forall>ns. pi_router_nonce_consumed inp = Some ns \<longrightarrow> pi_router_nonce_issued inp \<notin> set ns) \<and>
     list_all (\<lambda>att. \<forall>n. pa_nonce att = Some n \<longrightarrow> n = pi_router_nonce_issued inp) (pb_attestations bundle)"
  by (auto simp: classify_nonce_def Let_def check_each_ok res_bind_unit list_all_iff list_ex_iff split: option.splits)

lemma trusted_attestor_iff [simp]: "trusted_attestor req aid \<longleftrightarrow> aid \<in> set (pq_attestors req)"
  by (auto simp: trusted_attestor_def list_ex_iff)

lemma trust_iff:
  "classify_trust_filter bundle req = Inr () \<longleftrightarrow>
     list_all (\<lambda>att. \<forall>aid. pa_attestor_id att = Some aid \<longrightarrow> aid \<in> set (pq_attestors req)) (pb_attestations bundle)"
  by (auto simp: classify_trust_filter_def check_each_ok list_all_iff split: option.splits)

text \<open>Once every attestation is signed by a trusted attestor of its own, all of them count.\<close>

lemma counted_cases:
  "counted req att \<Longrightarrow> \<exists>aid. pa_attestor_id att = Some aid \<and> aid \<in> set (pq_attestors req) \<and> pa_signature_valid att"
  by (auto simp: counted_def split: option.splits)

lemma count_all:
  assumes "list_all (counted req) (pb_attestations bundle)" "distinct (map pa_attestor_id (pb_attestations bundle))"
  shows "count_trusted_valid bundle req = u32_of_usize (length (pb_attestations bundle))"
proof -
  define add_one where "add_one = (\<lambda>seen (att :: attestation).
       if \<not> pa_signature_valid att then seen
       else
         (case pa_attestor_id att of
            Some aid \<Rightarrow> if trusted_attestor req aid then insert aid seen else seen
          | None \<Rightarrow> seen))"
  have "Some ` foldl add_one S atts = Some ` S \<union> pa_attestor_id ` set atts" if "list_all (counted req) atts" for atts S
    using that
  proof (induction atts arbitrary: S)
    case (Cons att atts)
    then have "counted req att" by simp
    then obtain aid where "pa_attestor_id att = Some aid" "aid \<in> set (pq_attestors req)" "pa_signature_valid att"
      by (blast dest: counted_cases)
    then have "Some ` add_one S att = Some ` S \<union> {pa_attestor_id att}" by (simp add: add_one_def)
    moreover have "list_all (counted req) atts" using Cons.prems by simp
    note Cons.IH [OF this, of "add_one S att"]
    ultimately show ?case by (simp only: foldl_Cons list.set image_insert) auto
  qed simp
  from this [OF assms(1), of "{}"] have "card (Some ` foldl add_one {} (pb_attestations bundle)) =
      length (pb_attestations bundle)"
    using distinct_card [OF assms(2)] by simp
  then have "card (foldl add_one {} (pb_attestations bundle)) = length (pb_attestations bundle)"
    by (simp add: card_image)
  then show ?thesis by (simp add: count_trusted_valid_def add_one_def)
qed

lemma divergent_iff:
  assumes "list_all (counted req) atts"
  shows "\<not> divergent req index value atts \<longleftrightarrow>
    (\<exists>w. (value = None \<or> value = Some w) \<and> (\<forall>att \<in> set atts. map_of (pa_pcrs att) index \<in> {None, Some w}))"
  using assms
proof (induction atts arbitrary: "value")
  case Nil
  then show ?case by (cases "value") auto
next
  case (Cons att atts)
  then obtain aid where "pa_attestor_id att = Some aid" "pa_signature_valid att" "trusted_attestor req aid"
    by (auto simp: counted_def split: option.splits)
  moreover have IH: "divergent req index v atts \<longleftrightarrow>
      \<not> (\<exists>w. (v = None \<or> v = Some w) \<and> (\<forall>att \<in> set atts. map_of (pa_pcrs att) index \<in> {None, Some w}))" for v
    by (subst not_not [symmetric], subst Cons.IH) (use Cons.prems in simp_all)
  ultimately show ?case
    by (cases "map_of (pa_pcrs att) index"; cases "value"; simp add: IH; blast?)
qed

lemma agree_iff:
  assumes "list_all (counted req) (pb_attestations bundle)" "pq_expected_pcrs req = Some expected"
  shows "\<not> cross_attestor_mismatch bundle req \<and> \<not> expected_value_mismatch bundle req \<longleftrightarrow>
    pcrs_agree expected (pb_attestations bundle)"
proof -
  let ?atts = "pb_attestations bundle"
  have cross: "\<not> cross_attestor_mismatch bundle req \<longleftrightarrow>
      (\<forall>(index, want) \<in> set expected. \<exists>w. \<forall>att \<in> set ?atts. map_of (pa_pcrs att) index \<in> {None, Some w})"
    using divergent_iff [OF assms(1)] by (fastforce simp: cross_attestor_mismatch_def assms(2) list_ex_iff)
  have found: "(case List.find (\<lambda>att. counted req att \<and> map_of (pa_pcrs att) index \<noteq> None) ?atts of
        None \<Rightarrow> True
      | Some att \<Rightarrow> (case map_of (pa_pcrs att) index of None \<Rightarrow> True | Some v \<Rightarrow> v \<noteq> want)) \<longleftrightarrow>
      \<not> (\<exists>att \<in> set ?atts. map_of (pa_pcrs att) index = Some want)"
    if uniform: "\<forall>att \<in> set ?atts. map_of (pa_pcrs att) index \<in> {None, Some w}" for index want w
  proof (cases "List.find (\<lambda>att. counted req att \<and> map_of (pa_pcrs att) index \<noteq> None) ?atts")
    case None
    then have "\<forall>att \<in> set ?atts. map_of (pa_pcrs att) index = None"
      using assms(1) by (auto simp: find_None_iff list_all_iff)
    then show ?thesis unfolding None by auto
  next
    case (Some att)
    then have att: "att \<in> set ?atts" "map_of (pa_pcrs att) index \<noteq> None" by (auto simp: find_Some_iff)
    with uniform have w: "map_of (pa_pcrs att) index = Some w" by auto
    have "(\<exists>att \<in> set ?atts. map_of (pa_pcrs att) index = Some want) \<longleftrightarrow> w = want"
    proof
      assume "\<exists>att \<in> set ?atts. map_of (pa_pcrs att) index = Some want"
      then obtain b where "b \<in> set ?atts" "map_of (pa_pcrs b) index = Some want" by blast
      with bspec [OF uniform, of b] show "w = want" by simp
    qed (use att w in blast)
    with w show ?thesis unfolding Some by simp
  qed
  have "\<not> expected_value_mismatch bundle req \<longleftrightarrow>
      (\<forall>(index, want) \<in> set expected. \<exists>att \<in> set ?atts. map_of (pa_pcrs att) index = Some want)"
    if no_cross: "\<not> cross_attestor_mismatch bundle req"
  proof -
    have "(case List.find (\<lambda>att. counted req att \<and> map_of (pa_pcrs att) index \<noteq> None) ?atts of
        None \<Rightarrow> True
      | Some att \<Rightarrow> (case map_of (pa_pcrs att) index of None \<Rightarrow> True | Some v \<Rightarrow> v \<noteq> want)) \<longleftrightarrow>
      \<not> (\<exists>att \<in> set ?atts. map_of (pa_pcrs att) index = Some want)" if "(index, want) \<in> set expected" for index want
    proof -
      from no_cross that obtain w where "\<forall>att \<in> set ?atts. map_of (pa_pcrs att) index \<in> {None, Some w}"
        unfolding cross by blast
      then show ?thesis by (rule found)
    qed
    then show ?thesis
      unfolding expected_value_mismatch_def assms(2) option.case list_ex_iff by blast
  qed
  moreover define uniform where "uniform index w \<longleftrightarrow> (\<forall>att \<in> set ?atts. map_of (pa_pcrs att) index \<in> {None, Some w})" for index w
  moreover define reported where "reported index w \<longleftrightarrow> (\<exists>att \<in> set ?atts. map_of (pa_pcrs att) index = Some w)" for index w
  moreover have "w' = w" if "uniform index w'" "reported index w" for index w w'
    using that by (auto simp: uniform_def reported_def)
  ultimately show ?thesis
    unfolding cross pcrs_agree_def uniform_def [symmetric] reported_def [symmetric] by blast
qed

section \<open>The transparency log\<close>

lemma hex32_iff: "decode_hex_fixed env h = Inr b \<longleftrightarrow> hex32 env h b"
  by (auto simp: decode_hex_fixed_def decode_hex_var_def hex32_def res_bind_eq_Inr)

lemma witness_iff: "witness_check req proof = Inr () \<longleftrightarrow> witnesses_ok req proof"
  by (auto simp: witness_check_def witnesses_ok_def not_less split: option.split)

lemma presence_iff:
  "live_rekor_presence_of proof = PresNone \<longleftrightarrow> list_all Not (live_fields proof)"
  "live_rekor_presence_of proof = PresFull \<longleftrightarrow> list_all (\<lambda>b. b) (live_fields proof)"
proof -
  define flags where "flags = live_fields proof"
  have "flags \<noteq> []" by (simp add: flags_def live_fields_def)
  moreover have "length (filter (\<lambda>b. b) flags) = 0 \<longleftrightarrow> list_all Not flags"
    by (induction flags) auto
  moreover have "length (filter (\<lambda>b. b) flags) = length flags \<longleftrightarrow> list_all (\<lambda>b. b) flags"
    by (metis (full_types) length_filter_less less_irrefl list_all_iff filter_True)
  moreover have "live_rekor_presence_of proof =
      (let set_flags = length (filter (\<lambda>b. b) flags)
       in if set_flags = 0 then PresNone else if set_flags = length flags then PresFull else PresPartial)"
    unfolding live_rekor_presence_of_def flags_def live_fields_def Let_def ..
  ultimately show "live_rekor_presence_of proof = PresNone \<longleftrightarrow> list_all Not (live_fields proof)"
    "live_rekor_presence_of proof = PresFull \<longleftrightarrow> list_all (\<lambda>b. b) (live_fields proof)"
    unfolding flags_def [symmetric] by (auto simp: Let_def)
qed

lemma policy_iff:
  "live_policy env proof req lid ts now = Inr () \<longleftrightarrow>
     (\<exists>logs. pq_trusted_logs req = Some logs \<and> list_ex (\<lambda>t. hex32 env t lid) logs) \<and> ts \<le> now \<and>
     min (now - ts) i64_max \<le>
       int (case tp_max_root_age_override proof of Some a \<Rightarrow> min a (root_age_limit req) | None \<Rightarrow> root_age_limit req)"
proof -
  have sat: "sat_sub now ts < 0 \<longleftrightarrow> now < ts" "\<not> now < ts \<Longrightarrow> sat_sub now ts = min (now - ts) i64_max"
    by (auto simp: sat_sub_def clamp_i64_def i64_max_def i64_min_def)
  have base: "(case pq_max_root_age_seconds req of Some a \<Rightarrow> a | None \<Rightarrow> DEFAULT_MAX_ROOT_AGE_SECONDS) = root_age_limit req"
    by (simp add: root_age_limit_def DEFAULT_MAX_ROOT_AGE_SECONDS_def split: option.split)
  have "0 \<le> i64_max" by (simp add: i64_max_def)
  then show ?thesis
    unfolding live_policy_def base Let_def res_bind_eq_Inr ok_or_Inr hex32_iff
    by (auto simp: sat not_less nat_le_iff)
qed

lemma single_key:
  "(\<exists>u. map_err (\<lambda>_. e) (fst (insert_checked renv [] lid vk kf ku)) = Inr u) \<and>
   verify_rekor_sth renv sth (snd (insert_checked renv [] lid vk kf ku)) now max_age = Inr () \<longleftrightarrow>
     sth_timestamp sth \<le> now \<and> min (now - sth_timestamp sth) i64_max \<le> int max_age \<and>
     lid = sth_log_id sth \<and> kf \<le> sth_timestamp sth \<and> sth_timestamp sth \<le> ku \<and>
     (\<exists>sig. ed_signature renv (sth_signature sth) = Some sig \<and>
        ed_verify_strict renv vk (canonical_bytes renv sth) sig)"
proof (cases "kf \<le> ku \<and> sth_timestamp sth \<le> now")
  case True
  then have "sat_sub now (sth_timestamp sth) = min (now - sth_timestamp sth) i64_max"
    and "0 \<le> min (now - sth_timestamp sth) i64_max"
    by (auto simp: sat_sub_def clamp_i64_def i64_max_def i64_min_def)
  with True show ?thesis
    by (auto simp: insert_checked_def verify_rekor_sth_def find_for_timestamp_def max_by_key_def covers_def Let_def
        not_less nat_le_iff split: option.splits if_splits)
qed (auto simp: insert_checked_def verify_rekor_sth_def)

lemma res_map_hex: "res_map (decode_hex_fixed env) hs = Inr bs \<longleftrightarrow> list_all2 (hex32 env) hs bs"
  by (simp add: res_map_Inr hex32_iff)

lemma decode_hex_var_Inr: "decode_hex_var env h = Inr b \<longleftrightarrow> hex_decode (pe_rekor env) h = Some b"
  by (simp add: decode_hex_var_def)

lemma key_window:
  "(case vf of Some t \<Rightarrow> t | None \<Rightarrow> ts) \<le> ts \<longleftrightarrow> (\<forall>t. vf = Some t \<longrightarrow> t \<le> ts)"
  "ts \<le> (case vu of Some t \<Rightarrow> t | None \<Rightarrow> ts) \<longleftrightarrow> (\<forall>t. vu = Some t \<longrightarrow> ts \<le> t)" for ts :: int
  by (simp_all split: option.split)

lemma min_both: "a \<le> int (min m n) \<longleftrightarrow> a \<le> int n \<and> a \<le> int m"
  by auto

lemma live_rekor_cond: "classify_live_rekor env proof req = Inr () \<longleftrightarrow> live_log_ok env req proof"
proof -
  let ?kf = "\<lambda>ts. case tp_log_key_valid_from proof of Some t \<Rightarrow> t | None \<Rightarrow> ts"
  let ?ku = "\<lambda>ts. case tp_log_key_valid_until proof of Some t \<Rightarrow> t | None \<Rightarrow> ts"
  let ?lid = "case tp_log_id_hex proof of Some h \<Rightarrow> h | None \<Rightarrow> tp_log_id proof"
  let ?sth = "\<lambda>root tree_size ts lid sigb. \<lparr>rekor_sth.sth_tree_root = root, sth_tree_size = tree_size,
      sth_timestamp = ts, sth_log_id = lid, sth_signature = sigb\<rparr>"
  have stages: "classify_live_rekor env proof req = Inr () \<longleftrightarrow>
    (\<exists>path_hex. tp_proof_path_hex proof = Some path_hex \<and> (\<exists>sig_hex. tp_sth_signature_hex proof = Some sig_hex \<and>
    (\<exists>ts. tp_sth_timestamp proof = Some ts \<and> (\<exists>root_hex. tp_sth_tree_root_hex proof = Some root_hex \<and>
    (\<exists>key_hex. tp_log_pubkey_hex proof = Some key_hex \<and> (\<exists>leaf_hex. tp_entry_leaf_hash_hex proof = Some leaf_hex \<and>
    (\<exists>now. tp_current_time proof = Some now \<and> (\<exists>tree_size. tp_sth_tree_size proof = Some tree_size \<and>
    (\<exists>idx. tp_entry_index proof = Some idx \<and> \<not> length path_hex > MAX_INCLUSION_DEPTH \<and>
    (\<exists>root. hex32 env root_hex root \<and> (\<exists>leaf. hex32 env leaf_hex leaf \<and> (\<exists>key. hex32 env key_hex key \<and>
    (\<exists>sigb. hex_decode (pe_rekor env) sig_hex = Some sigb \<and> (\<exists>lid. hex32 env ?lid lid \<and>
    (\<exists>path. list_all2 (hex32 env) path_hex path \<and> (\<exists>vk. ed_point (pe_rekor env) key = Some vk \<and>
    live_policy env proof req lid ts now = Inr () \<and>
    ((\<exists>u. map_err (\<lambda>_. PcrAttestationTransparencyInvalid)
        (fst (insert_checked (pe_rekor env) [] lid vk (?kf ts) (?ku ts))) = Inr u) \<and>
     verify_rekor_sth (pe_rekor env) (?sth root tree_size ts lid sigb)
       (snd (insert_checked (pe_rekor env) [] lid vk (?kf ts) (?ku ts))) now MAX_STH_AGE_SECONDS = Inr ()) \<and>
    verify_rekor_inclusion (ne_sha256 (pe_nitro env))
      \<lparr>leaf_hash = leaf, proof_path = path, re_index = idx, re_tree_size = tree_size\<rparr> leaf root = Inr () \<and>
    witness_check req proof = Inr ()))))))))))))))))"
    unfolding classify_live_rekor_def Let_def res_bind_eq_Inr ok_or_Inr hex32_iff decode_hex_var_Inr res_map_hex
      map_err_Inr if_Inl_Inr
    by simp
  show ?thesis
    unfolding stages single_key policy_iff witness_iff live_log_ok_def min_both MAX_INCLUSION_DEPTH_def MAX_STH_AGE_SECONDS_def
      not_less key_window rekor_sth.select_convs
    by (rule iffI; (elim exE conjE); (intro exI conjI); (assumption | rule refl)?)
qed

lemma claimed_log_cond:
  "claimed_log_check req proof = Inr () \<longleftrightarrow>
     tp_inclusion_proof_valid proof \<noteq> Some False \<and> claimed_log_ok req proof"
proof -
  have base: "(case pq_max_root_age_seconds req of Some a \<Rightarrow> a | None \<Rightarrow> DEFAULT_MAX_ROOT_AGE_SECONDS) = root_age_limit req"
    by (simp add: root_age_limit_def DEFAULT_MAX_ROOT_AGE_SECONDS_def split: option.split)
  show ?thesis
    unfolding claimed_log_check_def base Let_def opt_fail opt2_fail res_bind_unit if_Inl_Inr
    by (cases "pq_trusted_logs req")
      (auto simp: claimed_log_ok_def res_bind_unit witness_iff list_ex_iff not_less)
qed

lemma log_iff:
  "classify_transparency_log env bundle req = Inr () \<longleftrightarrow>
     (\<exists>proof. pb_transparency_log_proof bundle = Some proof \<and> log_ok env req proof)"
proof (cases "pb_transparency_log_proof bundle")
  case (Some pf)
  have full: "list_all (\<lambda>b. b) (live_fields pf)" if "live_log_ok env req pf"
    using that by (auto simp: live_log_ok_def live_fields_def)
  have not_both: "\<not> (list_all Not (live_fields pf) \<and> list_all (\<lambda>b. b) (live_fields pf))"
    by (cases "tp_current_time pf") (simp_all add: live_fields_def)
  show ?thesis
  proof (cases "live_rekor_presence_of pf")
    case PresNone
    then show ?thesis
      using Some presence_iff(1) [of pf] by (auto simp: classify_transparency_log_def log_ok_def claimed_log_cond)
  next
    case PresPartial
    then show ?thesis using Some full presence_iff [of pf]
      by (auto simp: classify_transparency_log_def log_ok_def)
  next
    case PresFull
    then have "\<not> list_all Not (live_fields pf)" using presence_iff(2) [of pf] not_both by simp
    with PresFull Some show ?thesis
      by (auto simp: classify_transparency_log_def log_ok_def live_rekor_cond)
  qed
qed (simp add: classify_transparency_log_def)

section \<open>The pipeline\<close>

lemma defects_iff:
  "classify_tariff_defects req = Inr () \<longleftrightarrow> requirement_ok req \<and> pq_expected_pcrs req \<noteq> None"
  by (auto simp: classify_tariff_defects_def res_bind_unit requirement_ok_def)

lemma attestation_ok_stages:
  "list_all (attestation_ok inp) atts \<longleftrightarrow>
     list_all (att_structural (pi_requirement inp)) atts \<and> list_all (att_scanned inp) atts \<and> list_all (att_fresh inp) atts \<and>
     list_all (\<lambda>att. \<forall>n. pa_nonce att = Some n \<longrightarrow> n = pi_router_nonce_issued inp) atts \<and>
     list_all (\<lambda>att. \<forall>aid. pa_attestor_id att = Some aid \<longrightarrow> aid \<in> set (pq_attestors (pi_requirement inp))) atts"
proof -
  have "attestation_ok inp att \<longleftrightarrow>
     att_structural (pi_requirement inp) att \<and> att_scanned inp att \<and> att_fresh inp att \<and>
     (\<forall>n. pa_nonce att = Some n \<longrightarrow> n = pi_router_nonce_issued inp) \<and>
     (\<forall>aid. pa_attestor_id att = Some aid \<longrightarrow> aid \<in> set (pq_attestors (pi_requirement inp)))" for att
    by (cases "pa_attestor_id att"; cases "pa_iat att")
      (auto simp: attestation_ok_def att_structural_def att_scanned_def att_fresh_def Let_def)
  then show ?thesis by (auto simp: list_all_iff)
qed

lemma filter_ids:
  "list_all (att_structural req) atts \<Longrightarrow> filter (\<lambda>a. a \<noteq> None) (map pa_attestor_id atts) = map pa_attestor_id atts"
  by (auto simp: list_all_iff att_structural_def intro!: filter_True)

lemma pcr_conditions: "pcr_defect env inp = Inr () \<longleftrightarrow> pcr_acceptable env inp"
proof (cases "pi_bundle inp")
  case None
  then show ?thesis by (auto simp: pcr_defect_def Let_def res_bind_unit pcr_acceptable_def)
next
  case (Some bdl)
  let ?atts = "pb_attestations bdl" and ?req = "pi_requirement inp"
  have size_step: "(case (pi_declared_size_bytes inp, pq_bundle_max_size_bytes ?req) of
           (Some declared, Some mx) \<Rightarrow> fail_if (declared > mx) PcrBundleTooLarge
         | _ \<Rightarrow> Inr ()) = Inr () \<longleftrightarrow>
      (\<forall>d m. pi_declared_size_bytes inp = Some d \<and> pq_bundle_max_size_bytes ?req = Some m \<longrightarrow> d \<le> m)"
    unfolding opt2_fail by (auto simp: not_less)
  have dup: "detect_duplicate_attestor bdl = Inr () \<longleftrightarrow> distinct (map pa_attestor_id ?atts)"
    if "list_all (att_structural ?req) ?atts"
    using filter_ids [OF that] by (simp add: detect_duplicate_attestor_def duplicate_loop_iff)
  have ends: "\<not> count_trusted_valid bdl ?req < pq_quorum ?req \<and>
      \<not> cross_attestor_mismatch bdl ?req \<and> \<not> expected_value_mismatch bdl ?req \<longleftrightarrow>
      pq_quorum ?req \<le> u32_of_usize (length ?atts) \<and> pcrs_agree expected ?atts"
    if ok: "list_all (attestation_ok inp) ?atts" "distinct (map pa_attestor_id ?atts)" "pq_expected_pcrs ?req = Some expected"
    for expected
  proof -
    have "list_all (counted ?req) ?atts"
      using ok(1) by (auto simp: list_all_iff attestation_ok_def counted_def Let_def)
    with ok show ?thesis using count_all [of ?req bdl] agree_iff [of ?req bdl expected] by (auto simp: not_less)
  qed
  have "pcr_defect env inp = Inr () \<longleftrightarrow>
      input_ok inp \<and> pq_expected_pcrs ?req \<noteq> None \<and> list_all (attestation_ok inp) ?atts \<and>
      distinct (map pa_attestor_id ?atts) \<and> classify_transparency_log env bdl ?req = Inr () \<and>
      (\<not> count_trusted_valid bdl ?req < pq_quorum ?req \<and> \<not> cross_attestor_mismatch bdl ?req \<and>
       \<not> expected_value_mismatch bdl ?req)"
    unfolding pcr_defect_def Let_def res_bind_unit Some option.case size_step fail_if_simps defects_iff structural_iff
      scans_iff fresh_iff nonce_iff trust_iff attestation_ok_stages input_ok_def
    using dup by (cases "list_all (att_structural ?req) ?atts") auto
  also have "\<dots> \<longleftrightarrow> pcr_acceptable env inp"
    unfolding pcr_acceptable_def log_iff Some using ends by auto
  finally show ?thesis .
qed

text \<open>C6: the thirteen steps find no defect exactly in these bundles.  The Tariff's requirement is
  well-formed and has expected PCRs, the declared size is allowed, the nonce is not consumed; every
  attestation names an attestor of the Tariff, different from the others, not revoked and already valid,
  is signed, fresh, not older than the Tariff and carries the router's nonce if it carries one; the
  transparency proof holds, on the live path by tree-head signature and inclusion; the attestations
  reach the quorum; and of every expected PCR some attestation reports the expected value while none
  reports another.  As the code has it, a proof without \<open>inclusion_proof\<close> and without a claim of validity is not a
  missing proof, although the comments on the two fields say so: off the live path only an explicit \<open>false\<close>, or a
  null that arrives as a value, is refused.\<close>

theorem pcr_clean_iff: "pcr_defect env inp = Inr () \<longleftrightarrow> pcr_acceptable env inp"
  by (rule pcr_conditions)

text \<open>C7: the live path accepts a transparency proof exactly when all its evidence is present and decodes,
  the log is one the Tariff names by its 32 bytes, the tree head is not from the future, is within the
  tighter of the Tariff's and the proof's age limits and within a day, its signature verifies strictly over
  the canonical bytes under the key that the proof itself supplies, whose window covers the head, the
  inclusion proof of the supplied leaf hash verifies against the root of this head, and enough
  cosignatures are attached.  The age limit of the proof can only tighten that of the Tariff, as the comment in the
  body says; the comment on the function, by which it precedes the Tariff's, does not describe the code.\<close>

theorem live_rekor_iff: "classify_live_rekor env proof req = Inr () \<longleftrightarrow> live_log_ok env req proof"
  by (rule live_rekor_cond)

section \<open>The live Nitro path\<close>

lemma insert_for_test_trust:
  "find_by_fingerprint (snd (insert_trusted_der_for_test env roots der)) fp \<noteq> None \<longleftrightarrow>
     find_by_fingerprint roots fp \<noteq> None \<or> fp = ne_sha256 env der"
  by (auto simp: find_by_fingerprint_def insert_trusted_der_for_test_def Let_def find_None_iff find_Some_iff list_ex_iff)

lemma insert_roots_Inr:
  "insert_roots env hs roots = Inr result \<longleftrightarrow>
     (\<exists>ders. list_all2 (\<lambda>h der. hex_decode (pe_rekor env) h = Some der) hs ders \<and>
        result = fold (\<lambda>der roots. snd (insert_trusted_der_for_test (pe_nitro env) roots der)) ders roots)"
proof (induction hs arbitrary: roots)
  case (Cons h hs)
  have "insert_trusted_der_for_test (pe_nitro env) roots der =
      (Inr (), snd (insert_trusted_der_for_test (pe_nitro env) roots der))" for der roots
    by (simp add: insert_trusted_der_for_test_def Let_def)
  then have step: "(case insert_trusted_der_for_test (pe_nitro env) roots der of
       (Inl _, _) \<Rightarrow> Inl PcrBundleMalformed | (Inr _, roots) \<Rightarrow> insert_roots env hs roots) =
      insert_roots env hs (snd (insert_trusted_der_for_test (pe_nitro env) roots der))" for der
    by (metis (no_types, lifting) case_prod_conv old.sum.simps(6))
  show ?case
    by (auto simp: res_bind_eq_Inr step Cons.IH list_all2_Cons1)
      (rule exI, rule conjI, rule exI, rule conjI, rule refl, assumption, simp)
qed auto

lemma test_roots_trust:
  "{fp. find_by_fingerprint (fold (\<lambda>der roots. snd (insert_trusted_der_for_test env roots der)) ders []) fp \<noteq> None} =
     ne_sha256 env ` set ders"
proof -
  have "find_by_fingerprint (fold (\<lambda>der roots. snd (insert_trusted_der_for_test env roots der)) ders roots) fp \<noteq> None \<longleftrightarrow>
      find_by_fingerprint roots fp \<noteq> None \<or> fp \<in> ne_sha256 env ` set ders" for fp roots
  proof (induction ders arbitrary: roots)
    case (Cons der ders)
    show ?case unfolding fold_simps Cons.IH insert_for_test_trust by auto
  qed simp
  from this [of "[]"] show ?thesis by (auto simp: find_by_fingerprint_def)
qed

definition nonce_given :: "('pk, 'sig, 'vk, 'nsig) pcr_env \<Rightarrow> live_nitro_input \<Rightarrow> string option \<Rightarrow> bool" where
  "nonce_given env inp nonce \<longleftrightarrow>
     (case ln_expected_nonce_hex inp of
        None \<Rightarrow> nonce = None
      | Some h \<Rightarrow> nonce \<noteq> None \<and> hex_decode (pe_rekor env) h = nonce)"

definition live_nitro_ok :: "('pk, 'sig, 'vk, 'nsig) pcr_env \<Rightarrow> live_nitro_input \<Rightarrow> bool" where
  "live_nitro_ok env inp \<longleftrightarrow>
     length (ln_trusted_roots_der_hex inp) \<le> 8 \<and>
     (\<exists>doc ders nonce claims expected.
        hex_decode (pe_rekor env) (ln_cose_sign1_bytes inp) = Some doc \<and>
        list_all2 (\<lambda>h der. hex_decode (pe_rekor env) h = Some der) (ln_trusted_roots_der_hex inp) ders \<and>
        nonce_given env inp nonce \<and>
        nitro_accepts (pe_nitro env) (ne_sha256 (pe_nitro env) ` set ders) nonce (ln_current_time inp) doc claims \<and>
        list_all2 (\<lambda>kv p. \<exists>s. strip_pcr (fst kv) = Some s \<and> parse_unsigned 255 s = Some (fst p) \<and>
            hex_decode (pe_rekor env) (snd kv) = Some (snd p)) (ln_expected_pcrs inp) expected \<and>
        distinct (map fst (nc_pcrs claims)) \<and> set expected \<subseteq> {0..<24} \<times> UNIV \<inter> set (nc_pcrs claims))"

lemma expected_pair_Inr:
  "expected_pair env kv = Inr p \<longleftrightarrow>
     (\<exists>s. strip_pcr (fst kv) = Some s \<and> parse_unsigned 255 s = Some (fst p) \<and>
        hex_decode (pe_rekor env) (snd kv) = Some (snd p))"
  by (cases p) (auto simp: expected_pair_def res_bind_eq_Inr)

lemma ex_image: "(\<exists>r. (\<exists>d. L d \<and> r = F d) \<and> Q r) \<longleftrightarrow> (\<exists>d. L d \<and> Q (F d))"
  by blast

text \<open>The live Nitro path succeeds exactly when its hex fields decode, at most eight roots are given,
  the document is accepted (in the sense of the document verifier) with the given roots as the pinned
  ones and the given nonce and clock, and the expected PCRs are among the reported ones.\<close>

theorem live_nitro_iff: "classify_live_nitro env inp = Inr () \<longleftrightarrow> live_nitro_ok env inp"
proof -
  have nonce: "(case ln_expected_nonce_hex inp of
      Some h \<Rightarrow> res_bind (ok_or PcrBundleMalformed (hex_decode (pe_rekor env) h)) (\<lambda>b. Inr (Some b))
    | None \<Rightarrow> Inr None) = Inr n \<longleftrightarrow> nonce_given env inp n" for n
    by (auto simp: nonce_given_def res_bind_eq_Inr split: option.split)
  have "classify_live_nitro env inp = Inr () \<longleftrightarrow>
    (\<exists>doc. hex_decode (pe_rekor env) (ln_cose_sign1_bytes inp) = Some doc \<and>
       \<not> length (ln_trusted_roots_der_hex inp) > MAX_TRUSTED_ROOTS \<and>
       (\<exists>roots. insert_roots env (ln_trusted_roots_der_hex inp) [] = Inr roots \<and>
       (\<exists>n. nonce_given env inp n \<and>
       (\<exists>claims. verify_nitro_attestation (pe_nitro env) doc roots n (ln_current_time inp) = Inr claims \<and>
       (\<exists>expected. list_all2 (\<lambda>kv p. expected_pair env kv = Inr p) (ln_expected_pcrs inp) expected \<and>
          verify_pcr_set claims expected = Inr ())))))"
    unfolding classify_live_nitro_def res_bind_eq_Inr ok_or_Inr map_err_Inr nonce res_map_Inr if_Inl_Inr by simp
  then show ?thesis
    unfolding insert_roots_Inr verify_nitro_iff pcr_set_cond expected_pair_Inr live_nitro_ok_def MAX_TRUSTED_ROOTS_def
      not_less ex_image test_roots_trust by blast
qed

section \<open>Silent attestors\<close>

text \<open>A quorum of attestors need not agree on anything: once one of them reports the expected values, the
  others may report no PCR at all, and the verdict stays the same.\<close>

lemma silent_attestors:
  assumes "pi_bundle inp = Some \<lparr>pb_attestations = a # rest, pb_transparency_log_proof = p\<rparr>"
    and "pq_expected_pcrs (pi_requirement inp) = Some expected"
    and "\<And>index want. (index, want) \<in> set expected \<Longrightarrow> map_of (pa_pcrs a) index = Some want"
    and "pcr_defect env inp = Inr ()"
  shows "pcr_defect env (inp\<lparr>pi_bundle := Some \<lparr>pb_attestations = a # map (\<lambda>b. b\<lparr>pa_pcrs := []\<rparr>) rest,
    pb_transparency_log_proof = p\<rparr>\<rparr>) = Inr ()"
proof -
  have ids: "map (pa_attestor_id \<circ> (\<lambda>b. b\<lparr>pa_pcrs := []\<rparr>)) rest = map pa_attestor_id rest" by simp
  have "attestation_ok inp b \<Longrightarrow>
      attestation_ok (inp\<lparr>pi_bundle := q\<rparr>) (b\<lparr>pa_pcrs := []\<rparr>)" for b q
    by (auto simp: attestation_ok_def Let_def)
  moreover have "attestation_ok (inp\<lparr>pi_bundle := q\<rparr>) b \<longleftrightarrow> attestation_ok inp b" for b q
    by (simp add: attestation_ok_def)
  ultimately show ?thesis
    using assms unfolding pcr_conditions pcr_acceptable_def
    by (auto simp: input_ok_def list_all_iff pcrs_agree_def image_iff comp_def)
qed

end
