(* ===== verification/Canon.thy ===== *)
theory Canon
  imports Vectors Json
begin

text \<open>
  \<open>ephemeral-core/src/suites/canonicalization.rs\<close>: the admission pipeline for raw intents, the scanners of
  raw JSON text and the executor of the suite.  The Unicode tables (NFC, NFKC and lower case), the JSON
  parser and the debug format of strings are fields of \<open>canon_env\<close>.  A \<open>&str\<close> is its UTF-8 bytes, so
  \<open>contains\<close> of an ASCII character is membership of its byte; allocations do not fail.
\<close>

section \<open>Constants and codes\<close>

definition MAX_STRING_BYTES :: nat where "MAX_STRING_BYTES = 4096"

definition MAX_KEY_BYTES :: nat where "MAX_KEY_BYTES = 256"

definition MAX_INTENT_DEPTH :: nat where "MAX_INTENT_DEPTH = 9"

definition MAX_ARRAY_LEN :: nat where "MAX_ARRAY_LEN = 256"

definition MAX_INTENT_BYTES :: nat where "MAX_INTENT_BYTES = 65536"

definition ALLOWED_TOP_LEVEL_KEYS :: "string list" where
  "ALLOWED_TOP_LEVEL_KEYS = [''verb'', ''resource_kind'', ''namespace'', ''name'', ''params'']"

definition ENUMERATED_FIELDS :: "string list" where
  "ENUMERATED_FIELDS = [''verb'', ''resource_kind'', ''namespace'', ''name'']"

definition ALLOWED_VERBS :: "string list" where
  "ALLOWED_VERBS = [''get'', ''list'', ''watch'', ''create'', ''update'', ''patch'', ''delete'', ''scale'', ''apply'']"

datatype canon_code =
    NormalizationNotApplied
  | InvalidControlChar
  | UnicodeNotNfc
  | NullValueForbidden
  | CaseFoldUnstable
  | NfkcUnstable
  | NumericNonCanonical
  | DuplicateJsonKey
  | EmptyRequiredField
  | UnknownField
  | UnknownVerb
  | WhitespaceForbidden
  | MaxStringLengthExceeded
  | MaxKeyLengthExceeded
  | MaxDepthExceeded
  | MaxArrayLengthExceeded
  | MaxIntentSizeExceeded
  | MaxLengthExceeded
  | IdentifierSeparatorForbidden
  | InvalidUtf8
  | MalformedEncoding

fun canon_code_display :: "canon_code \<Rightarrow> string" where
  "canon_code_display NormalizationNotApplied = ''normalization-not-applied''"
| "canon_code_display InvalidControlChar = ''invalid-control-char''"
| "canon_code_display UnicodeNotNfc = ''unicode-not-nfc''"
| "canon_code_display NullValueForbidden = ''null-value-forbidden''"
| "canon_code_display CaseFoldUnstable = ''case-fold-unstable''"
| "canon_code_display NfkcUnstable = ''nfkc-unstable''"
| "canon_code_display NumericNonCanonical = ''numeric-non-canonical''"
| "canon_code_display DuplicateJsonKey = ''duplicate-json-key''"
| "canon_code_display EmptyRequiredField = ''empty-required-field''"
| "canon_code_display UnknownField = ''unknown-field''"
| "canon_code_display UnknownVerb = ''unknown-verb''"
| "canon_code_display WhitespaceForbidden = ''whitespace-forbidden''"
| "canon_code_display MaxStringLengthExceeded = ''max-string-length-exceeded''"
| "canon_code_display MaxKeyLengthExceeded = ''max-key-length-exceeded''"
| "canon_code_display MaxDepthExceeded = ''max-depth-exceeded''"
| "canon_code_display MaxArrayLengthExceeded = ''max-array-length-exceeded''"
| "canon_code_display MaxIntentSizeExceeded = ''max-intent-size-exceeded''"
| "canon_code_display MaxLengthExceeded = ''max-length-exceeded''"
| "canon_code_display IdentifierSeparatorForbidden = ''identifier-separator-forbidden''"
| "canon_code_display InvalidUtf8 = ''invalid-utf8''"
| "canon_code_display MalformedEncoding = ''malformed-encoding''"

definition is_normalization_family :: "canon_code \<Rightarrow> bool" where
  "is_normalization_family c \<longleftrightarrow>
     c \<in> {NormalizationNotApplied, UnicodeNotNfc, NullValueForbidden, CaseFoldUnstable, NfkcUnstable,
          NumericNonCanonical, DuplicateJsonKey, EmptyRequiredField, UnknownField, UnknownVerb, WhitespaceForbidden}"

definition is_max_length_family :: "canon_code \<Rightarrow> bool" where
  "is_max_length_family c \<longleftrightarrow>
     c \<in> {MaxStringLengthExceeded, MaxKeyLengthExceeded, MaxDepthExceeded, MaxArrayLengthExceeded,
          MaxIntentSizeExceeded, MaxLengthExceeded}"

definition matches_expected :: "canon_code \<Rightarrow> string \<Rightarrow> bool" where
  "matches_expected c expected \<longleftrightarrow>
     (if expected = ''normalization-not-applied'' then is_normalization_family c
      else if expected = ''max-length-exceeded'' then is_max_length_family c
      else canon_code_display c = expected)"

record canon_env =
  un_nfc :: "string \<Rightarrow> string"
  un_nfkc :: "string \<Rightarrow> string"
  un_lower :: "string \<Rightarrow> string"
  json_from_str :: "string \<Rightarrow> string + json"
  debug_str :: "string \<Rightarrow> string"

section \<open>Characters\<close>

text \<open>\<open>str::chars\<close>: the code points of a UTF-8 string.\<close>

definition code_point :: "string \<Rightarrow> nat" where
  "code_point bs =
     (case map byte bs of
        [a] \<Rightarrow> a
      | [a, b] \<Rightarrow> (a - 192) * 64 + (b - 128)
      | [a, b, c] \<Rightarrow> (a - 224) * 4096 + (b - 128) * 64 + (c - 128)
      | [a, b, c, d] \<Rightarrow> (a - 240) * 262144 + (b - 128) * 4096 + (c - 128) * 64 + (d - 128)
      | _ \<Rightarrow> 0)"

function code_points :: "string \<Rightarrow> nat list" where
  "code_points s =
     (case s of
        [] \<Rightarrow> []
      | b # _ \<Rightarrow> code_point (take (utf8_width b) s) # code_points (drop (utf8_width b) s))"
  by pat_completeness auto
termination by (relation "measure length") (auto simp: utf8_width_def)

declare code_points.simps [simp del]

definition is_general_control :: "nat \<Rightarrow> bool" where
  "is_general_control u \<longleftrightarrow>
     u \<le> 0x08 \<or> u = 0x0B \<or> u = 0x0C \<or> (0x0E \<le> u \<and> u \<le> 0x1F) \<or> (0x7F \<le> u \<and> u \<le> 0x9F)"

definition is_forbidden_char :: "nat \<Rightarrow> bool" where
  "is_forbidden_char u \<longleftrightarrow>
     u = 0x00AD \<or> u = 0x034F \<or> (0x200B \<le> u \<and> u \<le> 0x200D) \<or> u = 0x2060 \<or> u = 0xFEFF \<or>
     (0x202A \<le> u \<and> u \<le> 0x202E) \<or> (0x2066 \<le> u \<and> u \<le> 0x2069) \<or> (0xE0000 \<le> u \<and> u \<le> 0xE007F) \<or>
     is_general_control u"

definition is_combining_mark :: "nat \<Rightarrow> bool" where
  "is_combining_mark u \<longleftrightarrow>
     (0x0300 \<le> u \<and> u \<le> 0x036F) \<or> (0x1AB0 \<le> u \<and> u \<le> 0x1AFF) \<or> (0x1DC0 \<le> u \<and> u \<le> 0x1DFF) \<or>
     (0x20D0 \<le> u \<and> u \<le> 0x20FF) \<or> (0xFE20 \<le> u \<and> u \<le> 0xFE2F)"

definition CR :: char where "CR = CHR 0x0D"
definition LF :: char where "LF = CHR 0x0A"
definition TAB :: char where "TAB = CHR 0x09"
definition QUOTE :: char where "QUOTE = CHR 0x22"
definition BACKSLASH :: char where "BACKSLASH = CHR 0x5C"

section \<open>The scans of the pipeline\<close>

fun scan_strings :: "(string \<Rightarrow> canon_code + unit) \<Rightarrow> core_value \<Rightarrow> canon_code + unit" where
  "scan_strings f (CvText s) = f s"
| "scan_strings f (CvArray items) = check_each (scan_strings f) items"
| "scan_strings f (CvMap es) =
     check_each (\<lambda>e. res_bind (case fst e of CvText ks \<Rightarrow> f ks | _ \<Rightarrow> Inr ()) (\<lambda>_. scan_strings f (snd e))) es"
| "scan_strings f _ = Inr ()"

definition check_control_chars :: "string \<Rightarrow> canon_code + unit" where
  "check_control_chars s = check_each (\<lambda>c. fail_if (is_forbidden_char c) InvalidControlChar) (code_points s)"

definition check_nfc :: "canon_env \<Rightarrow> string \<Rightarrow> canon_code + unit" where
  "check_nfc env s = (if un_nfc env s = s then Inr () else Inl UnicodeNotNfc)"

fun scan_for_explicit_null :: "core_value \<Rightarrow> canon_code + unit" where
  "scan_for_explicit_null CvNull = Inl NullValueForbidden"
| "scan_for_explicit_null (CvArray items) =
     check_each (\<lambda>it. if it = CvNull then Inl NullValueForbidden else scan_for_explicit_null it) items"
| "scan_for_explicit_null (CvMap es) =
     check_each (\<lambda>e. if snd e = CvNull then Inl NullValueForbidden else scan_for_explicit_null (snd e)) es"
| "scan_for_explicit_null _ = Inr ()"

text \<open>On the bit pattern of a finite \<open>f64\<close>: \<open>fract() == 0.0\<close> and \<open>abs() >= 2^53\<close>.\<close>

definition fract_is_zero :: "nat \<Rightarrow> bool" where
  "fract_is_zero f \<longleftrightarrow>
     (if f64_exp f = 0 then f64_mant f = 0
      else if f64_exp f < 1023 then False
      else if 1075 \<le> f64_exp f then True
      else f64_mant f mod 2 ^ (1075 - f64_exp f) = 0)"

definition abs_ge_2_53 :: "nat \<Rightarrow> bool" where
  "abs_ge_2_53 f \<longleftrightarrow> 1076 \<le> f64_exp f"

fun scan_numeric :: "core_value \<Rightarrow> canon_code + unit" where
  "scan_numeric (CvFloat f) =
     (if is_nan f \<or> is_infinite f then Inl NumericNonCanonical
      else if fract_is_zero f then Inl NumericNonCanonical
      else if abs_ge_2_53 f then Inl NumericNonCanonical
      else Inr ())"
| "scan_numeric (CvArray items) = check_each scan_numeric items"
| "scan_numeric (CvMap es) = check_each (\<lambda>e. scan_numeric (snd e)) es"
| "scan_numeric _ = Inr ()"

fun scan_caps :: "core_value \<Rightarrow> nat \<Rightarrow> canon_code + unit" where
  "scan_caps (CvText s) depth =
     (if depth > MAX_INTENT_DEPTH then Inl MaxDepthExceeded
      else fail_if (length s > MAX_STRING_BYTES) MaxStringLengthExceeded)"
| "scan_caps (CvArray items) depth =
     (if depth > MAX_INTENT_DEPTH then Inl MaxDepthExceeded
      else if length items > MAX_ARRAY_LEN then Inl MaxArrayLengthExceeded
      else check_each (\<lambda>it. scan_caps it (depth + 1)) items)"
| "scan_caps (CvMap es) depth =
     (if depth > MAX_INTENT_DEPTH then Inl MaxDepthExceeded
      else
        check_each (\<lambda>e.
          res_bind (case fst e of CvText s \<Rightarrow> fail_if (length s > MAX_KEY_BYTES) MaxKeyLengthExceeded | _ \<Rightarrow> Inr ()) (\<lambda>_.
          scan_caps (snd e) (depth + 1))) es)"
| "scan_caps CvNull depth = fail_if (depth > MAX_INTENT_DEPTH) MaxDepthExceeded"
| "scan_caps (CvBool _) depth = fail_if (depth > MAX_INTENT_DEPTH) MaxDepthExceeded"
| "scan_caps (CvInt _) depth = fail_if (depth > MAX_INTENT_DEPTH) MaxDepthExceeded"
| "scan_caps (CvFloat _) depth = fail_if (depth > MAX_INTENT_DEPTH) MaxDepthExceeded"
| "scan_caps (CvBytes _) depth = fail_if (depth > MAX_INTENT_DEPTH) MaxDepthExceeded"

definition check_intent_text_field :: "canon_env \<Rightarrow> string \<Rightarrow> string \<Rightarrow> canon_code + unit" where
  "check_intent_text_field env key s =
     (if CR \<in> set s \<or> LF \<in> set s then Inl InvalidControlChar
      else if TAB \<in> set s \<or> CHR '' '' \<in> set s then Inl WhitespaceForbidden
      else if key = ''verb'' \<and> s = [] then Inl EmptyRequiredField
      else if list_ex is_combining_mark (code_points s) then Inl UnicodeNotNfc
      else if un_nfkc env s \<noteq> s then Inl NfkcUnstable
      else if key \<in> {''verb'', ''resource_kind'', ''namespace''} \<and> un_lower env s \<noteq> s then Inl CaseFoldUnstable
      else if key = ''verb'' \<and> s \<notin> set ALLOWED_VERBS then Inl UnknownVerb
      else Inr ())"

definition check_top_level :: "canon_env \<Rightarrow> core_value \<Rightarrow> canon_code + unit" where
  "check_top_level env v =
     (case v of
        CvMap es \<Rightarrow>
          res_bind
            (check_each (\<lambda>e.
               case fst e of CvText key \<Rightarrow> fail_if (key \<notin> set ALLOWED_TOP_LEVEL_KEYS) UnknownField | _ \<Rightarrow> Inr ()) es) (\<lambda>_.
          check_each (\<lambda>e.
            case fst e of
              CvText key \<Rightarrow>
                if key \<in> set ENUMERATED_FIELDS then
                  (case snd e of CvText text \<Rightarrow> check_intent_text_field env key text | _ \<Rightarrow> Inl NormalizationNotApplied)
                else Inr ()
            | _ \<Rightarrow> Inr ()) es)
      | _ \<Rightarrow> Inr ())"

definition scan_identifier_separator :: "core_value \<Rightarrow> canon_code + unit" where
  "scan_identifier_separator v =
     (case v of
        CvMap es \<Rightarrow>
          check_each (\<lambda>e.
            case (fst e, snd e) of
              (CvText key, CvText name) \<Rightarrow> fail_if (key = ''name'' \<and> CHR ''/'' \<in> set name) IdentifierSeparatorForbidden
            | _ \<Rightarrow> Inr ()) es
      | _ \<Rightarrow> Inr ())"

fun scan_param_keys :: "canon_env \<Rightarrow> core_value \<Rightarrow> canon_code + unit" where
  "scan_param_keys env (CvMap es) =
     check_each (\<lambda>e.
       res_bind
         (case fst e of
            CvText key \<Rightarrow>
              if list_ex (\<lambda>c. c \<in> {CHR '' '', TAB, CR, LF}) key then Inl WhitespaceForbidden
              else fail_if (un_lower env key \<noteq> key) CaseFoldUnstable
          | _ \<Rightarrow> Inr ()) (\<lambda>_.
       scan_param_keys env (snd e))) es"
| "scan_param_keys env (CvArray items) = check_each (scan_param_keys env) items"
| "scan_param_keys env _ = Inr ()"

fun fold_collides :: "canon_env \<Rightarrow> string list \<Rightarrow> (core_value \<times> core_value) list \<Rightarrow> bool" where
  "fold_collides env folded [] \<longleftrightarrow> False"
| "fold_collides env folded (e # es) \<longleftrightarrow>
     (case fst e of
        CvText s \<Rightarrow>
          let f = un_lower env s in if f \<in> set folded then True else fold_collides env (folded @ [f]) es
      | _ \<Rightarrow> fold_collides env folded es)"

fun scan_key_case_collisions :: "canon_env \<Rightarrow> core_value \<Rightarrow> canon_code + unit" where
  "scan_key_case_collisions env (CvMap es) =
     (if fold_collides env [] es then Inl NormalizationNotApplied
      else check_each (\<lambda>e. scan_key_case_collisions env (snd e)) es)"
| "scan_key_case_collisions env (CvArray items) = check_each (scan_key_case_collisions env) items"
| "scan_key_case_collisions env _ = Inr ()"

definition run_pipeline :: "canon_env \<Rightarrow> core_value \<Rightarrow> canon_code + core_value" where
  "run_pipeline env raw =
     res_bind
       (case encode raw of Inr bytes \<Rightarrow> fail_if (length bytes > MAX_INTENT_BYTES) MaxIntentSizeExceeded | Inl _ \<Rightarrow> Inr ()) (\<lambda>_.
     res_bind (scan_strings check_control_chars raw) (\<lambda>_.
     res_bind (scan_strings (check_nfc env) raw) (\<lambda>_.
     res_bind (scan_for_explicit_null raw) (\<lambda>_.
     res_bind (scan_caps raw 0) (\<lambda>_.
     res_bind (check_top_level env raw) (\<lambda>_.
     res_bind (scan_identifier_separator raw) (\<lambda>_.
     res_bind (scan_param_keys env raw) (\<lambda>_.
     res_bind (scan_key_case_collisions env raw) (\<lambda>_.
     res_bind (scan_numeric raw) (\<lambda>_. Inr raw))))))))))"

section \<open>Raw JSON text\<close>

definition hex_digit :: "char \<Rightarrow> nat option" where
  "hex_digit c =
     (let n = byte c in
      if 48 \<le> n \<and> n \<le> 57 then Some (n - 48)
      else if 65 \<le> n \<and> n \<le> 70 then Some (n - 55)
      else if 97 \<le> n \<and> n \<le> 102 then Some (n - 87)
      else None)"

fun hex_value :: "nat \<Rightarrow> string \<Rightarrow> nat option" where
  "hex_value acc [] = Some acc"
| "hex_value acc (c # cs) = (case hex_digit c of Some d \<Rightarrow> hex_value (acc * 16 + d) cs | None \<Rightarrow> None)"

text \<open>\<open>u32::from_str_radix(_, 16)\<close> on four bytes, which takes a leading plus sign and cannot overflow.\<close>

definition parse_hex4 :: "string \<Rightarrow> nat option" where
  "parse_hex4 s = (case s of c # r \<Rightarrow> if c = CHR ''+'' then hex_value 0 r else hex_value 0 s | [] \<Rightarrow> None)"

definition ESC_U :: string where "ESC_U = [BACKSLASH, CHR ''u'']"

definition is_high :: "nat \<Rightarrow> bool" where "is_high n \<longleftrightarrow> 0xD800 \<le> n \<and> n \<le> 0xDBFF"

definition is_low :: "nat \<Rightarrow> bool" where "is_low n \<longleftrightarrow> 0xDC00 \<le> n \<and> n \<le> 0xDFFF"

text \<open>The scanners read a suffix of the text: \<open>s\<close> stands for \<open>bytes[i..]\<close>.\<close>

function has_unpaired_surrogate_escape :: "string \<Rightarrow> bool" where
  "has_unpaired_surrogate_escape s =
     (if length s < 6 then False
      else if take 2 s = ESC_U then
        (case parse_hex4 (take 4 (drop 2 s)) of
           Some code \<Rightarrow>
             if is_high code then
               (let follow = drop 6 s in
                if length follow < 6 \<or> take 2 follow \<noteq> ESC_U then True
                else
                  (case parse_hex4 (take 4 (drop 2 follow)) of
                     None \<Rightarrow> True
                   | Some c2 \<Rightarrow> if \<not> is_low c2 then True else has_unpaired_surrogate_escape (drop 12 s)))
             else if is_low code then True
             else has_unpaired_surrogate_escape (drop 6 s)
         | None \<Rightarrow> has_unpaired_surrogate_escape (drop 6 s))
      else has_unpaired_surrogate_escape (drop 1 s))"
  by pat_completeness auto
termination by (relation "measure length") auto

declare has_unpaired_surrogate_escape.simps [simp del]

definition is_json_ws :: "char \<Rightarrow> bool" where
  "is_json_ws c \<longleftrightarrow> c \<in> {CHR '' '', TAB, LF, CR}"

definition number_byte :: "char \<Rightarrow> bool" where
  "number_byte c \<longleftrightarrow> is_digit c \<or> c = CHR ''.''"

definition bad_literal :: "string \<Rightarrow> bool" where
  "bad_literal lit \<longleftrightarrow>
     (length lit \<ge> 2 \<and> lit ! 0 = CHR ''0'' \<and> is_digit (lit ! 1)) \<or>
     (CHR ''.'' \<in> set lit \<and>
      (let after = drop 1 (dropWhile (\<lambda>c. c \<noteq> CHR ''.'') lit) in
       after \<noteq> [] \<and> list_all (\<lambda>c. c = CHR ''0'') after)) \<or>
     length (filter is_digit lit) > 20"

function number_loop :: "bool \<Rightarrow> bool \<Rightarrow> string \<Rightarrow> bool" where
  "number_loop in_string prev_escape s =
     (case s of
        [] \<Rightarrow> False
      | c # rest \<Rightarrow>
          if in_string then
            (if prev_escape then number_loop True False rest
             else if c = BACKSLASH then number_loop True True rest
             else if c = QUOTE then number_loop False False rest
             else number_loop True False rest)
          else if c = QUOTE then number_loop True prev_escape rest
          else if c \<notin> {CHR '':'', CHR '','', CHR ''[''} then number_loop False prev_escape rest
          else
            (let from_j = dropWhile is_json_ws rest in
             if from_j = [] then False
             else
               (let from_num = (if hd from_j \<in> {CHR ''-'', CHR ''+''} then tl from_j else from_j);
                    lit = takeWhile number_byte from_num
                in if lit = [] then number_loop False prev_escape rest
                   else if bad_literal lit then True
                   else number_loop False prev_escape (dropWhile number_byte from_num))))"
  by pat_completeness auto
termination
proof (relation "measure (\<lambda>(in_string, prev_escape, s). length s)", goal_cases)
  case (9 in_string prev_escape s c rest from_j from_num lit)
  have "length (dropWhile number_byte from_num) \<le> length from_num" by (rule length_dropWhile_le)
  also have "\<dots> \<le> length from_j" using 9 by simp
  also have "\<dots> \<le> length rest" using 9 by (simp add: length_dropWhile_le)
  finally show ?case using 9 by simp
qed auto

declare number_loop.simps [simp del]

definition has_non_canonical_number :: "string \<Rightarrow> bool" where
  "has_non_canonical_number s = number_loop False False s"

text \<open>The stack is a list, its last element first; \<open>c as char\<close> is one-to-one, so a key is kept as its bytes.\<close>

fun dup_loop :: "string list list \<Rightarrow> bool \<Rightarrow> string \<Rightarrow> string option \<Rightarrow> bool \<Rightarrow> string \<Rightarrow> bool" where
  "dup_loop stack in_string cur expect prev_escape [] \<longleftrightarrow> False"
| "dup_loop stack in_string cur expect prev_escape (c # s) \<longleftrightarrow>
     (if in_string then
        (if prev_escape then dup_loop stack True (cur @ [c]) expect False s
         else if c = BACKSLASH then dup_loop stack True cur expect True s
         else if c = QUOTE then dup_loop stack False [] (Some cur) prev_escape s
         else dup_loop stack True (cur @ [c]) expect prev_escape s)
      else if c = QUOTE then dup_loop stack True [] expect prev_escape s
      else if c = CHR ''{'' then dup_loop ([] # stack) False cur expect prev_escape s
      else if c = CHR ''}'' then dup_loop (tl stack) False cur expect prev_escape s
      else if c = CHR '':'' then
        (case expect of
           None \<Rightarrow> dup_loop stack False cur None prev_escape s
         | Some key \<Rightarrow>
             (case stack of
                [] \<Rightarrow> dup_loop stack False cur None prev_escape s
              | keys # outer \<Rightarrow>
                  if key \<in> set keys then True
                  else dup_loop ((keys @ [key]) # outer) False cur None prev_escape s))
      else dup_loop stack False cur expect prev_escape s)"

definition has_duplicate_json_keys :: "string \<Rightarrow> bool" where
  "has_duplicate_json_keys s = dup_loop [] False [] None False s"

definition prescreen_raw_json :: "string \<Rightarrow> canon_code option" where
  "prescreen_raw_json raw =
     (if has_unpaired_surrogate_escape raw then Some InvalidUtf8
      else if has_non_canonical_number raw then Some NumericNonCanonical
      else if has_duplicate_json_keys raw then Some DuplicateJsonKey
      else None)"

text \<open>The scanners as the code writes them, with an index into the text and no bound on the number of rounds.\<close>

partial_function (option) surrogate_while :: "string \<Rightarrow> nat \<Rightarrow> bool option" where
  "surrogate_while bytes i =
     (if i + 6 \<le> length bytes then
        (if take 2 (drop i bytes) = ESC_U then
           (case parse_hex4 (take 4 (drop (i + 2) bytes)) of
              Some code \<Rightarrow>
                if is_high code then
                  (if i + 6 + 6 > length bytes \<or> take 2 (drop (i + 6) bytes) \<noteq> ESC_U then Some True
                   else
                     (case parse_hex4 (take 4 (drop (i + 6 + 2) bytes)) of
                        None \<Rightarrow> Some True
                      | Some c2 \<Rightarrow> if \<not> is_low c2 then Some True else surrogate_while bytes (i + 12)))
                else if is_low code then Some True
                else surrogate_while bytes (i + 6)
            | None \<Rightarrow> surrogate_while bytes (i + 6))
         else surrogate_while bytes (i + 1))
      else Some False)"

partial_function (option) number_while :: "string \<Rightarrow> bool \<Rightarrow> bool \<Rightarrow> nat \<Rightarrow> bool option" where
  "number_while bytes in_string prev_escape i =
     (if i < length bytes then
        (let c = bytes ! i in
         if in_string then
           (if prev_escape then number_while bytes True False (i + 1)
            else if c = BACKSLASH then number_while bytes True True (i + 1)
            else if c = QUOTE then number_while bytes False False (i + 1)
            else number_while bytes True False (i + 1))
         else if c = QUOTE then number_while bytes True prev_escape (i + 1)
         else if c \<notin> {CHR '':'', CHR '','', CHR ''[''} then number_while bytes False prev_escape (i + 1)
         else
           (let j = i + 1 + length (takeWhile is_json_ws (drop (i + 1) bytes)) in
            if length bytes \<le> j then Some False
            else
              (let num_start = (if bytes ! j \<in> {CHR ''-'', CHR ''+''} then j + 1 else j);
                   lit = takeWhile number_byte (drop num_start bytes)
               in if lit = [] then number_while bytes False prev_escape (i + 1)
                  else if bad_literal lit then Some True
                  else number_while bytes False prev_escape (num_start + length lit))))
      else Some False)"

section \<open>The size hint of a vector\<close>

text \<open>\<open>parse::<usize>\<close> of a run of digits, on a 64-bit target.\<close>

function extract_byte_count :: "string \<Rightarrow> nat option" where
  "extract_byte_count s =
     (case s of
        [] \<Rightarrow> None
      | c # rest \<Rightarrow>
          if is_digit c then
            (let n = read_nat (takeWhile is_digit s) in
             if n \<le> usize_max \<and> n \<ge> 16 then Some n else extract_byte_count (dropWhile is_digit s))
          else extract_byte_count rest)"
  by pat_completeness auto
termination
proof (relation "measure length", goal_cases)
  case (2 s c rest n)
  then have "length (dropWhile is_digit s) \<le> length rest" by (simp add: length_dropWhile_le)
  then show ?case using 2 by simp
qed auto

declare extract_byte_count.simps [simp del]

fun find_map :: "('a \<Rightarrow> 'b option) \<Rightarrow> 'a list \<Rightarrow> 'b option" where
  "find_map f [] = None"
| "find_map f (x # xs) = (case f x of Some y \<Rightarrow> Some y | None \<Rightarrow> find_map f xs)"

definition hint_of :: "core_value \<times> core_value \<Rightarrow> nat option" where
  "hint_of e =
     (case e of (CvText k, CvText s) \<Rightarrow> if k = ''generator_hint'' then extract_byte_count s else None | _ \<Rightarrow> None)"

definition inflate :: "nat \<Rightarrow> core_value \<times> core_value \<Rightarrow> (core_value \<times> core_value) option" where
  "inflate len e =
     (if fst e = CvText ''generator_hint'' then None
      else if fst e = CvText ''name'' then Some (fst e, CvText (replicate len (CHR ''a'')))
      else Some e)"

definition apply_generator_hint :: "core_value \<Rightarrow> core_value" where
  "apply_generator_hint v =
     (case v of
        CvMap es \<Rightarrow> (case find_map hint_of es of None \<Rightarrow> CvMap es | Some len \<Rightarrow> CvMap (List.map_filter (inflate len) es))
      | _ \<Rightarrow> v)"

section \<open>Execution\<close>

fun as_bool :: "json \<Rightarrow> bool option" where
  "as_bool (JBool b) = Some b"
| "as_bool _ = None"

fun as_str :: "json \<Rightarrow> string option" where
  "as_str (JString s) = Some s"
| "as_str _ = None"

fun as_array :: "json \<Rightarrow> json list option" where
  "as_array (JArray items) = Some items"
| "as_array _ = None"

definition flag_set :: "json \<Rightarrow> string \<Rightarrow> bool" where
  "flag_set input key \<longleftrightarrow> Option.bind (json_get input key) as_bool = Some True"

definition cbor_equal :: "core_value \<Rightarrow> core_value \<Rightarrow> bool" where
  "cbor_equal a b \<longleftrightarrow> (case (encode a, encode b) of (Inr ba, Inr bb) \<Rightarrow> ba = bb | _ \<Rightarrow> False)"

definition has_compare_shape :: "json \<Rightarrow> bool" where
  "has_compare_shape input \<longleftrightarrow> flag_set input ''compare_canonical'' \<or> flag_set input ''compare_cbor_bytes''"

definition ok_part :: "'e + 'a \<Rightarrow> 'a option" where
  "ok_part r = (case r of Inl _ \<Rightarrow> None | Inr x \<Rightarrow> Some x)"

definition take_compare_half :: "canon_env \<Rightarrow> json \<Rightarrow> string \<Rightarrow> string \<Rightarrow> core_value option" where
  "take_compare_half env input parsed_key raw_json_key =
     (case json_get input parsed_key of
        Some v \<Rightarrow> ok_part (json_to_core v)
      | None \<Rightarrow>
          (case Option.bind (json_get input raw_json_key) as_str of
             Some s \<Rightarrow> Option.bind (ok_part (json_from_str env s)) (\<lambda>parsed. ok_part (json_to_core parsed))
           | None \<Rightarrow> None))"

definition take_compare_pair :: "canon_env \<Rightarrow> json \<Rightarrow> (core_value \<times> core_value) option" where
  "take_compare_pair env input =
     Option.bind (take_compare_half env input ''raw_intent_a'' ''raw_intent_a_raw_json'') (\<lambda>a.
     Option.bind (take_compare_half env input ''raw_intent_b'' ''raw_intent_b_raw_json'') (\<lambda>b. Some (a, b)))"

definition contains_str :: "string \<Rightarrow> string \<Rightarrow> bool" where
  "contains_str s pat \<longleftrightarrow> pat \<in> set (map (\<lambda>i. take (length pat) (drop i s)) [0..<length s + 1])"

definition map_parse_error :: "canon_env \<Rightarrow> string \<Rightarrow> canon_code" where
  "map_parse_error env err =
     (let msg = un_lower env err in
      if contains_str msg ''surrogate'' \<or> contains_str msg ''utf'' then InvalidUtf8
      else if contains_str msg ''number'' then NumericNonCanonical
      else MalformedEncoding)"

definition parse_raw :: "canon_env \<Rightarrow> string \<Rightarrow> canon_code + core_value \<times> canon_code option" where
  "parse_raw env s =
     (case prescreen_raw_json s of
        Some code \<Rightarrow> Inr (CvNull, Some code)
      | None \<Rightarrow>
          res_bind (map_err (map_parse_error env) (json_from_str env s)) (\<lambda>parsed.
          res_bind (map_err (\<lambda>_. MalformedEncoding) (json_to_core parsed)) (\<lambda>core. Inr (core, None))))"

definition byte_item :: "json \<Rightarrow> char option" where
  "byte_item v =
     (case v of
        JNumber n \<Rightarrow> (case as_u64 n of Some u \<Rightarrow> if u \<le> 255 then Some (char_of (nat u)) else None | None \<Rightarrow> None)
      | _ \<Rightarrow> None)"

definition extract_raw_intent :: "canon_env \<Rightarrow> json \<Rightarrow> canon_code + core_value \<times> canon_code option" where
  "extract_raw_intent env input =
     (case Option.bind (json_get input ''raw_intent_raw_json'') as_str of
        Some s \<Rightarrow> parse_raw env s
      | None \<Rightarrow>
          (case Option.bind (json_get input ''raw_intent_bytes'') as_array of
             Some arr \<Rightarrow>
               (let bytes = List.map_filter byte_item arr in
                if \<not> utf8_valid bytes then Inl InvalidUtf8 else parse_raw env bytes)
           | None \<Rightarrow>
               (case json_get input ''raw_intent'' of
                  Some v \<Rightarrow> res_bind (map_err (\<lambda>_. MalformedEncoding) (json_to_core v)) (\<lambda>core. Inr (core, None))
                | None \<Rightarrow> Inl MalformedEncoding)))"

definition verify_acceptance :: "json vector \<Rightarrow> core_value \<Rightarrow> validation_outcome" where
  "verify_acceptance vector canonical =
     (case exp_outcome (v_expected vector) of
        Accept \<Rightarrow>
          (case Option.bind (exp_output (v_expected vector)) (\<lambda>o'. json_get o' ''canonical_intent'') of
             None \<Rightarrow> Pass
           | Some expected \<Rightarrow>
               (case json_to_core expected of
                  Inl _ \<Rightarrow> Fail (''vector '' @ v_id vector @ '': expected.canonical_intent is not json_to_core-able'')
                | Inr expected_core \<Rightarrow>
                    if cbor_equal canonical expected_core then Pass
                    else Fail (''vector '' @ v_id vector @ '': canonical_intent mismatch'')))
      | Reject \<Rightarrow>
          (let expected_code = (case exp_reject_code (v_expected vector) of Some c \<Rightarrow> c | None \<Rightarrow> ''<unspecified>'') in
           Fail (''expected reject ('' @ expected_code @ '') but pipeline accepted'')))"

definition verify_rejection :: "canon_env \<Rightarrow> json vector \<Rightarrow> canon_code \<Rightarrow> validation_outcome" where
  "verify_rejection env vector code =
     (case exp_outcome (v_expected vector) of
        Reject \<Rightarrow>
          (let expected = (case exp_reject_code (v_expected vector) of Some c \<Rightarrow> c | None \<Rightarrow> []) in
           if matches_expected code expected then Pass
           else Fail (''expected reject '' @ debug_str env expected @ '', got '' @ canon_code_display code))
      | Accept \<Rightarrow> Fail (''expected accept but pipeline rejected with '' @ canon_code_display code))"

definition execute_compare :: "canon_env \<Rightarrow> json vector \<Rightarrow> validation_outcome" where
  "execute_compare env vector =
     (case take_compare_pair env (v_input vector) of
        None \<Rightarrow> Fail ''compare vector missing input pair''
      | Some (raw_a, raw_b) \<Rightarrow>
          (let canon_a = run_pipeline env (apply_generator_hint raw_a);
               canon_b = run_pipeline env (apply_generator_hint raw_b);
               equal = (case (canon_a, canon_b) of (Inr a, Inr b) \<Rightarrow> cbor_equal a b | _ \<Rightarrow> False)
           in case (exp_outcome (v_expected vector), equal) of
                (Accept, True) \<Rightarrow> (case canon_a of Inr a_ok \<Rightarrow> verify_acceptance vector a_ok | Inl _ \<Rightarrow> Pass)
              | (Reject, False) \<Rightarrow> Pass
              | (Accept, False) \<Rightarrow> Fail ''compare: expected accept (equal) but got diverged''
              | (Reject, True) \<Rightarrow> Fail ''compare: expected reject (diverged) but got equal''))"

definition apply_twice_failure :: "canon_env \<Rightarrow> core_value \<Rightarrow> string option" where
  "apply_twice_failure env canonical =
     (case run_pipeline env canonical of
        Inr v \<Rightarrow> if cbor_equal v canonical then None else Some ''apply_twice: pipeline is not idempotent''
      | Inl _ \<Rightarrow> Some ''apply_twice: pipeline is not idempotent'')"

definition roundtrip_failure :: "core_value \<Rightarrow> string option" where
  "roundtrip_failure canonical =
     (case encode canonical of
        Inl _ \<Rightarrow> Some ''roundtrip_via_cbor: CBOR encode failed''
      | Inr bytes \<Rightarrow>
          (case decode bytes of
             Inl _ \<Rightarrow> Some ''roundtrip_via_cbor: CBOR decode failed''
           | Inr decoded \<Rightarrow>
               (case encode decoded of
                  Inl _ \<Rightarrow> Some ''roundtrip_via_cbor: re-encode failed''
                | Inr reencoded \<Rightarrow>
                    if bytes \<noteq> reencoded then Some ''roundtrip_via_cbor: bytes diverged on re-encode'' else None)))"

definition canon_execute :: "canon_env \<Rightarrow> json vector \<Rightarrow> validation_outcome" where
  "canon_execute env vector =
     (if has_compare_shape (v_input vector) then execute_compare env vector
      else
        (case extract_raw_intent env (v_input vector) of
           Inl code \<Rightarrow> verify_rejection env vector code
         | Inr (raw_intent, Some code) \<Rightarrow> verify_rejection env vector code
         | Inr (raw_intent, None) \<Rightarrow>
             (case run_pipeline env (apply_generator_hint raw_intent) of
                Inl code \<Rightarrow> verify_rejection env vector code
              | Inr canonical \<Rightarrow>
                  (case (if flag_set (v_input vector) ''apply_twice'' then apply_twice_failure env canonical else None) of
                     Some reason \<Rightarrow> Fail reason
                   | None \<Rightarrow>
                       (case (if flag_set (v_input vector) ''roundtrip_via_cbor'' then roundtrip_failure canonical else None) of
                          Some reason \<Rightarrow> Fail reason
                        | None \<Rightarrow> verify_acceptance vector canonical)))))"

end
