(* ===== verification/Canon_Correct.thy ===== *)
theory Canon_Correct
  imports Canon
begin

text \<open>
  What the canonicalization suite promises: the pipeline is a decision procedure for canonical intents, its
  self-checks can only fail beyond the encoder's cap, the duplicate-key scan decides uniqueness of the
  keys of escape-free text, and the number scan decides which numbers of a text are spelled canonically.
\<close>

section \<open>Canonical intents\<close>

text \<open>All values of an intent with their depth, map keys apart.\<close>

fun subs :: "nat \<Rightarrow> core_value \<Rightarrow> (nat \<times> core_value) list" where
  "subs d (CvArray items) = (d, CvArray items) # concat (map (subs (d + 1)) items)"
| "subs d (CvMap es) = (d, CvMap es) # concat (map (\<lambda>e. subs (d + 1) (snd e)) es)"
| "subs d v = [(d, v)]"

fun key_texts :: "(core_value \<times> core_value) list \<Rightarrow> string list" where
  "key_texts [] = []"
| "key_texts (e # es) = (case fst e of CvText s \<Rightarrow> s # key_texts es | _ \<Rightarrow> key_texts es)"

definition text_ok :: "canon_env \<Rightarrow> string \<Rightarrow> bool" where
  "text_ok env s \<longleftrightarrow> \<not> list_ex is_forbidden_char (code_points s) \<and> un_nfc env s = s"

definition key_ok :: "canon_env \<Rightarrow> string \<Rightarrow> bool" where
  "key_ok env s \<longleftrightarrow> text_ok env s \<and> length s \<le> MAX_KEY_BYTES \<and> set s \<inter> {CHR '' '', TAB, CR, LF} = {} \<and> un_lower env s = s"

fun node_ok :: "canon_env \<Rightarrow> core_value \<Rightarrow> bool" where
  "node_ok env CvNull \<longleftrightarrow> False"
| "node_ok env (CvText s) \<longleftrightarrow> text_ok env s \<and> length s \<le> MAX_STRING_BYTES"
| "node_ok env (CvFloat f) \<longleftrightarrow> \<not> is_nan f \<and> \<not> is_infinite f \<and> \<not> fract_is_zero f"
| "node_ok env (CvArray items) \<longleftrightarrow> length items \<le> MAX_ARRAY_LEN"
| "node_ok env (CvMap es) \<longleftrightarrow> list_all (key_ok env) (key_texts es) \<and> distinct (key_texts es)"
| "node_ok env _ \<longleftrightarrow> True"

text \<open>The enumerated fields of the intent map.\<close>

definition field_ok :: "canon_env \<Rightarrow> string \<Rightarrow> string \<Rightarrow> bool" where
  "field_ok env key s \<longleftrightarrow>
     set s \<inter> {CHR '' '', TAB, CR, LF} = {} \<and> \<not> list_ex is_combining_mark (code_points s) \<and> un_nfkc env s = s \<and>
     (key \<in> {''verb'', ''resource_kind'', ''namespace''} \<longrightarrow> un_lower env s = s) \<and>
     (key = ''verb'' \<longrightarrow> s \<in> set ALLOWED_VERBS) \<and> (key = ''name'' \<longrightarrow> CHR ''/'' \<notin> set s)"

fun entry_ok :: "canon_env \<Rightarrow> core_value \<times> core_value \<Rightarrow> bool" where
  "entry_ok env (CvText key, w) \<longleftrightarrow>
     key \<in> set ALLOWED_TOP_LEVEL_KEYS \<and>
     (key = ''params'' \<or> (\<exists>s. w = CvText s \<and> field_ok env key s))"
| "entry_ok env _ \<longleftrightarrow> True"

definition intent_ok :: "canon_env \<Rightarrow> core_value \<Rightarrow> bool" where
  "intent_ok env v \<longleftrightarrow> (case v of CvMap es \<Rightarrow> list_all (entry_ok env) es | _ \<Rightarrow> True)"

definition size_ok :: "core_value \<Rightarrow> bool" where
  "size_ok v \<longleftrightarrow> (\<forall>bytes. encode v = Inr bytes \<longrightarrow> length bytes \<le> MAX_INTENT_BYTES)"

definition canonical :: "canon_env \<Rightarrow> core_value \<Rightarrow> bool" where
  "canonical env v \<longleftrightarrow>
     size_ok v \<and> list_all (\<lambda>(d, w). d \<le> MAX_INTENT_DEPTH \<and> node_ok env w) (subs 0 v) \<and> intent_ok env v"

section \<open>Each scan decides its part\<close>

fun maps_all :: "(string list \<Rightarrow> bool) \<Rightarrow> core_value \<Rightarrow> bool" where
  "maps_all P (CvMap es) \<longleftrightarrow> P (key_texts es)"
| "maps_all P _ \<longleftrightarrow> True"

fun text_all :: "(string \<Rightarrow> bool) \<Rightarrow> core_value \<Rightarrow> bool" where
  "text_all P (CvText s) \<longleftrightarrow> P s"
| "text_all P (CvMap es) \<longleftrightarrow> list_all P (key_texts es)"
| "text_all P _ \<longleftrightarrow> True"

abbreviation all_subs :: "nat \<Rightarrow> (core_value \<Rightarrow> bool) \<Rightarrow> core_value \<Rightarrow> bool" where
  "all_subs d P v \<equiv> \<forall>p \<in> set (subs d v). P (snd p)"

lemma all_subs_depth: "all_subs d P v \<longleftrightarrow> all_subs d' P v"
proof (induction v arbitrary: d d')
  case (CvArray items)
  have "all_subs (d + 1) P it \<longleftrightarrow> all_subs (d' + 1) P it" if "it \<in> set items" for it
    using CvArray that by blast
  then show ?case by auto
next
  case (CvMap es)
  have "all_subs (d + 1) P (snd e) \<longleftrightarrow> all_subs (d' + 1) P (snd e)" if "e \<in> set es" for e
    using CvMap(2) [of e "snd e"] that by (cases e) auto
  then show ?case by auto
qed auto

lemma all_subs_simps:
  "all_subs d P (CvArray items) \<longleftrightarrow> P (CvArray items) \<and> (\<forall>it \<in> set items. all_subs 0 P it)"
  "all_subs d P (CvMap es) \<longleftrightarrow> P (CvMap es) \<and> (\<forall>e \<in> set es. all_subs 0 P (snd e))"
  using all_subs_depth [where d = "d + 1" and d' = 0 and P = P] by auto

lemma ball_key_texts:
  "(\<forall>s \<in> set (key_texts es). P s) \<longleftrightarrow> (\<forall>e \<in> set es. case fst e of CvText s \<Rightarrow> P s | _ \<Rightarrow> True)"
  by (induction es) (auto split: core_value.splits)

lemma list_all_key_texts:
  "list_all P (key_texts es) \<longleftrightarrow> (\<forall>e \<in> set es. case fst e of CvText s \<Rightarrow> P s | _ \<Rightarrow> True)"
  by (simp add: list_all_iff ball_key_texts)

lemma ball_both: "(\<forall>x \<in> A. P x \<and> Q x) \<longleftrightarrow> (\<forall>x \<in> A. P x) \<and> (\<forall>x \<in> A. Q x)"
  by auto

lemma scan_strings_iff: "scan_strings f v = Inr () \<longleftrightarrow> all_subs 0 (text_all (\<lambda>s. f s = Inr ())) v"
proof (induction f v rule: scan_strings.induct)
  case (2 f items)
  then show ?case by (simp add: check_each_ok all_subs_simps del: subs.simps)
next
  case (3 f es)
  have "scan_strings f (CvMap es) = Inr () \<longleftrightarrow>
      (\<forall>e \<in> set es. (case fst e of CvText s \<Rightarrow> f s = Inr () | _ \<Rightarrow> True) \<and> all_subs 0 (text_all (\<lambda>s. f s = Inr ())) (snd e))"
    unfolding scan_strings.simps check_each_ok res_bind_unit
    by (intro ball_cong refl conj_cong 3) (auto split: core_value.split)
  then show ?case by (simp add: all_subs_simps list_all_key_texts ball_both del: subs.simps)
qed simp_all

definition not_null :: "core_value \<Rightarrow> bool" where
  "not_null v \<longleftrightarrow> v \<noteq> CvNull"

lemma scan_for_explicit_null_iff: "scan_for_explicit_null v = Inr () \<longleftrightarrow> all_subs 0 not_null v"
proof (induction v rule: scan_for_explicit_null.induct)
  case (2 items)
  have "scan_for_explicit_null (CvArray items) = Inr () \<longleftrightarrow> (\<forall>it \<in> set items. all_subs 0 not_null it)"
    unfolding scan_for_explicit_null.simps check_each_ok by (intro ball_cong refl) (use 2 in \<open>auto simp: not_null_def\<close>)
  then show ?case by (simp add: all_subs_simps not_null_def [of "CvArray _"] not_null_def [of "CvMap _"] del: subs.simps)
next
  case (3 es)
  have "scan_for_explicit_null (CvMap es) = Inr () \<longleftrightarrow> (\<forall>e \<in> set es. all_subs 0 not_null (snd e))"
    unfolding scan_for_explicit_null.simps check_each_ok by (intro ball_cong refl) (use 3 in \<open>auto simp: not_null_def\<close>)
  then show ?case by (simp add: all_subs_simps not_null_def [of "CvArray _"] not_null_def [of "CvMap _"] del: subs.simps)
qed (simp_all add: not_null_def)

fun float_ok :: "core_value \<Rightarrow> bool" where
  "float_ok (CvFloat f) \<longleftrightarrow> \<not> is_nan f \<and> \<not> is_infinite f \<and> \<not> fract_is_zero f"
| "float_ok _ \<longleftrightarrow> True"

text \<open>The last test of \<open>scan_numeric\<close> never decides: a float of at least \<open>2^53\<close> has no fraction.\<close>

lemma abs_ge_2_53_unreachable: "abs_ge_2_53 f \<Longrightarrow> fract_is_zero f"
  by (simp add: abs_ge_2_53_def fract_is_zero_def)

lemma scan_numeric_iff: "scan_numeric v = Inr () \<longleftrightarrow> all_subs 0 float_ok v"
  by (induction v rule: scan_numeric.induct)
    (auto simp: check_each_ok all_subs_simps simp del: subs.simps(1,2) dest: abs_ge_2_53_unreachable)

fun caps_ok :: "core_value \<Rightarrow> bool" where
  "caps_ok (CvText s) \<longleftrightarrow> length s \<le> MAX_STRING_BYTES"
| "caps_ok (CvArray items) \<longleftrightarrow> length items \<le> MAX_ARRAY_LEN"
| "caps_ok (CvMap es) \<longleftrightarrow> list_all (\<lambda>s. length s \<le> MAX_KEY_BYTES) (key_texts es)"
| "caps_ok _ \<longleftrightarrow> True"

lemma scan_caps_iff:
  "scan_caps v d = Inr () \<longleftrightarrow> (\<forall>p \<in> set (subs d v). fst p \<le> MAX_INTENT_DEPTH \<and> caps_ok (snd p))"
proof (induction v d rule: scan_caps.induct)
  case (2 items d)
  then show ?case by (auto simp: check_each_ok)
next
  case (3 es d)
  have "scan_caps (CvMap es) d = Inr () \<longleftrightarrow> d \<le> MAX_INTENT_DEPTH \<and>
      (\<forall>e \<in> set es. (case fst e of CvText s \<Rightarrow> length s \<le> MAX_KEY_BYTES | _ \<Rightarrow> True) \<and>
        (\<forall>p \<in> set (subs (d + 1) (snd e)). fst p \<le> MAX_INTENT_DEPTH \<and> caps_ok (snd p)))"
  proof (cases "d \<le> MAX_INTENT_DEPTH")
    case True
    then show ?thesis
      unfolding scan_caps.simps check_each_ok res_bind_unit if_Inl_Inr
      by (intro conj_cong ball_cong refl 3) (auto split: core_value.split)
  qed simp
  then show ?case by (auto simp: list_all_iff ball_key_texts)
qed (auto simp: not_less)

definition param_key_ok :: "canon_env \<Rightarrow> string \<Rightarrow> bool" where
  "param_key_ok env s \<longleftrightarrow> set s \<inter> {CHR '' '', TAB, CR, LF} = {} \<and> un_lower env s = s"

lemma scan_param_keys_iff:
  "scan_param_keys env v = Inr () \<longleftrightarrow> all_subs 0 (maps_all (list_all (param_key_ok env))) v"
proof (induction env v rule: scan_param_keys.induct)
  case (1 env es)
  have "scan_param_keys env (CvMap es) = Inr () \<longleftrightarrow>
      (\<forall>e \<in> set es. (case fst e of CvText s \<Rightarrow> param_key_ok env s | _ \<Rightarrow> True) \<and>
        all_subs 0 (maps_all (list_all (param_key_ok env))) (snd e))"
    unfolding scan_param_keys.simps check_each_ok res_bind_unit
    by (intro ball_cong refl conj_cong 1) (auto simp: param_key_ok_def list_ex_iff if_Inl_Inr split: core_value.split)
  then show ?case by (simp add: all_subs_simps list_all_key_texts ball_both del: subs.simps)
next
  case (2 env items)
  then show ?case by (simp add: check_each_ok all_subs_simps del: subs.simps)
qed simp_all

lemma fold_collides_iff:
  "fold_collides env folded es \<longleftrightarrow>
     \<not> (distinct (map (un_lower env) (key_texts es)) \<and> set folded \<inter> un_lower env ` set (key_texts es) = {})"
  by (induction env folded es rule: fold_collides.induct) (auto simp: Let_def split: core_value.splits)

lemma scan_key_case_collisions_iff:
  "scan_key_case_collisions env v = Inr () \<longleftrightarrow> all_subs 0 (maps_all (\<lambda>ks. distinct (map (un_lower env) ks))) v"
proof (induction env v rule: scan_key_case_collisions.induct)
  case (1 env es)
  then show ?case by (auto simp: check_each_ok all_subs_simps fold_collides_iff simp del: subs.simps)
next
  case (2 env items)
  then show ?case by (simp add: check_each_ok all_subs_simps del: subs.simps)
qed simp_all

lemma text_field_iff:
  "check_intent_text_field env key s = Inr () \<longleftrightarrow>
     set s \<inter> {CHR '' '', TAB, CR, LF} = {} \<and> \<not> list_ex is_combining_mark (code_points s) \<and> un_nfkc env s = s \<and>
     (key \<in> {''verb'', ''resource_kind'', ''namespace''} \<longrightarrow> un_lower env s = s) \<and>
     (key = ''verb'' \<longrightarrow> s \<in> set ALLOWED_VERBS)"
  unfolding check_intent_text_field_def if_Inl_Inr by (auto simp: ALLOWED_VERBS_def)

lemma intent_ok_iff:
  "check_top_level env v = Inr () \<and> scan_identifier_separator v = Inr () \<longleftrightarrow> intent_ok env v"
proof (cases v)
  case (CvMap es)
  have "check_top_level env v = Inr () \<and> scan_identifier_separator v = Inr () \<longleftrightarrow>
      (\<forall>e \<in> set es. (case fst e of CvText key \<Rightarrow> key \<in> set ALLOWED_TOP_LEVEL_KEYS | _ \<Rightarrow> True) \<and>
        (case fst e of CvText key \<Rightarrow>
            key \<in> set ENUMERATED_FIELDS \<longrightarrow> (\<exists>s. snd e = CvText s \<and> check_intent_text_field env key s = Inr ())
          | _ \<Rightarrow> True) \<and>
        (case (fst e, snd e) of (CvText key, CvText s) \<Rightarrow> \<not> (key = ''name'' \<and> CHR ''/'' \<in> set s) | _ \<Rightarrow> True))"
    unfolding check_top_level_def scan_identifier_separator_def CvMap core_value.case res_bind_unit check_each_ok ball_both conj_assoc
    by (intro conj_cong ball_cong refl) (auto split: core_value.split)
  also have "\<dots> \<longleftrightarrow> (\<forall>e \<in> set es. entry_ok env e)"
  proof (intro ball_cong refl)
    fix e :: "core_value \<times> core_value"
    obtain k w where e: "e = (k, w)" by (cases e)
    have allowed: "key \<in> set ALLOWED_TOP_LEVEL_KEYS \<longleftrightarrow> key = ''params'' \<or> key \<in> set ENUMERATED_FIELDS" for key
      by (auto simp: ALLOWED_TOP_LEVEL_KEYS_def ENUMERATED_FIELDS_def)
    have fields: "''params'' \<notin> set ENUMERATED_FIELDS" "''name'' \<in> set ENUMERATED_FIELDS"
      by (simp_all add: ENUMERATED_FIELDS_def)
    show "((case fst e of CvText key \<Rightarrow> key \<in> set ALLOWED_TOP_LEVEL_KEYS | _ \<Rightarrow> True) \<and>
        (case fst e of CvText key \<Rightarrow>
            key \<in> set ENUMERATED_FIELDS \<longrightarrow> (\<exists>s. snd e = CvText s \<and> check_intent_text_field env key s = Inr ())
          | _ \<Rightarrow> True) \<and>
        (case (fst e, snd e) of (CvText key, CvText s) \<Rightarrow> \<not> (key = ''name'' \<and> CHR ''/'' \<in> set s) | _ \<Rightarrow> True)) = entry_ok env e"
    proof (cases k)
      case (CvText key)
      have field: "field_ok env key s \<longleftrightarrow>
          check_intent_text_field env key s = Inr () \<and> \<not> (key = ''name'' \<and> CHR ''/'' \<in> set s)" for s
        unfolding field_ok_def text_field_iff by blast
      show ?thesis
        unfolding e CvText entry_ok.simps fst_conv snd_conv core_value.case prod.case allowed field
        using fields by (cases w; cases "key = ''params''"; cases "key \<in> set ENUMERATED_FIELDS") auto
    qed (simp_all add: e)
  qed
  finally show ?thesis by (simp add: intent_ok_def CvMap list_all_iff)
qed (simp_all add: check_top_level_def scan_identifier_separator_def intent_ok_def)

lemma size_step_iff:
  "(case encode v of Inr bytes \<Rightarrow> fail_if (length bytes > MAX_INTENT_BYTES) MaxIntentSizeExceeded | Inl _ \<Rightarrow> Inr ()) = Inr () \<longleftrightarrow>
     size_ok v"
  by (auto simp: size_ok_def split: sum.split)

text \<open>The scans of the values together; the keys of a map are their own lower case, so they are unique under
  folding exactly when they are unique.\<close>

lemma node_ok_split:
  "node_ok env v \<longleftrightarrow>
     text_all (\<lambda>s. check_control_chars s = Inr ()) v \<and> text_all (\<lambda>s. check_nfc env s = Inr ()) v \<and> not_null v \<and> caps_ok v \<and>
     maps_all (list_all (param_key_ok env)) v \<and> maps_all (\<lambda>ks. distinct (map (un_lower env) ks)) v \<and> float_ok v"
proof (cases v)
  case (CvMap es)
  have "map (un_lower env) (key_texts es) = key_texts es" if "list_all (param_key_ok env) (key_texts es)"
    using that by (intro map_idI) (auto simp: list_all_iff param_key_ok_def)
  then show ?thesis
    by (auto simp: CvMap key_ok_def [abs_def] text_ok_def param_key_ok_def [abs_def] check_control_chars_def check_nfc_def
        check_each_fail_if not_null_def list_all_iff)
qed (auto simp: text_ok_def check_control_chars_def check_nfc_def check_each_fail_if not_null_def)

lemma pipeline_decides: "run_pipeline env raw = Inr v \<longleftrightarrow> v = raw \<and> canonical env raw"
proof -
  have "run_pipeline env raw = Inr v \<longleftrightarrow>
      size_ok raw \<and> all_subs 0 (text_all (\<lambda>s. check_control_chars s = Inr ())) raw \<and>
      all_subs 0 (text_all (\<lambda>s. check_nfc env s = Inr ())) raw \<and> all_subs 0 not_null raw \<and>
      (\<forall>p \<in> set (subs 0 raw). fst p \<le> MAX_INTENT_DEPTH \<and> caps_ok (snd p)) \<and>
      (check_top_level env raw = Inr () \<and> scan_identifier_separator raw = Inr ()) \<and>
      all_subs 0 (maps_all (list_all (param_key_ok env))) raw \<and>
      all_subs 0 (maps_all (\<lambda>ks. distinct (map (un_lower env) ks))) raw \<and> all_subs 0 float_ok raw \<and> v = raw"
    unfolding run_pipeline_def res_bind_unit size_step_iff scan_strings_iff scan_for_explicit_null_iff scan_caps_iff
      scan_param_keys_iff scan_key_case_collisions_iff scan_numeric_iff by auto
  also have "\<dots> \<longleftrightarrow> v = raw \<and> canonical env raw"
    unfolding intent_ok_iff canonical_def list_all_iff node_ok_split case_prod_beta by blast
  finally show ?thesis .
qed

text \<open>C8: \<open>run_pipeline\<close> accepts exactly the canonical intents, and returns what it was given.  Canonical is said
  without the scans: the encoding, where there is one, within 64 KiB; every value at most nine levels deep and
  not null; every text and key free of forbidden code points, in NFC and within its cap; the keys of every map
  unique, their own lower case and without white space; arrays within their cap; floats finite with a
  fraction; and the intent's own fields as the schema wants them.\<close>

theorem pipeline_iff: "run_pipeline env raw = Inr v \<longleftrightarrow> v = raw \<and> canonical env raw"
  by (rule pipeline_decides)

section \<open>The self-checks and the size cap\<close>

lemma json_core_encodable:
  "json_wf j \<Longrightarrow> json_to_core j = Inr raw \<Longrightarrow> encodable 0 raw \<and> wf_value raw"
  by (auto simp: json_to_core_def json_to_core_impl_eq encodable_core_of wf_core_of split: if_splits)

lemma json_core_encode:
  assumes "json_wf j" "json_to_core j = Inr raw"
  shows "encode raw = Inr bytes \<longleftrightarrow> length (enc raw) \<le> MAX_CBOR_BYTES \<and> bytes = enc raw"
  using json_core_encodable [OF assms] by (auto simp: encode_Inr)

text \<open>The Unicode tables of an ASCII-only world.\<close>

definition ident_env :: canon_env where
  "ident_env = \<lparr>un_nfc = \<lambda>s. s, un_nfkc = \<lambda>s. s, un_lower = \<lambda>s. s, json_from_str = \<lambda>s. Inl s, debug_str = \<lambda>s. s\<rparr>"

text \<open>For an intent that came from JSON, the two optional self-checks of a vector (\<open>apply_twice\<close> and
  \<open>roundtrip_via_cbor\<close>) succeed exactly when its encoding is within 64 KiB; an accepted intent fails them only
  beyond the 32 MiB cap of the encoder, where the size step has no encoding to measure and lets it through.\<close>

theorem self_checks_iff:
  assumes "json_wf j" "json_to_core j = Inr raw" "run_pipeline env raw = Inr v"
  shows "(apply_twice_failure env v = None \<longleftrightarrow> length (enc raw) \<le> MAX_INTENT_BYTES) \<and>
    (roundtrip_failure v = None \<longleftrightarrow> length (enc raw) \<le> MAX_INTENT_BYTES) \<and>
    (MAX_INTENT_BYTES < length (enc raw) \<longrightarrow> MAX_CBOR_BYTES < length (enc raw))"
proof -
  note raw = json_core_encodable [OF assms(1,2)] and encode_raw = json_core_encode [OF assms(1,2)]
  from assms(3) have v: "v = raw" and "size_ok raw" by (simp_all add: pipeline_decides canonical_def)
  then have small: "length (enc raw) \<le> MAX_CBOR_BYTES \<Longrightarrow> length (enc raw) \<le> MAX_INTENT_BYTES"
    by (simp add: size_ok_def encode_raw)
  show ?thesis
  proof (cases "length (enc raw) \<le> MAX_CBOR_BYTES")
    case True
    then have "encode raw = Inr (enc raw)" "decode (enc raw) = Inr (canon raw)" "encode (canon raw) = Inr (enc raw)"
      using raw by (simp_all add: encode_raw decode_enc encode_Inr encodable_canon enc_canon)
    with small True show ?thesis using assms(3)
      by (simp add: v apply_twice_failure_def roundtrip_failure_def cbor_equal_def)
  next
    case False
    then obtain err where no: "encode raw = Inl err" using encode_raw by (cases "encode raw") auto
    have "\<not> length (enc raw) \<le> MAX_INTENT_BYTES" using False by (simp add: MAX_CBOR_BYTES_def MAX_INTENT_BYTES_def)
    moreover have "apply_twice_failure env v \<noteq> None" "roundtrip_failure v \<noteq> None"
      using assms(3) by (simp_all add: v no apply_twice_failure_def roundtrip_failure_def cbor_equal_def)
    ultimately show ?thesis using False by simp
  qed
qed

lemma self_checks_iff_witness:
  "apply_twice_failure ident_env (CvMap []) = None \<and> roundtrip_failure (CvMap []) = None"
proof -
  have "json_wf (JObject [])" by simp
  moreover have "json_to_core (JObject []) = Inr (CvMap [])" by (simp add: json_to_core_def MAX_JSON_DEPTH_def)
  moreover have "run_pipeline ident_env (CvMap []) = Inr (CvMap [])"
    by (simp add: pipeline_decides canonical_def size_ok_def encode_Inr head_def MAX_INTENT_BYTES_def intent_ok_def)
  ultimately show ?thesis
    using self_checks_iff [of "JObject []" "CvMap []" ident_env "CvMap []"] by (simp add: head_def MAX_INTENT_BYTES_def)
qed

text \<open>An intent the size step should refuse: \<open>params\<close> holds 256 arrays of 256 texts of 4096 bytes each.\<close>

definition big_text :: string where "big_text = replicate 4096 (CHR ''a'')"

definition big_json :: json where
  "big_json = JObject [(''params'', JArray (replicate 256 (JArray (replicate 256 (JString big_text)))))]"

lemma code_points_ascii: "list_all (\<lambda>c. byte c < 128) s \<Longrightarrow> code_points s = map byte s"
proof (induction s)
  case (Cons c s)
  then show ?case by (subst code_points.simps) (simp add: utf8_width_def code_point_def)
qed (simp add: code_points.simps)

lemma utf8_ascii: "list_all (\<lambda>c. byte c < 128) s \<Longrightarrow> utf8_valid s"
  by (induction s) simp_all

lemma big_text_plain: "list_all (\<lambda>c. byte c < 128) big_text" "length big_text = 4096"
  by (simp_all only: big_text_def list_all_iff length_replicate) (simp add: byte_def)

definition nested :: "nat \<Rightarrow> string \<Rightarrow> core_value" where
  "nested n t = CvMap [(CvText ''params'', CvArray (replicate n (CvArray (replicate n (CvText t)))))]"

lemma big_core: "json_to_core big_json = Inr (nested 256 big_text)"
proof -
  have "json_wf (JString big_text)" using utf8_ascii [OF big_text_plain(1)] by (simp add: str_ok_def big_text_plain)
  then have "json_wf (JObject [(''params'', JArray (replicate n (JArray (replicate n (JString big_text)))))])" for n
    by (simp add: list_all_iff str_ok_def byte_def)
  moreover have "json_fits 0 (JObject [(''params'', JArray (replicate n (JArray (replicate n (JString big_text)))))])" for n
    by (simp add: list_all_iff)
  moreover have "core_of (JObject [(''params'', JArray (replicate n (JArray (replicate n (JString big_text)))))]) = nested n big_text" for n
    by (simp add: nested_def)
  ultimately show ?thesis unfolding big_json_def json_to_core_def by (simp only: json_to_core_impl_eq if_True)
qed

lemma length_enc_replicate: "n * length (enc v) \<le> length (enc (CvArray (replicate n v)))"
  by (simp add: length_concat comp_def sum_list_replicate)

lemma nested_length: "n * (n * length t) \<le> length (enc (nested n t))"
proof -
  have "n * length t \<le> n * length (enc (CvText t))" by simp
  also have "\<dots> \<le> length (enc (CvArray (replicate n (CvText t))))" by (rule length_enc_replicate)
  finally have "n * (n * length t) \<le> n * length (enc (CvArray (replicate n (CvText t))))" by (rule mult_le_mono2)
  also have "\<dots> \<le> length (enc (CvArray (replicate n (CvArray (replicate n (CvText t))))))" by (rule length_enc_replicate)
  also have "\<dots> \<le> length (enc (nested n t))" by (simp add: nested_def del: length_replicate)
  finally show ?thesis .
qed

lemma nested_subs:
  "p \<in> set (subs 0 (nested n t)) \<Longrightarrow>
     fst p \<le> 3 \<and> snd p \<in> {nested n t, CvArray (replicate n (CvArray (replicate n (CvText t)))), CvArray (replicate n (CvText t)), CvText t}"
  by (auto simp: nested_def split: if_splits)

text \<open>The size cap fails open.  Over any Unicode tables that leave lower-case ASCII alone there is an intent
  whose canonical encoding has at least 256 MiB, 4096 times the cap of 64 KiB, and which the pipeline accepts:
  its encoding is beyond the encoder's own cap, and the step reads that error as no objection.\<close>

theorem oversized_accepted:
  assumes "un_nfc env big_text = big_text" "un_nfc env ''params'' = ''params''" "un_lower env ''params'' = ''params''"
  shows "\<exists>raw. json_to_core big_json = Inr raw \<and> 2 ^ 28 \<le> length (enc raw) \<and> run_pipeline env raw = Inr raw"
proof (intro exI conjI)
  show "json_to_core big_json = Inr (nested 256 big_text)" by (rule big_core)
  have big: "256 * (256 * 4096) \<le> length (enc (nested 256 big_text))"
    using nested_length [of 256 big_text] unfolding big_text_plain(2) .
  then show "2 ^ 28 \<le> length (enc (nested 256 big_text))" by (rule order_trans [rotated]) simp
  have "MAX_CBOR_BYTES < 256 * (256 * 4096)" by (simp add: MAX_CBOR_BYTES_def)
  then have sz: "size_ok (nested 256 big_text)" using big by (auto simp: size_ok_def encode_Inr)
  have cps: "set (code_points big_text) = {97}" "code_points ''params'' = [112, 97, 114, 97, 109, 115]"
    unfolding code_points_ascii [OF big_text_plain(1)] by (simp_all add: code_points_ascii byte_def) (simp add: big_text_def byte_def)
  have plain: "text_ok env big_text" "text_ok env ''params''" "big_text \<noteq> []"
    using assms(1,2) by (simp_all add: text_ok_def list_ex_iff cps is_forbidden_char_def is_general_control_def)
      (simp add: big_text_def)
  have "node_ok env w" if "w \<in> {nested n big_text, CvArray (replicate n (CvArray (replicate n (CvText big_text)))),
      CvArray (replicate n (CvText big_text)), CvText big_text}" "n \<le> MAX_ARRAY_LEN" for w n
    using that plain assms(3) by (auto simp: nested_def key_ok_def MAX_KEY_BYTES_def MAX_STRING_BYTES_def big_text_plain
        TAB_def CR_def LF_def)
  then have nodes: "node_ok env w" if "w \<in> {nested 256 big_text, CvArray (replicate 256 (CvArray (replicate 256 (CvText big_text)))),
      CvArray (replicate 256 (CvText big_text)), CvText big_text}" for w
    using that by (simp only: MAX_ARRAY_LEN_def order_refl)
  have "list_all (\<lambda>(d, w). d \<le> MAX_INTENT_DEPTH \<and> node_ok env w) (subs 0 (nested 256 big_text))"
    unfolding list_all_iff case_prod_beta
  proof (intro ballI conjI)
    fix p assume "p \<in> set (subs 0 (nested 256 big_text))"
    from nested_subs [OF this] show "fst p \<le> MAX_INTENT_DEPTH" "node_ok env (snd p)"
      using nodes by (simp_all only: MAX_INTENT_DEPTH_def) linarith
  qed
  then show "run_pipeline env (nested 256 big_text) = Inr (nested 256 big_text)"
    using sz by (simp add: pipeline_decides canonical_def intent_ok_def nested_def ALLOWED_TOP_LEVEL_KEYS_def)
qed

lemma oversized_accepted_witness:
  "\<exists>raw. json_to_core big_json = Inr raw \<and> 2 ^ 28 \<le> length (enc raw) \<and> run_pipeline ident_env raw = Inr raw"
  by (rule oversized_accepted) (simp_all add: ident_env_def)

section \<open>The duplicate-key scan\<close>

text \<open>The compact text of a document, over any text for its numbers.\<close>

fun commas :: "string list \<Rightarrow> string" where
  "commas [] = []"
| "commas (x # xs) = x @ (if xs = [] then [] else CHR '','' # commas xs)"

fun render :: "(json_number \<Rightarrow> string) \<Rightarrow> json \<Rightarrow> string" where
  "render num JNull = ''null''"
| "render num (JBool b) = (if b then ''true'' else ''false'')"
| "render num (JNumber n) = num n"
| "render num (JString s) = QUOTE # s @ [QUOTE]"
| "render num (JArray items) = CHR ''['' # commas (map (render num) items) @ '']''"
| "render num (JObject kvs) =
     CHR ''{'' # commas (map (\<lambda>kv. QUOTE # fst kv @ QUOTE # CHR '':'' # render num (snd kv)) kvs) @ ''}''"

definition plain_str :: "string \<Rightarrow> bool" where
  "plain_str s \<longleftrightarrow> QUOTE \<notin> set s \<and> BACKSLASH \<notin> set s"

definition neutral :: "char \<Rightarrow> bool" where
  "neutral c \<longleftrightarrow> c \<notin> {QUOTE, CHR ''{'', CHR ''}'', CHR '':''}"

fun plain_doc :: "(json_number \<Rightarrow> string) \<Rightarrow> json \<Rightarrow> bool" where
  "plain_doc num (JNumber n) \<longleftrightarrow> list_all neutral (num n)"
| "plain_doc num (JString s) \<longleftrightarrow> plain_str s"
| "plain_doc num (JArray items) \<longleftrightarrow> list_all (plain_doc num) items"
| "plain_doc num (JObject kvs) \<longleftrightarrow> list_all (\<lambda>kv. plain_str (fst kv) \<and> plain_doc num (snd kv)) kvs"
| "plain_doc num _ \<longleftrightarrow> True"

fun keys_unique :: "json \<Rightarrow> bool" where
  "keys_unique (JArray items) \<longleftrightarrow> list_all keys_unique items"
| "keys_unique (JObject kvs) \<longleftrightarrow> distinct (map fst kvs) \<and> list_all (\<lambda>kv. keys_unique (snd kv)) kvs"
| "keys_unique _ \<longleftrightarrow> True"

lemma scan_in_string:
  "plain_str s \<Longrightarrow>
   dup_loop stk True cur ex False (s @ QUOTE # rest) \<longleftrightarrow> dup_loop stk False [] (Some (cur @ s)) False rest"
proof (induction s arbitrary: cur)
  case Nil
  then show ?case by (simp add: QUOTE_def BACKSLASH_def)
next
  case (Cons c s)
  then have "plain_str s" "c \<noteq> QUOTE" "c \<noteq> BACKSLASH" by (auto simp: plain_str_def)
  with Cons.IH [of "cur @ [c]"] show ?case by simp
qed

lemma scan_string:
  "plain_str s \<Longrightarrow>
   dup_loop stk False cur ex False (QUOTE # s @ QUOTE # rest) \<longleftrightarrow> dup_loop stk False [] (Some s) False rest"
  using scan_in_string [of s stk "[]" ex rest] by simp

lemma scan_neutral:
  "list_all neutral t \<Longrightarrow> dup_loop stk False cur ex False (t @ rest) \<longleftrightarrow> dup_loop stk False cur ex False rest"
  by (induction t) (auto simp: neutral_def)

lemma neutral_literals:
  "list_all neutral ''null''" "list_all neutral ''true''" "list_all neutral ''false''" "list_all neutral ''[''"
  "list_all neutral '']''" "list_all neutral '',''"
  by (simp_all add: neutral_def QUOTE_def)

text \<open>A piece of text after which the scan goes on outside strings with the same stack, or has answered.\<close>

definition scans :: "string list list \<Rightarrow> string list list \<Rightarrow> string \<Rightarrow> bool \<Rightarrow> bool" where
  "scans stk stk' t u \<longleftrightarrow>
     (\<forall>cur ex. \<exists>cur' ex'. \<forall>rest.
        dup_loop stk False cur ex False (t @ rest) \<longleftrightarrow> \<not> u \<or> dup_loop stk' False cur' ex' False rest)"

lemma scansI:
  "(\<And>cur ex rest. dup_loop stk False cur ex False (t @ rest) \<longleftrightarrow> \<not> u \<or> dup_loop stk' False (c' cur ex) (e' cur ex) False rest) \<Longrightarrow>
   scans stk stk' t u"
  unfolding scans_def by blast

lemma scans_neutral: "list_all neutral t \<Longrightarrow> scans stk stk t True"
  by (rule scansI [where c' = "\<lambda>cur ex. cur" and e' = "\<lambda>cur ex. ex"]) (simp add: scan_neutral)

lemma scans_append:
  assumes "scans stk stk' s u" "u \<Longrightarrow> scans stk' stk'' t w"
  shows "scans stk stk'' (s @ t) (u \<and> w)"
  unfolding scans_def
proof (intro allI)
  fix cur ex
  from assms(1) obtain c1 e1 where
    1: "\<And>rest. dup_loop stk False cur ex False (s @ rest) \<longleftrightarrow> \<not> u \<or> dup_loop stk' False c1 e1 False rest"
    unfolding scans_def by blast
  show "\<exists>cur' ex'. \<forall>rest. dup_loop stk False cur ex False ((s @ t) @ rest) \<longleftrightarrow>
      \<not> (u \<and> w) \<or> dup_loop stk'' False cur' ex' False rest"
  proof (cases u)
    case True
    with assms(2) obtain c2 e2 where
      "\<And>rest. dup_loop stk' False c1 e1 False (t @ rest) \<longleftrightarrow> \<not> w \<or> dup_loop stk'' False c2 e2 False rest"
      unfolding scans_def by blast
    then show ?thesis using 1 by auto
  qed (use 1 in auto)
qed

lemma scans_commas:
  "(\<And>x. x \<in> set xs \<Longrightarrow> scans stk stk (f x) (u x)) \<Longrightarrow> scans stk stk (commas (map f xs)) (list_all u xs)"
proof (induction xs)
  case Nil
  show ?case by (simp add: scans_neutral)
next
  case (Cons x xs)
  have "scans stk stk ('','' @ commas (map f xs)) (True \<and> list_all u xs)"
    using Cons by (intro scans_append [OF scans_neutral [OF neutral_literals(6)]]) auto
  with Cons.prems [of x] Cons show ?case
    by (cases "xs = []") (auto intro: scans_append)
qed

lemma scans_open: "scans stk ([] # stk) ''{'' True" "scans (seen # stk) stk ''}'' True"
  by (rule scansI [where c' = "\<lambda>cur ex. cur" and e' = "\<lambda>cur ex. ex"], simp add: QUOTE_def)+

lemma scans_key:
  assumes "plain_str k"
  shows "scans (seen # stk) ((seen @ [k]) # stk) (QUOTE # k @ QUOTE # '':'') (k \<notin> set seen)"
proof (rule scansI [where c' = "\<lambda>cur ex. []" and e' = "\<lambda>cur ex. None"])
  fix cur ex rest
  show "dup_loop (seen # stk) False cur ex False ((QUOTE # k @ QUOTE # '':'') @ rest) \<longleftrightarrow>
      \<not> k \<notin> set seen \<or> dup_loop ((seen @ [k]) # stk) False [] None False rest"
    using scan_string [OF assms, of "seen # stk" cur ex "'':'' @ rest"] by (simp add: QUOTE_def)
qed

lemma scans_entries:
  assumes "\<And>kv stk. kv \<in> set kvs \<Longrightarrow> scans stk stk (f (snd kv)) (u (snd kv))" "\<And>kv. kv \<in> set kvs \<Longrightarrow> plain_str (fst kv)"
  shows "scans (seen # stk) ((seen @ map fst kvs) # stk)
     (commas (map (\<lambda>kv. QUOTE # fst kv @ QUOTE # CHR '':'' # f (snd kv)) kvs))
     (distinct (map fst kvs) \<and> set seen \<inter> fst ` set kvs = {} \<and> list_all (\<lambda>kv. u (snd kv)) kvs)"
  using assms
proof (induction kvs arbitrary: seen)
  case Nil
  show ?case by (simp add: scans_neutral)
next
  case (Cons kv kvs)
  let ?seen = "seen @ [fst kv]" and ?t = "QUOTE # fst kv @ QUOTE # '':''"
  let ?r = "commas (map (\<lambda>kv. QUOTE # fst kv @ QUOTE # CHR '':'' # f (snd kv)) kvs)"
  let ?u = "distinct (map fst kvs) \<and> set ?seen \<inter> fst ` set kvs = {} \<and> list_all (\<lambda>kv. u (snd kv)) kvs"
  have first: "scans (seen # stk) (?seen # stk) (?t @ f (snd kv)) (fst kv \<notin> set seen \<and> u (snd kv))"
    using Cons.prems by (intro scans_append [OF scans_key]) auto
  have rest: "scans (?seen # stk) ((?seen @ map fst kvs) # stk) ?r ?u"
    using Cons.prems by (intro Cons.IH) auto
  then have comma: "scans (?seen # stk) ((?seen @ map fst kvs) # stk) ('','' @ ?r) (True \<and> ?u)"
    by (intro scans_append [OF scans_neutral [OF neutral_literals(6)]])
  show ?case
  proof (cases "kvs = []")
    case True
    then show ?thesis using first by (simp add: conj_commute)
  next
    case False
    have "scans (seen # stk) ((?seen @ map fst kvs) # stk) ((?t @ f (snd kv)) @ '','' @ ?r)
        ((fst kv \<notin> set seen \<and> u (snd kv)) \<and> True \<and> ?u)"
      by (rule scans_append [OF first comma])
    moreover have "((fst kv \<notin> set seen \<and> u (snd kv)) \<and> True \<and> ?u) \<longleftrightarrow>
        (distinct (map fst (kv # kvs)) \<and> set seen \<inter> fst ` set (kv # kvs) = {} \<and> list_all (\<lambda>kv. u (snd kv)) (kv # kvs))"
      by auto
    ultimately show ?thesis using False by simp
  qed
qed

lemma scans_render: "plain_doc num v \<Longrightarrow> scans stk stk (render num v) (keys_unique v)"
proof (induction num v arbitrary: stk rule: render.induct)
  case (4 num s)
  show ?case
    by (rule scansI [where c' = "\<lambda>cur ex. []" and e' = "\<lambda>cur ex. Some s"]) (use 4 in \<open>simp add: scan_string del: dup_loop.simps\<close>)
next
  case (5 num items)
  have "scans stk stk (''['' @ commas (map (render num) items) @ '']'') (True \<and> list_all keys_unique items \<and> True)"
    using 5 by (intro scans_append [OF scans_neutral [OF neutral_literals(4)]]
        scans_append [OF scans_commas scans_neutral [OF neutral_literals(5)]]) (auto simp: list_all_iff)
  then show ?case by simp
next
  case (6 num kvs)
  let ?t = "commas (map (\<lambda>kv. QUOTE # fst kv @ QUOTE # CHR '':'' # render num (snd kv)) kvs)"
  let ?u = "distinct (map fst kvs) \<and> set [] \<inter> fst ` set kvs = {} \<and> list_all (\<lambda>kv. keys_unique (snd kv)) kvs"
  have "scans ([] # stk) (([] @ map fst kvs) # stk) ?t ?u"
    using 6 by (intro scans_entries) (auto simp: list_all_iff)
  then have "scans stk stk (''{'' @ ?t @ ''}'') (True \<and> ?u \<and> True)"
    by (intro scans_append [OF scans_open(1)] scans_append [OF _ scans_open(2)])
  then show ?case by simp
qed (auto intro: scans_neutral neutral_literals)

text \<open>C9: on the compact text of any document without escapes the duplicate-key scan answers exactly whether
  some object, at whatever depth, has the same key twice.\<close>

theorem duplicate_scan_iff:
  assumes "plain_doc num v"
  shows "has_duplicate_json_keys (render num v) \<longleftrightarrow> \<not> keys_unique v"
proof -
  from scans_render [OF assms, of "[]"] obtain cur' ex' where
    "\<And>rest. dup_loop [] False [] None False (render num v @ rest) \<longleftrightarrow> \<not> keys_unique v \<or> dup_loop [] False cur' ex' False rest"
    unfolding scans_def by blast
  from this [of "[]"] show ?thesis by (simp add: has_duplicate_json_keys_def)
qed

lemma duplicate_scan_iff_witness:
  "has_duplicate_json_keys (render (\<lambda>n. ''0'') (JObject [(''a'', JArray [JObject [(''b'', JNull), (''b'', JNull)]])]))"
  using duplicate_scan_iff [of "\<lambda>n. ''0''" "JObject [(''a'', JArray [JObject [(''b'', JNull), (''b'', JNull)]])]"]
  by (simp add: plain_str_def QUOTE_def BACKSLASH_def)

text \<open>With escapes it can err both ways: it drops the backslash, so two spellings of one key pass, and two keys
  of which one is an escape are taken for one.\<close>

lemma duplicate_scan_escapes:
  "\<not> has_duplicate_json_keys
      (''{'' @ [QUOTE] @ ''a'' @ [QUOTE] @ '':1,'' @ [QUOTE, BACKSLASH] @ ''u0061'' @ [QUOTE] @ '':2}'')"
  "has_duplicate_json_keys (''{'' @ [QUOTE] @ ''n'' @ [QUOTE] @ '':1,'' @ [QUOTE, BACKSLASH] @ ''n'' @ [QUOTE] @ '':2}'')"
  by (simp_all add: has_duplicate_json_keys_def QUOTE_def BACKSLASH_def)

text \<open>The surrogate scan does not skip an escaped backslash: this text is a backslash and \<open>ud800\<close>.\<close>

lemma surrogate_scan_escaped_backslash:
  "has_unpaired_surrogate_escape ([QUOTE, BACKSLASH, BACKSLASH] @ ''ud800'' @ [QUOTE])"
  by (simp add: has_unpaired_surrogate_escape.simps ESC_U_def QUOTE_def BACKSLASH_def parse_hex4_def hex_digit_def
      byte_def is_high_def)

section \<open>The index loops\<close>

text \<open>The loops over an index end on every text, valid or not, and compute the scans.\<close>

lemma surrogate_while_eq: "surrogate_while bytes i = Some (has_unpaired_surrogate_escape (drop i bytes))"
proof (induction "length bytes - i" arbitrary: i rule: less_induct)
  case less
  note unfolded = surrogate_while.simps [of bytes i] has_unpaired_surrogate_escape.simps [of "drop i bytes"]
  show ?case
  proof (cases "i + 6 \<le> length bytes")
    case True
    have drops: "drop n (drop i bytes) = drop (i + n) bytes" for n by (simp add: add.commute)
    have follow: "length (drop (i + 6) bytes) < 6 \<longleftrightarrow> i + 6 + 6 > length bytes" by auto
    have later: "surrogate_while bytes (i + n) = Some (has_unpaired_surrogate_escape (drop (i + n) bytes))" if "0 < n" for n
      using True that by (intro less) simp
    have next_rounds: "surrogate_while bytes (i + 1) = Some (has_unpaired_surrogate_escape (drop (i + 1) bytes))"
      "surrogate_while bytes (i + 6) = Some (has_unpaired_surrogate_escape (drop (i + 6) bytes))"
      "surrogate_while bytes (i + 12) = Some (has_unpaired_surrogate_escape (drop (i + 12) bytes))"
      by (intro later, simp)+
    have "\<not> length (drop i bytes) < 6" using True by simp
    with True show ?thesis unfolding unfolded Let_def drops follow next_rounds
      by (auto split: option.splits simp: add.commute [of i])
  next
    case False
    then have "length (drop i bytes) < 6" by simp
    with False show ?thesis unfolding unfolded by (simp only: if_True if_False)
  qed
qed

lemma number_while_eq: "number_while bytes in_string prev_escape i = Some (number_loop in_string prev_escape (drop i bytes))"
proof (induction "length bytes - i" arbitrary: i in_string prev_escape rule: less_induct)
  case less
  show ?case
  proof (cases "i < length bytes")
    case True
    have IH: "number_while bytes b e m = Some (number_loop b e (drop m bytes))" if "i < m" for b e m
      using True that by (intro less) simp
    define rest where "rest = drop (i + 1) bytes"
    have suc: "drop (Suc i) bytes = rest" by (simp add: rest_def)
    have here: "drop i bytes = bytes ! i # rest" using True by (simp add: rest_def Cons_nth_drop_Suc)
    define j where "j = i + 1 + length (takeWhile is_json_ws rest)"
    have from_j: "dropWhile is_json_ws rest = drop j bytes"
      by (simp add: j_def rest_def dropWhile_eq_drop add.commute)
    have last: "drop j bytes = [] \<longleftrightarrow> length bytes \<le> j" by simp
    define num_start where "num_start = (if bytes ! j \<in> {CHR ''-'', CHR ''+''} then j + 1 else j)"
    have from_num: "(if hd (drop j bytes) \<in> {CHR ''-'', CHR ''+''} then tl (drop j bytes) else drop j bytes) = drop num_start bytes"
      if "j < length bytes"
      using that by (simp add: num_start_def hd_drop_conv_nth tl_drop drop_Suc)
    have after: "dropWhile number_byte (drop num_start bytes) =
        drop (num_start + length (takeWhile number_byte (drop num_start bytes))) bytes"
      by (simp add: dropWhile_eq_drop add.commute)
    have later: "i < j" "i < num_start" by (simp_all add: j_def num_start_def)
    have "number_while bytes in_string prev_escape i =
        (if in_string then
           (if prev_escape then number_while bytes True False (i + 1)
            else if bytes ! i = BACKSLASH then number_while bytes True True (i + 1)
            else if bytes ! i = QUOTE then number_while bytes False False (i + 1)
            else number_while bytes True False (i + 1))
         else if bytes ! i = QUOTE then number_while bytes True prev_escape (i + 1)
         else if bytes ! i \<notin> {CHR '':'', CHR '','', CHR ''[''} then number_while bytes False prev_escape (i + 1)
         else if length bytes \<le> j then Some False
         else if takeWhile number_byte (drop num_start bytes) = [] then number_while bytes False prev_escape (i + 1)
         else if bad_literal (takeWhile number_byte (drop num_start bytes)) then Some True
         else number_while bytes False prev_escape (num_start + length (takeWhile number_byte (drop num_start bytes))))"
      using True unfolding number_while.simps [of bytes in_string prev_escape i] Let_def rest_def [symmetric] j_def [symmetric]
        num_start_def [symmetric] by simp
    also have "\<dots> = Some (number_loop in_string prev_escape (bytes ! i # rest))"
    proof (cases "length bytes \<le> j")
      case True
      then have "drop j bytes = []" by simp
      then show ?thesis
        unfolding number_loop.simps [of in_string prev_escape "_ # _"] list.case from_j Let_def
        using True later by (simp add: IH suc)
    next
      case False
      then have "drop j bytes \<noteq> []" by simp
      with False later show ?thesis
        unfolding number_loop.simps [of in_string prev_escape "_ # _"] list.case from_j Let_def
        by (simp add: IH suc from_num [simplified] after del: drop_eq_Nil)
    qed
    finally show ?thesis unfolding here .
  next
    case False
    then show ?thesis by (simp add: number_while.simps [of bytes] number_loop.simps [of _ _ "[]"])
  qed
qed

section \<open>The number scan\<close>

text \<open>The text of a number after the grammar of JSON, save that its integer part may have leading zeros, and the text of
  a string: any bytes, a quote or a backslash only behind a backslash.\<close>

record number_text =
  nt_sign :: string
  nt_int :: string
  nt_frac :: "string option"
  nt_exp :: string

definition spell :: "number_text \<Rightarrow> string" where
  "spell t = nt_sign t @ nt_int t @ (case nt_frac t of None \<Rightarrow> [] | Some f \<Rightarrow> CHR ''.'' # f) @ nt_exp t"

definition spelled :: "number_text \<Rightarrow> bool" where
  "spelled t \<longleftrightarrow>
     nt_sign t \<in> {'''', ''-''} \<and> nt_int t \<noteq> [] \<and> list_all is_digit (nt_int t) \<and>
     (\<forall>f. nt_frac t = Some f \<longrightarrow> f \<noteq> [] \<and> list_all is_digit f) \<and>
     (nt_exp t = '''' \<or>
      (\<exists>e sign ds. nt_exp t = e # sign @ ds \<and> e \<in> {CHR ''e'', CHR ''E''} \<and> sign \<in> {'''', ''+'', ''-''} \<and> list_all is_digit ds))"

fun string_text :: "string \<Rightarrow> bool" where
  "string_text [] \<longleftrightarrow> True"
| "string_text [c] \<longleftrightarrow> c \<noteq> BACKSLASH \<and> c \<noteq> QUOTE"
| "string_text (c # d # s) \<longleftrightarrow> (if c = BACKSLASH then string_text s else c \<noteq> QUOTE \<and> string_text (d # s))"

fun spelled_doc :: "(json_number \<Rightarrow> number_text) \<Rightarrow> json \<Rightarrow> bool" where
  "spelled_doc num (JNumber n) \<longleftrightarrow> spelled (num n)"
| "spelled_doc num (JString s) \<longleftrightarrow> string_text s"
| "spelled_doc num (JArray items) \<longleftrightarrow> list_all (spelled_doc num) items"
| "spelled_doc num (JObject kvs) \<longleftrightarrow> list_all (\<lambda>kv. string_text (fst kv) \<and> spelled_doc num (snd kv)) kvs"
| "spelled_doc num _ \<longleftrightarrow> True"

text \<open>What the scan is after: a leading zero, a fraction of zeros only, or more than twenty digits, the exponent apart.\<close>

definition not_canonical :: "number_text \<Rightarrow> bool" where
  "not_canonical t \<longleftrightarrow>
     (hd (nt_int t) = CHR ''0'' \<and> 1 < length (nt_int t)) \<or>
     (\<exists>f. nt_frac t = Some f \<and> set f \<subseteq> {CHR ''0''}) \<or>
     20 < length (nt_int t) + (case nt_frac t of None \<Rightarrow> 0 | Some f \<Rightarrow> length f)"

fun numbers_of :: "json \<Rightarrow> json_number list" where
  "numbers_of (JNumber n) = [n]"
| "numbers_of (JArray items) = concat (map numbers_of items)"
| "numbers_of (JObject kvs) = concat (map (\<lambda>kv. numbers_of (snd kv)) kvs)"
| "numbers_of _ = []"

fun inner_numbers :: "json \<Rightarrow> json_number list" where
  "inner_numbers (JNumber n) = []"
| "inner_numbers v = numbers_of v"

lemma skip_byte:
  "c \<notin> {QUOTE, CHR '':'', CHR '','', CHR ''[''} \<Longrightarrow> number_loop False False (c # rest) \<longleftrightarrow> number_loop False False rest"
  by (simp add: number_loop.simps [of False False "c # rest"])

lemma skip_bytes:
  "list_all (\<lambda>c. c \<notin> {QUOTE, CHR '':'', CHR '','', CHR ''[''}) t \<Longrightarrow>
   number_loop False False (t @ rest) \<longleftrightarrow> number_loop False False rest"
  by (induction t) (simp_all add: skip_byte)

lemma close_string: "number_loop True False (QUOTE # rest) \<longleftrightarrow> number_loop False False rest"
  using number_loop.simps [of True False "QUOTE # rest"] by (simp add: QUOTE_def BACKSLASH_def)

lemma skip_in_string: "string_text s \<Longrightarrow> number_loop True False (s @ QUOTE # rest) \<longleftrightarrow> number_loop False False rest"
proof (induction s rule: string_text.induct)
  case 1
  show ?case by (simp add: close_string)
next
  case (2 c)
  then show ?case by (simp add: number_loop.simps [of True False "c # QUOTE # rest"] close_string)
next
  case (3 c d s)
  then show ?case
    by (cases "c = BACKSLASH")
      (simp_all add: number_loop.simps [of True False "c # _"] number_loop.simps [of True False "BACKSLASH # _"]
        number_loop.simps [of True True "d # _"])
qed

lemma skip_string: "string_text s \<Longrightarrow> number_loop False False (QUOTE # s @ QUOTE # rest) \<longleftrightarrow> number_loop False False rest"
  by (simp add: number_loop.simps [of False False "QUOTE # _"] skip_in_string)

definition starts :: "char \<Rightarrow> bool" where
  "starts c \<longleftrightarrow> c \<in> {CHR '':'', CHR '','', CHR ''[''}"

text \<open>The scan looks for a number behind three characters; anything else there is looked at again.\<close>

lemma at_start:
  assumes "starts c" "rest \<noteq> []" "\<not> is_json_ws (hd rest)"
  shows "number_loop False False (c # rest) \<longleftrightarrow>
    (let from_num = (if hd rest \<in> {CHR ''-'', CHR ''+''} then tl rest else rest);
         lit = takeWhile number_byte from_num
     in if lit = [] then number_loop False False rest
        else if bad_literal lit then True
        else number_loop False False (dropWhile number_byte from_num))"
proof -
  have "dropWhile is_json_ws rest = rest" using assms(2,3) by (cases rest) simp_all
  moreover have "c \<noteq> QUOTE" "c \<in> {CHR '':'', CHR '','', CHR ''[''}" using assms(1) by (auto simp: starts_def QUOTE_def)
  ultimately show ?thesis
    unfolding number_loop.simps [of False False "c # rest"] list.case Let_def using assms(2) by (simp only: if_False if_True simp_thms)
qed

lemma skip_start:
  assumes "starts c" "\<not> is_json_ws d" "d \<notin> {CHR ''-'', CHR ''+''}" "\<not> number_byte d"
  shows "number_loop False False (c # d # rest) \<longleftrightarrow> number_loop False False (d # rest)"
  using at_start [OF assms(1), of "d # rest"] assms(2-4) by simp

lemma digit_byte:
  assumes "is_digit c"
  shows "number_byte c" "\<not> is_json_ws c" "c \<notin> {CHR ''-'', CHR ''+'', CHR ''.''}" "c \<notin> {QUOTE, CHR '':'', CHR '','', CHR ''[''}"
  using assms by (auto simp: number_byte_def is_json_ws_def is_digit_def byte_def TAB_def LF_def CR_def QUOTE_def)

definition body :: "number_text \<Rightarrow> string" where
  "body t = nt_int t @ (case nt_frac t of None \<Rightarrow> [] | Some f \<Rightarrow> CHR ''.'' # f)"

lemma body_bytes:
  assumes "spelled t"
  shows "list_all number_byte (body t)" "body t \<noteq> []" "is_digit (hd (body t))"
  using assms
  by (cases "nt_frac t"; auto simp: spelled_def body_def number_byte_def list_all_iff hd_append)+

lemma bad_body:
  assumes "spelled t"
  shows "bad_literal (body t) \<longleftrightarrow> not_canonical t"
proof -
  obtain a as where int: "nt_int t = a # as" using assms by (cases "nt_int t") (auto simp: spelled_def)
  have digits: "list_all is_digit (a # as)" using assms by (simp add: spelled_def int)
  then have whole: "filter is_digit (a # as) = a # as" and nodot: "CHR ''.'' \<notin> set (a # as)"
    by (auto simp: list_all_iff is_digit_def byte_def)
  have dot: "\<not> is_digit (CHR ''.'')" by (simp add: is_digit_def byte_def)
  show ?thesis
  proof (cases "nt_frac t")
    case None
    have "(\<exists>d. as = d # tl as \<and> is_digit d) \<longleftrightarrow> as \<noteq> []" using digits by (cases as) simp_all
    then show ?thesis
      using None digits whole nodot by (cases as) (simp_all add: bad_literal_def not_canonical_def body_def int)
  next
    case (Some f)
    then have f: "f \<noteq> []" "filter is_digit f = f" using assms by (auto simp: spelled_def list_all_iff filter_id_conv)
    have after: "drop 1 (dropWhile (\<lambda>c. c \<noteq> CHR ''.'') ((a # as) @ CHR ''.'' # f)) = f"
      using nodot by (subst dropWhile_append2) auto
    have second: "is_digit (((a # as) @ CHR ''.'' # f) ! 1) \<longleftrightarrow> as \<noteq> []"
      using digits dot by (cases as) simp_all
    have zeros: "list_all (\<lambda>c. c = CHR ''0'') f \<longleftrightarrow> set f \<subseteq> {CHR ''0''}" by (auto simp: list_all_iff)
    have count: "length (filter is_digit ((a # as) @ CHR ''.'' # f)) = length (a # as) + length f"
      unfolding filter_append whole using f(2) dot by simp
    have lit: "body t = (a # as) @ CHR ''.'' # f" by (simp add: body_def int Some)
    have "CHR ''.'' \<in> set ((a # as) @ CHR ''.'' # f)" by simp
    then show ?thesis
      unfolding bad_literal_def lit Let_def after second zeros count not_canonical_def int Some
      using f(1) by auto
  qed
qed

definition closes :: "string \<Rightarrow> bool" where
  "closes rest \<longleftrightarrow> rest = [] \<or> hd rest \<in> {CHR '','', CHR '']'', CHR ''}''}"

lemma exponent_bytes:
  assumes "spelled t"
  shows "list_all (\<lambda>c. c \<notin> {QUOTE, CHR '':'', CHR '','', CHR ''[''}) (nt_exp t)"
    and "closes rest \<Longrightarrow> takeWhile number_byte (nt_exp t @ rest) = []"
proof -
  consider "nt_exp t = ''''" | e sign ds where "nt_exp t = e # sign @ ds" "e \<in> {CHR ''e'', CHR ''E''}"
      "sign \<in> {'''', ''+'', ''-''}" "list_all is_digit ds"
    using assms unfolding spelled_def by blast
  note exponent = this
  show "list_all (\<lambda>c. c \<notin> {QUOTE, CHR '':'', CHR '','', CHR ''[''}) (nt_exp t)"
  proof (cases rule: exponent)
    case 2
    have "list_all (\<lambda>c. c \<notin> {QUOTE, CHR '':'', CHR '','', CHR ''[''}) ds"
      using 2(4) by (rule list.pred_mono_strong) (rule digit_byte(4))
    with 2(1-3) show ?thesis by (auto simp: QUOTE_def)
  qed simp
  assume "closes rest"
  then have "takeWhile number_byte rest = []"
    by (cases rest) (auto simp: closes_def number_byte_def is_digit_def byte_def)
  then show "takeWhile number_byte (nt_exp t @ rest) = []"
    by (cases rule: exponent) (auto simp: number_byte_def is_digit_def byte_def)
qed

lemma number_found:
  assumes "starts c" "spelled t" "closes rest"
  shows "number_loop False False (c # spell t @ rest) \<longleftrightarrow> not_canonical t \<or> number_loop False False rest"
proof -
  let ?tail = "nt_exp t @ rest"
  have whole: "spell t @ rest = nt_sign t @ body t @ ?tail" by (simp add: spell_def body_def)
  note b = body_bytes [OF assms(2)]
  obtain d ds where body: "body t = d # ds" using b(2) by (cases "body t") auto
  then have d: "is_digit d" using b(3) by simp
  have sign: "nt_sign t = '''' \<or> nt_sign t = ''-''" using assms(2) by (simp add: spelled_def)
  have ws: "\<not> is_json_ws (hd (spell t @ rest))" and ne: "spell t @ rest \<noteq> []"
    using sign digit_byte(2) [OF d] unfolding whole body by (auto simp: is_json_ws_def TAB_def LF_def CR_def)
  have num: "(if hd (spell t @ rest) \<in> {CHR ''-'', CHR ''+''} then tl (spell t @ rest) else spell t @ rest) = body t @ ?tail"
    using sign digit_byte(3) [OF d] unfolding whole body by auto
  have take: "takeWhile number_byte (body t @ ?tail) = body t"
    using b(1) exponent_bytes(2) [OF assms(2,3)] by (simp add: takeWhile_append2 list_all_iff)
  have drop: "dropWhile number_byte (body t @ ?tail) = ?tail"
    using takeWhile_dropWhile_id [of number_byte "body t @ ?tail"] unfolding take by simp
  have "number_loop False False (c # spell t @ rest) \<longleftrightarrow>
      (if bad_literal (body t) then True else number_loop False False ?tail)"
    unfolding at_start [OF assms(1) ne ws] num take drop Let_def using b(2) by (simp only: if_False)
  then show ?thesis
    using bad_body [OF assms(2)] skip_bytes [OF exponent_bytes(1) [OF assms(2)]] by simp
qed

definition number_texts :: "(json_number \<Rightarrow> number_text) \<Rightarrow> json_number \<Rightarrow> string" where
  "number_texts num n = spell (num n)"

text \<open>The scan of a document in its context: within its text, and behind a character that starts a number.\<close>

definition detected :: "(json_number \<Rightarrow> number_text) \<Rightarrow> json_number list \<Rightarrow> bool" where
  "detected num ns \<longleftrightarrow> (\<exists>n \<in> set ns. not_canonical (num n))"

definition scanned :: "(json_number \<Rightarrow> number_text) \<Rightarrow> json \<Rightarrow> bool" where
  "scanned num v \<longleftrightarrow>
     (\<forall>rest. number_loop False False (render (number_texts num) v @ rest) \<longleftrightarrow>
        detected num (inner_numbers v) \<or> number_loop False False rest) \<and>
     (\<forall>c rest. starts c \<longrightarrow> closes rest \<longrightarrow>
        (number_loop False False (c # render (number_texts num) v @ rest) \<longleftrightarrow>
           detected num (numbers_of v) \<or> number_loop False False rest))"

lemma detected_simps [simp]:
  "detected num [] \<longleftrightarrow> False" "detected num (xs @ ys) \<longleftrightarrow> detected num xs \<or> detected num ys"
  "detected num [n] \<longleftrightarrow> not_canonical (num n)"
  by (auto simp: detected_def)

lemma starts_simps [simp]: "starts (CHR '':'')" "starts (CHR '','')" "starts (CHR ''['')"
  by (simp_all add: starts_def)

lemma closes_simps [simp]: "closes []" "closes (CHR '','' # t)" "closes (CHR '']'' # t)" "closes (CHR ''}'' # t)"
  by (simp_all add: closes_def)

text \<open>A text with no number at its front is scanned the same behind such a character.\<close>

lemma scannedI:
  assumes "\<And>rest. number_loop False False (render (number_texts num) v @ rest) \<longleftrightarrow> detected num (numbers_of v) \<or> number_loop False False rest"
    and "render (number_texts num) v = d # t" "d \<in> {CHR ''n'', CHR ''t'', CHR ''f'', QUOTE, CHR ''['', CHR ''{''}"
    and "inner_numbers v = numbers_of v"
  shows "scanned num v"
proof -
  have "\<not> is_json_ws d" "d \<notin> {CHR ''-'', CHR ''+''}" "\<not> number_byte d"
    using assms(3) by (auto simp: is_json_ws_def number_byte_def is_digit_def byte_def TAB_def LF_def CR_def QUOTE_def)
  then have "number_loop False False (c # render (number_texts num) v @ rest) \<longleftrightarrow> number_loop False False (render (number_texts num) v @ rest)"
    if "starts c" for c rest
    using skip_start [OF that] by (simp add: assms(2))
  with assms(1,4) show ?thesis by (simp add: scanned_def)
qed

lemma scanned_number:
  assumes "spelled (num n)"
  shows "scanned num (JNumber n)"
proof -
  let ?plain = "\<lambda>c. c \<notin> {QUOTE, CHR '':'', CHR '','', CHR ''[''}"
  have digits: "list_all ?plain ds" if "list_all is_digit ds" for ds
    using that by (rule list.pred_mono_strong) (rule digit_byte(4))
  have "list_all ?plain (spell (num n))"
    using assms digits [of "nt_int (num n)"] digits [of "the (nt_frac (num n))"] exponent_bytes(1) [OF assms]
    by (cases "nt_frac (num n)") (auto simp: spell_def spelled_def QUOTE_def)
  then show ?thesis using number_found [OF _ assms] by (simp add: scanned_def skip_bytes number_texts_def)
qed

lemma scanned_elements:
  assumes "\<And>v. v \<in> set items \<Longrightarrow> scanned num v" "items \<noteq> []" "starts c" "closes rest"
  shows "number_loop False False (c # commas (map (render (number_texts num)) items) @ rest) \<longleftrightarrow>
    detected num (concat (map numbers_of items)) \<or> number_loop False False rest"
  using assms
proof (induction items arbitrary: c)
  case (Cons v items)
  have v: "number_loop False False (c # render (number_texts num) v @ rest') \<longleftrightarrow>
      detected num (numbers_of v) \<or> number_loop False False rest'" if "closes rest'" for rest'
    using Cons.prems(1) [of v] Cons.prems(3) that by (simp add: scanned_def)
  show ?case
  proof (cases "items = []")
    case True
    then show ?thesis using v [OF Cons.prems(4)] by simp
  next
    case False
    then show ?thesis using v Cons.IH [of "CHR '',''"] Cons.prems by simp
  qed
qed simp

lemma scanned_entries:
  assumes "\<And>kv. kv \<in> set kvs \<Longrightarrow> string_text (fst kv) \<and> scanned num (snd kv)" "closes rest"
  shows "number_loop False False
      (commas (map (\<lambda>kv. QUOTE # fst kv @ QUOTE # CHR '':'' # render (number_texts num) (snd kv)) kvs) @ rest) \<longleftrightarrow>
    detected num (concat (map (\<lambda>kv. numbers_of (snd kv)) kvs)) \<or> number_loop False False rest"
  using assms(1)
proof (induction kvs)
  case (Cons kv kvs)
  let ?more = "commas (map (\<lambda>kv. QUOTE # fst kv @ QUOTE # CHR '':'' # render (number_texts num) (snd kv)) kvs)"
  have kv: "number_loop False False (QUOTE # fst kv @ QUOTE # CHR '':'' # render (number_texts num) (snd kv) @ rest') \<longleftrightarrow>
      detected num (numbers_of (snd kv)) \<or> number_loop False False rest'" if "closes rest'" for rest'
    using Cons.prems [of kv] that by (simp add: scanned_def skip_string)
  show ?case
  proof (cases "kvs = []")
    case True
    then show ?thesis using kv [OF assms(2)] by simp
  next
    case False
    then obtain d t where more: "?more = QUOTE # t" by (cases kvs) auto
    have "number_loop False False (CHR '','' # ?more @ rest) \<longleftrightarrow> number_loop False False (?more @ rest)"
      unfolding more append_Cons
      by (rule skip_start) (simp_all add: is_json_ws_def number_byte_def is_digit_def byte_def TAB_def LF_def CR_def QUOTE_def)
    with False kv [of "CHR '','' # ?more @ rest"] Cons show ?thesis by simp
  qed
qed simp

lemma scanned_word: "scanned num JNull" "scanned num (JBool v)"
proof -
  show "scanned num JNull" by (rule scannedI [where d = "CHR ''n''"]) (simp_all add: skip_byte QUOTE_def)
  show "scanned num (JBool v)"
    by (rule scannedI [where d = "if v then CHR ''t'' else CHR ''f''" and t = "if v then ''rue'' else ''alse''"])
      (simp_all add: skip_byte QUOTE_def)
qed

lemma scanned_doc: "spelled_doc num v \<Longrightarrow> scanned num v"
proof (induction num v rule: spelled_doc.induct)
  case (1 num n)
  then show ?case by (simp add: scanned_number)
next
  case (2 num s)
  then show ?case by (intro scannedI [where d = QUOTE]) (auto simp: skip_string)
next
  case (3 num items)
  have "number_loop False False (CHR ''['' # commas (map (render (number_texts num)) items) @ CHR '']'' # rest) \<longleftrightarrow>
      detected num (concat (map numbers_of items)) \<or> number_loop False False rest" for rest
  proof (cases "items = []")
    case True
    then show ?thesis
      using skip_start [of "CHR ''[''" "CHR '']''" rest] skip_byte [of "CHR '']''" rest]
      by (simp add: is_json_ws_def number_byte_def is_digit_def byte_def TAB_def LF_def CR_def QUOTE_def)
  next
    case False
    have "number_loop False False (CHR '']'' # rest) \<longleftrightarrow> number_loop False False rest"
      by (rule skip_byte) (simp add: QUOTE_def)
    with False 3 scanned_elements [of items num "CHR ''[''" "CHR '']'' # rest"] show ?thesis by (simp add: list_all_iff)
  qed
  then show ?case by (intro scannedI [where d = "CHR ''[''"]) simp_all
next
  case (4 num kvs)
  have brace: "number_loop False False (CHR ''{'' # rest) \<longleftrightarrow> number_loop False False rest"
      "number_loop False False (CHR ''}'' # rest) \<longleftrightarrow> number_loop False False rest" for rest
    by (rule skip_byte, simp add: QUOTE_def)+
  have kvs: "string_text (fst kv) \<and> scanned num (snd kv)" if "kv \<in> set kvs" for kv
    using 4 that by (auto simp: list_all_iff)
  show ?case
    using scanned_entries [OF kvs, where rest = "CHR ''}'' # _"] by (intro scannedI [where d = "CHR ''{''"]) (simp_all add: brace)
qed (simp_all add: scanned_word)

text \<open>C39: on the compact text of any document whose numbers follow the grammar of JSON, leading zeros apart, and whose
  strings may hold escapes, the number scan answers exactly whether some number below the root has a leading zero, a
  fraction of zeros only or more than twenty digits; and so does its loop over an index as the code writes it, which is
  thereby shown to end.  A number that is the whole document is not looked at, an exponent is not either, and nothing
  inside a string is taken for a number.\<close>

theorem number_scan_iff:
  assumes "spelled_doc num v"
  shows "(has_non_canonical_number (render (number_texts num) v) \<longleftrightarrow> (\<exists>n \<in> set (inner_numbers v). not_canonical (num n))) \<and>
    number_while (render (number_texts num) v) False False 0 = Some (\<exists>n \<in> set (inner_numbers v). not_canonical (num n))"
proof -
  have "number_loop False False (render (number_texts num) v @ []) \<longleftrightarrow>
      detected num (inner_numbers v) \<or> number_loop False False []"
    using scanned_doc [OF assms] unfolding scanned_def by blast
  then show ?thesis
    by (simp add: number_while_eq has_non_canonical_number_def detected_def number_loop.simps [of False False "[]"])
qed

definition sample_number :: "json_number \<Rightarrow> number_text" where
  "sample_number n =
     (if n = NInt 1 then \<lparr>nt_sign = ''-'', nt_int = ''1'', nt_frac = Some ''00'', nt_exp = ''e5''\<rparr>
      else \<lparr>nt_sign = '''', nt_int = ''7'', nt_frac = None, nt_exp = ''''\<rparr>)"

definition sample_document :: json where
  "sample_document = JObject [(''a'', JArray [JNumber (NInt 7), JString '':00'']), (''b'', JNumber (NInt 1))]"

lemma sample_spelled: "spelled_doc sample_number sample_document"
proof -
  have "''5'' = '''' @ ''5'' \<and> '''' \<in> {'''', ''+'', ''-''} \<and> list_all is_digit ''5''" by (simp add: is_digit_def byte_def)
  then have "\<exists>sign ds. ''5'' = sign @ ds \<and> sign \<in> {'''', ''+'', ''-''} \<and> list_all is_digit ds" by blast
  then have "spelled (sample_number (NInt 1))" by (simp add: spelled_def sample_number_def is_digit_def byte_def)
  moreover have "spelled (sample_number (NInt 7))" by (simp add: spelled_def sample_number_def is_digit_def byte_def)
  ultimately show ?thesis by (simp add: sample_document_def QUOTE_def BACKSLASH_def)
qed

lemma number_scan_iff_witness: "has_non_canonical_number (render (number_texts sample_number) sample_document)"
  using number_scan_iff [OF sample_spelled] by (simp add: sample_document_def sample_number_def not_canonical_def)

end
