(* ===== verification/Anomaly_Suites.thy ===== *)
theory Anomaly_Suites
  imports Vectors Signature Event Orchestrator Json
begin

text \<open>
  The three suites of \<open>ephemeral-core/src/suites\<close> that drive the anomaly engine: \<open>anomaly_library.rs\<close>,
  \<open>anomaly_detect.rs\<close> and \<open>audit.rs\<close>.  The decoders that \<open>serde_json::from_value\<close> stands for, the RFC 3339
  parser of the \<open>time\<close> crate, the error texts of both and of \<open>hex\<close>, and the debug format of a string are fields
  of \<open>anomaly_env\<close>.  The opening stages, which the three files repeat word for word, are one definition
  here, over the name each file puts into its messages.
\<close>

section \<open>Inputs\<close>

record envelope_input =
  ei_cose_hex :: string
  ei_anchor_keys :: "trust_anchor_key_def list"
  ei_abi :: nat
  ei_now :: string
  ei_pre_ledger :: "(string \<times> nat) list"

record detect_input = envelope_input +
  di_start :: string
  di_streams :: "audit_stream_input list"

record rotation =
  ro_after :: nat
  ro_cose_hex :: string
  ro_start :: string
  ro_abi :: nat

record audit_input = envelope_input +
  ai_start :: string
  ai_streams :: "(string \<times> audit_stream_input) list"
  ai_rotate :: "rotation option"

record expected_record =
  er_tenant_id :: string
  er_pattern_id :: string
  er_library_version :: nat
  er_severity :: severity
  er_firing_rule :: firing_rule
  er_match_scope :: match_scope

record ('pk, 'sig) anomaly_env =
  an_crypto :: "('pk, 'sig) crypto_env"
  an_decode_payload :: payload_decoder
  an_rfc3339 :: "string \<Rightarrow> string + int"
  an_hex_error :: "string \<Rightarrow> string"
  an_debug_str :: "string \<Rightarrow> string"
  an_library_input :: "json \<Rightarrow> string + envelope_input"
  an_detect_input :: "json \<Rightarrow> string + detect_input"
  an_audit_input :: "json \<Rightarrow> string + audit_input"
  an_expected_fires :: "json \<Rightarrow> string + anomaly_fire list"
  an_expected_records :: "json \<Rightarrow> string + expected_record list"

definition parse_iso_seconds :: "('pk, 'sig) anomaly_env \<Rightarrow> string \<Rightarrow> string + int" where
  "parse_iso_seconds env s = an_rfc3339 env s"

text \<open>The same parser inside the expansion of a stream, which drops the text of the error.\<close>

definition stream_clock :: "('pk, 'sig) anomaly_env \<Rightarrow> string \<Rightarrow> int option" where
  "stream_clock env s = (case an_rfc3339 env s of Inl _ \<Rightarrow> None | Inr t \<Rightarrow> Some t)"

section \<open>Opening the library\<close>

fun seed_ledger :: "(string \<times> nat) list \<Rightarrow> in_memory_anomaly_ledger \<Rightarrow> ledger_error + in_memory_anomaly_ledger" where
  "seed_ledger [] ledger = Inr ledger"
| "seed_ledger ((library_id, hwm) # seeds) ledger =
     (case ledger_observe ledger library_id hwm of
        (Inl e, _) \<Rightarrow> Inl e
      | (Inr _, ledger) \<Rightarrow> seed_ledger seeds ledger)"

text \<open>The outer \<open>Inl\<close> is a failure of the harness, the inner one the answer of the verifier.\<close>

definition open_library ::
  "('pk, 'sig) anomaly_env \<Rightarrow> string \<Rightarrow> 'z envelope_input_scheme \<Rightarrow>
   validation_outcome + (anomaly_lib_error + verified_anomaly_library)" where
  "open_library env who input =
     (case build_anchor_set (an_crypto env) (ei_anchor_keys input) AnomalyLibrarySigner of
        Inl e \<Rightarrow> Inl (Fail (who @ '' anchor build: '' @ cose_error_text e))
      | Inr anchors \<Rightarrow>
     (case hex_decode (an_crypto env) (ei_cose_hex input) of
        None \<Rightarrow>
          Inl (Fail (who @ '' cose_sign1_bytes_anomaly_library hex decode: '' @ an_hex_error env (ei_cose_hex input)))
      | Some cose_bytes \<Rightarrow>
     (case parse_iso_seconds env (ei_now input) of
        Inl e \<Rightarrow> Inl (Fail (who @ '' current_time not RFC-3339 ('' @ ei_now input @ ''): '' @ e))
      | Inr now_unix \<Rightarrow>
     (case seed_ledger (ei_pre_ledger input) ledger_new of
        Inl e \<Rightarrow> Inl (Fail (who @ '' pre_ledger seed failed: '' @ ledger_error_text e))
      | Inr ledger \<Rightarrow>
          Inr (fst (verify_anomaly_library_signature_with_ledger (an_crypto env) (an_decode_payload env) ledger_observe
                      cose_bytes anchors (ei_abi input) now_unix ledger))))))"

section \<open>anomaly\_library.rs\<close>

text \<open>A panic of the verifier has no answer; no input makes one.\<close>

fun library_wire_code :: "anomaly_lib_error \<Rightarrow> string" where
  "library_wire_code CoseVerifyFailed = ''anomaly-library-signature-invalid''"
| "library_wire_code PayloadDecodeFailed = ''anomaly-library-signature-payload-malformed''"
| "library_wire_code (AbiVersionMismatch _ _) = ''anomaly-library-abi-version-mismatch''"
| "library_wire_code (SignerKidMismatch _ _) = ''anomaly-library-signer-kid-mismatch''"
| "library_wire_code (NotYetValid _ _) = ''anomaly-library-not-yet-valid''"
| "library_wire_code (Expired _ _) = ''anomaly-library-expired''"
| "library_wire_code (PatternIdDuplicate _) = ''anomaly-library-pattern-id-duplicate''"
| "library_wire_code (SeverityActionInconsistent _ _ _) = ''anomaly-library-severity-action-inconsistent''"
| "library_wire_code (UnknownVerbFamily _ _) = ''anomaly-library-unknown-verb-family''"
| "library_wire_code (FiringRuleCompanionMissing _ _ _) = ''anomaly-library-firing-rule-companion-missing''"
| "library_wire_code (LibraryVersionTooOld _ _ _) = ''pattern-library-version-too-old''"
| "library_wire_code (LedgerFailure _) = ''anomaly-library-ledger-failure''"
| "library_wire_code (Panicked _) = ''anomaly-library-reject-unknown-variant''"

definition expected_code_of :: "'j vector \<Rightarrow> string" where
  "expected_code_of vector = (case exp_reject_code (v_expected vector) of Some c \<Rightarrow> c | None \<Rightarrow> [])"

definition render_outcome :: "'j vector \<Rightarrow> anomaly_lib_error + verified_anomaly_library \<Rightarrow> validation_outcome" where
  "render_outcome vector result =
     (let expected_code = expected_code_of vector in
      case (exp_outcome (v_expected vector), result) of
        (Accept, Inr _) \<Rightarrow> Pass
      | (Accept, Inl e) \<Rightarrow> Fail (''expected accept, got reject='' @ library_wire_code e)
      | (Reject, Inr _) \<Rightarrow> Fail (''expected reject='' @ expected_code @ '', got accept'')
      | (Reject, Inl e) \<Rightarrow>
          (let got = library_wire_code e in
           if got = expected_code then Pass
           else Fail (''reject-code mismatch: expected='' @ expected_code @ '' got='' @ got)))"

definition library_execute :: "('pk, 'sig) anomaly_env \<Rightarrow> json vector \<Rightarrow> validation_outcome" where
  "library_execute env vector =
     (let who = ''anomaly-library vector '' @ v_id vector in
      case an_library_input env (v_input vector) of
        Inl e \<Rightarrow> Fail (who @ '' input deserialize: '' @ e)
      | Inr input \<Rightarrow>
          (case open_library env who input of
             Inl failure \<Rightarrow> failure
           | Inr result \<Rightarrow> render_outcome vector result))"

section \<open>Streams\<close>

fun stream_wire_suffix :: "stream_error \<Rightarrow> string" where
  "stream_wire_suffix (ExpansionExceeded _ _) = ''expansion-exceeded''"
| "stream_wire_suffix (ClockSkewRejected _ _) = ''clock-skew-rejected''"
| "stream_wire_suffix (TimestampParseFailed _) = ''timestamp-parse-failed''"
| "stream_wire_suffix PatternMissingIndexPlaceholder = ''pattern-missing-index-placeholder''"
| "stream_wire_suffix ZeroIntervalWithMultipleEvents = ''zero-interval-with-multiple-events''"
| "stream_wire_suffix PatternDescriptionCountZero = ''pattern-description-count-zero''"
| "stream_wire_suffix (PerMandateCapReached _ _) = ''per-mandate-cap-reached''"
| "stream_wire_suffix (ClockRegression _ _) = ''clock-regression''"
| "stream_wire_suffix (PastDatedEventRejected _ _ _) = ''past-dated-event''"
| "stream_wire_suffix (DedupLedgerFailure _) = ''dedup-ledger-failure''"

definition detect_wire_code :: "stream_error \<Rightarrow> string" where
  "detect_wire_code e = ''anomaly-detect-stream-'' @ stream_wire_suffix e"

definition audit_wire_code :: "stream_error \<Rightarrow> string" where
  "audit_wire_code e = ''audit-replay-stream-'' @ stream_wire_suffix e"

text \<open>A refusal of a stream: its index, the stage that refused and the error.\<close>

type_synonym stream_refusal = "nat \<times> string \<times> stream_error"

definition stream_error_outcome ::
  "string \<Rightarrow> (stream_error \<Rightarrow> string) \<Rightarrow> 'j vector \<Rightarrow> stream_refusal \<Rightarrow> validation_outcome" where
  "stream_error_outcome who wire_code vector refusal =
     (let (stream_idx, stage, err) = refusal;
          got = wire_code err;
          expected_code = expected_code_of vector
      in case exp_outcome (v_expected vector) of
           Accept \<Rightarrow>
             Fail (who @ '' stream['' @ show_nat stream_idx @ ''] '' @ stage @ '' expected accept, got reject='' @ got @
                   '' ('' @ stream_error_text err @ '')'')
         | Reject \<Rightarrow>
             if got = expected_code then Pass
             else Fail (who @ '' stream['' @ show_nat stream_idx @ ''] '' @ stage @ '' reject-code mismatch: expected='' @
                        expected_code @ '' got='' @ got @ '' ('' @ stream_error_text err @ '')''))"

text \<open>Sort keys: Rust compares strings by their bytes, and a missing mandate sorts as the empty string.\<close>

fun firing_rule_rank :: "firing_rule \<Rightarrow> nat" where
  "firing_rule_rank FirstMatch = 0"
| "firing_rule_rank SequenceMatch = 1"
| "firing_rule_rank CumulativeOverBaseline = 2"

definition mandate_or_empty :: "match_scope \<Rightarrow> string" where
  "mandate_or_empty ms = (case mts_mandate_id ms of Some m \<Rightarrow> m | None \<Rightarrow> [])"

definition EM_DASH :: string where "EM_DASH = [CHR 0xE2, CHR 0x80, CHR 0x94]"

definition debug_list :: "string list \<Rightarrow> string" where
  "debug_list items = ''['' @ join_strings '', '' items @ '']''"

section \<open>anomaly\_detect.rs\<close>

definition ANOMALY_DETECTED_WIRE :: string where "ANOMALY_DETECTED_WIRE = ''anomaly-detected''"

fun detect_events ::
  "in_memory_dedup detector_state \<Rightarrow> canonicalized_event list \<Rightarrow>
   (string \<times> stream_error) + in_memory_dedup detector_state" where
  "detect_events state [] = Inr state"
| "detect_events state (event # events) =
     (case advance_clock state (timestamp event) of
        (Inl e, _) \<Rightarrow> Inl (''advance_clock'', e)
      | (Inr _, state) \<Rightarrow>
          (case ingest_event state event of
             (Inl e, _) \<Rightarrow> Inl (''ingest_event'', e)
           | (Inr _, state) \<Rightarrow> detect_events state events))"

fun detect_streams ::
  "('pk, 'sig) anomaly_env \<Rightarrow> nat \<Rightarrow> audit_stream_input list \<Rightarrow> in_memory_dedup detector_state \<Rightarrow> anomaly_fire list \<Rightarrow>
   stream_refusal + anomaly_fire list" where
  "detect_streams env idx [] state observed_fires = Inr observed_fires"
| "detect_streams env idx (stream # streams) state observed_fires =
     (case normalize (stream_clock env) stream of
        Inl e \<Rightarrow> Inl (idx, ''normalize'', e)
      | Inr events \<Rightarrow>
     (case detect_events state events of
        Inl (stage, e) \<Rightarrow> Inl (idx, stage, e)
      | Inr state \<Rightarrow>
     (case evaluate_all dd_ops state of
        (Inl e, _) \<Rightarrow> Inl (idx, ''evaluate_all'', stream_error_of_dedup e)
      | (Inr fires, state) \<Rightarrow> detect_streams env (idx + 1) streams state (observed_fires @ fires))))"

definition fire_sort_key :: "anomaly_fire \<Rightarrow> string \<times> string \<times> nat" where
  "fire_sort_key f = (af_pattern_id f, mandate_or_empty (af_match_scope f), firing_rule_rank (af_firing_rule f))"

definition fires_match_outcome ::
  "('pk, 'sig) anomaly_env \<Rightarrow> 'j vector \<Rightarrow> anomaly_fire list \<Rightarrow> anomaly_fire list \<Rightarrow> validation_outcome" where
  "fires_match_outcome env vector observed expected =
     (let a = sort_key fire_sort_key observed; b = sort_key fire_sort_key expected in
      if a = b then Pass
      else
        Fail (''anomaly-detect vector '' @ v_id vector @ '' firing-set mismatch: observed='' @ show_nat (length observed) @
              '' expected='' @ show_nat (length expected) @ '' (after sort: observed_ids='' @
              debug_list (map (\<lambda>f. an_debug_str env (af_pattern_id f)) a) @ '', expected_ids='' @
              debug_list (map (\<lambda>f. an_debug_str env (af_pattern_id f)) b) @ '')''))"

definition render_fires_outcome ::
  "('pk, 'sig) anomaly_env \<Rightarrow> json vector \<Rightarrow> anomaly_fire list \<Rightarrow> validation_outcome" where
  "render_fires_outcome env vector observed =
     (let who = ''anomaly-detect vector '' @ v_id vector; expected_code = expected_code_of vector in
      case (case exp_output (v_expected vector) of Some v \<Rightarrow> an_expected_fires env v | None \<Rightarrow> Inr []) of
        Inl e \<Rightarrow> Fail (who @ '' expected.output deserialize: '' @ e)
      | Inr expected_fires \<Rightarrow>
          (case exp_outcome (v_expected vector) of
             Accept \<Rightarrow>
               if observed = [] \<and> expected_fires = [] then Pass
               else if observed \<noteq> [] then
                 Fail (who @ '' expected accept, got '' @ show_nat (length observed) @ '' fire(s)'')
               else
                 Fail (who @ '' expected accept but expected.output.fires is non-empty ('' @
                       show_nat (length expected_fires) @ '' declared) '' @ EM_DASH @ '' vector-authoring bug'')
           | Reject \<Rightarrow>
               if expected_code \<noteq> ANOMALY_DETECTED_WIRE then
                 Fail (who @ '' expected reject='' @ expected_code @
                       '' but ingest completed without stream error (observed '' @ show_nat (length observed) @ '' fire(s))'')
               else if observed = [] then
                 Fail (who @ '' expected reject=anomaly-detected but observed zero fires'')
               else fires_match_outcome env vector observed expected_fires))"

definition detect_execute :: "('pk, 'sig) anomaly_env \<Rightarrow> json vector \<Rightarrow> validation_outcome" where
  "detect_execute env vector =
     (let who = ''anomaly-detect vector '' @ v_id vector in
      case an_detect_input env (v_input vector) of
        Inl e \<Rightarrow> Fail (who @ '' input deserialize: '' @ e)
      | Inr input \<Rightarrow>
     (case open_library env who input of
        Inl failure \<Rightarrow> failure
      | Inr (Inl e) \<Rightarrow> Fail (who @ '' anomaly-library envelope verify failed: '' @ anomaly_lib_error_text e)
      | Inr (Inr verified) \<Rightarrow>
     (case parse_iso_seconds env (di_start input) of
        Inl e \<Rightarrow> Fail (who @ '' initial_time not RFC-3339 ('' @ di_start input @ ''): '' @ e)
      | Inr initial_time \<Rightarrow>
     (case detect_streams env 0 (di_streams input) (detector_new verified initial_time) [] of
        Inl refusal \<Rightarrow> stream_error_outcome who detect_wire_code vector refusal
      | Inr observed_fires \<Rightarrow> render_fires_outcome env vector observed_fires))))"

section \<open>audit.rs\<close>

definition AGGREGATION_PATTERN_DETECTED_WIRE :: string where
  "AGGREGATION_PATTERN_DETECTED_WIRE = ''aggregation-pattern-detected''"

definition from_observed :: "anomaly_detected_record \<Rightarrow> expected_record" where
  "from_observed rec =
     \<lparr>er_tenant_id = adr_tenant_id rec,
      er_pattern_id = af_pattern_id (adr_payload rec),
      er_library_version = af_library_version (adr_payload rec),
      er_severity = af_severity (adr_payload rec),
      er_firing_rule = af_firing_rule (adr_payload rec),
      er_match_scope = af_match_scope (adr_payload rec)\<rparr>"

definition apply_rotation ::
  "('pk, 'sig) anomaly_env \<Rightarrow> string \<Rightarrow> orchestrator \<Rightarrow> rotation \<Rightarrow> trust_anchor_key_def list \<Rightarrow>
   validation_outcome + orchestrator" where
  "apply_rotation env who orch rot anchor_defs =
     (case build_anchor_set (an_crypto env) anchor_defs AnomalyLibrarySigner of
        Inl e \<Rightarrow> Inl (Fail (who @ '' rotation anchor build: '' @ cose_error_text e))
      | Inr anchors \<Rightarrow>
     (case hex_decode (an_crypto env) (ro_cose_hex rot) of
        None \<Rightarrow> Inl (Fail (who @ '' rotation cose hex decode: '' @ an_hex_error env (ro_cose_hex rot)))
      | Some cose_bytes \<Rightarrow>
     (case parse_iso_seconds env (ro_start rot) of
        Inl e \<Rightarrow> Inl (Fail (who @ '' rotation new_initial_time not RFC-3339 ('' @ ro_start rot @ ''): '' @ e))
      | Inr new_initial_time \<Rightarrow>
     (case fst (verify_anomaly_library_signature_with_ledger (an_crypto env) (an_decode_payload env) ledger_observe
                  cose_bytes anchors (ro_abi rot) new_initial_time ledger_new) of
        Inl e \<Rightarrow> Inl (Fail (who @ '' rotation envelope verify failed: '' @ anomaly_lib_error_text e))
      | Inr verified \<Rightarrow> Inr (rotate_library orch verified new_initial_time)))))"

fun audit_events ::
  "orchestrator \<Rightarrow> string \<Rightarrow> canonicalized_event list \<Rightarrow> anomaly_detected_record list \<Rightarrow>
   stream_error + orchestrator \<times> anomaly_detected_record list" where
  "audit_events orch tid [] observed = Inr (orch, observed)"
| "audit_events orch tid (event # events) observed =
     (case observe_event orch tid event of
        (Inl e, _) \<Rightarrow> Inl e
      | (Inr fires, orch) \<Rightarrow> audit_events orch tid events (observed @ fires))"

text \<open>The loop over the streams; the outer \<open>Inl\<close> is the verdict of an early return.\<close>

fun audit_streams ::
  "('pk, 'sig) anomaly_env \<Rightarrow> string \<Rightarrow> json vector \<Rightarrow> audit_input \<Rightarrow> nat \<Rightarrow> (string \<times> audit_stream_input) list \<Rightarrow>
   orchestrator \<Rightarrow> anomaly_detected_record list \<Rightarrow> validation_outcome + anomaly_detected_record list" where
  "audit_streams env who vector input idx [] orch observed = Inr observed"
| "audit_streams env who vector input idx ((tid, stream) # streams) orch observed =
     (case normalize (stream_clock env) stream of
        Inl e \<Rightarrow> Inl (stream_error_outcome who audit_wire_code vector (idx, ''normalize'', e))
      | Inr events \<Rightarrow>
     (case audit_events orch tid events observed of
        Inl e \<Rightarrow> Inl (stream_error_outcome who audit_wire_code vector (idx, ''observe_event'', e))
      | Inr (orch, observed) \<Rightarrow>
     (case ai_rotate input of
        Some rot \<Rightarrow>
          if ro_after rot = idx then
            (case apply_rotation env who orch rot (ei_anchor_keys input) of
               Inl failure \<Rightarrow> Inl failure
             | Inr orch \<Rightarrow> audit_streams env who vector input (idx + 1) streams orch observed)
          else audit_streams env who vector input (idx + 1) streams orch observed
      | None \<Rightarrow> audit_streams env who vector input (idx + 1) streams orch observed)))"

definition record_sort_key :: "expected_record \<Rightarrow> string \<times> string \<times> string \<times> nat" where
  "record_sort_key r =
     (er_tenant_id r, er_pattern_id r, mandate_or_empty (er_match_scope r), firing_rule_rank (er_firing_rule r))"

definition debug_pair :: "('pk, 'sig) anomaly_env \<Rightarrow> expected_record \<Rightarrow> string" where
  "debug_pair env r = ''('' @ an_debug_str env (er_tenant_id r) @ '', '' @ an_debug_str env (er_pattern_id r) @ '')''"

definition records_match_outcome ::
  "('pk, 'sig) anomaly_env \<Rightarrow> 'j vector \<Rightarrow> expected_record list \<Rightarrow> expected_record list \<Rightarrow> validation_outcome" where
  "records_match_outcome env vector observed expected =
     (let a = sort_key record_sort_key observed; b = sort_key record_sort_key expected in
      if a = b then Pass
      else
        Fail (''audit-replay vector '' @ v_id vector @ '' record-set mismatch: observed='' @ show_nat (length observed) @
              '' expected='' @ show_nat (length expected) @ '' (after sort: observed_ids='' @
              debug_list (map (debug_pair env) a) @ '', expected_ids='' @ debug_list (map (debug_pair env) b) @ '')''))"

definition render_records_outcome ::
  "('pk, 'sig) anomaly_env \<Rightarrow> json vector \<Rightarrow> anomaly_detected_record list \<Rightarrow> validation_outcome" where
  "render_records_outcome env vector observed =
     (let who = ''audit-replay vector '' @ v_id vector; expected_code = expected_code_of vector in
      case (case exp_output (v_expected vector) of Some v \<Rightarrow> an_expected_records env v | None \<Rightarrow> Inr []) of
        Inl e \<Rightarrow> Fail (who @ '' expected.output deserialize: '' @ e)
      | Inr expected_records \<Rightarrow>
          (case exp_outcome (v_expected vector) of
             Accept \<Rightarrow>
               if observed = [] \<and> expected_records = [] then Pass
               else if observed \<noteq> [] then
                 Fail (who @ '' expected accept, got '' @ show_nat (length observed) @ '' record(s)'')
               else
                 Fail (who @ '' expected accept but expected.output.records is non-empty ('' @
                       show_nat (length expected_records) @ '' declared) '' @ EM_DASH @ '' vector-authoring bug'')
           | Reject \<Rightarrow>
               if expected_code \<noteq> AGGREGATION_PATTERN_DETECTED_WIRE then
                 Fail (who @ '' expected reject='' @ expected_code @
                       '' but ingest completed without stream error (observed '' @ show_nat (length observed) @ '' record(s))'')
               else if observed = [] then
                 Fail (who @ '' expected reject=aggregation-pattern-detected but observed zero records'')
               else records_match_outcome env vector (map from_observed observed) expected_records))"

definition audit_execute :: "('pk, 'sig) anomaly_env \<Rightarrow> json vector \<Rightarrow> validation_outcome" where
  "audit_execute env vector =
     (let who = ''audit-replay vector '' @ v_id vector in
      case an_audit_input env (v_input vector) of
        Inl e \<Rightarrow> Fail (who @ '' input deserialize: '' @ e)
      | Inr input \<Rightarrow>
     (case open_library env who input of
        Inl failure \<Rightarrow> failure
      | Inr (Inl e) \<Rightarrow> Fail (who @ '' anomaly-library envelope verify failed: '' @ anomaly_lib_error_text e)
      | Inr (Inr verified) \<Rightarrow>
     (case parse_iso_seconds env (ai_start input) of
        Inl e \<Rightarrow> Fail (who @ '' initial_time not RFC-3339 ('' @ ai_start input @ ''): '' @ e)
      | Inr initial_time \<Rightarrow>
     (case audit_streams env who vector input 0 (ai_streams input) (orchestrator_new verified initial_time) [] of
        Inl verdict \<Rightarrow> verdict
      | Inr observed \<Rightarrow> render_records_outcome env vector observed))))"

end
