(* ===== verification/Detector_Spec.thy ===== *)
theory Detector_Spec
  imports Detector_Correct
begin

text \<open>
  What the detector owes its caller, said without its buffers, its ledger and its saturating arithmetic: from the events
  that were accepted, in the order of their arrival, and the clock.  The operations are shown to meet it at every step
  of every run, and the fires of a batch are exactly those it calls for.
\<close>

section \<open>One pattern over a list of events\<close>

text \<open>The list is cut at the front, up to the first event inside the window.\<close>

definition aged :: "pattern_entry \<Rightarrow> int \<Rightarrow> canonicalized_event \<Rightarrow> bool" where
  "aged p now e \<longleftrightarrow> (case window_seconds p of Some w \<Rightarrow> timestamp e < now - int w | None \<Rightarrow> False)"

definition in_window :: "pattern_entry \<Rightarrow> int \<Rightarrow> canonicalized_event list \<Rightarrow> canonicalized_event list" where
  "in_window p now es = dropWhile (aged p now) es"

text \<open>A burst that starts at position \<open>i\<close>, after silence or at the front; bursts do not overlap.\<close>

definition burst_at :: "canonicalized_event list \<Rightarrow> nat \<Rightarrow> nat \<Rightarrow> nat \<Rightarrow> nat \<Rightarrow> bool" where
  "burst_at es silence len num i \<longleftrightarrow>
     i + num \<le> length es \<and>
     (i = 0 \<or> int silence \<le> timestamp (es ! i) - timestamp (es ! (i - 1))) \<and>
     timestamp (es ! (i + num - 1)) - timestamp (es ! i) \<le> int len"

definition bursts :: "canonicalized_event list \<Rightarrow> nat \<Rightarrow> nat \<Rightarrow> nat \<Rightarrow> nat \<Rightarrow> bool" where
  "bursts es silence len num k \<longleftrightarrow>
     (\<exists>starts. length starts = k \<and> sorted_wrt (\<lambda>i j. i + num \<le> j) starts \<and>
        (\<forall>i \<in> set starts. burst_at es silence len num i))"

text \<open>A progression of tiers, \<open>k\<close> times in a row, each step met by an event of at least its tier.\<close>

definition climbs_ladder :: "canonicalized_event list \<Rightarrow> nat list \<Rightarrow> nat \<Rightarrow> bool" where
  "climbs_ladder es steps k \<longleftrightarrow> list_emb (\<le>) (concat (replicate k steps)) (map ev_tier es)"

definition reaches_threshold :: "pattern_entry \<Rightarrow> canonicalized_event list \<Rightarrow> bool" where
  "reaches_threshold p es \<longleftrightarrow>
     (if firing_rule_of p = SequenceMatch then
        (case (threshold_of p, scope p) of
           (Sequence k, CrossTierSequence _ steps) \<Rightarrow> k = 0 \<or> steps \<noteq> [] \<and> climbs_ladder es steps k
         | (Sequence k, SilenceThenBurst silence len num) \<Rightarrow> k = 0 \<or> 0 < num \<and> bursts es silence len num k
         | _ \<Rightarrow> False)
      else
        (case threshold_of p of
           Count n \<Rightarrow> n \<le> length es
         | DistinctCount n \<Rightarrow> n \<le> card (ev_resource_ref ` set es)
         | _ \<Rightarrow> False))"

text \<open>How long a pattern stays silent after a fire.\<close>

definition fire_gap :: "pattern_entry \<Rightarrow> nat" where
  "fire_gap p = (case window_seconds p of Some w \<Rightarrow> w | None \<Rightarrow> 3600)"

definition rested :: "pattern_entry \<Rightarrow> int \<Rightarrow> int option \<Rightarrow> bool" where
  "rested p now fired_at \<longleftrightarrow> (case fired_at of None \<Rightarrow> True | Some t \<Rightarrow> int (fire_gap p) \<le> now - t)"

text \<open>The report: a field of the event is shown when the scope of the pattern pins that field.\<close>

definition pins_integration :: "scope_predicate \<Rightarrow> bool" where
  "pins_integration sc \<longleftrightarrow>
     (\<exists>ms. ms_integration_ref ms \<noteq> None \<and>
        ((\<exists>v k. sc = VerbResourceMandate v k ms) \<or> (\<exists>f. sc = IamAttachFamily f ms) \<or> (\<exists>b. sc = ProtectedBranches ms b) \<or>
         (\<exists>t. sc = CrossTierSequence ms t) \<or> (\<exists>v. sc = VerbFanout v ms)))"

definition pins_kind :: "scope_predicate \<Rightarrow> bool" where
  "pins_kind sc \<longleftrightarrow> (\<exists>v k ms. sc = VerbResourceMandate v (Some k) ms)"

definition pins_verb :: "scope_predicate \<Rightarrow> bool" where
  "pins_verb sc \<longleftrightarrow> (\<exists>v k ms. sc = VerbResourceMandate (Exact v) k ms) \<or> (\<exists>v ms. sc = VerbFanout (Exact v) ms)"

definition pins_tier :: "scope_predicate \<Rightarrow> bool" where
  "pins_tier sc \<longleftrightarrow> (\<exists>t x. sc = MandatePace t x)"

definition shown :: "bool \<Rightarrow> 'a \<Rightarrow> 'a option" where
  "shown b x = (if b then Some x else None)"

definition fire_for :: "pattern_entry \<Rightarrow> string \<Rightarrow> nat \<Rightarrow> canonicalized_event \<Rightarrow> anomaly_fire" where
  "fire_for p m version e =
     \<lparr>af_pattern_id = pattern_id p, af_library_version = version, af_severity = severity_of p,
      af_firing_rule = firing_rule_of p,
      af_match_scope =
        \<lparr>mts_mandate_id = Some m, mts_operator_id = None,
         mts_integration_ref = shown (pins_integration (scope p)) (ev_integration e),
         mts_resource_kind = shown (pins_kind (scope p)) (ev_resource_kind e),
         mts_verb = shown (pins_verb (scope p)) (ev_verb e),
         mts_tier = shown (pins_tier (scope p)) (ev_tier e)\<rparr>\<rparr>"

definition fire_due ::
  "pattern_entry \<Rightarrow> string \<Rightarrow> nat \<Rightarrow> int \<Rightarrow> int option \<Rightarrow> canonicalized_event list \<Rightarrow> anomaly_fire option" where
  "fire_due p m version now fired_at es =
     (let live = in_window p now es in
      if live \<noteq> [] \<and> reaches_threshold p live \<and> rested p now fired_at then Some (fire_for p m version (last live)) else None)"

section \<open>The values of the machine types\<close>

definition u32_pattern :: "pattern_entry \<Rightarrow> bool" where
  "u32_pattern p \<longleftrightarrow>
     (\<forall>w. window_seconds p = Some w \<longrightarrow> w \<le> u32_max) \<and>
     (\<forall>silence len num. scope p = SilenceThenBurst silence len num \<longrightarrow> silence \<le> u32_max \<and> len \<le> u32_max)"

definition machine_library :: "verified_anomaly_library \<Rightarrow> bool" where
  "machine_library lib \<longleftrightarrow> distinct (map pattern_id (vl_patterns lib)) \<and> list_all u32_pattern (vl_patterns lib)"

definition i64_events :: "canonicalized_event list \<Rightarrow> bool" where
  "i64_events es \<longleftrightarrow> list_all (\<lambda>e. in_i64 (timestamp e)) es"

definition i64_state :: "in_memory_dedup detector_state \<Rightarrow> bool" where
  "i64_state s \<longleftrightarrow> in_i64 (current_time s) \<and>
     (\<forall>key b. bm_get (buffers s) key = Some b \<longrightarrow> i64_events (pb_events b)) \<and>
     (\<forall>p m t. last_fired_at (dedup s) p m = Some t \<longrightarrow> in_i64 t)"

section \<open>The evaluators decide it\<close>

lemma live_buffer_window:
  assumes "in_i64 now" "i64_events (pb_events b)"
  shows "live_buffer p now b = b\<lparr>pb_events := in_window p now (pb_events b)\<rparr>"
proof (cases "window_seconds p")
  case (Some w)
  have "dropWhile (\<lambda>e. timestamp e < sat_sub now (int w)) (pb_events b) = in_window p now (pb_events b)"
    using assms Some unfolding in_window_def i64_events_def list_all_iff
    by (intro dropWhile_cong refl) (simp add: aged_def less_sat_sub_iff)
  with Some show ?thesis by (simp add: live_buffer_def evict_aged_events_eq Let_def)
qed (simp add: live_buffer_def in_window_def aged_def dropWhile_eq_self_iff)

lemma le_sat_sub: "n \<le> u32_max \<Longrightarrow> int n \<le> sat_sub a b \<longleftrightarrow> int n \<le> a - b"
  "n \<le> u32_max \<Longrightarrow> sat_sub a b \<le> int n \<longleftrightarrow> a - b \<le> int n"
  by (auto simp: sat_sub_def clamp_i64_def arith_defs)

lemma qualifying_burst_at:
  assumes "silence \<le> u32_max" "len \<le> u32_max"
  shows "qualifying_burst es num (int silence) (int len) i \<longleftrightarrow> burst_at es silence len num i"
  using assms
  by (auto simp: qualifying_burst_def burst_at_def silence_before_def burst_span_def le_sat_sub)

lemma burst_chain_sorted:
  "burst_chain es num s b i js \<longleftrightarrow>
     (\<forall>j \<in> set js. i \<le> j \<and> qualifying_burst es num s b j) \<and> sorted_wrt (\<lambda>i j. i + num \<le> j) js"
proof (induction js arbitrary: i)
  case (Cons j js)
  show ?case by (auto simp: Cons)
qed simp

lemma bursts_count:
  assumes "0 < num" "length (pb_events b) \<le> u32_max" "silence \<le> u32_max" "len \<le> u32_max"
  shows "k \<le> count_silence_then_burst b silence len num \<longleftrightarrow> bursts (pb_events b) silence len num k"
  unfolding count_silence_then_burst_chain [OF assms(1,2)] burst_chain_sorted bursts_def
    qualifying_burst_at [OF assms(3,4)] by auto

lemma distinct_count: "count_distinct_resource_refs b = u32_of_usize (card (ev_resource_ref ` set (pb_events b)))"
  by (metis count_distinct_resource_refs_def length_remdups_card_conv list.set_map)

lemma threshold_reached:
  assumes "u32_pattern p" "length (pb_events b) \<le> u32_max"
  shows "threshold_met p b \<longleftrightarrow> reaches_threshold p (pb_events b)"
proof -
  have "card (ev_resource_ref ` set (pb_events b)) \<le> u32_max"
    using assms(2) by (meson card_image_le card_length le_trans List.finite_set)
  moreover have "k \<le> count_cross_tier_sequences b steps \<longleftrightarrow> k = 0 \<or> steps \<noteq> [] \<and> climbs_ladder (pb_events b) steps k" for k steps
    using count_cross_tier_embeds [OF _ assms(2), of steps k]
    by (cases "steps = []") (auto simp: count_cross_tier_sequences_def climbs_ladder_def)
  moreover have "k \<le> count_silence_then_burst b silence len num \<longleftrightarrow> k = 0 \<or> 0 < num \<and> bursts (pb_events b) silence len num k"
    if "scope p = SilenceThenBurst silence len num" for k silence len num
    using bursts_count [OF _ assms(2), of num silence len k] assms(1) that
    by (cases "num = 0") (auto simp: u32_pattern_def count_silence_then_burst_def)
  ultimately show ?thesis
    using assms(2) by (auto simp: threshold_met_def reaches_threshold_def distinct_count split: threshold.split scope_predicate.split)
qed

lemma fire_for_eq: "build_anomaly_fire p key version e = fire_for p (key_mandate_id key) version e"
  by (cases "scope p")
    (auto simp: build_anomaly_fire_def build_match_scope_def fire_for_def match_scope_default_def Let_def shown_def
      pins_integration_def pins_kind_def pins_verb_def pins_tier_def bind_integration_def bind_verb_def
      split: verb_predicate.split)

lemma rested_iff:
  assumes "u32_pattern p"
  shows "\<not> recently_fired fired p key now \<longleftrightarrow> rested p now (fired (pattern_id p) (key_mandate_id key))"
proof -
  have "fire_gap p \<le> u32_max"
    using assms by (auto simp: fire_gap_def u32_pattern_def u32_max_def split: option.split)
  moreover have "dedup_window p = fire_gap p"
    by (simp add: dedup_window_def fire_gap_def FALLBACK_FIRE_ONCE_WINDOW_SECONDS_def split: option.split)
  ultimately show ?thesis by (auto simp: recently_fired_def rested_def not_less le_sat_sub split: option.split)
qed

section \<open>One evaluation\<close>

definition pattern_named :: "verified_anomaly_library \<Rightarrow> string \<Rightarrow> pattern_entry option" where
  "pattern_named lib pid = find (\<lambda>p. pattern_id p = pid) (vl_patterns lib)"

definition owed ::
  "verified_anomaly_library \<Rightarrow> int \<Rightarrow> (string \<Rightarrow> string \<Rightarrow> int option) \<Rightarrow> buffer_map \<Rightarrow> scope_bucket_key \<Rightarrow>
   anomaly_fire option" where
  "owed lib now fired bufs key =
     (case (pattern_named lib (key_pattern_id key), bm_get bufs key) of
        (Some p, Some b) \<Rightarrow>
          fire_due p (key_mandate_id key) (vl_library_version lib) now (fired (pattern_id p) (key_mandate_id key)) (pb_events b)
      | _ \<Rightarrow> None)"

definition trimmed :: "verified_anomaly_library \<Rightarrow> int \<Rightarrow> buffer_map \<Rightarrow> scope_bucket_key \<Rightarrow> pattern_buffer option" where
  "trimmed lib now bufs key =
     (case (pattern_named lib (key_pattern_id key), bm_get bufs key) of
        (Some p, Some b) \<Rightarrow> Some (b\<lparr>pb_events := in_window p now (pb_events b)\<rparr>)
      | (_, b) \<Rightarrow> b)"

definition reported :: "anomaly_fire list \<Rightarrow> string \<Rightarrow> string \<Rightarrow> bool" where
  "reported fs pid m \<longleftrightarrow> (\<exists>f \<in> set fs. af_pattern_id f = pid \<and> mts_mandate_id (af_match_scope f) = Some m)"

lemma find_distinct: "distinct (map f xs) \<Longrightarrow> find (\<lambda>x. f x = k) xs = map_of (map (\<lambda>x. (f x, x)) xs) k"
  by (induction xs) auto

lemma pattern_index_named: "machine_library lib \<Longrightarrow> bm_get (pattern_index lib) pid = pattern_named lib pid"
  by (simp add: pattern_index_def pattern_named_def machine_library_def bm_get_collect_distinct find_distinct comp_def)

lemma pattern_named_Some:
  "pattern_named lib pid = Some p \<Longrightarrow> p \<in> set (vl_patterns lib) \<and> pattern_id p = pid"
  by (auto simp: pattern_named_def find_Some_iff)

lemma machine_pattern: "machine_library lib \<Longrightarrow> p \<in> set (vl_patterns lib) \<Longrightarrow> u32_pattern p"
  by (simp add: machine_library_def list_all_iff)

lemma pattern_named_unique:
  "machine_library lib \<Longrightarrow> p \<in> set (vl_patterns lib) \<Longrightarrow> pattern_named lib (pattern_id p) = Some p"
  by (auto simp: pattern_named_def machine_library_def find_distinct comp_def distinct_map map_of_eq_Some_iff)

lemma window_subset: "set (in_window p now es) \<subseteq> set es" "length (in_window p now es) \<le> length es"
  by (simp_all add: in_window_def set_dropWhile_subset length_dropWhile_le)

lemma due_fire_owed:
  assumes lib: "machine_library lib" and now: "in_i64 now" and bufs: "buffers_ok lib bufs"
    and i64: "\<And>b. bm_get bufs key = Some b \<Longrightarrow> i64_events (pb_events b)"
  shows "due_fire fired lib now bufs key = owed lib now fired bufs key"
proof (cases "pattern_named lib (key_pattern_id key)")
  case None
  then show ?thesis by (simp add: due_fire_def owed_def pattern_index_named [OF lib])
next
  case named: (Some p)
  note p = pattern_named_Some [OF named]
  show ?thesis
  proof (cases "bm_get bufs key")
    case None
    with named show ?thesis by (simp add: due_fire_def owed_def pattern_index_named [OF lib])
  next
    case (Some b)
    let ?live = "in_window p now (pb_events b)"
    have live: "live_buffer p now b = b\<lparr>pb_events := ?live\<rparr>"
      using now i64 [OF Some] by (rule live_buffer_window)
    have "length ?live \<le> u32_max"
      using buffers_okD [OF bufs Some] window_subset(2) [of p now "pb_events b"]
      by (simp add: bucket_ok_def MAX_EVENTS_PER_BUFFER_def u32_max_def)
    then have "threshold_met p (b\<lparr>pb_events := ?live\<rparr>) \<longleftrightarrow> reaches_threshold p ?live"
      using machine_pattern [OF lib] p by (subst threshold_reached) simp_all
    then show ?thesis
      using named Some p rested_iff [OF machine_pattern [OF lib], of p fired key now]
      by (auto simp: due_fire_def owed_def fire_due_def pattern_index_named [OF lib] live fire_for_eq Let_def)
  qed
qed

lemma bucket_after_trimmed:
  assumes "machine_library lib" "in_i64 now" "\<And>b. bm_get bufs key = Some b \<Longrightarrow> i64_events (pb_events b)"
  shows "bucket_after lib now bufs key = trimmed lib now bufs key"
  using assms live_buffer_window [OF assms(2,3)]
  by (simp add: bucket_after_def trimmed_def pattern_index_named split: option.split)

lemma recorded_reported: "(p, Some m) \<in> recorded_pairs fs \<longleftrightarrow> reported fs p m"
  by (auto simp: recorded_pairs_def reported_def fire_pair_def image_iff)

lemma evaluate_all_owed:
  assumes lib: "machine_library lib" and inv: "detector_inv lib s" "dd_inv (dedup s)" and i64: "i64_state s"
    and eval: "evaluate_all dd_ops s = (Inr fs, s')"
  shows "fs = List.map_filter (owed lib (current_time s) (last_fired_at (dedup s)) (buffers s)) (bm_keys (buffers s))"
    and "bm_get (buffers s') key = trimmed lib (current_time s) (buffers s) key"
    and "last_fired_at (dedup s') p m = (if reported fs p m then Some (current_time s) else last_fired_at (dedup s) p m)"
    and "current_time s' = current_time s \<and> per_mandate_counters s' = per_mandate_counters s \<and> pinned_library s' = lib"
proof -
  have bufs: "buffers_ok lib (buffers s)" and now: "in_i64 (current_time s)"
    and events: "\<And>key b. bm_get (buffers s) key = Some b \<Longrightarrow> i64_events (pb_events b)"
    using inv i64 by (auto simp: detector_inv_def i64_state_def)
  note spec = evaluate_all_refines [OF inv eval, unfolded sum.case]
  have due: "due_fire fired lib (current_time s) (buffers s) = owed lib (current_time s) fired (buffers s)" for fired
    by (rule ext) (rule due_fire_owed [OF lib now bufs events])
  show "fs = List.map_filter (owed lib (current_time s) (last_fired_at (dedup s)) (buffers s)) (bm_keys (buffers s))"
    using spec unfolding due by (rule conjunct1)
  show "bm_get (buffers s') key = trimmed lib (current_time s) (buffers s) key"
    using spec bucket_after_trimmed [OF lib now, of "buffers s" key] events by simp
  show "last_fired_at (dedup s') p m = (if reported fs p m then Some (current_time s) else last_fired_at (dedup s) p m)"
    using spec recorded_reported by presburger
  show "current_time s' = current_time s \<and> per_mandate_counters s' = per_mandate_counters s \<and> pinned_library s' = lib"
    using eval inv(1) evaluate_keys_frame [of dd_ops _ _ _ s "Inr fs" s' lib]
    by (simp add: evaluate_all_def detector_inv_def)
qed

text \<open>C31: one \<open>evaluate_all\<close> over the in-memory ledger, in a state of the invariant whose times fit their types,
  returns for the buckets in ascending order exactly the fires that are owed.  A bucket owes one when its events, cut
  at the front up to the first that is not older than the window of the pattern (an older event behind that one stays
  and counts), are not empty and reach the threshold - so many events, so many different resources, so many climbs of
  the tier ladder in a row, so many separate bursts after silence - and the last fire of the pattern for the mandate is
  at least the window (an hour without one) ago.  It cuts every bucket in this way, records exactly the fires it
  returns, at the current time, and changes nothing else.  It can only fail on a ledger at capacity.\<close>

theorem evaluate_all_spec:
  assumes "machine_library lib" and "detector_inv lib s" and "dd_inv (dedup s)" and "i64_state s"
    and "evaluate_all dd_ops s = (r, s')"
  shows "case r of
      Inr fs \<Rightarrow>
        fs = List.map_filter (owed lib (current_time s) (last_fired_at (dedup s)) (buffers s)) (bm_keys (buffers s)) \<and>
        (\<forall>key. bm_get (buffers s') key = trimmed lib (current_time s) (buffers s) key) \<and>
        (\<forall>p m. last_fired_at (dedup s') p m =
           (if reported fs p m then Some (current_time s) else last_fired_at (dedup s) p m)) \<and>
        current_time s' = current_time s \<and> per_mandate_counters s' = per_mandate_counters s \<and> pinned_library s' = lib
    | Inl e \<Rightarrow> e = CapacityExhausted (dd_cap (dedup s))"
proof (cases r)
  case (Inl e)
  with assms(5) evaluate_keys_dd_error show ?thesis by (auto simp: evaluate_all_def)
next
  case (Inr fs)
  with assms(5) have "evaluate_all dd_ops s = (Inr fs, s')" by simp
  from evaluate_all_owed [OF assms(1-4) this] Inr show ?thesis by simp
qed

lemma sample_machine: "machine_library sample_library"
  by (simp add: machine_library_def u32_pattern_def sample_library_def sample_pattern_def u32_max_def)

lemma sample_i64: "i64_state (sample_fed dedup_new)"
  by (auto simp: i64_state_def i64_events_def sample_defs in_i64_def arith_defs last_fired_at_def dedup_new_def
      dedup_with_cap_def split: if_splits)

lemma evaluate_all_spec_witness:
  "[sample_fire ''m''] =
     List.map_filter (owed sample_library 100 (last_fired_at dedup_new) (buffers (sample_fed dedup_new))) [sample_key ''m'']"
  using evaluate_all_spec [OF sample_machine sample_fed_inv _ sample_i64 sample_evaluate]
  by (simp add: sample_fields sample_keys)

section \<open>The loop over any ledger\<close>

lemma evaluate_keys_trims:
  "evaluate_keys ops (pattern_index lib) keys fires s = (r, s') \<Longrightarrow> distinct keys \<Longrightarrow>
     (key \<notin> set keys \<longrightarrow> bm_get (buffers s') key = bm_get (buffers s) key) \<and>
     bm_get (buffers s') key \<in> {bm_get (buffers s) key, bucket_after lib (current_time s) (buffers s) key}"
proof (induction keys arbitrary: fires s)
  case (Cons k keys)
  have k: "k \<notin> set keys" "distinct keys" using Cons.prems(2) by simp_all
  have evicted: ?case
    if "bm_get (pattern_index lib) (key_pattern_id k) = Some p"
      and "evaluate_keys ops (pattern_index lib) keys fires1 s1 = (r, s')"
      and "buffers s1 = evict_bucket p k (current_time s) (buffers s)" "current_time s1 = current_time s" for p fires1 s1
    using Cons.IH [OF that(2) k(2)] k(1) that(1,3,4)
    by (cases "key = k") (auto simp: bucket_after_def bm_get_evict_bucket split: option.splits)
  from Cons.prems(1) show ?case
  proof (cases rule: evaluate_keys_ConsE)
    case orphan
    then show ?thesis using Cons.IH [OF orphan(2) k(2)] by auto
  next
    case (gone p)
    then show ?thesis by (intro evicted [OF gone(1,3)]) simp_all
  next
    case (quiet p b)
    then show ?thesis by (intro evicted [OF quiet(1,4)]) simp_all
  next
    case (fired p b f d)
    then show ?thesis by (intro evicted [OF fired(1,5)]) simp_all
  qed (auto simp: bucket_after_def bm_get_evict_bucket)
qed simp

definition grounded ::
  "verified_anomaly_library \<Rightarrow> int \<Rightarrow> buffer_map \<Rightarrow> scope_bucket_key list \<Rightarrow> anomaly_fire \<Rightarrow> bool" where
  "grounded lib now bufs keys f \<longleftrightarrow>
     (\<exists>key \<in> set keys. \<exists>p b. bm_get (pattern_index lib) (key_pattern_id key) = Some p \<and> bm_get bufs key = Some b \<and>
        threshold_met p (live_buffer p now b) \<and> pb_events (live_buffer p now b) \<noteq> [] \<and>
        f = build_anomaly_fire p key (vl_library_version lib) (last (pb_events (live_buffer p now b))))"

lemma grounded_later:
  assumes "grounded lib now (evict_bucket p k now bufs) keys f" "k \<notin> set keys"
  shows "grounded lib now bufs (k # keys) f"
proof -
  have "bm_get (evict_bucket p k now bufs) key = bm_get bufs key" if "key \<in> set keys" for key
    using that assms(2) by (auto simp: bm_get_evict_bucket)
  with assms(1) show ?thesis unfolding grounded_def by fastforce
qed

lemma evaluate_keys_grounded:
  "evaluate_keys ops (pattern_index lib) keys fires s = (Inr fs, s') \<Longrightarrow> distinct keys \<Longrightarrow> pinned_library s = lib \<Longrightarrow>
     f \<in> set fs \<Longrightarrow> f \<in> set fires \<or> grounded lib (current_time s) (buffers s) keys f"
proof (induction keys arbitrary: fires s)
  case (Cons k keys)
  have k: "k \<notin> set keys" "distinct keys" using Cons.prems(2) by simp_all
  from Cons.prems(1) show ?case
  proof (cases rule: evaluate_keys_ConsE)
    case orphan
    from Cons.IH [OF orphan(2) k(2) Cons.prems(3,4)] show ?thesis by (auto simp: grounded_def)
  next
    case (gone p)
    from Cons.IH [OF gone(3) k(2)] Cons.prems(3,4) grounded_later [OF _ k(1)] show ?thesis by auto
  next
    case (quiet p b)
    from Cons.IH [OF quiet(4) k(2)] Cons.prems(3,4) grounded_later [OF _ k(1)] show ?thesis by auto
  next
    case (fired p b f' d)
    from Cons.IH [OF fired(5) k(2)] Cons.prems(3,4)
    have "f \<in> set fires \<or> f = f' \<or> grounded lib (current_time s) (evict_bucket p k (current_time s) (buffers s)) keys f" by auto
    moreover have "grounded lib (current_time s) (buffers s) (k # keys) f'"
      using fired(1-3) Cons.prems(3) by (auto simp: grounded_def evaluate_pattern_iff live_buffer_idem_get)
    ultimately show ?thesis using grounded_later [OF _ k(1)] by blast
  qed auto
qed simp

section \<open>What a detector has seen\<close>

definition key_of :: "string \<Rightarrow> string \<Rightarrow> scope_bucket_key" where
  "key_of pid m = ScopeBucketKey pid m None None None"

lemma key_of_simps [simp]: "key_pattern_id (key_of pid m) = pid" "key_mandate_id (key_of pid m) = m"
  by (simp_all add: key_of_def)

definition history :: "'d detector_state \<Rightarrow> string \<Rightarrow> string \<Rightarrow> canonicalized_event list" where
  "history s m pid = (case bm_get (buffers s) (key_of pid m) of Some b \<Rightarrow> pb_events b | None \<Rightarrow> [])"

text \<open>The accepted events that concern a pattern and a mandate, the newest thousand of them, and those in the window.\<close>

definition concerning :: "pattern_entry \<Rightarrow> string \<Rightarrow> canonicalized_event list \<Rightarrow> canonicalized_event list" where
  "concerning p m es = filter (\<lambda>e. ev_mandate_id e = m \<and> scope_matches (scope p) e) es"

definition newest :: "nat \<Rightarrow> 'a list \<Rightarrow> 'a list" where
  "newest n xs = drop (length xs - n) xs"

definition live_of :: "pattern_entry \<Rightarrow> string \<Rightarrow> int \<Rightarrow> canonicalized_event list \<Rightarrow> canonicalized_event list" where
  "live_of p m now es = in_window p now (newest 1000 (concerning p m es))"

text \<open>A bucket holds the newest thousand, less some at the front that are aged already.\<close>

definition holds_newest :: "pattern_entry \<Rightarrow> int \<Rightarrow> canonicalized_event list \<Rightarrow> canonicalized_event list \<Rightarrow> bool" where
  "holds_newest p now es held \<longleftrightarrow> (\<exists>old. newest 1000 es = old @ held \<and> list_all (aged p now) old)"

definition sees :: "verified_anomaly_library \<Rightarrow> int \<Rightarrow> canonicalized_event list \<Rightarrow> 'd detector_state \<Rightarrow> bool" where
  "sees lib now es s \<longleftrightarrow>
     detector_inv lib s \<and> current_time s = now \<and> in_i64 now \<and> i64_events es \<and>
     (\<forall>p \<in> set (vl_patterns lib). \<forall>m. holds_newest p now (concerning p m es) (history s m (pattern_id p))) \<and>
     (\<forall>key. bm_get (buffers s) key \<noteq> None \<longrightarrow>
        key_pattern_id key \<in> pattern_id ` set (vl_patterns lib) \<and> key_mandate_id key \<in> ev_mandate_id ` set es)"

lemma aged_mono: "aged p now e \<Longrightarrow> now \<le> now' \<Longrightarrow> aged p now' e"
  by (auto simp: aged_def split: option.splits)

lemma holds_newest_window: "holds_newest p now es held \<Longrightarrow> in_window p now held = in_window p now (newest 1000 es)"
  by (auto simp: holds_newest_def in_window_def list_all_iff)

lemma holds_newest_later: "holds_newest p now es held \<Longrightarrow> now \<le> now' \<Longrightarrow> holds_newest p now' es held"
  by (auto simp: holds_newest_def list_all_iff dest: aged_mono)

lemma holds_newest_cut: "holds_newest p now es held \<Longrightarrow> holds_newest p now es (in_window p now held)"
proof -
  assume "holds_newest p now es held"
  then obtain old where old: "newest 1000 es = old @ held" "list_all (aged p now) old" by (auto simp: holds_newest_def)
  have "held = takeWhile (aged p now) held @ in_window p now held" by (simp add: in_window_def)
  moreover have "list_all (aged p now) (takeWhile (aged p now) held)" by (auto simp: list_all_iff dest: set_takeWhileD)
  ultimately show ?thesis
    using old unfolding holds_newest_def
    by (intro exI [of _ "old @ takeWhile (aged p now) held"]) (metis append_assoc list_all_append)
qed

lemma newest_append: "newest n (xs @ ys) = drop (length xs + length ys - n) xs @ newest n ys"
  by (simp add: newest_def)

lemma newest_snoc: "newest n (es @ [e]) = newest n (newest n es @ [e])"
proof -
  let ?k = "length es - n"
  have "newest n (es @ [e]) = newest n (take ?k es @ drop ?k es @ [e])"
    unfolding append_assoc [symmetric] append_take_drop_id by (rule refl)
  also have "\<dots> = newest n (drop ?k es @ [e])" unfolding newest_append [of n "take ?k es"] by simp
  finally show ?thesis by (simp add: newest_def)
qed

lemma length_newest: "length (newest n es) = min n (length es)"
  by (simp add: newest_def)

lemma set_newest: "set (newest n es) \<subseteq> set es"
  by (simp add: newest_def set_drop_subset)

lemma holds_newest_arrival:
  assumes "holds_newest p now es held"
  shows "holds_newest p now (es @ [e]) (ring_trim (held @ [e]))"
proof -
  obtain old where old: "newest 1000 es = old @ held" "list_all (aged p now) old"
    using assms by (auto simp: holds_newest_def)
  let ?old = "drop (length old + length (held @ [e]) - 1000) old"
  have "newest 1000 (es @ [e]) = ?old @ newest 1000 (held @ [e])"
    unfolding newest_snoc [of _ es] old(1) append_assoc by (rule newest_append)
  moreover have "list_all (aged p now) ?old" using old(2) by (auto simp: list_all_iff dest: in_set_dropD)
  ultimately show ?thesis
    unfolding holds_newest_def by (auto simp: newest_def ring_trim_eq MAX_EVENTS_PER_BUFFER_def)
qed

lemma concerning_append: "concerning p m (xs @ ys) = concerning p m xs @ concerning p m ys"
  by (simp add: concerning_def)

lemma i64_events_simps [simp]:
  "i64_events [] \<longleftrightarrow> True" "i64_events (e # es) \<longleftrightarrow> in_i64 (timestamp e) \<and> i64_events es"
  "i64_events (es @ es') \<longleftrightarrow> i64_events es \<and> i64_events es'"
  by (simp_all add: i64_events_def)

section \<open>The operations keep it\<close>

lemma sees_start: "in_i64 t0 \<Longrightarrow> sees lib t0 [] (with_ledger lib t0 d0)"
  by (simp add: sees_def with_ledger_inv, simp add: with_ledger_def holds_newest_def concerning_def newest_def history_def)

lemma sees_advance:
  assumes "sees lib now es s" "in_i64 t" "advance_clock s t = (Inr u, s')"
  shows "sees lib t es s'"
proof -
  have s': "s' = s\<lparr>current_time := t\<rparr>" "now \<le> t"
    using assms by (auto simp: advance_clock_def sees_def split: if_splits)
  with assms(1,2) holds_newest_later [OF _ s'(2)] show ?thesis
    by (simp add: sees_def detector_inv_def history_def)
qed

lemma history_routed:
  assumes lib: "machine_library lib" and p: "p \<in> set (vl_patterns lib)"
    and s': "buffers s' = route_event ev (vl_patterns lib) (buffers s)"
  shows "history s' m (pattern_id p) =
    (if ev_mandate_id ev = m \<and> scope_matches (scope p) ev then ring_trim (history s m (pattern_id p) @ [ev])
     else history s m (pattern_id p))"
proof -
  have d: "distinct (map pattern_id (vl_patterns lib))" using lib by (simp add: machine_library_def)
  have "routed_to ev (vl_patterns lib) (key_of (pattern_id p) m) \<longleftrightarrow> ev_mandate_id ev = m \<and> scope_matches (scope p) ev"
    using p d by (auto simp: routed_to_def key_of_def distinct_map dest: inj_onD)
  then show ?thesis
    by (auto simp: history_def s' bm_get_route_event [OF d] extended_bucket_def pattern_buffer_new_def Let_def
        split: option.split)
qed

lemma sees_ingest:
  assumes lib: "machine_library lib" and sees: "sees lib now es s" and i64: "in_i64 (timestamp ev)"
    and ingest: "ingest_event s ev = (Inr u, s')"
  shows "sees lib now (es @ [ev]) s'"
proof -
  have d: "distinct (map pattern_id (vl_patterns lib))" using lib by (simp add: machine_library_def)
  have lib': "pinned_library s = lib" using sees by (simp add: sees_def detector_inv_def)
  have s': "buffers s' = route_event ev (vl_patterns lib) (buffers s)" "current_time s' = current_time s"
    using ingest lib' by (auto simp: ingest_event_Inr)
  have held: "holds_newest p now (concerning p m (es @ [ev])) (history s' m (pattern_id p))"
    if "p \<in> set (vl_patterns lib)" for p m
  proof -
    have "holds_newest p now (concerning p m es) (history s m (pattern_id p))"
      using sees that by (simp add: sees_def)
    then show ?thesis
      using holds_newest_arrival [of p now "concerning p m es" "history s m (pattern_id p)" ev]
      unfolding history_routed [OF lib that s'(1)] concerning_append by (simp add: concerning_def)
  qed
  have keys: "key_pattern_id key \<in> pattern_id ` set (vl_patterns lib) \<and>
      key_mandate_id key \<in> ev_mandate_id ` set (es @ [ev])" if "bm_get (buffers s') key \<noteq> None" for key
  proof (cases "routed_to ev (vl_patterns lib) key")
    case True
    then show ?thesis unfolding routed_to_def
      by (metis image_eqI in_set_conv_decomp scope_bucket_key.sel(2))
  next
    case False
    with that have "bm_get (buffers s) key \<noteq> None" by (simp add: s' bm_get_route_event [OF d])
    with sees show ?thesis by (auto simp: sees_def)
  qed
  have "detector_inv lib s'" using sees ingest by (auto simp: sees_def intro: ingest_event_inv)
  with sees i64 s'(2) held keys show ?thesis by (simp add: sees_def)
qed

lemma sees_events:
  assumes "sees lib now es s" "bm_get (buffers s) key = Some b"
  shows "i64_events (pb_events b)"
proof -
  have inv: "bucket_ok lib key b" using assms by (auto simp: sees_def detector_inv_def dest: buffers_okD)
  obtain p where p: "p \<in> set (vl_patterns lib)" "pattern_id p = key_pattern_id key" using assms by (auto simp: sees_def)
  have "key = key_of (pattern_id p) (key_mandate_id key)" using inv p(2) by (simp add: bucket_ok_def key_of_def)
  then have "history s (key_mandate_id key) (pattern_id p) = pb_events b" using assms(2) by (simp add: history_def)
  moreover have "holds_newest p now (concerning p (key_mandate_id key) es) (history s (key_mandate_id key) (pattern_id p))"
    using assms(1) p(1) by (simp add: sees_def)
  ultimately have "set (pb_events b) \<subseteq> set (newest 1000 (concerning p (key_mandate_id key) es))"
    by (auto simp: holds_newest_def)
  then have "set (pb_events b) \<subseteq> set es" using set_newest by (fastforce simp: concerning_def)
  with assms(1) show ?thesis by (auto simp: sees_def i64_events_def list_all_iff)
qed

lemma sees_evaluate:
  assumes lib: "machine_library lib" and sees: "sees lib now es s" and eval: "evaluate_all ops s = (r, s')"
  shows "sees lib now es s'"
proof -
  have s: "detector_inv lib s" "in_i64 now" "current_time s = now" using sees by (simp_all add: sees_def)
  have inv: "detector_inv lib s'" using evaluate_all_inv [OF s(1) eval] .
  have time: "current_time s' = now" using evaluate_all_time [OF eval] s(3) by simp
  have bufs: "bm_get (buffers s') key \<in> {bm_get (buffers s) key, trimmed lib now (buffers s) key}" for key
  proof -
    have "pinned_library s = lib" "distinct (bm_keys (buffers s))"
      using s(1) by (auto simp: detector_inv_def buffers_ok_def bm.distinct_keys)
    then show ?thesis
      using evaluate_keys_trims [of ops lib "bm_keys (buffers s)" "[]" s r s' key] eval s(3)
        bucket_after_trimmed [OF lib s(2) sees_events [OF sees]] by (auto simp: evaluate_all_def)
  qed
  have held: "holds_newest p now (concerning p m es) (history s' m (pattern_id p))"
    if p: "p \<in> set (vl_patterns lib)" for p m
  proof -
    have "holds_newest p now (concerning p m es) (history s m (pattern_id p))" using sees p by (simp add: sees_def)
    moreover have "history s' m (pattern_id p) \<in>
        {history s m (pattern_id p), in_window p now (history s m (pattern_id p))}"
      using bufs [of "key_of (pattern_id p) m"] pattern_named_unique [OF lib p]
      by (auto simp: history_def trimmed_def in_window_def split: option.splits)
    ultimately show ?thesis using holds_newest_cut by auto
  qed
  have keys: "bm_get (buffers s') key \<noteq> None \<Longrightarrow> bm_get (buffers s) key \<noteq> None" for key
    using bufs [of key] by (cases "bm_get (buffers s) key") (auto simp: trimmed_def split: option.splits)
  from sees inv time held keys show ?thesis unfolding sees_def by blast
qed

section \<open>Whole runs, as the caller sees them\<close>

text \<open>What has happened so far: the calls that were accepted, with their answers.\<close>

datatype observation = Advanced int | Arrived canonicalized_event | Evaluated "anomaly_fire list"

inductive observed_run ::
  "'d dedup_ops \<Rightarrow> verified_anomaly_library \<Rightarrow> 'd \<Rightarrow> int \<Rightarrow> observation list \<Rightarrow> 'd detector_state \<Rightarrow> bool"
  for ops lib d0 t0
where
  fresh: "in_i64 t0 \<Longrightarrow> observed_run ops lib d0 t0 [] (with_ledger lib t0 d0)"
| advance: "observed_run ops lib d0 t0 h s \<Longrightarrow> in_i64 t \<Longrightarrow> advance_clock s t = (Inr (), s') \<Longrightarrow>
    observed_run ops lib d0 t0 (h @ [Advanced t]) s'"
| arrive: "observed_run ops lib d0 t0 h s \<Longrightarrow> in_i64 (timestamp ev) \<Longrightarrow> ingest_event s ev = (Inr (), s') \<Longrightarrow>
    observed_run ops lib d0 t0 (h @ [Arrived ev]) s'"
| evaluate: "observed_run ops lib d0 t0 h s \<Longrightarrow> evaluate_all ops s = (Inr fs, s') \<Longrightarrow>
    observed_run ops lib d0 t0 (h @ [Evaluated fs]) s'"
| advance_refused: "observed_run ops lib d0 t0 h s \<Longrightarrow> advance_clock s t = (Inl e, s') \<Longrightarrow> observed_run ops lib d0 t0 h s'"
| event_refused: "observed_run ops lib d0 t0 h s \<Longrightarrow> ingest_event s ev = (Inl e', s') \<Longrightarrow> observed_run ops lib d0 t0 h s'"
| evaluation_failed: "observed_run ops lib d0 t0 h s \<Longrightarrow> evaluate_all ops s = (Inl e'', s') \<Longrightarrow> observed_run ops lib d0 t0 h s'"

fun arrivals :: "observation list \<Rightarrow> canonicalized_event list" where
  "arrivals [] = []"
| "arrivals (Arrived ev # h) = ev # arrivals h"
| "arrivals (o' # h) = arrivals h"

fun clock_of :: "int \<Rightarrow> observation list \<Rightarrow> int" where
  "clock_of t [] = t"
| "clock_of t (Advanced t' # h) = clock_of t' h"
| "clock_of t (o' # h) = clock_of t h"

lemma arrivals_append [simp]: "arrivals (h @ h') = arrivals h @ arrivals h'"
  by (induction h rule: arrivals.induct) simp_all

lemma clock_of_append [simp]: "clock_of t (h @ h') = clock_of (clock_of t h) h'"
  by (induction t h rule: clock_of.induct) simp_all

lemma observed_sees:
  assumes "machine_library lib" "observed_run ops lib d0 t0 h s"
  shows "sees lib (clock_of t0 h) (arrivals h) s"
  using assms(2)
proof (induction rule: observed_run.induct)
  case fresh
  then show ?case by (simp add: sees_start)
next
  case (advance h s t s')
  then show ?case using sees_advance [OF advance.IH] by simp
next
  case (arrive h s ev s')
  then show ?case using sees_ingest [OF assms(1) arrive.IH] by simp
next
  case (evaluate h s fs s')
  then show ?case using sees_evaluate [OF assms(1) evaluate.IH] by simp
next
  case (advance_refused h s t e s')
  then show ?case by (auto simp: advance_clock_def split: if_splits)
next
  case (event_refused h s ev e' s')
  then show ?case by (auto dest: ingest_event_Inl)
next
  case (evaluation_failed h s e'' s')
  then show ?case using sees_evaluate [OF assms(1) evaluation_failed.IH] by simp
qed

definition justified ::
  "verified_anomaly_library \<Rightarrow> int \<Rightarrow> canonicalized_event list \<Rightarrow> anomaly_fire \<Rightarrow> bool" where
  "justified lib now es f \<longleftrightarrow>
     (\<exists>p \<in> set (vl_patterns lib). \<exists>m. live_of p m now es \<noteq> [] \<and> reaches_threshold p (live_of p m now es) \<and>
        f = fire_for p m (vl_library_version lib) (last (live_of p m now es)))"

lemma live_of_length: "length (live_of p m now es) \<le> 1000"
  using window_subset(2) [of p now "newest 1000 (concerning p m es)"] by (simp add: live_of_def length_newest)

lemma sees_live:
  assumes lib: "machine_library lib" and sees: "sees lib now es s" and named: "pattern_named lib (key_pattern_id key) = Some p"
    and b: "bm_get (buffers s) key = Some b"
  shows "in_window p now (pb_events b) = live_of p (key_mandate_id key) now es"
proof -
  note p = pattern_named_Some [OF named]
  have "key = key_of (pattern_id p) (key_mandate_id key)"
    using sees b p by (auto simp: sees_def detector_inv_def bucket_ok_def key_of_def dest!: buffers_okD)
  then have "history s (key_mandate_id key) (pattern_id p) = pb_events b" using b by (simp add: history_def)
  then show ?thesis using sees p holds_newest_window unfolding live_of_def by (metis sees_def)
qed

lemma sees_fires:
  assumes lib: "machine_library lib" and sees: "sees lib now es s" and eval: "evaluate_all ops s = (Inr fs, s')"
    and f: "f \<in> set fs"
  shows "justified lib now es f"
proof -
  have s: "detector_inv lib s" "in_i64 now" "current_time s = now" using sees by (simp_all add: sees_def)
  have "pinned_library s = lib" "distinct (bm_keys (buffers s))"
    using s(1) by (auto simp: detector_inv_def buffers_ok_def bm.distinct_keys)
  with evaluate_keys_grounded [of ops lib "bm_keys (buffers s)" "[]" s fs s' f] eval f s(3)
  have "grounded lib now (buffers s) (bm_keys (buffers s)) f" by (simp add: evaluate_all_def)
  then obtain key p b where k: "pattern_named lib (key_pattern_id key) = Some p" "bm_get (buffers s) key = Some b"
    "threshold_met p (live_buffer p now b)" "pb_events (live_buffer p now b) \<noteq> []"
    "f = build_anomaly_fire p key (vl_library_version lib) (last (pb_events (live_buffer p now b)))"
    unfolding grounded_def pattern_index_named [OF lib] by blast
  note p = pattern_named_Some [OF k(1)]
  have live: "pb_events (live_buffer p now b) = live_of p (key_mandate_id key) now es"
    using live_buffer_window [OF s(2) sees_events [OF sees k(2)], of p] sees_live [OF lib sees k(1,2)] by simp
  have "reaches_threshold p (live_of p (key_mandate_id key) now es)"
    using k(3) threshold_reached [OF machine_pattern [OF lib], of p "live_buffer p now b"] p
      live_of_length [of p "key_mandate_id key" now es] by (simp add: live u32_max_def)
  with k(4,5) p show ?thesis unfolding justified_def live fire_for_eq by blast
qed

lemma observed_fires:
  assumes lib: "machine_library lib" and run: "observed_run ops lib d0 t0 h s"
    and h: "h = pre @ Evaluated fs # post" and f: "f \<in> set fs"
  shows "justified lib (clock_of t0 pre) (arrivals pre) f"
  using run h
proof (induction arbitrary: post rule: observed_run.induct)
  case (evaluate h s gs s')
  show ?case
  proof (cases post rule: rev_cases)
    case Nil
    then have "h = pre" "gs = fs" using evaluate.prems by simp_all
    then show ?thesis using sees_fires [OF lib observed_sees [OF lib evaluate.hyps(1)] evaluate.hyps(2)] f by simp
  qed (use evaluate in auto)
next
  case (advance h s t s')
  then show ?case by (cases post rule: rev_cases) auto
next
  case (arrive h s ev s')
  then show ?case by (cases post rule: rev_cases) auto
qed auto

text \<open>C32: over any ledger backend, in any interleaving of calls, refused and failed ones included, every fire an
  evaluation returns rests on events that were accepted before it.  Its pattern is one of the library; the newest
  thousand accepted events of one mandate that the scope of the pattern admits, cut at the front up to the first that is
  not older than the window at the clock last set, are not empty and reach the threshold of the pattern; and the fire
  is the report on the last of them, with the mandate and just the fields the scope pins.\<close>

theorem fires_justified:
  assumes "machine_library lib" and "observed_run ops lib d0 t0 (pre @ Evaluated fs # post) s" and "f \<in> set fs"
  shows "\<exists>p \<in> set (vl_patterns lib). \<exists>m. live_of p m (clock_of t0 pre) (arrivals pre) \<noteq> [] \<and>
    reaches_threshold p (live_of p m (clock_of t0 pre) (arrivals pre)) \<and>
    f = fire_for p m (vl_library_version lib) (last (live_of p m (clock_of t0 pre) (arrivals pre)))"
  using observed_fires [OF assms(1,2) refl assms(3)] unfolding justified_def .

lemma sample_observed_run:
  "observed_run dd_ops sample_library dedup_new 100 ([Arrived (sample_event ''m'' 100)] @ [Evaluated [sample_fire ''m'']]) sample_fired"
proof (rule observed_run.evaluate [OF _ sample_evaluate])
  have "in_i64 100" "in_i64 (timestamp (sample_event ''m'' 100))" by (simp_all add: in_i64_def arith_defs sample_event_def)
  from observed_run.arrive [OF observed_run.fresh [OF this(1)] this(2) sample_ingest [unfolded sample_state_def]]
  show "observed_run dd_ops sample_library dedup_new 100 [Arrived (sample_event ''m'' 100)] (sample_fed dedup_new)" by simp
qed

lemma fires_justified_witness:
  "\<exists>m. reaches_threshold sample_pattern (live_of sample_pattern m 100 [sample_event ''m'' 100]) \<and>
     sample_fire ''m'' = fire_for sample_pattern m 1 (last (live_of sample_pattern m 100 [sample_event ''m'' 100]))"
  using fires_justified [OF sample_machine, of dd_ops dedup_new 100 "[Arrived (sample_event ''m'' 100)]"
      "[sample_fire ''m'']" "[]" sample_fired "sample_fire ''m''"] sample_observed_run
  by (auto simp: sample_library_def)

section \<open>The fires of a whole batch\<close>

definition due_report ::
  "pattern_entry \<Rightarrow> string \<Rightarrow> nat \<Rightarrow> int \<Rightarrow> int option \<Rightarrow> canonicalized_event list \<Rightarrow> anomaly_fire option" where
  "due_report p m version now fired_at live =
     (if live \<noteq> [] \<and> reaches_threshold p live \<and> rested p now fired_at then Some (fire_for p m version (last live)) else None)"

text \<open>The time of the last fire of a pair in a log.\<close>

definition last_fire :: "(int \<times> anomaly_fire) list \<Rightarrow> string \<Rightarrow> string \<Rightarrow> int option" where
  "last_fire log pid m =
     map_option fst (find (\<lambda>(t, f). af_pattern_id f = pid \<and> mts_mandate_id (af_match_scope f) = Some m) (rev log))"

text \<open>Every pattern with every mandate seen, in ascending order.\<close>

definition due_list ::
  "verified_anomaly_library \<Rightarrow> int \<Rightarrow> canonicalized_event list \<Rightarrow> (int \<times> anomaly_fire) list \<Rightarrow> anomaly_fire list" where
  "due_list lib now es log =
     List.map_filter
       (\<lambda>(pid, m). Option.bind (pattern_named lib pid)
          (\<lambda>p. due_report p m (vl_library_version lib) now (last_fire log pid m) (live_of p m now es)))
       (sorted_list_of_set (pattern_id ` set (vl_patterns lib) \<times> ev_mandate_id ` set es))"

lemma last_fire_Nil [simp]: "last_fire [] pid m = None"
  by (simp add: last_fire_def)

lemma find_append: "find P (xs @ ys) = (case find P xs of Some x \<Rightarrow> Some x | None \<Rightarrow> find P ys)"
  by (induction xs) auto

lemma find_SomeD: "find P xs = Some x \<Longrightarrow> x \<in> set xs \<and> P x"
  by (induction xs) (auto split: if_splits)

lemma last_fire_batch:
  "last_fire (log @ map (Pair now) fs) pid m = (if reported fs pid m then Some now else last_fire log pid m)"
proof -
  let ?P = "\<lambda>(t :: int, f). af_pattern_id f = pid \<and> mts_mandate_id (af_match_scope f) = Some m"
  show ?thesis
  proof (cases "find ?P (rev (map (Pair now) fs))")
    case None
    then have "\<not> reported fs pid m" by (force simp: find_None_iff reported_def)
    with None show ?thesis by (simp add: last_fire_def find_append)
  next
    case (Some e)
    from find_SomeD [OF this] have "fst e = now" "reported fs pid m" by (auto simp: reported_def)
    with Some show ?thesis by (simp add: last_fire_def find_append)
  qed
qed

lemma last_fire_time: "last_fire log pid m = Some t \<Longrightarrow> t \<in> fst ` set log"
  by (force simp: last_fire_def dest!: find_SomeD)

lemma map_filter_superset:
  fixes xs ys :: "'a :: linorder list"
  assumes "sorted_wrt (<) xs" "sorted_wrt (<) ys" "set xs \<subseteq> set ys" "\<And>y. y \<in> set ys - set xs \<Longrightarrow> f y = None"
  shows "List.map_filter f ys = List.map_filter f xs"
proof -
  have "xs = filter (\<lambda>y. y \<in> set xs) ys"
    using assms(1-3) by (intro strict_sorted_equal) (auto intro: sorted_wrt_filter)
  moreover have "List.map_filter f ys = List.map_filter f (filter (\<lambda>y. y \<in> set xs) ys)"
    using assms(4) by (induction ys) (auto split: option.splits)
  ultimately show ?thesis by simp
qed

lemma map_filter_map: "List.map_filter f (map g xs) = List.map_filter (f \<circ> g) xs"
  by (induction xs) (auto split: option.splits)

lemma map_filter_cong: "(\<And>x. x \<in> set xs \<Longrightarrow> f x = g x) \<Longrightarrow> List.map_filter f xs = List.map_filter g xs"
  by (induction xs) (auto split: option.splits)

lemma key_of_pair: "bucket_ok lib key b \<Longrightarrow> key = key_of (key_pattern_id key) (key_mandate_id key)"
  by (simp add: bucket_ok_def key_of_def)

lemma key_of_less: "key_of p m < key_of p' m' \<longleftrightarrow> (p, m) < (p', m')"
  by (auto simp: less_scope_bucket_key_def key_tuple_def key_of_def less_prod_def')

lemma sees_batch:
  assumes lib: "machine_library lib" and sees: "sees lib now es s" and inv: "dd_inv (dedup s)"
    and fired: "last_fired_at (dedup s) = last_fire log"
  shows "List.map_filter (owed lib now (last_fired_at (dedup s)) (buffers s)) (bm_keys (buffers s)) = due_list lib now es log"
proof -
  let ?keys = "bm_keys (buffers s)"
  let ?due = "\<lambda>(pid, m). Option.bind (pattern_named lib pid)
      (\<lambda>p. due_report p m (vl_library_version lib) now (last_fire log pid m) (live_of p m now es))"
  have bufs: "buffers_ok lib (buffers s)" using sees by (simp add: sees_def detector_inv_def)
  have key: "key = key_of (fst (key_pair key)) (snd (key_pair key))" if "key \<in> set ?keys" for key
    using that bufs by (auto simp: set_bm_keys key_pair_def dest!: buffers_okD intro: key_of_pair)
  have "sorted_wrt (<) ?keys" using bufs by (simp add: buffers_ok_def bm_inv_def)
  then have sorted: "sorted_wrt (<) (map key_pair ?keys)"
    unfolding sorted_wrt_map by (rule sorted_wrt_mono_rel [rotated]) (metis key key_of_less prod.collapse)
  have owed: "owed lib now (last_fired_at (dedup s)) (buffers s) key = (?due \<circ> key_pair) key" if listed: "key \<in> set ?keys" for key
  proof -
    obtain b where b: "bm_get (buffers s) key = Some b" using listed by (auto simp: set_bm_keys)
    show ?thesis
    proof (cases "pattern_named lib (key_pattern_id key)")
      case (Some p)
      with pattern_named_Some [OF Some] sees_live [OF lib sees Some b] b show ?thesis
        by (simp add: owed_def key_pair_def fire_due_def due_report_def fired Let_def)
    qed (simp add: owed_def key_pair_def)
  qed
  have "?due (pid, m) = None" if "(pid, m) \<notin> key_pair ` set ?keys" for pid m
  proof (cases "pattern_named lib pid")
    case (Some p)
    note p = pattern_named_Some [OF Some]
    have "key_of pid m \<notin> set ?keys" using that by (metis image_eqI key_of_simps key_pair_def)
    then have "history s m (pattern_id p) = []" using p by (simp add: set_bm_keys history_def)
    moreover have "holds_newest p now (concerning p m es) (history s m (pattern_id p))"
      using sees p(1) unfolding sees_def by blast
    ultimately have "live_of p m now es = []" using holds_newest_window by (fastforce simp: live_of_def in_window_def)
    with Some show ?thesis by (simp add: due_report_def)
  qed simp
  then have "due_list lib now es log = List.map_filter ?due (map key_pair ?keys)"
    unfolding due_list_def using sorted sees
    by (intro map_filter_superset) (auto simp: key_pair_def set_bm_keys sees_def)
  also have "\<dots> = List.map_filter (owed lib now (last_fired_at (dedup s)) (buffers s)) ?keys"
    unfolding map_filter_map using owed by (intro map_filter_cong) simp
  finally show ?thesis ..
qed

section \<open>What the rules lead to\<close>

text \<open>Thresholds above the ring: such a pattern is accepted in a library and stays silent for ever.\<close>

lemma dead_threshold:
  assumes "machine_library lib" and "observed_run ops lib d0 t0 (pre @ Evaluated fs # post) s"
    and "p \<in> set (vl_patterns lib)" "threshold_of p = Count n \<or> threshold_of p = DistinctCount n" "1000 < n"
  shows "\<forall>f \<in> set fs. af_pattern_id f \<noteq> pattern_id p"
proof (intro ballI notI)
  fix f assume f: "f \<in> set fs" "af_pattern_id f = pattern_id p"
  obtain p' m where p': "p' \<in> set (vl_patterns lib)" "reaches_threshold p' (live_of p' m (clock_of t0 pre) (arrivals pre))"
    "f = fire_for p' m (vl_library_version lib) (last (live_of p' m (clock_of t0 pre) (arrivals pre)))"
    using observed_fires [OF assms(1,2) refl f(1)] unfolding justified_def by blast
  then have "p' = p" using f(2) assms(1,3) by (auto simp: fire_for_def machine_library_def distinct_map dest: inj_onD)
  let ?live = "live_of p m (clock_of t0 pre) (arrivals pre)"
  have "card (ev_resource_ref ` set ?live) \<le> length ?live" by (meson card_image_le card_length le_trans List.finite_set)
  with p'(2) live_of_length [of p m "clock_of t0 pre" "arrivals pre"] assms(4,5) show False
    by (auto simp: \<open>p' = p\<close> reaches_threshold_def split: if_splits)
qed

definition dead_pattern :: pattern_entry where
  "dead_pattern = sample_pattern\<lparr>pattern_id := ''q'', threshold_of := Count 1001\<rparr>"

definition mixed_library :: verified_anomaly_library where
  "mixed_library = sample_library\<lparr>vl_patterns := [sample_pattern, dead_pattern]\<rparr>"

definition mixed_bucket :: "string \<Rightarrow> pattern_buffer" where
  "mixed_bucket pid = \<lparr>pb_pattern_id = pid, pb_events = [sample_event ''m'' 100], pb_sequence_tracker = None\<rparr>"

definition mixed_key :: "string \<Rightarrow> scope_bucket_key" where
  "mixed_key pid = ScopeBucketKey pid ''m'' None None None"

definition mixed_fed :: "in_memory_dedup detector_state" where
  "mixed_fed = (with_ledger mixed_library 100 dedup_new)
     \<lparr>buffers := [(mixed_key ''p'', mixed_bucket ''p''), (mixed_key ''q'', mixed_bucket ''q'')],
      per_mandate_counters := [(''m'', 1)]\<rparr>"

lemma mixed_ingest:
  "ingest_event (with_ledger mixed_library 100 dedup_new) (sample_event ''m'' 100) = (Inr (), mixed_fed)"
  by (simp add: ingest_event_def with_ledger_def sample_event_def sample_library_def mixed_library_def
      dead_pattern_def sample_pattern_def past_dated_floor_def max_library_window_seconds_def
      List.map_filter_def MAX_CLOCK_SKEW_SECONDS_def PAST_DATED_GRACE_SECONDS_def
      MAX_EVENTS_PER_MANDATE_def route_pattern_def bump_counter_def family_contains_def
      DESTRUCTIVE_VERBS_def matches_event_iff any_mandate_def mixed_fed_def mixed_bucket_def mixed_key_def
      for_pattern_match_def pattern_buffer_new_def ring_trim_id MAX_EVENTS_PER_BUFFER_def sat_sub_def
      clamp_i64_def arith_defs less_scope_bucket_key_def key_tuple_def)

lemma mixed_fields:
  "bm_keys (buffers mixed_fed) = [mixed_key ''p'', mixed_key ''q'']"
  "bm_get (buffers mixed_fed) (mixed_key ''p'') = Some (mixed_bucket ''p'')"
  "bm_get (buffers mixed_fed) (mixed_key ''q'') = Some (mixed_bucket ''q'')"
  "pinned_library mixed_fed = mixed_library" "current_time mixed_fed = 100" "dedup mixed_fed = dedup_new"
  "key_pattern_id (mixed_key pid) = pid" "key_mandate_id (mixed_key pid) = ''m''"
  "vl_library_version mixed_library = 1" "pattern_id dead_pattern = ''q''"
  by (simp_all add: mixed_fed_def with_ledger_def mixed_key_def bm_keys_def mixed_library_def
      sample_library_def dead_pattern_def)

lemma mixed_index:
  "bm_get (pattern_index mixed_library) ''p'' = Some sample_pattern"
  "bm_get (pattern_index mixed_library) ''q'' = Some dead_pattern"
  by (simp_all add: pattern_index_def mixed_library_def bm_get_collect)
    (simp_all add: dead_pattern_def sample_pattern_def)

lemma mixed_evict:
  "evict_bucket sample_pattern (mixed_key ''p'') 100 (buffers mixed_fed) = buffers mixed_fed"
  "evict_bucket dead_pattern (mixed_key ''q'') 100 (buffers mixed_fed) = buffers mixed_fed"
  by (simp_all add: evict_bucket_def mixed_fed_def with_ledger_def mixed_key_def mixed_bucket_def
      dead_pattern_def sample_pattern_def sample_event_def evict_aged_events_def sat_sub_def
      clamp_i64_def less_scope_bucket_key_def key_tuple_def arith_defs)

lemma mixed_fires:
  "evaluate_pattern dd_ops sample_pattern (mixed_bucket ''p'') (mixed_key ''p'') 1 100 dedup_new
     = Inr (Some (sample_fire ''m''))"
  "evaluate_pattern dd_ops dead_pattern (mixed_bucket ''q'') (mixed_key ''q'') 1 100 d = Inr None"
  by (simp_all add: evaluate_pattern_def dead_pattern_def sample_pattern_def evaluate_first_match_def
      is_fire_suppressed_def dd_is_suppressed_total last_fired_at_def dedup_new_def dedup_with_cap_def
      u32_of_usize_def u32_max_def fire_on_last_def sample_fire_def mixed_bucket_def mixed_key_def
      split: option.split bool.split)

definition mixed_fired :: "in_memory_dedup detector_state" where
  "mixed_fired = mixed_fed\<lparr>dedup := dedup_new\<lparr>dd_state := [((''p'', ''m''), 100)]\<rparr>\<rparr>"

lemma mixed_evaluate: "evaluate_all dd_ops mixed_fed = (Inr [sample_fire ''m''], mixed_fired)"
  by (simp add: evaluate_all_def mixed_fields mixed_index mixed_evict mixed_fires [unfolded One_nat_def]
      sample_fields sample_observe mixed_fired_def)

lemma mixed_machine: "machine_library mixed_library"
  by (simp add: machine_library_def u32_pattern_def mixed_library_def sample_library_def dead_pattern_def sample_pattern_def
      u32_max_def)

lemma mixed_run:
  "observed_run dd_ops mixed_library dedup_new 100
     ([Arrived (sample_event ''m'' 100)] @ Evaluated [sample_fire ''m''] # []) mixed_fired"
proof (rule observed_run.evaluate [OF _ mixed_evaluate])
  have "in_i64 100" "in_i64 (timestamp (sample_event ''m'' 100))" by (simp_all add: in_i64_def arith_defs sample_event_def)
  from observed_run.arrive [OF observed_run.fresh [OF this(1)] this(2) mixed_ingest]
  show "observed_run dd_ops mixed_library dedup_new 100 [Arrived (sample_event ''m'' 100)] mixed_fed" by simp
qed

lemma dead_threshold_witness: "dead_pattern \<in> set (vl_patterns mixed_library) \<and> af_pattern_id (sample_fire ''m'') \<noteq> ''q''"
  using dead_threshold [OF mixed_machine mixed_run, of dead_pattern 1001] by (simp add: mixed_library_def dead_pattern_def)

text \<open>Only the front is cut, so an aged event behind a younger one counts for as long as the younger one is in the
  window, however many evaluations there are in between.\<close>

lemma buried_events_count:
  assumes "window_seconds p = Some w" "now - int w \<le> timestamp e"
  shows "in_window p now (e # es) = e # es"
  using assms by (simp add: in_window_def aged_def)

lemma buried_events_count_witness:
  "in_window sample_pattern 160 [sample_event ''m'' 100, sample_event ''m'' 50] = [sample_event ''m'' 100, sample_event ''m'' 50] \<and>
   aged sample_pattern 111 (sample_event ''m'' 50)"
  using buried_events_count [of sample_pattern 60 160 "sample_event ''m'' 100" "[sample_event ''m'' 50]"]
  by (simp add: sample_pattern_def sample_event_def aged_def)

end
