(* ===== verification/Anomaly_Suites_Correct.thy ===== *)
theory Anomaly_Suites_Correct
  imports Anomaly_Suites Detector_Spec
begin

text \<open>
  What the anomaly suites promise: the verdict of the library suite, what a detect run means over the detector's
  own guarantees, which stream errors the executors can reach, the isolation of tenants in an audit replay, and
  what the comparison of sorted lists decides.
\<close>

section \<open>Opening the library\<close>

lemma seed_ledger_fresh:
  "distinct (map fst seeds) \<Longrightarrow> (\<And>i. i \<in> fst ` set seeds \<Longrightarrow> l i = None) \<Longrightarrow>
   seed_ledger seeds l = Inr (l ++ map_of seeds)"
proof (induction seeds arbitrary: l)
  case (Cons s seeds)
  obtain i n where s: "s = (i, n)" by (cases s)
  have "seed_ledger seeds (l(i \<mapsto> n)) = Inr (l(i \<mapsto> n) ++ map_of seeds)"
    using Cons.prems by (intro Cons.IH) (auto simp: s)
  moreover have "l i = None" using Cons.prems(2) [of i] by (simp add: s)
  moreover have "map_of seeds i = None" using Cons.prems(1) by (simp add: s map_of_eq_None_iff)
  then have "l(i \<mapsto> n) ++ map_of seeds = l ++ (map_of seeds)(i \<mapsto> n)"
    by (auto simp: map_add_def fun_eq_iff split: option.split)
  ultimately show ?case by (simp add: s ledger_observe_def) (auto simp: map_add_def fun_eq_iff split: option.split)
qed simp

lemma seed_ledger_new: "distinct (map fst seeds) \<Longrightarrow> seed_ledger seeds ledger_new = Inr (map_of seeds)"
  using seed_ledger_fresh [of seeds ledger_new] by (simp add: ledger_new_def map_add_def [abs_def] fun_eq_iff split: option.split)

text \<open>What the verifier answers for a ledger with given marks.\<close>

definition library_answer ::
  "('pk, 'sig) anomaly_env \<Rightarrow> string \<Rightarrow> 'pk trust_anchor_set \<Rightarrow> nat \<Rightarrow> int \<Rightarrow> (string \<times> nat) list \<Rightarrow>
   anomaly_lib_error + verified_anomaly_library" where
  "library_answer env bytes anchors abi now seeds =
     (case verify_internal (an_crypto env) (an_decode_payload env) bytes anchors abi now of
        Inl e \<Rightarrow> Inl e
      | Inr (payload, kid) \<Rightarrow>
          (case map_of seeds (pl_library_id payload) of
             Some hwm \<Rightarrow>
               if pl_library_version payload \<le> hwm
               then Inl (LibraryVersionTooOld (sanitize_log_string (pl_library_id payload)) hwm (pl_library_version payload))
               else Inr (build_verified payload kid)
           | None \<Rightarrow> Inr (build_verified payload kid)))"

lemma with_ledger_answer:
  "fst (verify_anomaly_library_signature_with_ledger (an_crypto env) (an_decode_payload env) ledger_observe
      bytes anchors abi now (map_of seeds)) = library_answer env bytes anchors abi now seeds"
  by (auto simp: verify_anomaly_library_signature_with_ledger_def library_answer_def ledger_observe_def
      split: sum.split option.split)

definition opens ::
  "('pk, 'sig) anomaly_env \<Rightarrow> 'z envelope_input_scheme \<Rightarrow> anomaly_lib_error + verified_anomaly_library \<Rightarrow> bool" where
  "opens env input answer \<longleftrightarrow>
     (\<exists>anchors bytes now.
        build_anchor_set (an_crypto env) (ei_anchor_keys input) AnomalyLibrarySigner = Inr anchors \<and>
        hex_decode (an_crypto env) (ei_cose_hex input) = Some bytes \<and>
        an_rfc3339 env (ei_now input) = Inr now \<and>
        answer = library_answer env bytes anchors (ei_abi input) now (ei_pre_ledger input))"

lemma open_library_iff:
  "distinct (map fst (ei_pre_ledger input)) \<Longrightarrow> open_library env who input = Inr answer \<longleftrightarrow> opens env input answer"
  by (auto simp: open_library_def opens_def parse_iso_seconds_def seed_ledger_new with_ledger_answer
      split: sum.splits option.splits)

lemma open_library_fails: "open_library env who input = Inl failure \<Longrightarrow> failure \<noteq> Pass"
  by (auto simp: open_library_def split: sum.splits option.splits)

text \<open>C18: a library vector (whose marks are a map, as the decoder makes them) passes exactly when its anchors
  build, its hex and clock parse, and the answer of the verifier is the expected one: acceptance for an envelope
  that passes the seven stages with a version strictly above the mark of its library id, if the marks have one;
  \<open>pattern-library-version-too-old\<close> for one that passes them with a version at or below the mark; and the code
  of the first failing stage for any other.\<close>

theorem library_pass_iff:
  assumes "an_library_input env (v_input vector) = Inr input" "distinct (map fst (ei_pre_ledger input))"
  shows "library_execute env vector = Pass \<longleftrightarrow>
    (\<exists>answer. opens env input answer \<and>
       (case answer of
          Inr _ \<Rightarrow> exp_outcome (v_expected vector) = Accept
        | Inl e \<Rightarrow> exp_outcome (v_expected vector) = Reject \<and> expected_code_of vector = library_wire_code e))"
proof (cases "open_library env (''anomaly-library vector '' @ v_id vector) input")
  case (Inl failure)
  have "\<not> opens env input answer" for answer
    using Inl unfolding open_library_iff [OF assms(2), symmetric, where who = "''anomaly-library vector '' @ v_id vector"] by simp
  with Inl open_library_fails [OF Inl] assms(1) show ?thesis by (simp add: library_execute_def)
next
  case (Inr answer)
  then have "opens env input a \<longleftrightarrow> a = answer" for a
    unfolding open_library_iff [OF assms(2), symmetric, where who = "''anomaly-library vector '' @ v_id vector"] by auto
  with Inr assms(1) show ?thesis
    by (auto simp: library_execute_def render_outcome_def Let_def split: sum.split outcome.split)
qed

section \<open>Comparing sorted lists\<close>

definition same_per_key :: "('a \<Rightarrow> 'k) \<Rightarrow> 'a list \<Rightarrow> 'a list \<Rightarrow> bool" where
  "same_per_key f xs ys \<longleftrightarrow> (\<forall>k. filter (\<lambda>x. f x = k) xs = filter (\<lambda>x. f x = k) ys)"

lemma sort_key_eq_iff: "sort_key f xs = sort_key f ys \<longleftrightarrow> same_per_key f xs ys"
proof
  assume eq: "sort_key f xs = sort_key f ys"
  show "same_per_key f xs ys"
    unfolding same_per_key_def using arg_cong [OF eq, of "filter (\<lambda>x. f x = k)" for k] by (simp add: sort_key_stable)
next
  assume same: "same_per_key f xs ys"
  have "mset xs = mset ys"
  proof (rule multiset_eqI)
    fix x
    have "count (mset zs) x = count (mset (filter (\<lambda>y. f y = f x) zs)) x" for zs by simp
    then show "count (mset xs) x = count (mset ys) x" using same unfolding same_per_key_def by metis
  qed
  then show "sort_key f xs = sort_key f ys"
  proof (intro properties_for_sort_key)
    show "filter (\<lambda>x. f k = f x) (sort_key f ys) = filter (\<lambda>x. f k = f x) xs" for k
      using same sort_key_stable [of f "f k" ys] unfolding same_per_key_def by (simp add: eq_commute [of "f k"])
  qed simp_all
qed

section \<open>The stream errors an executor can reach\<close>

definition reachable_error :: "stream_error \<Rightarrow> bool" where
  "reachable_error e \<longleftrightarrow> (case e of ClockSkewRejected _ _ \<Rightarrow> False | PastDatedEventRejected _ _ _ \<Rightarrow> False | _ \<Rightarrow> True)"

text \<open>Rust's \<open>i64\<close> on the timestamps of a literal stream.\<close>

fun stream_wf :: "audit_stream_input \<Rightarrow> bool" where
  "stream_wf (Literal events) \<longleftrightarrow> list_all (\<lambda>e. in_i64 (timestamp e)) events"
| "stream_wf (PatternDescription _) \<longleftrightarrow> True"

lemma expand_loop_reachable:
  "case expand_loop pd start is of Inl e \<Rightarrow> reachable_error e | Inr out \<Rightarrow> list_all (\<lambda>e. in_i64 (timestamp e)) out"
proof (induction "is")
  case (Cons i "is")
  have "in_i64 x" if "Option.bind (checked_mul_i64 (int i) (int (interval_seconds pd))) (checked_add_i64 start) = Some x" for x
    using that by (auto simp: Option.bind_eq_Some_conv checked_add_i64_def split: if_splits)
  with Cons show ?case
    by (auto simp: reachable_error_def expand_event_def Let_def split: option.splits sum.splits)
qed simp

lemma normalize_reachable:
  "stream_wf stream \<Longrightarrow> case normalize parse stream of
     Inl e \<Rightarrow> reachable_error e | Inr out \<Rightarrow> list_all (\<lambda>e. in_i64 (timestamp e)) out"
proof (cases stream)
  case (PatternDescription pd)
  show ?thesis
    using expand_loop_reachable [of pd _ "[0..<pd_count pd]"]
    by (auto simp: PatternDescription expand_def Let_def reachable_error_def split: option.split)
qed simp

lemma ingest_reachable:
  assumes "in_i64 (timestamp ev)" "current_time s = timestamp ev" "ingest_event s ev = (Inl e, s')"
  shows "reachable_error e"
  using ingest_now [OF assms] by (auto simp: reachable_error_def split: if_splits)

lemma advance_now: "advance_clock s t = (Inr u, s') \<Longrightarrow> current_time s' = t"
  by (auto simp: advance_clock_def split: if_splits)

lemma detect_events_reachable:
  "list_all (\<lambda>e. in_i64 (timestamp e)) events \<Longrightarrow> detect_events s events = Inl (stage, e) \<Longrightarrow> reachable_error e"
proof (induction events arbitrary: s)
  case (Cons event events)
  obtain r1 s1 where clock: "advance_clock s (timestamp event) = (r1, s1)" by fastforce
  show ?case
  proof (cases r1)
    case (Inl err)
    then show ?thesis using Cons.prems(2) clock
      by (auto simp: advance_clock_def reachable_error_def split: if_splits)
  next
    case (Inr u)
    obtain r2 s2 where ingest: "ingest_event s1 event = (r2, s2)" by fastforce
    show ?thesis
    proof (cases r2)
      case (Inl err)
      then show ?thesis
        using Cons.prems clock Inr ingest advance_now [of s "timestamp event" u s1] ingest_reachable [of event s1 err s2] by auto
    next
      case (Inr u')
      then show ?thesis using Cons clock \<open>r1 = Inr u\<close> ingest by auto
    qed
  qed
qed simp

lemma observe_event_reachable:
  assumes "in_i64 (timestamp event)" "observe_event orch tid event = (Inl e, orch')"
  shows "reachable_error e"
proof -
  obtain r1 s1 where clock: "advance_clock (tenant_state orch tid) (timestamp event) = (r1, s1)" by fastforce
  show ?thesis
  proof (cases r1)
    case (Inl err)
    then show ?thesis using assms(2) clock
      by (auto simp: observe_event_def observe_detector_def advance_clock_def reachable_error_def split: if_splits)
  next
    case (Inr u)
    obtain r2 s2 where ingest: "ingest_event s1 event = (r2, s2)" by fastforce
    show ?thesis
    proof (cases r2)
      case (Inl err)
      then show ?thesis
        using assms clock Inr ingest advance_now [of "tenant_state orch tid" "timestamp event" u s1]
          ingest_reachable [of event s1 err s2] by (auto simp: observe_event_def observe_detector_def)
    next
      case (Inr u')
      then show ?thesis using assms(2) clock \<open>r1 = Inr u\<close> ingest
        by (auto simp: observe_event_def observe_detector_def drain_detector_def stream_error_of_dedup_def reachable_error_def
            split: prod.splits sum.splits)
    qed
  qed
qed

lemma audit_events_reachable:
  "list_all (\<lambda>e. in_i64 (timestamp e)) events \<Longrightarrow> audit_events orch tid events obs = Inl e \<Longrightarrow> reachable_error e"
  by (induction events arbitrary: orch obs)
    (auto split: prod.splits sum.splits dest: observe_event_reachable)

lemma detect_streams_reachable:
  "list_all stream_wf streams \<Longrightarrow>
   detect_streams env idx streams s fires = Inl (i, stage, e) \<Longrightarrow> reachable_error e"
proof (induction streams arbitrary: idx s fires)
  case (Cons stream streams)
  have "case normalize (stream_clock env) stream of
      Inl e \<Rightarrow> reachable_error e | Inr out \<Rightarrow> list_all (\<lambda>e. in_i64 (timestamp e)) out"
    using Cons.prems(1) by (intro normalize_reachable) simp
  then show ?case
    using Cons.prems Cons.IH by (auto simp: stream_error_of_dedup_def reachable_error_def [of "DedupLedgerFailure _"]
        split: sum.splits prod.splits dest: detect_events_reachable)
qed simp

text \<open>Two of the ten stream codes of the suites are dead.  Both executors move the clock to the timestamp of
  each event before it is ingested, so over streams with \<open>i64\<close> timestamps neither the detect loop nor the audit
  loop can answer \<open>clock-skew-rejected\<close> or \<open>past-dated-event\<close>, and a vector that expects one of them fails.\<close>

theorem stream_gates_dead:
  assumes "list_all stream_wf streams" "list_all (\<lambda>e. in_i64 (timestamp e)) events"
  shows "(case detect_streams env idx streams s fires of Inl (i, stage, e) \<Rightarrow> reachable_error e | Inr _ \<Rightarrow> True) \<and>
    (case audit_events orch tid events obs of Inl e \<Rightarrow> reachable_error e | Inr _ \<Rightarrow> True)"
  using detect_streams_reachable [OF assms(1), of env idx s fires] audit_events_reachable [OF assms(2), of orch tid obs]
  by (auto split: sum.split prod.split)

lemma stream_gates_dead_witness:
  "audit_events (orchestrator_new sample_library 100) ''t'' [sample_event ''m'' 99] [] = Inl (ClockRegression 100 99) \<and>
   reachable_error (ClockRegression 100 99)"
proof -
  have run: "audit_events (orchestrator_new sample_library 100) ''t'' [sample_event ''m'' 99] [] = Inl (ClockRegression 100 99)"
    by (simp add: observe_event_def observe_detector_def advance_clock_def tenant_state_def orchestrator_new_def
        detector_new_def with_ledger_def sample_event_def)
  have "list_all (\<lambda>e. in_i64 (timestamp e)) [sample_event ''m'' 99]"
    by (simp add: sample_event_def in_i64_def arith_defs)
  with stream_gates_dead [of "[]" "[sample_event ''m'' 99]" undefined 0 "detector_new sample_library 100" "[]"
      "orchestrator_new sample_library 100" "''t''" "[]"] run show ?thesis by simp
qed

section \<open>The fires of a detect vector\<close>

fun clock_after :: "int \<Rightarrow> canonicalized_event list \<Rightarrow> int" where
  "clock_after t [] = t"
| "clock_after t (e # es) = clock_after (timestamp e) es"

text \<open>What the events of the streams call for: after each stream the fires that are due, at the time of the last event, by
  the events so far and the fires so far.\<close>

fun stream_fires ::
  "verified_anomaly_library \<Rightarrow> int \<Rightarrow> canonicalized_event list \<Rightarrow> (int \<times> anomaly_fire) list \<Rightarrow>
   canonicalized_event list list \<Rightarrow> anomaly_fire list" where
  "stream_fires lib now seen log [] = []"
| "stream_fires lib now seen log (batch # batches) =
     (let now = clock_after now batch; seen = seen @ batch; fires = due_list lib now seen log
      in fires @ stream_fires lib now seen (log @ map (Pair now) fires) batches)"

lemma detect_events_sees:
  "sees lib now es s \<Longrightarrow> machine_library lib \<Longrightarrow> list_all (\<lambda>e. in_i64 (timestamp e)) events \<Longrightarrow> detect_events s events = Inr s' \<Longrightarrow>
     sees lib (clock_after now events) (es @ events) s' \<and> dedup s' = dedup s"
proof (induction events arbitrary: now es s)
  case (Cons event events)
  obtain s1 where clock: "advance_clock s (timestamp event) = (Inr (), s1)"
    using Cons.prems(4) by (auto split: sum.splits prod.splits)
  with Cons.prems(4) obtain s2 where ingest: "ingest_event s1 event = (Inr (), s2)" and rest: "detect_events s2 events = Inr s'"
    by (auto split: sum.splits prod.splits)
  have "sees lib (timestamp event) es s1" using Cons.prems(3) by (intro sees_advance [OF Cons.prems(1) _ clock]) simp
  then have "sees lib (timestamp event) (es @ [event]) s2"
    using Cons.prems(3) by (intro sees_ingest [OF Cons.prems(2) _ _ ingest]) simp_all
  moreover have "dedup s2 = dedup s" using advance_clock_frame [OF clock] ingest_event_frame [OF ingest] by simp
  ultimately show ?case using Cons.IH [OF _ Cons.prems(2) _ rest] Cons.prems(3) by fastforce
qed simp

lemma detect_streams_fires:
  "sees lib now es s \<Longrightarrow> machine_library lib \<Longrightarrow> dd_inv (dedup s) \<Longrightarrow> last_fired_at (dedup s) = last_fire log \<Longrightarrow>
     list_all in_i64 (map fst log) \<Longrightarrow> list_all stream_wf streams \<Longrightarrow> detect_streams env idx streams s fires = Inr observed \<Longrightarrow>
     \<exists>batches. list_all2 (\<lambda>stream events. normalize (stream_clock env) stream = Inr events) streams batches \<and>
       observed = fires @ stream_fires lib now es log batches"
proof (induction streams arbitrary: now es s log idx fires)
  case (Cons stream streams)
  from Cons.prems(7) obtain events s1 fs s2 where step: "normalize (stream_clock env) stream = Inr events"
    "detect_events s events = Inr s1" "evaluate_all dd_ops s1 = (Inr fs, s2)"
    "detect_streams env (idx + 1) streams s2 (fires @ fs) = Inr observed"
    by (auto split: sum.splits prod.splits)
  let ?now = "clock_after now events" and ?es = "es @ events"
  have "list_all (\<lambda>e. in_i64 (timestamp e)) events" using normalize_reachable [of stream "stream_clock env"] Cons.prems(6) step(1) by simp
  from detect_events_sees [OF Cons.prems(1,2) this step(2)] have s1: "sees lib ?now ?es s1" "dedup s1 = dedup s" by simp_all
  have inv1: "detector_inv lib s1" "dd_inv (dedup s1)" "in_i64 ?now" "current_time s1 = ?now"
    using s1 Cons.prems(3) by (simp_all add: sees_def)
  have "i64_state s1"
    using inv1(3,4) sees_events [OF s1(1)] last_fire_time [of log] Cons.prems(4,5) s1(2)
    by (fastforce simp: i64_state_def list_all_iff)
  note owed = evaluate_all_owed [OF Cons.prems(2) inv1(1,2) this step(3)]
  have fs: "fs = due_list lib ?now ?es log"
    using owed(1) sees_batch [OF Cons.prems(2) s1(1) inv1(2), of log] Cons.prems(4) s1(2) inv1(4) by simp
  have s2: "sees lib ?now ?es s2" using sees_evaluate [OF Cons.prems(2) s1(1) step(3)] .
  have log2: "last_fired_at (dedup s2) = last_fire (log @ map (Pair ?now) fs)"
    using owed(3) Cons.prems(4) s1(2) inv1(4) by (simp add: fun_eq_iff last_fire_batch)
  have "dd_inv (dedup s2)" using dd.evaluate_all_fired [OF step(3) inv1(2)] by simp
  moreover have "list_all in_i64 (map fst (log @ map (Pair ?now) fs))" using Cons.prems(5) inv1(3) by (auto simp: list_all_iff)
  ultimately obtain batches where
    "list_all2 (\<lambda>stream events. normalize (stream_clock env) stream = Inr events) streams batches"
    "observed = (fires @ fs) @ stream_fires lib ?now ?es (log @ map (Pair ?now) fs) batches"
    using Cons.IH [OF s2 Cons.prems(2) _ log2 _ _ step(4)] Cons.prems(6) by auto
  with step(1) fs show ?case by (intro exI [of _ "events # batches"]) (simp add: Let_def)
qed simp

text \<open>C17: when a detect vector runs to its end, its observed fires are exactly those that its events call for.  After each
  stream, at the time of the last event, every pattern of the library and every mandate seen so far, in ascending order,
  reports once if the newest thousand of the accepted events that concern them, from the first inside the window on, reach
  the threshold, and the last report of the pair in this run, whichever stream it came from, is at least the window (an
  hour without one) ago.\<close>

theorem detect_fires_sound:
  assumes "machine_library lib" and "in_i64 start" and "list_all stream_wf streams"
    and "detect_streams env 0 streams (detector_new lib start) [] = Inr observed"
  shows "\<exists>batches. list_all2 (\<lambda>stream events. normalize (stream_clock env) stream = Inr events) streams batches \<and>
    observed = stream_fires lib start [] [] batches"
proof -
  have fresh: "sees lib start [] (detector_new lib start)" unfolding detector_new_def by (rule sees_start [OF assms(2)])
  have "dedup (detector_new lib start) = dedup_new" by (simp add: detector_new_def with_ledger_def)
  then have "dd_inv (dedup (detector_new lib start))" "last_fired_at (dedup (detector_new lib start)) = last_fire []"
    by (simp_all add: dd_inv_new fun_eq_iff, simp add: last_fired_at_def dedup_new_def dedup_with_cap_def)
  from detect_streams_fires [OF fresh assms(1) this _ assms(3,4)] show ?thesis by simp
qed

section \<open>Tenants of an audit replay\<close>

definition own :: "string \<Rightarrow> anomaly_detected_record list \<Rightarrow> anomaly_detected_record list" where
  "own tid recs = filter (\<lambda>r. adr_tenant_id r = tid) recs"

definition mute :: "string \<Rightarrow> (string \<times> audit_stream_input) list \<Rightarrow> (string \<times> audit_stream_input) list" where
  "mute tid streams = map (\<lambda>(t, s). (t, if t = tid then s else Literal [])) streams"

lemma own_append: "own tid (xs @ ys) = own tid xs @ own tid ys"
  by (simp add: own_def)

lemma observed_tenant:
  "observe_event orch t ev = (Inr fires, orch') \<Longrightarrow> own tid fires = (if t = tid then fires else [])"
  by (auto simp: observe_event_def observe_detector_def drain_detector_def wrap_fires_def own_def Let_def
      filter_empty_conv filter_id_conv split: prod.splits sum.splits)

lemma audit_events_own:
  "same_view tid o1 o2 \<Longrightarrow> audit_events o1 tid events obs = Inr (o1', obs') \<Longrightarrow>
   \<exists>o2'. audit_events o2 tid events (own tid obs) = Inr (o2', own tid obs') \<and> same_view tid o1' o2'"
proof (induction events arbitrary: o1 o2 obs)
  case (Cons ev events)
  from Cons.prems(2) obtain fires p where step: "observe_event o1 tid ev = (Inr fires, p)"
    and rest: "audit_events p tid events (obs @ fires) = Inr (o1', obs')"
    by (auto split: prod.splits sum.splits)
  have "visible tid (Observe tid ev)" by (simp add: visible_def)
  from step_visible [OF this Cons.prems(1)] step obtain q where
    q: "observe_event o2 tid ev = (Inr fires, q)" "same_view tid p q"
    by (cases "observe_event o2 tid ev") auto
  have "own tid (obs @ fires) = own tid obs @ fires" using observed_tenant [OF step] by (simp add: own_append)
  with Cons.IH [OF q(2) rest] q(1) show ?case by simp
qed auto

lemma audit_events_other:
  "t \<noteq> tid \<Longrightarrow> audit_events orch t events obs = Inr (orch', obs') \<Longrightarrow> same_view tid orch' orch \<and> own tid obs' = own tid obs"
proof (induction events arbitrary: orch obs)
  case Nil
  then show ?case by (simp add: same_view_def)
next
  case (Cons ev events)
  from Cons.prems(2) obtain fires p where step: "observe_event orch t ev = (Inr fires, p)"
    and rest: "audit_events p t events (obs @ fires) = Inr (orch', obs')"
    by (auto split: prod.splits sum.splits)
  have "\<not> visible tid (Observe t ev)" using Cons.prems(1) by (simp add: visible_def)
  from step_hidden [OF this, of orch] step have "same_view tid p orch" by simp
  moreover have "own tid (obs @ fires) = own tid obs"
    using observed_tenant [OF step] Cons.prems(1) by (simp add: own_append)
  ultimately show ?case using Cons.IH [OF Cons.prems(1) rest] same_view_trans by auto
qed

lemma rotation_view:
  "apply_rotation env who o1 rot defs = Inr o1' \<Longrightarrow>
   \<exists>o2'. apply_rotation env who o2 rot defs = Inr o2' \<and> same_view tid o1' o2'"
  by (auto simp: apply_rotation_def rotate_library_def same_view_def split: sum.splits option.splits)

lemma audit_streams_mute:
  "same_view tid o1 o2 \<Longrightarrow> audit_streams env who vector input idx streams o1 obs = Inr recs \<Longrightarrow>
   audit_streams env who vector input idx (mute tid streams) o2 (own tid obs) = Inr (own tid recs)"
proof (induction streams arbitrary: idx o1 o2 obs)
  case Nil
  then show ?case by (simp add: mute_def)
next
  case (Cons ts streams)
  obtain t stream where ts: "ts = (t, stream)" by (cases ts)
  from Cons.prems(2) obtain events p obs1 where *: "normalize (stream_clock env) stream = Inr events"
    "audit_events o1 t events obs = Inr (p, obs1)" by (auto simp: ts split: sum.splits prod.splits)
  let ?stream = "if t = tid then stream else Literal []"
  have "\<exists>events' q. normalize (stream_clock env) ?stream = Inr events' \<and>
      audit_events o2 t events' (own tid obs) = Inr (q, own tid obs1) \<and> same_view tid p q"
  proof (cases "t = tid")
    case True
    then show ?thesis using * audit_events_own [of tid o1 o2 events obs p obs1] Cons.prems(1) by auto
  next
    case False
    from audit_events_other [OF this *(2)] Cons.prems(1) have "same_view tid p o2" "own tid obs1 = own tid obs"
      by (auto simp: same_view_def)
    with False show ?thesis by simp
  qed
  then obtain events' q where q: "normalize (stream_clock env) ?stream = Inr events'"
    "audit_events o2 t events' (own tid obs) = Inr (q, own tid obs1)" "same_view tid p q" by blast
  have muted: "mute tid (ts # streams) = (t, ?stream) # mute tid streams" by (simp add: mute_def ts)
  show ?case
  proof (cases "\<exists>rot. ai_rotate input = Some rot \<and> ro_after rot = idx")
    case True
    then obtain rot where rot: "ai_rotate input = Some rot" "ro_after rot = idx" by blast
    from Cons.prems(2) obtain p1 where p1: "apply_rotation env who p rot (ei_anchor_keys input) = Inr p1"
      "audit_streams env who vector input (idx + 1) streams p1 obs1 = Inr recs"
      by (auto simp: ts * rot split: sum.splits)
    from rotation_view [OF p1(1), of q] obtain q1 where
      q1: "apply_rotation env who q rot (ei_anchor_keys input) = Inr q1" "same_view tid p1 q1" by blast
    show ?thesis using Cons.IH [OF q1(2) p1(2)] q q1 rot by (simp add: muted)
  next
    case False
    then have "audit_streams env who vector input (idx + 1) streams p obs1 = Inr recs"
      using Cons.prems(2) by (auto simp: ts * split: option.splits if_splits)
    with Cons.IH [OF q(3) this] q False show ?thesis by (auto simp: muted split: option.splits)
  qed
qed

text \<open>C16: an audit replay attributes exactly.  When a replay completes, with or without a rotation of the library
  on the way, the records of a tenant are - in order, content and time - all the records of the replay in which
  the streams of every other tenant are empty; so no tenant's traffic adds, removes or changes a record of
  another, and every record carries the tenant whose stream caused it.\<close>

theorem audit_attribution:
  assumes "audit_streams env who vector input 0 streams (orchestrator_new lib start) [] = Inr recs"
  shows "audit_streams env who vector input 0 (mute tid streams) (orchestrator_new lib start) [] = Inr (own tid recs)"
  using audit_streams_mute [OF _ assms, of tid "orchestrator_new lib start"] by (simp add: same_view_def own_def)

text \<open>A rotation after a stream that does not exist is silently not done.\<close>

lemma late_rotation_ignored:
  "ai_rotate input = Some rot \<Longrightarrow> idx + length streams \<le> ro_after rot \<Longrightarrow>
   audit_streams env who vector input idx streams orch obs =
   audit_streams env who vector (input\<lparr>ai_rotate := None\<rparr>) idx streams orch obs"
  by (induction env who vector input idx streams orch obs rule: audit_streams.induct)
    (auto split: sum.split prod.split)

section \<open>The verdict on records\<close>

lemma records_verdict:
  "render_records_outcome env vector observed = Pass \<longleftrightarrow>
     (\<exists>expected. (case exp_output (v_expected vector) of Some v \<Rightarrow> an_expected_records env v | None \<Rightarrow> Inr []) = Inr expected \<and>
        (case exp_outcome (v_expected vector) of
           Accept \<Rightarrow> observed = [] \<and> expected = []
         | Reject \<Rightarrow> expected_code_of vector = ''aggregation-pattern-detected'' \<and> observed \<noteq> [] \<and>
             same_per_key record_sort_key (map from_observed observed) expected))"
  (is "_ \<longleftrightarrow> (\<exists>expected. ?decoded = Inr expected \<and> _ expected)")
  unfolding render_records_outcome_def records_match_outcome_def AGGREGATION_PATTERN_DETECTED_WIRE_def Let_def sort_key_eq_iff
  by (cases ?decoded; cases "exp_outcome (v_expected vector)") simp_all

lemma fires_verdict:
  "render_fires_outcome env vector fires = Pass \<longleftrightarrow>
     (\<exists>expected. (case exp_output (v_expected vector) of Some v \<Rightarrow> an_expected_fires env v | None \<Rightarrow> Inr []) = Inr expected \<and>
        (case exp_outcome (v_expected vector) of
           Accept \<Rightarrow> fires = [] \<and> expected = []
         | Reject \<Rightarrow> expected_code_of vector = ''anomaly-detected'' \<and> fires \<noteq> [] \<and>
             same_per_key fire_sort_key fires expected))"
  (is "_ \<longleftrightarrow> (\<exists>expected. ?decoded = Inr expected \<and> _ expected)")
  unfolding render_fires_outcome_def fires_match_outcome_def ANOMALY_DETECTED_WIRE_def Let_def sort_key_eq_iff
  by (cases ?decoded; cases "exp_outcome (v_expected vector)") simp_all

text \<open>The verdict on the records of a completed audit replay.  Expecting acceptance, nothing was observed and
  nothing is expected; expecting rejection, under the code for it, something was observed and for each tenant,
  pattern, mandate and rule the observed records are the expected ones in the same order.  The verdict on the
  fires of a detect vector is the same without the tenant.  This is finer than the multiset comparison the module
  documentation promises: records that agree on the sort key and differ elsewhere must come in the order of
  the run.\<close>

theorem verdict_iff:
  "(render_records_outcome env vector observed = Pass \<longleftrightarrow>
     (\<exists>expected. (case exp_output (v_expected vector) of Some v \<Rightarrow> an_expected_records env v | None \<Rightarrow> Inr []) = Inr expected \<and>
        (case exp_outcome (v_expected vector) of
           Accept \<Rightarrow> observed = [] \<and> expected = []
         | Reject \<Rightarrow> expected_code_of vector = ''aggregation-pattern-detected'' \<and> observed \<noteq> [] \<and>
             same_per_key record_sort_key (map from_observed observed) expected))) \<and>
   (render_fires_outcome env vector fires = Pass \<longleftrightarrow>
     (\<exists>expected. (case exp_output (v_expected vector) of Some v \<Rightarrow> an_expected_fires env v | None \<Rightarrow> Inr []) = Inr expected \<and>
        (case exp_outcome (v_expected vector) of
           Accept \<Rightarrow> fires = [] \<and> expected = []
         | Reject \<Rightarrow> expected_code_of vector = ''anomaly-detected'' \<and> fires \<noteq> [] \<and>
             same_per_key fire_sort_key fires expected)))"
  by (intro conjI records_verdict fires_verdict)

text \<open>Two orders of one multiset that do not compare equal: the same pattern before and after a rotation.\<close>

definition tied_record :: "nat \<Rightarrow> expected_record" where
  "tied_record n =
     \<lparr>er_tenant_id = ''t'', er_pattern_id = ''p'', er_library_version = n, er_severity = High,
      er_firing_rule = FirstMatch, er_match_scope = match_scope_default\<rparr>"

lemma not_a_multiset_comparison:
  "mset [tied_record 1, tied_record 2] = mset [tied_record 2, tied_record 1] \<and>
   \<not> same_per_key record_sort_key [tied_record 1, tied_record 2] [tied_record 2, tied_record 1]"
  by (auto simp: same_per_key_def tied_record_def record_sort_key_def)

section \<open>Concrete vectors\<close>

definition sample_envelope :: envelope_input where
  "sample_envelope =
     \<lparr>ei_cose_hex = ''E'',
      ei_anchor_keys = [\<lparr>tk_kid = ''k'', tk_alg = ''ed25519'', tk_pk_hex = replicate 32 (CHR ''x''), tk_role = None\<rparr>],
      ei_abi = 1, ei_now = ''now'', ei_pre_ledger = [(''lib'', 7)]\<rparr>"

definition sample_audit_input :: audit_input where
  "sample_audit_input =
     envelope_input.extend sample_envelope (audit_input.fields ''now'' [] None)"

definition sample_anomaly_env :: "(nat, string) anomaly_env" where
  "sample_anomaly_env =
     \<lparr>an_crypto = sample_env, an_decode_payload = \<lambda>b. Some sample_payload, an_rfc3339 = \<lambda>s. Inr 50,
      an_hex_error = \<lambda>s. [], an_debug_str = \<lambda>s. s, an_library_input = \<lambda>j. Inr sample_envelope,
      an_detect_input = \<lambda>j. Inl [], an_audit_input = \<lambda>j. Inr sample_audit_input,
      an_expected_fires = \<lambda>j. Inr [], an_expected_records = \<lambda>j. Inr []\<rparr>"

definition sample_vector :: "json vector" where
  "sample_vector =
     \<lparr>v_id = ''v'', v_category = [], v_description = [], v_input = JNull,
      v_expected = \<lparr>exp_outcome = Reject, exp_reject_code = Some ''pattern-library-version-too-old'', exp_output = None\<rparr>,
      v_rationale = [], v_redteam_refs = [], v_severity_if_failed = None\<rparr>"

lemma sample_opens: "opens sample_anomaly_env sample_envelope (Inl (LibraryVersionTooOld (sanitize_log_string ''lib'') 7 7))"
proof -
  have "build_anchor_set sample_env (ei_anchor_keys sample_envelope) AnomalyLibrarySigner = Inr sample_anchors"
    by (simp add: build_anchor_set_def sample_envelope_def anchor_of_def_def role_of_def_def eq_ignore_ascii_case_def
        new_ed25519_def anchor_set_insert_def sample_env_def sample_anchors_def)
  moreover have "pl_library_id sample_payload = ''lib''" "pl_library_version sample_payload = 7"
    by (simp_all add: sample_payload_def)
  moreover have "hex_decode sample_env ''E'' = Some ''E''" by (simp add: sample_env_def)
  moreover have "an_crypto sample_anomaly_env = sample_env" "an_decode_payload sample_anomaly_env = (\<lambda>b. Some sample_payload)"
    "an_rfc3339 sample_anomaly_env s = Inr 50" for s
    by (simp_all add: sample_anomaly_env_def)
  moreover have "ei_cose_hex sample_envelope = ''E''" "ei_abi sample_envelope = 1" "ei_pre_ledger sample_envelope = [(''lib'', 7)]"
    by (simp_all add: sample_envelope_def)
  ultimately show ?thesis
    unfolding opens_def
    by (intro exI [of _ sample_anchors] exI [of _ "''E''"] exI [of _ 50])
      (simp add: library_answer_def sample_verify_internal [unfolded One_nat_def])
qed

lemma library_pass_iff_witness: "library_execute sample_anomaly_env sample_vector = Pass"
proof -
  have "an_library_input sample_anomaly_env (v_input sample_vector) = Inr sample_envelope"
    "distinct (map fst (ei_pre_ledger sample_envelope))"
    by (simp_all add: sample_anomaly_env_def sample_envelope_def)
  from library_pass_iff [OF this] show ?thesis
    using sample_opens by (auto simp: sample_vector_def expected_code_of_def intro!: exI)
qed

lemma sample_new: "detector_new sample_library 100 = sample_state dedup_new"
  by (simp add: detector_new_def sample_state_def)

lemma sample_clock: "advance_clock (sample_state d) (timestamp (sample_event ''m'' 100)) = (Inr (), sample_state d)"
  by (simp add: advance_clock_def sample_state_def with_ledger_def sample_event_def)

lemma detect_fires_sound_witness: "[sample_fire ''m''] = stream_fires sample_library 100 [] [] [[sample_event ''m'' 100]]"
proof -
  have "detect_streams sample_anomaly_env 0 [Literal [sample_event ''m'' 100]] (detector_new sample_library 100) [] =
      Inr [sample_fire ''m'']"
    by (simp add: sample_new sample_clock sample_ingest sample_evaluate)
  moreover have "in_i64 100" "list_all stream_wf [Literal [sample_event ''m'' 100]]"
    by (simp_all add: in_i64_def arith_defs sample_event_def)
  ultimately show ?thesis
    using detect_fires_sound [OF sample_machine, of 100 "[Literal [sample_event ''m'' 100]]"]
    by (fastforce simp: list_all2_Cons1)
qed

lemma sample_observed:
  assumes "bm_get (orc_tenants orch) t = None" "orc_library orch = sample_library" "orc_initial_time orch = 100"
  shows "observe_event orch t (sample_event ''m'' 100) = (Inr (wrap_fires t 100 [sample_fire ''m'']), put_tenant orch t sample_fired)"
proof -
  have "tenant_state orch t = sample_state dedup_new" using assms by (simp add: tenant_state_def sample_new)
  moreover have "current_time sample_fired = 100" by (simp add: sample_fired_def sample_defs)
  ultimately show ?thesis
    by (simp add: observe_event_def observe_detector_def drain_detector_def sample_clock sample_ingest sample_evaluate)
qed

lemma audit_attribution_witness:
  "audit_streams sample_anomaly_env [] sample_vector sample_audit_input 0
      (mute ''t'' [(''u'', Literal [sample_event ''m'' 100]), (''t'', Literal [sample_event ''m'' 100])])
      (orchestrator_new sample_library 100) [] = Inr (wrap_fires ''t'' 100 [sample_fire ''m''])"
proof -
  have "audit_streams sample_anomaly_env [] sample_vector sample_audit_input 0
      [(''u'', Literal [sample_event ''m'' 100]), (''t'', Literal [sample_event ''m'' 100])]
      (orchestrator_new sample_library 100) [] =
      Inr (wrap_fires ''u'' 100 [sample_fire ''m''] @ wrap_fires ''t'' 100 [sample_fire ''m''])"
    by (simp add: sample_observed orchestrator_new_def sample_audit_input_def envelope_input.defs audit_input.defs)
  from audit_attribution [OF this, of "''t''"] show ?thesis by (simp add: own_def wrap_fires_def)
qed

end
