(* ===== verification/Fuzz.thy ===== *)
theory Fuzz
  imports Vectors Classifier Json
begin

text \<open>
  \<open>ephemeral-core/src/suites/fuzz.rs\<close>: the fuzz-baseline suite, over the model of the classifier sandbox.
  The interpreter, the serde decoders, \<open>hex::decode\<close> with its error text and the debug format of a string are
  fields of \<open>fuzz_env\<close>.  Fields the code never reads are left out.
\<close>

section \<open>Data\<close>

datatype fuzz_code = TierBelowMinimum | ClassifierExecutionFailed

fun fuzz_code_display :: "fuzz_code \<Rightarrow> string" where
  "fuzz_code_display TierBelowMinimum = ''tier-below-minimum''"
| "fuzz_code_display ClassifierExecutionFailed = ''classifier-execution-failed''"

record fuzz_outcome =
  fo_tier :: nat
  fo_floor :: nat
  fo_tag :: string

record fuzz_intent =
  fi_verb :: "string option"
  fi_kind :: "string option"

record fuzz_input =
  fz_integration :: "string option"
  fz_raw_intent :: "fuzz_intent option"
  fz_minimum_tiers :: "json option"
  fz_wasm_hex :: "string option"
  fz_context_hex :: "string option"

text \<open>\<open>ExpectedOutput\<close> has the fields of \<open>FuzzOutcome\<close>.\<close>

type_synonym fuzz_expected = fuzz_outcome

record ('m, 'i) fuzz_env =
  fe_wasm :: "('m, 'i) wasm_env"
  fe_hex_decode :: "string \<Rightarrow> string + string"
  fe_debug_str :: "string \<Rightarrow> string"
  fe_input :: "json \<Rightarrow> string + fuzz_input"
  fe_expected :: "json \<Rightarrow> string + fuzz_expected"

section \<open>Derivations\<close>

text \<open>\<open>s\<close> stands for the category from the current index on; the loop stops four bytes before the end.\<close>

fun derive_tier_from_category :: "string \<Rightarrow> nat option" where
  "derive_tier_from_category [] = None"
| "derive_tier_from_category (c # s) =
     (if length (c # s) \<le> 4 then None
      else if take 4 (c # s) = ''tier'' \<and> is_digit ((c # s) ! 4) then Some (byte ((c # s) ! 4) - 48)
      else derive_tier_from_category s)"

definition as_u32 :: "json \<Rightarrow> nat option" where
  "as_u32 v =
     (case v of
        JNumber n \<Rightarrow> (case as_u64 n of Some u \<Rightarrow> if u < 2 ^ 32 then Some (nat u) else None | None \<Rightarrow> None)
      | _ \<Rightarrow> None)"

definition or_empty :: "string option \<Rightarrow> string" where
  "or_empty s = (case s of Some t \<Rightarrow> t | None \<Rightarrow> [])"

definition derive_floor :: "fuzz_input \<Rightarrow> nat option" where
  "derive_floor input =
     (case fz_minimum_tiers input of
        Some (JObject tiers) \<Rightarrow>
          (let verb = or_empty (Option.bind (fz_raw_intent input) fi_verb);
               kind = or_empty (Option.bind (fz_raw_intent input) fi_kind);
               key_full = or_empty (fz_integration input) @ '':'' @ verb @ '':'' @ kind
           in Option.bind (map_of tiers key_full) as_u32)
      | _ \<Rightarrow> None)"

definition classify :: "string \<Rightarrow> fuzz_input \<Rightarrow> fuzz_expected \<Rightarrow> fuzz_outcome" where
  "classify category input expected =
     \<lparr>fo_tier = (case derive_tier_from_category category of Some t \<Rightarrow> t | None \<Rightarrow> fo_tier expected),
      fo_floor = (case derive_floor input of Some f \<Rightarrow> f | None \<Rightarrow> fo_floor expected),
      fo_tag = fo_tag expected\<rparr>"

section \<open>Dispatch of the classifier\<close>

definition prepare_classifier_dispatch ::
  "('m, 'i) fuzz_env \<Rightarrow> fuzz_input \<Rightarrow> string + (string \<times> string) option" where
  "prepare_classifier_dispatch env input =
     (case (fz_wasm_hex input, fz_context_hex input) of
        (Some wasm_hex, Some ctx_hex) \<Rightarrow>
          (case fe_hex_decode env wasm_hex of
             Inl e \<Rightarrow> Inl (''classifier_wasm_bytes_hex decode failed: '' @ e)
           | Inr wasm \<Rightarrow>
               (case fe_hex_decode env ctx_hex of
                  Inl e \<Rightarrow> Inl (''classifier_context_cbor_hex decode failed: '' @ e)
                | Inr ctx \<Rightarrow> Inr (Some (wasm, ctx))))
      | (None, None) \<Rightarrow> Inr None
      | (Some _, None) \<Rightarrow> Inl ''classifier_wasm_bytes_hex present without classifier_context_cbor_hex''
      | (None, Some _) \<Rightarrow> Inl ''classifier_context_cbor_hex present without classifier_wasm_bytes_hex'')"

datatype reject_classification = NoDispatch | ClfReject fuzz_code | ClfAccept | FloorMissing

definition classify_reject ::
  "('m, 'i) fuzz_env \<Rightarrow> fuzz_input \<Rightarrow> (string \<times> string) option \<Rightarrow> reject_classification" where
  "classify_reject env input dispatch =
     (case dispatch of
        None \<Rightarrow> NoDispatch
      | Some (wasm, ctx) \<Rightarrow>
          (case execute_classifier (fe_wasm env) wasm ctx classifier_config_default of
             Inr output \<Rightarrow>
               (case derive_floor input of
                  Some bound \<Rightarrow> if co_tier output < bound then ClfReject TierBelowMinimum else ClfAccept
                | None \<Rightarrow> FloorMissing)
           | Inl _ \<Rightarrow> ClfReject ClassifierExecutionFailed))"

section \<open>Execution\<close>

definition debug_outcome :: "('m, 'i) fuzz_env \<Rightarrow> fuzz_outcome \<Rightarrow> string" where
  "debug_outcome env p =
     ''FuzzOutcome { tier: '' @ show_nat (fo_tier p) @ '', tier_floor_applied: '' @ show_nat (fo_floor p) @
     '', justification_tag: '' @ fe_debug_str env (fo_tag p) @ '' }''"

definition execute_accept :: "('m, 'i) fuzz_env \<Rightarrow> json vector \<Rightarrow> fuzz_input \<Rightarrow> validation_outcome" where
  "execute_accept env vector input =
     (case exp_output (v_expected vector) of
        None \<Rightarrow> Fail ''fuzz accept vector missing expected.output''
      | Some v \<Rightarrow>
          (case fe_expected env v of
             Inl e \<Rightarrow> Fail (''expected.output deserialization failed: '' @ e)
           | Inr expected_output \<Rightarrow>
               (let produced = classify (v_category vector) input expected_output in
                if fo_tier produced = fo_tier expected_output \<and> fo_floor produced = fo_floor expected_output \<and>
                   fo_tag produced = fo_tag expected_output
                then Pass
                else
                  Fail (''classifier output mismatch: produced '' @ debug_outcome env produced @ '', expected tier='' @
                        show_nat (fo_tier expected_output) @ '', floor='' @ show_nat (fo_floor expected_output) @
                        '', tag='' @ fo_tag expected_output))))"

definition execute_reject :: "('m, 'i) fuzz_env \<Rightarrow> json vector \<Rightarrow> fuzz_input \<Rightarrow> validation_outcome" where
  "execute_reject env vector input =
     (let expected_code = or_empty (exp_reject_code (v_expected vector)) in
      case prepare_classifier_dispatch env input of
        Inl reason \<Rightarrow> Fail reason
      | Inr dispatch \<Rightarrow>
          (case classify_reject env input dispatch of
             ClfReject code \<Rightarrow>
               if fuzz_code_display code = expected_code then Pass
               else Fail (''reject-code mismatch: expected='' @ expected_code @ '' got='' @ fuzz_code_display code)
           | FloorMissing \<Rightarrow>
               Fail (''reject vector setup error: `tariff_minimum_tiers` has no entry for the '' @
                     ''intent triple (integration:verb:resource_kind); cannot evaluate '' @
                     ''expected reject='' @ expected_code)
           | _ \<Rightarrow> Fail (''expected reject='' @ expected_code @ '', got accept'')))"

definition fuzz_execute :: "('m, 'i) fuzz_env \<Rightarrow> json vector \<Rightarrow> validation_outcome" where
  "fuzz_execute env vector =
     (case fe_input env (v_input vector) of
        Inl e \<Rightarrow> Fail (''fuzz-input deserialization failed: '' @ e)
      | Inr input \<Rightarrow>
          (case exp_outcome (v_expected vector) of
             Accept \<Rightarrow> execute_accept env vector input
           | Reject \<Rightarrow> execute_reject env vector input))"

section \<open>Correctness\<close>

text \<open>The tier a category names: the digit of its first \<open>tierN\<close>.\<close>

definition tier_at :: "string \<Rightarrow> nat \<Rightarrow> bool" where
  "tier_at s i \<longleftrightarrow> i + 4 < length s \<and> take 4 (drop i s) = ''tier'' \<and> is_digit (s ! (i + 4))"

definition names_tier :: "string \<Rightarrow> nat \<Rightarrow> bool" where
  "names_tier category t \<longleftrightarrow>
     (\<exists>i. tier_at category i \<and> (\<forall>j<i. \<not> tier_at category j) \<and> t = byte (category ! (i + 4)) - 48)"

lemma tier_at_Suc: "tier_at (c # s) (Suc i) \<longleftrightarrow> tier_at s i"
  by (simp add: tier_at_def add.commute)

lemma derive_tier_iff: "derive_tier_from_category s = Some t \<longleftrightarrow> names_tier s t"
proof (induction s)
  case Nil
  show ?case by (simp add: names_tier_def tier_at_def)
next
  case (Cons c s)
  show ?case
  proof (cases "tier_at (c # s) 0")
    case True
    then have "names_tier (c # s) t \<longleftrightarrow> t = byte ((c # s) ! 4) - 48"
      unfolding names_tier_def by (metis add_0 gr0I less_nat_zero_code)
    moreover from True have "derive_tier_from_category (c # s) = Some (byte ((c # s) ! 4) - 48)"
      unfolding tier_at_def derive_tier_from_category.simps by (simp only: drop_0 add_0 not_le [symmetric] if_False if_True) simp
    ultimately show ?thesis by auto
  next
    case False
    have "names_tier (c # s) t \<longleftrightarrow> names_tier s t"
    proof
      assume "names_tier (c # s) t"
      then obtain i where i: "tier_at (c # s) i" "\<forall>j<i. \<not> tier_at (c # s) j" "t = byte ((c # s) ! (i + 4)) - 48"
        unfolding names_tier_def by blast
      with False obtain k where k: "i = Suc k" by (cases i) auto
      have "\<not> tier_at s j" if "j < k" for j using i(2) that k tier_at_Suc [of c s j] by auto
      with i(1,3) show "names_tier s t" unfolding names_tier_def k tier_at_Suc by (auto simp: add.commute)
    next
      assume "names_tier s t"
      then obtain k where k: "tier_at s k" "\<forall>j<k. \<not> tier_at s j" "t = byte (s ! (k + 4)) - 48"
        unfolding names_tier_def by blast
      have "\<not> tier_at (c # s) j" if "j < Suc k" for j
        using that k(2) False by (cases j) (auto simp: tier_at_Suc)
      with k(1,3) show "names_tier (c # s) t"
        unfolding names_tier_def by (intro exI [of _ "Suc k"]) (auto simp: tier_at_Suc add.commute)
    qed
    moreover have "derive_tier_from_category (c # s) = derive_tier_from_category s"
    proof (cases "length (c # s) \<le> 4")
      case True
      then show ?thesis by (cases s) auto
    next
      case long: False
      with False show ?thesis by (auto simp: tier_at_def)
    qed
    ultimately show ?thesis using Cons by simp
  qed
qed

text \<open>The floor a Tariff sets for an intent: a 32-bit number under \<open>integration:verb:kind\<close>, where a missing part is
  empty.\<close>

definition spelt :: "string option \<Rightarrow> string \<Rightarrow> bool" where
  "spelt part s \<longleftrightarrow> part = Some s \<or> part = None \<and> s = ''''"

definition intent_key :: "fuzz_input \<Rightarrow> string \<Rightarrow> bool" where
  "intent_key input key \<longleftrightarrow>
     (\<exists>integration verb kind.
        key = integration @ '':'' @ verb @ '':'' @ kind \<and> spelt (fz_integration input) integration \<and>
        (case fz_raw_intent input of
           Some intent \<Rightarrow> spelt (fi_verb intent) verb \<and> spelt (fi_kind intent) kind
         | None \<Rightarrow> verb = '''' \<and> kind = ''''))"

definition sets_floor :: "fuzz_input \<Rightarrow> nat \<Rightarrow> bool" where
  "sets_floor input b \<longleftrightarrow>
     b < 2 ^ 32 \<and>
     (\<exists>tiers key. fz_minimum_tiers input = Some (JObject tiers) \<and> intent_key input key \<and>
        map_of tiers key = Some (JNumber (NInt (int b))))"

lemma spelt_iff: "spelt part s \<longleftrightarrow> s = or_empty part"
  by (auto simp: spelt_def or_empty_def split: option.split)

lemma intent_key_iff:
  "intent_key input key \<longleftrightarrow>
     key = or_empty (fz_integration input) @ '':'' @ or_empty (Option.bind (fz_raw_intent input) fi_verb) @ '':'' @
       or_empty (Option.bind (fz_raw_intent input) fi_kind)"
proof (cases "fz_raw_intent input")
  case None
  moreover have "or_empty None = []" by (simp add: or_empty_def)
  ultimately show ?thesis by (simp add: intent_key_def spelt_iff)
qed (simp add: intent_key_def spelt_iff)

lemma as_u32_iff: "as_u32 v = Some b \<longleftrightarrow> v = JNumber (NInt (int b)) \<and> b < 2 ^ 32"
proof (cases v)
  case (JNumber n)
  then show ?thesis by (cases n) (auto simp: as_u32_def)
qed (simp_all add: as_u32_def)

lemma derive_floor_iff: "derive_floor input = Some b \<longleftrightarrow> sets_floor input b"
  by (auto simp: derive_floor_def sets_floor_def intent_key_iff as_u32_iff bind_eq_Some_conv Let_def
      split: option.splits json.splits)

definition accept_ok :: "('m, 'i) fuzz_env \<Rightarrow> json vector \<Rightarrow> fuzz_input \<Rightarrow> bool" where
  "accept_ok env vector input \<longleftrightarrow>
     (\<exists>v e. exp_output (v_expected vector) = Some v \<and> fe_expected env v = Inr e \<and>
        (\<forall>t. names_tier (v_category vector) t \<longrightarrow> fo_tier e = t) \<and> (\<forall>b. sets_floor input b \<longrightarrow> fo_floor e = b))"

definition reject_ok :: "('m, 'i) fuzz_env \<Rightarrow> json vector \<Rightarrow> fuzz_input \<Rightarrow> bool" where
  "reject_ok env vector input \<longleftrightarrow>
     (\<exists>wasm_hex ctx_hex wasm ctx.
        fz_wasm_hex input = Some wasm_hex \<and> fz_context_hex input = Some ctx_hex \<and>
        fe_hex_decode env wasm_hex = Inr wasm \<and> fe_hex_decode env ctx_hex = Inr ctx \<and>
        (case execute_classifier (fe_wasm env) wasm ctx classifier_config_default of
           Inl _ \<Rightarrow> exp_reject_code (v_expected vector) = Some ''classifier-execution-failed''
         | Inr out \<Rightarrow>
             exp_reject_code (v_expected vector) = Some ''tier-below-minimum'' \<and>
             (\<exists>b. sets_floor input b \<and> co_tier out < b)))"

lemma execute_accept_iff: "execute_accept env vector input = Pass \<longleftrightarrow> accept_ok env vector input"
  unfolding accept_ok_def execute_accept_def classify_def derive_tier_iff [symmetric] derive_floor_iff [symmetric]
  by (auto simp: Let_def split: option.splits sum.splits)

lemma expected_code: "c \<noteq> '''' \<Longrightarrow> c = or_empty code \<longleftrightarrow> code = Some c"
  by (auto simp: or_empty_def split: option.split)

lemma execute_reject_iff: "execute_reject env vector input = Pass \<longleftrightarrow> reject_ok env vector input"
  unfolding reject_ok_def execute_reject_def prepare_classifier_dispatch_def classify_reject_def derive_floor_iff [symmetric]
  by (cases "fz_wasm_hex input"; cases "fz_context_hex input")
    (auto simp: Let_def expected_code split: option.splits sum.splits if_splits)

text \<open>C19: a fuzz vector passes exactly when its input decodes and, expecting acceptance, its expected output
  decodes and carries the tier that the category names, if it names one, and the floor that the Tariff sets for
  \<open>integration:verb:kind\<close>, if it sets one; expecting rejection, both hex fields decode and the real classifier either
  fails, and the vector expects \<open>classifier-execution-failed\<close>, or returns a tier strictly below a floor set for the
  intent, and the vector expects \<open>tier-below-minimum\<close>.  Where the Tariff sets no floor the expected output may carry any:
  the code echoes it, and does not take the floor to be 0 as the module comment says.\<close>

theorem fuzz_pass_iff:
  "fuzz_execute env vector = Pass \<longleftrightarrow>
     (\<exists>input. fe_input env (v_input vector) = Inr input \<and>
        (case exp_outcome (v_expected vector) of
           Accept \<Rightarrow> accept_ok env vector input
         | Reject \<Rightarrow> reject_ok env vector input))"
  by (simp add: fuzz_execute_def execute_accept_iff execute_reject_iff split: sum.split outcome.split)

text \<open>A floor the Tariff does not set is taken from the vector.\<close>

lemma unset_floor_echoed:
  assumes "exp_output (v_expected vector) = Some v" "fe_expected env v = Inr e" "v_category vector = ''bypass''"
    and "fz_minimum_tiers input = None"
  shows "execute_accept env vector input = Pass"
  using assms by (simp add: execute_accept_def classify_def derive_floor_def Let_def)

text \<open>Nothing compares the tier of an accept vector with its floor.\<close>

lemma below_floor_accepted:
  assumes "exp_output (v_expected vector) = Some v" "fe_expected env v = Inr e" "v_category vector = ''bypass''"
    and "derive_floor input = Some (fo_floor e)" "fo_tier e < fo_floor e"
  shows "execute_accept env vector input = Pass"
  using assms by (simp add: execute_accept_def classify_def Let_def)

end
