(* ===== verification/Validator.thy ===== *)
theory Validator
  imports Runner Delegation Canon Fuzz Tariff Pcr Anomaly_Suites
begin

text \<open>
  The validator as a whole: the dispatch of \<open>runner.rs\<close> over the models of the eight suite executors.  The record
  gathers the parameters of the suites.
\<close>

section \<open>Dispatch\<close>

record ('pk, 'sig, 'vk, 'nsig, 'm, 'i) suite_params =
  sp_canon :: canon_env
  sp_crypto :: "('pk, 'sig) crypto_env"
  sp_delegation_input :: "json \<Rightarrow> string + delegation_input"
  sp_fuzz :: "('m, 'i) fuzz_env"
  sp_tariff :: "('pk, 'sig) tariff_env"
  sp_tariff_input :: "json \<Rightarrow> string + tariff_input"
  sp_pcr :: "('pk, 'sig, 'vk, 'nsig) pcr_env"
  sp_anomaly :: "('pk, 'sig) anomaly_env"

definition suite_executors :: "('pk, 'sig, 'vk, 'nsig, 'm, 'i) suite_params \<Rightarrow> json executors" where
  "suite_executors p s vector =
     (case s of
        Canonicalization \<Rightarrow> canon_execute (sp_canon p) vector
      | DelegationScope \<Rightarrow> delegation_execute (sp_crypto p) (sp_delegation_input p) vector
      | FuzzBaseline \<Rightarrow> fuzz_execute (sp_fuzz p) vector
      | TariffReject \<Rightarrow> tariff_execute (sp_tariff p) (sp_tariff_input p) vector
      | PcrAttestationReject \<Rightarrow> pcr_execute (sp_pcr p) vector
      | AuditReplay \<Rightarrow> audit_execute (sp_anomaly p) vector
      | AnomalyLibraryReject \<Rightarrow> library_execute (sp_anomaly p) vector
      | AnomalyDetect \<Rightarrow> detect_execute (sp_anomaly p) vector)"

section \<open>Every executor answers\<close>

fun is_verdict :: "validation_outcome \<Rightarrow> bool" where
  "is_verdict Pass \<longleftrightarrow> True"
| "is_verdict (Fail _) \<longleftrightarrow> True"
| "is_verdict _ \<longleftrightarrow> False"

lemma canon_verdict: "is_verdict (canon_execute env vector)"
proof -
  have acc: "is_verdict (verify_acceptance vector c)" for c
    by (simp add: verify_acceptance_def Let_def split: outcome.split option.split sum.split)
  have rej: "is_verdict (verify_rejection env vector code)" for code
    by (simp add: verify_rejection_def Let_def split: outcome.split)
  have cmp: "is_verdict (execute_compare env vector)"
    unfolding execute_compare_def Let_def by (auto simp: acc split: option.split outcome.split sum.split bool.split)
  show ?thesis unfolding canon_execute_def
    by (auto simp: acc rej cmp split: sum.split option.split)
qed

lemma delegation_verdict: "is_verdict (delegation_execute env from_value vector)"
  by (simp add: delegation_execute_def Let_def split: sum.split outcome.split)

lemma fuzz_verdict: "is_verdict (fuzz_execute env vector)"
proof -
  have "is_verdict (execute_accept env vector input)" for input
    by (simp add: execute_accept_def Let_def split: sum.split option.split)
  moreover have "is_verdict (execute_reject env vector input)" for input
    by (simp add: execute_reject_def Let_def split: sum.split reject_classification.split)
  ultimately show ?thesis by (simp add: fuzz_execute_def split: sum.split outcome.split)
qed

lemma tariff_verdict: "is_verdict (tariff_execute env from_value vector)"
  by (simp add: tariff_execute_def tariff_render_outcome_def Let_def split: sum.split outcome.split)

lemma pcr_verdict: "is_verdict (pcr_execute env vector)"
  by (simp add: pcr_execute_def execute_live_nitro_def reject_verdict_def Let_def split: sum.split outcome.split option.split)

lemma open_library_verdict: "open_library env who input = Inl failure \<Longrightarrow> is_verdict failure"
  by (auto simp: open_library_def split: sum.splits option.splits)

lemma library_verdict: "is_verdict (library_execute env vector)"
  by (auto simp: library_execute_def render_outcome_def Let_def dest: open_library_verdict split: sum.split outcome.split)

lemma stream_verdict: "is_verdict (stream_error_outcome who wire vector refusal)"
  by (simp add: stream_error_outcome_def Let_def split: prod.split outcome.split)

lemma detect_verdict: "is_verdict (detect_execute env vector)"
proof -
  have "is_verdict (render_fires_outcome env vector fires)" for fires
    by (simp add: render_fires_outcome_def fires_match_outcome_def Let_def split: sum.split outcome.split)
  then show ?thesis
    by (auto simp: detect_execute_def Let_def stream_verdict dest: open_library_verdict split: sum.split)
qed

lemma rotation_verdict: "apply_rotation env who orch rot defs = Inl failure \<Longrightarrow> is_verdict failure"
  by (auto simp: apply_rotation_def split: sum.splits option.splits)

lemma audit_streams_verdict:
  "audit_streams env who vector input idx streams orch observed = Inl verdict \<Longrightarrow> is_verdict verdict"
proof (induction streams arbitrary: idx orch observed)
  case (Cons ts streams)
  obtain t stream where ts: "ts = (t, stream)" by (cases ts)
  from Cons.prems show ?case
    by (auto simp: ts stream_verdict split: sum.splits option.splits prod.splits if_splits
        dest: rotation_verdict intro: Cons.IH)
qed simp

lemma audit_verdict: "is_verdict (audit_execute env vector)"
proof -
  have "is_verdict (render_records_outcome env vector observed)" for observed
    by (simp add: render_records_outcome_def records_match_outcome_def Let_def split: sum.split outcome.split)
  then show ?thesis
    by (auto simp: audit_execute_def Let_def dest: open_library_verdict audit_streams_verdict split: sum.split)
qed

lemma executors_verdict: "is_verdict (suite_executors p s vector)"
  by (cases s)
    (simp_all only: suite_executors_def vector_suite.case canon_verdict delegation_verdict fuzz_verdict tariff_verdict
      pcr_verdict audit_verdict library_verdict detect_verdict)

text \<open>So in a report the errors count files that did not load or did not meet the schema, and the skips count vectors of
  filtered files: no suite is left out, although the comment of \<open>suites/mod.rs\<close> still lists four that are.\<close>

section \<open>The whole validator\<close>

definition file_accepted ::
  "('pk, 'sig, 'vk, 'nsig, 'm, 'i) suite_params \<Rightarrow> json harness_env \<Rightarrow> json run_config \<Rightarrow> string \<Rightarrow> bool" where
  "file_accepted p env config path \<longleftrightarrow>
     (\<exists>loaded. load_suite_file env path = Inr loaded \<and>
        ((rc_suite_filter config \<noteq> [] \<and> sf_vector_suite (ls_parsed loaded) \<notin> set (rc_suite_filter config)) \<or>
         (cs_iter_errors (rc_schema config) (ls_raw loaded) = [] \<and>
          list_all (\<lambda>v. suite_executors p (sf_vector_suite (ls_parsed loaded)) v = Pass) (sf_vectors (ls_parsed loaded)))))"

lemma not_failing: "is_verdict x \<Longrightarrow> \<not> failing x \<longleftrightarrow> x = Pass"
  by (cases x) (simp_all add: failing_def)

lemma validator_clean_files:
  "is_clean (run_many env (suite_executors p) paths config) \<longleftrightarrow> list_all (file_accepted p env config) paths"
proof -
  have "file_clean env (suite_executors p) config path \<longleftrightarrow> file_accepted p env config path" for path
    unfolding file_clean_def file_accepted_def not_failing [OF executors_verdict]
    by (auto simp: Let_def split: sum.split)
  then show ?thesis unfolding clean_run by (simp cong: list.pred_cong)
qed

text \<open>The exit status of the validator, over the eight suites as they are.  A run is clean exactly when every given
  file loads and is either filtered out by suite or meets the schema with every vector answered \<open>Pass\<close> by the
  executor of its suite.\<close>

theorem validator_clean_iff:
  "is_clean (run_many env (suite_executors p) paths config) \<longleftrightarrow> list_all (file_accepted p env config) paths"
  by (rule validator_clean_files)

end
