(* ===== verification/Cli.thy ===== *)
theory Cli
  imports Validator
begin

text \<open>
  \<open>ephemeral-cli/src/main.rs\<close>: the command line of the validator.  \<open>clap\<close>'s parser is not modelled - the record
  \<open>cli\<close> is what it returns - and the file system, \<open>serde_json\<close> and \<open>jsonschema\<close> are the environment.  A run gives
  the sequence of its effects (lines printed, the report written) and its result; \<open>main_exit\<close> turns the
  result into the exit status.  Paths are UTF-8 strings, so \<open>display\<close> is the identity.  The summaries' \<open>u32\<close>
  counters are natural numbers here: they agree with the code while fewer than \<open>2 ^ 32\<close> vectors are counted.
\<close>

section \<open>The command line\<close>

datatype suite_arg =
    ArgDelegationScope | ArgCanonicalization | ArgFuzzBaseline | ArgTariffReject | ArgPcrAttestationReject
  | ArgAuditReplay

fun suite_of_arg :: "suite_arg \<Rightarrow> vector_suite" where
  "suite_of_arg ArgDelegationScope = DelegationScope"
| "suite_of_arg ArgCanonicalization = Canonicalization"
| "suite_of_arg ArgFuzzBaseline = FuzzBaseline"
| "suite_of_arg ArgTariffReject = TariffReject"
| "suite_of_arg ArgPcrAttestationReject = PcrAttestationReject"
| "suite_of_arg ArgAuditReplay = AuditReplay"

record cli =
  cli_inputs :: "string list"
  cli_schema :: string
  cli_conformance_dir :: string
  cli_suite :: "suite_arg list"
  cli_fuzz_corpus :: "string option"
  cli_verbose :: bool
  cli_json_report :: "string option"

record cli_env =
  ce_harness :: "json harness_env"
  ce_exists :: "string \<Rightarrow> bool"
  ce_to_vec_pretty :: "json \<Rightarrow> string option"
  ce_write :: "string \<Rightarrow> string \<Rightarrow> bool"

definition RUN_SESSION_TAG :: string where
  "RUN_SESSION_TAG = ''session-2-canonicalization-delegation''"

section \<open>Scanning the vectors\<close>

fun contains_cose_sign1 :: "json \<Rightarrow> bool" where
  "contains_cose_sign1 (JObject kvs) \<longleftrightarrow>
     (if Option.bind (map_of kvs ''cose_sign1_bytes'') as_str \<noteq> None then True
      else list_ex (\<lambda>kv. contains_cose_sign1 (snd kv)) kvs)"
| "contains_cose_sign1 (JArray items) \<longleftrightarrow> list_ex contains_cose_sign1 items"
| "contains_cose_sign1 _ \<longleftrightarrow> False"

fun contains_mock_signature :: "json \<Rightarrow> bool" where
  "contains_mock_signature (JObject kvs) \<longleftrightarrow>
     (if map_of kvs ''signature_valid'' \<noteq> None \<or> map_of kvs ''signed_by'' \<noteq> None \<or>
         map_of kvs ''signature_verification_context'' \<noteq> None
      then True
      else list_ex (\<lambda>kv. contains_mock_signature (snd kv)) kvs)"
| "contains_mock_signature (JArray items) \<longleftrightarrow> list_ex contains_mock_signature items"
| "contains_mock_signature _ \<longleftrightarrow> False"

section \<open>Summaries\<close>

record mode_summary =
  ms_mode :: string
  ms_live :: nat
  ms_mock :: nat

text \<open>The file loop the three summaries share: a file that cannot be read or parsed is passed over, and
  \<open>vectors\<close> must be an array.\<close>

definition vectors_of :: "json \<Rightarrow> json list option" where
  "vectors_of v = Option.bind (json_get v ''vectors'') as_array"

definition readable_document :: "cli_env \<Rightarrow> string \<Rightarrow> json option" where
  "readable_document env path =
     Option.bind (fs_read (ce_harness env) path) (json_from_slice (ce_harness env))"

definition count_crypto :: "json \<Rightarrow> nat \<times> nat \<Rightarrow> nat \<times> nat" where
  "count_crypto vec lm =
     (case json_get vec ''input'' of
        None \<Rightarrow> lm
      | Some input \<Rightarrow>
          let has_live = contains_cose_sign1 input; has_mock = contains_mock_signature input in
          if has_live then (fst lm + 1, snd lm)
          else if has_mock then (fst lm, snd lm + 1)
          else lm)"

definition summarize_crypto :: "cli_env \<Rightarrow> string list \<Rightarrow> mode_summary" where
  "summarize_crypto env inputs =
     (let (live, mocked) =
        foldl (\<lambda>lm path.
          case readable_document env path of
            None \<Rightarrow> lm
          | Some v \<Rightarrow>
              (case vectors_of v of
                 None \<Rightarrow> lm
               | Some vectors \<Rightarrow> foldl (\<lambda>lm vec. count_crypto vec lm) lm vectors)) (0, 0) inputs
      in \<lparr>ms_mode =
            (if live = 0 \<and> mocked = 0 then ''none''
             else if mocked = 0 then ''live''
             else if live = 0 then ''mocked''
             else ''mixed''),
          ms_live = live, ms_mock = mocked\<rparr>)"

definition is_pcr_document :: "json \<Rightarrow> bool" where
  "is_pcr_document v \<longleftrightarrow> Option.bind (json_get v ''vector_suite'') as_str = Some ''pcr-attestation-reject''"

definition count_attestation :: "json \<Rightarrow> nat \<times> nat \<Rightarrow> nat \<times> nat" where
  "count_attestation vec lm =
     (case json_get vec ''input'' of
        None \<Rightarrow> lm
      | Some input \<Rightarrow> if contains_cose_sign1 input then (fst lm + 1, snd lm) else (fst lm, snd lm + 1))"

definition count_transparency :: "json \<Rightarrow> nat \<times> nat \<Rightarrow> nat \<times> nat" where
  "count_transparency vec lm =
     (case Option.bind (Option.bind (json_get vec ''input'') (\<lambda>i. json_get i ''attestation_bundle''))
             (\<lambda>b. json_get b ''transparency_log_proof'') of
        None \<Rightarrow> lm
      | Some prf \<Rightarrow> if is_live_rekor_proof prf then (fst lm + 1, snd lm) else (fst lm, snd lm + 1))"

definition pcr_summary :: "(json \<Rightarrow> nat \<times> nat \<Rightarrow> nat \<times> nat) \<Rightarrow> cli_env \<Rightarrow> string list \<Rightarrow> mode_summary" where
  "pcr_summary step env inputs =
     (let (live, mock) =
        foldl (\<lambda>lm path.
          case readable_document env path of
            None \<Rightarrow> lm
          | Some v \<Rightarrow>
              if \<not> is_pcr_document v then lm
              else
                (case vectors_of v of
                   None \<Rightarrow> lm
                 | Some vectors \<Rightarrow> foldl (\<lambda>lm vec. step vec lm) lm vectors)) (0, 0) inputs
      in \<lparr>ms_mode =
            (if live = 0 \<and> mock = 0 then ''none''
             else if mock = 0 then ''live''
             else if live = 0 then ''mock''
             else ''mixed''),
          ms_live = live, ms_mock = mock\<rparr>)"

definition summarize_attestation :: "cli_env \<Rightarrow> string list \<Rightarrow> mode_summary" where
  "summarize_attestation = pcr_summary count_attestation"

definition summarize_transparency :: "cli_env \<Rightarrow> string list \<Rightarrow> mode_summary" where
  "summarize_transparency = pcr_summary count_transparency"

section \<open>Default inputs\<close>

definition DEFAULT_NAMES :: "string list" where
  "DEFAULT_NAMES =
     [''canonicalization.json'', ''delegation-scope.json'', ''fuzz-baseline.json'', ''tariff-reject.json'',
      ''pcr-attestation-reject.json'', ''pcr-attestation-reject-c2-live.json'',
      ''pcr-attestation-reject-c2-5-rekor.json'', ''audit-replay.json'', ''anomaly-library-reject.json'',
      ''anomaly-detect.json'']"

text \<open>\<open>Path::join\<close> with a relative name.\<close>

definition path_join :: "string \<Rightarrow> string \<Rightarrow> string" where
  "path_join dir n = (if dir = [] \<or> last dir = CHR ''/'' then dir @ n else dir @ ''/'' @ n)"

definition default_inputs :: "cli_env \<Rightarrow> string \<Rightarrow> string list" where
  "default_inputs env dir = filter (ce_exists env) (map (path_join dir) DEFAULT_NAMES)"

section \<open>Reports\<close>

definition show_bool :: "bool \<Rightarrow> string" where
  "show_bool b = (if b then ''true'' else ''false'')"

definition pad_right :: "nat \<Rightarrow> string \<Rightarrow> string" where
  "pad_right w s = s @ replicate (w - length s) (CHR '' '')"

definition suite_line :: "vector_suite \<Rightarrow> suite_report \<Rightarrow> string" where
  "suite_line suite sr =
     ''  '' @ pad_right 22 (suite_as_str suite) @ '' schema='' @
     (case sr_schema_ok sr of Some True \<Rightarrow> ''ok    '' | Some False \<Rightarrow> ''FAIL  '' | None \<Rightarrow> ''nocheck'') @
     '' pass='' @ show_nat (sr_pass sr) @ '' fail='' @ show_nat (sr_fail sr) @ '' error='' @ show_nat (sr_error sr) @
     '' skipped='' @ show_nat (sr_skipped sr) @ '' file='' @ sr_file sr"

definition failure_line :: "vector_failure \<Rightarrow> string" where
  "failure_line f = ''    - ['' @ vf_category f @ ''] '' @ vf_vector_id f @ '': '' @ vf_reason f"

definition print_report ::
  "test_report \<Rightarrow> mode_summary \<Rightarrow> mode_summary \<Rightarrow> mode_summary \<Rightarrow> bool \<Rightarrow> string list" where
  "print_report report crypto attestation transparency verbose =
     [''EPHEMERAL reference validator '' @ [CHR 0xE2, CHR 0x80, CHR 0x94] @ '' conformance report'',
      replicate 56 (CHR ''='')] @
     concat (map (\<lambda>(suite, sr). suite_line suite sr # (if verbose then map failure_line (sr_failures sr) else [])) report) @
     [replicate 56 (CHR ''-''),
      ''  totals: pass='' @ show_nat (total_pass report) @ '' fail='' @ show_nat (total_failing report) @
        '' skipped='' @ show_nat (total_skipped report) @ '' clean='' @ show_bool (is_clean report),
      ''  crypto: mode='' @ ms_mode crypto @ '' live='' @ show_nat (ms_live crypto) @ '' mocked='' @ show_nat (ms_mock crypto),
      ''  attestation: mode='' @ ms_mode attestation @ '' live='' @ show_nat (ms_live attestation) @ '' mock='' @
        show_nat (ms_mock attestation),
      ''  transparency: mode='' @ ms_mode transparency @ '' live='' @ show_nat (ms_live transparency) @ '' mock='' @
        show_nat (ms_mock transparency)]"

definition jnat :: "nat \<Rightarrow> json" where "jnat n = JNumber (NInt (int n))"

definition json_mode :: "string \<Rightarrow> mode_summary \<Rightarrow> json" where
  "json_mode mock_key s =
     JObject [(''mode'', JString (ms_mode s)), (''live'', jnat (ms_live s)), (mock_key, jnat (ms_mock s))]"

fun severity_lowercase :: "severity_level \<Rightarrow> string" where
  "severity_lowercase SevLow = ''low''"
| "severity_lowercase SevMedium = ''medium''"
| "severity_lowercase SevHigh = ''high''"
| "severity_lowercase SevCritical = ''critical''"

definition json_failure :: "vector_failure \<Rightarrow> json" where
  "json_failure f =
     JObject
       [(''vector_id'', JString (vf_vector_id f)), (''category'', JString (vf_category f)),
        (''severity'', case vf_severity f of None \<Rightarrow> JNull | Some s \<Rightarrow> JString (severity_lowercase s)),
        (''reason'', JString (vf_reason f))]"

definition json_suite :: "vector_suite \<Rightarrow> suite_report \<Rightarrow> json" where
  "json_suite s sr =
     JObject
       [(''suite'', JString (suite_as_str s)), (''file'', JString (sr_file sr)),
        (''schema_ok'', case sr_schema_ok sr of None \<Rightarrow> JNull | Some b \<Rightarrow> JBool b),
        (''pass'', jnat (sr_pass sr)), (''fail'', jnat (sr_fail sr)), (''error'', jnat (sr_error sr)),
        (''skipped'', jnat (sr_skipped sr)), (''failures'', JArray (map json_failure (sr_failures sr)))]"

definition report_json ::
  "test_report \<Rightarrow> mode_summary \<Rightarrow> mode_summary \<Rightarrow> mode_summary \<Rightarrow> string list \<Rightarrow> json" where
  "report_json report crypto attestation transparency inputs =
     JObject
       [(''session'', JString RUN_SESSION_TAG), (''clean'', JBool (is_clean report)),
        (''totals'', JObject [(''pass'', jnat (total_pass report)), (''failing'', jnat (total_failing report)),
           (''skipped'', jnat (total_skipped report))]),
        (''crypto'', json_mode ''mocked'' crypto), (''attestation'', json_mode ''mock'' attestation),
        (''transparency'', json_mode ''mock'' transparency), (''inputs'', JArray (map JString inputs)),
        (''suites'', JArray (map (\<lambda>(s, sr). json_suite s sr) report))]"

section \<open>A run\<close>

datatype cli_error =
    LoadingSchema string schema_error
  | NoInputFiles string
  | WritingReport string

datatype cli_effect = Out string | Err string | Wrote string string

definition write_json_report ::
  "cli_env \<Rightarrow> string \<Rightarrow> test_report \<Rightarrow> mode_summary \<Rightarrow> mode_summary \<Rightarrow> mode_summary \<Rightarrow> string list \<Rightarrow> string option" where
  "write_json_report env out report crypto attestation transparency inputs =
     (case ce_to_vec_pretty env (report_json report crypto attestation transparency inputs) of
        None \<Rightarrow> None
      | Some bytes \<Rightarrow> if ce_write env out bytes then Some bytes else None)"

definition cli_run :: "cli_env \<Rightarrow> json executors \<Rightarrow> cli \<Rightarrow> cli_effect list \<times> (cli_error + bool)" where
  "cli_run env execs args =
     (case schema_load (ce_harness env) (cli_schema args) of
        Inl e \<Rightarrow> ([], Inl (LoadingSchema (cli_schema args) e))
      | Inr schema \<Rightarrow>
          let inputs = (if cli_inputs args = [] then default_inputs env (cli_conformance_dir args) else cli_inputs args)
          in
          if inputs = [] then ([], Inl (NoInputFiles (cli_conformance_dir args)))
          else
            let note =
                  (case cli_fuzz_corpus args of
                     None \<Rightarrow> []
                   | Some dir \<Rightarrow> [Err (''note: --fuzz-corpus '' @ dir @
                       '' accepted but fuzz_runner is a Session-3 deliverable'')]);
                config = \<lparr>rc_schema = schema, rc_suite_filter = map suite_of_arg (cli_suite args),
                  rc_verbose = cli_verbose args\<rparr>;
                report = run_many (ce_harness env) execs inputs config;
                crypto = summarize_crypto env inputs;
                attestation = summarize_attestation env inputs;
                transparency = summarize_transparency env inputs;
                printed = note @ map Out (print_report report crypto attestation transparency (cli_verbose args))
            in
              (case cli_json_report args of
                 None \<Rightarrow> (printed, Inr (is_clean report))
               | Some out \<Rightarrow>
                   (case write_json_report env out report crypto attestation transparency inputs of
                      None \<Rightarrow> (printed, Inl (WritingReport out))
                    | Some bytes \<Rightarrow> (printed @ [Wrote out bytes], Inr (is_clean report)))))"

definition main_exit :: "cli_error + bool \<Rightarrow> nat" where
  "main_exit r = (case r of Inr True \<Rightarrow> 0 | Inr False \<Rightarrow> 1 | Inl _ \<Rightarrow> 2)"

section \<open>The exit status\<close>

definition cli_selected :: "cli_env \<Rightarrow> cli \<Rightarrow> string list" where
  "cli_selected env args =
     (if cli_inputs args = [] then default_inputs env (cli_conformance_dir args) else cli_inputs args)"

definition cli_config :: "cli \<Rightarrow> json compiled_schema \<Rightarrow> json run_config" where
  "cli_config args schema = \<lparr>rc_schema = schema, rc_suite_filter = map suite_of_arg (cli_suite args),
     rc_verbose = cli_verbose args\<rparr>"

definition cli_report :: "cli_env \<Rightarrow> json executors \<Rightarrow> cli \<Rightarrow> json compiled_schema \<Rightarrow> test_report" where
  "cli_report env execs args schema =
     run_many (ce_harness env) execs (cli_selected env args) (cli_config args schema)"

definition report_written :: "cli_env \<Rightarrow> json executors \<Rightarrow> cli \<Rightarrow> json compiled_schema \<Rightarrow> bool" where
  "report_written env execs args schema \<longleftrightarrow>
     (case cli_json_report args of
        None \<Rightarrow> True
      | Some out \<Rightarrow>
          let inputs = cli_selected env args in
          write_json_report env out (cli_report env execs args schema) (summarize_crypto env inputs)
            (summarize_attestation env inputs) (summarize_transparency env inputs) inputs \<noteq> None)"

definition run_complete :: "cli_env \<Rightarrow> json executors \<Rightarrow> cli \<Rightarrow> json compiled_schema \<Rightarrow> bool" where
  "run_complete env execs args schema \<longleftrightarrow> cli_selected env args \<noteq> [] \<and> report_written env execs args schema"

lemma cli_run_exit:
  "main_exit (snd (cli_run env execs args)) =
     (case schema_load (ce_harness env) (cli_schema args) of
        Inl _ \<Rightarrow> 2
      | Inr schema \<Rightarrow>
          if cli_selected env args = [] \<or> \<not> report_written env execs args schema then 2
          else if is_clean (cli_report env execs args schema) then 0 else 1)"
proof (cases "schema_load (ce_harness env) (cli_schema args)")
  case (Inl e)
  then show ?thesis by (simp add: cli_run_def main_exit_def)
next
  case (Inr schema)
  show ?thesis
  proof (cases "cli_selected env args = []")
    case True
    with Inr show ?thesis by (simp add: cli_run_def main_exit_def cli_selected_def [symmetric])
  next
    case False
    with Inr show ?thesis
      by (simp add: cli_run_def cli_selected_def [symmetric] cli_config_def [symmetric] cli_report_def [symmetric]
          report_written_def main_exit_def Let_def split: option.split bool.split)
  qed
qed

text \<open>C11: the exit status of the command line, over the eight suites as they are.  It is 2 when the schema does not
  load, no input is given or found, or the report cannot be written; otherwise it is 0 exactly when every input
  loads and is filtered out or meets the schema with every vector answered \<open>Pass\<close>, and 1 when not.\<close>

theorem cli_exit_status:
  "main_exit (snd (cli_run env (suite_executors p) args)) =
     (case schema_load (ce_harness env) (cli_schema args) of
        Inl _ \<Rightarrow> 2
      | Inr schema \<Rightarrow>
          if run_complete env (suite_executors p) args schema then
            if list_all (file_accepted p (ce_harness env) (cli_config args schema)) (cli_selected env args) then 0
            else 1
          else 2)"
  unfolding cli_run_exit run_complete_def cli_report_def validator_clean_files by (simp split: sum.split)

text \<open>The two early failures have no effects: nothing is printed, nothing is written.\<close>

lemma cli_run_silent:
  "schema_load (ce_harness env) (cli_schema args) = Inl e \<Longrightarrow> fst (cli_run env execs args) = []"
  "cli_selected env args = [] \<Longrightarrow> fst (cli_run env execs args) = []"
  by (auto simp: cli_run_def cli_selected_def split: sum.split if_splits)

section \<open>What the summaries count\<close>

fun json_nodes :: "json \<Rightarrow> json list" where
  "json_nodes (JObject kvs) = JObject kvs # concat (map (\<lambda>kv. json_nodes (snd kv)) kvs)"
| "json_nodes (JArray items) = JArray items # concat (map json_nodes items)"
| "json_nodes v = [v]"

definition has_cose_field :: "json \<Rightarrow> bool" where
  "has_cose_field v \<longleftrightarrow> Option.bind (json_get v ''cose_sign1_bytes'') as_str \<noteq> None"

definition has_mock_field :: "json \<Rightarrow> bool" where
  "has_mock_field v \<longleftrightarrow>
     json_get v ''signature_valid'' \<noteq> None \<or> json_get v ''signed_by'' \<noteq> None \<or>
     json_get v ''signature_verification_context'' \<noteq> None"

lemma contains_cose_nodes: "contains_cose_sign1 v \<longleftrightarrow> list_ex has_cose_field (json_nodes v)"
  by (induction v rule: contains_cose_sign1.induct) (auto simp: has_cose_field_def list_ex_iff)

lemma contains_mock_nodes: "contains_mock_signature v \<longleftrightarrow> list_ex has_mock_field (json_nodes v)"
  by (induction v rule: contains_mock_signature.induct) (auto simp: has_mock_field_def list_ex_iff)

text \<open>The vectors of the documents a predicate selects, in the order of the files.\<close>

definition document_vectors :: "(json \<Rightarrow> bool) \<Rightarrow> cli_env \<Rightarrow> string list \<Rightarrow> json list" where
  "document_vectors P env inputs =
     concat (map (\<lambda>path.
       case readable_document env path of
         None \<Rightarrow> []
       | Some v \<Rightarrow> if P v then (case vectors_of v of None \<Rightarrow> [] | Some vs \<Rightarrow> vs) else []) inputs)"

definition vector_inputs :: "json list \<Rightarrow> json list" where
  "vector_inputs vs = List.map_filter (\<lambda>v. json_get v ''input'') vs"

definition mode_of :: "string \<Rightarrow> nat \<Rightarrow> nat \<Rightarrow> string" where
  "mode_of mock_word live mock =
     (if live = 0 \<and> mock = 0 then ''none'' else if mock = 0 then ''live'' else if live = 0 then mock_word else ''mixed'')"

lemma foldl_documents:
  "foldl (\<lambda>lm path. case readable_document env path of
        None \<Rightarrow> lm
      | Some v \<Rightarrow> if \<not> P v then lm else (case vectors_of v of None \<Rightarrow> lm | Some vs \<Rightarrow> foldl g lm vs)) lm inputs =
   foldl g lm (document_vectors P env inputs)"
  by (induction inputs arbitrary: lm) (auto simp: document_vectors_def split: option.split)

lemma foldl_count:
  assumes "\<And>v lm. g lm v = (fst lm + (if a v then 1 else 0), snd lm + (if b v then 1 else 0))"
  shows "foldl g lm vs = (fst lm + length (filter a vs), snd lm + length (filter b vs))"
  by (induction vs arbitrary: lm) (simp_all add: assms)

lemma filter_inputs:
  "length (filter (\<lambda>v. case json_get v ''input'' of None \<Rightarrow> False | Some i \<Rightarrow> P i) vs) =
   length (filter P (vector_inputs vs))"
  by (induction vs) (auto simp: vector_inputs_def map_filter_def split: option.split)

lemma crypto_counts:
  "ms_live (summarize_crypto env inputs) =
     length (filter contains_cose_sign1 (vector_inputs (document_vectors (\<lambda>_. True) env inputs)))"
  "ms_mock (summarize_crypto env inputs) =
     length (filter (\<lambda>i. \<not> contains_cose_sign1 i \<and> contains_mock_signature i)
       (vector_inputs (document_vectors (\<lambda>_. True) env inputs)))"
  "ms_mode (summarize_crypto env inputs) =
     mode_of ''mocked'' (ms_live (summarize_crypto env inputs)) (ms_mock (summarize_crypto env inputs))"
proof -
  let ?a = "\<lambda>v. case json_get v ''input'' of None \<Rightarrow> False | Some i \<Rightarrow> contains_cose_sign1 i"
  let ?b = "\<lambda>v. case json_get v ''input'' of None \<Rightarrow> False
    | Some i \<Rightarrow> \<not> contains_cose_sign1 i \<and> contains_mock_signature i"
  let ?vs = "document_vectors (\<lambda>_. True) env inputs"
  have step: "count_crypto v lm = (fst lm + (if ?a v then 1 else 0), snd lm + (if ?b v then 1 else 0))" for v lm
    by (cases lm) (simp add: count_crypto_def Let_def split: option.split)
  have loop: "foldl (\<lambda>lm path. case readable_document env path of None \<Rightarrow> lm
      | Some v \<Rightarrow> (case vectors_of v of None \<Rightarrow> lm | Some vs \<Rightarrow> foldl (\<lambda>lm vec. count_crypto vec lm) lm vs)) (0, 0) inputs =
      (length (filter ?a ?vs), length (filter ?b ?vs))"
    using foldl_documents [where P = "\<lambda>_. True" and g = "\<lambda>lm vec. count_crypto vec lm" and lm = "(0, 0)"]
    by (simp only: simp_thms if_False foldl_count [where g = "\<lambda>lm vec. count_crypto vec lm", OF step] fst_conv snd_conv add_0)
  show "ms_live (summarize_crypto env inputs) = length (filter contains_cose_sign1 (vector_inputs ?vs))"
    "ms_mock (summarize_crypto env inputs) =
       length (filter (\<lambda>i. \<not> contains_cose_sign1 i \<and> contains_mock_signature i) (vector_inputs ?vs))"
    "ms_mode (summarize_crypto env inputs) =
       mode_of ''mocked'' (ms_live (summarize_crypto env inputs)) (ms_mock (summarize_crypto env inputs))"
    unfolding summarize_crypto_def loop by (simp_all add: filter_inputs mode_of_def Let_def)
qed

lemma pcr_counts:
  assumes "\<And>v lm. step v lm = (fst lm + (if a v then 1 else 0), snd lm + (if b v then 1 else 0))"
  shows "pcr_summary step env inputs =
    (let vs = document_vectors is_pcr_document env inputs;
         live = length (filter a vs); mock = length (filter b vs)
     in \<lparr>ms_mode = mode_of ''mock'' live mock, ms_live = live, ms_mock = mock\<rparr>)"
proof -
  have loop: "foldl (\<lambda>lm path. case readable_document env path of None \<Rightarrow> lm
      | Some v \<Rightarrow> if \<not> is_pcr_document v then lm
          else (case vectors_of v of None \<Rightarrow> lm | Some vs \<Rightarrow> foldl (\<lambda>lm vec. step vec lm) lm vs)) (0, 0) inputs =
      (length (filter a (document_vectors is_pcr_document env inputs)),
       length (filter b (document_vectors is_pcr_document env inputs)))"
    using foldl_documents [where P = is_pcr_document and g = "\<lambda>lm vec. step vec lm" and lm = "(0, 0)"]
    by (simp only: foldl_count [where g = "\<lambda>lm vec. step vec lm", OF assms] fst_conv snd_conv add_0)
  show ?thesis unfolding pcr_summary_def loop by (simp add: mode_of_def Let_def)
qed

lemma attestation_counts:
  "ms_live (summarize_attestation env inputs) =
     length (filter contains_cose_sign1 (vector_inputs (document_vectors is_pcr_document env inputs)))"
  "ms_mock (summarize_attestation env inputs) =
     length (filter (\<lambda>i. \<not> contains_cose_sign1 i) (vector_inputs (document_vectors is_pcr_document env inputs)))"
proof -
  have step: "count_attestation v lm =
      (fst lm + (if case json_get v ''input'' of None \<Rightarrow> False | Some i \<Rightarrow> contains_cose_sign1 i then 1 else 0),
       snd lm + (if case json_get v ''input'' of None \<Rightarrow> False | Some i \<Rightarrow> \<not> contains_cose_sign1 i then 1 else 0))" for v lm
    by (cases lm) (simp add: count_attestation_def split: option.split)
  show "ms_live (summarize_attestation env inputs) =
       length (filter contains_cose_sign1 (vector_inputs (document_vectors is_pcr_document env inputs)))"
    "ms_mock (summarize_attestation env inputs) =
       length (filter (\<lambda>i. \<not> contains_cose_sign1 i) (vector_inputs (document_vectors is_pcr_document env inputs)))"
    unfolding summarize_attestation_def pcr_counts [of count_attestation, OF step]
    by (simp_all add: filter_inputs Let_def)
qed

lemma document_vectors_le:
  "length (filter P (vector_inputs (document_vectors Q env inputs))) \<le>
   length (filter P (vector_inputs (document_vectors (\<lambda>_. True) env inputs)))"
proof (induction inputs)
  case (Cons p ps)
  have app: "vector_inputs (xs @ ys) = vector_inputs xs @ vector_inputs ys" for xs ys
    by (simp add: vector_inputs_def map_filter_def)
  have nil: "vector_inputs [] = []" by (simp add: vector_inputs_def map_filter_def)
  have "document_vectors R env (p # ps) =
      (case readable_document env p of None \<Rightarrow> []
       | Some v \<Rightarrow> if R v then (case vectors_of v of None \<Rightarrow> [] | Some vs \<Rightarrow> vs) else []) @ document_vectors R env ps" for R
    by (simp add: document_vectors_def)
  with Cons show ?case by (auto simp: app nil intro: trans_le_add2 split: option.split)
qed (simp add: document_vectors_def)

text \<open>What the crypto and attestation lines of a report count.  A vector is live when some object anywhere under its
  \<open>input\<close> has the field \<open>cose_sign1_bytes\<close> with a string, mocked when not and some object has one of the three
  mock fields; the attestation line splits the vectors of the \<open>pcr-attestation-reject\<close> files into exactly those
  with and those without live bytes, so it never counts more live vectors than the crypto line.\<close>

theorem summaries_count:
  "let all = vector_inputs (document_vectors (\<lambda>_. True) env inputs);
       pcr = vector_inputs (document_vectors is_pcr_document env inputs);
       live = (\<lambda>i. list_ex has_cose_field (json_nodes i));
       mocked = (\<lambda>i. list_ex has_mock_field (json_nodes i));
       crypto = summarize_crypto env inputs; attestation = summarize_attestation env inputs
   in ms_live crypto = length (filter live all) \<and>
      ms_mock crypto = length (filter (\<lambda>i. \<not> live i \<and> mocked i) all) \<and>
      ms_mode crypto = mode_of ''mocked'' (ms_live crypto) (ms_mock crypto) \<and>
      ms_live attestation = length (filter live pcr) \<and>
      ms_live attestation + ms_mock attestation = length pcr \<and>
      ms_live attestation \<le> ms_live crypto"
  unfolding Let_def contains_cose_nodes [symmetric] contains_mock_nodes [symmetric] attestation_counts crypto_counts(1,2)
  by (simp add: crypto_counts(3) [unfolded crypto_counts(1,2)] document_vectors_le sum_length_filter_compl)

end
