(* ===== verification/Fixtures.thy ===== *)
theory Fixtures
  imports Anomaly_Suites
begin

text \<open>
  The signing side: \<open>ephemeral-anomaly/src/test_fixtures.rs\<close> - the fifteen patterns of the minimum library, its
  payload and its signed envelopes - and the two primitives of \<open>vector-signer/src/main.rs\<close> that work on an envelope,
  \<open>sign_blob\<close> and \<open>tamper_payload_byte\<close>.  What signs and serialises is third-party code, the record \<open>signer_kit\<close>:
  \<open>ed25519_dalek\<close>'s signing key, \<open>coset\<close>'s serialiser, \<open>ciborium\<close>'s writer and the hex encoder, beside the
  environment of the verifier they are used with.
\<close>

unbundle bit_operations_syntax

section \<open>The minimum library\<close>

definition mandate_scope_default :: mandate_scope where
  "mandate_scope_default = \<lparr>ms_mandate_id = None, ms_operator_id = None, ms_integration_ref = None\<rparr>"

definition delete_storm_pattern :: pattern_entry where
  "delete_storm_pattern =
     \<lparr>pattern_id = ''delete-storm'', window_seconds = Some 60, threshold_of = Count 5,
      scope = VerbResourceMandate AnyDestructive None mandate_scope_default,
      action_of = AutoRevoke, severity_of = High, firing_rule_of = FirstMatch,
      firing_rule_companions = [''delete-slow-burn'']\<rparr>"

definition delete_slow_burn_pattern :: pattern_entry where
  "delete_slow_burn_pattern =
     \<lparr>pattern_id = ''delete-slow-burn'', window_seconds = Some 600, threshold_of = Count 20,
      scope = VerbResourceMandate AnyDestructive None mandate_scope_default,
      action_of = AutoRevoke, severity_of = Medium, firing_rule_of = CumulativeOverBaseline,
      firing_rule_companions = []\<rparr>"

definition vault_rotate_storm_pattern :: pattern_entry where
  "vault_rotate_storm_pattern =
     \<lparr>pattern_id = ''vault-rotate-storm'', window_seconds = Some 3600, threshold_of = Count 3,
      scope = VerbResourceMandate (Exact ''rotate'') (Some ''vault-secret'') mandate_scope_default,
      action_of = AutoRevoke, severity_of = High, firing_rule_of = FirstMatch,
      firing_rule_companions = [''vault-rotate-slow-burn'']\<rparr>"

definition vault_rotate_slow_burn_pattern :: pattern_entry where
  "vault_rotate_slow_burn_pattern =
     \<lparr>pattern_id = ''vault-rotate-slow-burn'', window_seconds = Some 36000, threshold_of = Count 10,
      scope = VerbResourceMandate (Exact ''rotate'') (Some ''vault-secret'') mandate_scope_default,
      action_of = AutoRevoke, severity_of = Medium, firing_rule_of = CumulativeOverBaseline,
      firing_rule_companions = []\<rparr>"

definition iam_attach_policy_storm_pattern :: pattern_entry where
  "iam_attach_policy_storm_pattern =
     \<lparr>pattern_id = ''iam-attach-policy-storm'', window_seconds = Some 300, threshold_of = Count 5,
      scope = IamAttachFamily ''iam-attach'' mandate_scope_default,
      action_of = AutoRevoke, severity_of = High, firing_rule_of = FirstMatch,
      firing_rule_companions = [''iam-attach-slow-burn'']\<rparr>"

definition iam_attach_slow_burn_pattern :: pattern_entry where
  "iam_attach_slow_burn_pattern =
     \<lparr>pattern_id = ''iam-attach-slow-burn'', window_seconds = Some 3000, threshold_of = Count 20,
      scope = IamAttachFamily ''iam-attach'' mandate_scope_default,
      action_of = AutoRevoke, severity_of = Medium, firing_rule_of = CumulativeOverBaseline,
      firing_rule_companions = []\<rparr>"

definition git_force_push_storm_pattern :: pattern_entry where
  "git_force_push_storm_pattern =
     \<lparr>pattern_id = ''git-force-push-storm'', window_seconds = Some 300, threshold_of = Count 3,
      scope = ProtectedBranches mandate_scope_default [''main'', ''release/*''],
      action_of = AutoRevoke, severity_of = High, firing_rule_of = FirstMatch,
      firing_rule_companions = [''git-force-push-slow-burn'']\<rparr>"

definition git_force_push_slow_burn_pattern :: pattern_entry where
  "git_force_push_slow_burn_pattern =
     \<lparr>pattern_id = ''git-force-push-slow-burn'', window_seconds = Some 3000, threshold_of = Count 10,
      scope = ProtectedBranches mandate_scope_default [''main'', ''release/*''],
      action_of = AutoRevoke, severity_of = Medium, firing_rule_of = CumulativeOverBaseline,
      firing_rule_companions = []\<rparr>"

definition cross_tier_escalation_pattern :: pattern_entry where
  "cross_tier_escalation_pattern =
     \<lparr>pattern_id = ''cross-tier-escalation'', window_seconds = Some 1800, threshold_of = Sequence 1,
      scope = CrossTierSequence mandate_scope_default [0, 2, 3],
      action_of = AutoRevoke, severity_of = Critical, firing_rule_of = SequenceMatch,
      firing_rule_companions = []\<rparr>"

definition machine_pace_pattern :: pattern_entry where
  "machine_pace_pattern =
     \<lparr>pattern_id = ''machine-pace'', window_seconds = Some 60, threshold_of = Count 50,
      scope = MandatePace 1 (Some ''read-only''),
      action_of = Alert, severity_of = Low, firing_rule_of = CumulativeOverBaseline,
      firing_rule_companions = []\<rparr>"

definition long_silence_before_burst_pattern :: pattern_entry where
  "long_silence_before_burst_pattern =
     \<lparr>pattern_id = ''long-silence-before-burst'', window_seconds = Some 604800, threshold_of = Sequence 1,
      scope = SilenceThenBurst 604800 300 20,
      action_of = Alert, severity_of = Medium, firing_rule_of = SequenceMatch,
      firing_rule_companions = []\<rparr>"

definition canary_window_second_tier3_pattern :: pattern_entry where
  "canary_window_second_tier3_pattern =
     \<lparr>pattern_id = ''canary-window-second-tier3'', window_seconds = Some 86400, threshold_of = Count 1,
      scope = CanaryWindow ''canary-tier-3'' 1,
      action_of = AutoRevoke, severity_of = High, firing_rule_of = FirstMatch,
      firing_rule_companions = []\<rparr>"

definition unusual_delegation_depth_pattern :: pattern_entry where
  "unusual_delegation_depth_pattern =
     \<lparr>pattern_id = ''unusual-delegation-depth'', window_seconds = None, threshold_of = ChainDepth 4,
      scope = DelegationDepth 4,
      action_of = Alert, severity_of = Medium, firing_rule_of = FirstMatch,
      firing_rule_companions = []\<rparr>"

definition fanout_distinct_resources_pattern :: pattern_entry where
  "fanout_distinct_resources_pattern =
     \<lparr>pattern_id = ''fanout-distinct-resources'', window_seconds = Some 60, threshold_of = DistinctCount 10,
      scope = VerbFanout (Exact ''delete'') mandate_scope_default,
      action_of = AutoRevoke, severity_of = High, firing_rule_of = FirstMatch,
      firing_rule_companions = [''fanout-slow-burn'']\<rparr>"

definition fanout_slow_burn_pattern :: pattern_entry where
  "fanout_slow_burn_pattern =
     \<lparr>pattern_id = ''fanout-slow-burn'', window_seconds = Some 600, threshold_of = Count 30,
      scope = VerbFanout (Exact ''delete'') mandate_scope_default,
      action_of = AutoRevoke, severity_of = Medium, firing_rule_of = CumulativeOverBaseline,
      firing_rule_companions = []\<rparr>"

definition minimum_anomaly_library_patterns :: "pattern_entry list" where
  "minimum_anomaly_library_patterns =
     [delete_storm_pattern,
      delete_slow_burn_pattern,
      vault_rotate_storm_pattern,
      vault_rotate_slow_burn_pattern,
      iam_attach_policy_storm_pattern,
      iam_attach_slow_burn_pattern,
      git_force_push_storm_pattern,
      git_force_push_slow_burn_pattern,
      cross_tier_escalation_pattern,
      machine_pace_pattern,
      long_silence_before_burst_pattern,
      canary_window_second_tier3_pattern,
      unusual_delegation_depth_pattern,
      fanout_distinct_resources_pattern,
      fanout_slow_burn_pattern]"

definition ANOMALY_LIBRARY_ABI_VERSION :: nat where "ANOMALY_LIBRARY_ABI_VERSION = 1"

definition FIXTURE_ANOMALY_KID :: string where "FIXTURE_ANOMALY_KID = ''K_fixture_anomaly_pk''"

definition FIXTURE_ANOMALY_SIGNING_SEED :: string where
  "FIXTURE_ANOMALY_SIGNING_SEED =
     [CHR 0xA1, CHR 0x0F, CHR 0x2E, CHR 0xE4, CHR 0xB1, CHR 0x50, CHR 0x31, CHR 0xC5, CHR 0xA1, CHR 0x0F, CHR 0x2E,
     CHR 0xE4, CHR 0xB1, CHR 0x50, CHR 0x31, CHR 0xC5, CHR 0xA1, CHR 0x0F, CHR 0x2E, CHR 0xE4, CHR 0xB1, CHR 0x50,
     CHR 0x31, CHR 0xC5, CHR 0xA1, CHR 0x0F, CHR 0x2E, CHR 0xE4, CHR 0xB1, CHR 0x50, CHR 0x31, CHR 0xC5]"

definition FIXTURE_ANOMALY_ISSUED_AT :: int where "FIXTURE_ANOMALY_ISSUED_AT = 1700000000"

definition FIXTURE_ANOMALY_EXPIRES_AT :: int where "FIXTURE_ANOMALY_EXPIRES_AT = 1800000000"

definition FIXTURE_ANOMALY_LIBRARY_ID :: string where "FIXTURE_ANOMALY_LIBRARY_ID = ''fixture::minimum-v1''"

definition minimum_anomaly_library_payload :: anomaly_library_payload where
  "minimum_anomaly_library_payload =
     \<lparr>pl_abi_version = ANOMALY_LIBRARY_ABI_VERSION, pl_signer_kid = FIXTURE_ANOMALY_KID,
      pl_library_id = FIXTURE_ANOMALY_LIBRARY_ID, pl_library_version = 1,
      pl_issued_at = FIXTURE_ANOMALY_ISSUED_AT, pl_expires_at = FIXTURE_ANOMALY_EXPIRES_AT,
      pl_patterns = minimum_anomaly_library_patterns\<rparr>"

section \<open>Signing\<close>

record ('pk, 'sig) signer_kit =
  kt_env :: "('pk, 'sig) anomaly_env"
  kt_public :: "string \<Rightarrow> string"
  kt_sign :: "string \<Rightarrow> string \<Rightarrow> string"
  kt_protected :: "string \<Rightarrow> string"
  kt_to_vec :: "cose_sign1 \<Rightarrow> string"
  kt_into_writer :: "anomaly_library_payload \<Rightarrow> string"
  kt_hex_encode :: "string \<Rightarrow> string"
  kt_vector_from_value :: "json \<Rightarrow> json vector option"

text \<open>\<open>CoseSign1Builder\<close> with the EdDSA algorithm and a key id in the protected header, before \<open>create_signature\<close>.\<close>

definition unsigned_sign1 :: "('pk, 'sig) signer_kit \<Rightarrow> string \<Rightarrow> string \<Rightarrow> cose_sign1" where
  "unsigned_sign1 kit kid inner =
     \<lparr>hdr_protected_raw = kt_protected kit kid, hdr_alg = Some (Assigned COSE_ALG_EDDSA), hdr_key_id = kid,
      sign1_payload = Some inner, sign1_signature = []\<rparr>"

definition create_signature ::
  "('pk, 'sig) signer_kit \<Rightarrow> string \<Rightarrow> string \<Rightarrow> cose_sign1 \<Rightarrow> cose_sign1" where
  "create_signature kit seed aad s =
     s\<lparr>sign1_signature := kt_sign kit seed (coset_tbs (an_crypto (kt_env kit)) s aad)\<rparr>"

definition sign_anomaly_library_envelope_raw ::
  "('pk, 'sig) signer_kit \<Rightarrow> string \<Rightarrow> string \<Rightarrow> string \<Rightarrow> string \<Rightarrow> string" where
  "sign_anomaly_library_envelope_raw kit inner outer_kid aad seed =
     kt_to_vec kit (create_signature kit seed aad (unsigned_sign1 kit outer_kid inner))"

definition cbor_encode_anomaly_payload :: "('pk, 'sig) signer_kit \<Rightarrow> anomaly_library_payload \<Rightarrow> string" where
  "cbor_encode_anomaly_payload kit payload = kt_into_writer kit payload"

definition sign_anomaly_library_envelope ::
  "('pk, 'sig) signer_kit \<Rightarrow> anomaly_library_payload \<Rightarrow> string \<Rightarrow> string" where
  "sign_anomaly_library_envelope kit payload seed =
     sign_anomaly_library_envelope_raw kit (cbor_encode_anomaly_payload kit payload) FIXTURE_ANOMALY_KID
       ANOMALY_LIBRARY_AAD seed"

definition sign_minimum_library_with_version :: "('pk, 'sig) signer_kit \<Rightarrow> nat \<Rightarrow> string" where
  "sign_minimum_library_with_version kit library_version =
     sign_anomaly_library_envelope kit (minimum_anomaly_library_payload\<lparr>pl_library_version := library_version\<rparr>)
       FIXTURE_ANOMALY_SIGNING_SEED"

definition fixture_anomaly_verifying_key_bytes :: "('pk, 'sig) signer_kit \<Rightarrow> string" where
  "fixture_anomaly_verifying_key_bytes kit = kt_public kit FIXTURE_ANOMALY_SIGNING_SEED"

definition seeded_ledger_at_version :: "string \<Rightarrow> nat \<Rightarrow> in_memory_anomaly_ledger" where
  "seeded_ledger_at_version library_id library_version = snd (ledger_observe ledger_new library_id library_version)"

definition empty_anomaly_library_payload :: anomaly_library_payload where
  "empty_anomaly_library_payload =
     \<lparr>pl_abi_version = ANOMALY_LIBRARY_ABI_VERSION, pl_signer_kid = FIXTURE_ANOMALY_KID,
      pl_library_id = ''fixture::empty-v1'', pl_library_version = 1,
      pl_issued_at = FIXTURE_ANOMALY_ISSUED_AT, pl_expires_at = FIXTURE_ANOMALY_EXPIRES_AT, pl_patterns = []\<rparr>"

text \<open>The pool of signed envelopes: the minimum library and the empty one.\<close>

definition shared_anomaly_artifacts :: "('pk, 'sig) signer_kit \<Rightarrow> string \<times> string" where
  "shared_anomaly_artifacts kit =
     (sign_anomaly_library_envelope kit minimum_anomaly_library_payload FIXTURE_ANOMALY_SIGNING_SEED,
      sign_anomaly_library_envelope kit empty_anomaly_library_payload FIXTURE_ANOMALY_SIGNING_SEED)"

section \<open>The signer's primitives\<close>

datatype blob_error =
    SeedNotHex
  | SeedLength nat
  | EnvelopeNotHex
  | EnvelopeParse
  | EnvelopeNoPayload
  | EmptyPayloadPanic

text \<open>The pair of the envelope and the public key, both in hex.\<close>

definition sign_blob ::
  "('pk, 'sig) signer_kit \<Rightarrow> string \<Rightarrow> string \<Rightarrow> string \<Rightarrow> string \<Rightarrow> blob_error + string \<times> string" where
  "sign_blob kit seed_hex kid payload aad =
     (case hex_decode (an_crypto (kt_env kit)) seed_hex of
        None \<Rightarrow> Inl SeedNotHex
      | Some seed \<Rightarrow>
          if length seed \<noteq> 32 then Inl (SeedLength (length seed))
          else
            Inr (kt_hex_encode kit (kt_to_vec kit (create_signature kit seed aad (unsigned_sign1 kit kid payload))),
                 kt_hex_encode kit (kt_public kit seed)))"

definition flip_first :: "string \<Rightarrow> string" where
  "flip_first p = (case p of [] \<Rightarrow> [] | c # cs \<Rightarrow> char_of (byte c XOR 1) # cs)"

text \<open>\<open>payload[0] ^= 0x01\<close> panics on an empty payload.\<close>

definition tamper_payload_byte :: "('pk, 'sig) signer_kit \<Rightarrow> string \<Rightarrow> blob_error + string" where
  "tamper_payload_byte kit cose_hex =
     (case hex_decode (an_crypto (kt_env kit)) cose_hex of
        None \<Rightarrow> Inl EnvelopeNotHex
      | Some bytes \<Rightarrow>
          (case coset_parse (an_crypto (kt_env kit)) bytes of
             None \<Rightarrow> Inl EnvelopeParse
           | Some sign1 \<Rightarrow>
               (case sign1_payload sign1 of
                  None \<Rightarrow> Inl EnvelopeNoPayload
                | Some payload \<Rightarrow>
                    if payload = [] then Inl EmptyPayloadPanic
                    else
                      Inr (kt_hex_encode kit (kt_to_vec kit
                        (sign1\<lparr>sign1_payload := Some (flip_first payload)\<rparr>))))))"

section \<open>Streams\<close>

definition FIXTURE_STORM_START_TIME :: string where "FIXTURE_STORM_START_TIME = ''2026-05-01T12:00:00Z''"

definition FIXTURE_STORM_START_UNIX :: int where "FIXTURE_STORM_START_UNIX = 1777636800"

definition fixture_delete_storm_stream :: audit_stream_input where
  "fixture_delete_storm_stream =
     PatternDescription
       \<lparr>start_time = FIXTURE_STORM_START_TIME, end_time = ''2026-05-01T12:00:54Z'', pd_count = 10,
        interval_seconds = 6,
        template_of =
          \<lparr>te_mandate_id = ''m-storm'', te_tier = 2, te_integration = ''kubernetes'', te_verb = ''delete'',
           te_resource_kind = ''pod'', te_outcome = Executed\<rparr>,
        resource_ref_pattern = ''ns/storm/pod-{i}''\<rparr>"

definition canary_event :: "string \<Rightarrow> int \<Rightarrow> string \<Rightarrow> canonicalized_event" where
  "canary_event i t r =
     \<lparr>event_id = i, timestamp = t, ev_mandate_id = ''m-canary'', ev_tier = 3, ev_integration = ''canary-signers'',
      ev_verb = ''sign'', ev_resource_kind = ''attestation'', ev_resource_ref = r, ev_outcome = Executed\<rparr>"

definition fixture_canary_stream :: audit_stream_input where
  "fixture_canary_stream =
     Literal
       [canary_event ''canary-1'' FIXTURE_STORM_START_UNIX ''pcr/canary-tier-3/obs-1'',
        canary_event ''canary-2'' (FIXTURE_STORM_START_UNIX + 5) ''pcr/canary-tier-3/obs-2'',
        canary_event ''canary-3'' (FIXTURE_STORM_START_UNIX + 10) ''pcr/canary-tier-3/obs-3'']"

definition fixture_detector_library :: "pattern_entry list \<Rightarrow> verified_anomaly_library" where
  "fixture_detector_library patterns =
     \<lparr>vl_signer_kid = FIXTURE_ANOMALY_KID, vl_abi_version = ANOMALY_LIBRARY_ABI_VERSION,
      vl_library_id = ''lib::fixture::detector'', vl_library_version = 1, vl_issued_at = 1700000000,
      vl_expires_at = 1900000000, vl_patterns = patterns\<rparr>"

section \<open>The minimum library is coherent\<close>

lemmas minimum_patterns_defs =
  minimum_anomaly_library_patterns_def mandate_scope_default_def delete_storm_pattern_def
  delete_slow_burn_pattern_def
  vault_rotate_storm_pattern_def
  vault_rotate_slow_burn_pattern_def
  iam_attach_policy_storm_pattern_def
  iam_attach_slow_burn_pattern_def
  git_force_push_storm_pattern_def
  git_force_push_slow_burn_pattern_def
  cross_tier_escalation_pattern_def
  machine_pace_pattern_def
  long_silence_before_burst_pattern_def
  canary_window_second_tier3_pattern_def
  unusual_delegation_depth_pattern_def
  fanout_distinct_resources_pattern_def
  fanout_slow_burn_pattern_def

lemma minimum_stage7: "stage7 minimum_anomaly_library_patterns = Inr ()"
proof -
  have "check_pattern_id_uniqueness minimum_anomaly_library_patterns = Inr ()"
    by (simp add: minimum_patterns_defs)
  moreover have "check_severity_action_consistency minimum_anomaly_library_patterns = Inr ()"
    by (simp add: minimum_patterns_defs requires_auto_revoke_def)
  moreover have "check_verb_families_known minimum_anomaly_library_patterns = Inr ()"
    by (simp add: minimum_patterns_defs check_scope_verb_families_def check_verb_predicate_family_def lookup_family_def)
  moreover have "check_firing_rule_companions minimum_anomaly_library_patterns = Inr ()"
    by (simp add: check_firing_rule_companions_def minimum_patterns_defs classify_companion_def
        ANTI_WALK_UNDER_WINDOW_SECONDS_def ANTI_WALK_UNDER_COMPANION_MULTIPLIER_def sat_mul_u32_def u32_max_def Let_def)
  ultimately show ?thesis by (simp add: stage7_def)
qed

end
