(* ===== verification/Vector_Files.thy ===== *)
theory Vector_Files
  imports Canon
begin

text \<open>
  The files of the vector signer (\<open>tools/vector-signer/src/main.rs\<close>): \<open>append_vectors\<close>, \<open>append_vectors_with_envelope\<close> and
  \<open>patch_vectors_in_file\<close> as functions of the file system, a map from paths to contents.  What the operating system
  may do is the record \<open>io_faults\<close>: refuse a read, refuse a write, stop one after some bytes (an error or the death
  of the process in the middle of it), or fail a rename.  \<open>serde_json\<close>'s parser and printer are the record \<open>json_io\<close>.
  Paths are Unix paths that do not end in a separator.
\<close>

section \<open>Paths\<close>

definition path_file_name :: "string \<Rightarrow> string" where
  "path_file_name p = rev (takeWhile (\<lambda>c. c \<noteq> CHR ''/'') (rev p))"

definition path_parent_prefix :: "string \<Rightarrow> string" where
  "path_parent_prefix p = rev (dropWhile (\<lambda>c. c \<noteq> CHR ''/'') (rev p))"

text \<open>\<open>rsplit_file_at_dot\<close> of the standard library: the stem and the extension, if there is one.\<close>

definition rsplit_at_dot :: "string \<Rightarrow> (string \<times> string) option" where
  "rsplit_at_dot n =
     (if n = ''..'' \<or> CHR ''.'' \<notin> set n then None
      else
        let before = rev (tl (dropWhile (\<lambda>c. c \<noteq> CHR ''.'') (rev n))) in
        if before = [] then None else Some (before, rev (takeWhile (\<lambda>c. c \<noteq> CHR ''.'') (rev n))))"

definition path_extension :: "string \<Rightarrow> string option" where
  "path_extension p = map_option snd (rsplit_at_dot (path_file_name p))"

definition path_with_extension :: "string \<Rightarrow> string \<Rightarrow> string" where
  "path_with_extension p ext =
     path_parent_prefix p @
     (case rsplit_at_dot (path_file_name p) of None \<Rightarrow> path_file_name p | Some (stem, _) \<Rightarrow> stem) @ ''.'' @ ext"

lemma path_split: "path_parent_prefix p @ path_file_name p = p"
  unfolding path_parent_prefix_def path_file_name_def rev_append [symmetric] by simp

lemma rsplit_at_dot_Some: "rsplit_at_dot n = Some (stem, ext) \<Longrightarrow> n = stem @ ''.'' @ ext"
proof -
  assume some: "rsplit_at_dot n = Some (stem, ext)"
  then have dot: "CHR ''.'' \<in> set (rev n)" by (simp add: rsplit_at_dot_def split: if_splits)
  let ?d = "dropWhile (\<lambda>c. c \<noteq> CHR ''.'') (rev n)"
  have "?d \<noteq> [] \<and> hd ?d = CHR ''.''" using dot hd_dropWhile [of "\<lambda>c. c \<noteq> CHR ''.''" "rev n"] by (auto simp: dropWhile_eq_Nil_conv)
  then have "?d = CHR ''.'' # tl ?d" by (metis list.collapse)
  then have "rev n = takeWhile (\<lambda>c. c \<noteq> CHR ''.'') (rev n) @ CHR ''.'' # tl ?d"
    by (metis takeWhile_dropWhile_id)
  then have "n = rev (tl ?d) @ CHR ''.'' # rev (takeWhile (\<lambda>c. c \<noteq> CHR ''.'') (rev n))"
    by (metis append_Cons append_Nil append_assoc rev.simps(2) rev_append rev_rev_ident)
  with some show ?thesis by (auto simp: rsplit_at_dot_def Let_def split: if_splits)
qed

lemma with_extension_differs:
  assumes "path_extension p = Some e" "length e \<noteq> length e'"
  shows "path_with_extension p e' \<noteq> p"
proof -
  obtain stem where r: "rsplit_at_dot (path_file_name p) = Some (stem, e)"
    using assms(1) by (auto simp: path_extension_def)
  have "p = path_parent_prefix p @ stem @ ''.'' @ e"
    using path_split [of p] rsplit_at_dot_Some [OF r] by simp
  moreover have "path_with_extension p e' = path_parent_prefix p @ stem @ ''.'' @ e'"
    by (simp add: path_with_extension_def r)
  ultimately show ?thesis using assms(2) by (metis append_same_eq same_append_eq)
qed

section \<open>The file system\<close>

type_synonym files = "string \<Rightarrow> string option"

datatype write_fate = Completed | Refused | Torn nat

record io_faults =
  io_read_denied :: "string \<Rightarrow> bool"
  io_write_fate :: "string \<Rightarrow> write_fate"
  io_rename_fails :: "string \<Rightarrow> string \<Rightarrow> bool"

record json_io =
  jio_from_str :: "string \<Rightarrow> json option"
  jio_to_string_pretty :: "json \<Rightarrow> string option"

definition read_to_string :: "io_faults \<Rightarrow> files \<Rightarrow> string \<Rightarrow> string option" where
  "read_to_string io fs path =
     (if io_read_denied io path then None
      else case fs path of None \<Rightarrow> None | Some raw \<Rightarrow> if utf8_valid raw then Some raw else None)"

text \<open>\<open>fs::write\<close> truncates and then writes; \<open>fs::rename\<close> replaces the target in one step.\<close>

definition fs_write :: "io_faults \<Rightarrow> files \<Rightarrow> string \<Rightarrow> string \<Rightarrow> files \<times> bool" where
  "fs_write io fs path contents =
     (case io_write_fate io path of
        Completed \<Rightarrow> (fs(path \<mapsto> contents), True)
      | Refused \<Rightarrow> (fs, False)
      | Torn n \<Rightarrow> (fs(path \<mapsto> take n contents), False))"

definition fs_rename :: "io_faults \<Rightarrow> files \<Rightarrow> string \<Rightarrow> string \<Rightarrow> files \<times> bool" where
  "fs_rename io fs from target =
     (if io_rename_fails io from target \<or> fs from = None then (fs, False)
      else ((fs(target := fs from))(from := if from = target then fs from else None), True))"

section \<open>Documents\<close>

definition document_vector_array :: "json \<Rightarrow> json list option" where
  "document_vector_array doc = Option.bind (json_get doc ''vectors'') as_array"

text \<open>Writing through \<open>get_mut("vectors")\<close>.\<close>

fun put_vectors :: "json \<Rightarrow> json list \<Rightarrow> json" where
  "put_vectors (JObject kvs) vs = JObject (map (\<lambda>kv. if fst kv = ''vectors'' then (''vectors'', JArray vs) else kv) kvs)"
| "put_vectors doc vs = doc"

definition vector_id :: "json \<Rightarrow> string option" where
  "vector_id v = Option.bind (json_get v ''id'') as_str"

datatype signer_error =
    NotJsonExtension string
  | TargetMissing string
  | ReadFailed string
  | ParseFailed string
  | NoVectorsArray
  | VectorIdExists string
  | DuplicatePatchId string
  | SerializeFailed
  | WriteFailed string
  | RenameFailed string string

definition parse_target :: "json_io \<Rightarrow> io_faults \<Rightarrow> files \<Rightarrow> string \<Rightarrow> signer_error + json" where
  "parse_target env io fs target =
     (case read_to_string io fs target of
        None \<Rightarrow> Inl (ReadFailed target)
      | Some raw \<Rightarrow> (case jio_from_str env raw of None \<Rightarrow> Inl (ParseFailed target) | Some doc \<Rightarrow> Inr doc))"

section \<open>Appending\<close>

definition id_or_missing :: "json \<Rightarrow> string" where
  "id_or_missing v = (case vector_id v of Some i \<Rightarrow> i | None \<Rightarrow> ''<missing>'')"

definition append_vectors_with_envelope ::
  "json_io \<Rightarrow> io_faults \<Rightarrow> string \<Rightarrow> json list \<Rightarrow> json \<Rightarrow> files \<Rightarrow> files \<times> (signer_error + unit)" where
  "append_vectors_with_envelope env io target new_vecs envelope fs =
     (if path_extension target \<noteq> Some ''json'' then (fs, Inl (NotJsonExtension target))
      else
        case (if fs target \<noteq> None then parse_target env io fs target else Inr envelope) of
          Inl e \<Rightarrow> (fs, Inl e)
        | Inr doc \<Rightarrow>
            (case document_vector_array doc of
               None \<Rightarrow> (fs, Inl NoVectorsArray)
             | Some vectors \<Rightarrow>
                 let existing_ids = List.map_filter vector_id vectors in
                 (case find (\<lambda>i. i \<in> set existing_ids) (map id_or_missing new_vecs) of
                    Some i \<Rightarrow> (fs, Inl (VectorIdExists i))
                  | None \<Rightarrow>
                      (case jio_to_string_pretty env (put_vectors doc (vectors @ new_vecs)) of
                         None \<Rightarrow> (fs, Inl SerializeFailed)
                       | Some out \<Rightarrow>
                           let (fs', ok) = fs_write io fs target (out @ [CHR 0x0A]) in
                           (fs', if ok then Inr () else Inl (WriteFailed target))))))"

definition build_c2_envelope :: json where
  "build_c2_envelope =
     JObject
       [(''schema_version'', JString ''1.0.0''),
        (''vector_suite'', JString ''pcr-attestation-reject''),
        (''spec_reference'', JString (''design-final.md '' @ [CHR 0xC2, CHR 0xA7] @ ''9.3 (Phase C.2 live crypto)'')),
        (''spec_version'', JString ''round8-delta-applied + phase-c2-live''),
        (''generated_at'', JString ''2026-04-19T00:00:00Z''),
        (''coverage_summary'', JObject
          [(''live-sig-payload-mutated'', JNumber (NInt 1)),
           (''live-sig-nonce-mismatch'', JNumber (NInt 1)),
           (''live-sig-pcr-value-mismatch'', JNumber (NInt 1)),
           (''live-sig-cert-expired'', JNumber (NInt 1)),
           (''live-sig-ca-chain-broken'', JNumber (NInt 1)),
           (''live-sig-root-untrusted'', JNumber (NInt 1)),
           (''live-sig-wrong-cose-alg'', JNumber (NInt 1)),
           (''live-sig-duplicate-pcr'', JNumber (NInt 1))]),
        (''vectors'', JArray [])]"

definition build_c2_5_envelope :: json where
  "build_c2_5_envelope =
     JObject
       [(''schema_version'', JString ''1.0.0''),
        (''vector_suite'', JString ''pcr-attestation-reject''),
        (''spec_reference'', JString (''design-final.md '' @ [CHR 0xC2, CHR 0xA7] @ ''9.4.2 (Phase C.2.5 live Rekor)'')),
        (''spec_version'', JString ''round8-delta-applied + phase-c2-5-live-rekor''),
        (''generated_at'', JString ''2026-04-19T00:00:00Z''),
        (''coverage_summary'', JObject
          [(''rekor-inclusion-proof-malformed-hex'', JNumber (NInt 1)),
           (''rekor-inclusion-proof-siblings-tampered'', JNumber (NInt 1)),
           (''rekor-inclusion-proof-depth-wrong'', JNumber (NInt 1)),
           (''rekor-sth-signature-malformed-length'', JNumber (NInt 1)),
           (''rekor-sth-signature-wrong-key'', JNumber (NInt 1)),
           (''rekor-sth-timestamp-future'', JNumber (NInt 1)),
           (''rekor-sth-stale'', JNumber (NInt 1)),
           (''rekor-log-id-not-trusted'', JNumber (NInt 1))]),
        (''vectors'', JArray [])]"

definition build_c3_c_envelope :: json where
  "build_c3_c_envelope =
     JObject
       [(''schema_version'', JString ''1.0.0''),
        (''vector_suite'', JString ''tariff-reject''),
        (''spec_reference'', JString (''design-final.md '' @ [CHR 0xC2, CHR 0xA7] @ ''4.3 (Phase C.3-C classifier signature verification)'')),
        (''spec_version'', JString ''round8-delta-applied + phase-c3-c-classifier-sig''),
        (''generated_at'', JString ''2026-04-20T00:00:00Z''),
        (''coverage_summary'', JObject
          [(''live-classifier-sig-cose-verify-tampered'', JNumber (NInt 1)),
           (''live-classifier-sig-payload-sha256-wrong-length'', JNumber (NInt 1)),
           (''live-classifier-sig-abi-version-mismatch'', JNumber (NInt 1)),
           (''live-classifier-sig-wasm-hash-mismatch'', JNumber (NInt 1)),
           (''live-classifier-sig-inner-kid-mismatch'', JNumber (NInt 1)),
           (''live-classifier-sig-partial-triple-missing-anchors'', JNumber (NInt 1)),
           (''live-classifier-sig-happy-default-abi'', JNumber (NInt 1)),
           (''live-classifier-sig-happy-abi-override'', JNumber (NInt 1))]),
        (''vectors'', JArray [])]"

definition build_c4_library_envelope :: json where
  "build_c4_library_envelope =
     JObject
       [(''schema_version'', JString ''1.0.0''),
        (''vector_suite'', JString ''anomaly-library-reject''),
        (''spec_reference'', JString (''design-final.md '' @ [CHR 0xC2, CHR 0xA7] @ ''3.5 (Phase C.4 anomaly-library envelope verification)'')),
        (''spec_version'', JString ''round8-delta-applied + phase-c4-anomaly-library''),
        (''generated_at'', JString ''2026-04-21T00:00:00Z''),
        (''coverage_summary'', JObject
          [(''anomaly-library-cose-verify-tampered'', JNumber (NInt 1)),
           (''anomaly-library-payload-not-cbor'', JNumber (NInt 1)),
           (''anomaly-library-abi-version-mismatch'', JNumber (NInt 1)),
           (''anomaly-library-signer-kid-mismatch'', JNumber (NInt 1)),
           (''anomaly-library-not-yet-valid'', JNumber (NInt 1)),
           (''anomaly-library-expired'', JNumber (NInt 1)),
           (''anomaly-library-pattern-id-duplicate'', JNumber (NInt 1)),
           (''anomaly-library-severity-action-inconsistent'', JNumber (NInt 1)),
           (''anomaly-library-unknown-verb-family'', JNumber (NInt 1)),
           (''anomaly-library-companion-none-declared'', JNumber (NInt 1)),
           (''anomaly-library-companion-not-found'', JNumber (NInt 1)),
           (''anomaly-library-companion-not-cumulative'', JNumber (NInt 1)),
           (''anomaly-library-companion-window-too-short'', JNumber (NInt 1)),
           (''anomaly-library-version-replay'', JNumber (NInt 1)),
           (''anomaly-library-version-rollback'', JNumber (NInt 1)),
           (''anomaly-library-accept-first-observation'', JNumber (NInt 1)),
           (''anomaly-library-accept-strict-advance'', JNumber (NInt 1))]),
        (''vectors'', JArray [])]"

definition build_c4_detect_envelope :: json where
  "build_c4_detect_envelope =
     JObject
       [(''schema_version'', JString ''1.0.0''),
        (''vector_suite'', JString ''anomaly-detect''),
        (''spec_reference'', JString (''design-final.md '' @ [CHR 0xC2, CHR 0xA7] @ ''3.5.3 + '' @ [CHR 0xC2, CHR 0xA7] @
       ''11.2 (Phase C.4 Session 5-B Commit B anomaly-detect firing rules)'')),
        (''spec_version'', JString ''round8-delta-applied + phase-c4-session5b-commit-b''),
        (''generated_at'', JString ''2026-04-22T00:00:00Z''),
        (''coverage_summary'', JObject
          [(''anomaly-detect-delete-storm-basic'', JNumber (NInt 1)),
           (''anomaly-detect-iam-attach-storm'', JNumber (NInt 1)),
           (''anomaly-detect-vault-rotate-storm'', JNumber (NInt 1)),
           (''anomaly-detect-gfp-only-isolation'', JNumber (NInt 1)),
           (''anomaly-detect-fanout-distinct-and-slow-burn'', JNumber (NInt 1)),
           (''anomaly-detect-cross-tier-escalation'', JNumber (NInt 1)),
           (''anomaly-detect-delete-walk-under-slow-burn'', JNumber (NInt 1)),
           (''anomaly-detect-iam-walk-under-slow-burn'', JNumber (NInt 1)),
           (''anomaly-detect-fire-once-dedup-across-streams'', JNumber (NInt 1)),
           (''anomaly-detect-empty-stream'', JNumber (NInt 1)),
           (''anomaly-detect-below-all-thresholds'', JNumber (NInt 1)),
           (''anomaly-detect-machine-pace-and-silence-burst'', JNumber (NInt 1)),
           (''anomaly-detect-clock-regression'', JNumber (NInt 1)),
           (''anomaly-detect-pattern-description-count-zero'', JNumber (NInt 1)),
           (''anomaly-detect-timestamp-parse-failed'', JNumber (NInt 1))]),
        (''vectors'', JArray [])]"

definition build_c4_audit_envelope :: json where
  "build_c4_audit_envelope =
     JObject
       [(''schema_version'', JString ''1.0.0''),
        (''vector_suite'', JString ''audit-replay''),
        (''spec_reference'', JString (''design-final.md '' @ [CHR 0xC2, CHR 0xA7] @ ''3.5.3 + '' @ [CHR 0xC2, CHR 0xA7] @
       ''11.2 (Phase C.4 Session 5-B Commit C audit-replay multi-tenant)'')),
        (''spec_version'', JString ''round8-delta-applied + phase-c4-session5b-commit-c''),
        (''generated_at'', JString ''2026-04-24T00:00:00Z''),
        (''coverage_summary'', JObject
          [(''audit-replay-single-tenant-baseline'', JNumber (NInt 1)),
           (''audit-replay-two-tenants-only-a-fires'', JNumber (NInt 1)),
           (''audit-replay-two-tenants-both-fire'', JNumber (NInt 1)),
           (''audit-replay-shared-mandate-id-isolated'', JNumber (NInt 1)),
           (''audit-replay-three-tenants-three-patterns'', JNumber (NInt 1)),
           (''audit-replay-iam-storm-and-cross-tier-escalation'', JNumber (NInt 1)),
           (''audit-replay-fanout-a-mandatepace-b'', JNumber (NInt 1)),
           (''audit-replay-slow-burn-tenant-a-silent-b'', JNumber (NInt 1)),
           (''audit-replay-rotation-after-stream-zero'', JNumber (NInt 1)),
           (''audit-replay-rotation-after-final-stream'', JNumber (NInt 1)),
           (''audit-replay-rotation-mid-run-different-tenants'', JNumber (NInt 1)),
           (''audit-replay-clock-regression'', JNumber (NInt 1)),
           (''audit-replay-pattern-description-count-zero'', JNumber (NInt 1)),
           (''audit-replay-timestamp-parse-failed'', JNumber (NInt 1)),
           (''audit-replay-two-tenants-empty'', JNumber (NInt 1)),
           (''audit-replay-two-tenants-below-threshold'', JNumber (NInt 1)),
           (''audit-replay-single-tenant-empty'', JNumber (NInt 1))]),
        (''vectors'', JArray [])]"

text \<open>The rows of an envelope's coverage summary.\<close>

definition coverage_keys :: "json \<Rightarrow> string list" where
  "coverage_keys envelope =
     (case json_get envelope ''coverage_summary'' of Some (JObject rows) \<Rightarrow> map fst rows | _ \<Rightarrow> [])"

definition append_vectors ::
  "json_io \<Rightarrow> io_faults \<Rightarrow> string \<Rightarrow> json list \<Rightarrow> files \<Rightarrow> files \<times> (signer_error + unit)" where
  "append_vectors env io target new_vecs fs =
     (if path_extension target \<noteq> Some ''json'' then (fs, Inl (NotJsonExtension target))
      else
        case (if fs target \<noteq> None then parse_target env io fs target else Inr build_c2_envelope) of
          Inl e \<Rightarrow> (fs, Inl e)
        | Inr doc \<Rightarrow>
            (case document_vector_array doc of
               None \<Rightarrow> (fs, Inl NoVectorsArray)
             | Some vectors \<Rightarrow>
                 let existing_ids = List.map_filter vector_id vectors in
                 (case find (\<lambda>i. i \<in> set existing_ids) (map id_or_missing new_vecs) of
                    Some i \<Rightarrow> (fs, Inl (VectorIdExists i))
                  | None \<Rightarrow>
                      (case jio_to_string_pretty env (put_vectors doc (vectors @ new_vecs)) of
                         None \<Rightarrow> (fs, Inl SerializeFailed)
                       | Some out \<Rightarrow>
                           let (fs', ok) = fs_write io fs target (out @ [CHR 0x0A]) in
                           (fs', if ok then Inr () else Inl (WriteFailed target))))))"

section \<open>Patching\<close>

fun first_repeated :: "string set \<Rightarrow> string list \<Rightarrow> string option" where
  "first_repeated seen [] = None"
| "first_repeated seen (i # is') = (if i \<in> seen then Some i else first_repeated (insert i seen) is')"

definition position :: "('a \<Rightarrow> bool) \<Rightarrow> 'a list \<Rightarrow> nat option" where
  "position P xs = (let n = length (takeWhile (\<lambda>x. \<not> P x) xs) in if n < length xs then Some n else None)"

definition apply_patch :: "json list \<Rightarrow> string \<times> json \<Rightarrow> json list" where
  "apply_patch vectors p =
     (case position (\<lambda>v. vector_id v = Some (fst p)) vectors of
        Some i \<Rightarrow> vectors[i := snd p]
      | None \<Rightarrow> vectors @ [snd p])"

definition patch_vectors_in_file ::
  "json_io \<Rightarrow> io_faults \<Rightarrow> string \<Rightarrow> (string \<times> json) list \<Rightarrow> files \<Rightarrow> files \<times> (signer_error + unit)" where
  "patch_vectors_in_file env io target patches fs =
     (if path_extension target \<noteq> Some ''json'' then (fs, Inl (NotJsonExtension target))
      else if fs target = None then (fs, Inl (TargetMissing target))
      else
        case parse_target env io fs target of
          Inl e \<Rightarrow> (fs, Inl e)
        | Inr doc \<Rightarrow>
            (case document_vector_array doc of
               None \<Rightarrow> (fs, Inl NoVectorsArray)
             | Some vectors \<Rightarrow>
                 (case first_repeated {} (map fst patches) of
                    Some i \<Rightarrow> (fs, Inl (DuplicatePatchId i))
                  | None \<Rightarrow>
                      (case jio_to_string_pretty env (put_vectors doc (foldl apply_patch vectors patches)) of
                         None \<Rightarrow> (fs, Inl SerializeFailed)
                       | Some out \<Rightarrow>
                           let tmp = path_with_extension target ''json.tmp'';
                               (fs1, written) = fs_write io fs tmp (out @ [CHR 0x0A]) in
                           if \<not> written then (fs1, Inl (WriteFailed tmp))
                           else
                             let (fs2, renamed) = fs_rename io fs1 tmp target in
                             (fs2, if renamed then Inr () else Inl (RenameFailed tmp target))))))"

section \<open>The commands\<close>

text \<open>A \<open>gen-phase\<close> command on the vectors its builder gave: a dry run prints each of them and touches no file.\<close>

fun print_all :: "json_io \<Rightarrow> json list \<Rightarrow> string list \<Rightarrow> string list \<times> (signer_error + unit)" where
  "print_all env [] printed = (printed, Inr ())"
| "print_all env (v # vs) printed =
     (case jio_to_string_pretty env v of
        None \<Rightarrow> (printed, Inl SerializeFailed)
      | Some text \<Rightarrow> print_all env vs (printed @ [text]))"

definition run_gen_phase_c2 ::
  "json_io \<Rightarrow> io_faults \<Rightarrow> json list \<Rightarrow> bool \<Rightarrow> string \<Rightarrow> files \<Rightarrow> string list \<times> files \<times> (signer_error + unit)" where
  "run_gen_phase_c2 env io vectors dry_run target fs =
     (if dry_run then (let (printed, r) = print_all env vectors [] in (printed, fs, r))
      else ([], append_vectors env io target vectors fs))"

definition run_gen_with ::
  "json \<Rightarrow> json_io \<Rightarrow> io_faults \<Rightarrow> json list \<Rightarrow> bool \<Rightarrow> string \<Rightarrow> files \<Rightarrow> string list \<times> files \<times> (signer_error + unit)" where
  "run_gen_with envelope env io vectors dry_run target fs =
     (if dry_run then (let (printed, r) = print_all env vectors [] in (printed, fs, r))
      else ([], append_vectors_with_envelope env io target vectors envelope fs))"

definition run_gen_phase_c2_5 where "run_gen_phase_c2_5 = run_gen_with build_c2_5_envelope"

definition run_gen_phase_c3_c where "run_gen_phase_c3_c = run_gen_with build_c3_c_envelope"

definition run_gen_phase_c4_library where "run_gen_phase_c4_library = run_gen_with build_c4_library_envelope"

definition run_gen_phase_c4_detect where "run_gen_phase_c4_detect = run_gen_with build_c4_detect_envelope"

definition run_gen_phase_c4_audit where "run_gen_phase_c4_audit = run_gen_with build_c4_audit_envelope"

definition run_gen_fuzz_c3_c ::
  "json_io \<Rightarrow> io_faults \<Rightarrow> (string \<times> json) list \<Rightarrow> bool \<Rightarrow> string \<Rightarrow> files \<Rightarrow> string list \<times> files \<times> (signer_error + unit)" where
  "run_gen_fuzz_c3_c env io patches dry_run target fs =
     (if dry_run then
        (case jio_to_string_pretty env (JArray (map snd patches)) of
           None \<Rightarrow> ([], fs, Inl SerializeFailed)
         | Some text \<Rightarrow> ([text], fs, Inr ()))
      else ([], patch_vectors_in_file env io target patches fs))"

section \<open>The appender\<close>

lemma append_vectors_is_c2:
  "append_vectors env io target new_vecs fs =
     append_vectors_with_envelope env io target new_vecs build_c2_envelope fs"
  by (simp add: append_vectors_def append_vectors_with_envelope_def)

definition append_source :: "json_io \<Rightarrow> io_faults \<Rightarrow> string \<Rightarrow> json \<Rightarrow> files \<Rightarrow> signer_error + json" where
  "append_source env io target envelope fs =
     (if fs target \<noteq> None then parse_target env io fs target else Inr envelope)"

definition vector_ids :: "json list \<Rightarrow> string set" where
  "vector_ids vs = set (List.map_filter vector_id vs)"

lemma vector_ids_iff: "i \<in> vector_ids vs \<longleftrightarrow> list_ex (\<lambda>v. vector_id v = Some i) vs"
  by (auto simp: vector_ids_def map_filter_def list_ex_iff image_iff)

lemma find_id_None: "find (\<lambda>i. i \<in> A) xs = None \<longleftrightarrow> set xs \<inter> A = {}"
  by (auto simp: find_None_iff)

lemma find_id_Some: "find (\<lambda>i. i \<in> A) xs = Some i \<Longrightarrow> set xs \<inter> A \<noteq> {}"
  by (induction xs) (auto split: if_splits)

lemma append_fold:
  "append_vectors_with_envelope env io target new_vecs envelope fs =
     (if path_extension target \<noteq> Some ''json'' then (fs, Inl (NotJsonExtension target))
      else
        case append_source env io target envelope fs of
          Inl e \<Rightarrow> (fs, Inl e)
        | Inr doc \<Rightarrow>
            (case document_vector_array doc of
               None \<Rightarrow> (fs, Inl NoVectorsArray)
             | Some vectors \<Rightarrow>
                 (case find (\<lambda>i. i \<in> vector_ids vectors) (map id_or_missing new_vecs) of
                    Some i \<Rightarrow> (fs, Inl (VectorIdExists i))
                  | None \<Rightarrow>
                      (case jio_to_string_pretty env (put_vectors doc (vectors @ new_vecs)) of
                         None \<Rightarrow> (fs, Inl SerializeFailed)
                       | Some out \<Rightarrow>
                           (fst (fs_write io fs target (out @ [CHR 0x0A])),
                            if snd (fs_write io fs target (out @ [CHR 0x0A])) then Inr ()
                            else Inl (WriteFailed target))))))"
  unfolding append_vectors_with_envelope_def append_source_def vector_ids_def Let_def case_prod_beta by (rule refl)

lemma append_success:
  "snd (append_vectors_with_envelope env io target new_vecs envelope fs) = Inr () \<longleftrightarrow>
     path_extension target = Some ''json'' \<and> io_write_fate io target = Completed \<and>
     (\<exists>doc vectors out. append_source env io target envelope fs = Inr doc \<and>
        document_vector_array doc = Some vectors \<and> set (map id_or_missing new_vecs) \<inter> vector_ids vectors = {} \<and>
        jio_to_string_pretty env (put_vectors doc (vectors @ new_vecs)) = Some out \<and>
        fst (append_vectors_with_envelope env io target new_vecs envelope fs) = fs(target \<mapsto> out @ [CHR 0x0A]))"
  (is "?l \<longleftrightarrow> ?r")
proof
  assume ?l
  then show ?r
    by (auto simp: append_fold fs_write_def find_id_None dest!: find_id_Some
        split: if_splits sum.splits option.splits write_fate.splits)
next
  assume ?r
  then obtain doc vectors out where r: "append_source env io target envelope fs = Inr doc"
      "document_vector_array doc = Some vectors" "set (map id_or_missing new_vecs) \<inter> vector_ids vectors = {}"
      "jio_to_string_pretty env (put_vectors doc (vectors @ new_vecs)) = Some out"
      "path_extension target = Some ''json''" "io_write_fate io target = Completed" by blast
  from r(3) have "find (\<lambda>i. i \<in> vector_ids vectors) (map id_or_missing new_vecs) = None" by (simp only: find_id_None)
  with r show ?l by (simp add: append_fold fs_write_def)
qed

text \<open>The text an append means to write: there is one when the target has the extension \<open>json\<close>, the document (the
  fresh envelope, where there is no file) can be read and has an array \<open>vectors\<close>, no new id is the id of a vector in it,
  and the document with the new vectors at its end can be printed.\<close>

definition appended_text ::
  "json_io \<Rightarrow> io_faults \<Rightarrow> files \<Rightarrow> string \<Rightarrow> json list \<Rightarrow> json \<Rightarrow> string option" where
  "appended_text env io fs target new_vecs envelope =
     (if path_extension target = Some ''json'' then
        Option.bind
          (if fs target = None then Some envelope else Option.bind (read_to_string io fs target) (jio_from_str env))
          (\<lambda>doc. Option.bind (document_vector_array doc)
             (\<lambda>vectors.
                if \<exists>v \<in> set new_vecs. \<exists>w \<in> set vectors. vector_id w = Some (id_or_missing v) then None
                else map_option (\<lambda>out. out @ [CHR 0x0A]) (jio_to_string_pretty env (put_vectors doc (vectors @ new_vecs)))))
      else None)"

lemma append_source_doc:
  "(if fs target = None then Some envelope else Option.bind (read_to_string io fs target) (jio_from_str env)) =
     (case append_source env io target envelope fs of Inl _ \<Rightarrow> None | Inr doc \<Rightarrow> Some doc)"
  by (simp add: append_source_def parse_target_def split: option.split)

lemma duplicate_id_iff:
  "(\<exists>v \<in> set new_vecs. \<exists>w \<in> set vectors. vector_id w = Some (id_or_missing v)) \<longleftrightarrow>
     find (\<lambda>i. i \<in> vector_ids vectors) (map id_or_missing new_vecs) \<noteq> None"
  unfolding find_id_None disjoint_iff by (auto simp: vector_ids_iff list_ex_iff)

text \<open>C21: what an append does, and what every failure leaves behind.  Where there is no text to write, it fails and the
  file system is as it was.  Where there is one, the fate of the write decides: completed, the append succeeds and the
  target holds exactly this text; refused, it fails and nothing has changed; broken off after \<open>n\<close> bytes, it fails and the
  target holds the first \<open>n\<close> bytes of this same text, so that what was in it is lost.  Vectors of other ids in the file
  are no obstacle, nor are equal ids among the new vectors.\<close>

theorem append_outcome:
  "case appended_text env io fs target new_vecs envelope of
     None \<Rightarrow>
       fst (append_vectors_with_envelope env io target new_vecs envelope fs) = fs \<and>
       snd (append_vectors_with_envelope env io target new_vecs envelope fs) \<noteq> Inr ()
   | Some text \<Rightarrow>
       append_vectors_with_envelope env io target new_vecs envelope fs =
         (case io_write_fate io target of
            Completed \<Rightarrow> (fs(target \<mapsto> text), Inr ())
          | Refused \<Rightarrow> (fs, Inl (WriteFailed target))
          | Torn n \<Rightarrow> (fs(target \<mapsto> take n text), Inl (WriteFailed target)))"
  unfolding append_fold appended_text_def append_source_doc duplicate_id_iff
  by (auto simp: fs_write_def simp del: take_append split: sum.split option.split write_fate.split)

section \<open>The patcher\<close>

definition patched_text ::
  "json_io \<Rightarrow> io_faults \<Rightarrow> files \<Rightarrow> string \<Rightarrow> (string \<times> json) list \<Rightarrow> string option" where
  "patched_text env io fs target patches =
     (case parse_target env io fs target of
        Inl _ \<Rightarrow> None
      | Inr doc \<Rightarrow>
          (case document_vector_array doc of
             None \<Rightarrow> None
           | Some vectors \<Rightarrow> jio_to_string_pretty env (put_vectors doc (foldl apply_patch vectors patches))))"

lemma fs_write_other: "path \<noteq> p \<Longrightarrow> fst (fs_write io fs p contents) path = fs path"
  by (simp add: fs_write_def split: write_fate.split)

lemma fs_write_frame: "(fst (fs_write io fs p contents))(target := None, p := None) = fs(target := None, p := None)"
  by (auto simp: fs_write_def split: write_fate.split)

lemma fs_rename_frame:
  "(fst (fs_rename io fs from target))(target := None, from := None) = fs(target := None, from := None)"
  by (auto simp: fs_rename_def)

lemma fs_write_True: "snd (fs_write io fs p contents) \<Longrightarrow> fst (fs_write io fs p contents) = fs(p \<mapsto> contents)"
  by (simp add: fs_write_def split: write_fate.splits)

lemma fs_rename_False: "\<not> snd (fs_rename io fs from target) \<Longrightarrow> fst (fs_rename io fs from target) = fs"
  by (cases "io_rename_fails io from target \<or> fs from = None") (auto simp: fs_rename_def)

lemma fs_rename_True:
  "snd (fs_rename io fs from target) \<Longrightarrow> from \<noteq> target \<Longrightarrow>
     fst (fs_rename io fs from target) = fs(target := fs from, from := None)"
  by (cases "io_rename_fails io from target \<or> fs from = None") (auto simp: fs_rename_def)

definition replace_file ::
  "io_faults \<Rightarrow> files \<Rightarrow> string \<Rightarrow> string \<Rightarrow> string \<Rightarrow> files \<times> (signer_error + unit)" where
  "replace_file io fs tmp target contents =
     (let (fs1, written) = fs_write io fs tmp contents in
      if \<not> written then (fs1, Inl (WriteFailed tmp))
      else
        let (fs2, renamed) = fs_rename io fs1 tmp target in
        (fs2, if renamed then Inr () else Inl (RenameFailed tmp target)))"

lemma replace_file_atomic:
  assumes "tmp \<noteq> target"
  shows "let (fs', r) = replace_file io fs tmp target contents in
     fs'(target := None, tmp := None) = fs(target := None, tmp := None) \<and>
     (case r of Inl _ \<Rightarrow> fs' target = fs target | Inr _ \<Rightarrow> fs' target = Some contents \<and> fs' tmp = None)"
proof -
  obtain fs1 w where w: "fs_write io fs tmp contents = (fs1, w)" by (cases "fs_write io fs tmp contents")
  obtain fs2 n where n: "fs_rename io fs1 tmp target = (fs2, n)" by (cases "fs_rename io fs1 tmp target")
  have "fs1(target := None, tmp := None) = fs(target := None, tmp := None)"
    using fs_write_frame [of io fs tmp contents target] w by simp
  moreover have "fs2(target := None, tmp := None) = fs1(target := None, tmp := None)"
    using fs_rename_frame [of io fs1 tmp target] n by simp
  moreover have "fs1 target = fs target"
    using fs_write_other [of target tmp io fs contents] w assms by simp
  moreover have "w \<Longrightarrow> fs1 tmp = Some contents" using fs_write_True [of io fs tmp contents] w by simp
  moreover have "\<not> n \<Longrightarrow> fs2 = fs1" using fs_rename_False [of io fs1 tmp target] n by simp
  moreover have "n \<Longrightarrow> fs2 = fs1(target := fs1 tmp, tmp := None)"
    using fs_rename_True [of io fs1 tmp target] n assms by simp
  ultimately show ?thesis using assms by (auto simp: replace_file_def w n)
qed

lemma patch_fold:
  "patch_vectors_in_file env io target patches fs =
     (if path_extension target \<noteq> Some ''json'' then (fs, Inl (NotJsonExtension target))
      else if fs target = None then (fs, Inl (TargetMissing target))
      else
        case parse_target env io fs target of
          Inl e \<Rightarrow> (fs, Inl e)
        | Inr doc \<Rightarrow>
            (case document_vector_array doc of
               None \<Rightarrow> (fs, Inl NoVectorsArray)
             | Some vectors \<Rightarrow>
                 (case first_repeated {} (map fst patches) of
                    Some i \<Rightarrow> (fs, Inl (DuplicatePatchId i))
                  | None \<Rightarrow>
                      (case jio_to_string_pretty env (put_vectors doc (foldl apply_patch vectors patches)) of
                         None \<Rightarrow> (fs, Inl SerializeFailed)
                       | Some out \<Rightarrow>
                           replace_file io fs (path_with_extension target ''json.tmp'') target (out @ [CHR 0x0A])))))"
  unfolding patch_vectors_in_file_def replace_file_def Let_def case_prod_beta by (rule refl)

text \<open>C15: a patch is all or nothing, whatever the operating system does to it.  Only the target and its \<open>.json.tmp\<close>
  sibling can change; when the patch fails, also half way through the write or at the rename, the target is as it
  was, and when it succeeds the target is the whole patched document and the sibling is gone.\<close>

theorem patch_atomic:
  "let tmp = path_with_extension target ''json.tmp'';
       (fs', r) = patch_vectors_in_file env io target patches fs in
   fs'(target := None, tmp := None) = fs(target := None, tmp := None) \<and>
   (case r of
      Inl _ \<Rightarrow> fs' target = fs target
    | Inr _ \<Rightarrow> fs' target = map_option (\<lambda>out. out @ [CHR 0x0A]) (patched_text env io fs target patches) \<and> fs' tmp = None)"
proof (cases "path_extension target = Some ''json''")
  case True
  let ?tmp = "path_with_extension target ''json.tmp''"
  have "?tmp \<noteq> target" by (rule with_extension_differs [OF True]) simp
  note at = replace_file_atomic [OF this, of io fs, unfolded Let_def case_prod_beta]
  note frame = at [THEN conjunct1] and result = at [THEN conjunct2]
  show ?thesis
  proof (cases "\<exists>doc vectors out. fs target \<noteq> None \<and> parse_target env io fs target = Inr doc \<and>
      document_vector_array doc = Some vectors \<and> first_repeated {} (map fst patches) = None \<and>
      jio_to_string_pretty env (put_vectors doc (foldl apply_patch vectors patches)) = Some out")
    case True
    with \<open>path_extension target = Some ''json''\<close> obtain out where
      "patched_text env io fs target patches = Some out"
      "patch_vectors_in_file env io target patches fs =
         replace_file io fs (path_with_extension target ''json.tmp'') target (out @ [CHR 0x0A])"
      by (auto simp: patch_fold patched_text_def)
    then show ?thesis
      using result [of "out @ [CHR 0x0A]"] by (simp add: Let_def case_prod_beta frame split: sum.splits)
  next
    case False
    with \<open>path_extension target = Some ''json''\<close> have
      "fst (patch_vectors_in_file env io target patches fs) = fs"
      "\<exists>e. snd (patch_vectors_in_file env io target patches fs) = Inl e"
      by (auto simp: patch_fold split: sum.split option.split)
    then show ?thesis by (auto simp: Let_def case_prod_beta)
  qed
qed (simp add: patch_fold Let_def)

section \<open>What a patch list does\<close>

text \<open>Reference definition: the first vector of each patched id is replaced where it stands, and the patches of ids
  that do not occur follow at the end, in order.\<close>

fun replace_first :: "(string \<Rightarrow> json option) \<Rightarrow> json list \<Rightarrow> json list" where
  "replace_first m [] = []"
| "replace_first m (v # vs) =
     (case vector_id v of
        None \<Rightarrow> v # replace_first m vs
      | Some i \<Rightarrow> (case m i of None \<Rightarrow> v | Some n \<Rightarrow> n) # replace_first (m(i := None)) vs)"

definition patches_ok :: "(string \<times> json) list \<Rightarrow> bool" where
  "patches_ok patches \<longleftrightarrow> distinct (map fst patches) \<and> list_all (\<lambda>p. vector_id (snd p) = Some (fst p)) patches"

lemma position_Nil [simp]: "position P [] = None"
  by (simp add: position_def)

lemma position_Cons [simp]:
  "position P (x # xs) = (if P x then Some 0 else map_option Suc (position P xs))"
  by (simp add: position_def Let_def)

lemma apply_patch_Nil [simp]: "apply_patch [] p = [snd p]"
  by (simp add: apply_patch_def)

lemma apply_patch_Cons [simp]:
  "apply_patch (v # vs) p = (if vector_id v = Some (fst p) then snd p # vs else v # apply_patch vs p)"
  by (simp add: apply_patch_def split: option.split)

lemma vector_ids_simps [simp]:
  "vector_ids [] = {}"
  "vector_ids (v # vs) = (case vector_id v of None \<Rightarrow> vector_ids vs | Some i \<Rightarrow> insert i (vector_ids vs))"
  by (simp_all add: vector_ids_def map_filter_def split: option.split)

lemma ids_apply_patch:
  "vector_id (snd p) = Some (fst p) \<Longrightarrow> vector_ids (apply_patch vs p) = insert (fst p) (vector_ids vs)"
  by (induction vs) (auto split: option.split)

lemma replace_first_cong: "(\<And>i. i \<in> vector_ids vs \<Longrightarrow> m i = m' i) \<Longrightarrow> replace_first m vs = replace_first m' vs"
proof (induction vs arbitrary: m m')
  case (Cons v vs)
  show ?case
  proof (cases "vector_id v")
    case None
    have "replace_first m vs = replace_first m' vs"
      by (rule Cons.IH, rule Cons.prems) (simp add: None)
    with None show ?thesis by simp
  next
    case (Some i)
    have "replace_first (m(i := None)) vs = replace_first (m'(i := None)) vs"
      by (rule Cons.IH) (simp add: Some Cons.prems)
    moreover have "m i = m' i" by (rule Cons.prems) (simp add: Some)
    ultimately show ?thesis by (simp add: Some)
  qed
qed simp

lemma replace_first_apply:
  assumes "vector_id (snd p) = Some (fst p)"
  shows "m (fst p) = None \<Longrightarrow>
     replace_first m (apply_patch vs p) =
       (if fst p \<in> vector_ids vs then replace_first (m(fst p \<mapsto> snd p)) vs else replace_first m vs @ [snd p])"
proof (induction vs arbitrary: m)
  case Nil
  then show ?case by (simp add: assms)
next
  case (Cons v vs)
  show ?case
  proof (cases "vector_id v")
    case None
    then show ?thesis using Cons.IH [of m, OF Cons.prems] by (simp only: apply_patch_Cons replace_first.simps vector_ids_simps
        option.case option.distinct if_False append_Cons split: if_split) simp
  next
    case (Some i)
    show ?thesis
    proof (cases "i = fst p")
      case True
      have "m(fst p := None) = m" using Cons.prems by (simp add: fun_upd_idem)
      with True Some Cons.prems assms show ?thesis by simp
    next
      case False
      have none: "(m(i := None)) (fst p) = None" using Cons.prems by simp
      have twist: "m(fst p \<mapsto> snd p, i := None) = m(i := None, fst p \<mapsto> snd p)"
        using False by (simp add: fun_upd_twist)
      have "replace_first (m(i := None)) (apply_patch vs p) =
          (if fst p \<in> vector_ids vs then replace_first (m(i := None, fst p \<mapsto> snd p)) vs
           else replace_first (m(i := None)) vs @ [snd p])"
        by (rule Cons.IH) (rule none)
      then show ?thesis using False
        by (simp only: apply_patch_Cons replace_first.simps vector_ids_simps Some option.case option.inject if_False
            twist fun_upd_other not_False_eq_True insert_iff append_Cons split: if_split) simp
    qed
  qed
qed

lemma replace_first_empty [simp]: "replace_first (\<lambda>_. None) vs = vs"
  by (induction vs) (simp_all split: option.split)

lemma patches_fold:
  "patches_ok patches \<Longrightarrow>
   foldl apply_patch vs patches =
     replace_first (map_of patches) vs @ map snd (filter (\<lambda>p. fst p \<notin> vector_ids vs) patches)"
proof (induction patches arbitrary: vs)
  case (Cons p ps)
  then have p: "vector_id (snd p) = Some (fst p)" "fst p \<notin> fst ` set ps" "patches_ok ps" by (auto simp: patches_ok_def)
  then have "map_of ps (fst p) = None" by (simp add: map_of_eq_None_iff)
  note rf = replace_first_apply [where m = "map_of ps", OF p(1) this, of vs]
  have others: "filter (\<lambda>q. fst q \<notin> vector_ids (apply_patch vs p)) ps = filter (\<lambda>q. fst q \<notin> vector_ids vs) ps"
    by (intro filter_cong refl) (metis ids_apply_patch [OF p(1)] image_eqI insert_iff p(2))
  have new: "fst p \<notin> vector_ids vs \<Longrightarrow> replace_first (map_of (p # ps)) vs = replace_first (map_of ps) vs"
    by (rule replace_first_cong) (cases p, simp, metis)
  show ?case using Cons.IH [OF p(3), of "apply_patch vs p"] rf others new by (cases p) (auto simp: fun_upd_def)
qed simp

lemma find_apply_patch:
  assumes "vector_id (snd p) = Some (fst p)"
  shows "find (\<lambda>v. vector_id v = Some (fst p)) (apply_patch vs p) = Some (snd p)"
    and "i \<noteq> fst p \<Longrightarrow> find (\<lambda>v. vector_id v = Some i) (apply_patch vs p) = find (\<lambda>v. vector_id v = Some i) vs"
  by (induction vs) (use assms in auto)

lemma find_patches:
  "patches_ok patches \<Longrightarrow> i \<notin> fst ` set patches \<Longrightarrow>
     find (\<lambda>v. vector_id v = Some i) (foldl apply_patch vs patches) = find (\<lambda>v. vector_id v = Some i) vs"
proof (induction patches arbitrary: vs)
  case (Cons p ps)
  then show ?case by (simp add: patches_ok_def find_apply_patch(2))
qed simp

lemma patched_find:
  "patches_ok patches \<Longrightarrow> p \<in> set patches \<Longrightarrow>
     find (\<lambda>v. vector_id v = Some (fst p)) (foldl apply_patch vs patches) = Some (snd p)"
proof (induction patches arbitrary: vs)
  case (Cons q qs)
  from Cons.prems(1) have q: "vector_id (snd q) = Some (fst q)" "fst q \<notin> fst ` set qs" "patches_ok qs"
    by (auto simp: patches_ok_def)
  show ?case
  proof (cases "p \<in> set qs")
    case True
    with Cons.IH [OF q(3)] show ?thesis by simp
  next
    case False
    with Cons.prems(2) have "p = q" by simp
    with find_patches [OF q(3,2)] find_apply_patch(1) [OF q(1)] show ?thesis by simp
  qed
qed simp

lemma apply_patch_found: "find (\<lambda>v. vector_id v = Some (fst p)) vs = Some (snd p) \<Longrightarrow> apply_patch vs p = vs"
  by (induction vs) (auto split: if_splits)

lemma patches_unchanged:
  "(\<And>p. p \<in> set patches \<Longrightarrow> find (\<lambda>v. vector_id v = Some (fst p)) vs = Some (snd p)) \<Longrightarrow>
     foldl apply_patch vs patches = vs"
  by (induction patches) (simp_all add: apply_patch_found)

lemma patches_idempotent:
  "patches_ok patches \<Longrightarrow> foldl apply_patch (foldl apply_patch vs patches) patches = foldl apply_patch vs patches"
  by (rule patches_unchanged) (rule patched_find)

text \<open>The loop of the patcher against its reference definition, for patches with distinct ids that name the
  vectors they carry: the first vector of every patched id is replaced in its place, no other vector moves or
  changes, ids that are new go to the end in the order of the patches - and patching twice is patching once.\<close>

theorem patch_list:
  assumes "patches_ok patches"
  shows "foldl apply_patch vectors patches =
       replace_first (map_of patches) vectors @ map snd (filter (\<lambda>p. fst p \<notin> vector_ids vectors) patches) \<and>
     foldl apply_patch (foldl apply_patch vectors patches) patches = foldl apply_patch vectors patches"
  using patches_fold [OF assms] patches_idempotent [OF assms] by (intro conjI)

definition sample_vector :: "string \<Rightarrow> nat \<Rightarrow> json" where
  "sample_vector i n = JObject [(''id'', JString i), (''n'', JNumber (NInt (int n)))]"

lemma sample_vector_id [simp]: "vector_id (sample_vector i n) = Some i"
  by (simp add: vector_id_def sample_vector_def)

lemma patch_list_witness:
  "foldl apply_patch [sample_vector ''fuzz-190'' 0, sample_vector ''fuzz-191'' 0]
     [(''fuzz-200'', sample_vector ''fuzz-200'' 1), (''fuzz-190'', sample_vector ''fuzz-190'' 1)] =
   [sample_vector ''fuzz-190'' 1, sample_vector ''fuzz-191'' 0, sample_vector ''fuzz-200'' 1]"
  using patch_list [of "[(''fuzz-200'', sample_vector ''fuzz-200'' 1), (''fuzz-190'', sample_vector ''fuzz-190'' 1)]"
      "[sample_vector ''fuzz-190'' 0, sample_vector ''fuzz-191'' 0]"]
  by (simp add: patches_ok_def)

section \<open>Appending twice\<close>

lemma document_vectors_put [simp]:
  "document_vector_array doc = Some vs \<Longrightarrow> document_vector_array (put_vectors doc ws) = Some ws"
proof (cases doc)
  case (JObject kvs)
  assume "document_vector_array doc = Some vs"
  with JObject have "map_of kvs ''vectors'' \<noteq> None" by (simp add: document_vector_array_def bind_eq_Some_conv) blast
  then have "map_of (map (\<lambda>kv. if fst kv = ''vectors'' then (''vectors'', JArray ws) else kv) kvs) ''vectors'' =
      Some (JArray ws)"
    by (induction kvs) auto
  with JObject show ?thesis by (simp add: document_vector_array_def)
qed (simp_all add: document_vector_array_def)

lemma append_again:
  assumes "append_vectors_with_envelope env io target new_vecs envelope fs = (fs', Inr ())"
    and "\<And>d out. jio_to_string_pretty env d = Some out \<Longrightarrow>
       jio_from_str env (out @ [CHR 0x0A]) = Some d \<and> utf8_valid (out @ [CHR 0x0A])"
    and "\<not> io_read_denied io target" "list_ex (\<lambda>v. vector_id v \<noteq> None) new_vecs"
  shows "\<exists>i. append_vectors_with_envelope env io target new_vecs envelope fs' = (fs', Inl (VectorIdExists i))"
proof -
  from assms(1) append_success [of env io target new_vecs envelope fs] obtain doc vectors out where d:
      "path_extension target = Some ''json''" "document_vector_array doc = Some vectors"
      "jio_to_string_pretty env (put_vectors doc (vectors @ new_vecs)) = Some out" "fs' = fs(target \<mapsto> out @ [CHR 0x0A])"
    by auto
  from assms(2) [OF d(3)] assms(3) d(4)
  have source: "append_source env io target envelope fs' = Inr (put_vectors doc (vectors @ new_vecs))"
    by (simp add: append_source_def parse_target_def read_to_string_def)
  from assms(4) obtain v i where v: "v \<in> set new_vecs" "vector_id v = Some i" by (auto simp: list_ex_iff)
  have "id_or_missing v = i" by (simp add: id_or_missing_def v)
  with v have "i \<in> vector_ids (vectors @ new_vecs)" "i \<in> set (map id_or_missing new_vecs)"
    by (auto simp: vector_ids_iff list_ex_iff)
  then have "find (\<lambda>i. i \<in> vector_ids (vectors @ new_vecs)) (map id_or_missing new_vecs) \<noteq> None"
    unfolding find_id_None by blast
  then show ?thesis using d(1) source document_vectors_put [OF d(2)] by (auto simp: append_fold)
qed

text \<open>A generator run twice on one file appends once: after an append that succeeded, with a parser that reads back
  what the printer wrote, the same append is refused by a duplicate id and leaves the file as it is.\<close>

theorem append_once:
  assumes "append_vectors_with_envelope env io target new_vecs envelope fs = (fs', Inr ())"
    and "\<And>d out. jio_to_string_pretty env d = Some out \<Longrightarrow>
       jio_from_str env (out @ [CHR 0x0A]) = Some d \<and> utf8_valid (out @ [CHR 0x0A])"
    and "\<not> io_read_denied io target" "list_ex (\<lambda>v. vector_id v \<noteq> None) new_vecs"
  shows "\<exists>i. append_vectors_with_envelope env io target new_vecs envelope fs' = (fs', Inl (VectorIdExists i))"
  by (rule append_again [OF assms])

text \<open>A printer for one document only; \<open>to_string_pretty\<close> may fail on any other.\<close>

definition sample_doc :: json where
  "sample_doc = JObject [(''vectors'', JArray [sample_vector ''adet-100'' 0])]"

definition sample_json_io :: json_io where
  "sample_json_io = \<lparr>jio_from_str = (\<lambda>s. if s = ''{}'' @ [CHR 0x0A] then Some sample_doc else None),
     jio_to_string_pretty = (\<lambda>d. if d = sample_doc then Some ''{}'' else None)\<rparr>"

definition no_faults :: io_faults where
  "no_faults = \<lparr>io_read_denied = (\<lambda>_. False), io_write_fate = (\<lambda>_. Completed), io_rename_fails = (\<lambda>_ _. False)\<rparr>"

lemma sample_extension: "path_extension ''a.json'' = Some ''json''"
  by (simp add: path_extension_def path_file_name_def rsplit_at_dot_def)

lemma utf8_braces: "utf8_valid (''{}'' @ [CHR 0x0A])"
  by (simp add: byte_def)

lemma append_once_witness:
  "\<exists>i. append_vectors_with_envelope sample_json_io no_faults ''a.json'' [sample_vector ''adet-100'' 0]
     (JObject [(''vectors'', JArray [])]) [''a.json'' \<mapsto> ''{}'' @ [CHR 0x0A]] =
     ([''a.json'' \<mapsto> ''{}'' @ [CHR 0x0A]], Inl (VectorIdExists i))"
proof (rule append_once [where fs = "\<lambda>_. None"])
  show "append_vectors_with_envelope sample_json_io no_faults ''a.json'' [sample_vector ''adet-100'' 0]
     (JObject [(''vectors'', JArray [])]) (\<lambda>_. None) = ([''a.json'' \<mapsto> ''{}'' @ [CHR 0x0A]], Inr ())"
    by (simp add: append_fold sample_extension append_source_def document_vector_array_def sample_json_io_def
        sample_doc_def no_faults_def fs_write_def)
  fix d out
  assume "jio_to_string_pretty sample_json_io d = Some out"
  then have "out = ''{}''" "d = sample_doc" by (simp_all add: sample_json_io_def split: if_splits)
  then show "jio_from_str sample_json_io (out @ [CHR 0x0A]) = Some d \<and> utf8_valid (out @ [CHR 0x0A])"
    using utf8_braces by (simp only: sample_json_io_def json_io.select_convs if_True simp_thms)
qed (simp_all add: no_faults_def)

end
