(* ===== verification/Library_Vectors.thy ===== *)
theory Library_Vectors
  imports Fixtures Vector_Files
begin

text \<open>
  \<open>tools/vector-signer/src/phase_c4_library.rs\<close>: the seventeen vectors of the anomaly-library suite, alrej-100 to alrej-116,
  built from the fixtures as the generator builds them, and \<open>build_all\<close>, which lists them.  A builder that panics -
  the \<open>expect\<close> of alrej-100, the unsupported combinations of \<open>build_vector\<close> - has the value \<open>None\<close>.
\<close>

section \<open>Constants and helpers\<close>

definition CURRENT_TIME :: string where "CURRENT_TIME = ''2026-05-01T00:00:00Z''"

definition FUTURE_ISSUED_AT :: int where "FUTURE_ISSUED_AT = 1900000000"

definition FUTURE_EXPIRES_AT :: int where "FUTURE_EXPIRES_AT = 2000000000"

definition PAST_ISSUED_AT :: int where "PAST_ISSUED_AT = 1500000000"

definition PAST_EXPIRES_AT :: int where "PAST_EXPIRES_AT = 1600000000"

definition IMPOSTOR_OUTER_KID :: string where "IMPOSTOR_OUTER_KID = ''K_impostor_anomaly_pk''"

definition build_custom_payload :: "pattern_entry list \<Rightarrow> anomaly_library_payload" where
  "build_custom_payload patterns =
     \<lparr>pl_abi_version = ANOMALY_LIBRARY_ABI_VERSION, pl_signer_kid = FIXTURE_ANOMALY_KID,
      pl_library_id = FIXTURE_ANOMALY_LIBRARY_ID, pl_library_version = 1,
      pl_issued_at = FIXTURE_ANOMALY_ISSUED_AT, pl_expires_at = FIXTURE_ANOMALY_EXPIRES_AT, pl_patterns = patterns\<rparr>"

definition anchor_def :: "('pk, 'sig) signer_kit \<Rightarrow> string \<Rightarrow> json" where
  "anchor_def kit kid =
     JArray
       [JObject
         [(''kid'', JString kid), (''alg'', JString ''ed25519''),
          (''pk_hex'', JString (kt_hex_encode kit (fixture_anomaly_verifying_key_bytes kit)))]]"

definition json_nat :: "nat \<Rightarrow> json" where "json_nat n = JNumber (NInt (int n))"

definition library_input_json :: "string \<Rightarrow> json \<Rightarrow> nat \<Rightarrow> json option \<Rightarrow> json" where
  "library_input_json cose_hex anchors expected_abi_version pre_ledger =
     JObject
       ([(''cose_sign1_bytes_anomaly_library'', JString cose_hex), (''trust_anchor_keys_anomaly_library'', anchors),
         (''expected_abi_version'', json_nat expected_abi_version), (''current_time'', JString CURRENT_TIME)] @
        (case pre_ledger of None \<Rightarrow> [] | Some pl \<Rightarrow> [(''pre_ledger'', pl)]))"

definition expected_json :: "string \<Rightarrow> string option \<Rightarrow> json option" where
  "expected_json outcome reject_code =
     (if outcome = ''reject'' then
        (case reject_code of
           Some code \<Rightarrow> Some (JObject [(''outcome'', JString ''reject''), (''reject_code'', JString code)])
         | None \<Rightarrow> None)
      else if outcome = ''accept'' \<and> reject_code = None then Some (JObject [(''outcome'', JString ''accept'')])
      else None)"

definition build_vector ::
  "string \<Rightarrow> string \<Rightarrow> string \<Rightarrow> string \<Rightarrow> string \<Rightarrow> json \<Rightarrow> nat \<Rightarrow> json option \<Rightarrow> string \<Rightarrow> string option \<Rightarrow> string \<Rightarrow>
   json option" where
  "build_vector i category description rationale cose_hex anchors expected_abi_version pre_ledger outcome reject_code sev =
     (case expected_json outcome reject_code of
        None \<Rightarrow> None
      | Some expected \<Rightarrow>
          Some (JObject
            [(''id'', JString i), (''category'', JString category), (''description'', JString description),
             (''input'', library_input_json cose_hex anchors expected_abi_version pre_ledger),
             (''expected'', expected), (''rationale'', JString rationale),
             (''redteam_refs'', JArray [JString ''PHASE-C4-LIVE'']), (''severity_if_failed'', JString sev)]))"

definition seeded_pre_ledger :: json where
  "seeded_pre_ledger = JObject [(FIXTURE_ANOMALY_LIBRARY_ID, json_nat 5)]"

section \<open>The payloads of the vectors\<close>

text \<open>The payload each builder binds, under the number of its vector.\<close>

definition payload_102 :: anomaly_library_payload where
  "payload_102 =
     \<lparr>pl_abi_version = 2, pl_signer_kid = FIXTURE_ANOMALY_KID, pl_library_id = FIXTURE_ANOMALY_LIBRARY_ID,
      pl_library_version = 1, pl_issued_at = FIXTURE_ANOMALY_ISSUED_AT, pl_expires_at = FIXTURE_ANOMALY_EXPIRES_AT,
      pl_patterns = minimum_anomaly_library_patterns\<rparr>"

definition payload_104 :: anomaly_library_payload where
  "payload_104 =
     \<lparr>pl_abi_version = ANOMALY_LIBRARY_ABI_VERSION, pl_signer_kid = FIXTURE_ANOMALY_KID, pl_library_id = FIXTURE_ANOMALY_LIBRARY_ID,
      pl_library_version = 1, pl_issued_at = FUTURE_ISSUED_AT, pl_expires_at = FUTURE_EXPIRES_AT,
      pl_patterns = minimum_anomaly_library_patterns\<rparr>"

definition payload_105 :: anomaly_library_payload where
  "payload_105 =
     \<lparr>pl_abi_version = ANOMALY_LIBRARY_ABI_VERSION, pl_signer_kid = FIXTURE_ANOMALY_KID, pl_library_id = FIXTURE_ANOMALY_LIBRARY_ID,
      pl_library_version = 1, pl_issued_at = PAST_ISSUED_AT, pl_expires_at = PAST_EXPIRES_AT,
      pl_patterns = minimum_anomaly_library_patterns\<rparr>"

definition payload_106 :: anomaly_library_payload where
  "payload_106 =
     \<lparr>pl_abi_version = ANOMALY_LIBRARY_ABI_VERSION, pl_signer_kid = FIXTURE_ANOMALY_KID, pl_library_id = FIXTURE_ANOMALY_LIBRARY_ID,
      pl_library_version = 1, pl_issued_at = FIXTURE_ANOMALY_ISSUED_AT, pl_expires_at = FIXTURE_ANOMALY_EXPIRES_AT,
      pl_patterns = minimum_anomaly_library_patterns @ [delete_storm_pattern]\<rparr>"

definition payload_107 :: anomaly_library_payload where
  "payload_107 =
     build_custom_payload
       [machine_pace_pattern\<lparr>severity_of := Critical\<rparr>]"

definition payload_108 :: anomaly_library_payload where
  "payload_108 =
     build_custom_payload
       [iam_attach_policy_storm_pattern
         \<lparr>scope := IamAttachFamily ''not-a-real-family'' mandate_scope_default, firing_rule_companions := []\<rparr>]"

definition payload_109 :: anomaly_library_payload where
  "payload_109 =
     build_custom_payload
       [delete_storm_pattern\<lparr>firing_rule_companions := []\<rparr>]"

definition payload_110 :: anomaly_library_payload where
  "payload_110 =
     build_custom_payload
       [delete_storm_pattern\<lparr>firing_rule_companions := [''does-not-exist-companion'']\<rparr>]"

definition payload_111 :: anomaly_library_payload where
  "payload_111 =
     build_custom_payload
       [delete_storm_pattern,
        delete_slow_burn_pattern
          \<lparr>firing_rule_of := FirstMatch, window_seconds := Some 4000, firing_rule_companions := []\<rparr>]"

definition payload_112 :: anomaly_library_payload where
  "payload_112 =
     build_custom_payload
       [delete_storm_pattern, delete_slow_burn_pattern\<lparr>window_seconds := Some 500\<rparr>]"

section \<open>The vectors\<close>

definition build_alrej_100_cose_verify_tampered :: "('pk, 'sig) signer_kit \<Rightarrow> json option" where
  "build_alrej_100_cose_verify_tampered kit =
     (let env = sign_minimum_library_with_version kit 1 in
      case tamper_payload_byte kit (kt_hex_encode kit env) of
        Inl _ \<Rightarrow> None
      | Inr hex \<Rightarrow>
       build_vector
         ''alrej-100'' ''anomaly-library-cose-verify-tampered''
         (''Phase C.4 live-crypto vector: a valid MINIMUM anomaly-library COSE_Sign1 envelope with the first inn'' @
          ''er-payload byte flipped after signing. The outer Ed25519 MAC fails, anomaly-library verification sur'' @
          ''faces as anomaly-library-signature-invalid.'')
         (''design-final.md '' @ [CHR 0xC2, CHR 0xA7] @ ''3.5.1 + RFC 9052 '' @ [CHR 0xC2, CHR 0xA7] @
          ''4.4: the anomaly-library envelope is protected identically to tariff and classifier envelopes. Any p'' @
          ''ost-signing mutation of the signed bytes breaks the MAC; the live path must detect what a stateless '' @
          ''bool never could.'')
         hex (anchor_def kit FIXTURE_ANOMALY_KID)
         ANOMALY_LIBRARY_ABI_VERSION None ''reject''
         (Some ''anomaly-library-signature-invalid'') ''critical'')"

definition build_alrej_101_payload_not_cbor :: "('pk, 'sig) signer_kit \<Rightarrow> json option" where
  "build_alrej_101_payload_not_cbor kit =
     (let env = sign_anomaly_library_envelope_raw kit ''this is not cbor'' FIXTURE_ANOMALY_KID ANOMALY_LIBRARY_AAD
             FIXTURE_ANOMALY_SIGNING_SEED in
       build_vector
         ''alrej-101'' ''anomaly-library-payload-not-cbor''
         (''Phase C.4 live-crypto vector: the outer COSE_Sign1 signature verifies (correct kid, correct AAD, cor'' @
          ''rect key) but the inner payload is arbitrary ASCII bytes rather than the expected ciborium-encoded A'' @
          ''nomalyLibraryPayload. Decode rejects at parse time.'')
         (''design-final.md '' @ [CHR 0xC2, CHR 0xA7] @
          ''3.5.1: the inner payload contract is structural CBOR under a fixed schema. A malformed inner payload'' @
          '' that still verifies at the COSE layer MUST surface as a payload decode failure, not be silently acc'' @
          ''epted '' @ [CHR 0xE2, CHR 0x80, CHR 0x94] @
          '' silent acceptance would let a signer rotate to arbitrary bytes and defeat the entire structural-val'' @
          ''idation stage.'')
         (kt_hex_encode kit env) (anchor_def kit FIXTURE_ANOMALY_KID)
         ANOMALY_LIBRARY_ABI_VERSION None ''reject''
         (Some ''anomaly-library-signature-payload-malformed'') ''critical'')"

definition build_alrej_102_abi_version_mismatch :: "('pk, 'sig) signer_kit \<Rightarrow> json option" where
  "build_alrej_102_abi_version_mismatch kit =
     (let env = sign_anomaly_library_envelope kit payload_102 FIXTURE_ANOMALY_SIGNING_SEED in
       build_vector
         ''alrej-102'' ''anomaly-library-abi-version-mismatch''
         (''Phase C.4 live-crypto vector: anomaly-library envelope signed with abi_version=2 but the validator p'' @
          ''ins abi_version=1 (ANOMALY_LIBRARY_ABI_VERSION). Mismatch rejects before any Stage-5+ field is consu'' @
          ''lted.'')
         (''design-final.md '' @ [CHR 0xC2, CHR 0xA7] @
          ''3.5.1: abi_version is how a signer declares which library generation this envelope commits to. A sta'' @
          ''le or forward-rolled version must be caught before trust is extended to the pattern table '' @
          [CHR 0xE2, CHR 0x80, CHR 0x94] @ '' a higher abi could imply changed scope-predicate or firing-rule semantics.'')
         (kt_hex_encode kit env) (anchor_def kit FIXTURE_ANOMALY_KID)
         ANOMALY_LIBRARY_ABI_VERSION None ''reject''
         (Some ''anomaly-library-abi-version-mismatch'') ''critical'')"

definition build_alrej_103_signer_kid_mismatch :: "('pk, 'sig) signer_kit \<Rightarrow> json option" where
  "build_alrej_103_signer_kid_mismatch kit =
     (let env = sign_anomaly_library_envelope_raw kit (cbor_encode_anomaly_payload kit minimum_anomaly_library_payload)
             IMPOSTOR_OUTER_KID ANOMALY_LIBRARY_AAD FIXTURE_ANOMALY_SIGNING_SEED in
       build_vector
         ''alrej-103'' ''anomaly-library-signer-kid-mismatch''
         (''Phase C.4 live-crypto vector: outer COSE_Sign1 header kid is K_impostor_anomaly_pk (anchor registers'' @
          '' this kid against the real fixture pubkey so the outer MAC verifies); inner CBOR payload'' @ [CHR 0x27] @
          ''s signer_kid is K_fixture_anomaly_pk. Inner/outer mismatch MUST reject with anomaly-library-signer-k'' @
          ''id-mismatch.'')
         (''design-final.md '' @ [CHR 0xC2, CHR 0xA7] @
          ''3.5.1: duplicating signer identity inside the signed payload is defense-in-depth against outer-heade'' @
          ''r substitution. An attacker who can rewrite the outer kid but not the inner bytes must still be caug'' @
          ''ht by the consistency gate '' @ [CHR 0xE2, CHR 0x80, CHR 0x94] @ '' this vector pins that gate.'')
         (kt_hex_encode kit env) (anchor_def kit IMPOSTOR_OUTER_KID)
         ANOMALY_LIBRARY_ABI_VERSION None ''reject''
         (Some ''anomaly-library-signer-kid-mismatch'') ''critical'')"

definition build_alrej_104_not_yet_valid :: "('pk, 'sig) signer_kit \<Rightarrow> json option" where
  "build_alrej_104_not_yet_valid kit =
     (let env = sign_anomaly_library_envelope kit payload_104 FIXTURE_ANOMALY_SIGNING_SEED in
       build_vector
         ''alrej-104'' ''anomaly-library-not-yet-valid''
         (''Phase C.4 live-crypto vector: validly-signed envelope with an issued_at in the future (year 2030) re'' @
          ''lative to the verifier clock (year 2026). Time-bounds check rejects with anomaly-library-not-yet-val'' @
          ''id before Stage-7 pattern-body invariants run.'')
         (''design-final.md '' @ [CHR 0xC2, CHR 0xA7] @ ''3.5.1: the validity window is the operator'' @ [CHR 0x27] @
          ''s declaration of WHEN this library is authoritative. A future- dated library has not yet taken effec'' @
          ''t; consuming it now would let a signer pre-roll a library and ship it silently ahead of schedule. Th'' @
          ''e verifier'' @ [CHR 0x27] @ ''s clock is the source of truth, not the envelope'' @ [CHR 0x27] @ ''s.'')
         (kt_hex_encode kit env) (anchor_def kit FIXTURE_ANOMALY_KID)
         ANOMALY_LIBRARY_ABI_VERSION None ''reject''
         (Some ''anomaly-library-not-yet-valid'') ''critical'')"

definition build_alrej_105_expired :: "('pk, 'sig) signer_kit \<Rightarrow> json option" where
  "build_alrej_105_expired kit =
     (let env = sign_anomaly_library_envelope kit payload_105 FIXTURE_ANOMALY_SIGNING_SEED in
       build_vector
         ''alrej-105'' ''anomaly-library-expired''
         (''Phase C.4 live-crypto vector: validly-signed envelope with an expires_at in the past (year 2020) rel'' @
          ''ative to the verifier clock (year 2026). Time-bounds check rejects with anomaly-library-expired befo'' @
          ''re Stage-7 pattern-body invariants run.'')
         (''design-final.md '' @ [CHR 0xC2, CHR 0xA7] @
          ''3.5.1: an expired library is stale detection surface. Continuing to evaluate its patterns after expi'' @
          ''ry would let obsolete signer-approved behaviour outlive the operator'' @ [CHR 0x27] @
          ''s intent. Reject at the envelope boundary, before the pattern table is trusted.'')
         (kt_hex_encode kit env) (anchor_def kit FIXTURE_ANOMALY_KID)
         ANOMALY_LIBRARY_ABI_VERSION None ''reject''
         (Some ''anomaly-library-expired'') ''critical'')"

definition build_alrej_106_pattern_id_duplicate :: "('pk, 'sig) signer_kit \<Rightarrow> json option" where
  "build_alrej_106_pattern_id_duplicate kit =
     (let env = sign_anomaly_library_envelope kit payload_106 FIXTURE_ANOMALY_SIGNING_SEED in
       build_vector
         ''alrej-106'' ''anomaly-library-pattern-id-duplicate''
         (''Phase C.4 live-crypto vector: MINIMUM library with a duplicated `delete-storm` row appended at the e'' @
          ''nd of the patterns array. Stage 7a pairwise uniqueness check surfaces the collision before Stage 7b/'' @
          ''7c/7d run.'')
         (''design-final.md '' @ [CHR 0xC2, CHR 0xA7] @
          ''4.2.1 R7.C6: patterns is a SET keyed by pattern_id. A duplicate would create ambiguity at dispatch t'' @
          ''ime '' @ [CHR 0xE2, CHR 0x80, CHR 0x94] @ '' the evaluator would not know which row'' @ [CHR 0x27] @
          ''s thresholds and companions apply. Reject at library-load time.'')
         (kt_hex_encode kit env) (anchor_def kit FIXTURE_ANOMALY_KID)
         ANOMALY_LIBRARY_ABI_VERSION None ''reject''
         (Some ''anomaly-library-pattern-id-duplicate'') ''high'')"

definition build_alrej_107_severity_action_inconsistent :: "('pk, 'sig) signer_kit \<Rightarrow> json option" where
  "build_alrej_107_severity_action_inconsistent kit =
     (let env = sign_anomaly_library_envelope kit payload_107 FIXTURE_ANOMALY_SIGNING_SEED in
       build_vector
         ''alrej-107'' ''anomaly-library-severity-action-inconsistent''
         (''Phase C.4 live-crypto vector: single-pattern library where a pattern declares severity=Critical but '' @
          ''action=Alert. Per '' @ [CHR 0xC2, CHR 0xA7] @ ''3.5.2 R8.A2, severity '' @ [CHR 0xE2, CHR 0x88, CHR 0x88] @
          '' {High, Critical} MUST pair with action=AutoRevoke. Stage 7b rejects this pattern before Stages 7c/7'' @
          ''d run.'')
         (''design-final.md '' @ [CHR 0xC2, CHR 0xA7] @ ''3.5.2 R8.A2: Alert'' @ [CHR 0x27] @
          ''s 300s operator-ack SLA is not fast enough for a Critical-severity compromise. The invariant forbids'' @
          '' the pair at library-load time so a signer cannot author a Critical pattern that waits on human atte'' @
          ''ntion.'')
         (kt_hex_encode kit env) (anchor_def kit FIXTURE_ANOMALY_KID)
         ANOMALY_LIBRARY_ABI_VERSION None ''reject''
         (Some ''anomaly-library-severity-action-inconsistent'') ''high'')"

definition build_alrej_108_unknown_verb_family :: "('pk, 'sig) signer_kit \<Rightarrow> json option" where
  "build_alrej_108_unknown_verb_family kit =
     (let env = sign_anomaly_library_envelope kit payload_108 FIXTURE_ANOMALY_SIGNING_SEED in
       build_vector
         ''alrej-108'' ''anomaly-library-unknown-verb-family''
         (''Phase C.4 live-crypto vector: single-pattern library where an IamAttachFamily scope references the f'' @
          ''amily name `not-a-real-family`, which does not resolve against the validator'' @ [CHR 0x27] @
          ''s family lookup. Stage 7c rejects before Stage 7d runs.'')
         (''design-final.md '' @ [CHR 0xC2, CHR 0xA7] @ ''3.5.3: families are the validator'' @ [CHR 0x27] @
          ''s trust surface. An operator cannot redefine `iam-attach` to `['' @ [CHR 0x22] @ ''noop'' @ [CHR 0x22] @
          '']` and defeat the iam-attach-policy-storm pattern. Unknown family names at library-load time would l'' @
          ''et a signer ship a pattern that never matches anything real.'')
         (kt_hex_encode kit env) (anchor_def kit FIXTURE_ANOMALY_KID)
         ANOMALY_LIBRARY_ABI_VERSION None ''reject''
         (Some ''anomaly-library-unknown-verb-family'') ''critical'')"

definition build_alrej_109_no_companions_declared :: "('pk, 'sig) signer_kit \<Rightarrow> json option" where
  "build_alrej_109_no_companions_declared kit =
     (let env = sign_anomaly_library_envelope kit payload_109 FIXTURE_ANOMALY_SIGNING_SEED in
       build_vector
         ''alrej-109'' ''anomaly-library-companion-none-declared''
         (''Phase C.4 live-crypto vector: single-pattern library where a FirstMatch pattern with window_seconds='' @
          ''60 (subject to '' @ [CHR 0xC2, CHR 0xA7] @
          ''3.5.3 anti-walk-under) declares an empty firing_rule_companions list. Stage 7d rejects with the NoCo'' @
          ''mpanionsDeclared sub-variant.'')
         (''design-final.md '' @ [CHR 0xC2, CHR 0xA7] @
          ''3.5.3: short-window FirstMatch patterns can be defeated by a walk-under attacker who spaces their ev'' @
          ''ents just below the threshold. A cumulative-over-baseline companion at '' @ [CHR 0xE2, CHR 0x89, CHR 0xA5] @
          ''10'' @ [CHR 0xC3, CHR 0x97] @
          '' the primary window closes that gap. An empty companion list is structurally invalid at library-load'' @
          '' time.'')
         (kt_hex_encode kit env) (anchor_def kit FIXTURE_ANOMALY_KID)
         ANOMALY_LIBRARY_ABI_VERSION None ''reject''
         (Some ''anomaly-library-firing-rule-companion-missing'') ''high'')"

definition build_alrej_110_companion_not_found :: "('pk, 'sig) signer_kit \<Rightarrow> json option" where
  "build_alrej_110_companion_not_found kit =
     (let env = sign_anomaly_library_envelope kit payload_110 FIXTURE_ANOMALY_SIGNING_SEED in
       build_vector
         ''alrej-110'' ''anomaly-library-companion-not-found''
         (''Phase C.4 live-crypto vector: single-pattern library where a FirstMatch primary names a companion pa'' @
          ''ttern_id that does not exist in the library. Stage 7d rejects with the CompanionNotFound sub-variant'' @ ''.'')
         (''design-final.md '' @ [CHR 0xC2, CHR 0xA7] @
          ''3.5.3: a companion reference that does not resolve is a signer-side typo or a rename that missed an '' @
          ''uplink. Either way, the evaluator would never find the backstop '' @ [CHR 0xE2, CHR 0x80, CHR 0x94] @
          '' reject at library-load time with a name-level error so the signer'' @ [CHR 0x27] @ ''s fix is obvious.'')
         (kt_hex_encode kit env) (anchor_def kit FIXTURE_ANOMALY_KID)
         ANOMALY_LIBRARY_ABI_VERSION None ''reject''
         (Some ''anomaly-library-firing-rule-companion-missing'') ''high'')"

definition build_alrej_111_companion_not_cumulative :: "('pk, 'sig) signer_kit \<Rightarrow> json option" where
  "build_alrej_111_companion_not_cumulative kit =
     (let env = sign_anomaly_library_envelope kit payload_111 FIXTURE_ANOMALY_SIGNING_SEED in
       build_vector
         ''alrej-111'' ''anomaly-library-companion-not-cumulative''
         (''Phase C.4 live-crypto vector: two-pattern library where a FirstMatch primary names a companion that '' @
          ''exists but carries firing_rule=FirstMatch (not CumulativeOverBaseline). Stage 7d rejects with the Co'' @
          ''mpanionNotCumulative sub-variant.'')
         (''design-final.md '' @ [CHR 0xC2, CHR 0xA7] @
          ''3.5.3: a short-window FirstMatch backstop inherits the very walk-under weakness it is meant to close'' @
          ''. Only CumulativeOverBaseline '' @ [CHR 0xE2, CHR 0x80, CHR 0x94] @
          '' which integrates across the whole long window '' @ [CHR 0xE2, CHR 0x80, CHR 0x94] @
          '' delivers the anti-walk-under guarantee. A mistyped firing_rule in the signer tooling must be caught'' @
          '' at load time.'')
         (kt_hex_encode kit env) (anchor_def kit FIXTURE_ANOMALY_KID)
         ANOMALY_LIBRARY_ABI_VERSION None ''reject''
         (Some ''anomaly-library-firing-rule-companion-missing'') ''high'')"

definition build_alrej_112_companion_window_too_short :: "('pk, 'sig) signer_kit \<Rightarrow> json option" where
  "build_alrej_112_companion_window_too_short kit =
     (let env = sign_anomaly_library_envelope kit payload_112 FIXTURE_ANOMALY_SIGNING_SEED in
       build_vector
         ''alrej-112'' ''anomaly-library-companion-window-too-short''
         (''Phase C.4 live-crypto vector: two-pattern library where a FirstMatch primary (window=60s) names a Cu'' @
          ''mulativeOverBaseline companion whose window is 500s '' @ [CHR 0xE2, CHR 0x80, CHR 0x94] @ '' below the '' @
          [CHR 0xC2, CHR 0xA7] @ ''3.5.3 required 10'' @ [CHR 0xC3, CHR 0x97] @
          '' multiple (600s). Stage 7d rejects with the CompanionWindowTooShort sub-variant.'')
         (''design-final.md '' @ [CHR 0xC2, CHR 0xA7] @ ''3.5.3: the 10'' @ [CHR 0xC3, CHR 0x97] @
          '' multiplier is the normative ratio that makes the companion'' @ [CHR 0x27] @
          ''s cumulative backstop reach far enough in time to catch a paced walk-under. A shorter window narrows'' @
          '' the detection horizon and a patient attacker evades both.'')
         (kt_hex_encode kit env) (anchor_def kit FIXTURE_ANOMALY_KID)
         ANOMALY_LIBRARY_ABI_VERSION None ''reject''
         (Some ''anomaly-library-firing-rule-companion-missing'') ''high'')"

definition build_alrej_113_library_version_replay :: "('pk, 'sig) signer_kit \<Rightarrow> json option" where
  "build_alrej_113_library_version_replay kit =
     (let env = sign_minimum_library_with_version kit 5 in
       build_vector
         ''alrej-113'' ''anomaly-library-version-replay''
         (''Phase C.4 live-crypto vector: MINIMUM library envelope signed at library_version=5, Stage-8 ledger p'' @
          ''re-seeded with library_id'' @ [CHR 0xE2, CHR 0x86, CHR 0x92] @
          ''5. Stage 8 rejects the second observation at the same version as replay (VersionNotStrictlyGreater w'' @
          ''ith current_hwm=5, attempted=5).'')
         (''design-final.md '' @ [CHR 0xC2, CHR 0xA7] @
          ''3.5.1 replay-protection: `library_version` is a monotonic counter. Accepting a same-version envelope'' @
          '' twice would let a signer replay an old library through a clock-skew window, bypassing a subsequent '' @
          ''revocation. Strict-greater advance is mandatory.'')
         (kt_hex_encode kit env) (anchor_def kit FIXTURE_ANOMALY_KID)
         ANOMALY_LIBRARY_ABI_VERSION (Some seeded_pre_ledger) ''reject''
         (Some ''pattern-library-version-too-old'') ''critical'')"

definition build_alrej_114_library_version_rollback :: "('pk, 'sig) signer_kit \<Rightarrow> json option" where
  "build_alrej_114_library_version_rollback kit =
     (let env = sign_minimum_library_with_version kit 3 in
       build_vector
         ''alrej-114'' ''anomaly-library-version-rollback''
         (''Phase C.4 live-crypto vector: MINIMUM library envelope signed at library_version=3, Stage-8 ledger p'' @
          ''re-seeded with library_id'' @ [CHR 0xE2, CHR 0x86, CHR 0x92] @
          ''5. Stage 8 rejects the rollback attempt with VersionNotStrictlyGreater (current_hwm=5, attempted=3).'')
         (''design-final.md '' @ [CHR 0xC2, CHR 0xA7] @
          ''3.5.1 replay-protection: rollback to an older signed library is functionally identical to replaying '' @
          ''it '' @ [CHR 0xE2, CHR 0x80, CHR 0x94] @
          '' the effect is that a retired pattern set runs in production after the operator'' @ [CHR 0x27] @
          ''s updated library was already accepted. Strict-greater advance catches both paths with one rule.'')
         (kt_hex_encode kit env) (anchor_def kit FIXTURE_ANOMALY_KID)
         ANOMALY_LIBRARY_ABI_VERSION (Some seeded_pre_ledger) ''reject''
         (Some ''pattern-library-version-too-old'') ''critical'')"

definition build_alrej_115_accept_first_observation :: "('pk, 'sig) signer_kit \<Rightarrow> json option" where
  "build_alrej_115_accept_first_observation kit =
     (let env = sign_minimum_library_with_version kit 1 in
       build_vector
         ''alrej-115'' ''anomaly-library-accept-first-observation''
         (''Phase C.4 live-crypto accept: canonical MINIMUM library signed at library_version=1, verifier clock '' @
          ''inside the validity window, anchor registered, ledger fresh. Every Stage-1..8 check passes.'')
         (''design-final.md '' @ [CHR 0xC2, CHR 0xA7] @
          ''3.5.1: the happy-path vector is the positive control. A validator that always rejected at any stage '' @
          ''would pass every reject vector above and appear conformant '' @ [CHR 0xE2, CHR 0x80, CHR 0x94] @
          '' this vector makes that failure mode observable.'')
         (kt_hex_encode kit env) (anchor_def kit FIXTURE_ANOMALY_KID)
         ANOMALY_LIBRARY_ABI_VERSION None ''accept''
         None ''high'')"

definition build_alrej_116_accept_strict_advance :: "('pk, 'sig) signer_kit \<Rightarrow> json option" where
  "build_alrej_116_accept_strict_advance kit =
     (let env = sign_minimum_library_with_version kit 7 in
       build_vector
         ''alrej-116'' ''anomaly-library-accept-strict-advance''
         (''Phase C.4 live-crypto accept: MINIMUM library signed at library_version=7, Stage-8 ledger pre-seeded'' @
          '' with library_id'' @ [CHR 0xE2, CHR 0x86, CHR 0x92] @
          ''5. Stage 8 accepts as strict advance (AdvancedFrom(5)).'')
         (''design-final.md '' @ [CHR 0xC2, CHR 0xA7] @
          ''3.5.1 replay-protection: the strict-greater rule must actually accept strictly-greater advances. A v'' @
          ''alidator that silently rejected every post-seeded observation would pass alrej-113 and alrej-114 whi'' @
          ''le silently breaking every legitimate library rotation '' @ [CHR 0xE2, CHR 0x80, CHR 0x94] @
          '' this vector pins the positive path.'')
         (kt_hex_encode kit env) (anchor_def kit FIXTURE_ANOMALY_KID)
         ANOMALY_LIBRARY_ABI_VERSION (Some seeded_pre_ledger) ''accept''
         None ''high'')"

text \<open>\<open>build_all\<close> gives the vectors in this order, and panics if one of them does.\<close>

definition build_all_library :: "('pk, 'sig) signer_kit \<Rightarrow> json list option" where
  "build_all_library kit =
     those
       [build_alrej_100_cose_verify_tampered kit,
        build_alrej_101_payload_not_cbor kit,
        build_alrej_102_abi_version_mismatch kit,
        build_alrej_103_signer_kid_mismatch kit,
        build_alrej_104_not_yet_valid kit,
        build_alrej_105_expired kit,
        build_alrej_106_pattern_id_duplicate kit,
        build_alrej_107_severity_action_inconsistent kit,
        build_alrej_108_unknown_verb_family kit,
        build_alrej_109_no_companions_declared kit,
        build_alrej_110_companion_not_found kit,
        build_alrej_111_companion_not_cumulative kit,
        build_alrej_112_companion_window_too_short kit,
        build_alrej_113_library_version_replay kit,
        build_alrej_114_library_version_rollback kit,
        build_alrej_115_accept_first_observation kit,
        build_alrej_116_accept_strict_advance kit]"

end
