(* ===== verification/Library_Vectors_Correct.thy ===== *)
theory Library_Vectors_Correct
  imports Library_Vectors Anomaly_Suites_Correct
begin

text \<open>
  The signer against the verifier.  Under laws that say how the third-party code behaves - the predicates below, all
  of which a concrete toolkit satisfies - an envelope of the fixtures verifies exactly when its payload is acceptable,
  and the executor of the anomaly-library suite gives every one of the seventeen generated vectors the answer the
  vector declares.
\<close>

section \<open>What the libraries do\<close>

text \<open>\<open>coset\<close> reads back what it writes, as CBOR no deeper than the guard allows, and \<open>Sig_structure\<close> leaves the
  signature out.\<close>

definition coset_laws :: "('pk, 'sig) signer_kit \<Rightarrow> bool" where
  "coset_laws kit \<longleftrightarrow>
     (\<forall>kid inner sig. let env = an_crypto (kt_env kit); s = (unsigned_sign1 kit kid inner)\<lparr>sign1_signature := sig\<rparr> in
        coset_parse env (kt_to_vec kit s) = Some s \<and>
        (\<exists>v. ciborium_parse env (kt_to_vec kit s) = Some v \<and> cbor_depth v 1 \<le> MAX_CBOR_DEPTH) \<and>
        (\<forall>aad. coset_tbs env s aad = coset_tbs env (unsigned_sign1 kit kid inner) aad))"

text \<open>\<open>ed25519_dalek\<close>: a public key is 32 bytes, a point and not weak, and verifies what its seed signed.\<close>

definition ed25519_laws :: "('pk, 'sig) signer_kit \<Rightarrow> bool" where
  "ed25519_laws kit \<longleftrightarrow>
     (\<forall>seed. length seed = 32 \<longrightarrow> length (kt_public kit seed) = 32 \<and>
        (\<exists>pk. ed_point (an_crypto (kt_env kit)) (kt_public kit seed) = Some pk \<and>
           \<not> ed_is_weak (an_crypto (kt_env kit)) pk \<and>
           (\<forall>m. \<exists>sig. ed_signature (an_crypto (kt_env kit)) (kt_sign kit seed m) = Some sig \<and>
              ed_verify_strict (an_crypto (kt_env kit)) pk m sig)))"

definition hex_laws :: "('pk, 'sig) signer_kit \<Rightarrow> bool" where
  "hex_laws kit \<longleftrightarrow> (\<forall>b. hex_decode (an_crypto (kt_env kit)) (kt_hex_encode kit b) = Some b)"

text \<open>\<open>ciborium\<close> and \<open>serde\<close> read back a payload they wrote, and an envelope around it fits the cap.\<close>

definition payload_law :: "('pk, 'sig) signer_kit \<Rightarrow> anomaly_library_payload \<Rightarrow> bool" where
  "payload_law kit p \<longleftrightarrow> an_decode_payload (kt_env kit) (kt_into_writer kit p) = Some p"

definition fits_cap :: "('pk, 'sig) signer_kit \<Rightarrow> string \<Rightarrow> string \<Rightarrow> bool" where
  "fits_cap kit kid inner \<longleftrightarrow>
     length (sign_anomaly_library_envelope_raw kit inner kid ANOMALY_LIBRARY_AAD FIXTURE_ANOMALY_SIGNING_SEED)
       \<le> MAX_ANOMALY_LIBRARY_BYTES"

definition fixture_anchor :: "('pk, 'sig) signer_kit \<Rightarrow> string \<Rightarrow> 'pk \<Rightarrow> 'pk trust_anchor" where
  "fixture_anchor kit kid pk = \<lparr>ta_kid = kid, ta_alg = Ed25519, ta_pk = pk, ta_role = AnomalyLibrarySigner\<rparr>"

definition fixture_point :: "('pk, 'sig) signer_kit \<Rightarrow> 'pk" where
  "fixture_point kit = the (ed_point (an_crypto (kt_env kit)) (fixture_anomaly_verifying_key_bytes kit))"

section \<open>Envelopes\<close>

lemma seed_length [simp]: "length FIXTURE_ANOMALY_SIGNING_SEED = 32"
  by (simp add: FIXTURE_ANOMALY_SIGNING_SEED_def)

lemma fixture_point:
  assumes "ed25519_laws kit"
  shows "ed_point (an_crypto (kt_env kit)) (fixture_anomaly_verifying_key_bytes kit) = Some (fixture_point kit)"
    and "length (fixture_anomaly_verifying_key_bytes kit) = 32"
    and "\<not> ed_is_weak (an_crypto (kt_env kit)) (fixture_point kit)"
    and "\<exists>sig. ed_signature (an_crypto (kt_env kit)) (kt_sign kit FIXTURE_ANOMALY_SIGNING_SEED m) = Some sig \<and>
       ed_verify_strict (an_crypto (kt_env kit)) (fixture_point kit) m sig"
proof -
  from assms seed_length obtain pk where pk: "length (kt_public kit FIXTURE_ANOMALY_SIGNING_SEED) = 32"
      "ed_point (an_crypto (kt_env kit)) (kt_public kit FIXTURE_ANOMALY_SIGNING_SEED) = Some pk"
      "\<not> ed_is_weak (an_crypto (kt_env kit)) pk"
      "\<forall>m. \<exists>sig. ed_signature (an_crypto (kt_env kit)) (kt_sign kit FIXTURE_ANOMALY_SIGNING_SEED m) = Some sig \<and>
         ed_verify_strict (an_crypto (kt_env kit)) pk m sig"
    unfolding ed25519_laws_def by blast
  then have "fixture_point kit = pk" by (simp add: fixture_point_def fixture_anomaly_verifying_key_bytes_def)
  with pk show "ed_point (an_crypto (kt_env kit)) (fixture_anomaly_verifying_key_bytes kit) = Some (fixture_point kit)"
    "length (fixture_anomaly_verifying_key_bytes kit) = 32" "\<not> ed_is_weak (an_crypto (kt_env kit)) (fixture_point kit)"
    "\<exists>sig. ed_signature (an_crypto (kt_env kit)) (kt_sign kit FIXTURE_ANOMALY_SIGNING_SEED m) = Some sig \<and>
       ed_verify_strict (an_crypto (kt_env kit)) (fixture_point kit) m sig"
    by (simp_all add: fixture_anomaly_verifying_key_bytes_def)
qed

lemma coset_built:
  assumes "coset_laws kit"
  shows "coset_parse (an_crypto (kt_env kit)) (kt_to_vec kit (create_signature kit seed aad (unsigned_sign1 kit kid inner))) =
       Some (create_signature kit seed aad (unsigned_sign1 kit kid inner))"
    and "\<exists>v. ciborium_parse (an_crypto (kt_env kit))
          (kt_to_vec kit (create_signature kit seed aad (unsigned_sign1 kit kid inner))) = Some v \<and>
          cbor_depth v 1 \<le> MAX_CBOR_DEPTH"
    and "coset_tbs (an_crypto (kt_env kit)) (create_signature kit seed aad (unsigned_sign1 kit kid inner)) aad' =
       coset_tbs (an_crypto (kt_env kit)) (unsigned_sign1 kit kid inner) aad'"
  using assms unfolding coset_laws_def Let_def create_signature_def by blast+

lemma verify_signed:
  assumes "coset_laws kit" "ed25519_laws kit" "fits_cap kit kid inner" "kid \<noteq> []" "utf8_valid kid"
  shows "verify_cose_sign1_with_cap (an_crypto (kt_env kit))
      (sign_anomaly_library_envelope_raw kit inner kid ANOMALY_LIBRARY_AAD FIXTURE_ANOMALY_SIGNING_SEED)
      [fixture_anchor kit kid (fixture_point kit)] ANOMALY_LIBRARY_AAD AnomalyLibrarySigner MAX_ANOMALY_LIBRARY_BYTES =
    Inr \<lparr>vp_kid = kid, vp_alg = Ed25519, vp_payload = inner\<rparr>"
proof -
  let ?env = "an_crypto (kt_env kit)"
  let ?s = "create_signature kit FIXTURE_ANOMALY_SIGNING_SEED ANOMALY_LIBRARY_AAD (unsigned_sign1 kit kid inner)"
  let ?m = "coset_tbs ?env (unsigned_sign1 kit kid inner) ANOMALY_LIBRARY_AAD"
  obtain sig where sig: "ed_signature ?env (kt_sign kit FIXTURE_ANOMALY_SIGNING_SEED ?m) = Some sig"
      "ed_verify_strict ?env (fixture_point kit) ?m sig"
    using fixture_point(4) [OF assms(2)] by blast
  have guard: "size_depth_check_with_cap ?env (kt_to_vec kit ?s) MAX_ANOMALY_LIBRARY_BYTES = Inr ()"
  proof -
    obtain v where "ciborium_parse ?env (kt_to_vec kit ?s) = Some v" "cbor_depth v 1 \<le> MAX_CBOR_DEPTH"
      using coset_built(2) [OF assms(1)] by blast
    with assms(3) show ?thesis
      by (simp add: size_depth_check_with_cap_def fits_cap_def sign_anomaly_library_envelope_raw_def)
  qed
  have fields: "hdr_alg ?s = Some (Assigned COSE_ALG_EDDSA)" "hdr_key_id ?s = kid" "sign1_payload ?s = Some inner"
      "sign1_signature ?s = kt_sign kit FIXTURE_ANOMALY_SIGNING_SEED ?m"
    by (simp_all add: create_signature_def unsigned_sign1_def)
  have "parse_cose_sign1 ?env (kt_to_vec kit ?s) = Inr ?s"
    by (simp add: parse_cose_sign1_def coset_built(1) [OF assms(1)])
  moreover have "extract_alg_label ?s = Inr COSE_ALG_EDDSA" "alg_from_cose_label COSE_ALG_EDDSA = Inr Ed25519"
    by (simp_all add: extract_alg_label_def alg_from_cose_label_def fields)
  moreover have "extract_kid ?s = Inr kid" using assms(4,5) by (simp add: extract_kid_def fields Let_def)
  moreover have "lookup_with_role [fixture_anchor kit kid (fixture_point kit)] kid AnomalyLibrarySigner =
      Some (fixture_anchor kit kid (fixture_point kit))"
    by (simp add: lookup_with_role_def fixture_anchor_def)
  ultimately show ?thesis
    unfolding verify_cose_sign1_with_cap_def sign_anomaly_library_envelope_raw_def guard
    by (simp add: fields sig fixture_anchor_def coset_built(3) [OF assms(1)])
qed

lemma internal_signed:
  assumes "coset_laws kit" "ed25519_laws kit" "fits_cap kit kid (kt_into_writer kit p)" "payload_law kit p"
    "kid \<noteq> []" "utf8_valid kid"
  shows "verify_internal (an_crypto (kt_env kit)) (an_decode_payload (kt_env kit))
      (sign_anomaly_library_envelope_raw kit (kt_into_writer kit p) kid ANOMALY_LIBRARY_AAD FIXTURE_ANOMALY_SIGNING_SEED)
      [fixture_anchor kit kid (fixture_point kit)] abi now =
    (if length (pl_signer_kid p) > 256 \<or> length (pl_library_id p) > 256 then Inl PayloadDecodeFailed
     else if pl_abi_version p \<noteq> abi then Inl (AbiVersionMismatch abi (pl_abi_version p))
     else if pl_signer_kid p \<noteq> kid then Inl (SignerKidMismatch (sanitize_log_string kid) (sanitize_log_string (pl_signer_kid p)))
     else if now < pl_issued_at p then Inl (NotYetValid (pl_issued_at p) now)
     else if now > pl_expires_at p then Inl (Expired (pl_expires_at p) now)
     else case stage7 (pl_patterns p) of Inl e \<Rightarrow> Inl e | Inr _ \<Rightarrow> Inr (p, kid))"
  using assms(4) unfolding verify_internal_def verify_signed [OF assms(1-3,5,6)]
  by (simp add: payload_law_def MAX_INNER_KID_BYTES_def MAX_LIBRARY_ID_BYTES_def split: sum.split)

lemma fixture_kid: "FIXTURE_ANOMALY_KID \<noteq> []" "utf8_valid FIXTURE_ANOMALY_KID" "length FIXTURE_ANOMALY_KID \<le> 256"
  by (simp_all add: FIXTURE_ANOMALY_KID_def byte_def)

lemma signed_verifies:
  assumes "coset_laws kit" "ed25519_laws kit" "payload_law kit p"
    "fits_cap kit FIXTURE_ANOMALY_KID (kt_into_writer kit p)"
  shows "verify_anomaly_library_signature (an_crypto (kt_env kit)) (an_decode_payload (kt_env kit))
      (sign_anomaly_library_envelope kit p FIXTURE_ANOMALY_SIGNING_SEED)
      [fixture_anchor kit FIXTURE_ANOMALY_KID (fixture_point kit)] abi now = Inr v \<longleftrightarrow>
    acceptable p FIXTURE_ANOMALY_KID abi now \<and> v = build_verified p FIXTURE_ANOMALY_KID"
proof -
  note vi = internal_signed [OF assms(1,2,4,3) fixture_kid(1,2), of abi now]
  show ?thesis
    unfolding verify_anomaly_library_signature_def sign_anomaly_library_envelope_def cbor_encode_anomaly_payload_def vi
      acceptable_def stage7_iff [symmetric]
    by (auto split: sum.split)
qed

text \<open>C20: the signer and the verifier agree.  An envelope signed with the fixture key over any payload \<open>ciborium\<close>
  reads back verifies under the fixture anchor exactly when the payload is acceptable - the right ABI and signer, a
  validity window around the clock, a coherent pattern table - and what comes out is that payload.\<close>

theorem signed_library_verifies:
  assumes "coset_laws kit" "ed25519_laws kit" "payload_law kit p"
    "fits_cap kit FIXTURE_ANOMALY_KID (kt_into_writer kit p)"
  shows "verify_anomaly_library_signature (an_crypto (kt_env kit)) (an_decode_payload (kt_env kit))
      (sign_anomaly_library_envelope kit p FIXTURE_ANOMALY_SIGNING_SEED)
      [fixture_anchor kit FIXTURE_ANOMALY_KID (fixture_point kit)] abi now = Inr v \<longleftrightarrow>
    acceptable p FIXTURE_ANOMALY_KID abi now \<and> v = build_verified p FIXTURE_ANOMALY_KID"
  by (rule signed_verifies [OF assms])

section \<open>The executor on a built vector\<close>

definition severity_from_wire :: "string \<Rightarrow> severity_level option" where
  "severity_from_wire s = (if s = ''critical'' then Some SevCritical else if s = ''high'' then Some SevHigh else None)"

text \<open>\<open>serde_json\<close> on the shapes the generator writes: the input block, and the vector around it.\<close>

definition input_law :: "('pk, 'sig) signer_kit \<Rightarrow> bool" where
  "input_law kit \<longleftrightarrow>
     (\<forall>hex kid pk abi pre. abi < 2 ^ 32 \<longrightarrow> (\<forall>seed \<in> set pre. snd seed < 2 ^ 64) \<longrightarrow> length pre \<le> 1 \<longrightarrow>
        an_library_input (kt_env kit)
          (library_input_json hex
             (JArray [JObject [(''kid'', JString kid), (''alg'', JString ''ed25519''), (''pk_hex'', JString pk)]])
             abi (if pre = [] then None else Some (JObject (map (\<lambda>s. (fst s, json_nat (snd s))) pre)))) =
        Inr \<lparr>ei_cose_hex = hex,
             ei_anchor_keys = [\<lparr>tk_kid = kid, tk_alg = ''ed25519'', tk_pk_hex = pk, tk_role = None\<rparr>],
             ei_abi = abi, ei_now = CURRENT_TIME, ei_pre_ledger = pre\<rparr>)"

definition vector_law :: "('pk, 'sig) signer_kit \<Rightarrow> bool" where
  "vector_law kit \<longleftrightarrow>
     (\<forall>i category description rationale input outcome reject_code sev expected.
        expected_json outcome reject_code = Some expected \<longrightarrow> severity_from_wire sev \<noteq> None \<longrightarrow>
        kt_vector_from_value kit
          (JObject
            [(''id'', JString i), (''category'', JString category), (''description'', JString description),
             (''input'', input), (''expected'', expected), (''rationale'', JString rationale),
             (''redteam_refs'', JArray [JString ''PHASE-C4-LIVE'']), (''severity_if_failed'', JString sev)]) =
        Some \<lparr>v_id = i, v_category = category, v_description = description, v_input = input,
          v_expected = \<lparr>exp_outcome = (if outcome = ''reject'' then Reject else Accept),
            exp_reject_code = reject_code, exp_output = None\<rparr>,
          v_rationale = rationale, v_redteam_refs = [''PHASE-C4-LIVE''], v_severity_if_failed = severity_from_wire sev\<rparr>)"

definition clock_law :: "('pk, 'sig) signer_kit \<Rightarrow> bool" where
  "clock_law kit \<longleftrightarrow> an_rfc3339 (kt_env kit) CURRENT_TIME = Inr 1777593600"

definition vector_answered :: "('pk, 'sig) signer_kit \<Rightarrow> json \<Rightarrow> bool" where
  "vector_answered kit v \<longleftrightarrow>
     (case kt_vector_from_value kit v of None \<Rightarrow> False | Some vec \<Rightarrow> library_execute (kt_env kit) vec = Pass)"

definition vector_category :: "json \<Rightarrow> string option" where
  "vector_category v = Option.bind (json_get v ''category'') as_str"

definition answers_as :: "('pk, 'sig) signer_kit \<Rightarrow> string \<Rightarrow> string \<Rightarrow> json \<Rightarrow> bool" where
  "answers_as kit i category v \<longleftrightarrow>
     vector_answered kit v \<and> vector_id v = Some i \<and> vector_category v = Some category"

text \<open>The answer the verifier gives for an envelope, with the fixture anchor under a kid, at \<open>CURRENT_TIME\<close>.\<close>

definition fixture_answer ::
  "('pk, 'sig) signer_kit \<Rightarrow> string \<Rightarrow> string \<Rightarrow> (string \<times> nat) list \<Rightarrow> anomaly_lib_error + verified_anomaly_library" where
  "fixture_answer kit bytes kid pre =
     library_answer (kt_env kit) bytes [fixture_anchor kit kid (fixture_point kit)] ANOMALY_LIBRARY_ABI_VERSION
       1777593600 pre"

definition declares :: "string \<Rightarrow> string option \<Rightarrow> anomaly_lib_error + verified_anomaly_library \<Rightarrow> bool" where
  "declares outcome reject_code answer \<longleftrightarrow>
     (case answer of
        Inl e \<Rightarrow> outcome = ''reject'' \<and> reject_code = Some (library_wire_code e)
      | Inr _ \<Rightarrow> outcome = ''accept'' \<and> reject_code = None)"

lemma fixture_anchor_set:
  assumes "ed25519_laws kit" "hex_laws kit"
  shows "build_anchor_set (an_crypto (kt_env kit))
      [\<lparr>tk_kid = kid, tk_alg = ''ed25519'', tk_pk_hex = kt_hex_encode kit (fixture_anomaly_verifying_key_bytes kit),
        tk_role = None\<rparr>] AnomalyLibrarySigner = Inr [fixture_anchor kit kid (fixture_point kit)]"
  using fixture_point(1-3) [OF assms(1)] assms(2)
  by (simp add: build_anchor_set_def anchor_of_def_def role_of_def_def new_ed25519_def anchor_set_insert_def
      eq_ignore_ascii_case_def hex_laws_def fixture_anchor_def)

definition pre_json :: "(string \<times> nat) list \<Rightarrow> json option" where
  "pre_json pre = (if pre = [] then None else Some (JObject (map (\<lambda>s. (fst s, json_nat (snd s))) pre)))"

definition pre_ok :: "(string \<times> nat) list \<Rightarrow> bool" where
  "pre_ok pre \<longleftrightarrow> length pre \<le> 1 \<and> (\<forall>seed \<in> set pre. snd seed < 2 ^ 64)"

lemma opens_built:
  assumes "ed25519_laws kit" "hex_laws kit" "clock_law kit" "length pre \<le> 1"
  shows "open_library (kt_env kit) who
      \<lparr>ei_cose_hex = kt_hex_encode kit bytes,
       ei_anchor_keys = [\<lparr>tk_kid = kid, tk_alg = ''ed25519'',
         tk_pk_hex = kt_hex_encode kit (fixture_anomaly_verifying_key_bytes kit), tk_role = None\<rparr>],
       ei_abi = ANOMALY_LIBRARY_ABI_VERSION, ei_now = CURRENT_TIME, ei_pre_ledger = pre\<rparr> =
    Inr (fixture_answer kit bytes kid pre)"
proof (rule iffD2 [OF open_library_iff])
  show "distinct (map fst (ei_pre_ledger
      \<lparr>ei_cose_hex = kt_hex_encode kit bytes,
       ei_anchor_keys = [\<lparr>tk_kid = kid, tk_alg = ''ed25519'',
         tk_pk_hex = kt_hex_encode kit (fixture_anomaly_verifying_key_bytes kit), tk_role = None\<rparr>],
       ei_abi = ANOMALY_LIBRARY_ABI_VERSION, ei_now = CURRENT_TIME, ei_pre_ledger = pre\<rparr>))"
    using assms(4) by (cases pre) auto
qed (use fixture_anchor_set [OF assms(1,2)] assms(2,3) in
      \<open>simp add: opens_def fixture_answer_def hex_laws_def clock_law_def\<close>)

lemma vector_passes:
  assumes laws: "ed25519_laws kit" "hex_laws kit" "clock_law kit" "input_law kit" "vector_law kit"
    and declared: "declares outcome reject_code (fixture_answer kit bytes kid pre)"
    and shape: "pre_ok pre" "severity_from_wire sev \<noteq> None"
  shows "\<exists>v. build_vector i category description rationale (kt_hex_encode kit bytes) (anchor_def kit kid)
      ANOMALY_LIBRARY_ABI_VERSION (pre_json pre) outcome reject_code sev = Some v \<and> answers_as kit i category v"
proof -
  let ?answer = "fixture_answer kit bytes kid pre"
  let ?input = "library_input_json (kt_hex_encode kit bytes) (anchor_def kit kid) ANOMALY_LIBRARY_ABI_VERSION (pre_json pre)"
  obtain expected where expected: "expected_json outcome reject_code = Some expected"
    using declared by (cases ?answer) (auto simp: declares_def expected_json_def)
  let ?vec = "\<lparr>v_id = i, v_category = category, v_description = description, v_input = ?input,
      v_expected = \<lparr>exp_outcome = (if outcome = ''reject'' then Reject else Accept),
        exp_reject_code = reject_code, exp_output = None\<rparr>,
      v_rationale = rationale, v_redteam_refs = [''PHASE-C4-LIVE''], v_severity_if_failed = severity_from_wire sev\<rparr>"
  let ?v = "JObject
      [(''id'', JString i), (''category'', JString category), (''description'', JString description),
       (''input'', ?input), (''expected'', expected), (''rationale'', JString rationale),
       (''redteam_refs'', JArray [JString ''PHASE-C4-LIVE'']), (''severity_if_failed'', JString sev)]"
  have vector: "kt_vector_from_value kit ?v = Some ?vec"
    using laws(5) expected shape(2) unfolding vector_law_def by blast
  have "an_library_input (kt_env kit) ?input =
      Inr \<lparr>ei_cose_hex = kt_hex_encode kit bytes,
        ei_anchor_keys = [\<lparr>tk_kid = kid, tk_alg = ''ed25519'',
          tk_pk_hex = kt_hex_encode kit (fixture_anomaly_verifying_key_bytes kit), tk_role = None\<rparr>],
        ei_abi = ANOMALY_LIBRARY_ABI_VERSION, ei_now = CURRENT_TIME, ei_pre_ledger = pre\<rparr>"
    using laws(4) shape(1) unfolding input_law_def pre_ok_def anchor_def_def pre_json_def
    by (simp add: ANOMALY_LIBRARY_ABI_VERSION_def)
  then have "library_execute (kt_env kit) ?vec = render_outcome ?vec ?answer"
    using opens_built [OF laws(1-3)] shape(1) by (simp add: library_execute_def pre_ok_def Let_def)
  also have "\<dots> = Pass"
    using declared by (cases ?answer) (simp_all add: declares_def render_outcome_def expected_code_of_def Let_def)
  finally have "answers_as kit i category ?v"
    by (simp add: answers_as_def vector_answered_def vector vector_id_def vector_category_def)
  moreover have "build_vector i category description rationale (kt_hex_encode kit bytes) (anchor_def kit kid)
      ANOMALY_LIBRARY_ABI_VERSION (pre_json pre) outcome reject_code sev = Some ?v"
    by (simp add: build_vector_def expected)
  ultimately show ?thesis by blast
qed

section \<open>The answers\<close>

definition at_version :: "nat \<Rightarrow> anomaly_library_payload" where
  "at_version n = minimum_anomaly_library_payload\<lparr>pl_library_version := n\<rparr>"

definition vector_payloads :: "anomaly_library_payload list" where
  "vector_payloads =
     [at_version 1, at_version 3, at_version 5, at_version 7, payload_102, payload_104, payload_105, payload_106,
      payload_107, payload_108, payload_109, payload_110, payload_111, payload_112]"

text \<open>The signature of an envelope does not verify over its payload with the first byte flipped.\<close>

definition tamper_law :: "('pk, 'sig) signer_kit \<Rightarrow> bool" where
  "tamper_law kit \<longleftrightarrow>
     (let env = an_crypto (kt_env kit); inner = kt_into_writer kit (at_version 1);
          tbs = (\<lambda>body. coset_tbs env (unsigned_sign1 kit FIXTURE_ANOMALY_KID body) ANOMALY_LIBRARY_AAD)
      in inner \<noteq> [] \<and>
         (\<forall>sig. ed_signature env (kt_sign kit FIXTURE_ANOMALY_SIGNING_SEED (tbs inner)) = Some sig \<longrightarrow>
            \<not> ed_verify_strict env (fixture_point kit) (tbs (flip_first inner)) sig))"

definition kit_laws :: "('pk, 'sig) signer_kit \<Rightarrow> bool" where
  "kit_laws kit \<longleftrightarrow>
     coset_laws kit \<and> ed25519_laws kit \<and> hex_laws kit \<and> clock_law kit \<and> input_law kit \<and> vector_law kit \<and>
     list_all (payload_law kit) vector_payloads \<and>
     list_all (\<lambda>p. fits_cap kit FIXTURE_ANOMALY_KID (kt_into_writer kit p)) vector_payloads \<and>
     fits_cap kit IMPOSTOR_OUTER_KID (kt_into_writer kit (at_version 1)) \<and>
     fits_cap kit FIXTURE_ANOMALY_KID ''this is not cbor'' \<and>
     an_decode_payload (kt_env kit) ''this is not cbor'' = None \<and> tamper_law kit"

lemma sign_minimum: "sign_minimum_library_with_version kit n =
    sign_anomaly_library_envelope kit (at_version n) FIXTURE_ANOMALY_SIGNING_SEED"
  by (simp add: sign_minimum_library_with_version_def at_version_def)

lemma minimum_is_version_1: "minimum_anomaly_library_payload = at_version 1"
  by (simp add: at_version_def minimum_anomaly_library_payload_def)

lemma payload_answer:
  assumes "kit_laws kit" "p \<in> set vector_payloads"
  shows "fixture_answer kit (sign_anomaly_library_envelope kit p FIXTURE_ANOMALY_SIGNING_SEED) FIXTURE_ANOMALY_KID pre =
    (if length (pl_signer_kid p) > 256 \<or> length (pl_library_id p) > 256 then Inl PayloadDecodeFailed
     else if pl_abi_version p \<noteq> 1 then Inl (AbiVersionMismatch 1 (pl_abi_version p))
     else if pl_signer_kid p \<noteq> FIXTURE_ANOMALY_KID
     then Inl (SignerKidMismatch (sanitize_log_string FIXTURE_ANOMALY_KID) (sanitize_log_string (pl_signer_kid p)))
     else if 1777593600 < pl_issued_at p then Inl (NotYetValid (pl_issued_at p) 1777593600)
     else if 1777593600 > pl_expires_at p then Inl (Expired (pl_expires_at p) 1777593600)
     else case stage7 (pl_patterns p) of
         Inl e \<Rightarrow> Inl e
       | Inr _ \<Rightarrow>
           (case map_of pre (pl_library_id p) of
              Some hwm \<Rightarrow>
                if pl_library_version p \<le> hwm
                then Inl (LibraryVersionTooOld (sanitize_log_string (pl_library_id p)) hwm (pl_library_version p))
                else Inr (build_verified p FIXTURE_ANOMALY_KID)
            | None \<Rightarrow> Inr (build_verified p FIXTURE_ANOMALY_KID)))"
proof -
  have "coset_laws kit" "ed25519_laws kit" "payload_law kit p"
    "fits_cap kit FIXTURE_ANOMALY_KID (kt_into_writer kit p)"
    using assms by (auto simp: kit_laws_def list_all_iff)
  note internal = internal_signed [OF this(1,2,4,3) fixture_kid(1,2)]
  show ?thesis
    unfolding fixture_answer_def library_answer_def sign_anomaly_library_envelope_def
      cbor_encode_anomaly_payload_def ANOMALY_LIBRARY_ABI_VERSION_def internal
    by (auto split: sum.split)
qed

lemmas payload_defs =
  payload_102_def payload_104_def payload_105_def payload_106_def payload_107_def payload_108_def payload_109_def
  payload_110_def payload_111_def payload_112_def at_version_def build_custom_payload_def
  minimum_anomaly_library_payload_def

lemmas envelope_constants =
  ANOMALY_LIBRARY_ABI_VERSION_def FIXTURE_ANOMALY_LIBRARY_ID_def FIXTURE_ANOMALY_ISSUED_AT_def
  FIXTURE_ANOMALY_EXPIRES_AT_def FUTURE_ISSUED_AT_def FUTURE_EXPIRES_AT_def PAST_ISSUED_AT_def PAST_EXPIRES_AT_def

text \<open>Stage 7 on the tables of alrej-106 to alrej-112.\<close>

lemma stage7_106: "\<exists>i. stage7 (minimum_anomaly_library_patterns @ [delete_storm_pattern]) = Inl (PatternIdDuplicate i)"
  by (simp add: stage7_def minimum_patterns_defs)

lemma stage7_107: "\<exists>i sev act. stage7 [machine_pace_pattern\<lparr>severity_of := Critical\<rparr>] = Inl (SeverityActionInconsistent i sev act)"
  by (simp add: stage7_def machine_pace_pattern_def requires_auto_revoke_def)

lemma stage7_108:
  "\<exists>i f. stage7 [iam_attach_policy_storm_pattern
     \<lparr>scope := IamAttachFamily ''not-a-real-family'' mandate_scope_default, firing_rule_companions := []\<rparr>] =
     Inl (UnknownVerbFamily i f)"
  by (simp add: stage7_def iam_attach_policy_storm_pattern_def requires_auto_revoke_def check_scope_verb_families_def
      lookup_family_def)

lemmas stage7d_defs =
  stage7_def delete_storm_pattern_def delete_slow_burn_pattern_def requires_auto_revoke_def
  check_scope_verb_families_def check_verb_predicate_family_def check_firing_rule_companions_def classify_companion_def
  ANTI_WALK_UNDER_WINDOW_SECONDS_def ANTI_WALK_UNDER_COMPANION_MULTIPLIER_def sat_mul_u32_def u32_max_def Let_def

lemma stage7_109:
  "stage7 [delete_storm_pattern\<lparr>firing_rule_companions := []\<rparr>] =
     Inl (FiringRuleCompanionMissing (sanitize_log_string ''delete-storm'') 60 NoCompanionsDeclared)"
  by (simp add: stage7d_defs)

lemma stage7_110:
  "stage7 [delete_storm_pattern\<lparr>firing_rule_companions := [''does-not-exist-companion'']\<rparr>] =
     Inl (FiringRuleCompanionMissing (sanitize_log_string ''delete-storm'') 60
       (CompanionNotFound (sanitize_log_string ''does-not-exist-companion'')))"
  by (simp add: stage7d_defs)

lemma stage7_111:
  "stage7 [delete_storm_pattern,
     delete_slow_burn_pattern\<lparr>firing_rule_of := FirstMatch, window_seconds := Some 4000, firing_rule_companions := []\<rparr>] =
     Inl (FiringRuleCompanionMissing (sanitize_log_string ''delete-storm'') 60
       (CompanionNotCumulative (sanitize_log_string ''delete-slow-burn'')))"
  by (simp add: stage7d_defs)

lemma stage7_112:
  "stage7 [delete_storm_pattern, delete_slow_burn_pattern\<lparr>window_seconds := Some 500\<rparr>] =
     Inl (FiringRuleCompanionMissing (sanitize_log_string ''delete-storm'') 60
       (CompanionWindowTooShort (sanitize_log_string ''delete-slow-burn'') 500 600))"
  by (simp add: stage7d_defs)

lemma fixture_ids [simp]:
  "\<not> 256 < length FIXTURE_ANOMALY_KID" "\<not> 256 < length FIXTURE_ANOMALY_LIBRARY_ID"
  by (simp_all add: FIXTURE_ANOMALY_KID_def FIXTURE_ANOMALY_LIBRARY_ID_def)

lemma payload_declares:
  assumes "kit_laws kit"
  shows "declares ''reject'' (Some ''anomaly-library-abi-version-mismatch'')
      (fixture_answer kit (sign_anomaly_library_envelope kit payload_102 FIXTURE_ANOMALY_SIGNING_SEED) FIXTURE_ANOMALY_KID [])"
    and "declares ''reject'' (Some ''anomaly-library-not-yet-valid'')
      (fixture_answer kit (sign_anomaly_library_envelope kit payload_104 FIXTURE_ANOMALY_SIGNING_SEED) FIXTURE_ANOMALY_KID [])"
    and "declares ''reject'' (Some ''anomaly-library-expired'')
      (fixture_answer kit (sign_anomaly_library_envelope kit payload_105 FIXTURE_ANOMALY_SIGNING_SEED) FIXTURE_ANOMALY_KID [])"
    and "declares ''reject'' (Some ''anomaly-library-pattern-id-duplicate'')
      (fixture_answer kit (sign_anomaly_library_envelope kit payload_106 FIXTURE_ANOMALY_SIGNING_SEED) FIXTURE_ANOMALY_KID [])"
    and "declares ''reject'' (Some ''anomaly-library-severity-action-inconsistent'')
      (fixture_answer kit (sign_anomaly_library_envelope kit payload_107 FIXTURE_ANOMALY_SIGNING_SEED) FIXTURE_ANOMALY_KID [])"
    and "declares ''reject'' (Some ''anomaly-library-unknown-verb-family'')
      (fixture_answer kit (sign_anomaly_library_envelope kit payload_108 FIXTURE_ANOMALY_SIGNING_SEED) FIXTURE_ANOMALY_KID [])"
    and "list_all (\<lambda>p. declares ''reject'' (Some ''anomaly-library-firing-rule-companion-missing'')
        (fixture_answer kit (sign_anomaly_library_envelope kit p FIXTURE_ANOMALY_SIGNING_SEED) FIXTURE_ANOMALY_KID []))
      [payload_109, payload_110, payload_111, payload_112]"
  using stage7_106 stage7_107 stage7_108 stage7_109 stage7_110 stage7_111 stage7_112
  by (auto simp: payload_answer [OF assms] vector_payloads_def payload_defs declares_def envelope_constants)

lemma version_declares:
  assumes "kit_laws kit"
  shows "declares ''accept'' None (fixture_answer kit (sign_minimum_library_with_version kit 1) FIXTURE_ANOMALY_KID [])"
    and "declares ''accept'' None
      (fixture_answer kit (sign_minimum_library_with_version kit 7) FIXTURE_ANOMALY_KID [(FIXTURE_ANOMALY_LIBRARY_ID, 5)])"
    and "declares ''reject'' (Some ''pattern-library-version-too-old'')
      (fixture_answer kit (sign_minimum_library_with_version kit 5) FIXTURE_ANOMALY_KID [(FIXTURE_ANOMALY_LIBRARY_ID, 5)])"
    and "declares ''reject'' (Some ''pattern-library-version-too-old'')
      (fixture_answer kit (sign_minimum_library_with_version kit 3) FIXTURE_ANOMALY_KID [(FIXTURE_ANOMALY_LIBRARY_ID, 5)])"
  unfolding sign_minimum
  by (simp_all add: payload_answer [OF assms] vector_payloads_def at_version_def minimum_anomaly_library_payload_def
      minimum_stage7 declares_def ANOMALY_LIBRARY_ABI_VERSION_def FIXTURE_ANOMALY_ISSUED_AT_def
      FIXTURE_ANOMALY_EXPIRES_AT_def)

lemma raw_declares_101:
  assumes "kit_laws kit"
  shows "declares ''reject'' (Some ''anomaly-library-signature-payload-malformed'')
    (fixture_answer kit (sign_anomaly_library_envelope_raw kit ''this is not cbor'' FIXTURE_ANOMALY_KID ANOMALY_LIBRARY_AAD
       FIXTURE_ANOMALY_SIGNING_SEED) FIXTURE_ANOMALY_KID [])"
proof -
  have laws: "coset_laws kit" "ed25519_laws kit" "fits_cap kit FIXTURE_ANOMALY_KID ''this is not cbor''"
      "an_decode_payload (kt_env kit) ''this is not cbor'' = None"
    using assms by (simp_all add: kit_laws_def)
  show ?thesis
    unfolding fixture_answer_def library_answer_def verify_internal_def verify_signed [OF laws(1-3) fixture_kid(1,2)]
    by (simp add: laws(4) declares_def)
qed

lemma raw_declares_103:
  assumes "kit_laws kit"
  shows "declares ''reject'' (Some ''anomaly-library-signer-kid-mismatch'')
    (fixture_answer kit (sign_anomaly_library_envelope_raw kit (kt_into_writer kit (at_version 1)) IMPOSTOR_OUTER_KID
       ANOMALY_LIBRARY_AAD FIXTURE_ANOMALY_SIGNING_SEED) IMPOSTOR_OUTER_KID [])"
proof -
  have laws: "coset_laws kit" "ed25519_laws kit" "fits_cap kit IMPOSTOR_OUTER_KID (kt_into_writer kit (at_version 1))"
      "payload_law kit (at_version 1)"
    using assms by (simp_all add: kit_laws_def vector_payloads_def)
  have kid: "IMPOSTOR_OUTER_KID \<noteq> []" "utf8_valid IMPOSTOR_OUTER_KID" "FIXTURE_ANOMALY_KID \<noteq> IMPOSTOR_OUTER_KID"
    by (simp_all add: IMPOSTOR_OUTER_KID_def FIXTURE_ANOMALY_KID_def byte_def)
  show ?thesis
    unfolding fixture_answer_def library_answer_def internal_signed [OF laws kid(1,2)]
    by (simp add: declares_def at_version_def minimum_anomaly_library_payload_def kid(3))
qed

lemma verified_signature:
  "verify_cose_sign1_with_cap env bytes anchors aad role cap = Inr vp \<Longrightarrow>
     \<exists>sign1 anchor sig. coset_parse env bytes = Some sign1 \<and> anchor \<in> set anchors \<and>
       ed_signature env (sign1_signature sign1) = Some sig \<and> ed_verify_strict env (ta_pk anchor) (coset_tbs env sign1 aad) sig"
  by (auto simp: verify_cose_sign1_with_cap_def parse_cose_sign1_def dest!: lookup_SomeD
      split: sum.splits option.splits if_splits)

text \<open>The tampered envelope parses, and its signature fails.\<close>

lemma tampered_envelope:
  assumes "kit_laws kit"
  shows "\<exists>bytes. tamper_payload_byte kit (kt_hex_encode kit (sign_minimum_library_with_version kit 1)) =
      Inr (kt_hex_encode kit bytes) \<and>
    declares ''reject'' (Some ''anomaly-library-signature-invalid'') (fixture_answer kit bytes FIXTURE_ANOMALY_KID [])"
proof -
  let ?env = "an_crypto (kt_env kit)" and ?inner = "kt_into_writer kit (at_version 1)"
  let ?aad = "ANOMALY_LIBRARY_AAD" and ?seed = "FIXTURE_ANOMALY_SIGNING_SEED"
  let ?u = "unsigned_sign1 kit FIXTURE_ANOMALY_KID"
  let ?m = "coset_tbs ?env (?u ?inner) ?aad"
  let ?s = "create_signature kit ?seed ?aad (?u ?inner)"
  let ?t = "(?u (flip_first ?inner))\<lparr>sign1_signature := kt_sign kit ?seed ?m\<rparr>"
  have laws: "coset_laws kit" "ed25519_laws kit" "hex_laws kit" "tamper_law kit" using assms by (simp_all add: kit_laws_def)
  from laws(4) have tamper: "?inner \<noteq> []"
      "ed_signature ?env (kt_sign kit ?seed ?m) = Some sig \<Longrightarrow>
       \<not> ed_verify_strict ?env (fixture_point kit) (coset_tbs ?env (?u (flip_first ?inner)) ?aad) sig" for sig
    by (auto simp: tamper_law_def Let_def)
  have flipped: "?s\<lparr>sign1_payload := Some (flip_first ?inner)\<rparr> = ?t"
    by (simp add: create_signature_def unsigned_sign1_def)
  have tampered: "tamper_payload_byte kit (kt_hex_encode kit (sign_minimum_library_with_version kit 1)) =
      Inr (kt_hex_encode kit (kt_to_vec kit ?t))"
    using coset_built(1) [OF laws(1)] laws(3) tamper(1) flipped
    by (simp add: tamper_payload_byte_def sign_minimum sign_anomaly_library_envelope_def cbor_encode_anomaly_payload_def
        sign_anomaly_library_envelope_raw_def hex_laws_def)
      (simp add: create_signature_def unsigned_sign1_def)
  have parse: "coset_parse ?env (kt_to_vec kit ?t) = Some ?t" "coset_tbs ?env ?t ?aad = coset_tbs ?env (?u (flip_first ?inner)) ?aad"
    using laws(1) unfolding coset_laws_def Let_def by blast+
  have fields: "sign1_signature ?t = kt_sign kit ?seed ?m" "hdr_key_id ?t = FIXTURE_ANOMALY_KID"
    by (simp_all add: unsigned_sign1_def)
  have "verify_cose_sign1_with_cap ?env (kt_to_vec kit ?t) [fixture_anchor kit FIXTURE_ANOMALY_KID (fixture_point kit)] ?aad
      AnomalyLibrarySigner MAX_ANOMALY_LIBRARY_BYTES \<noteq> Inr vp" for vp
  proof
    assume ok: "verify_cose_sign1_with_cap ?env (kt_to_vec kit ?t) [fixture_anchor kit FIXTURE_ANOMALY_KID (fixture_point kit)]
        ?aad AnomalyLibrarySigner MAX_ANOMALY_LIBRARY_BYTES = Inr vp"
    obtain sign1 anchor sig where v: "coset_parse ?env (kt_to_vec kit ?t) = Some sign1"
        "anchor \<in> set [fixture_anchor kit FIXTURE_ANOMALY_KID (fixture_point kit)]"
        "ed_signature ?env (sign1_signature sign1) = Some sig"
        "ed_verify_strict ?env (ta_pk anchor) (coset_tbs ?env sign1 ?aad) sig"
      using verified_signature [OF ok] by blast
    have eqs: "sign1 = ?t" "ta_pk anchor = fixture_point kit" using v(1,2) parse(1) by (simp_all add: fixture_anchor_def)
    have "ed_signature ?env (kt_sign kit ?seed ?m) = Some sig" using v(3) by (simp only: eqs(1) fields(1))
    moreover have "ed_verify_strict ?env (fixture_point kit) (coset_tbs ?env (?u (flip_first ?inner)) ?aad) sig"
      using v(4) by (simp only: eqs parse(2))
    ultimately show False using tamper(2) by blast
  qed
  then obtain e where "verify_cose_sign1_with_cap ?env (kt_to_vec kit ?t)
      [fixture_anchor kit FIXTURE_ANOMALY_KID (fixture_point kit)] ?aad AnomalyLibrarySigner MAX_ANOMALY_LIBRARY_BYTES = Inl e"
    by (metis sum.exhaust)
  then have "fixture_answer kit (kt_to_vec kit ?t) FIXTURE_ANOMALY_KID [] = Inl CoseVerifyFailed"
    by (simp add: fixture_answer_def library_answer_def verify_internal_def)
  with tampered show ?thesis by (auto simp: declares_def)
qed

section \<open>The seventeen vectors\<close>

lemma pre_json_simps:
  "pre_json [] = None" "pre_json [(FIXTURE_ANOMALY_LIBRARY_ID, 5)] = Some seeded_pre_ledger"
  "pre_ok []" "pre_ok [(FIXTURE_ANOMALY_LIBRARY_ID, 5)]"
  by (simp_all add: pre_json_def pre_ok_def seeded_pre_ledger_def)

lemma severity_simps: "severity_from_wire ''critical'' \<noteq> None" "severity_from_wire ''high'' \<noteq> None"
  by (simp_all add: severity_from_wire_def)

lemma vector_passes':
  assumes "kit_laws kit" "declares outcome reject_code (fixture_answer kit bytes kid pre)" "pre_json pre = pl" "pre_ok pre"
    "severity_from_wire sev \<noteq> None"
  shows "\<exists>v. build_vector i category description rationale (kt_hex_encode kit bytes) (anchor_def kit kid)
      ANOMALY_LIBRARY_ABI_VERSION pl outcome reject_code sev = Some v \<and> answers_as kit i category v"
  unfolding assms(3) [symmetric]
  by (rule vector_passes) (use assms in \<open>simp_all add: kit_laws_def\<close>)

lemma companion_declares:
  assumes "list_all P [payload_109, payload_110, payload_111, payload_112]"
  shows "P payload_109" "P payload_110" "P payload_111" "P payload_112"
  using assms by simp_all

lemma vectors_answered:
  assumes "kit_laws kit"
  shows "\<exists>v. build_alrej_100_cose_verify_tampered kit = Some v \<and> answers_as kit ''alrej-100'' ''anomaly-library-cose-verify-tampered'' v"
    and "\<exists>v. build_alrej_101_payload_not_cbor kit = Some v \<and> answers_as kit ''alrej-101'' ''anomaly-library-payload-not-cbor'' v"
    and "\<exists>v. build_alrej_102_abi_version_mismatch kit = Some v \<and> answers_as kit ''alrej-102'' ''anomaly-library-abi-version-mismatch'' v"
    and "\<exists>v. build_alrej_103_signer_kid_mismatch kit = Some v \<and> answers_as kit ''alrej-103'' ''anomaly-library-signer-kid-mismatch'' v"
    and "\<exists>v. build_alrej_104_not_yet_valid kit = Some v \<and> answers_as kit ''alrej-104'' ''anomaly-library-not-yet-valid'' v"
    and "\<exists>v. build_alrej_105_expired kit = Some v \<and> answers_as kit ''alrej-105'' ''anomaly-library-expired'' v"
    and "\<exists>v. build_alrej_106_pattern_id_duplicate kit = Some v \<and> answers_as kit ''alrej-106'' ''anomaly-library-pattern-id-duplicate'' v"
    and "\<exists>v. build_alrej_107_severity_action_inconsistent kit = Some v \<and> answers_as kit ''alrej-107'' ''anomaly-library-severity-action-inconsistent'' v"
    and "\<exists>v. build_alrej_108_unknown_verb_family kit = Some v \<and> answers_as kit ''alrej-108'' ''anomaly-library-unknown-verb-family'' v"
    and "\<exists>v. build_alrej_109_no_companions_declared kit = Some v \<and> answers_as kit ''alrej-109'' ''anomaly-library-companion-none-declared'' v"
    and "\<exists>v. build_alrej_110_companion_not_found kit = Some v \<and> answers_as kit ''alrej-110'' ''anomaly-library-companion-not-found'' v"
    and "\<exists>v. build_alrej_111_companion_not_cumulative kit = Some v \<and> answers_as kit ''alrej-111'' ''anomaly-library-companion-not-cumulative'' v"
    and "\<exists>v. build_alrej_112_companion_window_too_short kit = Some v \<and> answers_as kit ''alrej-112'' ''anomaly-library-companion-window-too-short'' v"
    and "\<exists>v. build_alrej_113_library_version_replay kit = Some v \<and> answers_as kit ''alrej-113'' ''anomaly-library-version-replay'' v"
    and "\<exists>v. build_alrej_114_library_version_rollback kit = Some v \<and> answers_as kit ''alrej-114'' ''anomaly-library-version-rollback'' v"
    and "\<exists>v. build_alrej_115_accept_first_observation kit = Some v \<and> answers_as kit ''alrej-115'' ''anomaly-library-accept-first-observation'' v"
    and "\<exists>v. build_alrej_116_accept_strict_advance kit = Some v \<and> answers_as kit ''alrej-116'' ''anomaly-library-accept-strict-advance'' v"
proof -
  note passes = vector_passes' [OF assms]
  obtain bytes where tampered: "tamper_payload_byte kit (kt_hex_encode kit (sign_minimum_library_with_version kit 1)) =
        Inr (kt_hex_encode kit bytes)"
      "declares ''reject'' (Some ''anomaly-library-signature-invalid'') (fixture_answer kit bytes FIXTURE_ANOMALY_KID [])"
    using tampered_envelope [OF assms] by blast
  show "\<exists>v. build_alrej_100_cose_verify_tampered kit = Some v \<and> answers_as kit ''alrej-100'' ''anomaly-library-cose-verify-tampered'' v"
    unfolding build_alrej_100_cose_verify_tampered_def Let_def tampered(1) sum.case
    by (rule passes [OF tampered(2) pre_json_simps(1,3) severity_simps(1)])
  show "\<exists>v. build_alrej_101_payload_not_cbor kit = Some v \<and> answers_as kit ''alrej-101'' ''anomaly-library-payload-not-cbor'' v"
    unfolding build_alrej_101_payload_not_cbor_def Let_def
    by (rule passes [OF raw_declares_101 [OF assms] pre_json_simps(1,3) severity_simps(1)])
  show "\<exists>v. build_alrej_102_abi_version_mismatch kit = Some v \<and> answers_as kit ''alrej-102'' ''anomaly-library-abi-version-mismatch'' v"
    unfolding build_alrej_102_abi_version_mismatch_def Let_def
    by (rule passes [OF payload_declares(1) [OF assms] pre_json_simps(1,3) severity_simps(1)])
  show "\<exists>v. build_alrej_103_signer_kid_mismatch kit = Some v \<and> answers_as kit ''alrej-103'' ''anomaly-library-signer-kid-mismatch'' v"
    unfolding build_alrej_103_signer_kid_mismatch_def Let_def
    by (rule passes [OF raw_declares_103 [OF assms, folded minimum_is_version_1 cbor_encode_anomaly_payload_def] pre_json_simps(1,3) severity_simps(1)])
  show "\<exists>v. build_alrej_104_not_yet_valid kit = Some v \<and> answers_as kit ''alrej-104'' ''anomaly-library-not-yet-valid'' v"
    unfolding build_alrej_104_not_yet_valid_def Let_def
    by (rule passes [OF payload_declares(2) [OF assms] pre_json_simps(1,3) severity_simps(1)])
  show "\<exists>v. build_alrej_105_expired kit = Some v \<and> answers_as kit ''alrej-105'' ''anomaly-library-expired'' v"
    unfolding build_alrej_105_expired_def Let_def
    by (rule passes [OF payload_declares(3) [OF assms] pre_json_simps(1,3) severity_simps(1)])
  show "\<exists>v. build_alrej_106_pattern_id_duplicate kit = Some v \<and> answers_as kit ''alrej-106'' ''anomaly-library-pattern-id-duplicate'' v"
    unfolding build_alrej_106_pattern_id_duplicate_def Let_def
    by (rule passes [OF payload_declares(4) [OF assms] pre_json_simps(1,3) severity_simps(2)])
  show "\<exists>v. build_alrej_107_severity_action_inconsistent kit = Some v \<and> answers_as kit ''alrej-107'' ''anomaly-library-severity-action-inconsistent'' v"
    unfolding build_alrej_107_severity_action_inconsistent_def Let_def
    by (rule passes [OF payload_declares(5) [OF assms] pre_json_simps(1,3) severity_simps(2)])
  show "\<exists>v. build_alrej_108_unknown_verb_family kit = Some v \<and> answers_as kit ''alrej-108'' ''anomaly-library-unknown-verb-family'' v"
    unfolding build_alrej_108_unknown_verb_family_def Let_def
    by (rule passes [OF payload_declares(6) [OF assms] pre_json_simps(1,3) severity_simps(1)])
  show "\<exists>v. build_alrej_109_no_companions_declared kit = Some v \<and> answers_as kit ''alrej-109'' ''anomaly-library-companion-none-declared'' v"
    unfolding build_alrej_109_no_companions_declared_def Let_def
    by (rule passes [OF payload_declares(7) [OF assms, THEN companion_declares(1)] pre_json_simps(1,3) severity_simps(2)])
  show "\<exists>v. build_alrej_110_companion_not_found kit = Some v \<and> answers_as kit ''alrej-110'' ''anomaly-library-companion-not-found'' v"
    unfolding build_alrej_110_companion_not_found_def Let_def
    by (rule passes [OF payload_declares(7) [OF assms, THEN companion_declares(2)] pre_json_simps(1,3) severity_simps(2)])
  show "\<exists>v. build_alrej_111_companion_not_cumulative kit = Some v \<and> answers_as kit ''alrej-111'' ''anomaly-library-companion-not-cumulative'' v"
    unfolding build_alrej_111_companion_not_cumulative_def Let_def
    by (rule passes [OF payload_declares(7) [OF assms, THEN companion_declares(3)] pre_json_simps(1,3) severity_simps(2)])
  show "\<exists>v. build_alrej_112_companion_window_too_short kit = Some v \<and> answers_as kit ''alrej-112'' ''anomaly-library-companion-window-too-short'' v"
    unfolding build_alrej_112_companion_window_too_short_def Let_def
    by (rule passes [OF payload_declares(7) [OF assms, THEN companion_declares(4)] pre_json_simps(1,3) severity_simps(2)])
  show "\<exists>v. build_alrej_113_library_version_replay kit = Some v \<and> answers_as kit ''alrej-113'' ''anomaly-library-version-replay'' v"
    unfolding build_alrej_113_library_version_replay_def Let_def
    by (rule passes [OF version_declares(3) [OF assms] pre_json_simps(2,4) severity_simps(1)])
  show "\<exists>v. build_alrej_114_library_version_rollback kit = Some v \<and> answers_as kit ''alrej-114'' ''anomaly-library-version-rollback'' v"
    unfolding build_alrej_114_library_version_rollback_def Let_def
    by (rule passes [OF version_declares(4) [OF assms] pre_json_simps(2,4) severity_simps(1)])
  show "\<exists>v. build_alrej_115_accept_first_observation kit = Some v \<and> answers_as kit ''alrej-115'' ''anomaly-library-accept-first-observation'' v"
    unfolding build_alrej_115_accept_first_observation_def Let_def
    by (rule passes [OF version_declares(1) [OF assms] pre_json_simps(1,3) severity_simps(2)])
  show "\<exists>v. build_alrej_116_accept_strict_advance kit = Some v \<and> answers_as kit ''alrej-116'' ''anomaly-library-accept-strict-advance'' v"
    unfolding build_alrej_116_accept_strict_advance_def Let_def
    by (rule passes [OF version_declares(2) [OF assms] pre_json_simps(2,4) severity_simps(2)])
qed

lemma those_answered:
  "list_all2 (\<lambda>o' ic. \<exists>v. o' = Some v \<and> answers_as kit (fst ic) (snd ic) v) os ics \<Longrightarrow>
     \<exists>vs. those os = Some vs \<and> list_all (vector_answered kit) vs \<and> map vector_id vs = map (Some \<circ> fst) ics \<and>
       map vector_category vs = map (Some \<circ> snd) ics"
proof (induction rule: list_all2_induct)
  case (Cons o' os ic ics)
  then obtain v vs where "o' = Some v" "answers_as kit (fst ic) (snd ic) v" "those os = Some vs"
      "list_all (vector_answered kit) vs" "map vector_id vs = map (Some \<circ> fst) ics"
      "map vector_category vs = map (Some \<circ> snd) ics" by blast
  then show ?case by (simp add: answers_as_def)
qed simp

definition alrej_ids :: "string list" where
  "alrej_ids = map (\<lambda>n. ''alrej-'' @ show_nat n) [100..<117]"

lemma alrej_ids_eq:
  "alrej_ids = [''alrej-100'', ''alrej-101'', ''alrej-102'', ''alrej-103'', ''alrej-104'', ''alrej-105'', ''alrej-106'', ''alrej-107'', ''alrej-108'', ''alrej-109'', ''alrej-110'', ''alrej-111'', ''alrej-112'', ''alrej-113'', ''alrej-114'', ''alrej-115'', ''alrej-116'']"
  by code_simp

lemma library_coverage:
  "coverage_keys build_c4_library_envelope =
  [''anomaly-library-cose-verify-tampered'',
   ''anomaly-library-payload-not-cbor'',
   ''anomaly-library-abi-version-mismatch'',
   ''anomaly-library-signer-kid-mismatch'',
   ''anomaly-library-not-yet-valid'',
   ''anomaly-library-expired'',
   ''anomaly-library-pattern-id-duplicate'',
   ''anomaly-library-severity-action-inconsistent'',
   ''anomaly-library-unknown-verb-family'',
   ''anomaly-library-companion-none-declared'',
   ''anomaly-library-companion-not-found'',
   ''anomaly-library-companion-not-cumulative'',
   ''anomaly-library-companion-window-too-short'',
   ''anomaly-library-version-replay'',
   ''anomaly-library-version-rollback'',
   ''anomaly-library-accept-first-observation'',
   ''anomaly-library-accept-strict-advance'']"
  by (simp add: coverage_keys_def build_c4_library_envelope_def)

lemma all_answered:
  assumes "kit_laws kit"
  shows "\<exists>vs. build_all_library kit = Some vs \<and> list_all (vector_answered kit) vs \<and>
     map vector_id vs = map Some alrej_ids \<and>
     map vector_category vs = map Some (coverage_keys build_c4_library_envelope)"
proof -
  have "list_all2 (\<lambda>o' ic. \<exists>v. o' = Some v \<and> answers_as kit (fst ic) (snd ic) v)
      [build_alrej_100_cose_verify_tampered kit,
       build_alrej_101_payload_not_cbor kit,
       build_alrej_102_abi_version_mismatch kit,
       build_alrej_103_signer_kid_mismatch kit,
       build_alrej_104_not_yet_valid kit,
       build_alrej_105_expired kit,
       build_alrej_106_pattern_id_duplicate kit,
       build_alrej_107_severity_action_inconsistent kit,
       build_alrej_108_unknown_verb_family kit,
       build_alrej_109_no_companions_declared kit,
       build_alrej_110_companion_not_found kit,
       build_alrej_111_companion_not_cumulative kit,
       build_alrej_112_companion_window_too_short kit,
       build_alrej_113_library_version_replay kit,
       build_alrej_114_library_version_rollback kit,
       build_alrej_115_accept_first_observation kit,
       build_alrej_116_accept_strict_advance kit]
      (zip alrej_ids (coverage_keys build_c4_library_envelope))"
    unfolding alrej_ids_eq library_coverage zip_Cons_Cons zip.simps(1) list_all2_Cons list_all2_Nil fst_conv snd_conv
    by (intro conjI refl vectors_answered [OF assms])
  from those_answered [OF this] show ?thesis
    unfolding build_all_library_def by (simp add: alrej_ids_eq library_coverage)
qed

section \<open>A toolkit that keeps the laws\<close>

text \<open>Byte strings one after the other, each byte after a one and each string ended by a zero.\<close>

definition toy_put :: "string \<Rightarrow> string" where
  "toy_put s = concat (map (\<lambda>c. [CHR 0x01, c]) s) @ [CHR 0x00]"

fun toy_get :: "string \<Rightarrow> string \<times> string" where
  "toy_get (a # c # r) = (if a = CHR 0x01 then (let (s, t) = toy_get r in (c # s, t)) else ([], c # r))"
| "toy_get _ = ([], [])"

lemma toy_get_put [simp]: "toy_get (toy_put s @ t) = (s, t)"
proof (induction s)
  case Nil
  then show ?case by (cases t) (simp_all add: toy_put_def)
next
  case (Cons c s)
  then show ?case by (simp add: toy_put_def)
qed

lemma length_toy_put [simp]: "length (toy_put s) = 2 * length s + 1"
  by (induction s) (simp_all add: toy_put_def)

definition toy_payload :: "cose_sign1 \<Rightarrow> string" where
  "toy_payload s = (case sign1_payload s of Some p \<Rightarrow> p | None \<Rightarrow> [])"

definition toy_to_vec :: "cose_sign1 \<Rightarrow> string" where
  "toy_to_vec s = toy_put (hdr_key_id s) @ toy_put (toy_payload s) @ toy_put (sign1_signature s) @ []"

definition toy_parse :: "string \<Rightarrow> cose_sign1 option" where
  "toy_parse b =
     (let (kid, b1) = toy_get b; (payload, b2) = toy_get b1; (sig, b3) = toy_get b2 in
      Some \<lparr>hdr_protected_raw = kid, hdr_alg = Some (Assigned COSE_ALG_EDDSA), hdr_key_id = kid,
        sign1_payload = Some payload, sign1_signature = sig\<rparr>)"

definition toy_crypto :: "(string, string) crypto_env" where
  "toy_crypto =
     \<lparr>ciborium_parse = (\<lambda>_. Some CNull), coset_parse = toy_parse, coset_tbs = (\<lambda>s aad. toy_payload s @ aad),
      ed_signature = Some, ed_verify_strict = (\<lambda>pk m sig. sig = pk @ m), ed_point = Some, ed_is_weak = (\<lambda>_. False),
      hex_decode = Some\<rparr>"

definition toy_writer :: "anomaly_library_payload \<Rightarrow> string" where
  "toy_writer p = [char_of (length (takeWhile (\<lambda>q. q \<noteq> p) vector_payloads))]"

definition toy_reader :: "string \<Rightarrow> anomaly_library_payload option" where
  "toy_reader b =
     (case b of [c] \<Rightarrow> if byte c < length vector_payloads then Some (vector_payloads ! byte c) else None | _ \<Rightarrow> None)"

fun json_nat_of :: "json \<Rightarrow> nat" where
  "json_nat_of (JNumber (NInt n)) = nat n"
| "json_nat_of _ = 0"

definition field :: "json \<Rightarrow> string \<Rightarrow> json" where
  "field j k = (case json_get j k of Some v \<Rightarrow> v | None \<Rightarrow> JNull)"

definition text_field :: "json \<Rightarrow> string \<Rightarrow> string" where
  "text_field j k = (case field j k of JString s \<Rightarrow> s | _ \<Rightarrow> [])"

definition toy_input :: "json \<Rightarrow> string + envelope_input" where
  "toy_input j =
     (case field j ''trust_anchor_keys_anomaly_library'' of
        JArray anchors \<Rightarrow>
          Inr \<lparr>ei_cose_hex = text_field j ''cose_sign1_bytes_anomaly_library'',
            ei_anchor_keys = map (\<lambda>a. \<lparr>tk_kid = text_field a ''kid'', tk_alg = text_field a ''alg'',
              tk_pk_hex = text_field a ''pk_hex'', tk_role = None\<rparr>) anchors,
            ei_abi = json_nat_of (field j ''expected_abi_version''), ei_now = text_field j ''current_time'',
            ei_pre_ledger =
              (case json_get j ''pre_ledger'' of
                 Some (JObject kvs) \<Rightarrow> map (\<lambda>kv. (fst kv, json_nat_of (snd kv))) kvs
               | _ \<Rightarrow> [])\<rparr>
      | _ \<Rightarrow> Inl [])"

definition toy_vector :: "json \<Rightarrow> json vector option" where
  "toy_vector j =
     Some \<lparr>v_id = text_field j ''id'', v_category = text_field j ''category'', v_description = text_field j ''description'',
       v_input = field j ''input'',
       v_expected = \<lparr>exp_outcome = (if text_field (field j ''expected'') ''outcome'' = ''reject'' then Reject else Accept),
         exp_reject_code = Option.bind (json_get (field j ''expected'') ''reject_code'') as_str, exp_output = None\<rparr>,
       v_rationale = text_field j ''rationale'', v_redteam_refs = [''PHASE-C4-LIVE''],
       v_severity_if_failed = severity_from_wire (text_field j ''severity_if_failed'')\<rparr>"

definition toy_kit :: "(string, string) signer_kit" where
  "toy_kit =
     \<lparr>kt_env =
        \<lparr>an_crypto = toy_crypto, an_decode_payload = toy_reader, an_rfc3339 = (\<lambda>_. Inr 1777593600),
         an_hex_error = (\<lambda>s. s), an_debug_str = (\<lambda>s. s), an_library_input = toy_input,
         an_detect_input = (\<lambda>_. Inl []), an_audit_input = (\<lambda>_. Inl []), an_expected_fires = (\<lambda>_. Inl []),
         an_expected_records = (\<lambda>_. Inl [])\<rparr>,
      kt_public = (\<lambda>seed. seed), kt_sign = (\<lambda>seed m. seed @ m), kt_protected = (\<lambda>kid. kid), kt_to_vec = toy_to_vec,
      kt_into_writer = toy_writer, kt_hex_encode = (\<lambda>b. b), kt_vector_from_value = toy_vector\<rparr>"

lemma toy_env [simp]:
  "an_crypto (kt_env toy_kit) = toy_crypto" "an_decode_payload (kt_env toy_kit) = toy_reader"
  "an_rfc3339 (kt_env toy_kit) t = Inr 1777593600" "an_library_input (kt_env toy_kit) = toy_input"
  "kt_public toy_kit seed = seed" "kt_sign toy_kit seed m = seed @ m" "kt_protected toy_kit kid = kid"
  "kt_to_vec toy_kit = toy_to_vec" "kt_into_writer toy_kit = toy_writer" "kt_hex_encode toy_kit b = b"
  "kt_vector_from_value toy_kit = toy_vector"
  by (simp_all add: toy_kit_def)

lemma toy_parse_built: "toy_parse (toy_to_vec ((unsigned_sign1 toy_kit kid inner)\<lparr>sign1_signature := sig\<rparr>)) =
    Some ((unsigned_sign1 toy_kit kid inner)\<lparr>sign1_signature := sig\<rparr>)"
  by (simp only: toy_to_vec_def toy_parse_def toy_get_put Let_def prod.case)
    (simp add: unsigned_sign1_def toy_payload_def)

lemma toy_coset: "coset_laws toy_kit"
  unfolding coset_laws_def Let_def toy_env
  by (simp add: toy_crypto_def toy_parse_built MAX_CBOR_DEPTH_def) (simp add: toy_payload_def unsigned_sign1_def)

lemma toy_ed25519: "ed25519_laws toy_kit"
  by (simp add: ed25519_laws_def toy_crypto_def)

lemma toy_payload_law:
  assumes "p \<in> set vector_payloads"
  shows "payload_law toy_kit p"
proof -
  let ?n = "length (takeWhile (\<lambda>q. q \<noteq> p) vector_payloads)"
  have "x \<in> set xs \<Longrightarrow> length (takeWhile (\<lambda>q. q \<noteq> x) xs) < length xs" for x and xs :: "anomaly_library_payload list"
    by (induction xs) auto
  from this [OF assms] have n: "?n < length vector_payloads" .
  then have "?n < 256" by (simp add: vector_payloads_def)
  moreover have "vector_payloads ! ?n = p" using nth_length_takeWhile [OF n] by simp
  ultimately show ?thesis using n by (simp add: payload_law_def toy_writer_def toy_reader_def byte_def)
qed

lemma toy_fits: "length inner \<le> 16 \<Longrightarrow> length kid \<le> 100 \<Longrightarrow> fits_cap toy_kit kid inner"
  by (simp add: fits_cap_def sign_anomaly_library_envelope_raw_def create_signature_def unsigned_sign1_def toy_to_vec_def
      toy_crypto_def toy_payload_def MAX_ANOMALY_LIBRARY_BYTES_def ANOMALY_LIBRARY_AAD_def)

lemma toy_input_law: "input_law toy_kit"
proof -
  have pre: "map (\<lambda>kv. (fst kv, json_nat_of (snd kv))) (map (\<lambda>s. (fst s, json_nat (snd s))) pre) = pre" for pre
    by (induction pre) (simp_all add: json_nat_def)
  show ?thesis unfolding input_law_def toy_env
    by (auto simp: toy_input_def library_input_json_def field_def text_field_def json_nat_def
        simp del: map_map simp: pre [unfolded json_nat_def])
qed

lemma toy_vector_law: "vector_law toy_kit"
  unfolding vector_law_def toy_env
  by (auto simp: toy_vector_def field_def text_field_def expected_json_def split: if_splits option.splits)

lemma toy_tamper: "tamper_law toy_kit"
proof -
  have "toy_writer (at_version 1) = [char_of (0::nat)]" by (simp add: toy_writer_def vector_payloads_def)
  moreover have "char_of (0::nat) = CHR 0x00" "char_of (1::nat) = CHR 0x01" by code_simp+
  ultimately have "toy_writer (at_version 1) = [CHR 0x00]" "flip_first (toy_writer (at_version 1)) = [CHR 0x01]"
    by (simp_all add: flip_first_def byte_def)
  then show ?thesis
    by (simp add: tamper_law_def Let_def toy_crypto_def toy_payload_def unsigned_sign1_def fixture_point_def
        fixture_anomaly_verifying_key_bytes_def)
qed

lemma toy_laws: "kit_laws toy_kit"
proof -
  have "length FIXTURE_ANOMALY_KID \<le> 100" "length IMPOSTOR_OUTER_KID \<le> 100"
    by (simp_all add: FIXTURE_ANOMALY_KID_def IMPOSTOR_OUTER_KID_def)
  then show ?thesis
    by (simp add: kit_laws_def toy_coset toy_ed25519 toy_input_law toy_vector_law toy_tamper toy_fits toy_writer_def
        list_all_iff toy_payload_law clock_law_def) (simp add: hex_laws_def toy_crypto_def toy_reader_def)
qed

text \<open>C12: the generated conformance file is right.  With the libraries behaving as documented, none of the seventeen
  builders panics, the executor of the anomaly-library suite answers every vector with the outcome and the reject code
  the vector declares - one for each way an envelope can fail, and the two acceptances - the ids are alrej-100 to
  alrej-116, and the categories are, row by row, those of the coverage summary of the file.\<close>

theorem library_vectors_pass:
  assumes "kit_laws kit"
  shows "\<exists>vs. build_all_library kit = Some vs \<and> list_all (vector_answered kit) vs \<and>
     map vector_id vs = map Some alrej_ids \<and>
     map vector_category vs = map Some (coverage_keys build_c4_library_envelope)"
  by (rule all_answered [OF assms])

lemma library_vectors_pass_witness:
  "\<exists>vs. build_all_library toy_kit = Some vs \<and> list_all (vector_answered toy_kit) vs \<and>
     map vector_id vs = map Some alrej_ids \<and>
     map vector_category vs = map Some (coverage_keys build_c4_library_envelope)"
  by (rule library_vectors_pass [OF toy_laws])

lemma signed_library_verifies_witness:
  "verify_anomaly_library_signature toy_crypto toy_reader
      (sign_anomaly_library_envelope toy_kit (at_version 1) FIXTURE_ANOMALY_SIGNING_SEED)
      [fixture_anchor toy_kit FIXTURE_ANOMALY_KID (fixture_point toy_kit)] 1 1777593600 =
    Inr (build_verified (at_version 1) FIXTURE_ANOMALY_KID)"
proof -
  have "acceptable (at_version 1) FIXTURE_ANOMALY_KID 1 1777593600"
    using fixture_kid(3) minimum_stage7
    by (simp add: acceptable_def stage7_iff [symmetric] at_version_def minimum_anomaly_library_payload_def
        ANOMALY_LIBRARY_ABI_VERSION_def FIXTURE_ANOMALY_ISSUED_AT_def FIXTURE_ANOMALY_EXPIRES_AT_def
        FIXTURE_ANOMALY_LIBRARY_ID_def)
  moreover have "at_version 1 \<in> set vector_payloads" by (simp add: vector_payloads_def)
  ultimately show ?thesis
    using signed_library_verifies [of toy_kit "at_version 1" 1 1777593600 "build_verified (at_version 1) FIXTURE_ANOMALY_KID"]
      toy_coset toy_ed25519 toy_payload_law [of "at_version 1"] toy_fits [of "toy_writer (at_version 1)" FIXTURE_ANOMALY_KID]
    by (simp add: toy_writer_def FIXTURE_ANOMALY_KID_def)
qed

end
