(* ===== verification/Detect_Vectors.thy ===== *)
theory Detect_Vectors
  imports Library_Vectors
begin

text \<open>
  \<open>tools/vector-signer/src/phase_c4_detect.rs\<close>: the fifteen vectors of the anomaly-detect suite, adet-100 to adet-114,
  built as the generator builds them - event streams as JSON, the signed minimum library, the fires a vector expects -
  and \<open>build_all\<close>, which lists them.  Helpers the file shares by name with \<open>phase_c4_library.rs\<close> carry a prefix here.
\<close>

section \<open>Constants and helpers\<close>

definition DETECT_INITIAL_TIME :: string where "DETECT_INITIAL_TIME = ''2026-05-01T12:00:00Z''"

definition DETECT_INITIAL_TIME_UNIX :: int where "DETECT_INITIAL_TIME_UNIX = 1777636800"

definition canonical_event_named ::
  "string \<Rightarrow> string \<Rightarrow> int \<Rightarrow> nat \<Rightarrow> string \<Rightarrow> string \<Rightarrow> string \<Rightarrow> string \<Rightarrow> json" where
  "canonical_event_named eid mandate_id offset_seconds tier integration verb resource_kind resource_ref =
     JObject
       [(''event_id'', JString eid),
        (''timestamp'', JNumber (NInt (DETECT_INITIAL_TIME_UNIX + offset_seconds))),
        (''mandate_id'', JString mandate_id),
        (''tier'', json_nat tier),
        (''integration'', JString integration),
        (''verb'', JString verb),
        (''resource_kind'', JString resource_kind),
        (''resource_ref'', JString resource_ref),
        (''outcome'', JString ''executed'')]"

definition canonical_delete_event :: "string \<Rightarrow> string \<Rightarrow> int \<Rightarrow> nat \<Rightarrow> string \<Rightarrow> string \<Rightarrow> json" where
  "canonical_delete_event eid mandate_id offset_seconds tier resource_kind resource_ref =
     canonical_event_named eid mandate_id offset_seconds tier ''k8s'' ''delete'' resource_kind resource_ref"

definition literal_stream :: "json list \<Rightarrow> json" where
  "literal_stream events = JObject [(''literal'', JObject [(''events'', JArray events)])]"

definition template_event_json :: "string \<Rightarrow> nat \<Rightarrow> string \<Rightarrow> string \<Rightarrow> json" where
  "template_event_json mandate_id tier resource_kind verb =
     JObject
       [(''mandate_id'', JString mandate_id),
        (''tier'', json_nat tier),
        (''integration'', JString ''k8s''),
        (''verb'', JString verb),
        (''resource_kind'', JString resource_kind),
        (''outcome'', JString ''executed'')]"

definition match_scope_mandate :: "string \<Rightarrow> json" where
  "match_scope_mandate mandate_id = JObject [(''mandate_id'', JString mandate_id)]"

definition expected_fire :: "string \<Rightarrow> string \<Rightarrow> string \<Rightarrow> json \<Rightarrow> json" where
  "expected_fire pid severity firing_rule match_scope =
     JObject
       [(''pattern_id'', JString pid),
        (''library_version'', json_nat 1),
        (''severity'', JString severity),
        (''firing_rule'', JString firing_rule),
        (''match_scope'', match_scope)]"

definition detect_anchor_def :: "('pk, 'sig) signer_kit \<Rightarrow> json" where
  "detect_anchor_def kit =
     JArray
       [JObject
         [(''kid'', JString FIXTURE_ANOMALY_KID), (''alg'', JString ''ed25519''),
          (''pk_hex'', JString (kt_hex_encode kit (fixture_anomaly_verifying_key_bytes kit)))]]"

section \<open>Assembling a vector\<close>

text \<open>The input block and the frame the three assemblers write out alike.\<close>

definition detect_input_json :: "string \<Rightarrow> json \<Rightarrow> json list \<Rightarrow> json" where
  "detect_input_json cose_hex anchors streams =
     JObject
       [(''cose_sign1_bytes_anomaly_library'', JString cose_hex),
        (''trust_anchor_keys_anomaly_library'', anchors),
        (''expected_abi_version'', json_nat ANOMALY_LIBRARY_ABI_VERSION),
        (''current_time'', JString CURRENT_TIME),
        (''initial_time'', JString DETECT_INITIAL_TIME),
        (''streams'', JArray streams)]"

definition vector_frame :: "string \<Rightarrow> string \<Rightarrow> string \<Rightarrow> json \<Rightarrow> json \<Rightarrow> string \<Rightarrow> string \<Rightarrow> json" where
  "vector_frame i category description input expected rationale sev =
     JObject
       [(''id'', JString i), (''category'', JString category), (''description'', JString description),
        (''input'', input), (''expected'', expected), (''rationale'', JString rationale),
        (''redteam_refs'', JArray [JString ''PHASE-C4-LIVE'']), (''severity_if_failed'', JString sev)]"

definition detect_vector ::
  "('pk, 'sig) signer_kit \<Rightarrow> string \<Rightarrow> string \<Rightarrow> string \<Rightarrow> string \<Rightarrow> json list \<Rightarrow> json list \<Rightarrow> string \<Rightarrow> json" where
  "detect_vector kit i category description rationale streams fires sev =
     (let env = sign_minimum_library_with_version kit 1 in
      vector_frame i category description
        (detect_input_json (kt_hex_encode kit env) (detect_anchor_def kit) streams)
        (JObject
          [(''outcome'', JString ''reject''), (''reject_code'', JString ANOMALY_DETECTED_WIRE),
           (''output'', JObject [(''fires'', JArray fires)])])
        rationale sev)"

definition detect_accept_vector ::
  "('pk, 'sig) signer_kit \<Rightarrow> string \<Rightarrow> string \<Rightarrow> string \<Rightarrow> string \<Rightarrow> json list \<Rightarrow> json" where
  "detect_accept_vector kit i category description rationale streams =
     (let env = sign_minimum_library_with_version kit 1 in
      vector_frame i category description
        (detect_input_json (kt_hex_encode kit env) (detect_anchor_def kit) streams)
        (JObject [(''outcome'', JString ''accept'')])
        rationale ''medium'')"

definition detect_reject_vector ::
  "('pk, 'sig) signer_kit \<Rightarrow> string \<Rightarrow> string \<Rightarrow> string \<Rightarrow> string \<Rightarrow> json list \<Rightarrow> string \<Rightarrow> json" where
  "detect_reject_vector kit i category description rationale streams reject_code =
     (let env = sign_minimum_library_with_version kit 1 in
      vector_frame i category description
        (detect_input_json (kt_hex_encode kit env) (detect_anchor_def kit) streams)
        (JObject [(''outcome'', JString ''reject''), (''reject_code'', JString reject_code)])
        rationale ''high'')"

section \<open>The vectors\<close>

definition build_adet_100_delete_storm_basic :: "('pk, 'sig) signer_kit \<Rightarrow> json" where
  "build_adet_100_delete_storm_basic kit =
    (let stream = literal_stream
        [canonical_delete_event ''e-0'' ''m-a100'' 0 2 ''pod'' ''pod/foo'',
         canonical_delete_event ''e-1'' ''m-a100'' 1 2 ''pod'' ''pod/foo'',
         canonical_delete_event ''e-2'' ''m-a100'' 2 2 ''pod'' ''pod/foo'',
         canonical_delete_event ''e-3'' ''m-a100'' 3 2 ''pod'' ''pod/foo'',
         canonical_delete_event ''e-4'' ''m-a100'' 4 2 ''pod'' ''pod/foo'']
     in detect_vector kit ''adet-100'' ''anomaly-detect-delete-storm-basic''
       (''Five destructive `delete` events on the same pod under one mandate at tier 2 cross the FirstMatch Co'' @
        ''unt(5) threshold in 60 s. `delete-storm` fires; the ProtectedBranches wildcard co-fires `git-force-p'' @
        ''ush-storm` because Session 5-B Commit A does not yet narrow the predicate with `protected_patterns` '' @
        ''resource-ref globbing (scope_match.rs '' @ [CHR 0xC2, CHR 0xA7] @ ''140-141 comment).'')
       (''design-final.md '' @ [CHR 0xC2, CHR 0xA7] @ ''3.5.3 FirstMatch + '' @ [CHR 0xC2, CHR 0xA7] @
        ''3.5.4 MINIMUM-library `delete-storm` and `git-force-push-storm` rows. The multiset expected-fire ass'' @
        ''ertion pins that the evaluator emits BOTH fires from a single evaluate_all call rather than short-ci'' @
        ''rcuiting at the first match.'')
       [stream]
       [expected_fire ''delete-storm'' ''high'' ''first-match'' (match_scope_mandate ''m-a100''),
        expected_fire ''git-force-push-storm'' ''high'' ''first-match'' (match_scope_mandate ''m-a100'')]
       ''high'')"

definition build_adet_101_iam_attach_storm :: "('pk, 'sig) signer_kit \<Rightarrow> json" where
  "build_adet_101_iam_attach_storm kit =
    (let stream = literal_stream
        [canonical_event_named ''e-0'' ''m-a101'' 0 2 ''aws-iam'' ''attachrolepolicy'' ''role'' ''role/admin'',
         canonical_event_named ''e-1'' ''m-a101'' 1 2 ''aws-iam'' ''attachrolepolicy'' ''role'' ''role/admin'',
         canonical_event_named ''e-2'' ''m-a101'' 2 2 ''aws-iam'' ''attachrolepolicy'' ''role'' ''role/admin'',
         canonical_event_named ''e-3'' ''m-a101'' 3 2 ''aws-iam'' ''attachrolepolicy'' ''role'' ''role/admin'',
         canonical_event_named ''e-4'' ''m-a101'' 4 2 ''aws-iam'' ''attachrolepolicy'' ''role'' ''role/admin'']
     in detect_vector kit ''adet-101'' ''anomaly-detect-iam-attach-storm''
       (''Five `attachrolepolicy` events (member of the `iam-attach` verb family) on the same role within 5 s '' @
        ''satisfy `iam-attach-policy-storm` FirstMatch Count(5) in 300 s. `git-force-push-storm` co-fires thro'' @
        ''ugh its ProtectedBranches wildcard at Count(3).'')
       (''design-final.md '' @ [CHR 0xC2, CHR 0xA7] @
        ''3.5.3 IamAttachFamily + MINIMUM library. IamAttachFamily does NOT pin a specific verb at projection '' @
        ''time (family predicates carry no verb attribution per MatchScope::verb docstring), so the expected f'' @
        ''ire omits `verb`.'')
       [stream]
       [expected_fire ''iam-attach-policy-storm'' ''high'' ''first-match'' (match_scope_mandate ''m-a101''),
        expected_fire ''git-force-push-storm'' ''high'' ''first-match'' (match_scope_mandate ''m-a101'')]
       ''high'')"

definition build_adet_102_vault_rotate_storm :: "('pk, 'sig) signer_kit \<Rightarrow> json" where
  "build_adet_102_vault_rotate_storm kit =
    (let stream = literal_stream
        [canonical_event_named ''e-0'' ''m-a102'' 0 2 ''vault'' ''rotate'' ''vault-secret'' ''secret/prod/db-key'',
         canonical_event_named ''e-1'' ''m-a102'' 1 2 ''vault'' ''rotate'' ''vault-secret'' ''secret/prod/db-key'',
         canonical_event_named ''e-2'' ''m-a102'' 2 2 ''vault'' ''rotate'' ''vault-secret'' ''secret/prod/db-key'']
     in detect_vector kit ''adet-102'' ''anomaly-detect-vault-rotate-storm''
       (''Three `rotate` events on `vault-secret` in 3 s satisfy `vault-rotate-storm` FirstMatch Count(3) in 3'' @
        '' 600 s. The fire'' @ [CHR 0x27] @
        ''s MatchScope pins both `verb=rotate` and `resource_kind=vault-secret` because the predicate `VerbRes'' @
        ''ourceMandate { verb: Exact('' @ [CHR 0x22] @ ''rotate'' @ [CHR 0x22] @ ''), resource_kind: Some('' @
        [CHR 0x22] @ ''vault-secret'' @ [CHR 0x22] @
        ''), .. }` binds both. `git-force-push-storm` co-fires at Count(3).'')
       (''design-final.md '' @ [CHR 0xC2, CHR 0xA7] @
        ''3.5.3 MatchScope projection for VerbResource-Mandate: `verb` is `Some(sample_event.verb.clone())` if'' @
        ''f `VerbPredicate::Exact(_)`; `resource_kind` is `Some(sample_event.resource_kind.clone())` iff bound'' @ ''.'')
       [stream]
       [expected_fire ''vault-rotate-storm'' ''high'' ''first-match''
          (JObject [(''mandate_id'', JString ''m-a102''),
           (''verb'', JString ''rotate''),
           (''resource_kind'', JString ''vault-secret'')]),
        expected_fire ''git-force-push-storm'' ''high'' ''first-match'' (match_scope_mandate ''m-a102'')]
       ''high'')"

definition build_adet_103_gfp_only :: "('pk, 'sig) signer_kit \<Rightarrow> json" where
  "build_adet_103_gfp_only kit =
    (let stream = literal_stream
        [canonical_event_named ''e-0'' ''m-a103'' 0 0 ''github'' ''get'' ''repo'' ''org/app'',
         canonical_event_named ''e-1'' ''m-a103'' 1 0 ''github'' ''get'' ''repo'' ''org/app'',
         canonical_event_named ''e-2'' ''m-a103'' 2 0 ''github'' ''get'' ''repo'' ''org/app'']
     in detect_vector kit ''adet-103'' ''anomaly-detect-gfp-only-isolation''
       (''Three `get` events at tier 0. `machine-pace` is tier-floored (tier_floor=1) and excludes the `read-o'' @
        ''nly` verb family, so it does not even enter the bucket. `delete-storm` requires AnyDestructive. Only'' @
        '' `git-force-push-storm` fires, isolating the ProtectedBranches wildcard path from the destructive-ve'' @
        ''rb path.'')
       (''design-final.md '' @ [CHR 0xC2, CHR 0xA7] @
        ''3.5.3 MandatePace `tier_floor` + `exclude_verb_category` semantics. This vector pins that read-only '' @
        ''events below the tier floor neither enter machine-pace'' @ [CHR 0x27] @ ''s bucket nor block other patterns'' @
        [CHR 0x27] @ '' firing '' @ [CHR 0xE2, CHR 0x80, CHR 0x94] @ '' the gates are independent.'')
       [stream]
       [expected_fire ''git-force-push-storm'' ''high'' ''first-match'' (match_scope_mandate ''m-a103'')]
       ''high'')"

definition build_adet_104_fanout_and_slow_burn :: "('pk, 'sig) signer_kit \<Rightarrow> json" where
  "build_adet_104_fanout_and_slow_burn kit =
    (let events =
        map (\<lambda>i. canonical_delete_event (''e-'' @ show_nat i) ''m-a104'' (int i) 0 ''pod'' (''pod/n-'' @ show_nat i))
          [0..<10];
      stream = literal_stream events
     in detect_vector kit ''adet-104'' ''anomaly-detect-fanout-distinct-and-slow-burn''
       (''Ten `delete` events on ten distinct pods under one mandate. Four patterns fire: delete-storm (Count)'' @
        '', git-force-push-storm (wildcard Count), git-force-push-slow-burn (wildcard Cumulative 10 '' @
        [CHR 0xE2, CHR 0x89, CHR 0xA5] @
        '' 10), and fanout-distinct-resources (VerbFanout + DistinctCount 10 = 10). machine-pace is NOT a buck'' @
        ''et candidate because its `tier_floor=1` rejects all tier=0 events at bucket-membership time (scope_m'' @
        ''atch.rs '' @ [CHR 0xC2, CHR 0xA7] @ ''193-194) '' @ [CHR 0xE2, CHR 0x80, CHR 0x94] @
        '' so the bucket is empty, not just below-threshold.'')
       (''design-final.md '' @ [CHR 0xC2, CHR 0xA7] @ ''3.5.3 DistinctCount threshold + '' @ [CHR 0xC2, CHR 0xA7] @
        ''3.5.4 `fanout-distinct-resources` row. Pins that the distinct-resource counter and the plain Count c'' @
        ''ounter fire INDEPENDENTLY on the same stream '' @ [CHR 0xE2, CHR 0x80, CHR 0x94] @
        '' fanout is scope-sensitive, not a mere variant of delete-storm.'')
       [stream]
       [expected_fire ''delete-storm'' ''high'' ''first-match'' (match_scope_mandate ''m-a104''),
        expected_fire ''git-force-push-storm'' ''high'' ''first-match'' (match_scope_mandate ''m-a104''),
        expected_fire ''git-force-push-slow-burn'' ''medium'' ''cumulative-over-baseline'' (match_scope_mandate ''m-a104''),
        expected_fire ''fanout-distinct-resources'' ''high'' ''first-match''
          (JObject [(''mandate_id'', JString ''m-a104''), (''verb'', JString ''delete'')])]
       ''high'')"

definition build_adet_105_cross_tier_escalation :: "('pk, 'sig) signer_kit \<Rightarrow> json" where
  "build_adet_105_cross_tier_escalation kit =
    (let stream = literal_stream
        [canonical_event_named ''e-0'' ''m-a105'' 0 0 ''config'' ''get'' ''config'' ''cfg/a'',
         canonical_event_named ''e-1'' ''m-a105'' 1 2 ''config'' ''get'' ''config'' ''cfg/b'',
         canonical_event_named ''e-2'' ''m-a105'' 2 3 ''config'' ''get'' ''config'' ''cfg/c'']
     in detect_vector kit ''adet-105'' ''anomaly-detect-cross-tier-escalation''
       (''Three events walk tiers 0 '' @ [CHR 0xE2, CHR 0x86, CHR 0x92] @ '' 2 '' @ [CHR 0xE2, CHR 0x86, CHR 0x92] @
        '' 3 in order '' @ [CHR 0xE2, CHR 0x80, CHR 0x94] @
        '' satisfying the `cross-tier-escalation` CrossTierSequence template `[0, 2, 3]` in 1 800 s. Severity='' @
        ''Critical, FiringRule=SequenceMatch. `git-force-push-storm` wildcard co-fires at Count(3).'')
       (''design-final.md '' @ [CHR 0xC2, CHR 0xA7] @
        ''3.5.3 CrossTierSequence walk semantics: step k matches on `event.tier >= tier_progression[k]`, advan'' @
        ''ces to step k+1 on match, records a completion at `step == len`. This vector pins 1 completion = 1 f'' @
        ''ire under Threshold::Sequence(1).'')
       [stream]
       [expected_fire ''cross-tier-escalation'' ''critical'' ''sequence-match'' (match_scope_mandate ''m-a105''),
        expected_fire ''git-force-push-storm'' ''high'' ''first-match'' (match_scope_mandate ''m-a105'')]
       ''critical'')"

definition build_adet_106_delete_walk_under_slow_burn :: "('pk, 'sig) signer_kit \<Rightarrow> json" where
  "build_adet_106_delete_walk_under_slow_burn kit =
    (let events =
        map (\<lambda>i. canonical_delete_event (''e-'' @ show_nat i) ''m-a106'' (int i * 30) 0 ''pod'' ''pod/n-0'')
          [0..<20];
      stream = literal_stream events
     in detect_vector kit ''adet-106'' ''anomaly-detect-delete-walk-under-slow-burn''
       (''Twenty `delete` events spaced 30 s apart on the same pod. The 60 s window of `delete-storm` holds at'' @
        '' most 3 events at this pace, so the short-window primary NEVER fires '' @ [CHR 0xE2, CHR 0x80, CHR 0x94] @
        '' the textbook walk-under. The `delete-slow-burn` companion (Cumulative Count=20 in 600 s) catches th'' @
        ''e cumulative stream and fires. git-force-push-* co-fire via ProtectedBranches wildcard at their own '' @
        ''thresholds.'')
       (''design-final.md '' @ [CHR 0xC2, CHR 0xA7] @
        ''3.5.3 anti-walk-under rationale. Without the Cumulative companion, a patient attacker spaced just be'' @
        ''low the FirstMatch threshold defeats the primary entirely '' @ [CHR 0xE2, CHR 0x80, CHR 0x94] @
        '' this vector is the positive proof that the companion mechanism WORKS on a textbook walk-under.'')
       [stream]
       [expected_fire ''delete-slow-burn'' ''medium'' ''cumulative-over-baseline'' (match_scope_mandate ''m-a106''),
        expected_fire ''git-force-push-storm'' ''high'' ''first-match'' (match_scope_mandate ''m-a106''),
        expected_fire ''git-force-push-slow-burn'' ''medium'' ''cumulative-over-baseline'' (match_scope_mandate ''m-a106'')]
       ''high'')"

definition build_adet_107_iam_walk_under_slow_burn :: "('pk, 'sig) signer_kit \<Rightarrow> json" where
  "build_adet_107_iam_walk_under_slow_burn kit =
    (let events =
        map (\<lambda>i. canonical_event_named (''e-'' @ show_nat i) ''m-a107'' (int i * 150) 0 ''aws-iam'' ''attachrolepolicy'' ''role'' ''role/admin'')
          [0..<20];
      stream = literal_stream events
     in detect_vector kit ''adet-107'' ''anomaly-detect-iam-walk-under-slow-burn''
       (''Twenty `attachrolepolicy` events spaced 150 s apart. The `iam-attach-policy-storm` 300 s window hold'' @
        ''s at most 3 events at this pace '' @ [CHR 0xE2, CHR 0x86, CHR 0x92] @
        '' walk-under succeeds against the short-window primary. `iam-attach-slow-burn` (Cumulative Count=20 i'' @
        ''n 3 000 s) catches the cumulative stream. gfp-* co-fire.'')
       (''design-final.md '' @ [CHR 0xC2, CHR 0xA7] @ ''3.5.3 anti-walk-under '' @ [CHR 0xE2, CHR 0x80, CHR 0x94] @
        '' mirrored across two different verb-family patterns to pin that the companion mechanism is scope-agn'' @
        ''ostic: IamAttachFamily walk-under behaves identically to VerbResourceMandate walk-under.'')
       [stream]
       [expected_fire ''iam-attach-slow-burn'' ''medium'' ''cumulative-over-baseline'' (match_scope_mandate ''m-a107''),
        expected_fire ''git-force-push-storm'' ''high'' ''first-match'' (match_scope_mandate ''m-a107''),
        expected_fire ''git-force-push-slow-burn'' ''medium'' ''cumulative-over-baseline'' (match_scope_mandate ''m-a107'')]
       ''high'')"

definition build_adet_108_fire_once_dedup_across_streams :: "('pk, 'sig) signer_kit \<Rightarrow> json" where
  "build_adet_108_fire_once_dedup_across_streams kit =
    (let stream_one = literal_stream
        [canonical_delete_event ''e1-0'' ''m-a108'' 0 2 ''pod'' ''pod/foo'',
         canonical_delete_event ''e1-1'' ''m-a108'' 1 2 ''pod'' ''pod/foo'',
         canonical_delete_event ''e1-2'' ''m-a108'' 2 2 ''pod'' ''pod/foo'',
         canonical_delete_event ''e1-3'' ''m-a108'' 3 2 ''pod'' ''pod/foo'',
         canonical_delete_event ''e1-4'' ''m-a108'' 4 2 ''pod'' ''pod/foo''];
      stream_two = literal_stream
        [canonical_delete_event ''e2-0'' ''m-a108'' 5 2 ''pod'' ''pod/foo'',
         canonical_delete_event ''e2-1'' ''m-a108'' 6 2 ''pod'' ''pod/foo'',
         canonical_delete_event ''e2-2'' ''m-a108'' 7 2 ''pod'' ''pod/foo'']
     in detect_vector kit ''adet-108'' ''anomaly-detect-fire-once-dedup-across-streams''
       (''Two streams on the same (delete-storm, m-a108) key. Stream 1 fires delete-storm and gfp-storm; strea'' @
        ''m 2'' @ [CHR 0x27] @
        ''s additional 3 events recross the threshold but land inside the 60 s (or 300 s) suppression window '' @
        [CHR 0xE2, CHR 0x86, CHR 0x92] @
        '' no re-fire. Pins the fire-once dedup key against a future refactor that reset the dedup ledger at s'' @
        ''tream boundaries.'')
       (''design-final.md '' @ [CHR 0xC2, CHR 0xA7] @
        ''3.5.3 fire-once semantics + evaluators.rs `is_fire_suppressed`: `current_time - fired_at < window_se'' @
        ''conds` is STRICT `<`, so equal-window re-fires are allowed. This vector'' @ [CHR 0x27] @
        ''s second stream lands at distance 3, firmly inside the window, so suppression is unambiguous.'')
       [stream_one,
        stream_two]
       [expected_fire ''delete-storm'' ''high'' ''first-match'' (match_scope_mandate ''m-a108''),
        expected_fire ''git-force-push-storm'' ''high'' ''first-match'' (match_scope_mandate ''m-a108'')]
       ''high'')"

definition build_adet_109_empty_stream :: "('pk, 'sig) signer_kit \<Rightarrow> json" where
  "build_adet_109_empty_stream kit =
    (let stream = literal_stream []
     in detect_accept_vector kit ''adet-109'' ''anomaly-detect-empty-stream''
       (''Empty literal stream. Zero events, zero fires, zero suppression bookkeeping. Pins that the executor'' @
        [CHR 0x27] @
        ''s accept path produces ValidationOutcome::Pass rather than Fail on the edge case of a stream with no'' @
        '' events.'')
       (''design-final.md '' @ [CHR 0xC2, CHR 0xA7] @
        ''3.5.3: an empty observation window is a valid state (no activity observed). A validator that treated'' @
        '' it as an error would fail every post-restart cold start '' @ [CHR 0xE2, CHR 0x80, CHR 0x94] @
        '' reject that shape at this vector.'')
       [stream])"

definition build_adet_110_below_threshold :: "('pk, 'sig) signer_kit \<Rightarrow> json" where
  "build_adet_110_below_threshold kit =
    (let stream = literal_stream
        [canonical_event_named ''e-0'' ''m-a110'' 0 0 ''github'' ''get'' ''repo'' ''org/x'',
         canonical_event_named ''e-1'' ''m-a110'' 1 0 ''github'' ''get'' ''repo'' ''org/x'']
     in detect_accept_vector kit ''adet-110'' ''anomaly-detect-below-all-thresholds''
       (''Two read-only `get` events at tier 0 '' @ [CHR 0xE2, CHR 0x80, CHR 0x94] @
        '' below every MINIMUM-library threshold. ProtectedBranches requires 3, machine-pace requires tier '' @
        [CHR 0xE2, CHR 0x89, CHR 0xA5] @
        '' 1, storm primaries require destructive verbs. Pins the negative control: the executor does NOT emit'' @
        '' a spurious fire when a stream is strictly under-threshold.'')
       (''design-final.md '' @ [CHR 0xC2, CHR 0xA7] @ ''3.5.3: the firing rule is `count '' @
        [CHR 0xE2, CHR 0x89, CHR 0xA5] @
        '' threshold`, NOT `count > 0`. A validator that fired on any activity at all would catch this case as'' @
        '' a false positive '' @ [CHR 0xE2, CHR 0x80, CHR 0x94] @ '' this vector surfaces that regression.'')
       [stream])"

definition build_adet_111_machine_pace_and_silence_burst :: "('pk, 'sig) signer_kit \<Rightarrow> json" where
  "build_adet_111_machine_pace_and_silence_burst kit =
    (let events =
        map (\<lambda>i. canonical_event_named (''e-'' @ show_nat i) ''m-a111'' (int i) 1 ''k8s'' ''patch'' ''configmap'' ''cm/foo'')
          [0..<50];
      stream = literal_stream events
     in detect_vector kit ''adet-111'' ''anomaly-detect-machine-pace-and-silence-burst''
       (''Fifty `patch` events at tier 1, 1 s apart on the same configmap. Four patterns fire: git-force-push-'' @
        ''storm and -slow-burn (wildcard ProtectedBranches), machine-pace (MandatePace Cumulative Count 50 '' @
        [CHR 0xE2, CHR 0x89, CHR 0xA5] @ '' 50, MatchScope binds tier), and long-silence-before-burst (first event'' @
        [CHR 0x27] @
        ''s implicit infinite silence satisfies the silence gate; 20 events within 1 s span fall well inside t'' @
        ''he 300 s burst window).'')
       (''design-final.md '' @ [CHR 0xC2, CHR 0xA7] @
        ''3.5.3 MandatePace tier projection + SilenceThenBurst implicit-silence semantics (evaluators.rs `coun'' @
        ''t_silence_then_burst` i=0 branch). This vector pins the widest-multiset fire in the suite, exercisin'' @
        ''g every projection path the evaluator supports except the fanout distinct-count path.'')
       [stream]
       [expected_fire ''git-force-push-storm'' ''high'' ''first-match'' (match_scope_mandate ''m-a111''),
        expected_fire ''git-force-push-slow-burn'' ''medium'' ''cumulative-over-baseline'' (match_scope_mandate ''m-a111''),
        expected_fire ''machine-pace'' ''low'' ''cumulative-over-baseline''
          (JObject [(''mandate_id'', JString ''m-a111''), (''tier'', json_nat 1)]),
        expected_fire ''long-silence-before-burst'' ''medium'' ''sequence-match'' (match_scope_mandate ''m-a111'')]
       ''high'')"

definition build_adet_112_clock_regression :: "('pk, 'sig) signer_kit \<Rightarrow> json" where
  "build_adet_112_clock_regression kit =
    (let stream = literal_stream
        [canonical_delete_event ''e-forward'' ''m-a112'' 100 2 ''pod'' ''pod/foo'',
         canonical_delete_event ''e-regress'' ''m-a112'' 50 2 ''pod'' ''pod/foo'']
     in detect_reject_vector kit ''adet-112'' ''anomaly-detect-clock-regression''
       (''Two literal events where the second timestamp is lower than the first. `DetectorState::advance_clock'' @
        ''` enforces strict monotonic progression and rejects the second event with `ClockRegression { from, t'' @
        ''o }` before ingest. Wire `anomaly-detect-stream-clock-regression`.'')
       (''design-final.md '' @ [CHR 0xC2, CHR 0xA7] @ ''3.5.3 '' @ [CHR 0xE2, CHR 0x80, CHR 0x94] @
        '' the detector clock is the operator'' @ [CHR 0x27] @
        ''s best estimate of `now`, and out-of-order audit input MUST reject rather than silently mask a repla'' @
        ''y. A backwards step here could let an attacker re-window a stale event into a fresh sliding-window b'' @
        ''ucket.'')
       [stream]
       ''anomaly-detect-stream-clock-regression'')"

definition build_adet_113_pattern_description_count_zero :: "('pk, 'sig) signer_kit \<Rightarrow> json" where
  "build_adet_113_pattern_description_count_zero kit =
    (let stream = JObject [(''pattern_description'', (JObject [(''start_time'', JString DETECT_INITIAL_TIME),
           (''end_time'', JString DETECT_INITIAL_TIME),
           (''count'', json_nat 0),
           (''interval_seconds'', json_nat 0),
           (''template_event'', template_event_json ''m-a113'' 2 ''pod'' ''delete''),
           (''resource_ref_pattern'', JString ''pod/n-{i}'')]))]
     in detect_reject_vector kit ''adet-113'' ''anomaly-detect-pattern-description-count-zero''
       (''Pattern-description stream with count=0. Expansion rejects at normalize with `PatternDescriptionCoun'' @
        ''tZero`, wire `anomaly-detect-stream-pattern-description-count-zero`.'')
       (''design-final.md '' @ [CHR 0xC2, CHR 0xA7] @ ''3.5.3 '' @ [CHR 0xE2, CHR 0x80, CHR 0x94] @
        '' a zero-count expansion is a degenerate signer-side mistake. Accepting it would silently produce zer'' @
        ''o events (indistinguishable from a legitimate empty stream) and mask the vector author'' @ [CHR 0x27] @
        ''s bug. Reject eagerly.'')
       [stream]
       ''anomaly-detect-stream-pattern-description-count-zero'')"

definition build_adet_114_timestamp_parse_failed :: "('pk, 'sig) signer_kit \<Rightarrow> json" where
  "build_adet_114_timestamp_parse_failed kit =
    (let stream = JObject [(''pattern_description'', (JObject [(''start_time'', JString ''not-a-real-iso-timestamp''),
           (''end_time'', JString DETECT_INITIAL_TIME),
           (''count'', json_nat 3),
           (''interval_seconds'', json_nat 1),
           (''template_event'', template_event_json ''m-a114'' 2 ''pod'' ''delete''),
           (''resource_ref_pattern'', JString ''pod/n-{i}'')]))]
     in detect_reject_vector kit ''adet-114'' ''anomaly-detect-timestamp-parse-failed''
       (''Pattern-description stream with `start_time` = `not-a-real-iso-timestamp`. Normalize parses start_ti'' @
        ''me first; any parse failure surfaces as `TimestampParseFailed` with wire `anomaly-detect-stream-time'' @
        ''stamp-parse-failed`.'')
       (''design-final.md '' @ [CHR 0xC2, CHR 0xA7] @ ''3.5.3 '' @ [CHR 0xE2, CHR 0x80, CHR 0x94] @
        '' RFC-3339 is the normative interchange format for audit event timestamps. Any lenient fallback here '' @
        ''(e.g. accepting Unix seconds inline) would open a stream-authoring ambiguity that spec'' @ [CHR 0x27] @
        ''d conformance explicitly closes.'')
       [stream]
       ''anomaly-detect-stream-timestamp-parse-failed'')"

definition build_all_detect :: "('pk, 'sig) signer_kit \<Rightarrow> json list" where
  "build_all_detect kit =
     [build_adet_100_delete_storm_basic kit,
      build_adet_101_iam_attach_storm kit,
      build_adet_102_vault_rotate_storm kit,
      build_adet_103_gfp_only kit,
      build_adet_104_fanout_and_slow_burn kit,
      build_adet_105_cross_tier_escalation kit,
      build_adet_106_delete_walk_under_slow_burn kit,
      build_adet_107_iam_walk_under_slow_burn kit,
      build_adet_108_fire_once_dedup_across_streams kit,
      build_adet_109_empty_stream kit,
      build_adet_110_below_threshold kit,
      build_adet_111_machine_pace_and_silence_burst kit,
      build_adet_112_clock_regression kit,
      build_adet_113_pattern_description_count_zero kit,
      build_adet_114_timestamp_parse_failed kit]"

end
