(* ===== verification/Pattern_Trace.thy ===== *)
theory Pattern_Trace
  imports Anomaly_Suites_Correct
begin

text \<open>
  One pattern at a time.  Over the events of one mandate, in order and within the quotas, what the detector fires for
  a pattern is the output of an automaton that remembers the live events of the pattern and the time of its last fire
  and sees nothing of the other patterns.  The loops of the detect and the audit executor are shown to refine it.
\<close>

section \<open>The automaton\<close>

definition live_events :: "pattern_entry \<Rightarrow> int \<Rightarrow> canonicalized_event list \<Rightarrow> canonicalized_event list" where
  "live_events p now es =
     (case window_seconds p of
        Some w \<Rightarrow> dropWhile (\<lambda>e. timestamp e < sat_sub now (int w)) es
      | None \<Rightarrow> es)"

definition events_meet :: "pattern_entry \<Rightarrow> canonicalized_event list \<Rightarrow> bool" where
  "events_meet p es = threshold_met p \<lparr>pb_pattern_id = pattern_id p, pb_events = es, pb_sequence_tracker = None\<rparr>"

definition fired_recently :: "pattern_entry \<Rightarrow> int option \<Rightarrow> int \<Rightarrow> bool" where
  "fired_recently p fired now =
     (case fired of None \<Rightarrow> False | Some t \<Rightarrow> sat_sub now t < int (dedup_window p))"

definition pattern_step ::
  "nat \<Rightarrow> string \<Rightarrow> pattern_entry \<Rightarrow> int \<Rightarrow> canonicalized_event list \<Rightarrow> int option \<Rightarrow>
   anomaly_fire list \<times> canonicalized_event list \<times> int option" where
  "pattern_step ver m p now es fired =
     (let live = live_events p now es in
      if fired_recently p fired now then ([], live, fired)
      else if events_meet p live \<and> live \<noteq> [] then
        ([build_anomaly_fire p (key_of (pattern_id p) m) ver (last live)], live, Some now)
      else ([], live, fired))"

fun pattern_trace ::
  "nat \<Rightarrow> string \<Rightarrow> pattern_entry \<Rightarrow> canonicalized_event list \<Rightarrow> int option \<Rightarrow>
   (int \<times> canonicalized_event list) list \<Rightarrow> anomaly_fire list" where
  "pattern_trace ver m p es fired [] = []"
| "pattern_trace ver m p es fired ((now, batch) # rest) =
     (let (fs, es, fired) = pattern_step ver m p now (es @ filter (scope_matches (scope p)) batch) fired in
      fs @ pattern_trace ver m p es fired rest)"

text \<open>Batches with the clock after each, and the conditions under which no event is refused.\<close>

fun stamped :: "int \<Rightarrow> canonicalized_event list list \<Rightarrow> (int \<times> canonicalized_event list) list" where
  "stamped t [] = []"
| "stamped t (b # bs) = (clock_after t b, b) # stamped (clock_after t b) bs"

fun well_timed :: "string \<Rightarrow> int \<Rightarrow> canonicalized_event list \<Rightarrow> bool" where
  "well_timed m t [] \<longleftrightarrow> True"
| "well_timed m t (e # es) \<longleftrightarrow>
     ev_mandate_id e = m \<and> in_i64 (timestamp e) \<and> t \<le> timestamp e \<and> well_timed m (timestamp e) es"

lemma well_timed_append [simp]:
  "well_timed m t (xs @ ys) \<longleftrightarrow> well_timed m t xs \<and> well_timed m (clock_after t xs) ys"
  by (induction xs arbitrary: t) auto

lemma clock_after_append [simp]: "clock_after t (xs @ ys) = clock_after (clock_after t xs) ys"
  by (induction xs arbitrary: t) auto

lemma pattern_trace_unmatched:
  "(\<And>b e. b \<in> set (map snd steps) \<Longrightarrow> e \<in> set b \<Longrightarrow> \<not> scope_matches (scope p) e) \<Longrightarrow>
     pattern_trace ver m p [] fired steps = []"
proof (induction steps)
  case (Cons step steps)
  obtain now batch where step: "step = (now, batch)" by fastforce
  with Cons.prems have "filter (scope_matches (scope p)) batch = []" by (auto simp: filter_empty_conv)
  then show ?case
    using Cons by (auto simp: step pattern_step_def live_events_def Let_def split: option.split)
qed simp

section \<open>A detector that serves one mandate\<close>

definition library_ids :: "verified_anomaly_library \<Rightarrow> string set" where
  "library_ids lib = set (map pattern_id (vl_patterns lib))"

definition serves :: "verified_anomaly_library \<Rightarrow> string \<Rightarrow> nat \<Rightarrow> in_memory_dedup detector_state \<Rightarrow> bool" where
  "serves lib m n s \<longleftrightarrow>
     detector_inv lib s \<and> in_i64 (current_time s) \<and> dd_inv (dedup s) \<and> dd_cap (dedup s) = 100000 \<and>
     events_ingested s m = n \<and>
     (\<forall>key. bm_get (buffers s) key \<noteq> None \<longrightarrow> key \<in> (\<lambda>pid. key_of pid m) ` library_ids lib) \<and>
     (\<forall>pid m'. last_fired_at (dedup s) pid m' \<noteq> None \<longrightarrow> pid \<in> library_ids lib \<and> m' = m) \<and>
     (\<forall>pid. length (history s m pid) \<le> n)"

definition plain_library :: "verified_anomaly_library \<Rightarrow> bool" where
  "plain_library lib \<longleftrightarrow> distinct (map pattern_id (vl_patterns lib)) \<and> length (vl_patterns lib) \<le> 50000"

lemma serves_new:
  assumes "in_i64 t"
  shows "serves lib m 0 (detector_new lib t)" "history (detector_new lib t) m pid = []"
    "last_fired_at (dedup (detector_new lib t)) pid m = None" "current_time (detector_new lib t) = t"
  using assms
  by (simp_all add: serves_def detector_new_def with_ledger_inv events_ingested_def history_def last_fired_at_def
      with_ledger_def dedup_new_def dedup_with_cap_def dd_inv_def bm_len_def MAX_DEDUP_ENTRIES_PER_TENANT_def
      detector_inv_def buffers_ok_Nil counters_ok_def)

lemma library_pattern:
  assumes "plain_library lib" "p \<in> set (vl_patterns lib)"
  shows "bm_get (pattern_index lib) (pattern_id p) = Some p"
    and "(\<exists>q \<in> set (vl_patterns lib). pattern_id q = pattern_id p \<and> P q) \<longleftrightarrow> P p"
proof -
  have d: "distinct (map pattern_id (vl_patterns lib))" using assms(1) by (simp add: plain_library_def)
  then have "distinct (map fst (map (\<lambda>p. (pattern_id p, p)) (vl_patterns lib)))" by (simp add: comp_def)
  then show "bm_get (pattern_index lib) (pattern_id p) = Some p"
    using assms(2) unfolding pattern_index_def by (simp add: bm_get_collect_distinct)
  show "(\<exists>q \<in> set (vl_patterns lib). pattern_id q = pattern_id p \<and> P q) \<longleftrightarrow> P p"
    using d assms(2) by (metis distinct_map inj_onD)
qed

section \<open>Feeding events\<close>

lemma feed_event:
  assumes lib: "plain_library lib" and s: "serves lib m n s" and n: "n < 1000"
    and ev: "ev_mandate_id ev = m" "in_i64 (timestamp ev)" "current_time s \<le> timestamp ev"
  obtains s1 s2 where "advance_clock s (timestamp ev) = (Inr (), s1)" "ingest_event s1 ev = (Inr (), s2)"
    "serves lib m (Suc n) s2" "current_time s2 = timestamp ev" "dedup s2 = dedup s"
    "\<And>p. p \<in> set (vl_patterns lib) \<Longrightarrow> history s2 m (pattern_id p) =
       history s m (pattern_id p) @ filter (scope_matches (scope p)) [ev]"
proof -
  let ?s1 = "s\<lparr>current_time := timestamp ev\<rparr>"
  let ?s2 = "?s1\<lparr>buffers := route_event ev (vl_patterns lib) (buffers s),
      per_mandate_counters := bump_counter (ev_mandate_id ev) (per_mandate_counters s)\<rparr>"
  have inv: "detector_inv lib s" "pinned_library s = lib" "distinct (map pattern_id (vl_patterns lib))"
    using s lib by (simp_all add: serves_def detector_inv_def plain_library_def)
  have clock: "advance_clock s (timestamp ev) = (Inr (), ?s1)" using ev(3) by (simp add: advance_clock_def)
  have "events_ingested ?s1 (ev_mandate_id ev) = n" using s ev(1) by (simp add: serves_def events_ingested_def)
  then have "admissible ?s1 ev" using n by (simp add: admissible_def)
  then have ingest: "ingest_event ?s1 ev = (Inr (), ?s2)"
    using ingest_event_ok_iff [OF ev(2), of ?s1 "()" ?s2] ev(2) inv(2) by simp
  have len: "length (history s m pid) \<le> n" for pid using s by (simp add: serves_def)
  have hist: "history ?s2 m pid = history s m pid @
      (if routed_to ev (vl_patterns lib) (key_of pid m) then [ev] else [])" for pid
  proof -
    have "ring_trim (history s m pid @ [ev]) = history s m pid @ [ev]"
      using len [of pid] n by (intro ring_trim_id) (simp add: MAX_EVENTS_PER_BUFFER_def)
    then show ?thesis
      by (cases "bm_get (buffers s) (key_of pid m)")
        (simp_all add: history_def bm_get_route_event [OF inv(3)] extended_bucket_def Let_def pattern_buffer_new_def)
  qed
  have routed: "routed_to ev (vl_patterns lib) (key_of (pattern_id p) m) \<longleftrightarrow> scope_matches (scope p) ev"
    if "p \<in> set (vl_patterns lib)" for p
    using library_pattern(2) [OF lib that] ev(1) by (simp add: routed_to_def key_of_def)
  have keys: "key \<in> (\<lambda>pid. key_of pid m) ` library_ids lib"
    if "bm_get (route_event ev (vl_patterns lib) (buffers s)) key \<noteq> None" for key
  proof (cases "routed_to ev (vl_patterns lib) key")
    case True
    then obtain p where p: "p \<in> set (vl_patterns lib)" "pattern_id p = key_pattern_id key"
      and key: "key = ScopeBucketKey (key_pattern_id key) (ev_mandate_id ev) None None None"
      by (auto simp: routed_to_def)
    from key have "key = key_of (pattern_id p) m" unfolding key_of_def p(2) ev(1) .
    with p(1) show ?thesis by (auto simp: library_ids_def)
  next
    case False
    with that have "bm_get (buffers s) key \<noteq> None" by (simp add: bm_get_route_event [OF inv(3)])
    with s show ?thesis unfolding serves_def by blast
  qed
  have counted: "events_ingested ?s2 m = Suc n"
    using s ev(1) by (auto simp: serves_def events_ingested_def bump_counter_def bm_get_insert split: option.splits)
  have "detector_inv lib ?s2"
    using ingest_event_inv [OF advance_clock_inv [OF inv(1) clock] ingest] .
  moreover have "length (history ?s2 m pid) \<le> Suc n" for pid using hist [of pid] len [of pid] by simp
  ultimately have "serves lib m (Suc n) ?s2"
    using s ev(2) keys counted by (simp add: serves_def)
  then show thesis
    using that [OF clock ingest] hist routed by simp
qed

lemma feed_events:
  assumes lib: "plain_library lib"
  shows "serves lib m n s \<Longrightarrow> n + length es \<le> 1000 \<Longrightarrow> well_timed m (current_time s) es \<Longrightarrow>
    \<exists>s'. detect_events s es = Inr s' \<and> serves lib m (n + length es) s' \<and>
      current_time s' = clock_after (current_time s) es \<and> dedup s' = dedup s \<and>
      (\<forall>p \<in> set (vl_patterns lib). history s' m (pattern_id p) =
         history s m (pattern_id p) @ filter (scope_matches (scope p)) es)"
proof (induction es arbitrary: s n)
  case (Cons ev es)
  have ev: "n < 1000" "ev_mandate_id ev = m" "in_i64 (timestamp ev)" "current_time s \<le> timestamp ev"
    using Cons.prems by simp_all
  obtain s1 s2 where step: "advance_clock s (timestamp ev) = (Inr (), s1)"
      "ingest_event s1 ev = (Inr (), s2)" "serves lib m (Suc n) s2" "current_time s2 = timestamp ev" "dedup s2 = dedup s"
      "\<And>p. p \<in> set (vl_patterns lib) \<Longrightarrow> history s2 m (pattern_id p) =
         history s m (pattern_id p) @ filter (scope_matches (scope p)) [ev]"
    by (rule feed_event [OF lib Cons.prems(1) ev]) blast
  moreover obtain s' where "detect_events s2 es = Inr s'" "serves lib m (Suc n + length es) s'"
      "current_time s' = clock_after (timestamp ev) es" "dedup s' = dedup s"
      "\<forall>p \<in> set (vl_patterns lib). history s' m (pattern_id p) =
         history s2 m (pattern_id p) @ filter (scope_matches (scope p)) es"
    using Cons.IH [OF step(3)] Cons.prems step(4,5) by fastforce
  ultimately show ?case by (intro exI [of _ s']) simp
qed simp

section \<open>Evaluating\<close>

lemma filter_map_filter:
  "filter P (List.map_filter f xs) = List.map_filter (\<lambda>x. case f x of Some y \<Rightarrow> if P y then Some y else None | None \<Rightarrow> None) xs"
  by (induction xs) (auto split: option.split)

lemma map_filter_single:
  assumes "distinct xs" "\<And>y. y \<in> set xs \<Longrightarrow> y \<noteq> x \<Longrightarrow> f y = None" "x \<notin> set xs \<Longrightarrow> f x = None"
  shows "List.map_filter f xs = (case f x of Some y \<Rightarrow> [y] | None \<Rightarrow> [])"
  using assms
proof (induction xs)
  case (Cons a xs)
  show ?case
  proof (cases "a = x")
    case True
    with Cons.prems have "\<And>y. y \<in> set xs \<Longrightarrow> f y = None" by auto
    then have "List.map_filter f xs = []" by (induction xs) auto
    with True show ?thesis by (simp split: option.split)
  next
    case False
    with Cons show ?thesis by (auto split: option.split)
  qed
qed (simp split: option.split)

text \<open>The fires of one pattern among those of an evaluation.\<close>

lemma due_per_pattern:
  assumes "bm_inv bufs" "\<And>key. bm_get bufs key \<noteq> None \<Longrightarrow> key \<in> (\<lambda>pid. key_of pid m) ` ids"
  shows "filter (\<lambda>f. af_pattern_id f = pid) (List.map_filter (due_fire fired lib now bufs) (bm_keys bufs)) =
    (case due_fire fired lib now bufs (key_of pid m) of Some f \<Rightarrow> [f] | None \<Rightarrow> [])"
proof -
  let ?due = "due_fire fired lib now bufs"
  let ?f = "\<lambda>k. case ?due k of Some y \<Rightarrow> if af_pattern_id y = pid then Some y else None | None \<Rightarrow> None"
  have id: "af_pattern_id f = key_pattern_id k" if "?due k = Some f" for k f
    using due_fire_pair [OF that] by (simp add: fire_pair_def)
  have "List.map_filter ?f (bm_keys bufs) = (case ?f (key_of pid m) of Some y \<Rightarrow> [y] | None \<Rightarrow> [])"
  proof (rule map_filter_single)
    show "distinct (bm_keys bufs)" using assms(1) by (rule bm.distinct_keys)
    fix k assume "k \<in> set (bm_keys bufs)" "k \<noteq> key_of pid m"
    then obtain pid' where "k = key_of pid' m" "pid' \<noteq> pid" using assms(2) [of k] by (auto simp: set_bm_keys)
    then show "?f k = None" by (auto dest!: id simp: key_of_def split: option.split)
  next
    assume "key_of pid m \<notin> set (bm_keys bufs)"
    then show "?f (key_of pid m) = None" by (simp add: set_bm_keys due_fire_def split: option.split)
  qed
  also have "\<dots> = (case ?due (key_of pid m) of Some f \<Rightarrow> [f] | None \<Rightarrow> [])"
    by (auto dest!: id simp: key_of_def split: option.split)
  finally show ?thesis unfolding filter_map_filter .
qed

lemma live_buffer_events: "pb_events (live_buffer p now b) = live_events p now (pb_events b)"
  by (simp add: live_buffer_def live_events_def evict_aged_events_eq Let_def split: option.split)

lemma due_fire_step:
  assumes "plain_library lib" "p \<in> set (vl_patterns lib)"
  shows "(case due_fire fired lib now (buffers s) (key_of (pattern_id p) m) of Some f \<Rightarrow> [f] | None \<Rightarrow> []) =
    fst (pattern_step (vl_library_version lib) m p now (history s m (pattern_id p)) (fired (pattern_id p) m))"
proof -
  have meets: "threshold_met p b \<longleftrightarrow> events_meet p (pb_events b)" for b
    by (simp add: threshold_met_def events_meet_def count_distinct_resource_refs_def count_cross_tier_sequences_def
        count_silence_then_burst_def split: threshold.split scope_predicate.split)
  have recent: "recently_fired fired p (key_of (pattern_id p) m) now \<longleftrightarrow> fired_recently p (fired (pattern_id p) m) now"
    by (simp add: recently_fired_def fired_recently_def)
  have "live_events p now [] = []" by (simp add: live_events_def split: option.split)
  then show ?thesis
    using library_pattern(1) [OF assms]
    by (cases "bm_get (buffers s) (key_of (pattern_id p) m)")
      (auto simp: due_fire_def pattern_step_def history_def live_buffer_events meets recent Let_def)
qed

lemma serves_room:
  assumes "serves lib m n s" "plain_library lib"
  shows "bm_len (dd_state (dedup s)) + length (bm_keys (buffers s)) \<le> dd_cap (dedup s)"
proof -
  let ?k = "length (vl_patterns lib)"
  have card: "finite (library_ids lib)" "card (library_ids lib) \<le> ?k"
    unfolding library_ids_def by (simp, metis card_length length_map)
  have "bm_inv (buffers s)" "bm_inv (dd_state (dedup s))"
    using assms(1) by (simp_all add: serves_def detector_inv_def buffers_ok_def dd_inv_def)
  then have d: "distinct (bm_keys (buffers s))" "distinct (bm_keys (dd_state (dedup s)))" by (simp_all add: bm.distinct_keys)
  have "set (bm_keys (buffers s)) \<subseteq> (\<lambda>pid. key_of pid m) ` library_ids lib"
    using assms(1) unfolding set_bm_keys serves_def by blast
  then have "card (set (bm_keys (buffers s))) \<le> ?k"
    using card by (meson card_image_le card_mono finite_imageI order_trans)
  moreover have "set (bm_keys (dd_state (dedup s))) \<subseteq> (\<lambda>pid. (pid, m)) ` library_ids lib"
  proof
    fix key assume "key \<in> set (bm_keys (dd_state (dedup s)))"
    then have "last_fired_at (dedup s) (fst key) (snd key) \<noteq> None" by (simp add: set_bm_keys last_fired_at_def)
    then have "fst key \<in> library_ids lib" "snd key = m" using assms(1) unfolding serves_def by blast+
    then show "key \<in> (\<lambda>pid. (pid, m)) ` library_ids lib" by (cases key) auto
  qed
  then have "card (set (bm_keys (dd_state (dedup s)))) \<le> ?k"
    using card by (meson card_image_le card_mono finite_imageI order_trans)
  ultimately have "length (bm_keys (buffers s)) \<le> ?k" "bm_len (dd_state (dedup s)) \<le> ?k"
    using d by (simp_all add: distinct_card) (simp add: bm_keys_def bm_len_def)
  with assms show ?thesis by (simp add: serves_def plain_library_def)
qed

text \<open>The state of the automaton after a step, read off the detector.\<close>

definition trace_state ::
  "in_memory_dedup detector_state \<Rightarrow> string \<Rightarrow> pattern_entry \<Rightarrow> canonicalized_event list \<times> int option" where
  "trace_state s m p = (history s m (pattern_id p), last_fired_at (dedup s) (pattern_id p) m)"

definition fires_of :: "pattern_entry \<Rightarrow> anomaly_fire list \<Rightarrow> anomaly_fire list" where
  "fires_of p fs = filter (\<lambda>f. af_pattern_id f = pattern_id p) fs"

lemma fires_of_append [simp]: "fires_of p (xs @ ys) = fires_of p xs @ fires_of p ys"
  by (simp add: fires_of_def)

lemma fires_of_Nil [simp]: "fires_of p [] = []"
  by (simp add: fires_of_def)

lemma evaluate_keys_cap:
  "evaluate_keys dd_ops idx keys fires s = (r, s') \<Longrightarrow> dd_cap (dedup s') = dd_cap (dedup s)"
proof (induction keys arbitrary: fires s)
  case (Cons key keys)
  from Cons.prems show ?case
    by (cases rule: evaluate_keys_ConsE) (auto dest!: Cons.IH dd_observe_cap)
qed simp

lemma live_length: "length (live_events p now es) \<le> length es"
  by (simp add: live_events_def length_dropWhile_le split: option.split)

lemma feed_evaluate:
  assumes lib: "plain_library lib" and s: "serves lib m n s"
  obtains fs s' where "evaluate_all dd_ops s = (Inr fs, s')" "serves lib m n s'" "current_time s' = current_time s"
    "set (map af_pattern_id fs) \<subseteq> library_ids lib"
    "\<And>p. p \<in> set (vl_patterns lib) \<Longrightarrow>
       (fires_of p fs, trace_state s' m p) =
       pattern_step (vl_library_version lib) m p (current_time s) (history s m (pattern_id p))
         (last_fired_at (dedup s) (pattern_id p) m)"
proof -
  have inv: "detector_inv lib s" "dd_inv (dedup s)" "bm_inv (buffers s)"
    using s by (simp_all add: serves_def detector_inv_def buffers_ok_def)
  have keys: "key \<in> (\<lambda>pid. key_of pid m) ` library_ids lib" if "bm_get (buffers s) key \<noteq> None" for key
    using s that unfolding serves_def by blast
  obtain fs s' where ev: "evaluate_all dd_ops s = (Inr fs, s')"
    using evaluate_keys_dd_total [OF inv(2) serves_room [OF s lib]] unfolding evaluate_all_def by blast
  have fs: "fs = List.map_filter (due_fire (last_fired_at (dedup s)) lib (current_time s) (buffers s)) (bm_keys (buffers s))"
    using dd.evaluate_all_fires [OF ev inv(1,2)] .
  have bufs: "bm_get (buffers s') key = bucket_after lib (current_time s) (buffers s) key" for key
    using evaluate_all_buffers [OF ev inv(1)] .
  have time: "current_time s' = current_time s" using ev by (rule evaluate_all_time)
  have fired: "dd_inv (dedup s')" "last_fired_at (dedup s') pid m' =
      (if (pid, Some m') \<in> recorded_pairs fs then Some (current_time s) else last_fired_at (dedup s) pid m')" for pid m'
    using dd.evaluate_all_fired [OF ev inv(2)] by simp_all
  have mandate: "fire_pair f = (af_pattern_id f, Some m)" "af_pattern_id f \<in> library_ids lib" if f: "f \<in> set fs" for f
  proof -
    obtain key where key: "key \<in> set (bm_keys (buffers s))"
        "due_fire (last_fired_at (dedup s)) lib (current_time s) (buffers s) key = Some f"
      using f unfolding fs by (auto simp: List.map_filter_def)
    then obtain pid where "key = key_of pid m" "pid \<in> library_ids lib" using keys by (auto simp: set_bm_keys)
    with due_fire_pair [OF key(2)] show "fire_pair f = (af_pattern_id f, Some m)" "af_pattern_id f \<in> library_ids lib"
      by (simp_all add: fire_pair_def)
  qed
  have recorded: "(pid, Some m') \<in> recorded_pairs fs \<longleftrightarrow> m' = m \<and> pid \<in> set (map af_pattern_id fs)" for pid m'
  proof -
    have "map fire_pair fs = map (\<lambda>f. (af_pattern_id f, Some m)) fs" using mandate(1) by simp
    then show ?thesis unfolding recorded_pairs_def by auto
  qed
  have hist: "history s' m pid = (case bm_get (pattern_index lib) pid of
      Some q \<Rightarrow> live_events q (current_time s) (history s m pid) | None \<Rightarrow> history s m pid)" for pid
  proof -
    have "live_events q (current_time s) [] = []" for q by (simp add: live_events_def split: option.split)
    then show ?thesis
      by (cases "bm_get (buffers s) (key_of pid m)"; cases "bm_get (pattern_index lib) pid")
        (simp_all add: history_def bufs bucket_after_def live_buffer_events)
  qed
  have steps: "(fires_of p fs, trace_state s' m p) =
      pattern_step (vl_library_version lib) m p (current_time s) (history s m (pattern_id p))
        (last_fired_at (dedup s) (pattern_id p) m)" if p: "p \<in> set (vl_patterns lib)" for p
  proof -
    let ?step = "pattern_step (vl_library_version lib) m p (current_time s) (history s m (pattern_id p))
        (last_fired_at (dedup s) (pattern_id p) m)"
    have fires: "fires_of p fs = fst ?step"
      unfolding fires_of_def fs
      by (rule trans [OF due_per_pattern [OF inv(3)] due_fire_step [OF lib p]]) (rule keys)
    have "pattern_id p \<in> set (map af_pattern_id fs) \<longleftrightarrow> fires_of p fs \<noteq> []"
      by (force simp: fires_of_def filter_empty_conv)
    then have "trace_state s' m p = (live_events p (current_time s) (history s m (pattern_id p)),
        if fst ?step \<noteq> [] then Some (current_time s) else last_fired_at (dedup s) (pattern_id p) m)"
      by (simp add: trace_state_def hist library_pattern(1) [OF lib p] fired(2) recorded fires)
    also have "\<dots> = snd ?step" by (simp add: pattern_step_def Let_def)
    finally show ?thesis by (simp add: fires)
  qed
  have frame: "pinned_library s' = lib" "per_mandate_counters s' = per_mandate_counters s" "detector_inv lib s'"
    using evaluate_keys_frame [of dd_ops _ _ _ s "Inr fs" s' lib] ev inv(1) evaluate_all_inv [OF inv(1) ev]
    by (auto simp: evaluate_all_def detector_inv_def)
  have "serves lib m n s'"
    unfolding serves_def
  proof (intro conjI allI impI)
    show "detector_inv lib s'" by (rule frame(3))
    show "in_i64 (current_time s')" "dd_inv (dedup s')" using s time fired(1) by (simp_all add: serves_def)
    show "dd_cap (dedup s') = 100000" using s evaluate_keys_cap ev by (simp add: serves_def evaluate_all_def)
    show "events_ingested s' m = n" using s frame(2) by (simp add: serves_def events_ingested_def)
    show "key \<in> (\<lambda>pid. key_of pid m) ` library_ids lib" if "bm_get (buffers s') key \<noteq> None" for key
      using that keys [of key] by (auto simp: bufs bucket_after_def split: option.splits)
    show "length (history s' m pid) \<le> n" for pid
    proof -
      have "length (history s m pid) \<le> n" using s by (simp add: serves_def)
      then show ?thesis
        using live_length [of _ "current_time s" "history s m pid"] by (auto simp: hist intro: order_trans split: option.split)
    qed
    fix pid m' assume "last_fired_at (dedup s') pid m' \<noteq> None"
    then show "pid \<in> library_ids lib" "m' = m"
      using s mandate(2) by (auto simp: fired(2) recorded serves_def split: if_splits)
  qed
  moreover have "set (map af_pattern_id fs) \<subseteq> library_ids lib" using mandate(2) by auto
  ultimately show thesis using that [OF ev _ time] steps by blast
qed

section \<open>The detect executor\<close>

lemma detect_streams_trace:
  assumes lib: "plain_library lib"
  shows "serves lib m n s \<Longrightarrow> n + length (concat bs) \<le> 1000 \<Longrightarrow> well_timed m (current_time s) (concat bs) \<Longrightarrow>
    \<exists>fs. detect_streams env idx (map Literal bs) s obs = Inr (obs @ fs) \<and> set (map af_pattern_id fs) \<subseteq> library_ids lib \<and>
      (\<forall>p \<in> set (vl_patterns lib). fires_of p fs =
         pattern_trace (vl_library_version lib) m p (history s m (pattern_id p))
           (last_fired_at (dedup s) (pattern_id p) m) (stamped (current_time s) bs))"
proof (induction bs arbitrary: s n obs idx)
  case (Cons b bs)
  have "n + length b \<le> 1000" "well_timed m (current_time s) b" using Cons.prems by simp_all
  from feed_events [OF lib Cons.prems(1) this] obtain s1 where s1: "detect_events s b = Inr s1"
      "serves lib m (n + length b) s1" "current_time s1 = clock_after (current_time s) b" "dedup s1 = dedup s"
      "\<forall>p \<in> set (vl_patterns lib). history s1 m (pattern_id p) =
         history s m (pattern_id p) @ filter (scope_matches (scope p)) b" by blast
  obtain fs s2 where s2: "evaluate_all dd_ops s1 = (Inr fs, s2)" "serves lib m (n + length b) s2"
      "current_time s2 = current_time s1" "set (map af_pattern_id fs) \<subseteq> library_ids lib"
      "\<And>p. p \<in> set (vl_patterns lib) \<Longrightarrow> (fires_of p fs, trace_state s2 m p) =
         pattern_step (vl_library_version lib) m p (current_time s1) (history s1 m (pattern_id p))
           (last_fired_at (dedup s1) (pattern_id p) m)"
    using feed_evaluate [OF lib s1(2)] by metis
  obtain gs where gs: "detect_streams env (idx + 1) (map Literal bs) s2 (obs @ fs) = Inr ((obs @ fs) @ gs)"
      "set (map af_pattern_id gs) \<subseteq> library_ids lib"
      "\<forall>p \<in> set (vl_patterns lib). fires_of p gs =
         pattern_trace (vl_library_version lib) m p (history s2 m (pattern_id p))
           (last_fired_at (dedup s2) (pattern_id p) m) (stamped (current_time s2) bs)"
    using Cons.IH [OF s2(2), where idx = "idx + 1" and obs = "obs @ fs"] Cons.prems s1(3) s2(3) by auto
  have "fires_of p (fs @ gs) = pattern_trace (vl_library_version lib) m p (history s m (pattern_id p))
      (last_fired_at (dedup s) (pattern_id p) m) (stamped (current_time s) (b # bs))"
    if p: "p \<in> set (vl_patterns lib)" for p
    using s2(5) [OF p, symmetric] s1(3,4,5) s2(3) gs(3) p by (simp add: trace_state_def)
  with s1(1) s2(1,4) gs(1,2) show ?case by (intro exI [of _ "fs @ gs"]) simp
qed simp

section \<open>The audit executor\<close>

definition records_of :: "string \<Rightarrow> pattern_entry \<Rightarrow> anomaly_detected_record list \<Rightarrow> anomaly_fire list" where
  "records_of tid p recs = fires_of p (map adr_payload (filter (\<lambda>r. adr_tenant_id r = tid) recs))"

definition single_batches :: "canonicalized_event list \<Rightarrow> canonicalized_event list list" where
  "single_batches es = map (\<lambda>e. [e]) es"

lemma observe_event_single:
  "detect_events s [ev] = Inr s1 \<Longrightarrow> evaluate_all dd_ops s1 = (Inr fs, s2) \<Longrightarrow> tenant_state orch tid = s \<Longrightarrow>
     observe_event orch tid ev = (Inr (wrap_fires tid (current_time s2) fs), put_tenant orch tid s2)"
  by (auto simp: observe_event_def observe_detector_def drain_detector_def split: sum.splits prod.splits)

lemma audit_events_trace:
  assumes lib: "plain_library lib"
  shows "serves lib m n (tenant_state orch tid) \<Longrightarrow> n + length es \<le> 1000 \<Longrightarrow>
    well_timed m (current_time (tenant_state orch tid)) es \<Longrightarrow>
    \<exists>orch' recs. audit_events orch tid es obs = Inr (orch', obs @ recs) \<and>
      (\<forall>r \<in> set recs. adr_tenant_id r = tid) \<and> set (map (af_pattern_id \<circ> adr_payload) recs) \<subseteq> library_ids lib \<and>
      orc_library orch' = orc_library orch \<and> orc_initial_time orch' = orc_initial_time orch \<and>
      (\<forall>t. t \<noteq> tid \<longrightarrow> bm_get (orc_tenants orch') t = bm_get (orc_tenants orch) t) \<and>
      (\<forall>p \<in> set (vl_patterns lib). fires_of p (map adr_payload recs) =
         pattern_trace (vl_library_version lib) m p (history (tenant_state orch tid) m (pattern_id p))
           (last_fired_at (dedup (tenant_state orch tid)) (pattern_id p) m)
           (stamped (current_time (tenant_state orch tid)) (single_batches es)))"
proof (induction es arbitrary: orch n obs)
  case (Cons ev es)
  let ?s = "tenant_state orch tid"
  have "n + length [ev] \<le> 1000" "well_timed m (current_time ?s) [ev]" using Cons.prems by simp_all
  from feed_events [OF lib Cons.prems(1) this] obtain s1 where s1: "detect_events ?s [ev] = Inr s1"
      "serves lib m (n + length [ev]) s1" "current_time s1 = timestamp ev" "dedup s1 = dedup ?s"
      "\<forall>p \<in> set (vl_patterns lib). history s1 m (pattern_id p) =
         history ?s m (pattern_id p) @ filter (scope_matches (scope p)) [ev]" by auto
  obtain fs s2 where s2: "evaluate_all dd_ops s1 = (Inr fs, s2)" "serves lib m (n + length [ev]) s2"
      "current_time s2 = current_time s1" "set (map af_pattern_id fs) \<subseteq> library_ids lib"
      "\<And>p. p \<in> set (vl_patterns lib) \<Longrightarrow> (fires_of p fs, trace_state s2 m p) =
         pattern_step (vl_library_version lib) m p (current_time s1) (history s1 m (pattern_id p))
           (last_fired_at (dedup s1) (pattern_id p) m)"
    using feed_evaluate [OF lib s1(2)] by metis
  let ?recs = "wrap_fires tid (current_time s2) fs" and ?orch = "put_tenant orch tid s2"
  have obs: "observe_event orch tid ev = (Inr ?recs, ?orch)"
    using observe_event_single [OF s1(1) s2(1)] by simp
  have put: "tenant_state ?orch tid = s2" "orc_library ?orch = orc_library orch"
      "orc_initial_time ?orch = orc_initial_time orch"
      "\<And>t. t \<noteq> tid \<Longrightarrow> bm_get (orc_tenants ?orch) t = bm_get (orc_tenants orch) t"
    by (simp_all add: tenant_state_def put_tenant_def bm_get_insert)
  have wrap: "map adr_payload ?recs = fs" "\<forall>r \<in> set ?recs. adr_tenant_id r = tid"
    by (simp_all add: wrap_fires_def comp_def)
  have "serves lib m (n + length [ev]) (tenant_state ?orch tid)" using s2(2) put(1) by simp
  from Cons.IH [OF this, of "obs @ ?recs"] obtain orch' gs where gs:
      "audit_events ?orch tid es (obs @ ?recs) = Inr (orch', (obs @ ?recs) @ gs)"
      "\<forall>r \<in> set gs. adr_tenant_id r = tid" "set (map (af_pattern_id \<circ> adr_payload) gs) \<subseteq> library_ids lib"
      "orc_library orch' = orc_library orch" "orc_initial_time orch' = orc_initial_time orch"
      "\<forall>t. t \<noteq> tid \<longrightarrow> bm_get (orc_tenants orch') t = bm_get (orc_tenants orch) t"
      "\<forall>p \<in> set (vl_patterns lib). fires_of p (map adr_payload gs) =
         pattern_trace (vl_library_version lib) m p (history s2 m (pattern_id p))
           (last_fired_at (dedup s2) (pattern_id p) m) (stamped (current_time s2) (single_batches es))"
    using Cons.prems put s1(3) s2(3) by auto
  have ids: "set (map (af_pattern_id \<circ> adr_payload) ?recs) \<subseteq> library_ids lib"
    using s2(4) wrap(1) by (metis map_map)
  have "fires_of p (map adr_payload (?recs @ gs)) = pattern_trace (vl_library_version lib) m p
      (history ?s m (pattern_id p)) (last_fired_at (dedup ?s) (pattern_id p) m)
      (stamped (current_time ?s) (single_batches (ev # es)))"
    if p: "p \<in> set (vl_patterns lib)" for p
    using s2(5) [OF p, symmetric] s1(3,4,5) s2(3) gs(7) p wrap(1)
    by (simp add: trace_state_def single_batches_def)
  with obs gs(1-6) wrap(2) ids show ?case
    by (intro exI [of _ orch'] exI [of _ "?recs @ gs"]) auto
qed (simp add: single_batches_def)

end
