(* ===== verification/Uniform_Streams.thy ===== *)
theory Uniform_Streams
  imports Pattern_Trace Fixtures
begin

text \<open>
  What the minimum library fires on a steady stream: events a fixed number of seconds apart that a pattern admits
  alike.  The live events of the automaton of \<open>Pattern_Trace\<close> are then the last \<open>w div d + 1\<close>, so its fires can be
  counted on the indices of the events alone, for whatever batches the stream is batches_at into.
\<close>

section \<open>Counting fires on indices\<close>

text \<open>The batches that end at the given indices.\<close>

fun batches_at :: "nat \<Rightarrow> nat list \<Rightarrow> nat list list" where
  "batches_at a [] = []"
| "batches_at a (k # ks) = [a..<Suc k] # batches_at (Suc k) ks"

fun fire_steps :: "(nat \<Rightarrow> bool) \<Rightarrow> nat \<Rightarrow> nat \<Rightarrow> nat option \<Rightarrow> nat list \<Rightarrow> nat" where
  "fire_steps meets d w fired [] = 0"
| "fire_steps meets d w fired (k # ks) =
     (if (case fired of None \<Rightarrow> False | Some j \<Rightarrow> d * (k - j) < w) then fire_steps meets d w fired ks
      else if meets (min (Suc k) (Suc (w div d))) then Suc (fire_steps meets d w (Some k) ks)
      else fire_steps meets d w fired ks)"

definition steady :: "int \<Rightarrow> nat \<Rightarrow> nat \<Rightarrow> (nat \<Rightarrow> canonicalized_event) \<Rightarrow> bool" where
  "steady t0 d n ev \<longleftrightarrow>
     0 < d \<and> 2 ^ 30 \<le> t0 \<and> t0 \<le> 2 ^ 40 \<and> d * n \<le> 2 ^ 40 \<and> (\<forall>i < n. timestamp (ev i) = t0 + int (d * i))"

lemma dropWhile_upt: "dropWhile (\<lambda>i. i < c) [a..<b] = [max a c..<b]"
proof (induction "b - a" arbitrary: a)
  case (Suc k)
  then have "a < b" by simp
  then have "[a..<b] = a # [Suc a..<b]" by (simp add: upt_conv_Cons)
  moreover have "dropWhile (\<lambda>i. i < c) [Suc a..<b] = [max (Suc a) c..<b]" using Suc by simp
  ultimately show ?case using \<open>a < b\<close> by (cases "a < c") (simp_all add: max_def)
qed simp

lemma sat_sub_small: "\<bar>a\<bar> \<le> 2 ^ 42 \<Longrightarrow> \<bar>b\<bar> \<le> 2 ^ 42 \<Longrightarrow> sat_sub a b = a - b"
  by (auto simp: sat_sub_def clamp_i64_def arith_defs)

lemma aged_index: "0 < d \<Longrightarrow> int (d * i) < int (d * k) - int w \<longleftrightarrow> i < k - w div d"
proof -
  assume d: "0 < d"
  have "int (d * i) < int (d * k) - int w \<longleftrightarrow> d * i + w < d * k" by linarith
  also have "\<dots> \<longleftrightarrow> i + w div d < k"
  proof
    assume "d * i + w < d * k"
    moreover have "d * (i + w div d) \<le> d * i + w" by (simp add: distrib_left)
    ultimately show "i + w div d < k" using d by (meson le_less_trans mult_less_cancel1)
  next
    assume "i + w div d < k"
    then have "d * (i + w div d + 1) \<le> d * k" by (intro mult_le_mono2) simp
    moreover have "w < d * (w div d) + d" using dividend_less_times_div [OF d, of w] by simp
    ultimately show "d * i + w < d * k" by (simp add: distrib_left)
  qed
  finally show ?thesis by linarith
qed

lemma int_power_bound: "x \<le> 2 ^ k \<Longrightarrow> int x \<le> 2 ^ k"
  by (metis of_nat_le_iff of_nat_numeral of_nat_power)

lemma steady_live:
  assumes "steady t0 d n ev" "k < n" "w \<le> 2 ^ 29" "window_seconds p = Some w"
  shows "live_events p (t0 + int (d * k)) (map ev [a..<Suc k]) = map ev [max a (k - w div d)..<Suc k]"
proof -
  have d: "0 < d" using assms(1) by (simp add: steady_def)
  have "d * k \<le> d * n" using assms(2) by simp
  also have "\<dots> \<le> 2 ^ 40" using assms(1) by (simp add: steady_def)
  finally have "int (d * k) \<le> 2 ^ 40" "int w \<le> 2 ^ 29" using assms(3) by (blast intro: int_power_bound)+
  then have bound: "0 \<le> int (d * k)" "int (d * k) \<le> 2 ^ 40" "int w \<le> 2 ^ 29" "2 ^ 30 \<le> t0" "t0 \<le> 2 ^ 40"
    using assms(1) unfolding steady_def by simp_all
  have sat: "sat_sub (t0 + int (d * k)) (int w) = t0 + int (d * k) - int w"
    using bound by (intro sat_sub_small) auto
  have "timestamp (ev i) < t0 + int (d * k) - int w \<longleftrightarrow> i < k - w div d" if "i \<in> set [a..<Suc k]" for i
  proof -
    have "i < n" using assms(2) that by auto
    then have "timestamp (ev i) = t0 + int (d * i)" using assms(1) by (simp add: steady_def)
    then show ?thesis using aged_index [OF d, of i k w] by linarith
  qed
  then have drop: "dropWhile (\<lambda>i. timestamp (ev i) < t0 + int (d * k) - int w) [a..<Suc k] = dropWhile (\<lambda>i. i < k - w div d) [a..<Suc k]"
    by (intro dropWhile_cong) simp_all
  show ?thesis
    unfolding live_events_def assms(4) option.case sat dropWhile_map comp_def drop dropWhile_upt ..
qed

lemma steady_clock:
  assumes "steady t0 d n ev" "c \<le> k" "k < n"
  shows "clock_after t (map ev [c..<Suc k]) = t0 + int (d * k)"
proof -
  have "clock_after t (es @ [e]) = timestamp e" for es e by simp
  moreover have "map ev [c..<Suc k] = map ev [c..<k] @ [ev k]" using assms(2) by simp
  ultimately show ?thesis using assms(1,3) by (simp add: steady_def)
qed

lemma steady_recent:
  assumes "steady t0 d n ev" "k < n" "j \<le> k" "window_seconds p = Some w"
  shows "fired_recently p (Some (t0 + int (d * j))) (t0 + int (d * k)) \<longleftrightarrow> d * (k - j) < w"
proof -
  have "d * j \<le> d * k" "d * k \<le> d * n" using assms(2,3) by simp_all
  moreover have "d * n \<le> 2 ^ 40" "2 ^ 30 \<le> t0" "t0 \<le> 2 ^ 40" using assms(1) by (simp_all add: steady_def)
  moreover from calculation have "int (d * k) \<le> 2 ^ 40" "int (d * j) \<le> 2 ^ 40"
    by (meson int_power_bound order_trans)+
  ultimately have "sat_sub (t0 + int (d * k)) (t0 + int (d * j)) = int (d * k) - int (d * j)"
    by (subst sat_sub_small) simp_all
  also have "\<dots> = int (d * (k - j))" using assms(3) by (simp add: right_diff_distrib' of_nat_diff)
  finally show ?thesis using assms(4) by (simp add: fired_recently_def dedup_window_def del: of_nat_mult)
qed

definition steady_fire :: "nat \<Rightarrow> string \<Rightarrow> pattern_entry \<Rightarrow> canonicalized_event \<Rightarrow> anomaly_fire" where
  "steady_fire ver m p ev = build_anomaly_fire p (key_of (pattern_id p) m) ver ev"

definition meets_by_length :: "pattern_entry \<Rightarrow> (nat \<Rightarrow> canonicalized_event) \<Rightarrow> nat \<Rightarrow> (nat \<Rightarrow> bool) \<Rightarrow> bool" where
  "meets_by_length p ev n meets \<longleftrightarrow>
     (\<forall>a b. a < b \<longrightarrow> b \<le> n \<longrightarrow> events_meet p (map ev [a..<b]) = meets (b - a))"

definition alike :: "pattern_entry \<Rightarrow> (nat \<Rightarrow> canonicalized_event) \<Rightarrow> nat \<Rightarrow> nat \<Rightarrow> string \<Rightarrow> anomaly_fire \<Rightarrow> bool" where
  "alike p ev n ver m f \<longleftrightarrow> (\<forall>i < n. scope_matches (scope p) (ev i) \<and> steady_fire ver m p (ev i) = f)"

lemma steady_trace_from:
  assumes ev: "steady t0 d n ev" "window_seconds p = Some w" "w \<le> 2 ^ 29" "alike p ev n ver m f" "meets_by_length p ev n meets"
  shows "a \<le> c - w div d \<Longrightarrow> sorted_wrt (<) ks \<Longrightarrow> (\<forall>k \<in> set ks. c \<le> k \<and> k < n) \<Longrightarrow> (\<forall>j. fired = Some j \<longrightarrow> j < c) \<Longrightarrow>
    pattern_trace ver m p (map ev [a..<c]) (map_option (\<lambda>j. t0 + int (d * j)) fired) (stamped t (map (map ev) (batches_at c ks))) =
    replicate (fire_steps meets d w fired ks) f"
proof (induction ks arbitrary: a c fired t)
  case (Cons k ks)
  have k: "c \<le> k" "k < n" "a \<le> k - w div d" "a \<le> c" using Cons.prems(1,3) by auto
  let ?now = "t0 + int (d * k)" and ?live = "map ev [k - w div d..<Suc k]"
  have "filter (scope_matches (scope p)) (map ev [c..<Suc k]) = map ev [c..<Suc k]"
    using ev(4) k(2) by (auto simp: alike_def filter_id_conv)
  moreover have "[a..<Suc k] = [a..<c] @ [c..<Suc k]" using k(1,4) by (metis le_Suc_eq le_add_diff_inverse upt_add_eq_append)
  ultimately have buf: "map ev [a..<c] @ filter (scope_matches (scope p)) (map ev [c..<Suc k]) = map ev [a..<Suc k]"
    by (metis map_append)
  have live: "live_events p ?now (map ev [a..<Suc k]) = ?live"
    using steady_live [OF ev(1) k(2) ev(3) ev(2)] k(3) by (simp add: max_def)
  have clock: "clock_after t (map ev [c..<Suc k]) = ?now" using ev(1) k(1,2) by (rule steady_clock)
  have recent: "fired_recently p (map_option (\<lambda>j. t0 + int (d * j)) fired) ?now \<longleftrightarrow>
      (case fired of None \<Rightarrow> False | Some j \<Rightarrow> d * (k - j) < w)"
    using steady_recent [OF ev(1) k(2) _ ev(2)] Cons.prems(4) k(1)
    by (cases fired) (auto simp: fired_recently_def)
  have "Suc k - (k - w div d) = min (Suc k) (Suc (w div d))" by (simp add: min_def)
  then have meets: "events_meet p ?live \<longleftrightarrow> meets (min (Suc k) (Suc (w div d)))"
    using ev(5) k(2) unfolding meets_by_length_def by (metis Suc_leI diff_less_Suc)
  have "last ?live = ev k" by simp
  then have fire: "build_anomaly_fire p (key_of (pattern_id p) m) ver (last ?live) = f"
    using ev(4) k(2) by (simp add: alike_def steady_fire_def)
  have rest: "pattern_trace ver m p ?live (map_option (\<lambda>j. t0 + int (d * j)) fired')
      (stamped ?now (map (map ev) (batches_at (Suc k) ks))) = replicate (fire_steps meets d w fired' ks) f"
    if "\<forall>j. fired' = Some j \<longrightarrow> j < Suc k" for fired'
    by (rule Cons.IH) (use Cons.prems(2,3) k that in \<open>auto simp: Suc_le_eq\<close>)
  have none: "\<forall>j. fired = Some j \<longrightarrow> j < Suc k" using Cons.prems(4) k(1) by auto
  have step: "pattern_trace ver m p (map ev [a..<c]) (map_option (\<lambda>j. t0 + int (d * j)) fired)
      (stamped t (map (map ev) (batches_at c (k # ks)))) =
    (let (fs, es, fd) = pattern_step ver m p ?now (map ev [a..<Suc k]) (map_option (\<lambda>j. t0 + int (d * j)) fired) in
      fs @ pattern_trace ver m p es fd (stamped ?now (map (map ev) (batches_at (Suc k) ks))))"
    unfolding batches_at.simps list.map(2) stamped.simps clock pattern_trace.simps buf ..
  show ?case
    unfolding step pattern_step_def live recent Let_def
    using rest [OF none] rest [of "Some k"] meets fire by (simp add: Let_def)
qed simp

lemma steady_trace:
  assumes "steady t0 d n ev" "window_seconds p = Some w" "w \<le> 2 ^ 29" "alike p ev n ver m f" "meets_by_length p ev n meets"
    "sorted_wrt (<) ks" "\<forall>k \<in> set ks. k < n"
  shows "pattern_trace ver m p [] None (stamped t (map (map ev) (batches_at 0 ks))) = replicate (fire_steps meets d w None ks) f"
  using steady_trace_from [OF assms(1-5), of 0 0 ks None t] assms(6,7) by simp

section \<open>Thresholds over consecutive events\<close>

lemma count_meets:
  assumes "threshold_of p = Count k" "firing_rule_of p \<noteq> SequenceMatch" "n \<le> 1000"
  shows "meets_by_length p ev n (\<lambda>l. k \<le> l)"
  using assms by (auto simp: meets_by_length_def events_meet_def threshold_met_def u32_of_usize_def arith_defs)

lemma length_remdups_card: "length (remdups xs) = card (set xs)"
  by (simp add: length_remdups_card_conv)

lemma same_resource_meets:
  assumes "threshold_of p = DistinctCount k" "firing_rule_of p \<noteq> SequenceMatch" "\<forall>i < n. ev_resource_ref (ev i) = r"
  shows "meets_by_length p ev n (\<lambda>_. k \<le> 1)"
  unfolding meets_by_length_def
proof (intro allI impI)
  fix a b assume ab: "a < b" "b \<le> n"
  then have "(\<lambda>i. ev_resource_ref (ev i)) ` {a..<b} = {r}" using assms(3) by (force simp: image_iff)
  then show "events_meet p (map ev [a..<b]) = (k \<le> 1)"
    using assms(1,2)
    by (simp add: events_meet_def threshold_met_def count_distinct_resource_refs_def length_remdups_card_conv
        u32_of_usize_def arith_defs)
qed

lemma distinct_resources_meet:
  assumes "threshold_of p = DistinctCount k" "firing_rule_of p \<noteq> SequenceMatch" "n \<le> 1000"
    "inj_on (\<lambda>i. ev_resource_ref (ev i)) {..<n}"
  shows "meets_by_length p ev n (\<lambda>l. k \<le> l)"
  unfolding meets_by_length_def
proof (intro allI impI)
  fix a b assume ab: "a < b" "b \<le> n"
  then have "inj_on (\<lambda>i. ev_resource_ref (ev i)) {a..<b}" using assms(4) by (auto intro: inj_on_subset)
  then have "card ((\<lambda>i. ev_resource_ref (ev i)) ` {a..<b}) = b - a" by (simp add: card_image)
  moreover have "b - a \<le> 1000" using ab assms(3) by simp
  ultimately show "events_meet p (map ev [a..<b]) = (k \<le> b - a)"
    using assms(1,2)
    by (simp add: events_meet_def threshold_met_def count_distinct_resource_refs_def length_remdups_card_conv
        u32_of_usize_def arith_defs)
qed

lemma low_tiers_meet:
  assumes "threshold_of p = Sequence 1" "scope p = CrossTierSequence ms prog" "t \<in> set prog"
    "\<forall>i < n. ev_tier (ev i) < t" "n \<le> 1000"
  shows "meets_by_length p ev n (\<lambda>_. False)"
  unfolding meets_by_length_def
proof (intro allI impI)
  fix a b assume ab: "a < b" "b \<le> n"
  let ?b = "\<lparr>pb_pattern_id = pattern_id p, pb_events = map ev [a..<b], pb_sequence_tracker = None\<rparr>"
  have "\<not> list_emb (\<le>) prog (map ev_tier (map ev [a..<b]))"
  proof
    assume "list_emb (\<le>) prog (map ev_tier (map ev [a..<b]))"
    then obtain y where "y \<in> set (map ev_tier (map ev [a..<b]))" "t \<le> y" using assms(3) by (rule list_emb_set)
    then show False using assms(4) ab by (auto simp: not_less [symmetric])
  qed
  moreover have "prog \<noteq> []" using assms(3) by auto
  ultimately have "\<not> 1 \<le> count_cross_tier_sequences ?b prog"
    using count_cross_tier_embeds [of prog ?b 1] ab assms(5) by (simp add: arith_defs)
  then show "events_meet p (map ev [a..<b]) = False"
    using assms(1,2) by (simp add: events_meet_def threshold_met_def)
qed

lemma silence_loop_mono: "c \<le> u32_max \<Longrightarrow> c \<le> silence_burst_loop evs needed silence burst i c"
proof (induction evs needed silence burst i c rule: silence_burst_loop.induct)
  case (1 evs needed silence burst i c)
  have "c \<le> sat_add_u32 c 1" "sat_add_u32 c 1 \<le> u32_max" using 1 by (simp_all add: sat_add_u32_def)
  with 1 show ?case by (subst silence_burst_loop.simps) (auto intro: order_trans)
qed

lemma silence_meets:
  assumes p: "threshold_of p = Sequence 1" "firing_rule_of p = SequenceMatch" "scope p = SilenceThenBurst sil bur thr" "0 < thr"
    and ev: "steady t0 d n ev" "n \<le> thr \<or> d * (thr - 1) \<le> bur" "bur \<le> 2 ^ 29"
  shows "meets_by_length p ev n (\<lambda>l. thr \<le> l \<and> d * (thr - 1) \<le> bur)"
  unfolding meets_by_length_def
proof (intro allI impI)
  fix a b assume ab: "a < b" "b \<le> n"
  let ?es = "map ev [a..<b]"
  have loop: "events_meet p ?es \<longleftrightarrow> thr \<le> b - a \<and> 1 \<le> silence_burst_loop ?es thr (int sil) (int bur) 0 0"
    using p ab by (auto simp: events_meet_def threshold_met_def count_silence_then_burst_def)
  show "events_meet p ?es = (thr \<le> b - a \<and> d * (thr - 1) \<le> bur)"
  proof (cases "thr \<le> b - a")
    case True
    have d: "d * (a + thr - 1) \<le> d * n" "d * a \<le> d * n" using True ab by (intro mult_le_mono2; linarith)+
    have ts: "timestamp (?es ! (thr - 1)) = t0 + int (d * (a + thr - 1))" "timestamp (?es ! 0) = t0 + int (d * a)"
      using ev(1) True ab p(4) by (simp_all add: steady_def nth_append del: of_nat_mult)
    have "int (d * (a + thr - 1)) \<le> 2 ^ 40" "int (d * a) \<le> 2 ^ 40"
      using d ev(1) unfolding steady_def by (meson int_power_bound order_trans)+
    then have "burst_span ?es thr 0 = int (d * (a + thr - 1)) - int (d * a)"
      unfolding burst_span_def using ts ev(1) by (subst sat_sub_small) (simp_all add: steady_def del: of_nat_mult)
    also have "\<dots> = int (d * (thr - 1))" 
    proof -
      obtain q where "thr = Suc q" using p(4) by (cases thr) auto
      then show ?thesis by (simp add: algebra_simps)
    qed
    finally have span: "burst_span ?es thr 0 = int (d * (thr - 1))" .
    have len: "length ?es = b - a" by simp
    show ?thesis
    proof (cases "d * (thr - 1) \<le> bur")
      case True
      have "sat_add_u32 0 1 = 1" by (simp add: sat_add_u32_def arith_defs)
      then have "silence_burst_loop ?es thr (int sil) (int bur) 0 0 = silence_burst_loop ?es thr (int sil) (int bur) thr 1"
        using True \<open>thr \<le> b - a\<close> p(4)
        by (subst silence_burst_loop.simps) (simp add: span silence_before_def del: of_nat_mult)
      then show ?thesis
        using loop True \<open>thr \<le> b - a\<close> silence_loop_mono [of 1 ?es thr "int sil" "int bur" thr] by (simp add: arith_defs)
    next
      case False
      then have "b - a = thr" using ev(2) \<open>thr \<le> b - a\<close> ab by auto
      then have "silence_burst_loop ?es thr (int sil) (int bur) 1 0 = 0" by (subst silence_burst_loop.simps) simp
      then have "silence_burst_loop ?es thr (int sil) (int bur) 0 0 = 0"
        using False by (subst silence_burst_loop.simps) (simp add: span silence_before_def del: of_nat_mult)
      then show ?thesis using loop False by simp
    qed
  qed (use loop in simp)
qed

section \<open>The minimum library on a steady stream\<close>

definition stream_ok :: "int \<Rightarrow> nat \<Rightarrow> nat \<Rightarrow> (nat \<Rightarrow> canonicalized_event) \<Rightarrow> nat list \<Rightarrow> bool" where
  "stream_ok t0 d n ev ks \<longleftrightarrow> steady t0 d n ev \<and> n \<le> 1000 \<and> sorted_wrt (<) ks \<and> (\<forall>k \<in> set ks. k < n)"

definition all_of :: "string \<Rightarrow> string \<Rightarrow> (nat \<Rightarrow> canonicalized_event) \<Rightarrow> nat \<Rightarrow> bool" where
  "all_of verb kind ev n \<longleftrightarrow> (\<forall>i < n. ev_verb (ev i) = verb \<and> ev_resource_kind (ev i) = kind)"

definition all_tier :: "nat \<Rightarrow> (nat \<Rightarrow> canonicalized_event) \<Rightarrow> nat \<Rightarrow> bool" where
  "all_tier tier ev n \<longleftrightarrow> (\<forall>i < n. ev_tier (ev i) = tier)"

text \<open>Either one resource throughout or a fresh one for every event.\<close>

definition resources :: "bool \<Rightarrow> (nat \<Rightarrow> canonicalized_event) \<Rightarrow> nat \<Rightarrow> bool" where
  "resources fresh ev n \<longleftrightarrow>
     (if fresh then inj_on (\<lambda>i. ev_resource_ref (ev i)) {..<n} else (\<exists>r. \<forall>i < n. ev_resource_ref (ev i) = r))"

definition scoped_fire :: "nat \<Rightarrow> pattern_entry \<Rightarrow> match_scope \<Rightarrow> anomaly_fire" where
  "scoped_fire ver p ms =
     \<lparr>af_pattern_id = pattern_id p, af_library_version = ver, af_severity = severity_of p,
      af_firing_rule = firing_rule_of p, af_match_scope = ms\<rparr>"

definition on_mandate :: "string \<Rightarrow> match_scope" where
  "on_mandate m = match_scope_default\<lparr>mts_mandate_id := Some m\<rparr>"

lemma set_snd_stamped: "set (map snd (stamped t bs)) = set bs"
  by (induction bs arbitrary: t) auto

lemma set_batches: "b \<in> set (batches_at a ks) \<Longrightarrow> i \<in> set b \<Longrightarrow> (\<forall>k \<in> set ks. k < n) \<Longrightarrow> i < n"
  by (induction ks arbitrary: a) fastforce+

lemma steady_unmatched:
  assumes "stream_ok t0 d n ev ks" "\<forall>i < n. \<not> scope_matches (scope p) (ev i)"
  shows "pattern_trace ver m p [] None (stamped t (map (map ev) (batches_at 0 ks))) = []"
proof (rule pattern_trace_unmatched)
  fix b e assume "b \<in> set (map snd (stamped t (map (map ev) (batches_at 0 ks))))" "e \<in> set b"
  then obtain b' i where "b' \<in> set (batches_at 0 ks)" "i \<in> set b'" "e = ev i" unfolding set_snd_stamped by auto
  moreover have "\<forall>k \<in> set ks. k < n" using assms(1) by (simp add: stream_ok_def)
  ultimately show "\<not> scope_matches (scope p) e" using set_batches assms(2) by blast
qed

lemma steady_counted:
  assumes "stream_ok t0 d n ev ks" "window_seconds p = Some w" "w \<le> 2 ^ 29" "threshold_of p = Count c"
    "firing_rule_of p \<noteq> SequenceMatch" "alike p ev n ver m f"
  shows "pattern_trace ver m p [] None (stamped t (map (map ev) (batches_at 0 ks))) = replicate (fire_steps (\<lambda>l. c \<le> l) d w None ks) f"
  using assms by (intro steady_trace count_meets) (auto simp: stream_ok_def)

lemma delete_storm_pattern_fields [simp]:
  "pattern_id delete_storm_pattern = ''delete-storm''"
  "window_seconds delete_storm_pattern = Some 60"
  "threshold_of delete_storm_pattern = Count 5"
  "scope delete_storm_pattern = VerbResourceMandate AnyDestructive None mandate_scope_default"
  "severity_of delete_storm_pattern = High"
  "firing_rule_of delete_storm_pattern = FirstMatch"
  by (simp_all add: delete_storm_pattern_def)

lemma delete_slow_burn_pattern_fields [simp]:
  "pattern_id delete_slow_burn_pattern = ''delete-slow-burn''"
  "window_seconds delete_slow_burn_pattern = Some 600"
  "threshold_of delete_slow_burn_pattern = Count 20"
  "scope delete_slow_burn_pattern = VerbResourceMandate AnyDestructive None mandate_scope_default"
  "severity_of delete_slow_burn_pattern = Medium"
  "firing_rule_of delete_slow_burn_pattern = CumulativeOverBaseline"
  by (simp_all add: delete_slow_burn_pattern_def)

lemma vault_rotate_storm_pattern_fields [simp]:
  "pattern_id vault_rotate_storm_pattern = ''vault-rotate-storm''"
  "window_seconds vault_rotate_storm_pattern = Some 3600"
  "threshold_of vault_rotate_storm_pattern = Count 3"
  "scope vault_rotate_storm_pattern = VerbResourceMandate (Exact ''rotate'') (Some ''vault-secret'') mandate_scope_default"
  "severity_of vault_rotate_storm_pattern = High"
  "firing_rule_of vault_rotate_storm_pattern = FirstMatch"
  by (simp_all add: vault_rotate_storm_pattern_def)

lemma vault_rotate_slow_burn_pattern_fields [simp]:
  "pattern_id vault_rotate_slow_burn_pattern = ''vault-rotate-slow-burn''"
  "window_seconds vault_rotate_slow_burn_pattern = Some 36000"
  "threshold_of vault_rotate_slow_burn_pattern = Count 10"
  "scope vault_rotate_slow_burn_pattern = VerbResourceMandate (Exact ''rotate'') (Some ''vault-secret'') mandate_scope_default"
  "severity_of vault_rotate_slow_burn_pattern = Medium"
  "firing_rule_of vault_rotate_slow_burn_pattern = CumulativeOverBaseline"
  by (simp_all add: vault_rotate_slow_burn_pattern_def)

lemma iam_attach_policy_storm_pattern_fields [simp]:
  "pattern_id iam_attach_policy_storm_pattern = ''iam-attach-policy-storm''"
  "window_seconds iam_attach_policy_storm_pattern = Some 300"
  "threshold_of iam_attach_policy_storm_pattern = Count 5"
  "scope iam_attach_policy_storm_pattern = IamAttachFamily ''iam-attach'' mandate_scope_default"
  "severity_of iam_attach_policy_storm_pattern = High"
  "firing_rule_of iam_attach_policy_storm_pattern = FirstMatch"
  by (simp_all add: iam_attach_policy_storm_pattern_def)

lemma iam_attach_slow_burn_pattern_fields [simp]:
  "pattern_id iam_attach_slow_burn_pattern = ''iam-attach-slow-burn''"
  "window_seconds iam_attach_slow_burn_pattern = Some 3000"
  "threshold_of iam_attach_slow_burn_pattern = Count 20"
  "scope iam_attach_slow_burn_pattern = IamAttachFamily ''iam-attach'' mandate_scope_default"
  "severity_of iam_attach_slow_burn_pattern = Medium"
  "firing_rule_of iam_attach_slow_burn_pattern = CumulativeOverBaseline"
  by (simp_all add: iam_attach_slow_burn_pattern_def)

lemma git_force_push_storm_pattern_fields [simp]:
  "pattern_id git_force_push_storm_pattern = ''git-force-push-storm''"
  "window_seconds git_force_push_storm_pattern = Some 300"
  "threshold_of git_force_push_storm_pattern = Count 3"
  "scope git_force_push_storm_pattern = ProtectedBranches mandate_scope_default [''main'', ''release/*'']"
  "severity_of git_force_push_storm_pattern = High"
  "firing_rule_of git_force_push_storm_pattern = FirstMatch"
  by (simp_all add: git_force_push_storm_pattern_def)

lemma git_force_push_slow_burn_pattern_fields [simp]:
  "pattern_id git_force_push_slow_burn_pattern = ''git-force-push-slow-burn''"
  "window_seconds git_force_push_slow_burn_pattern = Some 3000"
  "threshold_of git_force_push_slow_burn_pattern = Count 10"
  "scope git_force_push_slow_burn_pattern = ProtectedBranches mandate_scope_default [''main'', ''release/*'']"
  "severity_of git_force_push_slow_burn_pattern = Medium"
  "firing_rule_of git_force_push_slow_burn_pattern = CumulativeOverBaseline"
  by (simp_all add: git_force_push_slow_burn_pattern_def)

lemma cross_tier_escalation_pattern_fields [simp]:
  "pattern_id cross_tier_escalation_pattern = ''cross-tier-escalation''"
  "window_seconds cross_tier_escalation_pattern = Some 1800"
  "threshold_of cross_tier_escalation_pattern = Sequence 1"
  "scope cross_tier_escalation_pattern = CrossTierSequence mandate_scope_default [0, 2, 3]"
  "severity_of cross_tier_escalation_pattern = Critical"
  "firing_rule_of cross_tier_escalation_pattern = SequenceMatch"
  by (simp_all add: cross_tier_escalation_pattern_def)

lemma machine_pace_pattern_fields [simp]:
  "pattern_id machine_pace_pattern = ''machine-pace''"
  "window_seconds machine_pace_pattern = Some 60"
  "threshold_of machine_pace_pattern = Count 50"
  "scope machine_pace_pattern = MandatePace 1 (Some ''read-only'')"
  "severity_of machine_pace_pattern = Low"
  "firing_rule_of machine_pace_pattern = CumulativeOverBaseline"
  by (simp_all add: machine_pace_pattern_def)

lemma long_silence_before_burst_pattern_fields [simp]:
  "pattern_id long_silence_before_burst_pattern = ''long-silence-before-burst''"
  "window_seconds long_silence_before_burst_pattern = Some 604800"
  "threshold_of long_silence_before_burst_pattern = Sequence 1"
  "scope long_silence_before_burst_pattern = SilenceThenBurst 604800 300 20"
  "severity_of long_silence_before_burst_pattern = Medium"
  "firing_rule_of long_silence_before_burst_pattern = SequenceMatch"
  by (simp_all add: long_silence_before_burst_pattern_def)

lemma canary_window_second_tier3_pattern_fields [simp]:
  "pattern_id canary_window_second_tier3_pattern = ''canary-window-second-tier3''"
  "window_seconds canary_window_second_tier3_pattern = Some 86400"
  "threshold_of canary_window_second_tier3_pattern = Count 1"
  "scope canary_window_second_tier3_pattern = CanaryWindow ''canary-tier-3'' 1"
  "severity_of canary_window_second_tier3_pattern = High"
  "firing_rule_of canary_window_second_tier3_pattern = FirstMatch"
  by (simp_all add: canary_window_second_tier3_pattern_def)

lemma unusual_delegation_depth_pattern_fields [simp]:
  "pattern_id unusual_delegation_depth_pattern = ''unusual-delegation-depth''"
  "window_seconds unusual_delegation_depth_pattern = None"
  "threshold_of unusual_delegation_depth_pattern = ChainDepth 4"
  "scope unusual_delegation_depth_pattern = DelegationDepth 4"
  "severity_of unusual_delegation_depth_pattern = Medium"
  "firing_rule_of unusual_delegation_depth_pattern = FirstMatch"
  by (simp_all add: unusual_delegation_depth_pattern_def)

lemma fanout_distinct_resources_pattern_fields [simp]:
  "pattern_id fanout_distinct_resources_pattern = ''fanout-distinct-resources''"
  "window_seconds fanout_distinct_resources_pattern = Some 60"
  "threshold_of fanout_distinct_resources_pattern = DistinctCount 10"
  "scope fanout_distinct_resources_pattern = VerbFanout (Exact ''delete'') mandate_scope_default"
  "severity_of fanout_distinct_resources_pattern = High"
  "firing_rule_of fanout_distinct_resources_pattern = FirstMatch"
  by (simp_all add: fanout_distinct_resources_pattern_def)

lemma fanout_slow_burn_pattern_fields [simp]:
  "pattern_id fanout_slow_burn_pattern = ''fanout-slow-burn''"
  "window_seconds fanout_slow_burn_pattern = Some 600"
  "threshold_of fanout_slow_burn_pattern = Count 30"
  "scope fanout_slow_burn_pattern = VerbFanout (Exact ''delete'') mandate_scope_default"
  "severity_of fanout_slow_burn_pattern = Medium"
  "firing_rule_of fanout_slow_burn_pattern = CumulativeOverBaseline"
  by (simp_all add: fanout_slow_burn_pattern_def)

lemmas projection_defs =
  steady_fire_def scoped_fire_def build_anomaly_fire_def build_match_scope_def bind_verb_def bind_integration_def
  on_mandate_def mandate_scope_default_def

lemma git_force_push_storm_trace:
  assumes "stream_ok t0 d n ev ks"
  shows "pattern_trace ver m git_force_push_storm_pattern [] None (stamped t (map (map ev) (batches_at 0 ks))) =
    replicate (fire_steps (\<lambda>l. 3 \<le> l) d 300 None ks) (scoped_fire ver git_force_push_storm_pattern (on_mandate m))"
  using assms
  by (intro steady_counted) (simp_all add: alike_def projection_defs matches_event_def)

lemma git_force_push_slow_burn_trace:
  assumes "stream_ok t0 d n ev ks"
  shows "pattern_trace ver m git_force_push_slow_burn_pattern [] None (stamped t (map (map ev) (batches_at 0 ks))) =
    replicate (fire_steps (\<lambda>l. 10 \<le> l) d 3000 None ks) (scoped_fire ver git_force_push_slow_burn_pattern (on_mandate m))"
  using assms
  by (intro steady_counted) (simp_all add: alike_def projection_defs matches_event_def)

lemma delete_storm_trace:
  assumes "stream_ok t0 d n ev ks" "all_of verb kind ev n"
  shows "pattern_trace ver m delete_storm_pattern [] None (stamped t (map (map ev) (batches_at 0 ks))) =
    (if family_contains ''destructive'' verb then
       replicate (fire_steps (\<lambda>l. 5 \<le> l) d 60 None ks) (scoped_fire ver delete_storm_pattern (on_mandate m))
     else [])"
proof (cases "family_contains ''destructive'' verb")
  case True
  have "alike delete_storm_pattern ev n ver m (scoped_fire ver delete_storm_pattern (on_mandate m))"
    using assms True by (auto simp: alike_def projection_defs matches_event_def all_of_def all_tier_def)
  from steady_counted [OF assms(1) _ _ _ _ this, of 60 5 t] True show ?thesis by simp
next
  case False
  have "\<forall>i < n. \<not> scope_matches (scope delete_storm_pattern) (ev i)"
    using assms False by (auto simp: matches_event_def all_of_def all_tier_def)
  then show ?thesis unfolding if_not_P [OF False] by (rule steady_unmatched [OF assms(1)])
qed

lemma delete_slow_burn_trace:
  assumes "stream_ok t0 d n ev ks" "all_of verb kind ev n"
  shows "pattern_trace ver m delete_slow_burn_pattern [] None (stamped t (map (map ev) (batches_at 0 ks))) =
    (if family_contains ''destructive'' verb then
       replicate (fire_steps (\<lambda>l. 20 \<le> l) d 600 None ks) (scoped_fire ver delete_slow_burn_pattern (on_mandate m))
     else [])"
proof (cases "family_contains ''destructive'' verb")
  case True
  have "alike delete_slow_burn_pattern ev n ver m (scoped_fire ver delete_slow_burn_pattern (on_mandate m))"
    using assms True by (auto simp: alike_def projection_defs matches_event_def all_of_def all_tier_def)
  from steady_counted [OF assms(1) _ _ _ _ this, of 600 20 t] True show ?thesis by simp
next
  case False
  have "\<forall>i < n. \<not> scope_matches (scope delete_slow_burn_pattern) (ev i)"
    using assms False by (auto simp: matches_event_def all_of_def all_tier_def)
  then show ?thesis unfolding if_not_P [OF False] by (rule steady_unmatched [OF assms(1)])
qed

lemma vault_rotate_storm_trace:
  assumes "stream_ok t0 d n ev ks" "all_of verb kind ev n"
  shows "pattern_trace ver m vault_rotate_storm_pattern [] None (stamped t (map (map ev) (batches_at 0 ks))) =
    (if verb = ''rotate'' \<and> kind = ''vault-secret'' then
       replicate (fire_steps (\<lambda>l. 3 \<le> l) d 3600 None ks)
         (scoped_fire ver vault_rotate_storm_pattern ((on_mandate m)\<lparr>mts_verb := Some verb, mts_resource_kind := Some kind\<rparr>))
     else [])"
proof (cases "verb = ''rotate'' \<and> kind = ''vault-secret''")
  case True
  have "alike vault_rotate_storm_pattern ev n ver m
    (scoped_fire ver vault_rotate_storm_pattern ((on_mandate m)\<lparr>mts_verb := Some verb, mts_resource_kind := Some kind\<rparr>))"
    using assms True by (auto simp: alike_def projection_defs matches_event_def all_of_def all_tier_def)
  from steady_counted [OF assms(1) _ _ _ _ this, of 3600 3 t] True show ?thesis by simp
next
  case False
  have "\<forall>i < n. \<not> scope_matches (scope vault_rotate_storm_pattern) (ev i)"
    using assms False by (auto simp: matches_event_def all_of_def all_tier_def)
  then show ?thesis unfolding if_not_P [OF False] by (rule steady_unmatched [OF assms(1)])
qed

lemma vault_rotate_slow_burn_trace:
  assumes "stream_ok t0 d n ev ks" "all_of verb kind ev n"
  shows "pattern_trace ver m vault_rotate_slow_burn_pattern [] None (stamped t (map (map ev) (batches_at 0 ks))) =
    (if verb = ''rotate'' \<and> kind = ''vault-secret'' then
       replicate (fire_steps (\<lambda>l. 10 \<le> l) d 36000 None ks)
         (scoped_fire ver vault_rotate_slow_burn_pattern ((on_mandate m)\<lparr>mts_verb := Some verb, mts_resource_kind := Some kind\<rparr>))
     else [])"
proof (cases "verb = ''rotate'' \<and> kind = ''vault-secret''")
  case True
  have "alike vault_rotate_slow_burn_pattern ev n ver m
    (scoped_fire ver vault_rotate_slow_burn_pattern ((on_mandate m)\<lparr>mts_verb := Some verb, mts_resource_kind := Some kind\<rparr>))"
    using assms True by (auto simp: alike_def projection_defs matches_event_def all_of_def all_tier_def)
  from steady_counted [OF assms(1) _ _ _ _ this, of 36000 10 t] True show ?thesis by simp
next
  case False
  have "\<forall>i < n. \<not> scope_matches (scope vault_rotate_slow_burn_pattern) (ev i)"
    using assms False by (auto simp: matches_event_def all_of_def all_tier_def)
  then show ?thesis unfolding if_not_P [OF False] by (rule steady_unmatched [OF assms(1)])
qed

lemma iam_attach_policy_storm_trace:
  assumes "stream_ok t0 d n ev ks" "all_of verb kind ev n"
  shows "pattern_trace ver m iam_attach_policy_storm_pattern [] None (stamped t (map (map ev) (batches_at 0 ks))) =
    (if family_contains ''iam-attach'' verb then
       replicate (fire_steps (\<lambda>l. 5 \<le> l) d 300 None ks) (scoped_fire ver iam_attach_policy_storm_pattern (on_mandate m))
     else [])"
proof (cases "family_contains ''iam-attach'' verb")
  case True
  have "alike iam_attach_policy_storm_pattern ev n ver m (scoped_fire ver iam_attach_policy_storm_pattern (on_mandate m))"
    using assms True by (auto simp: alike_def projection_defs matches_event_def all_of_def all_tier_def)
  from steady_counted [OF assms(1) _ _ _ _ this, of 300 5 t] True show ?thesis by simp
next
  case False
  have "\<forall>i < n. \<not> scope_matches (scope iam_attach_policy_storm_pattern) (ev i)"
    using assms False by (auto simp: matches_event_def all_of_def all_tier_def)
  then show ?thesis unfolding if_not_P [OF False] by (rule steady_unmatched [OF assms(1)])
qed

lemma iam_attach_slow_burn_trace:
  assumes "stream_ok t0 d n ev ks" "all_of verb kind ev n"
  shows "pattern_trace ver m iam_attach_slow_burn_pattern [] None (stamped t (map (map ev) (batches_at 0 ks))) =
    (if family_contains ''iam-attach'' verb then
       replicate (fire_steps (\<lambda>l. 20 \<le> l) d 3000 None ks) (scoped_fire ver iam_attach_slow_burn_pattern (on_mandate m))
     else [])"
proof (cases "family_contains ''iam-attach'' verb")
  case True
  have "alike iam_attach_slow_burn_pattern ev n ver m (scoped_fire ver iam_attach_slow_burn_pattern (on_mandate m))"
    using assms True by (auto simp: alike_def projection_defs matches_event_def all_of_def all_tier_def)
  from steady_counted [OF assms(1) _ _ _ _ this, of 3000 20 t] True show ?thesis by simp
next
  case False
  have "\<forall>i < n. \<not> scope_matches (scope iam_attach_slow_burn_pattern) (ev i)"
    using assms False by (auto simp: matches_event_def all_of_def all_tier_def)
  then show ?thesis unfolding if_not_P [OF False] by (rule steady_unmatched [OF assms(1)])
qed

lemma machine_pace_trace:
  assumes "stream_ok t0 d n ev ks" "all_of verb kind ev n" "all_tier tier ev n"
  shows "pattern_trace ver m machine_pace_pattern [] None (stamped t (map (map ev) (batches_at 0 ks))) =
    (if 1 \<le> tier \<and> \<not> family_contains ''read-only'' verb then
       replicate (fire_steps (\<lambda>l. 50 \<le> l) d 60 None ks)
         (scoped_fire ver machine_pace_pattern ((on_mandate m)\<lparr>mts_tier := Some tier\<rparr>))
     else [])"
proof (cases "1 \<le> tier \<and> \<not> family_contains ''read-only'' verb")
  case True
  have "alike machine_pace_pattern ev n ver m (scoped_fire ver machine_pace_pattern ((on_mandate m)\<lparr>mts_tier := Some tier\<rparr>))"
    using assms True by (auto simp: alike_def projection_defs matches_event_def all_of_def all_tier_def)
  from steady_counted [OF assms(1) _ _ _ _ this, of 60 50 t] True show ?thesis by simp
next
  case False
  have "\<forall>i < n. \<not> scope_matches (scope machine_pace_pattern) (ev i)"
    using assms False by (auto simp: matches_event_def all_of_def all_tier_def)
  then show ?thesis unfolding if_not_P [OF False] by (rule steady_unmatched [OF assms(1)])
qed

lemma fanout_slow_burn_trace:
  assumes "stream_ok t0 d n ev ks" "all_of verb kind ev n"
  shows "pattern_trace ver m fanout_slow_burn_pattern [] None (stamped t (map (map ev) (batches_at 0 ks))) =
    (if verb = ''delete'' then
       replicate (fire_steps (\<lambda>l. 30 \<le> l) d 600 None ks)
         (scoped_fire ver fanout_slow_burn_pattern ((on_mandate m)\<lparr>mts_verb := Some verb\<rparr>))
     else [])"
proof (cases "verb = ''delete''")
  case True
  have "alike fanout_slow_burn_pattern ev n ver m
    (scoped_fire ver fanout_slow_burn_pattern ((on_mandate m)\<lparr>mts_verb := Some verb\<rparr>))"
    using assms True by (auto simp: alike_def projection_defs matches_event_def all_of_def all_tier_def)
  from steady_counted [OF assms(1) _ _ _ _ this, of 600 30 t] True show ?thesis by simp
next
  case False
  have "\<forall>i < n. \<not> scope_matches (scope fanout_slow_burn_pattern) (ev i)"
    using assms False by (auto simp: matches_event_def all_of_def all_tier_def)
  then show ?thesis unfolding if_not_P [OF False] by (rule steady_unmatched [OF assms(1)])
qed

lemma canary_window_second_tier3_trace:
  "stream_ok t0 d n ev ks \<Longrightarrow> pattern_trace ver m canary_window_second_tier3_pattern [] None (stamped t (map (map ev) (batches_at 0 ks))) = []"
  by (erule steady_unmatched) simp

lemma unusual_delegation_depth_trace:
  "stream_ok t0 d n ev ks \<Longrightarrow> pattern_trace ver m unusual_delegation_depth_pattern [] None (stamped t (map (map ev) (batches_at 0 ks))) = []"
  by (erule steady_unmatched) simp

lemma cross_tier_escalation_trace:
  assumes "stream_ok t0 d n ev ks" "all_tier tier ev n" "tier < 3"
  shows "pattern_trace ver m cross_tier_escalation_pattern [] None (stamped t (map (map ev) (batches_at 0 ks))) = []"
proof -
  have "meets_by_length cross_tier_escalation_pattern ev n (\<lambda>_. False)"
    using assms by (intro low_tiers_meet [where t = 3]) (auto simp: stream_ok_def all_tier_def)
  moreover have "alike cross_tier_escalation_pattern ev n ver m
    (scoped_fire ver cross_tier_escalation_pattern (on_mandate m))"
    by (simp add: alike_def projection_defs matches_event_def)
  moreover have "fire_steps (\<lambda>_. False) d 1800 None ks = 0" by (induction ks) simp_all
  ultimately show ?thesis
    using assms(1) steady_trace [of t0 d n ev cross_tier_escalation_pattern 1800 ver m _ "\<lambda>_. False" ks t]
    by (simp add: stream_ok_def)
qed

lemma long_silence_before_burst_trace:
  assumes "stream_ok t0 d n ev ks" "n \<le> 20 \<or> d * 19 \<le> 300"
  shows "pattern_trace ver m long_silence_before_burst_pattern [] None (stamped t (map (map ev) (batches_at 0 ks))) =
    replicate (fire_steps (\<lambda>l. 20 \<le> l \<and> d * 19 \<le> 300) d 604800 None ks)
      (scoped_fire ver long_silence_before_burst_pattern (on_mandate m))"
  using assms
  by (intro steady_trace silence_meets [where thr = 20 and bur = 300, simplified])
    (auto simp: alike_def projection_defs stream_ok_def)

lemma fanout_distinct_resources_trace:
  assumes "stream_ok t0 d n ev ks" "all_of verb kind ev n" "resources fresh ev n"
  shows "pattern_trace ver m fanout_distinct_resources_pattern [] None (stamped t (map (map ev) (batches_at 0 ks))) =
    (if verb = ''delete'' \<and> fresh then
       replicate (fire_steps (\<lambda>l. 10 \<le> l) d 60 None ks)
         (scoped_fire ver fanout_distinct_resources_pattern ((on_mandate m)\<lparr>mts_verb := Some verb\<rparr>))
     else [])"
proof (cases "verb = ''delete''")
  case False
  then show ?thesis
    using assms(2) steady_unmatched [OF assms(1), of fanout_distinct_resources_pattern ver m t]
    by (simp add: all_of_def)
next
  case True
  let ?p = fanout_distinct_resources_pattern
  let ?f = "scoped_fire ver ?p ((on_mandate m)\<lparr>mts_verb := Some verb\<rparr>)"
  have alike: "alike ?p ev n ver m ?f"
    using assms(2) True by (simp add: alike_def projection_defs matches_event_def all_of_def)
  show ?thesis
  proof (cases fresh)
    case fresh: True
    have "meets_by_length ?p ev n (\<lambda>l. 10 \<le> l)"
      using assms(1,3) fresh
      by (intro distinct_resources_meet) (simp_all add: resources_def stream_ok_def)
    then show ?thesis
      using assms(1) alike True fresh steady_trace [of t0 d n ev ?p 60 ver m ?f _ ks t]
      by (simp add: stream_ok_def)
  next
    case False
    then obtain r where "\<forall>i < n. ev_resource_ref (ev i) = r" using assms(3) by (auto simp: resources_def)
    then have "meets_by_length ?p ev n (\<lambda>_. (10::nat) \<le> 1)"
      by (intro same_resource_meets [where r = r]) simp_all
    moreover have "fire_steps (\<lambda>_. (10::nat) \<le> 1) d 60 None ks = 0" by (induction ks) simp_all
    ultimately show ?thesis
      using assms(1) alike False steady_trace [of t0 d n ev ?p 60 ver m ?f _ ks t]
      by (simp add: stream_ok_def)
  qed
qed

text \<open>The fires of a steady stream, pattern by pattern in the order of the library.\<close>

definition library_fires ::
  "nat \<Rightarrow> string \<Rightarrow> string \<Rightarrow> string \<Rightarrow> nat \<Rightarrow> bool \<Rightarrow> nat \<Rightarrow> nat list \<Rightarrow> anomaly_fire list list" where
  "library_fires ver m verb kind tier fresh d ks =
     [(if family_contains ''destructive'' verb then replicate (fire_steps (\<lambda>l. 5 \<le> l) d 60 None ks)
       (scoped_fire ver delete_storm_pattern (on_mandate m)) else []),
      (if family_contains ''destructive'' verb then replicate (fire_steps (\<lambda>l. 20 \<le> l) d 600 None ks)
        (scoped_fire ver delete_slow_burn_pattern (on_mandate m)) else []),
      (if verb = ''rotate'' \<and> kind = ''vault-secret'' then replicate (fire_steps (\<lambda>l. 3 \<le> l) d 3600 None ks)
        (scoped_fire ver vault_rotate_storm_pattern ((on_mandate m)\<lparr>mts_verb := Some verb, mts_resource_kind := Some kind\<rparr>)) else []),
      (if verb = ''rotate'' \<and> kind = ''vault-secret'' then replicate (fire_steps (\<lambda>l. 10 \<le> l) d 36000 None ks)
        (scoped_fire ver vault_rotate_slow_burn_pattern ((on_mandate m)\<lparr>mts_verb := Some verb, mts_resource_kind := Some kind\<rparr>)) else []),
      (if family_contains ''iam-attach'' verb then replicate (fire_steps (\<lambda>l. 5 \<le> l) d 300 None ks)
        (scoped_fire ver iam_attach_policy_storm_pattern (on_mandate m)) else []),
      (if family_contains ''iam-attach'' verb then replicate (fire_steps (\<lambda>l. 20 \<le> l) d 3000 None ks)
        (scoped_fire ver iam_attach_slow_burn_pattern (on_mandate m)) else []),
      replicate (fire_steps (\<lambda>l. 3 \<le> l) d 300 None ks) (scoped_fire ver git_force_push_storm_pattern (on_mandate m)),
      replicate (fire_steps (\<lambda>l. 10 \<le> l) d 3000 None ks) (scoped_fire ver git_force_push_slow_burn_pattern (on_mandate m)),
      [],
      (if 1 \<le> tier \<and> \<not> family_contains ''read-only'' verb then replicate (fire_steps (\<lambda>l. 50 \<le> l) d 60 None ks)
        (scoped_fire ver machine_pace_pattern ((on_mandate m)\<lparr>mts_tier := Some tier\<rparr>)) else []),
      replicate (fire_steps (\<lambda>l. 20 \<le> l \<and> d * 19 \<le> 300) d 604800 None ks)
        (scoped_fire ver long_silence_before_burst_pattern (on_mandate m)),
      [],
      [],
      (if verb = ''delete'' \<and> fresh then replicate (fire_steps (\<lambda>l. 10 \<le> l) d 60 None ks)
        (scoped_fire ver fanout_distinct_resources_pattern ((on_mandate m)\<lparr>mts_verb := Some verb\<rparr>)) else []),
      (if verb = ''delete'' then replicate (fire_steps (\<lambda>l. 30 \<le> l) d 600 None ks)
        (scoped_fire ver fanout_slow_burn_pattern ((on_mandate m)\<lparr>mts_verb := Some verb\<rparr>)) else [])]"

lemma library_traces:
  assumes "stream_ok t0 d n ev ks" "all_of verb kind ev n" "all_tier tier ev n" "resources fresh ev n" "tier < 3"
    "n \<le> 20 \<or> d * 19 \<le> 300"
  shows "map (\<lambda>p. pattern_trace ver m p [] None (stamped t (map (map ev) (batches_at 0 ks)))) minimum_anomaly_library_patterns =
    library_fires ver m verb kind tier fresh d ks"
  unfolding minimum_anomaly_library_patterns_def library_fires_def list.map
  by (intro arg_cong2 [where f = Cons] refl
      delete_storm_trace [OF assms(1,2)]
      delete_slow_burn_trace [OF assms(1,2)]
      vault_rotate_storm_trace [OF assms(1,2)]
      vault_rotate_slow_burn_trace [OF assms(1,2)]
      iam_attach_policy_storm_trace [OF assms(1,2)]
      iam_attach_slow_burn_trace [OF assms(1,2)]
      git_force_push_storm_trace [OF assms(1)]
      git_force_push_slow_burn_trace [OF assms(1)]
      cross_tier_escalation_trace [OF assms(1,3,5)]
      machine_pace_trace [OF assms(1,2,3)]
      long_silence_before_burst_trace [OF assms(1,6)]
      canary_window_second_tier3_trace [OF assms(1)]
      unusual_delegation_depth_trace [OF assms(1)]
      fanout_distinct_resources_trace [OF assms(1,2,4)]
      fanout_slow_burn_trace [OF assms(1,2)])

lemma minimum_library_plain:
  assumes "vl_patterns lib = minimum_anomaly_library_patterns"
  shows "plain_library lib"
  by (simp add: plain_library_def assms minimum_anomaly_library_patterns_def)

lemmas family_defs =
  family_contains_def lookup_family_def DESTRUCTIVE_VERBS_def READ_ONLY_VERBS_def IAM_ATTACH_VERBS_def

end
