(* ===== verification/Stream_Vectors.thy ===== *)
theory Stream_Vectors
  imports Detect_Vectors Library_Vectors_Correct Uniform_Streams
begin

text \<open>
  What the correctness of the detect and of the audit vectors shares: the JSON that \<open>serde\<close> reads events, streams and
  match scopes from, the laws that say it does, the envelope of the minimum library at any version, and the step from
  fires that agree pattern by pattern to the comparison of sorted lists.
\<close>

section \<open>The wire forms\<close>

fun outcome_wire :: "event_outcome \<Rightarrow> string" where
  "outcome_wire Executed = ''executed''"
| "outcome_wire Rejected = ''rejected''"
| "outcome_wire Queued = ''queued''"

definition event_wire :: "canonicalized_event \<Rightarrow> json" where
  "event_wire e =
     JObject
       [(''event_id'', JString (event_id e)), (''timestamp'', JNumber (NInt (timestamp e))),
        (''mandate_id'', JString (ev_mandate_id e)), (''tier'', json_nat (ev_tier e)),
        (''integration'', JString (ev_integration e)), (''verb'', JString (ev_verb e)),
        (''resource_kind'', JString (ev_resource_kind e)), (''resource_ref'', JString (ev_resource_ref e)),
        (''outcome'', JString (outcome_wire (ev_outcome e)))]"

definition template_wire :: "template_event \<Rightarrow> json" where
  "template_wire te =
     JObject
       [(''mandate_id'', JString (te_mandate_id te)), (''tier'', json_nat (te_tier te)),
        (''integration'', JString (te_integration te)), (''verb'', JString (te_verb te)),
        (''resource_kind'', JString (te_resource_kind te)), (''outcome'', JString (outcome_wire (te_outcome te)))]"

fun stream_wire :: "audit_stream_input \<Rightarrow> json" where
  "stream_wire (Literal es) = JObject [(''literal'', JObject [(''events'', JArray (map event_wire es))])]"
| "stream_wire (PatternDescription pd) =
     JObject [(''pattern_description'',
       JObject
         [(''start_time'', JString (start_time pd)), (''end_time'', JString (end_time pd)),
          (''count'', json_nat (pd_count pd)), (''interval_seconds'', json_nat (interval_seconds pd)),
          (''template_event'', template_wire (template_of pd)),
          (''resource_ref_pattern'', JString (resource_ref_pattern pd))])]"

definition present :: "string \<Rightarrow> ('a \<Rightarrow> json) \<Rightarrow> 'a option \<Rightarrow> (string \<times> json) list" where
  "present k wire v = (case v of Some x \<Rightarrow> [(k, wire x)] | None \<Rightarrow> [])"

definition scope_wire :: "match_scope \<Rightarrow> json" where
  "scope_wire ms =
     JObject
       (present ''mandate_id'' JString (mts_mandate_id ms) @ present ''operator_id'' JString (mts_operator_id ms) @
        present ''integration_ref'' JString (mts_integration_ref ms) @ present ''verb'' JString (mts_verb ms) @
        present ''resource_kind'' JString (mts_resource_kind ms) @ present ''tier'' json_nat (mts_tier ms))"

fun firing_rule_wire :: "firing_rule \<Rightarrow> string" where
  "firing_rule_wire FirstMatch = ''first-match''"
| "firing_rule_wire SequenceMatch = ''sequence-match''"
| "firing_rule_wire CumulativeOverBaseline = ''cumulative-over-baseline''"

definition fire_fields :: "anomaly_fire \<Rightarrow> (string \<times> json) list" where
  "fire_fields f =
     [(''pattern_id'', JString (af_pattern_id f)), (''library_version'', json_nat (af_library_version f)),
      (''severity'', JString (severity_str (af_severity f))),
      (''firing_rule'', JString (firing_rule_wire (af_firing_rule f))), (''match_scope'', scope_wire (af_match_scope f))]"

fun level_wire :: "severity_level \<Rightarrow> string" where
  "level_wire SevLow = ''low''"
| "level_wire SevMedium = ''medium''"
| "level_wire SevHigh = ''high''"
| "level_wire SevCritical = ''critical''"

definition expected_wire :: "json expected_outcome \<Rightarrow> json" where
  "expected_wire ex =
     JObject
       ([(''outcome'', JString (case exp_outcome ex of Accept \<Rightarrow> ''accept'' | Reject \<Rightarrow> ''reject''))] @
        present ''reject_code'' JString (exp_reject_code ex) @ present ''output'' (\<lambda>j. j) (exp_output ex))"

text \<open>The values that fit the integer types.\<close>

definition event_fits :: "canonicalized_event \<Rightarrow> bool" where
  "event_fits e \<longleftrightarrow> in_i64 (timestamp e) \<and> ev_tier e < 256"

fun stream_fits :: "audit_stream_input \<Rightarrow> bool" where
  "stream_fits (Literal es) \<longleftrightarrow> list_all event_fits es"
| "stream_fits (PatternDescription pd) \<longleftrightarrow>
     te_tier (template_of pd) < 256 \<and> pd_count pd < 2 ^ 32 \<and> interval_seconds pd < 2 ^ 32"

definition fire_fits :: "anomaly_fire \<Rightarrow> bool" where
  "fire_fits f \<longleftrightarrow> af_library_version f < 2 ^ 64 \<and> (case mts_tier (af_match_scope f) of Some t \<Rightarrow> t < 256 | None \<Rightarrow> True)"

section \<open>The laws\<close>

definition frame_law :: "('pk, 'sig) signer_kit \<Rightarrow> bool" where
  "frame_law kit \<longleftrightarrow>
     (\<forall>i category description rationale input ex level.
        kt_vector_from_value kit
          (vector_frame i category description input (expected_wire ex) rationale (level_wire level)) =
        Some \<lparr>v_id = i, v_category = category, v_description = description, v_input = input, v_expected = ex,
          v_rationale = rationale, v_redteam_refs = [''PHASE-C4-LIVE''], v_severity_if_failed = Some level\<rparr>)"

definition clocks_law :: "('pk, 'sig) signer_kit \<Rightarrow> bool" where
  "clocks_law kit \<longleftrightarrow>
     an_rfc3339 (kt_env kit) CURRENT_TIME = Inr 1777593600 \<and>
     an_rfc3339 (kt_env kit) DETECT_INITIAL_TIME = Inr 1777636800 \<and>
     (case an_rfc3339 (kt_env kit) ''not-a-real-iso-timestamp'' of Inl _ \<Rightarrow> True | Inr _ \<Rightarrow> False)"

definition envelope_laws :: "('pk, 'sig) signer_kit \<Rightarrow> nat \<Rightarrow> bool" where
  "envelope_laws kit ver \<longleftrightarrow>
     coset_laws kit \<and> ed25519_laws kit \<and> hex_laws kit \<and> payload_law kit (at_version ver) \<and>
     fits_cap kit FIXTURE_ANOMALY_KID (kt_into_writer kit (at_version ver))"

section \<open>The envelope\<close>

definition library_at :: "nat \<Rightarrow> verified_anomaly_library" where
  "library_at ver = build_verified (at_version ver) FIXTURE_ANOMALY_KID"

lemma library_at_fields [simp]:
  "vl_patterns (library_at ver) = minimum_anomaly_library_patterns" "vl_library_version (library_at ver) = ver"
  by (simp_all add: library_at_def build_verified_def at_version_def minimum_anomaly_library_payload_def)

lemma library_at_plain: "plain_library (library_at ver)"
  by (rule minimum_library_plain) simp

lemma library_at_answer:
  assumes "envelope_laws kit ver" "1700000000 \<le> now" "now \<le> 1800000000"
  shows "library_answer (kt_env kit) (sign_minimum_library_with_version kit ver)
      [fixture_anchor kit FIXTURE_ANOMALY_KID (fixture_point kit)] ANOMALY_LIBRARY_ABI_VERSION now [] =
    Inr (library_at ver)"
proof -
  have laws: "coset_laws kit" "ed25519_laws kit" "payload_law kit (at_version ver)"
      "fits_cap kit FIXTURE_ANOMALY_KID (kt_into_writer kit (at_version ver))"
    using assms(1) by (simp_all add: envelope_laws_def)
  note internal = internal_signed [OF laws(1,2,4,3) fixture_kid(1,2)]
  show ?thesis
    unfolding library_answer_def sign_minimum sign_anomaly_library_envelope_def cbor_encode_anomaly_payload_def internal
    using assms(2,3)
    by (simp add: at_version_def minimum_anomaly_library_payload_def minimum_stage7 ANOMALY_LIBRARY_ABI_VERSION_def
        FIXTURE_ANOMALY_ISSUED_AT_def FIXTURE_ANOMALY_EXPIRES_AT_def library_at_def)
qed

text \<open>The anchors of a generated vector, as the decoder reads them.\<close>

definition fixture_key :: "('pk, 'sig) signer_kit \<Rightarrow> trust_anchor_key_def" where
  "fixture_key kit =
     \<lparr>tk_kid = FIXTURE_ANOMALY_KID, tk_alg = ''ed25519'',
      tk_pk_hex = kt_hex_encode kit (fixture_anomaly_verifying_key_bytes kit), tk_role = None\<rparr>"

lemma minimum_opens:
  assumes "envelope_laws kit 1" "clocks_law kit"
    and "ei_cose_hex input = kt_hex_encode kit (sign_minimum_library_with_version kit 1)"
    and "ei_anchor_keys input = [fixture_key kit]" "ei_abi input = ANOMALY_LIBRARY_ABI_VERSION"
    and "ei_now input = CURRENT_TIME" "ei_pre_ledger input = []"
  shows "open_library (kt_env kit) who input = Inr (Inr (library_at 1))"
proof (rule iffD2 [OF open_library_iff])
  have "build_anchor_set (an_crypto (kt_env kit)) (ei_anchor_keys input) AnomalyLibrarySigner =
      Inr [fixture_anchor kit FIXTURE_ANOMALY_KID (fixture_point kit)]"
    using fixture_anchor_set [of kit FIXTURE_ANOMALY_KID] assms(1,4) by (simp add: envelope_laws_def fixture_key_def)
  then show "opens (kt_env kit) input (Inr (library_at 1))"
    using assms library_at_answer [OF assms(1), of 1777593600]
    by (simp add: opens_def envelope_laws_def hex_laws_def clocks_law_def)
qed (simp add: assms)

section \<open>Comparing fires pattern by pattern\<close>

definition pattern_ids :: "string set" where
  "pattern_ids = set (map pattern_id minimum_anomaly_library_patterns)"

definition same_fires :: "anomaly_fire list \<Rightarrow> anomaly_fire list \<Rightarrow> bool" where
  "same_fires xs ys \<longleftrightarrow>
     map (\<lambda>p. fires_of p xs) minimum_anomaly_library_patterns = map (\<lambda>p. fires_of p ys) minimum_anomaly_library_patterns \<and>
     af_pattern_id ` set xs \<subseteq> pattern_ids \<and> af_pattern_id ` set ys \<subseteq> pattern_ids"

lemma same_fires_filter:
  assumes "same_fires xs ys"
  shows "filter (\<lambda>f. af_pattern_id f = pid) xs = filter (\<lambda>f. af_pattern_id f = pid) ys"
proof (cases "pid \<in> pattern_ids")
  case True
  then obtain p where "p \<in> set minimum_anomaly_library_patterns" "pid = pattern_id p" by (auto simp: pattern_ids_def)
  with assms show ?thesis by (simp add: same_fires_def fires_of_def)
next
  case False
  then have "filter (\<lambda>f. af_pattern_id f = pid) zs = []" if "af_pattern_id ` set zs \<subseteq> pattern_ids" for zs
    using that by (auto simp: filter_empty_conv)
  from this [of xs] this [of ys] assms show ?thesis by (simp add: same_fires_def)
qed

lemma same_fires_keys:
  assumes "same_fires xs ys"
  shows "same_per_key fire_sort_key xs ys"
  unfolding same_per_key_def
proof
  fix k
  have "filter (\<lambda>f. fire_sort_key f = k) zs =
      filter (\<lambda>f. fire_sort_key f = k) (filter (\<lambda>f. af_pattern_id f = fst k) zs)" for zs
    by (auto simp: fire_sort_key_def intro!: filter_cong)
  then show "filter (\<lambda>f. fire_sort_key f = k) xs = filter (\<lambda>f. fire_sort_key f = k) ys"
    using same_fires_filter [OF assms, of "fst k"] by metis
qed

lemma same_fires_Nil: "same_fires xs [] \<Longrightarrow> xs = []"
proof -
  assume "same_fires xs []"
  then have "filter (\<lambda>f. af_pattern_id f = pid) xs = []" for pid using same_fires_filter by fastforce
  from this [of "af_pattern_id (hd xs)"] show "xs = []" by (cases xs) simp_all
qed

section \<open>Typed events\<close>

definition executed ::
  "string \<Rightarrow> string \<Rightarrow> int \<Rightarrow> nat \<Rightarrow> string \<Rightarrow> string \<Rightarrow> string \<Rightarrow> string \<Rightarrow> canonicalized_event" where
  "executed eid m t tier integration verb kind ref =
     \<lparr>event_id = eid, timestamp = t, ev_mandate_id = m, ev_tier = tier, ev_integration = integration, ev_verb = verb,
      ev_resource_kind = kind, ev_resource_ref = ref, ev_outcome = Executed\<rparr>"

lemma executed_fields [simp]:
  "timestamp (executed eid m t tier integration verb kind ref) = t"
  "ev_mandate_id (executed eid m t tier integration verb kind ref) = m"
  "ev_tier (executed eid m t tier integration verb kind ref) = tier"
  "ev_verb (executed eid m t tier integration verb kind ref) = verb"
  "ev_resource_kind (executed eid m t tier integration verb kind ref) = kind"
  "ev_resource_ref (executed eid m t tier integration verb kind ref) = ref"
  by (simp_all add: executed_def)

lemma canonical_wire:
  "canonical_event_named eid m off tier integration verb kind ref =
     event_wire (executed eid m (1777636800 + off) tier integration verb kind ref)"
  "canonical_delete_event eid m off tier kind ref =
     event_wire (executed eid m (1777636800 + off) tier ''k8s'' ''delete'' kind ref)"
  by (simp_all add: canonical_delete_event_def canonical_event_named_def event_wire_def executed_def
      DETECT_INITIAL_TIME_UNIX_def)

lemma literal_wire: "literal_stream (map event_wire es) = stream_wire (Literal es)"
  by (simp add: literal_stream_def)

lemma show_digits:
  "show_nat 0 = ''0''" "show_nat (Suc 0) = ''1''" "show_nat 2 = ''2''" "show_nat 3 = ''3''" "show_nat 4 = ''4''"
  by code_simp+

lemma upt_small:
  "[0..<2] = [0, 1::nat]" "[0..<3] = [0, 1, 2::nat]" "[0..<5] = [0, 1, 2, 3, 4::nat]" "[5..<8] = [5, 6, 7::nat]"
  by code_simp+

section \<open>Streams without a break\<close>

lemma concat_batches:
  "sorted_wrt (<) ks \<Longrightarrow> (\<forall>k \<in> set ks. a \<le> k) \<Longrightarrow>
     concat (batches_at a ks) = [a..<(if ks = [] then a else Suc (last ks))]"
proof (induction ks arbitrary: a)
  case (Cons k ks)
  have "concat (batches_at (Suc k) ks) = [Suc k..<(if ks = [] then Suc k else Suc (last ks))]"
    using Cons.prems by (intro Cons.IH) (auto simp: Suc_le_eq)
  moreover have "k \<le> last (k # ks)" using Cons.prems(1) by (cases ks) (auto dest!: last_in_set simp: less_imp_le)
  ultimately show ?case
    using Cons.prems(2) upt_add_eq_append [of a "Suc k" "last (k # ks) - k"] by (cases ks) auto
qed simp

lemma steady_in_order:
  assumes "steady t0 d n ev" "\<forall>i < n. ev_mandate_id (ev i) = m" "b \<le> n"
  shows "t \<le> t0 + int (d * a) \<Longrightarrow> well_timed m t (map ev [a..<b])"
proof (induction "b - a" arbitrary: a t)
  case (Suc k)
  then have a: "a < b" by simp
  have "d * a \<le> d * n" "d * n \<le> 2 ^ 40" "2 ^ 30 \<le> t0" "t0 \<le> 2 ^ 40" "timestamp (ev a) = t0 + int (d * a)"
    using a assms(1,3) by (simp_all add: steady_def)
  moreover from this have "int (d * a) \<le> 2 ^ 40" by (meson int_power_bound order_trans)
  moreover have "0 \<le> int (d * a)" by simp
  ultimately have ts: "timestamp (ev a) = t0 + int (d * a)" "in_i64 (timestamp (ev a))"
    by (simp_all add: in_i64_def arith_defs del: of_nat_mult)
  have "well_timed m (timestamp (ev a)) (map ev [Suc a..<b])"
    using Suc(2) ts(1) by (intro Suc(1)) simp_all
  moreover have "[a..<b] = a # [Suc a..<b]" using a by (simp add: upt_conv_Cons)
  ultimately show ?case using ts Suc(3) assms(2,3) a by simp
qed simp

lemma in_i64_timed: "well_timed m t es \<Longrightarrow> e \<in> set es \<Longrightarrow> in_i64 (timestamp e)"
  by (induction es arbitrary: t) auto

lemma steady_batches:
  assumes ok: "stream_ok t0 d n ev ks" and m: "\<forall>i < n. ev_mandate_id (ev i) = m \<and> ev_tier (ev i) < 256"
  shows "well_timed m t0 (concat (map (map ev) (batches_at 0 ks)))"
    and "length (concat (map (map ev) (batches_at 0 ks))) \<le> 1000"
    and "list_all event_fits (concat (map (map ev) (batches_at 0 ks)))"
proof -
  have ok': "steady t0 d n ev" "n \<le> 1000" "sorted_wrt (<) ks" "\<forall>k \<in> set ks. k < n" using ok by (simp_all add: stream_ok_def)
  define b where "b = (if ks = [] then 0 else Suc (last ks))"
  have b: "b \<le> n" using ok'(4) by (auto simp: b_def Suc_le_eq)
  have all: "concat (map (map ev) (batches_at 0 ks)) = map ev [0..<b]"
    using concat_batches [OF ok'(3), of 0] by (simp add: b_def map_concat [symmetric])
  show timed: "well_timed m t0 (concat (map (map ev) (batches_at 0 ks)))"
    unfolding all by (rule steady_in_order [OF ok'(1) _ b]) (use m in simp_all)
  show "length (concat (map (map ev) (batches_at 0 ks))) \<le> 1000" unfolding all using b ok'(2) by simp
  have "in_i64 (timestamp (ev i))" if "i < n" for i
    using in_i64_timed [OF steady_in_order [OF ok'(1), of m n t0 0], of "ev i"] m that by auto
  then show "list_all event_fits (concat (map (map ev) (batches_at 0 ks)))"
    unfolding all using b m by (auto simp: list_all_iff event_fits_def)
qed

section \<open>Streams of one kind of event\<close>

definition executed_at ::
  "int \<Rightarrow> nat \<Rightarrow> (nat \<Rightarrow> string) \<Rightarrow> string \<Rightarrow> nat \<Rightarrow> string \<Rightarrow> string \<Rightarrow> string \<Rightarrow> (nat \<Rightarrow> string) \<Rightarrow> nat \<Rightarrow>
   canonicalized_event" where
  "executed_at t0 d eid m tier integration verb kind ref i =
     executed (eid i) m (t0 + int (d * i)) tier integration verb kind (ref i)"

text \<open>What a run over the batches of a stream needs, and the fires it then makes.\<close>

definition traced ::
  "int \<Rightarrow> nat \<Rightarrow> string \<Rightarrow> canonicalized_event list list \<Rightarrow> anomaly_fire list \<Rightarrow> bool" where
  "traced t0 ver m bs expected \<longleftrightarrow>
     well_timed m t0 (concat bs) \<and> length (concat bs) \<le> 1000 \<and> list_all event_fits (concat bs) \<and>
     map (\<lambda>p. pattern_trace ver m p [] None (stamped t0 bs)) minimum_anomaly_library_patterns =
       map (\<lambda>p. fires_of p expected) minimum_anomaly_library_patterns \<and>
     af_pattern_id ` set expected \<subseteq> pattern_ids \<and> list_all fire_fits expected"

definition listed :: "anomaly_fire list \<Rightarrow> bool" where
  "listed fs \<longleftrightarrow> af_pattern_id ` set fs \<subseteq> pattern_ids \<and> list_all fire_fits fs"

lemma steady_traced:
  assumes "stream_ok t0 d n ev ks" "\<forall>i < n. ev_mandate_id (ev i) = m \<and> ev_tier (ev i) < 256" "listed expected"
    and "map (\<lambda>p. pattern_trace ver m p [] None (stamped t0 (map (map ev) (batches_at 0 ks)))) minimum_anomaly_library_patterns =
      map (\<lambda>p. fires_of p expected) minimum_anomaly_library_patterns"
  shows "traced t0 ver m (map (map ev) (batches_at 0 ks)) expected"
  using steady_batches [OF assms(1,2)] assms(3,4) by (simp add: traced_def listed_def)

definition spaced :: "int \<Rightarrow> nat \<Rightarrow> nat \<Rightarrow> nat list \<Rightarrow> bool" where
  "spaced t0 d n ks \<longleftrightarrow>
     0 < d \<and> 2 ^ 30 \<le> t0 \<and> t0 \<le> 2 ^ 40 \<and> d * n \<le> 2 ^ 40 \<and> n \<le> 1000 \<and> sorted_wrt (<) ks \<and> (\<forall>k \<in> set ks. k < n)"

lemma executed_traced:
  assumes "spaced t0 d n ks" "tier < 3" "n \<le> 20 \<or> d * 19 \<le> 300"
    and ref: "if fresh then inj_on ref {..<n} else (\<exists>r. \<forall>i < n. ref i = r)"
    and fires: "library_fires ver m verb kind tier fresh d ks = map (\<lambda>p. fires_of p expected) minimum_anomaly_library_patterns"
    and "listed expected"
  shows "traced t0 ver m (map (map (executed_at t0 d eid m tier integration verb kind ref)) (batches_at 0 ks)) expected"
proof -
  let ?ev = "executed_at t0 d eid m tier integration verb kind ref"
  have "stream_ok t0 d n ?ev ks" using assms(1) by (simp add: spaced_def stream_ok_def steady_def executed_at_def)
  moreover have "all_of verb kind ?ev n" "all_tier tier ?ev n" by (simp_all add: all_of_def all_tier_def executed_at_def)
  moreover have "resources fresh ?ev n" using ref by (simp add: resources_def executed_at_def)
  ultimately show ?thesis
    using assms(2,3,6) fires library_traces [of t0 d n ?ev ks verb kind tier fresh ver m t0]
    by (intro steady_traced) (simp_all add: executed_at_def)
qed

text \<open>Three reads that climb the tiers.\<close>

definition climbing :: "(nat \<Rightarrow> canonicalized_event) \<Rightarrow> bool" where
  "climbing ev \<longleftrightarrow> ev_tier (ev 0) = 0 \<and> ev_tier (ev 1) = 2 \<and> ev_tier (ev 2) = 3"

lemma climbing_meets:
  assumes "climbing ev"
  shows "meets_by_length cross_tier_escalation_pattern ev 3 (\<lambda>l. l = 3)"
  unfolding meets_by_length_def
proof (intro allI impI)
  fix a b :: nat assume "a < b" "b \<le> 3"
  then have "(a, b) \<in> {(0, 1), (0, 2), (0, 3), (1, 2), (1, 3), (2, 3)}" by auto
  moreover have "[0..<Suc 0] = [0::nat]" "[1..<2] = [1::nat]" "[1..<3] = [1, 2::nat]" "[2..<3] = [2::nat]" by code_simp+
  ultimately show "events_meet cross_tier_escalation_pattern (map ev [a..<b]) = (b - a = 3)"
    using assms upt_small(1,2)
    by (auto simp: climbing_def events_meet_def threshold_met_def count_cross_tier_sequences_def sat_add_u32_def arith_defs)
qed

lemma climbing_traced:
  assumes ok: "stream_ok t0 1 3 ev ks" and ev: "climbing ev" "all_of ''get'' kind ev 3" "\<forall>i < 3. ev_mandate_id (ev i) = m"
    and fires: "fire_steps (\<lambda>l. 3 \<le> l) 1 300 None ks = 1" "fire_steps (\<lambda>l. 10 \<le> l) 1 3000 None ks = 0"
      "fire_steps (\<lambda>l. l = 3) 1 1800 None ks = 1" "fire_steps (\<lambda>l. 20 \<le> l) 1 604800 None ks = 0"
    and ver: "ver < 2 ^ 64"
  shows "traced t0 ver m (map (map ev) (batches_at 0 ks))
    [scoped_fire ver cross_tier_escalation_pattern (on_mandate m), scoped_fire ver git_force_push_storm_pattern (on_mandate m)]"
proof (rule steady_traced [OF ok])
  let ?fire = "\<lambda>p. scoped_fire ver p (on_mandate m)"
  have tiers: "ev_tier (ev i) < 256" if "i < 3" for i
  proof -
    from that have "i = 0 \<or> i = 1 \<or> i = 2" by auto
    then show ?thesis using ev(1) by (auto simp: climbing_def)
  qed
  then show "\<forall>i < 3. ev_mandate_id (ev i) = m \<and> ev_tier (ev i) < 256" using ev(3) by simp
  show "listed [?fire cross_tier_escalation_pattern, ?fire git_force_push_storm_pattern]"
    using ver by (simp add: listed_def pattern_ids_def minimum_anomaly_library_patterns_def scoped_fire_def fire_fits_def
        on_mandate_def match_scope_default_def)
  have pace: "pattern_trace ver m machine_pace_pattern [] None (stamped t0 (map (map ev) (batches_at 0 ks))) = []"
    using ev(2) by (intro steady_unmatched [OF ok]) (auto simp: all_of_def family_defs)
  have fanout: "pattern_trace ver m fanout_distinct_resources_pattern [] None (stamped t0 (map (map ev) (batches_at 0 ks))) = []"
    using ev(2) by (intro steady_unmatched [OF ok]) (auto simp: all_of_def)
  have "alike cross_tier_escalation_pattern ev 3 ver m (?fire cross_tier_escalation_pattern)"
    by (simp add: alike_def projection_defs matches_event_def)
  from steady_trace [OF _ _ _ this climbing_meets [OF ev(1)], of t0 1 1800 ks t0]
  have cross: "pattern_trace ver m cross_tier_escalation_pattern [] None (stamped t0 (map (map ev) (batches_at 0 ks))) =
      [?fire cross_tier_escalation_pattern]"
    using ok fires(3) by (simp add: stream_ok_def)
  show "map (\<lambda>p. pattern_trace ver m p [] None (stamped t0 (map (map ev) (batches_at 0 ks)))) minimum_anomaly_library_patterns =
      map (\<lambda>p. fires_of p [?fire cross_tier_escalation_pattern, ?fire git_force_push_storm_pattern])
        minimum_anomaly_library_patterns"
    unfolding minimum_anomaly_library_patterns_def list.map pace fanout cross
      delete_storm_trace [OF ok ev(2)] delete_slow_burn_trace [OF ok ev(2)] vault_rotate_storm_trace [OF ok ev(2)]
      vault_rotate_slow_burn_trace [OF ok ev(2)] iam_attach_policy_storm_trace [OF ok ev(2)]
      iam_attach_slow_burn_trace [OF ok ev(2)] git_force_push_storm_trace [OF ok] git_force_push_slow_burn_trace [OF ok]
      long_silence_before_burst_trace [OF ok, of ver m t0, simplified] canary_window_second_tier3_trace [OF ok]
      unusual_delegation_depth_trace [OF ok] fanout_slow_burn_trace [OF ok ev(2)]
    using fires by (simp add: family_defs fires_of_def scoped_fire_def)
qed

text \<open>What evaluates the fires of a stream, and what checks the list of them.\<close>

lemmas fire_simps =
  library_fires_def family_defs fires_of_def minimum_anomaly_library_patterns_def scoped_fire_def

lemmas list_simps =
  listed_def pattern_ids_def minimum_anomaly_library_patterns_def scoped_fire_def fire_fits_def on_mandate_def
  match_scope_default_def

text \<open>Condensed streams that do not expand.\<close>

definition burst_description :: "string \<Rightarrow> string \<Rightarrow> nat \<Rightarrow> nat \<Rightarrow> pattern_description" where
  "burst_description m start count' interval =
     \<lparr>start_time = start, end_time = DETECT_INITIAL_TIME, pd_count = count', interval_seconds = interval,
      template_of = \<lparr>te_mandate_id = m, te_tier = 2, te_integration = ''k8s'', te_verb = ''delete'',
        te_resource_kind = ''pod'', te_outcome = Executed\<rparr>,
      resource_ref_pattern = ''pod/n-{i}''\<rparr>"

lemma burst_refused:
  assumes "clocks_law kit"
  shows "expand (stream_clock (kt_env kit)) (burst_description m t 0 0) = Inl PatternDescriptionCountZero"
    and "expand (stream_clock (kt_env kit)) (burst_description m ''not-a-real-iso-timestamp'' 3 1) =
      Inl (TimestampParseFailed RFC3339_PARSE_REASON)"
proof -
  have "stream_clock (kt_env kit) ''not-a-real-iso-timestamp'' = None"
    using assms by (simp add: clocks_law_def stream_clock_def split: sum.splits)
  moreover have "str_contains index_placeholder ''pod/n-{i}''" by (simp add: index_placeholder_def)
  ultimately show "expand (stream_clock (kt_env kit)) (burst_description m t 0 0) = Inl PatternDescriptionCountZero"
    "expand (stream_clock (kt_env kit)) (burst_description m ''not-a-real-iso-timestamp'' 3 1) =
      Inl (TimestampParseFailed RFC3339_PARSE_REASON)"
    by (simp_all add: expand_def burst_description_def checked_mul_u64_def MAX_EXPANDED_EVENTS_def u64_max_def)
qed

section \<open>A toolkit that reads streams\<close>

text \<open>Readers that undo the wire forms, used as the concrete toolkit of the witnesses.\<close>

lemma json_get_present:
  "json_get (JObject (present k wire v @ kvs)) k' =
     (if k' = k then (case v of Some x \<Rightarrow> Some (wire x) | None \<Rightarrow> json_get (JObject kvs) k') else json_get (JObject kvs) k')"
  by (simp add: present_def split: option.split)

definition int_field :: "json \<Rightarrow> string \<Rightarrow> int" where
  "int_field j k = (case field j k of JNumber (NInt n) \<Rightarrow> n | _ \<Rightarrow> 0)"

definition list_field :: "json \<Rightarrow> string \<Rightarrow> json list" where
  "list_field j k = (case field j k of JArray xs \<Rightarrow> xs | _ \<Rightarrow> [])"

definition text_option :: "json \<Rightarrow> string \<Rightarrow> string option" where
  "text_option j k = (case json_get j k of Some (JString s) \<Rightarrow> Some s | _ \<Rightarrow> None)"

definition nat_option :: "json \<Rightarrow> string \<Rightarrow> nat option" where
  "nat_option j k = (case json_get j k of Some (JNumber (NInt n)) \<Rightarrow> Some (nat n) | _ \<Rightarrow> None)"

definition outcome_of :: "string \<Rightarrow> event_outcome" where
  "outcome_of s = (if s = ''executed'' then Executed else if s = ''rejected'' then Rejected else Queued)"

definition read_event :: "json \<Rightarrow> canonicalized_event" where
  "read_event j =
     \<lparr>event_id = text_field j ''event_id'', timestamp = int_field j ''timestamp'',
      ev_mandate_id = text_field j ''mandate_id'', ev_tier = nat (int_field j ''tier''),
      ev_integration = text_field j ''integration'', ev_verb = text_field j ''verb'',
      ev_resource_kind = text_field j ''resource_kind'', ev_resource_ref = text_field j ''resource_ref'',
      ev_outcome = outcome_of (text_field j ''outcome'')\<rparr>"

definition read_template :: "json \<Rightarrow> template_event" where
  "read_template j =
     \<lparr>te_mandate_id = text_field j ''mandate_id'', te_tier = nat (int_field j ''tier''),
      te_integration = text_field j ''integration'', te_verb = text_field j ''verb'',
      te_resource_kind = text_field j ''resource_kind'', te_outcome = outcome_of (text_field j ''outcome'')\<rparr>"

definition read_stream :: "json \<Rightarrow> audit_stream_input" where
  "read_stream j =
     (case json_get j ''literal'' of
        Some l \<Rightarrow> Literal (map read_event (list_field l ''events''))
      | None \<Rightarrow>
          (let d = field j ''pattern_description'' in
           PatternDescription
             \<lparr>start_time = text_field d ''start_time'', end_time = text_field d ''end_time'',
              pd_count = nat (int_field d ''count''), interval_seconds = nat (int_field d ''interval_seconds''),
              template_of = read_template (field d ''template_event''),
              resource_ref_pattern = text_field d ''resource_ref_pattern''\<rparr>))"

definition read_scope :: "json \<Rightarrow> match_scope" where
  "read_scope j =
     \<lparr>mts_mandate_id = text_option j ''mandate_id'', mts_operator_id = text_option j ''operator_id'',
      mts_integration_ref = text_option j ''integration_ref'', mts_resource_kind = text_option j ''resource_kind'',
      mts_verb = text_option j ''verb'', mts_tier = nat_option j ''tier''\<rparr>"

definition read_anchor :: "json \<Rightarrow> trust_anchor_key_def" where
  "read_anchor a =
     \<lparr>tk_kid = text_field a ''kid'', tk_alg = text_field a ''alg'', tk_pk_hex = text_field a ''pk_hex'', tk_role = None\<rparr>"

definition severity_of_wire :: "string \<Rightarrow> severity" where
  "severity_of_wire s =
     (if s = ''low'' then Low else if s = ''medium'' then Medium else if s = ''high'' then High else Critical)"

definition rule_of_wire :: "string \<Rightarrow> firing_rule" where
  "rule_of_wire s =
     (if s = ''first-match'' then FirstMatch else if s = ''sequence-match'' then SequenceMatch else CumulativeOverBaseline)"

definition level_of_wire :: "string \<Rightarrow> severity_level" where
  "level_of_wire s =
     (if s = ''low'' then SevLow else if s = ''medium'' then SevMedium else if s = ''high'' then SevHigh else SevCritical)"

definition read_fire :: "json \<Rightarrow> anomaly_fire" where
  "read_fire j =
     \<lparr>af_pattern_id = text_field j ''pattern_id'', af_library_version = nat (int_field j ''library_version''),
      af_severity = severity_of_wire (text_field j ''severity''),
      af_firing_rule = rule_of_wire (text_field j ''firing_rule''), af_match_scope = read_scope (field j ''match_scope'')\<rparr>"

definition read_expected :: "json \<Rightarrow> json expected_outcome" where
  "read_expected j =
     \<lparr>exp_outcome = (if text_field j ''outcome'' = ''reject'' then Reject else Accept),
      exp_reject_code = text_option j ''reject_code'', exp_output = json_get j ''output''\<rparr>"

definition read_frame :: "json \<Rightarrow> json vector option" where
  "read_frame j =
     Some \<lparr>v_id = text_field j ''id'', v_category = text_field j ''category'', v_description = text_field j ''description'',
       v_input = field j ''input'', v_expected = read_expected (field j ''expected''),
       v_rationale = text_field j ''rationale'', v_redteam_refs = [''PHASE-C4-LIVE''],
       v_severity_if_failed = Some (level_of_wire (text_field j ''severity_if_failed''))\<rparr>"

lemmas field_defs = field_def text_field_def int_field_def list_field_def text_option_def nat_option_def json_nat_def

lemma outcome_of_wire [simp]: "outcome_of (outcome_wire x) = x"
  by (cases x) (simp_all add: outcome_of_def)

lemma severity_of_str [simp]: "severity_of_wire (severity_str x) = x"
  by (cases x) (simp_all add: severity_of_wire_def)

lemma rule_of_wire [simp]: "rule_of_wire (firing_rule_wire x) = x"
  by (cases x) (simp_all add: rule_of_wire_def)

lemma level_of_wire [simp]: "level_of_wire (level_wire x) = x"
  by (cases x) (simp_all add: level_of_wire_def)

lemma read_event_wire [simp]: "read_event (event_wire e) = e"
  by (simp add: read_event_def event_wire_def field_defs)

lemma read_template_wire [simp]: "read_template (template_wire te) = te"
  by (simp add: read_template_def template_wire_def field_defs)

lemma read_stream_wire [simp]: "read_stream (stream_wire st) = st"
  by (cases st) (simp_all add: read_stream_def list_field_def field_def text_field_def int_field_def json_nat_def
      comp_def Let_def)

lemma json_get_present_last: "json_get (JObject (present k wire v)) k' = (if k' = k then map_option wire v else None)"
  using json_get_present [of k wire v "[]"] by (simp split: option.split)

lemma read_scope_wire [simp]: "read_scope (scope_wire ms) = ms"
  unfolding read_scope_def scope_wire_def text_option_def nat_option_def json_get_present json_get_present_last
  by (cases ms) (simp split: option.split add: json_nat_def)

lemma read_fire_wire [simp]: "read_fire (JObject (fire_fields f)) = f"
  by (simp add: read_fire_def fire_fields_def field_def text_field_def int_field_def json_nat_def)

lemma read_expected_wire [simp]: "read_expected (expected_wire ex) = ex"
proof -
  have "json_get (expected_wire ex) ''outcome'' = Some (JString (case exp_outcome ex of Accept \<Rightarrow> ''accept'' | Reject \<Rightarrow> ''reject''))"
    "json_get (expected_wire ex) ''reject_code'' = map_option JString (exp_reject_code ex)"
    "json_get (expected_wire ex) ''output'' = exp_output ex"
    by (simp_all add: expected_wire_def present_def split: option.split)
  then show ?thesis
    by (cases ex) (simp add: read_expected_def text_field_def field_def text_option_def split: option.split outcome.split)
qed

definition stream_writer :: "anomaly_library_payload \<Rightarrow> string" where
  "stream_writer p = (if p = at_version 1 then [CHR 0x01] else [CHR 0x02])"

definition stream_reader :: "string \<Rightarrow> anomaly_library_payload option" where
  "stream_reader b =
     (if b = [CHR 0x01] then Some (at_version 1) else if b = [CHR 0x02] then Some (at_version 2) else None)"

definition stream_clocks :: "string \<Rightarrow> string + int" where
  "stream_clocks s =
     (if s = CURRENT_TIME then Inr 1777593600 else if s = DETECT_INITIAL_TIME then Inr 1777636800
      else if s = ''2026-05-01T13:00:00Z'' then Inr 1777640400 else Inl [])"

definition stream_kit ::
  "(json \<Rightarrow> string + detect_input) \<Rightarrow> (json \<Rightarrow> string + audit_input) \<Rightarrow> (json \<Rightarrow> string + anomaly_fire list) \<Rightarrow>
   (json \<Rightarrow> string + expected_record list) \<Rightarrow> (string, string) signer_kit" where
  "stream_kit detect audit fires records =
     \<lparr>kt_env =
        \<lparr>an_crypto = toy_crypto, an_decode_payload = stream_reader, an_rfc3339 = stream_clocks, an_hex_error = (\<lambda>s. s),
         an_debug_str = (\<lambda>s. s), an_library_input = toy_input, an_detect_input = detect, an_audit_input = audit,
         an_expected_fires = fires, an_expected_records = records\<rparr>,
      kt_public = (\<lambda>seed. seed), kt_sign = (\<lambda>seed m. seed @ m), kt_protected = (\<lambda>kid. kid), kt_to_vec = toy_to_vec,
      kt_into_writer = stream_writer, kt_hex_encode = (\<lambda>b. b), kt_vector_from_value = read_frame\<rparr>"

lemma stream_kit_simps [simp]:
  "an_crypto (kt_env (stream_kit d a f r)) = toy_crypto" "an_decode_payload (kt_env (stream_kit d a f r)) = stream_reader"
  "an_rfc3339 (kt_env (stream_kit d a f r)) = stream_clocks" "an_detect_input (kt_env (stream_kit d a f r)) = d"
  "an_audit_input (kt_env (stream_kit d a f r)) = a" "an_expected_fires (kt_env (stream_kit d a f r)) = f"
  "an_expected_records (kt_env (stream_kit d a f r)) = r"
  "kt_public (stream_kit d a f r) seed = seed" "kt_sign (stream_kit d a f r) seed m = seed @ m"
  "kt_to_vec (stream_kit d a f r) = toy_to_vec" "kt_into_writer (stream_kit d a f r) = stream_writer"
  "kt_hex_encode (stream_kit d a f r) b = b" "kt_vector_from_value (stream_kit d a f r) = read_frame"
  by (simp_all add: stream_kit_def)

lemma stream_kit_envelope:
  assumes "ver = 1 \<or> ver = 2"
  shows "envelope_laws (stream_kit d a f r) ver"
proof -
  have "unsigned_sign1 (stream_kit d a f r) = unsigned_sign1 toy_kit"
    by (simp add: fun_eq_iff unsigned_sign1_def stream_kit_def)
  then have "coset_laws (stream_kit d a f r)" using toy_coset by (simp add: coset_laws_def Let_def)
  moreover have "ed25519_laws (stream_kit d a f r)" "hex_laws (stream_kit d a f r)"
    by (simp_all add: ed25519_laws_def hex_laws_def toy_crypto_def)
  moreover have "at_version 1 \<noteq> at_version 2" by (simp add: at_version_def minimum_anomaly_library_payload_def)
  then have "payload_law (stream_kit d a f r) (at_version ver)"
    using assms by (auto simp: payload_law_def stream_reader_def stream_writer_def)
  moreover have "fits_cap (stream_kit d a f r) FIXTURE_ANOMALY_KID (stream_writer (at_version ver))"
    by (simp add: fits_cap_def sign_anomaly_library_envelope_raw_def create_signature_def unsigned_sign1_def toy_to_vec_def
        toy_crypto_def toy_payload_def MAX_ANOMALY_LIBRARY_BYTES_def ANOMALY_LIBRARY_AAD_def stream_writer_def
        FIXTURE_ANOMALY_KID_def)
  ultimately show ?thesis by (simp add: envelope_laws_def)
qed

lemma stream_kit_frame: "frame_law (stream_kit d a f r)"
  by (simp add: frame_law_def read_frame_def vector_frame_def field_def text_field_def)

lemma stream_kit_clocks: "clocks_law (stream_kit d a f r)"
  by (simp add: clocks_law_def stream_clocks_def CURRENT_TIME_def DETECT_INITIAL_TIME_def)

end
