(* ===== verification/Detect_Vectors_Correct.thy ===== *)
theory Detect_Vectors_Correct
  imports Stream_Vectors
begin

text \<open>
  The detect suite on its generated vectors: with the libraries behaving as documented, the executor gives every one of
  the fifteen vectors the answer the vector declares, down to the fires of each pattern.
\<close>

section \<open>Laws\<close>

definition detect_input_law :: "('pk, 'sig) signer_kit \<Rightarrow> bool" where
  "detect_input_law kit \<longleftrightarrow>
     (\<forall>hex streams. list_all stream_fits streams \<longrightarrow>
        an_detect_input (kt_env kit) (detect_input_json hex (detect_anchor_def kit) (map stream_wire streams)) =
        Inr \<lparr>ei_cose_hex = hex, ei_anchor_keys = [fixture_key kit], ei_abi = ANOMALY_LIBRARY_ABI_VERSION,
             ei_now = CURRENT_TIME, ei_pre_ledger = [], di_start = DETECT_INITIAL_TIME, di_streams = streams\<rparr>)"

definition fires_json :: "anomaly_fire list \<Rightarrow> json list" where
  "fires_json fs = map (\<lambda>f. JObject (fire_fields f)) fs"

definition fires_law :: "('pk, 'sig) signer_kit \<Rightarrow> bool" where
  "fires_law kit \<longleftrightarrow>
     (\<forall>fs. list_all fire_fits fs \<longrightarrow> an_expected_fires (kt_env kit) (JObject [(''fires'', JArray (fires_json fs))]) = Inr fs)"

definition detect_laws :: "('pk, 'sig) signer_kit \<Rightarrow> bool" where
  "detect_laws kit \<longleftrightarrow>
     envelope_laws kit 1 \<and> clocks_law kit \<and> frame_law kit \<and> detect_input_law kit \<and> fires_law kit"

definition detect_answered :: "('pk, 'sig) signer_kit \<Rightarrow> json \<Rightarrow> bool" where
  "detect_answered kit v \<longleftrightarrow>
     (case kt_vector_from_value kit v of None \<Rightarrow> False | Some vec \<Rightarrow> detect_execute (kt_env kit) vec = Pass)"

definition detects_as :: "('pk, 'sig) signer_kit \<Rightarrow> string \<Rightarrow> string \<Rightarrow> json \<Rightarrow> bool" where
  "detects_as kit i category v \<longleftrightarrow> detect_answered kit v \<and> vector_id v = Some i \<and> vector_category v = Some category"

section \<open>The executor on a built vector\<close>

definition detect_document :: "('pk, 'sig) signer_kit \<Rightarrow> audit_stream_input list \<Rightarrow> json" where
  "detect_document kit streams =
     detect_input_json (kt_hex_encode kit (sign_minimum_library_with_version kit 1)) (detect_anchor_def kit)
       (map stream_wire streams)"

lemma detect_opens:
  assumes "detect_laws kit" "list_all stream_fits streams" "v_input vec = detect_document kit streams"
  shows "detect_execute (kt_env kit) vec =
    (case detect_streams (kt_env kit) 0 streams (detector_new (library_at 1) 1777636800) [] of
       Inl refusal \<Rightarrow> stream_error_outcome (''anomaly-detect vector '' @ v_id vec) detect_wire_code vec refusal
     | Inr observed_fires \<Rightarrow> render_fires_outcome (kt_env kit) vec observed_fires)"
proof -
  let ?hex = "kt_hex_encode kit (sign_minimum_library_with_version kit 1)"
  let ?input = "\<lparr>ei_cose_hex = ?hex, ei_anchor_keys = [fixture_key kit], ei_abi = ANOMALY_LIBRARY_ABI_VERSION,
      ei_now = CURRENT_TIME, ei_pre_ledger = [], di_start = DETECT_INITIAL_TIME, di_streams = streams\<rparr>"
  have "an_detect_input (kt_env kit) (v_input vec) = Inr ?input"
    using assms by (simp add: detect_laws_def detect_input_law_def detect_document_def)
  moreover have "open_library (kt_env kit) (''anomaly-detect vector '' @ v_id vec) ?input = Inr (Inr (library_at 1))"
    by (rule minimum_opens) (use assms(1) in \<open>simp_all add: detect_laws_def\<close>)
  moreover have "parse_iso_seconds (kt_env kit) DETECT_INITIAL_TIME = Inr 1777636800"
    using assms(1) by (simp add: detect_laws_def clocks_law_def parse_iso_seconds_def)
  ultimately show ?thesis by (simp only: detect_execute_def Let_def sum.case detect_input.select_convs)
qed

lemma traced_observed:
  assumes "traced 1777636800 1 m bs expected"
  shows "\<exists>fs. detect_streams env 0 (map Literal bs) (detector_new (library_at 1) 1777636800) [] = Inr fs \<and> same_fires fs expected"
proof -
  have t: "in_i64 1777636800" by (simp add: in_i64_def arith_defs)
  note new = serves_new [OF t]
  obtain fs where fs: "detect_streams env 0 (map Literal bs) (detector_new (library_at 1) 1777636800) [] = Inr fs"
      "set (map af_pattern_id fs) \<subseteq> library_ids (library_at 1)"
      "\<forall>p \<in> set minimum_anomaly_library_patterns. fires_of p fs = pattern_trace 1 m p [] None (stamped 1777636800 bs)"
    using detect_streams_trace [where lib = "library_at 1" and m = m and n = 0 and bs = bs and env = env and idx = 0 and obs = "[]",
        OF library_at_plain new(1)] assms
    by (auto simp: traced_def new(2,3,4))
  have "map (\<lambda>p. fires_of p fs) minimum_anomaly_library_patterns = map (\<lambda>p. fires_of p expected) minimum_anomaly_library_patterns"
    using fs(3) assms by (simp add: traced_def)
  then have "same_fires fs expected"
    using fs(2) assms by (simp add: same_fires_def traced_def pattern_ids_def library_ids_def)
  with fs(1) show ?thesis by blast
qed

lemma stream_fits_literal: "list_all event_fits (concat bs) \<Longrightarrow> list_all stream_fits (map Literal bs)"
  by (induction bs) auto

lemma fire_vector_passes:
  assumes laws: "detect_laws kit" and feeds: "traced 1777636800 1 m bs expected" and nonempty: "expected \<noteq> []"
  shows "detects_as kit i category (detect_vector kit i category description rationale (map stream_wire (map Literal bs))
    (fires_json expected) (level_wire level))"
proof -
  let ?ex = "\<lparr>exp_outcome = Reject, exp_reject_code = Some ANOMALY_DETECTED_WIRE,
      exp_output = Some (JObject [(''fires'', JArray (fires_json expected))])\<rparr>"
  let ?vec = "\<lparr>v_id = i, v_category = category, v_description = description, v_input = detect_document kit (map Literal bs),
      v_expected = ?ex, v_rationale = rationale, v_redteam_refs = [''PHASE-C4-LIVE''], v_severity_if_failed = Some level\<rparr>"
  let ?v = "vector_frame i category description (detect_document kit (map Literal bs)) (expected_wire ?ex) rationale
      (level_wire level)"
  have "kt_vector_from_value kit ?v = Some ?vec" using laws by (simp add: detect_laws_def frame_law_def)
  moreover obtain fs where fs: "detect_streams (kt_env kit) 0 (map Literal bs) (detector_new (library_at 1) 1777636800) [] = Inr fs"
      "same_fires fs expected"
    using traced_observed [OF feeds] by blast
  have "fs \<noteq> []"
  proof
    assume "fs = []"
    then have "same_fires expected []" using fs(2) by (simp add: same_fires_def)
    then show False using nonempty same_fires_Nil by blast
  qed
  moreover have "an_expected_fires (kt_env kit) (JObject [(''fires'', JArray (fires_json expected))]) = Inr expected"
    using laws feeds by (simp add: detect_laws_def fires_law_def traced_def)
  moreover have "sort_key fire_sort_key fs = sort_key fire_sort_key expected"
    unfolding sort_key_eq_iff using fs(2) by (rule same_fires_keys)
  moreover have "list_all stream_fits (map Literal bs)" using feeds by (simp add: traced_def stream_fits_literal)
  ultimately have "detect_answered kit ?v"
    using fs(1)
    by (simp add: detect_answered_def detect_opens [OF laws] render_fires_outcome_def fires_match_outcome_def
        expected_code_of_def Let_def)
  moreover have "?v = detect_vector kit i category description rationale (map stream_wire (map Literal bs))
      (fires_json expected) (level_wire level)"
    by (simp add: detect_vector_def detect_document_def expected_wire_def present_def)
  ultimately show ?thesis by (simp add: detects_as_def vector_id_def vector_category_def vector_frame_def detect_vector_def)
qed

lemma accept_vector_passes:
  assumes laws: "detect_laws kit" and feeds: "traced 1777636800 1 m bs []"
  shows "detects_as kit i category (detect_accept_vector kit i category description rationale (map stream_wire (map Literal bs)))"
proof -
  let ?ex = "\<lparr>exp_outcome = Accept, exp_reject_code = None, exp_output = None\<rparr>"
  let ?vec = "\<lparr>v_id = i, v_category = category, v_description = description, v_input = detect_document kit (map Literal bs),
      v_expected = ?ex, v_rationale = rationale, v_redteam_refs = [''PHASE-C4-LIVE''], v_severity_if_failed = Some SevMedium\<rparr>"
  let ?v = "vector_frame i category description (detect_document kit (map Literal bs)) (expected_wire ?ex) rationale
      (level_wire SevMedium)"
  have "kt_vector_from_value kit ?v = Some ?vec"
    using laws unfolding detect_laws_def frame_law_def by blast
  moreover have "detect_streams (kt_env kit) 0 (map Literal bs) (detector_new (library_at 1) 1777636800) [] = Inr []"
    using traced_observed [OF feeds] same_fires_Nil by blast
  moreover have "list_all stream_fits (map Literal bs)" using feeds by (simp add: traced_def stream_fits_literal)
  ultimately have "detect_answered kit ?v"
    by (simp add: detect_answered_def detect_opens [OF laws] render_fires_outcome_def Let_def)
  moreover have "?v = detect_accept_vector kit i category description rationale (map stream_wire (map Literal bs))"
    by (simp add: detect_accept_vector_def detect_document_def expected_wire_def present_def)
  ultimately show ?thesis
    by (simp add: detects_as_def vector_id_def vector_category_def vector_frame_def detect_accept_vector_def)
qed

lemma reject_vector_passes:
  assumes laws: "detect_laws kit" and fits: "list_all stream_fits streams"
    and refused: "detect_streams (kt_env kit) 0 streams (detector_new (library_at 1) 1777636800) [] = Inl (idx, stage, err)"
  shows "detects_as kit i category
    (detect_reject_vector kit i category description rationale (map stream_wire streams) (detect_wire_code err))"
proof -
  let ?ex = "\<lparr>exp_outcome = Reject, exp_reject_code = Some (detect_wire_code err), exp_output = None\<rparr>"
  let ?vec = "\<lparr>v_id = i, v_category = category, v_description = description, v_input = detect_document kit streams,
      v_expected = ?ex, v_rationale = rationale, v_redteam_refs = [''PHASE-C4-LIVE''], v_severity_if_failed = Some SevHigh\<rparr>"
  let ?v = "vector_frame i category description (detect_document kit streams) (expected_wire ?ex) rationale (level_wire SevHigh)"
  have "kt_vector_from_value kit ?v = Some ?vec"
    using laws unfolding detect_laws_def frame_law_def by blast
  then have "detect_answered kit ?v"
    using refused by (simp add: detect_answered_def detect_opens [OF laws fits] stream_error_outcome_def expected_code_of_def Let_def)
  moreover have "?v = detect_reject_vector kit i category description rationale (map stream_wire streams) (detect_wire_code err)"
    by (simp add: detect_reject_vector_def detect_document_def expected_wire_def present_def)
  ultimately show ?thesis
    by (simp add: detects_as_def vector_id_def vector_category_def vector_frame_def detect_reject_vector_def)
qed

section \<open>The vectors\<close>

lemma fire_passes:
  assumes "detect_laws kit" "traced 1777636800 1 m bs expected" "expected \<noteq> []"
    "streams = map stream_wire (map Literal bs)" "fires = fires_json expected" "sev = level_wire level"
  shows "detects_as kit i category (detect_vector kit i category description rationale streams fires sev)"
  unfolding assms(4-6) by (rule fire_vector_passes [OF assms(1-3)])

lemma accept_passes:
  assumes "detect_laws kit" "traced 1777636800 1 m bs []" "streams = map stream_wire (map Literal bs)"
  shows "detects_as kit i category (detect_accept_vector kit i category description rationale streams)"
  unfolding assms(3) by (rule accept_vector_passes [OF assms(1,2)])

lemma reject_passes:
  assumes "detect_laws kit" "list_all stream_fits typed"
    "detect_streams (kt_env kit) 0 typed (detector_new (library_at 1) 1777636800) [] = Inl (idx, stage, err)"
    "streams = map stream_wire typed" "code = detect_wire_code err"
  shows "detects_as kit i category (detect_reject_vector kit i category description rationale streams code)"
  unfolding assms(4,5) by (rule reject_vector_passes [OF assms(1-3)])

lemmas wire_simps =
  canonical_wire literal_stream_def executed_at_def fires_json_def fire_fields_def expected_fire_def scoped_fire_def
  scope_wire_def present_def on_mandate_def match_scope_default_def match_scope_mandate_def show_digits upt_small

lemma adet_100_traced:
  "traced 1777636800 1 ''m-a100''
    (map (map (executed_at 1777636800 1 (\<lambda>i. ''e-'' @ show_nat i) ''m-a100'' 2 ''k8s'' ''delete'' ''pod'' (\<lambda>i. ''pod/foo''))) (batches_at 0 [4]))
    [scoped_fire 1 delete_storm_pattern (on_mandate ''m-a100''),
     scoped_fire 1 git_force_push_storm_pattern (on_mandate ''m-a100'')]"
  by (rule executed_traced [where n = 5 and fresh = False])
    (simp_all add: spaced_def fire_simps list_simps)

lemma adet_100:
  assumes "detect_laws kit"
  shows "detects_as kit ''adet-100'' ''anomaly-detect-delete-storm-basic'' (build_adet_100_delete_storm_basic kit)"
  unfolding build_adet_100_delete_storm_basic_def Let_def
  by (rule fire_passes [OF assms adet_100_traced, where level = SevHigh]) (simp_all add: wire_simps)

lemma adet_101_traced:
  "traced 1777636800 1 ''m-a101''
    (map (map (executed_at 1777636800 1 (\<lambda>i. ''e-'' @ show_nat i) ''m-a101'' 2 ''aws-iam'' ''attachrolepolicy'' ''role'' (\<lambda>i. ''role/admin''))) (batches_at 0 [4]))
    [scoped_fire 1 iam_attach_policy_storm_pattern (on_mandate ''m-a101''),
     scoped_fire 1 git_force_push_storm_pattern (on_mandate ''m-a101'')]"
  by (rule executed_traced [where n = 5 and fresh = False])
    (simp_all add: spaced_def fire_simps list_simps)

lemma adet_101:
  assumes "detect_laws kit"
  shows "detects_as kit ''adet-101'' ''anomaly-detect-iam-attach-storm'' (build_adet_101_iam_attach_storm kit)"
  unfolding build_adet_101_iam_attach_storm_def Let_def
  by (rule fire_passes [OF assms adet_101_traced, where level = SevHigh]) (simp_all add: wire_simps)

lemma adet_102_traced:
  "traced 1777636800 1 ''m-a102''
    (map (map (executed_at 1777636800 1 (\<lambda>i. ''e-'' @ show_nat i) ''m-a102'' 2 ''vault'' ''rotate'' ''vault-secret'' (\<lambda>i. ''secret/prod/db-key''))) (batches_at 0 [2]))
    [scoped_fire 1 vault_rotate_storm_pattern ((on_mandate ''m-a102'')\<lparr>mts_verb := Some ''rotate'', mts_resource_kind := Some ''vault-secret''\<rparr>),
     scoped_fire 1 git_force_push_storm_pattern (on_mandate ''m-a102'')]"
  by (rule executed_traced [where n = 3 and fresh = False])
    (simp_all add: spaced_def fire_simps list_simps)

lemma adet_102:
  assumes "detect_laws kit"
  shows "detects_as kit ''adet-102'' ''anomaly-detect-vault-rotate-storm'' (build_adet_102_vault_rotate_storm kit)"
  unfolding build_adet_102_vault_rotate_storm_def Let_def
  by (rule fire_passes [OF assms adet_102_traced, where level = SevHigh]) (simp_all add: wire_simps)

lemma adet_103_traced:
  "traced 1777636800 1 ''m-a103''
    (map (map (executed_at 1777636800 1 (\<lambda>i. ''e-'' @ show_nat i) ''m-a103'' 0 ''github'' ''get'' ''repo'' (\<lambda>i. ''org/app''))) (batches_at 0 [2]))
    [scoped_fire 1 git_force_push_storm_pattern (on_mandate ''m-a103'')]"
  by (rule executed_traced [where n = 3 and fresh = False])
    (simp_all add: spaced_def fire_simps list_simps)

lemma adet_103:
  assumes "detect_laws kit"
  shows "detects_as kit ''adet-103'' ''anomaly-detect-gfp-only-isolation'' (build_adet_103_gfp_only kit)"
  unfolding build_adet_103_gfp_only_def Let_def
  by (rule fire_passes [OF assms adet_103_traced, where level = SevHigh]) (simp_all add: wire_simps)

lemma adet_104_traced:
  "traced 1777636800 1 ''m-a104''
    (map (map (executed_at 1777636800 1 (\<lambda>i. ''e-'' @ show_nat i) ''m-a104'' 0 ''k8s'' ''delete'' ''pod'' (\<lambda>i. ''pod/n-'' @ show_nat i))) (batches_at 0 [9]))
    [scoped_fire 1 delete_storm_pattern (on_mandate ''m-a104''),
     scoped_fire 1 git_force_push_storm_pattern (on_mandate ''m-a104''),
     scoped_fire 1 git_force_push_slow_burn_pattern (on_mandate ''m-a104''),
     scoped_fire 1 fanout_distinct_resources_pattern ((on_mandate ''m-a104'')\<lparr>mts_verb := Some ''delete''\<rparr>)]"
  by (rule executed_traced [where n = 10 and fresh = True])
    (simp_all add: spaced_def fire_simps list_simps inj_on_def show_nat_inj)

lemma adet_104:
  assumes "detect_laws kit"
  shows "detects_as kit ''adet-104'' ''anomaly-detect-fanout-distinct-and-slow-burn'' (build_adet_104_fanout_and_slow_burn kit)"
  unfolding build_adet_104_fanout_and_slow_burn_def Let_def
  by (rule fire_passes [OF assms adet_104_traced, where level = SevHigh]) (simp_all add: wire_simps)

lemma adet_105_traced:
  "traced 1777636800 1 ''m-a105''
    (map (map (\<lambda>i. executed (''e-'' @ show_nat i) ''m-a105'' (1777636800 + int i) ([0, 2, 3] ! i) ''config'' ''get'' ''config''
      ([''cfg/a'', ''cfg/b'', ''cfg/c''] ! i))) (batches_at 0 [2]))
    [scoped_fire 1 cross_tier_escalation_pattern (on_mandate ''m-a105''),
     scoped_fire 1 git_force_push_storm_pattern (on_mandate ''m-a105'')]"
  by (rule climbing_traced [where kind = "''config''"])
    (simp_all add: stream_ok_def steady_def climbing_def all_of_def)

lemma adet_105:
  assumes "detect_laws kit"
  shows "detects_as kit ''adet-105'' ''anomaly-detect-cross-tier-escalation'' (build_adet_105_cross_tier_escalation kit)"
  unfolding build_adet_105_cross_tier_escalation_def Let_def
  by (rule fire_passes [OF assms adet_105_traced, where level = SevCritical]) (simp_all add: wire_simps)

lemma adet_106_traced:
  "traced 1777636800 1 ''m-a106''
    (map (map (executed_at 1777636800 30 (\<lambda>i. ''e-'' @ show_nat i) ''m-a106'' 0 ''k8s'' ''delete'' ''pod'' (\<lambda>i. ''pod/n-0''))) (batches_at 0 [19]))
    [scoped_fire 1 delete_slow_burn_pattern (on_mandate ''m-a106''),
     scoped_fire 1 git_force_push_storm_pattern (on_mandate ''m-a106''),
     scoped_fire 1 git_force_push_slow_burn_pattern (on_mandate ''m-a106'')]"
  by (rule executed_traced [where n = 20 and fresh = False])
    (simp_all add: spaced_def fire_simps list_simps)

lemma adet_106:
  assumes "detect_laws kit"
  shows "detects_as kit ''adet-106'' ''anomaly-detect-delete-walk-under-slow-burn'' (build_adet_106_delete_walk_under_slow_burn kit)"
  unfolding build_adet_106_delete_walk_under_slow_burn_def Let_def
  by (rule fire_passes [OF assms adet_106_traced, where level = SevHigh]) (simp_all add: wire_simps mult.commute)

lemma adet_107_traced:
  "traced 1777636800 1 ''m-a107''
    (map (map (executed_at 1777636800 150 (\<lambda>i. ''e-'' @ show_nat i) ''m-a107'' 0 ''aws-iam'' ''attachrolepolicy'' ''role'' (\<lambda>i. ''role/admin''))) (batches_at 0 [19]))
    [scoped_fire 1 iam_attach_slow_burn_pattern (on_mandate ''m-a107''),
     scoped_fire 1 git_force_push_storm_pattern (on_mandate ''m-a107''),
     scoped_fire 1 git_force_push_slow_burn_pattern (on_mandate ''m-a107'')]"
  by (rule executed_traced [where n = 20 and fresh = False])
    (simp_all add: spaced_def fire_simps list_simps)

lemma adet_107:
  assumes "detect_laws kit"
  shows "detects_as kit ''adet-107'' ''anomaly-detect-iam-walk-under-slow-burn'' (build_adet_107_iam_walk_under_slow_burn kit)"
  unfolding build_adet_107_iam_walk_under_slow_burn_def Let_def
  by (rule fire_passes [OF assms adet_107_traced, where level = SevHigh]) (simp_all add: wire_simps mult.commute)

lemma adet_108_traced:
  "traced 1777636800 1 ''m-a108''
    (map (map (executed_at 1777636800 1 (\<lambda>i. if i < 5 then ''e1-'' @ show_nat i else ''e2-'' @ show_nat (i - 5)) ''m-a108'' 2 ''k8s'' ''delete'' ''pod'' (\<lambda>i. ''pod/foo''))) (batches_at 0 [4, 7]))
    [scoped_fire 1 delete_storm_pattern (on_mandate ''m-a108''),
     scoped_fire 1 git_force_push_storm_pattern (on_mandate ''m-a108'')]"
  by (rule executed_traced [where n = 8 and fresh = False])
    (simp_all add: spaced_def fire_simps list_simps)

lemma adet_108:
  assumes "detect_laws kit"
  shows "detects_as kit ''adet-108'' ''anomaly-detect-fire-once-dedup-across-streams'' (build_adet_108_fire_once_dedup_across_streams kit)"
  unfolding build_adet_108_fire_once_dedup_across_streams_def Let_def
  by (rule fire_passes [OF assms adet_108_traced, where level = SevHigh]) (simp_all add: wire_simps)

lemma adet_109:
  assumes "detect_laws kit"
  shows "detects_as kit ''adet-109'' ''anomaly-detect-empty-stream'' (build_adet_109_empty_stream kit)"
proof -
  have "pattern_trace 1 m p [] None (stamped t [[]]) = []" for m p t by (rule pattern_trace_unmatched) auto
  then have "traced 1777636800 1 [] [[]] []" by (simp add: traced_def)
  then show ?thesis
    unfolding build_adet_109_empty_stream_def Let_def by (rule accept_passes [OF assms]) (simp add: literal_stream_def)
qed

lemma adet_110_traced:
  "traced 1777636800 1 ''m-a110''
    (map (map (executed_at 1777636800 1 (\<lambda>i. ''e-'' @ show_nat i) ''m-a110'' 0 ''github'' ''get'' ''repo'' (\<lambda>i. ''org/x''))) (batches_at 0 [1]))
    []"
  by (rule executed_traced [where n = 2 and fresh = False])
    (simp_all add: spaced_def fire_simps list_simps)

lemma adet_110:
  assumes "detect_laws kit"
  shows "detects_as kit ''adet-110'' ''anomaly-detect-below-all-thresholds'' (build_adet_110_below_threshold kit)"
  unfolding build_adet_110_below_threshold_def Let_def
  by (rule accept_passes [OF assms adet_110_traced]) (simp add: wire_simps)

lemma adet_111_traced:
  "traced 1777636800 1 ''m-a111''
    (map (map (executed_at 1777636800 1 (\<lambda>i. ''e-'' @ show_nat i) ''m-a111'' 1 ''k8s'' ''patch'' ''configmap'' (\<lambda>i. ''cm/foo''))) (batches_at 0 [49]))
    [scoped_fire 1 git_force_push_storm_pattern (on_mandate ''m-a111''),
     scoped_fire 1 git_force_push_slow_burn_pattern (on_mandate ''m-a111''),
     scoped_fire 1 machine_pace_pattern ((on_mandate ''m-a111'')\<lparr>mts_tier := Some 1\<rparr>),
     scoped_fire 1 long_silence_before_burst_pattern (on_mandate ''m-a111'')]"
  by (rule executed_traced [where n = 50 and fresh = False])
    (simp_all add: spaced_def fire_simps list_simps)

lemma adet_111:
  assumes "detect_laws kit"
  shows "detects_as kit ''adet-111'' ''anomaly-detect-machine-pace-and-silence-burst'' (build_adet_111_machine_pace_and_silence_burst kit)"
  unfolding build_adet_111_machine_pace_and_silence_burst_def Let_def
  by (rule fire_passes [OF assms adet_111_traced, where level = SevHigh]) (simp_all add: wire_simps)

lemma detect_events_append:
  "detect_events s (xs @ ys) = (case detect_events s xs of Inl e \<Rightarrow> Inl e | Inr s' \<Rightarrow> detect_events s' ys)"
  by (induction xs arbitrary: s) (auto split: sum.split prod.split)

lemma adet_112:
  assumes "detect_laws kit"
  shows "detects_as kit ''adet-112'' ''anomaly-detect-clock-regression'' (build_adet_112_clock_regression kit)"
proof -
  let ?e1 = "executed ''e-forward'' ''m-a112'' (1777636800 + 100) 2 ''k8s'' ''delete'' ''pod'' ''pod/foo''"
  let ?e2 = "executed ''e-regress'' ''m-a112'' (1777636800 + 50) 2 ''k8s'' ''delete'' ''pod'' ''pod/foo''"
  let ?s = "detector_new (library_at 1) 1777636800"
  have t: "in_i64 1777636800" by (simp add: in_i64_def arith_defs)
  have "well_timed ''m-a112'' (current_time ?s) [?e1]" by (simp add: serves_new(4) [OF t] in_i64_def arith_defs)
  from feed_events [OF library_at_plain serves_new(1) [OF t] _ this]
  obtain s1 where s1: "detect_events ?s [?e1] = Inr s1" "current_time s1 = 1777636900"
    by (auto simp: serves_new(4) [OF t])
  have "detect_events ?s ([?e1] @ [?e2]) = Inl (''advance_clock'', ClockRegression 1777636900 1777636850)"
    unfolding detect_events_append s1(1) by (simp add: advance_clock_def s1(2))
  then have "detect_streams (kt_env kit) 0 [Literal [?e1, ?e2]] ?s [] =
      Inl (0, ''advance_clock'', ClockRegression 1777636900 1777636850)"
    by simp
  then show ?thesis
    unfolding build_adet_112_clock_regression_def Let_def
    by (rule reject_passes [OF assms, rotated])
      (simp_all add: wire_simps detect_wire_code_def event_fits_def in_i64_def arith_defs)
qed

lemma adet_113:
  assumes "detect_laws kit"
  shows "detects_as kit ''adet-113'' ''anomaly-detect-pattern-description-count-zero''
    (build_adet_113_pattern_description_count_zero kit)"
proof -
  let ?pd = "burst_description ''m-a113'' DETECT_INITIAL_TIME 0 0"
  have "detect_streams (kt_env kit) 0 [PatternDescription ?pd] (detector_new (library_at 1) 1777636800) [] =
      Inl (0, ''normalize'', PatternDescriptionCountZero)"
    using assms by (simp add: burst_refused detect_laws_def del: One_nat_def)
  then show ?thesis
    unfolding build_adet_113_pattern_description_count_zero_def Let_def
    by (rule reject_passes [OF assms, rotated])
      (simp_all add: burst_description_def template_event_json_def template_wire_def detect_wire_code_def)
qed

lemma adet_114:
  assumes "detect_laws kit"
  shows "detects_as kit ''adet-114'' ''anomaly-detect-timestamp-parse-failed'' (build_adet_114_timestamp_parse_failed kit)"
proof -
  let ?pd = "burst_description ''m-a114'' ''not-a-real-iso-timestamp'' 3 1"
  have "detect_streams (kt_env kit) 0 [PatternDescription ?pd] (detector_new (library_at 1) 1777636800) [] =
      Inl (0, ''normalize'', TimestampParseFailed RFC3339_PARSE_REASON)"
    using assms by (simp add: burst_refused detect_laws_def del: One_nat_def)
  then show ?thesis
    unfolding build_adet_114_timestamp_parse_failed_def Let_def
    by (rule reject_passes [OF assms, rotated])
      (simp_all add: burst_description_def template_event_json_def template_wire_def detect_wire_code_def)
qed

section \<open>All of them\<close>

definition adet_ids :: "string list" where
  "adet_ids = map (\<lambda>n. ''adet-'' @ show_nat n) [100..<115]"

lemma adet_ids_eq:
  "adet_ids =
     [''adet-100'', ''adet-101'', ''adet-102'', ''adet-103'', ''adet-104'',
      ''adet-105'', ''adet-106'', ''adet-107'', ''adet-108'', ''adet-109'',
      ''adet-110'', ''adet-111'', ''adet-112'', ''adet-113'', ''adet-114'']"
  by code_simp

lemma detect_coverage:
  "coverage_keys build_c4_detect_envelope =
     [''anomaly-detect-delete-storm-basic'',
      ''anomaly-detect-iam-attach-storm'',
      ''anomaly-detect-vault-rotate-storm'',
      ''anomaly-detect-gfp-only-isolation'',
      ''anomaly-detect-fanout-distinct-and-slow-burn'',
      ''anomaly-detect-cross-tier-escalation'',
      ''anomaly-detect-delete-walk-under-slow-burn'',
      ''anomaly-detect-iam-walk-under-slow-burn'',
      ''anomaly-detect-fire-once-dedup-across-streams'',
      ''anomaly-detect-empty-stream'',
      ''anomaly-detect-below-all-thresholds'',
      ''anomaly-detect-machine-pace-and-silence-burst'',
      ''anomaly-detect-clock-regression'',
      ''anomaly-detect-pattern-description-count-zero'',
      ''anomaly-detect-timestamp-parse-failed'']"
  by (simp add: coverage_keys_def build_c4_detect_envelope_def)

lemmas detect_vectors_answered = adet_100 adet_101 adet_102 adet_103 adet_104 adet_105 adet_106 adet_107 adet_108 adet_109 adet_110 adet_111 adet_112 adet_113 adet_114

lemma those_detected:
  "list_all2 (\<lambda>v ic. detects_as kit (fst ic) (snd ic) v) vs (zip ids cs) \<Longrightarrow> length ids = length cs \<Longrightarrow>
     list_all (detect_answered kit) vs \<and> map vector_id vs = map Some ids \<and> map vector_category vs = map Some cs"
proof (induction vs arbitrary: ids cs)
  case (Cons v vs)
  then show ?case by (cases ids; cases cs) (auto simp: detects_as_def)
qed auto

lemma all_detected:
  assumes "detect_laws kit"
  shows "list_all (detect_answered kit) (build_all_detect kit) \<and>
     map vector_id (build_all_detect kit) = map Some adet_ids \<and>
     map vector_category (build_all_detect kit) = map Some (coverage_keys build_c4_detect_envelope)"
proof (rule those_detected)
  show "list_all2 (\<lambda>v ic. detects_as kit (fst ic) (snd ic) v) (build_all_detect kit)
      (zip adet_ids (coverage_keys build_c4_detect_envelope))"
    unfolding build_all_detect_def adet_ids_eq detect_coverage zip_Cons_Cons zip.simps(1) list_all2_Cons list_all2_Nil
      fst_conv snd_conv
    by (intro conjI refl detect_vectors_answered [OF assms])
qed (simp add: adet_ids_eq detect_coverage)

section \<open>A toolkit that keeps the laws\<close>

definition read_detect_input :: "json \<Rightarrow> string + detect_input" where
  "read_detect_input j =
     Inr \<lparr>ei_cose_hex = text_field j ''cose_sign1_bytes_anomaly_library'',
       ei_anchor_keys = map read_anchor (list_field j ''trust_anchor_keys_anomaly_library''),
       ei_abi = nat (int_field j ''expected_abi_version''), ei_now = text_field j ''current_time'', ei_pre_ledger = [],
       di_start = text_field j ''initial_time'', di_streams = map read_stream (list_field j ''streams'')\<rparr>"

definition read_fires :: "json \<Rightarrow> string + anomaly_fire list" where
  "read_fires j = Inr (map read_fire (list_field j ''fires''))"

definition detect_kit :: "(string, string) signer_kit" where
  "detect_kit = stream_kit read_detect_input (\<lambda>_. Inl []) read_fires (\<lambda>_. Inl [])"

lemma detect_kit_laws: "detect_laws detect_kit"
proof -
  have "detect_input_law detect_kit"
    by (simp add: detect_input_law_def detect_kit_def read_detect_input_def read_anchor_def detect_input_json_def
        detect_anchor_def_def field_defs fixture_key_def comp_def)
  moreover have "fires_law detect_kit"
    by (simp add: fires_law_def detect_kit_def read_fires_def fires_json_def list_field_def field_def comp_def)
  ultimately show ?thesis
    by (simp add: detect_laws_def detect_kit_def stream_kit_envelope stream_kit_clocks stream_kit_frame)
qed

section \<open>The property\<close>

text \<open>C13: the fifteen detect vectors the signer generates pass. Whenever the libraries behave as documented, each vector
  is read back and the detect executor answers Pass on it: the envelope opens, the detector run over the streams makes
  exactly the declared fires (or is refused with the declared code), down to pattern, version, severity and scope. The
  ids are adet-100 to adet-114 in order and the categories are the coverage list of the phase's envelope.
\<close>
theorem detect_vectors_pass:
  assumes "detect_laws kit"
  shows "list_all (detect_answered kit) (build_all_detect kit) \<and>
     map vector_id (build_all_detect kit) = map Some adet_ids \<and>
     map vector_category (build_all_detect kit) = map Some (coverage_keys build_c4_detect_envelope)"
  by (rule all_detected [OF assms])

lemma detect_vectors_pass_witness:
  "list_all (detect_answered detect_kit) (build_all_detect detect_kit) \<and>
     map vector_id (build_all_detect detect_kit) = map Some adet_ids \<and>
     map vector_category (build_all_detect detect_kit) = map Some (coverage_keys build_c4_detect_envelope)"
  by (rule detect_vectors_pass [OF detect_kit_laws])

end
