(* ===== verification/Audit_Vectors.thy ===== *)
theory Audit_Vectors
  imports Library_Vectors "HOL-Library.AList"
begin

text \<open>
  \<open>tools/vector-signer/src/phase_c4_audit.rs\<close> and its submodules: the seventeen vectors of the audit-replay suite,
  arep-100 to arep-116, built as the generator builds them - tenant streams as JSON, the signed minimum library, the
  records a vector expects, the rotation of three of them - and \<open>build_all\<close>, which lists them.  Helpers that
  \<open>phase_c4_detect.rs\<close> has under the same name carry a prefix here.
\<close>

section \<open>Constants and helpers\<close>

definition AUDIT_INITIAL_TIME :: string where "AUDIT_INITIAL_TIME = ''2026-05-01T12:00:00Z''"

definition AUDIT_INITIAL_TIME_UNIX :: int where "AUDIT_INITIAL_TIME_UNIX = 1777636800"

definition ROTATE_INITIAL_TIME :: string where "ROTATE_INITIAL_TIME = ''2026-05-01T13:00:00Z''"

definition ROTATE_INITIAL_TIME_UNIX :: int where "ROTATE_INITIAL_TIME_UNIX = AUDIT_INITIAL_TIME_UNIX + 3600"

definition AGGREGATION_WIRE :: string where "AGGREGATION_WIRE = ''aggregation-pattern-detected''"

definition audit_event_named ::
  "string \<Rightarrow> string \<Rightarrow> int \<Rightarrow> nat \<Rightarrow> string \<Rightarrow> string \<Rightarrow> string \<Rightarrow> string \<Rightarrow> json" where
  "audit_event_named eid mandate_id offset_seconds tier integration verb resource_kind resource_ref =
     JObject
       [(''event_id'', JString eid),
        (''timestamp'', JNumber (NInt (AUDIT_INITIAL_TIME_UNIX + offset_seconds))),
        (''mandate_id'', JString mandate_id),
        (''tier'', json_nat tier),
        (''integration'', JString integration),
        (''verb'', JString verb),
        (''resource_kind'', JString resource_kind),
        (''resource_ref'', JString resource_ref),
        (''outcome'', JString ''executed'')]"

definition audit_delete_event :: "string \<Rightarrow> string \<Rightarrow> int \<Rightarrow> nat \<Rightarrow> string \<Rightarrow> string \<Rightarrow> json" where
  "audit_delete_event eid mandate_id offset_seconds tier resource_kind resource_ref =
     audit_event_named eid mandate_id offset_seconds tier ''k8s'' ''delete'' resource_kind resource_ref"

definition canonical_event_post_rotation ::
  "string \<Rightarrow> string \<Rightarrow> int \<Rightarrow> nat \<Rightarrow> string \<Rightarrow> string \<Rightarrow> string \<Rightarrow> string \<Rightarrow> json" where
  "canonical_event_post_rotation eid mandate_id offset_seconds tier integration verb resource_kind resource_ref =
     JObject
       [(''event_id'', JString eid),
        (''timestamp'', JNumber (NInt (ROTATE_INITIAL_TIME_UNIX + offset_seconds))),
        (''mandate_id'', JString mandate_id),
        (''tier'', json_nat tier),
        (''integration'', JString integration),
        (''verb'', JString verb),
        (''resource_kind'', JString resource_kind),
        (''resource_ref'', JString resource_ref),
        (''outcome'', JString ''executed'')]"

definition audit_literal_stream :: "json list \<Rightarrow> json" where
  "audit_literal_stream events = JObject [(''literal'', JObject [(''events'', JArray events)])]"

definition literal_post_rotation_stream :: "json list \<Rightarrow> json" where
  "literal_post_rotation_stream events = audit_literal_stream events"

definition audit_template_event :: "string \<Rightarrow> nat \<Rightarrow> string \<Rightarrow> string \<Rightarrow> json" where
  "audit_template_event mandate_id tier resource_kind verb =
     JObject
       [(''mandate_id'', JString mandate_id),
        (''tier'', json_nat tier),
        (''integration'', JString ''k8s''),
        (''verb'', JString verb),
        (''resource_kind'', JString resource_kind),
        (''outcome'', JString ''executed'')]"

definition tenant_stream :: "string \<Rightarrow> json \<Rightarrow> json" where
  "tenant_stream tid stream = JObject [(''tenant_id'', JString tid), (''stream'', stream)]"

definition scope_mandate :: "string \<Rightarrow> json" where
  "scope_mandate mandate_id = JObject [(''mandate_id'', JString mandate_id)]"

definition scope_mandate_verb :: "string \<Rightarrow> string \<Rightarrow> json" where
  "scope_mandate_verb mandate_id verb = JObject [(''mandate_id'', JString mandate_id), (''verb'', JString verb)]"

definition scope_mandate_tier :: "string \<Rightarrow> nat \<Rightarrow> json" where
  "scope_mandate_tier mandate_id tier = JObject [(''mandate_id'', JString mandate_id), (''tier'', json_nat tier)]"

definition scope_mandate_verb_kind :: "string \<Rightarrow> string \<Rightarrow> string \<Rightarrow> json" where
  "scope_mandate_verb_kind mandate_id verb resource_kind =
     JObject
       [(''mandate_id'', JString mandate_id), (''verb'', JString verb), (''resource_kind'', JString resource_kind)]"

definition expected_record_v :: "string \<Rightarrow> string \<Rightarrow> nat \<Rightarrow> string \<Rightarrow> string \<Rightarrow> json \<Rightarrow> json" where
  "expected_record_v tid pid version severity firing_rule match_scope =
     JObject
       [(''tenant_id'', JString tid),
        (''pattern_id'', JString pid),
        (''library_version'', json_nat version),
        (''severity'', JString severity),
        (''firing_rule'', JString firing_rule),
        (''match_scope'', match_scope)]"

definition expected_record_json :: "string \<Rightarrow> string \<Rightarrow> string \<Rightarrow> string \<Rightarrow> json \<Rightarrow> json" where
  "expected_record_json tid pid severity firing_rule match_scope =
     expected_record_v tid pid 1 severity firing_rule match_scope"

definition audit_anchor_def :: "('pk, 'sig) signer_kit \<Rightarrow> json" where
  "audit_anchor_def kit =
     JArray
       [JObject
         [(''kid'', JString FIXTURE_ANOMALY_KID), (''alg'', JString ''ed25519''),
          (''pk_hex'', JString (kt_hex_encode kit (fixture_anomaly_verifying_key_bytes kit)))]]"

section \<open>Assembling a vector\<close>

text \<open>The input block and the frame the three assemblers write out alike.\<close>

definition audit_input_json :: "string \<Rightarrow> json \<Rightarrow> json list \<Rightarrow> json" where
  "audit_input_json cose_hex anchors streams =
     JObject
       [(''cose_sign1_bytes_anomaly_library'', JString cose_hex),
        (''trust_anchor_keys_anomaly_library'', anchors),
        (''expected_abi_version'', json_nat ANOMALY_LIBRARY_ABI_VERSION),
        (''current_time'', JString CURRENT_TIME),
        (''initial_time'', JString AUDIT_INITIAL_TIME),
        (''tenant_streams'', JArray streams)]"

definition audit_frame :: "string \<Rightarrow> string \<Rightarrow> string \<Rightarrow> json \<Rightarrow> json \<Rightarrow> string \<Rightarrow> string \<Rightarrow> json" where
  "audit_frame i category description input expected rationale sev =
     JObject
       [(''id'', JString i), (''category'', JString category), (''description'', JString description),
        (''input'', input), (''expected'', expected), (''rationale'', JString rationale),
        (''redteam_refs'', JArray [JString ''PHASE-C4-LIVE'']), (''severity_if_failed'', JString sev)]"

definition audit_vector ::
  "('pk, 'sig) signer_kit \<Rightarrow> string \<Rightarrow> string \<Rightarrow> string \<Rightarrow> string \<Rightarrow> json list \<Rightarrow> json list \<Rightarrow> string \<Rightarrow> json" where
  "audit_vector kit i category description rationale streams records sev =
     (let env = sign_minimum_library_with_version kit 1 in
      audit_frame i category description
        (audit_input_json (kt_hex_encode kit env) (audit_anchor_def kit) streams)
        (JObject
          [(''outcome'', JString ''reject''), (''reject_code'', JString AGGREGATION_WIRE),
           (''output'', JObject [(''records'', JArray records)])])
        rationale sev)"

definition audit_accept_vector ::
  "('pk, 'sig) signer_kit \<Rightarrow> string \<Rightarrow> string \<Rightarrow> string \<Rightarrow> string \<Rightarrow> json list \<Rightarrow> json" where
  "audit_accept_vector kit i category description rationale streams =
     (let env = sign_minimum_library_with_version kit 1 in
      audit_frame i category description
        (audit_input_json (kt_hex_encode kit env) (audit_anchor_def kit) streams)
        (JObject [(''outcome'', JString ''accept'')])
        rationale ''medium'')"

definition audit_reject_vector ::
  "('pk, 'sig) signer_kit \<Rightarrow> string \<Rightarrow> string \<Rightarrow> string \<Rightarrow> string \<Rightarrow> json list \<Rightarrow> string \<Rightarrow> json" where
  "audit_reject_vector kit i category description rationale streams reject_code =
     (let env = sign_minimum_library_with_version kit 1 in
      audit_frame i category description
        (audit_input_json (kt_hex_encode kit env) (audit_anchor_def kit) streams)
        (JObject [(''outcome'', JString ''reject''), (''reject_code'', JString reject_code)])
        rationale ''high'')"

text \<open>
  \<open>vector["input"]["rotate_library"] = rotation\<close>: indexing an object by a key it lacks makes the entry, indexing null
  makes an object, indexing anything else panics (None).
\<close>

fun json_index_put :: "json \<Rightarrow> string \<Rightarrow> (json \<Rightarrow> json option) \<Rightarrow> json option" where
  "json_index_put (JObject kvs) k f =
     map_option (\<lambda>j. JObject (AList.update k j kvs)) (f (case map_of kvs k of Some j \<Rightarrow> j | None \<Rightarrow> JNull))"
| "json_index_put JNull k f = map_option (\<lambda>j. JObject [(k, j)]) (f JNull)"
| "json_index_put _ k f = None"

definition attach_rotation :: "('pk, 'sig) signer_kit \<Rightarrow> json \<Rightarrow> nat \<Rightarrow> json option" where
  "attach_rotation kit vector after_stream_idx =
     (let env = sign_minimum_library_with_version kit 2;
          rot = JObject
            [(''after_tenant_stream_idx'', json_nat after_stream_idx),
             (''cose_sign1_bytes_anomaly_library'', JString (kt_hex_encode kit env)),
             (''new_initial_time'', JString ROTATE_INITIAL_TIME),
             (''expected_abi_version'', json_nat ANOMALY_LIBRARY_ABI_VERSION)]
      in json_index_put vector ''input'' (\<lambda>input. json_index_put input ''rotate_library'' (\<lambda>_. Some rot)))"

section \<open>The vectors\<close>

definition build_arep_100_single_tenant_baseline :: "('pk, 'sig) signer_kit \<Rightarrow> json" where
  "build_arep_100_single_tenant_baseline kit =
    (let stream = audit_literal_stream
        [audit_delete_event ''e-0'' ''m-a100'' 0 2 ''pod'' ''pod/foo'',
         audit_delete_event ''e-1'' ''m-a100'' 1 2 ''pod'' ''pod/foo'',
         audit_delete_event ''e-2'' ''m-a100'' 2 2 ''pod'' ''pod/foo'',
         audit_delete_event ''e-3'' ''m-a100'' 3 2 ''pod'' ''pod/foo'',
         audit_delete_event ''e-4'' ''m-a100'' 4 2 ''pod'' ''pod/foo'']
     in audit_vector kit ''arep-100'' ''audit-replay-single-tenant-baseline''
       (''Single tenant `t-a` receives five delete events on pod/foo at tier 2. Fires delete-storm (FirstMatch'' @
        ''/Count'' @ [CHR 0xE2, CHR 0x89, CHR 0xA5] @
        ''5 in 60s) and co-fires git-force-push-storm (ProtectedBranches wildcard). Baseline proving the orche'' @
        ''strator emits identical fires to a single-tenant DetectorState when only one tenant is registered.'')
       (''design-final.md '' @ [CHR 0xC2, CHR 0xA7] @
        ''3.5.3 MINIMUM + orchestrator dispatch transparency: registering one tenant through AuditOrchestrator'' @
        '' MUST produce the same firing multiset a bare DetectorState produces on the same stream (per '' @
        [CHR 0xC2, CHR 0xA7] @ ''11.2 attribution).'')
       [tenant_stream ''t-a'' stream]
       [expected_record_json ''t-a'' ''delete-storm'' ''high'' ''first-match'' (scope_mandate ''m-a100''),
        expected_record_json ''t-a'' ''git-force-push-storm'' ''high'' ''first-match'' (scope_mandate ''m-a100'')]
       ''high'')"

definition build_arep_101_two_tenants_only_a_fires :: "('pk, 'sig) signer_kit \<Rightarrow> json" where
  "build_arep_101_two_tenants_only_a_fires kit =
    (let a_stream = audit_literal_stream
        [audit_delete_event ''ea-0'' ''m-a101'' 0 2 ''pod'' ''pod/x'',
         audit_delete_event ''ea-1'' ''m-a101'' 1 2 ''pod'' ''pod/x'',
         audit_delete_event ''ea-2'' ''m-a101'' 2 2 ''pod'' ''pod/x'',
         audit_delete_event ''ea-3'' ''m-a101'' 3 2 ''pod'' ''pod/x'',
         audit_delete_event ''ea-4'' ''m-a101'' 4 2 ''pod'' ''pod/x''];
      b_stream = audit_literal_stream
        [audit_event_named ''eb-0'' ''m-b101'' 0 0 ''k8s'' ''get'' ''pod'' ''pod/z'',
         audit_event_named ''eb-1'' ''m-b101'' 1 0 ''k8s'' ''get'' ''pod'' ''pod/z'']
     in audit_vector kit ''arep-101'' ''audit-replay-two-tenants-only-a-fires''
       (''Tenant A streams five delete events (delete-storm + gfp co-fire); tenant B streams two benign reads '' @
        ''below every threshold. Records MUST attribute both fires to tenant-A; tenant-B emits zero records de'' @
        ''spite being registered.'')
       (''design-final.md '' @ [CHR 0xC2, CHR 0xA7] @
        ''11.2 multi-tenant attribution + AuditOrchestrator isolation invariant: a fire under tenant-A'' @ [CHR 0x27] @
        ''s `DetectorState` never leaks into tenant-B'' @ [CHR 0x27] @
        ''s attribution. This is the single most load-bearing property of the orchestrator.'')
       [tenant_stream ''t-a'' a_stream,
        tenant_stream ''t-b'' b_stream]
       [expected_record_json ''t-a'' ''delete-storm'' ''high'' ''first-match'' (scope_mandate ''m-a101''),
        expected_record_json ''t-a'' ''git-force-push-storm'' ''high'' ''first-match'' (scope_mandate ''m-a101'')]
       ''high'')"

definition build_arep_102_two_tenants_both_fire :: "('pk, 'sig) signer_kit \<Rightarrow> json" where
  "build_arep_102_two_tenants_both_fire kit =
    (let a_stream = audit_literal_stream
        [audit_delete_event ''ea-0'' ''m-a102'' 0 2 ''pod'' ''pod/x'',
         audit_delete_event ''ea-1'' ''m-a102'' 1 2 ''pod'' ''pod/x'',
         audit_delete_event ''ea-2'' ''m-a102'' 2 2 ''pod'' ''pod/x'',
         audit_delete_event ''ea-3'' ''m-a102'' 3 2 ''pod'' ''pod/x'',
         audit_delete_event ''ea-4'' ''m-a102'' 4 2 ''pod'' ''pod/x''];
      b_stream = audit_literal_stream
        [audit_delete_event ''eb-0'' ''m-b102'' 0 2 ''pod'' ''pod/y'',
         audit_delete_event ''eb-1'' ''m-b102'' 1 2 ''pod'' ''pod/y'',
         audit_delete_event ''eb-2'' ''m-b102'' 2 2 ''pod'' ''pod/y'',
         audit_delete_event ''eb-3'' ''m-b102'' 3 2 ''pod'' ''pod/y'',
         audit_delete_event ''eb-4'' ''m-b102'' 4 2 ''pod'' ''pod/y'']
     in audit_vector kit ''arep-102'' ''audit-replay-two-tenants-both-fire''
       (''Tenants A and B both stream five destructive delete events on distinct mandates. Each tenant fires d'' @
        ''elete-storm + gfp independently. Observed record set = 4 (2 per tenant), attribution MUST distinguis'' @
        ''h t-a from t-b.'')
       (''design-final.md '' @ [CHR 0xC2, CHR 0xA7] @
        ''11.2: two concurrently-firing tenants produce independent AnomalyDetectedRecord streams keyed by ten'' @
        ''ant_id. A bug that merged tenant state would short-circuit the second storm under the first'' @ [CHR 0x27] @
        ''s dedup window.'')
       [tenant_stream ''t-a'' a_stream,
        tenant_stream ''t-b'' b_stream]
       [expected_record_json ''t-a'' ''delete-storm'' ''high'' ''first-match'' (scope_mandate ''m-a102''),
        expected_record_json ''t-a'' ''git-force-push-storm'' ''high'' ''first-match'' (scope_mandate ''m-a102''),
        expected_record_json ''t-b'' ''delete-storm'' ''high'' ''first-match'' (scope_mandate ''m-b102''),
        expected_record_json ''t-b'' ''git-force-push-storm'' ''high'' ''first-match'' (scope_mandate ''m-b102'')]
       ''high'')"

definition build_arep_103_shared_mandate_id_isolated :: "('pk, 'sig) signer_kit \<Rightarrow> json" where
  "build_arep_103_shared_mandate_id_isolated kit =
    (let a_stream = audit_literal_stream
        [audit_delete_event ''ea-0'' ''m-shared'' 0 2 ''pod'' ''pod/x'',
         audit_delete_event ''ea-1'' ''m-shared'' 1 2 ''pod'' ''pod/x'',
         audit_delete_event ''ea-2'' ''m-shared'' 2 2 ''pod'' ''pod/x'',
         audit_delete_event ''ea-3'' ''m-shared'' 3 2 ''pod'' ''pod/x'',
         audit_delete_event ''ea-4'' ''m-shared'' 4 2 ''pod'' ''pod/x''];
      b_stream = audit_literal_stream
        [audit_delete_event ''eb-0'' ''m-shared'' 0 2 ''pod'' ''pod/y'',
         audit_delete_event ''eb-1'' ''m-shared'' 1 2 ''pod'' ''pod/y'',
         audit_delete_event ''eb-2'' ''m-shared'' 2 2 ''pod'' ''pod/y'',
         audit_delete_event ''eb-3'' ''m-shared'' 3 2 ''pod'' ''pod/y'',
         audit_delete_event ''eb-4'' ''m-shared'' 4 2 ''pod'' ''pod/y'']
     in audit_vector kit ''arep-103'' ''audit-replay-shared-mandate-id-isolated''
       (''Two tenants whose mandate_ids happen to be identical (`m-shared`). Each fires delete-storm + gfp ind'' @
        ''ependently. Attribution MUST keep records separate: t-a'' @ [CHR 0x27] @ ''s fires carry tenant_id=t-a, t-b'' @
        [CHR 0x27] @ ''s fires carry tenant_id=t-b. This pins that bucket keys are `(tenant_id, mandate_id, '' @
        [CHR 0xE2, CHR 0x80, CHR 0xA6] @ '')` tuples, not raw mandate_id across the global map.'')
       (''design-final.md '' @ [CHR 0xC2, CHR 0xA7] @
        ''11.2 + orchestrator docblock: tenant_id is the FIRST component of every isolation boundary; a malici'' @
        ''ous operator assigning a shared mandate_id across tenants cannot influence another tenant'' @ [CHR 0x27] @
        ''s firing thresholds.'')
       [tenant_stream ''t-a'' a_stream,
        tenant_stream ''t-b'' b_stream]
       [expected_record_json ''t-a'' ''delete-storm'' ''high'' ''first-match'' (scope_mandate ''m-shared''),
        expected_record_json ''t-a'' ''git-force-push-storm'' ''high'' ''first-match'' (scope_mandate ''m-shared''),
        expected_record_json ''t-b'' ''delete-storm'' ''high'' ''first-match'' (scope_mandate ''m-shared''),
        expected_record_json ''t-b'' ''git-force-push-storm'' ''high'' ''first-match'' (scope_mandate ''m-shared'')]
       ''critical'')"

definition build_arep_104_three_tenants_three_patterns :: "('pk, 'sig) signer_kit \<Rightarrow> json" where
  "build_arep_104_three_tenants_three_patterns kit =
    (let a_stream = audit_literal_stream
        [audit_delete_event ''ea-0'' ''m-a104'' 0 2 ''pod'' ''pod/x'',
         audit_delete_event ''ea-1'' ''m-a104'' 1 2 ''pod'' ''pod/x'',
         audit_delete_event ''ea-2'' ''m-a104'' 2 2 ''pod'' ''pod/x'',
         audit_delete_event ''ea-3'' ''m-a104'' 3 2 ''pod'' ''pod/x'',
         audit_delete_event ''ea-4'' ''m-a104'' 4 2 ''pod'' ''pod/x''];
      b_stream = audit_literal_stream
        [audit_event_named ''eb-0'' ''m-b104'' 0 2 ''aws'' ''attachrolepolicy'' ''iam-role'' ''role/r0'',
         audit_event_named ''eb-1'' ''m-b104'' 1 2 ''aws'' ''attachrolepolicy'' ''iam-role'' ''role/r0'',
         audit_event_named ''eb-2'' ''m-b104'' 2 2 ''aws'' ''attachrolepolicy'' ''iam-role'' ''role/r0'',
         audit_event_named ''eb-3'' ''m-b104'' 3 2 ''aws'' ''attachrolepolicy'' ''iam-role'' ''role/r0'',
         audit_event_named ''eb-4'' ''m-b104'' 4 2 ''aws'' ''attachrolepolicy'' ''iam-role'' ''role/r0''];
      c_stream = audit_literal_stream
        [audit_event_named ''ec-0'' ''m-c104'' 0 2 ''vault'' ''rotate'' ''vault-secret'' ''secret/s0'',
         audit_event_named ''ec-1'' ''m-c104'' 1 2 ''vault'' ''rotate'' ''vault-secret'' ''secret/s0'',
         audit_event_named ''ec-2'' ''m-c104'' 2 2 ''vault'' ''rotate'' ''vault-secret'' ''secret/s0'']
     in audit_vector kit ''arep-104'' ''audit-replay-three-tenants-three-patterns''
       (''Three tenants firing three distinct primaries: t-a delete-storm, t-b iam-attach-policy-storm, t-c va'' @
        ''ult-rotate-storm. Every fire co-fires git-force-push-storm (ProtectedBranches wildcard). Pins that t'' @
        ''he orchestrator routes events by tenant_id without loss when the tenant map holds 3+ entries.'')
       (''design-final.md '' @ [CHR 0xC2, CHR 0xA7] @ ''11.2: AuditOrchestrator'' @ [CHR 0x27] @
        ''s BTreeMap-backed tenant table must scale to N tenants without cross-contamination. A bucketing bug '' @
        ''that collapsed the map to O(1) shared state would reorder fires across tenant_ids in non-determinist'' @
        ''ic ways.'')
       [tenant_stream ''t-a'' a_stream,
        tenant_stream ''t-b'' b_stream,
        tenant_stream ''t-c'' c_stream]
       [expected_record_json ''t-a'' ''delete-storm'' ''high'' ''first-match'' (scope_mandate ''m-a104''),
        expected_record_json ''t-a'' ''git-force-push-storm'' ''high'' ''first-match'' (scope_mandate ''m-a104''),
        expected_record_json ''t-b'' ''iam-attach-policy-storm'' ''high'' ''first-match'' (scope_mandate ''m-b104''),
        expected_record_json ''t-b'' ''git-force-push-storm'' ''high'' ''first-match'' (scope_mandate ''m-b104''),
        expected_record_json ''t-c'' ''vault-rotate-storm'' ''high'' ''first-match'' (scope_mandate_verb_kind ''m-c104'' ''rotate'' ''vault-secret''),
        expected_record_json ''t-c'' ''git-force-push-storm'' ''high'' ''first-match'' (scope_mandate ''m-c104'')]
       ''critical'')"

definition build_arep_105_iam_on_a_cross_tier_on_b :: "('pk, 'sig) signer_kit \<Rightarrow> json" where
  "build_arep_105_iam_on_a_cross_tier_on_b kit =
    (let a_stream = audit_literal_stream
        [audit_event_named ''ea-0'' ''m-a105'' 0 2 ''aws'' ''attachrolepolicy'' ''iam-role'' ''role/r0'',
         audit_event_named ''ea-1'' ''m-a105'' 1 2 ''aws'' ''attachrolepolicy'' ''iam-role'' ''role/r0'',
         audit_event_named ''ea-2'' ''m-a105'' 2 2 ''aws'' ''attachrolepolicy'' ''iam-role'' ''role/r0'',
         audit_event_named ''ea-3'' ''m-a105'' 3 2 ''aws'' ''attachrolepolicy'' ''iam-role'' ''role/r0'',
         audit_event_named ''ea-4'' ''m-a105'' 4 2 ''aws'' ''attachrolepolicy'' ''iam-role'' ''role/r0''];
      b_stream = audit_literal_stream
        [audit_event_named ''eb-0'' ''m-b105'' 0 0 ''k8s'' ''get'' ''configmap'' ''cm/c0'',
         audit_event_named ''eb-1'' ''m-b105'' 1 2 ''k8s'' ''get'' ''configmap'' ''cm/c0'',
         audit_event_named ''eb-2'' ''m-b105'' 2 3 ''k8s'' ''get'' ''configmap'' ''cm/c0'']
     in audit_vector kit ''arep-105'' ''audit-replay-iam-storm-and-cross-tier-escalation''
       (''Tenant A fires iam-attach-policy-storm (FirstMatch/Count'' @ [CHR 0xE2, CHR 0x89, CHR 0xA5] @
        ''5 in 60s on IamAttachFamily scope). Tenant B fires cross-tier-escalation (SequenceMatch tier-ladder '' @ ''0'' @
        [CHR 0xE2, CHR 0x86, CHR 0x92] @ ''2'' @ [CHR 0xE2, CHR 0x86, CHR 0x92] @
        ''3 within 300s). Both co-fire git-force-push-storm. Pins that two different firing-rule families (Fir'' @
        ''stMatch/Count vs SequenceMatch) coexist in the same orchestrator without cross-pollination.'')
       (''design-final.md '' @ [CHR 0xC2, CHR 0xA7] @
        ''3.5.3 FirstMatch/Count + SequenceMatch under multi-tenant dispatch: the orchestrator must preserve p'' @
        ''er-tenant bucket iteration state so SequenceMatch'' @ [CHR 0x27] @
        ''s ordered match under t-b is not confused by t-a'' @ [CHR 0x27] @ ''s flat counter.'')
       [tenant_stream ''t-a'' a_stream,
        tenant_stream ''t-b'' b_stream]
       [expected_record_json ''t-a'' ''iam-attach-policy-storm'' ''high'' ''first-match'' (scope_mandate ''m-a105''),
        expected_record_json ''t-a'' ''git-force-push-storm'' ''high'' ''first-match'' (scope_mandate ''m-a105''),
        expected_record_json ''t-b'' ''cross-tier-escalation'' ''critical'' ''sequence-match'' (scope_mandate ''m-b105''),
        expected_record_json ''t-b'' ''git-force-push-storm'' ''high'' ''first-match'' (scope_mandate ''m-b105'')]
       ''critical'')"

definition build_arep_106_fanout_a_pace_b :: "('pk, 'sig) signer_kit \<Rightarrow> json" where
  "build_arep_106_fanout_a_pace_b kit =
    (let a_events = map (\<lambda>i. audit_delete_event (''ea-'' @ show_nat i) ''m-a106'' (int i) 0 ''pod'' (''pod/n-'' @ show_nat i))
          [0..<10];
      a_stream = audit_literal_stream a_events;
      b_events = map (\<lambda>i. audit_event_named (''eb-'' @ show_nat i) ''m-b106'' (int i) 1 ''k8s'' ''patch'' ''deployment'' (''dep/d-'' @ show_nat i))
          [0..<50];
      b_stream = audit_literal_stream b_events
     in audit_vector kit ''arep-106'' ''audit-replay-fanout-a-mandatepace-b''
       (''Tenant A: 10'' @ [CHR 0xC3, CHR 0x97] @
        '' delete on distinct pods at tier 0 fires fanout-distinct-resources (DistinctCount'' @
        [CHR 0xE2, CHR 0x89, CHR 0xA5] @
        ''10) with verb projection `{mandate_id, verb: delete}` and co-fires delete-storm + gfp-storm + gfp-sl'' @
        ''ow-burn (CumulativeOverBaseline trips at the 10-event mark). Tenant B: 50'' @ [CHR 0xC3, CHR 0x97] @
        '' patch at 1s spacing at tier 1 fires machine-pace (tier projection `{mandate_id, tier: 1}`), long-si'' @
        ''lence-before-burst, gfp-storm and gfp-slow-burn. Pins that tier and verb projections survive orchest'' @
        ''rator dispatch with per-tenant MatchScope fidelity.'')
       (''design-final.md '' @ [CHR 0xC2, CHR 0xA7] @
        ''11.2 match_scope projection contract: scope predicates that bind `verb` or `tier` must surface those'' @
        '' fields on the emitted AnomalyFire. Orchestrator wrapping does not re-project '' @
        [CHR 0xE2, CHR 0x80, CHR 0x94] @ '' it forwards the inner fire verbatim.'')
       [tenant_stream ''t-a'' a_stream,
        tenant_stream ''t-b'' b_stream]
       [expected_record_json ''t-a'' ''fanout-distinct-resources'' ''high'' ''first-match'' (scope_mandate_verb ''m-a106'' ''delete''),
        expected_record_json ''t-a'' ''delete-storm'' ''high'' ''first-match'' (scope_mandate ''m-a106''),
        expected_record_json ''t-a'' ''git-force-push-storm'' ''high'' ''first-match'' (scope_mandate ''m-a106''),
        expected_record_json ''t-a'' ''git-force-push-slow-burn'' ''medium'' ''cumulative-over-baseline'' (scope_mandate ''m-a106''),
        expected_record_json ''t-b'' ''machine-pace'' ''low'' ''cumulative-over-baseline'' (scope_mandate_tier ''m-b106'' 1),
        expected_record_json ''t-b'' ''long-silence-before-burst'' ''medium'' ''sequence-match'' (scope_mandate ''m-b106''),
        expected_record_json ''t-b'' ''git-force-push-storm'' ''high'' ''first-match'' (scope_mandate ''m-b106''),
        expected_record_json ''t-b'' ''git-force-push-slow-burn'' ''medium'' ''cumulative-over-baseline'' (scope_mandate ''m-b106'')]
       ''high'')"

definition build_arep_107_slow_burn_cumulative :: "('pk, 'sig) signer_kit \<Rightarrow> json" where
  "build_arep_107_slow_burn_cumulative kit =
    (let a_events = map (\<lambda>i. audit_delete_event (''ea-'' @ show_nat i) ''m-a107'' (int i * 30) 0 ''pod'' ''pod/x'')
          [0..<20];
      a_stream = audit_literal_stream a_events;
      b_stream = audit_literal_stream
        [audit_event_named ''eb-0'' ''m-b107'' 0 0 ''k8s'' ''get'' ''pod'' ''pod/z'',
         audit_event_named ''eb-1'' ''m-b107'' 1 0 ''k8s'' ''get'' ''pod'' ''pod/z'']
     in audit_vector kit ''arep-107'' ''audit-replay-slow-burn-tenant-a-silent-b''
       (''Tenant A: 20'' @ [CHR 0xC3, CHR 0x97] @ '' delete at 30s spacing (walks under delete-storm'' @ [CHR 0x27] @
        ''s 60s window). Fires delete-slow-burn (CumulativeOverBaseline) and co-fires gfp-storm'' @ [CHR 0xC3, CHR 0x97] @
        ''2 (ProtectedBranches wildcard '' @ [CHR 0xE2, CHR 0x80, CHR 0x94] @
        '' the 300s dedup window lets the storm re-fire across the 570s run) plus gfp-slow-burn. Tenant B: 2'' @
        [CHR 0xC3, CHR 0x97] @ '' reads, well below every threshold '' @ [CHR 0xE2, CHR 0x80, CHR 0x94] @
        '' zero records. Pins that cumulative-over-baseline evaluators respect per-tenant counter isolation.'')
       (''design-final.md '' @ [CHR 0xC2, CHR 0xA7] @ ''3.5.3 CumulativeOverBaseline + '' @ [CHR 0xC2, CHR 0xA7] @
        ''11.2 multi-tenant: a slow-burn counter on tenant-A MUST NOT leak into tenant-B'' @ [CHR 0x27] @
        ''s baseline; a leak would either inflate B'' @ [CHR 0x27] @ ''s counter toward threshold or suppress A'' @
        [CHR 0x27] @ ''s via a shared budget.'')
       [tenant_stream ''t-a'' a_stream,
        tenant_stream ''t-b'' b_stream]
       [expected_record_json ''t-a'' ''delete-slow-burn'' ''medium'' ''cumulative-over-baseline'' (scope_mandate ''m-a107''),
        expected_record_json ''t-a'' ''git-force-push-slow-burn'' ''medium'' ''cumulative-over-baseline'' (scope_mandate ''m-a107''),
        expected_record_json ''t-a'' ''git-force-push-storm'' ''high'' ''first-match'' (scope_mandate ''m-a107''),
        expected_record_json ''t-a'' ''git-force-push-storm'' ''high'' ''first-match'' (scope_mandate ''m-a107'')]
       ''high'')"

definition build_arep_108_rotation_after_stream_zero :: "('pk, 'sig) signer_kit \<Rightarrow> json option" where
  "build_arep_108_rotation_after_stream_zero kit =
    (let a_stream_pre = audit_literal_stream
        [audit_delete_event ''ea-pre-0'' ''m-a108'' 0 2 ''pod'' ''pod/x'',
         audit_delete_event ''ea-pre-1'' ''m-a108'' 1 2 ''pod'' ''pod/x'',
         audit_delete_event ''ea-pre-2'' ''m-a108'' 2 2 ''pod'' ''pod/x'',
         audit_delete_event ''ea-pre-3'' ''m-a108'' 3 2 ''pod'' ''pod/x'',
         audit_delete_event ''ea-pre-4'' ''m-a108'' 4 2 ''pod'' ''pod/x''];
      a_stream_post = literal_post_rotation_stream
        [canonical_event_post_rotation ''ea-post-0'' ''m-a108'' 0 2 ''k8s'' ''delete'' ''pod'' ''pod/x'',
         canonical_event_post_rotation ''ea-post-1'' ''m-a108'' 1 2 ''k8s'' ''delete'' ''pod'' ''pod/x'',
         canonical_event_post_rotation ''ea-post-2'' ''m-a108'' 2 2 ''k8s'' ''delete'' ''pod'' ''pod/x'',
         canonical_event_post_rotation ''ea-post-3'' ''m-a108'' 3 2 ''k8s'' ''delete'' ''pod'' ''pod/x'',
         canonical_event_post_rotation ''ea-post-4'' ''m-a108'' 4 2 ''k8s'' ''delete'' ''pod'' ''pod/x'']
     in attach_rotation kit (audit_vector kit ''arep-108'' ''audit-replay-rotation-after-stream-zero''
       (''Library rotation between streams: tenant-A fires delete-storm under library v1 (stream 0), then rota'' @
        ''tes to library v2 which clears all tenant state, then tenant-A streams an identical storm under v2 ('' @
        ''stream 1). Observed records contain four fires '' @ [CHR 0xE2, CHR 0x80, CHR 0x94] @
        '' TWO per library version (delete-storm + gfp'' @ [CHR 0xC3, CHR 0x97] @
        ''2), the second delete-storm emitted because the dedup ledger was cleared by rotate_library. Pins the'' @
        '' state-reset invariant.'')
       (''design-final.md '' @ [CHR 0xC2, CHR 0xA7] @
        ''3.5.1 library rotation + orchestrator duplicate-tolerance contract: rotate_library MUST clear every '' @
        ''tenant'' @ [CHR 0x27] @
        ''s dedup ledger so a pattern can fire anew under the new library. Downstream consumers are required t'' @
        ''o be duplicate-tolerant across rotation boundaries per the orchestrator module-level docblock.'')
       [tenant_stream ''t-a'' a_stream_pre,
        tenant_stream ''t-a'' a_stream_post]
       [expected_record_v ''t-a'' ''delete-storm'' 1 ''high'' ''first-match'' (scope_mandate ''m-a108''),
        expected_record_v ''t-a'' ''git-force-push-storm'' 1 ''high'' ''first-match'' (scope_mandate ''m-a108''),
        expected_record_v ''t-a'' ''delete-storm'' 2 ''high'' ''first-match'' (scope_mandate ''m-a108''),
        expected_record_v ''t-a'' ''git-force-push-storm'' 2 ''high'' ''first-match'' (scope_mandate ''m-a108'')]
       ''high'') 0)"

definition build_arep_109_rotation_after_final :: "('pk, 'sig) signer_kit \<Rightarrow> json option" where
  "build_arep_109_rotation_after_final kit =
    (let a_stream = audit_literal_stream
        [audit_delete_event ''ea-0'' ''m-a109'' 0 2 ''pod'' ''pod/x'',
         audit_delete_event ''ea-1'' ''m-a109'' 1 2 ''pod'' ''pod/x'',
         audit_delete_event ''ea-2'' ''m-a109'' 2 2 ''pod'' ''pod/x'',
         audit_delete_event ''ea-3'' ''m-a109'' 3 2 ''pod'' ''pod/x'',
         audit_delete_event ''ea-4'' ''m-a109'' 4 2 ''pod'' ''pod/x'']
     in attach_rotation kit (audit_vector kit ''arep-109'' ''audit-replay-rotation-after-final-stream''
       (''Library rotates after the final (only) stream drains. Observed records are from the pre-rotation lib'' @
        ''rary only; the rotation itself happens but produces no additional fires because no streams follow. P'' @
        ''ins that rotate_library is idempotent w.r.t. the observed record multiset when no post-rotation even'' @
        ''ts arrive.'')
       (''design-final.md '' @ [CHR 0xC2, CHR 0xA7] @
        ''3.5.1: rotation is a control-plane event; the audit record stream flows through it without interleav'' @
        ''ing phantom fires at the rotation boundary.'')
       [tenant_stream ''t-a'' a_stream]
       [expected_record_v ''t-a'' ''delete-storm'' 1 ''high'' ''first-match'' (scope_mandate ''m-a109''),
        expected_record_v ''t-a'' ''git-force-push-storm'' 1 ''high'' ''first-match'' (scope_mandate ''m-a109'')]
       ''medium'') 0)"

definition build_arep_110_rotation_mid_run :: "('pk, 'sig) signer_kit \<Rightarrow> json option" where
  "build_arep_110_rotation_mid_run kit =
    (let a_stream = audit_literal_stream
        [audit_delete_event ''ea-0'' ''m-a110'' 0 2 ''pod'' ''pod/x'',
         audit_delete_event ''ea-1'' ''m-a110'' 1 2 ''pod'' ''pod/x'',
         audit_delete_event ''ea-2'' ''m-a110'' 2 2 ''pod'' ''pod/x'',
         audit_delete_event ''ea-3'' ''m-a110'' 3 2 ''pod'' ''pod/x'',
         audit_delete_event ''ea-4'' ''m-a110'' 4 2 ''pod'' ''pod/x''];
      b_stream = literal_post_rotation_stream
        [canonical_event_post_rotation ''eb-0'' ''m-b110'' 0 2 ''k8s'' ''delete'' ''pod'' ''pod/y'',
         canonical_event_post_rotation ''eb-1'' ''m-b110'' 1 2 ''k8s'' ''delete'' ''pod'' ''pod/y'',
         canonical_event_post_rotation ''eb-2'' ''m-b110'' 2 2 ''k8s'' ''delete'' ''pod'' ''pod/y'',
         canonical_event_post_rotation ''eb-3'' ''m-b110'' 3 2 ''k8s'' ''delete'' ''pod'' ''pod/y'',
         canonical_event_post_rotation ''eb-4'' ''m-b110'' 4 2 ''k8s'' ''delete'' ''pod'' ''pod/y'']
     in attach_rotation kit (audit_vector kit ''arep-110'' ''audit-replay-rotation-mid-run-different-tenants''
       (''Tenant-A fires delete-storm under library v1 (stream 0). Rotation clears ALL tenant state (including'' @
        '' A'' @ [CHR 0x27] @
        ''s newly-minted DetectorState). Tenant-B fires delete-storm under library v2 (stream 1). Observed rec'' @
        ''ords attribute to different tenants across the rotation; t-a produces 2 records under v1, t-b produc'' @
        ''es 2 records under v2.'')
       (''design-final.md '' @ [CHR 0xC2, CHR 0xA7] @
        ''11.2 attribution + rotate_library clear-all semantics: a tenant registered pre-rotation does not car'' @
        ''ry into post-rotation automatically '' @ [CHR 0xE2, CHR 0x80, CHR 0x94] @
        '' each tenant re-registers lazily on first post-rotation event. Cross-rotation attribution stays loya'' @
        ''l to the tenant_id that dispatched the event, not to a stale map entry.'')
       [tenant_stream ''t-a'' a_stream,
        tenant_stream ''t-b'' b_stream]
       [expected_record_v ''t-a'' ''delete-storm'' 1 ''high'' ''first-match'' (scope_mandate ''m-a110''),
        expected_record_v ''t-a'' ''git-force-push-storm'' 1 ''high'' ''first-match'' (scope_mandate ''m-a110''),
        expected_record_v ''t-b'' ''delete-storm'' 2 ''high'' ''first-match'' (scope_mandate ''m-b110''),
        expected_record_v ''t-b'' ''git-force-push-storm'' 2 ''high'' ''first-match'' (scope_mandate ''m-b110'')]
       ''high'') 0)"

definition build_arep_111_clock_regression :: "('pk, 'sig) signer_kit \<Rightarrow> json" where
  "build_arep_111_clock_regression kit =
    (let a_stream = audit_literal_stream
        [audit_delete_event ''ea-0'' ''m-a111'' 100 2 ''pod'' ''pod/x'',
         audit_delete_event ''ea-1'' ''m-a111'' 10 2 ''pod'' ''pod/x'']
     in audit_reject_vector kit ''arep-111'' ''audit-replay-clock-regression''
       (''Tenant-A'' @ [CHR 0x27] @
        ''s stream contains an event whose timestamp regresses relative to the previous event. The orchestrato'' @ ''r'' @
        [CHR 0x27] @
        ''s observe_event forwards the regression as ClockRegression, surfaced on the wire as audit-replay-str'' @
        ''eam-clock-regression.'')
       (''design-final.md '' @ [CHR 0xC2, CHR 0xA7] @
        ''3.5.3 monotonic audit-stream clock invariant: per-tenant clocks advance-only. The orchestrator must '' @
        ''propagate the per-tenant DetectorState'' @ [CHR 0x27] @
        ''s ClockRegression verbatim so vector authors (and production operators) get a loud failure rather th'' @
        ''an silent reordering.'')
       [tenant_stream ''t-a'' a_stream]
       ''audit-replay-stream-clock-regression'')"

definition build_arep_112_pattern_description_count_zero :: "('pk, 'sig) signer_kit \<Rightarrow> json" where
  "build_arep_112_pattern_description_count_zero kit =
    (let stream = JObject
          [(''pattern_description'', JObject
          [(''start_time'', JString AUDIT_INITIAL_TIME),
           (''end_time'', JString AUDIT_INITIAL_TIME),
           (''count'', json_nat 0),
           (''interval_seconds'', json_nat 0),
           (''template_event'', audit_template_event ''m-a112'' 2 ''pod'' ''delete''),
           (''resource_ref_pattern'', JString ''pod/n-{i}'')])]
     in audit_reject_vector kit ''arep-112'' ''audit-replay-pattern-description-count-zero''
       (''Pattern-description stream with count=0 for tenant-A. Expansion rejects at normalize with PatternDes'' @
        ''criptionCountZero, surfaced on the wire as audit-replay-stream-pattern-description-count-zero.'')
       (''design-final.md '' @ [CHR 0xC2, CHR 0xA7] @
        ''3.5.3 stream expansion contract: zero-count expansions are degenerate author mistakes. Accepting the'' @
        ''m would silently produce empty streams and mask the bug.'')
       [tenant_stream ''t-a'' stream]
       ''audit-replay-stream-pattern-description-count-zero'')"

definition build_arep_113_timestamp_parse_failed :: "('pk, 'sig) signer_kit \<Rightarrow> json" where
  "build_arep_113_timestamp_parse_failed kit =
    (let stream = JObject
          [(''pattern_description'', JObject
          [(''start_time'', JString ''not-a-real-iso-timestamp''),
           (''end_time'', JString AUDIT_INITIAL_TIME),
           (''count'', json_nat 3),
           (''interval_seconds'', json_nat 1),
           (''template_event'', audit_template_event ''m-a113'' 2 ''pod'' ''delete''),
           (''resource_ref_pattern'', JString ''pod/n-{i}'')])]
     in audit_reject_vector kit ''arep-113'' ''audit-replay-timestamp-parse-failed''
       (''Pattern-description stream with start_time = `not-a-real-iso-timestamp` for tenant-A. Normalize pars'' @
        ''es start_time first; the parse failure surfaces as TimestampParseFailed / audit-replay-stream-timest'' @
        ''amp-parse-failed.'')
       (''design-final.md '' @ [CHR 0xC2, CHR 0xA7] @
        ''3.5.3: RFC-3339 is the normative interchange format for audit event timestamps. A lenient fallback h'' @
        ''ere would open a stream-authoring ambiguity that spec'' @ [CHR 0x27] @ ''d conformance explicitly closes.'')
       [tenant_stream ''t-a'' stream]
       ''audit-replay-stream-timestamp-parse-failed'')"

definition build_arep_114_two_tenants_empty :: "('pk, 'sig) signer_kit \<Rightarrow> json" where
  "build_arep_114_two_tenants_empty kit =
     audit_accept_vector kit ''arep-114'' ''audit-replay-two-tenants-empty''
       (''Two tenants both register with empty literal streams. Zero events '' @ [CHR 0xE2, CHR 0x86, CHR 0x92] @
        '' zero records. Negative control proving the orchestrator accepts registered-but-silent tenants witho'' @
        ''ut emitting phantom fires.'')
       (''design-final.md '' @ [CHR 0xC2, CHR 0xA7] @
        ''11.2: an orchestrator with registered-but-idle tenants produces zero AnomalyDetected records until e'' @
        ''vents actually arrive.'')
       [tenant_stream ''t-a'' (audit_literal_stream []),
        tenant_stream ''t-b'' (audit_literal_stream [])]"

definition build_arep_115_two_tenants_below_threshold :: "('pk, 'sig) signer_kit \<Rightarrow> json" where
  "build_arep_115_two_tenants_below_threshold kit =
    (let a_stream = audit_literal_stream
        [audit_event_named ''ea-0'' ''m-a115'' 0 0 ''k8s'' ''get'' ''pod'' ''pod/z'',
         audit_event_named ''ea-1'' ''m-a115'' 1 0 ''k8s'' ''get'' ''pod'' ''pod/z''];
      b_stream = audit_literal_stream
        [audit_event_named ''eb-0'' ''m-b115'' 0 0 ''k8s'' ''get'' ''pod'' ''pod/z'',
         audit_event_named ''eb-1'' ''m-b115'' 1 0 ''k8s'' ''get'' ''pod'' ''pod/z'']
     in audit_accept_vector kit ''arep-115'' ''audit-replay-two-tenants-below-threshold''
       (''Two tenants each streaming two benign read events '' @ [CHR 0xE2, CHR 0x80, CHR 0x94] @
        '' well below every MINIMUM-library firing threshold. Zero records; negative control proving the detec'' @
        ''tor actually DISCRIMINATES below threshold vs above.'')
       (''design-final.md '' @ [CHR 0xC2, CHR 0xA7] @
        ''3.5.4 MINIMUM library thresholds: a validator that always rejected would pass every fire-expected ve'' @
        ''ctor but fail this; the below-threshold accept is the load-bearing negative control.'')
       [tenant_stream ''t-a'' a_stream,
        tenant_stream ''t-b'' b_stream])"

definition build_arep_116_single_tenant_empty :: "('pk, 'sig) signer_kit \<Rightarrow> json" where
  "build_arep_116_single_tenant_empty kit =
     audit_accept_vector kit ''arep-116'' ''audit-replay-single-tenant-empty''
       (''Single tenant with one empty literal stream '' @ [CHR 0xE2, CHR 0x80, CHR 0x94] @
        '' the simplest degenerate accept case. Zero events, zero records, zero tenants lazily-registered unti'' @
        ''l the first event arrives (none do).'')
       (''design-final.md '' @ [CHR 0xC2, CHR 0xA7] @
        ''11.2: a tenant_streams list with empty streams MUST NOT emit records. This vector anchors the lower '' @
        ''bound of the accept path.'')
       [tenant_stream ''t-a'' (audit_literal_stream [])]"

section \<open>All of them\<close>

text \<open>None when attaching a rotation panics.\<close>

definition build_all_audit :: "('pk, 'sig) signer_kit \<Rightarrow> json list option" where
  "build_all_audit kit =
     those
       [Some (build_arep_100_single_tenant_baseline kit),
        Some (build_arep_101_two_tenants_only_a_fires kit),
        Some (build_arep_102_two_tenants_both_fire kit),
        Some (build_arep_103_shared_mandate_id_isolated kit),
        Some (build_arep_104_three_tenants_three_patterns kit),
        Some (build_arep_105_iam_on_a_cross_tier_on_b kit),
        Some (build_arep_106_fanout_a_pace_b kit),
        Some (build_arep_107_slow_burn_cumulative kit),
        build_arep_108_rotation_after_stream_zero kit,
        build_arep_109_rotation_after_final kit,
        build_arep_110_rotation_mid_run kit,
        Some (build_arep_111_clock_regression kit),
        Some (build_arep_112_pattern_description_count_zero kit),
        Some (build_arep_113_timestamp_parse_failed kit),
        Some (build_arep_114_two_tenants_empty kit),
        Some (build_arep_115_two_tenants_below_threshold kit),
        Some (build_arep_116_single_tenant_empty kit)]"

end
