(* ===== verification/Audit_Vectors_Correct.thy ===== *)
theory Audit_Vectors_Correct
  imports Stream_Vectors Audit_Vectors
begin

text \<open>
  The audit suite on its generated vectors: with the libraries behaving as documented, the executor gives every one of
  the seventeen vectors the answer the vector declares, down to the records of each tenant, across a rotation.
\<close>

section \<open>Wire forms and laws\<close>

definition record_of :: "string \<Rightarrow> anomaly_fire \<Rightarrow> expected_record" where
  "record_of tid f =
     \<lparr>er_tenant_id = tid, er_pattern_id = af_pattern_id f, er_library_version = af_library_version f,
      er_severity = af_severity f, er_firing_rule = af_firing_rule f, er_match_scope = af_match_scope f\<rparr>"

definition fire_of_record :: "expected_record \<Rightarrow> anomaly_fire" where
  "fire_of_record r =
     \<lparr>af_pattern_id = er_pattern_id r, af_library_version = er_library_version r, af_severity = er_severity r,
      af_firing_rule = er_firing_rule r, af_match_scope = er_match_scope r\<rparr>"

lemma fire_of_record_of [simp]: "fire_of_record (record_of tid f) = f" "er_tenant_id (record_of tid f) = tid"
  by (simp_all add: fire_of_record_def record_of_def)

lemma record_of_fire [simp]: "record_of (er_tenant_id r) (fire_of_record r) = r"
  by (simp add: fire_of_record_def record_of_def)

definition record_wire :: "expected_record \<Rightarrow> json" where
  "record_wire r = JObject ((''tenant_id'', JString (er_tenant_id r)) # fire_fields (fire_of_record r))"

definition rotation_wire :: "rotation \<Rightarrow> json" where
  "rotation_wire rot =
     JObject
       [(''after_tenant_stream_idx'', json_nat (ro_after rot)), (''cose_sign1_bytes_anomaly_library'', JString (ro_cose_hex rot)),
        (''new_initial_time'', JString (ro_start rot)), (''expected_abi_version'', json_nat (ro_abi rot))]"

definition tenant_wire :: "string \<times> audit_stream_input \<Rightarrow> json" where
  "tenant_wire ts = tenant_stream (fst ts) (stream_wire (snd ts))"

definition audit_document_json :: "string \<Rightarrow> json \<Rightarrow> (string \<times> audit_stream_input) list \<Rightarrow> rotation option \<Rightarrow> json" where
  "audit_document_json hex anchors streams rot =
     (case audit_input_json hex anchors (map tenant_wire streams) of
        JObject kvs \<Rightarrow> JObject (kvs @ present ''rotate_library'' rotation_wire rot)
      | j \<Rightarrow> j)"

definition rotation_fits :: "rotation option \<Rightarrow> bool" where
  "rotation_fits rot \<longleftrightarrow> (case rot of None \<Rightarrow> True | Some r \<Rightarrow> ro_after r < 2 ^ 64 \<and> ro_abi r < 2 ^ 32)"

definition audit_input_law :: "('pk, 'sig) signer_kit \<Rightarrow> bool" where
  "audit_input_law kit \<longleftrightarrow>
     (\<forall>hex streams rot. list_all (\<lambda>ts. stream_fits (snd ts)) streams \<and> rotation_fits rot \<longrightarrow>
        an_audit_input (kt_env kit) (audit_document_json hex (audit_anchor_def kit) streams rot) =
        Inr \<lparr>ei_cose_hex = hex, ei_anchor_keys = [fixture_key kit], ei_abi = ANOMALY_LIBRARY_ABI_VERSION,
             ei_now = CURRENT_TIME, ei_pre_ledger = [], ai_start = AUDIT_INITIAL_TIME, ai_streams = streams,
             ai_rotate = rot\<rparr>)"

definition records_json :: "expected_record list \<Rightarrow> json" where
  "records_json rs = JObject [(''records'', JArray (map record_wire rs))]"

definition records_law :: "('pk, 'sig) signer_kit \<Rightarrow> bool" where
  "records_law kit \<longleftrightarrow>
     (\<forall>rs. list_all (\<lambda>r. fire_fits (fire_of_record r)) rs \<longrightarrow> an_expected_records (kt_env kit) (records_json rs) = Inr rs)"

definition audit_laws :: "('pk, 'sig) signer_kit \<Rightarrow> bool" where
  "audit_laws kit \<longleftrightarrow>
     envelope_laws kit 1 \<and> envelope_laws kit 2 \<and> clocks_law kit \<and>
     an_rfc3339 (kt_env kit) ROTATE_INITIAL_TIME = Inr 1777640400 \<and>
     frame_law kit \<and> audit_input_law kit \<and> records_law kit"

definition audit_answered :: "('pk, 'sig) signer_kit \<Rightarrow> json \<Rightarrow> bool" where
  "audit_answered kit v \<longleftrightarrow>
     (case kt_vector_from_value kit v of None \<Rightarrow> False | Some vec \<Rightarrow> audit_execute (kt_env kit) vec = Pass)"

definition audits_as :: "('pk, 'sig) signer_kit \<Rightarrow> string \<Rightarrow> string \<Rightarrow> json option \<Rightarrow> bool" where
  "audits_as kit i category v \<longleftrightarrow>
     (\<exists>j. v = Some j \<and> audit_answered kit j \<and> vector_id j = Some i \<and> vector_category j = Some category)"

section \<open>The streams of a replay\<close>

text \<open>A stream with its tenant, the mandate of its events and the fires it is to make.\<close>

record feed =
  fd_tenant :: string
  fd_mandate :: string
  fd_events :: "canonicalized_event list"
  fd_fires :: "anomaly_fire list"

definition feed_ok :: "int \<Rightarrow> nat \<Rightarrow> feed \<Rightarrow> bool" where
  "feed_ok t ver fd \<longleftrightarrow> traced t ver (fd_mandate fd) (single_batches (fd_events fd)) (fd_fires fd)"

definition feed_stream :: "feed \<Rightarrow> string \<times> audit_stream_input" where
  "feed_stream fd = (fd_tenant fd, Literal (fd_events fd))"

definition feed_records :: "feed \<Rightarrow> expected_record list" where
  "feed_records fd = map (record_of (fd_tenant fd)) (fd_fires fd)"

text \<open>
  Each stream makes its fires alone, under the clock and the version of its side of the rotation, and no tenant
  comes twice on one side.
\<close>

fun feeds_traced :: "nat option \<Rightarrow> nat \<Rightarrow> int \<Rightarrow> nat \<Rightarrow> string list \<Rightarrow> feed list \<Rightarrow> bool" where
  "feeds_traced rot idx t ver seen [] \<longleftrightarrow> True"
| "feeds_traced rot idx t ver seen (fd # fds) \<longleftrightarrow>
     fd_tenant fd \<notin> set seen \<and> feed_ok t ver fd \<and>
     (if rot = Some idx then feeds_traced rot (idx + 1) 1777640400 2 [] fds
      else feeds_traced rot (idx + 1) t ver (fd_tenant fd # seen) fds)"

lemma same_per_key_append:
  "same_per_key f xs xs' \<Longrightarrow> same_per_key f ys ys' \<Longrightarrow> same_per_key f (xs @ ys) (xs' @ ys')"
  by (simp add: same_per_key_def)

lemma same_per_key_Nil: "same_per_key f [] xs \<Longrightarrow> xs = []"
  by (cases xs) (auto simp: same_per_key_def split: if_splits)

lemma from_observed_record: "from_observed r = record_of (adr_tenant_id r) (adr_payload r)"
  by (simp add: from_observed_def record_of_def)

lemma same_fires_records:
  assumes "same_fires xs ys"
  shows "same_per_key record_sort_key (map (record_of tid) xs) (map (record_of tid) ys)"
  unfolding same_per_key_def
proof
  fix k
  have "filter (\<lambda>r. record_sort_key r = k) (map (record_of tid) zs) =
      map (record_of tid) (filter (\<lambda>f. record_sort_key (record_of tid f) = k)
        (filter (\<lambda>f. af_pattern_id f = fst (snd k)) zs))" for zs
    by (auto simp: filter_map comp_def record_sort_key_def record_of_def intro!: arg_cong [where f = "map _"] filter_cong)
  then show "filter (\<lambda>r. record_sort_key r = k) (map (record_of tid) xs) =
      filter (\<lambda>r. record_sort_key r = k) (map (record_of tid) ys)"
    using same_fires_filter [OF assms, of "fst (snd k)"] by metis
qed

lemma concat_single [simp]: "concat (single_batches es) = es"
  by (simp add: single_batches_def)

text \<open>One stream of a tenant the orchestrator has not seen.\<close>

lemma tenant_feed:
  assumes orch: "orc_library orch = library_at ver" "orc_initial_time orch = t" "in_i64 t" "bm_get (orc_tenants orch) tid = None"
    and feeds: "traced t ver m (single_batches es) fs"
  obtains orch' recs where "audit_events orch tid es obs = Inr (orch', obs @ recs)"
    "same_per_key record_sort_key (map from_observed recs) (map (record_of tid) fs)"
    "orc_library orch' = orc_library orch" "orc_initial_time orch' = orc_initial_time orch"
    "\<And>t. t \<noteq> tid \<Longrightarrow> bm_get (orc_tenants orch') t = bm_get (orc_tenants orch) t"
proof -
  have new: "tenant_state orch tid = detector_new (library_at ver) t" using orch by (simp add: tenant_state_def)
  note fresh = serves_new [OF orch(3), where lib = "library_at ver"]
  have "serves (library_at ver) m 0 (tenant_state orch tid)" "0 + length es \<le> 1000"
      "well_timed m (current_time (tenant_state orch tid)) es"
    using feeds by (simp_all add: traced_def new fresh(1,4))
  from audit_events_trace [OF library_at_plain this, of obs]
  obtain orch' recs where run: "audit_events orch tid es obs = Inr (orch', obs @ recs)"
      "\<forall>r \<in> set recs. adr_tenant_id r = tid" "set (map (af_pattern_id \<circ> adr_payload) recs) \<subseteq> library_ids (library_at ver)"
      "orc_library orch' = orc_library orch" "orc_initial_time orch' = orc_initial_time orch"
      "\<forall>t. t \<noteq> tid \<longrightarrow> bm_get (orc_tenants orch') t = bm_get (orc_tenants orch) t"
      "\<forall>p \<in> set minimum_anomaly_library_patterns. fires_of p (map adr_payload recs) =
         pattern_trace ver m p [] None (stamped t (single_batches es))"
    by (auto simp: new fresh(2-4))
  have "map (\<lambda>p. fires_of p (map adr_payload recs)) minimum_anomaly_library_patterns =
      map (\<lambda>p. fires_of p fs) minimum_anomaly_library_patterns"
    using run(7) feeds by (simp add: traced_def)
  then have "same_fires (map adr_payload recs) fs"
    using run(3) feeds by (auto simp: same_fires_def traced_def pattern_ids_def library_ids_def)
  moreover have "map from_observed recs = map (record_of tid) (map adr_payload recs)"
    using run(2) by (simp add: from_observed_record)
  ultimately have "same_per_key record_sort_key (map from_observed recs) (map (record_of tid) fs)"
    by (metis same_fires_records)
  with run(1,4,5,6) show thesis using that by blast
qed

text \<open>The rotation to the second version.\<close>

definition second_rotation :: "('pk, 'sig) signer_kit \<Rightarrow> nat \<Rightarrow> rotation" where
  "second_rotation kit idx =
     \<lparr>ro_after = idx, ro_cose_hex = kt_hex_encode kit (sign_minimum_library_with_version kit 2),
      ro_start = ROTATE_INITIAL_TIME, ro_abi = ANOMALY_LIBRARY_ABI_VERSION\<rparr>"

lemma rotation_applied:
  assumes laws: "audit_laws kit"
  shows "apply_rotation (kt_env kit) who orch (second_rotation kit idx) [fixture_key kit] =
    Inr (rotate_library orch (library_at 2) 1777640400)"
proof -
  have env: "envelope_laws kit 2" "an_rfc3339 (kt_env kit) ROTATE_INITIAL_TIME = Inr 1777640400"
    using laws by (simp_all add: audit_laws_def)
  have "build_anchor_set (an_crypto (kt_env kit)) [fixture_key kit] AnomalyLibrarySigner =
      Inr [fixture_anchor kit FIXTURE_ANOMALY_KID (fixture_point kit)]"
    using fixture_anchor_set [of kit FIXTURE_ANOMALY_KID] env(1) by (simp add: envelope_laws_def fixture_key_def)
  moreover have "hex_decode (an_crypto (kt_env kit)) (ro_cose_hex (second_rotation kit idx)) =
      Some (sign_minimum_library_with_version kit 2)"
    using env(1) by (simp add: envelope_laws_def hex_laws_def second_rotation_def)
  moreover have "parse_iso_seconds (kt_env kit) (ro_start (second_rotation kit idx)) = Inr 1777640400"
    using env(2) by (simp add: parse_iso_seconds_def second_rotation_def)
  moreover have "fst (verify_anomaly_library_signature_with_ledger (an_crypto (kt_env kit)) (an_decode_payload (kt_env kit))
      ledger_observe (sign_minimum_library_with_version kit 2) [fixture_anchor kit FIXTURE_ANOMALY_KID (fixture_point kit)]
      ANOMALY_LIBRARY_ABI_VERSION 1777640400 ledger_new) = Inr (library_at 2)"
    using with_ledger_answer [of "kt_env kit" _ _ _ _ "[]"] library_at_answer [OF env(1), of 1777640400]
    by (simp add: ledger_new_def)
  ultimately show ?thesis by (simp add: apply_rotation_def second_rotation_def)
qed

lemma replay:
  assumes laws: "audit_laws kit" and anchors: "ei_anchor_keys input = [fixture_key kit]"
    and rot: "ai_rotate input = map_option (second_rotation kit) rot"
  shows "feeds_traced rot idx t ver seen fds \<Longrightarrow> orc_library orch = library_at ver \<Longrightarrow> orc_initial_time orch = t \<Longrightarrow>
     in_i64 t \<Longrightarrow> (\<forall>tid. tid \<notin> set seen \<longrightarrow> bm_get (orc_tenants orch) tid = None) \<Longrightarrow>
     \<exists>recs. audit_streams (kt_env kit) who vec input idx (map feed_stream fds) orch obs = Inr (obs @ recs) \<and>
       same_per_key record_sort_key (map from_observed recs) (concat (map feed_records fds))"
proof (induction fds arbitrary: idx t ver seen orch obs)
  case (Cons fd fds)
  let ?tid = "fd_tenant fd" and ?next = "audit_streams (kt_env kit) who vec input (idx + 1) (map feed_stream fds)"
  have here: "bm_get (orc_tenants orch) ?tid = None" "traced t ver (fd_mandate fd) (single_batches (fd_events fd)) (fd_fires fd)"
    using Cons.prems(1,5) by (simp_all add: feed_ok_def)
  obtain orch' recs where run: "audit_events orch ?tid (fd_events fd) obs = Inr (orch', obs @ recs)"
      "same_per_key record_sort_key (map from_observed recs) (map (record_of ?tid) (fd_fires fd))"
      "orc_library orch' = library_at ver" "orc_initial_time orch' = t"
      "\<And>t. t \<noteq> ?tid \<Longrightarrow> bm_get (orc_tenants orch') t = bm_get (orc_tenants orch) t"
    using tenant_feed [OF Cons.prems(2,3,4) here] Cons.prems(2,3) by metis
  let ?goes = "\<lambda>orch. \<exists>gs. ?next orch (obs @ recs) = Inr ((obs @ recs) @ gs) \<and>
      same_per_key record_sort_key (map from_observed gs) (concat (map feed_records fds))"
  have "if rot = Some idx then ?goes (rotate_library orch' (library_at 2) 1777640400) else ?goes orch'"
  proof (cases "rot = Some idx")
    case True
    then have "?goes (rotate_library orch' (library_at 2) 1777640400)"
      using Cons.prems(1)
      by (intro Cons.IH [where t = 1777640400 and ver = 2 and seen = "[]"])
        (simp_all add: rotate_library_def in_i64_def arith_defs)
    with True show ?thesis by simp
  next
    case False
    then have "?goes orch'"
      using Cons.prems run(3-5)
      by (intro Cons.IH [where t = t and ver = ver and seen = "?tid # seen"]) simp_all
    with False show ?thesis by simp
  qed
  then obtain gs where gs: "(if rot = Some idx then ?next (rotate_library orch' (library_at 2) 1777640400) (obs @ recs)
        else ?next orch' (obs @ recs)) = Inr (obs @ (recs @ gs))"
      "same_per_key record_sort_key (map from_observed gs) (concat (map feed_records fds))"
    by (auto split: if_splits)
  have "audit_streams (kt_env kit) who vec input idx (map feed_stream (fd # fds)) orch obs = Inr (obs @ (recs @ gs))"
    using gs(1) rotation_applied [OF laws, of who orch' idx]
    by (cases rot) (auto simp: feed_stream_def run(1) rot anchors second_rotation_def split: if_splits)
  moreover have "same_per_key record_sort_key (map from_observed (recs @ gs)) (concat (map feed_records (fd # fds)))"
    using same_per_key_append [OF run(2) gs(2)] by (simp add: feed_records_def)
  ultimately show ?case by blast
qed (simp add: same_per_key_def)

section \<open>The executor on a built vector\<close>

definition audit_document :: "('pk, 'sig) signer_kit \<Rightarrow> (string \<times> audit_stream_input) list \<Rightarrow> nat option \<Rightarrow> json" where
  "audit_document kit streams rot =
     audit_document_json (kt_hex_encode kit (sign_minimum_library_with_version kit 1)) (audit_anchor_def kit) streams
       (map_option (second_rotation kit) rot)"

definition audit_typed :: "('pk, 'sig) signer_kit \<Rightarrow> (string \<times> audit_stream_input) list \<Rightarrow> nat option \<Rightarrow> audit_input" where
  "audit_typed kit streams rot =
     \<lparr>ei_cose_hex = kt_hex_encode kit (sign_minimum_library_with_version kit 1), ei_anchor_keys = [fixture_key kit],
      ei_abi = ANOMALY_LIBRARY_ABI_VERSION, ei_now = CURRENT_TIME, ei_pre_ledger = [], ai_start = AUDIT_INITIAL_TIME,
      ai_streams = streams, ai_rotate = map_option (second_rotation kit) rot\<rparr>"

definition streams_fit :: "(string \<times> audit_stream_input) list \<Rightarrow> nat option \<Rightarrow> bool" where
  "streams_fit streams rot \<longleftrightarrow>
     list_all (\<lambda>ts. stream_fits (snd ts)) streams \<and> (case rot of None \<Rightarrow> True | Some i \<Rightarrow> i < 2 ^ 64)"

lemma audit_opens:
  assumes laws: "audit_laws kit" and fits: "streams_fit streams rot" and doc: "v_input vec = audit_document kit streams rot"
  shows "audit_execute (kt_env kit) vec =
    (case audit_streams (kt_env kit) (''audit-replay vector '' @ v_id vec) vec (audit_typed kit streams rot) 0 streams
            (orchestrator_new (library_at 1) 1777636800) [] of
       Inl verdict \<Rightarrow> verdict
     | Inr observed \<Rightarrow> render_records_outcome (kt_env kit) vec observed)"
proof -
  let ?input = "audit_typed kit streams rot"
  have parts: "envelope_laws kit 1" "clocks_law kit" "audit_input_law kit" using laws by (simp_all add: audit_laws_def)
  have "rotation_fits (map_option (second_rotation kit) rot)"
    using fits by (cases rot) (simp_all add: rotation_fits_def streams_fit_def second_rotation_def ANOMALY_LIBRARY_ABI_VERSION_def)
  then have "an_audit_input (kt_env kit) (v_input vec) = Inr ?input"
    using parts(3) fits by (simp add: audit_input_law_def audit_document_def doc audit_typed_def streams_fit_def)
  moreover have "open_library (kt_env kit) (''audit-replay vector '' @ v_id vec) ?input = Inr (Inr (library_at 1))"
    by (rule minimum_opens [OF parts(1,2)]) (simp_all add: audit_typed_def)
  moreover have "parse_iso_seconds (kt_env kit) (ai_start ?input) = Inr 1777636800"
    using parts(2) by (simp add: audit_typed_def clocks_law_def parse_iso_seconds_def AUDIT_INITIAL_TIME_def DETECT_INITIAL_TIME_def)
  moreover have "ai_streams ?input = streams" by (simp add: audit_typed_def)
  ultimately show ?thesis by (simp only: audit_execute_def Let_def sum.case)
qed

lemma audit_frame_is: "audit_frame = vector_frame"
  by (simp add: fun_eq_iff audit_frame_def vector_frame_def)

text \<open>A vector in its frame, and what it is read back as.\<close>

definition audit_framed ::
  "('pk, 'sig) signer_kit \<Rightarrow> string \<Rightarrow> string \<Rightarrow> string \<Rightarrow> string \<Rightarrow> (string \<times> audit_stream_input) list \<Rightarrow> nat option \<Rightarrow>
   json expected_outcome \<Rightarrow> severity_level \<Rightarrow> json" where
  "audit_framed kit i category description rationale streams rot ex level =
     vector_frame i category description (audit_document kit streams rot) (expected_wire ex) rationale (level_wire level)"

lemma framed_audits:
  assumes laws: "audit_laws kit"
    and pass: "\<And>vec. v_input vec = audit_document kit streams rot \<Longrightarrow> v_expected vec = ex \<Longrightarrow> audit_execute (kt_env kit) vec = Pass"
  shows "audits_as kit i category (Some (audit_framed kit i category description rationale streams rot ex level))"
proof -
  have "kt_vector_from_value kit (audit_framed kit i category description rationale streams rot ex level) =
      Some \<lparr>v_id = i, v_category = category, v_description = description, v_input = audit_document kit streams rot,
        v_expected = ex, v_rationale = rationale, v_redteam_refs = [''PHASE-C4-LIVE''], v_severity_if_failed = Some level\<rparr>"
    using laws unfolding audit_framed_def audit_laws_def frame_law_def by blast
  then have "audit_answered kit (audit_framed kit i category description rationale streams rot ex level)"
    using pass by (simp add: audit_answered_def)
  then show ?thesis by (simp add: audits_as_def audit_framed_def vector_frame_def vector_id_def vector_category_def)
qed

lemma feeds_fit: "feeds_traced rot idx t ver seen fds \<Longrightarrow> list_all (\<lambda>ts. stream_fits (snd ts)) (map feed_stream fds)"
  by (induction rot idx t ver seen fds rule: feeds_traced.induct) (auto simp: feed_stream_def feed_ok_def traced_def split: if_splits)

lemma feeds_fires_fit:
  "feeds_traced rot idx t ver seen fds \<Longrightarrow> list_all (\<lambda>r. fire_fits (fire_of_record r)) (concat (map feed_records fds))"
  by (induction rot idx t ver seen fds rule: feeds_traced.induct)
    (auto simp: feed_records_def feed_ok_def traced_def list_all_iff split: if_splits)

definition records_outcome :: "expected_record list \<Rightarrow> json expected_outcome" where
  "records_outcome rs = \<lparr>exp_outcome = Reject, exp_reject_code = Some AGGREGATION_WIRE, exp_output = Some (records_json rs)\<rparr>"

definition accept_outcome :: "json expected_outcome" where
  "accept_outcome = \<lparr>exp_outcome = Accept, exp_reject_code = None, exp_output = None\<rparr>"

definition refusal_outcome :: "string \<Rightarrow> json expected_outcome" where
  "refusal_outcome code = \<lparr>exp_outcome = Reject, exp_reject_code = Some code, exp_output = None\<rparr>"

lemma replayed:
  assumes laws: "audit_laws kit" and feeds: "feeds_traced rot 0 1777636800 1 [] fds" "rot = None \<or> rot = Some 0"
    and doc: "v_input vec = audit_document kit (map feed_stream fds) rot"
  shows "\<exists>recs. audit_execute (kt_env kit) vec = render_records_outcome (kt_env kit) vec recs \<and>
    same_per_key record_sort_key (map from_observed recs) (concat (map feed_records fds))"
proof -
  have "streams_fit (map feed_stream fds) rot" using feeds_fit [OF feeds(1)] feeds(2) by (auto simp: streams_fit_def)
  note opened = audit_opens [OF laws this doc]
  let ?input = "audit_typed kit (map feed_stream fds) rot"
  have "ei_anchor_keys ?input = [fixture_key kit]" "ai_rotate ?input = map_option (second_rotation kit) rot"
    by (simp_all add: audit_typed_def)
  from replay [OF laws this feeds(1), of "orchestrator_new (library_at 1) 1777636800" _ vec "[]"]
  obtain recs where "audit_streams (kt_env kit) (''audit-replay vector '' @ v_id vec) vec ?input 0 (map feed_stream fds)
        (orchestrator_new (library_at 1) 1777636800) [] = Inr recs"
      "same_per_key record_sort_key (map from_observed recs) (concat (map feed_records fds))"
    by (auto simp: orchestrator_new_def in_i64_def arith_defs)
  with opened show ?thesis by auto
qed

lemma records_pass:
  assumes laws: "audit_laws kit" and feeds: "feeds_traced rot 0 1777636800 1 [] fds" "rot = None \<or> rot = Some 0"
    and rs: "rs = concat (map feed_records fds)" "rs \<noteq> []"
  shows "audits_as kit i category (Some (audit_framed kit i category description rationale (map feed_stream fds) rot
    (records_outcome rs) level))"
proof (rule framed_audits [OF laws])
  fix vec :: "json vector"
  assume vec: "v_input vec = audit_document kit (map feed_stream fds) rot" "v_expected vec = records_outcome rs"
  obtain recs where run: "audit_execute (kt_env kit) vec = render_records_outcome (kt_env kit) vec recs"
      "same_per_key record_sort_key (map from_observed recs) rs"
    using replayed [OF laws feeds vec(1)] rs(1) by blast
  have "recs \<noteq> []" using run(2) rs(2) same_per_key_Nil by fastforce
  moreover have "an_expected_records (kt_env kit) (records_json rs) = Inr rs"
    using laws feeds_fires_fit [OF feeds(1)] rs(1) by (simp add: audit_laws_def records_law_def)
  moreover have "sort_key record_sort_key (map from_observed recs) = sort_key record_sort_key rs"
    unfolding sort_key_eq_iff by (rule run(2))
  ultimately show "audit_execute (kt_env kit) vec = Pass"
    by (simp add: run(1) render_records_outcome_def records_match_outcome_def expected_code_of_def Let_def vec(2)
        records_outcome_def AGGREGATION_WIRE_def AGGREGATION_PATTERN_DETECTED_WIRE_def)
qed

lemma silence_passes:
  assumes laws: "audit_laws kit" and feeds: "feeds_traced None 0 1777636800 1 [] fds" "\<forall>fd \<in> set fds. fd_fires fd = []"
  shows "audits_as kit i category (Some (audit_framed kit i category description rationale (map feed_stream fds) None
    accept_outcome level))"
proof (rule framed_audits [OF laws])
  fix vec :: "json vector"
  assume vec: "v_input vec = audit_document kit (map feed_stream fds) None" "v_expected vec = accept_outcome"
  have none: "concat (map feed_records fds) = []" using feeds(2) by (simp add: feed_records_def)
  obtain recs where run: "audit_execute (kt_env kit) vec = render_records_outcome (kt_env kit) vec recs"
      "same_per_key record_sort_key (map from_observed recs) []"
    using replayed [OF laws feeds(1) _ vec(1)] none by auto
  then have "map from_observed recs = []"
    using same_per_key_Nil [of record_sort_key "map from_observed recs"] by (simp add: same_per_key_def)
  then show "audit_execute (kt_env kit) vec = Pass"
    by (simp add: run(1) render_records_outcome_def Let_def vec(2) accept_outcome_def)
qed

lemma refusal_passes:
  assumes laws: "audit_laws kit" and fits: "streams_fit streams None"
    and refused: "\<And>who vec. audit_streams (kt_env kit) who vec (audit_typed kit streams None) 0 streams
        (orchestrator_new (library_at 1) 1777636800) [] = Inl (stream_error_outcome who audit_wire_code vec (idx, stage, err))"
  shows "audits_as kit i category (Some (audit_framed kit i category description rationale streams None
    (refusal_outcome (audit_wire_code err)) level))"
proof (rule framed_audits [OF laws])
  fix vec :: "json vector"
  assume vec: "v_input vec = audit_document kit streams None" "v_expected vec = refusal_outcome (audit_wire_code err)"
  show "audit_execute (kt_env kit) vec = Pass"
    unfolding audit_opens [OF laws fits vec(1)] refused
    by (simp add: stream_error_outcome_def expected_code_of_def vec(2) refusal_outcome_def)
qed

section \<open>The assemblers build framed vectors\<close>

lemma audit_document_None:
  "audit_document kit streams None =
     audit_input_json (kt_hex_encode kit (sign_minimum_library_with_version kit 1)) (audit_anchor_def kit) (map tenant_wire streams)"
  by (simp add: audit_document_def audit_document_json_def audit_input_json_def present_def)

lemma audit_vector_framed:
  "audit_vector kit i category description rationale (map tenant_wire streams) (map record_wire rs) (level_wire level) =
     audit_framed kit i category description rationale streams None (records_outcome rs) level"
  by (simp add: audit_vector_def audit_framed_def audit_frame_is audit_document_None expected_wire_def records_outcome_def
      records_json_def present_def)

lemma audit_accept_framed:
  "audit_accept_vector kit i category description rationale (map tenant_wire streams) =
     audit_framed kit i category description rationale streams None accept_outcome SevMedium"
  by (simp add: audit_accept_vector_def audit_framed_def audit_frame_is audit_document_None expected_wire_def
      accept_outcome_def present_def)

lemma audit_reject_framed:
  "audit_reject_vector kit i category description rationale (map tenant_wire streams) code =
     audit_framed kit i category description rationale streams None (refusal_outcome code) SevHigh"
  by (simp add: audit_reject_vector_def audit_framed_def audit_frame_is audit_document_None expected_wire_def
      refusal_outcome_def present_def)

lemma attach_rotation_framed:
  "attach_rotation kit (audit_framed kit i category description rationale streams None ex level) idx =
     Some (audit_framed kit i category description rationale streams (Some idx) ex level)"
  by (simp add: attach_rotation_def audit_framed_def vector_frame_def audit_document_def audit_document_json_def
      audit_input_json_def present_def rotation_wire_def second_rotation_def)

section \<open>The streams of the vectors\<close>

lemma single_batches_upt: "single_batches (map ev [a..<b]) = map (map ev) (batches_at a [a..<b])"
proof (induction "b - a" arbitrary: a)
  case (Suc k)
  then have "[a..<b] = a # [Suc a..<b]" "[a..<Suc a] = [a]" by (simp_all add: upt_conv_Cons)
  moreover have "single_batches (map ev [Suc a..<b]) = map (map ev) (batches_at (Suc a) [Suc a..<b])" using Suc by simp
  ultimately show ?case by (simp add: single_batches_def)
qed (simp add: single_batches_def)

definition executed_feed ::
  "string \<Rightarrow> int \<Rightarrow> nat \<Rightarrow> nat \<Rightarrow> string \<Rightarrow> string \<Rightarrow> nat \<Rightarrow> string \<Rightarrow> string \<Rightarrow> string \<Rightarrow> (nat \<Rightarrow> string) \<Rightarrow>
   anomaly_fire list \<Rightarrow> feed" where
  "executed_feed tid t d n pre m tier integration verb kind ref fires =
     \<lparr>fd_tenant = tid, fd_mandate = m,
      fd_events = map (executed_at t d (\<lambda>i. pre @ show_nat i) m tier integration verb kind ref) [0..<n], fd_fires = fires\<rparr>"

lemma executed_feed_simps [simp]:
  "fd_tenant (executed_feed tid t d n pre m tier integration verb kind ref fires) = tid"
  "fd_fires (executed_feed tid t d n pre m tier integration verb kind ref fires) = fires"
  by (simp_all add: executed_feed_def)

definition clock_ok :: "int \<Rightarrow> bool" where
  "clock_ok t \<longleftrightarrow> 2 ^ 30 \<le> t \<and> t \<le> 2 ^ 40"

lemma clocks_ok [simp]: "clock_ok 1777636800" "clock_ok 1777640400"
  by (simp_all add: clock_ok_def)

lemma executed_feed_ok:
  assumes "clock_ok t" "0 < d" "d * n \<le> 2 ^ 40" "n \<le> 1000" "tier < 3" "n \<le> 20 \<or> d * 19 \<le> 300"
    and "if fresh then inj_on ref {..<n} else (\<exists>r. \<forall>i < n. ref i = r)"
    and "library_fires ver m verb kind tier fresh d [0..<n] = map (\<lambda>p. fires_of p fires) minimum_anomaly_library_patterns"
    and "listed fires"
  shows "feed_ok t ver (executed_feed tid t d n pre m tier integration verb kind ref fires)"
proof -
  have "spaced t d n [0..<n]" using assms(1-4) by (simp add: spaced_def clock_ok_def)
  from executed_traced [OF this assms(5-9), of "\<lambda>i. pre @ show_nat i" integration] show ?thesis
    by (simp add: feed_ok_def executed_feed_def single_batches_upt)
qed

lemma upt_from_0: "2 \<le> (numeral k :: nat) \<Longrightarrow> [0..<numeral k] = 0 # Suc 0 # [2..<numeral k]"
proof -
  have "2 \<le> n \<Longrightarrow> [0..<n] = 0 # Suc 0 # [2..<n]" for n :: nat
    using upt_conv_Cons [of 0 n] upt_conv_Cons [of "Suc 0" n] by (simp only: Suc_1 [symmetric] One_nat_def)
  then show "2 \<le> (numeral k :: nat) \<Longrightarrow> [0..<numeral k] = 0 # Suc 0 # [2..<numeral k]" .
qed

abbreviation deletes :: "string \<Rightarrow> int \<Rightarrow> nat \<Rightarrow> string \<Rightarrow> string \<Rightarrow> string \<Rightarrow> feed" where
  "deletes tid t ver pre m ref \<equiv>
     executed_feed tid t 1 5 pre m 2 ''k8s'' ''delete'' ''pod'' (\<lambda>_. ref)
       [scoped_fire ver delete_storm_pattern (on_mandate m), scoped_fire ver git_force_push_storm_pattern (on_mandate m)]"

abbreviation reads :: "string \<Rightarrow> string \<Rightarrow> string \<Rightarrow> feed" where
  "reads tid pre m \<equiv> executed_feed tid 1777636800 1 2 pre m 0 ''k8s'' ''get'' ''pod'' (\<lambda>_. ''pod/z'') []"

abbreviation attaches :: "string \<Rightarrow> string \<Rightarrow> string \<Rightarrow> feed" where
  "attaches tid pre m \<equiv>
     executed_feed tid 1777636800 1 5 pre m 2 ''aws'' ''attachrolepolicy'' ''iam-role'' (\<lambda>_. ''role/r0'')
       [scoped_fire 1 iam_attach_policy_storm_pattern (on_mandate m), scoped_fire 1 git_force_push_storm_pattern (on_mandate m)]"

abbreviation rotates :: "string \<Rightarrow> string \<Rightarrow> string \<Rightarrow> feed" where
  "rotates tid pre m \<equiv>
     executed_feed tid 1777636800 1 3 pre m 2 ''vault'' ''rotate'' ''vault-secret'' (\<lambda>_. ''secret/s0'')
       [scoped_fire 1 vault_rotate_storm_pattern ((on_mandate m)\<lparr>mts_verb := Some ''rotate'', mts_resource_kind := Some ''vault-secret''\<rparr>),
        scoped_fire 1 git_force_push_storm_pattern (on_mandate m)]"

lemma deletes_ok: "ver < 2 ^ 64 \<Longrightarrow> clock_ok t \<Longrightarrow> feed_ok t ver (deletes tid t ver pre m ref)"
  by (rule executed_feed_ok [where fresh = False]) (simp_all add: fire_simps list_simps upt_from_0)

lemma reads_ok: "feed_ok 1777636800 1 (reads tid pre m)"
  by (rule executed_feed_ok [where fresh = False]) (simp_all add: fire_simps list_simps upt_from_0)

lemma attaches_ok: "feed_ok 1777636800 1 (attaches tid pre m)"
  by (rule executed_feed_ok [where fresh = False]) (simp_all add: fire_simps list_simps upt_from_0)

lemma rotates_ok: "feed_ok 1777636800 1 (rotates tid pre m)"
  by (rule executed_feed_ok [where fresh = False]) (simp_all add: fire_simps list_simps upt_from_0)

abbreviation fans_out :: "string \<Rightarrow> string \<Rightarrow> string \<Rightarrow> feed" where
  "fans_out tid pre m \<equiv>
     executed_feed tid 1777636800 1 10 pre m 0 ''k8s'' ''delete'' ''pod'' (\<lambda>i. ''pod/n-'' @ show_nat i)
       [scoped_fire 1 fanout_distinct_resources_pattern ((on_mandate m)\<lparr>mts_verb := Some ''delete''\<rparr>),
        scoped_fire 1 delete_storm_pattern (on_mandate m), scoped_fire 1 git_force_push_storm_pattern (on_mandate m),
        scoped_fire 1 git_force_push_slow_burn_pattern (on_mandate m)]"

abbreviation paces :: "string \<Rightarrow> string \<Rightarrow> string \<Rightarrow> feed" where
  "paces tid pre m \<equiv>
     executed_feed tid 1777636800 1 50 pre m 1 ''k8s'' ''patch'' ''deployment'' (\<lambda>i. ''dep/d-'' @ show_nat i)
       [scoped_fire 1 machine_pace_pattern ((on_mandate m)\<lparr>mts_tier := Some 1\<rparr>),
        scoped_fire 1 long_silence_before_burst_pattern (on_mandate m), scoped_fire 1 git_force_push_storm_pattern (on_mandate m),
        scoped_fire 1 git_force_push_slow_burn_pattern (on_mandate m)]"

abbreviation walks :: "string \<Rightarrow> string \<Rightarrow> string \<Rightarrow> feed" where
  "walks tid pre m \<equiv>
     executed_feed tid 1777636800 30 20 pre m 0 ''k8s'' ''delete'' ''pod'' (\<lambda>_. ''pod/x'')
       [scoped_fire 1 delete_slow_burn_pattern (on_mandate m), scoped_fire 1 git_force_push_slow_burn_pattern (on_mandate m),
        scoped_fire 1 git_force_push_storm_pattern (on_mandate m), scoped_fire 1 git_force_push_storm_pattern (on_mandate m)]"

lemma fans_out_ok: "feed_ok 1777636800 1 (fans_out tid pre m)"
  by (rule executed_feed_ok [where fresh = True]) (simp_all add: fire_simps list_simps upt_from_0 inj_on_def show_nat_inj)

lemma paces_ok: "feed_ok 1777636800 1 (paces tid pre m)"
  by (rule executed_feed_ok [where fresh = True]) (simp_all add: fire_simps list_simps upt_from_0 inj_on_def show_nat_inj)

lemma walks_ok: "feed_ok 1777636800 1 (walks tid pre m)"
  by (rule executed_feed_ok [where fresh = False]) (simp_all add: fire_simps list_simps upt_from_0)

text \<open>Three reads that climb the tiers, and a stream without events.\<close>

definition climbs :: "string \<Rightarrow> string \<Rightarrow> string \<Rightarrow> feed" where
  "climbs tid pre m =
     \<lparr>fd_tenant = tid, fd_mandate = m,
      fd_events = map (\<lambda>i. executed (pre @ show_nat i) m (1777636800 + int i) ([0, 2, 3] ! i) ''k8s'' ''get'' ''configmap'' ''cm/c0'') [0..<3],
      fd_fires = [scoped_fire 1 cross_tier_escalation_pattern (on_mandate m), scoped_fire 1 git_force_push_storm_pattern (on_mandate m)]\<rparr>"

lemma climbs_simps [simp]:
  "fd_tenant (climbs tid pre m) = tid"
  "fd_fires (climbs tid pre m) =
     [scoped_fire 1 cross_tier_escalation_pattern (on_mandate m), scoped_fire 1 git_force_push_storm_pattern (on_mandate m)]"
  by (simp_all add: climbs_def)

lemma climbs_ok: "feed_ok 1777636800 1 (climbs tid pre m)"
proof -
  let ?ev = "\<lambda>i. executed (pre @ show_nat i) m (1777636800 + int i) ([0, 2, 3] ! i) ''k8s'' ''get'' ''configmap'' ''cm/c0''"
  have "traced 1777636800 1 m (map (map ?ev) (batches_at 0 [0..<3]))
      [scoped_fire 1 cross_tier_escalation_pattern (on_mandate m), scoped_fire 1 git_force_push_storm_pattern (on_mandate m)]"
    by (rule climbing_traced [where kind = "''configmap''"])
      (simp_all add: stream_ok_def steady_def climbing_def all_of_def upt_from_0)
  then show ?thesis by (simp only: feed_ok_def climbs_def feed.select_convs single_batches_upt)
qed

definition silent_feed :: "string \<Rightarrow> feed" where
  "silent_feed tid = \<lparr>fd_tenant = tid, fd_mandate = [], fd_events = [], fd_fires = []\<rparr>"

lemma silent_feed_simps [simp]: "fd_tenant (silent_feed tid) = tid" "fd_fires (silent_feed tid) = []"
  by (simp_all add: silent_feed_def)

lemma silent_feed_ok: "feed_ok t ver (silent_feed tid)"
  by (simp add: feed_ok_def silent_feed_def single_batches_def traced_def)

lemmas feeds_ok =
  deletes_ok [unfolded One_nat_def] reads_ok [unfolded One_nat_def] attaches_ok [unfolded One_nat_def]
  rotates_ok [unfolded One_nat_def] fans_out_ok [unfolded One_nat_def append.simps] paces_ok [unfolded One_nat_def append.simps]
  walks_ok [unfolded One_nat_def] climbs_ok [unfolded One_nat_def] silent_feed_ok

section \<open>The vectors\<close>

lemma fire_audits:
  assumes "audit_laws kit" "feeds_traced None 0 1777636800 1 [] fds" "concat (map feed_records fds) \<noteq> []"
    "streams = map tenant_wire (map feed_stream fds)" "records = map record_wire (concat (map feed_records fds))"
    "sev = level_wire level"
  shows "audits_as kit i category (Some (audit_vector kit i category description rationale streams records sev))"
  unfolding assms(4-6) audit_vector_framed by (rule records_pass [OF assms(1,2) _ refl assms(3)]) simp

lemma rotated_audits:
  assumes "audit_laws kit" "feeds_traced (Some 0) 0 1777636800 1 [] fds" "concat (map feed_records fds) \<noteq> []"
    "streams = map tenant_wire (map feed_stream fds)" "records = map record_wire (concat (map feed_records fds))"
    "sev = level_wire level"
  shows "audits_as kit i category
    (attach_rotation kit (audit_vector kit i category description rationale streams records sev) 0)"
  unfolding assms(4-6) audit_vector_framed attach_rotation_framed
  by (rule records_pass [OF assms(1,2) _ refl assms(3)]) simp

lemma accept_audits:
  assumes "audit_laws kit" "feeds_traced None 0 1777636800 1 [] fds" "\<forall>fd \<in> set fds. fd_fires fd = []"
    "streams = map tenant_wire (map feed_stream fds)"
  shows "audits_as kit i category (Some (audit_accept_vector kit i category description rationale streams))"
  unfolding assms(4) audit_accept_framed by (rule silence_passes [OF assms(1-3)])

lemma reject_audits:
  assumes "audit_laws kit" "streams_fit typed None"
    "\<And>who vec. audit_streams (kt_env kit) who vec (audit_typed kit typed None) 0 typed
        (orchestrator_new (library_at 1) 1777636800) [] = Inl (stream_error_outcome who audit_wire_code vec (idx, stage, err))"
    "streams = map tenant_wire typed" "code = audit_wire_code err"
  shows "audits_as kit i category (Some (audit_reject_vector kit i category description rationale streams code))"
  unfolding assms(4,5) audit_reject_framed by (rule refusal_passes [OF assms(1-3)])

lemma audit_event_wire:
  "audit_event_named eid m off tier integration verb kind ref =
     event_wire (executed eid m (1777636800 + off) tier integration verb kind ref)"
  "audit_delete_event eid m off tier kind ref =
     event_wire (executed eid m (1777636800 + off) tier ''k8s'' ''delete'' kind ref)"
  "canonical_event_post_rotation eid m off tier integration verb kind ref =
     event_wire (executed eid m (1777640400 + off) tier integration verb kind ref)"
  by (simp_all add: audit_delete_event_def audit_event_named_def canonical_event_post_rotation_def event_wire_def
      executed_def AUDIT_INITIAL_TIME_UNIX_def ROTATE_INITIAL_TIME_UNIX_def)

lemma record_json_wire:
  "expected_record_v tid pid ver sev rule' scope' =
     JObject ((''tenant_id'', JString tid) #
       [(''pattern_id'', JString pid), (''library_version'', json_nat ver), (''severity'', JString sev),
        (''firing_rule'', JString rule'), (''match_scope'', scope')])"
  by (simp add: expected_record_v_def)

lemmas stream_wires =
  tenant_wire_def feed_stream_def executed_feed_def climbs_def silent_feed_def audit_literal_stream_def literal_post_rotation_stream_def
  audit_event_wire executed_at_def show_digits upt_small comp_def mult.commute

lemmas record_wires =
  feed_records_def record_wire_def fire_fields_def scoped_fire_def expected_record_json_def record_json_wire scope_wire_def
  present_def on_mandate_def match_scope_default_def scope_mandate_def scope_mandate_verb_def scope_mandate_tier_def
  scope_mandate_verb_kind_def

lemma arep_100:
  assumes "audit_laws kit"
  shows "audits_as kit ''arep-100'' ''audit-replay-single-tenant-baseline'' (Some (build_arep_100_single_tenant_baseline kit))"
  unfolding build_arep_100_single_tenant_baseline_def Let_def
  by (rule fire_audits [OF assms, where fds = "[deletes ''t-a'' 1777636800 1 ''e-'' ''m-a100'' ''pod/foo'']" and level = SevHigh])
    (simp_all add: feeds_ok, (simp add: stream_wires record_wires)+)

lemma arep_101:
  assumes "audit_laws kit"
  shows "audits_as kit ''arep-101'' ''audit-replay-two-tenants-only-a-fires'' (Some (build_arep_101_two_tenants_only_a_fires kit))"
  unfolding build_arep_101_two_tenants_only_a_fires_def Let_def
  by (rule fire_audits [OF assms, where fds = "[deletes ''t-a'' 1777636800 1 ''ea-'' ''m-a101'' ''pod/x'',
      reads ''t-b'' ''eb-'' ''m-b101'']" and level = SevHigh])
    (simp_all add: feeds_ok, (simp add: stream_wires record_wires)+)

lemma arep_102:
  assumes "audit_laws kit"
  shows "audits_as kit ''arep-102'' ''audit-replay-two-tenants-both-fire'' (Some (build_arep_102_two_tenants_both_fire kit))"
  unfolding build_arep_102_two_tenants_both_fire_def Let_def
  by (rule fire_audits [OF assms, where fds = "[deletes ''t-a'' 1777636800 1 ''ea-'' ''m-a102'' ''pod/x'',
      deletes ''t-b'' 1777636800 1 ''eb-'' ''m-b102'' ''pod/y'']" and level = SevHigh])
    (simp_all add: feeds_ok, (simp add: stream_wires record_wires)+)

lemma arep_103:
  assumes "audit_laws kit"
  shows "audits_as kit ''arep-103'' ''audit-replay-shared-mandate-id-isolated'' (Some (build_arep_103_shared_mandate_id_isolated kit))"
  unfolding build_arep_103_shared_mandate_id_isolated_def Let_def
  by (rule fire_audits [OF assms, where fds = "[deletes ''t-a'' 1777636800 1 ''ea-'' ''m-shared'' ''pod/x'',
      deletes ''t-b'' 1777636800 1 ''eb-'' ''m-shared'' ''pod/y'']" and level = SevCritical])
    (simp_all add: feeds_ok, (simp add: stream_wires record_wires)+)

lemma arep_104:
  assumes "audit_laws kit"
  shows "audits_as kit ''arep-104'' ''audit-replay-three-tenants-three-patterns'' (Some (build_arep_104_three_tenants_three_patterns kit))"
  unfolding build_arep_104_three_tenants_three_patterns_def Let_def
  by (rule fire_audits [OF assms, where fds = "[deletes ''t-a'' 1777636800 1 ''ea-'' ''m-a104'' ''pod/x'',
      attaches ''t-b'' ''eb-'' ''m-b104'',
      rotates ''t-c'' ''ec-'' ''m-c104'']" and level = SevCritical])
    (simp_all add: feeds_ok, (simp add: stream_wires record_wires)+)

lemma arep_105:
  assumes "audit_laws kit"
  shows "audits_as kit ''arep-105'' ''audit-replay-iam-storm-and-cross-tier-escalation'' (Some (build_arep_105_iam_on_a_cross_tier_on_b kit))"
  unfolding build_arep_105_iam_on_a_cross_tier_on_b_def Let_def
  by (rule fire_audits [OF assms, where fds = "[attaches ''t-a'' ''ea-'' ''m-a105'', climbs ''t-b'' ''eb-'' ''m-b105'']" and level = SevCritical])
    (simp_all add: feeds_ok, (simp add: stream_wires record_wires)+)

lemma arep_106:
  assumes "audit_laws kit"
  shows "audits_as kit ''arep-106'' ''audit-replay-fanout-a-mandatepace-b'' (Some (build_arep_106_fanout_a_pace_b kit))"
  unfolding build_arep_106_fanout_a_pace_b_def Let_def
  by (rule fire_audits [OF assms, where fds = "[fans_out ''t-a'' ''ea-'' ''m-a106'', paces ''t-b'' ''eb-'' ''m-b106'']" and level = SevHigh])
    (simp_all add: feeds_ok, (simp add: stream_wires record_wires)+)

lemma arep_107:
  assumes "audit_laws kit"
  shows "audits_as kit ''arep-107'' ''audit-replay-slow-burn-tenant-a-silent-b'' (Some (build_arep_107_slow_burn_cumulative kit))"
  unfolding build_arep_107_slow_burn_cumulative_def Let_def
  by (rule fire_audits [OF assms, where fds = "[walks ''t-a'' ''ea-'' ''m-a107'', reads ''t-b'' ''eb-'' ''m-b107'']" and level = SevHigh])
    (simp_all add: feeds_ok, (simp add: stream_wires record_wires)+)

lemma arep_108:
  assumes "audit_laws kit"
  shows "audits_as kit ''arep-108'' ''audit-replay-rotation-after-stream-zero'' (build_arep_108_rotation_after_stream_zero kit)"
  unfolding build_arep_108_rotation_after_stream_zero_def Let_def
  by (rule rotated_audits [OF assms, where fds = "[deletes ''t-a'' 1777636800 1 ''ea-pre-'' ''m-a108'' ''pod/x'',
      deletes ''t-a'' 1777640400 2 ''ea-post-'' ''m-a108'' ''pod/x'']" and level = SevHigh])
    (simp_all add: feeds_ok, (simp add: stream_wires record_wires)+)

lemma arep_109:
  assumes "audit_laws kit"
  shows "audits_as kit ''arep-109'' ''audit-replay-rotation-after-final-stream'' (build_arep_109_rotation_after_final kit)"
  unfolding build_arep_109_rotation_after_final_def Let_def
  by (rule rotated_audits [OF assms, where fds = "[deletes ''t-a'' 1777636800 1 ''ea-'' ''m-a109'' ''pod/x'']" and level = SevMedium])
    (simp_all add: feeds_ok, (simp add: stream_wires record_wires)+)

lemma arep_110:
  assumes "audit_laws kit"
  shows "audits_as kit ''arep-110'' ''audit-replay-rotation-mid-run-different-tenants'' (build_arep_110_rotation_mid_run kit)"
  unfolding build_arep_110_rotation_mid_run_def Let_def
  by (rule rotated_audits [OF assms, where fds = "[deletes ''t-a'' 1777636800 1 ''ea-'' ''m-a110'' ''pod/x'',
      deletes ''t-b'' 1777640400 2 ''eb-'' ''m-b110'' ''pod/y'']" and level = SevHigh])
    (simp_all add: feeds_ok, (simp add: stream_wires record_wires)+)

lemma arep_114:
  assumes "audit_laws kit"
  shows "audits_as kit ''arep-114'' ''audit-replay-two-tenants-empty'' (Some (build_arep_114_two_tenants_empty kit))"
  unfolding build_arep_114_two_tenants_empty_def Let_def
  by (rule accept_audits [OF assms, where fds = "[silent_feed ''t-a'', silent_feed ''t-b'']"])
    (simp_all add: feeds_ok, (simp add: stream_wires record_wires)+)

lemma arep_115:
  assumes "audit_laws kit"
  shows "audits_as kit ''arep-115'' ''audit-replay-two-tenants-below-threshold'' (Some (build_arep_115_two_tenants_below_threshold kit))"
  unfolding build_arep_115_two_tenants_below_threshold_def Let_def
  by (rule accept_audits [OF assms, where fds = "[reads ''t-a'' ''ea-'' ''m-a115'', reads ''t-b'' ''eb-'' ''m-b115'']"])
    (simp_all add: feeds_ok, (simp add: stream_wires record_wires)+)

lemma arep_116:
  assumes "audit_laws kit"
  shows "audits_as kit ''arep-116'' ''audit-replay-single-tenant-empty'' (Some (build_arep_116_single_tenant_empty kit))"
  unfolding build_arep_116_single_tenant_empty_def Let_def
  by (rule accept_audits [OF assms, where fds = "[silent_feed ''t-a'']"])
    (simp_all add: feeds_ok, (simp add: stream_wires record_wires)+)

text \<open>The refused streams.\<close>

lemma clock_regression_refused:
  assumes "ev_mandate_id e1 = m" "in_i64 (timestamp e1)" "1777636800 \<le> timestamp e1" "timestamp e2 < timestamp e1"
  shows "audit_events (orchestrator_new (library_at 1) 1777636800) tid [e1, e2] [] =
    Inl (ClockRegression (timestamp e1) (timestamp e2))"
proof -
  let ?orch = "orchestrator_new (library_at 1) 1777636800" and ?s = "detector_new (library_at 1) 1777636800"
  have t: "in_i64 1777636800" by (simp add: in_i64_def arith_defs)
  note fresh = serves_new [OF t, where lib = "library_at 1"]
  have new: "tenant_state ?orch tid = ?s" by (simp add: tenant_state_def orchestrator_new_def)
  have "0 + length [e1] \<le> 1000" "well_timed m (current_time ?s) [e1]"
    using assms(1,2,3) by (simp_all add: fresh(4) del: One_nat_def)
  from feed_events [OF library_at_plain fresh(1) this] obtain s1 where s1: "detect_events ?s [e1] = Inr s1"
      "serves (library_at 1) m (0 + length [e1]) s1" "current_time s1 = timestamp e1" by auto
  obtain fs s2 where s2: "evaluate_all dd_ops s1 = (Inr fs, s2)" "current_time s2 = timestamp e1"
    using feed_evaluate [OF library_at_plain s1(2)] s1(3) by metis
  have "observe_event ?orch tid e1 = (Inr (wrap_fires tid (current_time s2) fs), put_tenant ?orch tid s2)"
    by (rule observe_event_single [OF s1(1) s2(1) new])
  moreover have "tenant_state (put_tenant ?orch tid s2) tid = s2" by (simp add: tenant_state_def put_tenant_def bm_get_insert)
  then have "fst (observe_event (put_tenant ?orch tid s2) tid e2) = Inl (ClockRegression (timestamp e1) (timestamp e2))"
    using assms(4) s2(2) by (simp add: observe_event_def observe_detector_def advance_clock_def split: prod.split)
  then obtain orch' where "observe_event (put_tenant ?orch tid s2) tid e2 =
      (Inl (ClockRegression (timestamp e1) (timestamp e2)), orch')"
    by (metis prod.collapse)
  ultimately show ?thesis by simp
qed

lemma arep_111:
  assumes "audit_laws kit"
  shows "audits_as kit ''arep-111'' ''audit-replay-clock-regression'' (Some (build_arep_111_clock_regression kit))"
proof -
  let ?e1 = "executed ''ea-0'' ''m-a111'' (1777636800 + 100) 2 ''k8s'' ''delete'' ''pod'' ''pod/x''"
  let ?e2 = "executed ''ea-1'' ''m-a111'' (1777636800 + 10) 2 ''k8s'' ''delete'' ''pod'' ''pod/x''"
  let ?typed = "[(''t-a'', Literal [?e1, ?e2])]"
  have "audit_events (orchestrator_new (library_at 1) 1777636800) ''t-a'' [?e1, ?e2] [] =
      Inl (ClockRegression 1777636900 1777636810)"
    using clock_regression_refused [of ?e1 "''m-a111''" ?e2] by (simp add: in_i64_def arith_defs)
  then have "audit_streams (kt_env kit) who vec (audit_typed kit ?typed None) 0 ?typed
      (orchestrator_new (library_at 1) 1777636800) [] =
    Inl (stream_error_outcome who audit_wire_code vec (0, ''observe_event'', ClockRegression 1777636900 1777636810))" for who vec
    by (simp only: audit_streams.simps normalize.simps sum.case)
  then show ?thesis
    unfolding build_arep_111_clock_regression_def Let_def
    by (rule reject_audits [OF assms, rotated])
      (simp_all add: streams_fit_def tenant_wire_def audit_literal_stream_def audit_event_wire audit_wire_code_def
        event_fits_def in_i64_def arith_defs)
qed

lemma refused_at_normalize:
  assumes "expand (stream_clock (kt_env kit)) pd = Inl err"
  shows "audit_streams (kt_env kit) who vec input 0 [(tid, PatternDescription pd)] orch [] =
    Inl (stream_error_outcome who audit_wire_code vec (0, ''normalize'', err))"
  using assms by simp

lemma arep_112:
  assumes "audit_laws kit"
  shows "audits_as kit ''arep-112'' ''audit-replay-pattern-description-count-zero'' (Some (build_arep_112_pattern_description_count_zero kit))"
proof -
  let ?pd = "burst_description ''m-a112'' DETECT_INITIAL_TIME 0 0"
  have "expand (stream_clock (kt_env kit)) ?pd = Inl PatternDescriptionCountZero"
    using assms by (simp add: burst_refused audit_laws_def del: One_nat_def)
  note refused_at_normalize [OF this, of _ _ "audit_typed kit [(''t-a'', PatternDescription ?pd)] None" "''t-a''"]
  then show ?thesis
    unfolding build_arep_112_pattern_description_count_zero_def Let_def
    by (rule reject_audits [OF assms, rotated])
      (simp_all add: streams_fit_def tenant_wire_def burst_description_def audit_template_event_def template_wire_def
        audit_wire_code_def AUDIT_INITIAL_TIME_def DETECT_INITIAL_TIME_def)
qed

lemma arep_113:
  assumes "audit_laws kit"
  shows "audits_as kit ''arep-113'' ''audit-replay-timestamp-parse-failed'' (Some (build_arep_113_timestamp_parse_failed kit))"
proof -
  let ?pd = "burst_description ''m-a113'' ''not-a-real-iso-timestamp'' 3 1"
  have "expand (stream_clock (kt_env kit)) ?pd = Inl (TimestampParseFailed RFC3339_PARSE_REASON)"
    using assms by (simp add: burst_refused audit_laws_def del: One_nat_def)
  note refused_at_normalize [OF this, of _ _ "audit_typed kit [(''t-a'', PatternDescription ?pd)] None" "''t-a''"]
  then show ?thesis
    unfolding build_arep_113_timestamp_parse_failed_def Let_def
    by (rule reject_audits [OF assms, rotated])
      (simp_all add: streams_fit_def tenant_wire_def burst_description_def audit_template_event_def template_wire_def
        audit_wire_code_def AUDIT_INITIAL_TIME_def DETECT_INITIAL_TIME_def)
qed

section \<open>All of them\<close>

definition arep_ids :: "string list" where
  "arep_ids = map (\<lambda>n. ''arep-'' @ show_nat n) [100..<117]"

lemma arep_ids_eq:
  "arep_ids =
     [''arep-100'', ''arep-101'', ''arep-102'', ''arep-103'', ''arep-104'', ''arep-105'',
      ''arep-106'', ''arep-107'', ''arep-108'', ''arep-109'', ''arep-110'', ''arep-111'',
      ''arep-112'', ''arep-113'', ''arep-114'', ''arep-115'', ''arep-116'']"
  by code_simp

lemma audit_coverage:
  "coverage_keys build_c4_audit_envelope =
     [''audit-replay-single-tenant-baseline'',
      ''audit-replay-two-tenants-only-a-fires'',
      ''audit-replay-two-tenants-both-fire'',
      ''audit-replay-shared-mandate-id-isolated'',
      ''audit-replay-three-tenants-three-patterns'',
      ''audit-replay-iam-storm-and-cross-tier-escalation'',
      ''audit-replay-fanout-a-mandatepace-b'',
      ''audit-replay-slow-burn-tenant-a-silent-b'',
      ''audit-replay-rotation-after-stream-zero'',
      ''audit-replay-rotation-after-final-stream'',
      ''audit-replay-rotation-mid-run-different-tenants'',
      ''audit-replay-clock-regression'',
      ''audit-replay-pattern-description-count-zero'',
      ''audit-replay-timestamp-parse-failed'',
      ''audit-replay-two-tenants-empty'',
      ''audit-replay-two-tenants-below-threshold'',
      ''audit-replay-single-tenant-empty'']"
  by (simp add: coverage_keys_def build_c4_audit_envelope_def)

lemmas audit_vectors_audited = arep_100 arep_101 arep_102 arep_103 arep_104 arep_105 arep_106 arep_107 arep_108 arep_109
  arep_110 arep_111 arep_112 arep_113 arep_114 arep_115 arep_116

lemma those_audited:
  "list_all2 (\<lambda>o' ic. audits_as kit (fst ic) (snd ic) o') os (zip ids cs) \<Longrightarrow> length ids = length cs \<Longrightarrow>
     \<exists>vs. those os = Some vs \<and> list_all (audit_answered kit) vs \<and> map vector_id vs = map Some ids \<and>
       map vector_category vs = map Some cs"
proof (induction os arbitrary: ids cs)
  case (Cons o' os)
  then obtain i ids' c cs' where ic: "ids = i # ids'" "cs = c # cs'" by (cases ids; cases cs) auto
  then have "audits_as kit i c o'" using Cons.prems(1) by simp
  then obtain v where "o' = Some v" "audit_answered kit v" "vector_id v = Some i" "vector_category v = Some c"
    by (auto simp: audits_as_def)
  moreover have "list_all2 (\<lambda>o' ic. audits_as kit (fst ic) (snd ic) o') os (zip ids' cs')" "length ids' = length cs'"
    using Cons.prems ic by simp_all
  from Cons.IH [OF this] obtain vs where "those os = Some vs" "list_all (audit_answered kit) vs"
      "map vector_id vs = map Some ids'" "map vector_category vs = map Some cs'" by blast
  ultimately show ?case using ic by simp
qed auto

lemma all_audited:
  assumes "audit_laws kit"
  shows "\<exists>vs. build_all_audit kit = Some vs \<and> list_all (audit_answered kit) vs \<and> map vector_id vs = map Some arep_ids \<and>
     map vector_category vs = map Some (coverage_keys build_c4_audit_envelope)"
  unfolding build_all_audit_def
proof (rule those_audited)
  show "list_all2 (\<lambda>o' ic. audits_as kit (fst ic) (snd ic) o')
      [Some (build_arep_100_single_tenant_baseline kit),
        Some (build_arep_101_two_tenants_only_a_fires kit),
        Some (build_arep_102_two_tenants_both_fire kit),
        Some (build_arep_103_shared_mandate_id_isolated kit),
        Some (build_arep_104_three_tenants_three_patterns kit),
        Some (build_arep_105_iam_on_a_cross_tier_on_b kit),
        Some (build_arep_106_fanout_a_pace_b kit),
        Some (build_arep_107_slow_burn_cumulative kit),
        build_arep_108_rotation_after_stream_zero kit,
        build_arep_109_rotation_after_final kit,
        build_arep_110_rotation_mid_run kit,
        Some (build_arep_111_clock_regression kit),
        Some (build_arep_112_pattern_description_count_zero kit),
        Some (build_arep_113_timestamp_parse_failed kit),
        Some (build_arep_114_two_tenants_empty kit),
        Some (build_arep_115_two_tenants_below_threshold kit),
        Some (build_arep_116_single_tenant_empty kit)]
      (zip arep_ids (coverage_keys build_c4_audit_envelope))"
    unfolding arep_ids_eq audit_coverage zip_Cons_Cons zip.simps(1) list_all2_Cons list_all2_Nil fst_conv snd_conv
    by (intro conjI refl audit_vectors_audited [OF assms])
qed (simp add: arep_ids_eq audit_coverage)

section \<open>A toolkit that keeps the laws\<close>

definition read_rotation :: "json \<Rightarrow> rotation" where
  "read_rotation j =
     \<lparr>ro_after = nat (int_field j ''after_tenant_stream_idx''), ro_cose_hex = text_field j ''cose_sign1_bytes_anomaly_library'',
      ro_start = text_field j ''new_initial_time'', ro_abi = nat (int_field j ''expected_abi_version'')\<rparr>"

definition read_audit_input :: "json \<Rightarrow> string + audit_input" where
  "read_audit_input j =
     Inr \<lparr>ei_cose_hex = text_field j ''cose_sign1_bytes_anomaly_library'',
       ei_anchor_keys = map read_anchor (list_field j ''trust_anchor_keys_anomaly_library''),
       ei_abi = nat (int_field j ''expected_abi_version''), ei_now = text_field j ''current_time'', ei_pre_ledger = [],
       ai_start = text_field j ''initial_time'',
       ai_streams = map (\<lambda>ts. (text_field ts ''tenant_id'', read_stream (field ts ''stream''))) (list_field j ''tenant_streams''),
       ai_rotate = map_option read_rotation (json_get j ''rotate_library'')\<rparr>"

definition read_records :: "json \<Rightarrow> string + expected_record list" where
  "read_records j = Inr (map (\<lambda>r. record_of (text_field r ''tenant_id'') (read_fire r)) (list_field j ''records''))"

definition audit_kit :: "(string, string) signer_kit" where
  "audit_kit = stream_kit (\<lambda>_. Inl []) read_audit_input (\<lambda>_. Inl []) read_records"

lemma read_rotation_wire [simp]: "read_rotation (rotation_wire r) = r"
  by (simp add: read_rotation_def rotation_wire_def field_defs)

lemma read_tenant_wire [simp]:
  "text_field (tenant_wire ts) ''tenant_id'' = fst ts" "field (tenant_wire ts) ''stream'' = stream_wire (snd ts)"
  by (simp_all add: tenant_wire_def tenant_stream_def text_field_def field_def)

lemma read_record_wire [simp]: "record_of (text_field (record_wire r) ''tenant_id'') (read_fire (record_wire r)) = r"
proof -
  have "text_field (record_wire r) ''tenant_id'' = er_tenant_id r"
    by (simp add: record_wire_def text_field_def field_def)
  moreover have "read_fire (record_wire r) = read_fire (JObject (fire_fields (fire_of_record r)))"
    by (simp add: read_fire_def record_wire_def fire_fields_def field_def text_field_def int_field_def)
  ultimately show ?thesis by simp
qed

lemma audit_kit_laws: "audit_laws audit_kit"
proof -
  have "read_audit_input (audit_document_json hex (audit_anchor_def audit_kit) streams rot) =
      Inr \<lparr>ei_cose_hex = hex, ei_anchor_keys = [fixture_key audit_kit], ei_abi = ANOMALY_LIBRARY_ABI_VERSION,
        ei_now = CURRENT_TIME, ei_pre_ledger = [], ai_start = AUDIT_INITIAL_TIME, ai_streams = streams, ai_rotate = rot\<rparr>"
    for hex streams rot
    by (cases rot) (simp_all add: read_audit_input_def audit_document_json_def audit_input_json_def audit_anchor_def_def
        field_defs fixture_key_def read_anchor_def present_def comp_def audit_kit_def tenant_wire_def tenant_stream_def)
  then have "audit_input_law audit_kit" by (simp add: audit_input_law_def audit_kit_def)
  moreover have "records_law audit_kit"
    by (simp add: records_law_def audit_kit_def read_records_def records_json_def list_field_def field_def comp_def)
  moreover have "an_rfc3339 (kt_env audit_kit) ROTATE_INITIAL_TIME = Inr 1777640400"
    by (simp add: audit_kit_def stream_clocks_def ROTATE_INITIAL_TIME_def CURRENT_TIME_def DETECT_INITIAL_TIME_def)
  ultimately show ?thesis
    by (simp add: audit_laws_def audit_kit_def stream_kit_envelope stream_kit_clocks stream_kit_frame)
qed

section \<open>The property\<close>

text \<open>C14: the seventeen audit-replay vectors the signer generates pass. Whenever the libraries behave as documented, no
  builder panics, each vector is read back and the audit executor answers Pass on it: the envelope opens, the
  orchestrator run over the tenants' streams, rotated to the second version where the vector says so, makes exactly the
  declared records (or is refused with the declared code), down to tenant, pattern, version, severity and scope. The
  ids are arep-100 to arep-116 in order and the categories are the coverage list of the phase's envelope.\<close>
theorem audit_vectors_pass:
  assumes "audit_laws kit"
  shows "\<exists>vs. build_all_audit kit = Some vs \<and> list_all (audit_answered kit) vs \<and> map vector_id vs = map Some arep_ids \<and>
     map vector_category vs = map Some (coverage_keys build_c4_audit_envelope)"
  by (rule all_audited [OF assms])

lemma audit_vectors_pass_witness:
  "\<exists>vs. build_all_audit audit_kit = Some vs \<and> list_all (audit_answered audit_kit) vs \<and>
     map vector_id vs = map Some arep_ids \<and> map vector_category vs = map Some (coverage_keys build_c4_audit_envelope)"
  by (rule audit_vectors_pass [OF audit_kit_laws])

end
