(* ===== verification/Spec2Isabelle.thy ===== *)
theory Spec2Isabelle
  imports Event Orchestrator Signature Sth Cbor_Correct Classifier Delegation_Correct Runner Tariff Pcr_Correct Canon_Correct Anomaly_Suites_Correct Cli
    Library_Vectors_Correct Detect_Vectors_Correct Audit_Vectors_Correct
begin

text \<open>
  A verification library for the EPHEMERAL reference validator, the Rust workspace under
  \<open>src/reference/validator\<close>.  The validator runs conformance vectors: a vector is an input together with
  the verdict a conforming implementation must reach, and each of its eight suites decides the input with the
  pipeline the specification demands.  File names below are relative to \<open>src/reference/validator\<close>.

  \<^bold>\<open>The program and its parts.\<close>  Five layers, each calling only those before it.
  (1) \<open>crates/ephemeral-crypto\<close> verifies COSE\_Sign1 envelopes against role-bound Ed25519 anchors.
  (2) \<open>crates/ephemeral-attestation\<close> verifies Rekor inclusion proofs, signed tree heads and AWS Nitro
  documents; \<open>crates/ephemeral-classifier\<close> runs a pinned WebAssembly classifier in a sandbox;
  \<open>crates/ephemeral-anomaly\<close> verifies a signed library of anomaly patterns and matches event streams
  against it.  (3) \<open>crates/ephemeral-core\<close> holds the canonical CBOR and JSON codecs, the eight suite
  executors and the runner that loads, dispatches and tallies vector files.  (4) \<open>crates/ephemeral-cli\<close> is
  the command line.  (5) \<open>tools/vector-signer\<close> is the producer: it builds signed vectors and writes them
  into the suite files the validator reads.

  \<^bold>\<open>How the model represents the code.\<close>  A \<open>Result<A, E>\<close> is a sum with \<open>Inl\<close> for the error, an \<open>Option\<close>
  an option; a method on \<open>&mut self\<close> returns its result together with the state it leaves, also on the error
  path.  A \<open>String\<close> or \<open>Vec<u8>\<close> is a list of bytes (an Isabelle \<open>char\<close> is one byte).  Unsigned machine
  integers are natural numbers and signed ones integers; where the code saturates, checks, wraps or
  casts, the bound is written out (\<open>u64_max\<close>, \<open>sat_sub\<close> and their like in \<open>Prelude\<close>), and an operation that could leave
  its range is shown not to, or its panic is a value of the model.  A \<open>BTreeMap\<close> is the ascending
  association list of \<open>BTree\<close>.  A trait object is the record of its methods over a backend state, and the
  contract its documentation states is a locale, interpreted on the backend the code ships.  Panics
  (\<open>expect\<close>, \<open>unreachable!\<close>, index out of bounds) are \<open>None\<close> or an error of their own.  Definitions are
  executable; loops whose bound the code does not show structurally are functions with a termination
  proof.  Of the three raw-JSON scanners of \<open>Canon\<close> the surrogate scan and the number scan stand twice, as the index
  loops of the code (\<open>partial_function\<close>, so that not returning would be a value) and as structural scans, and are proved
  to return and to agree; the duplicate-key scan, which moves one byte in every round, is a structural scan only.
  The one place where the code uses fuel itself, the instruction budget of the WebAssembly
  interpreter, belongs to the interpreter and is a parameter; no definition of the model runs out of fuel.

  \<^bold>\<open>Third-party code\<close> is a parameter, one record per layer, and no law is assumed of it unless a theorem
  says so in its statement:
  \<^item> \<open>crypto_env\<close> (\<open>Crypto\<close>): \<open>ciborium\<close>, \<open>coset\<close>, \<open>ed25519_dalek\<close>, \<open>hex\<close>; \<open>rekor_env\<close> (\<open>Sth\<close>) extends it.
  \<^item> \<open>nitro_env\<close> (\<open>Nitro\<close>): \<open>ciborium\<close>, \<open>x509_parser\<close>, \<open>p384\<close>; SHA-256 is an argument where it is used.
  \<^item> \<open>wasm_env\<close> (\<open>Classifier\<close>): \<open>wasmi\<close>.
  \<^item> \<open>canon_env\<close>, \<open>fuzz_env\<close>, \<open>anomaly_env\<close>, \<open>pcr_env\<close>, \<open>tariff_env\<close> and the arguments of the delegation suite:
    the decoders \<open>serde_json::from_value\<close> stands for, the RFC 3339 parser of \<open>time\<close>, the Unicode tables, the
    debug format of strings, the error texts a verdict quotes.
  \<^item> \<open>harness_env\<close> (\<open>Runner\<close>): the file system, \<open>serde_json\<close> and \<open>jsonschema\<close>; \<open>io_faults\<close> and \<open>json_io\<close>
    (\<open>Vector_Files\<close>): which reads, writes and renames the operating system refuses or cuts short.
  \<^item> \<open>signer_kit\<close> (\<open>Fixtures\<close>): the signing key, the serialisers and the hex encoder of the producer.  Only
    here does a property need laws; they are the predicates collected in \<open>kit_laws\<close>
    (\<open>Library_Vectors_Correct\<close>), \<open>detect_laws\<close> and \<open>audit_laws\<close> (\<open>Detect_Vectors_Correct\<close>, \<open>Audit_Vectors_Correct\<close>): what is serialised parses back, a signature verifies under its own key and
    message and under no other that occurs, hexadecimal text decodes to what was encoded.  The witness
    proves all of them of a concrete toolkit.

  \<^bold>\<open>Theories, in the order of the layers.\<close>

  \<^emph>\<open>Shared vocabulary.\<close>  \<open>Prelude\<close> (machine arithmetic, result shape, lemmas on lists and sums), \<open>BTree\<close> (ordered
  maps and their contract \<open>ordered_map\<close>), \<open>Bytes\<close> (UTF-8, big-endian integers).

  \<^emph>\<open>Envelopes.\<close>  \<open>Crypto\<close> models \<open>ephemeral-crypto/src/{verify,anchors,alg,cose}.rs\<close>: the size and depth guard, the
  protected-header checks in their order, the anchor lookup by key id and role.  Its theorems: the verifier
  accepts exactly under its checks, anchors of other roles are invisible, the guard is exact.

  \<^emph>\<open>Attestation.\<close>  \<open>Merkle\<close> and \<open>Sth\<close> model \<open>ephemeral-attestation/src/rekor.rs\<close> (Block A and B) and the producer's
  \<open>tools/vector-signer/src/merkle.rs\<close>.  An accepted inclusion proof binds leaf, index and path to the tree, or an
  executable extractor returns a hash collision; every proof the producer makes is accepted; a tree head is accepted
  exactly when it is fresh and signed by the one key that speaks for its log at its time.  The
  verifier caps a path at 40 hashes, hence the bound of \<open>2 ^ 40\<close> leaves in the completeness theorem.  \<open>Nitro\<close> and
  \<open>Nitro_Correct\<close> model \<open>nitro.rs\<close>, \<open>cert.rs\<close>, \<open>cose_bridge.rs\<close>, \<open>pcr.rs\<close>, \<open>anchors.rs\<close> and \<open>size_guard.rs\<close>.

  \<^emph>\<open>Classifier.\<close>  \<open>Classifier\<close> models \<open>ephemeral-classifier\<close>: pinning, validation, the memory limiter, the execution
  pipeline and the signature envelope; a denied growth request is reported exactly when a trap follows it.

  \<^emph>\<open>Anomaly engine\<close> (\<open>ephemeral-anomaly\<close>).  \<open>Errors\<close>, \<open>Patterns\<close>, \<open>Event\<close> hold the data and the normalisation of streams;
  \<open>Dedup\<close> and \<open>Ledger\<close> the two ledgers with their contracts \<open>dedup_ledger\<close> and \<open>anomaly_ledger\<close>; \<open>Invariants\<close> and \<open>Signature\<close> the eight
  stages from envelope to verified library; \<open>Buffers\<close>, \<open>Evaluators\<close>, \<open>Detector\<close> the state machine of \<open>state.rs\<close> and
  \<open>evaluators.rs\<close>.  \<open>Firing\<close> gives the reference description of due fires and the refinement of
  \<open>evaluate_all\<close> to it, \<open>Runs\<close> the reachable states as an inductive relation over any interleaving of the
  operations, \<open>Detector_Correct\<close> the properties of every reachable state and log (\<open>Samples\<close> is the concrete library of
  their witnesses).  \<open>Detector_Spec\<close> says what the detector owes its caller without the buffers, the ledger and the
  saturating arithmetic of the code: windows, thresholds, sequences and rest times over the list of accepted events and the
  clock.  It proves that \<open>evaluate_all\<close> returns exactly the fires owed, that every state reached by a run holds the newest
  thousand events of each pattern and mandate that matter, hence that every fire of a run is called for by the
  events that arrived before it; and it derives what follows of thresholds above the ring and of events that arrive late.
  \<open>Orchestrator\<close> models the tenants and proves that no call of one tenant is visible to another.

  \<^emph>\<open>Codecs.\<close>  \<open>Core_Float\<close>, \<open>Cbor\<close>, \<open>Json\<close> model \<open>ephemeral-core/src/cbor/mod.rs\<close> and \<open>codec/mod.rs\<close>; \<open>Cbor_Correct\<close> and \<open>Json\<close>
  prove the round trips and that the encoder computes the canonical encoding, within its nesting and size caps.

  \<^emph>\<open>Suites\<close> (\<open>ephemeral-core/src/suites\<close>).  \<open>Vectors\<close> holds what they share.  \<open>Delegation\<close>, \<open>Tariff\<close>, \<open>Pcr\<close>, \<open>Canon\<close>, \<open>Fuzz\<close>
  and \<open>Anomaly_Suites\<close> (three suites) model one executor each with all of its steps and texts; the theories named
  \<open>_Correct\<close> say what a pipeline accepts as one condition, and when a vector passes.  Conditions and wire codes of a
  verdict are written out again where the verdict is a table (\<open>delegation_rows\<close>, \<open>accept_ok\<close>), so that the statement does not
  rest on the steps it is about; the fires of a detect vector are those \<open>Detector_Spec\<close> calls for, stream by stream.

  \<^emph>\<open>Harness.\<close>  \<open>Runner\<close> (\<open>runner.rs\<close>, \<open>suite_file.rs\<close>, \<open>schema/mod.rs\<close>) loads, validates, dispatches and tallies over any
  executors; \<open>Validator\<close> puts the eight executors in; \<open>Cli\<close> adds \<open>ephemeral-cli/src/main.rs\<close>: effects, summaries, exit
  status.

  \<^emph>\<open>Producer\<close> (\<open>tools/vector-signer\<close>).  \<open>Vector_Files\<close> models the commands that append to and patch suite files over a
  file system with write faults (a patch is atomic; an append is not, and what a broken write leaves is stated).  \<open>Fixtures\<close> models \<open>ephemeral-anomaly/src/test_fixtures.rs\<close>
  and the signing primitives.  \<open>Library_Vectors\<close>, \<open>Detect_Vectors\<close> and \<open>Audit_Vectors\<close> hold the vector builders of
  \<open>phase_c4_library.rs\<close>, \<open>phase_c4_detect.rs\<close> and \<open>phase_c4_audit\<close>.  The theories named \<open>_Correct\<close> after them close the loop: the
  executor of the suite answers every generated vector as the vector declares.

  For the two suites that run event streams the way there has three steps.  \<open>Pattern_Trace\<close> gives each pattern an automaton
  that sees its own live events and its own last fire only, and shows that the loops of both executors refine
  it, for the events of one mandate in order and within the quota of 1000.  \<open>Uniform_Streams\<close> evaluates the automaton
  for every pattern of the minimum library on events a fixed time apart, by counting on indices, so the number of events in
  a vector does not matter to the proofs.  \<open>Stream_Vectors\<close> relates the JSON of the builders to the typed events and
  fires, states the laws of the decoders and holds the readers the witnesses use.

  \<^bold>\<open>Not modelled.\<close>
  \<^item> Allocation failure, stack overflow and the wrap-around of \<open>u32\<close> tallies (a suite file is at most 32 MiB, so one
    file cannot hold \<open>2 ^ 32\<close> vectors; the summaries of \<open>Cli\<close> agree with the code below that bound).
  \<^item> Display texts no verdict or report quotes, \<open>Debug\<close> impls that redact, tracing, time stamps of reports; fields that
    are deserialised and never read; the bytes a failed write of the JSON report leaves behind.
  \<^item> Parsing of the command line (\<open>clap\<close>) and the \<open>serde\<close> derives.
  \<^item> The vector builders of the remaining phases of the signer (\<open>phase_c2_5.rs\<close>, \<open>phase_c3_c.rs\<close>, \<open>phase_c3_c_fuzz.rs\<close>,
    phases C1 and C2 of \<open>main.rs\<close>): they are data, literal documents signed with the
    primitives that \<open>Fixtures\<close> models.  What they hand to the commands is a parameter of \<open>Vector_Files\<close>.
  \<^item> The crate \<open>ephemeral-attestation-test-support\<close> (a test-only producer of Nitro documents around third-party DER and
    P-384 code), and the tools \<open>prod-symbol-probe\<close> and \<open>print-root-fingerprint\<close> (a few lines around a library call).
  \<^item> The signing helpers of \<open>ephemeral-classifier/src/test_fixtures.rs\<close>, which only tests and phase C3-C call.
  \<^item> Unit and integration tests, the conformance vectors and the schema (data), the documents, and the re-exports
    of the \<open>lib.rs\<close> files.
\<close>

end
